(* ===== verification/Prelude.thy ===== *)
theory Prelude
  imports Main "HOL-Library.AList" "HOL-Library.Multiset" "HOL-Library.Char_ord" "HOL-Library.List_Lexorder"
begin

text \<open>
  Shared vocabulary of the development: the result type of fallible code and its
  sequencing, JavaScript's \<^emph>\<open>truthiness\<close> of optional strings, insertion-ordered maps
  (\<^verbatim>\<open>Map\<close> and \<^verbatim>\<open>Record\<close> of the sources) over association lists, decimal printing,
  a stable sort by a comparison, and the collections of simplification rules that the
  component theories extend.
\<close>

section \<open>Collections of rules\<close>

named_theorems result_simps \<open>equations of the result monad\<close>
named_theorems omap_simps \<open>lookup laws of insertion-ordered maps\<close>
named_theorems status_simps \<open>classification of session statuses\<close>
named_theorems guard_simps \<open>guards unfolded to their conditions\<close>

section \<open>Fallible code\<close>

text \<open>
  A function of the sources that may throw returns \<open>'e + 'a\<close>: \<open>Inl\<close> is the exception,
  \<open>Inr\<close> the value. \<open>andThen\<close> is sequencing: what follows a throw does not run.
\<close>

type_synonym ('e, 'a) result = "'e + 'a"

definition andThen :: "('e, 'a) result \<Rightarrow> ('a \<Rightarrow> ('e, 'b) result) \<Rightarrow> ('e, 'b) result" where
  "andThen r k = (case r of Inl e \<Rightarrow> Inl e | Inr a \<Rightarrow> k a)"

definition throwIf :: "bool \<Rightarrow> 'e \<Rightarrow> ('e, unit) result" where
  "throwIf c e = (if c then Inl e else Inr ())"

fun isOk :: "('e, 'a) result \<Rightarrow> bool" where
  "isOk (Inl _) = False"
| "isOk (Inr _) = True"

lemma andThen_Inl [simp, result_simps]: "andThen (Inl e) k = Inl e"
  by (simp add: andThen_def)

lemma andThen_Inr [simp, result_simps]: "andThen (Inr a) k = k a"
  by (simp add: andThen_def)

lemma andThen_eq_Inr [result_simps]:
  "andThen r k = Inr b \<longleftrightarrow> (\<exists>a. r = Inr a \<and> k a = Inr b)"
  by (cases r) auto

lemma throwIf_eq_Inr [simp, result_simps]: "throwIf c e = Inr u \<longleftrightarrow> \<not> c"
  by (simp add: throwIf_def)

lemma throwIf_eq_Inl [simp, result_simps]: "throwIf c e = Inl e' \<longleftrightarrow> c \<and> e' = e"
  by (auto simp: throwIf_def)

lemma throwIf_False [simp]: "throwIf False e = Inr ()"
  by (simp add: throwIf_def)

lemma throwIf_True [simp]: "throwIf True e = Inl e"
  by (simp add: throwIf_def)

lemma isOk_iff: "isOk r \<longleftrightarrow> (\<exists>a. r = Inr a)"
  by (cases r) auto

section \<open>Optional values\<close>

text \<open>
  \<^verbatim>\<open>a ?? b\<close> is \<open>orElse\<close>; a string used as a condition is false when it is undefined
  or empty (\<open>truthy\<close>).
\<close>

definition orElse :: "'a option \<Rightarrow> 'a option \<Rightarrow> 'a option" where
  "orElse a b = (case a of None \<Rightarrow> b | Some x \<Rightarrow> Some x)"

definition withDefault :: "'a option \<Rightarrow> 'a \<Rightarrow> 'a" where
  "withDefault a d = (case a of None \<Rightarrow> d | Some x \<Rightarrow> x)"

fun truthy :: "string option \<Rightarrow> bool" where
  "truthy None = False"
| "truthy (Some s) = (s \<noteq> [])"

lemma orElse_simps [simp]: "orElse None b = b" "orElse (Some x) b = Some x"
  by (simp_all add: orElse_def)

lemma withDefault_simps [simp]: "withDefault None d = d" "withDefault (Some x) d = x"
  by (simp_all add: withDefault_def)

lemma truthy_iff: "truthy s \<longleftrightarrow> (\<exists>x. s = Some x \<and> x \<noteq> [])"
  by (cases s) auto

section \<open>Insertion-ordered maps\<close>

text \<open>
  A JavaScript \<^verbatim>\<open>Map\<close> iterates in insertion order and setting an existing key keeps its
  place: an association list with distinct keys and \<^const>\<open>AList.update\<close>.
\<close>

type_synonym ('k, 'v) omap = "('k \<times> 'v) list"

abbreviation omap_get :: "('k, 'v) omap \<Rightarrow> 'k \<Rightarrow> 'v option" where
  "omap_get m k \<equiv> map_of m k"

abbreviation omap_set :: "'k \<Rightarrow> 'v \<Rightarrow> ('k, 'v) omap \<Rightarrow> ('k, 'v) omap" where
  "omap_set k v m \<equiv> AList.update k v m"

abbreviation omap_values :: "('k, 'v) omap \<Rightarrow> 'v list" where
  "omap_values m \<equiv> map snd m"

definition omap_wf :: "('k, 'v) omap \<Rightarrow> bool" where
  "omap_wf m \<longleftrightarrow> distinct (map fst m)"

lemma omap_wf_Nil [simp]: "omap_wf []"
  by (simp add: omap_wf_def)

lemma omap_get_set [omap_simps]: "omap_get (omap_set k v m) k' = (if k' = k then Some v else omap_get m k')"
  by (simp add: update_conv')

lemma omap_wf_set [omap_simps]: "omap_wf m \<Longrightarrow> omap_wf (omap_set k v m)"
  by (simp add: omap_wf_def distinct_update)

lemma omap_values_get:
  "omap_wf m \<Longrightarrow> v \<in> set (omap_values m) \<longleftrightarrow> (\<exists>k. omap_get m k = Some v)"
  by (force simp: omap_wf_def)

lemma omap_get_values: "omap_get m k = Some v \<Longrightarrow> v \<in> set (omap_values m)"
  by (force dest: map_of_SomeD)

text \<open>
  The contract of such a map, as the clients use it: what a lookup returns after a write
  and that writes keep the keys distinct.
\<close>

locale ordered_map =
  fixes get :: "'m \<Rightarrow> 'k \<Rightarrow> 'v option"
    and put :: "'k \<Rightarrow> 'v \<Rightarrow> 'm \<Rightarrow> 'm"
    and vals :: "'m \<Rightarrow> 'v list"
    and invar :: "'m \<Rightarrow> bool"
  assumes get_put: "get (put k v m) k' = (if k' = k then Some v else get m k')"
    and invar_put: "invar m \<Longrightarrow> invar (put k v m)"
    and vals_get: "invar m \<Longrightarrow> v \<in> set (vals m) \<longleftrightarrow> (\<exists>k. get m k = Some v)"
begin

text \<open>
  A property of all entries survives a write of an entry that has it; a property of
  pairs of entries survives a write that pairs well with every other entry.
\<close>

lemma all_put:
  assumes "\<And>k' v'. get m k' = Some v' \<Longrightarrow> P k' v'" and "P k v"
  shows "get (put k v m) k' = Some v' \<Longrightarrow> P k' v'"
  using assms by (auto simp: get_put split: if_splits)

lemma vals_put:
  assumes "invar m" and "v' \<in> set (vals (put k v m))"
  shows "v' = v \<or> (\<exists>k'. k' \<noteq> k \<and> get m k' = Some v')"
  using assms vals_get [of "put k v m" v'] invar_put [of m k v]
  by (auto simp: get_put split: if_splits)

end

interpretation om: ordered_map "\<lambda>m k. omap_get m k" omap_set omap_values omap_wf
  by unfold_locales (simp_all only: omap_simps omap_values_get)

section \<open>Lists\<close>

lemma find_Some_mem: "List.find P xs = Some x \<Longrightarrow> x \<in> set xs \<and> P x"
  by (induction xs) (auto split: if_splits)

lemma find_None_iff_all: "List.find P xs = None \<longleftrightarrow> (\<forall>x \<in> set xs. \<not> P x)"
  by (auto simp: find_None_iff)

lemma map_filter_append: "List.map_filter f (xs @ ys) = List.map_filter f xs @ List.map_filter f ys"
  by (simp add: List.map_filter_def)

lemma sum_list_map_remove1:
  fixes f :: "'a \<Rightarrow> int"
  assumes "x \<in> set xs"
  shows "sum_list (map f (remove1 x xs)) = sum_list (map f xs) - f x"
  using assms by (induction xs) auto

text \<open>A stable insertion sort by a comparison, as \<^verbatim>\<open>Array.prototype.sort\<close> is stable.\<close>

fun insert_by :: "('a \<Rightarrow> 'a \<Rightarrow> bool) \<Rightarrow> 'a \<Rightarrow> 'a list \<Rightarrow> 'a list" where
  "insert_by le x [] = [x]"
| "insert_by le x (y # ys) = (if le x y then x # y # ys else y # insert_by le x ys)"

definition sort_by :: "('a \<Rightarrow> 'a \<Rightarrow> bool) \<Rightarrow> 'a list \<Rightarrow> 'a list" where
  "sort_by le xs = foldr (insert_by le) xs []"

lemma set_insert_by [simp]: "set (insert_by le x xs) = insert x (set xs)"
  by (induction xs) auto

lemma set_sort_by [simp]: "set (sort_by le xs) = set xs"
  unfolding sort_by_def by (induction xs) auto

lemma length_insert_by [simp]: "length (insert_by le x xs) = Suc (length xs)"
  by (induction xs) auto

lemma length_sort_by [simp]: "length (sort_by le xs) = length xs"
  unfolding sort_by_def by (induction xs) auto

section \<open>Multisets of tickets\<close>

text \<open>
  Numbers handed out one after the other are accounted for as a multiset: each of them is in
  exactly one place when the places together hold \<open>mset [0..<n]\<close>.
\<close>

lemma count_upt: "count (mset [0..<n]) i \<le> 1"
  by (induction n) auto

lemma distinct_subseteq: "mset xs \<subseteq># mset ys \<Longrightarrow> distinct ys \<Longrightarrow> distinct xs"
proof (induction xs arbitrary: ys)
  case (Cons x xs)
  then have "x \<in> set ys" by (metis list.set_intros(1) mset_subset_eqD set_mset_mset)
  moreover have xs: "mset xs \<subseteq># mset (remove1 x ys)"
    using Cons.prems(1) by (simp add: insert_subset_eq_iff)
  moreover have "set xs \<subseteq> set (remove1 x ys)" using set_mset_mono [OF xs] by (simp only: set_mset_mset)
  ultimately show ?case using Cons.IH [of "remove1 x ys"] Cons.prems(2) by auto
qed simp

section \<open>Strings\<close>

text \<open>
  Strings are UTF-8 byte lists. \<open>js_length\<close> is the number of UTF-16 code units, as
  \<^verbatim>\<open>String.prototype.length\<close> counts them: continuation bytes count nothing, a four-byte
  sequence is a surrogate pair. \<open>js_blank\<close> holds when \<^verbatim>\<open>trim()\<close> leaves the empty string.
\<close>

definition utf16_units :: "char \<Rightarrow> nat" where
  "utf16_units c = (let n = of_char c :: nat in if n < 128 then 1 else if n < 192 then 0 else if n < 240 then 1 else 2)"

definition js_length :: "string \<Rightarrow> nat" where
  "js_length s = sum_list (map utf16_units s)"

fun blank_codes :: "nat list \<Rightarrow> bool" where
  "blank_codes [] = True"
| "blank_codes (a # s) =
     (if a \<in> {9, 10, 11, 12, 13, 32} then blank_codes s
      else case s of
        [] \<Rightarrow> False
      | b # t \<Rightarrow>
          if a = 194 \<and> b = 160 then blank_codes t
          else case t of
            [] \<Rightarrow> False
          | c # u \<Rightarrow>
              if (a, b, c) \<in> {(225, 154, 128), (226, 129, 159), (227, 128, 128), (239, 187, 191)} \<or>
                 (a = 226 \<and> b = 128 \<and> (128 \<le> c \<and> c \<le> 138 \<or> c \<in> {168, 169, 175}))
              then blank_codes u else False)"

definition js_blank :: "string \<Rightarrow> bool" where
  "js_blank s = blank_codes (map of_char s)"

text \<open>\<^verbatim>\<open>s.replace(pattern, replacement)\<close> with string arguments: the first occurrence only.\<close>

fun replaceFirst :: "string \<Rightarrow> string \<Rightarrow> string \<Rightarrow> string" where
  "replaceFirst pat repl [] = (if pat = [] then repl else [])"
| "replaceFirst pat repl (c # s) =
     (if take (length pat) (c # s) = pat then repl @ drop (length pat) (c # s) else c # replaceFirst pat repl s)"

section \<open>Decimal printing\<close>

definition digit_char :: "nat \<Rightarrow> char" where
  "digit_char d = char_of (48 + d)"

fun show_nat :: "nat \<Rightarrow> string" where
  "show_nat n = (if n < 10 then [digit_char n] else show_nat (n div 10) @ [digit_char (n mod 10)])"

definition show_int :: "int \<Rightarrow> string" where
  "show_int i = (if i < 0 then CHR ''-'' # show_nat (nat (- i)) else show_nat (nat i))"

declare show_nat.simps [simp del]

end
