(* ===== verification/Canonical.thy ===== *)
theory Canonical
  imports Prelude "HOL-Library.Multiset"
begin

text \<open>
  Canonical JSON and protocol digests (\<^verbatim>\<open>packages/core/src/protocol/canonical.ts\<close>).
  A JSON value serialises with its object keys sorted; a protocol digest is SHA-256 over
  a schema tag and the canonical text. SHA-256 itself (\<^verbatim>\<open>node:crypto\<close>) is the parameter
  \<open>sha\<close>: it maps a byte string to its hexadecimal digest. Strings are lists of UTF-8
  bytes, so a lone surrogate cannot occur and the Unicode assertion always holds. The
  theory shows that canonical text determines the value up to the order of object keys,
  which is what the guards that compare canonical texts rely on.
\<close>

section \<open>JSON values and their serialisation\<close>

text \<open>
  The values of \<^verbatim>\<open>unknown\<close> that the sources inspect. A number is an integer or, for every
  other number, the text the engine prints for it (\<^verbatim>\<open>NaN\<close> and the infinities included).
\<close>

datatype json =
    JUndefined
  | JNull
  | JBool bool
  | JInt int
  | JFloat string
  | JStr string
  | JArr "json list"
  | JObj "(string \<times> json) list"

datatype canonicalError = NonFiniteNumber | UndefinedField | InvalidSchema

text \<open>A field that is present only when its value is.\<close>

definition optField :: "string \<Rightarrow> ('a \<Rightarrow> json) \<Rightarrow> 'a option \<Rightarrow> (string \<times> json) list" where
  "optField k f v = (case v of None \<Rightarrow> [] | Some x \<Rightarrow> [(k, f x)])"

definition nonFiniteTexts :: "string list" where
  "nonFiniteTexts = [''NaN'', ''Infinity'', ''-Infinity'']"

definition hex_char :: "nat \<Rightarrow> char" where
  "hex_char d = (if d < 10 then digit_char d else char_of (87 + d))"

text \<open>\<^verbatim>\<open>JSON.stringify\<close> on a string.\<close>

definition escape_char :: "char \<Rightarrow> string" where
  "escape_char c =
     (if c = CHR 0x22 then [CHR 0x5C, CHR 0x22]
      else if c = CHR 0x5C then [CHR 0x5C, CHR 0x5C]
      else if c = CHR 0x08 then [CHR 0x5C, CHR ''b'']
      else if c = CHR 0x09 then [CHR 0x5C, CHR ''t'']
      else if c = CHR 0x0A then [CHR 0x5C, CHR ''n'']
      else if c = CHR 0x0C then [CHR 0x5C, CHR ''f'']
      else if c = CHR 0x0D then [CHR 0x5C, CHR ''r'']
      else if of_char c < (32::nat)
      then [CHR 0x5C, CHR ''u'', CHR ''0'', CHR ''0'', hex_char (of_char c div 16), hex_char (of_char c mod 16)]
      else [c])"

abbreviation dquote :: char where
  "dquote \<equiv> CHR 0x22"

definition json_quote :: "string \<Rightarrow> string" where
  "json_quote s = dquote # concat (map escape_char s) @ [dquote]"

fun join_with :: "string \<Rightarrow> string list \<Rightarrow> string" where
  "join_with sep [] = []"
| "join_with sep [x] = x"
| "join_with sep (x # xs) = x @ sep @ join_with sep xs"

text \<open>
  The order of JavaScript strings compares UTF-16 code units. On UTF-8 bytes this is the bytewise
  order, but for the characters from U+E000 to U+FFFF (lead bytes EE and EF): they come after the
  characters beyond them (lead bytes F0 to F4), which UTF-16 writes with surrogates.
\<close>

definition utf16_order :: "string \<Rightarrow> nat list" where
  "utf16_order s = map (\<lambda>c. let n = of_char c in if n = 0xEE \<or> n = 0xEF then n + 16 else n) s"

definition key_order :: "string \<times> 'a \<Rightarrow> nat list" where
  "key_order kv = utf16_order (fst kv)"

definition render_field :: "string \<times> string \<Rightarrow> string" where
  "render_field kv = json_quote (fst kv) @ '':'' @ snd kv"

fun serialize :: "json \<Rightarrow> (canonicalError, string) result"
  and serialize_elems :: "json list \<Rightarrow> (canonicalError, string list) result"
  and serialize_fields :: "(string \<times> json) list \<Rightarrow> (canonicalError, (string \<times> string) list) result"
where
  "serialize JUndefined = Inl UndefinedField"
| "serialize JNull = Inr ''null''"
| "serialize (JBool b) = Inr (if b then ''true'' else ''false'')"
| "serialize (JInt i) = Inr (show_int i)"
| "serialize (JFloat t) = (if t \<in> set nonFiniteTexts then Inl NonFiniteNumber else Inr t)"
| "serialize (JStr s) = Inr (json_quote s)"
| "serialize (JArr xs) =
     andThen (serialize_elems xs) (\<lambda>es. Inr (''['' @ join_with '','' es @ '']''))"
| "serialize (JObj fs) =
     andThen (serialize_fields fs)
       (\<lambda>kvs. Inr (''{'' @ join_with '','' (map render_field (sort_key key_order kvs)) @ ''}''))"
| "serialize_elems [] = Inr []"
| "serialize_elems (x # xs) =
     andThen (serialize x) (\<lambda>s. andThen (serialize_elems xs) (\<lambda>ss. Inr (s # ss)))"
| "serialize_fields [] = Inr []"
| "serialize_fields ((k, x) # fs) =
     andThen (serialize x) (\<lambda>s. andThen (serialize_fields fs) (\<lambda>ss. Inr ((k, s) # ss)))"

definition canonicalize :: "json \<Rightarrow> (canonicalError, string) result" where
  "canonicalize v = serialize v"

section \<open>Protocol digests\<close>

definition isAsciiLetter :: "char \<Rightarrow> bool" where
  "isAsciiLetter c = (let n = of_char c :: nat in (65 \<le> n \<and> n \<le> 90) \<or> (97 \<le> n \<and> n \<le> 122))"

definition isAsciiDigit :: "char \<Rightarrow> bool" where
  "isAsciiDigit c = (let n = of_char c :: nat in 48 \<le> n \<and> n \<le> 57)"

definition assertSchema :: "string \<Rightarrow> int \<Rightarrow> (canonicalError, unit) result" where
  "assertSchema schemaId version =
     throwIf (\<not> ((case schemaId of [] \<Rightarrow> False
                  | c # cs \<Rightarrow> isAsciiLetter c \<and> list_all (\<lambda>d. isAsciiLetter d \<or> isAsciiDigit d) cs)
                \<and> 0 < version \<and> version \<le> 2 ^ 53 - 1))
       InvalidSchema"

definition protocolBytes :: "string \<Rightarrow> int \<Rightarrow> json \<Rightarrow> (canonicalError, string) result" where
  "protocolBytes schemaId version payload =
     andThen (assertSchema schemaId version) (\<lambda>_.
       andThen (canonicalize payload) (\<lambda>text.
         Inr (''zhixing:'' @ schemaId @ '':v'' @ show_int version @ [CHR 0x00] @ text)))"

definition protocolDigest ::
  "(string \<Rightarrow> string) \<Rightarrow> string \<Rightarrow> int \<Rightarrow> json \<Rightarrow> (canonicalError, string) result" where
  "protocolDigest sha schemaId version payload =
     andThen (protocolBytes schemaId version payload) (\<lambda>bytes. Inr (''sha256:'' @ sha bytes))"

section \<open>Tokens determine their values\<close>

text \<open>
  Decoders for decimal numerals and for string escapes, used only to show that printing
  loses nothing.
\<close>

definition read_nat :: "string \<Rightarrow> nat" where
  "read_nat s = foldl (\<lambda>a c. 10 * a + (of_char c - 48)) 0 s"

lemma of_digit_char [simp]: "d < 10 \<Longrightarrow> of_char (digit_char d) = (48 + d :: nat)"
  by (simp add: digit_char_def)

lemma read_show_nat: "read_nat (show_nat n) = n"
proof (induction n rule: show_nat.induct)
  case (1 n)
  then show ?case
    by (cases "n < 10") (simp_all add: show_nat.simps [of n] read_nat_def)
qed

definition num_char :: "char \<Rightarrow> bool" where
  "num_char c \<longleftrightarrow> isAsciiDigit c \<or> c \<in> set ''+-.eE''"

lemma show_nat_chars: "list_all isAsciiDigit (show_nat n) \<and> show_nat n \<noteq> []"
proof (induction n rule: show_nat.induct)
  case (1 n)
  then show ?case
    by (cases "n < 10") (simp_all add: show_nat.simps [of n] isAsciiDigit_def)
qed

definition read_int :: "string \<Rightarrow> int" where
  "read_int s = (if take 1 s = ''-'' then - int (read_nat (tl s)) else int (read_nat s))"

lemma read_show_int: "read_int (show_int i) = i"
proof -
  have "take 1 (show_nat n) \<noteq> ''-''" for n
    using show_nat_chars [of n] by (cases "show_nat n") (auto simp: isAsciiDigit_def)
  then show ?thesis by (simp add: read_int_def show_int_def read_show_nat)
qed

lemma show_int_inj: "show_int i = show_int j \<Longrightarrow> i = j"
  by (metis read_show_int)

lemma show_int_chars:
  "list_all (\<lambda>c. isAsciiDigit c \<or> c = CHR ''-'') (show_int i)" "show_int i \<noteq> []"
  using show_nat_chars [of "nat i"] show_nat_chars [of "nat (- i)"]
  by (auto simp: show_int_def list_all_iff)

definition hex_value :: "char \<Rightarrow> nat" where
  "hex_value c = (let n = of_char c in if n < 58 then n - 48 else n - 87)"

fun unescape :: "string \<Rightarrow> (char \<times> string) option" where
  "unescape (c # r) =
     (if c \<noteq> CHR 0x5C then Some (c, r)
      else case r of
        [] \<Rightarrow> None
      | d # r' \<Rightarrow>
          if d = CHR ''b'' then Some (CHR 0x08, r')
          else if d = CHR ''t'' then Some (CHR 0x09, r')
          else if d = CHR ''n'' then Some (CHR 0x0A, r')
          else if d = CHR ''f'' then Some (CHR 0x0C, r')
          else if d = CHR ''r'' then Some (CHR 0x0D, r')
          else if d = CHR ''u'' then Some (char_of (16 * hex_value (r' ! 2) + hex_value (r' ! 3)), drop 4 r')
          else Some (d, r'))"
| "unescape [] = None"

lemma hex_value_char: "d < 16 \<Longrightarrow> hex_value (hex_char d) = d"
  by (auto simp: hex_value_def hex_char_def Let_def)

lemma hex_pair: "n < 256 \<Longrightarrow> 16 * hex_value (hex_char (n div 16)) + hex_value (hex_char (n mod 16)) = n"
  by (simp add: hex_value_char)

lemma unescape_escape: "unescape (escape_char c @ r) = Some (c, r)"
  using hex_pair [of "of_char c"] by (simp add: escape_char_def)

lemma escape_char_hd: "escape_char c = d # ds \<Longrightarrow> d \<noteq> dquote"
  by (auto simp: escape_char_def split: if_splits)

lemma escape_char_nonempty [simp]: "escape_char c \<noteq> []"
  by (simp add: escape_char_def)

lemma escapes_inj:
  "concat (map escape_char s) @ dquote # r = concat (map escape_char t) @ dquote # u \<Longrightarrow> s = t \<and> r = u"
proof (induction s arbitrary: t)
  case Nil
  show ?case
  proof (cases t)
    case (Cons d t')
    obtain e es where "escape_char d = e # es" by (cases "escape_char d") simp_all
    with Nil Cons escape_char_hd [of d e es] show ?thesis by simp
  qed (use Nil in simp)
next
  case (Cons c s)
  obtain e es where e: "escape_char c = e # es" by (cases "escape_char c") simp_all
  show ?case
  proof (cases t)
    case Nil
    with Cons.prems e escape_char_hd [OF e] show ?thesis by simp
  next
    case t: (Cons d t')
    have "escape_char c @ concat (map escape_char s) @ dquote # r
        = escape_char d @ concat (map escape_char t') @ dquote # u"
      using Cons.prems t by (simp only: list.map concat.simps append_assoc)
    then have "unescape (escape_char c @ concat (map escape_char s) @ dquote # r)
        = unescape (escape_char d @ concat (map escape_char t') @ dquote # u)" by (rule arg_cong)
    then have "c = d" and "concat (map escape_char s) @ dquote # r = concat (map escape_char t') @ dquote # u"
      by (simp_all only: unescape_escape option.inject prod.inject)
    with t Cons.IH [of t'] show ?thesis by simp
  qed
qed

lemma json_quote_inj: "json_quote s @ r = json_quote t @ u \<Longrightarrow> s = t \<and> r = u"
  by (rule escapes_inj) (simp add: json_quote_def)

section \<open>Canonical text determines the value\<close>

text \<open>
  Well-formed values: object keys are distinct, and the text of a non-integer number is
  one that no integer prints as.
\<close>

fun json_wf :: "json \<Rightarrow> bool" where
  "json_wf (JFloat t) =
     (t \<in> set nonFiniteTexts \<or>
      list_all num_char t \<and> t \<noteq> [] \<and> (\<exists>c \<in> set t. \<not> isAsciiDigit c \<and> c \<noteq> CHR ''-''))"
| "json_wf (JArr xs) = list_all json_wf xs"
| "json_wf (JObj fs) = (distinct (map fst fs) \<and> list_all (\<lambda>(k, v). json_wf v) fs)"
| "json_wf _ = True"

text \<open>The same value with the keys of every object in canonical order.\<close>

fun json_norm :: "json \<Rightarrow> json" where
  "json_norm (JArr xs) = JArr (map json_norm xs)"
| "json_norm (JObj fs) = JObj (sort_key key_order (map (\<lambda>(k, v). (k, json_norm v)) fs))"
| "json_norm v = v"

fun json_sorted :: "json \<Rightarrow> bool" where
  "json_sorted (JArr xs) = list_all json_sorted xs"
| "json_sorted (JObj fs) = (sorted (map key_order fs) \<and> list_all (\<lambda>(k, v). json_sorted v) fs)"
| "json_sorted v = True"

lemma json_norm_sorted: "json_sorted (json_norm v)"
  by (induction v rule: json_norm.induct) (auto simp: list_all_iff)

lemma distinct_map_fst_sort:
  "distinct (map fst (sort_key key_order xs)) \<longleftrightarrow> distinct (map fst xs)"
  by (metis mset_eq_imp_distinct_iff mset_map mset_sort)

lemma json_norm_wf: "json_wf v \<Longrightarrow> json_wf (json_norm v)"
proof (induction v rule: json_norm.induct)
  case (2 fs)
  have fst_eq: "map fst (map (\<lambda>(k, v). (k, json_norm v)) fs) = map fst fs" by auto
  have "distinct (map fst (sort_key key_order (map (\<lambda>(k, v). (k, json_norm v)) fs)))"
    using 2 by (simp only: distinct_map_fst_sort fst_eq json_wf.simps)
  with 2 show ?case by (auto simp: list_all_iff)
qed (auto simp: list_all_iff)

text \<open>Serialising fields keeps their keys, and commutes with sorting by key.\<close>

definition same_field :: "string \<times> json \<Rightarrow> string \<times> string \<Rightarrow> bool" where
  "same_field f kv \<longleftrightarrow> fst f = fst kv \<and> serialize (snd f) = Inr (snd kv)"

lemma serialize_fields_iff: "serialize_fields fs = Inr kvs \<longleftrightarrow> list_all2 same_field fs kvs"
  by (induction fs arbitrary: kvs)
    (auto simp: andThen_eq_Inr same_field_def list_all2_Cons1)

lemma serialize_elems_iff: "serialize_elems xs = Inr ss \<longleftrightarrow> list_all2 (\<lambda>x s. serialize x = Inr s) xs ss"
  by (induction xs arbitrary: ss) (auto simp: andThen_eq_Inr list_all2_Cons1)

lemma same_field_key: "same_field f kv \<Longrightarrow> fst f = fst kv"
  by (simp add: same_field_def)

lemma same_field_keys: "list_all2 same_field fs kvs \<Longrightarrow> map fst fs = map fst kvs"
  by (induction rule: list_all2_induct) (auto dest: same_field_key)

lemma same_field_orders: "list_all2 same_field fs kvs \<Longrightarrow> map key_order fs = map key_order kvs"
  by (induction rule: list_all2_induct) (auto dest: same_field_key simp: key_order_def)

lemma same_field_insort:
  "list_all2 same_field fs kvs \<Longrightarrow> same_field f kv \<Longrightarrow>
     list_all2 same_field (insort_key key_order f fs) (insort_key key_order kv kvs)"
proof (induction rule: list_all2_induct)
  case (Cons x xs y ys)
  then have "key_order x = key_order y" "key_order f = key_order kv" by (auto dest: same_field_key simp: key_order_def)
  with Cons show ?case by simp
qed simp

lemma same_field_sort:
  "list_all2 same_field fs kvs \<Longrightarrow> list_all2 same_field (sort_key key_order fs) (sort_key key_order kvs)"
  by (induction rule: list_all2_induct) (auto intro: same_field_insort)

lemma serialize_norm: "serialize v = Inr s \<Longrightarrow> serialize (json_norm v) = Inr s"
proof (induction v arbitrary: s rule: json_norm.induct)
  case (1 xs)
  then obtain es where es: "list_all2 (\<lambda>x s. serialize x = Inr s) xs es"
    and s: "s = ''['' @ join_with '','' es @ '']''"
    by (auto simp: andThen_eq_Inr serialize_elems_iff)
  have "list_all2 (\<lambda>x s. serialize x = Inr s) (map json_norm xs) es"
    using es 1 by (auto simp: list_all2_conv_all_nth)
  with s show ?case by (simp add: andThen_eq_Inr flip: serialize_elems_iff)
next
  case (2 fs)
  then obtain kvs where kvs: "list_all2 same_field fs kvs"
    and s: "s = ''{'' @ join_with '','' (map render_field (sort_key key_order kvs)) @ ''}''"
    by (auto simp: andThen_eq_Inr serialize_fields_iff)
  have "list_all2 same_field (map (\<lambda>(k, v). (k, json_norm v)) fs) kvs"
    unfolding list_all2_conv_all_nth
  proof (intro conjI allI impI)
    show "length (map (\<lambda>(k, v). (k, json_norm v)) fs) = length kvs"
      using kvs by (simp add: list_all2_lengthD)
    fix i assume i: "i < length (map (\<lambda>(k, v). (k, json_norm v)) fs)"
    then have "same_field (fs ! i) (kvs ! i)" using kvs by (simp add: list_all2_nthD)
    moreover have "fs ! i \<in> set fs" using i by simp
    ultimately show "same_field (map (\<lambda>(k, v). (k, json_norm v)) fs ! i) (kvs ! i)"
      using i 2(1) by (cases "fs ! i") (auto simp: same_field_def)
  qed
  then have "list_all2 same_field (sort_key key_order (map (\<lambda>(k, v). (k, json_norm v)) fs)) (sort_key key_order kvs)"
    by (rule same_field_sort)
  with s show ?case by (simp add: sort_key_id_if_sorted flip: serialize_fields_iff)
qed simp_all

text \<open>
  Reading back: after a value comes nothing or a delimiter, and a number token stops at a
  delimiter.
\<close>

definition delimited :: "string \<Rightarrow> bool" where
  "delimited r \<longleftrightarrow> r = [] \<or> hd r \<in> set '',]}''"

lemma delimited_simps [simp]: "delimited []" "delimited (c # r) \<longleftrightarrow> c \<in> set '',]}''"
  by (simp_all add: delimited_def)

lemma num_token_inj:
  assumes "list_all num_char s" "list_all num_char t" "delimited r" "delimited u" "s @ r = t @ u"
  shows "s = t \<and> r = u"
proof -
  have stop: "takeWhile num_char r = []" if "delimited r" for r
    using that by (cases r) (auto simp: num_char_def isAsciiDigit_def)
  have "takeWhile num_char (s @ r) = s" "takeWhile num_char (t @ u) = t"
    using assms(1-4) stop by (simp_all add: list_all_iff takeWhile_append)
  with assms(5) show ?thesis by auto
qed

text \<open>What a serialised scalar looks like, by its first character.\<close>

datatype token = TNull | TTrue | TFalse | TNum | TStr | TArr | TObj

fun token_of :: "json \<Rightarrow> token" where
  "token_of JNull = TNull"
| "token_of JUndefined = TNull"
| "token_of (JBool b) = (if b then TTrue else TFalse)"
| "token_of (JInt _) = TNum"
| "token_of (JFloat _) = TNum"
| "token_of (JStr _) = TStr"
| "token_of (JArr _) = TArr"
| "token_of (JObj _) = TObj"

definition token_hd :: "token \<Rightarrow> char \<Rightarrow> bool" where
  "token_hd t c = (case t of TNull \<Rightarrow> c = CHR ''n'' | TTrue \<Rightarrow> c = CHR ''t'' | TFalse \<Rightarrow> c = CHR ''f''
     | TNum \<Rightarrow> num_char c | TStr \<Rightarrow> c = dquote | TArr \<Rightarrow> c = CHR ''['' | TObj \<Rightarrow> c = CHR ''{'')"

lemma number_text:
  assumes "json_wf v" "serialize v = Inr s" "token_of v = TNum"
  shows "list_all num_char s \<and> s \<noteq> []"
  using assms show_int_chars
  by (cases v) (auto simp: list_all_iff num_char_def split: if_splits)

lemma serialize_hd:
  assumes "json_wf v" "serialize v = Inr s"
  shows "\<exists>c cs. s = c # cs \<and> token_hd (token_of v) c"
proof (cases "token_of v = TNum")
  case True
  with number_text [OF assms] show ?thesis by (cases s) (auto simp: token_hd_def)
next
  case False
  with assms show ?thesis
    by (cases v) (auto simp: token_hd_def andThen_eq_Inr json_quote_def split: if_splits)
qed

lemma token_hd_unique: "token_hd t c \<Longrightarrow> token_hd t' c \<Longrightarrow> t = t'"
  by (cases t; cases t') (auto simp: token_hd_def num_char_def isAsciiDigit_def)

lemma token_hd_not_close: "token_hd t c \<Longrightarrow> c \<notin> set '',]}''"
  by (cases t) (auto simp: token_hd_def num_char_def isAsciiDigit_def)

text \<open>An element list up to its closing bracket is a first element and a delimited rest.\<close>

definition list_rest :: "char \<Rightarrow> string list \<Rightarrow> string \<Rightarrow> string" where
  "list_rest close ss r = (if ss = [] then close # r else CHR '','' # join_with '','' ss @ close # r)"

lemma join_rest: "join_with '','' (s # ss) @ close # r = s @ list_rest close ss r"
  by (cases ss) (simp_all add: list_rest_def)

lemma list_rest_delimited: "close \<in> set '']}'' \<Longrightarrow> delimited (list_rest close ss r)"
  by (auto simp: list_rest_def)

lemma list_rest_inj_shape:
  assumes "list_rest close ss r = list_rest close ts u" "close \<in> set '']}''"
  shows "(ss = [] \<longleftrightarrow> ts = []) \<and>
    (ss = [] \<longrightarrow> r = u) \<and> (ss \<noteq> [] \<longrightarrow> join_with '','' ss @ close # r = join_with '','' ts @ close # u)"
  using assms by (auto simp: list_rest_def split: if_splits)

text \<open>
  Items that are printed between delimiters, separated by commas: the elements of an
  array and the fields of an object. An item can be read back when its text followed by
  a delimiter determines it; then so can a list of such items up to its closing bracket.
\<close>

locale delimited_items =
  fixes shown :: "'a \<Rightarrow> string \<Rightarrow> bool"
    and ok :: "'a \<Rightarrow> bool"
  assumes starts: "ok x \<Longrightarrow> shown x s \<Longrightarrow> \<exists>c cs. s = c # cs \<and> c \<notin> set '',]}''"
begin

definition reads :: "'a \<Rightarrow> bool" where
  "reads v \<longleftrightarrow> (\<forall>w s t r u. ok w \<longrightarrow> shown v s \<longrightarrow> shown w t \<longrightarrow>
     delimited r \<longrightarrow> delimited u \<longrightarrow> s @ r = t @ u \<longrightarrow> v = w \<and> r = u)"

lemma readsD:
  "reads v \<Longrightarrow> shown v s \<Longrightarrow> shown w t \<Longrightarrow> s @ r = t @ u \<Longrightarrow> ok w \<Longrightarrow> delimited r \<Longrightarrow> delimited u \<Longrightarrow> v = w \<and> r = u"
  unfolding reads_def by blast

lemma reads_list:
  assumes "list_all reads vs" "list_all ok vs" "list_all ok ws" "close \<in> set '']}''"
    and "list_all2 shown vs ss" "list_all2 shown ws ts"
    and "join_with '','' ss @ close # r = join_with '','' ts @ close # u"
  shows "vs = ws \<and> r = u"
  using assms
proof (induction vs arbitrary: ws ss ts)
  case Nil
  then show ?case
    by (cases ws; cases ts)
      (auto simp: join_rest list_all2_Cons1 dest!: starts simp del: join_with.simps(3))
next
  case (Cons v vs)
  then obtain s ss' where ss: "ss = s # ss'" "shown v s" "list_all2 shown vs ss'"
    by (auto simp: list_all2_Cons1)
  show ?case
  proof (cases ws)
    case Nil
    with Cons.prems ss show ?thesis
      by (auto simp: join_rest dest!: starts simp del: join_with.simps(3))
  next
    case ws: (Cons w ws')
    then obtain t ts' where ts: "ts = t # ts'" "shown w t" "list_all2 shown ws' ts'"
      using Cons.prems(6) by (auto simp: list_all2_Cons1)
    have "s @ list_rest close ss' r = t @ list_rest close ts' u"
      using Cons.prems(7) unfolding ss(1) ts(1) join_rest .
    then have vw: "v = w \<and> list_rest close ss' r = list_rest close ts' u"
      using readsD [OF _ ss(2) ts(2)] Cons.prems ws by (simp add: list_rest_delimited)
    note shape = list_rest_inj_shape [OF conjunct2 [OF vw] Cons.prems(4)]
    show ?thesis
    proof (cases "ss' = []")
      case True
      with shape vw ws ss(3) ts(3) show ?thesis by simp
    next
      case False
      with shape vw ws Cons.IH [OF _ _ _ _ ss(3) ts(3)] Cons.prems show ?thesis by simp
    qed
  qed
qed

end

definition value_ok :: "json \<Rightarrow> bool" where
  "value_ok v \<longleftrightarrow> json_wf v \<and> json_sorted v"

definition field_text :: "string \<times> json \<Rightarrow> string \<Rightarrow> bool" where
  "field_text f s \<longleftrightarrow> (\<exists>t. serialize (snd f) = Inr t \<and> s = render_field (fst f, t))"

interpretation elem: delimited_items "\<lambda>v s. serialize v = Inr s" value_ok
  by unfold_locales (auto simp: value_ok_def dest!: serialize_hd dest: token_hd_not_close)

interpretation field: delimited_items field_text "\<lambda>f. value_ok (snd f)"
  by unfold_locales (auto simp: field_text_def render_field_def json_quote_def)

lemma field_reads: "elem.reads v \<Longrightarrow> field.reads (k, v)"
  unfolding field.reads_def field_text_def render_field_def
  by (auto dest!: json_quote_inj dest: elem.readsD)

lemma field_texts: "list_all2 same_field fs kvs \<Longrightarrow> list_all2 field_text fs (map render_field kvs)"
  by (induction rule: list_all2_induct) (auto simp: same_field_def field_text_def)

lemma same_token:
  assumes "value_ok v" "value_ok w" "serialize v = Inr s" "serialize w = Inr t" "s @ r = t @ u"
  shows "token_of v = token_of w"
  using assms serialize_hd [of v s] serialize_hd [of w t] token_hd_unique
  by (fastforce simp: value_ok_def)

lemma number_inj:
  assumes "value_ok v" "value_ok w" "token_of v = TNum" "token_of w = TNum"
    and "serialize v = Inr s" "serialize w = Inr s"
  shows "v = w"
  using assms show_int_chars(1)
  by (cases v; cases w)
    (force simp: value_ok_def list_all_iff dest: show_int_inj split: if_splits)+

lemma readsI:
  assumes "\<And>w s t r u. value_ok w \<Longrightarrow> serialize v = Inr s \<Longrightarrow> serialize w = Inr t \<Longrightarrow> token_of w = token_of v \<Longrightarrow>
     delimited r \<Longrightarrow> delimited u \<Longrightarrow> s @ r = t @ u \<Longrightarrow> v = w \<and> r = u" and "value_ok v"
  shows "elem.reads v"
  unfolding elem.reads_def using assms same_token by metis

lemma reads_scalar:
  assumes "value_ok v" "token_of v \<noteq> TArr" "token_of v \<noteq> TObj"
  shows "elem.reads v"
proof (rule readsI [OF _ assms(1)])
  fix w s t r u
  assume w: "value_ok w" "serialize v = Inr s" "serialize w = Inr t" "token_of w = token_of v"
    "delimited r" "delimited u" "s @ r = t @ u"
  show "v = w \<and> r = u"
  proof (cases "token_of v = TNum")
    case True
    then have "s = t \<and> r = u"
      using w number_text [of v s] number_text [of w t] assms(1)
      by (intro num_token_inj) (auto simp: value_ok_def)
    with True w assms(1) number_inj [of v w s] show ?thesis by auto
  next
    case False
    with w assms show ?thesis
      by (cases v; cases w) (auto dest: json_quote_inj split: if_splits)
  qed
qed

lemma reads_arr:
  assumes "value_ok (JArr xs)" "list_all elem.reads xs"
  shows "elem.reads (JArr xs)"
proof (rule readsI [OF _ assms(1)])
  fix w s t r u
  assume w: "value_ok w" "serialize (JArr xs) = Inr s" "serialize w = Inr t" "token_of w = token_of (JArr xs)"
    "s @ r = t @ u"
  then obtain ys where ys: "w = JArr ys" by (cases w) (auto split: if_splits)
  obtain ss ts where "list_all2 (\<lambda>v s. serialize v = Inr s) xs ss" "list_all2 (\<lambda>v s. serialize v = Inr s) ys ts"
    and "join_with '','' ss @ CHR '']'' # r = join_with '','' ts @ CHR '']'' # u"
    using w by (auto simp: ys andThen_eq_Inr serialize_elems_iff)
  then have "xs = ys \<and> r = u"
    using assms w(1) by (intro elem.reads_list) (auto simp: ys value_ok_def list_all_iff)
  with ys show "JArr xs = w \<and> r = u" by simp
qed

lemma reads_obj:
  assumes "value_ok (JObj fs)" "list_all (\<lambda>f. elem.reads (snd f)) fs"
  shows "elem.reads (JObj fs)"
proof (rule readsI [OF _ assms(1)])
  fix w s t r u
  assume w: "value_ok w" "serialize (JObj fs) = Inr s" "serialize w = Inr t" "token_of w = token_of (JObj fs)"
    "s @ r = t @ u"
  then obtain gs where gs: "w = JObj gs" by (cases w) (auto split: if_splits)
  have sorted_id: "sort_key key_order kvs = kvs"
    if "list_all2 same_field hs kvs" "value_ok (JObj hs)" for hs kvs
    using that same_field_orders [of hs kvs] by (simp add: value_ok_def sort_key_id_if_sorted)
  obtain ks ls where ks: "list_all2 same_field fs ks" and ls: "list_all2 same_field gs ls"
    and eq: "join_with '','' (map render_field (sort_key key_order ks)) @ CHR ''}'' # r
      = join_with '','' (map render_field (sort_key key_order ls)) @ CHR ''}'' # u"
    using w by (auto simp: gs andThen_eq_Inr serialize_fields_iff)
  have "fs = gs \<and> r = u"
  proof (rule field.reads_list)
    show "list_all field.reads fs"
      using assms(2) field_reads by (auto simp: list_all_iff)
    show "join_with '','' (map render_field ks) @ CHR ''}'' # r = join_with '','' (map render_field ls) @ CHR ''}'' # u"
      using eq sorted_id [OF ks assms(1)] sorted_id [OF ls] w(1) gs by simp
  qed (use assms w(1) gs field_texts [OF ks] field_texts [OF ls] in
      \<open>auto simp: value_ok_def list_all_iff\<close>)
  with gs show "JObj fs = w \<and> r = u" by simp
qed

lemma value_ok_elems:
  "value_ok (JArr xs) \<longleftrightarrow> (\<forall>x \<in> set xs. value_ok x)"
  "value_ok (JObj fs) \<Longrightarrow> (k, v) \<in> set fs \<Longrightarrow> value_ok v"
  by (auto simp: value_ok_def list_all_iff)

lemma reads_value: "value_ok v \<Longrightarrow> elem.reads v"
proof (induction v)
  case (JArr xs)
  then show ?case by (intro reads_arr) (auto simp: value_ok_elems list_all_iff)
next
  case (JObj fs)
  have "elem.reads (snd f)" if "f \<in> set fs" for f
  proof -
    have "value_ok (snd f)"
      using that value_ok_elems(2) [OF JObj.prems, of "fst f" "snd f"] by simp
    then show ?thesis using that by (intro JObj.IH [of f "snd f"]) (auto simp: snds.simps)
  qed
  with JObj show ?case by (intro reads_obj) (auto simp: list_all_iff)
qed (auto intro!: reads_scalar split: if_splits)

lemma canonicalize_normal_inj:
  assumes "value_ok v" "value_ok w" "canonicalize v = Inr s" "canonicalize w = Inr s"
  shows "v = w"
  using elem.readsD [OF reads_value [OF assms(1)], of s w s "[]" "[]"] assms
  by (simp add: canonicalize_def)

lemma canonicalize_key_order: "canonicalize v = Inr s \<Longrightarrow> canonicalize (json_norm v) = Inr s"
  by (simp add: canonicalize_def serialize_norm)

lemma canonicalize_inj:
  assumes "json_wf v" "json_wf w" "canonicalize v = Inr s" "canonicalize w = Inr s"
  shows "json_norm v = json_norm w"
  using assms
  by (intro canonicalize_normal_inj [of _ _ s])
    (auto simp: value_ok_def json_norm_wf json_norm_sorted canonicalize_key_order)

section \<open>Digest inputs are domain separated\<close>

lemma append_stop_inj:
  assumes "c \<notin> set xs" "c \<notin> set ys" "xs @ c # r = ys @ c # u"
  shows "xs = ys \<and> r = u"
proof -
  have "takeWhile (\<lambda>x. x \<noteq> c) (zs @ c # q) = zs" if "c \<notin> set zs" for zs q
    using that by (subst takeWhile_append2) auto
  with assms have "xs = ys" by metis
  with assms(3) show ?thesis by simp
qed

lemma schema_id_no_colon: "assertSchema schemaId version = Inr () \<Longrightarrow> CHR '':'' \<notin> set schemaId"
  by (cases schemaId) (auto simp: assertSchema_def list_all_iff isAsciiLetter_def isAsciiDigit_def Let_def)

lemma show_int_no_nul: "CHR 0x00 \<notin> set (show_int i)"
  using show_int_chars(1) [of i] by (auto simp: list_all_iff isAsciiDigit_def)

lemma protocolBytes_parts:
  assumes "protocolBytes i v p = Inr b" "protocolBytes i' v' p' = Inr b"
  shows "i = i' \<and> v = v' \<and> canonicalize p = canonicalize p'"
proof -
  obtain s t where ok: "assertSchema i v = Inr ()" "assertSchema i' v' = Inr ()"
    and st: "canonicalize p = Inr s" "canonicalize p' = Inr t"
    and eq: "i @ CHR '':'' # CHR ''v'' # show_int v @ CHR 0x00 # s = i' @ CHR '':'' # CHR ''v'' # show_int v' @ CHR 0x00 # t"
    using assms by (auto simp: protocolBytes_def andThen_eq_Inr)
  have "i = i' \<and> CHR ''v'' # show_int v @ CHR 0x00 # s = CHR ''v'' # show_int v' @ CHR 0x00 # t"
    using eq ok by (intro append_stop_inj) (auto dest: schema_id_no_colon)
  moreover then have "show_int v = show_int v' \<and> s = t"
    by (intro append_stop_inj [of "CHR 0x00"]) (auto simp: show_int_no_nul)
  ultimately show ?thesis using st by (auto dest: show_int_inj)
qed

end
