(* ===== verification/Advancement_Types.thy ===== *)
theory Advancement_Types
  imports Canonical
begin

text \<open>
  The data of the advancement domain (\<^verbatim>\<open>packages/core/src/advancement/types.ts\<close> and the
  payload types it refers to): sessions, proposals, rubric contracts, run reviews, proxy
  messages, evidence requests, review attempts, and the events of the durable log. Field
  names are the source's with a short prefix per record. Payloads that the reducer and the
  guards only carry (user input, messages, window snapshots, leases' other fields) are JSON
  values. Integers are unbounded; literal-typed fields with one value are left out.
\<close>

type_synonym UserTurnInput = json
type_synonym Digest = string

section \<open>Statuses and proposals\<close>

datatype AdvancementSessionStatus =
    Proposed | Drafting | DraftFailed | DraftUncertain
  | AwaitingRubricConfirmation | Active | Completed | Exited | Cancelled

datatype AdvancementDraftAttemptPhase = DraftInvoking | DraftConsumed | DraftAttemptFailed | DraftDeferred

record AdvancementDraftAttempt =
  da_generation :: int
  da_revision :: int
  da_phase :: AdvancementDraftAttemptPhase
  da_detail :: "string option"

record AdvancementProposal =
  pr_proposalId :: string
  pr_runId :: string
  pr_originalTurnId :: string
  pr_supplements :: "UserTurnInput list"
  pr_draftAttempt :: "AdvancementDraftAttempt option"

section \<open>Rubric contracts\<close>

datatype ObjectiveSignalKind =
  FileDiff | TestResult | BuildResult | LogSignal | Artifact | ConversationFact | NoSignal

record EvidenceLocator =
  el_paths :: "string list option"

record EvidenceRequirementSpec =
  er_id :: string
  er_kind :: ObjectiveSignalKind
  er_description :: string
  er_required :: "bool option"
  er_locator :: "EvidenceLocator option"

record FailureHandlingSpec =
  fh_id :: string
  fh_scenario :: string
  fh_reply :: string

record RubricContractContentSnapshot =
  rc_passCriteria :: "string list"
  rc_evidenceRequirements :: "EvidenceRequirementSpec list option"
  rc_failureHandling :: "FailureHandlingSpec list"

record PassCriterionSnapshot =
  pc_id :: string
  pc_text :: string

record ConfirmedRubricContentSnapshot =
  cc_passCriteria :: "PassCriterionSnapshot list"
  cc_evidenceRequirements :: "EvidenceRequirementSpec list option"
  cc_failureHandling :: "FailureHandlingSpec list"

datatype RubricContractSource = Matched | Generated

record RubricContractDraftSnapshot =
  rd_draftId :: string
  rd_originalTurnId :: string
  rd_source :: RubricContractSource
  rd_candidateRubricIds :: "string list"
  rd_candidateRubrics :: "json option"
  rd_title :: string
  rd_description :: string
  rd_content :: RubricContractContentSnapshot
  rd_createdAt :: string

datatype ConfirmedRubricSource = Library string string | LocalDraft string Digest

record ConfirmedRubricSnapshot =
  cr_source :: ConfirmedRubricSource
  cr_title :: string
  cr_description :: string
  cr_content :: ConfirmedRubricContentSnapshot
  cr_confirmedAt :: string

text \<open>\<^verbatim>\<open>isObjectiveEvidenceKind\<close> and \<^verbatim>\<open>canBeRequired\<close>.\<close>

definition isObjectiveEvidenceKind :: "ObjectiveSignalKind \<Rightarrow> bool" where
  "isObjectiveEvidenceKind k \<longleftrightarrow> k \<in> set [FileDiff, TestResult, BuildResult, LogSignal, Artifact]"

definition canBeRequired ::
  "ObjectiveSignalKind \<Rightarrow> EvidenceLocator option \<Rightarrow> ObjectiveSignalKind list \<Rightarrow> bool" where
  "canBeRequired kind locator independentKinds =
     (if \<not> isObjectiveEvidenceKind kind then False
      else if kind \<notin> set independentKinds then False
      else if (kind = LogSignal \<or> kind = Artifact) \<and>
              (case locator of None \<Rightarrow> True | Some l \<Rightarrow> (case el_paths l of None \<Rightarrow> True | Some ps \<Rightarrow> ps = []))
      then False
      else True)"

section \<open>Reviews, exits and proxy messages\<close>

datatype AdvancementReviewDecision = Passed | Failed | ExitDecision

datatype ReviewCriterionVerdict = Met | Unmet | UnknownVerdict

record ReviewCriterionAttribution =
  ra_criterionId :: string
  ra_verdict :: ReviewCriterionVerdict
  ra_reason :: string
  ra_evidenceExcerpt :: "string option"

record ReviewAttribution =
  at_criteria :: "ReviewCriterionAttribution list"

datatype EvidenceSource = Independent | ExecutionReport | UserSource

record ReviewEvidence =
  ev_id :: string
  ev_kind :: ObjectiveSignalKind
  ev_summary :: string
  ev_requirementId :: "string option"
  ev_source :: "EvidenceSource option"
  ev_passed :: "bool option"
  ev_refs :: "string list option"

record TokenUsage =
  tu_inputTokens :: int
  tu_outputTokens :: int
  tu_totalInputTokens :: "int option"
  tu_cacheReadTokens :: "int option"
  tu_cacheWriteTokens :: "int option"

record ReviewUsage =
  ru_judge :: "TokenUsage option"
  ru_run :: "TokenUsage option"

record RunRecordRef =
  rr_shardId :: string
  rr_runIndex :: int

datatype AdvancementExitReason =
    ExitPassed | DeadEnd | UserCancelled | UserTookOver | Superseded | SystemError
  | CapabilityGap | BudgetExceeded

record AdvancementExit =
  ex_reason :: AdvancementExitReason
  ex_message :: string
  ex_occurredAt :: string

record AdvancementRunReview =
  rv_id :: string
  rv_runIndex :: int
  rv_runRecordRef :: "RunRecordRef option"
  rv_reviewedAt :: string
  rv_decision :: AdvancementReviewDecision
  rv_evidence :: "ReviewEvidence list"
  rv_attribution :: ReviewAttribution
  rv_unmetCriteria :: "string list"
  rv_usage :: "ReviewUsage option"
  rv_selectedFailureHandlingId :: "string option"
  rv_proxyMessageId :: "string option"
  rv_exitReason :: "AdvancementExitReason option"
  rv_contextWindow :: "json option"

record AdvancementProxyMessage =
  pm_id :: string
  pm_sessionId :: string
  pm_reviewId :: string
  pm_content :: UserTurnInput
  pm_rubricFailureHandlingId :: string
  pm_variables :: "(string \<times> string) list"
  pm_attribution :: ReviewAttribution
  pm_createdAt :: string

datatype AdvancementWindowEntry =
    SummaryEntry json json
  | ReviewEntry string int json json

record AdvancementWindowState =
  aw_reviewCount :: int
  aw_entries :: "AdvancementWindowEntry list"
  aw_updatedAt :: string
  aw_lastSnapshot :: "json option"

section \<open>Admission of the original task\<close>

datatype AdvancementExecutionMode = AdvancementMode | DirectMode

record TurnOriginAdvancementExecution =
  te_sessionId :: string
  te_mode :: AdvancementExecutionMode
  te_draftId :: "string option"

record TurnOrigin =
  to_triggeredBy :: "string option"
  to_advancementExecution :: "TurnOriginAdvancementExecution option"
  to_otherFields :: json

record AdvancementOriginalTaskAdmissionIntent =
  ai_turnId :: string
  ai_surfacePrincipal :: string
  ai_turnOrigin :: TurnOrigin
  ai_inputDigest :: Digest

datatype AdmissionRejection = ConversationNotFound | IdempotencyConflict

datatype AdmissionStatus = AdmissionPending | Admitted string | AdmissionRejected AdmissionRejection

record AdvancementOriginalTaskAdmission =
  oa_mode :: "AdvancementExecutionMode option"
  oa_status :: AdmissionStatus
  oa_intent :: AdvancementOriginalTaskAdmissionIntent

section \<open>Review attempts and evidence requests\<close>

datatype AdvancementReviewAttemptPhase = Started | Invoking | Consumed | Deferred | Expired

record ImmediateRootWorkload =
  rw_kind :: string
  rw_id :: string
  rw_attempt :: int

datatype ScopeBinding =
    ConversationScope string int
  | JobScope string int
  | ControlScope string

record AdvancementReviewRootContract =
  rt_workload :: ImmediateRootWorkload
  rt_budget :: json
  rt_requestId :: string
  rt_audience :: "string option"
  rt_scopeBinding :: "ScopeBinding option"
  rt_delegation :: "json option"

record AdvancementReviewAttempt =
  rta_lineageId :: string
  rta_generation :: int
  rta_runId :: string
  rta_runIndex :: int
  rta_runRecordRef :: RunRecordRef
  rta_phase :: AdvancementReviewAttemptPhase
  rta_root :: AdvancementReviewRootContract
  rta_rootLease :: "json option"
  rta_detail :: "string option"

record EvidenceRequest =
  eq_v :: int
  eq_anchorEpoch :: "int option"
  eq_requestId :: string
  eq_reviewId :: string
  eq_runId :: string
  eq_conversationId :: string
  eq_ownerEpoch :: int
  eq_executorId :: string
  eq_workspace :: json
  eq_items :: "json list"
  eq_leaseWorkload :: ImmediateRootWorkload
  eq_leaseOtherFields :: "(string \<times> json) list"
  eq_issuedAt :: string
  eq_expiry :: string
  eq_signature :: string

record EvidenceBundle =
  eb_requestId :: string
  eb_requestDigest :: Digest
  eb_otherFields :: json

datatype AdvancementEvidenceOutcome = BundleOutcome EvidenceBundle | TypedStale | EvidenceCapabilityGap

record AdvancementEvidenceItemRequirement =
  ir_itemIndex :: int
  ir_requirementIds :: "string list"

record AdvancementEvidenceAttempt =
  ea_requestId :: string
  ea_reviewId :: string
  ea_generation :: int
  ea_attempt :: int
  ea_request :: EvidenceRequest
  ea_itemRequirements :: "AdvancementEvidenceItemRequirement list"
  ea_requestDigest :: Digest

record AdvancementEvidencePending =
  ep_attempt :: AdvancementEvidenceAttempt
  ep_outcome :: "AdvancementEvidenceOutcome option"

record AdvancementEvidenceGeneration =
  eg_runId :: string
  eg_reviewId :: string
  eg_generation :: int
  eg_lastAttempt :: int

definition MAX_ADVANCEMENT_PENDING_EVIDENCE :: nat where
  "MAX_ADVANCEMENT_PENDING_EVIDENCE = 16"

section \<open>Submission receipts\<close>

record AdvancementSubmissionIdentity =
  si_surfacePrincipal :: string
  si_submissionId :: string
  si_requestDigest :: Digest

datatype DraftDisposition = OriginalSaved | RevisionSaved

datatype AdvancementSubmissionOutcome =
    RejectedOutcome string
  | DraftSaved DraftDisposition string string int string
  | NotSaved string string string
  | OriginalTaskIntent AdvancementExecutionMode string string
  | CancelledOutcome string
  | ProposalKept string string
  | ProposalSupplementedOutcome string string int
  | ContractFailed string

record AdvancementSubmissionReceipt =
  sr_identity :: AdvancementSubmissionIdentity
  sr_outcome :: AdvancementSubmissionOutcome

section \<open>Events\<close>

text \<open>
  One constructor per event type. The arguments follow the source's field order:
  the timestamp, the session id, then the payload.
\<close>

datatype AdvancementEvidenceSettlement = SettlementConsumed | SettlementDeferred

datatype AdvancementStoreEvent =
    SubmissionSettled string string AdvancementSubmissionReceipt
      \<comment> \<open>conversationId timestamp receipt\<close>
  | SessionRegenerated string string string RubricContractDraftSnapshot AdvancementExit
      \<comment> \<open>timestamp sessionId nextSessionId pendingRubricDraft exit\<close>
  | SessionCreated string string string UserTurnInput RubricContractDraftSnapshot
      \<comment> \<open>timestamp sessionId conversationId originalUserTask pendingRubricDraft\<close>
  | ProposalAccepted string string string string string string UserTurnInput
      \<comment> \<open>timestamp sessionId conversationId proposalId runId originalTurnId originalUserTask\<close>
  | ProposalRejected string string string string string string UserTurnInput AdvancementExit
  | ProposalSupplemented string string UserTurnInput
  | DraftAttemptTransitioned string string AdvancementDraftAttempt
  | ProposalDrafted string string int RubricContractDraftSnapshot
  | RubricDraftRevised string string RubricContractDraftSnapshot
  | RubricConfirmed string string ConfirmedRubricSnapshot AdvancementOriginalTaskAdmissionIntent
  | OriginalTaskDirected string string AdvancementExit AdvancementOriginalTaskAdmissionIntent
  | OriginalTaskAdmissionRejected string string string Digest AdmissionRejection
  | OriginalTaskAdmitted string string string Digest string
      \<comment> \<open>timestamp sessionId turnId inputDigest runId\<close>
  | RunReviewed string string AdvancementRunReview
  | WindowUpdated string string AdvancementWindowState
  | ProxyEnqueued string string AdvancementProxyMessage
  | ProxySettled string string string
  | ReviewAttemptTransitioned string string AdvancementReviewAttempt
  | ReviewRootSettled string string string int
      \<comment> \<open>timestamp sessionId lineageId generation\<close>
  | EvidenceRequested string string AdvancementEvidenceAttempt
  | EvidenceResult string string string AdvancementEvidenceOutcome
  | EvidenceSettled string string string AdvancementEvidenceSettlement
  | CompletedEvent string string AdvancementExit
  | ExitedEvent string string AdvancementExit
  | CancelledEvent string string "AdvancementExit option"

fun event_sessionId :: "AdvancementStoreEvent \<Rightarrow> string option" where
  "event_sessionId (SubmissionSettled _ _ _) = None"
| "event_sessionId (SessionRegenerated _ s _ _ _) = Some s"
| "event_sessionId (SessionCreated _ s _ _ _) = Some s"
| "event_sessionId (ProposalAccepted _ s _ _ _ _ _) = Some s"
| "event_sessionId (ProposalRejected _ s _ _ _ _ _ _) = Some s"
| "event_sessionId (ProposalSupplemented _ s _) = Some s"
| "event_sessionId (DraftAttemptTransitioned _ s _) = Some s"
| "event_sessionId (ProposalDrafted _ s _ _) = Some s"
| "event_sessionId (RubricDraftRevised _ s _) = Some s"
| "event_sessionId (RubricConfirmed _ s _ _) = Some s"
| "event_sessionId (OriginalTaskDirected _ s _ _) = Some s"
| "event_sessionId (OriginalTaskAdmissionRejected _ s _ _ _) = Some s"
| "event_sessionId (OriginalTaskAdmitted _ s _ _ _) = Some s"
| "event_sessionId (RunReviewed _ s _) = Some s"
| "event_sessionId (WindowUpdated _ s _) = Some s"
| "event_sessionId (ProxyEnqueued _ s _) = Some s"
| "event_sessionId (ProxySettled _ s _) = Some s"
| "event_sessionId (ReviewAttemptTransitioned _ s _) = Some s"
| "event_sessionId (ReviewRootSettled _ s _ _) = Some s"
| "event_sessionId (EvidenceRequested _ s _) = Some s"
| "event_sessionId (EvidenceResult _ s _ _) = Some s"
| "event_sessionId (EvidenceSettled _ s _ _) = Some s"
| "event_sessionId (CompletedEvent _ s _) = Some s"
| "event_sessionId (ExitedEvent _ s _) = Some s"
| "event_sessionId (CancelledEvent _ s _) = Some s"

fun isReceipt :: "AdvancementStoreEvent \<Rightarrow> bool" where
  "isReceipt (SubmissionSettled _ _ _) = True"
| "isReceipt _ = False"

section \<open>Evidence requirements\<close>

lemma canBeRequired_independent:
  "canBeRequired kind locator ks \<Longrightarrow> kind \<in> set ks \<and> isObjectiveEvidenceKind kind"
  by (auto simp: canBeRequired_def split: if_splits)

lemma canBeRequired_locator:
  "canBeRequired kind locator ks \<Longrightarrow> kind = LogSignal \<or> kind = Artifact \<Longrightarrow>
     \<exists>l ps. locator = Some l \<and> el_paths l = Some ps \<and> ps \<noteq> []"
  by (auto simp: canBeRequired_def split: if_splits option.splits)

end
