(* ===== verification/Advancement_Reducer.thy ===== *)
theory Advancement_Reducer
  imports Advancement_Types
begin

text \<open>
  The fold of the advancement log into sessions
  (\<^verbatim>\<open>packages/core/src/advancement/reducer.ts\<close>). The mutable session objects held by a
  \<^verbatim>\<open>Map\<close> become records in an insertion-ordered map; assigning a field of the looked-up
  object is a write of the updated record. An absent optional list is the empty list, so
  freezing a session (dropping empty optional lists, copying arrays) is the identity here.
\<close>

section \<open>Sessions\<close>

record AdvancementFoldSession =
  s_id :: string
  s_conversationId :: string
  s_status :: AdvancementSessionStatus
  s_originalUserTask :: UserTurnInput
  s_createdAt :: string
  s_updatedAt :: string
  s_rubricDraftVersion :: int
  s_pendingRubricDraft :: "RubricContractDraftSnapshot option"
  s_confirmedRubric :: "ConfirmedRubricSnapshot option"
  s_originalTaskAdmission :: "AdvancementOriginalTaskAdmission option"
  s_runs :: "AdvancementRunReview list"
  s_proxyMessages :: "AdvancementProxyMessage list"
  s_outstandingProxyMessageId :: "string option"
  s_advancementWindow :: "AdvancementWindowState option"
  s_reviewAttempts :: "AdvancementReviewAttempt list"
  s_reviewRootSettlements :: "(string \<times> int) list"
  s_evidencePending :: "AdvancementEvidencePending list"
  s_evidenceGenerations :: "AdvancementEvidenceGeneration list"
  s_exit :: "AdvancementExit option"
  s_proposal :: "AdvancementProposal option"

type_synonym AdvancementFoldMap = "(string, AdvancementFoldSession) omap"

definition isProposalStageStatus :: "AdvancementSessionStatus \<Rightarrow> bool" where
  "isProposalStageStatus st \<longleftrightarrow> st = Proposed \<or> st = Drafting \<or> st = DraftFailed \<or> st = DraftUncertain"

definition isOpenStatus :: "AdvancementSessionStatus \<Rightarrow> bool" where
  "isOpenStatus st \<longleftrightarrow> isProposalStageStatus st \<or> st = AwaitingRubricConfirmation \<or> st = Active"

definition isOpenAdvancementSession :: "AdvancementFoldSession \<Rightarrow> bool" where
  "isOpenAdvancementSession s = isOpenStatus (s_status s)"

section \<open>Applying one event\<close>

text \<open>\<^verbatim>\<open>sessions.get(id)\<close>, return when absent, otherwise mutate the object.\<close>

definition withSession ::
  "string \<Rightarrow> (AdvancementFoldSession \<Rightarrow> AdvancementFoldSession) \<Rightarrow> AdvancementFoldMap \<Rightarrow> AdvancementFoldMap" where
  "withSession sid f m = (case omap_get m sid of None \<Rightarrow> m | Some s \<Rightarrow> omap_set sid (f s) m)"

text \<open>The session object that \<^verbatim>\<open>session_created\<close> and the proposal events start from.\<close>

definition freshSession ::
  "string \<Rightarrow> string \<Rightarrow> AdvancementSessionStatus \<Rightarrow> UserTurnInput \<Rightarrow> string \<Rightarrow>
     RubricContractDraftSnapshot option \<Rightarrow> AdvancementExit option \<Rightarrow> AdvancementProposal option \<Rightarrow> AdvancementFoldSession" where
  "freshSession sid conv st task ts draft ext prop =
     \<lparr>s_id = sid, s_conversationId = conv, s_status = st, s_originalUserTask = task,
      s_createdAt = ts, s_updatedAt = ts, s_rubricDraftVersion = 0, s_pendingRubricDraft = draft,
      s_confirmedRubric = None, s_originalTaskAdmission = None, s_runs = [], s_proxyMessages = [],
      s_outstandingProxyMessageId = None, s_advancementWindow = None, s_reviewAttempts = [],
      s_reviewRootSettlements = [], s_evidencePending = [], s_evidenceGenerations = [],
      s_exit = ext, s_proposal = prop\<rparr>"

definition applySessionCreated ::
  "AdvancementFoldMap \<Rightarrow> string \<Rightarrow> string \<Rightarrow> string \<Rightarrow> UserTurnInput \<Rightarrow> RubricContractDraftSnapshot \<Rightarrow> AdvancementFoldMap" where
  "applySessionCreated m ts sid conv task draft =
     omap_set sid (freshSession sid conv AwaitingRubricConfirmation task ts (Some draft) None None) m"

definition applyProposal ::
  "AdvancementFoldMap \<Rightarrow> AdvancementSessionStatus \<Rightarrow> AdvancementExit option \<Rightarrow>
     string \<Rightarrow> string \<Rightarrow> string \<Rightarrow> string \<Rightarrow> string \<Rightarrow> string \<Rightarrow> UserTurnInput \<Rightarrow> AdvancementFoldMap" where
  "applyProposal m st ext ts sid conv pid rid turn task =
     omap_set sid
       (freshSession sid conv st task ts None ext
          (Some \<lparr>pr_proposalId = pid, pr_runId = rid, pr_originalTurnId = turn, pr_supplements = [], pr_draftAttempt = None\<rparr>)) m"

definition closeSession ::
  "AdvancementFoldMap \<Rightarrow> string \<Rightarrow> string \<Rightarrow> AdvancementExit option \<Rightarrow> AdvancementSessionStatus \<Rightarrow> AdvancementFoldMap" where
  "closeSession m ts sid ext st =
     withSession sid
       (\<lambda>s. s\<lparr>s_status := st, s_updatedAt := ts, s_outstandingProxyMessageId := None,
             s_evidencePending := [], s_exit := ext\<rparr>) m"

definition supplementProposal :: "string \<Rightarrow> UserTurnInput \<Rightarrow> AdvancementFoldSession \<Rightarrow> AdvancementFoldSession" where
  "supplementProposal ts extra s =
     (case s_proposal s of None \<Rightarrow> s
      | Some p \<Rightarrow>
          s\<lparr>s_updatedAt := ts,
            s_proposal := Some (p\<lparr>pr_supplements := pr_supplements p @ [extra]\<rparr>),
            s_status := (if s_status s = DraftFailed \<or> s_status s = DraftUncertain then Proposed else s_status s)\<rparr>)"

definition transitionDraft :: "string \<Rightarrow> AdvancementDraftAttempt \<Rightarrow> AdvancementFoldSession \<Rightarrow> AdvancementFoldSession" where
  "transitionDraft ts a s =
     (case s_proposal s of None \<Rightarrow> s
      | Some p \<Rightarrow>
          s\<lparr>s_updatedAt := ts,
            s_proposal := Some (p\<lparr>pr_draftAttempt := Some a\<rparr>),
            s_status := (case da_phase a of DraftInvoking \<Rightarrow> Drafting
              | DraftAttemptFailed \<Rightarrow> DraftFailed | DraftDeferred \<Rightarrow> DraftUncertain | DraftConsumed \<Rightarrow> s_status s)\<rparr>)"

text \<open>The exit message of a rejected admission, as the UTF-8 bytes of the source's literal.\<close>

definition admissionRejectedMessage :: string where
  "admissionRejectedMessage = map (char_of :: nat \<Rightarrow> char)
     [229, 142, 159, 229, 167, 139, 228, 187, 187, 229, 138, 161, 230, 156, 170, 232, 162, 171, 230, 142,
      165, 231, 186, 179, 239, 188, 140, 228, 187, 187, 229, 138, 161, 229, 183, 178, 229, 129, 156, 230,
      173, 162, 227, 128, 130]"

definition rejectAdmission :: "string \<Rightarrow> AdmissionRejection \<Rightarrow> AdvancementFoldSession \<Rightarrow> AdvancementFoldSession" where
  "rejectAdmission ts reason s =
     (case s_originalTaskAdmission s of None \<Rightarrow> s
      | Some adm \<Rightarrow>
          s\<lparr>s_updatedAt := ts,
            s_originalTaskAdmission := Some (adm\<lparr>oa_status := AdmissionRejected reason\<rparr>),
            s_status := Cancelled,
            s_exit := Some \<lparr>ex_reason = SystemError, ex_message = admissionRejectedMessage, ex_occurredAt = ts\<rparr>\<rparr>)"

definition admitOriginal :: "string \<Rightarrow> string \<Rightarrow> AdvancementFoldSession \<Rightarrow> AdvancementFoldSession" where
  "admitOriginal ts runId s =
     (case s_originalTaskAdmission s of None \<Rightarrow> s
      | Some adm \<Rightarrow>
          s\<lparr>s_updatedAt := ts, s_originalTaskAdmission := Some (adm\<lparr>oa_status := Admitted runId\<rparr>)\<rparr>)"

definition settleReviewRoot :: "string \<Rightarrow> string \<Rightarrow> int \<Rightarrow> AdvancementFoldSession \<Rightarrow> AdvancementFoldSession" where
  "settleReviewRoot ts lin gen s =
     s\<lparr>s_reviewRootSettlements :=
         (if (lin, gen) \<in> set (s_reviewRootSettlements s) then s_reviewRootSettlements s
          else s_reviewRootSettlements s @ [(lin, gen)]),
       s_updatedAt := ts\<rparr>"

definition transitionReviewAttempt :: "string \<Rightarrow> AdvancementReviewAttempt \<Rightarrow> AdvancementFoldSession \<Rightarrow> AdvancementFoldSession" where
  "transitionReviewAttempt ts a s =
     s\<lparr>s_updatedAt := ts,
       s_reviewAttempts :=
         filter (\<lambda>b. rr_shardId (rta_runRecordRef b) \<noteq> rr_shardId (rta_runRecordRef a) \<or>
                     rr_runIndex (rta_runRecordRef b) \<noteq> rr_runIndex (rta_runRecordRef a)) (s_reviewAttempts s) @ [a]\<rparr>"

definition requestEvidence :: "string \<Rightarrow> AdvancementEvidenceAttempt \<Rightarrow> AdvancementFoldSession \<Rightarrow> AdvancementFoldSession" where
  "requestEvidence ts a s =
     (let pending = filter (\<lambda>p. ea_reviewId (ep_attempt p) \<noteq> ea_reviewId a) (s_evidencePending s);
          s' = s\<lparr>s_updatedAt := ts, s_evidencePending := pending\<rparr>
      in if length pending \<ge> MAX_ADVANCEMENT_PENDING_EVIDENCE then s'
         else s'\<lparr>s_evidencePending := pending @ [\<lparr>ep_attempt = a, ep_outcome = None\<rparr>],
                 s_evidenceGenerations :=
                   filter (\<lambda>e. eg_runId e \<noteq> eq_runId (ea_request a)) (s_evidenceGenerations s) @
                   [\<lparr>eg_runId = eq_runId (ea_request a), eg_reviewId = ea_reviewId a,
                     eg_generation = ea_generation a, eg_lastAttempt = ea_attempt a\<rparr>]\<rparr>)"

definition resultEvidence ::
  "string \<Rightarrow> string \<Rightarrow> AdvancementEvidenceOutcome \<Rightarrow> AdvancementFoldSession \<Rightarrow> AdvancementFoldSession" where
  "resultEvidence ts rid out s =
     (if \<exists>p \<in> set (s_evidencePending s). ea_requestId (ep_attempt p) = rid
      then s\<lparr>s_updatedAt := ts,
             s_evidencePending :=
               map (\<lambda>p. if ea_requestId (ep_attempt p) = rid then p\<lparr>ep_outcome := Some out\<rparr> else p) (s_evidencePending s)\<rparr>
      else s)"

definition settleEvidence :: "string \<Rightarrow> string \<Rightarrow> AdvancementFoldSession \<Rightarrow> AdvancementFoldSession" where
  "settleEvidence ts rid s =
     s\<lparr>s_updatedAt := ts, s_evidencePending := filter (\<lambda>p. ea_requestId (ep_attempt p) \<noteq> rid) (s_evidencePending s)\<rparr>"

fun applyAdvancementEvent :: "AdvancementFoldMap \<Rightarrow> AdvancementStoreEvent \<Rightarrow> AdvancementFoldMap" where
  "applyAdvancementEvent m (SubmissionSettled _ _ _) = m"
| "applyAdvancementEvent m (SessionRegenerated ts sid next draft ext) =
     (case omap_get m sid of None \<Rightarrow> m
      | Some prev \<Rightarrow>
          applySessionCreated (closeSession m ts sid (Some ext) Exited) ts next
            (s_conversationId prev) (s_originalUserTask prev) draft)"
| "applyAdvancementEvent m (SessionCreated ts sid conv task draft) = applySessionCreated m ts sid conv task draft"
| "applyAdvancementEvent m (ProposalAccepted ts sid conv pid rid turn task) =
     applyProposal m Proposed None ts sid conv pid rid turn task"
| "applyAdvancementEvent m (ProposalRejected ts sid conv pid rid turn task ext) =
     applyProposal m Cancelled (Some ext) ts sid conv pid rid turn task"
| "applyAdvancementEvent m (ProposalSupplemented ts sid extra) = withSession sid (supplementProposal ts extra) m"
| "applyAdvancementEvent m (DraftAttemptTransitioned ts sid a) = withSession sid (transitionDraft ts a) m"
| "applyAdvancementEvent m (ProposalDrafted ts sid revision draft) =
     withSession sid (\<lambda>s. s\<lparr>s_status := AwaitingRubricConfirmation, s_updatedAt := ts, s_pendingRubricDraft := Some draft\<rparr>) m"
| "applyAdvancementEvent m (RubricConfirmed ts sid rubric intent) =
     withSession sid (\<lambda>s. s\<lparr>s_status := Active, s_updatedAt := ts, s_confirmedRubric := Some rubric,
       s_originalTaskAdmission := Some \<lparr>oa_mode = Some AdvancementMode, oa_status = AdmissionPending, oa_intent = intent\<rparr>,
       s_pendingRubricDraft := None\<rparr>) m"
| "applyAdvancementEvent m (OriginalTaskDirected ts sid ext intent) =
     withSession sid (\<lambda>s. s\<lparr>s_status := Cancelled, s_updatedAt := ts, s_exit := Some ext,
       s_originalTaskAdmission := Some \<lparr>oa_mode = Some DirectMode, oa_status = AdmissionPending, oa_intent = intent\<rparr>\<rparr>) m"
| "applyAdvancementEvent m (OriginalTaskAdmissionRejected ts sid turn dig reason) = withSession sid (rejectAdmission ts reason) m"
| "applyAdvancementEvent m (OriginalTaskAdmitted ts sid turn dig runId) = withSession sid (admitOriginal ts runId) m"
| "applyAdvancementEvent m (RubricDraftRevised ts sid draft) =
     withSession sid (\<lambda>s. s\<lparr>s_updatedAt := ts, s_rubricDraftVersion := s_rubricDraftVersion s + 1, s_pendingRubricDraft := Some draft\<rparr>) m"
| "applyAdvancementEvent m (RunReviewed ts sid review) =
     withSession sid (\<lambda>s. s\<lparr>s_updatedAt := ts, s_runs := s_runs s @ [review]\<rparr>) m"
| "applyAdvancementEvent m (WindowUpdated ts sid w) =
     withSession sid (\<lambda>s. s\<lparr>s_updatedAt := ts, s_advancementWindow := Some w\<rparr>) m"
| "applyAdvancementEvent m (ProxyEnqueued ts sid pm) =
     withSession sid (\<lambda>s. s\<lparr>s_updatedAt := ts, s_proxyMessages := s_proxyMessages s @ [pm],
       s_outstandingProxyMessageId := Some (pm_id pm)\<rparr>) m"
| "applyAdvancementEvent m (ProxySettled ts sid pmid) =
     withSession sid (\<lambda>s. s\<lparr>s_updatedAt := ts,
       s_outstandingProxyMessageId := (if s_outstandingProxyMessageId s = Some pmid then None else s_outstandingProxyMessageId s)\<rparr>) m"
| "applyAdvancementEvent m (ReviewRootSettled ts sid lin gen) = withSession sid (settleReviewRoot ts lin gen) m"
| "applyAdvancementEvent m (ReviewAttemptTransitioned ts sid a) = withSession sid (transitionReviewAttempt ts a) m"
| "applyAdvancementEvent m (EvidenceRequested ts sid a) = withSession sid (requestEvidence ts a) m"
| "applyAdvancementEvent m (EvidenceResult ts sid rid out) = withSession sid (resultEvidence ts rid out) m"
| "applyAdvancementEvent m (EvidenceSettled ts sid rid _) = withSession sid (settleEvidence ts rid) m"
| "applyAdvancementEvent m (CompletedEvent ts sid ext) = closeSession m ts sid (Some ext) Completed"
| "applyAdvancementEvent m (ExitedEvent ts sid ext) = closeSession m ts sid (Some ext) Exited"
| "applyAdvancementEvent m (CancelledEvent ts sid ext) = closeSession m ts sid ext Cancelled"

definition foldAdvancementEventMap :: "AdvancementStoreEvent list \<Rightarrow> AdvancementFoldMap" where
  "foldAdvancementEventMap events = foldl applyAdvancementEvent [] events"

text \<open>
  The read side: sessions ordered by creation time. \<^verbatim>\<open>String.prototype.localeCompare\<close>
  depends on the locale data of the engine; \<open>loc a b\<close> stands for \<^verbatim>\<open>a.localeCompare(b) <= 0\<close>.
\<close>

definition freezeAdvancementSessions ::
  "(string \<Rightarrow> string \<Rightarrow> bool) \<Rightarrow> AdvancementFoldMap \<Rightarrow> AdvancementFoldSession list" where
  "freezeAdvancementSessions loc m = sort_by (\<lambda>a b. loc (s_createdAt a) (s_createdAt b)) (omap_values m)"

definition foldAdvancementEvents ::
  "(string \<Rightarrow> string \<Rightarrow> bool) \<Rightarrow> AdvancementStoreEvent list \<Rightarrow> AdvancementFoldSession list" where
  "foldAdvancementEvents loc events = freezeAdvancementSessions loc (foldAdvancementEventMap events)"

definition advancementHeadSession :: "AdvancementFoldSession list \<Rightarrow> AdvancementFoldSession option" where
  "advancementHeadSession ss =
     (if ss = [] then None
      else case List.find isOpenAdvancementSession ss of Some s \<Rightarrow> Some s | None \<Rightarrow> Some (last ss))"

definition runReviewedEvents ::
  "string \<Rightarrow> AdvancementRunReview \<Rightarrow> string \<Rightarrow> AdvancementWindowState option \<Rightarrow> AdvancementStoreEvent list" where
  "runReviewedEvents sid review ts win =
     RunReviewed ts sid review #
     (case win of None \<Rightarrow> [] | Some w \<Rightarrow> [WindowUpdated (aw_updatedAt w) sid w])"

section \<open>Lookups after an event\<close>

lemma withSession_get [omap_simps]:
  "omap_get (withSession sid f m) k = (if k = sid then map_option f (omap_get m k) else omap_get m k)"
  by (auto simp: withSession_def omap_simps split: option.splits)

lemma withSession_wf [omap_simps]: "omap_wf m \<Longrightarrow> omap_wf (withSession sid f m)"
  by (auto simp: withSession_def omap_simps split: option.splits)

lemma closeSession_get [omap_simps]:
  "omap_get (closeSession m ts sid ext st) k =
     (if k = sid then map_option (\<lambda>s. s\<lparr>s_status := st, s_updatedAt := ts, s_outstandingProxyMessageId := None,
        s_evidencePending := [], s_exit := ext\<rparr>) (omap_get m k) else omap_get m k)"
  by (simp add: closeSession_def omap_simps)

lemma closeSession_wf [omap_simps]: "omap_wf m \<Longrightarrow> omap_wf (closeSession m ts sid ext st)"
  by (simp add: closeSession_def omap_simps)

lemma applySessionCreated_get [omap_simps]:
  "omap_get (applySessionCreated m ts sid conv task draft) k =
     (if k = sid then Some (freshSession sid conv AwaitingRubricConfirmation task ts (Some draft) None None) else omap_get m k)"
  by (simp add: applySessionCreated_def omap_simps)

lemma applySessionCreated_wf [omap_simps]: "omap_wf m \<Longrightarrow> omap_wf (applySessionCreated m ts sid conv task draft)"
  by (simp add: applySessionCreated_def omap_simps)

lemma applyProposal_get [omap_simps]:
  "omap_get (applyProposal m st ext ts sid conv pid rid turn task) k =
     (if k = sid then Some (freshSession sid conv st task ts None ext
        (Some \<lparr>pr_proposalId = pid, pr_runId = rid, pr_originalTurnId = turn, pr_supplements = [], pr_draftAttempt = None\<rparr>))
      else omap_get m k)"
  by (simp add: applyProposal_def omap_simps)

lemma applyProposal_wf [omap_simps]: "omap_wf m \<Longrightarrow> omap_wf (applyProposal m st ext ts sid conv pid rid turn task)"
  by (simp add: applyProposal_def omap_simps)

lemma apply_omap_wf: "omap_wf m \<Longrightarrow> omap_wf (applyAdvancementEvent m ev)"
  by (cases ev) (auto simp: omap_simps split: option.splits)

lemmas session_update_defs =
  supplementProposal_def transitionDraft_def rejectAdmission_def admitOriginal_def settleReviewRoot_def
  transitionReviewAttempt_def requestEvidence_def resultEvidence_def settleEvidence_def

section \<open>Well-formed sessions\<close>

text \<open>
  What every fold keeps, whatever the events: the key of a session is its id, at most
  sixteen evidence requests are pending with at most one per review, there is one evidence
  generation per run, one review attempt per accepted run, and no duplicated settlement.
\<close>

definition session_wf :: "AdvancementFoldSession \<Rightarrow> bool" where
  "session_wf s \<longleftrightarrow>
     length (s_evidencePending s) \<le> MAX_ADVANCEMENT_PENDING_EVIDENCE \<and>
     distinct (map (\<lambda>p. ea_reviewId (ep_attempt p)) (s_evidencePending s)) \<and>
     distinct (map eg_runId (s_evidenceGenerations s)) \<and>
     distinct (map rta_runRecordRef (s_reviewAttempts s)) \<and>
     distinct (s_reviewRootSettlements s)"

definition fold_wf :: "AdvancementFoldMap \<Rightarrow> bool" where
  "fold_wf m \<longleftrightarrow> omap_wf m \<and> (\<forall>k s. omap_get m k = Some s \<longrightarrow> s_id s = k \<and> session_wf s)"

lemma session_wf_fresh: "session_wf (freshSession sid conv st task ts draft ext prop)"
  by (simp add: session_wf_def freshSession_def)

lemma session_wf_close:
  "session_wf s \<Longrightarrow> session_wf (s\<lparr>s_status := st, s_updatedAt := ts, s_outstandingProxyMessageId := None,
     s_evidencePending := [], s_exit := ext\<rparr>)"
  by (simp add: session_wf_def)

lemma distinct_filter_key: "distinct (map f xs) \<Longrightarrow> distinct (map f (filter P xs))"
  by (induction xs) auto

lemma session_wf_requestEvidence:
  assumes "session_wf s"
  shows "session_wf (requestEvidence ts a s)"
proof -
  have "length (filter (\<lambda>p. ea_reviewId (ep_attempt p) \<noteq> ea_reviewId a) (s_evidencePending s))
      \<le> MAX_ADVANCEMENT_PENDING_EVIDENCE"
    using assms by (meson length_filter_le le_trans session_wf_def)
  with assms show ?thesis
    by (auto simp: session_wf_def requestEvidence_def Let_def intro: distinct_filter_key)
qed

lemma session_wf_resultEvidence: "session_wf s \<Longrightarrow> session_wf (resultEvidence ts rid out s)"
proof -
  have "(\<lambda>p. ea_reviewId (ep_attempt p)) \<circ>
      (\<lambda>p. if ea_requestId (ep_attempt p) = rid then p\<lparr>ep_outcome := Some out\<rparr> else p)
      = (\<lambda>p :: AdvancementEvidencePending. ea_reviewId (ep_attempt p))"
    by (auto simp: fun_eq_iff)
  then show "session_wf s \<Longrightarrow> session_wf (resultEvidence ts rid out s)"
    by (simp add: session_wf_def resultEvidence_def)
qed

lemma session_wf_transitionReviewAttempt: "session_wf s \<Longrightarrow> session_wf (transitionReviewAttempt ts a s)"
  by (auto simp: session_wf_def transitionReviewAttempt_def intro: distinct_filter_key)

lemma session_wf_settleEvidence: "session_wf s \<Longrightarrow> session_wf (settleEvidence ts rid s)"
  by (auto simp: session_wf_def settleEvidence_def intro: distinct_filter_key le_trans [OF length_filter_le])

lemma session_wf_settleReviewRoot: "session_wf s \<Longrightarrow> session_wf (settleReviewRoot ts lin gen s)"
  by (auto simp: session_wf_def settleReviewRoot_def)

lemma session_wf_plain:
  "session_wf s \<Longrightarrow> session_wf (supplementProposal ts extra s)"
  "session_wf s \<Longrightarrow> session_wf (transitionDraft ts da s)"
  "session_wf s \<Longrightarrow> session_wf (rejectAdmission ts reason s)"
  "session_wf s \<Longrightarrow> session_wf (admitOriginal ts runId s)"
  by (simp_all add: session_wf_def session_update_defs split: option.splits)

lemmas session_wf_intros =
  session_wf_fresh session_wf_close session_wf_requestEvidence session_wf_resultEvidence
  session_wf_transitionReviewAttempt session_wf_settleEvidence session_wf_settleReviewRoot session_wf_plain

lemma session_id_updates:
  "s_id (supplementProposal ts extra s) = s_id s" "s_id (transitionDraft ts da s) = s_id s"
  "s_id (rejectAdmission ts reason s) = s_id s" "s_id (admitOriginal ts runId s) = s_id s"
  "s_id (requestEvidence ts a s) = s_id s" "s_id (resultEvidence ts rid out s) = s_id s"
  "s_id (settleEvidence ts rid s) = s_id s" "s_id (settleReviewRoot ts lin gen s) = s_id s"
  "s_id (transitionReviewAttempt ts ra s) = s_id s"
  by (simp_all add: session_update_defs Let_def split: option.splits)

lemma fold_wf_withSession:
  assumes "fold_wf m" "\<And>s. session_wf s \<Longrightarrow> session_wf (f s)" "\<And>s. s_id (f s) = s_id s"
  shows "fold_wf (withSession sid f m)"
  using assms by (auto simp: fold_wf_def omap_simps)

lemma fold_wf_closeSession: "fold_wf m \<Longrightarrow> fold_wf (closeSession m ts sid ext st)"
  unfolding closeSession_def by (rule fold_wf_withSession) (auto intro: session_wf_close)

lemma fold_wf_set:
  "fold_wf m \<Longrightarrow> session_wf s \<Longrightarrow> s_id s = sid \<Longrightarrow> fold_wf (omap_set sid s m)"
  by (auto simp: fold_wf_def omap_simps)

lemma freshSession_id [simp]: "s_id (freshSession sid conv st task ts draft ext prop) = sid"
  by (simp add: freshSession_def)

lemma apply_fold_wf: "fold_wf m \<Longrightarrow> fold_wf (applyAdvancementEvent m ev)"
  by (cases ev)
    (auto simp: applySessionCreated_def applyProposal_def session_id_updates session_wf_def [of "_\<lparr>s_updatedAt := _\<rparr>"]
      split: option.splits
      intro!: fold_wf_withSession fold_wf_closeSession fold_wf_set session_wf_intros,
     auto simp: session_wf_def)

lemma foldl_fold_wf: "fold_wf m \<Longrightarrow> fold_wf (foldl applyAdvancementEvent m events)"
  by (induction events arbitrary: m) (simp_all add: apply_fold_wf)

lemma fold_wf_Nil [simp]: "fold_wf []"
  by (simp add: fold_wf_def)

text \<open>
  C40. Folding any sequence of advancement events gives a map in which every session is
  stored under its own id, holds at most sixteen pending evidence requests (one per
  review), one evidence generation per run and one review attempt per accepted run.
\<close>

theorem fold_events_wf: "fold_wf (foldAdvancementEventMap events)"
  by (simp add: foldAdvancementEventMap_def foldl_fold_wf)

end
