(* ===== verification/Advancement_Identity.thy ===== *)
theory Advancement_Identity
  imports Advancement_Reducer
begin

text \<open>
  Derived identities of the advancement domain: proposal, execution turn, review lineage
  and evidence request ids, which the guards recompute and compare
  (\<^verbatim>\<open>proposal-identity.ts\<close>, \<^verbatim>\<open>evidence-identity.ts\<close>, \<^verbatim>\<open>review-attempt-identity.ts\<close>,
  \<^verbatim>\<open>protocol/evidence.ts\<close>), and the JSON form of the records that are digested or compared
  as canonical text. SHA-256 is the parameter \<open>sha\<close>.
\<close>

section \<open>JSON forms\<close>

fun verdict_json :: "ReviewCriterionVerdict \<Rightarrow> json" where
  "verdict_json Met = JStr ''met''"
| "verdict_json Unmet = JStr ''unmet''"
| "verdict_json UnknownVerdict = JStr ''unknown''"

definition criterion_json :: "ReviewCriterionAttribution \<Rightarrow> json" where
  "criterion_json c = JObj ([(''criterionId'', JStr (ra_criterionId c)), (''verdict'', verdict_json (ra_verdict c)),
     (''reason'', JStr (ra_reason c))] @ optField ''evidenceExcerpt'' JStr (ra_evidenceExcerpt c))"

definition attribution_json :: "ReviewAttribution \<Rightarrow> json" where
  "attribution_json a = JObj [(''criteria'', JArr (map criterion_json (at_criteria a)))]"

fun mode_text :: "AdvancementExecutionMode \<Rightarrow> string" where
  "mode_text AdvancementMode = ''advancement''"
| "mode_text DirectMode = ''direct''"

definition execution_json :: "TurnOriginAdvancementExecution \<Rightarrow> json" where
  "execution_json e = JObj ([(''sessionId'', JStr (te_sessionId e)), (''mode'', JStr (mode_text (te_mode e)))] @
     optField ''draftId'' JStr (te_draftId e))"

definition workload_json :: "ImmediateRootWorkload \<Rightarrow> json" where
  "workload_json w = JObj [(''kind'', JStr (rw_kind w)), (''id'', JStr (rw_id w)), (''attempt'', JInt (rw_attempt w))]"

fun scope_json :: "ScopeBinding \<Rightarrow> json" where
  "scope_json (ConversationScope c e) =
     JObj [(''kind'', JStr ''conversation''), (''conversationId'', JStr c), (''ownerEpoch'', JInt e)]"
| "scope_json (JobScope t e) = JObj [(''kind'', JStr ''job''), (''taskId'', JStr t), (''anchorEpoch'', JInt e)]"
| "scope_json (ControlScope s) = JObj [(''kind'', JStr ''control''), (''subject'', JStr s)]"

definition root_json :: "AdvancementReviewRootContract \<Rightarrow> json" where
  "root_json r = JObj ([(''workload'', workload_json (rt_workload r)), (''budget'', rt_budget r),
     (''requestId'', JStr (rt_requestId r))] @
     optField ''audience'' (\<lambda>e. JObj [(''executorId'', JStr e)]) (rt_audience r) @
     optField ''scopeBinding'' scope_json (rt_scopeBinding r) @ optField ''delegation'' id (rt_delegation r))"

definition runRecordRef_json :: "RunRecordRef \<Rightarrow> json" where
  "runRecordRef_json r = JObj [(''shardId'', JStr (rr_shardId r)), (''runIndex'', JInt (rr_runIndex r))]"

definition evidencePayload_json :: "EvidenceRequest \<Rightarrow> json" where
  "evidencePayload_json q = JObj ([(''v'', JInt (eq_v q))] @ optField ''anchorEpoch'' JInt (eq_anchorEpoch q) @
     [(''requestId'', JStr (eq_requestId q)), (''reviewId'', JStr (eq_reviewId q)), (''runId'', JStr (eq_runId q)),
      (''conversationId'', JStr (eq_conversationId q)), (''ownerEpoch'', JInt (eq_ownerEpoch q)),
      (''executorId'', JStr (eq_executorId q)), (''workspace'', eq_workspace q), (''items'', JArr (eq_items q)),
      (''lease'', JObj ((''workload'', workload_json (eq_leaseWorkload q)) # eq_leaseOtherFields q)),
      (''issuedAt'', JStr (eq_issuedAt q)), (''expiry'', JStr (eq_expiry q))])"

section \<open>Identities\<close>

definition advancementProposalId :: "(string \<Rightarrow> string) \<Rightarrow> string \<Rightarrow> string \<Rightarrow> (canonicalError, string) result" where
  "advancementProposalId sha conversationId runId =
     protocolDigest sha ''AdvancementProposal'' 1
       (JObj [(''conversationId'', JStr conversationId), (''runId'', JStr runId)])"

definition advancementProposalSessionId :: "string \<Rightarrow> string" where
  "advancementProposalSessionId proposalId = ''advancement-proposal-'' @ replaceFirst ''sha256:'' [] proposalId"

text \<open>The two control messages, as the UTF-8 bytes of the source's literals.\<close>

definition advancementProposalExecutionText :: "AdvancementExecutionMode \<Rightarrow> string" where
  "advancementProposalExecutionText mode = (case mode of
     AdvancementMode \<Rightarrow> map (char_of :: nat \<Rightarrow> char)
      [231, 148, 168, 230, 136, 183, 229, 183, 178, 231, 161, 174, 232, 174, 164, 32, 82, 117, 98, 114,
      105, 99, 239, 188, 140, 229, 188, 128, 229, 167, 139, 230, 137, 167, 232, 161, 140, 228, 184, 138,
      233, 157, 162, 230, 143, 144, 229, 135, 186, 231, 154, 132, 229, 142, 159, 228, 187, 187, 229, 138,
      161, 227, 128, 130]
   | DirectMode \<Rightarrow> map (char_of :: nat \<Rightarrow> char)
      [231, 148, 168, 230, 136, 183, 233, 128, 137, 230, 139, 169, 228, 184, 141, 229, 144, 175, 231, 148,
      168, 230, 142, 168, 232, 191, 155, 239, 188, 140, 231, 155, 180, 230, 142, 165, 230, 137, 167, 232,
      161, 140, 228, 184, 138, 233, 157, 162, 230, 143, 144, 229, 135, 186, 231, 154, 132, 229, 142, 159,
      228, 187, 187, 229, 138, 161, 227, 128, 130])"

definition advancementProposalExecutionInput :: "AdvancementExecutionMode \<Rightarrow> UserTurnInput" where
  "advancementProposalExecutionInput mode =
     JObj [(''parts'', JArr [JObj [(''type'', JStr ''text''), (''text'', JStr (advancementProposalExecutionText mode))]])]"

definition advancementOriginalTaskInput :: "AdvancementFoldSession \<Rightarrow> UserTurnInput" where
  "advancementOriginalTaskInput s =
     (if s_proposal s \<noteq> None
      then advancementProposalExecutionInput
             (withDefault (Option.bind (s_originalTaskAdmission s) oa_mode) AdvancementMode)
      else s_originalUserTask s)"

text \<open>\<open>None\<close> is the \<^verbatim>\<open>TypeError\<close> for a confirmed execution without its draft.\<close>

definition advancementExecutionTurnId :: "string \<Rightarrow> AdvancementExecutionMode \<Rightarrow> string option \<Rightarrow> string option" where
  "advancementExecutionTurnId originalTurnId mode draftId =
     (if mode = AdvancementMode \<and> \<not> truthy draftId then None
      else Some (case mode of
        AdvancementMode \<Rightarrow> originalTurnId @ '':advancement:'' @ the draftId
      | DirectMode \<Rightarrow> originalTurnId @ '':direct''))"

definition digestSuffix :: "string \<Rightarrow> string" where
  "digestSuffix d = drop (length ''sha256:'') d"

definition advancementEvidenceRequestId ::
  "(string \<Rightarrow> string) \<Rightarrow> string \<Rightarrow> int \<Rightarrow> int \<Rightarrow> (canonicalError, string) result" where
  "advancementEvidenceRequestId sha reviewId generation attempt =
     andThen (protocolDigest sha ''AdvancementEvidenceRequestId'' 1
       (JObj [(''reviewId'', JStr reviewId), (''generation'', JInt generation), (''attempt'', JInt attempt)]))
       (\<lambda>d. Inr (''evidence:'' @ digestSuffix d))"

definition advancementReviewLineageId ::
  "(string \<Rightarrow> string) \<Rightarrow> string \<Rightarrow> RunRecordRef \<Rightarrow> (canonicalError, string) result" where
  "advancementReviewLineageId sha sessionId ref =
     andThen (protocolDigest sha ''AdvancementReviewLineage'' 1
       (JObj [(''sessionId'', JStr sessionId), (''runRecordRef'', runRecordRef_json ref)]))
       (\<lambda>d. Inr (''adv-review:'' @ digestSuffix d))"

definition advancementReviewAttemptId :: "string \<Rightarrow> int \<Rightarrow> string" where
  "advancementReviewAttemptId lineageId generation = lineageId @ '':generation:'' @ show_int generation"

definition advancementReviewRootRequestId :: "string \<Rightarrow> int \<Rightarrow> string" where
  "advancementReviewRootRequestId lineageId generation =
     ''advancement-review-root:'' @ advancementReviewAttemptId lineageId generation"

definition evidenceRequestDigest :: "(string \<Rightarrow> string) \<Rightarrow> EvidenceRequest \<Rightarrow> (canonicalError, string) result" where
  "evidenceRequestDigest sha request = protocolDigest sha ''EvidenceRequest'' (eq_v request) (evidencePayload_json request)"

section \<open>Identities separate what they name\<close>

text \<open>An execution turn id tells the mode and, for a confirmed execution, the draft apart.\<close>

lemma executionTurnId_draft_inj:
  "advancementExecutionTurnId t AdvancementMode d = Some x \<Longrightarrow>
   advancementExecutionTurnId t AdvancementMode d' = Some x \<Longrightarrow> d = d'"
  by (auto simp: advancementExecutionTurnId_def truthy_iff split: if_splits)

lemma executionTurnId_mode:
  "advancementExecutionTurnId t AdvancementMode d = Some x \<Longrightarrow>
   advancementExecutionTurnId t DirectMode d' = Some y \<Longrightarrow> x \<noteq> y"
  by (auto simp: advancementExecutionTurnId_def split: if_splits)

lemma reviewAttemptId_inj:
  "advancementReviewAttemptId l g = advancementReviewAttemptId l g' \<Longrightarrow> g = g'"
  by (auto simp: advancementReviewAttemptId_def dest: show_int_inj)

lemma verdict_json_inj: "verdict_json x = verdict_json y \<Longrightarrow> x = y"
  by (cases x; cases y) auto

lemma criterion_json_inj: "criterion_json a = criterion_json b \<Longrightarrow> (a :: ReviewCriterionAttribution) = b"
  by (auto simp: criterion_json_def optField_def split: option.splits dest: verdict_json_inj
      intro!: ReviewCriterionAttribution.equality)

lemma attribution_json_inj: "attribution_json a = attribution_json b \<Longrightarrow> (a :: ReviewAttribution) = b"
  by (auto simp: attribution_json_def intro!: ReviewAttribution.equality
      intro: injI criterion_json_inj dest!: map_injective)

end
