(* ===== verification/Advancement_Guards.thy ===== *)
theory Advancement_Guards
  imports Advancement_Identity
begin

text \<open>
  The legality gate of advancement writes
  (\<^verbatim>\<open>packages/core/src/advancement/guards.ts\<close>, \<^verbatim>\<open>assertAdvancementEventBatchLegal\<close>): a batch
  is checked event by event on a copy of the fold, each legal event is applied to the copy
  before the next is checked, and the first illegal event rejects the whole batch. One
  definition per event type holds its conditions in the source's order; every thrown error
  is a value. \<open>checkBatch\<close> also returns the copy, which the source discards.
\<close>

section \<open>Errors\<close>

datatype AdvancementGuardError =
    EmptyBatch | ReceiptNotFinal | NotOneSession
  | SessionNotFound | NotAwaiting | NotActive
  | ReceiptConversationMismatch | ReceiptNotCommittedDraft | ReceiptNotOpenProposal
  | ReceiptNotOriginalIntent | ReceiptNeedsCancelled
  | RegeneratedNotAtomic | SessionExists | OpenSessionExists
  | ProposalUnbound | RejectedNotSuperseded | SupplementNeedsProposal
  | IllegalDraftTransition | DraftedUnbound
  | RubricIdBlank | RubricIdDuplicate
  | IntentNotExecutionIdentity | IntentNotTaskContent | IntentNotPrincipal | IntentNotExecution
  | CannotBeDirected | DirectUnbound | DirectNotExecution
  | SettlementNeedsPending | NoPendingAdmission | SettlementUnbound
  | RevisedOtherTurn | SecondReviewInBatch | DuplicateReview | UnknownFailureHandling
  | ProxyOutstanding | ProxyOtherSession | ProxyNeedsFailedReview | ProxyNoReview
  | ProxyIdMismatch | ProxyUnbound | ProxyNotOutstanding
  | CompletedNotPassed | ExitedNotExit | CompletionNeedsReview | AlreadyClosed
  | RootCleanupUnbound | ClosedCannotReview | AttemptUnbound | AttemptGenerationNotNext
  | AttemptIdentityChanged | OnlyStartedInvokes | ConsumedNeedsReview
  | DeferredNeedsInvoking | ExpiredNeedsPending
  | EvidenceUnbound | EvidenceGenerationNotNext | EvidenceMappingInvalid
  | EvidenceNotPending | BundleUnbound | SettledNotPending
  | CanonicalFailure canonicalError

type_synonym 'a guarded = "(AdvancementGuardError, 'a) result"

definition liftCanonical :: "(canonicalError, 'a) result \<Rightarrow> 'a guarded" where
  "liftCanonical r = (case r of Inl e \<Rightarrow> Inl (CanonicalFailure e) | Inr x \<Rightarrow> Inr x)"

text \<open>\<^verbatim>\<open>canonicalize(a) !== canonicalize(b)\<close>.\<close>

definition canonicalDiffers :: "json \<Rightarrow> json \<Rightarrow> bool guarded" where
  "canonicalDiffers a b =
     andThen (liftCanonical (canonicalize a)) (\<lambda>s. andThen (liftCanonical (canonicalize b)) (\<lambda>t. Inr (s \<noteq> t)))"

section \<open>Lookups that may throw\<close>

definition requireSession :: "AdvancementFoldMap \<Rightarrow> string \<Rightarrow> AdvancementFoldSession guarded" where
  "requireSession m sid = (case omap_get m sid of None \<Rightarrow> Inl SessionNotFound | Some s \<Rightarrow> Inr s)"

definition requireAwaiting :: "AdvancementFoldMap \<Rightarrow> string \<Rightarrow> AdvancementFoldSession guarded" where
  "requireAwaiting m sid = andThen (requireSession m sid) (\<lambda>s.
     if s_status s \<noteq> AwaitingRubricConfirmation then Inl NotAwaiting else Inr s)"

definition requireActive :: "AdvancementFoldMap \<Rightarrow> string \<Rightarrow> AdvancementFoldSession guarded" where
  "requireActive m sid = andThen (requireSession m sid) (\<lambda>s.
     if s_status s \<noteq> Active then Inl NotActive else Inr s)"

definition sameRunRecordRef :: "RunRecordRef \<Rightarrow> RunRecordRef \<Rightarrow> bool" where
  "sameRunRecordRef l r \<longleftrightarrow> rr_shardId l = rr_shardId r \<and> rr_runIndex l = rr_runIndex r"

definition isTerminalReviewAttempt :: "AdvancementReviewAttemptPhase \<Rightarrow> bool" where
  "isTerminalReviewAttempt p \<longleftrightarrow> p = Consumed \<or> p = Deferred \<or> p = Expired"

definition someOpen :: "AdvancementFoldMap \<Rightarrow> bool" where
  "someOpen m = list_ex isOpenAdvancementSession (omap_values m)"

section \<open>Receipts, sessions and proposals\<close>

definition guardReceipt :: "AdvancementFoldMap \<Rightarrow> string \<Rightarrow> AdvancementSubmissionReceipt \<Rightarrow> unit guarded" where
  "guardReceipt m conv r =
     (let bound = (\<lambda>sid check. andThen (requireSession m sid) (\<lambda>s.
                     if s_conversationId s \<noteq> conv then Inl ReceiptConversationMismatch else check s));
          draftOk = (\<lambda>s did turn. s_status s = AwaitingRubricConfirmation \<and>
                     (case s_pendingRubricDraft s of None \<Rightarrow> False
                      | Some d \<Rightarrow> rd_draftId d = did \<and> rd_originalTurnId d = turn));
          proposalOk = (\<lambda>s turn. isProposalStageStatus (s_status s) \<and>
                     (case s_proposal s of None \<Rightarrow> False | Some p \<Rightarrow> pr_originalTurnId p = turn))
      in case sr_outcome r of
           ContractFailed _ \<Rightarrow> Inr ()
         | RejectedOutcome _ \<Rightarrow> Inr ()
         | DraftSaved _ sid did ver turn \<Rightarrow>
             bound sid (\<lambda>s. throwIf (\<not> draftOk s did turn \<or> s_rubricDraftVersion s \<noteq> ver) ReceiptNotCommittedDraft)
         | NotSaved sid did turn \<Rightarrow> bound sid (\<lambda>s. throwIf (\<not> draftOk s did turn) ReceiptNotCommittedDraft)
         | ProposalKept sid turn \<Rightarrow> bound sid (\<lambda>s. throwIf (\<not> proposalOk s turn) ReceiptNotOpenProposal)
         | ProposalSupplementedOutcome sid turn revision \<Rightarrow>
             bound sid (\<lambda>s. throwIf (\<not> proposalOk s turn \<or>
               (case s_proposal s of None \<Rightarrow> True | Some p \<Rightarrow> int (length (pr_supplements p)) \<noteq> revision)) ReceiptNotOpenProposal)
         | OriginalTaskIntent mode sid turn \<Rightarrow>
             bound sid (\<lambda>s. throwIf (case s_originalTaskAdmission s of None \<Rightarrow> True
               | Some adm \<Rightarrow> ai_turnId (oa_intent adm) \<noteq> turn \<or>
                   ai_surfacePrincipal (oa_intent adm) \<noteq> si_surfacePrincipal (sr_identity r) \<or>
                   withDefault (oa_mode adm) AdvancementMode \<noteq> mode) ReceiptNotOriginalIntent)
         | CancelledOutcome sid \<Rightarrow> bound sid (\<lambda>s. throwIf (s_status s \<noteq> Cancelled) ReceiptNeedsCancelled))"

definition guardRegenerated :: "AdvancementFoldMap \<Rightarrow> string \<Rightarrow> string \<Rightarrow> AdvancementExit \<Rightarrow> unit guarded" where
  "guardRegenerated m sid next ext = andThen (requireActive m sid) (\<lambda>prior.
     throwIf (omap_get m next \<noteq> None \<or> ex_reason ext \<noteq> Superseded \<or>
       list_ex (\<lambda>s. s_id s \<noteq> s_id prior \<and> isOpenAdvancementSession s) (omap_values m)) RegeneratedNotAtomic)"

definition guardCreated :: "AdvancementFoldMap \<Rightarrow> string \<Rightarrow> unit guarded" where
  "guardCreated m sid =
     (if omap_get m sid \<noteq> None then Inl SessionExists
      else if someOpen m then Inl OpenSessionExists else Inr ())"

definition proposalBinds ::
  "(string \<Rightarrow> string) \<Rightarrow> AdvancementFoldMap \<Rightarrow> string \<Rightarrow> string \<Rightarrow> string \<Rightarrow> string \<Rightarrow> unit guarded" where
  "proposalBinds sha m sid conv pid rid =
     (if omap_get m sid \<noteq> None then Inl ProposalUnbound
      else andThen (liftCanonical (advancementProposalId sha conv rid)) (\<lambda>expected.
        throwIf (pid \<noteq> expected \<or> sid \<noteq> advancementProposalSessionId pid) ProposalUnbound))"

definition guardProposalAccepted ::
  "(string \<Rightarrow> string) \<Rightarrow> AdvancementFoldMap \<Rightarrow> string \<Rightarrow> string \<Rightarrow> string \<Rightarrow> string \<Rightarrow> unit guarded" where
  "guardProposalAccepted sha m sid conv pid rid =
     andThen (proposalBinds sha m sid conv pid rid) (\<lambda>_. throwIf (someOpen m) OpenSessionExists)"

definition guardProposalRejected ::
  "(string \<Rightarrow> string) \<Rightarrow> AdvancementFoldMap \<Rightarrow> string \<Rightarrow> string \<Rightarrow> string \<Rightarrow> string \<Rightarrow> AdvancementExit \<Rightarrow> unit guarded" where
  "guardProposalRejected sha m sid conv pid rid ext =
     andThen (proposalBinds sha m sid conv pid rid) (\<lambda>_. throwIf (ex_reason ext \<noteq> Superseded) RejectedNotSuperseded)"

definition guardSupplemented :: "AdvancementFoldMap \<Rightarrow> string \<Rightarrow> unit guarded" where
  "guardSupplemented m sid = andThen (requireSession m sid) (\<lambda>s.
     throwIf (s_proposal s = None \<or> \<not> isProposalStageStatus (s_status s)) SupplementNeedsProposal)"

definition draftTransitionLegal :: "AdvancementFoldSession \<Rightarrow> AdvancementDraftAttempt \<Rightarrow> bool" where
  "draftTransitionLegal s a =
     (case s_proposal s of None \<Rightarrow> False
      | Some p \<Rightarrow>
          if da_phase a = DraftInvoking
          then (s_status s = Proposed \<or> s_status s = DraftFailed \<or> s_status s = DraftUncertain) \<and>
               da_generation a = (case pr_draftAttempt p of None \<Rightarrow> 0 | Some q \<Rightarrow> da_generation q) + 1 \<and>
               da_revision a = int (length (pr_supplements p))
          else s_status s = Drafting \<and>
               (case pr_draftAttempt p of None \<Rightarrow> False
                | Some q \<Rightarrow> da_phase q = DraftInvoking \<and> da_generation q = da_generation a \<and> da_revision q = da_revision a))"

definition guardDraftTransition :: "AdvancementFoldMap \<Rightarrow> string \<Rightarrow> AdvancementDraftAttempt \<Rightarrow> unit guarded" where
  "guardDraftTransition m sid a = andThen (requireSession m sid) (\<lambda>s.
     throwIf (\<not> draftTransitionLegal s a) IllegalDraftTransition)"

definition guardDrafted :: "AdvancementFoldMap \<Rightarrow> string \<Rightarrow> int \<Rightarrow> RubricContractDraftSnapshot \<Rightarrow> unit guarded" where
  "guardDrafted m sid revision draft = andThen (requireSession m sid) (\<lambda>s.
     throwIf (case s_proposal s of None \<Rightarrow> True
       | Some p \<Rightarrow> s_status s \<noteq> Drafting \<or>
           (case pr_draftAttempt p of None \<Rightarrow> True
            | Some q \<Rightarrow> da_phase q \<noteq> DraftConsumed \<or> revision < da_revision q) \<or>
           revision \<noteq> int (length (pr_supplements p)) \<or>
           rd_originalTurnId draft \<noteq> pr_originalTurnId p) DraftedUnbound)"

section \<open>Confirmation and admission\<close>

fun assertUniqueIds :: "string list \<Rightarrow> string list \<Rightarrow> unit guarded" where
  "assertUniqueIds seen [] = Inr ()"
| "assertUniqueIds seen (i # is) =
     (if js_blank i then Inl RubricIdBlank
      else if i \<in> set seen then Inl RubricIdDuplicate
      else assertUniqueIds (i # seen) is)"

definition assertUniqueConfirmedRubricContractContentIds :: "ConfirmedRubricContentSnapshot \<Rightarrow> unit guarded" where
  "assertUniqueConfirmedRubricContractContentIds c =
     andThen (assertUniqueIds [] (map er_id (withDefault (cc_evidenceRequirements c) []))) (\<lambda>_.
       andThen (assertUniqueIds [] (map fh_id (cc_failureHandling c))) (\<lambda>_.
         assertUniqueIds [] (map pc_id (cc_passCriteria c))))"

definition bindsAdvancementExecution ::
  "AdvancementFoldSession \<Rightarrow> TurnOriginAdvancementExecution option \<Rightarrow> TurnOriginAdvancementExecution \<Rightarrow> bool guarded" where
  "bindsAdvancementExecution s marker expected =
     (case marker of None \<Rightarrow> Inr (s_proposal s = None)
      | Some mk \<Rightarrow> andThen (canonicalDiffers (execution_json mk) (execution_json expected)) (\<lambda>d. Inr (\<not> d)))"

definition originalTurnIdOf :: "AdvancementFoldSession \<Rightarrow> string option" where
  "originalTurnIdOf s =
     orElse (map_option pr_originalTurnId (s_proposal s)) (map_option rd_originalTurnId (s_pendingRubricDraft s))"

definition originalTaskDigest ::
  "(string \<Rightarrow> string) \<Rightarrow> AdvancementFoldSession \<Rightarrow> AdvancementExecutionMode \<Rightarrow> string guarded" where
  "originalTaskDigest sha s mode =
     liftCanonical (protocolDigest sha ''AdvancementOriginalTaskInput'' 1
       (if s_proposal s \<noteq> None then advancementProposalExecutionInput mode else s_originalUserTask s))"

definition guardConfirmed ::
  "(string \<Rightarrow> string) \<Rightarrow> AdvancementFoldMap \<Rightarrow> string \<Rightarrow> ConfirmedRubricSnapshot \<Rightarrow>
     AdvancementOriginalTaskAdmissionIntent \<Rightarrow> unit guarded" where
  "guardConfirmed sha m sid rubric intent = andThen (requireAwaiting m sid) (\<lambda>s.
     andThen (assertUniqueConfirmedRubricContractContentIds (cr_content rubric)) (\<lambda>_.
       let turn = originalTurnIdOf s; did = map_option rd_draftId (s_pendingRubricDraft s) in
       if \<not> truthy turn \<or> \<not> truthy did \<or>
          Some (ai_turnId intent) \<noteq> advancementExecutionTurnId (the turn) AdvancementMode did
       then Inl IntentNotExecutionIdentity
       else andThen (originalTaskDigest sha s AdvancementMode) (\<lambda>expected.
         if ai_inputDigest intent \<noteq> expected then Inl IntentNotTaskContent
         else if to_triggeredBy (ai_turnOrigin intent) \<noteq> Some (ai_surfacePrincipal intent) then Inl IntentNotPrincipal
         else andThen (bindsAdvancementExecution s (to_advancementExecution (ai_turnOrigin intent))
                 \<lparr>te_sessionId = s_id s, te_mode = AdvancementMode, te_draftId = did\<rparr>) (\<lambda>ok.
           throwIf (\<not> ok) IntentNotExecution))))"

definition guardDirected ::
  "(string \<Rightarrow> string) \<Rightarrow> AdvancementFoldMap \<Rightarrow> string \<Rightarrow> AdvancementExit \<Rightarrow>
     AdvancementOriginalTaskAdmissionIntent \<Rightarrow> unit guarded" where
  "guardDirected sha m sid ext intent = andThen (requireSession m sid) (\<lambda>s.
     if (if s_proposal s \<noteq> None
         then \<not> isProposalStageStatus (s_status s) \<and> s_status s \<noteq> AwaitingRubricConfirmation
         else s_status s \<noteq> AwaitingRubricConfirmation)
     then Inl CannotBeDirected
     else
       let turn = originalTurnIdOf s in
       if \<not> truthy turn \<or> Some (ai_turnId intent) \<noteq> advancementExecutionTurnId (the turn) DirectMode None
       then Inl DirectUnbound
       else andThen (originalTaskDigest sha s DirectMode) (\<lambda>expected.
         if ai_inputDigest intent \<noteq> expected \<or>
            to_triggeredBy (ai_turnOrigin intent) \<noteq> Some (ai_surfacePrincipal intent) \<or>
            ex_reason ext \<noteq> UserCancelled
         then Inl DirectUnbound
         else andThen (bindsAdvancementExecution s (to_advancementExecution (ai_turnOrigin intent))
                 \<lparr>te_sessionId = s_id s, te_mode = DirectMode, te_draftId = None\<rparr>) (\<lambda>ok.
           throwIf (\<not> ok) DirectNotExecution)))"

definition guardAdmissionSettlement :: "AdvancementFoldMap \<Rightarrow> string \<Rightarrow> string \<Rightarrow> Digest \<Rightarrow> unit guarded" where
  "guardAdmissionSettlement m sid turn dig = andThen (requireSession m sid) (\<lambda>s.
     if s_status s \<noteq> Active \<and>
        \<not> (s_status s = Cancelled \<and> Option.bind (s_originalTaskAdmission s) oa_mode = Some DirectMode)
     then Inl SettlementNeedsPending
     else case s_originalTaskAdmission s of None \<Rightarrow> Inl NoPendingAdmission
       | Some adm \<Rightarrow>
           if oa_status adm \<noteq> AdmissionPending then Inl NoPendingAdmission
           else throwIf (ai_turnId (oa_intent adm) \<noteq> turn \<or> ai_inputDigest (oa_intent adm) \<noteq> dig) SettlementUnbound)"

definition guardDraftRevised :: "AdvancementFoldMap \<Rightarrow> string \<Rightarrow> RubricContractDraftSnapshot \<Rightarrow> unit guarded" where
  "guardDraftRevised m sid draft = andThen (requireAwaiting m sid) (\<lambda>s.
     throwIf (case s_pendingRubricDraft s of None \<Rightarrow> False
       | Some d \<Rightarrow> rd_originalTurnId draft \<noteq> rd_originalTurnId d) RevisedOtherTurn)"

section \<open>Reviews and proxy messages\<close>

definition sameReviewIdentity :: "AdvancementRunReview \<Rightarrow> AdvancementRunReview \<Rightarrow> bool" where
  "sameReviewIdentity a b \<longleftrightarrow> rv_id a = rv_id b \<or> rv_runIndex a = rv_runIndex b \<or>
     (case (rv_runRecordRef a, rv_runRecordRef b) of (Some x, Some y) \<Rightarrow> sameRunRecordRef x y | _ \<Rightarrow> False)"

definition guardReviewed ::
  "AdvancementFoldMap \<Rightarrow> AdvancementRunReview option \<Rightarrow> string \<Rightarrow> AdvancementRunReview \<Rightarrow> unit guarded" where
  "guardReviewed m batchReview sid review = andThen (requireActive m sid) (\<lambda>s.
     if batchReview \<noteq> None then Inl SecondReviewInBatch
     else if list_ex (\<lambda>r. sameReviewIdentity r review) (s_runs s) then Inl DuplicateReview
     else throwIf (case rv_selectedFailureHandlingId review of None \<Rightarrow> False
       | Some h \<Rightarrow> (case s_confirmedRubric s of None \<Rightarrow> True
           | Some r \<Rightarrow> h \<notin> set (map fh_id (cc_failureHandling (cr_content r))))) UnknownFailureHandling)"

definition boundReview ::
  "AdvancementRunReview option \<Rightarrow> AdvancementFoldSession \<Rightarrow> AdvancementProxyMessage \<Rightarrow> AdvancementRunReview option" where
  "boundReview batchReview s pm =
     orElse batchReview (List.find (\<lambda>r. rv_decision r = Failed \<and> rv_proxyMessageId r = Some (pm_id pm)) (s_runs s))"

definition guardProxyEnqueued ::
  "AdvancementFoldMap \<Rightarrow> AdvancementRunReview option \<Rightarrow> string \<Rightarrow> AdvancementProxyMessage \<Rightarrow> unit guarded" where
  "guardProxyEnqueued m batchReview sid pm = andThen (requireActive m sid) (\<lambda>s.
     if truthy (s_outstandingProxyMessageId s) then Inl ProxyOutstanding
     else if pm_sessionId pm \<noteq> sid then Inl ProxyOtherSession
     else if (case batchReview of None \<Rightarrow> False | Some r \<Rightarrow> rv_decision r \<noteq> Failed) then Inl ProxyNeedsFailedReview
     else case boundReview batchReview s pm of None \<Rightarrow> Inl ProxyNoReview
       | Some r \<Rightarrow>
           if rv_proxyMessageId r \<noteq> Some (pm_id pm) then Inl ProxyIdMismatch
           else if pm_reviewId pm \<noteq> rv_id r \<or> rv_selectedFailureHandlingId r \<noteq> Some (pm_rubricFailureHandlingId pm)
           then Inl ProxyUnbound
           else andThen (canonicalDiffers (attribution_json (pm_attribution pm)) (attribution_json (rv_attribution r)))
                  (\<lambda>d. throwIf d ProxyUnbound))"

definition guardProxySettled :: "AdvancementFoldMap \<Rightarrow> string \<Rightarrow> string \<Rightarrow> unit guarded" where
  "guardProxySettled m sid pmid = andThen (requireActive m sid) (\<lambda>s.
     throwIf (s_outstandingProxyMessageId s \<noteq> Some pmid) ProxyNotOutstanding)"

definition assertTerminalReviewDecision :: "AdvancementRunReview \<Rightarrow> AdvancementSessionStatus \<Rightarrow> unit guarded" where
  "assertTerminalReviewDecision review terminal =
     (if terminal = Completed \<and> rv_decision review \<noteq> Passed then Inl CompletedNotPassed
      else throwIf (terminal = Exited \<and> rv_decision review \<noteq> ExitDecision) ExitedNotExit)"

definition guardTerminal ::
  "AdvancementFoldMap \<Rightarrow> AdvancementRunReview option \<Rightarrow> string \<Rightarrow> AdvancementSessionStatus \<Rightarrow> unit guarded" where
  "guardTerminal m batchReview sid terminal = andThen (requireActive m sid) (\<lambda>s.
     case batchReview of
       Some r \<Rightarrow> assertTerminalReviewDecision r terminal
     | None \<Rightarrow>
         if terminal = Completed
         then (if s_runs s = [] then Inl CompletionNeedsReview
               else assertTerminalReviewDecision (last (s_runs s)) terminal)
         else Inr ())"

definition guardCancelled :: "AdvancementFoldMap \<Rightarrow> string \<Rightarrow> unit guarded" where
  "guardCancelled m sid = andThen (requireSession m sid) (\<lambda>s.
     throwIf (\<not> isOpenAdvancementSession s) AlreadyClosed)"

section \<open>Review attempts\<close>

definition guardRootSettled :: "AdvancementFoldMap \<Rightarrow> string \<Rightarrow> string \<Rightarrow> int \<Rightarrow> unit guarded" where
  "guardRootSettled m sid lin gen = andThen (requireSession m sid) (\<lambda>s.
     throwIf (case List.find (\<lambda>a. rta_lineageId a = lin) (s_reviewAttempts s) of None \<Rightarrow> True
       | Some a \<Rightarrow> gen > rta_generation a \<or>
           (gen = rta_generation a \<and> \<not> isTerminalReviewAttempt (rta_phase a))) RootCleanupUnbound)"

definition attemptBindsRoot :: "AdvancementFoldSession \<Rightarrow> string \<Rightarrow> AdvancementReviewAttempt \<Rightarrow> bool" where
  "attemptBindsRoot s expectedLineage a \<longleftrightarrow>
     rta_lineageId a = expectedLineage \<and>
     rta_runIndex a = rr_runIndex (rta_runRecordRef a) \<and>
     rw_kind (rt_workload (rta_root a)) = ''control'' \<and>
     rw_id (rt_workload (rta_root a)) = advancementReviewAttemptId (rta_lineageId a) (rta_generation a) \<and>
     rw_attempt (rt_workload (rta_root a)) = 1 \<and>
     rt_requestId (rta_root a) = advancementReviewRootRequestId (rta_lineageId a) (rta_generation a) \<and>
     (rt_audience (rta_root a) = None) = (rt_scopeBinding (rta_root a) = None) \<and>
     (case rt_scopeBinding (rta_root a) of None \<Rightarrow> True
      | Some (ConversationScope c _) \<Rightarrow> c = s_conversationId s
      | Some _ \<Rightarrow> False)"

definition currentAttempt :: "AdvancementFoldSession \<Rightarrow> RunRecordRef \<Rightarrow> AdvancementReviewAttempt option" where
  "currentAttempt s ref = List.find (\<lambda>c. sameRunRecordRef (rta_runRecordRef c) ref) (s_reviewAttempts s)"

definition guardAttemptStarted :: "AdvancementFoldSession \<Rightarrow> AdvancementReviewAttempt \<Rightarrow> unit guarded" where
  "guardAttemptStarted s a =
     throwIf (case currentAttempt s (rta_runRecordRef a) of
       Some c \<Rightarrow> \<not> isTerminalReviewAttempt (rta_phase c) \<or> rta_generation a \<noteq> rta_generation c + 1 \<or>
         rta_runId a \<noteq> rta_runId c \<or> rta_lineageId a \<noteq> rta_lineageId c
     | None \<Rightarrow> rta_generation a \<noteq>
         (case List.find (\<lambda>e. eg_runId e = rta_runId a) (s_evidenceGenerations s) of None \<Rightarrow> 0 | Some e \<Rightarrow> eg_generation e) + 1)
       AttemptGenerationNotNext"

definition guardAttemptAdvance :: "AdvancementFoldSession \<Rightarrow> AdvancementReviewAttempt \<Rightarrow> unit guarded" where
  "guardAttemptAdvance s a =
     (case currentAttempt s (rta_runRecordRef a) of None \<Rightarrow> Inl AttemptIdentityChanged
      | Some c \<Rightarrow>
          if rta_lineageId c \<noteq> rta_lineageId a \<or> rta_generation c \<noteq> rta_generation a \<or>
             rta_runId c \<noteq> rta_runId a \<or> rta_runIndex c \<noteq> rta_runIndex a
          then Inl AttemptIdentityChanged
          else andThen (canonicalDiffers (root_json (rta_root c)) (root_json (rta_root a))) (\<lambda>d.
            if d then Inl AttemptIdentityChanged
            else if rta_phase a = Invoking then throwIf (rta_phase c \<noteq> Started) OnlyStartedInvokes
            else if rta_phase a = Consumed \<and>
                 (rta_phase c \<noteq> Invoking \<or>
                  \<not> list_ex (\<lambda>r. case rv_runRecordRef r of None \<Rightarrow> False
                       | Some x \<Rightarrow> sameRunRecordRef x (rta_runRecordRef a)) (s_runs s))
            then Inl ConsumedNeedsReview
            else if rta_phase a = Deferred \<and> rta_phase c \<noteq> Invoking then Inl DeferredNeedsInvoking
            else throwIf (rta_phase a = Expired \<and> rta_phase c \<noteq> Started \<and> rta_phase c \<noteq> Invoking) ExpiredNeedsPending))"

definition guardAttempt ::
  "(string \<Rightarrow> string) \<Rightarrow> AdvancementFoldMap \<Rightarrow> string \<Rightarrow> AdvancementReviewAttempt \<Rightarrow> unit guarded" where
  "guardAttempt sha m sid a = andThen (requireSession m sid) (\<lambda>s.
     if s_status s \<noteq> Active \<and> \<not> isTerminalReviewAttempt (rta_phase a) then Inl ClosedCannotReview
     else andThen (liftCanonical (advancementReviewLineageId sha sid (rta_runRecordRef a))) (\<lambda>lin.
       if \<not> attemptBindsRoot s lin a then Inl AttemptUnbound
       else if rta_phase a = Started then guardAttemptStarted s a
       else guardAttemptAdvance s a))"

section \<open>Evidence\<close>

fun mappingsValid ::
  "int list \<Rightarrow> nat \<Rightarrow> string list \<Rightarrow> AdvancementEvidenceItemRequirement list \<Rightarrow> unit guarded" where
  "mappingsValid seen items known [] = Inr ()"
| "mappingsValid seen items known (x # xs) =
     (if ir_itemIndex x \<in> set seen \<or> ir_itemIndex x \<ge> int items \<or> ir_requirementIds x = [] \<or>
         \<not> distinct (ir_requirementIds x) \<or> list_ex (\<lambda>i. i \<notin> set known) (ir_requirementIds x)
      then Inl EvidenceMappingInvalid
      else mappingsValid (ir_itemIndex x # seen) items known xs)"

definition attemptForRun :: "AdvancementFoldSession \<Rightarrow> string \<Rightarrow> AdvancementReviewAttempt option" where
  "attemptForRun s run = List.find (\<lambda>c. rta_runId c = run) (s_reviewAttempts s)"

definition evidenceBinds ::
  "(string \<Rightarrow> string) \<Rightarrow> AdvancementFoldSession \<Rightarrow> AdvancementEvidenceAttempt \<Rightarrow> unit guarded" where
  "evidenceBinds sha s a =
     (if ea_requestId a \<noteq> eq_requestId (ea_request a) \<or> ea_reviewId a \<noteq> eq_reviewId (ea_request a)
      then Inl EvidenceUnbound
      else andThen (liftCanonical (evidenceRequestDigest sha (ea_request a))) (\<lambda>dig.
        if ea_requestDigest a \<noteq> dig then Inl EvidenceUnbound
        else andThen (liftCanonical (advancementEvidenceRequestId sha (ea_reviewId a) (ea_generation a) (ea_attempt a))) (\<lambda>rid.
          throwIf (ea_requestId a \<noteq> rid \<or>
            rw_id (eq_leaseWorkload (ea_request a)) \<noteq> ea_requestId a \<or>
            rw_attempt (eq_leaseWorkload (ea_request a)) \<noteq> ea_generation a \<or>
            (case attemptForRun s (eq_runId (ea_request a)) of
               Some c \<Rightarrow> rta_phase c \<noteq> Started \<or> rta_lineageId c \<noteq> ea_reviewId a \<or> rta_generation c \<noteq> ea_generation a
             | None \<Rightarrow> s_reviewAttempts s \<noteq> [])) EvidenceUnbound)))"

definition evidenceGenerationNext :: "AdvancementFoldSession \<Rightarrow> AdvancementEvidenceAttempt \<Rightarrow> bool" where
  "evidenceGenerationNext s a =
     (let run = eq_runId (ea_request a) in
      case List.find (\<lambda>e. eg_runId e = run) (s_evidenceGenerations s) of
        Some g \<Rightarrow> eg_reviewId g = ea_reviewId a \<and>
          (if ea_generation a = eg_generation g then ea_attempt a = eg_lastAttempt g + 1
           else ea_generation a = eg_generation g + 1 \<and> ea_attempt a = 1 \<and>
                List.find (\<lambda>p. eq_runId (ea_request (ep_attempt p)) = run) (s_evidencePending s) = None)
      | None \<Rightarrow> ea_generation a = (case attemptForRun s run of None \<Rightarrow> 1 | Some c \<Rightarrow> rta_generation c) \<and> ea_attempt a = 1)"

definition guardEvidenceRequested ::
  "(string \<Rightarrow> string) \<Rightarrow> AdvancementFoldMap \<Rightarrow> string \<Rightarrow> AdvancementEvidenceAttempt \<Rightarrow> unit guarded" where
  "guardEvidenceRequested sha m sid a = andThen (requireActive m sid) (\<lambda>s.
     andThen (evidenceBinds sha s a) (\<lambda>_.
       if \<not> evidenceGenerationNext s a then Inl EvidenceGenerationNotNext
       else mappingsValid [] (length (eq_items (ea_request a)))
              (case s_confirmedRubric s of None \<Rightarrow> []
               | Some r \<Rightarrow> map er_id (withDefault (cc_evidenceRequirements (cr_content r)) []))
              (ea_itemRequirements a)))"

definition guardEvidenceResult ::
  "AdvancementFoldMap \<Rightarrow> string \<Rightarrow> string \<Rightarrow> AdvancementEvidenceOutcome \<Rightarrow> unit guarded" where
  "guardEvidenceResult m sid rid out = andThen (requireActive m sid) (\<lambda>s.
     case List.find (\<lambda>p. ea_requestId (ep_attempt p) = rid) (s_evidencePending s) of
       None \<Rightarrow> Inl EvidenceNotPending
     | Some p \<Rightarrow> (case out of
         BundleOutcome b \<Rightarrow> throwIf (eb_requestId b \<noteq> ea_requestId (ep_attempt p) \<or>
            eb_requestDigest b \<noteq> ea_requestDigest (ep_attempt p)) BundleUnbound
       | _ \<Rightarrow> Inr ()))"

definition guardEvidenceSettled :: "AdvancementFoldMap \<Rightarrow> string \<Rightarrow> string \<Rightarrow> unit guarded" where
  "guardEvidenceSettled m sid rid = andThen (requireActive m sid) (\<lambda>s.
     throwIf (\<not> list_ex (\<lambda>p. ea_requestId (ep_attempt p) = rid) (s_evidencePending s)) SettledNotPending)"

section \<open>The gate\<close>

fun guardEvent ::
  "(string \<Rightarrow> string) \<Rightarrow> AdvancementFoldMap \<Rightarrow> AdvancementRunReview option \<Rightarrow> AdvancementStoreEvent \<Rightarrow> unit guarded" where
  "guardEvent sha m br (SubmissionSettled conv _ r) = guardReceipt m conv r"
| "guardEvent sha m br (SessionRegenerated _ sid next _ ext) = guardRegenerated m sid next ext"
| "guardEvent sha m br (SessionCreated _ sid _ _ _) = guardCreated m sid"
| "guardEvent sha m br (ProposalAccepted _ sid conv pid rid _ _) = guardProposalAccepted sha m sid conv pid rid"
| "guardEvent sha m br (ProposalRejected _ sid conv pid rid _ _ ext) = guardProposalRejected sha m sid conv pid rid ext"
| "guardEvent sha m br (ProposalSupplemented _ sid _) = guardSupplemented m sid"
| "guardEvent sha m br (DraftAttemptTransitioned _ sid a) = guardDraftTransition m sid a"
| "guardEvent sha m br (ProposalDrafted _ sid revision draft) = guardDrafted m sid revision draft"
| "guardEvent sha m br (RubricConfirmed _ sid rubric intent) = guardConfirmed sha m sid rubric intent"
| "guardEvent sha m br (OriginalTaskDirected _ sid ext intent) = guardDirected sha m sid ext intent"
| "guardEvent sha m br (OriginalTaskAdmissionRejected _ sid turn dig _) = guardAdmissionSettlement m sid turn dig"
| "guardEvent sha m br (OriginalTaskAdmitted _ sid turn dig _) = guardAdmissionSettlement m sid turn dig"
| "guardEvent sha m br (RubricDraftRevised _ sid draft) = guardDraftRevised m sid draft"
| "guardEvent sha m br (RunReviewed _ sid review) = guardReviewed m br sid review"
| "guardEvent sha m br (WindowUpdated _ sid _) = andThen (requireActive m sid) (\<lambda>_. Inr ())"
| "guardEvent sha m br (ProxyEnqueued _ sid pm) = guardProxyEnqueued m br sid pm"
| "guardEvent sha m br (ProxySettled _ sid pmid) = guardProxySettled m sid pmid"
| "guardEvent sha m br (CompletedEvent _ sid _) = guardTerminal m br sid Completed"
| "guardEvent sha m br (ExitedEvent _ sid _) = guardTerminal m br sid Exited"
| "guardEvent sha m br (CancelledEvent _ sid _) = guardCancelled m sid"
| "guardEvent sha m br (ReviewRootSettled _ sid lin gen) = guardRootSettled m sid lin gen"
| "guardEvent sha m br (ReviewAttemptTransitioned _ sid a) = guardAttempt sha m sid a"
| "guardEvent sha m br (EvidenceRequested _ sid a) = guardEvidenceRequested sha m sid a"
| "guardEvent sha m br (EvidenceResult _ sid rid out) = guardEvidenceResult m sid rid out"
| "guardEvent sha m br (EvidenceSettled _ sid rid _) = guardEvidenceSettled m sid rid"

fun nextBatchReview :: "AdvancementRunReview option \<Rightarrow> AdvancementStoreEvent \<Rightarrow> AdvancementRunReview option" where
  "nextBatchReview br (RunReviewed _ _ review) = Some review"
| "nextBatchReview br _ = br"

fun checkEvents ::
  "(string \<Rightarrow> string) \<Rightarrow> AdvancementFoldMap \<Rightarrow> AdvancementRunReview option \<Rightarrow> AdvancementStoreEvent list \<Rightarrow>
     AdvancementFoldMap guarded" where
  "checkEvents sha m br [] = Inr m"
| "checkEvents sha m br (ev # evs) =
     andThen (guardEvent sha m br ev) (\<lambda>_. checkEvents sha (applyAdvancementEvent m ev) (nextBatchReview br ev) evs)"

definition batchShape :: "AdvancementStoreEvent list \<Rightarrow> unit guarded" where
  "batchShape events =
     (let receipts = length (filter isReceipt events);
          sids = remdups (List.map_filter event_sessionId events)
      in if events = [] then Inl EmptyBatch
         else if receipts > 1 \<or> (receipts = 1 \<and> \<not> isReceipt (last events)) then Inl ReceiptNotFinal
         else throwIf (length sids > 1 \<or> (length sids = 0 \<and> receipts \<noteq> 1)) NotOneSession)"

definition assertAdvancementEventBatchLegal ::
  "(string \<Rightarrow> string) \<Rightarrow> AdvancementFoldMap \<Rightarrow> AdvancementStoreEvent list \<Rightarrow> AdvancementFoldMap guarded" where
  "assertAdvancementEventBatchLegal sha m events = andThen (batchShape events) (\<lambda>_. checkEvents sha m None events)"

end
