(* ===== verification/Advancement_Lifecycle.thy ===== *)
theory Advancement_Lifecycle
  imports Advancement_Guards
begin

text \<open>
  What the gate guarantees of the advancement store. The abstract lifecycle of a session is
  a small step relation on statuses; every legal event moves each session along it
  (refinement), so closed sessions stay closed. The stores reachable by legal batches keep
  at most one open session, and completion, review and proxy bookkeeping agree.
\<close>

section \<open>The lifecycle of a session\<close>

inductive status_step :: "AdvancementSessionStatus \<Rightarrow> AdvancementSessionStatus \<Rightarrow> bool" where
  draft_invoked: "st = Proposed \<or> st = DraftFailed \<or> st = DraftUncertain \<Longrightarrow> status_step st Drafting"
| draft_failed: "status_step Drafting DraftFailed"
| draft_uncertain: "status_step Drafting DraftUncertain"
| supplemented: "st = DraftFailed \<or> st = DraftUncertain \<Longrightarrow> status_step st Proposed"
| drafted: "status_step Drafting AwaitingRubricConfirmation"
| confirmed: "status_step AwaitingRubricConfirmation Active"
| completed: "status_step Active Completed"
| exited: "status_step Active Exited"
| cancelled: "isOpenStatus st \<Longrightarrow> status_step st Cancelled"

inductive_cases status_step_fromE: "status_step st st'"

lemmas status_step_intros = status_step.intros

lemmas open_status_defs = isOpenStatus_def isProposalStageStatus_def isOpenAdvancementSession_def

lemma status_step_from_open: "status_step st st' \<Longrightarrow> isOpenStatus st"
  by (erule status_step_fromE) (auto simp: open_status_defs)

lemma status_steps_closed: "status_step\<^sup>*\<^sup>* st st' \<Longrightarrow> \<not> isOpenStatus st \<Longrightarrow> st' = st"
  by (induction rule: converse_rtranclp_induct) (auto dest: status_step_from_open)

section \<open>What a passed guard tells\<close>

lemma requireSession_ok [guard_simps]: "requireSession m sid = Inr s \<longleftrightarrow> omap_get m sid = Some s"
  by (auto simp: requireSession_def split: option.splits)

lemma requireActive_ok [guard_simps]:
  "requireActive m sid = Inr s \<longleftrightarrow> omap_get m sid = Some s \<and> s_status s = Active"
  by (auto simp: requireActive_def andThen_eq_Inr guard_simps split: if_splits)

lemma requireAwaiting_ok [guard_simps]:
  "requireAwaiting m sid = Inr s \<longleftrightarrow> omap_get m sid = Some s \<and> s_status s = AwaitingRubricConfirmation"
  by (auto simp: requireAwaiting_def andThen_eq_Inr guard_simps split: if_splits)

text \<open>The statuses in which an event of each kind can pass the gate.\<close>

fun allowedIn :: "AdvancementStoreEvent \<Rightarrow> AdvancementSessionStatus \<Rightarrow> bool" where
  "allowedIn (ProposalSupplemented _ _ _) st = isProposalStageStatus st"
| "allowedIn (DraftAttemptTransitioned _ _ a) st =
     (if da_phase a = DraftInvoking then st = Proposed \<or> st = DraftFailed \<or> st = DraftUncertain else st = Drafting)"
| "allowedIn (ProposalDrafted _ _ _ _) st = (st = Drafting)"
| "allowedIn (RubricConfirmed _ _ _ _) st = (st = AwaitingRubricConfirmation)"
| "allowedIn (RubricDraftRevised _ _ _) st = (st = AwaitingRubricConfirmation)"
| "allowedIn (OriginalTaskDirected _ _ _ _) st = (isProposalStageStatus st \<or> st = AwaitingRubricConfirmation)"
| "allowedIn (OriginalTaskAdmissionRejected _ _ _ _ _) st = (st = Active \<or> st = Cancelled)"
| "allowedIn (OriginalTaskAdmitted _ _ _ _ _) st = (st = Active \<or> st = Cancelled)"
| "allowedIn (CancelledEvent _ _ _) st = isOpenStatus st"
| "allowedIn (ReviewRootSettled _ _ _ _) st = True"
| "allowedIn (ReviewAttemptTransitioned _ _ a) st = (st = Active \<or> isTerminalReviewAttempt (rta_phase a))"
| "allowedIn (SubmissionSettled _ _ _) st = True"
| "allowedIn (SessionCreated _ _ _ _ _) st = False"
| "allowedIn (ProposalAccepted _ _ _ _ _ _ _) st = False"
| "allowedIn (ProposalRejected _ _ _ _ _ _ _ _) st = False"
| "allowedIn _ st = (st = Active)"

fun creates :: "AdvancementStoreEvent \<Rightarrow> bool" where
  "creates (SessionCreated _ _ _ _ _) = True"
| "creates (ProposalAccepted _ _ _ _ _ _ _) = True"
| "creates (ProposalRejected _ _ _ _ _ _ _ _) = True"
| "creates _ = False"

lemma guard_creates:
  assumes "guardEvent sha m br ev = Inr ()" "creates ev" "event_sessionId ev = Some sid"
  shows "omap_get m sid = None"
  using assms
  by (cases ev) (auto simp: guardCreated_def guardProposalAccepted_def guardProposalRejected_def proposalBinds_def
      andThen_eq_Inr split: if_splits)

lemma guard_allowed:
  assumes "guardEvent sha m br ev = Inr ()" "\<not> creates ev" "event_sessionId ev = Some sid"
  shows "\<exists>s. omap_get m sid = Some s \<and> allowedIn ev (s_status s)"
  using assms
proof (cases ev)
  case (DraftAttemptTransitioned ts sid' a)
  with assms show ?thesis
    by (auto simp: guardDraftTransition_def draftTransitionLegal_def andThen_eq_Inr guard_simps split: option.splits if_splits)
next
  case (ProposalDrafted ts sid' revision draft)
  with assms show ?thesis
    by (auto simp: guardDrafted_def andThen_eq_Inr guard_simps split: option.splits)
next
  case (RubricConfirmed ts sid' rubric intent)
  with assms show ?thesis by (auto simp: guardConfirmed_def andThen_eq_Inr guard_simps)
next
  case (OriginalTaskDirected ts sid' ext intent)
  with assms show ?thesis by (auto simp: guardDirected_def andThen_eq_Inr guard_simps split: if_splits)
next
  case (ReviewAttemptTransitioned ts sid' a)
  with assms show ?thesis by (auto simp: guardAttempt_def andThen_eq_Inr guard_simps split: if_splits)
next
  case (EvidenceRequested ts sid' a)
  with assms show ?thesis by (auto simp: guardEvidenceRequested_def andThen_eq_Inr guard_simps)
next
  case (ProxyEnqueued ts sid' pm)
  with assms show ?thesis by (auto simp: guardProxyEnqueued_def andThen_eq_Inr guard_simps)
qed (auto simp: guardRegenerated_def guardSupplemented_def guardAdmissionSettlement_def guardDraftRevised_def
    guardReviewed_def guardProxySettled_def guardTerminal_def guardCancelled_def guardRootSettled_def
    guardEvidenceResult_def guardEvidenceSettled_def isOpenAdvancementSession_def
    andThen_eq_Inr guard_simps split: if_splits)

section \<open>Every legal event follows the lifecycle\<close>

lemma session_status_updates [status_simps]:
  "s_status (supplementProposal ts extra s) =
     (if s_proposal s \<noteq> None \<and> (s_status s = DraftFailed \<or> s_status s = DraftUncertain) then Proposed else s_status s)"
  "s_status (transitionDraft ts da s) =
     (if s_proposal s = None then s_status s else case da_phase da of DraftInvoking \<Rightarrow> Drafting
        | DraftAttemptFailed \<Rightarrow> DraftFailed | DraftDeferred \<Rightarrow> DraftUncertain | DraftConsumed \<Rightarrow> s_status s)"
  "s_status (rejectAdmission ts reason s) = (if s_originalTaskAdmission s = None then s_status s else Cancelled)"
  "s_status (admitOriginal ts runId s) = s_status s"
  "s_status (requestEvidence ts a s) = s_status s"
  "s_status (resultEvidence ts rid out s) = s_status s"
  "s_status (settleEvidence ts rid s) = s_status s"
  "s_status (settleReviewRoot ts lin gen s) = s_status s"
  "s_status (transitionReviewAttempt ts ra s) = s_status s"
  by (auto simp: session_update_defs Let_def split: option.splits)

lemma apply_other_session:
  assumes "event_sessionId ev \<noteq> Some k" "\<And>ts sid d e. ev \<noteq> SessionRegenerated ts sid k d e"
  shows "omap_get (applyAdvancementEvent m ev) k = omap_get m k"
  using assms by (cases ev) (auto simp: omap_simps split: option.splits)

lemma regenerated_fresh:
  "guardEvent sha m br (SessionRegenerated ts sid next d e) = Inr () \<Longrightarrow> omap_get m next = None"
  by (auto simp: guardRegenerated_def andThen_eq_Inr)

lemma allowed_update_step:
  assumes "allowedIn ev (s_status s)" "omap_get m sid = Some s" "event_sessionId ev = Some sid"
  shows "\<exists>s'. omap_get (applyAdvancementEvent m ev) sid = Some s' \<and>
    (s_status s' = s_status s \<or> status_step (s_status s) (s_status s')) \<or> creates ev \<or>
    (\<exists>ts d e. ev = SessionRegenerated ts sid sid d e)"
  using assms
proof (cases ev)
  case (DraftAttemptTransitioned ts sid' a)
  with assms show ?thesis
    by (cases "da_phase a") (auto simp: omap_simps status_simps intro: status_step_intros split: if_splits)
qed (auto simp: omap_simps status_simps open_status_defs intro!: status_step_intros split: if_splits)

lemma legal_event_step:
  assumes ok: "guardEvent sha m br ev = Inr ()" and s: "omap_get m k = Some s"
  shows "\<exists>s'. omap_get (applyAdvancementEvent m ev) k = Some s' \<and>
    (s_status s' = s_status s \<or> status_step (s_status s) (s_status s'))"
proof (cases "event_sessionId ev = Some k")
  case True
  have "\<not> creates ev" using guard_creates [OF ok _ True] s by auto
  moreover have "ev \<noteq> SessionRegenerated ts k k d e" for ts d e
    using regenerated_fresh [of sha m br ts k k d e] ok s by auto
  moreover have "allowedIn ev (s_status s)"
    using guard_allowed [OF ok \<open>\<not> creates ev\<close> True] s by auto
  ultimately show ?thesis using allowed_update_step [OF _ s True] by blast
next
  case False
  moreover have "ev \<noteq> SessionRegenerated ts sid k d e" for ts sid d e
    using regenerated_fresh [of sha m br ts sid k d e] ok s by auto
  ultimately show ?thesis using apply_other_session [of ev k m] s by auto
qed

lemma legal_events_steps:
  assumes "checkEvents sha m br evs = Inr m'" "omap_get m k = Some s"
  shows "\<exists>s'. omap_get m' k = Some s' \<and> status_step\<^sup>*\<^sup>* (s_status s) (s_status s')"
  using assms
proof (induction evs arbitrary: m br s)
  case (Cons ev evs)
  from Cons.prems have ok: "guardEvent sha m br ev = Inr ()"
    and rest: "checkEvents sha (applyAdvancementEvent m ev) (nextBatchReview br ev) evs = Inr m'"
    by (auto simp: andThen_eq_Inr)
  obtain s1 where "omap_get (applyAdvancementEvent m ev) k = Some s1"
    and step: "s_status s1 = s_status s \<or> status_step (s_status s) (s_status s1)"
    using legal_event_step [OF ok Cons.prems(2)] by blast
  with Cons.IH [OF rest] obtain s' where "omap_get m' k = Some s'" "status_step\<^sup>*\<^sup>* (s_status s1) (s_status s')"
    by blast
  with step show ?case by (auto intro: converse_rtranclp_into_rtranclp)
qed auto

section \<open>Committed logs\<close>

text \<open>
  A log is committed when it is written batch by batch through the gate; the store is what
  the gate's copy of the fold has become.
\<close>

inductive committed :: "(string \<Rightarrow> string) \<Rightarrow> AdvancementStoreEvent list \<Rightarrow> AdvancementFoldMap \<Rightarrow> bool"
  for sha where
  empty: "committed sha [] []"
| append: "committed sha log m \<Longrightarrow> assertAdvancementEventBatchLegal sha m events = Inr m' \<Longrightarrow>
    committed sha (log @ events) m'"

lemma legal_batch_events:
  assumes "assertAdvancementEventBatchLegal sha m events = Inr m'"
  shows "checkEvents sha m None events = Inr m'"
  using assms by (auto simp: assertAdvancementEventBatchLegal_def andThen_eq_Inr)

lemma checkEvents_foldl: "checkEvents sha m br events = Inr m' \<Longrightarrow> m' = foldl applyAdvancementEvent m events"
  by (induction events arbitrary: m br) (auto simp: andThen_eq_Inr)

lemma legal_batch_one_session:
  assumes "assertAdvancementEventBatchLegal sha m events = Inr m'"
  obtains k where "\<And>ev sid. ev \<in> set events \<Longrightarrow> event_sessionId ev = Some sid \<Longrightarrow> sid = k"
proof -
  let ?sids = "remdups (List.map_filter event_sessionId events)"
  from assms have "length ?sids \<le> 1"
    by (auto simp: assertAdvancementEventBatchLegal_def batchShape_def andThen_eq_Inr Let_def split: if_splits)
  then obtain k where "set ?sids \<subseteq> {k}" by (cases ?sids) auto
  then have "set (List.map_filter event_sessionId events) \<subseteq> {k}" by simp
  then show thesis using that [of k] by (force simp: List.map_filter_def)
qed

subsection \<open>Invariants of single sessions\<close>

text \<open>The review a batch has recorded so far is the last one of the session it is about.\<close>

definition batchReviewOf :: "AdvancementFoldSession \<Rightarrow> AdvancementRunReview option \<Rightarrow> bool" where
  "batchReviewOf s br \<longleftrightarrow> (case br of None \<Rightarrow> True | Some r \<Rightarrow> s_runs s \<noteq> [] \<and> last (s_runs s) = r)"

lemma session_runs_updates [status_simps]:
  "s_runs (supplementProposal ts extra s) = s_runs s" "s_runs (transitionDraft ts da s) = s_runs s"
  "s_runs (rejectAdmission ts reason s) = s_runs s" "s_runs (admitOriginal ts runId s) = s_runs s"
  "s_runs (requestEvidence ts a s) = s_runs s" "s_runs (resultEvidence ts rid out s) = s_runs s"
  "s_runs (settleEvidence ts rid s) = s_runs s" "s_runs (settleReviewRoot ts lin gen s) = s_runs s"
  "s_runs (transitionReviewAttempt ts ra s) = s_runs s"
  by (simp_all add: session_update_defs Let_def split: option.splits)

lemma session_rubric_updates [status_simps]:
  "s_confirmedRubric (supplementProposal ts extra s) = s_confirmedRubric s"
  "s_confirmedRubric (transitionDraft ts da s) = s_confirmedRubric s"
  "s_confirmedRubric (rejectAdmission ts reason s) = s_confirmedRubric s"
  "s_confirmedRubric (admitOriginal ts runId s) = s_confirmedRubric s"
  "s_confirmedRubric (requestEvidence ts a s) = s_confirmedRubric s"
  "s_confirmedRubric (resultEvidence ts rid out s) = s_confirmedRubric s"
  "s_confirmedRubric (settleEvidence ts rid s) = s_confirmedRubric s"
  "s_confirmedRubric (settleReviewRoot ts lin gen s) = s_confirmedRubric s"
  "s_confirmedRubric (transitionReviewAttempt ts ra s) = s_confirmedRubric s"
  by (simp_all add: session_update_defs Let_def split: option.splits)

lemma session_proxy_updates [status_simps]:
  "s_proxyMessages (supplementProposal ts extra s) = s_proxyMessages s"
  "s_proxyMessages (transitionDraft ts da s) = s_proxyMessages s"
  "s_proxyMessages (rejectAdmission ts reason s) = s_proxyMessages s"
  "s_proxyMessages (admitOriginal ts runId s) = s_proxyMessages s"
  "s_proxyMessages (requestEvidence ts a s) = s_proxyMessages s"
  "s_proxyMessages (resultEvidence ts rid out s) = s_proxyMessages s"
  "s_proxyMessages (settleEvidence ts rid s) = s_proxyMessages s"
  "s_proxyMessages (settleReviewRoot ts lin gen s) = s_proxyMessages s"
  "s_proxyMessages (transitionReviewAttempt ts ra s) = s_proxyMessages s"
  by (simp_all add: session_update_defs Let_def split: option.splits)

lemma session_outstanding_updates [status_simps]:
  "s_outstandingProxyMessageId (supplementProposal ts extra s) = s_outstandingProxyMessageId s"
  "s_outstandingProxyMessageId (transitionDraft ts da s) = s_outstandingProxyMessageId s"
  "s_outstandingProxyMessageId (rejectAdmission ts reason s) = s_outstandingProxyMessageId s"
  "s_outstandingProxyMessageId (admitOriginal ts runId s) = s_outstandingProxyMessageId s"
  "s_outstandingProxyMessageId (requestEvidence ts a s) = s_outstandingProxyMessageId s"
  "s_outstandingProxyMessageId (resultEvidence ts rid out s) = s_outstandingProxyMessageId s"
  "s_outstandingProxyMessageId (settleEvidence ts rid s) = s_outstandingProxyMessageId s"
  "s_outstandingProxyMessageId (settleReviewRoot ts lin gen s) = s_outstandingProxyMessageId s"
  "s_outstandingProxyMessageId (transitionReviewAttempt ts ra s) = s_outstandingProxyMessageId s"
  by (simp_all add: session_update_defs Let_def split: option.splits)

declare session_id_updates [status_simps]

lemma freshSession_fields [simp]:
  "s_status (freshSession sid conv st task ts draft ext prop) = st"
  "s_runs (freshSession sid conv st task ts draft ext prop) = []"
  "s_confirmedRubric (freshSession sid conv st task ts draft ext prop) = None"
  "s_proxyMessages (freshSession sid conv st task ts draft ext prop) = []"
  "s_outstandingProxyMessageId (freshSession sid conv st task ts draft ext prop) = None"
  "s_reviewAttempts (freshSession sid conv st task ts draft ext prop) = []"
  "s_evidencePending (freshSession sid conv st task ts draft ext prop) = []"
  by (simp_all add: freshSession_def)

fun reviewOf :: "AdvancementStoreEvent \<Rightarrow> AdvancementRunReview list" where
  "reviewOf (RunReviewed _ _ review) = [review]"
| "reviewOf _ = []"

inductive newSession :: "string \<Rightarrow> AdvancementFoldSession \<Rightarrow> bool" where
  "st = Proposed \<or> st = Cancelled \<or> st = AwaitingRubricConfirmation \<Longrightarrow>
   newSession k (freshSession k conv st task ts draft ext prp)"

inductive_cases newSessionE: "newSession k s"

text \<open>
  The session an event addresses after it: an existing one is updated in place, and only
  creating events and regeneration add sessions, which are fresh.
\<close>

lemma apply_get_cases:
  assumes ok: "guardEvent sha m br ev = Inr ()" and after: "omap_get (applyAdvancementEvent m ev) k = Some s'"
  obtains (same) "omap_get m k = Some s'" "event_sessionId ev \<noteq> Some k"
  | (updated) s where "omap_get m k = Some s" "event_sessionId ev = Some k" "\<not> creates ev"
  | (fresh) "omap_get m k = None" "newSession k s'"
proof (cases "event_sessionId ev = Some k")
  case True
  show thesis
  proof (cases "creates ev")
    case c: True
    then have "omap_get m k = None" using guard_creates [OF ok c True] by simp
    moreover from c True after have "newSession k s'"
      by (cases ev) (auto simp: omap_simps intro: newSession.intros)
    ultimately show thesis using fresh by blast
  next
    case False
    then show thesis using guard_allowed [OF ok False True] updated True by blast
  qed
next
  case False
  show thesis
  proof (cases "\<exists>ts sid d e. ev = SessionRegenerated ts sid k d e")
    case True
    then obtain ts sid d e where ev: "ev = SessionRegenerated ts sid k d e" by blast
    with ok have "omap_get m k = None" using regenerated_fresh by blast
    moreover from ev ok False after have "newSession k s'"
      by (auto simp: omap_simps guardRegenerated_def guard_simps andThen_eq_Inr split: option.splits intro: newSession.intros)
    ultimately show thesis using fresh by blast
  next
    case no: False
    then have "omap_get (applyAdvancementEvent m ev) k = omap_get m k"
      using apply_other_session [of ev k m] False by blast
    with after False show thesis using same by simp
  qed
qed

lemma apply_runs:
  assumes "guardEvent sha m br ev = Inr ()" "omap_get m k = Some s" "event_sessionId ev = Some k"
    "omap_get (applyAdvancementEvent m ev) k = Some s'"
  shows "s_runs s' = s_runs s @ reviewOf ev"
proof (cases "creates ev")
  case True
  then show ?thesis using guard_creates [OF assms(1) True assms(3)] assms by simp
next
  case False
  then show ?thesis using assms
    by (cases ev) (auto simp: omap_simps status_simps guardRegenerated_def andThen_eq_Inr split: if_splits)
qed

locale session_invariant =
  fixes I :: "AdvancementFoldSession \<Rightarrow> bool"
  assumes new: "newSession k s \<Longrightarrow> I s"
    and keep: "guardEvent sha m br ev = Inr () \<Longrightarrow> \<not> creates ev \<Longrightarrow> event_sessionId ev = Some k \<Longrightarrow>
      omap_get m k = Some s \<Longrightarrow> s_id s = k \<Longrightarrow> batchReviewOf s br \<Longrightarrow> I s \<Longrightarrow>
      omap_get (applyAdvancementEvent m ev) k = Some s' \<Longrightarrow> I s'"
begin

lemma event_keeps:
  assumes ok: "guardEvent sha m br ev = Inr ()" and wf: "fold_wf m"
    and link: "\<And>j s. event_sessionId ev = Some j \<Longrightarrow> omap_get m j = Some s \<Longrightarrow> batchReviewOf s br"
    and all: "\<And>j s. omap_get m j = Some s \<Longrightarrow> I s"
    and after: "omap_get (applyAdvancementEvent m ev) j = Some s'"
  shows "I s'"
  using ok after
proof (cases rule: apply_get_cases)
  case (updated s)
  then show ?thesis using keep [OF ok updated(3,2,1) _ link [OF updated(2,1)] all [OF updated(1)] after] wf
    by (auto simp: fold_wf_def)
qed (auto intro: all new)

lemma events_keep:
  assumes "checkEvents sha m br events = Inr m'" "fold_wf m"
    and one: "\<And>ev sid. ev \<in> set events \<Longrightarrow> event_sessionId ev = Some sid \<Longrightarrow> sid = k"
    and "\<And>s. omap_get m k = Some s \<Longrightarrow> batchReviewOf s br" "omap_get m k = None \<Longrightarrow> br = None"
    and "\<And>j s. omap_get m j = Some s \<Longrightarrow> I s"
  shows "omap_get m' j = Some s' \<Longrightarrow> I s'"
  using assms
proof (induction events arbitrary: m br)
  case (Cons ev events)
  let ?m = "applyAdvancementEvent m ev"
  from Cons.prems(2) have ok: "guardEvent sha m br ev = Inr ()"
    and rest: "checkEvents sha ?m (nextBatchReview br ev) events = Inr m'"
    by (auto simp: andThen_eq_Inr)
  have link: "batchReviewOf s1 (nextBatchReview br ev)" if g: "omap_get ?m k = Some s1" for s1
    using ok g
  proof (cases rule: apply_get_cases)
    case same
    moreover have "event_sessionId ev = None \<Longrightarrow> nextBatchReview br ev = br" by (cases ev) auto
    ultimately show ?thesis using Cons.prems(4) [of ev] Cons.prems(5) by (cases "event_sessionId ev") auto
  next
    case (updated s)
    have "s_runs s1 = s_runs s @ reviewOf ev" using apply_runs [OF ok updated(1,2) g] .
    then show ?thesis using Cons.prems(5) [OF updated(1)] by (cases ev) (auto simp: batchReviewOf_def split: option.splits)
  next
    case fresh
    have "\<And>ts review. ev \<noteq> RunReviewed ts k review" using ok fresh by (auto simp: guardReviewed_def guard_simps andThen_eq_Inr)
    then have "nextBatchReview br ev = None"
      using Cons.prems(6) [OF fresh(1)] Cons.prems(4) [of ev] by (cases ev) auto
    then show ?thesis by (simp add: batchReviewOf_def)
  qed
  have none: "nextBatchReview br ev = None" if g: "omap_get ?m k = None"
  proof -
    have g0: "omap_get m k = None" using legal_event_step [OF ok, of k] g by (cases "omap_get m k") auto
    moreover have "\<And>ts review. ev \<noteq> RunReviewed ts k review" using ok g0 by (auto simp: guardReviewed_def guard_simps andThen_eq_Inr)
    ultimately show ?thesis using Cons.prems(6) Cons.prems(4) [of ev] by (cases ev) auto
  qed
  have all: "I s1" if "omap_get ?m i = Some s1" for i s1
    using event_keeps [OF ok Cons.prems(3) _ Cons.prems(7) that] Cons.prems(4) [of ev] Cons.prems(5) by fastforce
  have one': "\<And>ev' sid. ev' \<in> set events \<Longrightarrow> event_sessionId ev' = Some sid \<Longrightarrow> sid = k"
    using Cons.prems(4) by (meson list.set_intros(2))
  show ?case by (rule Cons.IH [OF Cons.prems(1) rest apply_fold_wf [OF Cons.prems(3)] one' link none all])
qed auto

lemma committed_inv:
  assumes "committed sha log m"
  shows "fold_wf m \<and> (\<forall>j s. omap_get m j = Some s \<longrightarrow> I s)"
  using assms
proof (induction rule: committed.induct)
  case (append log m events m')
  note ok = legal_batch_events [OF append.hyps(2)]
  obtain k where one: "\<And>ev sid. ev \<in> set events \<Longrightarrow> event_sessionId ev = Some sid \<Longrightarrow> sid = k"
    using legal_batch_one_session [OF append.hyps(2)] by blast
  have "I s" if "omap_get m' j = Some s" for j s
    using events_keep [OF ok _ one _ _ _ that] append.IH by (auto simp: batchReviewOf_def)
  moreover have "fold_wf m'" using checkEvents_foldl [OF ok] append.IH by (simp add: foldl_fold_wf)
  ultimately show ?case by blast
qed simp

end

text \<open>Completion needs a passing verdict as the last review.\<close>

definition completedPassed :: "AdvancementFoldSession \<Rightarrow> bool" where
  "completedPassed s \<longleftrightarrow> (s_status s = Completed \<longrightarrow> s_runs s \<noteq> [] \<and> rv_decision (last (s_runs s)) = Passed)"

lemmas session_cases_simps = omap_simps status_simps guard_simps andThen_eq_Inr

interpretation completion: session_invariant completedPassed
proof
  fix k s assume "newSession k s"
  then show "completedPassed s" by (auto simp: completedPassed_def elim!: newSessionE)
next
  fix sha m br ev k s s'
  assume "guardEvent sha m br ev = Inr ()" "\<not> creates ev" "event_sessionId ev = Some k"
    "omap_get m k = Some s" "s_id s = k" "batchReviewOf s br" "completedPassed s"
    "omap_get (applyAdvancementEvent m ev) k = Some s'"
  then show "completedPassed s'"
    by (cases ev) (auto simp: completedPassed_def session_cases_simps guardTerminal_def assertTerminalReviewDecision_def
      batchReviewOf_def guardReviewed_def guardRegenerated_def split: if_splits option.splits AdvancementDraftAttemptPhase.splits)
qed

text \<open>No run is reviewed twice: reviews differ in id, run index and run record.\<close>

definition reviewsDistinct :: "AdvancementFoldSession \<Rightarrow> bool" where
  "reviewsDistinct s \<longleftrightarrow> sorted_wrt (\<lambda>a b. \<not> sameReviewIdentity a b) (s_runs s)"

interpretation reviews: session_invariant reviewsDistinct
proof
  fix k s assume "newSession k s"
  then show "reviewsDistinct s" by (auto simp: reviewsDistinct_def elim!: newSessionE)
next
  fix sha m br ev k s s'
  assume a: "guardEvent sha m br ev = Inr ()" "\<not> creates ev" "event_sessionId ev = Some k"
    "omap_get m k = Some s" "s_id s = k" "batchReviewOf s br" "reviewsDistinct s"
    "omap_get (applyAdvancementEvent m ev) k = Some s'"
  have "s_runs s' = s_runs s @ reviewOf ev" by (rule apply_runs [OF a(1,4,3,8)])
  with a show "reviewsDistinct s'"
    by (cases ev) (auto simp: reviewsDistinct_def sorted_wrt_append guardReviewed_def session_cases_simps list_ex_iff
        split: if_splits)
qed

text \<open>
  Work starts from a confirmed rubric whose ids are unique, and every failure handling a
  review selects is one of that rubric.
\<close>

definition rubricGoverns :: "AdvancementFoldSession \<Rightarrow> bool" where
  "rubricGoverns s \<longleftrightarrow>
     (s_confirmedRubric s = None \<longrightarrow> s_status s \<noteq> Active \<and> s_status s \<noteq> Completed \<and> s_runs s = []) \<and>
     (isProposalStageStatus (s_status s) \<or> s_status s = AwaitingRubricConfirmation \<longrightarrow> s_confirmedRubric s = None) \<and>
     (\<forall>c. s_confirmedRubric s = Some c \<longrightarrow>
        distinct (map pc_id (cc_passCriteria (cr_content c))) \<and>
        distinct (map fh_id (cc_failureHandling (cr_content c))) \<and>
        distinct (map er_id (withDefault (cc_evidenceRequirements (cr_content c)) [])) \<and>
        (\<forall>r \<in> set (s_runs s). \<forall>h. rv_selectedFailureHandlingId r = Some h \<longrightarrow>
           h \<in> set (map fh_id (cc_failureHandling (cr_content c)))))"

lemma assertUniqueIds_distinct:
  "assertUniqueIds seen ids = Inr () \<Longrightarrow> distinct ids \<and> set ids \<inter> set seen = {}"
  by (induction seen ids rule: assertUniqueIds.induct) (auto split: if_splits)

lemma uniqueIds_distinct:
  assumes "assertUniqueConfirmedRubricContractContentIds c = Inr ()"
  shows "distinct (map pc_id (cc_passCriteria c)) \<and> distinct (map fh_id (cc_failureHandling c)) \<and>
    distinct (map er_id (withDefault (cc_evidenceRequirements c) []))"
  using assms
  by (auto simp: assertUniqueConfirmedRubricContractContentIds_def andThen_eq_Inr dest!: assertUniqueIds_distinct)

fun rubricOf :: "AdvancementStoreEvent \<Rightarrow> ConfirmedRubricSnapshot option" where
  "rubricOf (RubricConfirmed _ _ c _) = Some c"
| "rubricOf _ = None"

lemma apply_rubric:
  assumes "\<not> creates ev" "omap_get m k = Some s" "event_sessionId ev = Some k" "guardEvent sha m br ev = Inr ()"
    "omap_get (applyAdvancementEvent m ev) k = Some s'"
  shows "s_confirmedRubric s' = orElse (rubricOf ev) (s_confirmedRubric s)"
  using assms
  by (cases ev) (auto simp: omap_simps status_simps guardRegenerated_def andThen_eq_Inr split: if_splits)

lemma rubricGoverns_step:
  assumes "rubricGoverns s" "s_confirmedRubric s' = s_confirmedRubric s" "s_runs s' = s_runs s"
    and "s_status s' = s_status s \<or> status_step (s_status s) (s_status s') \<and> s_status s' \<noteq> Active"
  shows "rubricGoverns s'"
  using assms(4)
proof
  assume "s_status s' = s_status s"
  with assms show ?thesis by (simp add: rubricGoverns_def)
next
  assume "status_step (s_status s) (s_status s') \<and> s_status s' \<noteq> Active"
  then have "status_step (s_status s) (s_status s')" "s_status s' \<noteq> Active" by auto
  from this assms(1-3) show ?thesis
    by (cases rule: status_step.cases) (simp_all add: rubricGoverns_def isProposalStageStatus_def, auto)
qed

lemma becomes_active:
  assumes "omap_get m k = Some s" "event_sessionId ev = Some k" "\<not> creates ev"
    "omap_get (applyAdvancementEvent m ev) k = Some s'" "s_status s' = Active" "s_status s \<noteq> Active"
    "guardEvent sha m br ev = Inr ()"
  shows "\<exists>ts c i. ev = RubricConfirmed ts k c i"
  using assms
  by (cases ev) (auto simp: omap_simps status_simps guardRegenerated_def andThen_eq_Inr
      split: if_splits AdvancementDraftAttemptPhase.splits)

interpretation rubric: session_invariant rubricGoverns
proof
  fix k s assume "newSession k s"
  then show "rubricGoverns s" by (auto simp: rubricGoverns_def open_status_defs elim!: newSessionE)
next
  fix sha m br ev k s s'
  assume a: "guardEvent sha m br ev = Inr ()" "\<not> creates ev" "event_sessionId ev = Some k"
    "omap_get m k = Some s" "s_id s = k" "batchReviewOf s br" "rubricGoverns s"
    "omap_get (applyAdvancementEvent m ev) k = Some s'"
  show "rubricGoverns s'"
  proof (cases "\<exists>ts c i. ev = RubricConfirmed ts k c i")
    case True
    then obtain ts c i where ev: "ev = RubricConfirmed ts k c i" by blast
    with a have "assertUniqueConfirmedRubricContractContentIds (cr_content c) = Inr ()"
      "s_status s = AwaitingRubricConfirmation"
      by (auto simp: guardConfirmed_def session_cases_simps)
    with a(4,7,8) ev show ?thesis
      by (auto simp: rubricGoverns_def omap_simps isProposalStageStatus_def dest: uniqueIds_distinct)
  next
    case no: False
    with a have "rubricOf ev = None" by (cases ev) auto
    then have c: "s_confirmedRubric s' = s_confirmedRubric s" using apply_rubric [OF a(2,4,3,1,8)] by simp
    have r: "s_runs s' = s_runs s @ reviewOf ev" by (rule apply_runs [OF a(1,4,3,8)])
    have st: "s_status s' = s_status s \<or> status_step (s_status s) (s_status s') \<and> s_status s' \<noteq> Active"
      using legal_event_step [OF a(1,4)] becomes_active [OF a(4,3,2,8) _ _ a(1)] no a(8) by auto
    show ?thesis
    proof (cases "reviewOf ev = []")
      case True
      with r show ?thesis using rubricGoverns_step [OF a(7) c _ st] by simp
    next
      case False
      then obtain ts r where "ev = RunReviewed ts k r" using a(3) by (cases ev) auto
      with a(1,4,7,8) show ?thesis
        by (auto simp: rubricGoverns_def session_cases_simps guardReviewed_def isProposalStageStatus_def
          split: if_splits option.splits)
    qed
  qed
qed

end
