(* ===== verification/Advancement_Safety.thy ===== *)
theory Advancement_Safety
  imports Advancement_Lifecycle
begin

text \<open>
  Safety of committed advancement logs: proxy messages are bound to the failed review that
  ordered them, at most one session of a conversation is open, the judge is invoked at most
  once per generation of a review, and closed sessions are frozen. The session properties
  are facts of the interpretations of \<open>session_invariant\<close>.
\<close>

section \<open>Proxy messages\<close>

lemma verdict_norm [simp]: "json_norm (verdict_json v) = verdict_json v"
  by (cases v) auto

lemma attribution_norm_inj:
  assumes "json_norm (attribution_json a) = json_norm (attribution_json b)"
  shows "(a :: ReviewAttribution) = b"
proof -
  have inj: "json_norm (criterion_json x) = json_norm (criterion_json y) \<Longrightarrow> x = y"
    for x y :: ReviewCriterionAttribution
    by (auto simp: criterion_json_def optField_def key_order_def utf16_order_def split: option.splits
        intro!: ReviewCriterionAttribution.equality dest: verdict_json_inj)
  have "map (\<lambda>x. json_norm (criterion_json x)) (at_criteria a) = map (\<lambda>x. json_norm (criterion_json x)) (at_criteria b)"
    using assms by (simp add: attribution_json_def comp_def)
  then have "at_criteria a = at_criteria b"
    by (rule map_injective) (auto intro!: injI inj)
  then show ?thesis by (simp add: ReviewAttribution.equality)
qed

lemma attribution_json_wf: "json_wf (attribution_json a)"
proof -
  have "json_wf (criterion_json x)" for x
    by (cases "ra_verdict x") (auto simp: criterion_json_def optField_def split: option.splits)
  then show ?thesis by (simp add: attribution_json_def list_all_iff)
qed

lemma canonicalDiffers_attribution:
  assumes "canonicalDiffers (attribution_json a) (attribution_json b) = Inr False"
  shows "a = b"
proof -
  from assms obtain t where "canonicalize (attribution_json a) = Inr t" "canonicalize (attribution_json b) = Inr t"
    by (auto simp: canonicalDiffers_def liftCanonical_def andThen_eq_Inr split: sum.splits)
  then show ?thesis
    using canonicalize_inj [OF attribution_json_wf attribution_json_wf] attribution_norm_inj by blast
qed

definition proxyBoundTo :: "AdvancementProxyMessage \<Rightarrow> AdvancementRunReview \<Rightarrow> bool" where
  "proxyBoundTo pm r \<longleftrightarrow> rv_decision r = Failed \<and> rv_proxyMessageId r = Some (pm_id pm) \<and> pm_reviewId pm = rv_id r \<and>
     rv_selectedFailureHandlingId r = Some (pm_rubricFailureHandlingId pm) \<and> pm_attribution pm = rv_attribution r"

definition proxiesBound :: "AdvancementFoldSession \<Rightarrow> bool" where
  "proxiesBound s \<longleftrightarrow>
     (\<forall>pm \<in> set (s_proxyMessages s). pm_sessionId pm = s_id s \<and> (\<exists>r \<in> set (s_runs s). proxyBoundTo pm r)) \<and>
     (\<forall>p. s_outstandingProxyMessageId s = Some p \<longrightarrow> p \<in> pm_id ` set (s_proxyMessages s))"

lemma guardProxyEnqueued_bound:
  assumes "guardProxyEnqueued m br k pm = Inr ()" "omap_get m k = Some s" "batchReviewOf s br"
  shows "pm_sessionId pm = k \<and> (\<exists>r \<in> set (s_runs s). proxyBoundTo pm r)"
proof -
  from assms obtain r where r: "boundReview br s pm = Some r" "br = Some r \<Longrightarrow> rv_decision r = Failed"
    and b: "rv_proxyMessageId r = Some (pm_id pm)" "pm_reviewId pm = rv_id r"
      "rv_selectedFailureHandlingId r = Some (pm_rubricFailureHandlingId pm)"
    and d: "canonicalDiffers (attribution_json (pm_attribution pm)) (attribution_json (rv_attribution r)) = Inr False"
    and k: "pm_sessionId pm = k"
    by (auto simp: guardProxyEnqueued_def guard_simps andThen_eq_Inr boundReview_def
        split: if_splits option.splits)
  have "r \<in> set (s_runs s) \<and> rv_decision r = Failed"
  proof (cases br)
    case None
    with r show ?thesis by (auto simp: boundReview_def dest: find_Some_mem)
  next
    case (Some r')
    with r assms(3) show ?thesis by (auto simp: boundReview_def batchReviewOf_def)
  qed
  with b k canonicalDiffers_attribution [OF d] show ?thesis by (auto simp: proxyBoundTo_def)
qed

interpretation proxies: session_invariant proxiesBound
proof
  fix k s assume "newSession k s"
  then show "proxiesBound s" by (auto simp: proxiesBound_def elim!: newSessionE)
next
  fix sha m br ev k s s'
  assume a: "guardEvent sha m br ev = Inr ()" "\<not> creates ev" "event_sessionId ev = Some k"
    "omap_get m k = Some s" "s_id s = k" "batchReviewOf s br" "proxiesBound s"
    "omap_get (applyAdvancementEvent m ev) k = Some s'"
  then show "proxiesBound s'"
  proof (cases ev)
    case (ProxyEnqueued ts sid pm)
    with a show ?thesis
      using guardProxyEnqueued_bound [of m br k pm s] by (auto simp: proxiesBound_def omap_simps)
  qed (auto simp: proxiesBound_def omap_simps status_simps guardRegenerated_def andThen_eq_Inr split: if_splits)
qed

section \<open>One open session\<close>

definition singleOpen :: "AdvancementFoldMap \<Rightarrow> bool" where
  "singleOpen m \<longleftrightarrow> (\<forall>i j s t. omap_get m i = Some s \<and> isOpenAdvancementSession s \<and>
     omap_get m j = Some t \<and> isOpenAdvancementSession t \<longrightarrow> i = j)"

lemma someOpen_iff: "omap_wf m \<Longrightarrow> someOpen m \<longleftrightarrow> (\<exists>k s. omap_get m k = Some s \<and> isOpenAdvancementSession s)"
  unfolding someOpen_def list_ex_iff using omap_values_get [of m] by blast

lemma fresh_open_alone:
  assumes ok: "guardEvent sha m br ev = Inr ()" and wf: "fold_wf m"
    and i: "omap_get m i = None" "omap_get (applyAdvancementEvent m ev) i = Some s'" "isOpenAdvancementSession s'"
    and j: "omap_get (applyAdvancementEvent m ev) j = Some t'" "isOpenAdvancementSession t'"
  shows "i = j"
proof (rule ccontr)
  assume ne: "i \<noteq> j"
  have ids: "\<And>k s. omap_get m k = Some s \<Longrightarrow> s_id s = k" "omap_wf m" using wf by (auto simp: fold_wf_def)
  show False
  proof (cases ev)
    case (SessionCreated ts sid conv task draft)
    with ok i j ne ids show False
      by (auto simp: guardCreated_def someOpen_iff omap_simps split: if_splits)
  next
    case (ProposalAccepted ts sid conv pid rid turn task)
    with ok i j ne ids show False
      by (auto simp: guardProposalAccepted_def someOpen_iff omap_simps andThen_eq_Inr split: if_splits)
  next
    case (SessionRegenerated ts sid nxt d e)
    with ok obtain p where p: "omap_get m sid = Some p" "omap_get m nxt = None"
      and others: "\<forall>s \<in> set (omap_values m). s_id s = s_id p \<or> \<not> isOpenAdvancementSession s"
      by (auto simp: guardRegenerated_def guard_simps andThen_eq_Inr list_ex_iff)
    from SessionRegenerated p i have "i = nxt" by (auto simp: omap_simps split: if_splits)
    with SessionRegenerated p j ne have "j \<noteq> sid \<and> omap_get m j = Some t'"
      by (auto simp: omap_simps open_status_defs split: if_splits)
    then show False using others omap_get_values [of m j t'] ids(1) [of j t'] ids(1) [OF p(1)] j(2) by auto
  qed (use i in \<open>auto simp: omap_simps open_status_defs split: if_splits\<close>)
qed

lemma singleOpen_event:
  assumes ok: "guardEvent sha m br ev = Inr ()" and wf: "fold_wf m" and one: "singleOpen m"
  shows "singleOpen (applyAdvancementEvent m ev)"
  unfolding singleOpen_def
proof (intro allI impI, elim conjE)
  fix i j s t
  assume i: "omap_get (applyAdvancementEvent m ev) i = Some s" "isOpenAdvancementSession s"
    and j: "omap_get (applyAdvancementEvent m ev) j = Some t" "isOpenAdvancementSession t"
  show "i = j"
  proof (cases "omap_get m i = None \<or> omap_get m j = None")
    case True
    then show ?thesis using fresh_open_alone [OF ok wf _ i j] fresh_open_alone [OF ok wf _ j i] by auto
  next
    case False
    then obtain s0 t0 where "omap_get m i = Some s0" "omap_get m j = Some t0" by auto
    moreover have "isOpenAdvancementSession s0" "isOpenAdvancementSession t0"
      using legal_event_step [OF ok] calculation i j status_step_from_open
      unfolding isOpenAdvancementSession_def by (metis option.inject)+
    ultimately show ?thesis using one by (auto simp: singleOpen_def)
  qed
qed

lemma singleOpen_events:
  "checkEvents sha m br events = Inr m' \<Longrightarrow> fold_wf m \<Longrightarrow> singleOpen m \<Longrightarrow> singleOpen m'"
  by (induction events arbitrary: m br) (auto simp: andThen_eq_Inr singleOpen_event apply_fold_wf)

lemma singleOpen_committed: "committed sha log m \<Longrightarrow> singleOpen m"
proof (induction rule: committed.induct)
  case (append log m events m')
  then show ?case
    using singleOpen_events [OF legal_batch_events] completion.committed_inv by blast
qed (simp add: singleOpen_def)

lemma singleOpen_length:
  assumes "singleOpen m" "omap_wf m"
  shows "length (filter isOpenAdvancementSession (omap_values m)) \<le> 1"
proof (rule ccontr)
  assume "\<not> ?thesis"
  then have "1 < length (filter (isOpenAdvancementSession \<circ> snd) m)" by (simp add: filter_map)
  then obtain p q rest where pq: "filter (isOpenAdvancementSession \<circ> snd) m = p # q # rest"
    by (cases "filter (isOpenAdvancementSession \<circ> snd) m"; cases "tl (filter (isOpenAdvancementSession \<circ> snd) m)") auto
  have "distinct (map fst (filter (isOpenAdvancementSession \<circ> snd) m))"
    using assms(2) by (auto simp: omap_wf_def intro: distinct_filter_key)
  with pq have "fst p \<noteq> fst q" by simp
  have "p \<in> set (filter (isOpenAdvancementSession \<circ> snd) m)" "q \<in> set (filter (isOpenAdvancementSession \<circ> snd) m)"
    unfolding pq by simp_all
  then have "p \<in> set m" "q \<in> set m" "isOpenAdvancementSession (snd p)" "isOpenAdvancementSession (snd q)" by auto
  moreover from this have "omap_get m (fst p) = Some (snd p)" "omap_get m (fst q) = Some (snd q)"
    using assms(2) by (auto simp: omap_wf_def)
  ultimately show False using assms(1) \<open>fst p \<noteq> fst q\<close> unfolding singleOpen_def by blast
qed

section \<open>Review attempts\<close>

text \<open>
  Attempts on one run record are ranked by generation and, within one, by phase; every
  legal transition moves strictly up. So a generation is invoked at most once.
\<close>

fun phaseRank :: "AdvancementReviewAttemptPhase \<Rightarrow> nat" where
  "phaseRank Started = 0"
| "phaseRank Invoking = 1"
| "phaseRank _ = 2"

definition attemptBelow :: "AdvancementReviewAttempt \<Rightarrow> AdvancementReviewAttempt \<Rightarrow> bool" where
  "attemptBelow a b \<longleftrightarrow> rta_generation a < rta_generation b \<or>
     rta_generation a = rta_generation b \<and> phaseRank (rta_phase a) < phaseRank (rta_phase b)"

lemma attempt_transition_up:
  assumes "guardAttempt sha m sid a = Inr ()" "omap_get m sid = Some s"
    "currentAttempt s (rta_runRecordRef a) = Some c"
  shows "attemptBelow c a \<and> rta_runId a = rta_runId c \<and> rta_lineageId a = rta_lineageId c"
proof (cases "rta_phase a")
  case Started
  with assms show ?thesis
    by (auto simp: guardAttempt_def guardAttemptStarted_def attemptBelow_def guard_simps andThen_eq_Inr split: if_splits)
qed (use assms in \<open>auto simp: guardAttempt_def guardAttemptAdvance_def attemptBelow_def guard_simps
      andThen_eq_Inr isTerminalReviewAttempt_def split: if_splits\<close>)

lemma currentAttempt_transition:
  "currentAttempt (transitionReviewAttempt ts a s) ref =
     (if sameRunRecordRef (rta_runRecordRef a) ref then Some a else currentAttempt s ref)"
proof -
  have "List.find (\<lambda>c. sameRunRecordRef (rta_runRecordRef c) ref)
      (filter (\<lambda>b. rr_shardId (rta_runRecordRef b) \<noteq> rr_shardId (rta_runRecordRef a) \<or>
                   rr_runIndex (rta_runRecordRef b) \<noteq> rr_runIndex (rta_runRecordRef a)) xs @ [a]) =
    (if sameRunRecordRef (rta_runRecordRef a) ref then Some a
     else List.find (\<lambda>c. sameRunRecordRef (rta_runRecordRef c) ref) xs)" for xs :: "AdvancementReviewAttempt list"
    by (induction xs) (auto simp: sameRunRecordRef_def)
  then show ?thesis by (simp add: currentAttempt_def transitionReviewAttempt_def)
qed

fun invokes :: "string \<Rightarrow> RunRecordRef \<Rightarrow> int \<Rightarrow> AdvancementStoreEvent \<Rightarrow> bool" where
  "invokes sid ref g (ReviewAttemptTransitioned _ sid' a) \<longleftrightarrow>
     sid' = sid \<and> sameRunRecordRef (rta_runRecordRef a) ref \<and> rta_generation a = g \<and> rta_phase a = Invoking"
| "invokes sid ref g _ \<longleftrightarrow> False"

definition pastInvocation :: "AdvancementFoldMap \<Rightarrow> string \<Rightarrow> RunRecordRef \<Rightarrow> int \<Rightarrow> bool" where
  "pastInvocation m sid ref g \<longleftrightarrow> (\<exists>s c. omap_get m sid = Some s \<and> currentAttempt s ref = Some c \<and>
     (g < rta_generation c \<or> rta_generation c = g \<and> rta_phase c \<noteq> Started))"

lemma session_attempts_updates [status_simps]:
  "s_reviewAttempts (supplementProposal ts extra s) = s_reviewAttempts s"
  "s_reviewAttempts (transitionDraft ts da s) = s_reviewAttempts s"
  "s_reviewAttempts (rejectAdmission ts reason s) = s_reviewAttempts s"
  "s_reviewAttempts (admitOriginal ts runId s) = s_reviewAttempts s"
  "s_reviewAttempts (requestEvidence ts a s) = s_reviewAttempts s"
  "s_reviewAttempts (resultEvidence ts rid out s) = s_reviewAttempts s"
  "s_reviewAttempts (settleEvidence ts rid s) = s_reviewAttempts s"
  "s_reviewAttempts (settleReviewRoot ts lin gen s) = s_reviewAttempts s"
  by (simp_all add: session_update_defs Let_def split: option.splits)

lemma apply_attempts:
  assumes ok: "guardEvent sha m br ev = Inr ()" and s: "omap_get m k = Some s"
  obtains s' where "omap_get (applyAdvancementEvent m ev) k = Some s'" "s_reviewAttempts s' = s_reviewAttempts s"
  | ts a where "ev = ReviewAttemptTransitioned ts k a"
      "omap_get (applyAdvancementEvent m ev) k = Some (transitionReviewAttempt ts a s)"
proof -
  obtain s' where s': "omap_get (applyAdvancementEvent m ev) k = Some s'" using legal_event_step [OF ok s] by blast
  with ok have "s_reviewAttempts s' = s_reviewAttempts s \<or>
      (\<exists>ts a. ev = ReviewAttemptTransitioned ts k a \<and> s' = transitionReviewAttempt ts a s)"
  proof (cases rule: apply_get_cases)
    case (updated s0)
    with s s' ok show ?thesis
      by (cases ev) (auto simp: omap_simps status_simps guardRegenerated_def andThen_eq_Inr split: if_splits)
  qed (use s in auto)
  with that s' show thesis by metis
qed

lemma sameRunRecordRef_trans:
  "sameRunRecordRef a b \<Longrightarrow> sameRunRecordRef c a \<longleftrightarrow> sameRunRecordRef c b"
  by (auto simp: sameRunRecordRef_def)

lemma currentAttempt_cong: "sameRunRecordRef a b \<Longrightarrow> currentAttempt s a = currentAttempt s b"
  by (simp add: currentAttempt_def sameRunRecordRef_def)

lemma phaseRank_Started [simp]: "0 < phaseRank p \<longleftrightarrow> p \<noteq> Started" "phaseRank p = 0 \<longleftrightarrow> p = Started"
  by (cases p; simp)+

lemma past_kept:
  assumes ok: "guardEvent sha m br ev = Inr ()" and past: "pastInvocation m sid ref g"
  shows "pastInvocation (applyAdvancementEvent m ev) sid ref g \<and> \<not> invokes sid ref g ev"
proof -
  from past obtain s c where s: "omap_get m sid = Some s" and c: "currentAttempt s ref = Some c"
    and g: "g < rta_generation c \<or> rta_generation c = g \<and> rta_phase c \<noteq> Started"
    by (auto simp: pastInvocation_def)
  from ok s show ?thesis
  proof (cases rule: apply_attempts)
    case (1 s')
    moreover have "\<not> invokes sid ref g ev"
    proof
      assume inv: "invokes sid ref g ev"
      then obtain ts a where ev: "ev = ReviewAttemptTransitioned ts sid a" "sameRunRecordRef (rta_runRecordRef a) ref"
        "rta_generation a = g" "rta_phase a = Invoking" by (cases ev) auto
      then have "attemptBelow c a"
        using attempt_transition_up [of sha m sid a s c] ok s c currentAttempt_cong [OF ev(2)] by simp
      with g ev show False by (cases "rta_phase c") (auto simp: attemptBelow_def)
    qed
    ultimately show ?thesis using c g by (auto simp: pastInvocation_def currentAttempt_def)
  next
    case (2 ts a)
    show ?thesis
    proof (cases "sameRunRecordRef (rta_runRecordRef a) ref")
      case True
      then have "attemptBelow c a"
        using attempt_transition_up [of sha m sid a s c] ok s c 2 currentAttempt_cong [OF True] by simp
      with g True 2 show ?thesis
        by (cases "rta_phase c"; cases "rta_phase a")
          (auto simp: attemptBelow_def pastInvocation_def currentAttempt_transition)
    next
      case False
      with c g 2 show ?thesis by (auto simp: pastInvocation_def currentAttempt_transition)
    qed
  qed
qed

lemma invokes_past:
  assumes ok: "guardEvent sha m br ev = Inr ()" and inv: "invokes sid ref g ev"
  shows "pastInvocation (applyAdvancementEvent m ev) sid ref g"
proof -
  from inv obtain ts a where ev: "ev = ReviewAttemptTransitioned ts sid a" "sameRunRecordRef (rta_runRecordRef a) ref"
    "rta_generation a = g" "rta_phase a = Invoking" by (cases ev) auto
  moreover from this ok obtain s where "omap_get m sid = Some s"
    by (auto simp: guardAttempt_def guard_simps andThen_eq_Inr)
  ultimately show ?thesis by (auto simp: pastInvocation_def omap_simps currentAttempt_transition)
qed

lemma invocations_events:
  assumes "checkEvents sha m br events = Inr m'"
  shows "(pastInvocation m sid ref g \<longrightarrow> pastInvocation m' sid ref g \<and> filter (invokes sid ref g) events = []) \<and>
    length (filter (invokes sid ref g) events) \<le> 1 \<and>
    (filter (invokes sid ref g) events \<noteq> [] \<longrightarrow> pastInvocation m' sid ref g)"
  using assms
proof (induction events arbitrary: m br)
  case (Cons ev events)
  then have ok: "guardEvent sha m br ev = Inr ()"
    and rest: "checkEvents sha (applyAdvancementEvent m ev) (nextBatchReview br ev) events = Inr m'"
    by (auto simp: andThen_eq_Inr)
  show ?case using Cons.IH [OF rest] past_kept [OF ok] invokes_past [OF ok] by auto
qed simp

lemma invocations_committed:
  assumes "committed sha log m"
  shows "length (filter (invokes sid ref g) log) \<le> 1 \<and>
    (filter (invokes sid ref g) log \<noteq> [] \<longrightarrow> pastInvocation m sid ref g)"
  using assms
proof (induction rule: committed.induct)
  case (append log m events m')
  then show ?case
    using invocations_events [OF legal_batch_events [OF append.hyps(2)], of sid ref g]
    by (cases "filter (invokes sid ref g) log = []") auto
qed simp

section \<open>Closed sessions\<close>

text \<open>What clean-up after closing may not touch.\<close>

definition frozenView where
  "frozenView s = (s_status s, s_runs s, s_proxyMessages s, s_confirmedRubric s, s_outstandingProxyMessageId s,
     s_evidencePending s, s_evidenceGenerations s, s_pendingRubricDraft s, s_proposal s)"

lemma session_frozen_updates:
  "\<not> isOpenStatus (s_status s) \<Longrightarrow> s_status s = Cancelled \<Longrightarrow> frozenView (rejectAdmission ts reason s) = frozenView s"
  "frozenView (admitOriginal ts runId s) = frozenView s"
  "frozenView (settleReviewRoot ts lin gen s) = frozenView s"
  "frozenView (transitionReviewAttempt ts ra s) = frozenView s"
  by (simp_all add: frozenView_def session_update_defs split: option.splits)

lemma frozen_event:
  assumes ok: "guardEvent sha m br ev = Inr ()" and s: "omap_get m k = Some s" and closed: "\<not> isOpenAdvancementSession s"
  shows "\<exists>s'. omap_get (applyAdvancementEvent m ev) k = Some s' \<and> frozenView s' = frozenView s"
proof -
  obtain s' where s': "omap_get (applyAdvancementEvent m ev) k = Some s'" using legal_event_step [OF ok s] by blast
  with ok have "frozenView s' = frozenView s"
  proof (cases rule: apply_get_cases)
    case (updated s0)
    then have "allowedIn ev (s_status s)" using guard_allowed [OF ok updated(3,2)] s by simp
    with updated s s' closed show ?thesis
      by (cases ev) (auto simp: omap_simps open_status_defs session_frozen_updates split: if_splits)
  qed (use s in auto)
  with s' show ?thesis by blast
qed

lemma frozen_events:
  assumes "checkEvents sha m br events = Inr m'" "omap_get m k = Some s" "\<not> isOpenAdvancementSession s"
  shows "\<exists>s'. omap_get m' k = Some s' \<and> frozenView s' = frozenView s"
  using assms
proof (induction events arbitrary: m br s)
  case (Cons ev events)
  then have ok: "guardEvent sha m br ev = Inr ()"
    and rest: "checkEvents sha (applyAdvancementEvent m ev) (nextBatchReview br ev) events = Inr m'"
    by (auto simp: andThen_eq_Inr)
  obtain s1 where s1: "omap_get (applyAdvancementEvent m ev) k = Some s1" "frozenView s1 = frozenView s"
    using frozen_event [OF ok Cons.prems(2,3)] by blast
  then have "\<not> isOpenAdvancementSession s1"
    using Cons.prems(3) by (simp add: frozenView_def isOpenAdvancementSession_def)
  with Cons.IH [OF rest s1(1)] s1(2) show ?case by auto
qed auto

end
