(* ===== verification/Advancement_Store.thy ===== *)
theory Advancement_Store
  imports Advancement_Safety
begin

text \<open>
  The file-backed advancement store (\<^verbatim>\<open>packages/core/src/advancement/store.ts\<close>). The log of
  one conversation is a text file: one line of JSON per event. The model keeps the file as it
  lies on disk, cut into the texts the store puts there: a whole event, a torn text (what a
  crashed write left of an event; also any other text that is not an event) and a line break.
  Appending concatenates and nothing more, so a text written after an unfinished line joins
  that line. The one fact used of \<^verbatim>\<open>JSON.parse\<close> is that a line is an event exactly when it is
  the text of one: an event's text is an object that opens with a brace and a quoted key, so
  after a beginning of an event's text (which leaves its brace open, or a string that the
  quote closes before the key) or after a whole one, it never completes the line.

  Reading replays the lines through the gate and skips what does not pass; appending checks a
  batch against what was read. Operations on a conversation run one after another (the
  per-conversation lock), so each is a function from the file to an error or to the new file
  with the value returned. The clock is an argument. The environment holds what is not
  modelled: SHA-256, the field checks of the event codec (\<^verbatim>\<open>isAdvancementControlEvent\<close>) and
  \<^verbatim>\<open>localeCompare\<close>.
\<close>

section \<open>Reading and appending\<close>

record StoreEnv =
  se_sha :: "string \<Rightarrow> string"
  se_valid :: "AdvancementStoreEvent \<Rightarrow> bool"
  se_loc :: "string \<Rightarrow> string \<Rightarrow> bool"

datatype LogPiece = EventText AdvancementStoreEvent | TornText | LineBreak

type_synonym logFile = "LogPiece list"

text \<open>\<^verbatim>\<open>raw.split("\n")\<close>: the texts between the line breaks, the last one after the last break.\<close>

fun splitLines :: "logFile \<Rightarrow> logFile list" where
  "splitLines [] = [[]]"
| "splitLines (LineBreak # raw) = [] # splitLines raw"
| "splitLines (p # raw) = (p # hd (splitLines raw)) # tl (splitLines raw)"

text \<open>The event a line is the JSON of; an empty line is skipped like one that does not parse.\<close>

fun parseLine :: "logFile \<Rightarrow> AdvancementStoreEvent option" where
  "parseLine [EventText ev] = Some ev"
| "parseLine _ = None"

text \<open>The text of a batch: the events joined by line breaks, and a line break.\<close>

fun joinLines :: "LogPiece list \<Rightarrow> logFile" where
  "joinLines [] = []"
| "joinLines [t] = [t]"
| "joinLines (t # ts) = t # LineBreak # joinLines ts"

definition batchText :: "AdvancementStoreEvent list \<Rightarrow> logFile" where
  "batchText events = joinLines (map EventText events) @ [LineBreak]"

datatype StoreError =
    StoreSessionNotFound | StoreNotActive | StoreSessionExists | StoreOpenExists | StoreNotAwaiting
  | StoreOtherTurn | StoreProxyNeedsFailed | StoreProxyIdMismatch | StoreProxyOutstanding
  | StoreProxyOtherSession | StoreProxyNotOutstanding | StoreAlreadyClosed
  | SubmissionConflict | WrapsReceipt | RevisionTargetMissing | SupplementTargetMissing | NotASubmission
  | InvalidEvent | GuardFailure AdvancementGuardError | TerminalMismatch AdvancementGuardError

type_synonym 'a stored = "(StoreError, 'a) result"

definition liftGuard :: "'a guarded \<Rightarrow> 'a stored" where
  "liftGuard r = (case r of Inl e \<Rightarrow> Inl (GuardFailure e) | Inr x \<Rightarrow> Inr x)"

fun replayFrom :: "StoreEnv \<Rightarrow> AdvancementFoldMap \<Rightarrow> AdvancementStoreEvent option list \<Rightarrow> AdvancementStoreEvent list" where
  "replayFrom env m [] = []"
| "replayFrom env m (None # lines) = replayFrom env m lines"
| "replayFrom env m (Some ev # lines) =
     (if \<not> se_valid env ev then replayFrom env m lines
      else case assertAdvancementEventBatchLegal (se_sha env) m [ev] of
        Inl _ \<Rightarrow> replayFrom env m lines
      | Inr _ \<Rightarrow> ev # replayFrom env (applyAdvancementEvent m ev) lines)"

definition readEventsInLock :: "StoreEnv \<Rightarrow> logFile \<Rightarrow> AdvancementStoreEvent list" where
  "readEventsInLock env raw = replayFrom env [] (map parseLine (splitLines raw))"

definition loadConversationSessionsInLock :: "StoreEnv \<Rightarrow> logFile \<Rightarrow> AdvancementFoldSession list" where
  "loadConversationSessionsInLock env raw = foldAdvancementEvents (se_loc env) (readEventsInLock env raw)"

definition findSession :: "AdvancementFoldSession list \<Rightarrow> string \<Rightarrow> AdvancementFoldSession option" where
  "findSession sessions sid = List.find (\<lambda>s. s_id s = sid) sessions"

definition storeRequireSession :: "AdvancementFoldSession list \<Rightarrow> string \<Rightarrow> AdvancementFoldSession stored" where
  "storeRequireSession sessions sid = (case findSession sessions sid of None \<Rightarrow> Inl StoreSessionNotFound | Some s \<Rightarrow> Inr s)"

definition assertActiveSession :: "AdvancementFoldSession list \<Rightarrow> string \<Rightarrow> AdvancementFoldSession stored" where
  "assertActiveSession sessions sid = andThen (storeRequireSession sessions sid) (\<lambda>s.
     if s_status s \<noteq> Active then Inl StoreNotActive else Inr s)"

fun findSubmission ::
  "AdvancementStoreEvent list \<Rightarrow> string \<Rightarrow> string \<Rightarrow> AdvancementSubmissionReceipt option" where
  "findSubmission [] prn subm = None"
| "findSubmission (SubmissionSettled _ _ r # events) prn subm =
     (if si_surfacePrincipal (sr_identity r) = prn \<and> si_submissionId (sr_identity r) = subm
      then Some r else findSubmission events prn subm)"
| "findSubmission (_ # events) prn subm = findSubmission events prn subm"

definition findSubmissionOf ::
  "AdvancementStoreEvent list \<Rightarrow> AdvancementSubmissionIdentity \<Rightarrow> AdvancementSubmissionReceipt option" where
  "findSubmissionOf events i = findSubmission events (si_surfacePrincipal i) (si_submissionId i)"

fun outcome_json :: "AdvancementSubmissionOutcome \<Rightarrow> json" where
  "outcome_json (RejectedOutcome code) = JObj [(''kind'', JStr ''rejected''), (''code'', JStr code)]"
| "outcome_json (DraftSaved d sid did ver turn) =
     JObj [(''kind'', JStr ''draft-saved''),
           (''disposition'', JStr (if d = OriginalSaved then ''original-saved'' else ''revision-saved'')),
           (''sessionId'', JStr sid), (''draftId'', JStr did), (''draftVersion'', JInt ver), (''originalTurnId'', JStr turn)]"
| "outcome_json (NotSaved sid did turn) =
     JObj [(''kind'', JStr ''not-saved''), (''sessionId'', JStr sid), (''draftId'', JStr did), (''originalTurnId'', JStr turn)]"
| "outcome_json (OriginalTaskIntent mode sid turn) =
     JObj [(''kind'', JStr ''original-task-intent''), (''mode'', JStr (mode_text mode)), (''sessionId'', JStr sid),
           (''originalTurnId'', JStr turn)]"
| "outcome_json (CancelledOutcome sid) = JObj [(''kind'', JStr ''cancelled''), (''sessionId'', JStr sid)]"
| "outcome_json (ProposalKept sid turn) =
     JObj [(''kind'', JStr ''proposal-kept''), (''sessionId'', JStr sid), (''originalTurnId'', JStr turn)]"
| "outcome_json (ProposalSupplementedOutcome sid turn revision) =
     JObj [(''kind'', JStr ''proposal-supplemented''), (''sessionId'', JStr sid), (''originalTurnId'', JStr turn),
           (''revision'', JInt revision)]"
| "outcome_json (ContractFailed code) = JObj [(''kind'', JStr ''contract-failed''), (''code'', JStr code)]"

definition receipt_json :: "AdvancementSubmissionReceipt \<Rightarrow> json" where
  "receipt_json r = JObj
     [(''identity'', JObj [(''surfacePrincipal'', JStr (si_surfacePrincipal (sr_identity r))),
        (''submissionId'', JStr (si_submissionId (sr_identity r))), (''requestDigest'', JStr (si_requestDigest (sr_identity r)))]),
      (''outcome'', outcome_json (sr_outcome r))]"

text \<open>An identity settled before: the same receipt is a repeat, another one a conflict.\<close>

definition checkSettled :: "AdvancementSubmissionReceipt \<Rightarrow> AdvancementSubmissionReceipt \<Rightarrow> 'a \<Rightarrow> 'a stored" where
  "checkSettled existing r x =
     andThen (liftGuard (canonicalDiffers (receipt_json existing) (receipt_json r))) (\<lambda>differs.
       if differs then Inl SubmissionConflict else Inr x)"

definition writeEvents :: "StoreEnv \<Rightarrow> logFile \<Rightarrow> AdvancementStoreEvent list \<Rightarrow> logFile stored" where
  "writeEvents env raw events =
     (if list_ex (\<lambda>ev. \<not> se_valid env ev) events then Inl InvalidEvent
      else andThen (liftGuard (assertAdvancementEventBatchLegal (se_sha env)
             (foldAdvancementEventMap (readEventsInLock env raw)) events)) (\<lambda>_.
        Inr (raw @ batchText events)))"

definition appendEventsInLock :: "StoreEnv \<Rightarrow> logFile \<Rightarrow> AdvancementStoreEvent list \<Rightarrow> logFile stored" where
  "appendEventsInLock env raw events =
     (if events = [] then Inr raw
      else case last events of
        SubmissionSettled _ _ r \<Rightarrow>
          (case findSubmissionOf (readEventsInLock env raw) (sr_identity r) of
             Some existing \<Rightarrow> checkSettled existing r raw
           | None \<Rightarrow> writeEvents env raw events)
      | _ \<Rightarrow> writeEvents env raw events)"

fun event_timestamp :: "AdvancementStoreEvent \<Rightarrow> string" where
  "event_timestamp (SubmissionSettled _ ts _) = ts"
| "event_timestamp (SessionRegenerated ts _ _ _ _) = ts"
| "event_timestamp (SessionCreated ts _ _ _ _) = ts"
| "event_timestamp (ProposalAccepted ts _ _ _ _ _ _) = ts"
| "event_timestamp (ProposalRejected ts _ _ _ _ _ _ _) = ts"
| "event_timestamp (ProposalSupplemented ts _ _) = ts"
| "event_timestamp (DraftAttemptTransitioned ts _ _) = ts"
| "event_timestamp (ProposalDrafted ts _ _ _) = ts"
| "event_timestamp (RubricDraftRevised ts _ _) = ts"
| "event_timestamp (RubricConfirmed ts _ _ _) = ts"
| "event_timestamp (OriginalTaskDirected ts _ _ _) = ts"
| "event_timestamp (OriginalTaskAdmissionRejected ts _ _ _ _) = ts"
| "event_timestamp (OriginalTaskAdmitted ts _ _ _ _) = ts"
| "event_timestamp (RunReviewed ts _ _) = ts"
| "event_timestamp (WindowUpdated ts _ _) = ts"
| "event_timestamp (ProxyEnqueued ts _ _) = ts"
| "event_timestamp (ProxySettled ts _ _) = ts"
| "event_timestamp (ReviewAttemptTransitioned ts _ _) = ts"
| "event_timestamp (ReviewRootSettled ts _ _ _) = ts"
| "event_timestamp (EvidenceRequested ts _ _) = ts"
| "event_timestamp (EvidenceResult ts _ _ _) = ts"
| "event_timestamp (EvidenceSettled ts _ _ _) = ts"
| "event_timestamp (CompletedEvent ts _ _) = ts"
| "event_timestamp (ExitedEvent ts _ _) = ts"
| "event_timestamp (CancelledEvent ts _ _) = ts"

fun advancementSubmissionOutcome ::
  "AdvancementStoreEvent \<Rightarrow> AdvancementFoldSession option \<Rightarrow> AdvancementSubmissionOutcome stored" where
  "advancementSubmissionOutcome (SessionCreated _ sid _ _ d) prev =
     Inr (DraftSaved OriginalSaved sid (rd_draftId d) 0 (rd_originalTurnId d))"
| "advancementSubmissionOutcome (SessionRegenerated _ _ nxt d _) prev =
     Inr (DraftSaved RevisionSaved nxt (rd_draftId d) 0 (rd_originalTurnId d))"
| "advancementSubmissionOutcome (RubricDraftRevised _ sid d) prev =
     (case prev of None \<Rightarrow> Inl RevisionTargetMissing
      | Some p \<Rightarrow> Inr (DraftSaved RevisionSaved sid (rd_draftId d) (s_rubricDraftVersion p + 1) (rd_originalTurnId d)))"
| "advancementSubmissionOutcome (RubricConfirmed _ sid _ intent) prev =
     Inr (OriginalTaskIntent AdvancementMode sid (ai_turnId intent))"
| "advancementSubmissionOutcome (OriginalTaskDirected _ sid _ intent) prev =
     Inr (OriginalTaskIntent DirectMode sid (ai_turnId intent))"
| "advancementSubmissionOutcome (CancelledEvent _ sid _) prev = Inr (CancelledOutcome sid)"
| "advancementSubmissionOutcome (ProposalSupplemented _ sid _) prev =
     (case Option.bind prev s_proposal of None \<Rightarrow> Inl SupplementTargetMissing
      | Some p \<Rightarrow> Inr (ProposalSupplementedOutcome sid (pr_originalTurnId p) (int (length (pr_supplements p)) + 1)))"
| "advancementSubmissionOutcome _ prev = Inl NotASubmission"

definition appendEventInLock ::
  "StoreEnv \<Rightarrow> string \<Rightarrow> logFile \<Rightarrow> AdvancementStoreEvent \<Rightarrow> AdvancementSubmissionIdentity option \<Rightarrow> logFile stored" where
  "appendEventInLock env conv raw ev submission =
     (case submission of
        None \<Rightarrow> appendEventsInLock env raw [ev]
      | Some sb \<Rightarrow>
          if isReceipt ev then Inl WrapsReceipt
          else andThen (advancementSubmissionOutcome ev
              (Option.bind (event_sessionId ev) (findSession (loadConversationSessionsInLock env raw)))) (\<lambda>out.
            appendEventsInLock env raw
              [ev, SubmissionSettled conv (event_timestamp ev) \<lparr>sr_identity = sb, sr_outcome = out\<rparr>]))"

text \<open>After a write, the session is loaded again from the file.\<close>

definition thenLoad ::
  "StoreEnv \<Rightarrow> string \<Rightarrow> logFile stored \<Rightarrow> (logFile \<times> AdvancementFoldSession) stored" where
  "thenLoad env sid written = andThen written (\<lambda>raw'.
     andThen (storeRequireSession (loadConversationSessionsInLock env raw') sid) (\<lambda>s. Inr (raw', s)))"

type_synonym sessionResult = "(logFile \<times> AdvancementFoldSession) stored"

section \<open>Operations\<close>

definition readSubmission :: "StoreEnv \<Rightarrow> logFile \<Rightarrow> string \<Rightarrow> string \<Rightarrow> AdvancementSubmissionReceipt option" where
  "readSubmission env raw prn subm = findSubmission (readEventsInLock env raw) prn subm"

definition settleSubmission ::
  "StoreEnv \<Rightarrow> string \<Rightarrow> logFile \<Rightarrow> string \<Rightarrow> AdvancementSubmissionIdentity \<Rightarrow> AdvancementSubmissionOutcome \<Rightarrow> logFile stored" where
  "settleSubmission env conv raw now i out =
     (let r = \<lparr>sr_identity = i, sr_outcome = out\<rparr> in
      case findSubmissionOf (readEventsInLock env raw) i of
        Some existing \<Rightarrow> checkSettled existing r raw
      | None \<Rightarrow> appendEventInLock env conv raw (SubmissionSettled conv now r) None)"

definition regenerateSession ::
  "StoreEnv \<Rightarrow> string \<Rightarrow> logFile \<Rightarrow> string \<Rightarrow> string \<Rightarrow> RubricContractDraftSnapshot \<Rightarrow> AdvancementExit \<Rightarrow>
     AdvancementSubmissionIdentity option \<Rightarrow> (logFile \<times> AdvancementFoldSession \<times> AdvancementFoldSession) stored" where
  "regenerateSession env conv raw prev nxt draft ext sb =
     andThen (appendEventInLock env conv raw (SessionRegenerated (rd_createdAt draft) prev nxt draft ext) sb) (\<lambda>raw'.
       let sessions = loadConversationSessionsInLock env raw' in
       andThen (storeRequireSession sessions prev) (\<lambda>exited.
         andThen (storeRequireSession sessions nxt) (\<lambda>created. Inr (raw', exited, created))))"

text \<open>The exit message of a proposal that came second, as the UTF-8 bytes of the source's literal.\<close>

definition proposalRejectedMessage :: string where
  "proposalRejectedMessage = map (char_of :: nat \<Rightarrow> char)
     [230, 143, 144, 232, 174, 174, 230, 156, 170, 232, 162, 171, 230, 142, 165, 229, 143, 151, 239, 188,
      154, 228, 188, 154, 232, 175, 157, 233, 135, 140, 229, 183, 178, 230, 156, 137, 230, 156, 170, 231,
      187, 147, 230, 157, 159, 231, 154, 132, 230, 142, 168, 232, 191, 155, 227, 128, 130]"

definition acceptProposal ::
  "StoreEnv \<Rightarrow> string \<Rightarrow> logFile \<Rightarrow> string \<Rightarrow> string \<Rightarrow> string \<Rightarrow> string \<Rightarrow> UserTurnInput \<Rightarrow> sessionResult" where
  "acceptProposal env conv raw now pid rid turn task =
     (let sid = advancementProposalSessionId pid;
          sessions = loadConversationSessionsInLock env raw
      in case findSession sessions sid of
           Some existing \<Rightarrow> Inr (raw, existing)
         | None \<Rightarrow> thenLoad env sid (appendEventsInLock env raw
             [if list_ex isOpenAdvancementSession sessions
              then ProposalRejected now sid conv pid rid turn task
                     \<lparr>ex_reason = Superseded, ex_message = proposalRejectedMessage, ex_occurredAt = now\<rparr>
              else ProposalAccepted now sid conv pid rid turn task]))"

definition storeSupplementProposal ::
  "StoreEnv \<Rightarrow> string \<Rightarrow> logFile \<Rightarrow> string \<Rightarrow> string \<Rightarrow> UserTurnInput \<Rightarrow> AdvancementSubmissionIdentity option \<Rightarrow> sessionResult" where
  "storeSupplementProposal env conv raw now sid extra sb =
     thenLoad env sid (appendEventInLock env conv raw (ProposalSupplemented now sid extra) sb)"

definition appendDomainEvent :: "StoreEnv \<Rightarrow> string \<Rightarrow> logFile \<Rightarrow> string \<Rightarrow> AdvancementStoreEvent \<Rightarrow> sessionResult" where
  "appendDomainEvent env conv raw sid ev =
     andThen (storeRequireSession (loadConversationSessionsInLock env raw) sid) (\<lambda>_.
       thenLoad env sid (appendEventInLock env conv raw ev None))"

definition transitionDraftAttempt ::
  "StoreEnv \<Rightarrow> string \<Rightarrow> logFile \<Rightarrow> string \<Rightarrow> string \<Rightarrow> AdvancementDraftAttempt \<Rightarrow> sessionResult" where
  "transitionDraftAttempt env conv raw now sid a =
     appendDomainEvent env conv raw sid (DraftAttemptTransitioned now sid a)"

definition persistProposalDraft ::
  "StoreEnv \<Rightarrow> logFile \<Rightarrow> string \<Rightarrow> string \<Rightarrow> AdvancementDraftAttempt \<Rightarrow> int \<Rightarrow> RubricContractDraftSnapshot \<Rightarrow> sessionResult" where
  "persistProposalDraft env raw now sid a revision draft =
     thenLoad env sid (appendEventsInLock env raw
       [DraftAttemptTransitioned now sid a, ProposalDrafted now sid revision draft])"

definition directOriginalTask ::
  "StoreEnv \<Rightarrow> string \<Rightarrow> logFile \<Rightarrow> string \<Rightarrow> AdvancementOriginalTaskAdmissionIntent \<Rightarrow> AdvancementExit \<Rightarrow> string \<Rightarrow>
     AdvancementSubmissionIdentity option \<Rightarrow> sessionResult" where
  "directOriginalTask env conv raw sid intent ext ts sb =
     thenLoad env sid (appendEventInLock env conv raw (OriginalTaskDirected ts sid ext intent) sb)"

definition rejectOriginalTaskAdmission ::
  "StoreEnv \<Rightarrow> string \<Rightarrow> logFile \<Rightarrow> string \<Rightarrow> string \<Rightarrow> Digest \<Rightarrow> AdmissionRejection \<Rightarrow> string \<Rightarrow> sessionResult" where
  "rejectOriginalTaskAdmission env conv raw sid turn dig reason ts =
     thenLoad env sid (appendEventInLock env conv raw (OriginalTaskAdmissionRejected ts sid turn dig reason) None)"

definition pendingOriginalTask :: "AdvancementFoldSession \<Rightarrow> bool" where
  "pendingOriginalTask s \<longleftrightarrow> (case s_originalTaskAdmission s of None \<Rightarrow> False
     | Some adm \<Rightarrow> oa_status adm = AdmissionPending \<and>
         (s_status s = Active \<or> s_status s = Cancelled \<and> oa_mode adm = Some DirectMode))"

definition listPendingOriginalTasks ::
  "StoreEnv \<Rightarrow> logFile \<Rightarrow> string option \<Rightarrow> string list \<times> string option" where
  "listPendingOriginalTasks env raw after =
     (let ids = sort (filter (\<lambda>i. case after of None \<Rightarrow> True | Some a \<Rightarrow> a < i)
            (map s_id (filter pendingOriginalTask (loadConversationSessionsInLock env raw))));
          page = take 50 ids
      in (page, if length page < length ids then Some (last page) else None))"

definition createSession ::
  "StoreEnv \<Rightarrow> string \<Rightarrow> logFile \<Rightarrow> string \<Rightarrow> string \<Rightarrow> UserTurnInput \<Rightarrow> RubricContractDraftSnapshot \<Rightarrow>
     AdvancementSubmissionIdentity option \<Rightarrow> sessionResult" where
  "createSession env conv raw ts sid task draft sb =
     (let sessions = loadConversationSessionsInLock env raw in
      if list_ex (\<lambda>s. s_id s = sid) sessions then Inl StoreSessionExists
      else if list_ex isOpenAdvancementSession sessions then Inl StoreOpenExists
      else thenLoad env sid (appendEventInLock env conv raw (SessionCreated ts sid conv task draft) sb))"

definition confirmRubric ::
  "StoreEnv \<Rightarrow> string \<Rightarrow> logFile \<Rightarrow> string \<Rightarrow> ConfirmedRubricSnapshot \<Rightarrow> AdvancementOriginalTaskAdmissionIntent \<Rightarrow> string \<Rightarrow>
     AdvancementSubmissionIdentity option \<Rightarrow> sessionResult" where
  "confirmRubric env conv raw sid rubric intent ts sb =
     andThen (storeRequireSession (loadConversationSessionsInLock env raw) sid) (\<lambda>s.
       if s_status s \<noteq> AwaitingRubricConfirmation then Inl StoreNotAwaiting
       else thenLoad env sid (appendEventInLock env conv raw (RubricConfirmed ts sid rubric intent) sb))"

definition alreadyAdmitted :: "AdvancementFoldSession \<Rightarrow> string \<Rightarrow> Digest \<Rightarrow> string \<Rightarrow> bool" where
  "alreadyAdmitted s turn dig runId \<longleftrightarrow> (case s_originalTaskAdmission s of None \<Rightarrow> False
     | Some adm \<Rightarrow> oa_status adm = Admitted runId \<and> ai_turnId (oa_intent adm) = turn \<and> ai_inputDigest (oa_intent adm) = dig)"

definition settleOriginalTaskAdmission ::
  "StoreEnv \<Rightarrow> string \<Rightarrow> logFile \<Rightarrow> string \<Rightarrow> string \<Rightarrow> Digest \<Rightarrow> string \<Rightarrow> string \<Rightarrow> sessionResult" where
  "settleOriginalTaskAdmission env conv raw sid turn dig runId ts =
     andThen (storeRequireSession (loadConversationSessionsInLock env raw) sid) (\<lambda>s.
       if alreadyAdmitted s turn dig runId then Inr (raw, s)
       else thenLoad env sid (appendEventInLock env conv raw (OriginalTaskAdmitted ts sid turn dig runId) None))"

definition reviseRubricDraft ::
  "StoreEnv \<Rightarrow> string \<Rightarrow> logFile \<Rightarrow> string \<Rightarrow> RubricContractDraftSnapshot \<Rightarrow> string \<Rightarrow>
     AdvancementSubmissionIdentity option \<Rightarrow> sessionResult" where
  "reviseRubricDraft env conv raw sid draft ts sb =
     andThen (storeRequireSession (loadConversationSessionsInLock env raw) sid) (\<lambda>s.
       if s_status s \<noteq> AwaitingRubricConfirmation then Inl StoreNotAwaiting
       else if (case s_pendingRubricDraft s of None \<Rightarrow> False | Some d \<Rightarrow> rd_originalTurnId draft \<noteq> rd_originalTurnId d)
       then Inl StoreOtherTurn
       else thenLoad env sid (appendEventInLock env conv raw (RubricDraftRevised ts sid draft) sb))"

definition evidenceSettlementEvent :: "string \<Rightarrow> string option \<Rightarrow> string \<Rightarrow> AdvancementStoreEvent list" where
  "evidenceSettlementEvent sid rid ts = (if truthy rid then [EvidenceSettled ts sid (the rid) SettlementConsumed] else [])"

definition reviewAttemptEvent :: "string \<Rightarrow> AdvancementReviewAttempt option \<Rightarrow> string \<Rightarrow> AdvancementStoreEvent list" where
  "reviewAttemptEvent sid a ts = (case a of None \<Rightarrow> [] | Some x \<Rightarrow> [ReviewAttemptTransitioned ts sid x])"

text \<open>The events every recorded review writes, whatever follows it.\<close>

definition reviewBatch ::
  "string \<Rightarrow> AdvancementRunReview \<Rightarrow> string \<Rightarrow> AdvancementWindowState option \<Rightarrow> string option \<Rightarrow>
     AdvancementReviewAttempt option \<Rightarrow> AdvancementStoreEvent list" where
  "reviewBatch sid review ts win rid a =
     runReviewedEvents sid review ts win @ evidenceSettlementEvent sid rid ts @ reviewAttemptEvent sid a ts"

definition appendRunReview ::
  "StoreEnv \<Rightarrow> logFile \<Rightarrow> string \<Rightarrow> AdvancementRunReview \<Rightarrow> string \<Rightarrow> AdvancementWindowState option \<Rightarrow> string option \<Rightarrow>
     AdvancementReviewAttempt option \<Rightarrow> sessionResult" where
  "appendRunReview env raw sid review ts win rid a =
     andThen (assertActiveSession (loadConversationSessionsInLock env raw) sid) (\<lambda>_.
       thenLoad env sid (appendEventsInLock env raw (reviewBatch sid review ts win rid a)))"

definition appendTerminalRunReview ::
  "StoreEnv \<Rightarrow> logFile \<Rightarrow> string \<Rightarrow> AdvancementRunReview \<Rightarrow> bool \<Rightarrow> AdvancementExit \<Rightarrow> string option \<Rightarrow> string \<Rightarrow>
     AdvancementWindowState option \<Rightarrow> string option \<Rightarrow> AdvancementReviewAttempt option \<Rightarrow> sessionResult" where
  "appendTerminalRunReview env raw sid review completes ext terminalTs ts win rid a =
     andThen (assertActiveSession (loadConversationSessionsInLock env raw) sid) (\<lambda>_.
       case assertTerminalReviewDecision review (if completes then Completed else Exited) of
         Inl e \<Rightarrow> Inl (TerminalMismatch e)
       | Inr _ \<Rightarrow>
           thenLoad env sid (appendEventsInLock env raw (reviewBatch sid review ts win rid a @
             [let t = withDefault terminalTs (ex_occurredAt ext) in
              if completes then CompletedEvent t sid ext else ExitedEvent t sid ext])))"

definition appendRunReviewWithProxyMessage ::
  "StoreEnv \<Rightarrow> logFile \<Rightarrow> string \<Rightarrow> AdvancementRunReview \<Rightarrow> AdvancementProxyMessage \<Rightarrow> string \<Rightarrow>
     AdvancementWindowState option \<Rightarrow> string option \<Rightarrow> AdvancementReviewAttempt option \<Rightarrow> sessionResult" where
  "appendRunReviewWithProxyMessage env raw sid review pm ts win rid a =
     andThen (assertActiveSession (loadConversationSessionsInLock env raw) sid) (\<lambda>s.
       if rv_decision review \<noteq> Failed then Inl StoreProxyNeedsFailed
       else if rv_proxyMessageId review \<noteq> Some (pm_id pm) then Inl StoreProxyIdMismatch
       else if truthy (s_outstandingProxyMessageId s) then Inl StoreProxyOutstanding
       else if pm_sessionId pm \<noteq> sid then Inl StoreProxyOtherSession
       else thenLoad env sid (appendEventsInLock env raw
              (reviewBatch sid review ts win rid a @ [ProxyEnqueued (pm_createdAt pm) sid pm])))"

definition appendEvidenceRequest ::
  "StoreEnv \<Rightarrow> string \<Rightarrow> logFile \<Rightarrow> string \<Rightarrow> AdvancementEvidenceAttempt \<Rightarrow> string \<Rightarrow> sessionResult" where
  "appendEvidenceRequest env conv raw sid a ts = appendDomainEvent env conv raw sid (EvidenceRequested ts sid a)"

definition appendEvidenceResult ::
  "StoreEnv \<Rightarrow> string \<Rightarrow> logFile \<Rightarrow> string \<Rightarrow> string \<Rightarrow> AdvancementEvidenceOutcome \<Rightarrow> string \<Rightarrow> sessionResult" where
  "appendEvidenceResult env conv raw sid rid out ts = appendDomainEvent env conv raw sid (EvidenceResult ts sid rid out)"

definition storeSettleEvidence ::
  "StoreEnv \<Rightarrow> string \<Rightarrow> logFile \<Rightarrow> string \<Rightarrow> string \<Rightarrow> AdvancementEvidenceSettlement \<Rightarrow> string \<Rightarrow> sessionResult" where
  "storeSettleEvidence env conv raw sid rid settlement ts =
     appendDomainEvent env conv raw sid (EvidenceSettled ts sid rid settlement)"

definition storeSettleReviewRoot ::
  "StoreEnv \<Rightarrow> string \<Rightarrow> logFile \<Rightarrow> string \<Rightarrow> string \<Rightarrow> string \<Rightarrow> int \<Rightarrow> logFile stored" where
  "storeSettleReviewRoot env conv raw now sid lin gen =
     (case findSession (loadConversationSessionsInLock env raw) sid of
        None \<Rightarrow> Inr raw
      | Some s \<Rightarrow>
          if (lin, gen) \<in> set (s_reviewRootSettlements s) then Inr raw
          else case List.find (\<lambda>a. rta_lineageId a = lin) (s_reviewAttempts s) of
            None \<Rightarrow> Inr raw
          | Some a \<Rightarrow>
              if rta_generation a = gen \<and> \<not> isTerminalReviewAttempt (rta_phase a) then Inr raw
              else andThen (appendDomainEvent env conv raw sid (ReviewRootSettled now sid lin gen)) (\<lambda>(raw', _). Inr raw'))"

definition storeTransitionReviewAttempt ::
  "StoreEnv \<Rightarrow> string \<Rightarrow> logFile \<Rightarrow> string \<Rightarrow> AdvancementReviewAttempt \<Rightarrow> string \<Rightarrow> sessionResult" where
  "storeTransitionReviewAttempt env conv raw sid a ts =
     appendDomainEvent env conv raw sid (ReviewAttemptTransitioned ts sid a)"

definition enqueueProxyMessage ::
  "StoreEnv \<Rightarrow> string \<Rightarrow> logFile \<Rightarrow> string \<Rightarrow> AdvancementProxyMessage \<Rightarrow> string \<Rightarrow> sessionResult" where
  "enqueueProxyMessage env conv raw sid pm ts =
     andThen (assertActiveSession (loadConversationSessionsInLock env raw) sid) (\<lambda>s.
       if truthy (s_outstandingProxyMessageId s) then Inl StoreProxyOutstanding
       else if pm_sessionId pm \<noteq> sid then Inl StoreProxyOtherSession
       else thenLoad env sid (appendEventInLock env conv raw (ProxyEnqueued ts sid pm) None))"

definition settleProxyMessage :: "StoreEnv \<Rightarrow> string \<Rightarrow> logFile \<Rightarrow> string \<Rightarrow> string \<Rightarrow> string \<Rightarrow> sessionResult" where
  "settleProxyMessage env conv raw sid pmid ts =
     andThen (storeRequireSession (loadConversationSessionsInLock env raw) sid) (\<lambda>s.
       if list_ex (\<lambda>m. pm_id m = pmid) (s_proxyMessages s) \<and> s_outstandingProxyMessageId s \<noteq> Some pmid then Inr (raw, s)
       else if s_status s \<noteq> Active then Inl StoreNotActive
       else if s_outstandingProxyMessageId s \<noteq> Some pmid then Inl StoreProxyNotOutstanding
       else thenLoad env sid (appendEventInLock env conv raw (ProxySettled ts sid pmid) None))"

definition finishSession :: "StoreEnv \<Rightarrow> string \<Rightarrow> logFile \<Rightarrow> string \<Rightarrow> AdvancementStoreEvent \<Rightarrow> sessionResult" where
  "finishSession env conv raw sid ev =
     andThen (assertActiveSession (loadConversationSessionsInLock env raw) sid) (\<lambda>_.
       thenLoad env sid (appendEventInLock env conv raw ev None))"

definition completeSession :: "StoreEnv \<Rightarrow> string \<Rightarrow> logFile \<Rightarrow> string \<Rightarrow> AdvancementExit \<Rightarrow> string \<Rightarrow> sessionResult" where
  "completeSession env conv raw sid ext ts = finishSession env conv raw sid (CompletedEvent ts sid ext)"

definition exitSession :: "StoreEnv \<Rightarrow> string \<Rightarrow> logFile \<Rightarrow> string \<Rightarrow> AdvancementExit \<Rightarrow> string \<Rightarrow> sessionResult" where
  "exitSession env conv raw sid ext ts = finishSession env conv raw sid (ExitedEvent ts sid ext)"

definition cancelSession ::
  "StoreEnv \<Rightarrow> string \<Rightarrow> logFile \<Rightarrow> string \<Rightarrow> AdvancementExit option \<Rightarrow> string \<Rightarrow>
     AdvancementSubmissionIdentity option \<Rightarrow> sessionResult" where
  "cancelSession env conv raw sid ext ts sb =
     andThen (storeRequireSession (loadConversationSessionsInLock env raw) sid) (\<lambda>s.
       if \<not> isOpenAdvancementSession s then Inl StoreAlreadyClosed
       else thenLoad env sid (appendEventInLock env conv raw (CancelledEvent ts sid ext) sb))"

definition loadSession :: "StoreEnv \<Rightarrow> logFile \<Rightarrow> string \<Rightarrow> AdvancementFoldSession option" where
  "loadSession env raw sid = findSession (loadConversationSessionsInLock env raw) sid"

definition loadActiveSession :: "StoreEnv \<Rightarrow> logFile \<Rightarrow> AdvancementFoldSession option" where
  "loadActiveSession env raw = List.find isOpenAdvancementSession (loadConversationSessionsInLock env raw)"

end
