(* ===== verification/Advancement_Replay.thy ===== *)
theory Advancement_Replay
  imports Advancement_Store
begin

text \<open>
  Reading back what the store wrote. Whatever the file holds, the events read from it form a
  committed log, so the safety results of \<^verbatim>\<open>Advancement_Safety\<close> hold of every loaded
  session. A batch is checked as a whole when written and event by event when read: unless a
  review reuses the proxy id of an earlier failed one, nothing of it is lost.
\<close>

section \<open>What is read is a committed log\<close>

lemma single_legal:
  "assertAdvancementEventBatchLegal sha m [ev] =
     andThen (guardEvent sha m None ev) (\<lambda>_. Inr (applyAdvancementEvent m ev))"
proof -
  have "batchShape [ev] = Inr ()"
    by (cases ev) (auto simp: batchShape_def Let_def List.map_filter_def isReceipt.simps)
  then show ?thesis by (simp add: assertAdvancementEventBatchLegal_def)
qed

lemma replay_committed:
  "committed (se_sha env) log m \<Longrightarrow>
   committed (se_sha env) (log @ replayFrom env m lines) (foldl applyAdvancementEvent m (replayFrom env m lines))"
proof (induction env m lines arbitrary: log rule: replayFrom.induct)
  case (3 env m ev lines)
  show ?case
  proof (cases "se_valid env ev \<and> guardEvent (se_sha env) m None ev = Inr ()")
    case True
    then have legal: "assertAdvancementEventBatchLegal (se_sha env) m [ev] = Inr (applyAdvancementEvent m ev)"
      by (simp add: single_legal)
    with 3 True show ?thesis
      using committed.append [OF "3.prems" legal] by fastforce
  next
    case False
    with 3 show ?thesis by (cases "guardEvent (se_sha env) m None ev") (auto simp: single_legal)
  qed
qed auto

lemma read_committed:
  "committed (se_sha env) (readEventsInLock env raw) (foldAdvancementEventMap (readEventsInLock env raw))"
  using replay_committed [OF committed.empty, of env "map parseLine (splitLines raw)"]
  by (simp add: readEventsInLock_def foldAdvancementEventMap_def)

lemma loaded_session:
  "s \<in> set (loadConversationSessionsInLock env raw) \<longleftrightarrow>
   (\<exists>k. omap_get (foldAdvancementEventMap (readEventsInLock env raw)) k = Some s)"
proof -
  have "omap_wf (foldAdvancementEventMap (readEventsInLock env raw))"
    using completion.committed_inv [OF read_committed [of env raw]] by (simp add: fold_wf_def)
  then show ?thesis
    by (simp add: loadConversationSessionsInLock_def foldAdvancementEvents_def freezeAdvancementSessions_def om.vals_get
        del: set_map)
qed

lemma replayFrom_append:
  "replayFrom env m (xs @ ys) =
   replayFrom env m xs @ replayFrom env (foldl applyAdvancementEvent m (replayFrom env m xs)) ys"
  by (induction env m xs rule: replayFrom.induct) (auto split: sum.splits)

section \<open>A written batch is read back\<close>

definition proxiesOf :: "AdvancementStoreEvent list \<Rightarrow> AdvancementProxyMessage list" where
  "proxiesOf events = List.map_filter (\<lambda>ev. case ev of ProxyEnqueued _ _ pm \<Rightarrow> Some pm | _ \<Rightarrow> None) events"

definition reusesProxyId :: "AdvancementRunReview list \<Rightarrow> AdvancementProxyMessage \<Rightarrow> bool" where
  "reusesProxyId runs pm \<longleftrightarrow> (\<exists>r \<in> set runs. rv_decision r = Failed \<and> rv_proxyMessageId r = Some (pm_id pm))"

text \<open>A batch that records a review and enqueues its proxy message uses a new proxy id.\<close>

definition proxyIdsFresh :: "AdvancementFoldMap \<Rightarrow> AdvancementStoreEvent list \<Rightarrow> bool" where
  "proxyIdsFresh m events \<longleftrightarrow> concat (map reviewOf events) \<noteq> [] \<longrightarrow>
     (\<forall>pm \<in> set (proxiesOf events). \<forall>s \<in> set (omap_values m). \<not> reusesProxyId (s_runs s) pm)"

lemma find_last:
  "\<not> (\<exists>x \<in> set xs. P x) \<Longrightarrow> P y \<Longrightarrow> List.find P (xs @ [y]) = Some y"
  by (induction xs) auto

lemma guard_without_batch:
  assumes ok: "guardEvent sha m br ev = Inr ()" and k: "event_sessionId ev = Some k"
    and link: "\<And>r. br = Some r \<Longrightarrow> \<exists>s rs. omap_get m k = Some s \<and> s_runs s = rs @ [r] \<and>
      (\<forall>ts pm. ev = ProxyEnqueued ts k pm \<longrightarrow> \<not> reusesProxyId rs pm)"
  shows "guardEvent sha m None ev = Inr ()"
proof (cases br)
  case (Some r)
  then obtain s rs where s: "omap_get m k = Some s" "s_runs s = rs @ [r]"
    and f: "\<And>ts pm. ev = ProxyEnqueued ts k pm \<Longrightarrow> \<not> reusesProxyId rs pm" using link by blast
  show ?thesis
  proof (cases ev)
    case (ProxyEnqueued ts sid pm)
    with ok Some k s have r: "rv_decision r = Failed" "rv_proxyMessageId r = Some (pm_id pm)"
      by (auto simp: guardProxyEnqueued_def boundReview_def guard_simps andThen_eq_Inr split: if_splits)
    moreover have "\<not> reusesProxyId rs pm" using f ProxyEnqueued k by auto
    ultimately have "boundReview None s pm = Some r" using s find_last [of rs _ r]
      by (auto simp: boundReview_def reusesProxyId_def)
    with ok Some ProxyEnqueued k s r show ?thesis
      by (auto simp: guardProxyEnqueued_def boundReview_def guard_simps andThen_eq_Inr split: if_splits)
  qed (use ok Some k s in \<open>auto simp: guardReviewed_def guardTerminal_def assertTerminalReviewDecision_def
      guard_simps andThen_eq_Inr split: if_splits\<close>)
qed (use ok in simp)

lemma proxiesOf_Cons:
  "proxiesOf (ev # evs) = (case ev of ProxyEnqueued _ _ pm \<Rightarrow> pm # proxiesOf evs | _ \<Rightarrow> proxiesOf evs)"
  by (cases ev) (auto simp: proxiesOf_def List.map_filter_def)

lemma legal_event_runs:
  assumes ok: "guardEvent sha m br ev = Inr ()" and s: "omap_get m k = Some s"
    and k: "\<And>sid. event_sessionId ev = Some sid \<Longrightarrow> sid = k"
  shows "\<exists>s'. omap_get (applyAdvancementEvent m ev) k = Some s' \<and> s_runs s' = s_runs s @ reviewOf ev"
proof -
  obtain s' where s': "omap_get (applyAdvancementEvent m ev) k = Some s'" using legal_event_step [OF ok s] by blast
  show ?thesis
  proof (cases "event_sessionId ev = Some k")
    case True
    then show ?thesis using apply_runs [OF ok s True s'] s' by blast
  next
    case False
    then have "reviewOf ev = []" using k by (cases ev) auto
    moreover from ok s' have "s' = s" using s False by (cases rule: apply_get_cases) auto
    ultimately show ?thesis using s' by auto
  qed
qed

lemma legal_event_new:
  assumes "guardEvent sha m br ev = Inr ()" "omap_get m k = None" "omap_get (applyAdvancementEvent m ev) k = Some s'"
  shows "s_runs s' = []"
  using assms(1,3) by (cases rule: apply_get_cases) (use assms(2) in \<open>auto elim!: newSessionE\<close>)

text \<open>
  The state of a batch in progress: before its review, none of the proxy messages to come
  reuses an id; after it, the review is the last one and none of the earlier ones clashes.
\<close>

definition freshAhead ::
  "AdvancementFoldMap \<Rightarrow> string \<Rightarrow> AdvancementRunReview option \<Rightarrow> AdvancementStoreEvent list \<Rightarrow> bool" where
  "freshAhead m k br events = (case br of
     None \<Rightarrow> concat (map reviewOf events) \<noteq> [] \<longrightarrow>
       (\<forall>pm \<in> set (proxiesOf events). \<forall>s. omap_get m k = Some s \<longrightarrow> \<not> reusesProxyId (s_runs s) pm)
   | Some r \<Rightarrow> \<exists>s rs. omap_get m k = Some s \<and> s_runs s = rs @ [r] \<and>
       (\<forall>pm \<in> set (proxiesOf events). \<not> reusesProxyId rs pm))"

lemma freshAhead_step:
  assumes ok: "guardEvent sha m br ev = Inr ()" and fr: "freshAhead m k br (ev # events)"
    and k: "\<And>sid. event_sessionId ev = Some sid \<Longrightarrow> sid = k"
  shows "freshAhead (applyAdvancementEvent m ev) k (nextBatchReview br ev) events"
proof (cases "reviewOf ev = []")
  case True
  then have br: "nextBatchReview br ev = br" by (cases ev) auto
  have sub: "set (proxiesOf events) \<subseteq> set (proxiesOf (ev # events))" by (cases ev) (auto simp: proxiesOf_Cons)
  show ?thesis
  proof (cases "omap_get m k")
    case None
    with fr br show ?thesis using legal_event_new [OF ok None]
      by (auto simp: freshAhead_def reusesProxyId_def split: option.splits)
  next
    case (Some s)
    with fr br True sub show ?thesis using legal_event_runs [OF ok Some k]
      by (fastforce simp: freshAhead_def split: option.splits)
  qed
next
  case False
  then obtain ts sid r where ev: "ev = RunReviewed ts sid r" by (cases ev) auto
  then have "sid = k" using k by simp
  with ev ok obtain s where s: "br = None" "omap_get m k = Some s"
    by (auto simp: guardReviewed_def guard_simps andThen_eq_Inr split: if_splits)
  with fr ev have "\<forall>pm \<in> set (proxiesOf events). \<not> reusesProxyId (s_runs s) pm"
    by (auto simp: freshAhead_def proxiesOf_Cons)
  with s ev legal_event_runs [OF ok s(2) k] show ?thesis by (auto simp: freshAhead_def)
qed

lemma replay_batch:
  assumes "checkEvents (se_sha env) m br events = Inr m'" "list_all (se_valid env) events"
    and "\<And>ev sid. ev \<in> set events \<Longrightarrow> event_sessionId ev = Some sid \<Longrightarrow> sid = k"
    and "freshAhead m k br events"
  shows "replayFrom env m (map Some events) = events"
  using assms
proof (induction events arbitrary: m br)
  case (Cons ev events)
  let ?m = "applyAdvancementEvent m ev"
  from Cons.prems(1) have ok: "guardEvent (se_sha env) m br ev = Inr ()"
    and rest: "checkEvents (se_sha env) ?m (nextBatchReview br ev) events = Inr m'"
    by (auto simp: andThen_eq_Inr)
  have k: "\<And>sid. event_sessionId ev = Some sid \<Longrightarrow> sid = k" using Cons.prems(3) [of ev] by auto
  have single: "guardEvent (se_sha env) m None ev = Inr ()"
  proof (cases "event_sessionId ev")
    case None
    with ok show ?thesis by (cases ev) auto
  next
    case (Some sid)
    with k Cons.prems(4) show ?thesis
      by (intro guard_without_batch [OF ok Some]) (auto simp: freshAhead_def proxiesOf_Cons)
  qed
  have one: "\<And>ev' sid. ev' \<in> set events \<Longrightarrow> event_sessionId ev' = Some sid \<Longrightarrow> sid = k"
    using Cons.prems(3) by (meson list.set_intros(2))
  have "replayFrom env ?m (map Some events) = events"
    using Cons.prems(2) by (intro Cons.IH [OF rest _ one freshAhead_step [OF ok Cons.prems(4) k]]) auto
  with single Cons.prems(2) show ?case by (simp add: single_legal)
qed simp

abbreviation storeFold :: "StoreEnv \<Rightarrow> logFile \<Rightarrow> AdvancementFoldMap" where
  "storeFold env raw \<equiv> foldAdvancementEventMap (readEventsInLock env raw)"

lemma checkEvents_take:
  "checkEvents sha m br events = Inr m' \<Longrightarrow> \<exists>m''. checkEvents sha m br (take n events) = Inr m''"
proof (induction events arbitrary: m br n)
  case (Cons ev events)
  then show ?case by (cases n) (auto simp: andThen_eq_Inr)
qed simp

lemma set_proxiesOf: "pm \<in> set (proxiesOf events) \<longleftrightarrow> (\<exists>ts k. ProxyEnqueued ts k pm \<in> set events)"
  by (induction events) (auto simp: proxiesOf_Cons proxiesOf_def List.map_filter_def split: AdvancementStoreEvent.splits)

text \<open>A file ends its last line when it is empty or a line break comes last.\<close>

definition endsLine :: "logFile \<Rightarrow> bool" where
  "endsLine raw \<longleftrightarrow> raw = [] \<or> last raw = LineBreak"

text \<open>The events whose texts fill a line of their own.\<close>

definition fileEvents :: "logFile \<Rightarrow> AdvancementStoreEvent list" where
  "fileEvents raw = List.map_filter parseLine (splitLines raw)"

lemma replayFrom_somes: "replayFrom env m ls = replayFrom env m (map Some (List.map_filter (\<lambda>l. l) ls))"
  by (induction env m ls rule: replayFrom.induct) (auto simp: List.map_filter_def split: sum.splits)

lemma read_fileEvents: "readEventsInLock env raw = replayFrom env [] (map Some (fileEvents raw))"
  unfolding readEventsInLock_def
  by (subst replayFrom_somes) (simp add: fileEvents_def List.map_filter_def filter_map comp_def)

lemma splitLines_nonempty [simp]: "splitLines raw \<noteq> []"
  by (cases raw rule: splitLines.cases) auto

lemma splitLines_break: "splitLines (xs @ LineBreak # ys) = splitLines xs @ splitLines ys"
  by (induction xs rule: splitLines.induct) (auto simp: hd_append)

lemma splitLines_line: "LineBreak \<notin> set ys \<Longrightarrow> splitLines ys = [ys]"
  by (induction ys rule: splitLines.induct) auto

lemma fileEvents_break: "fileEvents (xs @ LineBreak # ys) = fileEvents xs @ fileEvents ys"
  by (simp add: fileEvents_def splitLines_break map_filter_append)

lemma fileEvents_simps [simp]:
  "fileEvents [] = []"
  "fileEvents (LineBreak # raw) = fileEvents raw"
  "fileEvents (EventText ev # LineBreak # raw) = ev # fileEvents raw"
  by (simp_all add: fileEvents_def List.map_filter_def)

lemma fileEvents_append: "endsLine xs \<Longrightarrow> fileEvents (xs @ ys) = fileEvents xs @ fileEvents ys"
proof (cases xs rule: rev_cases)
  case (snoc zs p)
  assume "endsLine xs"
  with snoc show ?thesis by (simp add: endsLine_def fileEvents_break)
qed simp

lemma batchText_Cons:
  "batchText (ev # events) = EventText ev # LineBreak # (if events = [] then [] else batchText events)"
  by (cases events) (simp_all add: batchText_def)

lemma batchText_ends [simp]: "endsLine (raw @ batchText events)"
  by (simp add: endsLine_def batchText_def)

lemma fileEvents_batch [simp]: "fileEvents (batchText events) = events"
  by (induction events) (simp_all add: batchText_Cons, simp add: batchText_def)

lemma readEvents_append:
  "endsLine raw \<Longrightarrow> readEventsInLock env (raw @ added) =
     readEventsInLock env raw @ replayFrom env (storeFold env raw) (map Some (fileEvents added))"
  by (simp add: read_fileEvents fileEvents_append replayFrom_append foldAdvancementEventMap_def)

lemma writeEvents_ok:
  "writeEvents env raw events = Inr raw' \<longleftrightarrow>
     list_all (se_valid env) events \<and> raw' = raw @ batchText events \<and>
     (\<exists>m'. assertAdvancementEventBatchLegal (se_sha env) (storeFold env raw) events = Inr m')"
  by (auto simp: writeEvents_def liftGuard_def andThen_eq_Inr list_ex_iff list_all_iff split: sum.splits)

lemma proxyIdsFresh_ahead:
  assumes fr: "proxyIdsFresh m events" and sub: "set events' \<subseteq> set events"
  shows "freshAhead m k None events'"
  unfolding freshAhead_def option.case
proof (intro impI ballI allI)
  fix pm s assume "concat (map reviewOf events') \<noteq> []" "pm \<in> set (proxiesOf events')" and s: "omap_get m k = Some s"
  with sub have "concat (map reviewOf events) \<noteq> []" "pm \<in> set (proxiesOf events)"
    unfolding set_proxiesOf by (auto simp: subset_iff)
  with fr omap_get_values [OF s] show "\<not> reusesProxyId (s_runs s) pm" unfolding proxyIdsFresh_def by blast
qed

text \<open>
  What is on disk of a batch whose write was cut: its first \<open>n\<close> texts, and of an event's text
  that comes next perhaps a torn beginning.
\<close>

definition writtenPart :: "nat \<Rightarrow> bool \<Rightarrow> logFile \<Rightarrow> logFile" where
  "writtenPart n torn t = take n t @ (if torn \<and> n < length t \<and> t ! n \<noteq> LineBreak then [TornText] else [])"

lemma writtenPart_Cons2 [simp]:
  "writtenPart (Suc (Suc n)) torn (x # y # t) = x # y # writtenPart n torn t"
  by (simp add: writtenPart_def)

lemma fileEvents_written: "fileEvents (writtenPart n torn (batchText events)) = take ((n + 1) div 2) events"
proof (induction events arbitrary: n)
  case Nil
  show ?case by (cases n) (simp_all add: writtenPart_def batchText_def)
next
  case (Cons ev events)
  consider "n = 0" | "n = 1" | k where "n = Suc (Suc k)" by (metis One_nat_def not0_implies_Suc)
  then show ?case
  proof cases
    case 3
    have "fileEvents (writtenPart k torn []) = []" by (simp add: writtenPart_def)
    with 3 Cons.IH [of k] show ?thesis by (simp add: batchText_Cons)
  qed (simp_all add: batchText_Cons writtenPart_def, simp_all add: fileEvents_def List.map_filter_def)
qed

lemma write_replays:
  assumes "writeEvents env raw events = Inr raw'" "proxyIdsFresh (storeFold env raw) events"
  shows "replayFrom env (storeFold env raw) (map Some (take n events)) = take n events"
proof -
  let ?m = "storeFold env raw"
  from assms(1) obtain m' where v: "list_all (se_valid env) events"
    and legal: "assertAdvancementEventBatchLegal (se_sha env) ?m events = Inr m'"
    by (auto simp: writeEvents_ok)
  obtain k where one: "\<And>ev sid. ev \<in> set events \<Longrightarrow> event_sessionId ev = Some sid \<Longrightarrow> sid = k"
    using legal_batch_one_session [OF legal] by blast
  obtain m'' where "checkEvents (se_sha env) ?m None (take n events) = Inr m''"
    using checkEvents_take [OF legal_batch_events [OF legal]] by blast
  moreover have "freshAhead ?m k None (take n events)"
    by (rule proxyIdsFresh_ahead [OF assms(2) set_take_subset])
  moreover have "list_all (se_valid env) (take n events)" using v by (auto simp: list_all_iff dest: in_set_takeD)
  ultimately show ?thesis
    using one by (intro replay_batch [where k = k]) (auto dest: in_set_takeD)
qed

lemma appendEvents_cases:
  assumes "appendEventsInLock env raw events = Inr raw'"
  obtains (none) "raw' = raw" "events = []"
  | (repeated) conv ts r existing where "raw' = raw" "last events = SubmissionSettled conv ts r"
      "findSubmissionOf (readEventsInLock env raw) (sr_identity r) = Some existing"
      "canonicalDiffers (receipt_json existing) (receipt_json r) = Inr False"
  | (written) "writeEvents env raw events = Inr raw'" "events \<noteq> []"
      "\<And>conv ts r. last events = SubmissionSettled conv ts r \<Longrightarrow>
         findSubmissionOf (readEventsInLock env raw) (sr_identity r) = None"
proof (cases "events = []")
  case True
  with assms none show thesis by (simp add: appendEventsInLock_def)
next
  case False
  show thesis
  proof (cases "\<exists>conv ts r. last events = SubmissionSettled conv ts r")
    case True
    then obtain conv ts r where l: "last events = SubmissionSettled conv ts r" by blast
    show thesis
    proof (cases "findSubmissionOf (readEventsInLock env raw) (sr_identity r)")
      case None
      with assms l \<open>events \<noteq> []\<close> show thesis by (intro written) (auto simp: appendEventsInLock_def)
    next
      case (Some existing)
      with assms l \<open>events \<noteq> []\<close> have "checkSettled existing r raw = Inr raw'" by (simp add: appendEventsInLock_def)
      then have "canonicalDiffers (receipt_json existing) (receipt_json r) = Inr False" "raw' = raw"
        by (auto simp: checkSettled_def liftGuard_def andThen_eq_Inr split: if_splits sum.splits)
      with l Some show thesis by (intro repeated) auto
    qed
  next
    case False
    with assms \<open>events \<noteq> []\<close> have "writeEvents env raw events = Inr raw'"
      by (cases "last events") (auto simp: appendEventsInLock_def)
    with False \<open>events \<noteq> []\<close> show thesis by (intro written) auto
  qed
qed

lemma append_single:
  assumes "\<not> isReceipt ev"
  shows "appendEventsInLock env raw [ev] = Inr raw' \<longleftrightarrow>
    se_valid env ev \<and> guardEvent (se_sha env) (storeFold env raw) None ev = Inr () \<and> raw' = raw @ batchText [ev]"
proof -
  have "appendEventsInLock env raw [ev] = writeEvents env raw [ev]"
    using assms by (cases ev) (auto simp: appendEventsInLock_def)
  then show ?thesis by (auto simp: writeEvents_ok single_legal andThen_eq_Inr)
qed

lemma read_single:
  assumes "endsLine raw" "se_valid env ev" "guardEvent (se_sha env) (storeFold env raw) None ev = Inr ()"
  shows "storeFold env (raw @ batchText [ev]) = applyAdvancementEvent (storeFold env raw) ev"
  using assms by (simp add: readEvents_append single_legal foldAdvancementEventMap_def)

lemma findSession_loaded:
  "findSession (loadConversationSessionsInLock env raw) sid = omap_get (storeFold env raw) sid"
proof -
  have ids: "\<And>k s. omap_get (storeFold env raw) k = Some s \<Longrightarrow> s_id s = k"
    using completion.committed_inv [OF read_committed [of env raw]] by (auto simp: fold_wf_def)
  show ?thesis
  proof (cases "findSession (loadConversationSessionsInLock env raw) sid")
    case None
    then have "\<forall>s \<in> set (loadConversationSessionsInLock env raw). s_id s \<noteq> sid"
      by (simp add: findSession_def find_None_iff_all)
    then have "omap_get (storeFold env raw) sid \<noteq> Some s" for s using ids loaded_session by blast
    then have "omap_get (storeFold env raw) sid = None" by (metis option.exhaust)
    then show ?thesis using None by simp
  next
    case (Some s)
    then have "s \<in> set (loadConversationSessionsInLock env raw)" "s_id s = sid"
      unfolding findSession_def using find_Some_mem by fastforce+
    then show ?thesis using ids Some unfolding loaded_session by fastforce
  qed
qed

lemma storeRequireSession_ok:
  "storeRequireSession (loadConversationSessionsInLock env raw) sid = Inr s \<longleftrightarrow> omap_get (storeFold env raw) sid = Some s"
  by (auto simp: storeRequireSession_def findSession_loaded split: option.splits)

lemma thenLoad_ok:
  "thenLoad env sid written = Inr (raw', s) \<longleftrightarrow>
     written = Inr raw' \<and> omap_get (storeFold env raw') sid = Some s"
  by (auto simp: thenLoad_def andThen_eq_Inr storeRequireSession_ok)

lemma loaded_open:
  "list_ex isOpenAdvancementSession (loadConversationSessionsInLock env raw) \<longleftrightarrow> someOpen (storeFold env raw)"
proof -
  have "omap_wf (storeFold env raw)"
    using completion.committed_inv [OF read_committed [of env raw]] by (simp add: fold_wf_def)
  then show ?thesis unfolding list_ex_iff someOpen_iff [OF \<open>omap_wf _\<close>] Bex_def loaded_session by blast
qed

lemmas store_simps =
  andThen_eq_Inr storeRequireSession_ok thenLoad_ok findSession_loaded loaded_open append_single read_single

end
