(* ===== verification/Advancement_Correctness.thy ===== *)
theory Advancement_Correctness
  imports Advancement_Replay
begin

text \<open>
  The operations of the store as a step relation on files, submission receipts, and the
  correctness properties of the advancement component with a concrete log as their witness.
\<close>

section \<open>Steps of the store\<close>

inductive storeStep :: "StoreEnv \<Rightarrow> string \<Rightarrow> logFile \<Rightarrow> logFile \<Rightarrow> bool" for env conv where
  settle_submission: "settleSubmission env conv l now i out = Inr l' \<Longrightarrow> storeStep env conv l l'"
| regenerate: "regenerateSession env conv l prev nxt draft ext sb = Inr (l', s, t) \<Longrightarrow> storeStep env conv l l'"
| accept_proposal: "acceptProposal env conv l now pid rid turn task = Inr (l', s) \<Longrightarrow> storeStep env conv l l'"
| supplement: "storeSupplementProposal env conv l now sid extra sb = Inr (l', s) \<Longrightarrow> storeStep env conv l l'"
| draft_attempt: "transitionDraftAttempt env conv l now sid da = Inr (l', s) \<Longrightarrow> storeStep env conv l l'"
| persist_draft: "persistProposalDraft env l now sid da revision draft = Inr (l', s) \<Longrightarrow> storeStep env conv l l'"
| direct: "directOriginalTask env conv l sid intent ext ts sb = Inr (l', s) \<Longrightarrow> storeStep env conv l l'"
| reject_admission: "rejectOriginalTaskAdmission env conv l sid turn dig reason ts = Inr (l', s) \<Longrightarrow> storeStep env conv l l'"
| create: "createSession env conv l ts sid task draft sb = Inr (l', s) \<Longrightarrow> storeStep env conv l l'"
| confirm: "confirmRubric env conv l sid rubric intent ts sb = Inr (l', s) \<Longrightarrow> storeStep env conv l l'"
| settle_admission: "settleOriginalTaskAdmission env conv l sid turn dig runId ts = Inr (l', s) \<Longrightarrow> storeStep env conv l l'"
| revise: "reviseRubricDraft env conv l sid draft ts sb = Inr (l', s) \<Longrightarrow> storeStep env conv l l'"
| review: "appendRunReview env l sid review ts win rid ra = Inr (l', s) \<Longrightarrow> storeStep env conv l l'"
| terminal_review:
    "appendTerminalRunReview env l sid review completes ext tts ts win rid ra = Inr (l', s) \<Longrightarrow> storeStep env conv l l'"
| proxy_review: "appendRunReviewWithProxyMessage env l sid review pm ts win rid ra = Inr (l', s) \<Longrightarrow> storeStep env conv l l'"
| request_evidence: "appendEvidenceRequest env conv l sid ea ts = Inr (l', s) \<Longrightarrow> storeStep env conv l l'"
| evidence_result: "appendEvidenceResult env conv l sid rid eo ts = Inr (l', s) \<Longrightarrow> storeStep env conv l l'"
| settle_evidence: "storeSettleEvidence env conv l sid rid st ts = Inr (l', s) \<Longrightarrow> storeStep env conv l l'"
| settle_root: "storeSettleReviewRoot env conv l now sid lin gen = Inr l' \<Longrightarrow> storeStep env conv l l'"
| review_attempt: "storeTransitionReviewAttempt env conv l sid ra ts = Inr (l', s) \<Longrightarrow> storeStep env conv l l'"
| enqueue_proxy: "enqueueProxyMessage env conv l sid pm ts = Inr (l', s) \<Longrightarrow> storeStep env conv l l'"
| settle_proxy: "settleProxyMessage env conv l sid pmid ts = Inr (l', s) \<Longrightarrow> storeStep env conv l l'"
| complete: "completeSession env conv l sid ext ts = Inr (l', s) \<Longrightarrow> storeStep env conv l l'"
| exit: "exitSession env conv l sid ext ts = Inr (l', s) \<Longrightarrow> storeStep env conv l l'"
| cancel: "cancelSession env conv l sid ext' ts sb = Inr (l', s) \<Longrightarrow> storeStep env conv l l'"

definition appends :: "StoreEnv \<Rightarrow> logFile \<Rightarrow> logFile \<Rightarrow> bool" where
  "appends env l l' \<longleftrightarrow> (\<exists>events. appendEventsInLock env l events = Inr l')"

lemma appends_refl [simp]: "appends env l l"
  unfolding appends_def by (rule exI [of _ "[]"]) (simp add: appendEventsInLock_def)

lemma appends_event: "appendEventInLock env conv l ev sb = Inr l' \<Longrightarrow> appends env l l'"
  by (auto simp: appendEventInLock_def appends_def andThen_eq_Inr split: option.splits if_splits)

lemma appends_events: "appendEventsInLock env l events = Inr l' \<Longrightarrow> appends env l l'"
  by (auto simp: appends_def)

lemma appends_checkSettled: "checkSettled existing r l = Inr l' \<Longrightarrow> appends env l l'"
  by (auto simp: checkSettled_def andThen_eq_Inr split: if_splits)

lemmas store_op_defs =
  settleSubmission_def regenerateSession_def acceptProposal_def storeSupplementProposal_def appendDomainEvent_def
  transitionDraftAttempt_def persistProposalDraft_def directOriginalTask_def rejectOriginalTaskAdmission_def
  createSession_def confirmRubric_def settleOriginalTaskAdmission_def reviseRubricDraft_def appendRunReview_def
  appendTerminalRunReview_def appendRunReviewWithProxyMessage_def appendEvidenceRequest_def appendEvidenceResult_def
  storeSettleEvidence_def storeSettleReviewRoot_def storeTransitionReviewAttempt_def enqueueProxyMessage_def
  settleProxyMessage_def finishSession_def completeSession_def exitSession_def cancelSession_def

lemma storeStep_appends: "storeStep env conv l l' \<Longrightarrow> appends env l l'"
  by (induction rule: storeStep.induct)
    (auto simp: store_op_defs thenLoad_ok andThen_eq_Inr Let_def
      dest: appends_event appends_events appends_checkSettled split: if_splits option.splits sum.splits prod.splits)

section \<open>Receipts\<close>

fun receiptKeys :: "AdvancementStoreEvent list \<Rightarrow> (string \<times> string) list" where
  "receiptKeys [] = []"
| "receiptKeys (SubmissionSettled _ _ r # events) =
     (si_surfacePrincipal (sr_identity r), si_submissionId (sr_identity r)) # receiptKeys events"
| "receiptKeys (_ # events) = receiptKeys events"

lemma receiptKeys_append [simp]: "receiptKeys (xs @ ys) = receiptKeys xs @ receiptKeys ys"
  by (induction xs rule: receiptKeys.induct) auto

lemma findSubmission_None: "findSubmission events p s = None \<longleftrightarrow> (p, s) \<notin> set (receiptKeys events)"
  by (induction events p s rule: findSubmission.induct) auto

lemma length_receiptKeys: "length (receiptKeys events) = length (filter isReceipt events)"
  by (induction events rule: receiptKeys.induct) auto

lemma replay_subset:
  "set (receiptKeys (replayFrom env m (map Some events))) \<subseteq> set (receiptKeys events) \<and>
   length (receiptKeys (replayFrom env m (map Some events))) \<le> length (receiptKeys events)"
proof (induction events arbitrary: m)
  case (Cons ev events)
  show ?case using Cons.IH [of m] Cons.IH [of "applyAdvancementEvent m ev"]
    by (cases ev) (auto split: sum.splits)
qed simp

lemma batchShape_receipts:
  assumes "batchShape events = Inr ()"
  shows "length (receiptKeys events) \<le> 1"
    and "key \<in> set (receiptKeys events) \<Longrightarrow> \<exists>conv ts r. last events = SubmissionSettled conv ts r \<and>
      key = (si_surfacePrincipal (sr_identity r), si_submissionId (sr_identity r))"
proof -
  show le: "length (receiptKeys events) \<le> 1"
    using assms by (auto simp: batchShape_def Let_def length_receiptKeys split: if_splits)
  assume key: "key \<in> set (receiptKeys events)"
  then have "length (filter isReceipt events) = 1" "events \<noteq> []"
    using le by (auto simp flip: length_receiptKeys) (cases "receiptKeys events"; simp)
  then have "isReceipt (last events)"
    using assms by (auto simp: batchShape_def Let_def split: if_splits)
  then obtain conv ts r where l: "last events = SubmissionSettled conv ts r" by (cases "last events") auto
  with \<open>events \<noteq> []\<close> have "receiptKeys events = receiptKeys (butlast events) @
      [(si_surfacePrincipal (sr_identity r), si_submissionId (sr_identity r))]"
    by (metis append_butlast_last_id receiptKeys.simps(1,2) receiptKeys_append)
  with le key l show "\<exists>conv ts r. last events = SubmissionSettled conv ts r \<and>
      key = (si_surfacePrincipal (sr_identity r), si_submissionId (sr_identity r))" by auto
qed

lemma appendEvents_ends: "appendEventsInLock env l events = Inr l' \<Longrightarrow> endsLine l \<Longrightarrow> endsLine l'"
  by (erule appendEvents_cases) (auto simp: writeEvents_ok)

lemma append_receipts_distinct:
  assumes "appendEventsInLock env l events = Inr l'" "endsLine l" "distinct (receiptKeys (readEventsInLock env l))"
  shows "distinct (receiptKeys (readEventsInLock env l'))"
  using assms(1)
proof (cases rule: appendEvents_cases)
  case written
  let ?new = "replayFrom env (storeFold env l) (map Some events)"
  from written(1) have l': "l' = l @ batchText events" and shape: "batchShape events = Inr ()"
    by (auto simp: writeEvents_ok assertAdvancementEventBatchLegal_def andThen_eq_Inr)
  have "distinct (receiptKeys ?new)"
    using replay_subset [of env "storeFold env l" events] batchShape_receipts(1) [OF shape]
    by (cases "receiptKeys ?new"; cases "tl (receiptKeys ?new)") auto
  moreover have "set (receiptKeys ?new) \<inter> set (receiptKeys (readEventsInLock env l)) = {}"
  proof -
    have "key \<notin> set (receiptKeys (readEventsInLock env l))" if "key \<in> set (receiptKeys ?new)" for key
      using batchShape_receipts(2) [OF shape, of key] written(3) that replay_subset [of env "storeFold env l" events]
      by (force simp: findSubmissionOf_def findSubmission_None)
    then show ?thesis by blast
  qed
  ultimately show ?thesis using assms(2,3) l' by (auto simp: readEvents_append)
qed (use assms(3) in auto)

section \<open>A concrete log\<close>

text \<open>
  A session that is confirmed, fails one review, is driven on by a proxy message, passes the
  next review and completes, with one submission receipt. The digest function is constant.
\<close>

fun applyBatches ::
  "(string \<Rightarrow> string) \<Rightarrow> AdvancementFoldMap \<Rightarrow> AdvancementStoreEvent list list \<Rightarrow> AdvancementFoldMap guarded" where
  "applyBatches sha m [] = Inr m"
| "applyBatches sha m (b # bs) = andThen (assertAdvancementEventBatchLegal sha m b) (\<lambda>m'. applyBatches sha m' bs)"

lemma applyBatches_committed:
  "applyBatches sha m bs = Inr m' \<Longrightarrow> committed sha log m \<Longrightarrow> committed sha (log @ concat bs) m'"
proof (induction bs arbitrary: m log)
  case (Cons b bs)
  then obtain m1 where "assertAdvancementEventBatchLegal sha m b = Inr m1" "applyBatches sha m1 bs = Inr m'"
    by (auto simp: andThen_eq_Inr)
  with Cons show ?case using committed.append by fastforce
qed simp

definition demoSha :: "string \<Rightarrow> string" where
  "demoSha bytes = ''00''"

definition demoTask :: UserTurnInput where
  "demoTask = JObj [(''parts'', JArr [JObj [(''type'', JStr ''text''), (''text'', JStr ''task'')]])]"

definition demoDraft :: RubricContractDraftSnapshot where
  "demoDraft = \<lparr>rd_draftId = ''d'', rd_originalTurnId = ''t'', rd_source = Generated, rd_candidateRubricIds = [],
     rd_candidateRubrics = None, rd_title = ''T'', rd_description = ''D'',
     rd_content = \<lparr>rc_passCriteria = [''c''], rc_evidenceRequirements = None, rc_failureHandling = []\<rparr>, rd_createdAt = ''0''\<rparr>"

definition demoRubric :: ConfirmedRubricSnapshot where
  "demoRubric = \<lparr>cr_source = LocalDraft ''d'' ''x'', cr_title = ''T'', cr_description = ''D'',
     cr_content = \<lparr>cc_passCriteria = [\<lparr>pc_id = ''c'', pc_text = ''done''\<rparr>], cc_evidenceRequirements = None,
       cc_failureHandling = [\<lparr>fh_id = ''h'', fh_scenario = ''s'', fh_reply = ''r''\<rparr>]\<rparr>, cr_confirmedAt = ''1''\<rparr>"

definition demoIntent :: AdvancementOriginalTaskAdmissionIntent where
  "demoIntent = \<lparr>ai_turnId = ''t:advancement:d'', ai_surfacePrincipal = ''u'',
     ai_turnOrigin = \<lparr>to_triggeredBy = Some ''u'', to_advancementExecution = None, to_otherFields = JNull\<rparr>,
     ai_inputDigest = ''sha256:00''\<rparr>"

definition demoReview :: "string \<Rightarrow> int \<Rightarrow> AdvancementReviewDecision \<Rightarrow> string option \<Rightarrow> AdvancementRunReview" where
  "demoReview i n d proxy = \<lparr>rv_id = i, rv_runIndex = n, rv_runRecordRef = Some \<lparr>rr_shardId = ''sh'', rr_runIndex = n\<rparr>,
     rv_reviewedAt = ''2'', rv_decision = d, rv_evidence = [], rv_attribution = \<lparr>at_criteria = []\<rparr>, rv_unmetCriteria = [],
     rv_usage = None, rv_selectedFailureHandlingId = (if d = Failed then Some ''h'' else None), rv_proxyMessageId = proxy,
     rv_exitReason = None, rv_contextWindow = None\<rparr>"

definition demoProxy :: "string \<Rightarrow> string \<Rightarrow> AdvancementProxyMessage" where
  "demoProxy i review = \<lparr>pm_id = i, pm_sessionId = ''s'', pm_reviewId = review, pm_content = demoTask,
     pm_rubricFailureHandlingId = ''h'', pm_variables = [], pm_attribution = \<lparr>at_criteria = []\<rparr>, pm_createdAt = ''3''\<rparr>"

definition demoAttempt :: "AdvancementReviewAttemptPhase \<Rightarrow> AdvancementReviewAttempt" where
  "demoAttempt p = \<lparr>rta_lineageId = ''adv-review:00'', rta_generation = 1, rta_runId = ''run'', rta_runIndex = 2,
     rta_runRecordRef = \<lparr>rr_shardId = ''sh'', rr_runIndex = 2\<rparr>, rta_phase = p,
     rta_root = \<lparr>rt_workload = \<lparr>rw_kind = ''control'', rw_id = ''adv-review:00:generation:1'', rw_attempt = 1\<rparr>,
       rt_budget = JNull, rt_requestId = ''advancement-review-root:adv-review:00:generation:1'', rt_audience = None,
       rt_scopeBinding = None, rt_delegation = None\<rparr>, rta_rootLease = None, rta_detail = None\<rparr>"

definition demoExit :: AdvancementExit where
  "demoExit = \<lparr>ex_reason = SystemError, ex_message = ''m'', ex_occurredAt = ''9''\<rparr>"

definition demoOpening :: "AdvancementStoreEvent list list" where
  "demoOpening =
    [[SessionCreated ''0'' ''s'' ''conv'' demoTask demoDraft,
      SubmissionSettled ''conv'' ''0'' \<lparr>sr_identity = \<lparr>si_surfacePrincipal = ''u'', si_submissionId = ''1'', si_requestDigest = ''x''\<rparr>,
        sr_outcome = DraftSaved OriginalSaved ''s'' ''d'' 0 ''t''\<rparr>],
     [RubricConfirmed ''1'' ''s'' demoRubric demoIntent],
     [RunReviewed ''2'' ''s'' (demoReview ''r1'' 1 Failed (Some ''p1'')), ProxyEnqueued ''3'' ''s'' (demoProxy ''p1'' ''r1'')]]"

definition demoClosing :: "AdvancementStoreEvent list list" where
  "demoClosing =
    [[ProxySettled ''4'' ''s'' ''p1''],
     [ReviewAttemptTransitioned ''5'' ''s'' (demoAttempt Started)],
     [ReviewAttemptTransitioned ''6'' ''s'' (demoAttempt Invoking)],
     [RunReviewed ''7'' ''s'' (demoReview ''r2'' 2 Passed None), ReviewAttemptTransitioned ''7'' ''s'' (demoAttempt Consumed),
      CompletedEvent ''8'' ''s'' demoExit]]"

definition demoOpen :: AdvancementFoldMap where
  "demoOpen = foldAdvancementEventMap (concat demoOpening)"

definition demoDone :: AdvancementFoldMap where
  "demoDone = foldAdvancementEventMap (concat demoOpening @ concat demoClosing)"

lemma demo_opening_legal: "applyBatches demoSha [] demoOpening = Inr demoOpen"
  by code_simp

lemma demo_closing_legal: "applyBatches demoSha demoOpen demoClosing = Inr demoDone"
  by code_simp

lemma demo_open_committed: "committed demoSha (concat demoOpening) demoOpen"
  using applyBatches_committed [OF demo_opening_legal committed.empty] by simp

lemma demo_done_committed: "committed demoSha (concat demoOpening @ concat demoClosing) demoDone"
  using applyBatches_committed [OF demo_closing_legal demo_open_committed] by simp

definition demoSession :: "AdvancementFoldMap \<Rightarrow> AdvancementFoldSession" where
  "demoSession m = the (omap_get m ''s'')"

lemma demo_open_session: "omap_get demoOpen ''s'' = Some (demoSession demoOpen)"
  by code_simp

lemma demo_done_session: "omap_get demoDone ''s'' = Some (demoSession demoDone)"
  by code_simp

section \<open>Properties of committed logs\<close>

text \<open>
  C7. Refinement: a batch that passes the gate moves every session along the lifecycle
  relation (proposed, drafting, awaiting confirmation, active, closed), and no session disappears.
\<close>

theorem legal_batch_follows_lifecycle:
  assumes "assertAdvancementEventBatchLegal sha m events = Inr m'" "omap_get m k = Some s"
  shows "\<exists>s'. omap_get m' k = Some s' \<and> status_step\<^sup>*\<^sup>* (s_status s) (s_status s')"
  using legal_events_steps [OF legal_batch_events [OF assms(1)] assms(2)] .

theorem legal_batch_follows_lifecycle_witness:
  "\<exists>s'. omap_get (foldl applyAdvancementEvent demoOpen [CancelledEvent ''9'' ''s'' None]) ''s'' = Some s' \<and>
     status_step\<^sup>*\<^sup>* Active (s_status s')"
proof -
  have "assertAdvancementEventBatchLegal demoSha demoOpen [CancelledEvent ''9'' ''s'' None] =
      Inr (foldl applyAdvancementEvent demoOpen [CancelledEvent ''9'' ''s'' None])"
    by code_simp
  moreover have "s_status (demoSession demoOpen) = Active" by code_simp
  ultimately show ?thesis using legal_batch_follows_lifecycle demo_open_session by metis
qed

text \<open>
  C8. The sessions a conversation ever has: at most one of them is open (in a proposal
  stage, awaiting confirmation or active) at any committed state.
\<close>

theorem committed_single_open:
  assumes "committed sha log m"
  shows "length (filter isOpenAdvancementSession (omap_values m)) \<le> 1"
  using singleOpen_length [OF singleOpen_committed [OF assms]] completion.committed_inv [OF assms]
  by (simp add: fold_wf_def)

theorem committed_single_open_witness:
  "length (filter isOpenAdvancementSession (omap_values demoOpen)) \<le> 1 \<and> isOpenAdvancementSession (demoSession demoOpen)"
proof -
  have "isOpenAdvancementSession (demoSession demoOpen)" by code_simp
  then show ?thesis using committed_single_open [OF demo_open_committed] by blast
qed

text \<open>
  C9. A session is completed only on a passing verdict: it has been reviewed and the last
  review's decision is \<open>passed\<close>.
\<close>

theorem completed_only_when_passed:
  assumes "committed sha log m" "omap_get m k = Some s" "s_status s = Completed"
  shows "s_runs s \<noteq> [] \<and> rv_decision (last (s_runs s)) = Passed"
  using completion.committed_inv [OF assms(1)] assms(2,3) unfolding completedPassed_def by blast

theorem completed_only_when_passed_witness:
  "s_status (demoSession demoDone) = Completed \<and> rv_decision (last (s_runs (demoSession demoDone))) = Passed"
proof -
  have "s_status (demoSession demoDone) = Completed" by code_simp
  then show ?thesis using completed_only_when_passed [OF demo_done_committed demo_done_session] by blast
qed

text \<open>
  Work is governed by a confirmed rubric: an active or completed session, and every
  session with a review, has one with distinct criterion, failure-handling and evidence
  ids, and each review selects only failure handlings of that rubric.
\<close>

theorem rubric_governs_reviews:
  assumes "committed sha log m" "omap_get m k = Some s" "s_status s = Active \<or> s_status s = Completed \<or> s_runs s \<noteq> []"
  shows "\<exists>c. s_confirmedRubric s = Some c \<and>
    distinct (map pc_id (cc_passCriteria (cr_content c))) \<and>
    distinct (map fh_id (cc_failureHandling (cr_content c))) \<and>
    distinct (map er_id (withDefault (cc_evidenceRequirements (cr_content c)) [])) \<and>
    (\<forall>r \<in> set (s_runs s). \<forall>h. rv_selectedFailureHandlingId r = Some h \<longrightarrow>
       h \<in> set (map fh_id (cc_failureHandling (cr_content c))))"
proof -
  have "rubricGoverns s" using rubric.committed_inv [OF assms(1)] assms(2) by blast
  with assms(3) show ?thesis by (auto simp: rubricGoverns_def)
qed

theorem rubric_governs_reviews_witness:
  "s_status (demoSession demoOpen) = Active \<and> (\<exists>c. s_confirmedRubric (demoSession demoOpen) = Some c \<and>
     distinct (map pc_id (cc_passCriteria (cr_content c))))"
proof -
  have "s_status (demoSession demoOpen) = Active" by code_simp
  then show ?thesis using rubric_governs_reviews [OF demo_open_committed demo_open_session] by blast
qed

text \<open>
  No run is reviewed twice within a session: two reviews differ in id and run index,
  and in run record when both carry one.
\<close>

theorem runs_reviewed_once:
  assumes "committed sha log m" "omap_get m k = Some s" "i < j" "j < length (s_runs s)"
  shows "\<not> sameReviewIdentity (s_runs s ! i) (s_runs s ! j)"
  using reviews.committed_inv [OF assms(1)] assms(2-4) by (auto simp: reviewsDistinct_def sorted_wrt_iff_nth_less)

theorem runs_reviewed_once_witness:
  "\<not> sameReviewIdentity (s_runs (demoSession demoDone) ! 0) (s_runs (demoSession demoDone) ! 1)"
proof -
  have "1 < length (s_runs (demoSession demoDone))" by code_simp
  then show ?thesis using runs_reviewed_once [OF demo_done_committed demo_done_session, of 0 1] by simp
qed

text \<open>
  Every proxy message of a session answers one of its failed reviews: it carries that
  review's id, the failure handling it selected and the same attribution, and the
  outstanding message is one of the session's messages.
\<close>

theorem proxy_bound_to_failed_review:
  assumes "committed sha log m" "omap_get m k = Some s"
  shows "(\<forall>pm \<in> set (s_proxyMessages s). pm_sessionId pm = k \<and>
      (\<exists>r \<in> set (s_runs s). rv_decision r = Failed \<and> rv_proxyMessageId r = Some (pm_id pm) \<and> pm_reviewId pm = rv_id r \<and>
        rv_selectedFailureHandlingId r = Some (pm_rubricFailureHandlingId pm) \<and> pm_attribution pm = rv_attribution r)) \<and>
    (\<forall>p. s_outstandingProxyMessageId s = Some p \<longrightarrow> p \<in> pm_id ` set (s_proxyMessages s))"
proof -
  have "proxiesBound s" "s_id s = k" using proxies.committed_inv [OF assms(1)] assms(2) by (auto simp: fold_wf_def)
  then show ?thesis unfolding proxiesBound_def proxyBoundTo_def by blast
qed

theorem proxy_bound_to_failed_review_witness:
  "s_outstandingProxyMessageId (demoSession demoOpen) = Some ''p1'' \<and> ''p1'' \<in> pm_id ` set (s_proxyMessages (demoSession demoOpen))"
proof -
  have "s_outstandingProxyMessageId (demoSession demoOpen) = Some ''p1''" by code_simp
  then show ?thesis using proxy_bound_to_failed_review [OF demo_open_committed demo_open_session] by blast
qed

text \<open>
  C19. At most one invocation of the judge per generation: over a whole committed log, a
  review attempt of one accepted run enters \<open>invoking\<close> at most once in each generation.
\<close>

theorem judge_invoked_once_per_generation:
  assumes "committed sha log m"
  shows "length (filter (invokes sid ref g) log) \<le> 1"
  using invocations_committed [OF assms] by blast

theorem judge_invoked_once_per_generation_witness:
  "length (filter (invokes ''s'' \<lparr>rr_shardId = ''sh'', rr_runIndex = 2\<rparr> 1) (concat demoOpening @ concat demoClosing)) \<le> 1"
  by (rule judge_invoked_once_per_generation [OF demo_done_committed])

text \<open>
  A closed session is frozen: a legal batch leaves its status, reviews, proxy messages,
  rubric, drafts and evidence as they are (only clean-up of review roots and the outcome
  of the original task's admission are still recorded).
\<close>

theorem closed_session_frozen:
  assumes "assertAdvancementEventBatchLegal sha m events = Inr m'" "omap_get m k = Some s"
    and "\<not> isOpenAdvancementSession s"
  shows "\<exists>s'. omap_get m' k = Some s' \<and> s_status s' = s_status s \<and> s_runs s' = s_runs s \<and>
    s_proxyMessages s' = s_proxyMessages s \<and> s_confirmedRubric s' = s_confirmedRubric s \<and>
    s_outstandingProxyMessageId s' = s_outstandingProxyMessageId s \<and> s_evidencePending s' = s_evidencePending s \<and>
    s_evidenceGenerations s' = s_evidenceGenerations s \<and> s_pendingRubricDraft s' = s_pendingRubricDraft s \<and>
    s_proposal s' = s_proposal s"
  using frozen_events [OF legal_batch_events [OF assms(1)] assms(2,3)] by (auto simp: frozenView_def)

theorem closed_session_frozen_witness:
  "\<exists>m' s'. assertAdvancementEventBatchLegal demoSha demoDone [ReviewRootSettled ''9'' ''s'' ''adv-review:00'' 1] = Inr m' \<and>
     omap_get m' ''s'' = Some s' \<and> s_status s' = Completed"
proof -
  let ?evs = "[ReviewRootSettled ''9'' ''s'' ''adv-review:00'' 1]"
  have "assertAdvancementEventBatchLegal demoSha demoDone ?evs = Inr (foldl applyAdvancementEvent demoDone ?evs)"
    by code_simp
  moreover have "s_status (demoSession demoDone) = Completed" "\<not> isOpenAdvancementSession (demoSession demoDone)"
    by code_simp+
  ultimately show ?thesis using closed_session_frozen [OF _ demo_done_session] by metis
qed

end
