(* ===== verification/Advancement_Operations.thy ===== *)
theory Advancement_Operations
  imports Advancement_Correctness
begin

text \<open>
  What the store promises its callers: loading is safe whatever the file holds, a batch
  cut by a crash keeps what was written whole, receipts are unique, and the operations that may be
  retried are idempotent. They rest on a file that ends its last line, as every
  completed write leaves it; after a crash inside a write they fail
  (\<open>torn_line_swallows_event\<close>), since the store does not end the line it finds.
\<close>

section \<open>Loading and appending\<close>

lemma filter_insert_by: "length (filter P (insert_by le x xs)) = length (filter P (x # xs))"
  by (induction xs) auto

lemma filter_sort_by: "length (filter P (sort_by le xs)) = length (filter P xs)"
  unfolding sort_by_def by (induction xs) (auto simp: filter_insert_by)

text \<open>
  Loading tolerates any file: whatever lines it holds (torn, foreign or out of
  order), the events read form a committed log, its fold is what is loaded, and at most one
  loaded session is open.
\<close>

theorem any_file_loads_safely:
  "committed (se_sha env) (readEventsInLock env raw) (foldAdvancementEventMap (readEventsInLock env raw)) \<and>
   length (filter isOpenAdvancementSession (loadConversationSessionsInLock env raw)) \<le> 1"
proof -
  note c = read_committed [of env raw]
  have "length (filter isOpenAdvancementSession (omap_values (storeFold env raw))) \<le> 1"
    using singleOpen_length [OF singleOpen_committed [OF c]] completion.committed_inv [OF c] by (simp add: fold_wf_def)
  with c show ?thesis
    by (simp add: loadConversationSessionsInLock_def foldAdvancementEvents_def freezeAdvancementSessions_def filter_sort_by)
qed

text \<open>
  C39. Durability: a batch appended to a file whose last line is ended is read back in full,
  after the old events. When a crash cuts the write after \<open>n\<close> of its texts (every event's text
  is followed by a line break), perhaps with a torn beginning of the next one, exactly the events
  whose texts were written whole are read after the old ones, and nothing else. A review that
  comes with its proxy message must not reuse the proxy id of an earlier failed review.
\<close>

theorem appended_batch_reads_back:
  assumes "endsLine raw" "writeEvents env raw events = Inr raw'"
    and "proxyIdsFresh (foldAdvancementEventMap (readEventsInLock env raw)) events"
  shows "raw' = raw @ batchText events \<and> endsLine raw' \<and>
    readEventsInLock env raw' = readEventsInLock env raw @ events \<and>
    readEventsInLock env (raw @ writtenPart n torn (batchText events)) =
      readEventsInLock env raw @ take ((n + 1) div 2) events"
proof -
  have "raw' = raw @ batchText events" using assms(2) by (simp add: writeEvents_ok)
  with write_replays [OF assms(2,3), of "length events"] write_replays [OF assms(2,3), of "(n + 1) div 2"]
  show ?thesis by (simp add: readEvents_append [OF assms(1)] fileEvents_written)
qed

definition demoEnv :: StoreEnv where
  "demoEnv = \<lparr>se_sha = demoSha, se_valid = (\<lambda>_. True), se_loc = (\<lambda>a b. a \<le> b)\<rparr>"

definition demoFile :: logFile where
  "demoFile = batchText (concat demoOpening)"

lemma demo_read: "readEventsInLock demoEnv demoFile = concat demoOpening"
  by code_simp

lemma demo_fold: "storeFold demoEnv demoFile = demoOpen"
  by (simp add: demo_read demoOpen_def)

lemma demo_ends [simp]: "endsLine demoFile"
  by (simp add: endsLine_def demoFile_def batchText_def)

theorem appended_batch_reads_back_witness:
  "readEventsInLock demoEnv (demoFile @ batchText [ProxySettled ''4'' ''s'' ''p1'']) =
     concat demoOpening @ [ProxySettled ''4'' ''s'' ''p1''] \<and>
   readEventsInLock demoEnv (demoFile @ [EventText (ProxySettled ''4'' ''s'' ''p1'')]) =
     concat demoOpening @ [ProxySettled ''4'' ''s'' ''p1''] \<and>
   readEventsInLock demoEnv (demoFile @ [TornText]) = concat demoOpening"
proof -
  let ?events = "[ProxySettled ''4'' ''s'' ''p1'']"
  have w: "writeEvents demoEnv demoFile ?events = Inr (demoFile @ batchText ?events)" by code_simp
  have f: "proxyIdsFresh (foldAdvancementEventMap (readEventsInLock demoEnv demoFile)) ?events"
    by (simp add: proxyIdsFresh_def)
  note ok = appended_batch_reads_back [OF demo_ends w f]
  from ok [of 1 False] ok [of 0 True] show ?thesis
    by (simp add: demo_read writtenPart_def batchText_def)
qed

text \<open>
  A file whose last line is not ended is not repaired: the next batch is glued to that line, so
  its first event is not an event of the file, and neither is the text it was glued to. What is
  read are the whole lines before, and the rest of the batch as far as it passes without it.
\<close>

definition wholeLines :: "logFile \<Rightarrow> logFile" where
  "wholeLines raw = rev (dropWhile (\<lambda>p. p \<noteq> LineBreak) (rev raw))"

lemma wholeLines_split: "\<exists>line. raw = wholeLines raw @ line \<and> LineBreak \<notin> set line"
proof (intro exI conjI)
  let ?line = "rev (takeWhile (\<lambda>p. p \<noteq> LineBreak) (rev raw))"
  show "raw = wholeLines raw @ ?line"
    unfolding wholeLines_def by (metis rev_append rev_rev_ident takeWhile_dropWhile_id)
  show "LineBreak \<notin> set ?line" by (auto dest: set_takeWhileD)
qed

lemma wholeLines_ends: "endsLine (wholeLines raw)"
proof (cases "dropWhile (\<lambda>p. p \<noteq> LineBreak) (rev raw)")
  case (Cons p ps)
  then show ?thesis using hd_dropWhile [of "\<lambda>p. p \<noteq> LineBreak" "rev raw"] by (simp add: wholeLines_def endsLine_def)
qed (simp add: wholeLines_def endsLine_def)

lemma parseLine_glued: "line \<noteq> [] \<Longrightarrow> parseLine (line @ [p]) = None"
  by (cases line; cases "tl line") (auto intro: parseLine.simps)

lemma glued_fileEvents:
  assumes "\<not> endsLine raw"
  shows "fileEvents (raw @ batchText (ev # events)) = fileEvents (wholeLines raw) @ events"
proof -
  obtain line where line: "raw = wholeLines raw @ line" "LineBreak \<notin> set line" using wholeLines_split by blast
  with assms wholeLines_ends [of raw] have ne: "line \<noteq> []" by (metis append_Nil2)
  have "LineBreak \<notin> set (line @ [EventText ev])" using line(2) by simp
  then have one: "fileEvents (line @ [EventText ev]) = []"
    using parseLine_glued [OF ne] by (simp add: fileEvents_def splitLines_line List.map_filter_def)
  have "raw @ batchText (ev # events) =
      wholeLines raw @ (line @ [EventText ev]) @ LineBreak # (if events = [] then [] else batchText events)"
    by (subst line(1)) (simp add: batchText_Cons)
  then show ?thesis by (simp only: fileEvents_append [OF wholeLines_ends] fileEvents_break one) simp
qed

text \<open>
  After a crash that tore a write, the next operation is lost without an error: appending one
  event succeeds, and what is read afterwards is what was read before.
\<close>

theorem torn_line_swallows_event:
  assumes "appendEventsInLock env raw [ev] = Inr raw'" "last raw = TornText" "raw \<noteq> []" "\<not> isReceipt ev"
  shows "readEventsInLock env raw' = readEventsInLock env raw"
proof -
  have open_line: "\<not> endsLine raw" using assms(2,3) by (simp add: endsLine_def)
  obtain line where line: "raw = wholeLines raw @ line" "LineBreak \<notin> set line" using wholeLines_split by blast
  with open_line wholeLines_ends [of raw] have ne: "line \<noteq> []" by (metis append_Nil2)
  with line(1) assms(2) have "last line = TornText" by (metis last_appendR)
  then have "parseLine line = None" using ne by (cases line rule: parseLine.cases) auto
  then have "fileEvents line = []" using line(2) by (simp add: fileEvents_def splitLines_line List.map_filter_def)
  then have "fileEvents raw = fileEvents (wholeLines raw)"
    using fileEvents_append [OF wholeLines_ends, of raw line] line(1) by simp
  moreover have "raw' = raw @ batchText [ev]" using assms(1,4) by (simp add: append_single)
  ultimately show ?thesis using glued_fileEvents [OF open_line, of ev "[]"] by (simp add: read_fileEvents)
qed

theorem torn_line_swallows_event_witness:
  "\<exists>raw'. appendEventsInLock demoEnv (demoFile @ [TornText]) [CancelledEvent ''9'' ''s'' None] = Inr raw' \<and>
     readEventsInLock demoEnv raw' = concat demoOpening \<and>
     (\<exists>s. loadActiveSession demoEnv raw' = Some s \<and> s_id s = ''s'')"
proof -
  let ?raw = "demoFile @ [TornText]" and ?ev = "CancelledEvent ''9'' ''s'' None"
  have app: "appendEventsInLock demoEnv ?raw [?ev] = Inr (?raw @ batchText [?ev])" by code_simp
  have before: "readEventsInLock demoEnv ?raw = concat demoOpening" by code_simp
  have "map_option s_id (loadActiveSession demoEnv (?raw @ batchText [?ev])) = Some ''s''" by code_simp
  then show ?thesis using app before torn_line_swallows_event [OF app] by auto
qed

text \<open>
  The exclusion of \<open>appended_batch_reads_back\<close> is needed: a legal batch may record a failed review
  and its proxy message under the proxy id of an earlier failed review; the event-by-event replay
  binds the message to the earlier review and drops it.
\<close>

theorem reused_proxy_id_lost_on_replay:
  "\<exists>env raw events raw'. endsLine raw \<and> appendEventsInLock env raw events = Inr raw' \<and> raw' = raw @ batchText events \<and>
     readEventsInLock env raw' \<noteq> readEventsInLock env raw @ events"
proof -
  let ?raw = "demoFile @ batchText [ProxySettled ''4'' ''s'' ''p1'']"
  let ?events = "[RunReviewed ''5'' ''s'' (demoReview ''r2'' 2 Failed (Some ''p1'')), ProxyEnqueued ''6'' ''s'' (demoProxy ''p1'' ''r2'')]"
  have "appendEventsInLock demoEnv ?raw ?events = Inr (?raw @ batchText ?events)" by code_simp
  moreover have "readEventsInLock demoEnv (?raw @ batchText ?events) \<noteq> readEventsInLock demoEnv ?raw @ ?events"
    by code_simp
  ultimately show ?thesis using batchText_ends by blast
qed

text \<open>
  Submissions are settled once: in a log built by any sequence of store operations, no
  two receipts that are read back carry the same surface principal and submission id.
\<close>

theorem receipts_settled_once:
  assumes "(storeStep env conv)\<^sup>*\<^sup>* [] raw"
  shows "distinct (receiptKeys (readEventsInLock env raw))"
proof -
  from assms have "endsLine raw \<and> distinct (receiptKeys (readEventsInLock env raw))"
  proof (induction rule: rtranclp_induct)
    case base
    show ?case by (simp add: readEventsInLock_def endsLine_def)
  next
    case (step y z)
    then show ?case using storeStep_appends [OF step(2)] append_receipts_distinct appendEvents_ends
      by (auto simp: appends_def)
  qed
  then show ?thesis ..
qed

theorem receipts_settled_once_witness:
  "distinct (receiptKeys (readEventsInLock demoEnv
     (batchText [SubmissionSettled ''conv'' ''0'' \<lparr>sr_identity = \<lparr>si_surfacePrincipal = ''u'', si_submissionId = ''1'', si_requestDigest = ''x''\<rparr>,
        sr_outcome = RejectedOutcome ''conversation-busy''\<rparr>])))"
proof (rule receipts_settled_once [where conv = "''conv''"])
  let ?i = "\<lparr>si_surfacePrincipal = ''u'', si_submissionId = ''1'', si_requestDigest = ''x''\<rparr>"
  have "settleSubmission demoEnv ''conv'' [] ''0'' ?i (RejectedOutcome ''conversation-busy'') =
      Inr (batchText [SubmissionSettled ''conv'' ''0'' \<lparr>sr_identity = ?i, sr_outcome = RejectedOutcome ''conversation-busy''\<rparr>])"
    by code_simp
  then show "(storeStep demoEnv ''conv'')\<^sup>*\<^sup>* []
      (batchText [SubmissionSettled ''conv'' ''0'' \<lparr>sr_identity = ?i, sr_outcome = RejectedOutcome ''conversation-busy''\<rparr>])"
    by (auto intro: storeStep.settle_submission)
qed

section \<open>Retried operations\<close>

lemma append_event_single:
  assumes "\<not> isReceipt ev"
  shows "appendEventInLock env conv raw ev None = Inr raw' \<longleftrightarrow>
    se_valid env ev \<and> guardEvent (se_sha env) (storeFold env raw) None ev = Inr () \<and> raw' = raw @ batchText [ev]"
  using assms by (simp add: appendEventInLock_def append_single)

text \<open>
  Settling the admission of the original task may be repeated: a second settlement
  with the same turn, input and run leaves the file as it is and returns the same session.
\<close>

theorem settle_admission_repeat:
  assumes "endsLine raw" "settleOriginalTaskAdmission env conv raw sid turn dig runId ts = Inr (raw', s)"
  shows "settleOriginalTaskAdmission env conv raw' sid turn dig runId ts' = Inr (raw', s)"
proof -
  let ?ev = "OriginalTaskAdmitted ts sid turn dig runId"
  from assms(2) obtain s0 where s0: "omap_get (storeFold env raw) sid = Some s0"
    and c: "if alreadyAdmitted s0 turn dig runId then raw' = raw \<and> s = s0
      else appendEventInLock env conv raw ?ev None = Inr raw' \<and> omap_get (storeFold env raw') sid = Some s"
    by (auto simp: settleOriginalTaskAdmission_def store_simps split: if_splits)
  have "omap_get (storeFold env raw') sid = Some s \<and> alreadyAdmitted s turn dig runId"
  proof (cases "alreadyAdmitted s0 turn dig runId")
    case True
    with c s0 show ?thesis by simp
  next
    case False
    with c have "se_valid env ?ev" "guardAdmissionSettlement (storeFold env raw) sid turn dig = Inr ()"
      "raw' = raw @ batchText [?ev]" "omap_get (storeFold env raw') sid = Some s"
      by (auto simp: append_event_single)
    with s0 show ?thesis
      by (auto simp: read_single [OF assms(1)] omap_simps admitOriginal_def guardAdmissionSettlement_def guard_simps andThen_eq_Inr
          alreadyAdmitted_def split: if_splits option.splits)
  qed
  then show ?thesis by (simp add: settleOriginalTaskAdmission_def store_simps)
qed

theorem settle_admission_repeat_witness:
  "\<exists>raw' s. settleOriginalTaskAdmission demoEnv ''conv'' demoFile ''s'' ''t:advancement:d'' ''sha256:00'' ''run'' ''5'' = Inr (raw', s) \<and>
     settleOriginalTaskAdmission demoEnv ''conv'' raw' ''s'' ''t:advancement:d'' ''sha256:00'' ''run'' ''6'' = Inr (raw', s)"
proof -
  have "isOk (settleOriginalTaskAdmission demoEnv ''conv'' demoFile ''s'' ''t:advancement:d'' ''sha256:00'' ''run'' ''5'')"
    by code_simp
  then obtain raw' s where
    "settleOriginalTaskAdmission demoEnv ''conv'' demoFile ''s'' ''t:advancement:d'' ''sha256:00'' ''run'' ''5'' = Inr (raw', s)"
    by (auto simp: isOk_iff)
  then show ?thesis using settle_admission_repeat [OF demo_ends] by blast
qed

text \<open>
  Settling a proxy message may be repeated: the second call finds the message settled,
  leaves the file as it is and returns the same session.
\<close>

theorem settle_proxy_repeat:
  assumes "endsLine raw" "settleProxyMessage env conv raw sid pmid ts = Inr (raw', s)"
  shows "settleProxyMessage env conv raw' sid pmid ts' = Inr (raw', s)"
proof -
  let ?ev = "ProxySettled ts sid pmid"
  from assms(2) obtain s0 where s0: "omap_get (storeFold env raw) sid = Some s0"
    and c: "if list_ex (\<lambda>m. pm_id m = pmid) (s_proxyMessages s0) \<and> s_outstandingProxyMessageId s0 \<noteq> Some pmid
      then raw' = raw \<and> s = s0
      else s_outstandingProxyMessageId s0 = Some pmid \<and> appendEventInLock env conv raw ?ev None = Inr raw' \<and>
        omap_get (storeFold env raw') sid = Some s"
    by (auto simp: settleProxyMessage_def store_simps split: if_splits)
  have known: "s_outstandingProxyMessageId s0 = Some pmid \<Longrightarrow> list_ex (\<lambda>m. pm_id m = pmid) (s_proxyMessages s0)"
    using proxies.committed_inv [OF read_committed [of env raw]] s0 by (fastforce simp: proxiesBound_def list_ex_iff)
  have "omap_get (storeFold env raw') sid = Some s \<and> list_ex (\<lambda>m. pm_id m = pmid) (s_proxyMessages s) \<and>
      s_outstandingProxyMessageId s \<noteq> Some pmid"
  proof (cases "s_outstandingProxyMessageId s0 = Some pmid")
    case True
    with c have "se_valid env ?ev" "guardEvent (se_sha env) (storeFold env raw) None ?ev = Inr ()"
      "raw' = raw @ batchText [?ev]" "omap_get (storeFold env raw') sid = Some s"
      by (auto simp: append_event_single)
    with s0 True known show ?thesis by (auto simp: read_single [OF assms(1)] omap_simps simp del: guardEvent.simps)
  next
    case False
    with c s0 show ?thesis by (auto split: if_splits)
  qed
  then show ?thesis by (simp add: settleProxyMessage_def store_simps)
qed

theorem settle_proxy_repeat_witness:
  "\<exists>raw' s. settleProxyMessage demoEnv ''conv'' demoFile ''s'' ''p1'' ''5'' = Inr (raw', s) \<and>
     settleProxyMessage demoEnv ''conv'' raw' ''s'' ''p1'' ''6'' = Inr (raw', s)"
proof -
  have "isOk (settleProxyMessage demoEnv ''conv'' demoFile ''s'' ''p1'' ''5'')" by code_simp
  then obtain raw' s where "settleProxyMessage demoEnv ''conv'' demoFile ''s'' ''p1'' ''5'' = Inr (raw', s)"
    by (auto simp: isOk_iff)
  then show ?thesis using settle_proxy_repeat [OF demo_ends] by blast
qed

text \<open>
  A proposal of the main agent is always answered: under its own identity it never
  fails, it opens a proposed session when none is open and is recorded as cancelled
  otherwise, and accepting it again returns the same session without writing.
\<close>

theorem accept_proposal_answers:
  assumes "advancementProposalId (se_sha env) conv rid = Inr pid" "\<And>ev. se_valid env ev"
    and "omap_get (foldAdvancementEventMap (readEventsInLock env raw)) (advancementProposalSessionId pid) = None"
    and "endsLine raw"
  shows "\<exists>raw' s. acceptProposal env conv raw now pid rid turn task = Inr (raw', s) \<and>
    s_id s = advancementProposalSessionId pid \<and>
    s_status s = (if list_ex isOpenAdvancementSession (loadConversationSessionsInLock env raw) then Cancelled else Proposed) \<and>
    acceptProposal env conv raw' now' pid rid turn task = Inr (raw', s)"
proof -
  let ?sid = "advancementProposalSessionId pid" and ?m = "storeFold env raw"
  let ?ev = "if someOpen ?m
    then ProposalRejected now ?sid conv pid rid turn task
           \<lparr>ex_reason = Superseded, ex_message = proposalRejectedMessage, ex_occurredAt = now\<rparr>
    else ProposalAccepted now ?sid conv pid rid turn task"
  have ok: "guardEvent (se_sha env) ?m None ?ev = Inr ()"
    using assms(1,3)
    by (simp add: guardProposalRejected_def guardProposalAccepted_def proposalBinds_def liftCanonical_def)
  have nr: "\<not> isReceipt ?ev" by simp
  have app: "appendEventsInLock env raw [?ev] = Inr (raw @ batchText [?ev])"
    using append_single [OF nr] ok assms(2) by blast
  have "\<exists>s. omap_get (storeFold env (raw @ batchText [?ev])) ?sid = Some s \<and> s_id s = ?sid \<and>
      s_status s = (if someOpen ?m then Cancelled else Proposed)"
    unfolding read_single [OF assms(4,2) ok] by (simp add: omap_simps)
  then obtain s where s: "omap_get (storeFold env (raw @ batchText [?ev])) ?sid = Some s" "s_id s = ?sid"
      "s_status s = (if someOpen ?m then Cancelled else Proposed)" by blast
  have "acceptProposal env conv raw now pid rid turn task = Inr (raw @ batchText [?ev], s)"
    using assms(3) app s(1) by (simp add: acceptProposal_def Let_def findSession_loaded loaded_open thenLoad_ok)
  moreover have "acceptProposal env conv (raw @ batchText [?ev]) now' pid rid turn task = Inr (raw @ batchText [?ev], s)"
    using s(1) by (simp add: acceptProposal_def Let_def findSession_loaded)
  ultimately show ?thesis using s by (auto simp: loaded_open)
qed

theorem accept_proposal_answers_witness:
  "\<exists>raw' s. acceptProposal demoEnv ''conv'' demoFile ''5'' ''sha256:00'' ''r'' ''t'' demoTask = Inr (raw', s) \<and>
     s_status s = Cancelled"
proof -
  have "advancementProposalId (se_sha demoEnv) ''conv'' ''r'' = Inr ''sha256:00''"
    "omap_get (foldAdvancementEventMap (readEventsInLock demoEnv demoFile)) (advancementProposalSessionId ''sha256:00'') = None"
    "list_ex isOpenAdvancementSession (loadConversationSessionsInLock demoEnv demoFile)"
    by code_simp+
  moreover have "\<And>ev. se_valid demoEnv ev" by (simp add: demoEnv_def)
  ultimately show ?thesis using demo_ends accept_proposal_answers [of demoEnv "''conv''" "''r''" "''sha256:00''" demoFile] by metis
qed

section \<open>Receipts and pages\<close>

lemma sorted_le_last: "sorted xs \<Longrightarrow> x \<in> set xs \<Longrightarrow> x \<le> last (xs :: 'a::linorder list)"
  by (induction xs) (auto dest: last_in_set)

text \<open>
  The receipt a surface operation writes beside its event always fits it: after a legal
  event, the gate accepts the outcome derived from the event and the session before it, for
  the conversation of the session named and the principal that submitted the intent.
\<close>

theorem derived_receipt_accepted:
  assumes "guardEvent sha m br ev = Inr ()"
    and "advancementSubmissionOutcome ev (Option.bind (event_sessionId ev) (omap_get m)) = Inr out"
    and "\<And>k s. omap_get (applyAdvancementEvent m ev) k = Some s \<Longrightarrow> s_conversationId s = conv"
    and "\<And>ts k c intent. ev = RubricConfirmed ts k c intent \<Longrightarrow> ai_surfacePrincipal intent = si_surfacePrincipal i"
    and "\<And>ts k x intent. ev = OriginalTaskDirected ts k x intent \<Longrightarrow> ai_surfacePrincipal intent = si_surfacePrincipal i"
  shows "guardReceipt (applyAdvancementEvent m ev) conv \<lparr>sr_identity = i, sr_outcome = out\<rparr> = Inr ()"
proof (cases ev)
  case (SessionRegenerated ts sid nxt d e)
  with assms(1) obtain p where "omap_get m sid = Some p" "omap_get m nxt = None"
    by (auto simp: guardRegenerated_def guard_simps andThen_eq_Inr)
  with SessionRegenerated assms(2) assms(3) [of nxt] show ?thesis
    by (auto simp: guardReceipt_def requireSession_def omap_simps freshSession_def split: if_splits)
next
  case (SessionCreated ts sid c task d)
  with assms(2) assms(3) [of sid] show ?thesis
    by (auto simp: guardReceipt_def requireSession_def omap_simps freshSession_def)
next
  case (RubricDraftRevised ts sid d)
  then obtain s where "omap_get m sid = Some s" "s_status s = AwaitingRubricConfirmation"
    using guard_allowed [OF assms(1), of sid] by auto
  with RubricDraftRevised assms(2) assms(3) [of sid] show ?thesis
    by (auto simp: guardReceipt_def requireSession_def omap_simps)
next
  case (RubricConfirmed ts sid c intent)
  then obtain s where "omap_get m sid = Some s" using guard_allowed [OF assms(1), of sid] by auto
  with RubricConfirmed assms(2,4) assms(3) [of sid] show ?thesis
    by (auto simp: guardReceipt_def requireSession_def omap_simps)
next
  case (OriginalTaskDirected ts sid x intent)
  then obtain s where "omap_get m sid = Some s" using guard_allowed [OF assms(1), of sid] by auto
  with OriginalTaskDirected assms(2,5) assms(3) [of sid] show ?thesis
    by (auto simp: guardReceipt_def requireSession_def omap_simps)
next
  case (CancelledEvent ts sid x)
  then obtain s where "omap_get m sid = Some s" using guard_allowed [OF assms(1), of sid] by auto
  with CancelledEvent assms(2) assms(3) [of sid] show ?thesis
    by (auto simp: guardReceipt_def requireSession_def omap_simps)
next
  case (ProposalSupplemented ts sid extra)
  then obtain s where "omap_get m sid = Some s" "isProposalStageStatus (s_status s)"
    using guard_allowed [OF assms(1), of sid] by auto
  with ProposalSupplemented assms(2) assms(3) [of sid] show ?thesis
    by (auto simp: guardReceipt_def requireSession_def omap_simps
        supplementProposal_def isProposalStageStatus_def split: option.splits)
qed (use assms(2) in simp_all)

theorem derived_receipt_accepted_witness:
  "guardReceipt (applyAdvancementEvent demoOpen (CancelledEvent ''9'' ''s'' None)) ''conv''
     \<lparr>sr_identity = \<lparr>si_surfacePrincipal = ''u'', si_submissionId = ''2'', si_requestDigest = ''x''\<rparr>,
      sr_outcome = CancelledOutcome ''s''\<rparr> = Inr ()"
proof (rule derived_receipt_accepted [where sha = demoSha and br = None])
  show "guardEvent demoSha demoOpen None (CancelledEvent ''9'' ''s'' None) = Inr ()" by code_simp
  have "\<forall>(k, s) \<in> set (applyAdvancementEvent demoOpen (CancelledEvent ''9'' ''s'' None)). s_conversationId s = ''conv''"
    by code_simp
  then show "omap_get (applyAdvancementEvent demoOpen (CancelledEvent ''9'' ''s'' None)) k = Some s \<Longrightarrow>
      s_conversationId s = ''conv''" for k s
    by (auto dest: map_of_SomeD)
qed simp_all

text \<open>
  Paging through the pending original tasks misses none: a page holds at most fifty
  ids, sorted, and exactly the pending ones after the cursor up to the next cursor (all of
  them when there is no next cursor); every next cursor lies beyond the previous one.
\<close>

theorem pending_pages_complete:
  assumes "listPendingOriginalTasks env raw after = (page, nxt)"
  shows "sorted page \<and> length page \<le> 50 \<and>
    (\<forall>i. i \<in> set page \<longleftrightarrow>
       i \<in> s_id ` {s \<in> set (loadConversationSessionsInLock env raw). pendingOriginalTask s} \<and>
       (case after of None \<Rightarrow> True | Some a \<Rightarrow> a < i) \<and> (case nxt of None \<Rightarrow> True | Some n \<Rightarrow> i \<le> n)) \<and>
    (\<forall>a n. after = Some a \<and> nxt = Some n \<longrightarrow> a < n)"
proof -
  define ids where "ids = sort (filter (\<lambda>i. case after of None \<Rightarrow> True | Some a \<Rightarrow> a < i)
    (map s_id (filter pendingOriginalTask (loadConversationSessionsInLock env raw))))"
  have page: "page = take 50 ids" and nxt: "nxt = (if length page < length ids then Some (last page) else None)"
    using assms by (auto simp: listPendingOriginalTasks_def Let_def ids_def)
  have set_ids: "i \<in> set ids \<longleftrightarrow>
      i \<in> s_id ` {s \<in> set (loadConversationSessionsInLock env raw). pendingOriginalTask s} \<and>
      (case after of None \<Rightarrow> True | Some a \<Rightarrow> a < i)" for i
    by (auto simp: ids_def)
  have "sorted (take 50 ids @ drop 50 ids)" by (simp add: ids_def)
  then have srt: "sorted page" "\<forall>x \<in> set page. \<forall>y \<in> set (drop 50 ids). x \<le> y"
    unfolding page sorted_append by blast+
  have cut: "i \<in> set page \<longleftrightarrow> i \<in> set ids \<and> (case nxt of None \<Rightarrow> True | Some n \<Rightarrow> i \<le> n)" for i
  proof (cases "length page < length ids")
    case True
    then have ne: "page \<noteq> []" using page by (cases ids) auto
    have "i \<in> set ids \<longleftrightarrow> i \<in> set page \<or> i \<in> set (drop 50 ids)" unfolding page by (metis Un_iff append_take_drop_id set_append)
    moreover have "i \<in> set page \<Longrightarrow> i \<le> last page" using srt(1) by (rule sorted_le_last)
    moreover have "i \<in> set (drop 50 ids) \<Longrightarrow> i \<le> last page \<Longrightarrow> i \<in> set page"
      using srt(2) ne by (metis last_in_set order_antisym)
    ultimately show ?thesis using nxt True by auto
  next
    case False
    then have "page = ids" unfolding page by simp
    with nxt False show ?thesis by simp
  qed
  have "a < n" if "after = Some a" "nxt = Some n" for a n
  proof -
    from that(2) nxt have "length page < length ids" "n = last page" by (auto split: if_splits)
    then have "n \<in> set page" using page by (cases ids) auto
    then have "n \<in> set ids" using page by (auto dest: in_set_takeD)
    with set_ids that(1) show ?thesis by simp
  qed
  with cut set_ids srt(1) page show ?thesis by simp
qed

theorem pending_pages_complete_witness:
  "''s'' \<in> set (fst (listPendingOriginalTasks demoEnv demoFile None)) \<and> length (fst (listPendingOriginalTasks demoEnv demoFile None)) \<le> 50"
proof -
  have "fst (listPendingOriginalTasks demoEnv demoFile None) = [''s'']" by code_simp
  then show ?thesis using pending_pages_complete [OF prod.collapse [symmetric]] by simp
qed

end
