(* ===== verification/Orchestration_Types.thy ===== *)
theory Orchestration_Types
  imports Canonical
begin

text \<open>
  The data of the orchestration kernel (\<^verbatim>\<open>packages/core/src/orchestration/types.ts\<close>,
  \<^verbatim>\<open>ids.ts\<close>, \<^verbatim>\<open>internal.ts\<close>): system caps, validation issues, the definition as it is declared,
  its normalised form and the plan. Numbers are integers; a JSON schema is only carried.
\<close>

section \<open>Issues and caps\<close>

datatype OrchestrationValidationIssueCodeV1 =
    CycleDependency | DuplicateId | DuplicateValue | EmptyString | InvalidId | InvalidLiteral | InvalidReference
  | MissingContextSnapshotPolicy | MissingInputContract | MissingRequired | ParseError
  | TemplateParamInvalid | TemplateParamMissing | TooLarge | TooSmall | TypeMismatch | UnknownProperty | UnknownReference

record OrchestrationValidationIssueV1 =
  is_path :: string
  is_code :: OrchestrationValidationIssueCodeV1
  is_message :: string

type_synonym issues = "OrchestrationValidationIssueV1 list"

datatype OrchestrationNodeKindV1 = AgentKind

record OrchestrationSystemCapsV1 =
  cap_maxNodes :: int
  cap_maxParallel :: int
  cap_maxRunMs :: int
  cap_maxNodeTimeoutMs :: int
  cap_maxNodeTurns :: int
  cap_maxNodeTokens :: int
  cap_maxContextSnapshotTokens :: int
  cap_maxInstructionChars :: int
  cap_maxInputChars :: int
  cap_maxOutputChars :: int
  cap_allowedNodeKinds :: "OrchestrationNodeKindV1 list"
  cap_allowedTools :: "string list"

section \<open>Definitions\<close>

datatype OrchestrationContractFormatV1 = TextFormat | JsonFormat

datatype OrchestrationNodeModelRoleV1 = MainRole | LightRole | PowerRole

datatype OrchestrationContextSnapshotStrategyV1 = FullOrFail | Tail

datatype OrchestrationNodeOutputReferenceV1 = Dependencies | OutputIds "string list"

record OrchestrationInputContractV1 =
  ic_required :: "bool option"
  ic_format :: OrchestrationContractFormatV1
  ic_schema :: "json option"
  ic_maxChars :: "int option"

record OrchestrationOutputContractV1 =
  oc_format :: OrchestrationContractFormatV1
  oc_schema :: "json option"
  oc_maxChars :: "int option"

record OrchestrationContextSnapshotPolicyV1 =
  sp_strategy :: OrchestrationContextSnapshotStrategyV1
  sp_maxTokens :: "int option"

record OrchestrationPolicyV1 =
  op_maxParallel :: int
  op_maxRunMs :: int
  op_defaultNodeTimeoutMs :: int
  op_defaultMaxTurns :: int
  op_defaultMaxTokens :: "int option"
  op_contextSnapshot :: "OrchestrationContextSnapshotPolicyV1 option"
  op_allowedTools :: "string list"

record OrchestrationNodeContextV1 =
  nc_includeRunInput :: "bool option"
  nc_includeContextSnapshot :: "bool option"
  nc_includeNodeOutputs :: "OrchestrationNodeOutputReferenceV1 option"

record OrchestrationNodePolicyV1 =
  np_timeoutMs :: "int option"
  np_maxTurns :: "int option"
  np_maxTokens :: "int option"
  np_tools :: "string list option"
  np_modelRole :: "OrchestrationNodeModelRoleV1 option"

record OrchestrationNodeV1 =
  on_id :: string
  on_title :: "string option"
  on_dependsOn :: "string list option"
  on_instruction :: string
  on_context :: "OrchestrationNodeContextV1 option"
  on_output :: OrchestrationOutputContractV1
  on_policy :: "OrchestrationNodePolicyV1 option"

record OrchestrationDefinitionV1 =
  od_id :: string
  od_title :: string
  od_description :: "string option"
  od_policy :: OrchestrationPolicyV1
  od_input :: "OrchestrationInputContractV1 option"
  od_nodes :: "OrchestrationNodeV1 list"

section \<open>Normalised definitions and plans\<close>

record NormalizedOrchestrationInputContractV1 =
  nic_required :: bool
  nic_format :: OrchestrationContractFormatV1
  nic_schema :: "json option"
  nic_maxChars :: int

record NormalizedOrchestrationOutputContractV1 =
  noc_format :: OrchestrationContractFormatV1
  noc_schema :: "json option"
  noc_maxChars :: int

record NormalizedOrchestrationContextSnapshotPolicyV1 =
  nsp_strategy :: OrchestrationContextSnapshotStrategyV1
  nsp_maxTokens :: int

record NormalizedOrchestrationPolicyV1 =
  nop_maxParallel :: int
  nop_maxRunMs :: int
  nop_defaultNodeTimeoutMs :: int
  nop_defaultMaxTurns :: int
  nop_defaultMaxTokens :: int
  nop_contextSnapshot :: "NormalizedOrchestrationContextSnapshotPolicyV1 option"
  nop_allowedTools :: "string list"

record NormalizedOrchestrationNodeContextV1 =
  nnc_includeRunInput :: bool
  nnc_includeContextSnapshot :: bool
  nnc_includeNodeOutputs :: OrchestrationNodeOutputReferenceV1

record NormalizedOrchestrationNodePolicyV1 =
  nnp_timeoutMs :: int
  nnp_maxTurns :: int
  nnp_maxTokens :: int
  nnp_tools :: "string list"
  nnp_modelRole :: "OrchestrationNodeModelRoleV1 option"

record NormalizedOrchestrationNodeV1 =
  nn_id :: string
  nn_title :: "string option"
  nn_dependsOn :: "string list"
  nn_instruction :: string
  nn_context :: NormalizedOrchestrationNodeContextV1
  nn_output :: NormalizedOrchestrationOutputContractV1
  nn_policy :: NormalizedOrchestrationNodePolicyV1

record NormalizedOrchestrationDefinitionV1 =
  nd_id :: string
  nd_title :: string
  nd_description :: "string option"
  nd_policy :: NormalizedOrchestrationPolicyV1
  nd_input :: "NormalizedOrchestrationInputContractV1 option"
  nd_nodeIds :: "string list"
  nd_nodesById :: "(string, NormalizedOrchestrationNodeV1) omap"

record OrchestrationPlanV1 =
  pl_topologicalOrder :: "string list"
  pl_rootNodeIds :: "string list"
  pl_dependencies :: "(string, string list) omap"
  pl_dependents :: "(string, string list) omap"

record OrchestrationExecutableV1 =
  xe_definition :: NormalizedOrchestrationDefinitionV1
  xe_plan :: OrchestrationPlanV1
  xe_caps :: OrchestrationSystemCapsV1

section \<open>Ids and plain objects\<close>

definition isLowerLetter :: "char \<Rightarrow> bool" where
  "isLowerLetter c \<longleftrightarrow> (97::nat) \<le> of_char c \<and> of_char c \<le> (122::nat)"

text \<open>The pattern \<^verbatim>\<open>/^[a-z][a-z0-9-]{0,63}$/\<close>.\<close>

definition isOrchestrationId :: "string \<Rightarrow> bool" where
  "isOrchestrationId s = (case s of [] \<Rightarrow> False
     | c # cs \<Rightarrow> isLowerLetter c \<and> length cs \<le> 63 \<and>
         list_all (\<lambda>d. isLowerLetter d \<or> isAsciiDigit d \<or> d = CHR ''-'') cs)"

definition ORCHESTRATION_ID_RULE :: string where
  "ORCHESTRATION_ID_RULE =
     ''must start with a lowercase letter and contain only lowercase letters, numbers, and hyphens''"

fun isPlainObject :: "json \<Rightarrow> bool" where
  "isPlainObject (JObj _) = True"
| "isPlainObject _ = False"

text \<open>\<^verbatim>\<open>key in object\<close> and \<^verbatim>\<open>object[key]\<close>.\<close>

definition hasKey :: "(string \<times> json) list \<Rightarrow> string \<Rightarrow> bool" where
  "hasKey fs k = (map_of fs k \<noteq> None)"

definition fieldOf :: "(string \<times> json) list \<Rightarrow> string \<Rightarrow> json" where
  "fieldOf fs k = withDefault (map_of fs k) JUndefined"

text \<open>\<^verbatim>\<open>cloneData\<close> copies data and drops undefined fields.\<close>

fun cloneData :: "json \<Rightarrow> json" where
  "cloneData (JArr xs) = JArr (map cloneData xs)"
| "cloneData (JObj fs) = JObj (map (\<lambda>(k, v). (k, cloneData v)) (filter (\<lambda>(k, v). v \<noteq> JUndefined) fs))"
| "cloneData v = v"

end
