(* ===== verification/Orchestration_Validation.thy ===== *)
theory Orchestration_Validation
  imports Orchestration_Types
begin

text \<open>
  Validation of orchestration definitions
  (\<^verbatim>\<open>packages/core/src/orchestration/validation.ts\<close>). The source collects issues in a
  mutable array; here every check returns the issues it adds, in order, with the value it
  returns where it has one. Nothing is thrown: a definition is accepted iff no issue is added.
\<close>

section \<open>Field checks\<close>

type_synonym 'a checked = "issues \<times> 'a"

definition addIssue :: "string \<Rightarrow> OrchestrationValidationIssueCodeV1 \<Rightarrow> string \<Rightarrow> issues" where
  "addIssue path code message = [\<lparr>is_path = path, is_code = code, is_message = message\<rparr>]"

definition issueIf :: "bool \<Rightarrow> string \<Rightarrow> OrchestrationValidationIssueCodeV1 \<Rightarrow> string \<Rightarrow> issues" where
  "issueIf c path code message = (if c then addIssue path code message else [])"

definition indexed :: "string \<Rightarrow> nat \<Rightarrow> string" where
  "indexed path i = path @ ''['' @ show_nat i @ '']''"

definition quoted :: "string \<Rightarrow> string" where
  "quoted s = [CHR 0x22] @ s @ [CHR 0x22]"

definition validateObjectKeys :: "(string \<times> json) list \<Rightarrow> string \<Rightarrow> string list \<Rightarrow> issues" where
  "validateObjectKeys fs path allowed =
     concat (map (\<lambda>k. issueIf (k \<notin> set allowed) (path @ ''.'' @ k) UnknownProperty
       (''unknown property '' @ quoted k @ ''.'')) (map fst fs))"

definition validateRequiredString ::
  "(string \<times> json) list \<Rightarrow> string \<Rightarrow> string \<Rightarrow> int option \<Rightarrow> string option checked" where
  "validateRequiredString fs key path maxLength =
     (if \<not> hasKey fs key then (addIssue path MissingRequired (key @ '' is required.''), None)
      else case fieldOf fs key of
        JStr s \<Rightarrow>
          (issueIf (js_blank s) path EmptyString (key @ '' must not be empty.'') @
           (case maxLength of None \<Rightarrow> []
            | Some n \<Rightarrow> issueIf (int (js_length s) > n) path TooLarge
                (key @ '' must contain at most '' @ show_int n @ '' characters.'')), Some s)
      | _ \<Rightarrow> (addIssue path TypeMismatch (key @ '' must be a string.''), None))"

definition validateId :: "(string \<times> json) list \<Rightarrow> string \<Rightarrow> string \<Rightarrow> string option checked" where
  "validateId fs key path =
     (case validateRequiredString fs key path None of (is, v) \<Rightarrow>
        (is @ (case v of None \<Rightarrow> []
           | Some s \<Rightarrow> issueIf (\<not> isOrchestrationId s) path InvalidId (''id '' @ ORCHESTRATION_ID_RULE @ ''.'')), v))"

definition validateOptionalString :: "(string \<times> json) list \<Rightarrow> string \<Rightarrow> string \<Rightarrow> issues" where
  "validateOptionalString fs key path =
     (if \<not> hasKey fs key \<or> fieldOf fs key = JUndefined then []
      else case fieldOf fs key of JStr _ \<Rightarrow> []
        | _ \<Rightarrow> addIssue path TypeMismatch (key @ '' must be a string.''))"

definition validateRequiredBoundedInteger ::
  "(string \<times> json) list \<Rightarrow> string \<Rightarrow> string \<Rightarrow> int \<Rightarrow> int \<Rightarrow> issues" where
  "validateRequiredBoundedInteger fs key path lo hi =
     (if \<not> hasKey fs key then addIssue path MissingRequired (key @ '' is required.'')
      else case fieldOf fs key of
        JInt n \<Rightarrow>
          issueIf (n < lo) path TooSmall (key @ '' must be at least '' @ show_int lo @ ''.'') @
          issueIf (n > hi) path TooLarge (key @ '' must be at most '' @ show_int hi @ ''.'')
      | _ \<Rightarrow> addIssue path TypeMismatch (key @ '' must be an integer.''))"

text \<open>The common shape \<^verbatim>\<open>if (key in value) validateRequiredBoundedInteger(...)\<close>.\<close>

definition boundedIfPresent :: "(string \<times> json) list \<Rightarrow> string \<Rightarrow> string \<Rightarrow> int \<Rightarrow> issues" where
  "boundedIfPresent fs key path hi =
     (if hasKey fs key then validateRequiredBoundedInteger fs key (path @ ''.'' @ key) 1 hi else [])"

definition validateOptionalBoolean :: "(string \<times> json) list \<Rightarrow> string \<Rightarrow> string \<Rightarrow> bool option checked" where
  "validateOptionalBoolean fs key path =
     (if \<not> hasKey fs key \<or> fieldOf fs key = JUndefined then ([], None)
      else case fieldOf fs key of JBool b \<Rightarrow> ([], Some b)
        | _ \<Rightarrow> (addIssue path TypeMismatch (key @ '' must be a boolean.''), None))"

definition validateFormat :: "(string \<times> json) list \<Rightarrow> string \<Rightarrow> issues" where
  "validateFormat fs path =
     (if \<not> hasKey fs ''format'' then addIssue path MissingRequired ''format is required.''
      else issueIf (fieldOf fs ''format'' \<noteq> JStr ''text'' \<and> fieldOf fs ''format'' \<noteq> JStr ''json'')
             path InvalidLiteral ''format must be text or json.'')"

definition validateModelRole :: "json \<Rightarrow> string \<Rightarrow> issues" where
  "validateModelRole v path =
     issueIf (v \<noteq> JStr ''main'' \<and> v \<noteq> JStr ''light'' \<and> v \<noteq> JStr ''power'') path InvalidLiteral
       ''modelRole must be main, light, or power.''"

definition validateOptionalSchema :: "json \<Rightarrow> string \<Rightarrow> issues" where
  "validateOptionalSchema v path =
     (if v = JUndefined then []
      else case v of
        JObj fs \<Rightarrow> issueIf (fieldOf fs ''type'' \<noteq> JStr ''object'') (path @ ''.type'') InvalidLiteral ''schema.type must be object.''
      | _ \<Rightarrow> addIssue path TypeMismatch ''schema must be an object.'')"

fun validateStringArrayItems :: "string list \<Rightarrow> nat \<Rightarrow> string \<Rightarrow> json list \<Rightarrow> string list checked" where
  "validateStringArrayItems seen i path [] = ([], [])"
| "validateStringArrayItems seen i path (v # vs) =
     (case v of
        JStr s \<Rightarrow>
          if js_blank s
          then (case validateStringArrayItems seen (Suc i) path vs of (is, r) \<Rightarrow>
                  (addIssue (indexed path i) EmptyString ''array item must not be empty.'' @ is, r))
          else if s \<in> set seen
          then (case validateStringArrayItems seen (Suc i) path vs of (is, r) \<Rightarrow>
                  (addIssue (indexed path i) DuplicateValue (quoted s @ '' is duplicated.'') @ is, r))
          else (case validateStringArrayItems (s # seen) (Suc i) path vs of (is, r) \<Rightarrow> (is, s # r))
      | _ \<Rightarrow> (case validateStringArrayItems seen (Suc i) path vs of (is, r) \<Rightarrow>
                (addIssue (indexed path i) TypeMismatch ''array item must be a string.'' @ is, r)))"

definition validateOptionalStringArray :: "json \<Rightarrow> string \<Rightarrow> string list checked" where
  "validateOptionalStringArray v path =
     (if v = JUndefined then ([], [])
      else case v of JArr vs \<Rightarrow> validateStringArrayItems [] 0 path vs
        | _ \<Rightarrow> (addIssue path TypeMismatch ''value must be an array.'', []))"

definition validateToolList :: "json \<Rightarrow> string \<Rightarrow> string list \<Rightarrow> string list checked" where
  "validateToolList v path allowed =
     (case v of
        JArr vs \<Rightarrow> (case validateStringArrayItems [] 0 path vs of (is, tools) \<Rightarrow>
          (is @ concat (map (\<lambda>t. issueIf (t \<notin> set allowed) path InvalidReference
             (''tool '' @ quoted t @ '' is not allowed here.'')) tools), tools))
      | _ \<Rightarrow> (addIssue path TypeMismatch ''tools must be an array.'', []))"

definition validateNodeOutputReferences :: "json \<Rightarrow> string \<Rightarrow> string list \<Rightarrow> issues" where
  "validateNodeOutputReferences v path dependsOn =
     (if v = JUndefined \<or> v = JStr ''dependencies'' then []
      else case v of
        JArr vs \<Rightarrow> (case validateStringArrayItems [] 0 path vs of (is, refs) \<Rightarrow>
          is @ concat (map (\<lambda>r. issueIf (r \<notin> set dependsOn) path InvalidReference
             (''node output reference '' @ quoted r @ '' must be a direct dependency.'')) refs))
      | _ \<Rightarrow> addIssue path InvalidLiteral ''includeNodeOutputs must be dependencies or an array of dependency ids.'')"

section \<open>Policies and contracts\<close>

definition DEFINITION_KEYS :: "string list" where
  "DEFINITION_KEYS = [''version'', ''id'', ''title'', ''description'', ''policy'', ''input'', ''nodes'']"

definition POLICY_KEYS :: "string list" where
  "POLICY_KEYS = [''maxParallel'', ''maxRunMs'', ''defaultNodeTimeoutMs'', ''defaultMaxTurns'', ''defaultMaxTokens'',
     ''contextSnapshot'', ''allowedTools'', ''failureMode'']"

definition SNAPSHOT_POLICY_KEYS :: "string list" where
  "SNAPSHOT_POLICY_KEYS = [''strategy'', ''maxTokens'']"

definition CONTRACT_KEYS :: "string list" where
  "CONTRACT_KEYS = [''required'', ''format'', ''schema'', ''maxChars'']"

definition NODE_KEYS :: "string list" where
  "NODE_KEYS = [''id'', ''kind'', ''title'', ''dependsOn'', ''instruction'', ''context'', ''output'', ''policy'']"

definition NODE_CONTEXT_KEYS :: "string list" where
  "NODE_CONTEXT_KEYS = [''includeRunInput'', ''includeContextSnapshot'', ''includeNodeOutputs'']"

definition NODE_POLICY_KEYS :: "string list" where
  "NODE_POLICY_KEYS = [''timeoutMs'', ''maxTurns'', ''maxTokens'', ''tools'', ''modelRole'']"

record PolicyInfo =
  pi_allowedTools :: "string list"
  pi_hasContextSnapshot :: bool

record NodeRecord =
  nr_id :: string
  nr_path :: string
  nr_dependsOn :: "string list"

definition validateVersion :: "(string \<times> json) list \<Rightarrow> issues" where
  "validateVersion fs =
     (if \<not> hasKey fs ''version'' then addIssue ''$.version'' MissingRequired ''version is required.''
      else issueIf (fieldOf fs ''version'' \<noteq> JInt 1) ''$.version'' InvalidLiteral ''version must be 1.'')"

definition validateContextSnapshotPolicy :: "json \<Rightarrow> string \<Rightarrow> OrchestrationSystemCapsV1 \<Rightarrow> bool checked" where
  "validateContextSnapshotPolicy v path caps =
     (case v of
        JObj fs \<Rightarrow>
          (validateObjectKeys fs path SNAPSHOT_POLICY_KEYS @
           (if \<not> hasKey fs ''strategy''
            then addIssue (path @ ''.strategy'') MissingRequired ''contextSnapshot.strategy is required.''
            else issueIf (fieldOf fs ''strategy'' \<noteq> JStr ''full_or_fail'' \<and> fieldOf fs ''strategy'' \<noteq> JStr ''tail'')
                   (path @ ''.strategy'') InvalidLiteral ''contextSnapshot.strategy must be full_or_fail or tail.'') @
           boundedIfPresent fs ''maxTokens'' path (cap_maxContextSnapshotTokens caps), True)
      | _ \<Rightarrow> (addIssue path TypeMismatch ''contextSnapshot must be an object.'', False))"

definition validatePolicy :: "json \<Rightarrow> string \<Rightarrow> OrchestrationSystemCapsV1 \<Rightarrow> PolicyInfo checked" where
  "validatePolicy v path caps =
     (case v of
        JObj fs \<Rightarrow>
          (let bounded = (\<lambda>key hi. validateRequiredBoundedInteger fs key (path @ ''.'' @ key) 1 hi);
               (toolIssues, tools) = validateToolList (fieldOf fs ''allowedTools'') (path @ ''.allowedTools'') (cap_allowedTools caps);
               (snapIssues, snap) =
                 (if hasKey fs ''contextSnapshot''
                  then validateContextSnapshotPolicy (fieldOf fs ''contextSnapshot'') (path @ ''.contextSnapshot'') caps
                  else ([], False))
           in (validateObjectKeys fs path POLICY_KEYS @
               bounded ''maxParallel'' (cap_maxParallel caps) @ bounded ''maxRunMs'' (cap_maxRunMs caps) @
               bounded ''defaultNodeTimeoutMs'' (cap_maxNodeTimeoutMs caps) @ bounded ''defaultMaxTurns'' (cap_maxNodeTurns caps) @
               boundedIfPresent fs ''defaultMaxTokens'' path (cap_maxNodeTokens caps) @
               issueIf (hasKey fs ''failureMode'' \<and> fieldOf fs ''failureMode'' \<noteq> JStr ''fail_fast'')
                 (path @ ''.failureMode'') InvalidLiteral ''failureMode must be fail_fast when provided.'' @
               toolIssues @ snapIssues, \<lparr>pi_allowedTools = tools, pi_hasContextSnapshot = snap\<rparr>))
      | _ \<Rightarrow> (addIssue path TypeMismatch ''policy must be an object.'', \<lparr>pi_allowedTools = [], pi_hasContextSnapshot = False\<rparr>))"

definition validateInputContract :: "json \<Rightarrow> string \<Rightarrow> OrchestrationSystemCapsV1 \<Rightarrow> issues" where
  "validateInputContract v path caps =
     (case v of
        JObj fs \<Rightarrow>
          validateObjectKeys fs path CONTRACT_KEYS @
          fst (validateOptionalBoolean fs ''required'' (path @ ''.required'')) @
          validateFormat fs (path @ ''.format'') @
          boundedIfPresent fs ''maxChars'' path (cap_maxInputChars caps) @
          validateOptionalSchema (fieldOf fs ''schema'') (path @ ''.schema'')
      | _ \<Rightarrow> addIssue path TypeMismatch ''input must be an object.'')"

definition validateOutputContract :: "json \<Rightarrow> string \<Rightarrow> OrchestrationSystemCapsV1 \<Rightarrow> issues" where
  "validateOutputContract v path caps =
     (case v of
        JObj fs \<Rightarrow>
          validateObjectKeys fs path CONTRACT_KEYS @
          issueIf (fieldOf fs ''required'' \<noteq> JBool True) (path @ ''.required'') InvalidLiteral ''output.required must be true.'' @
          validateFormat fs (path @ ''.format'') @
          boundedIfPresent fs ''maxChars'' path (cap_maxOutputChars caps) @
          validateOptionalSchema (fieldOf fs ''schema'') (path @ ''.schema'')
      | _ \<Rightarrow> addIssue path TypeMismatch ''output must be an object.'')"

definition validateNodeContext :: "json \<Rightarrow> string \<Rightarrow> PolicyInfo \<Rightarrow> bool \<Rightarrow> string list \<Rightarrow> issues" where
  "validateNodeContext v path info hasInput dependsOn =
     (case v of
        JObj fs \<Rightarrow>
          (let (i1, runInput) = validateOptionalBoolean fs ''includeRunInput'' (path @ ''.includeRunInput'');
               (i2, snapshot) = validateOptionalBoolean fs ''includeContextSnapshot'' (path @ ''.includeContextSnapshot'')
           in validateObjectKeys fs path NODE_CONTEXT_KEYS @ i1 @
              issueIf (runInput = Some True \<and> \<not> hasInput) (path @ ''.includeRunInput'') MissingInputContract
                ''includeRunInput requires definition input.'' @ i2 @
              issueIf (snapshot = Some True \<and> \<not> pi_hasContextSnapshot info) (path @ ''.includeContextSnapshot'')
                MissingContextSnapshotPolicy ''includeContextSnapshot requires policy.contextSnapshot.'' @
              validateNodeOutputReferences (fieldOf fs ''includeNodeOutputs'') (path @ ''.includeNodeOutputs'') dependsOn)
      | _ \<Rightarrow> addIssue path TypeMismatch ''context must be an object.'')"

definition validateNodePolicy :: "json \<Rightarrow> string \<Rightarrow> OrchestrationSystemCapsV1 \<Rightarrow> string list \<Rightarrow> issues" where
  "validateNodePolicy v path caps allowed =
     (case v of
        JObj fs \<Rightarrow>
          validateObjectKeys fs path NODE_POLICY_KEYS @
          boundedIfPresent fs ''timeoutMs'' path (cap_maxNodeTimeoutMs caps) @
          boundedIfPresent fs ''maxTurns'' path (cap_maxNodeTurns caps) @
          boundedIfPresent fs ''maxTokens'' path (cap_maxNodeTokens caps) @
          (if hasKey fs ''tools'' then fst (validateToolList (fieldOf fs ''tools'') (path @ ''.tools'') allowed) else []) @
          (if hasKey fs ''modelRole'' then validateModelRole (fieldOf fs ''modelRole'') (path @ ''.modelRole'') else [])
      | _ \<Rightarrow> addIssue path TypeMismatch ''node policy must be an object.'')"

section \<open>Nodes\<close>

text \<open>One node: its issues, the updated set of ids and the record it contributes.\<close>

definition validateNode ::
  "OrchestrationSystemCapsV1 \<Rightarrow> PolicyInfo \<Rightarrow> bool \<Rightarrow> string list \<Rightarrow> string \<Rightarrow> json \<Rightarrow>
     issues \<times> string list \<times> NodeRecord list" where
  "validateNode caps info hasInput ids path node =
     (case node of
        JObj fs \<Rightarrow>
          (let (idIssues, nid) = validateId fs ''id'' (path @ ''.id'');
               (depIssues, deps) = validateOptionalStringArray (fieldOf fs ''dependsOn'') (path @ ''.dependsOn'')
           in (validateObjectKeys fs path NODE_KEYS @ idIssues @
               (case nid of None \<Rightarrow> []
                | Some i \<Rightarrow> issueIf (i \<in> set ids) (path @ ''.id'') DuplicateId (''node id '' @ quoted i @ '' is duplicated.'')) @
               (if fieldOf fs ''kind'' \<noteq> JStr ''agent''
                then addIssue (path @ ''.kind'') InvalidLiteral ''node.kind must be agent.''
                else issueIf (AgentKind \<notin> set (cap_allowedNodeKinds caps)) (path @ ''.kind'') InvalidLiteral
                       ''agent nodes are not enabled by system caps.'') @
               validateOptionalString fs ''title'' (path @ ''.title'') @
               fst (validateRequiredString fs ''instruction'' (path @ ''.instruction'') (Some (cap_maxInstructionChars caps))) @
               depIssues @
               (if hasKey fs ''context''
                then validateNodeContext (fieldOf fs ''context'') (path @ ''.context'') info hasInput deps else []) @
               validateOutputContract (fieldOf fs ''output'') (path @ ''.output'') caps @
               (if hasKey fs ''policy''
                then validateNodePolicy (fieldOf fs ''policy'') (path @ ''.policy'') caps (pi_allowedTools info) else []),
               (case nid of None \<Rightarrow> ids | Some i \<Rightarrow> i # ids),
               (case nid of None \<Rightarrow> [] | Some i \<Rightarrow> [\<lparr>nr_id = i, nr_path = path, nr_dependsOn = deps\<rparr>])))
      | _ \<Rightarrow> (addIssue path TypeMismatch ''node must be an object.'', ids, []))"

fun validateNodeList ::
  "OrchestrationSystemCapsV1 \<Rightarrow> PolicyInfo \<Rightarrow> bool \<Rightarrow> string \<Rightarrow> string list \<Rightarrow> nat \<Rightarrow> json list \<Rightarrow> NodeRecord list checked" where
  "validateNodeList caps info hasInput path ids i [] = ([], [])"
| "validateNodeList caps info hasInput path ids i (node # nodes) =
     (case validateNode caps info hasInput ids (indexed path i) node of (is, ids', recs) \<Rightarrow>
        (case validateNodeList caps info hasInput path ids' (Suc i) nodes of (is', recs') \<Rightarrow> (is @ is', recs @ recs')))"

definition validateNodes ::
  "json \<Rightarrow> string \<Rightarrow> OrchestrationSystemCapsV1 \<Rightarrow> PolicyInfo \<Rightarrow> bool \<Rightarrow> NodeRecord list checked" where
  "validateNodes v path caps info hasInput =
     (case v of
        JArr nodes \<Rightarrow>
          (let small = issueIf (length nodes < 1) path TooSmall ''nodes must contain at least one node.'' in
           if int (length nodes) > cap_maxNodes caps
           then (small @ addIssue path TooLarge (''nodes must contain at most '' @ show_int (cap_maxNodes caps) @ '' nodes.''), [])
           else case validateNodeList caps info hasInput path [] 0 nodes of (is, recs) \<Rightarrow> (small @ is, recs))
      | _ \<Rightarrow> (addIssue path TypeMismatch ''nodes must be an array.'', []))"

section \<open>References and cycles\<close>

record CycleState =
  cs_visiting :: "string list"
  cs_visited :: "string list"
  cs_stack :: "string list"

fun indexOf :: "string \<Rightarrow> string list \<Rightarrow> nat option" where
  "indexOf x [] = None"
| "indexOf x (y # ys) = (if x = y then Some 0 else map_option Suc (indexOf x ys))"

text \<open>
  Depth-first search. \<open>fuel\<close> bounds the depth of the recursion; \<open>None\<close> is running out of
  it, which \<^verbatim>\<open>findCycle\<close> excludes by starting with one more than the number of records.
\<close>

fun visit :: "nat \<Rightarrow> (string, string list) omap \<Rightarrow> CycleState \<Rightarrow> string \<Rightarrow> (string list \<times> CycleState) option"
  and visitAll :: "nat \<Rightarrow> (string, string list) omap \<Rightarrow> CycleState \<Rightarrow> string list \<Rightarrow> (string list \<times> CycleState) option" where
  "visit 0 deps st n = None"
| "visit (Suc fuel) deps st n =
     (if n \<in> set (cs_visited st) then Some ([], st)
      else if n \<in> set (cs_visiting st)
      then Some (case indexOf n (cs_stack st) of Some start \<Rightarrow> drop start (cs_stack st) @ [n] | None \<Rightarrow> [n, n], st)
      else case visitAll fuel deps
               (st\<lparr>cs_visiting := n # cs_visiting st, cs_stack := cs_stack st @ [n]\<rparr>) (withDefault (omap_get deps n) []) of
             None \<Rightarrow> None
           | Some (cycle, st') \<Rightarrow>
               if cycle \<noteq> [] then Some (cycle, st')
               else Some ([], st'\<lparr>cs_stack := butlast (cs_stack st'), cs_visiting := removeAll n (cs_visiting st'),
                                 cs_visited := n # cs_visited st'\<rparr>))"
| "visitAll fuel deps st [] = Some ([], st)"
| "visitAll fuel deps st (d # ds) =
     (case visit fuel deps st d of
        None \<Rightarrow> None
      | Some (cycle, st') \<Rightarrow> if cycle \<noteq> [] then Some (cycle, st') else visitAll fuel deps st' ds)"

definition dependencyMap :: "NodeRecord list \<Rightarrow> (string, string list) omap" where
  "dependencyMap records = foldl (\<lambda>m r. omap_set (nr_id r) (nr_dependsOn r) m) [] records"

definition findCycle :: "NodeRecord list \<Rightarrow> string list option" where
  "findCycle records =
     map_option fst (visitAll (Suc (length records)) (dependencyMap records)
       \<lparr>cs_visiting = [], cs_visited = [], cs_stack = []\<rparr> (map nr_id records))"

definition referenceIssue :: "NodeRecord list \<Rightarrow> NodeRecord \<Rightarrow> string \<Rightarrow> issues" where
  "referenceIssue records r d =
     (if d = nr_id r
      then addIssue (nr_path r @ ''.dependsOn'') InvalidReference (''node '' @ quoted (nr_id r) @ '' cannot depend on itself.'')
      else issueIf (d \<notin> set (map nr_id records)) (nr_path r @ ''.dependsOn'') UnknownReference
             (''dependency '' @ quoted d @ '' does not exist.''))"

definition referenceIssues :: "NodeRecord list \<Rightarrow> issues" where
  "referenceIssues records =
     concat (map (\<lambda>r. concat (map (referenceIssue records r) (nr_dependsOn r))) records)"

definition validateNodeReferences :: "NodeRecord list \<Rightarrow> issues" where
  "validateNodeReferences records =
     (let refs = referenceIssues records in
      if refs \<noteq> [] then refs
      else case withDefault (findCycle records) [] of
        [] \<Rightarrow> []
      | cycle \<Rightarrow> addIssue ''$.nodes'' CycleDependency (''nodes contain a dependency cycle: '' @ join_with '' -> '' cycle @ ''.''))"

section \<open>Definitions\<close>

definition definitionIssues :: "json \<Rightarrow> OrchestrationSystemCapsV1 \<Rightarrow> issues" where
  "definitionIssues v caps =
     (case v of
        JObj fs \<Rightarrow>
          (let (policyIssues, info) = validatePolicy (fieldOf fs ''policy'') ''$.policy'' caps;
               (nodeIssues, records) = validateNodes (fieldOf fs ''nodes'') ''$.nodes'' caps info (hasKey fs ''input'')
           in validateObjectKeys fs ''$'' DEFINITION_KEYS @ validateVersion fs @ fst (validateId fs ''id'' ''$.id'') @
              fst (validateRequiredString fs ''title'' ''$.title'' None) @
              validateOptionalString fs ''description'' ''$.description'' @
              (if hasKey fs ''input'' then validateInputContract (fieldOf fs ''input'') ''$.input'' caps else []) @
              policyIssues @ nodeIssues @ validateNodeReferences records)
      | _ \<Rightarrow> addIssue ''$'' TypeMismatch ''Definition must be an object.'')"

definition validateOrchestrationDefinitionV1 :: "json \<Rightarrow> OrchestrationSystemCapsV1 \<Rightarrow> (issues, json) result" where
  "validateOrchestrationDefinitionV1 v caps =
     (let issues = definitionIssues v caps in if issues = [] then Inr v else Inl issues)"

end
