(* ===== verification/Orchestration_Graph.thy ===== *)
theory Orchestration_Graph
  imports Orchestration_Validation
begin

text \<open>
  Correctness of the cycle search of \<^verbatim>\<open>validation.ts\<close>: it always finishes within its fuel,
  what it returns is a cycle of the dependency graph, and when it returns nothing the
  visited nodes, in the order they finished, are a topological order, so there is no cycle.
\<close>

section \<open>Walks and topological orders\<close>

definition depsOf :: "(string, string list) omap \<Rightarrow> string \<Rightarrow> string list" where
  "depsOf deps n = withDefault (omap_get deps n) []"

definition dependsOnEdge :: "(string, string list) omap \<Rightarrow> string \<Rightarrow> string \<Rightarrow> bool" where
  "dependsOnEdge deps a b \<longleftrightarrow> b \<in> set (depsOf deps a)"

fun walk :: "(string, string list) omap \<Rightarrow> string list \<Rightarrow> bool" where
  "walk deps [] = True"
| "walk deps [x] = True"
| "walk deps (x # y # zs) = (dependsOnEdge deps x y \<and> walk deps (y # zs))"

lemma walk_snoc: "walk deps (xs @ [x]) \<Longrightarrow> dependsOnEdge deps x y \<Longrightarrow> walk deps (xs @ [x, y])"
  by (induction deps xs rule: walk.induct) auto

lemma walk_drop: "walk deps xs \<Longrightarrow> walk deps (drop k xs)"
proof (induction deps xs arbitrary: k rule: walk.induct)
  case (3 deps x y zs)
  then show ?case by (cases k) auto
qed (auto simp: drop_Cons')

lemma indexOf_Some: "x \<in> set xs \<Longrightarrow> \<exists>i. indexOf x xs = Some i \<and> i < length xs \<and> xs ! i = x"
  by (induction xs) auto

text \<open>Every node comes before its dependencies.\<close>

fun finishedOrder :: "(string, string list) omap \<Rightarrow> string list \<Rightarrow> bool" where
  "finishedOrder deps [] = True"
| "finishedOrder deps (v # vs) = (v \<notin> set vs \<and> set (depsOf deps v) \<subseteq> set vs \<and> finishedOrder deps vs)"

lemma finishedOrder_edge:
  "finishedOrder deps vs \<Longrightarrow> dependsOnEdge deps x y \<Longrightarrow> x \<in> set vs \<Longrightarrow> y \<in> set vs"
  by (induction vs) (auto simp: dependsOnEdge_def)

lemma finishedOrder_closed:
  assumes "(dependsOnEdge deps)\<^sup>+\<^sup>+ a b" "finishedOrder deps vs" "a \<in> set vs"
  shows "b \<in> set vs"
  using assms by (induction rule: tranclp_induct) (auto intro: finishedOrder_edge)

lemma finishedOrder_acyclic:
  "finishedOrder deps vs \<Longrightarrow> a \<in> set vs \<Longrightarrow> \<not> (dependsOnEdge deps)\<^sup>+\<^sup>+ a a"
proof (induction vs)
  case (Cons v vs)
  show ?case
  proof (cases "a \<in> set vs")
    case True
    with Cons show ?thesis by auto
  next
    case False
    with Cons have av: "a = v" "set (depsOf deps v) \<subseteq> set vs" "finishedOrder deps vs" by auto
    show ?thesis
    proof
      assume "(dependsOnEdge deps)\<^sup>+\<^sup>+ a a"
      then obtain b where b: "dependsOnEdge deps a b" "(dependsOnEdge deps)\<^sup>*\<^sup>* b a" by (blast dest: tranclpD)
      then have "b \<in> set vs" using av by (auto simp: dependsOnEdge_def)
      then have "a \<in> set vs" using b(2) finishedOrder_closed [OF _ av(3)] by (metis rtranclpD)
      with False show False by blast
    qed
  qed
qed simp

section \<open>The search\<close>

definition searchOk :: "(string, string list) omap \<Rightarrow> CycleState \<Rightarrow> bool" where
  "searchOk deps st \<longleftrightarrow> finishedOrder deps (cs_visited st) \<and> set (cs_visiting st) = set (cs_stack st) \<and>
     set (cs_visiting st) \<inter> set (cs_visited st) = {}"

definition closedWalk :: "(string, string list) omap \<Rightarrow> string list \<Rightarrow> bool" where
  "closedWalk deps c \<longleftrightarrow> walk deps c \<and> 2 \<le> length c \<and> hd c = last c"

text \<open>A finished visit: the path is as before and the nodes asked for are visited.\<close>

definition finished :: "(string, string list) omap \<Rightarrow> CycleState \<Rightarrow> CycleState \<Rightarrow> string set \<Rightarrow> bool" where
  "finished deps st st' asked \<longleftrightarrow> searchOk deps st' \<and> cs_stack st' = cs_stack st \<and> cs_visiting st' = cs_visiting st \<and>
     set (cs_visited st) \<union> asked \<subseteq> set (cs_visited st')"

lemma back_edge_cycle:
  assumes "n \<in> set stack" "walk deps (stack @ [n])"
  shows "closedWalk deps (case indexOf n stack of Some start \<Rightarrow> drop start stack @ [n] | None \<Rightarrow> [n, n])"
proof -
  obtain i where i: "indexOf n stack = Some i" "i < length stack" "stack ! i = n" using indexOf_Some [OF assms(1)] by blast
  have "walk deps (drop i (stack @ [n]))" using assms(2) by (rule walk_drop)
  with i show ?thesis by (auto simp: closedWalk_def hd_append hd_drop_conv_nth)
qed

lemma visit_sound:
  "visit fuel deps st n = Some (c, st') \<Longrightarrow> searchOk deps st \<Longrightarrow> walk deps (cs_stack st @ [n]) \<Longrightarrow>
     (if c = [] then finished deps st st' {n} else closedWalk deps c)"
  "visitAll fuel deps st ds = Some (c, st') \<Longrightarrow> searchOk deps st \<Longrightarrow> (\<And>d. d \<in> set ds \<Longrightarrow> walk deps (cs_stack st @ [d])) \<Longrightarrow>
     (if c = [] then finished deps st st' (set ds) else closedWalk deps c)"
proof (induction fuel deps st n and fuel deps st ds arbitrary: c st' and c st' rule: visit_visitAll.induct)
  case (2 fuel deps st n)
  consider (seen) "n \<in> set (cs_visited st)" | (again) "n \<notin> set (cs_visited st)" "n \<in> set (cs_visiting st)"
    | (new) "n \<notin> set (cs_visited st)" "n \<notin> set (cs_visiting st)" by blast
  then show ?case
  proof cases
    case seen
    with 2 show ?thesis by (auto simp: finished_def)
  next
    case again
    with "2.prems" have "n \<in> set (cs_stack st)" by (auto simp: searchOk_def)
    from back_edge_cycle [OF this "2.prems"(3)] again "2.prems"(1) show ?thesis by (auto simp: closedWalk_def)
  next
    case new
    let ?st = "st\<lparr>cs_visiting := n # cs_visiting st, cs_stack := cs_stack st @ [n]\<rparr>"
    from new "2.prems"(1) obtain c2 st2 where
      all: "visitAll fuel deps ?st (withDefault (omap_get deps n) []) = Some (c2, st2)"
      and res: "if c2 \<noteq> [] then c = c2 \<and> st' = st2 else c = [] \<and> st' = st2\<lparr>cs_stack := butlast (cs_stack st2),
          cs_visiting := removeAll n (cs_visiting st2), cs_visited := n # cs_visited st2\<rparr>"
      by (auto split: option.splits if_splits)
    have ok: "searchOk deps ?st" using "2.prems"(2) new by (auto simp: searchOk_def)
    have walks: "walk deps (cs_stack ?st @ [d])" if "d \<in> set (withDefault (omap_get deps n) [])" for d
      using walk_snoc [OF "2.prems"(3), of d] that by (simp add: dependsOnEdge_def depsOf_def)
    have ih: "if c2 = [] then finished deps ?st st2 (set (withDefault (omap_get deps n) [])) else closedWalk deps c2"
      using "2.IH" [OF new all ok walks] by blast
    show ?thesis
    proof (cases "c2 = []")
      case True
      with ih have "finished deps ?st st2 (set (depsOf deps n))" by (simp add: depsOf_def)
      with True res new "2.prems"(2) show ?thesis by (auto simp: finished_def searchOk_def)
    next
      case False
      with ih res show ?thesis by (auto simp: closedWalk_def)
    qed
  qed
next
  case (4 fuel deps st d ds)
  from "4.prems"(1) obtain c1 st1 where v: "visit fuel deps st d = Some (c1, st1)"
    and res: "if c1 \<noteq> [] then c = c1 \<and> st' = st1 else visitAll fuel deps st1 ds = Some (c, st')"
    by (auto split: option.splits if_splits)
  have one: "if c1 = [] then finished deps st st1 {d} else closedWalk deps c1"
    using "4.IH"(1) [OF v "4.prems"(2)] "4.prems"(3) by simp
  show ?case
  proof (cases "c1 = []")
    case True
    with one have f: "finished deps st st1 {d}" by simp
    then have "cs_stack st1 = cs_stack st" "searchOk deps st1" by (auto simp: finished_def)
    with True res "4.IH"(2) [OF v refl, of c st'] "4.prems"(3)
    have "if c = [] then finished deps st1 st' (set ds) else closedWalk deps c" by simp
    with f show ?thesis unfolding finished_def by (auto split: if_splits)
  next
    case False
    with one res show ?thesis by (auto simp: closedWalk_def)
  qed
qed (auto simp: finished_def)

text \<open>The depth of the recursion is bounded by the nodes that are not on the path.\<close>

definition openKeys :: "(string, string list) omap \<Rightarrow> CycleState \<Rightarrow> nat" where
  "openKeys deps st = card (fst ` set deps - set (cs_visiting st))"

lemma openKeys_push:
  assumes "n \<notin> set (cs_visiting st)" "n \<in> fst ` set deps"
  shows "openKeys deps (st\<lparr>cs_visiting := n # cs_visiting st, cs_stack := cs_stack st @ [n]\<rparr>) < openKeys deps st"
  unfolding openKeys_def using assms by (intro psubset_card_mono) auto

lemma visit_finishes:
  "openKeys deps st < fuel \<Longrightarrow> searchOk deps st \<Longrightarrow> walk deps (cs_stack st @ [n]) \<Longrightarrow> visit fuel deps st n \<noteq> None"
  "openKeys deps st < fuel \<or> ds = [] \<Longrightarrow> searchOk deps st \<Longrightarrow> (\<And>d. d \<in> set ds \<Longrightarrow> walk deps (cs_stack st @ [d])) \<Longrightarrow>
     visitAll fuel deps st ds \<noteq> None"
proof (induction fuel deps st n and fuel deps st ds rule: visit_visitAll.induct)
  case (2 fuel deps st n)
  show ?case
  proof (cases "n \<in> set (cs_visited st) \<or> n \<in> set (cs_visiting st)")
    case False
    let ?st = "st\<lparr>cs_visiting := n # cs_visiting st, cs_stack := cs_stack st @ [n]\<rparr>"
    let ?ds = "withDefault (omap_get deps n) []"
    have "openKeys deps ?st < fuel \<or> ?ds = []"
    proof (cases "n \<in> fst ` set deps")
      case True
      then show ?thesis using openKeys_push [of n st deps] False "2.prems"(1) by linarith
    next
      case no: False
      then have "omap_get deps n = None" by (simp add: map_of_eq_None_iff)
      then show ?thesis by simp
    qed
    moreover have "searchOk deps ?st" using "2.prems"(2) False by (auto simp: searchOk_def)
    moreover have "walk deps (cs_stack ?st @ [d])" if "d \<in> set ?ds" for d
      using walk_snoc [OF "2.prems"(3), of d] that by (simp add: dependsOnEdge_def depsOf_def)
    ultimately have "visitAll fuel deps ?st ?ds \<noteq> None" using "2.IH" False by blast
    then show ?thesis using False by (auto split: option.splits)
  qed auto
next
  case (4 fuel deps st d ds)
  then have fuel: "openKeys deps st < fuel" by simp
  then obtain c1 st1 where v: "visit fuel deps st d = Some (c1, st1)"
    using "4.IH"(1) "4.prems" by fastforce
  show ?case
  proof (cases "c1 = []")
    case True
    have "finished deps st st1 {d}" using visit_sound(1) [OF v "4.prems"(2)] "4.prems"(3) True by simp
    then have "openKeys deps st1 < fuel" "searchOk deps st1" "cs_stack st1 = cs_stack st"
      using fuel by (auto simp: finished_def openKeys_def)
    then have "visitAll fuel deps st1 ds \<noteq> None" using "4.IH"(2) [OF v refl] True "4.prems"(3) by simp
    with v True show ?thesis by simp
  qed (use v in simp)
qed simp_all

lemma dependencyMap_keys: "fst ` set (dependencyMap records) = set (map nr_id records)"
proof -
  have "fst ` set (foldl (\<lambda>m r. omap_set (nr_id r) (nr_dependsOn r) m) m records) = fst ` set m \<union> set (map nr_id records)" for m
  proof (induction records arbitrary: m)
    case (Cons r rs)
    have "fst ` set (omap_set (nr_id r) (nr_dependsOn r) m) = insert (nr_id r) (fst ` set m)"
      by (simp add: dom_map_of_conv_image_fst [symmetric] update_conv')
    with Cons show ?case by simp
  qed simp
  then show ?thesis by (simp add: dependencyMap_def)
qed

lemma findCycle_cases:
  obtains (cycle) c where "findCycle records = Some c" "c \<noteq> []" "closedWalk (dependencyMap records) c"
  | (order) vs where "findCycle records = Some []" "finishedOrder (dependencyMap records) vs"
      "set (map nr_id records) \<subseteq> set vs"
proof -
  let ?deps = "dependencyMap records" and ?st = "\<lparr>cs_visiting = [], cs_visited = [], cs_stack = []\<rparr>"
  have "card (fst ` set ?deps) \<le> length records"
    unfolding dependencyMap_keys using card_length [of "map nr_id records"] by simp
  then have "openKeys ?deps ?st < Suc (length records)" by (simp add: openKeys_def)
  moreover have ok: "searchOk ?deps ?st" by (simp add: searchOk_def)
  moreover have walks: "walk ?deps (cs_stack ?st @ [d])" for d by simp
  ultimately have "visitAll (Suc (length records)) ?deps ?st (map nr_id records) \<noteq> None"
    using visit_finishes(2) by blast
  then obtain c st' where v: "visitAll (Suc (length records)) ?deps ?st (map nr_id records) = Some (c, st')" by auto
  have "if c = [] then finished ?deps ?st st' (set (map nr_id records)) else closedWalk ?deps c"
    using visit_sound(2) [OF v ok] walks by blast
  with v cycle order show thesis
    by (cases "c = []") (auto simp: findCycle_def finished_def searchOk_def)
qed

lemma walk_path: "walk deps xs \<Longrightarrow> 2 \<le> length xs \<Longrightarrow> (dependsOnEdge deps)\<^sup>+\<^sup>+ (hd xs) (last xs)"
proof (induction deps xs rule: walk.induct)
  case (3 deps x y zs)
  then show ?case by (cases zs) (auto intro: tranclp_into_tranclp2)
qed auto

lemma no_dependencies_outside: "omap_get (dependencyMap records) n = None \<longleftrightarrow> n \<notin> set (map nr_id records)"
  using dependencyMap_keys [of records] by (simp add: map_of_eq_None_iff)

end
