(* ===== verification/Orchestration_Planner.thy ===== *)
theory Orchestration_Planner
  imports Orchestration_Graph "HOL-Library.Monad_Syntax"
begin

text \<open>
  From a validated value to an executable plan: reading the value at its declared type (the
  cast of \<^verbatim>\<open>validation.ts\<close>), normalisation (\<^verbatim>\<open>normalizer.ts\<close>), planning (\<^verbatim>\<open>planner.ts\<close>),
  the comment stripping of the JSONC reader (\<^verbatim>\<open>jsonc.ts\<close>) and the loader (\<^verbatim>\<open>loader.ts\<close>).
\<close>

section \<open>Reading a value at its declared type\<close>

text \<open>
  \<^verbatim>\<open>value as unknown as OrchestrationDefinitionV1\<close> changes nothing at run time; the readers
  below are total on values that have the type and give \<open>None\<close> on others.
\<close>

fun asString :: "json \<Rightarrow> string option" where
  "asString (JStr s) = Some s"
| "asString _ = None"

fun asInt :: "json \<Rightarrow> int option" where
  "asInt (JInt n) = Some n"
| "asInt _ = None"

fun asBool :: "json \<Rightarrow> bool option" where
  "asBool (JBool b) = Some b"
| "asBool _ = None"

fun asObject :: "json \<Rightarrow> (string \<times> json) list option" where
  "asObject (JObj fs) = Some fs"
| "asObject _ = None"

fun asList :: "(json \<Rightarrow> 'a option) \<Rightarrow> json list \<Rightarrow> 'a list option" where
  "asList f [] = Some []"
| "asList f (v # vs) = do { x \<leftarrow> f v; xs \<leftarrow> asList f vs; Some (x # xs) }"

fun asArray :: "(json \<Rightarrow> 'a option) \<Rightarrow> json \<Rightarrow> 'a list option" where
  "asArray f (JArr vs) = asList f vs"
| "asArray f _ = None"

definition optionalField :: "(json \<Rightarrow> 'a option) \<Rightarrow> (string \<times> json) list \<Rightarrow> string \<Rightarrow> 'a option option" where
  "optionalField f fs k =
     (if fieldOf fs k = JUndefined then Some None else map_option Some (f (fieldOf fs k)))"

definition asFormat :: "json \<Rightarrow> OrchestrationContractFormatV1 option" where
  "asFormat v = (if v = JStr ''text'' then Some TextFormat else if v = JStr ''json'' then Some JsonFormat else None)"

definition asModelRole :: "json \<Rightarrow> OrchestrationNodeModelRoleV1 option" where
  "asModelRole v = (if v = JStr ''main'' then Some MainRole else if v = JStr ''light'' then Some LightRole
     else if v = JStr ''power'' then Some PowerRole else None)"

definition asStrategy :: "json \<Rightarrow> OrchestrationContextSnapshotStrategyV1 option" where
  "asStrategy v = (if v = JStr ''full_or_fail'' then Some FullOrFail else if v = JStr ''tail'' then Some Tail else None)"

definition asOutputReference :: "json \<Rightarrow> OrchestrationNodeOutputReferenceV1 option" where
  "asOutputReference v = (if v = JStr ''dependencies'' then Some Dependencies else map_option OutputIds (asArray asString v))"

definition asInput :: "json \<Rightarrow> OrchestrationInputContractV1 option" where
  "asInput v = do {
     fs \<leftarrow> asObject v; r \<leftarrow> optionalField asBool fs ''required''; f \<leftarrow> asFormat (fieldOf fs ''format'');
     m \<leftarrow> optionalField asInt fs ''maxChars'';
     Some \<lparr>ic_required = r, ic_format = f,
       ic_schema = (if fieldOf fs ''schema'' = JUndefined then None else Some (fieldOf fs ''schema'')), ic_maxChars = m\<rparr> }"

definition asOutput :: "json \<Rightarrow> OrchestrationOutputContractV1 option" where
  "asOutput v = do {
     fs \<leftarrow> asObject v; f \<leftarrow> asFormat (fieldOf fs ''format''); m \<leftarrow> optionalField asInt fs ''maxChars'';
     Some \<lparr>oc_format = f,
       oc_schema = (if fieldOf fs ''schema'' = JUndefined then None else Some (fieldOf fs ''schema'')), oc_maxChars = m\<rparr> }"

definition asSnapshotPolicy :: "json \<Rightarrow> OrchestrationContextSnapshotPolicyV1 option" where
  "asSnapshotPolicy v = do {
     fs \<leftarrow> asObject v; s \<leftarrow> asStrategy (fieldOf fs ''strategy''); m \<leftarrow> optionalField asInt fs ''maxTokens'';
     Some \<lparr>sp_strategy = s, sp_maxTokens = m\<rparr> }"

definition asPolicy :: "json \<Rightarrow> OrchestrationPolicyV1 option" where
  "asPolicy v = do {
     fs \<leftarrow> asObject v;
     p \<leftarrow> asInt (fieldOf fs ''maxParallel''); r \<leftarrow> asInt (fieldOf fs ''maxRunMs'');
     t \<leftarrow> asInt (fieldOf fs ''defaultNodeTimeoutMs''); u \<leftarrow> asInt (fieldOf fs ''defaultMaxTurns'');
     k \<leftarrow> optionalField asInt fs ''defaultMaxTokens''; s \<leftarrow> optionalField asSnapshotPolicy fs ''contextSnapshot'';
     a \<leftarrow> asArray asString (fieldOf fs ''allowedTools'');
     Some \<lparr>op_maxParallel = p, op_maxRunMs = r, op_defaultNodeTimeoutMs = t, op_defaultMaxTurns = u,
       op_defaultMaxTokens = k, op_contextSnapshot = s, op_allowedTools = a\<rparr> }"

definition asNodeContext :: "json \<Rightarrow> OrchestrationNodeContextV1 option" where
  "asNodeContext v = do {
     fs \<leftarrow> asObject v; r \<leftarrow> optionalField asBool fs ''includeRunInput''; s \<leftarrow> optionalField asBool fs ''includeContextSnapshot'';
     out \<leftarrow> optionalField asOutputReference fs ''includeNodeOutputs'';
     Some \<lparr>nc_includeRunInput = r, nc_includeContextSnapshot = s, nc_includeNodeOutputs = out\<rparr> }"

definition asNodePolicy :: "json \<Rightarrow> OrchestrationNodePolicyV1 option" where
  "asNodePolicy v = do {
     fs \<leftarrow> asObject v; t \<leftarrow> optionalField asInt fs ''timeoutMs''; u \<leftarrow> optionalField asInt fs ''maxTurns'';
     k \<leftarrow> optionalField asInt fs ''maxTokens''; l \<leftarrow> optionalField (asArray asString) fs ''tools'';
     r \<leftarrow> optionalField asModelRole fs ''modelRole'';
     Some \<lparr>np_timeoutMs = t, np_maxTurns = u, np_maxTokens = k, np_tools = l, np_modelRole = r\<rparr> }"

definition asNode :: "json \<Rightarrow> OrchestrationNodeV1 option" where
  "asNode v = do {
     fs \<leftarrow> asObject v; i \<leftarrow> asString (fieldOf fs ''id''); t \<leftarrow> optionalField asString fs ''title'';
     d \<leftarrow> optionalField (asArray asString) fs ''dependsOn''; n \<leftarrow> asString (fieldOf fs ''instruction'');
     c \<leftarrow> optionalField asNodeContext fs ''context''; out \<leftarrow> asOutput (fieldOf fs ''output'');
     p \<leftarrow> optionalField asNodePolicy fs ''policy'';
     Some \<lparr>on_id = i, on_title = t, on_dependsOn = d, on_instruction = n, on_context = c, on_output = out, on_policy = p\<rparr> }"

definition asDefinition :: "json \<Rightarrow> OrchestrationDefinitionV1 option" where
  "asDefinition v = do {
     fs \<leftarrow> asObject v; i \<leftarrow> asString (fieldOf fs ''id''); t \<leftarrow> asString (fieldOf fs ''title'');
     d \<leftarrow> optionalField asString fs ''description''; p \<leftarrow> asPolicy (fieldOf fs ''policy'');
     n \<leftarrow> optionalField asInput fs ''input''; ns \<leftarrow> asArray asNode (fieldOf fs ''nodes'');
     Some \<lparr>od_id = i, od_title = t, od_description = d, od_policy = p, od_input = n, od_nodes = ns\<rparr> }"

section \<open>Normalisation\<close>

definition normalizeNode ::
  "OrchestrationPolicyV1 \<Rightarrow> OrchestrationSystemCapsV1 \<Rightarrow> OrchestrationNodeV1 \<Rightarrow> NormalizedOrchestrationNodeV1" where
  "normalizeNode policy caps node =
     (let ctx = withDefault (on_context node)
            \<lparr>nc_includeRunInput = None, nc_includeContextSnapshot = None, nc_includeNodeOutputs = None\<rparr>;
          np = withDefault (on_policy node)
            \<lparr>np_timeoutMs = None, np_maxTurns = None, np_maxTokens = None, np_tools = None, np_modelRole = None\<rparr>
      in \<lparr>nn_id = on_id node, nn_title = on_title node, nn_dependsOn = withDefault (on_dependsOn node) [],
          nn_instruction = on_instruction node,
          nn_context = \<lparr>nnc_includeRunInput = withDefault (nc_includeRunInput ctx) False,
            nnc_includeContextSnapshot = withDefault (nc_includeContextSnapshot ctx) False,
            nnc_includeNodeOutputs = withDefault (nc_includeNodeOutputs ctx) Dependencies\<rparr>,
          nn_output = \<lparr>noc_format = oc_format (on_output node), noc_schema = map_option cloneData (oc_schema (on_output node)),
            noc_maxChars = withDefault (oc_maxChars (on_output node)) (cap_maxOutputChars caps)\<rparr>,
          nn_policy = \<lparr>nnp_timeoutMs = withDefault (np_timeoutMs np) (op_defaultNodeTimeoutMs policy),
            nnp_maxTurns = withDefault (np_maxTurns np) (op_defaultMaxTurns policy),
            nnp_maxTokens = withDefault (np_maxTokens np) (withDefault (op_defaultMaxTokens policy) (cap_maxNodeTokens caps)),
            nnp_tools = withDefault (np_tools np) [], nnp_modelRole = np_modelRole np\<rparr>\<rparr>)"

definition normalizePolicy ::
  "OrchestrationPolicyV1 \<Rightarrow> OrchestrationSystemCapsV1 \<Rightarrow> NormalizedOrchestrationPolicyV1" where
  "normalizePolicy policy caps =
     \<lparr>nop_maxParallel = op_maxParallel policy, nop_maxRunMs = op_maxRunMs policy,
      nop_defaultNodeTimeoutMs = op_defaultNodeTimeoutMs policy, nop_defaultMaxTurns = op_defaultMaxTurns policy,
      nop_defaultMaxTokens = withDefault (op_defaultMaxTokens policy) (cap_maxNodeTokens caps),
      nop_contextSnapshot = map_option (\<lambda>s. \<lparr>nsp_strategy = sp_strategy s,
        nsp_maxTokens = withDefault (sp_maxTokens s) (cap_maxContextSnapshotTokens caps)\<rparr>) (op_contextSnapshot policy),
      nop_allowedTools = op_allowedTools policy\<rparr>"

definition normalizeOrchestrationDefinitionV1 ::
  "OrchestrationDefinitionV1 \<Rightarrow> OrchestrationSystemCapsV1 \<Rightarrow> NormalizedOrchestrationDefinitionV1" where
  "normalizeOrchestrationDefinitionV1 d caps =
     \<lparr>nd_id = od_id d, nd_title = od_title d, nd_description = od_description d,
      nd_policy = normalizePolicy (od_policy d) caps,
      nd_input = map_option (\<lambda>i. \<lparr>nic_required = withDefault (ic_required i) False, nic_format = ic_format i,
        nic_schema = map_option cloneData (ic_schema i), nic_maxChars = withDefault (ic_maxChars i) (cap_maxInputChars caps)\<rparr>) (od_input d),
      nd_nodeIds = map on_id (od_nodes d),
      nd_nodesById = foldl (\<lambda>m n. omap_set (on_id n) (normalizeNode (od_policy d) caps n) m) [] (od_nodes d)\<rparr>"

section \<open>Planning\<close>

datatype PlanError = MissingNode | UnknownDependency | CyclicDependencies | NotADefinition

fun collectDependencies ::
  "(string, NormalizedOrchestrationNodeV1) omap \<Rightarrow> (string, string list) omap \<Rightarrow> string list \<Rightarrow>
     (PlanError, (string, string list) omap) result" where
  "collectDependencies nodes m [] = Inr m"
| "collectDependencies nodes m (n # ns) =
     (case omap_get nodes n of None \<Rightarrow> Inl MissingNode
      | Some node \<Rightarrow> collectDependencies nodes (omap_set n (nn_dependsOn node) m) ns)"

fun pushDependents ::
  "string \<Rightarrow> (string, string list) omap \<Rightarrow> string list \<Rightarrow> (PlanError, (string, string list) omap) result" where
  "pushDependents n m [] = Inr m"
| "pushDependents n m (d # ds) =
     (case omap_get m d of None \<Rightarrow> Inl UnknownDependency
      | Some xs \<Rightarrow> pushDependents n (omap_set d (xs @ [n]) m) ds)"

fun collectDependents ::
  "(string, string list) omap \<Rightarrow> (string, string list) omap \<Rightarrow> string list \<Rightarrow> (PlanError, (string, string list) omap) result" where
  "collectDependents deps m [] = Inr m"
| "collectDependents deps m (n # ns) =
     andThen (pushDependents n m (depsOf deps n)) (\<lambda>m'. collectDependents deps m' ns)"

text \<open>
  The planning loop. It runs while the order is shorter than the node list and every
  iteration appends one node, so the number of iterations left is the recursion argument.
\<close>

fun planLoop ::
  "(string, string list) omap \<Rightarrow> string list \<Rightarrow> nat \<Rightarrow> string list \<Rightarrow> (PlanError, string list) result" where
  "planLoop deps nodeIds 0 order = Inr order"
| "planLoop deps nodeIds (Suc left) order =
     (case List.find (\<lambda>n. n \<notin> set order \<and> set (depsOf deps n) \<subseteq> set order) nodeIds of
        None \<Rightarrow> Inl CyclicDependencies
      | Some n \<Rightarrow> planLoop deps nodeIds left (order @ [n]))"

definition planOrchestrationV1 :: "NormalizedOrchestrationDefinitionV1 \<Rightarrow> (PlanError, OrchestrationPlanV1) result" where
  "planOrchestrationV1 d =
     andThen (collectDependencies (nd_nodesById d) [] (nd_nodeIds d)) (\<lambda>deps.
       andThen (collectDependents deps (foldl (\<lambda>m n. omap_set n [] m) [] (nd_nodeIds d)) (nd_nodeIds d)) (\<lambda>dependents.
         andThen (planLoop deps (nd_nodeIds d) (length (nd_nodeIds d)) []) (\<lambda>order.
           Inr \<lparr>pl_topologicalOrder = order, pl_rootNodeIds = filter (\<lambda>n. depsOf deps n = []) (nd_nodeIds d),
                pl_dependencies = deps, pl_dependents = dependents\<rparr>)))"

section \<open>JSONC\<close>

abbreviation isLineEnd :: "char \<Rightarrow> bool" where
  "isLineEnd c \<equiv> c = CHR 0x0A \<or> c = CHR 0x0D"

fun skipLine :: "string \<Rightarrow> string \<times> string" where
  "skipLine [] = ([], [])"
| "skipLine (c # cs) =
     (if isLineEnd c then ([], c # cs) else case skipLine cs of (blank, rest) \<Rightarrow> (CHR '' '' # blank, rest))"

text \<open>
  \<open>None\<close> is the error for an unterminated block comment. A comment is blanked byte by byte
  (the source counts UTF-16 units), which only changes the amount of white space.
\<close>

fun skipBlock :: "string \<Rightarrow> (string \<times> string) option" where
  "skipBlock [] = None"
| "skipBlock [c] = None"
| "skipBlock (c # d # cs) =
     (if c = CHR ''*'' \<and> d = CHR ''/'' then Some (''  '', cs)
      else case skipBlock (d # cs) of None \<Rightarrow> None
        | Some (blank, rest) \<Rightarrow> Some ((if isLineEnd c then c else CHR '' '') # blank, rest))"

lemma skipLine_shorter: "length (snd (skipLine cs)) \<le> length cs"
  by (induction cs rule: skipLine.induct) (auto split: prod.splits)

lemma skipBlock_shorter: "skipBlock cs = Some (blank, rest) \<Longrightarrow> length rest \<le> length cs"
  by (induction cs arbitrary: blank rest rule: skipBlock.induct) (fastforce split: if_splits option.splits)+

lemma skipLine_tl: "skipLine (tl cs) = (blank, rest) \<Longrightarrow> length rest \<le> length cs"
  using skipLine_shorter [of "tl cs"] by (cases cs) (auto simp: le_SucI)

lemma skipBlock_tl: "skipBlock (tl cs) = Some (blank, rest) \<Longrightarrow> length rest \<le> length cs"
  using skipBlock_shorter [of "tl cs" blank rest] by (cases cs) auto

datatype scanMode = Outside | InString bool

function stripJsonComments :: "scanMode \<Rightarrow> string \<Rightarrow> string option" where
  "stripJsonComments mode [] = Some []"
| "stripJsonComments (InString escaped) (c # cs) =
     map_option (Cons c) (stripJsonComments
       (if escaped then InString False else if c = CHR 0x5C then InString True
        else if c = CHR 0x22 then Outside else InString False) cs)"
| "stripJsonComments Outside (c # cs) =
     (if c = CHR 0x22 then map_option (Cons c) (stripJsonComments (InString False) cs)
      else if c = CHR ''/'' \<and> take 1 cs = ''/''
      then (case skipLine (tl cs) of (blank, rest) \<Rightarrow> map_option (\<lambda>r. ''  '' @ blank @ r) (stripJsonComments Outside rest))
      else if c = CHR ''/'' \<and> take 1 cs = ''*''
      then (case skipBlock (tl cs) of None \<Rightarrow> None
            | Some (blank, rest) \<Rightarrow> map_option (\<lambda>r. ''  '' @ blank @ r) (stripJsonComments Outside rest))
      else map_option (Cons c) (stripJsonComments Outside cs))"
  by pat_completeness auto

termination
  by (relation "measure (\<lambda>(mode, s). length s)")
    (auto simp: less_Suc_eq_le dest!: skipLine_tl [OF sym] skipBlock_tl)

fun skipSpace :: "nat list \<Rightarrow> nat list" where
  "skipSpace [] = []"
| "skipSpace (a # s) =
     (if a \<in> {9, 10, 11, 12, 13, 32} then skipSpace s
      else case s of
        [] \<Rightarrow> a # s
      | b # t \<Rightarrow>
          if a = 194 \<and> b = 160 then skipSpace t
          else case t of
            [] \<Rightarrow> a # s
          | c # u \<Rightarrow>
              if (a, b, c) \<in> {(225, 154, 128), (226, 129, 159), (227, 128, 128), (239, 187, 191)} \<or>
                 (a = 226 \<and> b = 128 \<and> (128 \<le> c \<and> c \<le> 138 \<or> c \<in> {168, 169, 175}))
              then skipSpace u else a # s)"

text \<open>Whether the rest of the text, after white space, closes an object or an array.\<close>

definition closesNext :: "string \<Rightarrow> bool" where
  "closesNext cs = (case skipSpace (map of_char cs) of [] \<Rightarrow> False | n # _ \<Rightarrow> n = 125 \<or> n = 93)"

fun stripTrailingCommas :: "scanMode \<Rightarrow> string \<Rightarrow> string" where
  "stripTrailingCommas mode [] = []"
| "stripTrailingCommas (InString escaped) (c # cs) =
     c # stripTrailingCommas
       (if escaped then InString False else if c = CHR 0x5C then InString True
        else if c = CHR 0x22 then Outside else InString False) cs"
| "stripTrailingCommas Outside (c # cs) =
     (if c = CHR 0x22 then c # stripTrailingCommas (InString False) cs
      else if c = CHR '','' \<and> closesNext cs then stripTrailingCommas Outside cs
      else c # stripTrailingCommas Outside cs)"

section \<open>Loading\<close>

text \<open>\<open>jsonParse\<close> is the engine's \<^verbatim>\<open>JSON.parse\<close>; its error text is part of the parse issue.\<close>

definition parseOrchestrationDefinitionV1 ::
  "(string \<Rightarrow> (string, json) result) \<Rightarrow> string \<Rightarrow> (issues, json) result" where
  "parseOrchestrationDefinitionV1 jsonParse source =
     (let failed = (\<lambda>m. Inl (addIssue ''$'' ParseError (''Invalid orchestration JSONC: '' @ m))) in
      case stripJsonComments Outside source of
        None \<Rightarrow> failed ''Unterminated block comment.''
      | Some t \<Rightarrow> (case jsonParse (stripTrailingCommas Outside t) of Inl m \<Rightarrow> failed m | Inr v \<Rightarrow> Inr v))"

text \<open>
  The outer sum is an exception of the planner (or a value that is not of the declared type,
  which the source would only notice when using it); the inner one the loader's result.
\<close>

definition loadOrchestrationDefinitionV1 ::
  "(string \<Rightarrow> (string, json) result) \<Rightarrow> string + json \<Rightarrow> OrchestrationSystemCapsV1 \<Rightarrow>
     (PlanError, (issues, OrchestrationExecutableV1) result) result" where
  "loadOrchestrationDefinitionV1 jsonParse source caps =
     (case (case source of Inl text \<Rightarrow> parseOrchestrationDefinitionV1 jsonParse text | Inr v \<Rightarrow> Inr v) of
        Inl issues \<Rightarrow> Inr (Inl issues)
      | Inr v \<Rightarrow>
          (case validateOrchestrationDefinitionV1 v caps of
             Inl issues \<Rightarrow> Inr (Inl issues)
           | Inr value \<Rightarrow>
               (case asDefinition value of
                  None \<Rightarrow> Inl NotADefinition
                | Some d \<Rightarrow>
                    (let nd = normalizeOrchestrationDefinitionV1 d caps in
                     andThen (planOrchestrationV1 nd) (\<lambda>plan.
                       Inr (Inr \<lparr>xe_definition = nd, xe_plan = plan, xe_caps = caps\<rparr>))))))"

end
