(* ===== verification/Orchestration_Soundness.thy ===== *)
theory Orchestration_Soundness
  imports Orchestration_Planner
begin

text \<open>
  What an accepted definition is: the specification \<open>definitionOk\<close> on the typed definition,
  and the proof, check by check, that a value without issues has the declared type and
  satisfies it.
\<close>

section \<open>The specification\<close>

definition inRange :: "int \<Rightarrow> int \<Rightarrow> bool" where
  "inRange hi n \<longleftrightarrow> 1 \<le> n \<and> n \<le> hi"

definition optInRange :: "int \<Rightarrow> int option \<Rightarrow> bool" where
  "optInRange hi m = (case m of None \<Rightarrow> True | Some n \<Rightarrow> inRange hi n)"

definition policyOk :: "OrchestrationSystemCapsV1 \<Rightarrow> OrchestrationPolicyV1 \<Rightarrow> bool" where
  "policyOk caps p \<longleftrightarrow>
     inRange (cap_maxParallel caps) (op_maxParallel p) \<and> inRange (cap_maxRunMs caps) (op_maxRunMs p) \<and>
     inRange (cap_maxNodeTimeoutMs caps) (op_defaultNodeTimeoutMs p) \<and> inRange (cap_maxNodeTurns caps) (op_defaultMaxTurns p) \<and>
     optInRange (cap_maxNodeTokens caps) (op_defaultMaxTokens p) \<and>
     (case op_contextSnapshot p of None \<Rightarrow> True | Some s \<Rightarrow> optInRange (cap_maxContextSnapshotTokens caps) (sp_maxTokens s)) \<and>
     distinct (op_allowedTools p) \<and> set (op_allowedTools p) \<subseteq> set (cap_allowedTools caps)"

definition nodeDeps :: "OrchestrationNodeV1 \<Rightarrow> string list" where
  "nodeDeps n = withDefault (on_dependsOn n) []"

definition contextOk :: "bool \<Rightarrow> bool \<Rightarrow> string list \<Rightarrow> OrchestrationNodeContextV1 \<Rightarrow> bool" where
  "contextOk hasInput hasSnapshot deps c \<longleftrightarrow>
     (nc_includeRunInput c = Some True \<longrightarrow> hasInput) \<and> (nc_includeContextSnapshot c = Some True \<longrightarrow> hasSnapshot) \<and>
     (case nc_includeNodeOutputs c of Some (OutputIds ids) \<Rightarrow> distinct ids \<and> set ids \<subseteq> set deps | _ \<Rightarrow> True)"

definition nodePolicyOk :: "OrchestrationSystemCapsV1 \<Rightarrow> string list \<Rightarrow> OrchestrationNodePolicyV1 \<Rightarrow> bool" where
  "nodePolicyOk caps allowed p \<longleftrightarrow>
     optInRange (cap_maxNodeTimeoutMs caps) (np_timeoutMs p) \<and> optInRange (cap_maxNodeTurns caps) (np_maxTurns p) \<and>
     optInRange (cap_maxNodeTokens caps) (np_maxTokens p) \<and>
     (case np_tools p of None \<Rightarrow> True | Some ts \<Rightarrow> distinct ts \<and> set ts \<subseteq> set allowed)"

definition nodeOk :: "OrchestrationSystemCapsV1 \<Rightarrow> bool \<Rightarrow> bool \<Rightarrow> string list \<Rightarrow> OrchestrationNodeV1 \<Rightarrow> bool" where
  "nodeOk caps hasInput hasSnapshot allowed n \<longleftrightarrow>
     isOrchestrationId (on_id n) \<and> \<not> js_blank (on_instruction n) \<and>
     int (js_length (on_instruction n)) \<le> cap_maxInstructionChars caps \<and> distinct (nodeDeps n) \<and>
     (case on_context n of None \<Rightarrow> True | Some c \<Rightarrow> contextOk hasInput hasSnapshot (nodeDeps n) c) \<and>
     optInRange (cap_maxOutputChars caps) (oc_maxChars (on_output n)) \<and>
     (case on_policy n of None \<Rightarrow> True | Some p \<Rightarrow> nodePolicyOk caps allowed p)"

text \<open>The node with the first id depends on the second.\<close>

definition nodeEdge :: "OrchestrationNodeV1 list \<Rightarrow> string \<Rightarrow> string \<Rightarrow> bool" where
  "nodeEdge nodes a b \<longleftrightarrow> (\<exists>n \<in> set nodes. on_id n = a \<and> b \<in> set (nodeDeps n))"

text \<open>No node depends on itself, over any number of steps.\<close>

definition acyclicNodes :: "OrchestrationNodeV1 list \<Rightarrow> bool" where
  "acyclicNodes nodes \<longleftrightarrow> (\<forall>i. \<not> (nodeEdge nodes)\<^sup>+\<^sup>+ i i)"

definition definitionOk :: "OrchestrationSystemCapsV1 \<Rightarrow> OrchestrationDefinitionV1 \<Rightarrow> bool" where
  "definitionOk caps d \<longleftrightarrow>
     isOrchestrationId (od_id d) \<and> \<not> js_blank (od_title d) \<and> policyOk caps (od_policy d) \<and>
     (case od_input d of None \<Rightarrow> True | Some i \<Rightarrow> optInRange (cap_maxInputChars caps) (ic_maxChars i)) \<and>
     od_nodes d \<noteq> [] \<and> int (length (od_nodes d)) \<le> cap_maxNodes caps \<and>
     list_all (nodeOk caps (od_input d \<noteq> None) (op_contextSnapshot (od_policy d) \<noteq> None) (op_allowedTools (od_policy d))) (od_nodes d) \<and>
     distinct (map on_id (od_nodes d)) \<and>
     list_all (\<lambda>n. on_id n \<notin> set (nodeDeps n) \<and> set (nodeDeps n) \<subseteq> set (map on_id (od_nodes d))) (od_nodes d) \<and>
     acyclicNodes (od_nodes d)"

section \<open>Field checks\<close>

lemma issueIf_Nil [simp]: "issueIf c path code msg = [] \<longleftrightarrow> \<not> c"
  by (simp add: issueIf_def addIssue_def)

lemma addIssue_not_Nil [simp]: "addIssue path code msg \<noteq> []"
  by (simp add: addIssue_def)

lemma fieldOf_absent: "\<not> hasKey fs k \<Longrightarrow> fieldOf fs k = JUndefined"
  by (simp add: hasKey_def fieldOf_def)

lemma requiredString_ok:
  "validateRequiredString fs key path m = ([], v) \<Longrightarrow> \<exists>s. v = Some s \<and> asString (fieldOf fs key) = Some s \<and>
     \<not> js_blank s \<and> (case m of None \<Rightarrow> True | Some n \<Rightarrow> int (js_length s) \<le> n)"
  by (auto simp: validateRequiredString_def split: if_splits json.splits option.splits)

lemma validateId_ok:
  "validateId fs key path = ([], v) \<Longrightarrow> \<exists>s. v = Some s \<and> asString (fieldOf fs key) = Some s \<and> isOrchestrationId s"
  by (auto simp: validateId_def split: prod.splits option.splits dest!: requiredString_ok)

lemma optionalString_ok: "validateOptionalString fs key path = [] \<Longrightarrow> \<exists>m. optionalField asString fs key = Some m"
  by (auto simp: validateOptionalString_def optionalField_def fieldOf_absent split: if_splits json.splits)

lemma requiredBounded_ok:
  "validateRequiredBoundedInteger fs key path 1 hi = [] \<Longrightarrow> \<exists>n. asInt (fieldOf fs key) = Some n \<and> inRange hi n"
  by (auto simp: validateRequiredBoundedInteger_def inRange_def split: if_splits json.splits)

lemma boundedIfPresent_ok:
  "boundedIfPresent fs key path hi = [] \<Longrightarrow> \<exists>m. optionalField asInt fs key = Some m \<and> optInRange hi m"
proof (cases "hasKey fs key")
  case True
  assume "boundedIfPresent fs key path hi = []"
  with True obtain n where n: "asInt (fieldOf fs key) = Some n" "inRange hi n"
    by (auto simp: boundedIfPresent_def dest: requiredBounded_ok)
  then have "fieldOf fs key \<noteq> JUndefined" by auto
  with n show ?thesis by (simp add: optionalField_def optInRange_def)
next
  case False
  then show ?thesis by (simp add: optionalField_def optInRange_def fieldOf_absent)
qed

lemma optionalBoolean_ok: "validateOptionalBoolean fs key path = ([], m) \<Longrightarrow> optionalField asBool fs key = Some m"
  by (auto simp: validateOptionalBoolean_def optionalField_def fieldOf_absent split: if_splits json.splits)

lemma format_ok: "validateFormat fs path = [] \<Longrightarrow> \<exists>f. asFormat (fieldOf fs ''format'') = Some f"
  by (auto simp: validateFormat_def asFormat_def split: if_splits)

lemma modelRole_ok: "validateModelRole v path = [] \<Longrightarrow> \<exists>r. asModelRole v = Some r"
  by (auto simp: validateModelRole_def asModelRole_def)

lemma items_ok:
  "validateStringArrayItems seen i path vs = ([], r) \<Longrightarrow>
     asList asString vs = Some r \<and> distinct r \<and> set r \<inter> set seen = {}"
proof (induction vs arbitrary: seen i r)
  case (Cons v vs)
  show ?case
  proof (cases v)
    case (JStr s)
    with Cons.prems have s: "\<not> js_blank s" "s \<notin> set seen" by (auto split: if_splits prod.splits)
    obtain iss r' where rest: "validateStringArrayItems (s # seen) (Suc i) path vs = (iss, r')" by fastforce
    with Cons.prems JStr s have "iss = []" "r = s # r'" by auto
    moreover from this rest have "asList asString vs = Some r' \<and> distinct r' \<and> set r' \<inter> set (s # seen) = {}"
      using Cons.IH by blast
    ultimately show ?thesis using JStr s by auto
  qed (use Cons.prems in \<open>auto split: prod.splits\<close>)
qed auto

lemma optionalStringArray_ok:
  "validateOptionalStringArray (fieldOf fs key) path = ([], r) \<Longrightarrow>
     \<exists>m. optionalField (asArray asString) fs key = Some m \<and> withDefault m [] = r \<and> distinct r"
  by (auto simp: validateOptionalStringArray_def optionalField_def split: if_splits json.splits dest!: items_ok)

lemma toolList_ok:
  "validateToolList v path allowed = ([], r) \<Longrightarrow> asArray asString v = Some r \<and> distinct r \<and> set r \<subseteq> set allowed"
  by (auto simp: validateToolList_def split: json.splits prod.splits dest!: items_ok)

lemma outputReferences_ok:
  "validateNodeOutputReferences (fieldOf fs key) path deps = [] \<Longrightarrow>
     \<exists>m. optionalField asOutputReference fs key = Some m \<and>
       (case m of Some (OutputIds ids) \<Rightarrow> distinct ids \<and> set ids \<subseteq> set deps | _ \<Rightarrow> True)"
  by (auto simp: validateNodeOutputReferences_def optionalField_def asOutputReference_def
      split: if_splits json.splits prod.splits dest!: items_ok)

section \<open>Policies, contracts and nodes\<close>

lemma snapshotPolicy_ok:
  "validateContextSnapshotPolicy v path caps = ([], b) \<Longrightarrow>
     b \<and> (\<exists>s. asSnapshotPolicy v = Some s \<and> optInRange (cap_maxContextSnapshotTokens caps) (sp_maxTokens s))"
  by (auto simp: validateContextSnapshotPolicy_def asSnapshotPolicy_def asStrategy_def
      split: json.splits if_splits dest!: boundedIfPresent_ok)

lemma snapshotField_ok:
  assumes "(if hasKey fs ''contextSnapshot''
      then validateContextSnapshotPolicy (fieldOf fs ''contextSnapshot'') path caps else ([], False)) = ([], b)"
  shows "\<exists>m. optionalField asSnapshotPolicy fs ''contextSnapshot'' = Some m \<and> b = (m \<noteq> None) \<and>
    (case m of None \<Rightarrow> True | Some s \<Rightarrow> optInRange (cap_maxContextSnapshotTokens caps) (sp_maxTokens s))"
proof (cases "hasKey fs ''contextSnapshot''")
  case True
  with assms obtain s where s: "b" "asSnapshotPolicy (fieldOf fs ''contextSnapshot'') = Some s"
    "optInRange (cap_maxContextSnapshotTokens caps) (sp_maxTokens s)" by (auto dest: snapshotPolicy_ok)
  then have "fieldOf fs ''contextSnapshot'' \<noteq> JUndefined" by (auto simp: asSnapshotPolicy_def)
  with s show ?thesis by (simp add: optionalField_def)
next
  case False
  with assms show ?thesis by (simp add: optionalField_def fieldOf_absent)
qed

lemma policy_ok:
  assumes "validatePolicy v path caps = ([], info)"
  shows "\<exists>p. asPolicy v = Some p \<and> policyOk caps p \<and> pi_allowedTools info = op_allowedTools p \<and>
    pi_hasContextSnapshot info = (op_contextSnapshot p \<noteq> None)"
proof -
  from assms obtain fs where v: "v = JObj fs" by (cases v) (auto simp: validatePolicy_def)
  obtain ti tools where t: "validateToolList (fieldOf fs ''allowedTools'') (path @ ''.allowedTools'') (cap_allowedTools caps) = (ti, tools)"
    by fastforce
  obtain si b where s: "(if hasKey fs ''contextSnapshot''
      then validateContextSnapshotPolicy (fieldOf fs ''contextSnapshot'') (path @ ''.contextSnapshot'') caps else ([], False)) = (si, b)"
    by fastforce
  note a = assms [unfolded validatePolicy_def v json.case t s Let_def prod.case]
  from a have "ti = []" "si = []" and info: "info = \<lparr>pi_allowedTools = tools, pi_hasContextSnapshot = b\<rparr>" by auto
  with t s have tools: "asArray asString (fieldOf fs ''allowedTools'') = Some tools" "distinct tools" "set tools \<subseteq> set (cap_allowedTools caps)"
    by (auto dest: toolList_ok)
  obtain m where m: "optionalField asSnapshotPolicy fs ''contextSnapshot'' = Some m" "b = (m \<noteq> None)"
    "case m of None \<Rightarrow> True | Some s \<Rightarrow> optInRange (cap_maxContextSnapshotTokens caps) (sp_maxTokens s)"
    using snapshotField_ok s \<open>si = []\<close> by blast
  from a obtain p r u w where "asInt (fieldOf fs ''maxParallel'') = Some p" "inRange (cap_maxParallel caps) p"
    "asInt (fieldOf fs ''maxRunMs'') = Some r" "inRange (cap_maxRunMs caps) r"
    "asInt (fieldOf fs ''defaultNodeTimeoutMs'') = Some u" "inRange (cap_maxNodeTimeoutMs caps) u"
    "asInt (fieldOf fs ''defaultMaxTurns'') = Some w" "inRange (cap_maxNodeTurns caps) w"
    by (auto dest!: requiredBounded_ok)
  moreover from a obtain k where "optionalField asInt fs ''defaultMaxTokens'' = Some k" "optInRange (cap_maxNodeTokens caps) k"
    by (auto dest!: boundedIfPresent_ok)
  ultimately show ?thesis using tools m info by (simp add: asPolicy_def v policyOk_def)
qed

lemma input_ok:
  assumes "validateInputContract v path caps = []"
  shows "\<exists>i. asInput v = Some i \<and> optInRange (cap_maxInputChars caps) (ic_maxChars i)"
proof -
  from assms obtain fs where v: "v = JObj fs" by (cases v) (auto simp: validateInputContract_def)
  note a = assms [unfolded validateInputContract_def v json.case]
  from a obtain r where "validateOptionalBoolean fs ''required'' (path @ ''.required'') = ([], r)" by (metis append_is_Nil_conv prod.collapse)
  then have "optionalField asBool fs ''required'' = Some r" by (rule optionalBoolean_ok)
  with a v show ?thesis by (auto simp: asInput_def dest!: boundedIfPresent_ok format_ok)
qed

lemma output_ok:
  "validateOutputContract v path caps = [] \<Longrightarrow>
     \<exists>c. asOutput v = Some c \<and> optInRange (cap_maxOutputChars caps) (oc_maxChars c)"
  by (cases v) (auto simp: validateOutputContract_def asOutput_def dest!: boundedIfPresent_ok format_ok)

lemma context_ok:
  assumes "validateNodeContext v path info hasInput deps = []"
  shows "\<exists>c. asNodeContext v = Some c \<and> contextOk hasInput (pi_hasContextSnapshot info) deps c"
proof -
  from assms obtain fs where v: "v = JObj fs" by (cases v) (auto simp: validateNodeContext_def)
  obtain i1 r where r: "validateOptionalBoolean fs ''includeRunInput'' (path @ ''.includeRunInput'') = (i1, r)" by fastforce
  obtain i2 s where s: "validateOptionalBoolean fs ''includeContextSnapshot'' (path @ ''.includeContextSnapshot'') = (i2, s)" by fastforce
  note a = assms [unfolded validateNodeContext_def v json.case r s Let_def prod.case]
  from a have "i1 = []" "i2 = []" by auto
  with r s have rs: "optionalField asBool fs ''includeRunInput'' = Some r" "optionalField asBool fs ''includeContextSnapshot'' = Some s"
    by (auto intro: optionalBoolean_ok)
  from a have "validateNodeOutputReferences (fieldOf fs ''includeNodeOutputs'') (path @ ''.includeNodeOutputs'') deps = []" by simp
  from outputReferences_ok [OF this] obtain m where
    "optionalField asOutputReference fs ''includeNodeOutputs'' = Some m"
    "case m of Some (OutputIds ids) \<Rightarrow> distinct ids \<and> set ids \<subseteq> set deps | _ \<Rightarrow> True" by blast
  with a rs show ?thesis by (simp add: asNodeContext_def v contextOk_def)
qed

lemma presentField_ok:
  assumes "if hasKey fs k then Q (fieldOf fs k) else True" "\<And>v. Q v \<Longrightarrow> \<exists>x. f v = Some x \<and> R x" "f JUndefined = None"
  shows "\<exists>m. optionalField f fs k = Some m \<and> (case m of None \<Rightarrow> True | Some x \<Rightarrow> R x) \<and> (m \<noteq> None) = hasKey fs k"
proof (cases "hasKey fs k")
  case True
  with assms(1,2) obtain x where x: "f (fieldOf fs k) = Some x" "R x" by auto
  with assms(3) have "fieldOf fs k \<noteq> JUndefined" by auto
  with x True show ?thesis by (simp add: optionalField_def)
next
  case False
  then show ?thesis by (simp add: optionalField_def fieldOf_absent)
qed

lemma toolList_fst:
  "fst (validateToolList v path allowed) = [] \<Longrightarrow> \<exists>r. asArray asString v = Some r \<and> distinct r \<and> set r \<subseteq> set allowed"
  by (metis prod.collapse toolList_ok)

lemma nodePolicy_ok:
  assumes "validateNodePolicy v path caps allowed = []"
  shows "\<exists>p. asNodePolicy v = Some p \<and> nodePolicyOk caps allowed p"
proof -
  from assms obtain fs where v: "v = JObj fs" by (cases v) (auto simp: validateNodePolicy_def)
  note a = assms [unfolded validateNodePolicy_def v json.case]
  from a obtain t u k where "optionalField asInt fs ''timeoutMs'' = Some t" "optInRange (cap_maxNodeTimeoutMs caps) t"
    "optionalField asInt fs ''maxTurns'' = Some u" "optInRange (cap_maxNodeTurns caps) u"
    "optionalField asInt fs ''maxTokens'' = Some k" "optInRange (cap_maxNodeTokens caps) k"
    by (auto dest!: boundedIfPresent_ok)
  moreover have "\<exists>m. optionalField (asArray asString) fs ''tools'' = Some m \<and>
      (case m of None \<Rightarrow> True | Some ts \<Rightarrow> distinct ts \<and> set ts \<subseteq> set allowed) \<and> (m \<noteq> None) = hasKey fs ''tools''"
    by (rule presentField_ok [where Q = "\<lambda>v. fst (validateToolList v (path @ ''.tools'') allowed) = []"])
      (use a toolList_fst in \<open>auto split: if_splits\<close>)
  moreover have "\<exists>m. optionalField asModelRole fs ''modelRole'' = Some m \<and>
      (case m of None \<Rightarrow> True | Some r \<Rightarrow> True) \<and> (m \<noteq> None) = hasKey fs ''modelRole''"
    by (rule presentField_ok [where Q = "\<lambda>v. validateModelRole v (path @ ''.modelRole'') = []"])
      (use a in \<open>auto split: if_splits dest: modelRole_ok simp: asModelRole_def\<close>)
  ultimately show ?thesis by (auto simp: asNodePolicy_def v nodePolicyOk_def)
qed

lemma requiredString_fst:
  "fst (validateRequiredString fs key path m) = [] \<Longrightarrow> \<exists>s. asString (fieldOf fs key) = Some s \<and>
     \<not> js_blank s \<and> (case m of None \<Rightarrow> True | Some n \<Rightarrow> int (js_length s) \<le> n)"
  by (metis prod.collapse requiredString_ok)

lemma node_ok:
  assumes "validateNode caps info hasInput ids path node = ([], ids', recs)"
  shows "\<exists>n. asNode node = Some n \<and> nodeOk caps hasInput (pi_hasContextSnapshot info) (pi_allowedTools info) n \<and>
    on_id n \<notin> set ids \<and> ids' = on_id n # ids \<and> recs = [\<lparr>nr_id = on_id n, nr_path = path, nr_dependsOn = nodeDeps n\<rparr>]"
proof -
  from assms obtain fs where v: "node = JObj fs" by (cases node) (auto simp: validateNode_def)
  obtain ii nid where i: "validateId fs ''id'' (path @ ''.id'') = (ii, nid)" by fastforce
  obtain di deps where d: "validateOptionalStringArray (fieldOf fs ''dependsOn'') (path @ ''.dependsOn'') = (di, deps)" by fastforce
  note a = assms [unfolded validateNode_def v json.case i d Let_def prod.case]
  from a have "ii = []" "di = []" by auto
  with i d obtain x m where x: "nid = Some x" "asString (fieldOf fs ''id'') = Some x" "isOrchestrationId x"
    and m: "optionalField (asArray asString) fs ''dependsOn'' = Some m" "withDefault m [] = deps" "distinct deps"
    by (auto dest!: validateId_ok optionalStringArray_ok)
  obtain t where t: "optionalField asString fs ''title'' = Some t" using a by (auto dest: optionalString_ok)
  obtain n where n: "asString (fieldOf fs ''instruction'') = Some n" "\<not> js_blank n" "int (js_length n) \<le> cap_maxInstructionChars caps"
    using a requiredString_fst [of fs "''instruction''" "path @ ''.instruction''" "Some (cap_maxInstructionChars caps)"] by auto
  have "\<exists>m. optionalField asNodeContext fs ''context'' = Some m \<and>
      (case m of None \<Rightarrow> True | Some c \<Rightarrow> contextOk hasInput (pi_hasContextSnapshot info) deps c) \<and> (m \<noteq> None) = hasKey fs ''context''"
    by (rule presentField_ok [where Q = "\<lambda>v. validateNodeContext v (path @ ''.context'') info hasInput deps = []"])
      (use a in \<open>auto split: if_splits dest: context_ok simp: asNodeContext_def\<close>)
  then obtain c where c: "optionalField asNodeContext fs ''context'' = Some c"
    "case c of None \<Rightarrow> True | Some y \<Rightarrow> contextOk hasInput (pi_hasContextSnapshot info) deps y" by blast
  have "\<exists>m. optionalField asNodePolicy fs ''policy'' = Some m \<and>
      (case m of None \<Rightarrow> True | Some p \<Rightarrow> nodePolicyOk caps (pi_allowedTools info) p) \<and> (m \<noteq> None) = hasKey fs ''policy''"
    by (rule presentField_ok [where Q = "\<lambda>v. validateNodePolicy v (path @ ''.policy'') caps (pi_allowedTools info) = []"])
      (use a in \<open>auto split: if_splits dest: nodePolicy_ok simp: asNodePolicy_def\<close>)
  then obtain p where p: "optionalField asNodePolicy fs ''policy'' = Some p"
    "case p of None \<Rightarrow> True | Some y \<Rightarrow> nodePolicyOk caps (pi_allowedTools info) y" by blast
  from a obtain out where out: "asOutput (fieldOf fs ''output'') = Some out" "optInRange (cap_maxOutputChars caps) (oc_maxChars out)"
    by (auto dest: output_ok)
  show ?thesis
    using a x m t n c p out by (auto simp: asNode_def v nodeOk_def nodeDeps_def split: option.splits)
qed

lemma nodeList_ok:
  assumes "validateNodeList caps info hasInput path ids i nodes = ([], recs)"
  shows "\<exists>ns. asList asNode nodes = Some ns \<and> length ns = length nodes \<and>
    list_all (nodeOk caps hasInput (pi_hasContextSnapshot info) (pi_allowedTools info)) ns \<and>
    distinct (map on_id ns) \<and> set (map on_id ns) \<inter> set ids = {} \<and>
    map (\<lambda>r. (nr_id r, nr_dependsOn r)) recs = map (\<lambda>n. (on_id n, nodeDeps n)) ns"
  using assms
proof (induction nodes arbitrary: ids i recs)
  case (Cons node nodes)
  obtain i1 ids1 r1 where n1: "validateNode caps info hasInput ids (indexed path i) node = (i1, ids1, r1)" by (metis prod_cases3)
  obtain i2 r2 where n2: "validateNodeList caps info hasInput path ids1 (Suc i) nodes = (i2, r2)" by fastforce
  from Cons.prems n1 n2 have e: "i1 = []" "i2 = []" "recs = r1 @ r2" by auto
  from node_ok n1 e(1) obtain n where n: "asNode node = Some n"
    "nodeOk caps hasInput (pi_hasContextSnapshot info) (pi_allowedTools info) n" "on_id n \<notin> set ids" "ids1 = on_id n # ids"
    "r1 = [\<lparr>nr_id = on_id n, nr_path = indexed path i, nr_dependsOn = nodeDeps n\<rparr>]" by blast
  from Cons.IH n2 e(2) obtain ns where ns: "asList asNode nodes = Some ns" "length ns = length nodes"
    "list_all (nodeOk caps hasInput (pi_hasContextSnapshot info) (pi_allowedTools info)) ns"
    "distinct (map on_id ns)" "set (map on_id ns) \<inter> set ids1 = {}"
    "map (\<lambda>r. (nr_id r, nr_dependsOn r)) r2 = map (\<lambda>n. (on_id n, nodeDeps n)) ns" by blast
  show ?case by (rule exI [of _ "n # ns"]) (use n ns e in auto)
qed simp

lemma references_ok:
  assumes "referenceIssues records = []" "r \<in> set records"
  shows "nr_id r \<notin> set (nr_dependsOn r) \<and> set (nr_dependsOn r) \<subseteq> set (map nr_id records)"
proof -
  have "d \<noteq> nr_id r \<and> d \<in> set (map nr_id records)" if "d \<in> set (nr_dependsOn r)" for d
  proof -
    have "referenceIssue records r d = []" using assms that by (auto simp: referenceIssues_def)
    then show ?thesis by (auto simp: referenceIssue_def split: if_splits)
  qed
  then show ?thesis by blast
qed

lemma noReferenceIssues:
  assumes "validateNodeReferences records = []"
  obtains vs where "referenceIssues records = []" "finishedOrder (dependencyMap records) vs" "set (map nr_id records) \<subseteq> set vs"
proof (cases rule: findCycle_cases [of records])
  case (cycle c)
  with assms show ?thesis by (cases c) (auto simp: validateNodeReferences_def Let_def split: if_splits)
next
  case (order vs)
  with assms that show ?thesis by (auto simp: validateNodeReferences_def Let_def split: if_splits)
qed

end
