(* ===== verification/Orchestration_Plans.thy ===== *)
theory Orchestration_Plans
  imports Orchestration_Soundness
begin

text \<open>
  Planning succeeds on every accepted definition, and the plan is right: the order is a
  permutation of the nodes with dependencies first, dependents are the inverse of
  dependencies, and the roots are the nodes without dependencies.
\<close>

section \<open>Dependency maps\<close>

lemma collectDependencies_ok:
  assumes "\<forall>n \<in> set ns. omap_get nodes n \<noteq> None"
  shows "\<exists>m'. collectDependencies nodes m ns = Inr m' \<and>
    (\<forall>k. omap_get m' k = (if k \<in> set ns then map_option nn_dependsOn (omap_get nodes k) else omap_get m k))"
  using assms
proof (induction ns arbitrary: m)
  case (Cons n ns)
  then obtain x where x: "omap_get nodes n = Some x" by fastforce
  from Cons.IH [of "omap_set n (nn_dependsOn x) m"] Cons.prems obtain m' where
    m': "collectDependencies nodes (omap_set n (nn_dependsOn x) m) ns = Inr m'"
    "\<And>k. omap_get m' k = (if k \<in> set ns then map_option nn_dependsOn (omap_get nodes k) else omap_get (omap_set n (nn_dependsOn x) m) k)"
    by auto
  then show ?case using x by (auto simp: omap_simps)
qed simp

lemma pushDependents_ok:
  assumes "distinct ds" "\<forall>d \<in> set ds. omap_get m d \<noteq> None"
  shows "\<exists>m'. pushDependents n m ds = Inr m' \<and>
    (\<forall>k. omap_get m' k = map_option (\<lambda>xs. xs @ (if k \<in> set ds then [n] else [])) (omap_get m k))"
  using assms
proof (induction ds arbitrary: m)
  case (Cons d ds)
  then obtain xs where xs: "omap_get m d = Some xs" by fastforce
  obtain m' where m': "pushDependents n (omap_set d (xs @ [n]) m) ds = Inr m'"
    "\<And>k. omap_get m' k = map_option (\<lambda>xs. xs @ (if k \<in> set ds then [n] else [])) (omap_get (omap_set d (xs @ [n]) m) k)"
  proof -
    have "\<forall>e \<in> set ds. omap_get (omap_set d (xs @ [n]) m) e \<noteq> None" using Cons.prems(2) by (simp add: omap_simps)
    then show thesis using Cons.IH [of "omap_set d (xs @ [n]) m"] Cons.prems(1) that by auto
  qed
  then show ?case using xs Cons.prems(1) by (auto simp: omap_simps)
qed (simp add: option.map_ident)

lemma collectDependents_ok:
  assumes "\<forall>n \<in> set ns. distinct (depsOf deps n) \<and> (\<forall>d \<in> set (depsOf deps n). omap_get m d \<noteq> None)"
  shows "\<exists>m'. collectDependents deps m ns = Inr m' \<and>
    (\<forall>k. omap_get m' k = map_option (\<lambda>xs. xs @ filter (\<lambda>n. k \<in> set (depsOf deps n)) ns) (omap_get m k))"
  using assms
proof (induction ns arbitrary: m)
  case (Cons n ns)
  obtain m1 where m1: "pushDependents n m (depsOf deps n) = Inr m1"
    "\<And>k. omap_get m1 k = map_option (\<lambda>xs. xs @ (if k \<in> set (depsOf deps n) then [n] else [])) (omap_get m k)"
    using pushDependents_ok [of "depsOf deps n" m n] Cons.prems by auto
  obtain m2 where "collectDependents deps m1 ns = Inr m2"
    "\<And>k. omap_get m2 k = map_option (\<lambda>xs. xs @ filter (\<lambda>n. k \<in> set (depsOf deps n)) ns) (omap_get m1 k)"
    using Cons.IH [of m1] Cons.prems m1(2) by auto
  with m1 show ?case by (auto simp: option.map_comp comp_def)
qed (simp add: option.map_ident)

section \<open>The order\<close>

definition ordered :: "(string, string list) omap \<Rightarrow> string list \<Rightarrow> bool" where
  "ordered deps order \<longleftrightarrow> (\<forall>xs n ys. order = xs @ n # ys \<longrightarrow> set (depsOf deps n) \<subseteq> set xs)"

lemma ordered_snoc: "ordered deps xs \<Longrightarrow> set (depsOf deps n) \<subseteq> set xs \<Longrightarrow> ordered deps (xs @ [n])"
  unfolding ordered_def by (auto simp: append_eq_append_conv2 append_eq_Cons_conv Cons_eq_append_conv)

lemma ready_exists:
  assumes "finishedOrder deps vs" "\<And>n. n \<in> N \<Longrightarrow> set (depsOf deps n) \<subseteq> N" "x \<in> set vs" "x \<in> N" "x \<notin> C"
  shows "\<exists>n \<in> N. n \<notin> C \<and> set (depsOf deps n) \<subseteq> C"
  using assms
proof (induction vs arbitrary: x)
  case (Cons v vs)
  show ?case
  proof (cases "\<exists>y \<in> set vs. y \<in> N \<and> y \<notin> C")
    case True
    with Cons show ?thesis by auto
  next
    case False
    with Cons.prems have "x = v" "set (depsOf deps v) \<subseteq> C" by auto
    with Cons.prems show ?thesis by auto
  qed
qed simp

lemma planLoop_ok:
  assumes "finishedOrder deps vs" "set nodeIds \<subseteq> set vs" "distinct nodeIds"
    and "\<And>n. n \<in> set nodeIds \<Longrightarrow> set (depsOf deps n) \<subseteq> set nodeIds"
    and "distinct order" "set order \<subseteq> set nodeIds" "ordered deps order" "left + length order = length nodeIds"
  shows "\<exists>r. planLoop deps nodeIds left order = Inr r \<and> distinct r \<and> set r = set nodeIds \<and> ordered deps r"
  using assms(5-)
proof (induction left arbitrary: order)
  case 0
  then have "card (set order) = card (set nodeIds)" using assms(3) by (simp add: distinct_card)
  then have "set order = set nodeIds" using 0 by (simp add: card_subset_eq)
  with 0 show ?case by simp
next
  case (Suc left)
  have "card (set order) < card (set nodeIds)" using Suc.prems assms(3) by (simp add: distinct_card)
  then obtain x where "x \<in> set nodeIds" "x \<notin> set order" by (metis Suc.prems(2) less_irrefl subset_antisym subsetI)
  then obtain n where "n \<in> set nodeIds" "n \<notin> set order" "set (depsOf deps n) \<subseteq> set order"
    using ready_exists [OF assms(1,4), of x] assms(2) by blast
  then obtain m where f: "List.find (\<lambda>n. n \<notin> set order \<and> set (depsOf deps n) \<subseteq> set order) nodeIds = Some m"
    by (cases "List.find (\<lambda>n. n \<notin> set order \<and> set (depsOf deps n) \<subseteq> set order) nodeIds") (auto simp: find_None_iff_all)
  then have m: "m \<in> set nodeIds" "m \<notin> set order" "set (depsOf deps m) \<subseteq> set order" by (auto dest: find_Some_mem)
  show ?case using Suc.IH [of "order @ [m]"] Suc.prems m f by (auto intro: ordered_snoc)
qed

section \<open>Planning an accepted definition\<close>

definition wellScheduled :: "OrchestrationNodeV1 list \<Rightarrow> (string, string list) omap \<Rightarrow> string list \<Rightarrow> bool" where
  "wellScheduled nodes deps vs \<longleftrightarrow> distinct (map on_id nodes) \<and> finishedOrder deps vs \<and> set (map on_id nodes) \<subseteq> set vs \<and>
     (\<forall>k. depsOf deps k = withDefault (map_of (map (\<lambda>n. (on_id n, nodeDeps n)) nodes) k) []) \<and>
     (\<forall>n \<in> set nodes. distinct (nodeDeps n) \<and> set (nodeDeps n) \<subseteq> set (map on_id nodes))"

lemma finishedOrder_cong: "(\<And>k. depsOf a k = depsOf b k) \<Longrightarrow> finishedOrder a vs = finishedOrder b vs"
  by (induction vs) auto

lemma foldl_set_get:
  "omap_get (foldl (\<lambda>m n. omap_set (f n) (g n) m) m ns) k =
     (case map_of (rev (map (\<lambda>n. (f n, g n)) ns)) k of Some v \<Rightarrow> Some v | None \<Rightarrow> omap_get m k)"
  by (induction ns arbitrary: m) (auto simp: omap_simps map_add_def split: option.splits)

lemma foldl_set_Nil: "omap_get (foldl (\<lambda>m n. omap_set n [] m) m ns) k = (if k \<in> set ns then Some [] else omap_get m k)"
  by (induction ns arbitrary: m) (auto simp: omap_simps)

lemma map_of_rev_distinct: "distinct (map fst xs) \<Longrightarrow> map_of (rev xs) = map_of xs"
  by (metis distinct_rev map_of_inject_set rev_map set_rev)

lemma nodesById_get:
  assumes "distinct (map on_id (od_nodes d))"
  shows "omap_get (nd_nodesById (normalizeOrchestrationDefinitionV1 d caps)) k =
    map_of (map (\<lambda>n. (on_id n, normalizeNode (od_policy d) caps n)) (od_nodes d)) k"
  using assms
  by (simp add: normalizeOrchestrationDefinitionV1_def foldl_set_get map_of_rev_distinct comp_def split: option.splits)

lemma normalizeNode_deps [simp]: "nn_dependsOn (normalizeNode policy caps n) = nodeDeps n"
  by (simp add: normalizeNode_def nodeDeps_def Let_def)

definition planCorrect :: "OrchestrationNodeV1 list \<Rightarrow> OrchestrationPlanV1 \<Rightarrow> bool" where
  "planCorrect nodes p \<longleftrightarrow>
     distinct (pl_topologicalOrder p) \<and> set (pl_topologicalOrder p) = set (map on_id nodes) \<and>
     (\<forall>xs k ys. pl_topologicalOrder p = xs @ k # ys \<longrightarrow> set (depsOf (pl_dependencies p) k) \<subseteq> set xs) \<and>
     (\<forall>n \<in> set nodes. omap_get (pl_dependencies p) (on_id n) = Some (nodeDeps n)) \<and>
     (\<forall>n \<in> set nodes. omap_get (pl_dependents p) (on_id n) =
        Some (filter (\<lambda>k. on_id n \<in> set (depsOf (pl_dependencies p) k)) (map on_id nodes))) \<and>
     pl_rootNodeIds p = map on_id (filter (\<lambda>n. nodeDeps n = []) nodes)"

lemma normalized_ids [simp]: "nd_nodeIds (normalizeOrchestrationDefinitionV1 d caps) = map on_id (od_nodes d)"
  by (simp add: normalizeOrchestrationDefinitionV1_def)

lemma collected_dependencies:
  assumes w: "wellScheduled (od_nodes d) vdeps vs"
  obtains deps where
    "collectDependencies (nd_nodesById (normalizeOrchestrationDefinitionV1 d caps)) [] (map on_id (od_nodes d)) = Inr deps"
    "\<And>n. n \<in> set (od_nodes d) \<Longrightarrow> omap_get deps (on_id n) = Some (nodeDeps n)" "\<And>k. depsOf deps k = depsOf vdeps k"
proof -
  let ?nd = "normalizeOrchestrationDefinitionV1 d caps" and ?ids = "map on_id (od_nodes d)"
  have dist: "distinct ?ids" using w by (simp add: wellScheduled_def)
  have node: "omap_get (nd_nodesById ?nd) (on_id n) = Some (normalizeNode (od_policy d) caps n)" if "n \<in> set (od_nodes d)" for n
    unfolding nodesById_get [OF dist] using that dist by (intro map_of_is_SomeI) (auto simp: comp_def)
  obtain deps where deps: "collectDependencies (nd_nodesById ?nd) [] ?ids = Inr deps"
    and dget: "\<And>k. omap_get deps k = (if k \<in> set ?ids then map_option nn_dependsOn (omap_get (nd_nodesById ?nd) k) else None)"
    using collectDependencies_ok [of ?ids "nd_nodesById ?nd" "[]"] node by auto
  have own: "omap_get deps (on_id n) = Some (nodeDeps n)" if "n \<in> set (od_nodes d)" for n using that node dget by simp
  have "depsOf deps k = depsOf vdeps k" for k
  proof (cases "k \<in> set ?ids")
    case True
    then obtain n where n: "n \<in> set (od_nodes d)" "k = on_id n" by auto
    then have "map_of (map (\<lambda>n. (on_id n, nodeDeps n)) (od_nodes d)) k = Some (nodeDeps n)"
      using dist by (intro map_of_is_SomeI) (auto simp: comp_def)
    with w own n show ?thesis by (simp add: wellScheduled_def depsOf_def)
  next
    case False
    then have "map_of (map (\<lambda>n. (on_id n, nodeDeps n)) (od_nodes d)) k = None" by (auto simp: map_of_eq_None_iff)
    with w False dget show ?thesis by (simp add: wellScheduled_def depsOf_def)
  qed
  with that deps own show thesis by blast
qed

lemma collected_dependents:
  assumes "\<And>k. k \<in> set ids \<Longrightarrow> distinct (depsOf deps k) \<and> set (depsOf deps k) \<subseteq> set ids"
  obtains dep where "collectDependents deps (foldl (\<lambda>m n. omap_set n [] m) [] ids) ids = Inr dep"
    "\<And>k. k \<in> set ids \<Longrightarrow> omap_get dep k = Some (filter (\<lambda>n. k \<in> set (depsOf deps n)) ids)"
proof -
  let ?m0 = "foldl (\<lambda>m n. omap_set n [] m) [] ids"
  have pre: "\<forall>n \<in> set ids. distinct (depsOf deps n) \<and> (\<forall>e \<in> set (depsOf deps n). omap_get ?m0 e \<noteq> None)"
  proof (intro ballI conjI)
    show "distinct (depsOf deps n)" if "n \<in> set ids" for n using assms [OF that] by blast
    fix n e assume "n \<in> set ids" "e \<in> set (depsOf deps n)"
    then have "e \<in> set ids" using assms by blast
    then show "omap_get ?m0 e \<noteq> None" by (simp add: foldl_set_Nil)
  qed
  obtain dep where "collectDependents deps ?m0 ids = Inr dep"
    "\<And>k. omap_get dep k = map_option (\<lambda>xs. xs @ filter (\<lambda>n. k \<in> set (depsOf deps n)) ids) (omap_get ?m0 k)"
    using collectDependents_ok [OF pre] by blast
  then show thesis by (intro that) (auto simp: foldl_set_Nil)
qed

lemma plan_succeeds:
  assumes w: "wellScheduled (od_nodes d) vdeps vs"
  shows "\<exists>p. planOrchestrationV1 (normalizeOrchestrationDefinitionV1 d caps) = Inr p \<and> planCorrect (od_nodes d) p"
proof -
  let ?ids = "map on_id (od_nodes d)"
  obtain deps where deps: "collectDependencies (nd_nodesById (normalizeOrchestrationDefinitionV1 d caps)) [] ?ids = Inr deps"
    and own: "\<And>n. n \<in> set (od_nodes d) \<Longrightarrow> omap_get deps (on_id n) = Some (nodeDeps n)"
    and same: "\<And>k. depsOf deps k = depsOf vdeps k"
    using collected_dependencies [OF w] by blast
  have fin: "finishedOrder deps vs" "set ?ids \<subseteq> set vs" "distinct ?ids"
    using w finishedOrder_cong [OF same] by (auto simp: wellScheduled_def)
  have dd: "distinct (depsOf deps k) \<and> set (depsOf deps k) \<subseteq> set ?ids" if k: "k \<in> set ?ids" for k
  proof -
    from k obtain n where n: "n \<in> set (od_nodes d)" "k = on_id n" by auto
    then have "distinct (nodeDeps n) \<and> set (nodeDeps n) \<subseteq> set ?ids" using w unfolding wellScheduled_def by blast
    with own n show ?thesis by (simp add: depsOf_def)
  qed
  obtain dep where dep: "collectDependents deps (foldl (\<lambda>m n. omap_set n [] m) [] ?ids) ?ids = Inr dep"
    "\<And>k. k \<in> set ?ids \<Longrightarrow> omap_get dep k = Some (filter (\<lambda>n. k \<in> set (depsOf deps n)) ?ids)"
    using collected_dependents [OF dd] by blast
  obtain r where r: "planLoop deps ?ids (length ?ids) [] = Inr r" "distinct r" "set r = set ?ids" "ordered deps r"
    using planLoop_ok [OF fin, of "[]" "length ?ids"] dd by (auto simp: ordered_def)
  have roots: "filter (\<lambda>k. depsOf deps k = []) ?ids = map on_id (filter (\<lambda>n. nodeDeps n = []) (od_nodes d))"
    using own by (simp add: filter_map comp_def depsOf_def cong: filter_cong)
  show ?thesis using deps dep r roots own unfolding planOrchestrationV1_def normalized_ids
    by (auto simp: planCorrect_def ordered_def)
qed

section \<open>Accepted definitions\<close>

lemma validateNodes_ok:
  assumes "validateNodes v path caps info hasInput = ([], recs)"
  shows "\<exists>ns. asArray asNode v = Some ns \<and> ns \<noteq> [] \<and> int (length ns) \<le> cap_maxNodes caps \<and>
    list_all (nodeOk caps hasInput (pi_hasContextSnapshot info) (pi_allowedTools info)) ns \<and> distinct (map on_id ns) \<and>
    map (\<lambda>r. (nr_id r, nr_dependsOn r)) recs = map (\<lambda>n. (on_id n, nodeDeps n)) ns"
proof -
  from assms obtain nodes where v: "v = JArr nodes" by (cases v) (auto simp: validateNodes_def)
  obtain ni r where nl: "validateNodeList caps info hasInput path [] 0 nodes = (ni, r)" by fastforce
  from assms v nl have "ni = []" "r = recs" "nodes \<noteq> []" "int (length nodes) \<le> cap_maxNodes caps"
    by (auto simp: validateNodes_def Let_def split: if_splits)
  with nodeList_ok [of caps info hasInput path "[]" 0 nodes recs] nl v show ?thesis by fastforce
qed

lemma records_schedule:
  assumes recs: "map (\<lambda>r. (nr_id r, nr_dependsOn r)) recs = map (\<lambda>n. (on_id n, nodeDeps n)) ns"
    and dist: "distinct (map on_id ns)" and deps: "list_all (\<lambda>n. distinct (nodeDeps n)) ns"
    and refs: "validateNodeReferences recs = []"
  shows "(\<exists>vs. wellScheduled ns (dependencyMap recs) vs) \<and> list_all (\<lambda>n. on_id n \<notin> set (nodeDeps n)) ns"
proof -
  from refs obtain vs where vs: "referenceIssues recs = []" "finishedOrder (dependencyMap recs) vs" "set (map nr_id recs) \<subseteq> set vs"
    by (rule noReferenceIssues)
  have ids: "map nr_id recs = map on_id ns" using arg_cong [OF recs, of "map fst"] by (simp add: comp_def)
  have get: "omap_get (dependencyMap recs) k = map_of (map (\<lambda>n. (on_id n, nodeDeps n)) ns) k" for k
    unfolding dependencyMap_def foldl_set_get recs
    using dist by (simp add: map_of_rev_distinct comp_def split: option.splits)
  have "on_id n \<notin> set (nodeDeps n) \<and> set (nodeDeps n) \<subseteq> set (map on_id ns)" if "n \<in> set ns" for n
  proof -
    have "(on_id n, nodeDeps n) \<in> set (map (\<lambda>r. (nr_id r, nr_dependsOn r)) recs)" unfolding recs using that by auto
    then obtain r where r: "r \<in> set recs" "nr_id r = on_id n" "nr_dependsOn r = nodeDeps n" by auto
    show ?thesis using references_ok [OF vs(1) r(1)] unfolding ids r(2,3) .
  qed
  then show ?thesis using vs dist deps get ids by (auto simp: wellScheduled_def depsOf_def list_all_iff)
qed

text \<open>A scheduled list of nodes has no cycle: every step leads on in the order of the search.\<close>

lemma scheduled_acyclic:
  assumes "wellScheduled nodes deps vs"
  shows "acyclicNodes nodes"
  unfolding acyclicNodes_def
proof (intro allI notI)
  fix i assume cycle: "(nodeEdge nodes)\<^sup>+\<^sup>+ i i"
  have edge: "dependsOnEdge deps a b" if e: "nodeEdge nodes a b" for a b
  proof -
    obtain n where n: "n \<in> set nodes" "on_id n = a" "b \<in> set (nodeDeps n)" using e unfolding nodeEdge_def by blast
    then have "map_of (map (\<lambda>n. (on_id n, nodeDeps n)) nodes) a = Some (nodeDeps n)"
      using assms by (intro map_of_is_SomeI) (auto simp: wellScheduled_def comp_def)
    then show ?thesis using assms n(3) by (simp add: wellScheduled_def dependsOnEdge_def)
  qed
  have "(dependsOnEdge deps)\<^sup>+\<^sup>+ i j" if "(nodeEdge nodes)\<^sup>+\<^sup>+ i j" for j
    using that by (induction rule: tranclp_induct) (auto intro: edge tranclp.trancl_into_trancl)
  then have "(dependsOnEdge deps)\<^sup>+\<^sup>+ i i" using cycle .
  moreover have "i \<in> set (map on_id nodes)" using tranclpD [OF cycle] by (auto simp: nodeEdge_def)
  ultimately show False using finishedOrder_acyclic [of deps vs i] assms by (auto simp: wellScheduled_def)
qed

lemma definition_ok:
  assumes "definitionIssues v caps = []"
  shows "\<exists>d deps vs. asDefinition v = Some d \<and> definitionOk caps d \<and> wellScheduled (od_nodes d) deps vs"
proof -
  from assms obtain fs where v: "v = JObj fs" by (cases v) (auto simp: definitionIssues_def)
  obtain pi info where p: "validatePolicy (fieldOf fs ''policy'') ''$.policy'' caps = (pi, info)" by fastforce
  obtain ni recs where n: "validateNodes (fieldOf fs ''nodes'') ''$.nodes'' caps info (hasKey fs ''input'') = (ni, recs)" by fastforce
  note a = assms [unfolded definitionIssues_def v json.case p n Let_def prod.case]
  from a have e: "pi = []" "ni = []" and refs: "validateNodeReferences recs = []" by auto
  from policy_ok p e obtain pol where pol: "asPolicy (fieldOf fs ''policy'') = Some pol" "policyOk caps pol"
    "pi_allowedTools info = op_allowedTools pol" "pi_hasContextSnapshot info = (op_contextSnapshot pol \<noteq> None)" by blast
  from validateNodes_ok n e obtain ns where ns: "asArray asNode (fieldOf fs ''nodes'') = Some ns" "ns \<noteq> []"
    "int (length ns) \<le> cap_maxNodes caps"
    "list_all (nodeOk caps (hasKey fs ''input'') (pi_hasContextSnapshot info) (pi_allowedTools info)) ns" "distinct (map on_id ns)"
    "map (\<lambda>r. (nr_id r, nr_dependsOn r)) recs = map (\<lambda>n. (on_id n, nodeDeps n)) ns" by blast
  have "list_all (\<lambda>n. distinct (nodeDeps n)) ns" using ns(4) by (auto simp: list_all_iff nodeOk_def)
  from records_schedule [OF ns(6,5) this refs] obtain vs where vs: "wellScheduled ns (dependencyMap recs) vs"
    "list_all (\<lambda>n. on_id n \<notin> set (nodeDeps n)) ns" by blast
  have "\<exists>m. optionalField asInput fs ''input'' = Some m \<and>
      (case m of None \<Rightarrow> True | Some i \<Rightarrow> optInRange (cap_maxInputChars caps) (ic_maxChars i)) \<and> (m \<noteq> None) = hasKey fs ''input''"
    by (rule presentField_ok [where Q = "\<lambda>v. validateInputContract v ''$.input'' caps = []"])
      (use a input_ok in \<open>auto split: if_splits simp: asInput_def\<close>)
  then obtain inp where inp: "optionalField asInput fs ''input'' = Some inp" "(inp \<noteq> None) = hasKey fs ''input''"
    "case inp of None \<Rightarrow> True | Some i \<Rightarrow> optInRange (cap_maxInputChars caps) (ic_maxChars i)" by blast
  obtain i where i: "asString (fieldOf fs ''id'') = Some i" "isOrchestrationId i"
    using a validateId_ok [of fs "''id''" "''$.id''"] by (metis append_is_Nil_conv prod.collapse)
  obtain t where t: "asString (fieldOf fs ''title'') = Some t" "\<not> js_blank t"
    using a requiredString_fst [of fs "''title''" "''$.title''" None] by auto
  obtain ds where ds: "optionalField asString fs ''description'' = Some ds" using a by (auto dest: optionalString_ok)
  have "list_all (\<lambda>n. on_id n \<notin> set (nodeDeps n) \<and> set (nodeDeps n) \<subseteq> set (map on_id ns)) ns"
    using vs unfolding wellScheduled_def list_all_iff by blast
  then show ?thesis using pol ns inp i t ds vs scheduled_acyclic [OF vs(1)] by (auto simp: asDefinition_def v definitionOk_def)
qed

end
