(* ===== verification/Orchestration_Correctness.thy ===== *)
theory Orchestration_Correctness
  imports Orchestration_Plans
begin

text \<open>
  The correctness properties of the orchestration kernel: soundness of validation against
  \<open>definitionOk\<close>, the cycle search, totality of loading, plans, limits, and the JSONC reader.
\<close>

section \<open>A concrete definition\<close>

definition demoCaps :: OrchestrationSystemCapsV1 where
  "demoCaps = \<lparr>cap_maxNodes = 4, cap_maxParallel = 2, cap_maxRunMs = 1000, cap_maxNodeTimeoutMs = 500, cap_maxNodeTurns = 5,
     cap_maxNodeTokens = 100, cap_maxContextSnapshotTokens = 50, cap_maxInstructionChars = 40, cap_maxInputChars = 60,
     cap_maxOutputChars = 80, cap_allowedNodeKinds = [AgentKind], cap_allowedTools = [''read'', ''grep'']\<rparr>"

definition demoOutput :: json where
  "demoOutput = JObj [(''required'', JBool True), (''format'', JStr ''text'')]"

definition demoNode :: "string \<Rightarrow> string list \<Rightarrow> json" where
  "demoNode i deps = JObj [(''id'', JStr i), (''kind'', JStr ''agent''), (''instruction'', JStr ''work''),
     (''dependsOn'', JArr (map JStr deps)), (''output'', demoOutput), (''policy'', JObj [(''tools'', JArr [JStr ''read''])])]"

definition demoDefinition :: json where
  "demoDefinition = JObj [(''version'', JInt 1), (''id'', JStr ''flow''), (''title'', JStr ''Flow''),
     (''policy'', JObj [(''maxParallel'', JInt 1), (''maxRunMs'', JInt 900), (''defaultNodeTimeoutMs'', JInt 100),
        (''defaultMaxTurns'', JInt 3), (''allowedTools'', JArr [JStr ''read''])]),
     (''nodes'', JArr [demoNode ''b'' [''a''], demoNode ''a'' []])]"

lemma demo_validates: "validateOrchestrationDefinitionV1 demoDefinition demoCaps = Inr demoDefinition"
  by code_simp

section \<open>Validation\<close>

lemma accepted_issues: "validateOrchestrationDefinitionV1 v caps = Inr v' \<Longrightarrow> v' = v \<and> definitionIssues v caps = []"
  by (auto simp: validateOrchestrationDefinitionV1_def Let_def split: if_splits)

text \<open>
  C32. Validation is sound: an accepted value has the declared type and satisfies the
  specification of definitions: ids well formed and distinct, references to existing other
  nodes only, every limit within the system caps, tools within those the caps and the
  definition allow, and included input, snapshot and outputs available.
\<close>

theorem accepted_definition_sound:
  assumes "validateOrchestrationDefinitionV1 v caps = Inr v'"
  shows "v' = v \<and> (\<exists>d. asDefinition v = Some d \<and> definitionOk caps d)"
  using definition_ok accepted_issues [OF assms] by blast

theorem accepted_definition_sound_witness:
  "\<exists>d. asDefinition demoDefinition = Some d \<and> definitionOk demoCaps d"
  using accepted_definition_sound [OF demo_validates] by blast

text \<open>
  C33. The cycle search of validation is exact and always finishes: it returns nothing iff
  no node depends on itself through dependencies, and otherwise a walk along dependencies
  that starts and ends at the same node.
\<close>

theorem findCycle_exact:
  "\<exists>c. findCycle records = Some c \<and>
     (c = [] \<longleftrightarrow> \<not> (\<exists>n. (dependsOnEdge (dependencyMap records))\<^sup>+\<^sup>+ n n)) \<and>
     (c \<noteq> [] \<longrightarrow> walk (dependencyMap records) c \<and> 2 \<le> length c \<and> hd c = last c)"
proof (cases rule: findCycle_cases [of records])
  case (cycle c)
  then show ?thesis using walk_path [of "dependencyMap records" c] by (auto simp: closedWalk_def)
next
  case (order vs)
  have "\<not> (dependsOnEdge (dependencyMap records))\<^sup>+\<^sup>+ n n" for n
  proof (cases "n \<in> set (map nr_id records)")
    case True
    then show ?thesis using finishedOrder_acyclic [OF order(2)] order(3) by blast
  next
    case False
    then have "\<not> dependsOnEdge (dependencyMap records) n m" for m
      using no_dependencies_outside [of records n] by (simp add: dependsOnEdge_def depsOf_def)
    then show ?thesis by (blast dest: tranclpD)
  qed
  with order show ?thesis by auto
qed

definition demoRecords :: "NodeRecord list" where
  "demoRecords = [\<lparr>nr_id = ''a'', nr_path = ''p'', nr_dependsOn = [''b'']\<rparr>, \<lparr>nr_id = ''b'', nr_path = ''q'', nr_dependsOn = [''a'']\<rparr>]"

theorem findCycle_exact_witness:
  "walk (dependencyMap demoRecords) [''a'', ''b'', ''a''] \<and> (\<exists>n. (dependsOnEdge (dependencyMap demoRecords))\<^sup>+\<^sup>+ n n)"
proof -
  have "findCycle demoRecords = Some [''a'', ''b'', ''a'']" by code_simp
  then show ?thesis using findCycle_exact [of demoRecords] by auto
qed

section \<open>Loading\<close>

text \<open>
  Loading never throws, whatever the source and whatever \<^verbatim>\<open>JSON.parse\<close> returns: it gives
  issues or an executable, so the planner's exceptions are unreachable after validation.
\<close>

theorem load_never_throws:
  "\<exists>r. loadOrchestrationDefinitionV1 jsonParse source caps = Inr r"
proof -
  let ?parsed = "case source of Inl text \<Rightarrow> parseOrchestrationDefinitionV1 jsonParse text | Inr v \<Rightarrow> Inr v"
  show ?thesis
  proof (cases ?parsed)
    case (Inl issues)
    then show ?thesis by (simp add: loadOrchestrationDefinitionV1_def)
  next
    case (Inr v)
    show ?thesis
    proof (cases "validateOrchestrationDefinitionV1 v caps")
      case (Inl issues)
      with Inr show ?thesis by (simp add: loadOrchestrationDefinitionV1_def)
    next
      case ok: (Inr v')
      then obtain d deps vs where "v' = v" "asDefinition v = Some d" "wellScheduled (od_nodes d) deps vs"
        using accepted_issues definition_ok by blast
      moreover from this obtain p where "planOrchestrationV1 (normalizeOrchestrationDefinitionV1 d caps) = Inr p"
        using plan_succeeds by blast
      ultimately show ?thesis using Inr ok by (simp add: loadOrchestrationDefinitionV1_def Let_def)
    qed
  qed
qed

text \<open>
  C23. What is loaded is right: the executable is the normalised form of an accepted
  definition; its order lists every node once, after its dependencies; dependents are the
  inverse of dependencies; roots are the nodes without dependencies.
\<close>

theorem loaded_plan_correct:
  assumes "loadOrchestrationDefinitionV1 jsonParse source caps = Inr (Inr exe)"
  shows "\<exists>d. definitionOk caps d \<and> xe_definition exe = normalizeOrchestrationDefinitionV1 d caps \<and>
    distinct (pl_topologicalOrder (xe_plan exe)) \<and>
    set (pl_topologicalOrder (xe_plan exe)) = set (map on_id (od_nodes d)) \<and>
    (\<forall>xs k ys. pl_topologicalOrder (xe_plan exe) = xs @ k # ys \<longrightarrow> set (depsOf (pl_dependencies (xe_plan exe)) k) \<subseteq> set xs) \<and>
    (\<forall>n \<in> set (od_nodes d). omap_get (pl_dependencies (xe_plan exe)) (on_id n) = Some (nodeDeps n) \<and>
      omap_get (pl_dependents (xe_plan exe)) (on_id n) =
        Some (filter (\<lambda>k. on_id n \<in> set (depsOf (pl_dependencies (xe_plan exe)) k)) (map on_id (od_nodes d)))) \<and>
    pl_rootNodeIds (xe_plan exe) = map on_id (filter (\<lambda>n. nodeDeps n = []) (od_nodes d))"
proof -
  from assms obtain v v' d0 where ok: "validateOrchestrationDefinitionV1 v caps = Inr v'" and d0: "asDefinition v' = Some d0"
    and plan: "planOrchestrationV1 (normalizeOrchestrationDefinitionV1 d0 caps) = Inr (xe_plan exe)"
      "xe_definition exe = normalizeOrchestrationDefinitionV1 d0 caps"
    by (auto simp: loadOrchestrationDefinitionV1_def Let_def andThen_eq_Inr split: sum.splits option.splits)
  obtain d deps vs where d: "v' = v" "asDefinition v = Some d" "definitionOk caps d" "wellScheduled (od_nodes d) deps vs"
    using accepted_issues [OF ok] definition_ok by blast
  with d0 have "d0 = d" by simp
  with plan plan_succeeds [OF d(4), of caps] have "planCorrect (od_nodes d) (xe_plan exe)" by auto
  then show ?thesis using d(3) plan(2) \<open>d0 = d\<close> unfolding planCorrect_def by blast
qed

theorem loaded_plan_correct_witness:
  "\<exists>exe. loadOrchestrationDefinitionV1 (\<lambda>_. Inl ''unused'') (Inr demoDefinition) demoCaps = Inr (Inr exe) \<and>
     distinct (pl_topologicalOrder (xe_plan exe)) \<and> pl_topologicalOrder (xe_plan exe) = [''a'', ''b'']"
proof -
  let ?l = "loadOrchestrationDefinitionV1 (\<lambda>_. Inl ''unused'') (Inr demoDefinition) demoCaps"
  have "(case ?l of Inr (Inr exe) \<Rightarrow> pl_topologicalOrder (xe_plan exe) = [''a'', ''b''] | _ \<Rightarrow> False)" by code_simp
  then obtain exe where "?l = Inr (Inr exe)" "pl_topologicalOrder (xe_plan exe) = [''a'', ''b'']"
    by (auto split: sum.splits)
  then show ?thesis using loaded_plan_correct by blast
qed

lemma withDefault_range: "optInRange hi m \<Longrightarrow> inRange hi n \<Longrightarrow> inRange hi (withDefault m n)"
  by (cases m) (auto simp: optInRange_def)

lemma default_node_policy_ok:
  "(case p of None \<Rightarrow> True | Some q \<Rightarrow> nodePolicyOk caps allowed q) \<Longrightarrow>
   nodePolicyOk caps allowed (withDefault p
     \<lparr>np_timeoutMs = None, np_maxTurns = None, np_maxTokens = None, np_tools = None, np_modelRole = None\<rparr>)"
  by (cases p) (auto simp: nodePolicyOk_def optInRange_def)

lemma normalizeNode_limits:
  assumes "nodeOk caps hasInput hasSnapshot (op_allowedTools policy) x" "policyOk caps policy"
    and "1 \<le> cap_maxNodeTokens caps" "1 \<le> cap_maxOutputChars caps"
  shows "inRange (cap_maxNodeTimeoutMs caps) (nnp_timeoutMs (nn_policy (normalizeNode policy caps x)))"
    "inRange (cap_maxNodeTurns caps) (nnp_maxTurns (nn_policy (normalizeNode policy caps x)))"
    "inRange (cap_maxNodeTokens caps) (nnp_maxTokens (nn_policy (normalizeNode policy caps x)))"
    "inRange (cap_maxOutputChars caps) (noc_maxChars (nn_output (normalizeNode policy caps x)))"
    "set (nnp_tools (nn_policy (normalizeNode policy caps x))) \<subseteq> set (op_allowedTools policy)"
proof -
  let ?p = "withDefault (on_policy x)
    \<lparr>np_timeoutMs = None, np_maxTurns = None, np_maxTokens = None, np_tools = None, np_modelRole = None\<rparr>"
  have p: "nodePolicyOk caps (op_allowedTools policy) ?p"
    using assms(1) by (intro default_node_policy_ok) (simp add: nodeOk_def)
  have caps: "inRange (cap_maxNodeTokens caps) (cap_maxNodeTokens caps)" "inRange (cap_maxOutputChars caps) (cap_maxOutputChars caps)"
    using assms(3,4) by (auto simp: inRange_def)
  show "inRange (cap_maxNodeTimeoutMs caps) (nnp_timeoutMs (nn_policy (normalizeNode policy caps x)))"
    "inRange (cap_maxNodeTurns caps) (nnp_maxTurns (nn_policy (normalizeNode policy caps x)))"
    "inRange (cap_maxNodeTokens caps) (nnp_maxTokens (nn_policy (normalizeNode policy caps x)))"
    using p caps assms(2) by (auto simp: normalizeNode_def Let_def nodePolicyOk_def policyOk_def intro!: withDefault_range)
  show "inRange (cap_maxOutputChars caps) (noc_maxChars (nn_output (normalizeNode policy caps x)))"
    using caps assms(1) by (auto simp: normalizeNode_def Let_def nodeOk_def intro!: withDefault_range)
  show "set (nnp_tools (nn_policy (normalizeNode policy caps x))) \<subseteq> set (op_allowedTools policy)"
    using p by (cases "np_tools ?p") (auto simp: normalizeNode_def Let_def nodePolicyOk_def)
qed

text \<open>
  Limits hold after normalisation: in the executable of an accepted definition, every
  node's time, turns, tokens and output size lie between one and the system caps (caps
  being positive), and its tools are allowed by the definition and by the system.
\<close>

theorem normalized_within_caps:
  assumes "definitionOk caps d" "1 \<le> cap_maxNodeTokens caps" "1 \<le> cap_maxOutputChars caps"
    and "(k, n) \<in> set (nd_nodesById (normalizeOrchestrationDefinitionV1 d caps))"
  shows "nn_id n = k \<and> inRange (cap_maxNodeTimeoutMs caps) (nnp_timeoutMs (nn_policy n)) \<and>
    inRange (cap_maxNodeTurns caps) (nnp_maxTurns (nn_policy n)) \<and> inRange (cap_maxNodeTokens caps) (nnp_maxTokens (nn_policy n)) \<and>
    inRange (cap_maxOutputChars caps) (noc_maxChars (nn_output n)) \<and>
    set (nnp_tools (nn_policy n)) \<subseteq> set (nop_allowedTools (nd_policy (normalizeOrchestrationDefinitionV1 d caps))) \<and>
    set (nop_allowedTools (nd_policy (normalizeOrchestrationDefinitionV1 d caps))) \<subseteq> set (cap_allowedTools caps)"
proof -
  have keys: "set (foldl (\<lambda>m x. omap_set (on_id x) (normalizeNode (od_policy d) caps x) m) m xs) \<subseteq>
      set m \<union> (\<lambda>x. (on_id x, normalizeNode (od_policy d) caps x)) ` set xs" for m xs
  proof (induction xs arbitrary: m)
    case (Cons x xs)
    have "set (omap_set (on_id x) (normalizeNode (od_policy d) caps x) m) \<subseteq> insert (on_id x, normalizeNode (od_policy d) caps x) (set m)"
      by (induction m) auto
    with Cons [of "omap_set (on_id x) (normalizeNode (od_policy d) caps x) m"] show ?case by auto
  qed simp
  with assms(4) obtain x where x: "x \<in> set (od_nodes d)" "k = on_id x" "n = normalizeNode (od_policy d) caps x"
    using keys [of "[]" "od_nodes d"] by (auto simp: normalizeOrchestrationDefinitionV1_def)
  have "nodeOk caps (od_input d \<noteq> None) (op_contextSnapshot (od_policy d) \<noteq> None) (op_allowedTools (od_policy d)) x" "policyOk caps (od_policy d)"
    using assms(1) x(1) by (auto simp: definitionOk_def list_all_iff)
  from normalizeNode_limits [OF this assms(2,3)] this(2) x show ?thesis
    by (simp add: normalizeOrchestrationDefinitionV1_def normalizePolicy_def policyOk_def) (simp add: normalizeNode_def Let_def)
qed

theorem normalized_within_caps_witness:
  "\<exists>d n. definitionOk demoCaps d \<and> (''a'', n) \<in> set (nd_nodesById (normalizeOrchestrationDefinitionV1 d demoCaps)) \<and>
     inRange (cap_maxNodeTokens demoCaps) (nnp_maxTokens (nn_policy n))"
proof -
  obtain d where d: "asDefinition demoDefinition = Some d" "definitionOk demoCaps d"
    using definition_ok accepted_issues [OF demo_validates] by blast
  have "(case asDefinition demoDefinition of None \<Rightarrow> False
      | Some d \<Rightarrow> ''a'' \<in> fst ` set (nd_nodesById (normalizeOrchestrationDefinitionV1 d demoCaps)))" by code_simp
  with d obtain n where n: "(''a'', n) \<in> set (nd_nodesById (normalizeOrchestrationDefinitionV1 d demoCaps))" by auto
  have "1 \<le> cap_maxNodeTokens demoCaps" "1 \<le> cap_maxOutputChars demoCaps" by code_simp+
  from normalized_within_caps [OF d(2) this n] d n show ?thesis by blast
qed

section \<open>JSONC\<close>

lemma skipLine_lines:
  "skipLine cs = (blank, rest) \<Longrightarrow> map isLineEnd (blank @ rest) = map isLineEnd cs"
  by (induction cs arbitrary: blank rest rule: skipLine.induct) (auto split: if_splits prod.splits)

lemma skipBlock_lines:
  "skipBlock cs = Some (blank, rest) \<Longrightarrow> map isLineEnd (blank @ rest) = map isLineEnd cs"
proof (induction cs arbitrary: blank rest rule: skipBlock.induct)
  case (3 c d cs)
  then show ?case by (cases "c = CHR ''*'' \<and> d = CHR ''/''") (auto split: option.splits if_splits)
qed auto

text \<open>
  Stripping comments keeps the layout: the text has the same length and its line ends
  are at the same places, so positions reported by the JSON parser are those of the source.
\<close>

theorem comment_stripping_keeps_lines:
  assumes "stripJsonComments mode source = Some out"
  shows "length out = length source \<and> map isLineEnd out = map isLineEnd source"
proof -
  have "map isLineEnd out = map isLineEnd source"
    using assms
  proof (induction mode source arbitrary: out rule: stripJsonComments.induct)
    case (3 c cs)
    consider (line) es where "c = CHR ''/''" "cs = CHR ''/'' # es" | (block) es where "c = CHR ''/''" "cs = CHR ''*'' # es"
      | (other) "\<not> (c = CHR ''/'' \<and> (take 1 cs = ''/'' \<or> take 1 cs = ''*''))"
      by (cases cs) auto
    then show ?case
    proof cases
      case line
      obtain blank rest where sk: "skipLine es = (blank, rest)" by (cases "skipLine es")
      with line 3(5) obtain r where r: "stripJsonComments Outside rest = Some r" "out = CHR '' '' # CHR '' '' # blank @ r"
        by auto
      have "map isLineEnd r = map isLineEnd rest" using 3(2) line sk r(1) by simp
      then show ?thesis using line r(2) skipLine_lines [OF sk] by simp
    next
      case block
      with 3(5) obtain blank rest where sk: "skipBlock es = Some (blank, rest)" by (auto split: option.splits)
      with block 3(5) obtain r where r: "stripJsonComments Outside rest = Some r" "out = CHR '' '' # CHR '' '' # blank @ r"
        by auto
      have "map isLineEnd r = map isLineEnd rest" using 3(3) block sk r(1) by simp
      then show ?thesis using block r(2) skipBlock_lines [OF sk] by simp
    next
      case other
      show ?thesis
      proof (cases "c = CHR 0x22")
        case True
        with 3(5) obtain r where r: "stripJsonComments (InString False) cs = Some r" "out = c # r" by auto
        have "map isLineEnd r = map isLineEnd cs" by (rule 3(1) [OF True r(1)])
        with r(2) show ?thesis by simp
      next
        case False
        have n: "\<not> (c = CHR ''/'' \<and> take 1 cs = ''/'')" "\<not> (c = CHR ''/'' \<and> take 1 cs = ''*'')" using other by blast+
        have "map_option (Cons c) (stripJsonComments Outside cs) = Some out"
          using 3(5) unfolding stripJsonComments.simps(3) if_not_P [OF False] if_not_P [OF n(1)] if_not_P [OF n(2)] .
        then obtain r where r: "stripJsonComments Outside cs = Some r" "out = c # r" by auto
        have "map isLineEnd r = map isLineEnd cs" by (rule 3(4) [OF False n r(1)])
        with r(2) show ?thesis by simp
      qed
    qed
  qed auto
  then show ?thesis using map_eq_imp_length_eq by blast
qed

theorem comment_stripping_keeps_lines_witness:
  "stripJsonComments Outside ''[1] // a'' = Some ''[1]     '' \<and> length ''[1]     '' = length ''[1] // a''"
proof -
  have "stripJsonComments Outside ''[1] // a'' = Some ''[1]     ''" by code_simp
  then show ?thesis using comment_stripping_keeps_lines by blast
qed

text \<open>
  Removing trailing commas removes commas only: the text without its commas is
  unchanged, and a string literal is never touched.
\<close>

theorem comma_stripping_only_commas:
  "filter (\<lambda>c. c \<noteq> CHR '','') (stripTrailingCommas mode source) = filter (\<lambda>c. c \<noteq> CHR '','') source \<and>
   ((\<forall>c \<in> set source. c \<noteq> CHR 0x22) \<longrightarrow> stripTrailingCommas (InString False) source = source)"
proof (rule conjI)
  show "filter (\<lambda>c. c \<noteq> CHR '','') (stripTrailingCommas mode source) = filter (\<lambda>c. c \<noteq> CHR '','') source"
    by (induction mode source rule: stripTrailingCommas.induct) auto
  have "(\<forall>c \<in> set source. c \<noteq> CHR 0x22) \<longrightarrow> stripTrailingCommas (InString e) source = source" for e
    by (induction source arbitrary: e) auto
  then show "(\<forall>c \<in> set source. c \<noteq> CHR 0x22) \<longrightarrow> stripTrailingCommas (InString False) source = source" .
qed

theorem comma_stripping_only_commas_witness:
  "stripTrailingCommas (InString False) ''a,]'' = ''a,]'' \<and> stripTrailingCommas Outside ''[1, ]'' = ''[1 ]''"
proof -
  have "stripTrailingCommas Outside ''[1, ]'' = ''[1 ]''" by code_simp
  moreover have "stripTrailingCommas (InString False) ''a,]'' = ''a,]''"
    using comma_stripping_only_commas [of Outside "''a,]''"] by simp
  ultimately show ?thesis by blast
qed

end
