(* ===== verification/Resilience_Errors.thy ===== *)
theory Resilience_Errors
  imports Complex_Main Advancement_Types "HOL-Library.Sublist"
begin

text \<open>
  The error side of \<^verbatim>\<open>packages/core/src/resilience\<close>: errors as the values that JavaScript
  code may throw, classification (\<^verbatim>\<open>classify.ts\<close>), budget stops (\<^verbatim>\<open>budget-stop.ts\<close>) and
  the summary of a chain of causes.

  Errors may be shared and cyclic (\<^verbatim>\<open>cause\<close>, \<^verbatim>\<open>errors\<close>), so an error object lives at an
  address of a heap and a value is a reference to it, a falsy value or another primitive;
  the two latter carry their \<^verbatim>\<open>String(value)\<close>. Fields hold data: getters that throw are not
  modelled. A number is rational (a finite double); not-a-number and the infinities fail the
  same tests as a value of another type.
\<close>

section \<open>Error values\<close>

datatype ErrorValue = Falsy string | Primitive string | Ref nat

datatype fieldValue = Absent | Number rat | OtherValue

record ErrorObject =
  eo_isError :: bool
  eo_isDOMException :: bool
  eo_name :: "string option"
  eo_message :: string
  eo_text :: string
  eo_status :: fieldValue
  eo_statusCode :: fieldValue
  eo_code :: "string option"
  eo_syscall :: "string option"
  eo_cause :: ErrorValue
  eo_errors :: "ErrorValue list option"
  eo_headers :: "(string \<times> string) list option"
  eo_innerHeaders :: "(string \<times> string) list option"
  eo_undelivered :: bool

type_synonym errorHeap = "nat \<Rightarrow> ErrorObject"

datatype AgentErrorType =
    RateLimit | Timeout | Network | ContextOverflow | Auth | InvalidRequest | ProviderError | ToolError | Aborted | UnknownError

fun truthyValue :: "ErrorValue \<Rightarrow> bool" where
  "truthyValue (Falsy s) = False"
| "truthyValue (Primitive s) = True"
| "truthyValue (Ref a) = True"

fun causeOf :: "errorHeap \<Rightarrow> ErrorValue \<Rightarrow> ErrorValue" where
  "causeOf h (Ref a) = eo_cause (h a)"
| "causeOf h v = Falsy ''undefined''"

fun innerErrors :: "errorHeap \<Rightarrow> ErrorValue \<Rightarrow> ErrorValue list option" where
  "innerErrors h (Ref a) = eo_errors (h a)"
| "innerErrors h v = None"

text \<open>\<^verbatim>\<open>error instanceof Error ? error.message : String(error)\<close>.\<close>

fun messageText :: "errorHeap \<Rightarrow> ErrorValue \<Rightarrow> string" where
  "messageText h (Ref a) = (if eo_isError (h a) then eo_message (h a) else eo_text (h a))"
| "messageText h (Primitive s) = s"
| "messageText h (Falsy s) = s"

fun isErrorInstance :: "errorHeap \<Rightarrow> ErrorValue \<Rightarrow> bool" where
  "isErrorInstance h (Ref a) = eo_isError (h a)"
| "isErrorInstance h v = False"

section \<open>Text\<close>

definition codeIn :: "nat \<Rightarrow> nat \<Rightarrow> char \<Rightarrow> bool" where
  "codeIn lo hi c = (lo \<le> of_char c \<and> of_char c \<le> hi)"

abbreviation isUpper :: "char \<Rightarrow> bool" where "isUpper \<equiv> codeIn 65 90"
abbreviation isLower :: "char \<Rightarrow> bool" where "isLower \<equiv> codeIn 97 122"
abbreviation isDigit :: "char \<Rightarrow> bool" where "isDigit \<equiv> codeIn 48 57"

fun includesText :: "string \<Rightarrow> string \<Rightarrow> bool" where
  "includesText needle [] = (needle = [])"
| "includesText needle (c # s) = (prefix needle (c # s) \<or> includesText needle s)"

text \<open>
  \<^verbatim>\<open>toLowerCase\<close> as far as a search for ASCII text can see it: ASCII letters, and the two
  other letters whose lower case has an ASCII letter, the Kelvin sign and the dotted capital I.
\<close>

fun js_lower :: "nat list \<Rightarrow> nat list" where
  "js_lower [] = []"
| "js_lower (a # s) =
     (if 65 \<le> a \<and> a \<le> 90 then (a + 32) # js_lower s
      else if a = 226 \<and> take 2 s = [132, 170] then 107 # js_lower (drop 2 s)
      else if a = 196 \<and> take 1 s = [176] then 105 # 204 # 135 # js_lower (drop 1 s)
      else a # js_lower s)"

definition lowerCase :: "string \<Rightarrow> string" where
  "lowerCase s = map char_of (js_lower (map of_char s))"

section \<open>Budget stops\<close>

text \<open>
  The pattern \<^verbatim>\<open>/^Resource [A-Za-z ]+ (?:tokens|calls|cost) exceeds budget$/u\<close>: the fixed
  prefix, a non-empty label, and one of the three fixed ends.
\<close>

definition matchesEnd :: "string \<Rightarrow> string \<Rightarrow> bool" where
  "matchesEnd measured message =
     (let body = drop 9 message; stop = '' '' @ measured @ '' exceeds budget''; n = length body - length stop
      in prefix ''Resource '' message \<and> length stop < length body \<and> drop n body = stop \<and>
         list_all (\<lambda>c. isUpper c \<or> isLower c \<or> c = CHR '' '') (take n body))"

definition BUDGET_EXCEEDED :: "string \<Rightarrow> bool" where
  "BUDGET_EXCEEDED message = (matchesEnd ''tokens'' message \<or> matchesEnd ''calls'' message \<or> matchesEnd ''cost'' message)"

definition AFTER_FAILURE :: string where
  "AFTER_FAILURE = ''Model usage budget exhausted while retrying after: ''"

definition isResourceBudgetExceeded :: "errorHeap \<Rightarrow> ErrorValue \<Rightarrow> bool" where
  "isResourceBudgetExceeded h e = (isErrorInstance h e \<and> BUDGET_EXCEEDED (messageText h e))"

text \<open>The message of the combined error; its \<^verbatim>\<open>cause\<close> is the budget error itself.\<close>

definition budgetStopAfterFailure :: "errorHeap \<Rightarrow> ErrorValue \<Rightarrow> string" where
  "budgetStopAfterFailure h prior = AFTER_FAILURE @ messageText h prior"

definition parseModelBudgetStop :: "string \<Rightarrow> string option option" where
  "parseModelBudgetStop message =
     (if prefix AFTER_FAILURE message then Some (Some (drop (length AFTER_FAILURE) message))
      else if BUDGET_EXCEEDED message then Some None else None)"

section \<open>Classification\<close>

definition isAbortError :: "errorHeap \<Rightarrow> ErrorValue \<Rightarrow> bool" where
  "isAbortError h e =
     (case e of Ref a \<Rightarrow> (eo_isDOMException (h a) \<or> eo_isError (h a)) \<and> eo_name (h a) = Some ''AbortError'' | _ \<Rightarrow> False)"

definition getStatusCode :: "errorHeap \<Rightarrow> ErrorValue \<Rightarrow> rat option" where
  "getStatusCode h e =
     (case e of
        Ref a \<Rightarrow> (case eo_status (h a) of Number s \<Rightarrow> if 100 \<le> s \<and> s < 600 then Some s else None | _ \<Rightarrow> None)
      | _ \<Rightarrow> None)"

definition getErrorCode :: "errorHeap \<Rightarrow> ErrorValue \<Rightarrow> string option" where
  "getErrorCode h e = (case e of Ref a \<Rightarrow> eo_code (h a) | _ \<Rightarrow> None)"

definition classifyHttpStatus :: "rat \<Rightarrow> AgentErrorType" where
  "classifyHttpStatus status =
     (if status = 401 \<or> status = 403 then Auth
      else if status = 429 then RateLimit
      else if status = 408 then Timeout
      else if status = 413 then ContextOverflow
      else if status = 400 then InvalidRequest
      else if status \<in> {500, 502, 503, 529} then ProviderError
      else if 400 \<le> status \<and> status < 500 then InvalidRequest
      else if 500 \<le> status then ProviderError
      else UnknownError)"

definition NETWORK_ERROR_CODES :: "string list" where
  "NETWORK_ERROR_CODES = [''ECONNRESET'', ''ECONNREFUSED'', ''ECONNABORTED'', ''ENOTFOUND'', ''EHOSTUNREACH'', ''ENETUNREACH'',
     ''EPIPE'', ''ETIMEDOUT'', ''EAI_AGAIN'', ''UND_ERR_CONNECT_TIMEOUT'', ''UND_ERR_SOCKET'', ''FETCH_ERROR'']"

definition UNSENT_ERROR_CODES :: "string list" where
  "UNSENT_ERROR_CODES = [''ECONNREFUSED'', ''ENOTFOUND'', ''EAI_AGAIN'', ''EHOSTUNREACH'', ''ENETUNREACH'']"

definition hasCode :: "errorHeap \<Rightarrow> string list \<Rightarrow> ErrorValue \<Rightarrow> bool" where
  "hasCode h codes e = (case getErrorCode h e of None \<Rightarrow> False | Some c \<Rightarrow> c \<noteq> [] \<and> c \<in> set codes)"

text \<open>The bounded search along the causes; the number counts the depth that is left.\<close>

fun networkInChain :: "errorHeap \<Rightarrow> nat \<Rightarrow> ErrorValue \<Rightarrow> bool" where
  "networkInChain h 0 v = False"
| "networkInChain h (Suc n) v =
     (truthyValue v \<and> (hasCode h NETWORK_ERROR_CODES v \<or> networkInChain h n (causeOf h v)))"

definition classifyByMessage :: "string \<Rightarrow> AgentErrorType" where
  "classifyByMessage message =
     (let has = (\<lambda>needle. includesText needle (lowerCase message)) in
      if has ''abort'' then Aborted
      else if has ''rate limit'' \<or> has ''too many requests'' then RateLimit
      else if has ''timeout'' \<or> has ''timed out'' \<or> has ''deadline'' then Timeout
      else if has ''econnreset'' \<or> has ''econnrefused'' \<or> has ''connection error'' \<or> has ''fetch failed'' \<or>
              has ''network'' \<or> has ''socket hang up'' \<or> has ''dns'' then Network
      else if has ''context'' \<and> (has ''overflow'' \<or> has ''too long'') then ContextOverflow
      else if has ''unauthorized'' \<or> has ''forbidden'' \<or> has ''api key'' then Auth
      else if has ''overloaded'' \<or> has ''capacity'' \<or> has ''529'' then ProviderError
      else UnknownError)"

definition classifyProviderError :: "errorHeap \<Rightarrow> ErrorValue \<Rightarrow> AgentErrorType" where
  "classifyProviderError h e =
     (if \<not> truthyValue e then UnknownError
      else if isAbortError h e then Aborted
      else if isErrorInstance h e \<and> parseModelBudgetStop (messageText h e) \<noteq> None then InvalidRequest
      else case getStatusCode h e of
        Some status \<Rightarrow> classifyHttpStatus status
      | None \<Rightarrow>
          if networkInChain h 5 e then Network
          else if isErrorInstance h e then classifyByMessage (messageText h e)
          else UnknownError)"

datatype RecoveryAction = RetryAction | SurfaceAction | AbortAction

record RecoveryStrategy =
  rs_action :: RecoveryAction
  rs_maxRetries :: nat
  rs_useBackoff :: bool

fun RECOVERY_MAP :: "AgentErrorType \<Rightarrow> RecoveryStrategy" where
  "RECOVERY_MAP RateLimit = \<lparr>rs_action = RetryAction, rs_maxRetries = 5, rs_useBackoff = True\<rparr>"
| "RECOVERY_MAP Timeout = \<lparr>rs_action = RetryAction, rs_maxRetries = 3, rs_useBackoff = True\<rparr>"
| "RECOVERY_MAP Network = \<lparr>rs_action = RetryAction, rs_maxRetries = 5, rs_useBackoff = True\<rparr>"
| "RECOVERY_MAP ProviderError = \<lparr>rs_action = RetryAction, rs_maxRetries = 2, rs_useBackoff = True\<rparr>"
| "RECOVERY_MAP UnknownError = \<lparr>rs_action = RetryAction, rs_maxRetries = 1, rs_useBackoff = True\<rparr>"
| "RECOVERY_MAP ContextOverflow = \<lparr>rs_action = SurfaceAction, rs_maxRetries = 0, rs_useBackoff = False\<rparr>"
| "RECOVERY_MAP Auth = \<lparr>rs_action = SurfaceAction, rs_maxRetries = 0, rs_useBackoff = False\<rparr>"
| "RECOVERY_MAP InvalidRequest = \<lparr>rs_action = SurfaceAction, rs_maxRetries = 0, rs_useBackoff = False\<rparr>"
| "RECOVERY_MAP ToolError = \<lparr>rs_action = SurfaceAction, rs_maxRetries = 0, rs_useBackoff = False\<rparr>"
| "RECOVERY_MAP Aborted = \<lparr>rs_action = AbortAction, rs_maxRetries = 0, rs_useBackoff = False\<rparr>"

definition getRecoveryStrategy :: "AgentErrorType \<Rightarrow> RecoveryStrategy" where
  "getRecoveryStrategy errorType = RECOVERY_MAP errorType"

section \<open>Delivery\<close>

definition CAUSE_CHAIN_LIMIT :: nat where
  "CAUSE_CHAIN_LIMIT = 8"

text \<open>\<^verbatim>\<open>isConnectPhaseFailure\<close> from a depth on; the number is \<^verbatim>\<open>CAUSE_CHAIN_LIMIT - depth\<close>.\<close>

fun connectScan :: "errorHeap \<Rightarrow> nat \<Rightarrow> bool \<Rightarrow> ErrorValue \<Rightarrow> bool" where
  "connectScan h 0 unsent v = (unsent \<and> \<not> truthyValue v)"
| "connectScan h (Suc n) unsent v =
     (if \<not> truthyValue v then unsent
      else if getStatusCode h v \<noteq> None then False
      else case innerErrors h v of
        Some (e # es) \<Rightarrow>
          if list_all (connectScan h n False) (e # es) then connectScan h n True (causeOf h v) else False
      | _ \<Rightarrow> connectScan h n (unsent \<or> hasCode h UNSENT_ERROR_CODES v) (causeOf h v))"

definition isConnectPhaseFailure :: "errorHeap \<Rightarrow> ErrorValue \<Rightarrow> bool" where
  "isConnectPhaseFailure h e = connectScan h CAUSE_CHAIN_LIMIT False e"

definition markRequestUndelivered :: "errorHeap \<Rightarrow> ErrorValue \<Rightarrow> errorHeap" where
  "markRequestUndelivered h e = (case e of Ref a \<Rightarrow> h(a := (h a)\<lparr>eo_undelivered := True\<rparr>) | _ \<Rightarrow> h)"

fun statusFree :: "errorHeap \<Rightarrow> nat \<Rightarrow> ErrorValue \<Rightarrow> bool" where
  "statusFree h 0 v = (\<not> truthyValue v)"
| "statusFree h (Suc n) v =
     (if \<not> truthyValue v then True else if getStatusCode h v \<noteq> None then False else statusFree h n (causeOf h v))"

definition providerRequestNeverSent :: "errorHeap \<Rightarrow> ErrorValue \<Rightarrow> bool" where
  "providerRequestNeverSent h e =
     (case e of Ref a \<Rightarrow> eo_undelivered (h a) \<and> statusFree h CAUSE_CHAIN_LIMIT e | _ \<Rightarrow> False)"

section \<open>The summary of a chain of causes\<close>

definition CAUSE_SUMMARY_NODES :: nat where
  "CAUSE_SUMMARY_NODES = 16"

definition CAUSE_SUMMARY_CHARS :: nat where
  "CAUSE_SUMMARY_CHARS = 512"

definition SAFE_ERROR_NAME :: "string \<Rightarrow> bool" where
  "SAFE_ERROR_NAME s =
     (case s of [] \<Rightarrow> False
      | c # cs \<Rightarrow> (isUpper c \<or> isLower c) \<and> length cs \<le> 40 \<and> list_all (\<lambda>d. isUpper d \<or> isLower d \<or> isDigit d) cs)"

definition SAFE_ERROR_CODE :: "string \<Rightarrow> bool" where
  "SAFE_ERROR_CODE s =
     (case s of [] \<Rightarrow> False
      | c # cs \<Rightarrow> isUpper c \<and> 1 \<le> length cs \<and> length cs \<le> 40 \<and>
          list_all (\<lambda>d. isUpper d \<or> isDigit d \<or> d = CHR ''_'') cs)"

definition SAFE_SYSCALL :: "string \<Rightarrow> bool" where
  "SAFE_SYSCALL s =
     (case s of [] \<Rightarrow> False
      | c # cs \<Rightarrow> isLower c \<and> length cs \<le> 20 \<and> list_all (\<lambda>d. isLower d \<or> isDigit d \<or> d = CHR ''_'') cs)"

definition safeOption :: "(string \<Rightarrow> bool) \<Rightarrow> string option \<Rightarrow> string" where
  "safeOption ok v = (case v of None \<Rightarrow> [] | Some s \<Rightarrow> if ok s then '' '' @ s else [])"

definition statusPart :: "ErrorObject \<Rightarrow> string" where
  "statusPart eo =
     (case (if eo_status eo = Absent then eo_statusCode eo else eo_status eo) of
        Number s \<Rightarrow> if of_int \<lfloor>s\<rfloor> = s \<and> 100 \<le> s \<and> s \<le> 599 then '' HTTP '' @ show_nat (nat \<lfloor>s\<rfloor>) else []
      | _ \<Rightarrow> [])"

text \<open>One layer: the class name and the fields that are present, separated by spaces.\<close>

definition causePart :: "ErrorObject \<Rightarrow> string" where
  "causePart eo =
     (case eo_name eo of Some s \<Rightarrow> if SAFE_ERROR_NAME s then s else ''Error'' | None \<Rightarrow> ''Error'') @
     safeOption SAFE_ERROR_CODE (eo_code eo) @ safeOption SAFE_SYSCALL (eo_syscall eo) @ statusPart eo"

record CauseState =
  cz_parts :: "string list"
  cz_seen :: "nat list"
  cz_budget :: nat

text \<open>The walk; the number is \<^verbatim>\<open>CAUSE_CHAIN_LIMIT - depth\<close>.\<close>

fun visitCause :: "errorHeap \<Rightarrow> nat \<Rightarrow> CauseState \<Rightarrow> ErrorValue \<Rightarrow> CauseState" where
  "visitCause h 0 st v = st"
| "visitCause h (Suc n) st v =
     (case v of
        Ref a \<Rightarrow>
          if cz_budget st = 0 \<or> a \<in> set (cz_seen st) then st
          else
            (let st1 = st\<lparr>cz_seen := a # cz_seen st, cz_budget := cz_budget st - 1,
                          cz_parts := cz_parts st @ [causePart (h a)]\<rparr>;
                 st2 = (case eo_errors (h a) of Some items \<Rightarrow> foldl (visitCause h n) st1 (take 4 items) | None \<Rightarrow> st1)
             in visitCause h n st2 (eo_cause (h a)))
      | _ \<Rightarrow> st)"

text \<open>
  Adjacent equal layers are counted. A layer contains no multiplication sign, so reading the
  count back from the rendered text, as the source does, gives the pair kept here.
\<close>

fun mergeParts :: "(string \<times> nat) list \<Rightarrow> string list \<Rightarrow> (string \<times> nat) list" where
  "mergeParts acc [] = acc"
| "mergeParts acc (p # ps) =
     (if acc \<noteq> [] \<and> fst (last acc) = p then mergeParts (butlast acc @ [(p, Suc (snd (last acc)))]) ps
      else mergeParts (acc @ [(p, 1)]) ps)"

text \<open>Summaries are lists of UTF-16 units: 215 is the multiplication sign, 8592 the arrow, 8230 the ellipsis.\<close>

fun renderPart :: "string \<times> nat \<Rightarrow> nat list" where
  "renderPart (p, n) = map of_char p @ (if n = 1 then [] else [32, 215] @ map of_char (show_nat n))"

fun joinUnits :: "nat list \<Rightarrow> nat list list \<Rightarrow> nat list" where
  "joinUnits sep [] = []"
| "joinUnits sep [x] = x"
| "joinUnits sep (x # y # ys) = x @ sep @ joinUnits sep (y # ys)"

definition errorCauseSummary :: "errorHeap \<Rightarrow> ErrorValue \<Rightarrow> nat list option" where
  "errorCauseSummary h e =
     (let parts = cz_parts (visitCause h CAUSE_CHAIN_LIMIT \<lparr>cz_parts = [], cz_seen = [], cz_budget = CAUSE_SUMMARY_NODES\<rparr> e) in
      if length parts < 2 \<or> \<not> list_ex (\<lambda>p. CHR '' '' \<in> set p) parts then None
      else
        (let summary = joinUnits [32, 8592, 32] (map renderPart (mergeParts [] parts)) in
         Some (if length summary \<le> CAUSE_SUMMARY_CHARS then summary else take (CAUSE_SUMMARY_CHARS - 1) summary @ [8230])))"

end
