(* ===== verification/Resilience_Retry.thy ===== *)
theory Resilience_Retry
  imports Resilience_Errors
begin

text \<open>
  Back-off (\<^verbatim>\<open>backoff.ts\<close>), the circuit breaker (\<^verbatim>\<open>circuit-breaker.ts\<close>) and the retrying
  stream (\<^verbatim>\<open>with-retry.ts\<close>).

  What the code reads from outside is an argument: the clock, the random number, the abort
  signals and the stream that the wrapped call produces at each attempt (\<open>AttemptEnv\<close>), and
  the number and date parsers of the platform. The generator is modelled by the list of its
  effects in order; a consumer that abandons the stream early sees a prefix of that list.
\<close>

section \<open>Back-off\<close>

record BackoffConfig =
  bc_baseDelayMs :: rat
  bc_maxDelayMs :: rat
  bc_jitter :: bool

definition DEFAULT_BACKOFF :: BackoffConfig where
  "DEFAULT_BACKOFF = \<lparr>bc_baseDelayMs = 500, bc_maxDelayMs = 30000, bc_jitter = True\<rparr>"

text \<open>\<open>random\<close> is the value of \<^verbatim>\<open>Math.random()\<close>, at least 0 and below 1.\<close>

definition computeBackoffDelay :: "rat \<Rightarrow> nat \<Rightarrow> BackoffConfig \<Rightarrow> rat" where
  "computeBackoffDelay random attempt config =
     (let exponential = bc_baseDelayMs config * 2 ^ attempt;
          capped = min exponential (bc_maxDelayMs config)
      in if \<not> bc_jitter config then capped else of_int \<lfloor>random * (capped + 1)\<rfloor>)"

record Platform =
  pf_heap :: errorHeap
  pf_number :: "string \<Rightarrow> rat option"
  pf_date :: "string \<Rightarrow> rat option"

definition getHeaders :: "errorHeap \<Rightarrow> ErrorValue \<Rightarrow> (string \<times> string) list option" where
  "getHeaders h e =
     (case e of Ref a \<Rightarrow> (case eo_headers (h a) of Some hs \<Rightarrow> Some hs | None \<Rightarrow> eo_innerHeaders (h a)) | _ \<Rightarrow> None)"

definition extractRetryAfterMs :: "Platform \<Rightarrow> rat \<Rightarrow> ErrorValue \<Rightarrow> rat option" where
  "extractRetryAfterMs pf now e =
     (case getHeaders (pf_heap pf) e of
        None \<Rightarrow> None
      | Some hs \<Rightarrow>
          (case orElse (map_of hs ''retry-after'') (orElse (map_of hs ''Retry-After'') (map_of hs ''x-ratelimit-reset'')) of
             None \<Rightarrow> None
           | Some asString \<Rightarrow>
               (case pf_number pf asString of
                  Some seconds \<Rightarrow>
                    if 0 \<le> seconds then Some (of_int \<lceil>seconds * 1000\<rceil>)
                    else map_option (\<lambda>date. if date - now > 0 then date - now else 0) (pf_date pf asString)
                | None \<Rightarrow> map_option (\<lambda>date. if date - now > 0 then date - now else 0) (pf_date pf asString))))"

definition resolveDelay :: "Platform \<Rightarrow> rat \<Rightarrow> rat \<Rightarrow> nat \<Rightarrow> ErrorValue \<Rightarrow> BackoffConfig \<Rightarrow> rat" where
  "resolveDelay pf now random attempt e config =
     (case extractRetryAfterMs pf now e of Some ms \<Rightarrow> ms | None \<Rightarrow> computeBackoffDelay random attempt config)"

text \<open>Whether \<^verbatim>\<open>sleep\<close> rejects, when its signal is aborted before or while it waits.\<close>

definition sleepRejects :: "rat \<Rightarrow> bool \<Rightarrow> bool" where
  "sleepRejects ms aborted = (\<not> ms \<le> 0 \<and> aborted)"

section \<open>Circuit breaker\<close>

datatype CircuitBreakerState = Closed | Open | HalfOpen

record CircuitBreakerConfig =
  cb_maxFailures :: int
  cb_resetAfterMs :: "rat option"

record CircuitBreaker =
  br_config :: CircuitBreakerConfig
  br_state :: CircuitBreakerState
  br_failureCount :: nat
  br_lastFailureTime :: rat

datatype RangeError = MaxFailuresTooSmall

definition newCircuitBreaker :: "CircuitBreakerConfig \<Rightarrow> (RangeError, CircuitBreaker) result" where
  "newCircuitBreaker config =
     (if cb_maxFailures config < 1 then Inl MaxFailuresTooSmall
      else Inr \<lparr>br_config = config, br_state = Closed, br_failureCount = 0, br_lastFailureTime = 0\<rparr>)"

text \<open>The getter \<^verbatim>\<open>state\<close> may move an open breaker to half-open; it returns the breaker after that.\<close>

definition readState :: "rat \<Rightarrow> CircuitBreaker \<Rightarrow> CircuitBreaker" where
  "readState now b =
     (case (br_state b, cb_resetAfterMs (br_config b)) of
        (Open, Some ms) \<Rightarrow> if now - br_lastFailureTime b \<ge> ms then b\<lparr>br_state := HalfOpen\<rparr> else b
      | _ \<Rightarrow> b)"

definition isAllowed :: "rat \<Rightarrow> CircuitBreaker \<Rightarrow> bool \<times> CircuitBreaker" where
  "isAllowed now b = (let b' = readState now b in (br_state b' = Closed \<or> br_state b' = HalfOpen, b'))"

definition recordSuccess :: "CircuitBreaker \<Rightarrow> CircuitBreaker" where
  "recordSuccess b = b\<lparr>br_failureCount := 0, br_state := Closed\<rparr>"

definition recordFailure :: "rat \<Rightarrow> CircuitBreaker \<Rightarrow> CircuitBreaker" where
  "recordFailure now b =
     (let b1 = b\<lparr>br_failureCount := Suc (br_failureCount b), br_lastFailureTime := now\<rparr> in
      if br_state b1 = HalfOpen then b1\<lparr>br_state := Open\<rparr>
      else if int (br_failureCount b1) \<ge> cb_maxFailures (br_config b1) then b1\<lparr>br_state := Open\<rparr> else b1)"

definition resetBreaker :: "CircuitBreaker \<Rightarrow> CircuitBreaker" where
  "resetBreaker b = b\<lparr>br_state := Closed, br_failureCount := 0, br_lastFailureTime := 0\<rparr>"

section \<open>Streams\<close>

datatype StopReason = EndTurn | ToolUse | MaxTokens | StopSequence

datatype StreamEvent =
    MessageStart "string option"
  | TextDelta string
  | ThinkingBlockStart
  | ThinkingDelta string
  | ThinkingBlockEnd "string option"
  | ToolCallStart string string
  | ToolCallDelta string string
  | ToolCallEnd string
  | MessageEnd StopReason TokenUsage
  | StreamError ErrorValue

fun CONTENT_EVENT_TYPES :: "StreamEvent \<Rightarrow> bool" where
  "CONTENT_EVENT_TYPES (TextDelta s) = True"
| "CONTENT_EVENT_TYPES (ThinkingDelta s) = True"
| "CONTENT_EVENT_TYPES (ToolCallStart i n) = True"
| "CONTENT_EVENT_TYPES (ToolCallDelta i a) = True"
| "CONTENT_EVENT_TYPES (ToolCallEnd i) = True"
| "CONTENT_EVENT_TYPES e = False"

text \<open>
  One pass over the stream of an attempt, which yields events and then finishes or throws:
  the events passed on, whether content was among them, and the error. An error event ends
  the loop; one without an error value counts as a normal end, as in the source.
\<close>

fun consumeStream :: "StreamEvent list \<Rightarrow> ErrorValue option \<Rightarrow> StreamEvent list \<times> bool \<times> ErrorValue option" where
  "consumeStream [] thrown = ([], False, thrown)"
| "consumeStream (StreamError e # evs) thrown = ([], False, if truthyValue e then Some e else None)"
| "consumeStream (ev # evs) thrown =
     (case consumeStream evs thrown of (ys, content, r) \<Rightarrow> (ev # ys, CONTENT_EVENT_TYPES ev \<or> content, r))"

section \<open>The retrying stream\<close>

record RetryConfig =
  rc_maxRetries :: int
  rc_backoff :: BackoffConfig
  rc_retryableTypes :: "AgentErrorType list"

definition DEFAULT_RETRYABLE_TYPES :: "AgentErrorType list" where
  "DEFAULT_RETRYABLE_TYPES = [RateLimit, Timeout, Network, ProviderError, UnknownError]"

definition DEFAULT_RETRY_CONFIG :: RetryConfig where
  "DEFAULT_RETRY_CONFIG = \<lparr>rc_maxRetries = 3, rc_backoff = DEFAULT_BACKOFF, rc_retryableTypes = DEFAULT_RETRYABLE_TYPES\<rparr>"

text \<open>The error object handed to the consumer: the one received, or a new one.\<close>

datatype DeliveredError =
    OriginalError ErrorValue
  | BreakerOpenError nat
  | RetryAbortedError
  | BudgetStopError string ErrorValue
  | TextError string

datatype RetryEffect =
    YieldEvent StreamEvent
  | YieldError DeliveredError
  | CallLLM
  | Sleep rat
  | EmitRetryAttempt AgentErrorType nat int rat "nat list option"
  | EmitRetrySuccess AgentErrorType nat
  | EmitRetryExhausted AgentErrorType nat string "nat list option"

text \<open>What attempt number \<open>n\<close> reads from outside, in the order of the code.\<close>

record AttemptEnv =
  ae_abortedBefore :: bool
  ae_nowAllowed :: rat
  ae_nowDelay :: rat
  ae_random :: rat
  ae_sleepAborted :: bool
  ae_events :: "StreamEvent list"
  ae_throws :: "ErrorValue option"
  ae_abortedAfter :: bool
  ae_nowFailure :: rat

definition emitOn :: "bool \<Rightarrow> RetryEffect \<Rightarrow> RetryEffect list" where
  "emitOn bus eff = (if bus then [eff] else [])"

definition emitRetryAttempt :: "bool \<Rightarrow> errorHeap \<Rightarrow> ErrorValue \<Rightarrow> nat \<Rightarrow> int \<Rightarrow> rat \<Rightarrow> RetryEffect list" where
  "emitRetryAttempt bus h e attempt maxRetries delayMs =
     emitOn bus (EmitRetryAttempt (classifyProviderError h e) attempt maxRetries delayMs (errorCauseSummary h e))"

definition emitRetrySuccess :: "bool \<Rightarrow> errorHeap \<Rightarrow> ErrorValue \<Rightarrow> nat \<Rightarrow> RetryEffect list" where
  "emitRetrySuccess bus h e attemptsTaken = emitOn bus (EmitRetrySuccess (classifyProviderError h e) attemptsTaken)"

definition emitRetryExhausted :: "bool \<Rightarrow> errorHeap \<Rightarrow> ErrorValue \<Rightarrow> nat \<Rightarrow> RetryEffect list" where
  "emitRetryExhausted bus h e totalAttempts =
     emitOn bus (EmitRetryExhausted (classifyProviderError h e) totalAttempts (messageText h e) (errorCauseSummary h e))"

definition deliveredError :: "errorHeap \<Rightarrow> nat \<Rightarrow> ErrorValue \<Rightarrow> ErrorValue \<Rightarrow> DeliveredError" where
  "deliveredError h attempt previous e =
     (if attempt > 0 \<and> isResourceBudgetExceeded h e then BudgetStopError (budgetStopAfterFailure h previous) e
      else if isErrorInstance h e then OriginalError e else TextError (messageText h e))"

text \<open>The wait before a repeated attempt.\<close>

definition retryDelay :: "Platform \<Rightarrow> RetryConfig \<Rightarrow> AttemptEnv \<Rightarrow> ErrorValue \<Rightarrow> nat \<Rightarrow> rat" where
  "retryDelay pf cfg en lastError attempt =
     resolveDelay pf (ae_nowDelay en) (ae_random en) (attempt - 1) lastError (rc_backoff cfg)"

definition waitEffects :: "Platform \<Rightarrow> RetryConfig \<Rightarrow> bool \<Rightarrow> AttemptEnv \<Rightarrow> ErrorValue \<Rightarrow> nat \<Rightarrow> RetryEffect list" where
  "waitEffects pf cfg bus en lastError attempt =
     (if attempt > 0
      then emitRetryAttempt bus (pf_heap pf) lastError attempt (rc_maxRetries cfg) (retryDelay pf cfg en lastError attempt) @
           [Sleep (retryDelay pf cfg en lastError attempt)]
      else [])"

text \<open>Whether the loop ends with this error: content streamed, not retryable, or the last attempt.\<close>

definition isRetryable :: "Platform \<Rightarrow> RetryConfig \<Rightarrow> ErrorValue \<Rightarrow> bool" where
  "isRetryable pf cfg e = (classifyProviderError (pf_heap pf) e \<in> set (rc_retryableTypes cfg))"

function retryFrom ::
  "Platform \<Rightarrow> RetryConfig \<Rightarrow> bool \<Rightarrow> (nat \<Rightarrow> AttemptEnv) \<Rightarrow> ErrorValue \<Rightarrow> CircuitBreaker \<Rightarrow> nat \<Rightarrow>
     RetryEffect list \<times> CircuitBreaker" where
  "retryFrom pf cfg bus env lastError b attempt =
     (if int attempt > rc_maxRetries cfg then ([], b)
      else if ae_abortedBefore (env attempt) then ([], b)
      else case isAllowed (ae_nowAllowed (env attempt)) b of
        (False, b1) \<Rightarrow>
          (emitRetryExhausted bus (pf_heap pf) lastError attempt @ [YieldError (BreakerOpenError (br_failureCount b1))], b1)
      | (True, b1) \<Rightarrow>
          if attempt > 0 \<and> sleepRejects (retryDelay pf cfg (env attempt) lastError attempt) (ae_sleepAborted (env attempt))
          then (waitEffects pf cfg bus (env attempt) lastError attempt @ [YieldError RetryAbortedError], b1)
          else case consumeStream (ae_events (env attempt)) (ae_throws (env attempt)) of
            (ys, content, None) \<Rightarrow>
              (waitEffects pf cfg bus (env attempt) lastError attempt @ CallLLM # map YieldEvent ys @
               (if attempt > 0 then emitRetrySuccess bus (pf_heap pf) lastError attempt else []), recordSuccess b1)
          | (ys, content, Some e) \<Rightarrow>
              if ae_abortedAfter (env attempt)
              then (waitEffects pf cfg bus (env attempt) lastError attempt @ CallLLM # map YieldEvent ys, b1)
              else if content \<or> \<not> isRetryable pf cfg e \<or> int attempt \<ge> rc_maxRetries cfg
              then (waitEffects pf cfg bus (env attempt) lastError attempt @ CallLLM # map YieldEvent ys @
                    (if int attempt \<ge> rc_maxRetries cfg \<and> isRetryable pf cfg e \<and> \<not> content
                     then emitRetryExhausted bus (pf_heap pf) e (attempt + 1) else []) @
                    [YieldError (deliveredError (pf_heap pf) attempt lastError e)],
                    recordFailure (ae_nowFailure (env attempt)) b1)
              else case retryFrom pf cfg bus env e (recordFailure (ae_nowFailure (env attempt)) b1) (Suc attempt) of
                (effs, b2) \<Rightarrow>
                  (waitEffects pf cfg bus (env attempt) lastError attempt @ CallLLM # map YieldEvent ys @ effs, b2))"
  by pat_completeness auto

termination
  by (relation "measure (\<lambda>(pf, cfg, bus, env, lastError, b, attempt). nat (rc_maxRetries cfg + 1 - int attempt))") auto

declare retryFrom.simps [simp del]

definition retryableStream ::
  "Platform \<Rightarrow> RetryConfig \<Rightarrow> bool \<Rightarrow> (nat \<Rightarrow> AttemptEnv) \<Rightarrow> CircuitBreaker \<Rightarrow> RetryEffect list \<times> CircuitBreaker" where
  "retryableStream pf cfg bus env b = retryFrom pf cfg bus env (Falsy ''undefined'') b 0"

text \<open>
  \<^verbatim>\<open>withRetry\<close>: the breaker passed in, or one of its own that opens after
  \<^verbatim>\<open>maxRetries + 1\<close> failures and never resets by itself; the wrapper keeps it over all requests.
\<close>

definition withRetry :: "RetryConfig \<Rightarrow> CircuitBreaker option \<Rightarrow> (RangeError, CircuitBreaker) result" where
  "withRetry cfg circuitBreaker =
     (case circuitBreaker of
        Some b \<Rightarrow> Inr b
      | None \<Rightarrow> newCircuitBreaker \<lparr>cb_maxFailures = rc_maxRetries cfg + 1, cb_resetAfterMs = None\<rparr>)"

fun wrappedRequests ::
  "Platform \<Rightarrow> RetryConfig \<Rightarrow> bool \<Rightarrow> CircuitBreaker \<Rightarrow> (nat \<Rightarrow> AttemptEnv) list \<Rightarrow> RetryEffect list list \<times> CircuitBreaker" where
  "wrappedRequests pf cfg bus b [] = ([], b)"
| "wrappedRequests pf cfg bus b (env # envs) =
     (case retryableStream pf cfg bus env b of
        (effs, b1) \<Rightarrow> (case wrappedRequests pf cfg bus b1 envs of (rest, b2) \<Rightarrow> (effs # rest, b2)))"

end
