(* ===== verification/Resilience_Trace.thy ===== *)
theory Resilience_Trace
  imports Resilience_Retry
begin

text \<open>
  Reasoning about the effects of the retrying stream. \<open>retryFrom_cases\<close> lists the five shapes
  one attempt can have; the locale \<open>retry_trace\<close> turns a property of effect lists that is
  closed under them into a property of the stream, and is interpreted for the number of
  calls, the place of the error and the content. The last section is the circuit breaker
  against a reference that reads only the history of operations.
\<close>

section \<open>The shapes of an attempt\<close>

fun bare :: "RetryEffect \<Rightarrow> bool" where
  "bare (YieldEvent ev) = False"
| "bare (YieldError e) = False"
| "bare CallLLM = False"
| "bare eff = True"

definition streamOf :: "(nat \<Rightarrow> AttemptEnv) \<Rightarrow> nat \<Rightarrow> StreamEvent list \<times> bool \<times> ErrorValue option" where
  "streamOf env n = consumeStream (ae_events (env n)) (ae_throws (env n))"

lemma bare_emit [simp]:
  "list_all bare (emitRetryAttempt bus h e n m d)"
  "list_all bare (emitRetrySuccess bus h e n)"
  "list_all bare (emitRetryExhausted bus h e n)"
  by (simp_all add: emitRetryAttempt_def emitRetrySuccess_def emitRetryExhausted_def emitOn_def)

lemma bare_wait [simp]: "list_all bare (waitEffects pf cfg bus en e n)"
  by (simp add: waitEffects_def)

lemma retryFrom_cases:
  obtains (none) "int n > rc_maxRetries cfg \<or> ae_abortedBefore (env n)" "fst (retryFrom pf cfg bus env lastError b n) = []"
  | (refused) pre err where "list_all bare pre" "fst (retryFrom pf cfg bus env lastError b n) = pre @ [YieldError err]"
  | (ended) pre ys content r post where "list_all bare pre" "list_all bare post" "int n \<le> rc_maxRetries cfg"
      "streamOf env n = (ys, content, r)"
      "r = None \<and> (\<exists>b'. snd (retryFrom pf cfg bus env lastError b n) = recordSuccess b') \<or> ae_abortedAfter (env n)"
      "fst (retryFrom pf cfg bus env lastError b n) = pre @ CallLLM # map YieldEvent ys @ post"
  | (failed) pre ys content r post err where "list_all bare pre" "list_all bare post" "int n \<le> rc_maxRetries cfg"
      "streamOf env n = (ys, content, r)"
      "fst (retryFrom pf cfg bus env lastError b n) = pre @ CallLLM # map YieldEvent ys @ post @ [YieldError err]"
  | (again) pre ys e b' where "list_all bare pre" "int n < rc_maxRetries cfg" "streamOf env n = (ys, False, Some e)"
      "retryFrom pf cfg bus env lastError b n =
         (pre @ CallLLM # map YieldEvent ys @ fst (retryFrom pf cfg bus env e b' (Suc n)), snd (retryFrom pf cfg bus env e b' (Suc n)))"
proof -
  obtain ok b1 where al: "isAllowed (ae_nowAllowed (env n)) b = (ok, b1)" by (cases "isAllowed (ae_nowAllowed (env n)) b")
  obtain ys content r where st: "streamOf env n = (ys, content, r)" by (cases "streamOf env n")
  note step = retryFrom.simps [of pf cfg bus env lastError b n]
  note st' = st [unfolded streamOf_def]
  let ?w = "waitEffects pf cfg bus (env n) lastError n"
  show thesis
  proof (cases "int n > rc_maxRetries cfg \<or> ae_abortedBefore (env n)")
    case True then show thesis by (intro none) (auto simp: step)
  next
    case go: False
    show thesis
    proof (cases "ok \<and> \<not> (n > 0 \<and> sleepRejects (retryDelay pf cfg (env n) lastError n) (ae_sleepAborted (env n)))")
      case False
      show thesis
      proof (cases ok)
        case True
        with False go al show thesis by (intro refused [of ?w RetryAbortedError]) (auto simp: step)
      next
        case no: False
        with go al show thesis
          by (intro refused [of "emitRetryExhausted bus (pf_heap pf) lastError n" "BreakerOpenError (br_failureCount b1)"])
            (auto simp: step)
      qed
    next
      case run: True
      show thesis
      proof (cases r)
        case None
        then show thesis using go al run st st' by (intro ended [of ?w "if n > 0 then emitRetrySuccess bus (pf_heap pf) lastError n else []"]) (auto simp: step)
      next
        case (Some e)
        consider (silent) "ae_abortedAfter (env n)"
          | (last) "\<not> ae_abortedAfter (env n)" "content \<or> \<not> isRetryable pf cfg e \<or> int n \<ge> rc_maxRetries cfg"
          | (retry) "\<not> ae_abortedAfter (env n)" "\<not> content" "isRetryable pf cfg e" "int n < rc_maxRetries cfg" by fastforce
        then show thesis
        proof cases
          case silent
          then show thesis using go al run st st' Some by (intro ended [of ?w "[]"]) (auto simp: step)
        next
          case last
          then show thesis using go al run st st' Some
            by (intro failed [of ?w "if int n \<ge> rc_maxRetries cfg \<and> isRetryable pf cfg e \<and> \<not> content
                  then emitRetryExhausted bus (pf_heap pf) e (n + 1) else []"]) (auto simp: step)
        next
          case retry
          then show thesis using go al run st st' Some
            by (intro again [of ?w ys e "recordFailure (ae_nowFailure (env n)) b1"]) (auto simp: step split: prod.splits)
        qed
      qed
    qed
  qed
qed

section \<open>Properties of traces\<close>

locale retry_trace =
  fixes cfg :: RetryConfig and env :: "nat \<Rightarrow> AttemptEnv" and P :: "nat \<Rightarrow> RetryEffect list \<Rightarrow> bool"
  assumes none: "P n []"
    and refused: "list_all bare pre \<Longrightarrow> P n (pre @ [YieldError err])"
    and ended: "list_all bare pre \<Longrightarrow> list_all bare post \<Longrightarrow> int n \<le> rc_maxRetries cfg \<Longrightarrow>
      streamOf env n = (ys, content, r) \<Longrightarrow> P n (pre @ CallLLM # map YieldEvent ys @ post)"
    and failed: "list_all bare pre \<Longrightarrow> list_all bare post \<Longrightarrow> int n \<le> rc_maxRetries cfg \<Longrightarrow>
      streamOf env n = (ys, content, r) \<Longrightarrow> P n (pre @ CallLLM # map YieldEvent ys @ post @ [YieldError err])"
    and again: "list_all bare pre \<Longrightarrow> int n < rc_maxRetries cfg \<Longrightarrow> streamOf env n = (ys, False, Some e) \<Longrightarrow>
      P (Suc n) effs \<Longrightarrow> P n (pre @ CallLLM # map YieldEvent ys @ effs)"
begin

lemma holds: "P n (fst (retryFrom pf cfg bus env lastError b n))"
proof (induction "nat (rc_maxRetries cfg + 1 - int n)" arbitrary: n lastError b rule: less_induct)
  case less
  show ?case
  proof (cases rule: retryFrom_cases [where pf = pf and cfg = cfg and bus = bus and env = env and lastError = lastError and b = b and n = n])
    case again': (again pre ys e b')
    have "P (Suc n) (fst (retryFrom pf cfg bus env e b' (Suc n)))" by (rule less) (use again'(2) in simp)
    then show ?thesis using again again'(1-4) by simp
  qed (use none refused ended failed in simp_all)
qed

end

fun callCount :: "RetryEffect list \<Rightarrow> nat" where
  "callCount [] = 0"
| "callCount (eff # effs) = (if eff = CallLLM then 1 else 0) + callCount effs"

fun errorOnlyLast :: "RetryEffect list \<Rightarrow> bool" where
  "errorOnlyLast [] = True"
| "errorOnlyLast (eff # effs) = ((case eff of YieldError e \<Rightarrow> effs = [] | YieldEvent (StreamError e) \<Rightarrow> False | _ \<Rightarrow> True) \<and> errorOnlyLast effs)"

fun yieldsContent :: "RetryEffect \<Rightarrow> bool" where
  "yieldsContent (YieldEvent ev) = CONTENT_EVENT_TYPES ev"
| "yieldsContent eff = False"

fun noCallAfterContent :: "RetryEffect list \<Rightarrow> bool" where
  "noCallAfterContent [] = True"
| "noCallAfterContent (eff # effs) = ((yieldsContent eff \<longrightarrow> CallLLM \<notin> set effs) \<and> noCallAfterContent effs)"

lemma callCount_append [simp]: "callCount (xs @ ys) = callCount xs + callCount ys"
  by (induction xs) auto

lemma callCount_bare [simp]: "list_all bare xs \<Longrightarrow> callCount xs = 0"
  by (induction xs) auto

lemma callCount_yields [simp]: "callCount (map YieldEvent ys) = 0"
  by (induction ys) auto

lemma callCount_zero: "callCount effs = 0 \<longleftrightarrow> CallLLM \<notin> set effs"
  by (induction effs) auto

lemma bare_not_call: "list_all bare xs \<Longrightarrow> CallLLM \<notin> set xs"
  by (induction xs) auto

interpretation calls: retry_trace cfg env "\<lambda>n effs. callCount effs \<le> nat (rc_maxRetries cfg + 1 - int n)" for cfg env
  by unfold_locales auto

lemma consume_no_error:
  "consumeStream evs thrown = (ys, content, r) \<Longrightarrow> StreamError e \<notin> set ys"
  by (induction evs thrown arbitrary: ys content r rule: consumeStream.induct) (auto split: prod.splits)

lemma consume_content:
  "consumeStream evs thrown = (ys, content, r) \<Longrightarrow> content \<longleftrightarrow> (\<exists>ev \<in> set ys. CONTENT_EVENT_TYPES ev)"
  by (induction evs thrown arbitrary: ys content r rule: consumeStream.induct) (auto split: prod.splits)

lemma errorOnlyLast_bare: "list_all bare xs \<Longrightarrow> errorOnlyLast (xs @ ys) \<longleftrightarrow> errorOnlyLast ys"
  by (induction xs) (auto split: RetryEffect.splits)

lemma errorOnlyLast_yields:
  "\<forall>e. StreamError e \<notin> set ys \<Longrightarrow> errorOnlyLast (map YieldEvent ys @ zs) \<longleftrightarrow> errorOnlyLast zs"
proof (induction ys)
  case (Cons y ys)
  then show ?case by (cases y) auto
qed simp

lemma streamOf_no_error: "streamOf env n = (ys, content, r) \<Longrightarrow> \<forall>e. StreamError e \<notin> set ys"
  using consume_no_error unfolding streamOf_def by blast

interpretation errors: retry_trace cfg env "\<lambda>n effs. errorOnlyLast effs" for cfg env
proof unfold_locales
  show "list_all bare pre \<Longrightarrow> errorOnlyLast (pre @ [YieldError err])" for pre err by (simp add: errorOnlyLast_bare)
  have "list_all bare post \<Longrightarrow> errorOnlyLast post" for post using errorOnlyLast_bare [of post "[]"] by simp
  then show "list_all bare pre \<Longrightarrow> list_all bare post \<Longrightarrow> int n \<le> rc_maxRetries cfg \<Longrightarrow> streamOf env n = (ys, content, r) \<Longrightarrow>
      errorOnlyLast (pre @ CallLLM # map YieldEvent ys @ post)" for pre post n ys content r
    using streamOf_no_error [of env n ys content r] by (simp add: errorOnlyLast_bare errorOnlyLast_yields)
qed (use streamOf_no_error in \<open>auto simp: errorOnlyLast_bare errorOnlyLast_yields\<close>)

lemma noCall_append:
  "noCallAfterContent (xs @ ys) \<longleftrightarrow>
     noCallAfterContent xs \<and> noCallAfterContent ys \<and> (list_ex yieldsContent xs \<longrightarrow> CallLLM \<notin> set ys)"
  by (induction xs) auto

lemma noCall_no_call: "CallLLM \<notin> set xs \<Longrightarrow> noCallAfterContent xs"
  by (induction xs) auto

lemma bare_no_content: "list_all bare xs \<Longrightarrow> \<not> list_ex yieldsContent xs"
  by (induction xs) (auto, metis bare.simps(1) yieldsContent.elims(2))

lemma yields_content: "list_ex yieldsContent (map YieldEvent ys) \<longleftrightarrow> (\<exists>ev \<in> set ys. CONTENT_EVENT_TYPES ev)"
  by (induction ys) auto

lemmas noCall_simps = noCall_append noCall_no_call bare_no_content bare_not_call yields_content image_iff

interpretation content: retry_trace cfg env "\<lambda>n effs. noCallAfterContent effs" for cfg env
proof unfold_locales
  show "list_all bare pre \<Longrightarrow> int n < rc_maxRetries cfg \<Longrightarrow> streamOf env n = (ys, False, Some e) \<Longrightarrow>
      noCallAfterContent effs \<Longrightarrow> noCallAfterContent (pre @ CallLLM # map YieldEvent ys @ effs)" for pre n ys e effs
    using consume_content [of _ _ ys False "Some e"] unfolding streamOf_def by (auto simp: noCall_simps)
qed (auto simp: noCall_simps)

section \<open>The breaker and its history\<close>

datatype BreakerOp = Succeeded | FailedOp | Queried | ResetOp

fun applyOp :: "rat \<times> BreakerOp \<Rightarrow> CircuitBreaker \<Rightarrow> CircuitBreaker" where
  "applyOp (t, Succeeded) b = recordSuccess b"
| "applyOp (t, FailedOp) b = recordFailure t b"
| "applyOp (t, Queried) b = snd (isAllowed t b)"
| "applyOp (t, ResetOp) b = resetBreaker b"

text \<open>The reference: consecutive failures and the time of the last one.\<close>

fun noteOp :: "rat \<times> BreakerOp \<Rightarrow> nat \<times> rat \<Rightarrow> nat \<times> rat" where
  "noteOp (t, Succeeded) (c, l) = (0, l)"
| "noteOp (t, FailedOp) (c, l) = (Suc c, t)"
| "noteOp (t, Queried) (c, l) = (c, l)"
| "noteOp (t, ResetOp) (c, l) = (0, 0)"

definition tracks :: "CircuitBreakerConfig \<Rightarrow> rat \<Rightarrow> CircuitBreaker \<Rightarrow> nat \<times> rat \<Rightarrow> bool" where
  "tracks config t b hist =
     (br_config b = config \<and> br_failureCount b = fst hist \<and>
      (br_state b = Closed \<longleftrightarrow> int (fst hist) < cb_maxFailures config) \<and>
      (br_state b \<noteq> Closed \<longrightarrow> br_lastFailureTime b = snd hist) \<and>
      (br_state b = HalfOpen \<longrightarrow> (\<exists>ms. cb_resetAfterMs config = Some ms \<and> t - snd hist \<ge> ms)))"

lemma tracks_later: "tracks config t b hist \<Longrightarrow> t \<le> t' \<Longrightarrow> tracks config t' b hist"
  unfolding tracks_def by force

lemma tracks_op:
  assumes "cb_maxFailures config \<ge> 1" "tracks config t b hist"
  shows "tracks config t (applyOp (t, op) b) (noteOp (t, op) hist)"
proof (cases hist)
  case (Pair c l)
  show ?thesis
  proof (cases op)
    case FailedOp
    then show ?thesis using assms Pair
      by (cases "br_state b") (auto simp: tracks_def recordFailure_def Let_def)
  next
    case Queried
    then show ?thesis using assms Pair
      by (auto simp: tracks_def isAllowed_def readState_def Let_def split: CircuitBreakerState.splits option.splits)
  qed (use assms Pair in \<open>auto simp: tracks_def recordSuccess_def resetBreaker_def\<close>)
qed

lemma tracks_run:
  "cb_maxFailures config \<ge> 1 \<Longrightarrow> tracks config t b hist \<Longrightarrow> sorted (map fst ops) \<Longrightarrow> \<forall>x \<in> set ops. t \<le> fst x \<and> fst x \<le> now \<Longrightarrow>
   t \<le> now \<Longrightarrow> tracks config now (fold applyOp ops b) (fold noteOp ops hist)"
proof (induction ops arbitrary: t b hist)
  case Nil
  then show ?case using tracks_later by simp
next
  case (Cons x ops)
  obtain u op where x: "x = (u, op)" by (cases x)
  have "tracks config u b hist" using tracks_later [OF Cons.prems(2)] Cons.prems(4) x by simp
  then have "tracks config u (applyOp x b) (noteOp x hist)" using tracks_op [OF Cons.prems(1)] x by simp
  from Cons.IH [OF Cons.prems(1) this] show ?case using Cons.prems(3,4) x by (auto simp: sorted_wrt.simps)
qed

lemma tracks_allowed:
  "tracks config now b hist \<Longrightarrow>
   fst (isAllowed now b) \<longleftrightarrow>
     int (fst hist) < cb_maxFailures config \<or> (\<exists>ms. cb_resetAfterMs config = Some ms \<and> now - snd hist \<ge> ms)"
  unfolding tracks_def isAllowed_def readState_def Let_def
  by (cases "br_state b"; cases "cb_resetAfterMs config") auto

lemma tracks_new: "newCircuitBreaker config = Inr b \<Longrightarrow> tracks config t b (0, 0) \<and> cb_maxFailures config \<ge> 1"
  by (auto simp: newCircuitBreaker_def tracks_def split: if_splits)

end
