(* ===== verification/Resilience_Correctness.thy ===== *)
theory Resilience_Correctness
  imports Resilience_Trace
begin

text \<open>
  The correctness properties of the resilience kernel: the retrying stream, its breaker and
  back-off, the classification of budget stops, delivery and the summary of causes.
\<close>

section \<open>A concrete platform\<close>

definition plainError :: ErrorObject where
  "plainError = \<lparr>eo_isError = True, eo_isDOMException = False, eo_name = Some ''Error'', eo_message = ''boom'', eo_text = ''Error: boom'',
     eo_status = Absent, eo_statusCode = Absent, eo_code = None, eo_syscall = None, eo_cause = Falsy ''undefined'', eo_errors = None,
     eo_headers = None, eo_innerHeaders = None, eo_undelivered = False\<rparr>"

text \<open>Address 0: a refused connection behind a wrapper at 1; 2: a budget error; 3: a cyclic error.\<close>

definition demoHeap :: errorHeap where
  "demoHeap a =
     (if a = 0 then plainError\<lparr>eo_code := Some ''ECONNREFUSED'', eo_syscall := Some ''connect''\<rparr>
      else if a = 1 then plainError\<lparr>eo_name := Some ''TypeError'', eo_message := ''fetch failed'', eo_cause := Ref 0\<rparr>
      else if a = 2 then plainError\<lparr>eo_message := ''Resource run tokens exceeds budget''\<rparr>
      else plainError\<lparr>eo_cause := Ref 3\<rparr>)"

definition demoPlatform :: Platform where
  "demoPlatform = \<lparr>pf_heap = demoHeap, pf_number = (\<lambda>s. None), pf_date = (\<lambda>s. None)\<rparr>"

definition attemptWith :: "StreamEvent list \<Rightarrow> ErrorValue option \<Rightarrow> AttemptEnv" where
  "attemptWith evs thrown = \<lparr>ae_abortedBefore = False, ae_nowAllowed = 0, ae_nowDelay = 0, ae_random = 1 / 2, ae_sleepAborted = False,
     ae_events = evs, ae_throws = thrown, ae_abortedAfter = False, ae_nowFailure = 0\<rparr>"

definition demoBreaker :: CircuitBreaker where
  "demoBreaker = \<lparr>br_config = \<lparr>cb_maxFailures = 4, cb_resetAfterMs = None\<rparr>, br_state = Closed, br_failureCount = 0, br_lastFailureTime = 0\<rparr>"

text \<open>The first attempt fails to connect, the second one answers.\<close>

definition demoEnv :: "nat \<Rightarrow> AttemptEnv" where
  "demoEnv n = (if n = 0 then attemptWith [MessageStart None] (Some (Ref 1)) else attemptWith [MessageStart None, TextDelta ''hi''] None)"

section \<open>The retrying stream\<close>

text \<open>
  A request calls the model at most \<^verbatim>\<open>maxRetries + 1\<close> times, whatever the calls, the
  clock and the signals do.
\<close>

theorem retry_calls_bounded:
  "callCount (fst (retryableStream pf cfg bus env b)) \<le> nat (rc_maxRetries cfg + 1)"
  using calls.holds [where n = 0] by (simp add: retryableStream_def)

text \<open>
  The consumer sees at most one error, and nothing after it; the error events of the
  failed attempts that were repeated are withheld.
\<close>

theorem retry_error_only_last:
  "errorOnlyLast (fst (retryableStream pf cfg bus env b))"
  using errors.holds by (simp add: retryableStream_def)

text \<open>
  C22. Once content has reached the consumer the model is not called again: text, thinking and
  tool calls are never delivered twice.
\<close>

theorem retry_no_call_after_content:
  "noCallAfterContent (fst (retryableStream pf cfg bus env b))"
  using content.holds by (simp add: retryableStream_def)

lemma outcome_from:
  assumes quiet: "\<forall>k. \<not> ae_abortedBefore (env k) \<and> \<not> ae_abortedAfter (env k)"
  shows "int n \<le> rc_maxRetries cfg \<Longrightarrow> retryFrom pf cfg bus env lastError b n = (effs, b') \<Longrightarrow>
    (\<exists>pre err. effs = pre @ [YieldError err]) \<or>
    (\<exists>k ys c pre post. int k \<le> rc_maxRetries cfg \<and> streamOf env k = (ys, c, None) \<and>
       effs = pre @ CallLLM # map YieldEvent ys @ post \<and> list_all bare post \<and> br_state b' = Closed \<and> br_failureCount b' = 0)"
    (is "_ \<Longrightarrow> _ \<Longrightarrow> ?errs effs \<or> ?good effs b'")
proof (induction "nat (rc_maxRetries cfg + 1 - int n)" arbitrary: n lastError b effs b' rule: less_induct)
  case less
  show ?case
  proof (cases rule: retryFrom_cases [where pf = pf and cfg = cfg and bus = bus and env = env and lastError = lastError and b = b and n = n])
    case none
    then show ?thesis using less.prems(1) quiet by auto
  next
    case (refused pre err)
    then show ?thesis using less.prems(2) by auto
  next
    case (ended pre ys content r post)
    then obtain b2 where "r = None" "b' = recordSuccess b2" using quiet less.prems(2) by auto
    moreover have "effs = pre @ CallLLM # map YieldEvent ys @ post" using ended(6) less.prems(2) by simp
    ultimately have "?good effs b'" using ended(2-4) by (auto simp: recordSuccess_def)
    then show ?thesis ..
  next
    case (failed pre ys content r post err)
    then have "effs = (pre @ CallLLM # map YieldEvent ys @ post) @ [YieldError err]" using less.prems(2) by simp
    then show ?thesis by blast
  next
    case (again pre ys e b2)
    let ?rest = "retryFrom pf cfg bus env e b2 (Suc n)"
    let ?pre = "pre @ CallLLM # map YieldEvent ys"
    have eq: "effs = ?pre @ fst ?rest" "b' = snd ?rest" using again(4) less.prems(2) by simp_all
    have "?errs (fst ?rest) \<or> ?good (fst ?rest) (snd ?rest)"
      by (rule less.hyps [of "Suc n" e b2]) (use again(2) in simp_all)
    then show ?thesis
    proof
      assume "?errs (fst ?rest)"
      then obtain p err where "effs = (?pre @ p) @ [YieldError err]" using eq by auto
      then show ?thesis by blast
    next
      assume "?good (fst ?rest) (snd ?rest)"
      then obtain k zs c p post where "int k \<le> rc_maxRetries cfg" "streamOf env k = (zs, c, None)"
        "fst ?rest = p @ CallLLM # map YieldEvent zs @ post" "list_all bare post" "br_state b' = Closed" "br_failureCount b' = 0"
        using eq by blast
      moreover from this(3) have "effs = (?pre @ p) @ CallLLM # map YieldEvent zs @ post" using eq by simp
      ultimately show ?thesis by blast
    qed
  qed
qed

text \<open>
  Without an abort of the request, a stream ends in one of two ways: with an error, or
  with a completed attempt, whose events are delivered in full and in order at the end and
  which leaves the breaker closed with no failures counted.
\<close>

theorem retry_outcome:
  assumes "0 \<le> rc_maxRetries cfg" and "\<forall>k. \<not> ae_abortedBefore (env k) \<and> \<not> ae_abortedAfter (env k)"
    and "retryableStream pf cfg bus env b = (effs, b')"
  shows "(\<exists>pre err. effs = pre @ [YieldError err]) \<or>
    (\<exists>k ys c pre post. int k \<le> rc_maxRetries cfg \<and> streamOf env k = (ys, c, None) \<and>
       effs = pre @ CallLLM # map YieldEvent ys @ post \<and> list_all bare post \<and> br_state b' = Closed \<and> br_failureCount b' = 0)"
  using outcome_from [OF assms(2), of 0] assms(1,3) by (simp add: retryableStream_def)

theorem retry_outcome_witness:
  "\<exists>effs b'. retryableStream demoPlatform DEFAULT_RETRY_CONFIG False demoEnv demoBreaker = (effs, b') \<and>
     ((\<exists>pre err. effs = pre @ [YieldError err]) \<or>
      (\<exists>k ys c pre post. int k \<le> rc_maxRetries DEFAULT_RETRY_CONFIG \<and> streamOf demoEnv k = (ys, c, None) \<and>
         effs = pre @ CallLLM # map YieldEvent ys @ post \<and> list_all bare post \<and> br_state b' = Closed \<and> br_failureCount b' = 0))"
proof -
  obtain effs b' where r: "retryableStream demoPlatform DEFAULT_RETRY_CONFIG False demoEnv demoBreaker = (effs, b')" by fastforce
  have "0 \<le> rc_maxRetries DEFAULT_RETRY_CONFIG" by code_simp
  moreover have "\<forall>k. \<not> ae_abortedBefore (demoEnv k) \<and> \<not> ae_abortedAfter (demoEnv k)" by (simp add: demoEnv_def attemptWith_def)
  ultimately show ?thesis using retry_outcome [OF _ _ r] r by blast
qed

text \<open>
  An aborted request is silent: before the first attempt nothing at all happens, and an
  attempt that fails while the request is aborted is neither repeated nor reported.
\<close>

theorem retry_abort_silent:
  "(ae_abortedBefore (env 0) \<longrightarrow> retryableStream pf cfg bus env b = ([], b)) \<and>
   (\<forall>ys c e. streamOf env 0 = (ys, c, Some e) \<and> ae_abortedAfter (env 0) \<and> \<not> ae_abortedBefore (env 0) \<and>
      fst (isAllowed (ae_nowAllowed (env 0)) b) \<and> 0 \<le> rc_maxRetries cfg \<longrightarrow>
      fst (retryableStream pf cfg bus env b) = CallLLM # map YieldEvent ys)"
  by (auto simp: retryableStream_def retryFrom.simps [of _ _ _ _ _ _ 0] streamOf_def waitEffects_def split: prod.splits bool.splits)

definition abortedEnv :: "nat \<Rightarrow> AttemptEnv" where
  "abortedEnv n = (demoEnv n)\<lparr>ae_abortedAfter := True\<rparr>"

theorem retry_abort_silent_witness:
  "fst (retryableStream demoPlatform DEFAULT_RETRY_CONFIG True abortedEnv demoBreaker) = [CallLLM, YieldEvent (MessageStart None)]"
proof -
  have "streamOf abortedEnv 0 = ([MessageStart None], False, Some (Ref 1))" "ae_abortedAfter (abortedEnv 0)"
    "\<not> ae_abortedBefore (abortedEnv 0)" "fst (isAllowed (ae_nowAllowed (abortedEnv 0)) demoBreaker)"
    "0 \<le> rc_maxRetries DEFAULT_RETRY_CONFIG" by code_simp+
  then show ?thesis
    using retry_abort_silent [of abortedEnv demoPlatform DEFAULT_RETRY_CONFIG True demoBreaker] by auto
qed

section \<open>Circuit breaker and back-off\<close>

text \<open>
  The breaker is equivalent to a reference that only reads the history: with a clock that
  does not run backwards it allows a request exactly when fewer than \<^verbatim>\<open>maxFailures\<close>
  failures have come since the last success or reset, or when \<^verbatim>\<open>resetAfterMs\<close> is set and
  that long has passed since the last failure.
\<close>

theorem breaker_allows_exactly:
  assumes "newCircuitBreaker config = Inr b" and "sorted (map fst ops)" and "\<forall>x \<in> set ops. 0 \<le> fst x \<and> fst x \<le> now" and "0 \<le> now"
  shows "fst (isAllowed now (fold applyOp ops b)) \<longleftrightarrow>
    int (fst (fold noteOp ops (0, 0))) < cb_maxFailures config \<or>
    (\<exists>ms. cb_resetAfterMs config = Some ms \<and> now - snd (fold noteOp ops (0, 0)) \<ge> ms)"
proof -
  have "tracks config now (fold applyOp ops b) (fold noteOp ops (0, 0))"
    by (rule tracks_run [of config 0]) (use assms tracks_new [OF assms(1)] in auto)
  then show ?thesis by (rule tracks_allowed)
qed

theorem breaker_allows_exactly_witness:
  "\<exists>b. newCircuitBreaker \<lparr>cb_maxFailures = 1, cb_resetAfterMs = Some 10\<rparr> = Inr b \<and>
     \<not> fst (isAllowed 14 (fold applyOp [(5, FailedOp)] b)) \<and> fst (isAllowed 15 (fold applyOp [(5, FailedOp)] b))"
proof -
  let ?c = "\<lparr>cb_maxFailures = 1, cb_resetAfterMs = Some (10 :: rat)\<rparr>"
  obtain b where b: "newCircuitBreaker ?c = Inr b" by (simp add: newCircuitBreaker_def)
  have "\<not> fst (isAllowed 14 (fold applyOp [(5, FailedOp)] b))"
    using breaker_allows_exactly [OF b, of "[(5, FailedOp)]" 14] by simp
  moreover have "fst (isAllowed 15 (fold applyOp [(5, FailedOp)] b))"
    using breaker_allows_exactly [OF b, of "[(5, FailedOp)]" 15] by simp
  ultimately show ?thesis using b by blast
qed

definition neverResets :: "CircuitBreaker \<Rightarrow> bool" where
  "neverResets b = (cb_resetAfterMs (br_config b) = None)"

lemma open_refuses: "br_state b = Open \<Longrightarrow> neverResets b \<Longrightarrow> isAllowed t b = (False, b)"
  by (simp add: isAllowed_def readState_def neverResets_def)

lemma closed_allows: "br_state b = Closed \<Longrightarrow> isAllowed t b = (True, b)"
  by (simp add: isAllowed_def readState_def)

lemma open_request:
  assumes "br_state b = Open" "neverResets b"
  shows "CallLLM \<notin> set (fst (retryableStream pf cfg bus env b)) \<and> snd (retryableStream pf cfg bus env b) = b"
  using open_refuses [OF assms] bare_not_call [OF bare_emit(3)]
  by (simp add: retryableStream_def retryFrom.simps [of _ _ _ _ _ _ 0])

lemma open_requests:
  assumes "br_state b = Open" "neverResets b"
  shows "\<forall>effs \<in> set (fst (wrappedRequests pf cfg bus b envs)). CallLLM \<notin> set effs"
proof (induction envs)
  case (Cons env envs)
  obtain effs b1 where r: "retryableStream pf cfg bus env b = (effs, b1)" by fastforce
  with open_request [OF assms, of pf cfg bus env] have "CallLLM \<notin> set effs" "b1 = b" by auto
  with r Cons show ?case by (auto split: prod.splits)
qed simp

text \<open>An attempt of the request that fails, quietly and repeatably, before any content.\<close>

definition failsRetryably :: "Platform \<Rightarrow> RetryConfig \<Rightarrow> AttemptEnv \<Rightarrow> bool" where
  "failsRetryably pf cfg en =
     (\<not> ae_abortedBefore en \<and> \<not> ae_abortedAfter en \<and> \<not> ae_sleepAborted en \<and>
      (case consumeStream (ae_events en) (ae_throws en) of
         (ys, content, Some e) \<Rightarrow> \<not> content \<and> isRetryable pf cfg e
       | _ \<Rightarrow> False))"

lemma exhaust_from:
  assumes fails: "\<forall>k. failsRetryably pf cfg (env k)"
  shows "int n \<le> rc_maxRetries cfg \<Longrightarrow> br_state b = Closed \<Longrightarrow> br_failureCount b = n \<Longrightarrow>
    br_config b = \<lparr>cb_maxFailures = rc_maxRetries cfg + 1, cb_resetAfterMs = None\<rparr> \<Longrightarrow>
    retryFrom pf cfg bus env lastError b n = (effs, b') \<Longrightarrow>
    callCount effs = nat (rc_maxRetries cfg + 1 - int n) \<and> br_state b' = Open \<and> neverResets b'"
proof (induction "nat (rc_maxRetries cfg + 1 - int n)" arbitrary: n lastError b effs b' rule: less_induct)
  case less
  obtain ys e where st: "consumeStream (ae_events (env n)) (ae_throws (env n)) = (ys, False, Some e)" "isRetryable pf cfg e"
    and quiet: "\<not> ae_abortedBefore (env n)" "\<not> ae_abortedAfter (env n)" "\<not> ae_sleepAborted (env n)"
    using fails [rule_format, of n] by (auto simp: failsRetryably_def split: prod.splits option.splits)
  note step = retryFrom.simps [of pf cfg bus env lastError b n] closed_allows [OF less.prems(2)] sleepRejects_def
  let ?b1 = "recordFailure (ae_nowFailure (env n)) b"
  show ?case
  proof (cases "int n = rc_maxRetries cfg")
    case True
    then show ?thesis using less.prems st quiet
      by (auto simp: step recordFailure_def Let_def neverResets_def)
  next
    case False
    then have n: "int (Suc n) \<le> rc_maxRetries cfg" using less.prems(1) by simp
    obtain rest b2 where rest: "retryFrom pf cfg bus env e ?b1 (Suc n) = (rest, b2)" by fastforce
    have b1: "br_state ?b1 = Closed" "br_failureCount ?b1 = Suc n" "br_config ?b1 = br_config b"
      using n less.prems by (auto simp: recordFailure_def Let_def)
    have "callCount rest = nat (rc_maxRetries cfg + 1 - int (Suc n)) \<and> br_state b2 = Open \<and> neverResets b2"
      by (rule less.hyps [OF _ n b1(1,2) _ rest]) (use n b1(3) less.prems(4) in simp_all)
    moreover have "effs = waitEffects pf cfg bus (env n) lastError n @ CallLLM # map YieldEvent ys @ rest" "b' = b2"
      using less.prems(1,5) st quiet rest n by (auto simp: step)
    ultimately show ?thesis using n by simp
  qed
qed

text \<open>
  Exhausting the retries trips the wrapper's own breaker for good: when every attempt of a
  request fails in a repeatable way, the model is called exactly \<^verbatim>\<open>maxRetries + 1\<close> times,
  and no later request through the same wrapper calls the model at all.
\<close>

theorem exhaustion_trips_breaker:
  assumes "withRetry cfg None = Inr b" and "\<forall>k. failsRetryably pf cfg (env k)"
    and "retryableStream pf cfg bus env b = (effs, b')"
  shows "int (callCount effs) = rc_maxRetries cfg + 1 \<and>
    (\<forall>laterCfg envs. \<forall>later \<in> set (fst (wrappedRequests pf laterCfg bus b' envs)). CallLLM \<notin> set later)"
proof -
  from assms(1) have b: "0 \<le> rc_maxRetries cfg" "br_state b = Closed" "br_failureCount b = 0"
    "br_config b = \<lparr>cb_maxFailures = rc_maxRetries cfg + 1, cb_resetAfterMs = None\<rparr>"
    by (auto simp: withRetry_def newCircuitBreaker_def split: if_splits)
  then have "callCount effs = nat (rc_maxRetries cfg + 1)" "br_state b' = Open" "neverResets b'"
    using exhaust_from [OF assms(2), of 0 b] assms(3) by (simp_all add: retryableStream_def)
  then show ?thesis using open_requests b(1) by simp
qed

theorem exhaustion_trips_breaker_witness:
  "\<exists>b effs b'. withRetry DEFAULT_RETRY_CONFIG None = Inr b \<and>
     retryableStream demoPlatform DEFAULT_RETRY_CONFIG True (\<lambda>k. attemptWith [] (Some (Ref 1))) b = (effs, b') \<and> callCount effs = 4"
proof -
  obtain b where b: "withRetry DEFAULT_RETRY_CONFIG None = Inr b"
    by (auto simp: withRetry_def newCircuitBreaker_def DEFAULT_RETRY_CONFIG_def)
  obtain effs b' where r: "retryableStream demoPlatform DEFAULT_RETRY_CONFIG True (\<lambda>k. attemptWith [] (Some (Ref 1))) b = (effs, b')"
    by fastforce
  have "failsRetryably demoPlatform DEFAULT_RETRY_CONFIG (attemptWith [] (Some (Ref 1)))" by code_simp
  moreover have "rc_maxRetries DEFAULT_RETRY_CONFIG = 3" by code_simp
  ultimately have "callCount effs = 4" using exhaustion_trips_breaker [OF b _ r] by simp
  with b r show ?thesis by blast
qed

text \<open>
  Back-off delays: without jitter the delay is the capped exponential and never falls from
  one attempt to the next; with jitter and whole-millisecond settings it lies between 0 and
  that value. In both cases it stays within \<^verbatim>\<open>maxDelayMs\<close>.
\<close>

theorem backoff_bounds:
  assumes "bc_baseDelayMs config = of_nat base" and "bc_maxDelayMs config = of_nat limit" and "0 \<le> random" and "random < 1"
  shows "0 \<le> computeBackoffDelay random attempt config \<and>
    computeBackoffDelay random attempt config \<le> computeBackoffDelay random attempt (config\<lparr>bc_jitter := False\<rparr>) \<and>
    computeBackoffDelay random attempt (config\<lparr>bc_jitter := False\<rparr>) = of_nat (min (base * 2 ^ attempt) limit) \<and>
    computeBackoffDelay random attempt (config\<lparr>bc_jitter := False\<rparr>) \<le>
      computeBackoffDelay random (Suc attempt) (config\<lparr>bc_jitter := False\<rparr>)"
proof -
  let ?c = "min (base * 2 ^ attempt) limit"
  have plain: "computeBackoffDelay random n (config\<lparr>bc_jitter := False\<rparr>) = of_nat (min (base * 2 ^ n) limit)" for n
    using assms(1,2) by (simp add: computeBackoffDelay_def of_nat_min)
  have jit: "computeBackoffDelay random attempt config = (if bc_jitter config then of_int \<lfloor>random * (of_nat ?c + 1)\<rfloor> else of_nat ?c)"
    using assms(1,2) by (simp add: computeBackoffDelay_def of_nat_min)
  have pos: "0 \<le> random * (of_nat ?c + 1)" using assms(3) by simp
  have "random * (of_nat ?c + 1) < 1 * (of_nat ?c + 1)" by (rule mult_strict_right_mono) (use assms(4) in linarith)+
  then have "\<lfloor>random * (of_nat ?c + 1)\<rfloor> < int ?c + 1" unfolding floor_less_iff by simp
  then have "\<lfloor>random * (of_nat ?c + 1)\<rfloor> \<le> int ?c" by simp
  then have up: "(of_int \<lfloor>random * (of_nat ?c + 1)\<rfloor> :: rat) \<le> of_nat ?c"
    by (metis of_int_le_iff of_int_of_nat_eq)
  have "?c \<le> min (base * 2 ^ Suc attempt) limit" by simp
  then have mono: "(of_nat ?c :: rat) \<le> of_nat (min (base * 2 ^ Suc attempt) limit)" unfolding of_nat_le_iff .
  have low: "(0 :: rat) \<le> of_int \<lfloor>random * (of_nat ?c + 1)\<rfloor>" using pos unfolding of_int_0_le_iff zero_le_floor .
  show ?thesis unfolding plain jit using up mono low by (cases "bc_jitter config") (simp_all del: of_nat_min power_Suc)
qed

theorem backoff_bounds_witness:
  "0 \<le> computeBackoffDelay (1 / 2) 3 DEFAULT_BACKOFF \<and>
   computeBackoffDelay (1 / 2) 3 (DEFAULT_BACKOFF\<lparr>bc_jitter := False\<rparr>) = of_nat (min (500 * 2 ^ 3) 30000)"
  using backoff_bounds [of DEFAULT_BACKOFF 500 30000 "1 / 2" 3] by (simp add: DEFAULT_BACKOFF_def)

section \<open>Errors\<close>

lemma statusFree_chain:
  "statusFree h n v \<longleftrightarrow>
     (\<exists>k \<le> n. \<not> truthyValue ((causeOf h ^^ k) v) \<and> (\<forall>j < k. getStatusCode h ((causeOf h ^^ j) v) = None))"
proof (induction n arbitrary: v)
  case (Suc n)
  show ?case
  proof (cases "truthyValue v")
    case False
    then show ?thesis by (auto intro!: exI [of _ 0])
  next
    case True
    let ?ends = "\<lambda>k. \<not> truthyValue ((causeOf h ^^ k) v) \<and> (\<forall>j < k. getStatusCode h ((causeOf h ^^ j) v) = None)"
    have "(\<exists>k \<le> Suc n. ?ends k) \<longleftrightarrow> (\<exists>k \<le> n. ?ends (Suc k))"
      unfolding less_Suc_eq_le [symmetric] Ex_less_Suc2 [of "Suc n" ?ends] using True by simp
    also have "\<dots> \<longleftrightarrow> getStatusCode h v = None \<and> statusFree h n (causeOf h v)"
      unfolding Suc.IH All_less_Suc2 funpow_Suc_right by auto
    finally show ?thesis using True by auto
  qed
qed simp

text \<open>
  A request counts as never sent exactly when the transport marked its error and the
  whole chain of causes ends within the limit without an HTTP status anywhere; a chain that
  is cyclic or too long does not count.
\<close>

theorem never_sent_exactly:
  "providerRequestNeverSent h e \<longleftrightarrow>
     (\<exists>a. e = Ref a \<and> eo_undelivered (h a)) \<and>
     (\<exists>k \<le> CAUSE_CHAIN_LIMIT. \<not> truthyValue ((causeOf h ^^ k) e) \<and> (\<forall>j < k. getStatusCode h ((causeOf h ^^ j) e) = None))"
  unfolding providerRequestNeverSent_def statusFree_chain by (cases e) auto

lemma connect_statusFree: "connectScan h n unsent v \<Longrightarrow> statusFree h n v"
  by (induction n arbitrary: unsent v) (auto split: if_splits option.splits list.splits)

lemma mark_same [simp]:
  "eo_status (markRequestUndelivered h e a) = eo_status (h a)" "eo_cause (markRequestUndelivered h e a) = eo_cause (h a)"
  by (auto simp: markRequestUndelivered_def split: ErrorValue.splits)

lemma mark_statusFree: "statusFree (markRequestUndelivered h e) n v = statusFree h n v"
proof (induction n arbitrary: v)
  case (Suc n)
  have "getStatusCode (markRequestUndelivered h e) v = getStatusCode h v" "causeOf (markRequestUndelivered h e) v = causeOf h v"
    by (cases v; simp add: getStatusCode_def)+
  with Suc show ?case by simp
qed simp

text \<open>
  The transport's two steps compose: an error that failed in the connect phase, once
  marked as undelivered, is recognised as a request that was never sent, and the mark does not
  change how the error is classified.
\<close>

theorem connect_failure_marked_never_sent:
  assumes "isConnectPhaseFailure h (Ref a)"
  shows "providerRequestNeverSent (markRequestUndelivered h (Ref a)) (Ref a) \<and>
    classifyProviderError (markRequestUndelivered h (Ref a)) (Ref a) = classifyProviderError h (Ref a)"
proof (rule conjI)
  show "providerRequestNeverSent (markRequestUndelivered h (Ref a)) (Ref a)"
    using connect_statusFree assms
    by (auto simp: providerRequestNeverSent_def isConnectPhaseFailure_def mark_statusFree) (simp add: markRequestUndelivered_def)
  let ?m = "markRequestUndelivered h (Ref a)"
  have same: "getErrorCode ?m v = getErrorCode h v" "causeOf ?m v = causeOf h v" "getStatusCode ?m v = getStatusCode h v"
    "messageText ?m v = messageText h v" "isErrorInstance ?m v = isErrorInstance h v" "isAbortError ?m v = isAbortError h v" for v
    by (cases v; simp add: getErrorCode_def getStatusCode_def isAbortError_def markRequestUndelivered_def)+
  have "networkInChain ?m n v = networkInChain h n v" for n v
    by (induction n arbitrary: v) (simp_all add: hasCode_def same)
  then show "classifyProviderError ?m (Ref a) = classifyProviderError h (Ref a)"
    unfolding classifyProviderError_def same by (simp only:)
qed

theorem connect_failure_marked_never_sent_witness:
  "isConnectPhaseFailure demoHeap (Ref 1) \<and>
   providerRequestNeverSent (markRequestUndelivered demoHeap (Ref 1)) (Ref 1) \<and> \<not> isConnectPhaseFailure demoHeap (Ref 3)"
proof -
  have "isConnectPhaseFailure demoHeap (Ref 1)" "\<not> isConnectPhaseFailure demoHeap (Ref 3)" by code_simp+
  then show ?thesis using connect_failure_marked_never_sent by blast
qed

lemma budget_not_retryable:
  assumes "isResourceBudgetExceeded h e" "\<not> isAbortError h e"
  shows "classifyProviderError h e = InvalidRequest"
proof -
  from assms(1) have "isErrorInstance h e" "parseModelBudgetStop (messageText h e) \<noteq> None"
    by (auto simp: isResourceBudgetExceeded_def parseModelBudgetStop_def)
  moreover from this(1) have "truthyValue e" by (cases e) auto
  ultimately show ?thesis using assms(2) by (simp add: classifyProviderError_def)
qed

text \<open>
  A retry that the resource budget stops is not repeated, and the error handed over names
  the failure before it: parsing the delivered message gives back the text of the first
  failure.
\<close>

theorem budget_stop_reports_cause:
  assumes "rc_retryableTypes cfg = DEFAULT_RETRYABLE_TYPES" and "1 \<le> rc_maxRetries cfg"
    and "br_state b = Closed" and "int (br_failureCount b) + 1 < cb_maxFailures (br_config b)"
    and "failsRetryably pf cfg (env 0)" and "streamOf env 0 = (ys, False, Some e)"
    and "\<not> ae_abortedBefore (env 1) \<and> \<not> ae_sleepAborted (env 1) \<and> \<not> ae_abortedAfter (env 1)"
    and "streamOf env 1 = (zs, content, Some e')"
    and "isResourceBudgetExceeded (pf_heap pf) e'" and "\<not> isAbortError (pf_heap pf) e'"
  shows "callCount (fst (retryableStream pf cfg bus env b)) = 2 \<and>
    (\<exists>message. last (fst (retryableStream pf cfg bus env b)) = YieldError (BudgetStopError message e') \<and>
       parseModelBudgetStop message = Some (Some (messageText (pf_heap pf) e)))"
proof -
  let ?b1 = "recordFailure (ae_nowFailure (env 0)) b"
  have b1: "br_state ?b1 = Closed" using assms(3,4) by (simp add: recordFailure_def Let_def)
  have first: "fst (retryableStream pf cfg bus env b) = CallLLM # map YieldEvent ys @ fst (retryFrom pf cfg bus env e ?b1 1)"
    using assms(2,5,6) closed_allows [OF assms(3)]
    by (auto simp: retryableStream_def retryFrom.simps [of pf cfg bus env _ b 0] failsRetryably_def streamOf_def waitEffects_def
        split: prod.splits)
  have "classifyProviderError (pf_heap pf) e' = InvalidRequest" using budget_not_retryable assms(9,10) by blast
  then have "\<not> isRetryable pf cfg e'" by (simp add: isRetryable_def assms(1) DEFAULT_RETRYABLE_TYPES_def)
  then have second: "fst (retryFrom pf cfg bus env e ?b1 1) = waitEffects pf cfg bus (env 1) e 1 @ CallLLM # map YieldEvent zs @
      [YieldError (BudgetStopError (budgetStopAfterFailure (pf_heap pf) e) e')]"
    using assms(2,7,8,9) closed_allows [OF b1]
    by (simp add: retryFrom.simps [of pf cfg bus env e ?b1 "Suc 0"] streamOf_def sleepRejects_def deliveredError_def)
  have "parseModelBudgetStop (budgetStopAfterFailure (pf_heap pf) e) = Some (Some (messageText (pf_heap pf) e))"
    by (simp add: parseModelBudgetStop_def budgetStopAfterFailure_def)
  then show ?thesis unfolding first second by simp
qed

definition budgetEnv :: "nat \<Rightarrow> AttemptEnv" where
  "budgetEnv n = (if n = 0 then attemptWith [] (Some (Ref 1)) else attemptWith [StreamError (Ref 2)] None)"

theorem budget_stop_reports_cause_witness:
  "callCount (fst (retryableStream demoPlatform DEFAULT_RETRY_CONFIG True budgetEnv demoBreaker)) = 2"
proof -
  have "rc_retryableTypes DEFAULT_RETRY_CONFIG = DEFAULT_RETRYABLE_TYPES" "1 \<le> rc_maxRetries DEFAULT_RETRY_CONFIG" by code_simp+
  moreover have "br_state demoBreaker = Closed" "int (br_failureCount demoBreaker) + 1 < cb_maxFailures (br_config demoBreaker)"
    by (simp_all add: demoBreaker_def)
  moreover have "failsRetryably demoPlatform DEFAULT_RETRY_CONFIG (budgetEnv 0)" by code_simp
  moreover have "streamOf budgetEnv 0 = ([], False, Some (Ref 1))" "streamOf budgetEnv 1 = ([], False, Some (Ref 2))" by code_simp+
  moreover have "\<not> ae_abortedBefore (budgetEnv 1) \<and> \<not> ae_sleepAborted (budgetEnv 1) \<and> \<not> ae_abortedAfter (budgetEnv 1)" by code_simp
  moreover have "isResourceBudgetExceeded (pf_heap demoPlatform) (Ref 2)" "\<not> isAbortError (pf_heap demoPlatform) (Ref 2)" by code_simp+
  ultimately show ?thesis using budget_stop_reports_cause by blast
qed

section \<open>Summaries\<close>

text \<open>Letters, digits, underscore, space and the three marks of the layout.\<close>

definition safeChar :: "char \<Rightarrow> bool" where
  "safeChar c = (isUpper c \<or> isLower c \<or> isDigit c \<or> c = CHR ''_'' \<or> c = CHR '' '')"

definition safeUnit :: "nat \<Rightarrow> bool" where
  "safeUnit n = ((\<exists>c. safeChar c \<and> n = of_char c) \<or> n \<in> {215, 8592, 8230})"

lemma show_nat_safe: "list_all safeChar (show_nat n)"
proof (induction n rule: less_induct)
  case (less n)
  have d: "safeChar (digit_char k)" if "k < 10" for k
    using that by (simp add: safeChar_def digit_char_def codeIn_def)
  show ?case
  proof (cases "n < 10")
    case True
    then show ?thesis using d by (simp add: show_nat.simps [of n])
  next
    case False
    then show ?thesis using less [of "n div 10"] d [of "n mod 10"] by (simp add: show_nat.simps [of n])
  qed
qed

lemma safe_words:
  "SAFE_ERROR_NAME s \<Longrightarrow> list_all safeChar s" "SAFE_ERROR_CODE s \<Longrightarrow> list_all safeChar s" "SAFE_SYSCALL s \<Longrightarrow> list_all safeChar s"
  by (cases s; auto simp: SAFE_ERROR_NAME_def SAFE_ERROR_CODE_def SAFE_SYSCALL_def safeChar_def list_all_iff)+

lemma causePart_safe: "list_all safeChar (causePart eo)"
proof -
  have err: "list_all safeChar ''Error''" "list_all safeChar '' HTTP ''" "safeChar CHR '' ''" by code_simp+
  have opt: "list_all safeChar (safeOption ok v)" if "\<And>s. ok s \<Longrightarrow> list_all safeChar s" for ok v
    using that err(3) by (auto simp: safeOption_def split: option.splits)
  have "list_all safeChar (statusPart eo)"
    using err(2) show_nat_safe by (auto simp: statusPart_def split: fieldValue.splits if_splits)
  then show ?thesis unfolding causePart_def
    using opt [OF safe_words(2)] opt [OF safe_words(3)] safe_words(1) err(1) by (auto split: option.splits)
qed

definition summaryState :: "CauseState \<Rightarrow> bool" where
  "summaryState st = (list_all (list_all safeChar) (cz_parts st) \<and> length (cz_parts st) + cz_budget st = CAUSE_SUMMARY_NODES)"

lemma visitCause_state: "summaryState st \<Longrightarrow> summaryState (visitCause h n st v)"
proof (induction n arbitrary: st v)
  case (Suc n)
  have fold: "summaryState st \<Longrightarrow> summaryState (foldl (visitCause h n) st items)" for st items
    using Suc.IH by (induction items arbitrary: st) auto
  show ?case
  proof (cases "\<exists>a. v = Ref a \<and> cz_budget st \<noteq> 0 \<and> a \<notin> set (cz_seen st)")
    case True
    then obtain a where a: "v = Ref a" "cz_budget st \<noteq> 0" "a \<notin> set (cz_seen st)" by blast
    have "summaryState (st\<lparr>cz_seen := a # cz_seen st, cz_budget := cz_budget st - 1, cz_parts := cz_parts st @ [causePart (h a)]\<rparr>)"
      using Suc.prems a(2) causePart_safe by (auto simp: summaryState_def)
    then show ?thesis using a fold Suc.IH by (auto simp: Let_def split: option.splits)
  next
    case False
    then show ?thesis using Suc.prems by (auto split: ErrorValue.splits)
  qed
qed simp

lemma mergeParts_safe:
  "list_all (\<lambda>x. list_all safeChar (fst x)) acc \<Longrightarrow> list_all (list_all safeChar) ps \<Longrightarrow>
   list_all (\<lambda>x. list_all safeChar (fst x)) (mergeParts acc ps)"
proof (induction acc ps rule: mergeParts.induct)
  case (2 acc p ps)
  have "list_all (\<lambda>x. list_all safeChar (fst x)) (butlast acc)" using 2(3) by (auto simp: list_all_iff dest: in_set_butlastD)
  with 2 show ?case by simp
qed simp

lemma units_safe: "list_all safeChar s \<Longrightarrow> list_all safeUnit (map of_char s)"
  by (auto simp: list_all_iff safeUnit_def)

lemma renderPart_safe: "list_all safeChar p \<Longrightarrow> list_all safeUnit (renderPart (p, n))"
  using units_safe [OF show_nat_safe, of n] units_safe [of p] units_safe [of "'' ''"]
  by (auto simp: safeUnit_def [of 215] safeChar_def)

lemma joinUnits_safe: "list_all safeUnit sep \<Longrightarrow> list_all (list_all safeUnit) xs \<Longrightarrow> list_all safeUnit (joinUnits sep xs)"
  by (induction sep xs rule: joinUnits.induct) auto

text \<open>
  The summary of an error's causes is bounded and safe: at most 512 units, and only
  letters, digits, underscores, spaces and the layout marks, so no separator of an address,
  path, query or message text can appear in it; cyclic and shared errors included.
\<close>

theorem cause_summary_safe:
  assumes "errorCauseSummary h e = Some summary"
  shows "length summary \<le> CAUSE_SUMMARY_CHARS \<and> list_all safeUnit summary"
proof -
  let ?st = "visitCause h CAUSE_CHAIN_LIMIT \<lparr>cz_parts = [], cz_seen = [], cz_budget = CAUSE_SUMMARY_NODES\<rparr> e"
  let ?full = "joinUnits [32, 8592, 32] (map renderPart (mergeParts [] (cz_parts ?st)))"
  have "summaryState ?st" by (rule visitCause_state) (simp add: summaryState_def)
  then have "list_all (\<lambda>x. list_all safeChar (fst x)) (mergeParts [] (cz_parts ?st))"
    by (intro mergeParts_safe) (simp_all add: summaryState_def)
  then have "list_all (list_all safeUnit) (map renderPart (mergeParts [] (cz_parts ?st)))"
    using renderPart_safe by (force simp: list_all_iff simp del: renderPart.simps)
  moreover have "list_all safeUnit [32, 8592, 32]" using units_safe [of "'' ''"] by (simp add: safeUnit_def [of 8592] safeChar_def)
  ultimately have full: "list_all safeUnit ?full" by (rule joinUnits_safe [rotated])
  have "summary = (if length ?full \<le> CAUSE_SUMMARY_CHARS then ?full else take (CAUSE_SUMMARY_CHARS - 1) ?full @ [8230])"
    using assms by (simp add: errorCauseSummary_def Let_def split: if_splits)
  moreover have "safeUnit 8230" by (simp add: safeUnit_def)
  ultimately show ?thesis using full by (auto simp: CAUSE_SUMMARY_CHARS_def list_all_iff dest: in_set_takeD)
qed

theorem cause_summary_safe_witness:
  "errorCauseSummary demoHeap (Ref 1) = Some (map of_char ''TypeError'' @ [32, 8592, 32] @ map of_char ''Error ECONNREFUSED connect'') \<and>
   list_all safeUnit (map of_char ''TypeError'' @ [32, 8592, 32] @ map of_char ''Error ECONNREFUSED connect'')"
proof -
  have "errorCauseSummary demoHeap (Ref 1) = Some (map of_char ''TypeError'' @ [32, 8592, 32] @ map of_char ''Error ECONNREFUSED connect'')"
    by code_simp
  then show ?thesis using cause_summary_safe by blast
qed

end
