(* ===== verification/Capacity_Types.thy ===== *)
theory Capacity_Types
  imports Complex_Main Prelude
begin

text \<open>
  Data and validation of \<^verbatim>\<open>packages/core/src/resources/device-capacity.ts\<close>: budgets,
  requests, policies, pressure samples, and the objects of the arbiter. Amounts are safe
  integers of the source, hence \<open>int\<close>; ratios are rational. \<^verbatim>\<open>budget.occupancy[dimension]\<close>
  is a function of the dimension. Objects that the code shares by reference (permits, steps,
  loans of a slot, waiting admissions) live in lists of the arbiter and are named by index.
\<close>

section \<open>Dimensions and budgets\<close>

datatype OccupancyDimension = MemoryReservationBytes | TemporaryBytes | Slots

datatype QuantumDimension = ReadBytes | WriteBytes | IoOperations

datatype DeviceCapacityDimension = Occ OccupancyDimension | Quant QuantumDimension

datatype DeviceCapacityBlocker = BlockedBy DeviceCapacityDimension | ProbeUnavailable | DerivedPreparation

definition OCCUPANCY_DIMENSIONS :: "OccupancyDimension list" where
  "OCCUPANCY_DIMENSIONS = [MemoryReservationBytes, TemporaryBytes, Slots]"

definition QUANTUM_DIMENSIONS :: "QuantumDimension list" where
  "QUANTUM_DIMENSIONS = [ReadBytes, WriteBytes, IoOperations]"

lemma occupancy_dimensions [simp]: "d \<in> set OCCUPANCY_DIMENSIONS"
  by (cases d) (simp_all add: OCCUPANCY_DIMENSIONS_def)

lemma quantum_dimensions [simp]: "d \<in> set QUANTUM_DIMENSIONS"
  by (cases d) (simp_all add: QUANTUM_DIMENSIONS_def)

lemma all_occupancy [simp]: "list_all P OCCUPANCY_DIMENSIONS \<longleftrightarrow> (\<forall>d. P d)"
  by (auto simp: list_all_iff)

lemma all_quantum [simp]: "list_all P QUANTUM_DIMENSIONS \<longleftrightarrow> (\<forall>d. P d)"
  by (auto simp: list_all_iff)

type_synonym occupancy = "OccupancyDimension \<Rightarrow> int"
type_synonym quantum = "QuantumDimension \<Rightarrow> int"

record DeviceCapacityBudget =
  bg_occupancy :: occupancy
  bg_quantum :: quantum

definition emptyDeviceCapacityBudget :: DeviceCapacityBudget where
  "emptyDeviceCapacityBudget = \<lparr>bg_occupancy = (\<lambda>d. 0), bg_quantum = (\<lambda>d. 0)\<rparr>"

datatype DeviceCapacityClass =
    WorkloadInteractive | WorkloadAdvancement | WorkloadScheduler | WorkloadOrchestration
  | StorageForeground | StorageRecovery | StorageBackground

definition DEVICE_CAPACITY_CLASSES :: "DeviceCapacityClass list" where
  "DEVICE_CAPACITY_CLASSES = [WorkloadInteractive, WorkloadAdvancement, WorkloadScheduler, WorkloadOrchestration,
     StorageForeground, StorageRecovery, StorageBackground]"

lemma capacity_classes [simp]: "c \<in> set DEVICE_CAPACITY_CLASSES"
  by (cases c) (simp_all add: DEVICE_CAPACITY_CLASSES_def)

record DeviceCapacityRequest =
  rq_admissionId :: string
  rq_serviceClass :: DeviceCapacityClass
  rq_atomic :: DeviceCapacityBudget
  rq_preferred :: DeviceCapacityBudget
  rq_maxWaitMs :: int

record DeviceCapacityPressure =
  pr_cpuBusyRatio :: rat
  pr_availableMemoryBytes :: int
  pr_processRssBytes :: int
  pr_temporaryBytesAvailable :: "int option"

record DeviceCapacityPolicy =
  pol_version :: int
  pol_occupancy :: occupancy
  pol_memorySafetyReserveBytes :: int
  pol_temporarySafetyReserveBytes :: int
  pol_quantum :: quantum
  pol_quantumRefillPerSecond :: quantum
  pol_maxCpuBusyRatio :: rat
  pol_minimumAvailableMemoryBytes :: int
  pol_retryAfterMs :: int
  pol_classWeights :: "DeviceCapacityClass \<Rightarrow> int"

record CapacityViolation =
  vi_admissionId :: string
  vi_dimension :: DeviceCapacityDimension
  vi_limit :: int
  vi_requested :: int

datatype DeviceCapacityAdmission =
    Granted nat
  | Backpressured DeviceCapacityBlocker int
  | CapacityGap DeviceCapacityDimension int int
  | Cancelled

section \<open>Objects of the arbiter\<close>

record CapacityPermit =
  cp_admissionId :: string
  cp_atomic :: DeviceCapacityBudget
  cp_granted :: DeviceCapacityBudget
  cp_remainingQuantum :: quantum
  cp_activeStep :: bool
  cp_released :: bool
  cp_slotBorrowed :: bool
  cp_returned :: bool
  cp_violation :: "CapacityViolation option"
  cp_loan :: "nat option"

text \<open>The closure of \<^verbatim>\<open>tryBegin\<close>: its permit, its bound, and the two captured variables.\<close>

record CapacityStep =
  sp_permit :: nat
  sp_bound :: DeviceCapacityBudget
  sp_used :: DeviceCapacityBudget
  sp_completed :: bool

text \<open>The closure returned by \<^verbatim>\<open>borrowSlot\<close>.\<close>

record SlotLoan =
  sl_lender :: nat
  sl_returned :: bool

record PendingAdmission =
  pa_id :: nat
  pa_request :: DeviceCapacityRequest
  pa_loan :: "nat option"
  pa_settled :: bool

record Arbiter =
  ar_policy :: DeviceCapacityPolicy
  ar_queues :: "DeviceCapacityClass \<Rightarrow> PendingAdmission list"
  ar_schedule :: "DeviceCapacityClass list"
  ar_occupancyInUse :: occupancy
  ar_quantumAvailable :: quantum
  ar_lastRefillAt :: int
  ar_cursor :: nat
  ar_drainTimer :: bool
  ar_blockedBy :: "DeviceCapacityBlocker option"
  ar_lastViolation :: "CapacityViolation option"
  ar_permits :: "CapacityPermit list"
  ar_steps :: "CapacityStep list"
  ar_loans :: "SlotLoan list"
  ar_nextPending :: nat
  ar_results :: "(nat \<times> DeviceCapacityAdmission) list"

section \<open>Validation\<close>

datatype CapacityTypeError =
    NotSafeInteger | UnsupportedVersion | InvalidCpuThreshold | InvalidClassWeight DeviceCapacityClass
  | InvalidAdmissionId | AtomicExceedsPreferred DeviceCapacityDimension | MustReserveSlot | InvalidCpuSample

definition MAX_SAFE_INTEGER :: int where
  "MAX_SAFE_INTEGER = 9007199254740991"

definition nonNegativeSafe :: "int \<Rightarrow> bool" where
  "nonNegativeSafe n = (0 \<le> n \<and> n \<le> MAX_SAFE_INTEGER)"

definition assertNonNegativeSafeInteger :: "int \<Rightarrow> (CapacityTypeError, unit) result" where
  "assertNonNegativeSafeInteger n = throwIf (\<not> nonNegativeSafe n) NotSafeInteger"

definition validateBudget :: "DeviceCapacityBudget \<Rightarrow> (CapacityTypeError, unit) result" where
  "validateBudget b =
     throwIf (\<not> (list_all (\<lambda>d. nonNegativeSafe (bg_occupancy b d)) OCCUPANCY_DIMENSIONS \<and>
               list_all (\<lambda>d. nonNegativeSafe (bg_quantum b d)) QUANTUM_DIMENSIONS)) NotSafeInteger"

definition validatePolicy :: "DeviceCapacityPolicy \<Rightarrow> (CapacityTypeError, unit) result" where
  "validatePolicy p =
     andThen (throwIf (pol_version p \<noteq> 1) UnsupportedVersion) (\<lambda>_.
     andThen (validateBudget \<lparr>bg_occupancy = pol_occupancy p, bg_quantum = pol_quantum p\<rparr>) (\<lambda>_.
     andThen (validateBudget \<lparr>bg_occupancy = (\<lambda>d. case d of MemoryReservationBytes \<Rightarrow> pol_memorySafetyReserveBytes p
        | TemporaryBytes \<Rightarrow> pol_temporarySafetyReserveBytes p | Slots \<Rightarrow> 0), bg_quantum = pol_quantumRefillPerSecond p\<rparr>) (\<lambda>_.
     andThen (throwIf (pol_maxCpuBusyRatio p < 0 \<or> pol_maxCpuBusyRatio p > 1) InvalidCpuThreshold) (\<lambda>_.
     andThen (assertNonNegativeSafeInteger (pol_minimumAvailableMemoryBytes p)) (\<lambda>_.
     andThen (assertNonNegativeSafeInteger (pol_retryAfterMs p)) (\<lambda>_.
       (case List.find (\<lambda>c. \<not> (0 < pol_classWeights p c \<and> pol_classWeights p c \<le> 1024)) DEVICE_CAPACITY_CLASSES of
          Some c \<Rightarrow> Inl (InvalidClassWeight c)
        | None \<Rightarrow> Inr ())))))))"

definition validateRequest :: "DeviceCapacityRequest \<Rightarrow> bool \<Rightarrow> (CapacityTypeError, unit) result" where
  "validateRequest r hasBorrowedSlot =
     andThen (throwIf (rq_admissionId r = [] \<or> js_length (rq_admissionId r) > 256) InvalidAdmissionId) (\<lambda>_.
     andThen (validateBudget (rq_atomic r)) (\<lambda>_.
     andThen (validateBudget (rq_preferred r)) (\<lambda>_.
     andThen (assertNonNegativeSafeInteger (rq_maxWaitMs r)) (\<lambda>_.
     andThen (case List.find (\<lambda>d. bg_occupancy (rq_atomic r) d > bg_occupancy (rq_preferred r) d) OCCUPANCY_DIMENSIONS of
                Some d \<Rightarrow> Inl (AtomicExceedsPreferred (Occ d)) | None \<Rightarrow> Inr ()) (\<lambda>_.
     andThen (case List.find (\<lambda>d. bg_quantum (rq_atomic r) d > bg_quantum (rq_preferred r) d) QUANTUM_DIMENSIONS of
                Some d \<Rightarrow> Inl (AtomicExceedsPreferred (Quant d)) | None \<Rightarrow> Inr ()) (\<lambda>_.
       throwIf (bg_occupancy (rq_atomic r) Slots < 1 \<and> \<not> hasBorrowedSlot) MustReserveSlot))))))"

definition validatePressure :: "DeviceCapacityPressure \<Rightarrow> (CapacityTypeError, unit) result" where
  "validatePressure p =
     andThen (throwIf (pr_cpuBusyRatio p < 0 \<or> pr_cpuBusyRatio p > 1) InvalidCpuSample) (\<lambda>_.
     andThen (assertNonNegativeSafeInteger (pr_availableMemoryBytes p)) (\<lambda>_.
     andThen (assertNonNegativeSafeInteger (pr_processRssBytes p)) (\<lambda>_.
       (case pr_temporaryBytesAvailable p of None \<Rightarrow> Inr () | Some n \<Rightarrow> assertNonNegativeSafeInteger n))))"

text \<open>\<^verbatim>\<open>None\<close> stands for a probe that throws.\<close>

definition safePressure :: "DeviceCapacityPressure option \<Rightarrow> DeviceCapacityPressure option" where
  "safePressure sample =
     (case sample of None \<Rightarrow> None | Some p \<Rightarrow> (case validatePressure p of Inr _ \<Rightarrow> Some p | Inl _ \<Rightarrow> None))"

definition unknownDimension :: "OccupancyDimension \<Rightarrow> DeviceCapacityPressure option \<Rightarrow> bool" where
  "unknownDimension d pressure =
     (d = TemporaryBytes \<and> (case pressure of None \<Rightarrow> False | Some p \<Rightarrow> pr_temporaryBytesAvailable p = None))"

section \<open>The default policy and the probe of the node\<close>

definition createDefaultDeviceCapacityPolicy :: "int \<Rightarrow> int \<Rightarrow> DeviceCapacityPolicy" where
  "createDefaultDeviceCapacityPolicy cpus totalmem =
     (let cpuCount = max 1 cpus;
          memoryCapacity = max (64 * 1024 * 1024) (min (512 * 1024 * 1024) (totalmem div 4))
      in \<lparr>pol_version = 1,
          pol_occupancy = (\<lambda>d. case d of MemoryReservationBytes \<Rightarrow> memoryCapacity
             | TemporaryBytes \<Rightarrow> 4 * 1024 * 1024 * 1024 | Slots \<Rightarrow> max 2 cpuCount),
          pol_memorySafetyReserveBytes = min (256 * 1024 * 1024) (totalmem div 8),
          pol_temporarySafetyReserveBytes = 512 * 1024 * 1024,
          pol_quantum = (\<lambda>d. case d of ReadBytes \<Rightarrow> 512 * 1024 * 1024 | WriteBytes \<Rightarrow> 512 * 1024 * 1024 | IoOperations \<Rightarrow> 32768),
          pol_quantumRefillPerSecond = (\<lambda>d. case d of ReadBytes \<Rightarrow> 64 * 1024 * 1024 | WriteBytes \<Rightarrow> 64 * 1024 * 1024
             | IoOperations \<Rightarrow> 4096),
          pol_maxCpuBusyRatio = 95 / 100,
          pol_minimumAvailableMemoryBytes = min (128 * 1024 * 1024) (totalmem div 16),
          pol_retryAfterMs = 25,
          pol_classWeights = (\<lambda>c. case c of WorkloadInteractive \<Rightarrow> 8 | WorkloadAdvancement \<Rightarrow> 4 | WorkloadScheduler \<Rightarrow> 2
             | WorkloadOrchestration \<Rightarrow> 3 | StorageForeground \<Rightarrow> 6 | StorageRecovery \<Rightarrow> 3 | StorageBackground \<Rightarrow> 1)\<rparr>)"

definition CPU_SAMPLE_WINDOW_MS :: rat where
  "CPU_SAMPLE_WINDOW_MS = 2000"

definition toSafeInteger :: "rat \<Rightarrow> int" where
  "toSafeInteger value = (if value \<le> 0 then 0 else min MAX_SAFE_INTEGER \<lfloor>value\<rfloor>)"

record CpuTimes =
  ct_total :: rat
  ct_idle :: rat

text \<open>The variables captured by the probe.\<close>

record ProbeState =
  ps_previousCpu :: CpuTimes
  ps_sampleStartedAt :: rat
  ps_cpuBusyRatio :: rat

text \<open>
  One call of the probe: the clock, the processor times, the free and resident memory, and
  the blocks and block size of the file system, unless reading it fails.
\<close>

definition nodeProbe ::
  "rat \<Rightarrow> CpuTimes \<Rightarrow> rat \<Rightarrow> rat \<Rightarrow> (rat \<times> rat) option \<Rightarrow> ProbeState \<Rightarrow> ProbeState \<times> DeviceCapacityPressure" where
  "nodeProbe sampledAt currentCpu freemem rss filesystem st =
     (let st1 =
        (if sampledAt - ps_sampleStartedAt st \<ge> CPU_SAMPLE_WINDOW_MS
         then
           (let totalDelta = ct_total currentCpu - ct_total (ps_previousCpu st);
                idleDelta = max 0 (ct_idle currentCpu - ct_idle (ps_previousCpu st))
            in \<lparr>ps_previousCpu = currentCpu, ps_sampleStartedAt = sampledAt,
                ps_cpuBusyRatio = (if totalDelta > 0 then min 1 (max 0 (1 - idleDelta / totalDelta)) else ps_cpuBusyRatio st)\<rparr>)
         else st)
      in (st1, \<lparr>pr_cpuBusyRatio = ps_cpuBusyRatio st1, pr_availableMemoryBytes = toSafeInteger freemem,
               pr_processRssBytes = toSafeInteger rss,
               pr_temporaryBytesAvailable = map_option (\<lambda>(bavail, bsize). toSafeInteger (bavail * bsize)) filesystem\<rparr>))"

definition createNodeDeviceCapacityProbe :: "CpuTimes \<Rightarrow> rat \<Rightarrow> ProbeState" where
  "createNodeDeviceCapacityProbe cpu now = \<lparr>ps_previousCpu = cpu, ps_sampleStartedAt = now, ps_cpuBusyRatio = 0\<rparr>"

end
