(* ===== verification/Capacity_Arbiter.thy ===== *)
theory Capacity_Arbiter
  imports Capacity_Types
begin

text \<open>
  The operations of \<^verbatim>\<open>DefaultDeviceCapacityArbiter\<close> and \<^verbatim>\<open>CapacityPermit\<close>.

  The clock and the probe are read several times within one operation, and an operation may
  run nested drains; \<open>CapacityEnv\<close> gives the value of each reading, indexed by the drain and,
  for the probe, by the pass within it. Timers and abort signals are operations of their own
  that the environment performs. Promises are represented by \<open>ar_results\<close>, which records the
  admission that each waiting request is resolved with.
\<close>

record CapacityEnv =
  en_now :: "nat \<Rightarrow> int"
  en_probe :: "nat \<Rightarrow> nat \<Rightarrow> DeviceCapacityPressure option"

section \<open>Capacity\<close>

definition newArbiter :: "int \<Rightarrow> DeviceCapacityPolicy \<Rightarrow> (CapacityTypeError, Arbiter) result" where
  "newArbiter now policy =
     andThen (validatePolicy policy) (\<lambda>_.
       Inr \<lparr>ar_policy = policy, ar_queues = (\<lambda>c. []),
            ar_schedule = concat (map (\<lambda>c. replicate (nat (pol_classWeights policy c)) c) DEVICE_CAPACITY_CLASSES),
            ar_occupancyInUse = (\<lambda>d. 0), ar_quantumAvailable = pol_quantum policy, ar_lastRefillAt = now, ar_cursor = 0,
            ar_drainTimer = False, ar_blockedBy = None, ar_lastViolation = None, ar_permits = [], ar_steps = [], ar_loans = [],
            ar_nextPending = 0, ar_results = []\<rparr>)"

definition occupancyCapacity :: "DeviceCapacityPolicy \<Rightarrow> DeviceCapacityPressure option \<Rightarrow> occupancy" where
  "occupancyCapacity policy pressure d =
     (case pressure of
        None \<Rightarrow> 0
      | Some p \<Rightarrow>
          (case d of
             MemoryReservationBytes \<Rightarrow>
               max 0 (min (pol_occupancy policy d) (pr_availableMemoryBytes p - pol_memorySafetyReserveBytes policy))
           | TemporaryBytes \<Rightarrow>
               (case pr_temporaryBytesAvailable p of None \<Rightarrow> 0
                | Some n \<Rightarrow> max 0 (min (pol_occupancy policy d) (n - pol_temporarySafetyReserveBytes policy)))
           | Slots \<Rightarrow> pol_occupancy policy d))"

definition refill :: "int \<Rightarrow> Arbiter \<Rightarrow> Arbiter" where
  "refill now st =
     (let elapsedMs = max 0 (now - ar_lastRefillAt st) in
      if elapsedMs = 0 then st
      else st\<lparr>ar_lastRefillAt := now,
              ar_quantumAvailable := (\<lambda>d. min (pol_quantum (ar_policy st) d)
                (ar_quantumAvailable st d + (pol_quantumRefillPerSecond (ar_policy st) d * elapsedMs) div 1000))\<rparr>)"

definition lacksOccupancy :: "Arbiter \<Rightarrow> DeviceCapacityPressure option \<Rightarrow> DeviceCapacityBudget \<Rightarrow> OccupancyDimension \<Rightarrow> bool" where
  "lacksOccupancy st pressure atomic d =
     (occupancyCapacity (ar_policy st) pressure d - ar_occupancyInUse st d < bg_occupancy atomic d)"

definition fits :: "Arbiter \<Rightarrow> DeviceCapacityBudget \<Rightarrow> DeviceCapacityPressure option \<Rightarrow> bool" where
  "fits st atomic pressure =
     (case pressure of
        None \<Rightarrow> False
      | Some p \<Rightarrow>
          \<not> pr_availableMemoryBytes p < pol_minimumAvailableMemoryBytes (ar_policy st) \<and>
          list_all (\<lambda>d. if unknownDimension d pressure then \<not> bg_occupancy atomic d > 0 else \<not> lacksOccupancy st pressure atomic d)
            OCCUPANCY_DIMENSIONS \<and>
          list_all (\<lambda>d. \<not> ar_quantumAvailable st d < bg_quantum atomic d) QUANTUM_DIMENSIONS)"

definition capacityGap :: "DeviceCapacityPolicy \<Rightarrow> DeviceCapacityBudget \<Rightarrow> DeviceCapacityAdmission option" where
  "capacityGap policy atomic =
     (case List.find (\<lambda>d. bg_occupancy atomic d > pol_occupancy policy d) OCCUPANCY_DIMENSIONS of
        Some d \<Rightarrow> Some (CapacityGap (Occ d) (bg_occupancy atomic d) (pol_occupancy policy d))
      | None \<Rightarrow>
          (case List.find (\<lambda>d. bg_quantum atomic d > pol_quantum policy d) QUANTUM_DIMENSIONS of
             Some d \<Rightarrow> Some (CapacityGap (Quant d) (bg_quantum atomic d) (pol_quantum policy d))
           | None \<Rightarrow> None))"

text \<open>The occupancy loop of \<^verbatim>\<open>blockedDimension\<close>, with its two early returns.\<close>

fun blockedOccupancy ::
  "Arbiter \<Rightarrow> DeviceCapacityBudget \<Rightarrow> DeviceCapacityPressure option \<Rightarrow> OccupancyDimension list \<Rightarrow> DeviceCapacityBlocker option" where
  "blockedOccupancy st atomic pressure [] = None"
| "blockedOccupancy st atomic pressure (d # ds) =
     (if unknownDimension d pressure
      then (if bg_occupancy atomic d > 0 then Some ProbeUnavailable else blockedOccupancy st atomic pressure ds)
      else if lacksOccupancy st pressure atomic d then Some (BlockedBy (Occ d))
      else blockedOccupancy st atomic pressure ds)"

definition blockedDimension :: "Arbiter \<Rightarrow> DeviceCapacityBudget \<Rightarrow> DeviceCapacityPressure option \<Rightarrow> DeviceCapacityBlocker" where
  "blockedDimension st atomic pressure =
     (case pressure of
        None \<Rightarrow> ProbeUnavailable
      | Some p \<Rightarrow>
          if pr_availableMemoryBytes p < pol_minimumAvailableMemoryBytes (ar_policy st) then BlockedBy (Occ MemoryReservationBytes)
          else (case blockedOccupancy st atomic pressure OCCUPANCY_DIMENSIONS of
                  Some b \<Rightarrow> b
                | None \<Rightarrow>
                    (case List.find (\<lambda>d. ar_quantumAvailable st d < bg_quantum atomic d) QUANTUM_DIMENSIONS of
                       Some d \<Rightarrow> BlockedBy (Quant d)
                     | None \<Rightarrow> BlockedBy (Occ Slots))))"

section \<open>Granting\<close>

definition grantBudget :: "Arbiter \<Rightarrow> DeviceCapacityRequest \<Rightarrow> DeviceCapacityPressure option \<Rightarrow> DeviceCapacityBudget" where
  "grantBudget st rq pressure =
     \<lparr>bg_occupancy = (\<lambda>d. if unknownDimension d pressure then 0
        else min (bg_occupancy (rq_preferred rq) d) (occupancyCapacity (ar_policy st) pressure d - ar_occupancyInUse st d)),
      bg_quantum = (\<lambda>d. min (bg_quantum (rq_preferred rq) d) (ar_quantumAvailable st d))\<rparr>"

definition newPermit :: "DeviceCapacityRequest \<Rightarrow> DeviceCapacityBudget \<Rightarrow> nat option \<Rightarrow> CapacityPermit" where
  "newPermit rq granted loan =
     \<lparr>cp_admissionId = rq_admissionId rq, cp_atomic = rq_atomic rq, cp_granted = granted, cp_remainingQuantum = bg_quantum granted,
      cp_activeStep = False, cp_released = False, cp_slotBorrowed = False, cp_returned = False, cp_violation = None, cp_loan = loan\<rparr>"

definition tryGrant ::
  "Arbiter \<Rightarrow> DeviceCapacityRequest \<Rightarrow> DeviceCapacityPressure option \<Rightarrow> nat option \<Rightarrow> Arbiter \<times> DeviceCapacityAdmission option" where
  "tryGrant st rq pressure loan =
     (if \<not> fits st (rq_atomic rq) pressure
      then (st\<lparr>ar_blockedBy := Some (blockedDimension st (rq_atomic rq) pressure)\<rparr>, None)
      else
        (let granted = grantBudget st rq pressure in
         (st\<lparr>ar_occupancyInUse := (\<lambda>d. ar_occupancyInUse st d + bg_occupancy granted d),
             ar_quantumAvailable := (\<lambda>d. ar_quantumAvailable st d - bg_quantum granted d),
             ar_blockedBy := None,
             ar_permits := ar_permits st @ [newPermit rq granted loan]\<rparr>,
          Some (Granted (length (ar_permits st))))))"

definition hasPending :: "Arbiter \<Rightarrow> bool" where
  "hasPending st = list_ex (\<lambda>c. list_ex (\<lambda>p. \<not> pa_settled p) (ar_queues st c)) DEVICE_CAPACITY_CLASSES"

definition scheduleDrain :: "Arbiter \<Rightarrow> Arbiter" where
  "scheduleDrain st = st\<lparr>ar_drainTimer := True\<rparr>"

definition scheduleOrder :: "Arbiter \<Rightarrow> nat list" where
  "scheduleOrder st = map (\<lambda>attempts. (ar_cursor st + attempts) mod length (ar_schedule st)) [0..<length (ar_schedule st)]"

definition scheduleSlot :: "Arbiter \<Rightarrow> DeviceCapacityClass \<Rightarrow> nat option" where
  "scheduleSlot st c = List.find (\<lambda>i. ar_schedule st ! i = c) (scheduleOrder st)"

definition setQueue :: "DeviceCapacityClass \<Rightarrow> PendingAdmission list \<Rightarrow> Arbiter \<Rightarrow> Arbiter" where
  "setQueue c q st = st\<lparr>ar_queues := (ar_queues st)(c := q)\<rparr>"

definition settleGranted :: "nat \<Rightarrow> DeviceCapacityClass \<Rightarrow> PendingAdmission list \<Rightarrow> PendingAdmission \<Rightarrow> DeviceCapacityAdmission \<Rightarrow> Arbiter \<Rightarrow> Arbiter" where
  "settleGranted index c rest p admission st =
     (setQueue c rest st)\<lparr>ar_cursor := (index + 1) mod length (ar_schedule st), ar_results := (pa_id p, admission) # ar_results st\<rparr>"

text \<open>One pass over the schedule: the new state and whether a request was granted.\<close>

fun scanSchedule :: "DeviceCapacityPressure option \<Rightarrow> nat list \<Rightarrow> Arbiter \<Rightarrow> Arbiter \<times> bool" where
  "scanSchedule pressure [] st = (st, False)"
| "scanSchedule pressure (index # order) st =
     (let c = ar_schedule st ! index; queue = dropWhile pa_settled (ar_queues st c); st1 = setQueue c queue st in
      case queue of
        [] \<Rightarrow> scanSchedule pressure order st1
      | p # rest \<Rightarrow>
          (case tryGrant st1 (pa_request p) pressure (pa_loan p) of
             (st2, None) \<Rightarrow> scanSchedule pressure order st2
           | (st2, Some admission) \<Rightarrow> (settleGranted index c rest p admission st2, True)))"

definition queuedTotal :: "Arbiter \<Rightarrow> nat" where
  "queuedTotal st = sum_list (map (\<lambda>c. length (ar_queues st c)) DEVICE_CAPACITY_CLASSES)"

lemma queuedTotal_setQueue:
  "length q < length (ar_queues st c) \<Longrightarrow> queuedTotal (setQueue c q st) < queuedTotal st"
  "length q \<le> length (ar_queues st c) \<Longrightarrow> queuedTotal (setQueue c q st) \<le> queuedTotal st"
  by (cases c; simp add: queuedTotal_def setQueue_def DEVICE_CAPACITY_CLASSES_def)+

lemma tryGrant_queues [simp]:
  "ar_queues (fst (tryGrant st rq pr loan)) = ar_queues st" "ar_schedule (fst (tryGrant st rq pr loan)) = ar_schedule st"
  "ar_policy (fst (tryGrant st rq pr loan)) = ar_policy st" "ar_results (fst (tryGrant st rq pr loan)) = ar_results st"
  by (simp_all add: tryGrant_def Let_def)

lemma queuedTotal_cong: "ar_queues st = ar_queues st' \<Longrightarrow> queuedTotal st = queuedTotal st'"
  by (simp add: queuedTotal_def)

lemma scan_shrinks:
  "queuedTotal (fst (scanSchedule pr order st)) \<le> queuedTotal st \<and>
   (snd (scanSchedule pr order st) \<longrightarrow> queuedTotal (fst (scanSchedule pr order st)) < queuedTotal st)"
proof (induction pr order st rule: scanSchedule.induct)
  case (2 pr index order st)
  define c where "c = ar_schedule st ! index"
  define q where "q = dropWhile pa_settled (ar_queues st c)"
  define st1 where "st1 = setQueue c q st"
  have le: "queuedTotal st1 \<le> queuedTotal st" unfolding st1_def q_def
    by (rule queuedTotal_setQueue(2)) (simp add: length_dropWhile_le)
  show ?case
  proof (cases q)
    case Nil
    have IH: "queuedTotal (fst (scanSchedule pr order st1)) \<le> queuedTotal st1 \<and>
      (snd (scanSchedule pr order st1) \<longrightarrow> queuedTotal (fst (scanSchedule pr order st1)) < queuedTotal st1)"
      using 2(1) [OF c_def q_def st1_def Nil] .
    then show ?thesis using le Nil unfolding scanSchedule.simps Let_def c_def [symmetric] q_def [symmetric] st1_def [symmetric] by auto
  next
    case (Cons p rest)
    obtain st2 adm where g: "tryGrant st1 (pa_request p) pr (pa_loan p) = (st2, adm)" by fastforce
    then have same: "ar_queues st2 = ar_queues st1" by (metis fst_conv tryGrant_queues(1))
    then have tot: "queuedTotal st2 = queuedTotal st1" by (rule queuedTotal_cong)
    show ?thesis
    proof (cases adm)
      case None
      have "queuedTotal (fst (scanSchedule pr order st2)) \<le> queuedTotal st2 \<and>
        (snd (scanSchedule pr order st2) \<longrightarrow> queuedTotal (fst (scanSchedule pr order st2)) < queuedTotal st2)"
        using 2(2) [OF c_def q_def st1_def Cons] g None by auto
      then show ?thesis using le tot Cons g None
        unfolding scanSchedule.simps Let_def c_def [symmetric] q_def [symmetric] st1_def [symmetric] by auto
    next
      case (Some a)
      have "length rest < length (ar_queues st2 c)" using same Cons by (simp add: st1_def setQueue_def)
      then have "queuedTotal (setQueue c rest st2) < queuedTotal st2" by (rule queuedTotal_setQueue(1))
      moreover have "queuedTotal (settleGranted index c rest p a st2) = queuedTotal (setQueue c rest st2)"
        by (rule queuedTotal_cong) (simp add: settleGranted_def)
      ultimately show ?thesis using le tot Cons g Some
        unfolding scanSchedule.simps Let_def c_def [symmetric] q_def [symmetric] st1_def [symmetric] by auto
    qed
  qed
qed simp

declare scanSchedule.simps(2) [simp del]

function drainLoop :: "(nat \<Rightarrow> DeviceCapacityPressure option) \<Rightarrow> nat \<Rightarrow> Arbiter \<Rightarrow> Arbiter" where
  "drainLoop probe pass st =
     (case scanSchedule (safePressure (probe pass)) (scheduleOrder st) st of
        (st1, False) \<Rightarrow> st1
      | (st1, True) \<Rightarrow> drainLoop probe (Suc pass) st1)"
  by pat_completeness auto

termination
  by (relation "measure (\<lambda>(probe, pass, st). queuedTotal st)") (auto, metis fst_conv scan_shrinks snd_conv)

declare drainLoop.simps [simp del]

definition drain :: "CapacityEnv \<Rightarrow> nat \<Rightarrow> Arbiter \<Rightarrow> Arbiter" where
  "drain en k st =
     (let st1 = drainLoop (en_probe en k) 0 (refill (en_now en k) st) in if hasPending st1 then scheduleDrain st1 else st1)"

end
