(* ===== verification/Capacity_Permits.thy ===== *)
theory Capacity_Permits
  imports Capacity_Arbiter
begin

text \<open>
  Permits, steps and loans of \<^verbatim>\<open>device-capacity.ts\<close>, the waiting admissions, and the
  operations of the arbiter as its callers, its timers and its abort signals perform them.
\<close>

section \<open>Steps of a permit\<close>

definition updatePermit :: "nat \<Rightarrow> (CapacityPermit \<Rightarrow> CapacityPermit) \<Rightarrow> Arbiter \<Rightarrow> Arbiter" where
  "updatePermit p f st = st\<lparr>ar_permits := (ar_permits st)[p := f (ar_permits st ! p)]\<rparr>"

definition updateStep :: "nat \<Rightarrow> (CapacityStep \<Rightarrow> CapacityStep) \<Rightarrow> Arbiter \<Rightarrow> Arbiter" where
  "updateStep s f st = st\<lparr>ar_steps := (ar_steps st)[s := f (ar_steps st ! s)]\<rparr>"

definition recordViolation :: "DeviceCapacityDimension \<Rightarrow> int \<Rightarrow> int \<Rightarrow> CapacityPermit \<Rightarrow> CapacityPermit" where
  "recordViolation dimension limit requested P =
     (case cp_violation P of
        Some v \<Rightarrow> P
      | None \<Rightarrow> P\<lparr>cp_violation := Some \<lparr>vi_admissionId = cp_admissionId P, vi_dimension = dimension, vi_limit = limit, vi_requested = requested\<rparr>\<rparr>)"

text \<open>The checks of \<^verbatim>\<open>tryBegin\<close> in order, as the list of dimensions that exceed a limit.\<close>

definition stepExcesses :: "CapacityPermit \<Rightarrow> DeviceCapacityBudget \<Rightarrow> (DeviceCapacityDimension \<times> int \<times> int) list" where
  "stepExcesses P bound =
     concat (map (\<lambda>d. if bg_occupancy bound d > bg_occupancy (cp_atomic P) d
        then [(Occ d, bg_occupancy (cp_atomic P) d, bg_occupancy bound d)] else []) OCCUPANCY_DIMENSIONS) @
     concat (map (\<lambda>d. if bg_quantum bound d > bg_quantum (cp_atomic P) d
        then [(Quant d, bg_quantum (cp_atomic P) d, bg_quantum bound d)]
        else if bg_quantum bound d > cp_remainingQuantum P d then [(Quant d, cp_remainingQuantum P d, bg_quantum bound d)]
        else []) QUANTUM_DIMENSIONS)"

text \<open>The new step, if any; \<open>Inl\<close> is the exception of the validation, which changes nothing.\<close>

definition tryBegin :: "nat \<Rightarrow> DeviceCapacityBudget \<Rightarrow> Arbiter \<Rightarrow> (CapacityTypeError, Arbiter \<times> nat option) result" where
  "tryBegin p bound st =
     andThen (validateBudget bound) (\<lambda>_.
       (let P = ar_permits st ! p in
        Inr (if cp_released P \<or> cp_violation P \<noteq> None then (st, None)
             else if cp_activeStep P then (updatePermit p (recordViolation (Occ Slots) 1 2) st, None)
             else case stepExcesses P bound of
               (dimension, limit, requested) # _ \<Rightarrow> (updatePermit p (recordViolation dimension limit requested) st, None)
             | [] \<Rightarrow>
                 ((updatePermit p (\<lambda>P. P\<lparr>cp_remainingQuantum := (\<lambda>d. cp_remainingQuantum P d - bg_quantum bound d),
                                         cp_activeStep := True\<rparr>) st)
                    \<lparr>ar_steps := ar_steps st @ [\<lparr>sp_permit = p, sp_bound = bound, sp_used = emptyDeviceCapacityBudget, sp_completed = False\<rparr>]\<rparr>,
                  Some (length (ar_steps st))))))"

fun dimensionOf :: "DeviceCapacityBudget \<Rightarrow> DeviceCapacityDimension \<Rightarrow> int" where
  "dimensionOf b (Occ d) = bg_occupancy b d"
| "dimensionOf b (Quant d) = bg_quantum b d"

fun withDimension :: "DeviceCapacityBudget \<Rightarrow> DeviceCapacityDimension \<Rightarrow> int \<Rightarrow> DeviceCapacityBudget" where
  "withDimension b (Occ d) n = b\<lparr>bg_occupancy := (bg_occupancy b)(d := n)\<rparr>"
| "withDimension b (Quant d) n = b\<lparr>bg_quantum := (bg_quantum b)(d := n)\<rparr>"

datatype ClaimResult = Claimed | InvalidAmount | StepUnusable | StepExceeded DeviceCapacityDimension

definition claim :: "nat \<Rightarrow> DeviceCapacityDimension \<Rightarrow> int \<Rightarrow> Arbiter \<Rightarrow> Arbiter \<times> ClaimResult" where
  "claim s dimension amount st =
     (let S = ar_steps st ! s; P = ar_permits st ! sp_permit S;
          requested = dimensionOf (sp_used S) dimension + amount; limit = dimensionOf (sp_bound S) dimension
      in if \<not> nonNegativeSafe amount then (st, InvalidAmount)
         else if sp_completed S \<or> cp_released P \<or> cp_violation P \<noteq> None then (st, StepUnusable)
         else if requested > limit
         then (updatePermit (sp_permit S) (recordViolation dimension limit requested) st, StepExceeded dimension)
         else (updateStep s (\<lambda>S. S\<lparr>sp_used := withDimension (sp_used S) dimension requested\<rparr>) st, Claimed))"

definition completeStep :: "nat \<Rightarrow> Arbiter \<Rightarrow> Arbiter" where
  "completeStep s st =
     (let S = ar_steps st ! s in
      if sp_completed S then st
      else updatePermit (sp_permit S)
             (\<lambda>P. P\<lparr>cp_remainingQuantum := (\<lambda>d. if cp_violation P = None
                      then cp_remainingQuantum P d + (bg_quantum (sp_bound S) d - bg_quantum (sp_used S) d) else cp_remainingQuantum P d),
                    cp_activeStep := False\<rparr>)
             (updateStep s (\<lambda>S. S\<lparr>sp_completed := True\<rparr>) st))"

section \<open>Loans and releases\<close>

definition borrowSlot :: "nat \<Rightarrow> Arbiter \<Rightarrow> (Arbiter \<times> nat) option" where
  "borrowSlot p st =
     (let P = ar_permits st ! p in
      if cp_released P \<or> cp_violation P \<noteq> None \<or> \<not> cp_activeStep P \<or> cp_slotBorrowed P \<or> bg_occupancy (cp_granted P) Slots < 1
      then None
      else Some ((updatePermit p (\<lambda>P. P\<lparr>cp_slotBorrowed := True\<rparr>) st)
                   \<lparr>ar_loans := ar_loans st @ [\<lparr>sl_lender = p, sl_returned = False\<rparr>]\<rparr>, length (ar_loans st)))"

definition returnLoan :: "nat \<Rightarrow> Arbiter \<Rightarrow> Arbiter" where
  "returnLoan l st =
     (updatePermit (sl_lender (ar_loans st ! l)) (\<lambda>P. P\<lparr>cp_slotBorrowed := False\<rparr>) st)
       \<lparr>ar_loans := (ar_loans st)[l := (ar_loans st ! l)\<lparr>sl_returned := True\<rparr>]\<rparr>"

text \<open>The bookkeeping of \<^verbatim>\<open>onRelease\<close>, together with the flag that \<^verbatim>\<open>returnReservation\<close> sets.\<close>

definition giveBack :: "nat \<Rightarrow> Arbiter \<Rightarrow> Arbiter" where
  "giveBack p st =
     (let P = ar_permits st ! p in
      (updatePermit p (\<lambda>P. P\<lparr>cp_returned := True\<rparr>) st)
        \<lparr>ar_occupancyInUse := (\<lambda>d. ar_occupancyInUse st d - bg_occupancy (cp_granted P) d),
         ar_quantumAvailable := (\<lambda>d. min (pol_quantum (ar_policy st) d) (ar_quantumAvailable st d + cp_remainingQuantum P d)),
         ar_lastViolation := (if cp_violation P \<noteq> None then cp_violation P else ar_lastViolation st)\<rparr>)"

text \<open>
  Returning a permit may return the loan it holds, which may return its lender; a lender holds
  no loan, so the depth of two that \<open>release\<close> starts with is never used up.
\<close>

fun returnReservation :: "CapacityEnv \<Rightarrow> nat \<Rightarrow> nat \<Rightarrow> Arbiter \<Rightarrow> Arbiter" where
  "returnReservation en 0 p st = st"
| "returnReservation en (Suc depth) p st =
     (let P = ar_permits st ! p in
      if \<not> cp_released P \<or> cp_slotBorrowed P \<or> cp_returned P then st
      else
        (let st1 = giveBack p st;
             st2 = (case cp_loan P of
                      None \<Rightarrow> st1
                    | Some l \<Rightarrow>
                        if sl_returned (ar_loans st1 ! l) then st1
                        else returnReservation en depth (sl_lender (ar_loans st1 ! l)) (returnLoan l st1))
         in drain en depth st2))"

definition releaseLoan :: "CapacityEnv \<Rightarrow> nat option \<Rightarrow> Arbiter \<Rightarrow> Arbiter" where
  "releaseLoan en loan st =
     (case loan of
        None \<Rightarrow> st
      | Some l \<Rightarrow> if sl_returned (ar_loans st ! l) then st
                  else returnReservation en 1 (sl_lender (ar_loans st ! l)) (returnLoan l st))"

definition release :: "CapacityEnv \<Rightarrow> nat \<Rightarrow> Arbiter \<Rightarrow> Arbiter" where
  "release en p st =
     (if cp_released (ar_permits st ! p) then st
      else returnReservation en 2 p
             (updatePermit p (\<lambda>P. (if cp_activeStep P \<and> cp_violation P = None then recordViolation (Occ Slots) 1 2 P else P)
                                    \<lparr>cp_released := True, cp_activeStep := False\<rparr>) st))"

section \<open>Waiting admissions\<close>

definition pendings :: "Arbiter \<Rightarrow> PendingAdmission list" where
  "pendings st = concat (map (ar_queues st) DEVICE_CAPACITY_CLASSES)"

definition findPending :: "nat \<Rightarrow> Arbiter \<Rightarrow> PendingAdmission option" where
  "findPending pid st = List.find (\<lambda>p. pa_id p = pid \<and> \<not> pa_settled p) (pendings st)"

definition markSettled :: "nat \<Rightarrow> Arbiter \<Rightarrow> Arbiter" where
  "markSettled pid st =
     st\<lparr>ar_queues := (\<lambda>c. map (\<lambda>p. if pa_id p = pid then p\<lparr>pa_settled := True\<rparr> else p) (ar_queues st c))\<rparr>"

text \<open>\<^verbatim>\<open>settle\<close> with an outcome other than a grant; the request stays in its queue, marked.\<close>

definition settleWaiting :: "CapacityEnv \<Rightarrow> nat \<Rightarrow> DeviceCapacityAdmission \<Rightarrow> Arbiter \<Rightarrow> Arbiter" where
  "settleWaiting en pid admission st =
     (case findPending pid st of
        None \<Rightarrow> st
      | Some p \<Rightarrow>
          (let st1 = releaseLoan en (pa_loan p) (markSettled pid st) in st1\<lparr>ar_results := (pid, admission) # ar_results st1\<rparr>))"

definition backpressure :: "Arbiter \<Rightarrow> DeviceCapacityBudget \<Rightarrow> DeviceCapacityPressure option \<Rightarrow> DeviceCapacityAdmission" where
  "backpressure st atomic pressure = Backpressured (blockedDimension st atomic pressure) (pol_retryAfterMs (ar_policy st))"

definition abortPending :: "CapacityEnv \<Rightarrow> nat \<Rightarrow> Arbiter \<Rightarrow> Arbiter" where
  "abortPending en pid st = settleWaiting en pid Cancelled st"

definition timeoutPending :: "CapacityEnv \<Rightarrow> nat \<Rightarrow> Arbiter \<Rightarrow> Arbiter" where
  "timeoutPending en pid st =
     (case findPending pid st of
        None \<Rightarrow> st
      | Some p \<Rightarrow> settleWaiting en pid (backpressure st (rq_atomic (pa_request p)) (safePressure (en_probe en 3 0))) st)"

definition drainTimerFires :: "CapacityEnv \<Rightarrow> Arbiter \<Rightarrow> Arbiter" where
  "drainTimerFires en st = (if ar_drainTimer st then drain en 0 (st\<lparr>ar_drainTimer := False\<rparr>) else st)"

section \<open>Acquiring\<close>

datatype StepOwner = Physical | Workload DeviceCapacityClass DeviceCapacityBudget bool

text \<open>
  The running step that \<^verbatim>\<open>AsyncLocalStorage\<close> gives, if any: its permit when this arbiter
  issued it, its owner, and whether it is active.
\<close>

record StepContext =
  cx_reservation :: "nat option"
  cx_owner :: StepOwner
  cx_active :: bool

definition lenderOf :: "StepContext option \<Rightarrow> DeviceCapacityRequest \<Rightarrow> nat option" where
  "lenderOf ctx rq =
     (case ctx of
        None \<Rightarrow> None
      | Some cx \<Rightarrow>
          (case cx_owner cx of
             Physical \<Rightarrow> None
           | Workload c bound separateRead \<Rightarrow>
               if bg_occupancy (rq_atomic rq) Slots = 0 \<and> bg_occupancy (rq_preferred rq) Slots = 0 \<and> rq_maxWaitMs rq = 0 \<and>
                  cx_active cx \<and> c = rq_serviceClass rq \<and> bg_occupancy bound Slots > 0 \<and>
                  (if separateRead
                   then bg_quantum bound ReadBytes = 0 \<and> bg_quantum (rq_atomic rq) WriteBytes = 0 \<and>
                        bg_quantum (rq_preferred rq) WriteBytes = 0 \<and> bg_occupancy (rq_atomic rq) TemporaryBytes = 0 \<and>
                        bg_occupancy (rq_preferred rq) TemporaryBytes = 0
                   else list_all (\<lambda>d. bg_quantum bound d = 0) QUANTUM_DIMENSIONS)
               then cx_reservation cx else None))"

datatype AcquireOutcome = Rejected CapacityTypeError | Admitted DeviceCapacityAdmission | Waiting nat

text \<open>Putting a request into its queue, and the first drain that may grant it.\<close>

definition enqueue :: "CapacityEnv \<Rightarrow> DeviceCapacityRequest \<Rightarrow> nat option \<Rightarrow> DeviceCapacityPressure option \<Rightarrow> Arbiter \<Rightarrow> Arbiter \<times> AcquireOutcome" where
  "enqueue en rq loan pressure st =
     (let pid = ar_nextPending st; c = rq_serviceClass rq;
          pending = \<lparr>pa_id = pid, pa_request = rq, pa_loan = loan, pa_settled = False\<rparr>;
          st1 = drain en 2 ((setQueue c (ar_queues st c @ [pending]) st)\<lparr>ar_nextPending := Suc pid\<rparr>)
      in case map_of (ar_results st1) pid of
           Some admission \<Rightarrow> (st1, Admitted admission)
         | None \<Rightarrow>
             if rq_maxWaitMs rq = 0
             then (settleWaiting en pid (backpressure st1 (rq_atomic rq) pressure) st1, Admitted (backpressure st1 (rq_atomic rq) pressure))
             else (scheduleDrain st1, Waiting pid))"

text \<open>The direct grant when nobody waits; \<^verbatim>\<open>None\<close> when the request has to be queued.\<close>

definition directGrant :: "DeviceCapacityRequest \<Rightarrow> nat option \<Rightarrow> DeviceCapacityPressure option \<Rightarrow> Arbiter \<Rightarrow> Arbiter \<times> DeviceCapacityAdmission option" where
  "directGrant rq loan pressure st =
     (if hasPending st then (st, None)
      else case scheduleSlot st (rq_serviceClass rq) of
        None \<Rightarrow> (st, None)
      | Some slot \<Rightarrow>
          (case tryGrant st rq pressure loan of
             (st1, Some admission) \<Rightarrow> (st1\<lparr>ar_cursor := (slot + 1) mod length (ar_schedule st1)\<rparr>, Some admission)
           | (st1, None) \<Rightarrow> (st1, None)))"

definition admit :: "CapacityEnv \<Rightarrow> DeviceCapacityRequest \<Rightarrow> nat option \<Rightarrow> DeviceCapacityPressure option \<Rightarrow> Arbiter \<Rightarrow> Arbiter \<times> AcquireOutcome" where
  "admit en rq loan pressure st =
     (case directGrant rq loan pressure st of
        (st1, Some admission) \<Rightarrow> (st1, Admitted admission)
      | (st1, None) \<Rightarrow> enqueue en rq loan pressure st1)"

definition acquire :: "CapacityEnv \<Rightarrow> StepContext option \<Rightarrow> bool \<Rightarrow> DeviceCapacityRequest \<Rightarrow> Arbiter \<Rightarrow> Arbiter \<times> AcquireOutcome" where
  "acquire en ctx aborted rq st =
     (case validateRequest rq (lenderOf ctx rq \<noteq> None) of
        Inl e \<Rightarrow> (st, Rejected e)
      | Inr _ \<Rightarrow>
          if aborted then (st, Admitted Cancelled)
          else
            (let st1 = refill (en_now en 3) st; pressure = safePressure (en_probe en 3 0) in
             case capacityGap (ar_policy st1) (rq_atomic rq) of
               Some gap \<Rightarrow> (st1, Admitted gap)
             | None \<Rightarrow>
                 (case lenderOf ctx rq of
                    None \<Rightarrow> admit en rq None pressure st1
                  | Some p \<Rightarrow>
                      (case borrowSlot p st1 of
                         None \<Rightarrow> (st1, Admitted (Backpressured (BlockedBy (Occ Slots)) (pol_retryAfterMs (ar_policy st1))))
                       | Some (st2, l) \<Rightarrow> admit en rq (Some l) pressure st2))))"

record DeviceCapacityDiagnostics =
  dg_occupancyCapacity :: occupancy
  dg_occupancyInUse :: occupancy
  dg_quantumAvailable :: quantum
  dg_devicePressure :: "(rat \<times> int \<times> int) option"
  dg_queued :: "(DeviceCapacityClass \<times> nat) list"
  dg_blockedBy :: "DeviceCapacityBlocker option"
  dg_lastViolation :: "CapacityViolation option"

definition snapshot :: "CapacityEnv \<Rightarrow> Arbiter \<Rightarrow> Arbiter \<times> DeviceCapacityDiagnostics" where
  "snapshot en st =
     (let st1 = refill (en_now en 3) st; pressure = safePressure (en_probe en 3 0) in
      (st1, \<lparr>dg_occupancyCapacity = occupancyCapacity (ar_policy st1) pressure, dg_occupancyInUse = ar_occupancyInUse st1,
             dg_quantumAvailable = ar_quantumAvailable st1,
             dg_devicePressure = map_option (\<lambda>p. (pr_cpuBusyRatio p, pr_availableMemoryBytes p, pr_processRssBytes p)) pressure,
             dg_queued = filter (\<lambda>(c, n). n > 0)
               (map (\<lambda>c. (c, length (filter (\<lambda>p. \<not> pa_settled p) (ar_queues st1 c)))) DEVICE_CAPACITY_CLASSES),
             dg_blockedBy = ar_blockedBy st1, dg_lastViolation = ar_lastViolation st1\<rparr>))"

section \<open>Runs\<close>

datatype CapacityOp =
    OpAcquire "StepContext option" bool DeviceCapacityRequest
  | OpAbort nat
  | OpTimeout nat
  | OpDrainTimer
  | OpTryBegin nat DeviceCapacityBudget
  | OpClaim nat DeviceCapacityDimension int
  | OpComplete nat
  | OpRelease nat
  | OpSnapshot

text \<open>An operation on a permit or a step that exists, and a context whose permit exists.\<close>

fun opExists :: "Arbiter \<Rightarrow> CapacityOp \<Rightarrow> bool" where
  "opExists st (OpAcquire ctx aborted rq) = (case ctx of None \<Rightarrow> True | Some cx \<Rightarrow>
     (case cx_reservation cx of None \<Rightarrow> True | Some p \<Rightarrow> p < length (ar_permits st)))"
| "opExists st (OpTryBegin p bound) = (p < length (ar_permits st))"
| "opExists st (OpClaim s d n) = (s < length (ar_steps st))"
| "opExists st (OpComplete s) = (s < length (ar_steps st))"
| "opExists st (OpRelease p) = (p < length (ar_permits st))"
| "opExists st op = True"

fun performOp :: "CapacityEnv \<Rightarrow> CapacityOp \<Rightarrow> Arbiter \<Rightarrow> Arbiter" where
  "performOp en (OpAcquire ctx aborted rq) st = fst (acquire en ctx aborted rq st)"
| "performOp en (OpAbort pid) st = abortPending en pid st"
| "performOp en (OpTimeout pid) st = timeoutPending en pid st"
| "performOp en OpDrainTimer st = drainTimerFires en st"
| "performOp en (OpTryBegin p bound) st = (case tryBegin p bound st of Inl e \<Rightarrow> st | Inr (st1, s) \<Rightarrow> st1)"
| "performOp en (OpClaim s d n) st = fst (claim s d n st)"
| "performOp en (OpComplete s) st = completeStep s st"
| "performOp en (OpRelease p) st = release en p st"
| "performOp en OpSnapshot st = fst (snapshot en st)"

inductive capacityRun :: "DeviceCapacityPolicy \<Rightarrow> Arbiter \<Rightarrow> bool" for policy where
  start: "newArbiter now policy = Inr st \<Longrightarrow> capacityRun policy st"
| perform: "capacityRun policy st \<Longrightarrow> opExists st op \<Longrightarrow> capacityRun policy (performOp en op st)"

end
