(* ===== verification/Capacity_Invariant.thy ===== *)
theory Capacity_Invariant
  imports Capacity_Permits
begin

text \<open>
  Invariants of the arbiter. The locale \<open>arbiter_invariant\<close> lists what an invariant has to
  survive, one law per elementary change of state, and derives that every run of operations
  keeps it. It is interpreted three times: for well-formedness (indices, requests, policy),
  for the metering of steps, and for the accounts of occupancy and quanta.
\<close>

section \<open>Well-formedness\<close>

definition budgetOk :: "DeviceCapacityBudget \<Rightarrow> bool" where
  "budgetOk b = ((\<forall>d. 0 \<le> bg_occupancy b d) \<and> (\<forall>d. 0 \<le> bg_quantum b d))"

definition requestOk :: "DeviceCapacityRequest \<Rightarrow> bool" where
  "requestOk rq = (budgetOk (rq_atomic rq) \<and>
     (\<forall>d. bg_occupancy (rq_atomic rq) d \<le> bg_occupancy (rq_preferred rq) d) \<and>
     (\<forall>d. bg_quantum (rq_atomic rq) d \<le> bg_quantum (rq_preferred rq) d))"

definition policyOk :: "DeviceCapacityPolicy \<Rightarrow> bool" where
  "policyOk p = ((\<forall>d. 0 \<le> pol_occupancy p d) \<and> (\<forall>d. 0 \<le> pol_quantum p d) \<and> (\<forall>d. 0 \<le> pol_quantumRefillPerSecond p d) \<and>
     (\<forall>c. 0 < pol_classWeights p c))"

definition loanExists :: "Arbiter \<Rightarrow> nat option \<Rightarrow> bool" where
  "loanExists st loan = (\<forall>l. loan = Some l \<longrightarrow> l < length (ar_loans st))"

definition pendingOk :: "Arbiter \<Rightarrow> PendingAdmission \<Rightarrow> bool" where
  "pendingOk st p = (requestOk (pa_request p) \<and> loanExists st (pa_loan p))"

definition queuesOk :: "Arbiter \<Rightarrow> (DeviceCapacityClass \<Rightarrow> PendingAdmission list) \<Rightarrow> bool" where
  "queuesOk st q = (\<forall>c. \<forall>p \<in> set (q c). pendingOk st p)"

definition arbiterWf :: "Arbiter \<Rightarrow> bool" where
  "arbiterWf st =
     (policyOk (ar_policy st) \<and>
      ar_schedule st = concat (map (\<lambda>c. replicate (nat (pol_classWeights (ar_policy st) c)) c) DEVICE_CAPACITY_CLASSES) \<and>
      queuesOk st (ar_queues st) \<and>
      (\<forall>P \<in> set (ar_permits st). loanExists st (cp_loan P)) \<and>
      (\<forall>L \<in> set (ar_loans st). sl_lender L < length (ar_permits st)) \<and>
      (\<forall>S \<in> set (ar_steps st). sp_permit S < length (ar_permits st)))"

lemma validateBudget_ok: "validateBudget b = Inr u \<Longrightarrow> budgetOk b"
  by (simp add: validateBudget_def nonNegativeSafe_def budgetOk_def)

lemma validateRequest_ok: "validateRequest rq l = Inr u \<Longrightarrow> requestOk rq"
  by (auto simp: validateRequest_def requestOk_def andThen_eq_Inr find_None_iff_all not_less split: option.splits dest!: validateBudget_ok)

lemma validatePolicy_ok: "validatePolicy p = Inr u \<Longrightarrow> policyOk p"
  by (auto simp: validatePolicy_def policyOk_def andThen_eq_Inr find_None_iff_all split: option.splits
      dest!: validateBudget_ok) (auto simp: budgetOk_def)

section \<open>The interface of an invariant\<close>

locale arbiter_invariant =
  fixes policy :: DeviceCapacityPolicy and I :: "Arbiter \<Rightarrow> bool"
  assumes wf: "I st \<Longrightarrow> arbiterWf st"
    and start: "newArbiter now policy = Inr st \<Longrightarrow> I st"
    and frame: "I st \<Longrightarrow> queuesOk st q \<Longrightarrow> I (st\<lparr>ar_queues := q, ar_cursor := c, ar_drainTimer := t, ar_results := r,
      ar_nextPending := n, ar_blockedBy := b\<rparr>)"
    and refill: "I st \<Longrightarrow> I (refill now st)"
    and grant: "I st \<Longrightarrow> requestOk rq \<Longrightarrow> loanExists st loan \<Longrightarrow> I (fst (tryGrant st rq pr loan))"
    and begins: "I st \<Longrightarrow> p < length (ar_permits st) \<Longrightarrow> tryBegin p bound st = Inr (st', s) \<Longrightarrow> I st'"
    and claims: "I st \<Longrightarrow> k < length (ar_steps st) \<Longrightarrow> I (fst (claim k d amount st))"
    and completes: "I st \<Longrightarrow> k < length (ar_steps st) \<Longrightarrow> I (completeStep k st)"
    and borrows: "I st \<Longrightarrow> p < length (ar_permits st) \<Longrightarrow> borrowSlot p st = Some (st', l) \<Longrightarrow> I st'"
    and loanBack: "I st \<Longrightarrow> l < length (ar_loans st) \<Longrightarrow> I (returnLoan l st)"
    and releases: "I st \<Longrightarrow> p < length (ar_permits st) \<Longrightarrow> \<not> cp_released (ar_permits st ! p) \<Longrightarrow>
      I (updatePermit p (\<lambda>P. (if cp_activeStep P \<and> cp_violation P = None then recordViolation (Occ Slots) 1 2 P else P)
           \<lparr>cp_released := True, cp_activeStep := False\<rparr>) st)"
    and gives: "I st \<Longrightarrow> p < length (ar_permits st) \<Longrightarrow> cp_released (ar_permits st ! p) \<Longrightarrow> \<not> cp_returned (ar_permits st ! p) \<Longrightarrow>
      I (giveBack p st)"
begin

lemma queues: "I st \<Longrightarrow> queuesOk st (ar_queues st)"
  using wf by (simp add: arbiterWf_def)

lemma setQueue:
  assumes "I st" "\<forall>p \<in> set q. pendingOk st p"
  shows "I (setQueue c q st)"
proof -
  have "queuesOk st ((ar_queues st)(c := q))" using assms queues by (auto simp: queuesOk_def)
  from frame [OF assms(1) this, where c = "ar_cursor st" and t = "ar_drainTimer st" and r = "ar_results st" and n = "ar_nextPending st" and b = "ar_blockedBy st"]
  show ?thesis by (simp add: setQueue_def)
qed

lemma field_updates:
  assumes "I st"
  shows "I (st\<lparr>ar_cursor := c\<rparr>)" "I (st\<lparr>ar_drainTimer := t\<rparr>)" "I (st\<lparr>ar_results := r\<rparr>)" "I (st\<lparr>ar_nextPending := n\<rparr>)"
proof -
  note f = frame [OF assms queues [OF assms]]
  show "I (st\<lparr>ar_cursor := c\<rparr>)" using f [where c = c and t = "ar_drainTimer st" and r = "ar_results st" and n = "ar_nextPending st" and b = "ar_blockedBy st"] by simp
  show "I (st\<lparr>ar_drainTimer := t\<rparr>)" using f [where c = "ar_cursor st" and t = t and r = "ar_results st" and n = "ar_nextPending st" and b = "ar_blockedBy st"] by simp
  show "I (st\<lparr>ar_results := r\<rparr>)" using f [where c = "ar_cursor st" and t = "ar_drainTimer st" and r = r and n = "ar_nextPending st" and b = "ar_blockedBy st"] by simp
  show "I (st\<lparr>ar_nextPending := n\<rparr>)" using f [where c = "ar_cursor st" and t = "ar_drainTimer st" and r = "ar_results st" and n = n and b = "ar_blockedBy st"] by simp
qed

lemma scan: "I st \<Longrightarrow> I (fst (scanSchedule pr order st))"
proof (induction order arbitrary: st)
  case (Cons index order)
  define c where "c = ar_schedule st ! index"
  define q where "q = dropWhile pa_settled (ar_queues st c)"
  have qok: "\<forall>p \<in> set q. pendingOk st p"
    using queues [OF Cons.prems] unfolding q_def queuesOk_def by (meson set_dropWhileD)
  then have I1: "I (setQueue c q st)" by (rule setQueue [OF Cons.prems])
  show ?case
  proof (cases q)
    case Nil
    with Cons.IH [OF I1] show ?thesis
      unfolding scanSchedule.simps Let_def c_def [symmetric] q_def [symmetric] by simp
  next
    case (Cons p rest)
    have p: "requestOk (pa_request p)" "loanExists (setQueue c q st) (pa_loan p)"
      using qok Cons by (auto simp: pendingOk_def loanExists_def setQueue_def split: option.splits)
    obtain st2 adm where g: "tryGrant (setQueue c q st) (pa_request p) pr (pa_loan p) = (st2, adm)" by fastforce
    have I2: "I st2" using grant [OF I1 p, of pr] g by simp
    have rest: "\<forall>p \<in> set rest. pendingOk st2 p"
    proof -
      have "ar_loans st2 = ar_loans st" using g by (auto simp: tryGrant_def setQueue_def Let_def split: if_splits)
      then show ?thesis using qok Cons by (simp add: pendingOk_def loanExists_def)
    qed
    show ?thesis
    proof (cases adm)
      case None
      then show ?thesis using Cons g Cons.IH [OF I2]
        unfolding scanSchedule.simps Let_def c_def [symmetric] q_def [symmetric] by simp
    next
      case (Some a)
      have "I (settleGranted index c rest p a st2)"
        unfolding settleGranted_def by (intro field_updates setQueue) (use I2 rest in simp_all)
      then show ?thesis using Cons g Some
        unfolding scanSchedule.simps Let_def c_def [symmetric] q_def [symmetric] by simp
    qed
  qed
qed simp

lemma loop: "I st \<Longrightarrow> I (drainLoop probe pass st)"
proof (induction probe pass st rule: drainLoop.induct)
  case (1 probe pass st)
  obtain st1 g where s: "scanSchedule (safePressure (probe pass)) (scheduleOrder st) st = (st1, g)" by fastforce
  have "I st1" using scan [OF 1(2), of "safePressure (probe pass)" "scheduleOrder st"] s by simp
  with 1(1) [OF s [symmetric]] s show ?case by (simp add: drainLoop.simps [of probe pass st] split: bool.splits)
qed

lemma drains: "I st \<Longrightarrow> I (drain en k st)"
  unfolding drain_def Let_def scheduleDrain_def using loop [OF refill] field_updates(2) by simp

lemma loan_lender: "I st \<Longrightarrow> l < length (ar_loans st) \<Longrightarrow> sl_lender (ar_loans st ! l) < length (ar_permits st)"
  using wf by (simp add: arbiterWf_def)

lemma returns: "I st \<Longrightarrow> p < length (ar_permits st) \<Longrightarrow> I (returnReservation en depth p st)"
proof (induction depth arbitrary: p st)
  case (Suc depth)
  let ?P = "ar_permits st ! p"
  show ?case
  proof (cases "\<not> cp_released ?P \<or> cp_slotBorrowed ?P \<or> cp_returned ?P")
    case False
    then have I1: "I (giveBack p st)" using gives Suc.prems by blast
    have same: "ar_loans (giveBack p st) = ar_loans st" by (simp add: giveBack_def updatePermit_def Let_def)
    have "I (case cp_loan ?P of None \<Rightarrow> giveBack p st
        | Some l \<Rightarrow> if sl_returned (ar_loans (giveBack p st) ! l) then giveBack p st
            else returnReservation en depth (sl_lender (ar_loans (giveBack p st) ! l)) (returnLoan l (giveBack p st)))"
    proof (cases "cp_loan ?P")
      case (Some l)
      have "l < length (ar_loans (giveBack p st))" using wf [OF Suc.prems(1)] nth_mem [OF Suc.prems(2)] Some same
        unfolding arbiterWf_def loanExists_def by auto
      then have "I (returnLoan l (giveBack p st))" "sl_lender (ar_loans (giveBack p st) ! l) < length (ar_permits (returnLoan l (giveBack p st)))"
        using loanBack [OF I1] loan_lender [OF I1] by (simp_all add: returnLoan_def updatePermit_def)
      from Suc.IH [OF this] show ?thesis using Some I1 by simp
    qed (use I1 in simp)
    then show ?thesis using False drains by (simp add: Let_def)
  qed (use Suc.prems in simp)
qed simp

lemma loanReleased: "I st \<Longrightarrow> loanExists st loan \<Longrightarrow> I (releaseLoan en loan st)"
proof (cases loan)
  case (Some l)
  assume a: "I st" "loanExists st loan"
  then have l: "l < length (ar_loans st)" using Some by (simp add: loanExists_def)
  have "sl_lender (ar_loans st ! l) < length (ar_permits (returnLoan l st))"
    using loan_lender [OF a(1) l] by (simp add: returnLoan_def updatePermit_def)
  then have "I (returnReservation en 1 (sl_lender (ar_loans st ! l)) (returnLoan l st))"
    by (rule returns [OF loanBack [OF a(1) l]])
  then show ?thesis using a Some by (simp add: releaseLoan_def)
qed (simp add: releaseLoan_def)

lemma released: "I st \<Longrightarrow> p < length (ar_permits st) \<Longrightarrow> I (release en p st)"
  unfolding release_def using returns releases by (simp add: updatePermit_def)

lemma settles: "I st \<Longrightarrow> I (settleWaiting en pid adm st)"
proof (cases "findPending pid st")
  case (Some p)
  assume a: "I st"
  have "p \<in> set (pendings st)" using Some find_Some_mem by (fastforce simp: findPending_def)
  then have "pendingOk st p" using queues [OF a] by (auto simp: pendings_def queuesOk_def)
  then have "loanExists (markSettled pid st) (pa_loan p)" by (simp add: pendingOk_def loanExists_def markSettled_def)
  moreover have "I (markSettled pid st)"
  proof -
    have "queuesOk st (\<lambda>c. map (\<lambda>p. if pa_id p = pid then p\<lparr>pa_settled := True\<rparr> else p) (ar_queues st c))"
      using queues [OF a] by (auto simp: queuesOk_def pendingOk_def)
    from frame [OF a this, where c = "ar_cursor st" and t = "ar_drainTimer st" and r = "ar_results st" and n = "ar_nextPending st" and b = "ar_blockedBy st"]
    show ?thesis by (simp add: markSettled_def)
  qed
  ultimately show ?thesis using Some loanReleased field_updates(3) by (simp add: settleWaiting_def Let_def)
qed (simp add: settleWaiting_def)

lemma enqueues:
  assumes "I st" "requestOk rq" "loanExists st loan"
  shows "I (fst (enqueue en rq loan pr st))"
proof -
  let ?p = "\<lparr>pa_id = ar_nextPending st, pa_request = rq, pa_loan = loan, pa_settled = False\<rparr>"
  have "\<forall>p \<in> set (ar_queues st (rq_serviceClass rq) @ [?p]). pendingOk st p"
    using queues [OF assms(1)] assms(2,3) by (auto simp: queuesOk_def pendingOk_def)
  from drains [OF field_updates(4) [OF setQueue [OF assms(1) this]]]
  show ?thesis unfolding enqueue_def Let_def
    by (auto split: option.splits simp: scheduleDrain_def intro!: settles field_updates(2))
qed

lemma directs:
  assumes "I st" "requestOk rq" "loanExists st loan"
  shows "I (fst (directGrant rq loan pr st))"
proof -
  obtain st1 adm where g: "tryGrant st rq pr loan = (st1, adm)" by fastforce
  have "I st1" using grant [OF assms, of pr] g by simp
  then show ?thesis using assms(1) g unfolding directGrant_def by (auto split: option.splits intro: field_updates(1))
qed

lemma admits:
  assumes "I st" "requestOk rq" "loanExists st loan"
  shows "I (fst (admit en rq loan pr st))"
proof -
  obtain st1 adm where g: "directGrant rq loan pr st = (st1, adm)" by fastforce
  have 1: "I st1" using directs [OF assms, of pr] g by simp
  have "ar_loans st1 = ar_loans st" using g
    by (auto simp: directGrant_def tryGrant_def Let_def split: if_splits option.splits)
  then have "loanExists st1 loan" using assms(3) by (simp add: loanExists_def)
  from enqueues [OF 1 assms(2) this] show ?thesis using g 1 by (simp add: admit_def split: option.splits)
qed

lemma acquires:
  assumes "I st" "opExists st (OpAcquire ctx aborted rq)"
  shows "I (fst (acquire en ctx aborted rq st))"
proof (cases "validateRequest rq (lenderOf ctx rq \<noteq> None)")
  case (Inr u)
  then have rq: "requestOk rq" using validateRequest_ok by blast
  let ?st = "refill (en_now en 3) st"
  have 1: "I ?st" by (rule refill [OF assms(1)])
  have len: "length (ar_permits ?st) = length (ar_permits st)" by (simp add: refill_def Let_def)
  have "I (fst (admit en rq None pr ?st))" for pr by (rule admits [OF 1 rq]) (simp add: loanExists_def)
  moreover have "I (fst (admit en rq (Some l) pr st2))" if "lenderOf ctx rq = Some p" "borrowSlot p ?st = Some (st2, l)" for p st2 l pr
  proof (rule admits [OF _ rq])
    have "p < length (ar_permits ?st)" unfolding len using assms(2) that(1)
      by (auto simp: lenderOf_def split: option.splits StepOwner.splits if_splits)
    then show "I st2" using borrows [OF 1] that(2) by blast
    show "loanExists st2 (Some l)" using that(2) by (auto simp: borrowSlot_def loanExists_def Let_def split: if_splits)
  qed
  ultimately show ?thesis using Inr 1 assms(1) unfolding acquire_def Let_def by (auto split: option.splits)
qed (use assms(1) in \<open>simp add: acquire_def\<close>)

lemma performs: "I st \<Longrightarrow> opExists st op \<Longrightarrow> I (performOp en op st)"
proof (cases op)
  case (OpTryBegin p bound)
  assume "I st" "opExists st op"
  then show ?thesis using OpTryBegin begins by (auto split: sum.splits)
qed (auto simp: abortPending_def timeoutPending_def drainTimerFires_def snapshot_def Let_def split: option.splits
      intro!: acquires settles drains field_updates(2) claims completes released refill simp del: opExists.simps(1))

lemma runs: "capacityRun policy st \<Longrightarrow> I st"
  by (induction rule: capacityRun.induct) (auto intro: start performs)

end

end
