(* ===== verification/Capacity_Accounts.thy ===== *)
theory Capacity_Accounts
  imports Capacity_Invariant
begin

text \<open>
  The three interpretations of \<open>arbiter_invariant\<close>: well-formedness, metering (what the steps
  of a permit use, against what it was granted), and accounts (what is in use, against the
  outstanding permits and the policy).
\<close>

lemma sum_list_update_int:
  fixes f :: "'a \<Rightarrow> int"
  shows "k < length xs \<Longrightarrow> sum_list (map f (xs[k := x])) = sum_list (map f xs) - f (xs ! k) + f x"
proof (induction xs arbitrary: k)
  case (Cons y ys)
  then show ?case by (cases k) auto
qed simp

lemma sum_list_zero:
  fixes f :: "'a \<Rightarrow> int"
  shows "\<forall>x \<in> set xs. f x = 0 \<Longrightarrow> sum_list (map f xs) = 0"
  by (induction xs) auto

section \<open>Well-formedness\<close>

lemmas arbiter_defs = refill_def tryGrant_def tryBegin_def claim_def completeStep_def borrowSlot_def returnLoan_def giveBack_def
  updatePermit_def updateStep_def newPermit_def andThen_eq_Inr

lemma recordViolation_fields [simp]:
  "cp_loan (recordViolation d l r P) = cp_loan P" "cp_granted (recordViolation d l r P) = cp_granted P"
  "cp_atomic (recordViolation d l r P) = cp_atomic P" "cp_remainingQuantum (recordViolation d l r P) = cp_remainingQuantum P"
  "cp_returned (recordViolation d l r P) = cp_returned P" "cp_released (recordViolation d l r P) = cp_released P"
  by (simp_all add: recordViolation_def split: option.splits)

lemma set_update_elim: "x \<in> set (xs[k := y]) \<Longrightarrow> x = y \<or> x \<in> set xs"
  using set_update_subset_insert by fastforce

text \<open>Two states that agree on what well-formedness reads, up to loans that were added.\<close>

definition sameShape :: "Arbiter \<Rightarrow> Arbiter \<Rightarrow> bool" where
  "sameShape st st' =
     (ar_policy st' = ar_policy st \<and> ar_schedule st' = ar_schedule st \<and> ar_queues st' = ar_queues st \<and>
      map cp_loan (ar_permits st') = map cp_loan (ar_permits st) \<and>
      map sp_permit (ar_steps st') = map sp_permit (ar_steps st) \<and>
      map sl_lender (ar_loans st') = map sl_lender (ar_loans st))"

lemma sameShape_wf: "sameShape st st' \<Longrightarrow> arbiterWf st \<Longrightarrow> arbiterWf st'"
proof -
  assume s: "sameShape st st'" and w: "arbiterWf st"
  have len: "length (ar_permits st') = length (ar_permits st)" "length (ar_loans st') = length (ar_loans st)"
    using s map_eq_imp_length_eq unfolding sameShape_def by blast+
  have eq: "cp_loan ` set (ar_permits st') = cp_loan ` set (ar_permits st)" "sp_permit ` set (ar_steps st') = sp_permit ` set (ar_steps st)"
    "sl_lender ` set (ar_loans st') = sl_lender ` set (ar_loans st)"
    using s unfolding sameShape_def by (metis list.set_map)+
  have "\<forall>x \<in> cp_loan ` set (ar_permits st). loanExists st x" "\<forall>x \<in> sp_permit ` set (ar_steps st). x < length (ar_permits st)"
    "\<forall>x \<in> sl_lender ` set (ar_loans st). x < length (ar_permits st)"
    using w by (auto simp: arbiterWf_def)
  then have "\<forall>P \<in> set (ar_permits st'). loanExists st' (cp_loan P)" "\<forall>S \<in> set (ar_steps st'). sp_permit S < length (ar_permits st')"
    "\<forall>L \<in> set (ar_loans st'). sl_lender L < length (ar_permits st')"
    unfolding eq [symmetric] by (auto simp: loanExists_def len)
  then show ?thesis using s w by (auto simp: arbiterWf_def sameShape_def queuesOk_def pendingOk_def loanExists_def len)
qed

lemma map_update_same: "f y = f (xs ! k) \<Longrightarrow> map f (xs[k := y]) = map f xs"
  by (cases "k < length xs") (simp_all add: map_update list_update_same_conv not_less list_update_beyond)

lemma updatePermit_shape [simp]: "(\<And>P. cp_loan (f P) = cp_loan P) \<Longrightarrow> sameShape st (updatePermit p f st)"
  by (simp add: sameShape_def updatePermit_def map_update_same)

lemma tryBegin_cases:
  assumes "tryBegin p bound st = Inr (st', s)"
  obtains (same) "st' = st"
  | (violation) d l r where "st' = updatePermit p (recordViolation d l r) st"
  | (begun) "validateBudget bound = Inr ()" "\<not> cp_released (ar_permits st ! p)" "stepExcesses (ar_permits st ! p) bound = []"
      "st' = (updatePermit p (\<lambda>P. P\<lparr>cp_remainingQuantum := (\<lambda>d. cp_remainingQuantum P d - bg_quantum bound d), cp_activeStep := True\<rparr>) st)
         \<lparr>ar_steps := ar_steps st @ [\<lparr>sp_permit = p, sp_bound = bound, sp_used = emptyDeviceCapacityBudget, sp_completed = False\<rparr>]\<rparr>"
proof -
  let ?P = "ar_permits st ! p"
  have v: "validateBudget bound = Inr ()" using assms by (cases "validateBudget bound") (simp_all add: tryBegin_def)
  consider "cp_released ?P \<or> cp_violation ?P \<noteq> None"
    | "\<not> (cp_released ?P \<or> cp_violation ?P \<noteq> None)" "cp_activeStep ?P"
    | d l r xs where "\<not> (cp_released ?P \<or> cp_violation ?P \<noteq> None)" "\<not> cp_activeStep ?P" "stepExcesses ?P bound = (d, l, r) # xs"
    | "\<not> (cp_released ?P \<or> cp_violation ?P \<noteq> None)" "\<not> cp_activeStep ?P" "stepExcesses ?P bound = []"
    by (metis list.exhaust prod.exhaust)
  then show thesis
  proof cases
    case 1
    then show thesis using assms v by (intro same) (simp add: tryBegin_def)
  next
    case 2
    then show thesis using assms v by (intro violation [of "Occ Slots" 1 2]) (simp add: tryBegin_def)
  next
    case (3 d l r xs)
    then show thesis using assms v by (intro violation [of d l r]) (simp add: tryBegin_def)
  next
    case 4
    then show thesis using assms v by (intro begun) (simp_all add: tryBegin_def)
  qed
qed

lemma claim_cases:
  obtains (same) "fst (claim k d n st) = st"
  | (violation) p l r where "fst (claim k d n st) = updatePermit p (recordViolation d l r) st"
  | (used) "0 \<le> n" "dimensionOf (sp_used (ar_steps st ! k)) d + n \<le> dimensionOf (sp_bound (ar_steps st ! k)) d"
      "\<not> sp_completed (ar_steps st ! k)"
      "fst (claim k d n st) = updateStep k (\<lambda>S. S\<lparr>sp_used := withDimension (sp_used S) d (dimensionOf (sp_used S) d + n)\<rparr>) st"
proof -
  let ?S = "ar_steps st ! k"
  consider "\<not> nonNegativeSafe n \<or> sp_completed ?S \<or> cp_released (ar_permits st ! sp_permit ?S) \<or> cp_violation (ar_permits st ! sp_permit ?S) \<noteq> None"
    | "nonNegativeSafe n" "\<not> sp_completed ?S" "\<not> cp_released (ar_permits st ! sp_permit ?S)" "cp_violation (ar_permits st ! sp_permit ?S) = None"
      "dimensionOf (sp_used ?S) d + n > dimensionOf (sp_bound ?S) d"
    | "nonNegativeSafe n" "\<not> sp_completed ?S" "\<not> cp_released (ar_permits st ! sp_permit ?S)" "cp_violation (ar_permits st ! sp_permit ?S) = None"
      "dimensionOf (sp_used ?S) d + n \<le> dimensionOf (sp_bound ?S) d" by fastforce
  then show thesis
  proof cases
    case 1
    then show thesis by (intro same) (auto simp: claim_def Let_def)
  next
    case 2
    then show thesis by (intro violation [of "sp_permit ?S"]) (simp add: claim_def Let_def)
  next
    case 3
    then show thesis by (intro used) (simp_all add: claim_def Let_def nonNegativeSafe_def updateStep_def)
  qed
qed

lemma completeStep_cases:
  obtains (same) "completeStep k st = st"
  | (finished) "\<not> sp_completed (ar_steps st ! k)"
      "completeStep k st = updatePermit (sp_permit (ar_steps st ! k))
         (\<lambda>P. P\<lparr>cp_remainingQuantum := (\<lambda>d. if cp_violation P = None then cp_remainingQuantum P d +
            (bg_quantum (sp_bound (ar_steps st ! k)) d - bg_quantum (sp_used (ar_steps st ! k)) d) else cp_remainingQuantum P d),
          cp_activeStep := False\<rparr>) (updateStep k (\<lambda>S. S\<lparr>sp_completed := True\<rparr>) st)"
  by (cases "sp_completed (ar_steps st ! k)") (simp_all add: completeStep_def Let_def)

lemma wf_grant:
  assumes "arbiterWf st" "loanExists st loan"
  shows "arbiterWf (fst (tryGrant st rq pr loan))"
proof (cases "fits st (rq_atomic rq) pr")
  case False
  then show ?thesis using assms by (auto simp: tryGrant_def arbiterWf_def queuesOk_def pendingOk_def loanExists_def)
next
  case True
  then show ?thesis using assms
    by (fastforce simp: tryGrant_def arbiterWf_def queuesOk_def pendingOk_def loanExists_def newPermit_def Let_def less_Suc_eq)
qed

lemma wf_begins:
  assumes "arbiterWf st" "p < length (ar_permits st)" "tryBegin p bound st = Inr (st', s)"
  shows "arbiterWf st'"
  using assms(3)
proof (cases rule: tryBegin_cases)
  case begun
  let ?u = "updatePermit p (\<lambda>P. P\<lparr>cp_remainingQuantum := (\<lambda>d. cp_remainingQuantum P d - bg_quantum bound d), cp_activeStep := True\<rparr>) st"
  have "arbiterWf ?u" by (rule sameShape_wf [OF _ assms(1)]) simp
  moreover have "p < length (ar_permits ?u)" "ar_steps ?u = ar_steps st" using assms(2) by (simp_all add: updatePermit_def)
  ultimately show ?thesis unfolding begun(4) by (auto simp: arbiterWf_def queuesOk_def pendingOk_def loanExists_def)
qed (use assms(1) sameShape_wf [OF updatePermit_shape] in auto)

lemma wf_borrows:
  assumes "arbiterWf st" "p < length (ar_permits st)" "borrowSlot p st = Some (st', l)"
  shows "arbiterWf st'"
proof -
  let ?u = "updatePermit p (\<lambda>P. P\<lparr>cp_slotBorrowed := True\<rparr>) st"
  have w: "arbiterWf ?u" by (rule sameShape_wf [OF _ assms(1)]) simp
  have st': "st' = ?u\<lparr>ar_loans := ar_loans st @ [\<lparr>sl_lender = p, sl_returned = False\<rparr>]\<rparr>"
    using assms(3) by (auto simp: borrowSlot_def Let_def split: if_splits)
  have "p < length (ar_permits ?u)" "ar_loans ?u = ar_loans st" using assms(2) by (simp_all add: updatePermit_def)
  then show ?thesis using w unfolding st' by (fastforce simp: arbiterWf_def queuesOk_def pendingOk_def loanExists_def less_Suc_eq)
qed

lemma wf_start: "newArbiter now policy = Inr st \<Longrightarrow> arbiterWf st"
  by (auto simp: newArbiter_def andThen_eq_Inr arbiterWf_def queuesOk_def dest: validatePolicy_ok)

interpretation wellformed: arbiter_invariant policy arbiterWf for policy
proof unfold_locales
  show "newArbiter now policy = Inr st \<Longrightarrow> arbiterWf st" for now st by (rule wf_start)
  show "arbiterWf st \<Longrightarrow> queuesOk st q \<Longrightarrow> arbiterWf (st\<lparr>ar_queues := q, ar_cursor := c, ar_drainTimer := t, ar_results := r,
      ar_nextPending := n, ar_blockedBy := b\<rparr>)" for st q c t r n b
    by (auto simp: arbiterWf_def queuesOk_def pendingOk_def loanExists_def)
  show "arbiterWf st \<Longrightarrow> arbiterWf (refill now st)" for st now
    by (erule sameShape_wf [rotated]) (simp add: sameShape_def refill_def Let_def)
  show "arbiterWf st \<Longrightarrow> requestOk rq \<Longrightarrow> loanExists st loan \<Longrightarrow> arbiterWf (fst (tryGrant st rq pr loan))" for st rq loan pr
    by (rule wf_grant)
  show "arbiterWf st \<Longrightarrow> p < length (ar_permits st) \<Longrightarrow> tryBegin p bound st = Inr (st', s) \<Longrightarrow> arbiterWf st'" for st p bound st' s
    by (rule wf_begins)
  show "arbiterWf st \<Longrightarrow> k < length (ar_steps st) \<Longrightarrow> arbiterWf (fst (claim k d amount st))" for st k d amount
    by (cases rule: claim_cases [of k d amount st])
      (auto elim!: sameShape_wf [rotated] simp: sameShape_def updateStep_def updatePermit_def map_update_same)
  show "arbiterWf st \<Longrightarrow> k < length (ar_steps st) \<Longrightarrow> arbiterWf (completeStep k st)" for st k
    by (cases rule: completeStep_cases [of k st])
      (auto elim!: sameShape_wf [rotated] simp: sameShape_def updateStep_def updatePermit_def map_update_same)
  show "arbiterWf st \<Longrightarrow> p < length (ar_permits st) \<Longrightarrow> borrowSlot p st = Some (st', l) \<Longrightarrow> arbiterWf st'" for st p st' l
    by (rule wf_borrows)
  show "arbiterWf st \<Longrightarrow> l < length (ar_loans st) \<Longrightarrow> arbiterWf (returnLoan l st)" for st l
    by (erule sameShape_wf [rotated]) (simp add: sameShape_def returnLoan_def updatePermit_def map_update_same)
  show "arbiterWf st \<Longrightarrow> arbiterWf (updatePermit p (\<lambda>P. (if cp_activeStep P \<and> cp_violation P = None then recordViolation (Occ Slots) 1 2 P else P)
           \<lparr>cp_released := True, cp_activeStep := False\<rparr>) st)" for st p
    by (erule sameShape_wf [rotated]) simp
  show "arbiterWf st \<Longrightarrow> arbiterWf (giveBack p st)" for st p
    by (erule sameShape_wf [rotated]) (simp add: sameShape_def giveBack_def updatePermit_def map_update_same Let_def)
qed

section \<open>Metering\<close>

definition stepCharge :: "nat \<Rightarrow> QuantumDimension \<Rightarrow> CapacityStep \<Rightarrow> int" where
  "stepCharge p d S =
     (if sp_permit S \<noteq> p then 0 else if sp_completed S then bg_quantum (sp_used S) d else bg_quantum (sp_bound S) d)"

definition charged :: "Arbiter \<Rightarrow> nat \<Rightarrow> QuantumDimension \<Rightarrow> int" where
  "charged st p d = sum_list (map (stepCharge p d) (ar_steps st))"

definition stepOk :: "Arbiter \<Rightarrow> CapacityStep \<Rightarrow> bool" where
  "stepOk st S =
     (\<forall>d. 0 \<le> dimensionOf (sp_used S) d \<and> dimensionOf (sp_used S) d \<le> dimensionOf (sp_bound S) d \<and>
          dimensionOf (sp_bound S) d \<le> dimensionOf (cp_atomic (ar_permits st ! sp_permit S)) d)"

definition metered :: "Arbiter \<Rightarrow> bool" where
  "metered st =
     (arbiterWf st \<and> (\<forall>S \<in> set (ar_steps st). stepOk st S) \<and>
      (\<forall>p < length (ar_permits st). \<forall>d. 0 \<le> cp_remainingQuantum (ar_permits st ! p) d \<and>
         cp_remainingQuantum (ar_permits st ! p) d + charged st p d \<le> bg_quantum (cp_granted (ar_permits st ! p)) d))"

lemma metered_wf: "metered st \<Longrightarrow> arbiterWf st"
  by (simp add: metered_def)

text \<open>What metering reads of a permit.\<close>

definition meterView :: "CapacityPermit \<Rightarrow> DeviceCapacityBudget \<times> DeviceCapacityBudget \<times> quantum" where
  "meterView P = (cp_atomic P, cp_granted P, cp_remainingQuantum P)"

lemma metered_cong:
  assumes "metered st" "arbiterWf st'" "ar_steps st' = ar_steps st" "map meterView (ar_permits st') = map meterView (ar_permits st)"
  shows "metered st'"
proof -
  have len: "length (ar_permits st') = length (ar_permits st)" using assms(4) map_eq_imp_length_eq by blast
  have "meterView (ar_permits st' ! p) = meterView (ar_permits st ! p)" if "p < length (ar_permits st)" for p
    using assms(4) that len by (metis nth_map)
  then have same: "cp_atomic (ar_permits st' ! p) = cp_atomic (ar_permits st ! p)" "cp_granted (ar_permits st' ! p) = cp_granted (ar_permits st ! p)"
    "cp_remainingQuantum (ar_permits st' ! p) = cp_remainingQuantum (ar_permits st ! p)" if "p < length (ar_permits st)" for p
    using that by (auto simp: meterView_def)
  have "charged st' p d = charged st p d" for p d by (simp add: charged_def assms(3))
  moreover have "\<forall>S \<in> set (ar_steps st). sp_permit S < length (ar_permits st)" using assms(1) by (simp add: metered_def arbiterWf_def)
  ultimately show ?thesis using assms(1,2) unfolding metered_def by (simp add: assms(3) len same stepOk_def)
qed

lemma metered_permit:
  assumes "metered st" "\<And>P. meterView (f P) = meterView P" "\<And>P. cp_loan (f P) = cp_loan P"
  shows "metered (updatePermit p f st)"
proof (rule metered_cong [OF assms(1)])
  show "arbiterWf (updatePermit p f st)" using assms(1,3) sameShape_wf [OF updatePermit_shape] by (auto simp: metered_def)
qed (simp_all add: updatePermit_def map_update_same assms(2))

lemma meterView_violation [simp]: "meterView (recordViolation d l r P) = meterView P"
  by (simp add: meterView_def)

lemma charged_steps:
  "ar_steps st' = ar_steps st @ [S] \<Longrightarrow> charged st' p d = charged st p d + stepCharge p d S"
  "k < length (ar_steps st) \<Longrightarrow> ar_steps st' = (ar_steps st)[k := S] \<Longrightarrow>
     charged st' p d = charged st p d - stepCharge p d (ar_steps st ! k) + stepCharge p d S"
  by (simp_all add: charged_def sum_list_update_int)

lemma excess_free:
  assumes "stepExcesses P bound = []"
  shows "bg_occupancy bound d \<le> bg_occupancy (cp_atomic P) d" "bg_quantum bound e \<le> bg_quantum (cp_atomic P) e"
    "bg_quantum bound e \<le> cp_remainingQuantum P e"
proof -
  from assms have occ: "\<forall>d \<in> set OCCUPANCY_DIMENSIONS. \<not> bg_occupancy bound d > bg_occupancy (cp_atomic P) d"
    and quant: "\<forall>d \<in> set QUANTUM_DIMENSIONS. \<not> bg_quantum bound d > bg_quantum (cp_atomic P) d \<and> \<not> bg_quantum bound d > cp_remainingQuantum P d"
    unfolding stepExcesses_def append_is_Nil_conv concat_eq_Nil_conv set_map ball_simps
    by (metis list.distinct(1))+
  show "bg_occupancy bound d \<le> bg_occupancy (cp_atomic P) d" using bspec [OF occ, of d] by (simp add: not_less)
  show "bg_quantum bound e \<le> bg_quantum (cp_atomic P) e" "bg_quantum bound e \<le> cp_remainingQuantum P e"
    using bspec [OF quant, of e] by (simp_all add: not_less)
qed

lemma nth_updatePermit:
  "p < length (ar_permits st) \<Longrightarrow> ar_permits (updatePermit p f st) ! q = (if q = p then f (ar_permits st ! p) else ar_permits st ! q)"
  "length (ar_permits (updatePermit p f st)) = length (ar_permits st)"
  by (auto simp: updatePermit_def)

lemma metered_begins:
  assumes "metered st" "p < length (ar_permits st)" "tryBegin p bound st = Inr (st', s)"
  shows "metered st'"
  using assms(3)
proof (cases rule: tryBegin_cases)
  case begun
  let ?S = "\<lparr>sp_permit = p, sp_bound = bound, sp_used = emptyDeviceCapacityBudget, sp_completed = False\<rparr>"
  have w: "arbiterWf st'" using assms wf_begins by (auto simp: metered_def)
  note ex = excess_free [OF begun(3)]
  have steps: "ar_steps st' = ar_steps st @ [?S]" and permits: "ar_permits st' ! q =
      (if q = p then (ar_permits st ! p)\<lparr>cp_remainingQuantum := (\<lambda>d. cp_remainingQuantum (ar_permits st ! p) d - bg_quantum bound d), cp_activeStep := True\<rparr>
       else ar_permits st ! q)" "length (ar_permits st') = length (ar_permits st)" for q
    unfolding begun(4) using assms(2) by (simp_all add: updatePermit_def)
  have "dimensionOf bound d \<le> dimensionOf (cp_atomic (ar_permits st ! p)) d" "0 \<le> dimensionOf bound d" for d
    using ex validateBudget_ok [OF begun(1)] by (cases d; simp add: budgetOk_def)+
  then have "stepOk st' ?S" by (auto simp: stepOk_def permits emptyDeviceCapacityBudget_def split: DeviceCapacityDimension.splits)
    (metis dimensionOf.elims DeviceCapacityBudget.select_convs order_refl)+
  moreover have "stepOk st' S" if "S \<in> set (ar_steps st)" for S
    using assms(1) that by (auto simp: metered_def stepOk_def permits)
  moreover have "charged st' q d = charged st q d + (if q = p then bg_quantum bound d else 0)" for q d
    using charged_steps(1) [OF steps] by (simp add: stepCharge_def)
  ultimately show ?thesis using assms(1) w ex(3) unfolding metered_def by (auto simp: steps permits)
next
  case (violation d l r)
  then show ?thesis using metered_permit [OF assms(1)] by simp
qed (use assms(1) in simp)

lemma metered_claims:
  assumes "metered st" "k < length (ar_steps st)"
  shows "metered (fst (claim k d n st))"
proof (cases rule: claim_cases [of k d n st])
  case used
  let ?S = "ar_steps st ! k"
  let ?T = "?S\<lparr>sp_used := withDimension (sp_used ?S) d (dimensionOf (sp_used ?S) d + n)\<rparr>"
  let ?st = "fst (claim k d n st)"
  have w: "arbiterWf ?st" using wellformed.claims assms by (auto simp: metered_def)
  have steps: "ar_steps ?st = (ar_steps st)[k := ?T]" and permits: "ar_permits ?st = ar_permits st"
    unfolding used(4) by (simp_all add: updateStep_def)
  have dims: "dimensionOf (withDimension b d v) e = (if e = d then v else dimensionOf b e)" for b v e
    by (cases d; cases e) auto
  have "stepOk st ?S" using assms by (simp add: metered_def)
  then have "stepOk ?st ?T" using used(1,2) by (auto simp: stepOk_def permits dims intro: add_nonneg_nonneg)
  moreover have "stepOk ?st S" if "S \<in> set (ar_steps st)" for S using assms(1) that by (auto simp: metered_def stepOk_def permits)
  moreover have "charged ?st p e = charged st p e" for p e
    using charged_steps(2) [OF assms(2) steps] used(3) by (simp add: stepCharge_def)
  ultimately show ?thesis using assms(1) w unfolding metered_def by (auto simp: steps permits dest: set_update_elim)
next
  case (violation p l r)
  then show ?thesis using metered_permit [OF assms(1)] by simp
qed (use assms(1) in simp)

lemma metered_completes:
  assumes "metered st" "k < length (ar_steps st)"
  shows "metered (completeStep k st)"
proof (cases rule: completeStep_cases [of k st])
  case finished
  let ?S = "ar_steps st ! k"
  let ?st = "completeStep k st"
  have w: "arbiterWf ?st" using wellformed.completes assms by (auto simp: metered_def)
  have steps: "ar_steps ?st = (ar_steps st)[k := ?S\<lparr>sp_completed := True\<rparr>]" unfolding finished(2) by (simp add: updatePermit_def updateStep_def)
  have p: "sp_permit ?S < length (ar_permits st)" using assms by (simp add: metered_def arbiterWf_def)
  let ?P = "ar_permits st ! sp_permit ?S"
  have permits: "ar_permits ?st ! q = (if q = sp_permit ?S then ?P\<lparr>cp_remainingQuantum := (\<lambda>d. if cp_violation ?P = None then
      cp_remainingQuantum ?P d + (bg_quantum (sp_bound ?S) d - bg_quantum (sp_used ?S) d) else cp_remainingQuantum ?P d), cp_activeStep := False\<rparr>
      else ar_permits st ! q)" "length (ar_permits ?st) = length (ar_permits st)" for q
    unfolding finished(2) using p by (simp_all add: updatePermit_def updateStep_def cong: if_cong)
  have S: "stepOk st ?S" using assms by (simp add: metered_def)
  have "dimensionOf (sp_used ?S) (Quant d) \<le> dimensionOf (sp_bound ?S) (Quant d)" for d using S unfolding stepOk_def by blast
  then have used: "bg_quantum (sp_used ?S) d \<le> bg_quantum (sp_bound ?S) d" for d by simp
  have ok: "stepOk ?st S" if "S \<in> set (ar_steps ?st)" for S
  proof -
    have "stepOk st S" using that S assms(1) unfolding steps by (auto simp: metered_def stepOk_def dest!: set_update_elim)
    then show ?thesis by (auto simp: stepOk_def permits)
  qed
  have c: "charged ?st q d = charged st q d - (if q = sp_permit ?S then bg_quantum (sp_bound ?S) d - bg_quantum (sp_used ?S) d else 0)" for q d
    using charged_steps(2) [OF assms(2) steps] finished(1) by (simp add: stepCharge_def)
  have m: "0 \<le> cp_remainingQuantum (ar_permits st ! q) d \<and> cp_remainingQuantum (ar_permits st ! q) d + charged st q d
      \<le> bg_quantum (cp_granted (ar_permits st ! q)) d" if "q < length (ar_permits st)" for q d
    using assms(1) that by (simp add: metered_def)
  have "0 \<le> cp_remainingQuantum (ar_permits ?st ! q) d \<and> cp_remainingQuantum (ar_permits ?st ! q) d + charged ?st q d
      \<le> bg_quantum (cp_granted (ar_permits ?st ! q)) d" if "q < length (ar_permits st)" for q d
    using m [OF that, of d] used [of d] by (auto simp: permits c)
  then show ?thesis using w ok by (simp add: metered_def permits(2))
qed (use assms(1) in simp)

lemma metered_grant:
  assumes "metered st" "requestOk rq" "loanExists st loan"
  shows "metered (fst (tryGrant st rq pr loan))"
proof (cases "fits st (rq_atomic rq) pr")
  case False
  then show ?thesis using assms(1) wf_grant [of st loan rq pr] assms(3)
    by (intro metered_cong [OF assms(1)]) (auto simp: tryGrant_def metered_def)
next
  case True
  let ?st = "fst (tryGrant st rq pr loan)"
  let ?P = "newPermit rq (grantBudget st rq pr) loan"
  have w: "arbiterWf ?st" using wf_grant assms by (simp add: metered_def)
  have steps: "ar_steps ?st = ar_steps st" and permits: "ar_permits ?st = ar_permits st @ [?P]" using True by (simp_all add: tryGrant_def Let_def)
  have sp: "\<forall>S \<in> set (ar_steps st). sp_permit S < length (ar_permits st)" using assms(1) by (simp add: metered_def arbiterWf_def)
  then have "charged ?st (length (ar_permits st)) d = 0" for d
    unfolding charged_def steps by (intro sum_list_zero) (auto simp: stepCharge_def)
  moreover have "charged ?st p d = charged st p d" for p d by (simp add: charged_def steps)
  moreover have "stepOk ?st S" if "S \<in> set (ar_steps st)" for S
    using assms(1) that sp by (auto simp: metered_def stepOk_def permits nth_append)
  moreover have "0 \<le> bg_quantum (grantBudget st rq pr) d" for d
  proof -
    have "bg_quantum (rq_atomic rq) d \<le> ar_quantumAvailable st d" "0 \<le> bg_quantum (rq_atomic rq) d"
      "bg_quantum (rq_atomic rq) d \<le> bg_quantum (rq_preferred rq) d"
      using True assms(2) by (auto simp: fits_def requestOk_def budgetOk_def not_less split: option.splits)
    then show ?thesis by (simp add: grantBudget_def)
  qed
  ultimately show ?thesis using assms(1) w unfolding metered_def by (auto simp: steps permits nth_append less_Suc_eq newPermit_def)
qed

interpretation metering: arbiter_invariant policy metered for policy
proof unfold_locales
  show "metered st \<Longrightarrow> arbiterWf st" for st by (simp add: metered_def)
  show "newArbiter now policy = Inr st \<Longrightarrow> metered st" for now st
    using wf_start [of now policy st] by (auto simp: metered_def newArbiter_def andThen_eq_Inr)
  show "metered st \<Longrightarrow> queuesOk st q \<Longrightarrow> metered (st\<lparr>ar_queues := q, ar_cursor := c, ar_drainTimer := t, ar_results := r,
      ar_nextPending := n, ar_blockedBy := b\<rparr>)" for st q c t r n b
    by (rule metered_cong [of st], assumption, erule wellformed.frame [OF metered_wf], assumption) simp_all
  show "metered st \<Longrightarrow> metered (refill now st)" for st now
    by (rule metered_cong [of st]) (simp_all add: wellformed.refill metered_wf, simp_all add: refill_def Let_def)
  show "metered st \<Longrightarrow> p < length (ar_permits st) \<Longrightarrow> borrowSlot p st = Some (st', l) \<Longrightarrow> metered st'" for st p st' l
    by (rule metered_cong [of st], assumption, erule wf_borrows [OF metered_wf], assumption+)
      (auto simp: borrowSlot_def updatePermit_def map_update_same meterView_def Let_def split: if_splits)
  show "metered st \<Longrightarrow> l < length (ar_loans st) \<Longrightarrow> metered (returnLoan l st)" for st l
    by (rule metered_cong [of st], assumption, erule wellformed.loanBack [OF metered_wf], assumption)
      (simp_all add: returnLoan_def updatePermit_def map_update_same meterView_def)
  show "metered st \<Longrightarrow> metered (updatePermit p (\<lambda>P. (if cp_activeStep P \<and> cp_violation P = None then recordViolation (Occ Slots) 1 2 P else P)
           \<lparr>cp_released := True, cp_activeStep := False\<rparr>) st)" for st p
    by (rule metered_permit) (simp_all add: meterView_def)
  show "metered st \<Longrightarrow> p < length (ar_permits st) \<Longrightarrow> cp_released (ar_permits st ! p) \<Longrightarrow> \<not> cp_returned (ar_permits st ! p) \<Longrightarrow>
      metered (giveBack p st)" for st p
    by (rule metered_cong [of st], assumption, erule wellformed.gives [OF metered_wf], assumption+)
      (simp_all add: giveBack_def updatePermit_def map_update_same meterView_def Let_def)
qed (auto intro: metered_grant metered_begins metered_claims metered_completes)

end
