(* ===== verification/Capacity_Balance.thy ===== *)
theory Capacity_Balance
  imports Capacity_Accounts
begin

text \<open>
  The accounts of the arbiter: what is in use is the sum over the outstanding permits and
  stays within the policy, whatever the pressure samples say.
\<close>

definition outstanding :: "Arbiter \<Rightarrow> OccupancyDimension \<Rightarrow> int" where
  "outstanding st d = sum_list (map (\<lambda>P. if cp_returned P then 0 else bg_occupancy (cp_granted P) d) (ar_permits st))"

text \<open>The amounts of a permit lie between the atomic need and zero cost, and returned permits were released.\<close>

definition permitOk :: "CapacityPermit \<Rightarrow> bool" where
  "permitOk P =
     (budgetOk (cp_atomic P) \<and> (\<forall>d. dimensionOf (cp_atomic P) d \<le> dimensionOf (cp_granted P) d) \<and> (cp_returned P \<longrightarrow> cp_released P))"

definition balanced :: "Arbiter \<Rightarrow> bool" where
  "balanced st =
     (metered st \<and> (\<forall>P \<in> set (ar_permits st). permitOk P) \<and>
      (\<forall>d. ar_occupancyInUse st d = outstanding st d) \<and> (\<forall>d. outstanding st d \<le> pol_occupancy (ar_policy st) d) \<and>
      (\<forall>d. 0 \<le> ar_quantumAvailable st d \<and> ar_quantumAvailable st d \<le> pol_quantum (ar_policy st) d))"

lemma balanced_metered: "balanced st \<Longrightarrow> metered st"
  by (simp add: balanced_def)

text \<open>What the accounts read of a permit.\<close>

definition balanceView :: "CapacityPermit \<Rightarrow> DeviceCapacityBudget \<times> bool" where
  "balanceView P = (cp_granted P, cp_returned P)"

lemma outstanding_cong:
  assumes "map balanceView (ar_permits st') = map balanceView (ar_permits st)"
  shows "outstanding st' d = outstanding st d"
proof -
  let ?f = "\<lambda>(g, r). if r then 0 else bg_occupancy g d"
  have eq: "outstanding st d = sum_list (map ?f (map balanceView (ar_permits st)))" for st
    by (simp add: outstanding_def balanceView_def comp_def)
  show ?thesis unfolding eq [of st] eq [of st'] assms ..
qed

lemma balanced_cong:
  assumes "balanced st" "metered st'" "map balanceView (ar_permits st') = map balanceView (ar_permits st)"
    "\<forall>P \<in> set (ar_permits st'). permitOk P" "ar_occupancyInUse st' = ar_occupancyInUse st"
    "ar_quantumAvailable st' = ar_quantumAvailable st" "ar_policy st' = ar_policy st"
  shows "balanced st'"
  using assms(1,2,4-7) outstanding_cong [OF assms(3)] by (simp add: balanced_def)

lemma permitOk_update:
  assumes "\<forall>P \<in> set (ar_permits st). permitOk P" "permitOk (ar_permits st ! p) \<Longrightarrow> permitOk (f (ar_permits st ! p))" "p < length (ar_permits st)"
  shows "\<forall>P \<in> set (ar_permits (updatePermit p f st)). permitOk P"
  using assms by (auto simp: updatePermit_def dest!: set_update_elim)

lemma balanced_permit:
  assumes "balanced st" "metered (updatePermit p f st)" "p < length (ar_permits st)"
    "balanceView (f (ar_permits st ! p)) = balanceView (ar_permits st ! p)"
    "permitOk (ar_permits st ! p) \<Longrightarrow> permitOk (f (ar_permits st ! p))"
  shows "balanced (updatePermit p f st)"
proof (rule balanced_cong [OF assms(1,2)])
  show "\<forall>P \<in> set (ar_permits (updatePermit p f st)). permitOk P"
    using permitOk_update assms(1,3,5) by (auto simp: balanced_def)
qed (simp_all add: updatePermit_def map_update_same assms(4))

lemma permitOk_simps [simp]:
  "permitOk (recordViolation d l r P) = permitOk P" "balanceView (recordViolation d l r P) = balanceView P"
  by (simp_all add: permitOk_def balanceView_def)

section \<open>Granting\<close>

lemma capacity_within_policy: "policyOk p \<Longrightarrow> occupancyCapacity p pr d \<le> pol_occupancy p d"
  by (auto simp: occupancyCapacity_def policyOk_def split: option.splits OccupancyDimension.splits)

lemma grant_amounts:
  assumes "fits st (rq_atomic rq) pr" "requestOk rq"
  shows "bg_occupancy (rq_atomic rq) d \<le> bg_occupancy (grantBudget st rq pr) d"
    and "bg_quantum (rq_atomic rq) e \<le> bg_quantum (grantBudget st rq pr) e"
    and "bg_occupancy (grantBudget st rq pr) d \<le> bg_occupancy (rq_preferred rq) d"
    and "bg_quantum (grantBudget st rq pr) e \<le> bg_quantum (rq_preferred rq) e"
    and "bg_quantum (grantBudget st rq pr) e \<le> ar_quantumAvailable st e"
    and "0 < bg_occupancy (grantBudget st rq pr) d \<Longrightarrow>
      ar_occupancyInUse st d + bg_occupancy (grantBudget st rq pr) d \<le> occupancyCapacity (ar_policy st) pr d"
proof -
  obtain x where pr: "pr = Some x" using assms(1) by (cases pr) (simp_all add: fits_def)
  have occ: "if unknownDimension d pr then bg_occupancy (rq_atomic rq) d \<le> 0
      else bg_occupancy (rq_atomic rq) d \<le> occupancyCapacity (ar_policy st) pr d - ar_occupancyInUse st d" for d
    using assms(1) unfolding fits_def pr by (auto simp: lacksOccupancy_def not_less split: if_splits)
  have rq: "0 \<le> bg_occupancy (rq_atomic rq) d" "bg_occupancy (rq_atomic rq) d \<le> bg_occupancy (rq_preferred rq) d" for d
    using assms(2) by (simp_all add: requestOk_def budgetOk_def)
  show "bg_occupancy (rq_atomic rq) d \<le> bg_occupancy (grantBudget st rq pr) d"
    using occ [of d] rq [of d] by (auto simp: grantBudget_def split: if_splits)
  show "bg_occupancy (grantBudget st rq pr) d \<le> bg_occupancy (rq_preferred rq) d"
    using rq [of d] by (auto simp: grantBudget_def)
  show "bg_quantum (rq_atomic rq) e \<le> bg_quantum (grantBudget st rq pr) e"
    using assms unfolding fits_def pr by (simp add: grantBudget_def requestOk_def not_less)
  show "bg_quantum (grantBudget st rq pr) e \<le> bg_quantum (rq_preferred rq) e" "bg_quantum (grantBudget st rq pr) e \<le> ar_quantumAvailable st e"
    by (simp_all add: grantBudget_def)
  show "0 < bg_occupancy (grantBudget st rq pr) d \<Longrightarrow>
      ar_occupancyInUse st d + bg_occupancy (grantBudget st rq pr) d \<le> occupancyCapacity (ar_policy st) pr d"
    by (auto simp: grantBudget_def split: if_splits)
qed

lemma grant_zero_or_more:
  assumes "fits st (rq_atomic rq) pr" "requestOk rq"
  shows "0 \<le> bg_occupancy (grantBudget st rq pr) d" "0 \<le> bg_quantum (grantBudget st rq pr) e"
  using grant_amounts(1) [OF assms, of d] grant_amounts(2) [OF assms, of e] assms(2) by (auto simp: requestOk_def budgetOk_def intro: order_trans)

lemma balanced_grant:
  assumes "balanced st" "requestOk rq" "loanExists st loan"
  shows "balanced (fst (tryGrant st rq pr loan))"
proof (cases "fits st (rq_atomic rq) pr")
  case False
  then show ?thesis using assms(1) metering.grant [OF balanced_metered [OF assms(1)] assms(2,3), of pr]
    by (intro balanced_cong [OF assms(1)]) (auto simp: tryGrant_def balanced_def)
next
  case True
  let ?st = "fst (tryGrant st rq pr loan)"
  let ?g = "grantBudget st rq pr"
  have m: "metered ?st" by (rule metering.grant [OF balanced_metered [OF assms(1)] assms(2,3)])
  have st: "ar_permits ?st = ar_permits st @ [newPermit rq ?g loan]" "ar_occupancyInUse ?st = (\<lambda>d. ar_occupancyInUse st d + bg_occupancy ?g d)"
    "ar_quantumAvailable ?st = (\<lambda>d. ar_quantumAvailable st d - bg_quantum ?g d)" using True by (simp_all add: tryGrant_def Let_def)
  note am = grant_amounts [OF True assms(2)] grant_zero_or_more [OF True assms(2)]
  have "dimensionOf (rq_atomic rq) d \<le> dimensionOf ?g d" for d using am by (cases d) auto
  then have "permitOk (newPermit rq ?g loan)" using assms(2) by (simp add: permitOk_def newPermit_def requestOk_def)
  moreover have "ar_occupancyInUse st d + bg_occupancy ?g d \<le> pol_occupancy (ar_policy st) d" for d
  proof (cases "0 < bg_occupancy ?g d")
    case pos: True
    have "policyOk (ar_policy st)" using assms(1) by (simp add: balanced_def metered_def arbiterWf_def)
    then show ?thesis using am(6) [OF pos] capacity_within_policy by (meson order_trans)
  next
    case False
    then show ?thesis using am(7) [of d] assms(1) by (simp add: balanced_def)
  qed
  moreover have "outstanding ?st d = outstanding st d + bg_occupancy ?g d" for d
    unfolding outstanding_def st(1) by (simp add: newPermit_def)
  moreover have "ar_quantumAvailable st e - bg_quantum ?g e \<le> pol_quantum (ar_policy st) e" for e
    using am(8) [of e] assms(1) by (simp add: balanced_def) (meson diff_le_eq le_add_same_cancel1 order_trans)
  ultimately show ?thesis using assms(1) m am(5) unfolding balanced_def by (simp add: st)
qed

section \<open>Steps and returns\<close>

lemma balanced_begins:
  assumes "balanced st" "p < length (ar_permits st)" "tryBegin p bound st = Inr (st', s)"
  shows "balanced st'"
proof -
  have m: "metered st'" by (rule metered_begins [OF balanced_metered [OF assms(1)] assms(2,3)])
  from assms(3) show ?thesis
  proof (cases rule: tryBegin_cases)
    case (violation d l r)
    then show ?thesis using balanced_permit [OF assms(1) _ assms(2)] m by simp
  next
    case begun
    show ?thesis
    proof (rule balanced_cong [OF assms(1) m])
      show "\<forall>P \<in> set (ar_permits st'). permitOk P"
        using assms(1,2) unfolding begun(4) by (auto simp: updatePermit_def balanced_def permitOk_def dest!: set_update_elim)
    qed (simp_all add: begun(4) updatePermit_def map_update_same balanceView_def)
  qed (use assms(1) in simp)
qed

lemma step_permit: "balanced st \<Longrightarrow> k < length (ar_steps st) \<Longrightarrow> sp_permit (ar_steps st ! k) < length (ar_permits st)"
  by (simp add: balanced_def metered_def arbiterWf_def)

lemma balanced_claims:
  assumes "balanced st" "k < length (ar_steps st)"
  shows "balanced (fst (claim k d n st))"
proof -
  have m: "metered (fst (claim k d n st))" by (rule metered_claims [OF balanced_metered [OF assms(1)] assms(2)])
  show ?thesis
  proof (rule balanced_cong [OF assms(1) m])
    show "\<forall>P \<in> set (ar_permits (fst (claim k d n st))). permitOk P"
      using assms(1) step_permit [OF assms] unfolding claim_def balanced_def Let_def
      by (auto simp: updatePermit_def updateStep_def dest!: set_update_elim)
  qed (auto simp: claim_def Let_def updatePermit_def updateStep_def map_update_same)
qed

lemma balanced_completes:
  assumes "balanced st" "k < length (ar_steps st)"
  shows "balanced (completeStep k st)"
proof -
  have m: "metered (completeStep k st)" by (rule metered_completes [OF balanced_metered [OF assms(1)] assms(2)])
  show ?thesis
  proof (rule balanced_cong [OF assms(1) m])
    show "\<forall>P \<in> set (ar_permits (completeStep k st)). permitOk P"
      using assms(1) nth_mem [OF step_permit [OF assms]] unfolding completeStep_def balanced_def Let_def
      by (auto simp: updatePermit_def updateStep_def permitOk_def dest!: set_update_elim)
  qed (auto simp: completeStep_def Let_def updatePermit_def updateStep_def map_update_same balanceView_def)
qed

lemma balanced_gives:
  assumes "balanced st" "p < length (ar_permits st)" "cp_released (ar_permits st ! p)" "\<not> cp_returned (ar_permits st ! p)"
  shows "balanced (giveBack p st)"
proof -
  let ?P = "ar_permits st ! p" and ?st = "giveBack p st"
  have m: "metered ?st" by (rule metering.gives [OF balanced_metered [OF assms(1)] assms(2-4)])
  have st: "ar_permits ?st = (ar_permits st)[p := ?P\<lparr>cp_returned := True\<rparr>]" "ar_policy ?st = ar_policy st"
    "ar_occupancyInUse ?st = (\<lambda>d. ar_occupancyInUse st d - bg_occupancy (cp_granted ?P) d)"
    "ar_quantumAvailable ?st = (\<lambda>d. min (pol_quantum (ar_policy st) d) (ar_quantumAvailable st d + cp_remainingQuantum ?P d))"
    by (simp_all add: giveBack_def updatePermit_def Let_def)
  have ok: "permitOk ?P" using assms(1,2) by (simp add: balanced_def)
  then have "permitOk (?P\<lparr>cp_returned := True\<rparr>)" using assms(3) by (simp add: permitOk_def)
  then have "\<forall>P \<in> set (ar_permits ?st). permitOk P" using assms(1) unfolding st by (auto simp: balanced_def dest!: set_update_elim)
  moreover have "outstanding ?st d = outstanding st d - bg_occupancy (cp_granted ?P) d" for d
    unfolding outstanding_def st using assms(2,4) by (simp add: sum_list_update_int)
  moreover have "outstanding st d - bg_occupancy (cp_granted ?P) d \<le> pol_occupancy (ar_policy st) d" for d
  proof -
    have "outstanding st d \<le> pol_occupancy (ar_policy st) d" using assms(1) by (simp add: balanced_def)
    moreover have "dimensionOf (cp_atomic ?P) (Occ d) \<le> dimensionOf (cp_granted ?P) (Occ d)" "0 \<le> bg_occupancy (cp_atomic ?P) d"
      using ok unfolding permitOk_def budgetOk_def by blast+
    ultimately show ?thesis by simp
  qed
  moreover have "0 \<le> cp_remainingQuantum ?P d" for d using assms(1,2) by (simp add: balanced_def metered_def)
  moreover have "0 \<le> pol_quantum (ar_policy st) d" for d
    using assms(1) by (simp add: balanced_def metered_def arbiterWf_def policyOk_def)
  ultimately show ?thesis using assms(1) m unfolding balanced_def by (auto simp: st intro: order_trans)
qed

lemma balanced_refill: "balanced st \<Longrightarrow> balanced (refill now st)"
proof -
  assume b: "balanced st"
  have m: "metered (refill now st)" by (rule metering.refill [OF balanced_metered [OF b]])
  have pos: "policyOk (ar_policy st)" using b by (simp add: balanced_def metered_def arbiterWf_def)
  have out: "outstanding (refill now st) d = outstanding st d" for d by (simp add: outstanding_def refill_def Let_def)
  have "0 \<le> ar_quantumAvailable (refill now st) d \<and> ar_quantumAvailable (refill now st) d \<le> pol_quantum (ar_policy st) d" for d
  proof -
    have "0 \<le> pol_quantumRefillPerSecond (ar_policy st) d * max 0 (now - ar_lastRefillAt st) div 1000"
      using pos by (simp add: policyOk_def div_int_pos_iff)
    then show ?thesis using b pos by (auto simp: refill_def Let_def balanced_def policyOk_def)
  qed
  then show ?thesis using b m out unfolding balanced_def by (simp add: refill_def Let_def)
qed

interpretation balance: arbiter_invariant policy balanced for policy
proof unfold_locales
  show "balanced st \<Longrightarrow> arbiterWf st" for st by (simp add: balanced_def metered_def)
  show "newArbiter now policy = Inr st \<Longrightarrow> balanced st" for now st
    using metering.start [of now policy st]
    by (auto simp: balanced_def outstanding_def newArbiter_def andThen_eq_Inr policyOk_def dest!: validatePolicy_ok)
  show "balanced st \<Longrightarrow> queuesOk st q \<Longrightarrow> balanced (st\<lparr>ar_queues := q, ar_cursor := c, ar_drainTimer := t, ar_results := r,
      ar_nextPending := n, ar_blockedBy := b\<rparr>)" for st q c t r n b
    by (rule balanced_cong [of st], assumption, erule metering.frame [OF balanced_metered], assumption) (simp_all add: balanced_def)
  show "balanced st \<Longrightarrow> p < length (ar_permits st) \<Longrightarrow> borrowSlot p st = Some (st', l) \<Longrightarrow> balanced st'" for st p st' l
    by (rule balanced_cong [of st], assumption, erule metering.borrows [OF balanced_metered], assumption+)
      (auto simp: borrowSlot_def updatePermit_def map_update_same balanceView_def balanced_def permitOk_def Let_def
        split: if_splits dest!: set_update_elim)
  show "balanced st \<Longrightarrow> l < length (ar_loans st) \<Longrightarrow> balanced (returnLoan l st)" for st l
  proof (rule balanced_cong [of st], assumption, erule metering.loanBack [OF balanced_metered], assumption)
    assume a: "balanced st" "l < length (ar_loans st)"
    then have "sl_lender (ar_loans st ! l) < length (ar_permits st)" by (simp add: balanced_def metered_def arbiterWf_def)
    then show "\<forall>P \<in> set (ar_permits (returnLoan l st)). permitOk P"
      using a nth_mem unfolding balanced_def by (fastforce simp: returnLoan_def updatePermit_def permitOk_def dest!: set_update_elim)
  qed (simp_all add: returnLoan_def updatePermit_def map_update_same balanceView_def)
  show "balanced st \<Longrightarrow> p < length (ar_permits st) \<Longrightarrow> \<not> cp_released (ar_permits st ! p) \<Longrightarrow>
      balanced (updatePermit p (\<lambda>P. (if cp_activeStep P \<and> cp_violation P = None then recordViolation (Occ Slots) 1 2 P else P)
           \<lparr>cp_released := True, cp_activeStep := False\<rparr>) st)" for st p
    by (rule balanced_permit, assumption, erule metering.releases [OF balanced_metered]) (auto simp: balanceView_def permitOk_def)
qed (auto intro: balanced_grant balanced_begins balanced_claims balanced_completes balanced_gives balanced_refill)

text \<open>The policy of an arbiter never changes.\<close>

lemma policy_kept [simp]:
  "ar_policy (refill now st) = ar_policy st" "ar_policy (fst (claim k d n st)) = ar_policy st" "ar_policy (completeStep k st) = ar_policy st"
  "ar_policy (returnLoan l st) = ar_policy st" "ar_policy (giveBack p st) = ar_policy st" "ar_policy (updatePermit p f st) = ar_policy st"
  by (simp_all add: refill_def claim_def completeStep_def returnLoan_def giveBack_def updatePermit_def updateStep_def Let_def)

lemma policy_begins: "tryBegin p bound st = Inr (st', s) \<Longrightarrow> ar_policy st' = ar_policy st"
  by (erule tryBegin_cases) simp_all

lemma policy_borrows: "borrowSlot p st = Some (st', l) \<Longrightarrow> ar_policy st' = ar_policy st"
  by (auto simp: borrowSlot_def Let_def split: if_splits)

lemma policy_start: "newArbiter now policy = Inr st \<Longrightarrow> ar_policy st = policy"
  by (auto simp: newArbiter_def andThen_eq_Inr)

interpretation policies: arbiter_invariant policy "\<lambda>st. arbiterWf st \<and> ar_policy st = policy" for policy
  by unfold_locales
    (simp_all add: wf_start policy_start wellformed.frame wellformed.refill wellformed.grant wellformed.claims wellformed.completes
      wellformed.loanBack wellformed.releases wellformed.gives,
     metis wf_begins policy_begins, metis wf_borrows policy_borrows)

end
