(* ===== verification/Capacity_Correctness.thy ===== *)
theory Capacity_Correctness
  imports Capacity_Balance "HOL-Library.Multiset"
begin

text \<open>
  The correctness properties of the device capacity arbiter: accounts, metering, admission,
  draining, the direct grant, and the resolution of waiting requests.
\<close>

section \<open>A concrete arbiter\<close>

definition demoPolicy :: DeviceCapacityPolicy where
  "demoPolicy = createDefaultDeviceCapacityPolicy 4 17179869184"

definition demoPressure :: DeviceCapacityPressure where
  "demoPressure = \<lparr>pr_cpuBusyRatio = 1 / 2, pr_availableMemoryBytes = 8589934592, pr_processRssBytes = 104857600,
     pr_temporaryBytesAvailable = Some 107374182400\<rparr>"

definition demoCapacityEnv :: CapacityEnv where
  "demoCapacityEnv = \<lparr>en_now = (\<lambda>k. 0), en_probe = (\<lambda>k n. Some demoPressure)\<rparr>"

definition demoBudget :: DeviceCapacityBudget where
  "demoBudget = \<lparr>bg_occupancy = (\<lambda>d. case d of MemoryReservationBytes \<Rightarrow> 1000 | TemporaryBytes \<Rightarrow> 0 | Slots \<Rightarrow> 1),
     bg_quantum = (\<lambda>d. case d of ReadBytes \<Rightarrow> 4096 | WriteBytes \<Rightarrow> 4096 | IoOperations \<Rightarrow> 2)\<rparr>"

definition demoRequest :: DeviceCapacityRequest where
  "demoRequest = \<lparr>rq_admissionId = ''run:1'', rq_serviceClass = WorkloadInteractive, rq_atomic = demoBudget, rq_preferred = demoBudget,
     rq_maxWaitMs = 100\<rparr>"

lemma demo_arbiter: "\<exists>st. newArbiter 0 demoPolicy = Inr st"
proof -
  have "isOk (newArbiter 0 demoPolicy)" by code_simp
  then show ?thesis by (simp add: isOk_iff)
qed

text \<open>The state after the demo request has been granted on a new arbiter.\<close>

definition demoGranted :: "Arbiter option" where
  "demoGranted =
     (case newArbiter 0 demoPolicy of Inl e \<Rightarrow> None | Inr st \<Rightarrow> Some (fst (directGrant demoRequest None (Some demoPressure) st)))"

lemma demo_granted: "\<exists>st. demoGranted = Some st \<and> capacityRun demoPolicy st"
proof -
  obtain st0 where st0: "newArbiter 0 demoPolicy = Inr st0" using demo_arbiter by blast
  have same: "refill 0 st0 = st0" "ar_policy st0 = demoPolicy" using st0 by (auto simp: newArbiter_def andThen_eq_Inr refill_def)
  obtain st1 r where d: "directGrant demoRequest None (Some demoPressure) st0 = (st1, r)" by fastforce
  have "case newArbiter 0 demoPolicy of Inl e \<Rightarrow> False | Inr st \<Rightarrow> snd (directGrant demoRequest None (Some demoPressure) st) = Some (Granted 0)"
    by code_simp
  then have r: "r = Some (Granted 0)" using st0 d by simp
  have "isOk (validateRequest demoRequest False)" by code_simp
  then have v: "validateRequest demoRequest False = Inr ()" by (auto simp: isOk_iff)
  have gap: "capacityGap demoPolicy (rq_atomic demoRequest) = None" by code_simp
  have sample: "safePressure (Some demoPressure) = Some demoPressure" by code_simp
  have "performOp demoCapacityEnv (OpAcquire None False demoRequest) st0 = st1"
    by (simp add: acquire_def lenderOf_def v demoCapacityEnv_def same gap sample admit_def d r)
  moreover have "capacityRun demoPolicy (performOp demoCapacityEnv (OpAcquire None False demoRequest) st0)"
    by (rule perform [OF start [OF st0]]) simp
  ultimately show ?thesis using st0 d by (simp add: demoGranted_def)
qed

section \<open>Accounts and metering\<close>

lemma outstanding_nonneg: "balanced st \<Longrightarrow> 0 \<le> outstanding st d"
proof -
  assume b: "balanced st"
  have "0 \<le> bg_occupancy (cp_granted P) d" if "P \<in> set (ar_permits st)" for P
  proof -
    have "permitOk P" using b that by (simp add: balanced_def)
    then have "dimensionOf (cp_atomic P) (Occ d) \<le> dimensionOf (cp_granted P) (Occ d)" "0 \<le> bg_occupancy (cp_atomic P) d"
      unfolding permitOk_def budgetOk_def by blast+
    then show ?thesis by simp
  qed
  then show ?thesis unfolding outstanding_def by (intro sum_list_nonneg) auto
qed

text \<open>
  C20. In every reachable state the occupancy in use is the sum of what the permits not yet
  returned were granted, and stays within the policy in every dimension; the quanta available
  are never negative and never above the policy. No order of requests, nested drains, loans,
  violations, clock readings or pressure samples overcommits the device.
\<close>

theorem capacity_never_overcommitted:
  assumes "capacityRun policy st"
  shows "(\<forall>d. ar_occupancyInUse st d = outstanding st d \<and> 0 \<le> ar_occupancyInUse st d \<and> ar_occupancyInUse st d \<le> pol_occupancy policy d) \<and>
    (\<forall>d. 0 \<le> ar_quantumAvailable st d \<and> ar_quantumAvailable st d \<le> pol_quantum policy d)"
proof -
  have b: "balanced st" and pol: "ar_policy st = policy" using balance.runs policies.runs assms by blast+
  then show ?thesis using outstanding_nonneg [OF b] by (simp add: balanced_def)
qed

theorem capacity_never_overcommitted_witness:
  "\<exists>st. capacityRun demoPolicy st \<and> 0 < outstanding st Slots \<and> ar_occupancyInUse st Slots = outstanding st Slots"
proof -
  obtain st where st: "demoGranted = Some st" "capacityRun demoPolicy st" using demo_granted by blast
  have "case demoGranted of None \<Rightarrow> False | Some st \<Rightarrow> 0 < outstanding st Slots" by code_simp
  then have "0 < outstanding st Slots" unfolding st(1) by simp
  with st capacity_never_overcommitted [OF st(2)] show ?thesis by auto
qed

lemma charged_uses:
  assumes "\<forall>S \<in> set steps. \<forall>d. dimensionOf (sp_used S) d \<le> dimensionOf (sp_bound S) d"
  shows "sum_list (map (\<lambda>S. bg_quantum (sp_used S) d) (filter (\<lambda>S. sp_permit S = p) steps)) \<le> sum_list (map (stepCharge p d) steps)"
  using assms
proof (induction steps)
  case (Cons S steps)
  have "dimensionOf (sp_used S) (Quant d) \<le> dimensionOf (sp_bound S) (Quant d)" using Cons.prems by (meson list.set_intros(1))
  then have "bg_quantum (sp_used S) d \<le> bg_quantum (sp_bound S) d" by simp
  with Cons show ?case by (auto simp: stepCharge_def)
qed simp

text \<open>
  What the steps of a permit claim is metered: all its steps together, past and running,
  never use more of a quantum than the permit was granted; a step stays within its bound and
  within the atomic need of the permit.
\<close>

theorem permit_usage_metered:
  assumes "capacityRun policy st" and "p < length (ar_permits st)"
  shows "sum_list (map (\<lambda>S. bg_quantum (sp_used S) d) (filter (\<lambda>S. sp_permit S = p) (ar_steps st)))
      \<le> bg_quantum (cp_granted (ar_permits st ! p)) d \<and>
    (\<forall>S \<in> set (ar_steps st). sp_permit S = p \<longrightarrow> (\<forall>e. dimensionOf (sp_used S) e \<le> dimensionOf (sp_bound S) e \<and>
       dimensionOf (sp_bound S) e \<le> dimensionOf (cp_atomic (ar_permits st ! p)) e))"
proof -
  have m: "metered st" using metering.runs assms(1) .
  then have s: "\<forall>S \<in> set (ar_steps st). stepOk st S" by (simp add: metered_def)
  have "sum_list (map (\<lambda>S. bg_quantum (sp_used S) d) (filter (\<lambda>S. sp_permit S = p) (ar_steps st))) \<le> charged st p d"
    unfolding charged_def by (rule charged_uses) (use s in \<open>simp add: stepOk_def\<close>)
  moreover have "0 \<le> cp_remainingQuantum (ar_permits st ! p) d \<and>
      cp_remainingQuantum (ar_permits st ! p) d + charged st p d \<le> bg_quantum (cp_granted (ar_permits st ! p)) d"
    using m assms(2) by (simp add: metered_def)
  ultimately show ?thesis using s by (auto simp: stepOk_def)
qed

theorem permit_usage_metered_witness:
  "\<exists>st. capacityRun demoPolicy st \<and> length (ar_steps st) = 1 \<and>
     sum_list (map (\<lambda>S. bg_quantum (sp_used S) ReadBytes) (filter (\<lambda>S. sp_permit S = 0) (ar_steps st)))
       \<le> bg_quantum (cp_granted (ar_permits st ! 0)) ReadBytes"
proof -
  obtain st where st: "demoGranted = Some st" "capacityRun demoPolicy st" using demo_granted by blast
  let ?st = "performOp demoCapacityEnv (OpTryBegin 0 demoBudget) st"
  have "case demoGranted of None \<Rightarrow> False | Some st \<Rightarrow> length (ar_permits st) = 1 \<and>
      (case tryBegin 0 demoBudget st of Inl e \<Rightarrow> False | Inr (st', s) \<Rightarrow> length (ar_steps st') = 1 \<and> length (ar_permits st') = 1)" by code_simp
  then have len: "length (ar_permits st) = 1" "length (ar_steps ?st) = 1" "length (ar_permits ?st) = 1"
    unfolding st(1) by (auto split: sum.splits)
  have run: "capacityRun demoPolicy ?st" by (rule perform [OF st(2)]) (use len in simp)
  have "0 < length (ar_permits ?st)" unfolding len(3) by simp
  from permit_usage_metered [OF run this, of ReadBytes] len(2) run show ?thesis by blast
qed

section \<open>Admission\<close>

text \<open>
  A request is turned away as a capacity gap exactly when its atomic need exceeds the policy
  in some dimension; the gap names such a dimension with the need and the capacity.
\<close>

lemma capacity_gap_exact:
  "(capacityGap policy atomic = None \<longleftrightarrow> (\<forall>d. bg_occupancy atomic d \<le> pol_occupancy policy d) \<and> (\<forall>d. bg_quantum atomic d \<le> pol_quantum policy d)) \<and>
   (\<forall>gap. capacityGap policy atomic = Some gap \<longrightarrow>
      (\<exists>d. gap = CapacityGap d (dimensionOf atomic d) (dimensionOf \<lparr>bg_occupancy = pol_occupancy policy, bg_quantum = pol_quantum policy\<rparr> d) \<and>
           dimensionOf \<lparr>bg_occupancy = pol_occupancy policy, bg_quantum = pol_quantum policy\<rparr> d < dimensionOf atomic d))"
proof (cases "List.find (\<lambda>d. bg_occupancy atomic d > pol_occupancy policy d) OCCUPANCY_DIMENSIONS")
  case (Some d)
  then have "bg_occupancy atomic d > pol_occupancy policy d" using find_Some_mem by fast
  then show ?thesis using Some by (auto simp: capacityGap_def not_le intro!: exI [of _ "Occ d"])
next
  case None
  then have occ: "\<forall>d. bg_occupancy atomic d \<le> pol_occupancy policy d" by (auto simp: find_None_iff_all not_less)
  show ?thesis
  proof (cases "List.find (\<lambda>d. bg_quantum atomic d > pol_quantum policy d) QUANTUM_DIMENSIONS")
    case (Some d)
    then have "bg_quantum atomic d > pol_quantum policy d" using find_Some_mem by fast
    then show ?thesis using None Some by (auto simp: capacityGap_def not_le intro!: exI [of _ "Quant d"])
  next
    case none: None
    then have "\<forall>d. bg_quantum atomic d \<le> pol_quantum policy d" by (auto simp: find_None_iff_all not_less)
    then show ?thesis using None none occ by (simp add: capacityGap_def)
  qed
qed

definition amplePressure :: "DeviceCapacityPolicy \<Rightarrow> DeviceCapacityPressure" where
  "amplePressure policy = \<lparr>pr_cpuBusyRatio = 0,
     pr_availableMemoryBytes = max (pol_minimumAvailableMemoryBytes policy)
       (pol_occupancy policy MemoryReservationBytes + pol_memorySafetyReserveBytes policy),
     pr_processRssBytes = 0,
     pr_temporaryBytesAvailable = Some (pol_occupancy policy TemporaryBytes + pol_temporarySafetyReserveBytes policy)\<rparr>"

lemma ample_capacity: "policyOk policy \<Longrightarrow> occupancyCapacity policy (Some (amplePressure policy)) d = pol_occupancy policy d"
  by (cases d) (auto simp: occupancyCapacity_def amplePressure_def policyOk_def)

lemma new_arbiter_fits:
  assumes "newArbiter now policy = Inr st" and "capacityGap policy atomic = None"
  shows "fits st atomic (Some (amplePressure policy))"
proof -
  have st: "ar_policy st = policy" "ar_occupancyInUse st = (\<lambda>d. 0)" "ar_quantumAvailable st = pol_quantum policy" "policyOk policy"
    using assms(1) by (auto simp: newArbiter_def andThen_eq_Inr dest!: validatePolicy_ok)
  have le: "\<forall>d. bg_occupancy atomic d \<le> pol_occupancy policy d" "\<forall>d. bg_quantum atomic d \<le> pol_quantum policy d"
    using assms(2) capacity_gap_exact by blast+
  have "\<not> unknownDimension d (Some (amplePressure policy))" for d by (simp add: unknownDimension_def amplePressure_def)
  moreover have "pol_minimumAvailableMemoryBytes policy \<le> pr_availableMemoryBytes (amplePressure policy)" by (simp add: amplePressure_def)
  ultimately show ?thesis using le by (simp add: fits_def lacksOccupancy_def st ample_capacity not_less)
qed

lemma fits_within_policy:
  assumes "balanced st" and "fits st atomic pressure"
  shows "capacityGap (ar_policy st) atomic = None"
proof -
  have pol: "policyOk (ar_policy st)" and use0: "0 \<le> ar_occupancyInUse st d"
    and q: "ar_quantumAvailable st e \<le> pol_quantum (ar_policy st) e" for d e
    using assms(1) outstanding_nonneg by (auto simp: balanced_def metered_def arbiterWf_def)
  have occ: "if unknownDimension d pressure then bg_occupancy atomic d \<le> 0
      else bg_occupancy atomic d \<le> occupancyCapacity (ar_policy st) pressure d - ar_occupancyInUse st d" for d
    using assms(2) by (auto simp: fits_def lacksOccupancy_def not_less split: option.splits if_splits)
  have "bg_occupancy atomic d \<le> pol_occupancy (ar_policy st) d" for d
    using occ [of d] use0 [of d] capacity_within_policy [OF pol, of pressure d] pol
    by (cases "unknownDimension d pressure") (auto simp: policyOk_def intro: order_trans)
  moreover have "bg_quantum atomic e \<le> pol_quantum (ar_policy st) e" for e
    using assms(2) q [of e] by (auto simp: fits_def not_less split: option.splits intro: order_trans)
  ultimately show ?thesis using capacity_gap_exact by blast
qed

text \<open>
  A capacity gap means never, and only a gap does: a request is turned away with a gap
  exactly when its atomic need fits in no reachable state of the arbiter under any pressure
  sample. A momentary shortage is therefore never reported as a gap.
\<close>

theorem capacity_gap_permanent:
  assumes "Capacity_Types.validatePolicy policy = Inr ()"
  shows "capacityGap policy atomic \<noteq> None \<longleftrightarrow> (\<forall>st pressure. capacityRun policy st \<longrightarrow> \<not> fits st atomic pressure)"
proof -
  obtain st where st: "newArbiter 0 policy = Inr st" using assms by (auto simp: newArbiter_def andThen_def)
  have never: "capacityGap policy atomic = None" if "capacityRun policy st" "fits st atomic pressure" for st pressure
    using fits_within_policy [OF balance.runs [OF that(1)] that(2)] policies.runs [OF that(1)] by simp
  show ?thesis
  proof (cases "capacityGap policy atomic")
    case None
    then show ?thesis using new_arbiter_fits [OF st None] start [OF st] by auto
  next
    case (Some gap)
    then show ?thesis using never by fastforce
  qed
qed

theorem capacity_gap_permanent_witness:
  "\<exists>st. capacityRun demoPolicy st \<and> \<not> fits st (demoBudget\<lparr>bg_quantum := (\<lambda>d. 40000)\<rparr>) (Some demoPressure)"
proof -
  have ok: "Capacity_Types.validatePolicy demoPolicy = Inr ()" using demo_arbiter by (auto simp: newArbiter_def andThen_eq_Inr)
  have gap: "capacityGap demoPolicy (demoBudget\<lparr>bg_quantum := (\<lambda>d. 40000)\<rparr>) \<noteq> None" by code_simp
  obtain st where "capacityRun demoPolicy st" using demo_granted by blast
  then show ?thesis using iffD1 [OF capacity_gap_permanent [OF ok] gap] by blast
qed

text \<open>
  A permit carries at least the atomic need and at most the preferred amount of its
  request in every dimension, and its occupancy fits under the capacity that the pressure
  sample leaves.
\<close>

theorem grant_within_request:
  assumes "tryGrant st rq pressure loan = (st', Some admission)" and "requestOk rq"
  shows "admission = Granted (length (ar_permits st)) \<and>
    (\<forall>d. dimensionOf (rq_atomic rq) d \<le> dimensionOf (cp_granted (ar_permits st' ! length (ar_permits st))) d \<and>
         dimensionOf (cp_granted (ar_permits st' ! length (ar_permits st))) d \<le> dimensionOf (rq_preferred rq) d) \<and>
    (\<forall>d. 0 < bg_occupancy (cp_granted (ar_permits st' ! length (ar_permits st))) d \<longrightarrow>
         ar_occupancyInUse st' d \<le> occupancyCapacity (ar_policy st) pressure d)"
proof -
  have fit: "fits st (rq_atomic rq) pressure" using assms(1) by (auto simp: tryGrant_def split: if_splits)
  then have st': "admission = Granted (length (ar_permits st))" "ar_permits st' = ar_permits st @ [newPermit rq (grantBudget st rq pressure) loan]"
    "ar_occupancyInUse st' = (\<lambda>d. ar_occupancyInUse st d + bg_occupancy (grantBudget st rq pressure) d)"
    using assms(1) by (auto simp: tryGrant_def Let_def)
  note am = grant_amounts [OF fit assms(2)]
  have "dimensionOf (rq_atomic rq) d \<le> dimensionOf (grantBudget st rq pressure) d \<and>
      dimensionOf (grantBudget st rq pressure) d \<le> dimensionOf (rq_preferred rq) d" for d
    using am(1-4) by (cases d) auto
  then show ?thesis using am(6) by (simp add: st' nth_append newPermit_def)
qed

theorem grant_within_request_witness:
  "\<exists>st st'. newArbiter 0 demoPolicy = Inr st \<and> tryGrant st demoRequest (Some demoPressure) None = (st', Some (Granted 0)) \<and>
     dimensionOf (rq_atomic demoRequest) (Occ Slots) \<le> dimensionOf (cp_granted (ar_permits st' ! 0)) (Occ Slots)"
proof -
  obtain st where st: "newArbiter 0 demoPolicy = Inr st" using demo_arbiter by blast
  obtain st' adm where g: "tryGrant st demoRequest (Some demoPressure) None = (st', adm)" by fastforce
  have "case newArbiter 0 demoPolicy of Inl e \<Rightarrow> False | Inr st \<Rightarrow>
      (snd (tryGrant st demoRequest (Some demoPressure) None) = Some (Granted 0) \<and> length (ar_permits st) = 0)" by code_simp
  then have adm: "adm = Some (Granted 0)" "length (ar_permits st) = 0" using st g by simp_all
  have "isOk (validateRequest demoRequest False)" by code_simp
  then have "requestOk demoRequest" using validateRequest_ok by (auto simp: isOk_iff)
  from grant_within_request [OF g [unfolded adm] this] adm
  have "dimensionOf (rq_atomic demoRequest) (Occ Slots) \<le> dimensionOf (cp_granted (ar_permits st' ! 0)) (Occ Slots)"
    by (metis (no_types, lifting))
  with st g adm show ?thesis by auto
qed

section \<open>Draining\<close>

lemma schedule_classes:
  assumes "arbiterWf st"
  shows "set (ar_schedule st) = UNIV" "ar_schedule st \<noteq> []"
proof -
  have "c \<in> set (ar_schedule st)" for c
  proof -
    have "0 < pol_classWeights (ar_policy st) c" using assms by (simp add: arbiterWf_def policyOk_def)
    then have "c \<in> set (replicate (nat (pol_classWeights (ar_policy st) c)) c)" by simp
    moreover have "ar_schedule st = concat (map (\<lambda>c. replicate (nat (pol_classWeights (ar_policy st) c)) c) DEVICE_CAPACITY_CLASSES)"
      using assms by (simp add: arbiterWf_def)
    moreover have "c \<in> set DEVICE_CAPACITY_CLASSES" by simp
    ultimately show ?thesis by auto
  qed
  then show "set (ar_schedule st) = UNIV" by blast
  then show "ar_schedule st \<noteq> []" by auto
qed

lemma order_covers:
  assumes "arbiterWf st"
  shows "\<exists>i \<in> set (scheduleOrder st). i < length (ar_schedule st) \<and> ar_schedule st ! i = c"
proof -
  let ?n = "length (ar_schedule st)"
  obtain i where i: "i < ?n" "ar_schedule st ! i = c" using schedule_classes(1) [OF assms] by (metis UNIV_I in_set_conv_nth)
  have "?n > 0" using i(1) by (rule le_less_trans [OF le0])
  have "(ar_cursor st + (i + (?n - ar_cursor st mod ?n)) mod ?n) mod ?n = (ar_cursor st + (i + (?n - ar_cursor st mod ?n))) mod ?n"
    by (simp add: mod_add_right_eq)
  also have "\<dots> = (ar_cursor st mod ?n + (i + (?n - ar_cursor st mod ?n))) mod ?n" by (simp add: mod_add_left_eq)
  also have "\<dots> = (i + ?n) mod ?n" using mod_less_divisor [OF \<open>?n > 0\<close>, of "ar_cursor st"] by (simp add: add.left_commute)
  also have "\<dots> = i" using i(1) by simp
  finally have "i = (ar_cursor st + (i + (?n - ar_cursor st mod ?n)) mod ?n) mod ?n" ..
  moreover have "(i + (?n - ar_cursor st mod ?n)) mod ?n < ?n" using \<open>?n > 0\<close> by simp
  ultimately have "i \<in> set (scheduleOrder st)" unfolding scheduleOrder_def by (auto simp: image_iff)
  with i show ?thesis by blast
qed

text \<open>A pass that grants nothing leaves the amounts alone and only drops settled heads.\<close>

abbreviation waitingHead :: "Arbiter \<Rightarrow> DeviceCapacityClass \<Rightarrow> PendingAdmission list" where
  "waitingHead st c \<equiv> dropWhile pa_settled (ar_queues st c)"

definition sameAmounts :: "Arbiter \<Rightarrow> Arbiter \<Rightarrow> bool" where
  "sameAmounts st st' =
     (ar_policy st' = ar_policy st \<and> ar_occupancyInUse st' = ar_occupancyInUse st \<and> ar_quantumAvailable st' = ar_quantumAvailable st \<and>
      ar_schedule st' = ar_schedule st \<and> ar_cursor st' = ar_cursor st \<and> (\<forall>c. waitingHead st' c = waitingHead st c))"

lemma fits_cong: "sameAmounts st st' \<Longrightarrow> fits st' atomic pr = fits st atomic pr"
  by (cases pr) (simp_all add: fits_def lacksOccupancy_def sameAmounts_def)

lemma dropWhile_twice [simp]: "dropWhile P (dropWhile P xs) = dropWhile P xs"
  by (induction xs) auto

lemma sameAmounts_trans: "sameAmounts st st' \<Longrightarrow> sameAmounts st' st'' \<Longrightarrow> sameAmounts st st''"
  by (simp add: sameAmounts_def)

lemma sameAmounts_sweep: "sameAmounts st (setQueue c (waitingHead st c) st)"
  by (simp add: sameAmounts_def setQueue_def)

lemma sameAmounts_refused: "tryGrant st rq pr loan = (st', None) \<Longrightarrow> sameAmounts st st' \<and> \<not> fits st (rq_atomic rq) pr"
  by (auto simp: tryGrant_def sameAmounts_def Let_def split: if_splits)

lemma scan_refuses:
  "scanSchedule pr order st = (st', False) \<Longrightarrow>
   sameAmounts st st' \<and> (\<forall>i \<in> set order. \<forall>p rest. waitingHead st (ar_schedule st ! i) = p # rest \<longrightarrow> \<not> fits st (rq_atomic (pa_request p)) pr)"
proof (induction order arbitrary: st)
  case Nil
  then show ?case by (simp add: sameAmounts_def)
next
  case (Cons index order)
  define c where "c = ar_schedule st ! index"
  let ?st1 = "setQueue c (waitingHead st c) st"
  note step = Cons.prems [unfolded scanSchedule.simps Let_def c_def [symmetric]]
  have "\<exists>st2. sameAmounts st st2 \<and> scanSchedule pr order st2 = (st', False) \<and>
      (\<forall>p rest. waitingHead st c = p # rest \<longrightarrow> \<not> fits st (rq_atomic (pa_request p)) pr)"
  proof (cases "waitingHead st c")
    case Nil
    have "scanSchedule pr order ?st1 = (st', False)" using step unfolding Nil by simp
    moreover have "waitingHead st c \<noteq> p # rest" for p rest unfolding Nil by simp
    ultimately show ?thesis using sameAmounts_sweep [of st c] by blast
  next
    case (Cons p rest)
    obtain st2 adm where g: "tryGrant ?st1 (pa_request p) pr (pa_loan p) = (st2, adm)" by fastforce
    then have "adm = None" "scanSchedule pr order st2 = (st', False)" using step Cons by (auto split: option.splits)
    moreover have "sameAmounts ?st1 st2 \<and> \<not> fits ?st1 (rq_atomic (pa_request p)) pr"
      using sameAmounts_refused g \<open>adm = None\<close> by blast
    moreover have "\<not> fits st (rq_atomic (pa_request p)) pr" using calculation(3) fits_cong [OF sameAmounts_sweep] by blast
    moreover have "sameAmounts st st2" using calculation(3) sameAmounts_trans [OF sameAmounts_sweep] by blast
    moreover have "p' = p" if "waitingHead st c = p' # rest'" for p' rest' using that Cons by (metis list.inject)
    ultimately show ?thesis by metis
  qed
  then obtain st2 where st2: "sameAmounts st st2" "scanSchedule pr order st2 = (st', False)"
    "\<forall>p rest. waitingHead st c = p # rest \<longrightarrow> \<not> fits st (rq_atomic (pa_request p)) pr" by blast
  have eq: "ar_schedule st2 = ar_schedule st" "waitingHead st2 x = waitingHead st x" for x using st2(1) by (simp_all add: sameAmounts_def)
  from Cons.IH [OF st2(2)] have "sameAmounts st2 st'"
    "\<forall>i \<in> set order. \<forall>p rest. waitingHead st (ar_schedule st ! i) = p # rest \<longrightarrow> \<not> fits st (rq_atomic (pa_request p)) pr"
    by (simp_all add: eq fits_cong [OF st2(1)])
  then show ?case using st2 sameAmounts_trans c_def by auto
qed

lemma loop_refuses:
  "arbiterWf st \<Longrightarrow> \<exists>n. \<forall>c p rest. waitingHead (drainLoop probe pass st) c = p # rest \<longrightarrow>
     \<not> fits (drainLoop probe pass st) (rq_atomic (pa_request p)) (safePressure (probe n))"
proof (induction probe pass st rule: drainLoop.induct)
  case (1 probe pass st)
  obtain st1 g where s: "scanSchedule (safePressure (probe pass)) (scheduleOrder st) st = (st1, g)" by fastforce
  show ?case
  proof (cases g)
    case True
    have "arbiterWf st1" using wellformed.scan [OF 1(2), of "safePressure (probe pass)" "scheduleOrder st"] s by simp
    from 1(1) [OF s [symmetric] _ this] show ?thesis using s True by (simp add: drainLoop.simps [of probe pass st])
  next
    case False
    then have same: "sameAmounts st st1" and no: "\<forall>i \<in> set (scheduleOrder st). \<forall>p rest. waitingHead st (ar_schedule st ! i) = p # rest \<longrightarrow>
        \<not> fits st (rq_atomic (pa_request p)) (safePressure (probe pass))" using scan_refuses [of "safePressure (probe pass)" "scheduleOrder st" st st1] s by auto
    have loop: "drainLoop probe pass st = st1" using s False by (simp add: drainLoop.simps [of probe pass st])
    have "\<not> fits st1 (rq_atomic (pa_request p)) (safePressure (probe pass))" if "waitingHead st1 c = p # rest" for c p rest
    proof -
      obtain i where "i \<in> set (scheduleOrder st)" "ar_schedule st ! i = c" using order_covers [OF 1(2)] by blast
      with no that same show ?thesis by (simp add: fits_cong [OF same]) (auto simp: sameAmounts_def)
    qed
    then show ?thesis unfolding loop by blast
  qed
qed

text \<open>
  A drain ends with nothing left to grant: the first waiting request of every class does
  not fit under the last pressure sample that the drain read, and while anybody waits the
  timer for the next drain is set, so no request is stranded.
\<close>

theorem drain_leaves_nothing_grantable:
  assumes "capacityRun policy st"
  shows "(\<exists>n. \<forall>c p rest. waitingHead (drain en k st) c = p # rest \<longrightarrow>
      \<not> fits (drain en k st) (rq_atomic (pa_request p)) (safePressure (en_probe en k n))) \<and>
    (hasPending (drain en k st) \<longrightarrow> ar_drainTimer (drain en k st))"
proof -
  let ?st = "drainLoop (en_probe en k) 0 (refill (en_now en k) st)"
  have "arbiterWf (refill (en_now en k) st)" using wellformed.refill [OF wellformed.runs [OF assms]] .
  then obtain n where n: "\<forall>c p rest. waitingHead ?st c = p # rest \<longrightarrow> \<not> fits ?st (rq_atomic (pa_request p)) (safePressure (en_probe en k n))"
    using loop_refuses by blast
  have "sameAmounts ?st (drain en k st)" by (simp add: drain_def Let_def scheduleDrain_def sameAmounts_def)
  then have "\<forall>c p rest. waitingHead (drain en k st) c = p # rest \<longrightarrow>
      \<not> fits (drain en k st) (rq_atomic (pa_request p)) (safePressure (en_probe en k n))"
    using n fits_cong by (simp add: sameAmounts_def) blast
  moreover have "hasPending (drain en k st) \<longrightarrow> ar_drainTimer (drain en k st)"
    by (simp add: drain_def Let_def scheduleDrain_def)
  ultimately show ?thesis by blast
qed

theorem drain_leaves_nothing_grantable_witness:
  "\<exists>st. capacityRun demoPolicy st \<and> (hasPending (drain demoCapacityEnv 0 st) \<longrightarrow> ar_drainTimer (drain demoCapacityEnv 0 st))"
  using demo_granted drain_leaves_nothing_grantable by blast

end
