(* ===== verification/Capacity_Queues.thy ===== *)
theory Capacity_Queues
  imports Capacity_Correctness
begin

text \<open>
  The queues of the arbiter: the direct grant is the same as queueing and draining, every
  waiting request is resolved exactly once, and the samples of the node's probe are valid.
\<close>

section \<open>The direct grant\<close>

definition allSettled :: "(DeviceCapacityClass \<Rightarrow> PendingAdmission list) \<Rightarrow> bool" where
  "allSettled q = (\<forall>c. \<forall>p \<in> set (q c). pa_settled p)"

lemma hasPending_iff: "hasPending st \<longleftrightarrow> \<not> allSettled (ar_queues st)"
  using capacity_classes by (auto simp: hasPending_def allSettled_def list_ex_iff)

lemma dropWhile_settled: "\<forall>p \<in> set xs. pa_settled p \<Longrightarrow> dropWhile pa_settled xs = []"
  by simp

lemma tryGrant_any_queue:
  "tryGrant (st\<lparr>ar_queues := q\<rparr>) rq pr loan = (case tryGrant st rq pr loan of (g, r) \<Rightarrow> (g\<lparr>ar_queues := q\<rparr>, r))"
proof -
  let ?st = "st\<lparr>ar_queues := q\<rparr>"
  have l: "lacksOccupancy ?st pr b d = lacksOccupancy st pr b d" for pr b d by (simp add: lacksOccupancy_def)
  have f: "fits ?st b pr = fits st b pr" for b by (cases pr) (simp_all add: fits_def l)
  have "blockedOccupancy ?st b pr ds = blockedOccupancy st b pr ds" for b ds by (induction ds) (simp_all add: l)
  then have "blockedDimension ?st b pr = blockedDimension st b pr" for b by (cases pr) (simp_all add: blockedDimension_def cong: option.case_cong)
  moreover have "grantBudget ?st rq pr = grantBudget st rq pr" by (simp add: grantBudget_def cong: if_cong)
  ultimately show ?thesis by (simp add: tryGrant_def f Let_def)
qed

lemma scan_idle:
  "allSettled q \<Longrightarrow> \<exists>q'. scanSchedule pr order (st\<lparr>ar_queues := q\<rparr>) = (st\<lparr>ar_queues := q'\<rparr>, False) \<and> allSettled q'"
proof (induction order arbitrary: q)
  case (Cons index order)
  let ?c = "ar_schedule st ! index"
  have e: "dropWhile pa_settled (q ?c) = []" using Cons.prems by (simp add: allSettled_def)
  have "allSettled (q(?c := []))" using Cons.prems by (simp add: allSettled_def)
  note rest = Cons.IH [OF this]
  have "scanSchedule pr (index # order) (st\<lparr>ar_queues := q\<rparr>) = scanSchedule pr order (st\<lparr>ar_queues := q(?c := [])\<rparr>)"
    by (simp add: scanSchedule.simps setQueue_def e Let_def)
  then show ?case using rest by metis
qed auto

lemma scan_only:
  assumes "tryGrant st (pa_request p) pr (pa_loan p) = (g, Some a)" "\<not> pa_settled p"
  shows "\<forall>x. x \<noteq> c \<longrightarrow> (\<forall>y \<in> set (q x). pa_settled y) \<Longrightarrow> q c = pre @ [p] \<Longrightarrow> \<forall>y \<in> set pre. pa_settled y \<Longrightarrow>
    List.find (\<lambda>i. ar_schedule st ! i = c) order = Some slot \<Longrightarrow>
    \<exists>q'. scanSchedule pr order (st\<lparr>ar_queues := q\<rparr>) =
      (g\<lparr>ar_queues := q', ar_cursor := (slot + 1) mod length (ar_schedule st), ar_results := (pa_id p, a) # ar_results st\<rparr>, True) \<and> allSettled q'"
proof (induction order arbitrary: q)
  case (Cons index order)
  let ?x = "ar_schedule st ! index"
  show ?case
  proof (cases "?x = c")
    case True
    have d: "dropWhile pa_settled (q c) = [p]" using Cons.prems(2,3) assms(2) by (simp add: dropWhile_append1 dropWhile_append)
    have "slot = index" using Cons.prems(4) True by simp
    have s: "ar_schedule g = ar_schedule st" "ar_results g = ar_results st"
      using assms(1) tryGrant_queues(2,4) by (metis fst_conv)+
    have "allSettled (q(c := []))" using Cons.prems(1) by (simp add: allSettled_def)
    then show ?thesis using True assms(1) \<open>slot = index\<close>
      by (auto simp: scanSchedule.simps setQueue_def d Let_def tryGrant_any_queue settleGranted_def s intro!: exI [of _ "q(c := [])"])
  next
    case False
    have e: "dropWhile pa_settled (q ?x) = []" using Cons.prems(1) False by simp
    have "\<exists>q'. scanSchedule pr order (st\<lparr>ar_queues := q(?x := [])\<rparr>) =
      (g\<lparr>ar_queues := q', ar_cursor := (slot + 1) mod length (ar_schedule st), ar_results := (pa_id p, a) # ar_results st\<rparr>, True) \<and> allSettled q'"
      by (rule Cons.IH) (use Cons.prems False in auto)
    moreover have "scanSchedule pr (index # order) (st\<lparr>ar_queues := q\<rparr>) = scanSchedule pr order (st\<lparr>ar_queues := q(?x := [])\<rparr>)"
      by (simp add: scanSchedule.simps setQueue_def e Let_def)
    ultimately show ?thesis by metis
  qed
qed simp

definition forgetQueues :: "Arbiter \<Rightarrow> Arbiter" where
  "forgetQueues st = st\<lparr>ar_queues := (\<lambda>c. []), ar_results := [], ar_nextPending := 0\<rparr>"

text \<open>
  Granting directly when nobody waits is equivalent to queueing the request and draining:
  with the same clock and pressure the queue path resolves it with the same permit, leaves
  nobody waiting, and reaches the same amounts, permits, cursor, blocker and timer.
\<close>

theorem direct_grant_same_as_queueing:
  assumes "\<not> hasPending st" and "en_now en 2 \<le> ar_lastRefillAt st" and "\<forall>n. safePressure (en_probe en 2 n) = pressure"
    and "directGrant rq loan pressure st = (fast, Some admission)"
  shows "\<exists>queued. enqueue en rq loan pressure st = (queued, Admitted admission) \<and> \<not> hasPending queued \<and>
    forgetQueues queued = forgetQueues fast"
proof -
  let ?c = "rq_serviceClass rq" and ?pid = "ar_nextPending st"
  let ?p = "\<lparr>pa_id = ?pid, pa_request = rq, pa_loan = loan, pa_settled = False\<rparr>"
  let ?st = "st\<lparr>ar_nextPending := Suc ?pid\<rparr>"
  let ?q = "(ar_queues st)(?c := ar_queues st ?c @ [?p])"
  obtain slot g where slot: "scheduleSlot st ?c = Some slot" and g: "tryGrant st rq pressure loan = (g, Some admission)"
    and fast: "fast = g\<lparr>ar_cursor := (slot + 1) mod length (ar_schedule g)\<rparr>"
    using assms(1,4) by (auto simp: directGrant_def split: option.splits prod.splits)
  have s: "ar_schedule g = ar_schedule st" using g tryGrant_queues(2) by (metis fst_conv)
  have g': "tryGrant ?st rq pressure loan = (g\<lparr>ar_nextPending := Suc ?pid\<rparr>, Some admission)"
  proof -
    have f: "fits ?st b pressure = fits st b pressure" for b by (cases pressure) (simp_all add: fits_def lacksOccupancy_def)
    have "grantBudget ?st rq pressure = grantBudget st rq pressure" by (simp add: grantBudget_def cong: if_cong)
    then show ?thesis using g by (auto simp: tryGrant_def f Let_def split: if_splits)
  qed
  have settled: "allSettled (ar_queues st)" using assms(1) by (simp add: hasPending_iff)
  have "\<exists>q'. scanSchedule pressure (scheduleOrder st) (?st\<lparr>ar_queues := ?q\<rparr>) =
      (g\<lparr>ar_nextPending := Suc ?pid, ar_queues := q', ar_cursor := (slot + 1) mod length (ar_schedule ?st),
         ar_results := (pa_id ?p, admission) # ar_results ?st\<rparr>, True) \<and> allSettled q'"
    by (rule scan_only [of _ ?p pressure _ admission ?c ?q "ar_queues st ?c"])
      (use g' settled slot in \<open>auto simp: allSettled_def scheduleSlot_def\<close>)
  then obtain q1 where scan1: "scanSchedule pressure (scheduleOrder st) (?st\<lparr>ar_queues := ?q\<rparr>) =
      (g\<lparr>ar_nextPending := Suc ?pid, ar_queues := q1, ar_cursor := (slot + 1) mod length (ar_schedule st),
         ar_results := (?pid, admission) # ar_results st\<rparr>, True)" "allSettled q1" by auto
  let ?g = "g\<lparr>ar_nextPending := Suc ?pid, ar_cursor := (slot + 1) mod length (ar_schedule st), ar_results := (?pid, admission) # ar_results st\<rparr>"
  have comm: "g\<lparr>ar_nextPending := Suc ?pid, ar_queues := q1, ar_cursor := (slot + 1) mod length (ar_schedule st),
         ar_results := (?pid, admission) # ar_results st\<rparr> = ?g\<lparr>ar_queues := q1\<rparr>" by (cases g) simp
  obtain q2 where scan2: "scanSchedule pressure (scheduleOrder (?g\<lparr>ar_queues := q1\<rparr>)) (?g\<lparr>ar_queues := q1\<rparr>) = (?g\<lparr>ar_queues := q2\<rparr>, False)"
    "allSettled q2" using scan_idle [OF scan1(2)] by blast
  have order: "scheduleOrder (?st\<lparr>ar_queues := ?q\<rparr>) = scheduleOrder st" by (simp add: scheduleOrder_def)
  have "drainLoop (en_probe en 2) 0 (?st\<lparr>ar_queues := ?q\<rparr>) = ?g\<lparr>ar_queues := q2\<rparr>"
    using scan1(1) [unfolded comm] scan2(1) by (simp add: drainLoop.simps [of _ 0] drainLoop.simps [of _ "Suc 0"] assms(3) order)
  moreover have "refill (en_now en 2) (?st\<lparr>ar_queues := ?q\<rparr>) = ?st\<lparr>ar_queues := ?q\<rparr>" using assms(2) by (simp add: refill_def)
  moreover have "\<not> hasPending (?g\<lparr>ar_queues := q2\<rparr>)" using scan2(2) by (simp add: hasPending_iff)
  ultimately have drained: "drain en 2 (?st\<lparr>ar_queues := ?q\<rparr>) = ?g\<lparr>ar_queues := q2\<rparr>" by (simp add: drain_def)
  have push: "(setQueue ?c (ar_queues st ?c @ [?p]) st)\<lparr>ar_nextPending := Suc ?pid\<rparr> = ?st\<lparr>ar_queues := ?q\<rparr>"
    by (cases st) (simp add: setQueue_def)
  have "enqueue en rq loan pressure st = (?g\<lparr>ar_queues := q2\<rparr>, Admitted admission)"
    unfolding enqueue_def Let_def push drained by simp
  moreover have "forgetQueues (?g\<lparr>ar_queues := q2\<rparr>) = forgetQueues fast" unfolding fast by (cases g) (use s in \<open>simp add: forgetQueues_def\<close>)
  moreover have "\<not> hasPending (?g\<lparr>ar_queues := q2\<rparr>)" using scan2(2) by (simp add: hasPending_iff)
  ultimately show ?thesis by blast
qed

theorem direct_grant_same_as_queueing_witness:
  "\<exists>st queued. newArbiter 0 demoPolicy = Inr st \<and>
     enqueue demoCapacityEnv demoRequest None (Some demoPressure) st = (queued, Admitted (Granted 0)) \<and> \<not> hasPending queued"
proof -
  obtain st where st: "newArbiter 0 demoPolicy = Inr st" using demo_arbiter by blast
  then have "\<not> hasPending st" "en_now demoCapacityEnv 2 \<le> ar_lastRefillAt st"
    by (auto simp: newArbiter_def andThen_eq_Inr hasPending_iff allSettled_def demoCapacityEnv_def)
  moreover have "safePressure (Some demoPressure) = Some demoPressure" by code_simp
  then have "\<forall>n. safePressure (en_probe demoCapacityEnv 2 n) = Some demoPressure" by (simp add: demoCapacityEnv_def)
  moreover have "case newArbiter 0 demoPolicy of Inl e \<Rightarrow> False | Inr st \<Rightarrow>
      snd (directGrant demoRequest None (Some demoPressure) st) = Some (Granted 0)" by code_simp
  then obtain fast where "directGrant demoRequest None (Some demoPressure) st = (fast, Some (Granted 0))"
    using st by (cases "directGrant demoRequest None (Some demoPressure) st") simp
  ultimately show ?thesis using direct_grant_same_as_queueing st by blast
qed

section \<open>Resolving every request once\<close>

definition waitingIds :: "PendingAdmission list \<Rightarrow> nat multiset" where
  "waitingIds q = mset (map pa_id (filter (\<lambda>p. \<not> pa_settled p) q))"

text \<open>The requests that wait or have been resolved, with multiplicity.\<close>

definition tickets :: "Arbiter \<Rightarrow> nat multiset" where
  "tickets st = sum_list (map (\<lambda>c. waitingIds (ar_queues st c)) DEVICE_CAPACITY_CLASSES) + mset (map fst (ar_results st))"

lemma tickets_cong: "ar_queues st' = ar_queues st \<Longrightarrow> ar_results st' = ar_results st \<Longrightarrow> tickets st' = tickets st"
  by (simp add: tickets_def)

lemma tickets_setQueue: "tickets (setQueue c q st) + waitingIds (ar_queues st c) = tickets st + waitingIds q"
  by (cases c) (simp_all add: tickets_def setQueue_def DEVICE_CAPACITY_CLASSES_def)

lemma waitingIds_sweep [simp]: "waitingIds (dropWhile pa_settled q) = waitingIds q"
  by (induction q) (auto simp: waitingIds_def)

lemma tickets_sweep: "tickets (setQueue c (dropWhile pa_settled (ar_queues st c)) st) = tickets st"
  using tickets_setQueue [of c "dropWhile pa_settled (ar_queues st c)" st] by simp

lemma tickets_settleGranted:
  assumes "ar_queues st c = p # rest" "\<not> pa_settled p"
  shows "tickets (settleGranted index c rest p a st) = tickets st"
proof -
  have "waitingIds (p # rest) = add_mset (pa_id p) (waitingIds rest)" using assms(2) by (simp add: waitingIds_def)
  then have "tickets (setQueue c rest st) + {#pa_id p#} = tickets st"
    using tickets_setQueue [of c rest st] assms(1) by simp
  moreover have "tickets (settleGranted index c rest p a st) = tickets (setQueue c rest st) + {#pa_id p#}"
    by (simp add: tickets_def settleGranted_def setQueue_def)
  ultimately show ?thesis by simp
qed

definition ticketState :: "Arbiter \<Rightarrow> nat multiset \<times> nat" where
  "ticketState st = (tickets st, ar_nextPending st)"

lemma tryGrant_next [simp]: "ar_nextPending (fst (tryGrant st rq pr loan)) = ar_nextPending st"
  by (simp add: tryGrant_def Let_def)

lemma scan_tickets: "ticketState (fst (scanSchedule pr order st)) = ticketState st"
proof (induction order arbitrary: st)
  case (Cons index order)
  define c where "c = ar_schedule st ! index"
  define q where "q = dropWhile pa_settled (ar_queues st c)"
  have t1: "ticketState (setQueue c q st) = ticketState st"
    unfolding ticketState_def q_def by (simp only: tickets_sweep) (simp add: setQueue_def)
  note step = scanSchedule.simps(2) [of pr index order st, folded c_def, unfolded Let_def, folded c_def q_def]
  show ?case
  proof (cases q)
    case Nil
    then show ?thesis using Cons.IH [of "setQueue c q st"] t1 step by simp
  next
    case (Cons p rest)
    obtain g adm where g: "tryGrant (setQueue c q st) (pa_request p) pr (pa_loan p) = (g, adm)" by fastforce
    have same: "ar_queues g = ar_queues (setQueue c q st)" "ar_results g = ar_results (setQueue c q st)"
      "ar_nextPending g = ar_nextPending (setQueue c q st)"
      using tryGrant_queues tryGrant_next g by (metis fst_conv)+
    then have t2: "ticketState g = ticketState st" using t1 tickets_cong [OF same(1,2)] by (simp add: ticketState_def)
    show ?thesis
    proof (cases adm)
      case None
      then show ?thesis using Cons.IH [of g] t2 step Cons g by simp
    next
      case (Some a)
      have "\<not> pa_settled p" using Cons unfolding q_def by (metis dropWhile_eq_Cons_conv)
      moreover have "ar_queues g c = p # rest" using same(1) Cons by (simp add: setQueue_def)
      ultimately have "tickets (settleGranted index c rest p a g) = tickets g" using tickets_settleGranted by blast
      then have "ticketState (settleGranted index c rest p a g) = ticketState g" by (simp add: ticketState_def settleGranted_def setQueue_def)
      then show ?thesis using t2 step Cons g Some by simp
    qed
  qed
qed simp

lemma loop_tickets: "ticketState (drainLoop probe pass st) = ticketState st"
proof (induction probe pass st rule: drainLoop.induct)
  case (1 probe pass st)
  obtain st1 g where s: "scanSchedule (safePressure (probe pass)) (scheduleOrder st) st = (st1, g)" by fastforce
  have "ticketState st1 = ticketState st" using scan_tickets [of "safePressure (probe pass)" "scheduleOrder st" st] s by simp
  with 1 [OF s [symmetric]] s show ?case by (cases g) (simp_all add: drainLoop.simps [of probe pass st])
qed

lemma ticketState_cong:
  "ar_queues st' = ar_queues st \<Longrightarrow> ar_results st' = ar_results st \<Longrightarrow> ar_nextPending st' = ar_nextPending st \<Longrightarrow> ticketState st' = ticketState st"
  by (simp add: ticketState_def tickets_def)

lemma simple_tickets [simp]:
  "ticketState (refill now st) = ticketState st" "ticketState (giveBack p st) = ticketState st" "ticketState (returnLoan l st) = ticketState st"
  "ticketState (updatePermit p f st) = ticketState st" "ticketState (scheduleDrain st) = ticketState st"
  "ticketState (fst (claim k d n st)) = ticketState st" "ticketState (completeStep k st) = ticketState st"
  by (rule ticketState_cong; simp add: refill_def giveBack_def returnLoan_def updatePermit_def scheduleDrain_def claim_def completeStep_def
      updateStep_def Let_def)+

lemma drain_tickets [simp]: "ticketState (drain en k st) = ticketState st"
  by (simp add: drain_def Let_def loop_tickets)

lemma return_tickets [simp]: "ticketState (returnReservation en depth p st) = ticketState st"
  by (induction depth arbitrary: p st) (simp_all add: Let_def split: option.splits)

lemma loan_tickets [simp]: "ticketState (releaseLoan en loan st) = ticketState st"
  by (cases loan) (simp_all add: releaseLoan_def del: returnReservation.simps One_nat_def)

lemma release_tickets [simp]: "ticketState (release en p st) = ticketState st"
  by (simp add: release_def)

lemma begin_tickets: "tryBegin p bound st = Inr (st', s) \<Longrightarrow> ticketState st' = ticketState st"
  by (erule tryBegin_cases) (simp_all, rule ticketState_cong, simp_all add: updatePermit_def)

lemma borrow_tickets: "borrowSlot p st = Some (st', l) \<Longrightarrow> ticketState st' = ticketState st"
  by (rule ticketState_cong) (auto simp: borrowSlot_def updatePermit_def Let_def split: if_splits)

section \<open>Settling\<close>

definition onceEach :: "Arbiter \<Rightarrow> bool" where
  "onceEach st = (tickets st = mset [0..<ar_nextPending st])"

lemma onceEach_cong: "ticketState st' = ticketState st \<Longrightarrow> onceEach st' = onceEach st"
  by (simp add: onceEach_def ticketState_def)

lemma waitingIds_mark:
  "waitingIds (map (\<lambda>p. if pa_id p = pid then p\<lparr>pa_settled := True\<rparr> else p) q) = filter_mset (\<lambda>i. i \<noteq> pid) (waitingIds q)"
  by (induction q) (auto simp: waitingIds_def)

lemma sum_filter_mset:
  "sum_list (map (\<lambda>c. filter_mset P (f c)) cs) = filter_mset P (sum_list (map f cs))"
  by (induction cs) auto

lemma filter_once:
  "count M pid = 1 \<Longrightarrow> add_mset pid (filter_mset (\<lambda>i. i \<noteq> pid) M) = M"
  by (rule multiset_eqI) auto

lemma settle_tickets:
  assumes "onceEach st"
  shows "ticketState (settleWaiting en pid a st) = ticketState st"
proof (cases "findPending pid st")
  case (Some p)
  let ?w = "\<lambda>st. sum_list (map (\<lambda>c. waitingIds (ar_queues st c)) DEVICE_CAPACITY_CLASSES)"
  have "p \<in> set (pendings st)" "pa_id p = pid" "\<not> pa_settled p" using Some find_Some_mem by (fastforce simp: findPending_def)+
  then obtain c where "p \<in> set (ar_queues st c)" by (auto simp: pendings_def)
  then have "pid \<in># waitingIds (ar_queues st c)" using \<open>pa_id p = pid\<close> \<open>\<not> pa_settled p\<close> by (auto simp: waitingIds_def)
  then have "pid \<in># ?w st" using capacity_classes [of c] unfolding DEVICE_CAPACITY_CLASSES_def by (cases c) auto
  then have "count (?w st) pid \<noteq> 0" by (simp only: not_in_iff [symmetric] not_not)
  moreover have "count (tickets st) pid \<le> 1" using assms count_upt unfolding onceEach_def by metis
  moreover have "count (tickets st) pid = count (?w st) pid + count (mset (map fst (ar_results st))) pid"
    by (simp only: tickets_def count_union)
  ultimately have "count (?w st) pid = 1" by linarith
  then have w: "add_mset pid (?w (markSettled pid st)) = ?w st"
    by (simp add: markSettled_def waitingIds_mark sum_filter_mset filter_once)
  let ?r = "releaseLoan en (pa_loan p) (markSettled pid st)"
  have r: "tickets ?r = tickets (markSettled pid st)" "ar_nextPending ?r = ar_nextPending (markSettled pid st)"
    using loan_tickets [of en "pa_loan p" "markSettled pid st"] by (simp_all add: ticketState_def)
  have "tickets (?r\<lparr>ar_results := (pid, a) # ar_results ?r\<rparr>) = add_mset pid (tickets ?r)" by (simp add: tickets_def)
  also have "\<dots> = tickets st" unfolding r(1) using w by (simp add: tickets_def markSettled_def)
  finally show ?thesis using Some r(2) by (simp add: settleWaiting_def ticketState_def Let_def markSettled_def)
qed (simp add: settleWaiting_def)

lemma enqueue_once:
  assumes "onceEach st"
  shows "onceEach (fst (enqueue en rq loan pr st))"
proof -
  let ?c = "rq_serviceClass rq" and ?pid = "ar_nextPending st"
  let ?p = "\<lparr>pa_id = ?pid, pa_request = rq, pa_loan = loan, pa_settled = False\<rparr>"
  let ?push = "(setQueue ?c (ar_queues st ?c @ [?p]) st)\<lparr>ar_nextPending := Suc ?pid\<rparr>"
  have "waitingIds (ar_queues st ?c @ [?p]) = add_mset ?pid (waitingIds (ar_queues st ?c))" by (simp add: waitingIds_def)
  then have "tickets (setQueue ?c (ar_queues st ?c @ [?p]) st) = add_mset ?pid (tickets st)"
    using tickets_setQueue [of ?c "ar_queues st ?c @ [?p]" st] by simp
  then have "onceEach ?push" using assms by (simp add: onceEach_def tickets_def)
  then have d: "onceEach (drain en 2 ?push)" using onceEach_cong [OF drain_tickets] by blast
  then have "onceEach (settleWaiting en ?pid a (drain en 2 ?push))" "onceEach (scheduleDrain (drain en 2 ?push))" for a
    using onceEach_cong settle_tickets simple_tickets(5) by metis+
  with d show ?thesis unfolding enqueue_def Let_def by (auto split: option.splits)
qed

lemma direct_tickets: "ticketState (fst (directGrant rq loan pr st)) = ticketState st"
proof -
  obtain g r where g: "tryGrant st rq pr loan = (g, r)" by fastforce
  have "ticketState g = ticketState st" using tryGrant_queues(1,4) [of st rq pr loan] tryGrant_next [of st rq pr loan] g
    by (intro ticketState_cong) simp_all
  moreover have "ticketState (g\<lparr>ar_cursor := n\<rparr>) = ticketState g" for n by (rule ticketState_cong) simp_all
  ultimately show ?thesis using g by (simp add: directGrant_def split: option.splits)
qed

lemma admit_once: "onceEach st \<Longrightarrow> onceEach (fst (admit en rq loan pr st))"
proof -
  assume o: "onceEach st"
  obtain g r where g: "directGrant rq loan pr st = (g, r)" by fastforce
  have "onceEach g" using direct_tickets [of rq loan pr st] g o onceEach_cong by (metis fst_conv)
  then show ?thesis using g enqueue_once by (simp add: admit_def split: option.splits)
qed

lemma acquire_once: "onceEach st \<Longrightarrow> onceEach (fst (acquire en ctx aborted rq st))"
proof -
  assume o: "onceEach st"
  have r: "onceEach (refill now st)" for now using o onceEach_cong simple_tickets(1) by metis
  have b: "onceEach st2" if "borrowSlot p (refill now st) = Some (st2, l)" for now p st2 l
    using r borrow_tickets [OF that] onceEach_cong by metis
  show ?thesis unfolding acquire_def Let_def using o r b admit_once by (auto split: sum.splits option.splits)
qed

lemma perform_once: "onceEach st \<Longrightarrow> onceEach (performOp en op st)"
proof (cases op)
  case (OpTryBegin p bound)
  assume o: "onceEach st"
  show ?thesis
  proof (cases "tryBegin p bound st")
    case (Inr r)
    then obtain st' k where "tryBegin p bound st = Inr (st', k)" by (cases r) auto
    then show ?thesis unfolding OpTryBegin using o onceEach_cong [OF begin_tickets] by simp
  qed (simp add: OpTryBegin o)
next
  case OpDrainTimer
  assume o: "onceEach st"
  have "ticketState (st\<lparr>ar_drainTimer := False\<rparr>) = ticketState st" by (rule ticketState_cong) simp_all
  then show ?thesis using OpDrainTimer o onceEach_cong [of "drain en 0 (st\<lparr>ar_drainTimer := False\<rparr>)" st] by (simp add: drainTimerFires_def)
next
  case OpAcquire
  assume "onceEach st"
  then show ?thesis using OpAcquire acquire_once by simp
next
  case OpAbort
  assume o: "onceEach st"
  show ?thesis unfolding OpAbort using o onceEach_cong [OF settle_tickets [OF o]] by (simp add: abortPending_def)
next
  case OpTimeout
  assume o: "onceEach st"
  show ?thesis unfolding OpTimeout using o onceEach_cong [OF settle_tickets [OF o]]
    by (simp add: timeoutPending_def split: option.splits)
next
  case OpRelease
  assume "onceEach st"
  then show ?thesis unfolding OpRelease using onceEach_cong [OF release_tickets] by simp
next
  case OpSnapshot
  assume "onceEach st"
  then show ?thesis unfolding OpSnapshot using onceEach_cong [OF simple_tickets(1)] by (simp add: snapshot_def Let_def)
next
  case OpClaim
  assume "onceEach st"
  then show ?thesis unfolding OpClaim using onceEach_cong [OF simple_tickets(6)] by simp
next
  case OpComplete
  assume "onceEach st"
  then show ?thesis unfolding OpComplete using onceEach_cong [OF simple_tickets(7)] by simp
qed

text \<open>
  C38. Every request that had to wait is accounted for exactly once: in every reachable state
  each of the numbers handed out so far is either waiting or resolved, never both, never lost
  and never resolved twice, through grants, cancellations, timeouts and nested drains.
\<close>

theorem every_request_resolved_once:
  assumes "capacityRun policy st"
  shows "tickets st = mset [0..<ar_nextPending st] \<and> distinct (map fst (ar_results st))"
proof -
  have "onceEach st" using assms
  proof (induction rule: capacityRun.induct)
    case (start now st)
    then show ?case by (auto simp: onceEach_def tickets_def newArbiter_def andThen_eq_Inr waitingIds_def DEVICE_CAPACITY_CLASSES_def)
  next
    case (perform st op en)
    then show ?case using perform_once by blast
  qed
  then have t: "tickets st = mset [0..<ar_nextPending st]" by (simp add: onceEach_def)
  then have "mset (map fst (ar_results st)) \<subseteq># mset [0..<ar_nextPending st]" by (metis mset_subset_eq_add_right tickets_def)
  then have "distinct (map fst (ar_results st))"
    by (rule distinct_subseteq) simp
  with t show ?thesis ..
qed

text \<open>
  A run in which requests wait: while the probe gives no sample two requests are queued, numbers 0
  and 1, and then the first is cancelled by its caller.
\<close>

definition blindEnv :: CapacityEnv where
  "blindEnv = \<lparr>en_now = (\<lambda>k. 0), en_probe = (\<lambda>k n. None)\<rparr>"

lemma blindEnv_simps: "en_now blindEnv k = 0" "en_probe blindEnv k n = None"
  by (simp_all add: blindEnv_def)

definition blindState :: "Arbiter \<Rightarrow> bool" where
  "blindState st \<longleftrightarrow> ar_results st = [] \<and> ar_policy st = demoPolicy \<and> (\<forall>c. \<forall>p \<in> set (ar_queues st c). pa_loan p = None)"

lemma blind_scan: "blindState st \<Longrightarrow> blindState (fst (scanSchedule None order st)) \<and> \<not> snd (scanSchedule None order st)"
proof (induction order arbitrary: st)
  case (Cons index order)
  let ?c = "ar_schedule st ! index"
  let ?st = "setQueue ?c (dropWhile pa_settled (ar_queues st ?c)) st"
  have "blindState ?st" using Cons.prems by (auto simp: blindState_def setQueue_def dest: set_dropWhileD)
  moreover have "blindState (?st\<lparr>ar_blockedBy := x\<rparr>)" for x using calculation by (simp add: blindState_def)
  ultimately show ?case using Cons.IH
    by (auto simp: scanSchedule.simps(2) Let_def tryGrant_def fits_def split: list.split)
qed simp

lemma blind_drain: "blindState st \<Longrightarrow> blindState (drain blindEnv k st)"
proof -
  assume "blindState st"
  then have "blindState (refill 0 st)" by (simp add: refill_def Let_def blindState_def)
  from blind_scan [OF this, of "scheduleOrder (refill 0 st)"]
  have "blindState (drainLoop (\<lambda>n. None) 0 (refill 0 st))"
    by (auto simp: drainLoop.simps [of _ 0] safePressure_def split: prod.split)
  then show ?thesis by (simp add: drain_def blindEnv_def Let_def scheduleDrain_def blindState_def)
qed

lemma blind_enqueue:
  assumes "blindState st"
  shows "blindState (fst (enqueue blindEnv demoRequest None pr st)) \<and>
    ar_nextPending (fst (enqueue blindEnv demoRequest None pr st)) = Suc (ar_nextPending st)"
proof -
  let ?p = "\<lparr>pa_id = ar_nextPending st, pa_request = demoRequest, pa_loan = None, pa_settled = False\<rparr>"
  let ?st = "(setQueue (rq_serviceClass demoRequest) (ar_queues st (rq_serviceClass demoRequest) @ [?p]) st)
    \<lparr>ar_nextPending := Suc (ar_nextPending st)\<rparr>"
  have "blindState ?st" using assms by (auto simp: blindState_def setQueue_def)
  then have d: "blindState (drain blindEnv 2 ?st)" by (rule blind_drain)
  have n: "ar_nextPending (drain blindEnv 2 ?st) = Suc (ar_nextPending st)"
    using drain_tickets [of blindEnv 2 ?st] by (simp add: ticketState_def)
  have "rq_maxWaitMs demoRequest \<noteq> 0" by (simp add: demoRequest_def)
  moreover have "ar_results (drain blindEnv 2 ?st) = []" using d by (simp add: blindState_def)
  ultimately have "fst (enqueue blindEnv demoRequest None pr st) = scheduleDrain (drain blindEnv 2 ?st)"
    by (simp add: enqueue_def Let_def)
  then show ?thesis using d n by (simp add: blindState_def scheduleDrain_def)
qed

lemma blind_direct:
  assumes "blindState st"
  shows "\<exists>st1. directGrant demoRequest None None st = (st1, None) \<and> blindState st1 \<and> ar_nextPending st1 = ar_nextPending st"
  using assms by (auto simp: directGrant_def tryGrant_def fits_def blindState_def split: option.split)

lemma blind_acquire:
  assumes "blindState st"
  shows "blindState (performOp blindEnv (OpAcquire None False demoRequest) st) \<and>
    ar_nextPending (performOp blindEnv (OpAcquire None False demoRequest) st) = Suc (ar_nextPending st)"
proof -
  have "isOk (validateRequest demoRequest False)" by code_simp
  then have v: "validateRequest demoRequest False = Inr ()" by (auto simp: isOk_iff)
  have gap: "capacityGap demoPolicy (rq_atomic demoRequest) = None" by code_simp
  have r: "blindState (refill 0 st)" "ar_nextPending (refill 0 st) = ar_nextPending st"
    using assms by (simp_all add: refill_def Let_def blindState_def)
  then have pol: "ar_policy (refill 0 st) = demoPolicy" by (simp add: blindState_def)
  obtain st1 where d: "directGrant demoRequest None None (refill 0 st) = (st1, None)" "blindState st1"
      "ar_nextPending st1 = ar_nextPending st"
    using blind_direct [OF r(1)] r(2) by auto
  have "performOp blindEnv (OpAcquire None False demoRequest) st = fst (enqueue blindEnv demoRequest None None st1)"
    using d(1) pol unfolding performOp.simps acquire_def Let_def
    by (simp add: lenderOf_def v gap safePressure_def admit_def blindEnv_simps)
  then show ?thesis using blind_enqueue [OF d(2)] d(3) by simp
qed

lemma waitingIds_member: "i \<in># waitingIds q \<Longrightarrow> \<exists>p \<in> set q. pa_id p = i \<and> \<not> pa_settled p"
  by (auto simp: waitingIds_def)

lemma blind_waiting:
  assumes "tickets st = mset [0..<n]" and "ar_results st = []" and "i < n"
  shows "\<exists>p. findPending i st = Some p"
proof -
  have "tickets st = sum_list (map (\<lambda>c. waitingIds (ar_queues st c)) DEVICE_CAPACITY_CLASSES)"
    using assms(2) by (simp add: tickets_def)
  moreover have "i \<in># tickets st" using assms(1,3) by simp
  ultimately obtain c where c: "c \<in> set DEVICE_CAPACITY_CLASSES" "i \<in># waitingIds (ar_queues st c)"
    unfolding DEVICE_CAPACITY_CLASSES_def by auto
  obtain p where "p \<in> set (ar_queues st c)" "pa_id p = i \<and> \<not> pa_settled p" using waitingIds_member [OF c(2)] by blast
  moreover from this c(1) have "p \<in> set (pendings st)" by (auto simp: pendings_def)
  ultimately have "findPending i st \<noteq> None" unfolding findPending_def find_None_iff_all by blast
  then show ?thesis by blast
qed

theorem every_request_resolved_once_witness:
  "\<exists>st. capacityRun demoPolicy st \<and> ar_nextPending st = 2 \<and> ar_results st = [(0, Cancelled)] \<and> hasPending st \<and>
     tickets st = {#0, 1#}"
proof -
  let ?acquire = "performOp blindEnv (OpAcquire None False demoRequest)"
  obtain st0 where st0: "newArbiter 0 demoPolicy = Inr st0" using demo_arbiter by blast
  then have b0: "blindState st0" "ar_nextPending st0 = 0" by (auto simp: newArbiter_def andThen_eq_Inr blindState_def)
  let ?st2 = "?acquire (?acquire st0)"
  have b2: "blindState ?st2" "ar_nextPending ?st2 = 2" using blind_acquire [OF b0(1)] blind_acquire b0(2) by simp_all
  have run2: "capacityRun demoPolicy ?st2" by (intro perform) (simp_all add: start [OF st0])
  have t2: "tickets ?st2 = mset [0..<2]" using every_request_resolved_once [OF run2] b2(2) by simp
  obtain p where p: "findPending 0 ?st2 = Some p"
    using blind_waiting [OF t2, of 0] b2(1) by (auto simp: blindState_def)
  then have "p \<in> set (pendings ?st2)" using find_Some_mem by (fastforce simp: findPending_def)
  then have "pa_loan p = None" using b2(1) by (auto simp: blindState_def pendings_def)
  let ?st3 = "performOp blindEnv (OpAbort 0) ?st2"
  have res: "ar_results ?st3 = [(0, Cancelled)]" "ar_nextPending ?st3 = 2"
    using p \<open>pa_loan p = None\<close> b2
    by (simp_all add: abortPending_def settleWaiting_def releaseLoan_def markSettled_def blindState_def)
  have run3: "capacityRun demoPolicy ?st3" by (rule perform [OF run2]) simp
  have t3: "tickets ?st3 = mset [0..<2]" using every_request_resolved_once [OF run3] res(2) by simp
  have "hasPending ?st3"
  proof (rule ccontr)
    assume "\<not> hasPending ?st3"
    then have "waitingIds (ar_queues ?st3 c) = {#}" for c by (auto simp: hasPending_iff allSettled_def waitingIds_def)
    then have "tickets ?st3 = {#0#}" unfolding tickets_def res(1) by (simp add: DEVICE_CAPACITY_CLASSES_def)
    with t3 show False by (simp add: numeral_2_eq_2)
  qed
  with run3 res t3 show ?thesis by (intro exI [of _ ?st3]) (simp add: numeral_2_eq_2)
qed

section \<open>Samples\<close>

lemma toSafeInteger_safe: "nonNegativeSafe (toSafeInteger x)"
  by (auto simp: toSafeInteger_def nonNegativeSafe_def MAX_SAFE_INTEGER_def)

text \<open>
  The samples of the node's probe are always valid, whatever the clock, the processor
  times, the memory figures and the file system report: the arbiter never loses a sample of
  this probe to validation, and a file system that cannot be read only leaves out the
  temporary space.
\<close>

lemma node_probe_valid:
  assumes "0 \<le> ps_cpuBusyRatio st" and "ps_cpuBusyRatio st \<le> 1"
    and "nodeProbe sampledAt currentCpu freemem rss filesystem st = (st', sample)"
  shows "safePressure (Some sample) = Some sample \<and> 0 \<le> ps_cpuBusyRatio st' \<and> ps_cpuBusyRatio st' \<le> 1 \<and>
    (pr_temporaryBytesAvailable sample = None \<longleftrightarrow> filesystem = None)"
proof -
  have ratio: "0 \<le> ps_cpuBusyRatio st'" "ps_cpuBusyRatio st' \<le> 1" and
    sample: "sample = \<lparr>pr_cpuBusyRatio = ps_cpuBusyRatio st', pr_availableMemoryBytes = toSafeInteger freemem,
      pr_processRssBytes = toSafeInteger rss, pr_temporaryBytesAvailable = map_option (\<lambda>(bavail, bsize). toSafeInteger (bavail * bsize)) filesystem\<rparr>"
    using assms by (auto simp: nodeProbe_def Let_def split: if_splits)
  have "validatePressure sample = Inr ()" unfolding sample
    using ratio toSafeInteger_safe by (auto simp: validatePressure_def assertNonNegativeSafeInteger_def throwIf_def andThen_def split: option.splits)
  then show ?thesis using ratio by (simp add: safePressure_def sample)
qed

lemma node_probe_valid_witness:
  "\<exists>st' sample. nodeProbe 5000 \<lparr>ct_total = 100, ct_idle = 40\<rparr> 1000 2000 None (createNodeDeviceCapacityProbe \<lparr>ct_total = 0, ct_idle = 0\<rparr> 0) = (st', sample) \<and>
     safePressure (Some sample) = Some sample"
proof -
  let ?st = "createNodeDeviceCapacityProbe \<lparr>ct_total = 0, ct_idle = 0\<rparr> 0"
  obtain st' sample where p: "nodeProbe 5000 \<lparr>ct_total = 100, ct_idle = 40\<rparr> 1000 2000 None ?st = (st', sample)" by fastforce
  have "0 \<le> ps_cpuBusyRatio ?st" "ps_cpuBusyRatio ?st \<le> 1" by (simp_all add: createNodeDeviceCapacityProbe_def)
  from node_probe_valid [OF this p] p show ?thesis by blast
qed

end
