(* ===== verification/Confirmation_Types.thy ===== *)
theory Confirmation_Types
  imports Canonical
begin

text \<open>
  Data of \<^verbatim>\<open>packages/core/src/confirmation\<close>: requests, decisions, the broker's entries and
  state (\<^verbatim>\<open>types.ts\<close>, \<^verbatim>\<open>broker.ts\<close>), and the resolvers of \<^verbatim>\<open>non-interactive.ts\<close>. Payloads that are
  only carried (tool input, display, options, patterns) are JSON values.

  \<^verbatim>\<open>requestConfirmation\<close> is asynchronous. Each call gets a number; a call suspended at an
  \<^verbatim>\<open>await\<close> is an entry of \<open>bk_suspended\<close>, a commit of the observer in flight one of
  \<open>bk_commits\<close>. The log lists the effects, latest first. \<^verbatim>\<open>JSON.stringify\<close> of a decision is a
  field of the configuration, because the order of an object's keys is not in the model.
\<close>

section \<open>Requests and decisions\<close>

record ConfirmationRequest =
  cq_id :: string
  cq_tool :: string
  cq_toolInput :: json
  cq_workingDirectory :: string
  cq_riskLevel :: "string option"
  cq_operationClass :: "string option"
  cq_display :: json
  cq_options :: json
  cq_sessionType :: string
  cq_contextId :: json
  cq_createdAt :: int
  cq_expiresAt :: int

datatype CancelCause = UserCtrlC | UserCtrlD | SessionEnd | Aborted | BackpressureCause

datatype ConfirmationDecision =
    AllowOnce "string option"
  | AllowSession json "string option"
  | AllowContext json "string option"
  | AllowGlobal json "string option"
  | EditThenAllow json "string option"
  | Deny "string option"
  | DecisionExpired
  | DecisionCancelled CancelCause

datatype ConfirmationResolutionSource =
    Surface | NonInteractive string | CancelSource CancelCause | BackpressureSource | ExpiredSource

fun decisionText :: "ConfirmationDecision \<Rightarrow> string option" where
  "decisionText (AllowOnce note) = note"
| "decisionText (AllowSession p note) = note"
| "decisionText (AllowContext p note) = note"
| "decisionText (AllowGlobal p note) = note"
| "decisionText (EditThenAllow i note) = note"
| "decisionText (Deny reason) = reason"
| "decisionText DecisionExpired = None"
| "decisionText (DecisionCancelled c) = None"

definition MAX_INTERACTION_RESPONSE_TEXT_BYTES :: nat where
  "MAX_INTERACTION_RESPONSE_TEXT_BYTES = 8 * 1024"

datatype ConfirmationError = TextTooLong | DuplicateRequestId

definition validateConfirmationDecisionText :: "ConfirmationDecision \<Rightarrow> (ConfirmationError, ConfirmationDecision) result" where
  "validateConfirmationDecisionText d =
     (case decisionText d of
        None \<Rightarrow> Inr d
      | Some t \<Rightarrow> if length t > MAX_INTERACTION_RESPONSE_TEXT_BYTES then Inl TextTooLong else Inr d)"

fun isFreeTextDeny :: "ConfirmationDecision \<Rightarrow> bool" where
  "isFreeTextDeny (Deny (Some reason)) = (js_length reason > 0)"
| "isFreeTextDeny d = False"

section \<open>Resolvers without interaction\<close>

record NonInteractiveResolver =
  ni_name :: string
  ni_resolve :: "ConfirmationRequest \<Rightarrow> ConfirmationDecision"

text \<open>The reason of the default resolver, as UTF-8 bytes around the type of the session.\<close>

definition denyReason :: "string \<Rightarrow> string" where
  "denyReason sessionType =
     map char_of [230, 147, 141, 228, 189, 156, 233, 156, 128, 232, 166, 129, 231, 148, 168, 230, 136, 183, 231, 161, 174, 232, 174, 164,
     239, 188, 140, 228, 189, 134, 229, 189, 147, 229, 137, 141, 231, 142, 175, 229, 162, 131, 230, 151, 160, 228, 186, 164,
     228, 186, 146, 229, 188, 143, 230, 184, 178, 230, 159, 147, 229, 153, 168, 239, 188, 136 :: nat] @ sessionType @
     map char_of [32, 228, 188, 154, 232, 175, 157, 239, 188, 137, 227, 128, 130, 233, 187, 152, 232, 174, 164, 230, 139, 146, 231, 187,
     157, 227, 128, 130 :: nat]"

definition failToDenyResolver :: NonInteractiveResolver where
  "failToDenyResolver = \<lparr>ni_name = ''fail-to-deny'', ni_resolve = (\<lambda>request. Deny (Some (denyReason (cq_sessionType request))))\<rparr>"

definition failToExpiredResolver :: NonInteractiveResolver where
  "failToExpiredResolver = \<lparr>ni_name = ''fail-to-expired'', ni_resolve = (\<lambda>request. DecisionExpired)\<rparr>"

definition failToAllowResolver :: NonInteractiveResolver where
  "failToAllowResolver = \<lparr>ni_name = ''fail-to-allow'', ni_resolve = (\<lambda>request. AllowOnce None)\<rparr>"

section \<open>Entries of the broker\<close>

datatype EntryStatus = Queued | Showing | Resolving

text \<open>What the closure \<^verbatim>\<open>emit\<close> of a terminal request emits, with what it captured.\<close>

datatype TerminalEmit = EmitResolved int | EmitAutoResolved | EmitCancelled CancelCause | EmitExpired int

record TerminalRequest =
  tr_decision :: ConfirmationDecision
  tr_source :: ConfirmationResolutionSource
  tr_emit :: TerminalEmit
  tr_requeueOnFailure :: bool

record PendingEntry =
  pe_request :: ConfirmationRequest
  pe_status :: EntryStatus
  pe_createdAt :: int
  pe_expireTimer :: bool
  pe_call :: nat
  pe_terminal :: "TerminalRequest option"
  pe_deferredTerminal :: "TerminalRequest option"

datatype Suspension =
    AwaitBefore ConfirmationRequest
  | AwaitCancelled ConfirmationRequest CancelCause
  | AwaitResolver ConfirmationRequest ConfirmationDecision
  | AwaitBackpressure ConfirmationRequest

datatype CallOutcome = Decided ConfirmationDecision | Rejected

datatype ConfirmationEvent =
    EvRequested string string "string option" "string option" nat int
  | EvShown string string nat int
  | EvResolved string string ConfirmationDecision int int
  | EvCancelled string string CancelCause int
  | EvExpired string string int int
  | EvAutoResolved string string string ConfirmationDecision int

text \<open>The audit fields of an event: the broker, its parent and the agent it serves.\<close>

type_synonym lineage = "string \<times> string option \<times> string option"

text \<open>
  \<open>Notify n request\<close>: the \<open>n\<close> request listeners are called. \<open>Answered\<close>: a surface gave this
  decision. \<open>Stored\<close>: the observer has recorded the decision. \<open>Refused\<close>: the observer turned
  the request away with this decision. \<open>Settled\<close>: the promise of the call is settled.
\<close>

datatype BrokerEffect =
    Emit lineage ConfirmationEvent
  | Notify nat ConfirmationRequest
  | NotifyResolved string ConfirmationDecision
  | Answered nat ConfirmationDecision
  | Stored nat ConfirmationDecision ConfirmationResolutionSource
  | Refused nat ConfirmationDecision
  | Settled nat CallOutcome

record BrokerConfig =
  bc_lineage :: lineage
  bc_eventBus :: bool
  bc_resolver :: NonInteractiveResolver
  bc_maxQueueDepth :: int
  bc_observer :: bool
  bc_stringify :: "ConfirmationDecision \<Rightarrow> string"

record Broker =
  bk_pending :: "(string, PendingEntry) omap"
  bk_admitting :: "(string, CancelCause option) omap"
  bk_queue :: "string list"
  bk_resolvedRecent :: "(string, ConfirmationDecision \<times> int) omap"
  bk_graceTimers :: "string list"
  bk_listeners :: nat
  bk_suspended :: "(nat \<times> Suspension) list"
  bk_commits :: "(nat \<times> string \<times> TerminalRequest) list"
  bk_nextCall :: nat
  bk_log :: "BrokerEffect list"

record BrokerSnapshot =
  sn_lineage :: lineage
  sn_pending :: "(ConfirmationRequest \<times> EntryStatus) list"
  sn_resolvedRecently :: "(string \<times> ConfirmationDecision \<times> int) list"
  sn_listenerCount :: nat
  sn_nonInteractiveResolver :: string

definition newBroker :: Broker where
  "newBroker = \<lparr>bk_pending = [], bk_admitting = [], bk_queue = [], bk_resolvedRecent = [], bk_graceTimers = [], bk_listeners = 0,
     bk_suspended = [], bk_commits = [], bk_nextCall = 0, bk_log = []\<rparr>"

definition DEFAULT_MAX_QUEUE_DEPTH :: int where
  "DEFAULT_MAX_QUEUE_DEPTH = 32"

end
