(* ===== verification/Confirmation_Broker.thy ===== *)
theory Confirmation_Broker
  imports Confirmation_Types
begin

text \<open>
  The operations of \<^verbatim>\<open>ConfirmationBroker\<close> in \<^verbatim>\<open>confirmation/broker.ts\<close>. Entries are mutated in
  place in the source, hence \<open>changeEntry\<close>; the identity of an entry is the number of its
  call. A clock gives one reading per place in the code that reads it: \<open>0\<close> when a request is
  marked as resolved, \<open>1\<close> when its event is emitted, \<open>2\<close> when the head is shown, \<open>3\<close> when an
  entry is created or its duration taken, \<open>4\<close> when a request is announced. Listeners are
  called at the places the code calls them; what they do to the broker follows as operations
  of their own. The observer answers with promises, which the environment settles.
\<close>

type_synonym clock = "nat \<Rightarrow> int"

section \<open>Helpers of the broker\<close>

definition logEffect :: "BrokerEffect \<Rightarrow> Broker \<Rightarrow> Broker" where
  "logEffect e st = st\<lparr>bk_log := e # bk_log st\<rparr>"

definition emitEvent :: "BrokerConfig \<Rightarrow> ConfirmationEvent \<Rightarrow> Broker \<Rightarrow> Broker" where
  "emitEvent cfg e st = (if bc_eventBus cfg then logEffect (Emit (bc_lineage cfg) e) st else st)"

definition changeEntry :: "string \<Rightarrow> (PendingEntry \<Rightarrow> PendingEntry) \<Rightarrow> Broker \<Rightarrow> Broker" where
  "changeEntry i f st = st\<lparr>bk_pending := map (\<lambda>(k, e). (k, if k = i then f e else e)) (bk_pending st)\<rparr>"

definition deletePending :: "string \<Rightarrow> Broker \<Rightarrow> Broker" where
  "deletePending i st = st\<lparr>bk_pending := AList.delete i (bk_pending st)\<rparr>"

definition deleteAdmitting :: "string \<Rightarrow> Broker \<Rightarrow> Broker" where
  "deleteAdmitting i st = st\<lparr>bk_admitting := AList.delete i (bk_admitting st)\<rparr>"

text \<open>\<^verbatim>\<open>indexOf\<close> and \<^verbatim>\<open>splice\<close>: the first occurrence goes.\<close>

definition removeFromQueue :: "string \<Rightarrow> Broker \<Rightarrow> Broker" where
  "removeFromQueue i st = st\<lparr>bk_queue := remove1 i (bk_queue st)\<rparr>"

definition clearExpireTimer :: "string \<Rightarrow> Broker \<Rightarrow> Broker" where
  "clearExpireTimer i st = changeEntry i (\<lambda>e. e\<lparr>pe_expireTimer := False\<rparr>) st"

definition scheduleExpiry :: "string \<Rightarrow> Broker \<Rightarrow> Broker" where
  "scheduleExpiry i st = changeEntry i (\<lambda>e. e\<lparr>pe_expireTimer := True\<rparr>) st"

definition markResolved :: "clock \<Rightarrow> string \<Rightarrow> ConfirmationDecision \<Rightarrow> Broker \<Rightarrow> Broker" where
  "markResolved clk i d st =
     logEffect (NotifyResolved i d)
       (st\<lparr>bk_resolvedRecent := omap_set i (d, clk 0) (bk_resolvedRecent st), bk_graceTimers := bk_graceTimers st @ [i]\<rparr>)"

text \<open>An empty id is false as a condition, so the head is then not shown.\<close>

definition showHead :: "BrokerConfig \<Rightarrow> clock \<Rightarrow> Broker \<Rightarrow> Broker" where
  "showHead cfg clk st =
     (case bk_queue st of
        [] \<Rightarrow> st
      | h # _ \<Rightarrow>
          if h = [] then st
          else case omap_get (bk_pending st) h of
            None \<Rightarrow> st
          | Some e \<Rightarrow>
              if pe_status e = Showing then st
              else logEffect (Notify (bk_listeners st) (pe_request e))
                     (emitEvent cfg (EvShown h (cq_tool (pe_request e)) (length (bk_queue st)) (clk 2))
                       (changeEntry h (\<lambda>e. e\<lparr>pe_status := Showing\<rparr>) st)))"

fun terminalEvent :: "BrokerConfig \<Rightarrow> clock \<Rightarrow> ConfirmationRequest \<Rightarrow> TerminalRequest \<Rightarrow> ConfirmationEvent" where
  "terminalEvent cfg clk rq t =
     (case tr_emit t of
        EmitResolved durationMs \<Rightarrow> EvResolved (cq_id rq) (cq_tool rq) (tr_decision t) durationMs (clk 1)
      | EmitAutoResolved \<Rightarrow> EvAutoResolved (cq_id rq) (cq_tool rq) (ni_name (bc_resolver cfg)) (tr_decision t) (clk 1)
      | EmitCancelled cause \<Rightarrow> EvCancelled (cq_id rq) (cq_tool rq) cause (clk 1)
      | EmitExpired durationMs \<Rightarrow> EvExpired (cq_id rq) (cq_tool rq) durationMs (clk 1))"

section \<open>Terminal requests\<close>

text \<open>The end of both ways to complete: after the entry has been taken out.\<close>

definition finishEntry :: "BrokerConfig \<Rightarrow> clock \<Rightarrow> PendingEntry \<Rightarrow> TerminalRequest \<Rightarrow> Broker \<Rightarrow> Broker" where
  "finishEntry cfg clk e t st =
     showHead cfg clk
       (emitEvent cfg (terminalEvent cfg clk (pe_request e) t)
         (logEffect (Settled (pe_call e) (Decided (tr_decision t)))
           (markResolved clk (cq_id (pe_request e)) (tr_decision t) st)))"

definition completeImmediately :: "BrokerConfig \<Rightarrow> clock \<Rightarrow> PendingEntry \<Rightarrow> TerminalRequest \<Rightarrow> Broker \<Rightarrow> Broker" where
  "completeImmediately cfg clk e t st =
     (let i = cq_id (pe_request e) in
      finishEntry cfg clk e t (removeFromQueue i (deletePending i (clearExpireTimer i st))))"

text \<open>
  The entry passed in is the one that the map holds under its id, as at every call of the
  source; an entry that already has a terminal request keeps it.
\<close>

definition startTerminal :: "PendingEntry \<Rightarrow> TerminalRequest \<Rightarrow> Broker \<Rightarrow> Broker" where
  "startTerminal e t st =
     (let i = cq_id (pe_request e) in
      case omap_get (bk_pending st) i of
        None \<Rightarrow> st
      | Some held \<Rightarrow>
          if pe_call held \<noteq> pe_call e \<or> pe_terminal held \<noteq> None then st
          else (changeEntry i (\<lambda>e. e\<lparr>pe_status := Resolving, pe_terminal := Some t\<rparr>)
                 (removeFromQueue i (clearExpireTimer i st)))
                 \<lparr>bk_commits := bk_commits st @ [(pe_call e, i, t)]\<rparr>)"

text \<open>The continuation of \<^verbatim>\<open>commitTerminal\<close> after the observer has answered.\<close>

definition commitStored :: "BrokerConfig \<Rightarrow> clock \<Rightarrow> nat \<Rightarrow> string \<Rightarrow> TerminalRequest \<Rightarrow> Broker \<Rightarrow> Broker" where
  "commitStored cfg clk c i t st =
     (let st1 = logEffect (Stored c (tr_decision t) (tr_source t)) st in
      case omap_get (bk_pending st1) i of
        None \<Rightarrow> st1
      | Some e \<Rightarrow> if pe_call e \<noteq> c then st1 else finishEntry cfg clk e t (deletePending i st1))"

definition commitFailed :: "BrokerConfig \<Rightarrow> clock \<Rightarrow> nat \<Rightarrow> string \<Rightarrow> TerminalRequest \<Rightarrow> Broker \<Rightarrow> Broker" where
  "commitFailed cfg clk c i t st =
     (case omap_get (bk_pending st) i of
        None \<Rightarrow> st
      | Some e \<Rightarrow>
          if pe_call e \<noteq> c then st
          else
            (let st1 = changeEntry i (\<lambda>e. e\<lparr>pe_terminal := None, pe_deferredTerminal := None\<rparr>) st in
             case pe_deferredTerminal e of
               Some deferred \<Rightarrow> startTerminal e deferred st1
             | None \<Rightarrow>
                 if tr_requeueOnFailure t
                 then (let st2 = changeEntry i (\<lambda>e. e\<lparr>pe_status := Queued\<rparr>) st1;
                           st3 = (if i \<in> set (bk_queue st2) then st2 else st2\<lparr>bk_queue := i # bk_queue st2\<rparr>)
                       in showHead cfg clk (scheduleExpiry i st3))
                 else showHead cfg clk (logEffect (Settled c Rejected) (deletePending i st1))))"

definition commitSettles :: "BrokerConfig \<Rightarrow> clock \<Rightarrow> nat \<Rightarrow> bool \<Rightarrow> Broker \<Rightarrow> Broker" where
  "commitSettles cfg clk c stored st =
     (case List.find (\<lambda>(c', _). c' = c) (bk_commits st) of
        None \<Rightarrow> st
      | Some (c', i, t) \<Rightarrow>
          (let st1 = st\<lparr>bk_commits := remove1 (c', i, t) (bk_commits st)\<rparr> in
           if stored then commitStored cfg clk c i t st1 else commitFailed cfg clk c i t st1))"

section \<open>Answers, cancellation and expiry\<close>

definition surfaceTerminal :: "clock \<Rightarrow> PendingEntry \<Rightarrow> ConfirmationDecision \<Rightarrow> bool \<Rightarrow> TerminalRequest" where
  "surfaceTerminal clk e d requeue =
     \<lparr>tr_decision = d, tr_source = Surface, tr_emit = EmitResolved (clk 3 - pe_createdAt e), tr_requeueOnFailure = requeue\<rparr>"

definition sameDecision :: "BrokerConfig \<Rightarrow> ConfirmationDecision \<Rightarrow> ConfirmationDecision \<Rightarrow> bool" where
  "sameDecision cfg d d' = (bc_stringify cfg d = bc_stringify cfg d')"

definition resolve :: "BrokerConfig \<Rightarrow> clock \<Rightarrow> string \<Rightarrow> ConfirmationDecision \<Rightarrow> Broker \<Rightarrow> (ConfirmationError, Broker \<times> bool) result" where
  "resolve cfg clk i d st =
     andThen (validateConfirmationDecisionText d) (\<lambda>_.
       Inr (case omap_get (bk_pending st) i of
              None \<Rightarrow> (st, False)
            | Some e \<Rightarrow>
                if \<not> bc_observer cfg
                then (completeImmediately cfg clk e (surfaceTerminal clk e d False) (logEffect (Answered (pe_call e) d) st), True)
                else case pe_terminal e of
                  Some t \<Rightarrow> (st, sameDecision cfg (tr_decision t) d)
                | None \<Rightarrow> (startTerminal e (surfaceTerminal clk e d False) (logEffect (Answered (pe_call e) d) st), True)))"

text \<open>The reply of the durable operations: a value, or the promise of the commit of a call.\<close>

datatype DurableReply = Value bool | CommitOf nat

definition resolveDurably ::
  "BrokerConfig \<Rightarrow> clock \<Rightarrow> string \<Rightarrow> ConfirmationDecision \<Rightarrow> Broker \<Rightarrow> (ConfirmationError, Broker \<times> DurableReply) result" where
  "resolveDurably cfg clk i d st =
     andThen (validateConfirmationDecisionText d) (\<lambda>_.
       case omap_get (bk_pending st) i of
         None \<Rightarrow> Inr (st, Value False)
       | Some e \<Rightarrow>
           if \<not> bc_observer cfg then andThen (resolve cfg clk i d st) (\<lambda>(st1, r). Inr (st1, Value r))
           else case pe_terminal e of
             Some t \<Rightarrow> Inr (st, if sameDecision cfg (tr_decision t) d then CommitOf (pe_call e) else Value False)
           | None \<Rightarrow>
               Inr (startTerminal e (surfaceTerminal clk e d True) (logEffect (Answered (pe_call e) d) st), CommitOf (pe_call e)))"

definition resolverTerminal :: "BrokerConfig \<Rightarrow> ConfirmationDecision \<Rightarrow> TerminalRequest" where
  "resolverTerminal cfg d =
     \<lparr>tr_decision = d, tr_source = NonInteractive (ni_name (bc_resolver cfg)), tr_emit = EmitAutoResolved, tr_requeueOnFailure = True\<rparr>"

fun fromResolver :: "ConfirmationResolutionSource \<Rightarrow> bool" where
  "fromResolver (NonInteractive r) = True"
| "fromResolver s = False"

definition resolveNonInteractiveDurably ::
  "BrokerConfig \<Rightarrow> clock \<Rightarrow> string \<Rightarrow> Broker \<Rightarrow> (ConfirmationError, Broker \<times> DurableReply) result" where
  "resolveNonInteractiveDurably cfg clk i st =
     (case omap_get (bk_pending st) i of
        None \<Rightarrow> Inr (st, Value False)
      | Some e \<Rightarrow>
          (let d = ni_resolve (bc_resolver cfg) (pe_request e) in
           andThen (validateConfirmationDecisionText d) (\<lambda>_.
             Inr (if \<not> bc_observer cfg then (completeImmediately cfg clk e (resolverTerminal cfg d) st, Value True)
                  else case pe_terminal e of
                    Some t \<Rightarrow> (st, if fromResolver (tr_source t) \<and> sameDecision cfg (tr_decision t) d then CommitOf (pe_call e) else Value False)
                  | None \<Rightarrow> (startTerminal e (resolverTerminal cfg d) st, CommitOf (pe_call e))))))"

definition cancelTerminal :: "CancelCause \<Rightarrow> TerminalRequest" where
  "cancelTerminal cause =
     \<lparr>tr_decision = DecisionCancelled cause, tr_source = CancelSource cause, tr_emit = EmitCancelled cause, tr_requeueOnFailure = False\<rparr>"

definition cancel :: "BrokerConfig \<Rightarrow> clock \<Rightarrow> string \<Rightarrow> CancelCause \<Rightarrow> Broker \<Rightarrow> Broker \<times> bool" where
  "cancel cfg clk i cause st =
     (case omap_get (bk_admitting st) i of
        Some held \<Rightarrow>
          (let cause' = orElse held (Some cause) in
           (st\<lparr>bk_admitting := omap_set i cause' (bk_admitting st)\<rparr>, cause' = Some cause))
      | None \<Rightarrow>
          (case omap_get (bk_pending st) i of
             None \<Rightarrow> (st, False)
           | Some e \<Rightarrow>
               if \<not> bc_observer cfg then (completeImmediately cfg clk e (cancelTerminal cause) st, True)
               else case pe_terminal e of
                 Some t \<Rightarrow>
                   if tr_source t = Surface
                   then (removeFromQueue i (clearExpireTimer i
                           (changeEntry i (\<lambda>e. e\<lparr>pe_deferredTerminal := orElse (pe_deferredTerminal e) (Some (cancelTerminal cause))\<rparr>) st)), True)
                   else (st, sameDecision cfg (tr_decision t) (DecisionCancelled cause))
               | None \<Rightarrow> (startTerminal e (cancelTerminal cause) st, True)))"

fun cancelEach :: "BrokerConfig \<Rightarrow> (string \<Rightarrow> clock) \<Rightarrow> CancelCause \<Rightarrow> string list \<Rightarrow> Broker \<Rightarrow> Broker \<times> nat" where
  "cancelEach cfg clk cause [] st = (st, 0)"
| "cancelEach cfg clk cause (i # ids) st =
     (case cancel cfg (clk i) i cause st of
        (st1, hit) \<Rightarrow> (case cancelEach cfg clk cause ids st1 of (st2, n) \<Rightarrow> (st2, if hit then Suc n else n)))"

definition cancelAll :: "BrokerConfig \<Rightarrow> (string \<Rightarrow> clock) \<Rightarrow> CancelCause \<Rightarrow> Broker \<Rightarrow> Broker \<times> nat" where
  "cancelAll cfg clk cause st = cancelEach cfg clk cause (map fst (bk_admitting st) @ map fst (bk_pending st)) st"

definition expireTerminal :: "clock \<Rightarrow> PendingEntry \<Rightarrow> TerminalRequest" where
  "expireTerminal clk e =
     \<lparr>tr_decision = DecisionExpired, tr_source = ExpiredSource, tr_emit = EmitExpired (clk 3 - pe_createdAt e), tr_requeueOnFailure = False\<rparr>"

definition expire :: "BrokerConfig \<Rightarrow> clock \<Rightarrow> string \<Rightarrow> Broker \<Rightarrow> Broker" where
  "expire cfg clk i st =
     (case omap_get (bk_pending st) i of
        None \<Rightarrow> st
      | Some e \<Rightarrow>
          if \<not> bc_observer cfg then completeImmediately cfg clk e (expireTerminal clk e) st
          else case pe_terminal e of
            Some t \<Rightarrow>
              if tr_source t = Surface
              then changeEntry i (\<lambda>e. e\<lparr>pe_deferredTerminal := orElse (pe_deferredTerminal e) (Some (expireTerminal clk e))\<rparr>) st
              else st
          | None \<Rightarrow> startTerminal e (expireTerminal clk e) st)"

text \<open>The timer of an entry fires only while it is set.\<close>

definition expireTimerFires :: "BrokerConfig \<Rightarrow> clock \<Rightarrow> string \<Rightarrow> Broker \<Rightarrow> Broker" where
  "expireTimerFires cfg clk i st =
     (case omap_get (bk_pending st) i of
        None \<Rightarrow> st
      | Some e \<Rightarrow> if pe_expireTimer e then expire cfg clk i (clearExpireTimer i st) else st)"

section \<open>Requests\<close>

definition suspend :: "nat \<Rightarrow> Suspension \<Rightarrow> Broker \<Rightarrow> Broker" where
  "suspend c s st = st\<lparr>bk_suspended := bk_suspended st @ [(c, s)]\<rparr>"

definition enqueueRequest :: "BrokerConfig \<Rightarrow> clock \<Rightarrow> nat \<Rightarrow> ConfirmationRequest \<Rightarrow> Broker \<Rightarrow> Broker" where
  "enqueueRequest cfg clk c rq st =
     (let entry = \<lparr>pe_request = rq, pe_status = Queued, pe_createdAt = clk 3, pe_expireTimer = False, pe_call = c,
                   pe_terminal = None, pe_deferredTerminal = None\<rparr>;
          st1 = st\<lparr>bk_pending := omap_set (cq_id rq) entry (bk_pending st), bk_queue := bk_queue st @ [cq_id rq]\<rparr>;
          st2 = emitEvent cfg (EvRequested (cq_id rq) (cq_tool rq) (cq_operationClass rq) (cq_riskLevel rq) (length (bk_queue st1)) (clk 4)) st1;
          st3 = scheduleExpiry (cq_id rq) st2
      in if hd (bk_queue st3) = cq_id rq then showHead cfg clk st3 else st3)"

text \<open>\<^verbatim>\<open>requestConfirmation\<close> from its second step on: no surface, a full queue, or the queue.\<close>

definition proceed :: "BrokerConfig \<Rightarrow> clock \<Rightarrow> nat \<Rightarrow> ConfirmationRequest \<Rightarrow> bool \<Rightarrow> Broker \<Rightarrow> Broker" where
  "proceed cfg clk c rq durableDelivery st =
     (if bk_listeners st = 0 \<and> \<not> durableDelivery then suspend c (AwaitResolver rq (ni_resolve (bc_resolver cfg) rq)) st
      else if int (length (bk_pending st)) \<ge> bc_maxQueueDepth cfg then suspend c (AwaitBackpressure rq) st
      else enqueueRequest cfg clk c rq st)"

definition requestConfirmation :: "BrokerConfig \<Rightarrow> clock \<Rightarrow> ConfirmationRequest \<Rightarrow> Broker \<Rightarrow> Broker" where
  "requestConfirmation cfg clk rq st =
     (let c = bk_nextCall st; i = cq_id rq; st1 = st\<lparr>bk_nextCall := Suc c\<rparr> in
      if omap_get (bk_admitting st) i \<noteq> None \<or> omap_get (bk_pending st) i \<noteq> None \<or> omap_get (bk_resolvedRecent st) i \<noteq> None
      then logEffect (Settled c Rejected) st1
      else if bc_observer cfg then suspend c (AwaitBefore rq) (st1\<lparr>bk_admitting := omap_set i None (bk_admitting st)\<rparr>)
      else proceed cfg clk c rq False st1)"

text \<open>What \<^verbatim>\<open>beforeRequest\<close> answers.\<close>

datatype Disposition = BeforeThrows | NotAccepted CancelCause | Accepted bool

definition afterBefore :: "BrokerConfig \<Rightarrow> clock \<Rightarrow> nat \<Rightarrow> ConfirmationRequest \<Rightarrow> Disposition \<Rightarrow> Broker \<Rightarrow> Broker" where
  "afterBefore cfg clk c rq answer st =
     (let i = cq_id rq in
      case answer of
        BeforeThrows \<Rightarrow> logEffect (Settled c Rejected) (deleteAdmitting i st)
      | NotAccepted cause \<Rightarrow>
          logEffect (Settled c (Decided (DecisionCancelled cause)))
            (deleteAdmitting i
              (emitEvent cfg (EvCancelled i (cq_tool rq) cause (clk 1))
                (markResolved clk i (DecisionCancelled cause) (logEffect (Refused c (DecisionCancelled cause)) st))))
      | Accepted durable \<Rightarrow>
          (case omap_get (bk_admitting st) i of
             Some (Some cause) \<Rightarrow> suspend c (AwaitCancelled rq cause) st
           | _ \<Rightarrow> proceed cfg clk c rq durable (deleteAdmitting i st)))"

text \<open>
  The continuation after \<^verbatim>\<open>afterResolved\<close>: it fails only when there is an observer, and only
  then something is stored. Each of the three places orders its effects in its own way.
\<close>

definition storedBy :: "BrokerConfig \<Rightarrow> nat \<Rightarrow> ConfirmationDecision \<Rightarrow> ConfirmationResolutionSource \<Rightarrow> Broker \<Rightarrow> Broker" where
  "storedBy cfg c d src st = (if bc_observer cfg then logEffect (Stored c d src) st else st)"

fun afterStored :: "BrokerConfig \<Rightarrow> clock \<Rightarrow> nat \<Rightarrow> Suspension \<Rightarrow> bool \<Rightarrow> Broker \<Rightarrow> Broker" where
  "afterStored cfg clk c (AwaitBefore rq) stored st = st"
| "afterStored cfg clk c (AwaitCancelled rq cause) stored st =
     (let i = cq_id rq; d = DecisionCancelled cause in
      if stored
      then logEffect (Settled c (Decided d))
             (deleteAdmitting i
               (emitEvent cfg (EvCancelled i (cq_tool rq) cause (clk 1))
                 (markResolved clk i d (storedBy cfg c d (CancelSource cause) st))))
      else logEffect (Settled c Rejected) (deleteAdmitting i st))"
| "afterStored cfg clk c (AwaitResolver rq d) stored st =
     (let i = cq_id rq; r = ni_name (bc_resolver cfg) in
      if stored \<or> \<not> bc_observer cfg
      then logEffect (Settled c (Decided d))
             (markResolved clk i d
               (emitEvent cfg (EvAutoResolved i (cq_tool rq) r d (clk 1)) (storedBy cfg c d (NonInteractive r) st)))
      else logEffect (Settled c Rejected) st)"
| "afterStored cfg clk c (AwaitBackpressure rq) stored st =
     (let i = cq_id rq; d = DecisionCancelled BackpressureCause in
      if stored \<or> \<not> bc_observer cfg
      then logEffect (Settled c (Decided d))
             (emitEvent cfg (EvCancelled i (cq_tool rq) BackpressureCause (clk 1))
               (markResolved clk i d (storedBy cfg c d BackpressureSource st)))
      else logEffect (Settled c Rejected) st)"

definition resume :: "nat \<Rightarrow> (Suspension \<Rightarrow> Broker \<Rightarrow> Broker) \<Rightarrow> Broker \<Rightarrow> Broker" where
  "resume c k st =
     (case omap_get (bk_suspended st) c of
        None \<Rightarrow> st
      | Some s \<Rightarrow> k s (st\<lparr>bk_suspended := AList.delete c (bk_suspended st)\<rparr>))"

section \<open>Views and runs\<close>

definition listPending :: "Broker \<Rightarrow> (ConfirmationRequest \<times> EntryStatus) list" where
  "listPending st = map (\<lambda>e. (pe_request e, pe_status e)) (sort_by (\<lambda>a b. pe_createdAt a \<le> pe_createdAt b) (omap_values (bk_pending st)))"

definition snapshot :: "BrokerConfig \<Rightarrow> Broker \<Rightarrow> BrokerSnapshot" where
  "snapshot cfg st =
     \<lparr>sn_lineage = bc_lineage cfg, sn_pending = listPending st, sn_resolvedRecently = bk_resolvedRecent st,
      sn_listenerCount = bk_listeners st, sn_nonInteractiveResolver = ni_name (bc_resolver cfg)\<rparr>"

text \<open>
  The operations: calls of the interface, answers of the observer to a suspended call or a
  commit, timers, and listeners that come and go.
\<close>

datatype BrokerOp =
    OpRequest clock ConfirmationRequest
  | OpBefore clock nat Disposition
  | OpAfter clock nat bool
  | OpCommit clock nat bool
  | OpResolve clock string ConfirmationDecision
  | OpResolveDurably clock string ConfirmationDecision
  | OpResolveNonInteractive clock string
  | OpCancel clock string CancelCause
  | OpCancelAll "string \<Rightarrow> clock" CancelCause
  | OpExpireTimer clock string
  | OpGraceTimer string
  | OpListen
  | OpUnlisten

definition valueOr :: "Broker \<Rightarrow> (ConfirmationError, Broker \<times> 'a) result \<Rightarrow> Broker" where
  "valueOr st r = (case r of Inl e \<Rightarrow> st | Inr (st1, v) \<Rightarrow> st1)"

fun performBroker :: "BrokerConfig \<Rightarrow> BrokerOp \<Rightarrow> Broker \<Rightarrow> Broker" where
  "performBroker cfg (OpRequest clk rq) st = requestConfirmation cfg clk rq st"
| "performBroker cfg (OpBefore clk c answer) st =
     (case omap_get (bk_suspended st) c of
        Some (AwaitBefore rq) \<Rightarrow> resume c (\<lambda>s. afterBefore cfg clk c rq answer) st
      | _ \<Rightarrow> st)"
| "performBroker cfg (OpAfter clk c stored) st =
     (case omap_get (bk_suspended st) c of
        Some (AwaitBefore rq) \<Rightarrow> st
      | _ \<Rightarrow> resume c (\<lambda>s. afterStored cfg clk c s stored) st)"
| "performBroker cfg (OpCommit clk c stored) st = commitSettles cfg clk c stored st"
| "performBroker cfg (OpResolve clk i d) st = valueOr st (resolve cfg clk i d st)"
| "performBroker cfg (OpResolveDurably clk i d) st = valueOr st (resolveDurably cfg clk i d st)"
| "performBroker cfg (OpResolveNonInteractive clk i) st = valueOr st (resolveNonInteractiveDurably cfg clk i st)"
| "performBroker cfg (OpCancel clk i cause) st = fst (cancel cfg clk i cause st)"
| "performBroker cfg (OpCancelAll clk cause) st = fst (cancelAll cfg clk cause st)"
| "performBroker cfg (OpExpireTimer clk i) st = expireTimerFires cfg clk i st"
| "performBroker cfg (OpGraceTimer i) st =
     (if i \<in> set (bk_graceTimers st)
      then st\<lparr>bk_graceTimers := remove1 i (bk_graceTimers st), bk_resolvedRecent := AList.delete i (bk_resolvedRecent st)\<rparr>
      else st)"
| "performBroker cfg OpListen st = st\<lparr>bk_listeners := Suc (bk_listeners st)\<rparr>"
| "performBroker cfg OpUnlisten st = st\<lparr>bk_listeners := bk_listeners st - 1\<rparr>"

inductive brokerRun :: "BrokerConfig \<Rightarrow> Broker \<Rightarrow> bool" for cfg where
  start: "brokerRun cfg newBroker"
| perform: "brokerRun cfg st \<Longrightarrow> brokerRun cfg (performBroker cfg op st)"

end
