(* ===== verification/Confirmation_Invariant.thy ===== *)
theory Confirmation_Invariant
  imports Confirmation_Broker
begin

text \<open>
  The structural invariant of the broker: which entries are queued, which are being
  resolved, which commits are in flight, and where every call of \<^verbatim>\<open>requestConfirmation\<close> is.
  First the shape of the map of pending requests, the queue and the commits under the few
  changes that the operations make; then the calls as tickets.
\<close>

section \<open>Maps of entries\<close>

lemma get_change: "map_of (map (\<lambda>(k, e). (k, if k = i then f e else e)) m) = (map_of m)(i := map_option f (map_of m i))"
  by (induction m) auto

lemma keys_change: "map fst (map (\<lambda>(k, e). (k, if k = i then f e else e)) m) = map fst m"
  by (induction m) auto

lemma calls_change: "(\<And>e. pe_call (f e) = pe_call e) \<Longrightarrow>
    map (\<lambda>x. pe_call (snd x)) (map (\<lambda>(k, e). (k, if k = i then f e else e)) m) = map (\<lambda>x. pe_call (snd x)) m"
  by (induction m) auto

lemma calls_delete:
  "distinct (map fst m) \<Longrightarrow> map_of m i = Some e \<Longrightarrow>
   mset (map (\<lambda>x. pe_call (snd x)) m) = add_mset (pe_call e) (mset (map (\<lambda>x. pe_call (snd x)) (AList.delete i m)))"
proof (induction m)
  case (Cons x m)
  show ?case
  proof (cases "fst x = i")
    case True
    then have "i \<notin> fst ` set m" using Cons.prems(1) by auto
    then have "AList.delete i m = m" by (simp add: delete_id)
    then show ?thesis using True Cons.prems(2) by (cases x) simp
  next
    case False
    then show ?thesis using Cons by (cases x) simp
  qed
qed simp

lemma set_new_key: "map_of m i = None \<Longrightarrow> omap_set i e m = m @ [(i, e)]"
  by (induction m) (auto split: if_splits)

lemma keys_delete: "distinct (map fst m) \<Longrightarrow> distinct (map fst (AList.delete i m))"
  by (simp add: distinct_delete)

lemma delete_mset_keys: "distinct (map fst m) \<Longrightarrow> map_of m i = Some v \<Longrightarrow> mset (map fst m) = add_mset i (mset (map fst (AList.delete i m)))"
proof (induction m)
  case (Cons x m)
  have del: "AList.delete i m = m" if "fst x = i" using that Cons.prems(1) by (intro delete_id) auto
  then show ?case using Cons by (cases x) auto
qed simp

lemma length_delete: "length (AList.delete i m) \<le> length m"
  by (simp add: length_delete_le)

section \<open>The shape of pending requests\<close>

text \<open>
  Of one entry, and of the entries \<open>g\<close> as a partial function of the id: no call has two
  entries, the queue holds the entries without a terminal request, and the commits in flight
  are the terminal requests of the others.
\<close>

definition entryOk :: "string \<Rightarrow> PendingEntry \<Rightarrow> bool" where
  "entryOk i e = (cq_id (pe_request e) = i \<and> (pe_status e = Resolving \<longleftrightarrow> pe_terminal e \<noteq> None) \<and>
     (pe_expireTimer e \<longleftrightarrow> pe_terminal e = None) \<and> (pe_deferredTerminal e \<noteq> None \<longrightarrow> pe_terminal e \<noteq> None))"

definition callsOk :: "(string \<rightharpoonup> PendingEntry) \<Rightarrow> bool" where
  "callsOk g = (\<forall>i j e e'. g i = Some e \<longrightarrow> g j = Some e' \<longrightarrow> pe_call e = pe_call e' \<longrightarrow> i = j)"

definition queueOk :: "(string \<rightharpoonup> PendingEntry) \<Rightarrow> string list \<Rightarrow> bool" where
  "queueOk g q = (distinct q \<and> (\<forall>i. i \<in> set q \<longleftrightarrow> (\<exists>e. g i = Some e \<and> pe_terminal e = None)))"

definition commitsOk :: "(string \<rightharpoonup> PendingEntry) \<Rightarrow> (nat \<times> string \<times> TerminalRequest) list \<Rightarrow> bool" where
  "commitsOk g cs = (distinct (map fst cs) \<and>
     (\<forall>c i t. (c, i, t) \<in> set cs \<longleftrightarrow> (\<exists>e. g i = Some e \<and> pe_call e = c \<and> pe_terminal e = Some t)))"

definition shapeOk :: "(string \<rightharpoonup> PendingEntry) \<Rightarrow> string list \<Rightarrow> (nat \<times> string \<times> TerminalRequest) list \<Rightarrow> bool" where
  "shapeOk g q cs = (callsOk g \<and> (\<forall>i e. g i = Some e \<longrightarrow> entryOk i e) \<and> queueOk g q \<and> commitsOk g cs)"

lemma shape_entry: "shapeOk g q cs \<Longrightarrow> g i = Some e \<Longrightarrow> entryOk i e"
  by (simp add: shapeOk_def)

lemma shape_commit: "shapeOk g q cs \<Longrightarrow> (c, i, t) \<in> set cs \<Longrightarrow> \<exists>e. g i = Some e \<and> pe_call e = c \<and> pe_terminal e = Some t"
  by (simp add: shapeOk_def commitsOk_def)

lemma shape_queued: "shapeOk g q cs \<Longrightarrow> g i = Some e \<Longrightarrow> i \<in> set q \<longleftrightarrow> pe_terminal e = None"
  by (auto simp: shapeOk_def queueOk_def)

lemma entries_update:
  "shapeOk g q cs \<Longrightarrow> entryOk i e \<Longrightarrow> \<forall>j e'. (g(i := Some e)) j = Some e' \<longrightarrow> entryOk j e'"
  "shapeOk g q cs \<Longrightarrow> \<forall>j e'. (g(i := None)) j = Some e' \<longrightarrow> entryOk j e'"
  by (auto simp: shapeOk_def)

lemma calls_update:
  "callsOk g \<Longrightarrow> g i = Some e \<Longrightarrow> pe_call e' = pe_call e \<Longrightarrow> callsOk (g(i := Some e'))"
  "callsOk g \<Longrightarrow> callsOk (g(i := None))"
  "callsOk g \<Longrightarrow> (\<And>j e. g j = Some e \<Longrightarrow> pe_call e \<noteq> pe_call e') \<Longrightarrow> callsOk (g(i := Some e'))"
  unfolding callsOk_def fun_upd_apply by (metis option.distinct(1) option.inject)+

lemma queue_update:
  "queueOk g q \<Longrightarrow> g i = Some e \<Longrightarrow> pe_terminal e' = pe_terminal e \<Longrightarrow> queueOk (g(i := Some e')) q"
  "queueOk g q \<Longrightarrow> pe_terminal e' \<noteq> None \<Longrightarrow> queueOk (g(i := Some e')) (remove1 i q)"
  "queueOk g q \<Longrightarrow> queueOk (g(i := None)) (remove1 i q)"
  "queueOk g q \<Longrightarrow> i \<notin> set q \<Longrightarrow> pe_terminal e' = None \<Longrightarrow> queueOk (g(i := Some e')) (i # q)"
  "queueOk g q \<Longrightarrow> i \<notin> set q \<Longrightarrow> pe_terminal e' = None \<Longrightarrow> queueOk (g(i := Some e')) (q @ [i])"
  unfolding queueOk_def by auto

lemma remove1_distinct_fst:
  assumes "distinct (map fst cs)" "x \<in> set cs"
  shows "distinct (map fst (remove1 x cs))" "set (remove1 x cs) = {y \<in> set cs. fst y \<noteq> fst x}"
proof -
  show "distinct (map fst (remove1 x cs))" using assms(1)
  proof (induction cs)
    case (Cons y cs)
    then show ?case using set_remove1_subset [of x cs] by auto
  qed simp
  have "distinct cs" using assms(1) by (simp add: distinct_map)
  then have "set (remove1 x cs) = set cs - {x}" by simp
  moreover have "y = x" if "y \<in> set cs" "fst y = fst x" for y using assms that by (metis distinct_map inj_onD)
  ultimately show "set (remove1 x cs) = {y \<in> set cs. fst y \<noteq> fst x}" by auto
qed

lemma commits_update:
  "commitsOk g cs \<Longrightarrow> g i = Some e \<Longrightarrow> pe_call e' = pe_call e \<Longrightarrow> pe_terminal e' = pe_terminal e \<Longrightarrow> commitsOk (g(i := Some e')) cs"
  "commitsOk g cs \<Longrightarrow> g i = Some e \<Longrightarrow> pe_terminal e = None \<Longrightarrow> commitsOk (g(i := None)) cs"
  "commitsOk g cs \<Longrightarrow> g i = None \<Longrightarrow> pe_terminal e' = None \<Longrightarrow> commitsOk (g(i := Some e')) cs"
  unfolding commitsOk_def by auto

lemma commits_start:
  assumes "commitsOk g cs" "callsOk g" "g i = Some e" "pe_terminal e = None" "pe_call e' = pe_call e" "pe_terminal e' = Some t"
  shows "commitsOk (g(i := Some e')) (cs @ [(pe_call e, i, t)])"
proof -
  have "c \<noteq> pe_call e" if "(c, j, u) \<in> set cs" for c j u
  proof
    assume c: "c = pe_call e"
    have "\<exists>e2. g j = Some e2 \<and> pe_call e2 = c \<and> pe_terminal e2 = Some u" using assms(1) that by (simp add: commitsOk_def)
    then obtain e2 where "g j = Some e2" "pe_call e2 = c" "pe_terminal e2 = Some u" by blast
    moreover from this have "j = i" using assms(2,3) c unfolding callsOk_def by metis
    ultimately show False using assms(3,4) by simp
  qed
  then have "distinct (map fst (cs @ [(pe_call e, i, t)]))" using assms(1) by (fastforce simp: commitsOk_def)
  then show ?thesis using assms unfolding commitsOk_def by auto
qed

lemma commits_over:
  assumes "commitsOk g cs" "callsOk g" "g i = Some e" "pe_terminal e = Some t"
  shows "commitsOk (g(i := None)) (remove1 (pe_call e, i, t) cs)"
proof -
  have mem: "(pe_call e, i, t) \<in> set cs" and d: "distinct (map fst cs)" using assms by (auto simp: commitsOk_def)
  have "(c, j, u) \<in> set (remove1 (pe_call e, i, t) cs) \<longleftrightarrow> (\<exists>e'. (g(i := None)) j = Some e' \<and> pe_call e' = c \<and> pe_terminal e' = Some u)"
    for c j u
  proof -
    have "(c, j, u) \<in> set (remove1 (pe_call e, i, t) cs) \<longleftrightarrow> (\<exists>e'. g j = Some e' \<and> pe_call e' = c \<and> pe_terminal e' = Some u) \<and> c \<noteq> pe_call e"
      unfolding remove1_distinct_fst(2) [OF d mem] using assms(1) by (simp add: commitsOk_def)
    also have "\<dots> \<longleftrightarrow> (\<exists>e'. (g(i := None)) j = Some e' \<and> pe_call e' = c \<and> pe_terminal e' = Some u)"
      using assms(2,3) unfolding callsOk_def fun_upd_apply by (metis option.distinct(1) option.inject)
    finally show ?thesis .
  qed
  then show ?thesis using remove1_distinct_fst(1) [OF d mem] unfolding commitsOk_def by blast
qed

lemma shape_change:
  assumes "shapeOk g q cs" "g i = Some e" "pe_call e' = pe_call e" "pe_terminal e' = pe_terminal e" "entryOk i e'"
  shows "shapeOk (g(i := Some e')) q cs"
  using assms entries_update(1) [OF assms(1,5)] calls_update(1) [of g i e e'] queue_update(1) [of g q i e e'] commits_update(1) [of g cs i e e']
  unfolding shapeOk_def by blast

lemma shape_drop:
  assumes "shapeOk g q cs" "g i = Some e" "pe_terminal e = None"
  shows "shapeOk (g(i := None)) (remove1 i q) cs"
  using assms entries_update(2) [OF assms(1)] calls_update(2) [of g i] queue_update(3) [of g q i] commits_update(2) [of g cs i e]
  unfolding shapeOk_def by blast

lemma shape_finish:
  assumes "shapeOk g q cs" "g i = Some e" "pe_terminal e = Some t"
  shows "shapeOk (g(i := None)) q (remove1 (pe_call e, i, t) cs)"
proof -
  have "remove1 i q = q" using shape_queued [OF assms(1,2)] assms(3) by (simp add: remove1_idem)
  then show ?thesis using assms entries_update(2) [OF assms(1)] calls_update(2) [of g i] queue_update(3) [of g q i] commits_over [of g cs i e t]
    unfolding shapeOk_def by metis
qed

lemma shape_start:
  assumes "shapeOk g q cs" "g i = Some e" "pe_terminal e = None" "pe_call e' = pe_call e" "pe_terminal e' = Some t" "entryOk i e'"
  shows "shapeOk (g(i := Some e')) (remove1 i q) (cs @ [(pe_call e, i, t)])"
  using assms entries_update(1) [OF assms(1,6)] calls_update(1) [of g i e e'] queue_update(2) [of g q e' i] commits_start [of g cs i e e' t]
  unfolding shapeOk_def by simp

lemma shape_insert:
  assumes "shapeOk g q cs" "g i = None" "entryOk i e'" "pe_terminal e' = None" "\<And>j e. g j = Some e \<Longrightarrow> pe_call e \<noteq> pe_call e'"
  shows "shapeOk (g(i := Some e')) (q @ [i]) cs"
proof -
  have "i \<notin> set q" using assms(1,2) by (auto simp: shapeOk_def queueOk_def)
  then show ?thesis using assms entries_update(1) [OF assms(1,3)] calls_update(3) [of g e' i] queue_update(5) [of g q i e'] commits_update(3) [of g cs i e']
    unfolding shapeOk_def by blast
qed

text \<open>A failed commit: the entry goes back to the front of the queue, or takes the deferred request.\<close>

lemma shape_requeue:
  assumes "shapeOk g q cs" "g i = Some e" "pe_terminal e = Some t" "pe_call e' = pe_call e" "pe_terminal e' = None" "entryOk i e'"
  shows "shapeOk (g(i := Some e')) (i # q) (remove1 (pe_call e, i, t) cs)"
proof -
  have i: "i \<notin> set q" using shape_queued [OF assms(1,2)] assms(3) by simp
  have "commitsOk ((g(i := None))(i := Some e')) (remove1 (pe_call e, i, t) cs)"
    using assms commits_over [of g cs i e t] unfolding shapeOk_def by (intro commits_update(3)) simp_all
  then show ?thesis using assms i entries_update(1) [OF assms(1,6)] calls_update(1) [of g i e e'] queue_update(4) [of g q i e']
    unfolding shapeOk_def by simp
qed

lemma shape_restart:
  assumes "shapeOk g q cs" "g i = Some e" "pe_terminal e = Some t" "pe_call e' = pe_call e" "pe_terminal e' = Some t'" "entryOk i e'"
  shows "shapeOk (g(i := Some e')) q (remove1 (pe_call e, i, t) cs @ [(pe_call e, i, t')])"
proof -
  let ?e = "e\<lparr>pe_terminal := None\<rparr>"
  have i: "remove1 i q = q" using shape_queued [OF assms(1,2)] assms(3) by (simp add: remove1_idem)
  have "commitsOk ((g(i := None))(i := Some ?e)) (remove1 (pe_call e, i, t) cs)"
    using assms commits_over [of g cs i e t] unfolding shapeOk_def by (intro commits_update(3)) simp_all
  moreover have "callsOk (g(i := Some ?e))" using assms by (intro calls_update(1)) (auto simp: shapeOk_def)
  ultimately have "commitsOk ((g(i := Some ?e))(i := Some e')) (remove1 (pe_call e, i, t) cs @ [(pe_call ?e, i, t')])"
    using assms by (intro commits_start) simp_all
  then show ?thesis using assms i entries_update(1) [OF assms(1,6)] calls_update(1) [of g i e e'] queue_update(2) [of g q e' i]
    unfolding shapeOk_def by simp
qed

end
