(* ===== verification/Confirmation_Calls.thy ===== *)
theory Confirmation_Calls
  imports Confirmation_Invariant
begin

text \<open>
  Every operation of the broker keeps the structural invariant. Within an operation a call
  may be in hand, neither suspended nor pending nor settled, and the id of an admission may
  be without its suspended call; \<open>inv\<close> counts both.
\<close>

section \<open>The invariant\<close>

fun settledCalls :: "BrokerEffect list \<Rightarrow> nat list" where
  "settledCalls [] = []"
| "settledCalls (Settled c r # l) = c # settledCalls l"
| "settledCalls (e # l) = settledCalls l"

fun admissionId :: "Suspension \<Rightarrow> string list" where
  "admissionId (AwaitBefore rq) = [cq_id rq]"
| "admissionId (AwaitCancelled rq cause) = [cq_id rq]"
| "admissionId s = []"

definition callTickets :: "Broker \<Rightarrow> nat multiset" where
  "callTickets st = mset (map fst (bk_suspended st)) + mset (map (\<lambda>x. pe_call (snd x)) (bk_pending st)) + mset (settledCalls (bk_log st))"

definition admissionTickets :: "Broker \<Rightarrow> string multiset" where
  "admissionTickets st = mset (concat (map (\<lambda>x. admissionId (snd x)) (bk_suspended st)))"

definition pendingInv :: "BrokerConfig \<Rightarrow> Broker \<Rightarrow> bool" where
  "pendingInv cfg st =
     (distinct (map fst (bk_pending st)) \<and> shapeOk (map_of (bk_pending st)) (bk_queue st) (bk_commits st) \<and>
      (\<not> bc_observer cfg \<longrightarrow> bk_commits st = []) \<and> int (length (bk_pending st)) \<le> max 0 (bc_maxQueueDepth cfg))"

definition admittingInv :: "Broker \<Rightarrow> bool" where
  "admittingInv st = (distinct (map fst (bk_admitting st)) \<and> set (map fst (bk_admitting st)) \<inter> set (map fst (bk_pending st)) = {})"

definition inv :: "BrokerConfig \<Rightarrow> nat multiset \<Rightarrow> string multiset \<Rightarrow> Broker \<Rightarrow> bool" where
  "inv cfg hand ids st =
     (pendingInv cfg st \<and> admittingInv st \<and> callTickets st + hand = mset [0..<bk_nextCall st] \<and>
      admissionTickets st + ids = mset (map fst (bk_admitting st)))"

lemma inv_new: "inv cfg {#} {#} newBroker"
  by (simp add: inv_def pendingInv_def admittingInv_def callTickets_def admissionTickets_def newBroker_def shapeOk_def callsOk_def queueOk_def
      commitsOk_def)

section \<open>Neutral changes\<close>

lemma neutral_fields [simp]:
  "bk_pending (logEffect x st) = bk_pending st" "bk_queue (logEffect x st) = bk_queue st" "bk_commits (logEffect x st) = bk_commits st"
  "bk_admitting (logEffect x st) = bk_admitting st" "bk_suspended (logEffect x st) = bk_suspended st"
  "bk_nextCall (logEffect x st) = bk_nextCall st" "bk_listeners (logEffect x st) = bk_listeners st" "bk_log (logEffect x st) = x # bk_log st"
  "bk_pending (emitEvent cfg ev st) = bk_pending st" "bk_queue (emitEvent cfg ev st) = bk_queue st" "bk_commits (emitEvent cfg ev st) = bk_commits st"
  "bk_admitting (emitEvent cfg ev st) = bk_admitting st" "bk_suspended (emitEvent cfg ev st) = bk_suspended st"
  "bk_nextCall (emitEvent cfg ev st) = bk_nextCall st" "bk_listeners (emitEvent cfg ev st) = bk_listeners st"
  "bk_pending (markResolved clk i d st) = bk_pending st" "bk_queue (markResolved clk i d st) = bk_queue st"
  "bk_commits (markResolved clk i d st) = bk_commits st" "bk_admitting (markResolved clk i d st) = bk_admitting st"
  "bk_suspended (markResolved clk i d st) = bk_suspended st" "bk_nextCall (markResolved clk i d st) = bk_nextCall st"
  "bk_listeners (markResolved clk i d st) = bk_listeners st"
  by (simp_all add: logEffect_def emitEvent_def markResolved_def)

lemma settled_emit [simp]: "settledCalls (bk_log (emitEvent cfg ev st)) = settledCalls (bk_log st)"
  by (simp add: emitEvent_def)

lemma settled_mark [simp]: "settledCalls (bk_log (markResolved clk i d st)) = settledCalls (bk_log st)"
  by (simp add: markResolved_def)

lemma inv_cong:
  "inv cfg hand ids st \<Longrightarrow> bk_pending st' = bk_pending st \<Longrightarrow> bk_queue st' = bk_queue st \<Longrightarrow> bk_commits st' = bk_commits st \<Longrightarrow>
   bk_admitting st' = bk_admitting st \<Longrightarrow> bk_suspended st' = bk_suspended st \<Longrightarrow> bk_nextCall st' = bk_nextCall st \<Longrightarrow>
   settledCalls (bk_log st') = settledCalls (bk_log st) \<Longrightarrow> inv cfg hand ids st'"
  by (simp add: inv_def pendingInv_def admittingInv_def callTickets_def admissionTickets_def)

lemma settled_neutral: "settledCalls [x] = [] \<Longrightarrow> settledCalls (x # l) = settledCalls l"
  by (cases x) simp_all

lemma inv_log: "inv cfg hand ids st \<Longrightarrow> settledCalls [x] = [] \<Longrightarrow> inv cfg hand ids (logEffect x st)"
  by (erule inv_cong) (simp_all add: settled_neutral)

lemma inv_emit: "inv cfg hand ids st \<Longrightarrow> inv cfg hand ids (emitEvent cfg' ev st)"
  by (erule inv_cong) simp_all

lemma inv_mark: "inv cfg hand ids st \<Longrightarrow> inv cfg hand ids (markResolved clk i d st)"
  by (erule inv_cong) simp_all

lemma inv_settle: "inv cfg (add_mset c hand) ids st \<Longrightarrow> inv cfg hand ids (logEffect (Settled c r) st)"
  by (simp add: inv_def pendingInv_def admittingInv_def callTickets_def admissionTickets_def)

lemma inv_next: "inv cfg {#} ids st \<Longrightarrow> inv cfg {#bk_nextCall st#} ids (st\<lparr>bk_nextCall := Suc (bk_nextCall st)\<rparr>)"
  by (simp add: inv_def pendingInv_def admittingInv_def callTickets_def admissionTickets_def)

section \<open>Changes of an entry\<close>

lemma change_fields [simp]:
  "bk_queue (changeEntry i f st) = bk_queue st" "bk_commits (changeEntry i f st) = bk_commits st"
  "bk_admitting (changeEntry i f st) = bk_admitting st" "bk_suspended (changeEntry i f st) = bk_suspended st"
  "bk_nextCall (changeEntry i f st) = bk_nextCall st" "bk_listeners (changeEntry i f st) = bk_listeners st"
  "bk_log (changeEntry i f st) = bk_log st" "map fst (bk_pending (changeEntry i f st)) = map fst (bk_pending st)"
  "length (bk_pending (changeEntry i f st)) = length (bk_pending st)"
  using keys_change [of i f "bk_pending st"] by (simp_all add: changeEntry_def)

lemma change_get: "map_of (bk_pending (changeEntry i f st)) = (map_of (bk_pending st))(i := map_option f (map_of (bk_pending st) i))"
  unfolding changeEntry_def by (simp add: get_change)

lemma change_change: "changeEntry i f (changeEntry i g st) = changeEntry i (\<lambda>e. f (g e)) st"
  by (simp add: changeEntry_def comp_def case_prod_beta cong: if_cong)

lemma change_commute:
  "changeEntry i f (st\<lparr>bk_queue := q\<rparr>) = (changeEntry i f st)\<lparr>bk_queue := q\<rparr>"
  "changeEntry i f (logEffect x st) = logEffect x (changeEntry i f st)"
  by (simp_all add: changeEntry_def logEffect_def)

lemma same_queue: "(changeEntry i f st)\<lparr>bk_queue := bk_queue st\<rparr> = changeEntry i f st"
  by (simp add: changeEntry_def)

lemma delete_change: "deletePending i (changeEntry i f st) = deletePending i st"
proof -
  have "AList.delete i (map (\<lambda>(k, e). (k, if k = i then f e else e)) m) = AList.delete i m" for m :: "(string, PendingEntry) omap"
    by (induction m) auto
  then show ?thesis by (simp add: deletePending_def changeEntry_def)
qed

text \<open>A state with the same keys and calls of entries, whose shape is again right.\<close>

definition sameCalls :: "Broker \<Rightarrow> Broker \<Rightarrow> bool" where
  "sameCalls st st' = (map fst (bk_pending st') = map fst (bk_pending st) \<and>
     map (\<lambda>x. pe_call (snd x)) (bk_pending st') = map (\<lambda>x. pe_call (snd x)) (bk_pending st) \<and>
     bk_admitting st' = bk_admitting st \<and> bk_suspended st' = bk_suspended st \<and> bk_nextCall st' = bk_nextCall st \<and>
     settledCalls (bk_log st') = settledCalls (bk_log st))"

lemma inv_reshape:
  assumes i: "inv cfg hand ids st" and same: "sameCalls st st'" and s: "shapeOk (map_of (bk_pending st')) (bk_queue st') (bk_commits st')"
    and o: "\<not> bc_observer cfg \<Longrightarrow> bk_commits st' = []"
  shows "inv cfg hand ids st'"
proof -
  have "length (bk_pending st') = length (bk_pending st)" using same unfolding sameCalls_def by (metis length_map)
  then show ?thesis using assms
    by (simp add: inv_def pendingInv_def admittingInv_def callTickets_def admissionTickets_def sameCalls_def)
qed

lemma sameCalls_refl [simp]: "sameCalls st st"
  by (simp add: sameCalls_def)

lemma sameCalls_trans: "sameCalls st st1 \<Longrightarrow> sameCalls st1 st2 \<Longrightarrow> sameCalls st st2"
  by (simp add: sameCalls_def)

lemma sameCalls_change: "(\<And>e. pe_call (f e) = pe_call e) \<Longrightarrow> sameCalls st (changeEntry i f st)"
  unfolding sameCalls_def changeEntry_def using calls_change [of f i "bk_pending st"] keys_change [of i f "bk_pending st"] by simp

lemma sameCalls_fields:
  "bk_pending st' = bk_pending st \<Longrightarrow> bk_admitting st' = bk_admitting st \<Longrightarrow> bk_suspended st' = bk_suspended st \<Longrightarrow>
   bk_nextCall st' = bk_nextCall st \<Longrightarrow> settledCalls (bk_log st') = settledCalls (bk_log st) \<Longrightarrow> sameCalls st st'"
  by (simp add: sameCalls_def)

lemma inv_shape: "inv cfg hand ids st \<Longrightarrow> shapeOk (map_of (bk_pending st)) (bk_queue st) (bk_commits st)"
  by (simp add: inv_def pendingInv_def)

lemma inv_commits: "inv cfg hand ids st \<Longrightarrow> \<not> bc_observer cfg \<Longrightarrow> bk_commits st = []"
  by (simp add: inv_def pendingInv_def)

lemma inv_show:
  assumes i: "inv cfg hand ids st"
  shows "inv cfg hand ids (showHead cfg' clk st)"
proof (cases "bk_queue st")
  case (Cons h q)
  show ?thesis
  proof (cases "h = [] \<or> map_of (bk_pending st) h = None \<or> (\<exists>e. map_of (bk_pending st) h = Some e \<and> pe_status e = Showing)")
    case False
    then obtain e where e: "map_of (bk_pending st) h = Some e" "pe_status e \<noteq> Showing" "h \<noteq> []" by auto
    let ?st = "changeEntry h (\<lambda>e. e\<lparr>pe_status := Showing\<rparr>) st"
    note s = inv_shape [OF i]
    have "pe_terminal e = None" using shape_queued [OF s e(1)] Cons by simp
    then have "entryOk h (e\<lparr>pe_status := Showing\<rparr>)" using shape_entry [OF s e(1)] by (simp add: entryOk_def)
    then have "shapeOk ((map_of (bk_pending st))(h := Some (e\<lparr>pe_status := Showing\<rparr>))) (bk_queue st) (bk_commits st)"
      using s e by (intro shape_change) simp_all
    then have "inv cfg hand ids ?st" using inv_commits [OF i] e(1)
      by (intro inv_reshape [OF i] sameCalls_change) (simp_all add: change_get)
    then have "inv cfg hand ids (logEffect (Notify n rq) (emitEvent cfg' ev ?st))" for n rq ev by (intro inv_log inv_emit) simp_all
    then show ?thesis using Cons e by (simp add: showHead_def)
  qed (use i Cons in \<open>auto simp: showHead_def\<close>)
qed (use i in \<open>simp add: showHead_def\<close>)

section \<open>Entries that end\<close>

lemma inv_keys: "inv cfg hand ids st \<Longrightarrow> distinct (map fst (bk_pending st))"
  by (simp add: inv_def pendingInv_def)

text \<open>An entry is taken out: its call is in hand.\<close>

lemma inv_take:
  assumes i: "inv cfg hand ids st" and e: "map_of (bk_pending st) j = Some e"
    and s: "shapeOk ((map_of (bk_pending st))(j := None)) q cs" and o: "\<not> bc_observer cfg \<Longrightarrow> cs = []"
  shows "inv cfg (add_mset (pe_call e) hand) ids (st\<lparr>bk_pending := AList.delete j (bk_pending st), bk_queue := q, bk_commits := cs\<rparr>)"
proof -
  let ?m = "bk_pending st"
  have "map_of (AList.delete j ?m) = (map_of ?m)(j := None)" by (rule delete_conv')
  moreover have "length (AList.delete j ?m) \<le> length ?m" by (rule length_delete)
  moreover have "set (map fst (AList.delete j ?m)) \<subseteq> set (map fst ?m)" using delete_keys [of j ?m] by auto
  ultimately show ?thesis using i s o keys_delete [OF inv_keys [OF i], of j] calls_delete [OF inv_keys [OF i] e]
    unfolding inv_def pendingInv_def admittingInv_def callTickets_def admissionTickets_def by auto
qed

lemma inv_finish:
  assumes "inv cfg (add_mset (pe_call e) hand) ids st"
  shows "inv cfg hand ids (finishEntry cfg' clk e t st)"
  unfolding finishEntry_def by (intro inv_show inv_emit inv_settle inv_mark assms)

lemma complete_unfold:
  "removeFromQueue i (deletePending i (clearExpireTimer i st)) =
     st\<lparr>bk_pending := AList.delete i (bk_pending st), bk_queue := remove1 i (bk_queue st)\<rparr>"
  by (simp add: clearExpireTimer_def delete_change) (simp add: removeFromQueue_def deletePending_def)

lemma inv_complete:
  assumes i: "inv cfg hand ids st" and o: "\<not> bc_observer cfg" and e: "map_of (bk_pending st) j = Some e"
  shows "inv cfg hand ids (completeImmediately cfg clk e t st)"
proof -
  note s = inv_shape [OF i]
  have j: "cq_id (pe_request e) = j" using shape_entry [OF s e] by (simp add: entryOk_def)
  have cs: "bk_commits st = []" using inv_commits [OF i o] .
  have "pe_terminal e = None" using s e cs by (cases "pe_terminal e") (auto simp: shapeOk_def commitsOk_def)
  then have "shapeOk ((map_of (bk_pending st))(j := None)) (remove1 j (bk_queue st)) (bk_commits st)" using s e by (intro shape_drop)
  from inv_take [OF i e this cs]
  have "inv cfg (add_mset (pe_call e) hand) ids (removeFromQueue j (deletePending j (clearExpireTimer j st)))"
    unfolding complete_unfold by (elim inv_cong) simp_all
  then show ?thesis unfolding completeImmediately_def Let_def j by (rule inv_finish)
qed

section \<open>Terminal requests\<close>

lemma start_pending:
  "map_of (bk_pending (changeEntry i f (removeFromQueue i (clearExpireTimer i st)))) =
     (map_of (bk_pending st))(i := map_option (\<lambda>e. f (e\<lparr>pe_expireTimer := False\<rparr>)) (map_of (bk_pending st) i))"
  by (simp add: change_get removeFromQueue_def clearExpireTimer_def option.map_comp comp_def)

lemma inv_start:
  assumes i: "inv cfg hand ids st" and o: "bc_observer cfg" and e: "map_of (bk_pending st) j = Some e" "pe_terminal e = None"
  shows "inv cfg hand ids (startTerminal e t st)"
proof -
  note s = inv_shape [OF i]
  have j: "cq_id (pe_request e) = j" and ok: "entryOk j e" using shape_entry [OF s e(1)] by (simp_all add: entryOk_def)
  let ?f = "\<lambda>e. e\<lparr>pe_status := Resolving, pe_terminal := Some t\<rparr>"
  let ?st = "(changeEntry j ?f (removeFromQueue j (clearExpireTimer j st)))\<lparr>bk_commits := bk_commits st @ [(pe_call e, j, t)]\<rparr>"
  let ?e = "e\<lparr>pe_expireTimer := False, pe_status := Resolving, pe_terminal := Some t\<rparr>"
  have "shapeOk ((map_of (bk_pending st))(j := Some ?e)) (remove1 j (bk_queue st)) (bk_commits st @ [(pe_call e, j, t)])"
    using s e ok by (intro shape_start) (simp_all add: entryOk_def)
  moreover have "map_of (bk_pending ?st) = (map_of (bk_pending st))(j := Some ?e)" by (simp add: start_pending e)
  moreover have "bk_queue ?st = remove1 j (bk_queue st)" by (simp add: removeFromQueue_def clearExpireTimer_def)
  moreover have "sameCalls st (clearExpireTimer j st)" unfolding clearExpireTimer_def by (rule sameCalls_change) simp
  then have "sameCalls st (removeFromQueue j (clearExpireTimer j st))" by (rule sameCalls_trans) (simp add: sameCalls_def removeFromQueue_def)
  then have "sameCalls st (changeEntry j ?f (removeFromQueue j (clearExpireTimer j st)))"
    by (rule sameCalls_trans) (rule sameCalls_change, simp)
  then have "sameCalls st ?st" by (rule sameCalls_trans) (simp add: sameCalls_def)
  ultimately have "inv cfg hand ids ?st" using o by (intro inv_reshape [OF i]) simp_all
  then show ?thesis using e j by (simp add: startTerminal_def Let_def)
qed

lemma inv_defer:
  assumes i: "inv cfg hand ids st" and o: "bc_observer cfg" and e: "map_of (bk_pending st) j = Some e" "pe_terminal e \<noteq> None"
  shows "inv cfg hand ids (changeEntry j (\<lambda>e. e\<lparr>pe_deferredTerminal := g e\<rparr>) st)"
proof -
  note s = inv_shape [OF i]
  have "entryOk j (e\<lparr>pe_deferredTerminal := g e\<rparr>)" using shape_entry [OF s e(1)] e(2) by (simp add: entryOk_def)
  then have "shapeOk ((map_of (bk_pending st))(j := Some (e\<lparr>pe_deferredTerminal := g e\<rparr>))) (bk_queue st) (bk_commits st)"
    using s e by (intro shape_change) simp_all
  then show ?thesis using e o by (intro inv_reshape [OF i] sameCalls_change) (simp_all add: change_get)
qed

text \<open>
  Clearing the timer of an entry that is being resolved and taking it out of the queue
  changes nothing, because it has no timer and is not queued.
\<close>

lemma inv_unqueue:
  assumes i: "inv cfg hand ids st" and o: "bc_observer cfg" and e: "map_of (bk_pending st) j = Some e" "pe_terminal e \<noteq> None"
  shows "inv cfg hand ids (removeFromQueue j (clearExpireTimer j st))"
proof -
  note s = inv_shape [OF i]
  have "entryOk j (e\<lparr>pe_expireTimer := False\<rparr>)" using shape_entry [OF s e(1)] e(2) by (simp add: entryOk_def)
  then have "shapeOk ((map_of (bk_pending st))(j := Some (e\<lparr>pe_expireTimer := False\<rparr>))) (bk_queue st) (bk_commits st)"
    using s e by (intro shape_change) simp_all
  then have "inv cfg hand ids (clearExpireTimer j st)" using e o unfolding clearExpireTimer_def
    by (intro inv_reshape [OF i] sameCalls_change) (simp_all add: change_get)
  moreover have "remove1 j (bk_queue st) = bk_queue st" using shape_queued [OF s e(1)] e(2) by (simp add: remove1_idem)
  then have "removeFromQueue j (clearExpireTimer j st) = clearExpireTimer j st"
    by (simp add: removeFromQueue_def clearExpireTimer_def same_queue)
  ultimately show ?thesis by simp
qed

section \<open>Commits that are over\<close>

lemma find_commit:
  "List.find (\<lambda>(c', _). c' = c) cs = Some (c', i, t) \<Longrightarrow> c' = c \<and> (c, i, t) \<in> set cs"
  using find_Some_mem [of "\<lambda>(c', _). c' = c" cs "(c', i, t)"] by auto

lemma inv_committed:
  assumes i: "inv cfg hand ids st" and c: "(c, j, t) \<in> set (bk_commits st)"
  obtains e where "map_of (bk_pending st) j = Some e" "pe_call e = c" "pe_terminal e = Some t" "bc_observer cfg" "entryOk j e"
proof -
  obtain e where e: "map_of (bk_pending st) j = Some e" "pe_call e = c" "pe_terminal e = Some t"
    using shape_commit [OF inv_shape [OF i] c] by blast
  moreover have "bc_observer cfg" using inv_commits [OF i] c by (cases "bc_observer cfg") auto
  ultimately show thesis using that shape_entry [OF inv_shape [OF i] e(1)] by blast
qed

lemma inv_stored:
  assumes i: "inv cfg hand ids st" and c: "(c, j, t) \<in> set (bk_commits st)"
  shows "inv cfg hand ids (commitStored cfg clk c j t (st\<lparr>bk_commits := remove1 (c, j, t) (bk_commits st)\<rparr>))"
proof -
  obtain e where e: "map_of (bk_pending st) j = Some e" "pe_call e = c" "pe_terminal e = Some t" "bc_observer cfg" "entryOk j e"
    using inv_committed [OF i c] .
  let ?st = "logEffect (Stored c (tr_decision t) (tr_source t)) (st\<lparr>bk_commits := remove1 (c, j, t) (bk_commits st)\<rparr>)"
  have "shapeOk ((map_of (bk_pending st))(j := None)) (bk_queue st) (remove1 (pe_call e, j, t) (bk_commits st))"
    using inv_shape [OF i] e by (intro shape_finish)
  from inv_take [OF i e(1) this] e(4) have "inv cfg (add_mset c hand) ids
      (st\<lparr>bk_pending := AList.delete j (bk_pending st), bk_queue := bk_queue st, bk_commits := remove1 (c, j, t) (bk_commits st)\<rparr>)"
    by (simp add: e(2))
  then have "inv cfg (add_mset (pe_call e) hand) ids (deletePending j ?st)"
    unfolding e(2) by (rule inv_cong) (simp_all add: deletePending_def logEffect_def)
  then show ?thesis using e inv_finish by (simp add: commitStored_def Let_def)
qed

lemma failed_cases:
  assumes "map_of (bk_pending st) j = Some e" "pe_call e = c" "entryOk j e"
  shows "commitFailed cfg clk c j t st =
    (case pe_deferredTerminal e of
       Some u \<Rightarrow> (changeEntry j (\<lambda>e. e\<lparr>pe_terminal := None, pe_deferredTerminal := None, pe_expireTimer := False, pe_status := Resolving,
                    pe_terminal := Some u\<rparr>) st)\<lparr>bk_queue := remove1 j (bk_queue st), bk_commits := bk_commits st @ [(c, j, u)]\<rparr>
     | None \<Rightarrow>
         if tr_requeueOnFailure t
         then showHead cfg clk ((changeEntry j (\<lambda>e. e\<lparr>pe_terminal := None, pe_deferredTerminal := None, pe_status := Queued, pe_expireTimer := True\<rparr>) st)
                \<lparr>bk_queue := (if j \<in> set (bk_queue st) then bk_queue st else j # bk_queue st)\<rparr>)
         else showHead cfg clk (logEffect (Settled c Rejected) (deletePending j st)))"
proof -
  have "cq_id (pe_request e) = j" using assms(3) by (simp add: entryOk_def)
  then show ?thesis using assms(1,2)
    by (cases "pe_deferredTerminal e")
      (simp_all add: commitFailed_def startTerminal_def Let_def change_get change_change change_commute delete_change removeFromQueue_def
        clearExpireTimer_def scheduleExpiry_def same_queue)
qed

lemma inv_failed:
  assumes i: "inv cfg hand ids st" and c: "(c, j, t) \<in> set (bk_commits st)"
  shows "inv cfg hand ids (commitFailed cfg clk c j t (st\<lparr>bk_commits := remove1 (c, j, t) (bk_commits st)\<rparr>))"
proof -
  obtain e where e: "map_of (bk_pending st) j = Some e" "pe_call e = c" "pe_terminal e = Some t" "bc_observer cfg" "entryOk j e"
    using inv_committed [OF i c] .
  let ?st = "st\<lparr>bk_commits := remove1 (c, j, t) (bk_commits st)\<rparr>"
  note s = inv_shape [OF i]
  have j: "j \<notin> set (bk_queue st)" using shape_queued [OF s e(1)] e(3) by simp
  have cases: "commitFailed cfg clk c j t ?st = (case pe_deferredTerminal e of
       Some u \<Rightarrow> (changeEntry j (\<lambda>e. e\<lparr>pe_terminal := None, pe_deferredTerminal := None, pe_expireTimer := False, pe_status := Resolving,
                    pe_terminal := Some u\<rparr>) ?st)\<lparr>bk_queue := remove1 j (bk_queue ?st), bk_commits := bk_commits ?st @ [(c, j, u)]\<rparr>
     | None \<Rightarrow>
         if tr_requeueOnFailure t
         then showHead cfg clk ((changeEntry j (\<lambda>e. e\<lparr>pe_terminal := None, pe_deferredTerminal := None, pe_status := Queued, pe_expireTimer := True\<rparr>) ?st)
                \<lparr>bk_queue := (if j \<in> set (bk_queue ?st) then bk_queue ?st else j # bk_queue ?st)\<rparr>)
         else showHead cfg clk (logEffect (Settled c Rejected) (deletePending j ?st)))"
    using e by (intro failed_cases) simp_all
  show ?thesis
  proof (cases "pe_deferredTerminal e")
    case (Some u)
    let ?f = "\<lambda>e. e\<lparr>pe_terminal := None, pe_deferredTerminal := None, pe_expireTimer := False, pe_status := Resolving, pe_terminal := Some u\<rparr>"
    let ?st' = "(changeEntry j ?f ?st)\<lparr>bk_queue := remove1 j (bk_queue ?st), bk_commits := bk_commits ?st @ [(c, j, u)]\<rparr>"
    have "shapeOk ((map_of (bk_pending st))(j := Some (?f e))) (bk_queue st) (remove1 (pe_call e, j, t) (bk_commits st) @ [(pe_call e, j, u)])"
      using s e by (intro shape_restart) (simp_all add: entryOk_def)
    then have "shapeOk (map_of (bk_pending ?st')) (bk_queue ?st') (bk_commits ?st')" using e j by (simp add: change_get remove1_idem)
    moreover have "sameCalls st ?st'"
      by (rule sameCalls_trans [of st ?st]) (simp add: sameCalls_def, rule sameCalls_trans [OF sameCalls_change [of ?f]], simp_all add: sameCalls_def)
    ultimately have "inv cfg hand ids ?st'" using e(4) by (intro inv_reshape [OF i]) simp_all
    then show ?thesis unfolding cases Some by simp
  next
    case None
    show ?thesis
    proof (cases "tr_requeueOnFailure t")
      case True
      let ?f = "\<lambda>e. e\<lparr>pe_terminal := None, pe_deferredTerminal := None, pe_status := Queued, pe_expireTimer := True\<rparr>"
      let ?st' = "(changeEntry j ?f ?st)\<lparr>bk_queue := j # bk_queue st\<rparr>"
      have "shapeOk ((map_of (bk_pending st))(j := Some (?f e))) (j # bk_queue st) (remove1 (pe_call e, j, t) (bk_commits st))"
        using s e by (intro shape_requeue) (simp_all add: entryOk_def)
      then have "shapeOk (map_of (bk_pending ?st')) (bk_queue ?st') (bk_commits ?st')" using e by (simp add: change_get)
      moreover have "sameCalls st ?st'"
        by (rule sameCalls_trans [of st ?st]) (simp add: sameCalls_def, rule sameCalls_trans [OF sameCalls_change [of ?f]], simp_all add: sameCalls_def)
      ultimately have "inv cfg hand ids ?st'" using e(4) by (intro inv_reshape [OF i]) simp_all
      then show ?thesis unfolding cases None using True j by (simp add: inv_show)
    next
      case False
      have "shapeOk ((map_of (bk_pending st))(j := None)) (bk_queue st) (remove1 (pe_call e, j, t) (bk_commits st))"
        using s e by (intro shape_finish)
      from inv_take [OF i e(1) this] e(4) have "inv cfg (add_mset c hand) ids
          (st\<lparr>bk_pending := AList.delete j (bk_pending st), bk_queue := bk_queue st, bk_commits := remove1 (c, j, t) (bk_commits st)\<rparr>)"
        by (simp add: e(2))
      then have "inv cfg (add_mset c hand) ids (deletePending j ?st)" by (rule inv_cong) (simp_all add: deletePending_def)
      then have "inv cfg hand ids (logEffect (Settled c Rejected) (deletePending j ?st))" by (rule inv_settle)
      then show ?thesis unfolding cases None using False by (simp add: inv_show)
    qed
  qed
qed

lemma inv_commitSettles: "inv cfg hand ids st \<Longrightarrow> inv cfg hand ids (commitSettles cfg clk c stored st)"
proof (cases "List.find (\<lambda>(c', _). c' = c) (bk_commits st)")
  case (Some x)
  assume i: "inv cfg hand ids st"
  obtain c' j t where x: "x = (c', j, t)" by (cases x)
  then have "c' = c" "(c, j, t) \<in> set (bk_commits st)" using find_commit [of c "bk_commits st" c' j t] Some by simp_all
  then show ?thesis using inv_stored [OF i] inv_failed [OF i] Some x by (simp add: commitSettles_def Let_def)
qed (simp add: commitSettles_def)

section \<open>Suspended calls\<close>

lemma inv_susp_keys: "inv cfg hand ids st \<Longrightarrow> distinct (map fst (bk_suspended st))"
proof -
  assume i: "inv cfg hand ids st"
  have "mset [0..<bk_nextCall st] = mset (map fst (bk_suspended st)) +
      (mset (map (\<lambda>x. pe_call (snd x)) (bk_pending st)) + mset (settledCalls (bk_log st)) + hand)"
    using i by (simp only: inv_def callTickets_def union_assoc)
  then have "mset (map fst (bk_suspended st)) \<subseteq># mset [0..<bk_nextCall st]" by (metis mset_subset_eq_add_left)
  then show ?thesis by (rule distinct_subseteq) simp
qed

lemma delete_admissions:
  "distinct (map fst m) \<Longrightarrow> map_of m c = Some s \<Longrightarrow>
   mset (concat (map (\<lambda>x. admissionId (snd x)) m)) =
     mset (admissionId s) + mset (concat (map (\<lambda>x. admissionId (snd x)) (AList.delete c m)))"
proof (induction m)
  case (Cons x m)
  have del: "AList.delete c m = m" if "fst x = c" using that Cons.prems(1) by (intro delete_id) auto
  then show ?case using Cons by (cases x) (auto simp: ac_simps)
qed simp

lemma inv_resume:
  assumes i: "inv cfg {#} {#} st" and c: "map_of (bk_suspended st) c = Some s"
  shows "inv cfg {#c#} (mset (admissionId s)) (st\<lparr>bk_suspended := AList.delete c (bk_suspended st)\<rparr>)"
  using i delete_mset_keys [OF inv_susp_keys [OF i] c] delete_admissions [OF inv_susp_keys [OF i] c]
  by (simp add: inv_def pendingInv_def admittingInv_def callTickets_def admissionTickets_def union_commute)

lemma inv_suspend: "inv cfg {#c#} (mset (admissionId s)) st \<Longrightarrow> inv cfg {#} {#} (suspend c s st)"
  by (simp add: inv_def pendingInv_def admittingInv_def callTickets_def admissionTickets_def suspend_def)

lemma inv_deleteAdmitting:
  assumes i: "inv cfg hand {#j#} st"
  shows "inv cfg hand {#} (deleteAdmitting j st)" and "map_of (bk_pending (deleteAdmitting j st)) j = None"
    and "j \<notin> set (map fst (bk_admitting (deleteAdmitting j st)))"
proof -
  have d: "distinct (map fst (bk_admitting st))" using i by (simp add: inv_def admittingInv_def)
  have "mset (map fst (bk_admitting st)) = admissionTickets st + {#j#}" using i by (simp only: inv_def)
  then have mem: "j \<in> set (map fst (bk_admitting st))" by (metis multi_member_last set_mset_mset union_iff)
  then obtain v where "map_of (bk_admitting st) j = Some v" by (metis map_of_eq_None_iff not_None_eq list.set_map)
  from delete_mset_keys [OF d this] have t: "mset (map fst (bk_admitting st)) = add_mset j (mset (map fst (AList.delete j (bk_admitting st))))" .
  have sub: "set (map fst (AList.delete j (bk_admitting st))) \<subseteq> set (map fst (bk_admitting st))" using delete_keys [of j "bk_admitting st"] by auto
  show "inv cfg hand {#} (deleteAdmitting j st)" using i t sub keys_delete [OF d, of j]
    by (auto simp: inv_def pendingInv_def admittingInv_def callTickets_def admissionTickets_def deleteAdmitting_def)
  show "map_of (bk_pending (deleteAdmitting j st)) j = None" using i mem
    by (auto simp: inv_def admittingInv_def deleteAdmitting_def map_of_eq_None_iff)
  show "j \<notin> set (map fst (bk_admitting (deleteAdmitting j st)))" by (simp add: deleteAdmitting_def delete_keys)
qed

section \<open>Requests\<close>

lemma hand_fresh:
  assumes i: "inv cfg {#c#} ids st" and e: "map_of (bk_pending st) j = Some e"
  shows "pe_call e \<noteq> c"
proof
  assume c: "pe_call e = c"
  have "(j, e) \<in> set (bk_pending st)" using e by (rule map_of_SomeD)
  then have "c \<in># mset (map (\<lambda>x. pe_call (snd x)) (bk_pending st))" using c by force
  then have "2 \<le> count (callTickets st + {#c#}) c" by (simp add: callTickets_def Suc_le_eq)
  moreover have "count (mset [0..<bk_nextCall st]) c \<le> 1" by (rule count_upt)
  moreover have "callTickets st + {#c#} = mset [0..<bk_nextCall st]" using i by (simp only: inv_def)
  ultimately show False by (metis Suc_1 not_less_eq_eq)
qed

lemma inv_enqueue:
  assumes i: "inv cfg {#c#} {#} st" and n: "map_of (bk_pending st) (cq_id rq) = None" "cq_id rq \<notin> set (map fst (bk_admitting st))"
    and l: "\<not> int (length (bk_pending st)) \<ge> bc_maxQueueDepth cfg"
  shows "inv cfg {#} {#} (enqueueRequest cfg clk c rq st)"
proof -
  let ?j = "cq_id rq" and ?q = "bk_queue st @ [cq_id rq]"
  let ?entry = "\<lparr>pe_request = rq, pe_status = Queued, pe_createdAt = clk 3, pe_expireTimer = False, pe_call = c,
    pe_terminal = None, pe_deferredTerminal = None\<rparr>"
  let ?armed = "?entry\<lparr>pe_expireTimer := True\<rparr>"
  let ?ev = "EvRequested ?j (cq_tool rq) (cq_operationClass rq) (cq_riskLevel rq) (length ?q) (clk 4)"
  let ?st1 = "st\<lparr>bk_pending := omap_set ?j ?entry (bk_pending st), bk_queue := ?q\<rparr>"
  let ?st3 = "scheduleExpiry ?j (emitEvent cfg ?ev ?st1)"
  have set: "omap_set ?j e (bk_pending st) = bk_pending st @ [(?j, e)]" for e using n(1) by (rule set_new_key)
  have nin: "?j \<notin> set (map fst (bk_pending st))" using n(1) by (simp add: map_of_eq_None_iff)
  have chg: "map (\<lambda>(k, e). (k, if k = ?j then f e else e)) (bk_pending st) = bk_pending st" for f
    using nin by (intro map_idI) (force split: prod.splits)
  have p: "bk_pending ?st3 = bk_pending st @ [(?j, ?armed)]" by (simp add: scheduleExpiry_def changeEntry_def set chg)
  have rest: "bk_queue ?st3 = ?q" "bk_commits ?st3 = bk_commits st" "bk_admitting ?st3 = bk_admitting st" "bk_suspended ?st3 = bk_suspended st"
    "bk_nextCall ?st3 = bk_nextCall st" "settledCalls (bk_log ?st3) = settledCalls (bk_log st)"
    by (simp_all add: scheduleExpiry_def emitEvent_def logEffect_def)
  have get: "map_of (bk_pending ?st3) = (map_of (bk_pending st))(?j := Some ?armed)" unfolding p using n(1) by (auto simp: map_add_def split: option.splits)
  have "shapeOk ((map_of (bk_pending st))(?j := Some ?armed)) ?q (bk_commits st)"
    using inv_shape [OF i] n(1) hand_fresh [OF i] by (intro shape_insert) (simp_all add: entryOk_def)
  then have "pendingInv cfg ?st3" using i l nin unfolding pendingInv_def get rest unfolding p by (simp add: inv_def pendingInv_def)
  then have "inv cfg {#} {#} ?st3" using i n(2) nin unfolding inv_def admittingInv_def callTickets_def admissionTickets_def rest p by simp
  then show ?thesis unfolding enqueueRequest_def Let_def by (simp add: inv_show del: emitEvent_def)
qed

lemma inv_proceed:
  assumes "inv cfg {#c#} {#} st" and "map_of (bk_pending st) (cq_id rq) = None" "cq_id rq \<notin> set (map fst (bk_admitting st))"
  shows "inv cfg {#} {#} (proceed cfg clk c rq durable st)"
  using assms inv_enqueue [OF assms] inv_suspend [of cfg c _ st] by (simp add: proceed_def)

lemma inv_request: "inv cfg {#} {#} st \<Longrightarrow> inv cfg {#} {#} (requestConfirmation cfg clk rq st)"
proof -
  assume "inv cfg {#} {#} st"
  then have i: "inv cfg {#bk_nextCall st#} {#} (st\<lparr>bk_nextCall := Suc (bk_nextCall st)\<rparr>)" (is "inv cfg ?c {#} ?st") by (rule inv_next)
  show ?thesis
  proof (cases "omap_get (bk_admitting st) (cq_id rq) \<noteq> None \<or> omap_get (bk_pending st) (cq_id rq) \<noteq> None \<or> omap_get (bk_resolvedRecent st) (cq_id rq) \<noteq> None")
    case True
    have "inv cfg {#} {#} (logEffect (Settled (bk_nextCall st) Rejected) ?st)" by (rule inv_settle) (use i in simp)
    then show ?thesis using True by (simp add: requestConfirmation_def Let_def)
  next
    case False
    then have n: "map_of (bk_pending ?st) (cq_id rq) = None" "cq_id rq \<notin> set (map fst (bk_admitting ?st))" by (simp_all add: map_of_eq_None_iff)
    have "inv cfg ?c {#cq_id rq#} (?st\<lparr>bk_admitting := omap_set (cq_id rq) None (bk_admitting st)\<rparr>)"
      using i n False by (simp add: inv_def pendingInv_def admittingInv_def callTickets_def admissionTickets_def set_new_key map_of_eq_None_iff)
    then have "inv cfg {#} {#} (suspend (bk_nextCall st) (AwaitBefore rq) (?st\<lparr>bk_admitting := omap_set (cq_id rq) None (bk_admitting st)\<rparr>))"
      by (intro inv_suspend) simp
    then show ?thesis using False inv_proceed [OF i n] by (simp add: requestConfirmation_def Let_def)
  qed
qed

lemma inv_afterBefore:
  assumes i: "inv cfg {#c#} {#cq_id rq#} st"
  shows "inv cfg {#} {#} (afterBefore cfg clk c rq answer st)"
proof (cases answer)
  case BeforeThrows
  then show ?thesis using inv_settle [of cfg c "{#}"] inv_deleteAdmitting(1) [OF i] by (simp add: afterBefore_def)
next
  case (NotAccepted cause)
  have "inv cfg {#c#} {#cq_id rq#} (emitEvent cfg ev (markResolved clk k d (logEffect (Refused c d) st)))" for ev k d
    by (intro inv_emit inv_mark inv_log i) simp
  from inv_deleteAdmitting(1) [OF this] show ?thesis using NotAccepted inv_settle [of cfg c "{#}"] by (simp add: afterBefore_def Let_def)
next
  case (Accepted durable)
  have "inv cfg {#} {#} (suspend c (AwaitCancelled rq cause) st)" for cause by (rule inv_suspend) (use i in simp)
  then show ?thesis using Accepted inv_proceed [OF inv_deleteAdmitting [OF i]] by (simp add: afterBefore_def Let_def split: option.splits)
qed

lemma inv_storedBy: "inv cfg hand ids st \<Longrightarrow> inv cfg hand ids (storedBy cfg' c d src st)"
  by (simp add: storedBy_def inv_log)

lemma inv_afterStored:
  assumes i: "inv cfg {#c#} (mset (admissionId s)) st" and s: "\<And>rq. s \<noteq> AwaitBefore rq"
  shows "inv cfg {#} {#} (afterStored cfg clk c s stored st)"
proof (cases s)
  case (AwaitCancelled rq cause)
  then have i': "inv cfg {#c#} {#cq_id rq#} st" using i by simp
  have "inv cfg {#c#} {#cq_id rq#} (emitEvent cfg ev (markResolved clk k d (storedBy cfg c d' src st)))" for ev k d d' src
    by (intro inv_emit inv_mark inv_storedBy i')
  from inv_deleteAdmitting(1) [OF this] inv_deleteAdmitting(1) [OF i'] show ?thesis
    using AwaitCancelled inv_settle [of cfg c "{#}"] by (simp add: Let_def)
next
  case (AwaitResolver rq d)
  then have i': "inv cfg {#c#} {#} st" using i by simp
  have "inv cfg {#c#} {#} (markResolved clk k d' (emitEvent cfg ev (storedBy cfg c d'' src st)))" for ev k d' d'' src
    by (intro inv_emit inv_mark inv_storedBy i')
  then show ?thesis using AwaitResolver i' inv_settle [of cfg c "{#}"] by (simp add: Let_def)
next
  case (AwaitBackpressure rq)
  then have i': "inv cfg {#c#} {#} st" using i by simp
  have "inv cfg {#c#} {#} (emitEvent cfg ev (markResolved clk k d' (storedBy cfg c d'' src st)))" for ev k d' d'' src
    by (intro inv_emit inv_mark inv_storedBy i')
  then show ?thesis using AwaitBackpressure i' inv_settle [of cfg c "{#}"] by (simp add: Let_def)
qed (use s in blast)

section \<open>Answers and cancellation\<close>

lemma inv_resolve: "inv cfg hand ids st \<Longrightarrow> resolve cfg clk j d st = Inr (st', b) \<Longrightarrow> inv cfg hand ids st'"
proof -
  assume i: "inv cfg hand ids st" and r: "resolve cfg clk j d st = Inr (st', b)"
  have a: "inv cfg hand ids (logEffect (Answered c d) st)" for c using i by (simp add: inv_log)
  show ?thesis
  proof (cases "omap_get (bk_pending st) j")
    case (Some e)
    have "inv cfg hand ids (completeImmediately cfg clk e t (logEffect (Answered c d) st))" if "\<not> bc_observer cfg" for t c
      using inv_complete [OF a that] Some by simp
    moreover have "inv cfg hand ids (startTerminal e t (logEffect (Answered c d) st))" if "bc_observer cfg" "pe_terminal e = None" for t c
      using inv_start [OF a that(1)] Some that(2) by simp
    ultimately show ?thesis using r i Some by (auto simp: resolve_def andThen_eq_Inr split: option.splits if_splits)
  qed (use r i in \<open>auto simp: resolve_def andThen_eq_Inr\<close>)
qed

lemma inv_resolveDurably: "inv cfg hand ids st \<Longrightarrow> resolveDurably cfg clk j d st = Inr (st', b) \<Longrightarrow> inv cfg hand ids st'"
proof -
  assume i: "inv cfg hand ids st" and r: "resolveDurably cfg clk j d st = Inr (st', b)"
  have a: "inv cfg hand ids (logEffect (Answered c d) st)" for c using i by (simp add: inv_log)
  show ?thesis
  proof (cases "omap_get (bk_pending st) j")
    case (Some e)
    have "inv cfg hand ids (startTerminal e t (logEffect (Answered c d) st))" if "bc_observer cfg" "pe_terminal e = None" for t c
      using inv_start [OF a that(1)] Some that(2) by simp
    then show ?thesis using r i Some inv_resolve [OF i] by (auto simp: resolveDurably_def andThen_eq_Inr split: option.splits if_splits)
  qed (use r i in \<open>auto simp: resolveDurably_def andThen_eq_Inr\<close>)
qed

lemma inv_resolveNonInteractive:
  "inv cfg hand ids st \<Longrightarrow> resolveNonInteractiveDurably cfg clk j st = Inr (st', b) \<Longrightarrow> inv cfg hand ids st'"
proof -
  assume i: "inv cfg hand ids st" and r: "resolveNonInteractiveDurably cfg clk j st = Inr (st', b)"
  show ?thesis
  proof (cases "omap_get (bk_pending st) j")
    case (Some e)
    then show ?thesis using r i inv_complete [OF i _ Some] inv_start [OF i _ Some]
      by (auto simp: resolveNonInteractiveDurably_def andThen_eq_Inr Let_def split: option.splits if_splits)
  qed (use r i in \<open>auto simp: resolveNonInteractiveDurably_def\<close>)
qed

lemma inv_admitting:
  assumes i: "inv cfg hand ids st" and j: "omap_get (bk_admitting st) j = Some held"
  shows "inv cfg hand ids (st\<lparr>bk_admitting := omap_set j v (bk_admitting st)\<rparr>)"
proof -
  have "map fst (omap_set j v (bk_admitting st)) = map fst (bk_admitting st)"
    using j by (simp add: update_keys map_of_eq_Some_iff) (metis domI dom_map_of_conv_image_fst list.set_map)
  then show ?thesis using i by (simp add: inv_def pendingInv_def admittingInv_def callTickets_def admissionTickets_def)
qed

lemma inv_cancel: "inv cfg hand ids st \<Longrightarrow> inv cfg hand ids (fst (cancel cfg clk j cause st))"
proof (cases "omap_get (bk_admitting st) j")
  case None
  assume i: "inv cfg hand ids st"
  show ?thesis
  proof (cases "omap_get (bk_pending st) j")
    case (Some e)
    have "inv cfg hand ids (removeFromQueue j (clearExpireTimer j (changeEntry j (\<lambda>e. e\<lparr>pe_deferredTerminal := g e\<rparr>) st)))"
      if "bc_observer cfg" "pe_terminal e = Some t" for g t
    proof -
      have "pe_terminal e \<noteq> None" using that(2) by simp
      from inv_defer [OF i that(1) Some this] show ?thesis
        by (rule inv_unqueue [OF _ that(1), where e = "e\<lparr>pe_deferredTerminal := g e\<rparr>"]) (simp_all add: change_get Some that(2))
    qed
    then show ?thesis using i None Some inv_complete [OF i _ Some] inv_start [OF i _ Some]
      by (auto simp: cancel_def split: option.splits)
  qed (use i None in \<open>simp add: cancel_def\<close>)
qed (simp add: cancel_def Let_def inv_admitting)

lemma inv_cancelEach: "inv cfg hand ids st \<Longrightarrow> inv cfg hand ids (fst (cancelEach cfg clk cause js st))"
proof (induction js arbitrary: st)
  case (Cons j js)
  obtain st1 b where c: "cancel cfg (clk j) j cause st = (st1, b)" by fastforce
  have "inv cfg hand ids st1" using inv_cancel [OF Cons.prems, of "clk j" j cause] c by simp
  then show ?case using Cons.IH [of st1] by (cases "cancelEach cfg clk cause js st1") (simp add: c)
qed simp

text \<open>A timer that fires is off already, which makes no difference to what follows.\<close>

lemma clear_clear: "clearExpireTimer j (clearExpireTimer j st) = clearExpireTimer j st"
  by (simp add: clearExpireTimer_def change_change)

lemma expire_cleared:
  assumes e: "omap_get (bk_pending st) j = Some e" "pe_terminal e = None" "cq_id (pe_request e) = j"
  shows "expire cfg clk j (clearExpireTimer j st) = expire cfg clk j st"
proof -
  have get: "omap_get (bk_pending (clearExpireTimer j st)) j = Some (e\<lparr>pe_expireTimer := False\<rparr>)" by (simp add: clearExpireTimer_def change_get e)
  have fin: "finishEntry cfg clk (e\<lparr>pe_expireTimer := False\<rparr>) t st' = finishEntry cfg clk e t st'" for t st' by (simp add: finishEntry_def)
  have same: "expireTerminal clk (e\<lparr>pe_expireTimer := False\<rparr>) = expireTerminal clk e" by (simp add: expireTerminal_def)
  have commits: "bk_commits (clearExpireTimer j st) = bk_commits st" by (simp add: clearExpireTimer_def)
  show ?thesis using e by (simp add: expire_def get same completeImmediately_def startTerminal_def fin clear_clear commits Let_def)
qed

lemma inv_expireTimer: "inv cfg hand ids st \<Longrightarrow> inv cfg hand ids (expireTimerFires cfg clk j st)"
proof (cases "omap_get (bk_pending st) j")
  case (Some e)
  assume i: "inv cfg hand ids st"
  show ?thesis
  proof (cases "pe_expireTimer e")
    case True
    have t: "pe_terminal e = None" "cq_id (pe_request e) = j" using shape_entry [OF inv_shape [OF i] Some] True by (simp_all add: entryOk_def)
    have "inv cfg hand ids (expire cfg clk j st)" using inv_complete [OF i _ Some] inv_start [OF i _ Some t(1)] Some t by (simp add: expire_def)
    then show ?thesis using Some True by (simp add: expireTimerFires_def expire_cleared [OF Some t])
  qed (use i Some in \<open>simp add: expireTimerFires_def\<close>)
qed (simp add: expireTimerFires_def)

section \<open>Runs\<close>

definition brokerOk :: "BrokerConfig \<Rightarrow> Broker \<Rightarrow> bool" where
  "brokerOk cfg st = inv cfg {#} {#} st"

lemma perform_ok: "brokerOk cfg st \<Longrightarrow> brokerOk cfg (performBroker cfg op st)"
proof -
  assume "brokerOk cfg st"
  then have i: "inv cfg {#} {#} st" by (simp add: brokerOk_def)
  have "inv cfg {#} {#} (performBroker cfg op st)"
  proof (cases op)
    case (OpBefore clk c answer)
    have "inv cfg {#} {#} (afterBefore cfg clk c rq answer (st\<lparr>bk_suspended := AList.delete c (bk_suspended st)\<rparr>))"
      if "omap_get (bk_suspended st) c = Some (AwaitBefore rq)" for rq
      using inv_resume [OF i that] inv_afterBefore by simp
    then show ?thesis using OpBefore i by (auto simp: resume_def split: option.splits Suspension.splits)
  next
    case (OpAfter clk c stored)
    have "inv cfg {#} {#} (afterStored cfg clk c s stored (st\<lparr>bk_suspended := AList.delete c (bk_suspended st)\<rparr>))"
      if "omap_get (bk_suspended st) c = Some s" "\<And>rq. s \<noteq> AwaitBefore rq" for s
      using inv_afterStored [OF inv_resume [OF i that(1)] that(2)] .
    then show ?thesis using OpAfter i by (auto simp: resume_def split: option.splits Suspension.splits)
  next
    case (OpResolve clk j d)
    then show ?thesis using inv_resolve [OF i] i by (auto simp: valueOr_def split: sum.splits)
  next
    case (OpResolveDurably clk j d)
    then show ?thesis using inv_resolveDurably [OF i] i by (auto simp: valueOr_def split: sum.splits)
  next
    case (OpResolveNonInteractive clk j)
    then show ?thesis using inv_resolveNonInteractive [OF i] i by (auto simp: valueOr_def split: sum.splits)
  next
    case (OpGraceTimer j)
    have "inv cfg {#} {#} (st\<lparr>bk_graceTimers := g, bk_resolvedRecent := r\<rparr>)" for g r by (rule inv_cong [OF i]) simp_all
    then show ?thesis using OpGraceTimer i by simp
  next
    case OpListen
    have "inv cfg {#} {#} (st\<lparr>bk_listeners := n\<rparr>)" for n by (rule inv_cong [OF i]) simp_all
    then show ?thesis using OpListen by simp
  next
    case OpUnlisten
    have "inv cfg {#} {#} (st\<lparr>bk_listeners := n\<rparr>)" for n by (rule inv_cong [OF i]) simp_all
    then show ?thesis using OpUnlisten by simp
  qed (use i in \<open>simp_all add: inv_request inv_commitSettles inv_cancel cancelAll_def inv_cancelEach inv_expireTimer\<close>)
  then show ?thesis by (simp add: brokerOk_def)
qed

lemma runs_ok: "brokerRun cfg st \<Longrightarrow> brokerOk cfg st"
  by (induction rule: brokerRun.induct) (simp_all add: brokerOk_def [of cfg newBroker] inv_new perform_ok)

end
