(* ===== verification/Confirmation_Audit.thy ===== *)
theory Confirmation_Audit
  imports Confirmation_Calls
begin

text \<open>
  What justifies a decision. Each decided call in the log is checked against the effects that
  came before it. The locale takes a justification \<open>J\<close> of decisions and a guarantee \<open>T\<close> of the
  terminal requests in flight, and asks for their laws at the few places where decisions
  enter; the operations are then audited once for all justifications.
\<close>

fun justified :: "(nat \<Rightarrow> ConfirmationDecision \<Rightarrow> BrokerEffect list \<Rightarrow> bool) \<Rightarrow> BrokerEffect list \<Rightarrow> bool" where
  "justified J [] = True"
| "justified J (Settled c (Decided d) # l) = (J c d l \<and> justified J l)"
| "justified J (x # l) = justified J l"

fun plain :: "BrokerEffect \<Rightarrow> bool" where
  "plain (Settled c (Decided d)) = False"
| "plain x = True"

lemma justified_plain: "plain x \<Longrightarrow> justified J (x # l) = justified J l"
  by (cases "(J, x # l)" rule: justified.cases) auto

lemma justified_plains: "\<forall>x \<in> set xs. plain x \<Longrightarrow> justified J (xs @ l) = justified J l"
  by (induction xs) (auto simp: justified_plain)

lemma justified_split: "justified J (l1 @ Settled c (Decided d) # l2) \<Longrightarrow> J c d l2"
proof (induction l1)
  case (Cons x l1)
  then show ?case by (cases "(J, x # l1)" rule: justified.cases) auto
qed simp

definition deferredOf :: "Broker \<Rightarrow> (nat \<times> TerminalRequest) set" where
  "deferredOf st = {(pe_call e, u) | i e u. (i, e) \<in> set (bk_pending st) \<and> pe_deferredTerminal e = Some u}"

lemma deferred_iff: "(c, u) \<in> deferredOf st \<longleftrightarrow> (\<exists>i e. (i, e) \<in> set (bk_pending st) \<and> pe_call e = c \<and> pe_deferredTerminal e = Some u)"
  by (auto simp: deferredOf_def)

lemma set_update_subset: "set (omap_set k v m) \<subseteq> insert (k, v) (set m)"
  by (induction m) auto

lemma deferred_log: "deferredOf (logEffect x st) = deferredOf st"
  by (simp add: deferredOf_def)

lemma deferred_change:
  assumes "(c, u) \<in> deferredOf (changeEntry i f st)"
  obtains j e where "(j, e) \<in> set (bk_pending st)" "pe_call (if j = i then f e else e) = c" "pe_deferredTerminal (if j = i then f e else e) = Some u"
  using assms by (auto simp: deferred_iff changeEntry_def)

section \<open>Quiet changes\<close>

definition quiet :: "Broker \<Rightarrow> Broker \<Rightarrow> bool" where
  "quiet st st' =
     ((\<exists>xs. bk_log st' = xs @ bk_log st \<and> (\<forall>x \<in> set xs. plain x)) \<and> set (bk_commits st') \<subseteq> set (bk_commits st) \<and>
      set (bk_suspended st') \<subseteq> set (bk_suspended st) \<and> deferredOf st' \<subseteq> deferredOf st)"

lemma quiet_refl [simp]: "quiet st st"
  by (simp add: quiet_def)

lemma quiet_trans: "quiet st1 st2 \<Longrightarrow> quiet st2 st3 \<Longrightarrow> quiet st1 st3"
  unfolding quiet_def by (fastforce intro!: exI [of _ "_ @ _"])

lemma quiet_log: "plain x \<Longrightarrow> quiet st (logEffect x st)"
  unfolding quiet_def deferredOf_def by (auto intro!: exI [of _ "[x]"])

lemma quiet_emit: "quiet st (emitEvent cfg ev st)"
  by (simp add: emitEvent_def quiet_log)

lemma quiet_fields:
  "bk_log st' = bk_log st \<Longrightarrow> bk_commits st' = bk_commits st \<Longrightarrow> bk_suspended st' = bk_suspended st \<Longrightarrow>
   set (bk_pending st') \<subseteq> set (bk_pending st) \<Longrightarrow> quiet st st'"
  unfolding quiet_def deferredOf_def by auto

lemma quiet_mark: "quiet st (markResolved clk i d st)"
  unfolding markResolved_def by (rule quiet_trans [OF quiet_fields quiet_log]) simp_all

lemma quiet_delete: "quiet st (deletePending i st)"
  by (rule quiet_fields) (auto simp: deletePending_def AList.delete_eq)

lemma quiet_admitting: "quiet st (deleteAdmitting i st)"
  by (rule quiet_fields) (simp_all add: deleteAdmitting_def)

lemma quiet_queue: "quiet st (removeFromQueue i st)"
  by (rule quiet_fields) (simp_all add: removeFromQueue_def)

lemma quiet_change:
  assumes "\<And>e. pe_call (f e) = pe_call e" "\<And>e. pe_deferredTerminal (f e) = pe_deferredTerminal e \<or> pe_deferredTerminal (f e) = None"
  shows "quiet st (changeEntry i f st)"
proof -
  have "(c, u) \<in> deferredOf st" if d: "(c, u) \<in> deferredOf (changeEntry i f st)" for c u
  proof -
    obtain j e where e: "(j, e) \<in> set (bk_pending st)" "pe_call (if j = i then f e else e) = c" "pe_deferredTerminal (if j = i then f e else e) = Some u"
      using deferred_change [OF d] .
    then have "pe_call e = c \<and> pe_deferredTerminal e = Some u" using assms [of e] by (cases "j = i") auto
    then show ?thesis using e(1) by (auto simp: deferred_iff)
  qed
  then show ?thesis by (auto simp: quiet_def)
qed

lemma quiet_clear: "quiet st (clearExpireTimer i st)"
  unfolding clearExpireTimer_def by (rule quiet_change) simp_all

lemma quiet_show: "quiet st (showHead cfg clk st)"
proof -
  have "quiet st (logEffect (Notify n rq) (emitEvent cfg ev (changeEntry h (\<lambda>e. e\<lparr>pe_status := Showing\<rparr>) st)))" for n rq ev h
    by (rule quiet_trans [OF quiet_change quiet_trans [OF quiet_emit quiet_log]]) simp_all
  then show ?thesis by (auto simp: showHead_def split: list.splits option.splits)
qed

lemma quiet_storedBy: "quiet st (storedBy cfg c d src st)"
  by (simp add: storedBy_def quiet_log)

section \<open>Audits\<close>

locale settlement_audit =
  fixes cfg :: BrokerConfig
    and J :: "nat \<Rightarrow> ConfirmationDecision \<Rightarrow> BrokerEffect list \<Rightarrow> bool"
    and T :: "nat \<Rightarrow> TerminalRequest \<Rightarrow> BrokerEffect list \<Rightarrow> bool"
  assumes J_grows: "J c d l \<Longrightarrow> J c d (x # l)"
    and T_grows: "T c t l \<Longrightarrow> T c t (x # l)"
    and surface: "isOk (validateConfirmationDecisionText d) \<Longrightarrow> T c (surfaceTerminal clk e d requeue) (Answered c d # l)"
    and resolver: "T c (resolverTerminal cfg (ni_resolve (bc_resolver cfg) rq)) l"
    and cancelled: "T c (cancelTerminal cause) l"
    and expired: "T c (expireTerminal clk e) l"
    and immediate: "\<not> bc_observer cfg \<Longrightarrow> T c t l \<Longrightarrow> J c (tr_decision t) l"
    and committed: "T c t l \<Longrightarrow> J c (tr_decision t) (Stored c (tr_decision t) (tr_source t) # l)"
    and refused: "J c (DecisionCancelled cause) (Refused c (DecisionCancelled cause) # l)"
    and stored_cancel: "J c (DecisionCancelled cause) (bk_log (storedBy cfg c (DecisionCancelled cause) src st))"
    and stored_resolver: "J c (ni_resolve (bc_resolver cfg) rq) (bk_log (storedBy cfg c (ni_resolve (bc_resolver cfg) rq) src st))"
begin

definition audited :: "Broker \<Rightarrow> bool" where
  "audited st = (justified J (bk_log st) \<and> (\<forall>c i t. (c, i, t) \<in> set (bk_commits st) \<longrightarrow> T c t (bk_log st)) \<and>
     (\<forall>c u. (c, u) \<in> deferredOf st \<longrightarrow> T c u (bk_log st)) \<and>
     (\<forall>c rq d. (c, AwaitResolver rq d) \<in> set (bk_suspended st) \<longrightarrow> d = ni_resolve (bc_resolver cfg) rq))"

lemma J_grow: "J c d l \<Longrightarrow> J c d (xs @ l)"
  by (induction xs) (simp_all add: J_grows)

lemma T_grow: "T c t l \<Longrightarrow> T c t (xs @ l)"
  by (induction xs) (simp_all add: T_grows)

lemma J_quiet: "quiet st st' \<Longrightarrow> J c d (bk_log st) \<Longrightarrow> J c d (bk_log st')"
  unfolding quiet_def using J_grow by fastforce

lemma T_quiet: "quiet st st' \<Longrightarrow> T c t (bk_log st) \<Longrightarrow> T c t (bk_log st')"
  unfolding quiet_def using T_grow by fastforce

lemma quiets: "audited st \<Longrightarrow> quiet st st' \<Longrightarrow> audited st'"
proof -
  assume a: "audited st" and q: "quiet st st'"
  have "justified J (bk_log st')" using a q justified_plains unfolding audited_def quiet_def by metis
  then show ?thesis using a q T_quiet [OF q] unfolding audited_def quiet_def by blast
qed

lemma settles: "audited st \<Longrightarrow> J c d (bk_log st) \<Longrightarrow> audited (logEffect (Settled c (Decided d)) st)"
  unfolding audited_def deferred_log by (auto intro: T_grows)

lemma rejects: "audited st \<Longrightarrow> audited (logEffect (Settled c Rejected) st)"
  by (erule quiets) (simp add: quiet_log)

lemma finishes: "audited st \<Longrightarrow> J (pe_call e) (tr_decision t) (bk_log st) \<Longrightarrow> audited (finishEntry cfg clk e t st)"
  unfolding finishEntry_def by (rule quiets [OF _ quiet_trans [OF quiet_emit quiet_show]], rule settles)
    (auto intro: quiets J_quiet quiet_mark)

lemma completes:
  assumes "audited st" "\<not> bc_observer cfg" "T (pe_call e) t (bk_log st)"
  shows "audited (completeImmediately cfg clk e t st)"
proof -
  let ?st = "\<lambda>i. removeFromQueue i (deletePending i (clearExpireTimer i st))"
  have q: "quiet st (?st i)" for i by (rule quiet_trans [OF quiet_clear quiet_trans [OF quiet_delete quiet_queue]])
  have "J (pe_call e) (tr_decision t) (bk_log (?st i))" for i using J_quiet [OF q] immediate assms(2,3) by blast
  then show ?thesis unfolding completeImmediately_def Let_def by (intro finishes quiets [OF assms(1) q])
qed

lemma commits:
  assumes a: "audited st" and t: "T c t (bk_log st)"
  shows "audited (st\<lparr>bk_commits := bk_commits st @ [(c, i, t)]\<rparr>)"
  using assms by (auto simp: audited_def deferredOf_def)

lemma starts:
  assumes "audited st" "T (pe_call e) t (bk_log st)"
  shows "audited (startTerminal e t st)"
proof -
  let ?st = "\<lambda>i. changeEntry i (\<lambda>e. e\<lparr>pe_status := Resolving, pe_terminal := Some t\<rparr>) (removeFromQueue i (clearExpireTimer i st))"
  have q: "quiet st (?st i)" for i
    by (rule quiet_trans [OF quiet_clear quiet_trans [OF quiet_queue quiet_change]]) simp_all
  have "bk_commits (?st i) = bk_commits st" for i by (simp add: removeFromQueue_def clearExpireTimer_def)
  then have "audited ((?st i)\<lparr>bk_commits := bk_commits st @ [(pe_call e, i, t)]\<rparr>)" for i
    using commits [OF quiets [OF assms(1) q] T_quiet [OF q assms(2)]] by metis
  then show ?thesis using assms(1) by (simp add: startTerminal_def Let_def split: option.splits)
qed

lemma defers:
  assumes "audited st" "\<And>c e. T c (u e) (bk_log st)"
  shows "audited (changeEntry i (\<lambda>e. e\<lparr>pe_deferredTerminal := orElse (pe_deferredTerminal e) (Some (u e))\<rparr>) st)"
    (is "audited (changeEntry i ?f st)")
proof -
  have "T c x (bk_log st)" if d: "(c, x) \<in> deferredOf (changeEntry i ?f st)" for c x
  proof -
    obtain j e where e: "(j, e) \<in> set (bk_pending st)" "pe_call (if j = i then ?f e else e) = c"
      "pe_deferredTerminal (if j = i then ?f e else e) = Some x"
      using deferred_change [OF d] .
    then have "(c, x) \<in> deferredOf st \<or> x = u e"
      by (cases "pe_deferredTerminal e") (auto simp: deferred_iff split: if_splits)
    then show ?thesis using assms by (auto simp: audited_def)
  qed
  then show ?thesis using assms(1) by (simp add: audited_def)
qed

lemma audited_commit: "audited st \<Longrightarrow> (c, i, t) \<in> set (bk_commits st) \<Longrightarrow> T c t (bk_log st)"
  by (simp add: audited_def)

lemma audited_deferred: "audited st \<Longrightarrow> map_of (bk_pending st) i = Some e \<Longrightarrow> pe_deferredTerminal e = Some u \<Longrightarrow> T (pe_call e) u (bk_log st)"
  unfolding audited_def by (metis deferred_iff map_of_SomeD)

lemma stores: "audited st \<Longrightarrow> T c t (bk_log st) \<Longrightarrow> audited (commitStored cfg clk c i t st)"
proof -
  assume a: "audited st" and t: "T c t (bk_log st)"
  let ?st = "logEffect (Stored c (tr_decision t) (tr_source t)) st"
  have q: "quiet st ?st" by (simp add: quiet_log)
  have "J c (tr_decision t) (bk_log (deletePending i ?st))" using J_quiet [OF quiet_delete] committed [OF t] by simp
  then have "audited (finishEntry cfg clk e t (deletePending i ?st))" if "pe_call e = c" for e
    using that by (intro finishes quiets [OF quiets [OF a q] quiet_delete]) simp
  then show ?thesis using quiets [OF a q] by (auto simp: commitStored_def Let_def split: option.splits)
qed

lemma fails: "audited st \<Longrightarrow> audited (commitFailed cfg clk c i t st)"
proof -
  assume a: "audited st"
  let ?f = "\<lambda>e. e\<lparr>pe_terminal := None, pe_deferredTerminal := None\<rparr>" and ?g = "\<lambda>e. e\<lparr>pe_status := Queued\<rparr>"
  have q1: "quiet st (changeEntry i ?f st)" by (rule quiet_change) simp_all
  have q2: "quiet st (changeEntry i ?g (changeEntry i ?f st))" by (rule quiet_trans [OF q1 quiet_change]) simp_all
  have q3: "quiet st ((changeEntry i ?g (changeEntry i ?f st))\<lparr>bk_queue := qu\<rparr>)" for qu
    by (rule quiet_trans [OF q2 quiet_fields]) simp_all
  have t: "quiet st' (scheduleExpiry i st')" for st' unfolding scheduleExpiry_def by (rule quiet_change) simp_all
  have d: "T (pe_call e) u (bk_log st)" if "map_of (bk_pending st) i = Some e" "pe_deferredTerminal e = Some u" for e u
    using audited_deferred [OF a that] .
  have start: "audited (startTerminal e u (changeEntry i ?f st))" if "T (pe_call e) u (bk_log st)" for e u
    using that by (intro starts quiets [OF a q1]) simp
  have requeue: "audited (showHead cfg clk (scheduleExpiry i (changeEntry i ?g (changeEntry i ?f st))))"
    "audited (showHead cfg clk (scheduleExpiry i ((changeEntry i ?g (changeEntry i ?f st))\<lparr>bk_queue := qu\<rparr>)))" for qu
    using quiet_trans [OF q2 quiet_trans [OF t quiet_show]] quiet_trans [OF q3 quiet_trans [OF t quiet_show]] quiets [OF a] by blast+
  have drop: "audited (showHead cfg clk (logEffect (Settled c Rejected) (deletePending i (changeEntry i ?f st))))"
    by (rule quiets [OF rejects [OF quiets [OF a quiet_trans [OF q1 quiet_delete]]] quiet_show])
  show ?thesis unfolding commitFailed_def Let_def using a d start requeue drop by (auto split: option.splits)
qed

lemma commit_over: "audited st \<Longrightarrow> audited (commitSettles cfg clk c stored st)"
proof (cases "List.find (\<lambda>(c', _). c' = c) (bk_commits st)")
  case (Some x)
  assume a: "audited st"
  obtain c' j t where x: "x = (c', j, t)" by (cases x)
  then have c: "c' = c" "(c, j, t) \<in> set (bk_commits st)" using find_commit [of c "bk_commits st" c' j t] Some by simp_all
  let ?st = "st\<lparr>bk_commits := remove1 (c, j, t) (bk_commits st)\<rparr>"
  have "audited ?st" by (rule quiets [OF a]) (use set_remove1_subset [of "(c, j, t)" "bk_commits st"] in \<open>auto simp: quiet_def deferredOf_def\<close>)
  moreover have "T c t (bk_log ?st)" using audited_commit [OF a c(2)] by simp
  ultimately show ?thesis using Some x c stores fails by (simp add: commitSettles_def Let_def)
qed (simp add: commitSettles_def)

lemma answers: "audited st \<Longrightarrow> isOk (validateConfirmationDecisionText d) \<Longrightarrow>
    audited (logEffect (Answered c d) st) \<and> T c (surfaceTerminal clk e d b) (bk_log (logEffect (Answered c d) st))"
  using surface quiets [OF _ quiet_log] by simp

lemma resolves: "audited st \<Longrightarrow> resolve cfg clk i d st = Inr (st', b) \<Longrightarrow> audited st'"
proof -
  assume a: "audited st" and r: "resolve cfg clk i d st = Inr (st', b)"
  then have "isOk (validateConfirmationDecisionText d)" by (auto simp: resolve_def andThen_eq_Inr)
  note ans = answers [OF a this]
  have "audited (completeImmediately cfg clk e (surfaceTerminal clk e d False) (logEffect (Answered (pe_call e) d) st))"
    if "\<not> bc_observer cfg" for e using ans completes that by blast
  moreover have "audited (startTerminal e (surfaceTerminal clk e d False) (logEffect (Answered (pe_call e) d) st))" for e
    using ans starts by blast
  ultimately show ?thesis using a r by (auto simp: resolve_def andThen_eq_Inr split: option.splits if_splits)
qed

lemma resolves_durably: "audited st \<Longrightarrow> resolveDurably cfg clk i d st = Inr (st', b) \<Longrightarrow> audited st'"
proof -
  assume a: "audited st" and r: "resolveDurably cfg clk i d st = Inr (st', b)"
  then have "isOk (validateConfirmationDecisionText d)" by (auto simp: resolveDurably_def andThen_eq_Inr)
  then have "audited (startTerminal e (surfaceTerminal clk e d True) (logEffect (Answered (pe_call e) d) st))" for e
    using answers [OF a] starts by blast
  then show ?thesis using a r resolves [OF a] by (auto simp: resolveDurably_def andThen_eq_Inr split: option.splits if_splits)
qed

lemma resolves_alone: "audited st \<Longrightarrow> resolveNonInteractiveDurably cfg clk i st = Inr (st', b) \<Longrightarrow> audited st'"
  using completes [OF _ _ resolver] starts [OF _ resolver]
  by (auto simp: resolveNonInteractiveDurably_def andThen_eq_Inr Let_def split: option.splits if_splits)

lemma cancels: "audited st \<Longrightarrow> audited (fst (cancel cfg clk i cause st))"
proof -
  assume a: "audited st"
  have "audited (removeFromQueue i (clearExpireTimer i
      (changeEntry i (\<lambda>e. e\<lparr>pe_deferredTerminal := orElse (pe_deferredTerminal e) (Some (cancelTerminal cause))\<rparr>) st)))"
    by (rule quiets [OF defers [OF a, of "\<lambda>e. cancelTerminal cause"] quiet_trans [OF quiet_clear quiet_queue]]) (rule cancelled)
  moreover have "audited (st\<lparr>bk_admitting := m\<rparr>)" for m by (rule quiets [OF a quiet_fields]) simp_all
  ultimately show ?thesis using a completes [OF a _ cancelled] starts [OF a cancelled] by (auto simp: cancel_def Let_def split: option.splits)
qed

lemma cancels_each: "audited st \<Longrightarrow> audited (fst (cancelEach cfg clk cause js st))"
proof (induction js arbitrary: st)
  case (Cons j js)
  obtain st1 b where c: "cancel cfg (clk j) j cause st = (st1, b)" by fastforce
  then have "audited st1" using cancels [OF Cons.prems, of "clk j" j cause] by simp
  then show ?case using Cons.IH [of st1] by (cases "cancelEach cfg clk cause js st1") (simp add: c)
qed simp

lemma expires: "audited st \<Longrightarrow> audited (expireTimerFires cfg clk i st)"
proof -
  assume a: "audited st"
  have "audited (expire cfg clk i st')" if a': "audited st'" for st'
  proof -
    have "audited (changeEntry i (\<lambda>e. e\<lparr>pe_deferredTerminal := orElse (pe_deferredTerminal e) (Some (expireTerminal clk e))\<rparr>) st')"
      by (rule defers [OF a']) (rule expired)
    then show ?thesis using a' completes [OF a' _ expired] starts [OF a' expired] by (auto simp: expire_def split: option.splits)
  qed
  then show ?thesis using a quiets [OF a quiet_clear] by (auto simp: expireTimerFires_def split: option.splits)
qed

lemma suspends: "audited st \<Longrightarrow> (\<And>rq d. s = AwaitResolver rq d \<Longrightarrow> d = ni_resolve (bc_resolver cfg) rq) \<Longrightarrow> audited (suspend c s st)"
  by (auto simp: audited_def suspend_def deferredOf_def)

lemma enqueues: "audited st \<Longrightarrow> audited (enqueueRequest cfg clk c rq st)"
proof -
  assume a: "audited st"
  let ?entry = "\<lparr>pe_request = rq, pe_status = Queued, pe_createdAt = clk 3, pe_expireTimer = False, pe_call = c,
    pe_terminal = None, pe_deferredTerminal = None\<rparr>"
  let ?st1 = "st\<lparr>bk_pending := omap_set (cq_id rq) ?entry (bk_pending st), bk_queue := bk_queue st @ [cq_id rq]\<rparr>"
  have sub: "set (bk_pending ?st1) \<subseteq> insert (cq_id rq, ?entry) (set (bk_pending st))"
    using set_update_subset [of "cq_id rq" ?entry "bk_pending st"] by simp
  have "(c', u) \<in> deferredOf st" if "(c', u) \<in> deferredOf ?st1" for c' u
  proof -
    from that obtain i e where e: "(i, e) \<in> set (bk_pending ?st1)" "pe_call e = c'" "pe_deferredTerminal e = Some u"
      unfolding deferred_iff by blast
    then have "(i, e) \<in> set (bk_pending st)" using sub by auto
    then show ?thesis using e(2,3) unfolding deferred_iff by blast
  qed
  then have "quiet st ?st1" by (auto simp: quiet_def)
  then have "audited ?st1" by (rule quiets [OF a])
  moreover have t: "quiet st' (scheduleExpiry i st')" for i st' unfolding scheduleExpiry_def by (rule quiet_change) simp_all
  ultimately have "audited (scheduleExpiry i (emitEvent cfg ev ?st1))" for i ev by (metis quiets quiet_emit)
  then show ?thesis unfolding enqueueRequest_def Let_def using quiets [OF _ quiet_show] by simp
qed

lemma proceeds: "audited st \<Longrightarrow> audited (proceed cfg clk c rq durable st)"
  by (auto simp: proceed_def intro!: suspends enqueues)

lemma requests: "audited st \<Longrightarrow> audited (requestConfirmation cfg clk rq st)"
proof -
  assume a: "audited st"
  have n: "audited (st\<lparr>bk_nextCall := n\<rparr>)" "audited (st\<lparr>bk_nextCall := n, bk_admitting := m\<rparr>)" for n m
    by (rule quiets [OF a quiet_fields]; simp)+
  then show ?thesis by (auto simp: requestConfirmation_def Let_def intro: rejects suspends proceeds)
qed

lemma after_before: "audited st \<Longrightarrow> audited (afterBefore cfg clk c rq answer st)"
proof (cases answer)
  case BeforeThrows
  assume "audited st"
  then show ?thesis using BeforeThrows by (simp add: afterBefore_def Let_def rejects quiets [OF _ quiet_admitting])
next
  case (NotAccepted cause)
  assume a: "audited st"
  let ?d = "DecisionCancelled cause"
  let ?st = "\<lambda>ev. deleteAdmitting (cq_id rq) (emitEvent cfg ev (markResolved clk (cq_id rq) ?d (logEffect (Refused c ?d) st)))"
  have q: "quiet (logEffect (Refused c ?d) st) (?st ev)" for ev by (rule quiet_trans [OF quiet_mark quiet_trans [OF quiet_emit quiet_admitting]])
  have "J c ?d (bk_log (?st ev))" for ev using J_quiet [OF q] refused by simp
  then have "audited (logEffect (Settled c (Decided ?d)) (?st ev))" for ev
    by (intro settles quiets [OF quiets [OF a quiet_log] q]) simp_all
  then show ?thesis using NotAccepted by (simp add: afterBefore_def Let_def)
next
  case (Accepted durable)
  assume a: "audited st"
  have "audited (suspend c (AwaitCancelled rq cause) st)" for cause by (rule suspends [OF a]) simp
  then show ?thesis using Accepted proceeds [OF quiets [OF a quiet_admitting]] by (simp add: afterBefore_def Let_def split: option.splits)
qed

lemma after_stored:
  assumes a: "audited st" and s: "\<And>rq d. s = AwaitResolver rq d \<Longrightarrow> d = ni_resolve (bc_resolver cfg) rq"
  shows "audited (afterStored cfg clk c s stored st)"
proof (cases s)
  case (AwaitCancelled rq cause)
  let ?d = "DecisionCancelled cause" and ?sb = "storedBy cfg c (DecisionCancelled cause) (CancelSource cause) st"
  have q: "quiet ?sb (deleteAdmitting i (emitEvent cfg ev (markResolved clk j ?d ?sb)))" for i ev j
    by (rule quiet_trans [OF quiet_mark quiet_trans [OF quiet_emit quiet_admitting]])
  have "audited (logEffect (Settled c (Decided ?d)) (deleteAdmitting i (emitEvent cfg ev (markResolved clk j ?d ?sb))))" for i ev j
    by (intro settles quiets [OF quiets [OF a quiet_storedBy] q] J_quiet [OF q] stored_cancel)
  then show ?thesis using AwaitCancelled rejects [OF quiets [OF a quiet_admitting]] by (simp add: Let_def)
next
  case (AwaitResolver rq d)
  let ?sb = "storedBy cfg c d (NonInteractive (ni_name (bc_resolver cfg))) st"
  have q: "quiet ?sb (markResolved clk j d (emitEvent cfg ev ?sb))" for ev j by (rule quiet_trans [OF quiet_emit quiet_mark])
  have "audited (logEffect (Settled c (Decided d)) (markResolved clk j d (emitEvent cfg ev ?sb)))" for ev j
    by (intro settles quiets [OF quiets [OF a quiet_storedBy] q] J_quiet [OF q]) (use s [OF AwaitResolver] stored_resolver in simp)
  then show ?thesis using AwaitResolver rejects [OF a] by (simp add: Let_def)
next
  case (AwaitBackpressure rq)
  let ?d = "DecisionCancelled BackpressureCause" and ?sb = "storedBy cfg c (DecisionCancelled BackpressureCause) BackpressureSource st"
  have q: "quiet ?sb (emitEvent cfg ev (markResolved clk j ?d ?sb))" for ev j by (rule quiet_trans [OF quiet_mark quiet_emit])
  have "audited (logEffect (Settled c (Decided ?d)) (emitEvent cfg ev (markResolved clk j ?d ?sb)))" for ev j
    by (intro settles quiets [OF quiets [OF a quiet_storedBy] q] J_quiet [OF q] stored_cancel)
  then show ?thesis using AwaitBackpressure rejects [OF a] by (simp add: Let_def)
qed (use a in simp)

lemma performs: "audited st \<Longrightarrow> audited (performBroker cfg op st)"
proof (cases op)
  case (OpBefore clk c answer)
  assume a: "audited st"
  have "audited (st\<lparr>bk_suspended := AList.delete c (bk_suspended st)\<rparr>)"
    by (rule quiets [OF a]) (auto simp: quiet_def deferredOf_def AList.delete_eq)
  then show ?thesis using OpBefore a after_before by (auto simp: resume_def split: option.splits Suspension.splits)
next
  case (OpAfter clk c stored)
  assume a: "audited st"
  have d: "audited (st\<lparr>bk_suspended := AList.delete c (bk_suspended st)\<rparr>)"
    by (rule quiets [OF a]) (auto simp: quiet_def deferredOf_def AList.delete_eq)
  have "audited (afterStored cfg clk c s stored (st\<lparr>bk_suspended := AList.delete c (bk_suspended st)\<rparr>))"
    if "omap_get (bk_suspended st) c = Some s" for s
    by (rule after_stored [OF d]) (use a map_of_SomeD [OF that] in \<open>auto simp: audited_def\<close>)
  then show ?thesis using OpAfter a by (auto simp: resume_def split: option.splits Suspension.splits)
next
  case (OpGraceTimer i)
  assume a: "audited st"
  have "audited (st\<lparr>bk_graceTimers := g, bk_resolvedRecent := r\<rparr>)" for g r by (rule quiets [OF a quiet_fields]) simp_all
  then show ?thesis using OpGraceTimer a by simp
next
  case OpListen
  assume a: "audited st"
  have "audited (st\<lparr>bk_listeners := n\<rparr>)" for n by (rule quiets [OF a quiet_fields]) simp_all
  then show ?thesis using OpListen by simp
next
  case OpUnlisten
  assume a: "audited st"
  have "audited (st\<lparr>bk_listeners := n\<rparr>)" for n by (rule quiets [OF a quiet_fields]) simp_all
  then show ?thesis using OpUnlisten by simp
qed (auto simp: requests commit_over cancels cancelAll_def cancels_each expires valueOr_def split: sum.splits
    intro: resolves resolves_durably resolves_alone)

lemma starts_audited: "audited newBroker"
  unfolding audited_def by (simp add: newBroker_def deferredOf_def)

lemma runs: "brokerRun cfg st \<Longrightarrow> audited st"
  by (induction rule: brokerRun.induct) (simp_all add: performs starts_audited)

lemma run_justified: "brokerRun cfg st \<Longrightarrow> bk_log st = l1 @ Settled c (Decided d) # l2 \<Longrightarrow> J c d l2"
  using runs justified_split unfolding audited_def by metis

end

section \<open>Two justifications\<close>

fun isAllow :: "ConfirmationDecision \<Rightarrow> bool" where
  "isAllow (AllowOnce note) = True"
| "isAllow (AllowSession p note) = True"
| "isAllow (AllowContext p note) = True"
| "isAllow (AllowGlobal p note) = True"
| "isAllow (EditThenAllow i note) = True"
| "isAllow d = False"

text \<open>
  With an observer, a decision has been stored before, or it is the cancellation with which the
  observer itself refused the request.
\<close>

definition storedFirst :: "BrokerConfig \<Rightarrow> nat \<Rightarrow> ConfirmationDecision \<Rightarrow> BrokerEffect list \<Rightarrow> bool" where
  "storedFirst cfg c d l = (bc_observer cfg \<longrightarrow> (\<exists>src. Stored c d src \<in> set l) \<or>
     (Refused c d \<in> set l \<and> (\<exists>cause. d = DecisionCancelled cause)))"

text \<open>With a resolver that never allows, an approval has been given by a surface, within the text budget.\<close>

definition answeredFirst :: "BrokerConfig \<Rightarrow> nat \<Rightarrow> ConfirmationDecision \<Rightarrow> BrokerEffect list \<Rightarrow> bool" where
  "answeredFirst cfg c d l =
     ((\<forall>rq. \<not> isAllow (ni_resolve (bc_resolver cfg) rq)) \<longrightarrow> isAllow d \<longrightarrow> Answered c d \<in> set l \<and> isOk (validateConfirmationDecisionText d))"

interpretation stored: settlement_audit cfg "storedFirst cfg" "\<lambda>c t l. True" for cfg
  by unfold_locales (auto simp: storedFirst_def storedBy_def)

interpretation answered: settlement_audit cfg "answeredFirst cfg" "\<lambda>c t l. answeredFirst cfg c (tr_decision t) l" for cfg
  by unfold_locales (auto simp: answeredFirst_def surfaceTerminal_def resolverTerminal_def cancelTerminal_def expireTerminal_def)

end
