(* ===== verification/Confirmation_Queue.thy ===== *)
theory Confirmation_Queue
  imports Confirmation_Calls
begin

text \<open>
  The queue of the broker moves on: when nothing is being committed, the head of the queue
  is shown, and without an observer nothing else is. Cancelling all requests empties it.
\<close>

section \<open>The head\<close>

definition headShown :: "Broker \<Rightarrow> bool" where
  "headShown st = (bk_queue st = [] \<or> hd (bk_queue st) = [] \<or> (\<exists>e. map_of (bk_pending st) (hd (bk_queue st)) = Some e \<and> pe_status e = Showing))"

definition onlyHead :: "Broker \<Rightarrow> bool" where
  "onlyHead st = (\<forall>i e. map_of (bk_pending st) i = Some e \<longrightarrow> pe_status e = Showing \<longrightarrow> bk_queue st \<noteq> [] \<and> i = hd (bk_queue st))"

definition headInv :: "BrokerConfig \<Rightarrow> Broker \<Rightarrow> bool" where
  "headInv cfg st = ((headShown st \<or> bk_commits st \<noteq> []) \<and> (\<not> bc_observer cfg \<longrightarrow> onlyHead st))"

lemma head_cong:
  "headInv cfg st \<Longrightarrow> bk_pending st' = bk_pending st \<Longrightarrow> bk_queue st' = bk_queue st \<Longrightarrow> bk_commits st' = bk_commits st \<Longrightarrow> headInv cfg st'"
  by (simp add: headInv_def headShown_def onlyHead_def)

text \<open>Showing the head of a queue that lies within the pending requests.\<close>

lemma show_queue [simp]: "bk_queue (showHead cfg clk st) = bk_queue st" "bk_commits (showHead cfg clk st) = bk_commits st"
  "bk_admitting (showHead cfg clk st) = bk_admitting st"
  by (auto simp: showHead_def split: list.splits option.splits)

lemma show_get:
  "map_of (bk_pending (showHead cfg clk st)) i =
     (if bk_queue st \<noteq> [] \<and> i = hd (bk_queue st) \<and> i \<noteq> [] then map_option (\<lambda>e. e\<lparr>pe_status := Showing\<rparr>) (map_of (bk_pending st) i)
      else map_of (bk_pending st) i)"
proof (cases "bk_queue st")
  case (Cons h q)
  show ?thesis
  proof (cases "map_of (bk_pending st) h")
    case (Some e)
    have "e\<lparr>pe_status := Showing\<rparr> = e" if "pe_status e = Showing" using that by (cases e) simp
    then show ?thesis using Cons Some by (auto simp: showHead_def change_get)
  qed (use Cons in \<open>simp add: showHead_def\<close>)
qed (simp add: showHead_def)

lemma show_shows:
  assumes "\<And>i. i \<in> set (bk_queue st) \<Longrightarrow> map_of (bk_pending st) i \<noteq> None"
  shows "headShown (showHead cfg clk st)"
proof (cases "bk_queue st")
  case (Cons h q)
  then obtain e where "map_of (bk_pending st) h = Some e" using assms [of h] by auto
  then show ?thesis using Cons by (auto simp: headShown_def show_get)
qed (simp add: headShown_def)

lemma show_only: "onlyHead st \<Longrightarrow> onlyHead (showHead cfg clk st)"
  by (auto simp: onlyHead_def show_get split: if_splits)

lemma queued_pending: "inv cfg hand ids st \<Longrightarrow> i \<in> set (bk_queue st) \<Longrightarrow> map_of (bk_pending st) i \<noteq> None"
  using inv_shape [of cfg hand ids st] by (auto simp: shapeOk_def queueOk_def)

lemma head_show: "inv cfg hand ids st \<Longrightarrow> (\<not> bc_observer cfg \<Longrightarrow> onlyHead st) \<Longrightarrow> headInv cfg (showHead cfg clk st)"
  using show_shows [of st cfg clk] queued_pending [of cfg hand ids st] show_only by (auto simp: headInv_def)

section \<open>Operations\<close>

lemma head_complete:
  assumes i: "inv cfg {#} {#} st" and h: "headInv cfg st" and o: "\<not> bc_observer cfg" and e: "map_of (bk_pending st) j = Some e"
  shows "headInv cfg (completeImmediately cfg clk e t st)"
proof -
  note s = inv_shape [OF i]
  have j: "cq_id (pe_request e) = j" using shape_entry [OF s e] by (simp add: entryOk_def)
  let ?st = "removeFromQueue j (deletePending j (clearExpireTimer j st))"
  let ?st' = "emitEvent cfg (terminalEvent cfg clk (pe_request e) t) (logEffect (Settled (pe_call e) (Decided (tr_decision t))) (markResolved clk j (tr_decision t) ?st))"
  have q: "bk_queue ?st' = remove1 j (bk_queue st)" and p: "map_of (bk_pending ?st') = (map_of (bk_pending st))(j := None)"
    by (simp_all add: complete_unfold delete_conv')
  have only: "onlyHead st" and d: "distinct (bk_queue st)" using h o s by (simp_all add: headInv_def shapeOk_def queueOk_def)
  have "onlyHead ?st'" using only unfolding onlyHead_def p q by (cases "bk_queue st") (auto split: if_splits)
  moreover have "headShown (showHead cfg clk ?st')"
  proof (rule show_shows)
    show "map_of (bk_pending ?st') i \<noteq> None" if "i \<in> set (bk_queue ?st')" for i
      using that queued_pending [OF i, of i] d unfolding p q by auto
  qed
  ultimately have "headInv cfg (showHead cfg clk ?st')" using show_only by (simp add: headInv_def)
  then show ?thesis by (simp add: completeImmediately_def finishEntry_def Let_def j)
qed

lemma head_start:
  assumes i: "inv cfg {#} {#} st" and o: "bc_observer cfg" and e: "map_of (bk_pending st) j = Some e" "pe_terminal e = None"
  shows "headInv cfg (startTerminal e t st)"
proof -
  have "cq_id (pe_request e) = j" using shape_entry [OF inv_shape [OF i] e(1)] by (simp add: entryOk_def)
  then show ?thesis using e o by (simp add: startTerminal_def Let_def headInv_def)
qed

lemma head_commit:
  assumes i: "inv cfg {#} {#} st" and h: "headInv cfg st"
  shows "headInv cfg (commitSettles cfg clk c stored st)"
proof (cases "List.find (\<lambda>(c', _). c' = c) (bk_commits st)")
  case (Some x)
  obtain c' j t where x: "x = (c', j, t)" by (cases x)
  then have c: "c' = c" "(c, j, t) \<in> set (bk_commits st)" using find_commit [of c "bk_commits st" c' j t] Some by simp_all
  obtain e where e: "map_of (bk_pending st) j = Some e" "pe_call e = c" "pe_terminal e = Some t" "bc_observer cfg" "entryOk j e"
    using inv_committed [OF i c(2)] .
  let ?st = "st\<lparr>bk_commits := remove1 (c, j, t) (bk_commits st)\<rparr>"
  have ok: "inv cfg {#} {#} (commitSettles cfg clk c stored st)" using inv_commitSettles [OF i] .
  have shown: "headShown (showHead cfg clk st')" if "\<And>k. k \<in> set (bk_queue st') \<Longrightarrow> map_of (bk_pending st') k \<noteq> None" for st'
    using show_shows that by blast
  have qp: "\<forall>k \<in> set (bk_queue st). map_of (bk_pending st) k \<noteq> None" using queued_pending [OF i] by blast
  have nj: "j \<notin> set (bk_queue st)" using shape_queued [OF inv_shape [OF i] e(1)] e(3) by simp
  show ?thesis
  proof (cases stored)
    case True
    have "headShown (commitStored cfg clk c j t ?st)" using e nj qp
      by (auto simp: commitStored_def finishEntry_def Let_def deletePending_def delete_conv' intro!: shown)
    then show ?thesis using True Some x c e(4) by (simp add: commitSettles_def Let_def headInv_def)
  next
    case False
    have "headShown (commitFailed cfg clk c j t ?st) \<or> bk_commits (commitFailed cfg clk c j t ?st) \<noteq> []"
      using e nj unfolding failed_cases [of ?st j e c cfg clk t, OF _ e(2,5), simplified, OF e(1)]
      by (cases "pe_deferredTerminal e")
        (auto simp: deletePending_def delete_conv' change_get intro!: shown split: if_splits dest: queued_pending [OF i])
    then show ?thesis using False Some x c e(4) by (simp add: commitSettles_def Let_def headInv_def)
  qed
qed (use h in \<open>simp add: commitSettles_def\<close>)

lemma head_defer:
  assumes i: "inv cfg {#} {#} st" and o: "bc_observer cfg" and e: "map_of (bk_pending st) j = Some e" "pe_terminal e = Some t"
    and c: "bk_commits st' = bk_commits st"
  shows "headInv cfg st'"
proof -
  have "(pe_call e, j, t) \<in> set (bk_commits st)" using inv_shape [OF i] e unfolding shapeOk_def commitsOk_def by blast
  then show ?thesis using o c by (auto simp: headInv_def)
qed

lemma head_enqueue:
  assumes i: "inv cfg {#c#} {#} st" and h: "headInv cfg st" and n: "map_of (bk_pending st) (cq_id rq) = None"
  shows "headInv cfg (enqueueRequest cfg clk c rq st)"
proof -
  let ?j = "cq_id rq"
  let ?entry = "\<lparr>pe_request = rq, pe_status = Queued, pe_createdAt = clk 3, pe_expireTimer = False, pe_call = c,
    pe_terminal = None, pe_deferredTerminal = None\<rparr>"
  let ?ev = "EvRequested ?j (cq_tool rq) (cq_operationClass rq) (cq_riskLevel rq) (length (bk_queue st @ [?j])) (clk 4)"
  let ?st = "scheduleExpiry ?j (emitEvent cfg ?ev (st\<lparr>bk_pending := omap_set ?j ?entry (bk_pending st), bk_queue := bk_queue st @ [?j]\<rparr>))"
  have p: "map_of (bk_pending ?st) = (map_of (bk_pending st))(?j := Some (?entry\<lparr>pe_expireTimer := True\<rparr>))"
    by (simp add: scheduleExpiry_def change_get update_conv')
  have q: "bk_queue ?st = bk_queue st @ [?j]" "bk_commits ?st = bk_commits st" by (simp_all add: scheduleExpiry_def)
  have unf: "enqueueRequest cfg clk c rq st = (if hd (bk_queue ?st) = ?j then showHead cfg clk ?st else ?st)"
    by (simp add: enqueueRequest_def Let_def)
  have nq: "?j \<notin> set (bk_queue st)" using queued_pending [OF i, of ?j] n by auto
  have only: "onlyHead ?st" if "onlyHead st" using that unfolding onlyHead_def p q by (auto split: if_splits)
  show ?thesis
  proof (cases "bk_queue st")
    case Nil
    have "headShown (showHead cfg clk ?st)" by (rule show_shows) (simp only: p q, simp add: Nil)
    then have "headInv cfg (showHead cfg clk ?st)" using only show_only h by (simp add: headInv_def)
    then show ?thesis unfolding unf q by (simp add: Nil)
  next
    case (Cons k ks)
    then have "k \<noteq> ?j" using nq by auto
    then have "headShown ?st" if "headShown st" using that unfolding headShown_def p q by (simp add: Cons)
    then have "headInv cfg ?st" using only h q by (auto simp: headInv_def)
    then show ?thesis using \<open>k \<noteq> ?j\<close> unfolding unf q by (simp add: Cons)
  qed
qed

lemma head_proceed:
  assumes "inv cfg {#c#} {#} st" "headInv cfg st" "map_of (bk_pending st) (cq_id rq) = None"
  shows "headInv cfg (proceed cfg clk c rq durable st)"
proof -
  have "headInv cfg (suspend c s st)" for s by (rule head_cong [OF assms(2)]) (simp_all add: suspend_def)
  then show ?thesis using head_enqueue [OF assms] by (simp add: proceed_def)
qed

lemma head_request:
  assumes i: "inv cfg {#} {#} st" and h: "headInv cfg st"
  shows "headInv cfg (requestConfirmation cfg clk rq st)"
proof -
  let ?st = "st\<lparr>bk_nextCall := Suc (bk_nextCall st)\<rparr>"
  have n: "headInv cfg ?st" "headInv cfg (logEffect x ?st)" "headInv cfg (suspend c s (?st\<lparr>bk_admitting := m\<rparr>))" for x c s m
    by (rule head_cong [OF h]; simp add: suspend_def)+
  show ?thesis using n head_proceed [OF inv_next [OF i] n(1)] by (simp add: requestConfirmation_def Let_def)
qed

lemma head_after_before:
  assumes i: "inv cfg {#c#} {#cq_id rq#} st" and h: "headInv cfg st"
  shows "headInv cfg (afterBefore cfg clk c rq answer st)"
proof (cases answer)
  case (Accepted durable)
  have "headInv cfg (deleteAdmitting (cq_id rq) st)" "headInv cfg (suspend c s st)" for s
    by (rule head_cong [OF h]; simp add: deleteAdmitting_def suspend_def)+
  then show ?thesis using Accepted head_proceed [OF inv_deleteAdmitting(1) [OF i] _ inv_deleteAdmitting(2) [OF i]]
    by (simp add: afterBefore_def Let_def split: option.splits)
next
  case BeforeThrows
  then show ?thesis by (intro head_cong [OF h]) (simp_all add: afterBefore_def Let_def deleteAdmitting_def)
next
  case (NotAccepted cause)
  then show ?thesis by (intro head_cong [OF h]) (simp_all add: afterBefore_def Let_def deleteAdmitting_def)
qed

lemma storedBy_fields [simp]:
  "bk_pending (storedBy cfg c d src st) = bk_pending st" "bk_queue (storedBy cfg c d src st) = bk_queue st"
  "bk_commits (storedBy cfg c d src st) = bk_commits st"
  by (simp_all add: storedBy_def)

lemma head_after_stored: "headInv cfg st \<Longrightarrow> headInv cfg (afterStored cfg clk c s stored st)"
  by (cases s) (erule head_cong; simp add: Let_def deleteAdmitting_def)+

lemma head_resolve:
  assumes i: "inv cfg {#} {#} st" and h: "headInv cfg st" and r: "resolve cfg clk j d st = Inr (st', b)"
  shows "headInv cfg st'"
proof (cases "omap_get (bk_pending st) j")
  case (Some e)
  have a: "inv cfg {#} {#} (logEffect (Answered c d) st)" "headInv cfg (logEffect (Answered c d) st)" for c
    using inv_log [OF i] head_cong [OF h] by simp_all
  have "headInv cfg (completeImmediately cfg clk e t (logEffect (Answered c d) st))" if "\<not> bc_observer cfg" for t c
    using head_complete [OF a that] Some by simp
  moreover have "headInv cfg (startTerminal e t (logEffect (Answered c d) st))" if "bc_observer cfg" "pe_terminal e = None" for t c
    using head_start [OF a(1) that(1)] Some that(2) by simp
  ultimately show ?thesis using r h Some by (auto simp: resolve_def andThen_eq_Inr split: option.splits if_splits)
qed (use r h in \<open>auto simp: resolve_def andThen_eq_Inr\<close>)

lemma head_resolveDurably:
  assumes i: "inv cfg {#} {#} st" and h: "headInv cfg st" and r: "resolveDurably cfg clk j d st = Inr (st', b)"
  shows "headInv cfg st'"
proof (cases "omap_get (bk_pending st) j")
  case (Some e)
  have a: "inv cfg {#} {#} (logEffect (Answered c d) st)" for c using inv_log [OF i] by simp
  have "headInv cfg (startTerminal e t (logEffect (Answered c d) st))" if "bc_observer cfg" "pe_terminal e = None" for t c
    using head_start [OF a that(1)] Some that(2) by simp
  then show ?thesis using r h Some head_resolve [OF i h] by (auto simp: resolveDurably_def andThen_eq_Inr split: option.splits if_splits)
qed (use r h in \<open>auto simp: resolveDurably_def andThen_eq_Inr\<close>)

lemma head_resolveNonInteractive:
  assumes i: "inv cfg {#} {#} st" and h: "headInv cfg st" and r: "resolveNonInteractiveDurably cfg clk j st = Inr (st', b)"
  shows "headInv cfg st'"
proof (cases "omap_get (bk_pending st) j")
  case (Some e)
  then show ?thesis using r h head_complete [OF i h _ Some] head_start [OF i _ Some]
    by (auto simp: resolveNonInteractiveDurably_def andThen_eq_Inr Let_def split: option.splits if_splits)
qed (use r h in \<open>auto simp: resolveNonInteractiveDurably_def\<close>)

lemma head_cancel:
  assumes i: "inv cfg {#} {#} st" and h: "headInv cfg st"
  shows "headInv cfg (fst (cancel cfg clk j cause st))"
proof (cases "omap_get (bk_admitting st) j")
  case None
  show ?thesis
  proof (cases "omap_get (bk_pending st) j")
    case (Some e)
    have "headInv cfg (removeFromQueue j (clearExpireTimer j (changeEntry j f st)))" if "bc_observer cfg" "pe_terminal e = Some t" for f t
      by (rule head_defer [OF i that(1) Some that(2)]) (simp add: removeFromQueue_def clearExpireTimer_def)
    then show ?thesis using h None Some head_complete [OF i h _ Some] head_start [OF i _ Some] by (auto simp: cancel_def split: option.splits)
  qed (use h None in \<open>simp add: cancel_def\<close>)
next
  case (Some held)
  have "headInv cfg (st\<lparr>bk_admitting := m\<rparr>)" for m by (rule head_cong [OF h]) simp_all
  then show ?thesis using Some by (simp add: cancel_def Let_def)
qed

lemma head_cancelEach:
  "inv cfg {#} {#} st \<Longrightarrow> headInv cfg st \<Longrightarrow> headInv cfg (fst (cancelEach cfg clk cause js st))"
proof (induction js arbitrary: st)
  case (Cons j js)
  obtain st1 b where c: "cancel cfg (clk j) j cause st = (st1, b)" by fastforce
  have "inv cfg {#} {#} st1" "headInv cfg st1"
    using inv_cancel [OF Cons.prems(1), of "clk j" j cause] head_cancel [OF Cons.prems, of "clk j" j cause] c by simp_all
  then show ?case using Cons.IH [of st1] by (cases "cancelEach cfg clk cause js st1") (simp add: c)
qed simp

lemma head_expire:
  assumes i: "inv cfg {#} {#} st" and h: "headInv cfg st"
  shows "headInv cfg (expireTimerFires cfg clk j st)"
proof (cases "omap_get (bk_pending st) j")
  case (Some e)
  show ?thesis
  proof (cases "pe_expireTimer e")
    case True
    have t: "pe_terminal e = None" "cq_id (pe_request e) = j" using shape_entry [OF inv_shape [OF i] Some] True by (simp_all add: entryOk_def)
    have "headInv cfg (expire cfg clk j st)" using head_complete [OF i h _ Some] head_start [OF i _ Some t(1)] Some t by (simp add: expire_def)
    then show ?thesis using Some True by (simp add: expireTimerFires_def expire_cleared [OF Some t])
  qed (use h Some in \<open>simp add: expireTimerFires_def\<close>)
qed (use h in \<open>simp add: expireTimerFires_def\<close>)

lemma head_perform:
  assumes i: "inv cfg {#} {#} st" and h: "headInv cfg st"
  shows "headInv cfg (performBroker cfg op st)"
proof (cases op)
  case (OpBefore clk c answer)
  have d: "headInv cfg (st\<lparr>bk_suspended := AList.delete c (bk_suspended st)\<rparr>)" by (rule head_cong [OF h]) simp_all
  have "headInv cfg (afterBefore cfg clk c rq answer (st\<lparr>bk_suspended := AList.delete c (bk_suspended st)\<rparr>))"
    if "omap_get (bk_suspended st) c = Some (AwaitBefore rq)" for rq
    using inv_resume [OF i that] head_after_before d by simp
  then show ?thesis using OpBefore h by (auto simp: resume_def split: option.splits Suspension.splits)
next
  case (OpAfter clk c stored)
  have "headInv cfg (st\<lparr>bk_suspended := AList.delete c (bk_suspended st)\<rparr>)" by (rule head_cong [OF h]) simp_all
  then show ?thesis using OpAfter h head_after_stored by (auto simp: resume_def simp del: afterStored.simps split: option.splits Suspension.splits)
next
  case (OpGraceTimer j)
  then show ?thesis by (intro head_cong [OF h]) simp_all
next
  case OpListen
  then show ?thesis by (intro head_cong [OF h]) simp_all
next
  case OpUnlisten
  then show ?thesis by (intro head_cong [OF h]) simp_all
qed (use i h in \<open>auto simp: head_request head_commit head_cancel cancelAll_def head_cancelEach head_expire valueOr_def split: sum.splits
    intro: head_resolve head_resolveDurably head_resolveNonInteractive\<close>)

lemma runs_head: "brokerRun cfg st \<Longrightarrow> headInv cfg st"
proof (induction rule: brokerRun.induct)
  case start
  then show ?case by (simp add: headInv_def headShown_def onlyHead_def newBroker_def)
next
  case (perform st op)
  then show ?case using head_perform runs_ok [OF perform.hyps] by (simp add: brokerOk_def)
qed

section \<open>Cancelling everything\<close>

definition marked :: "Broker \<Rightarrow> string \<Rightarrow> bool" where
  "marked st i = (\<exists>cause. omap_get (bk_admitting st) i = Some (Some cause))"

definition gone :: "BrokerConfig \<Rightarrow> Broker \<Rightarrow> string \<Rightarrow> bool" where
  "gone cfg st i = (i \<notin> set (bk_queue st) \<and> (\<not> bc_observer cfg \<longrightarrow> omap_get (bk_pending st) i = None) \<and>
     (omap_get (bk_admitting st) i \<noteq> None \<longrightarrow> marked st i))"

lemma complete_fields:
  "bk_queue (completeImmediately cfg clk e t st) = remove1 (cq_id (pe_request e)) (bk_queue st)"
  "bk_admitting (completeImmediately cfg clk e t st) = bk_admitting st"
  "omap_get (bk_pending (completeImmediately cfg clk e t st)) k = None \<longleftrightarrow> k = cq_id (pe_request e) \<or> omap_get (bk_pending st) k = None"
  by (simp_all add: completeImmediately_def finishEntry_def Let_def complete_unfold show_get delete_conv')

lemma start_fields:
  "omap_get (bk_pending st) (cq_id (pe_request e)) = Some e \<Longrightarrow> pe_terminal e = None \<Longrightarrow>
   bk_queue (startTerminal e t st) = remove1 (cq_id (pe_request e)) (bk_queue st) \<and> bk_admitting (startTerminal e t st) = bk_admitting st"
  by (simp add: startTerminal_def Let_def removeFromQueue_def clearExpireTimer_def)

text \<open>A cancelled request is gone, and a request that is gone stays so.\<close>

lemma cancel_gone:
  assumes i: "inv cfg {#} {#} st"
  shows "gone cfg (fst (cancel cfg clk j cause st)) j" and "gone cfg st k \<Longrightarrow> gone cfg (fst (cancel cfg clk j cause st)) k"
proof -
  note s = inv_shape [OF i]
  have d: "distinct (bk_queue st)" using s by (simp add: shapeOk_def queueOk_def)
  have "gone cfg (fst (cancel cfg clk j cause st)) j \<and> (gone cfg st k \<longrightarrow> gone cfg (fst (cancel cfg clk j cause st)) k)"
  proof (cases "omap_get (bk_admitting st) j")
    case (Some held)
    then have "j \<in> set (map fst (bk_admitting st))" by (metis list.set_map map_of_eq_None_iff option.distinct(1))
    then have "j \<notin> set (map fst (bk_pending st))" using i unfolding inv_def admittingInv_def by blast
    then have p: "omap_get (bk_pending st) j = None" by (simp add: map_of_eq_None_iff)
    then have "j \<notin> set (bk_queue st)" using queued_pending [OF i] by blast
    moreover have "\<exists>c. orElse held (Some cause) = Some c" by (cases held) auto
    ultimately show ?thesis using Some p by (auto simp: cancel_def Let_def gone_def marked_def update_conv')
  next
    case None
    show ?thesis
    proof (cases "omap_get (bk_pending st) j")
      case p: None
      then have "j \<notin> set (bk_queue st)" using queued_pending [OF i] by blast
      then show ?thesis using None p by (simp add: cancel_def gone_def)
    next
      case (Some e)
      have j: "cq_id (pe_request e) = j" using shape_entry [OF s Some] by (simp add: entryOk_def)
      show ?thesis
      proof (cases "bc_observer cfg")
        case False
        then show ?thesis using None Some d by (auto simp: cancel_def gone_def marked_def complete_fields j)
      next
        case True
        show ?thesis
        proof (cases "pe_terminal e")
          case n: None
          then show ?thesis using None Some True d start_fields [of st e] by (auto simp: cancel_def gone_def marked_def j)
        next
          case t: (Some t)
          then have "j \<notin> set (bk_queue st)" using shape_queued [OF s Some] by simp
          then show ?thesis using None Some True t
            by (auto simp: cancel_def gone_def marked_def removeFromQueue_def clearExpireTimer_def remove1_idem)
        qed
      qed
    qed
  qed
  then show "gone cfg (fst (cancel cfg clk j cause st)) j" "gone cfg st k \<Longrightarrow> gone cfg (fst (cancel cfg clk j cause st)) k" by blast+
qed

lemma cancelEach_gone:
  "inv cfg {#} {#} st \<Longrightarrow> k \<in> set js \<or> gone cfg st k \<Longrightarrow> gone cfg (fst (cancelEach cfg clk cause js st)) k"
proof (induction js arbitrary: st)
  case (Cons j js)
  obtain st1 b where c: "cancel cfg (clk j) j cause st = (st1, b)" by fastforce
  have "inv cfg {#} {#} st1" using inv_cancel [OF Cons.prems(1), of "clk j" j cause] c by simp
  moreover have "k \<in> set js \<or> gone cfg st1 k" using Cons.prems cancel_gone [OF Cons.prems(1), where clk = "clk j" and j = j and cause = cause] c by auto
  ultimately show ?case using Cons.IH [of st1] by (cases "cancelEach cfg clk cause js st1") (simp add: c)
qed simp

lemma cancelAll_gone: "brokerRun cfg st \<Longrightarrow> gone cfg (fst (cancelAll cfg clk cause st)) k"
proof -
  assume "brokerRun cfg st"
  then have i: "inv cfg {#} {#} st" using runs_ok by (simp add: brokerOk_def)
  have "k \<in> set (map fst (bk_admitting st) @ map fst (bk_pending st)) \<or> gone cfg st k"
    using queued_pending [OF i, of k] by (auto simp: gone_def map_of_eq_None_iff)
  then show ?thesis unfolding cancelAll_def by (rule cancelEach_gone [OF i])
qed

end
