(* ===== verification/Confirmation_Correctness.thy ===== *)
theory Confirmation_Correctness
  imports Confirmation_Audit Confirmation_Queue
begin

text \<open>
  The correctness properties of the confirmation broker: where every call is, what must have
  happened before a decision is handed out, how the queue moves, and what cancelling leaves.
\<close>

section \<open>Concrete runs\<close>

text \<open>The definitions that evaluate a run to its final state.\<close>

lemmas broker_eval = newBroker_def logEffect_def emitEvent_def changeEntry_def deletePending_def deleteAdmitting_def removeFromQueue_def
  clearExpireTimer_def scheduleExpiry_def markResolved_def showHead_def finishEntry_def completeImmediately_def startTerminal_def commitStored_def
  commitFailed_def commitSettles_def surfaceTerminal_def sameDecision_def resolve_def resolveDurably_def resolverTerminal_def
  resolveNonInteractiveDurably_def cancelTerminal_def cancel_def cancelAll_def expireTerminal_def suspend_def enqueueRequest_def proceed_def
  requestConfirmation_def afterBefore_def storedBy_def resume_def valueOr_def Let_def validateConfirmationDecisionText_def

lemma run_steps: "brokerRun cfg st \<Longrightarrow> brokerRun cfg (fold (performBroker cfg) ops st)"
  by (induction ops arbitrary: st) (simp_all add: perform)

definition demoConfig :: "bool \<Rightarrow> BrokerConfig" where
  "demoConfig observer = \<lparr>bc_lineage = (''main'', None, None), bc_eventBus = True, bc_resolver = failToDenyResolver,
     bc_maxQueueDepth = DEFAULT_MAX_QUEUE_DEPTH, bc_observer = observer, bc_stringify = (\<lambda>d. if isAllow d then ''allow'' else ''other'')\<rparr>"

definition demoAsk :: "string \<Rightarrow> ConfirmationRequest" where
  "demoAsk i = \<lparr>cq_id = i, cq_tool = ''bash'', cq_toolInput = JNull, cq_workingDirectory = ''/'', cq_riskLevel = None, cq_operationClass = None,
     cq_display = JNull, cq_options = JNull, cq_sessionType = ''interactive'', cq_contextId = JNull, cq_createdAt = 0, cq_expiresAt = 60000\<rparr>"

abbreviation demoClock :: clock where
  "demoClock \<equiv> \<lambda>_. 0"

definition demoRun :: "bool \<Rightarrow> BrokerOp list \<Rightarrow> Broker" where
  "demoRun observer ops = fold (performBroker (demoConfig observer)) ops newBroker"

lemma demo_run: "brokerRun (demoConfig observer) (demoRun observer ops)"
  unfolding demoRun_def by (rule run_steps [OF start])

definition demoAnswered :: "BrokerOp list" where
  "demoAnswered = [OpListen, OpRequest demoClock (demoAsk ''a''), OpBefore demoClock 0 (Accepted False),
     OpResolve demoClock ''a'' (AllowOnce None), OpCommit demoClock 0 True]"

lemmas demo_eval = demoRun_def demoConfig_def demoAsk_def demoAnswered_def failToDenyResolver_def DEFAULT_MAX_QUEUE_DEPTH_def broker_eval

section \<open>Calls\<close>

text \<open>
  C35. Every call of \<^verbatim>\<open>requestConfirmation\<close> is in one place: waiting for the observer, pending, or
  settled, and it is settled at most once, through answers, cancellations, timeouts, failing
  commits and requests put back into the queue. The pending requests never outnumber the
  configured depth.
\<close>

theorem confirmation_settled_once:
  assumes "brokerRun cfg st"
  shows "mset (map fst (bk_suspended st)) + mset (map (\<lambda>x. pe_call (snd x)) (bk_pending st)) + mset (settledCalls (bk_log st)) =
      mset [0..<bk_nextCall st] \<and>
    distinct (settledCalls (bk_log st)) \<and> int (length (bk_pending st)) \<le> max 0 (bc_maxQueueDepth cfg)"
proof -
  have i: "inv cfg {#} {#} st" using runs_ok [OF assms] by (simp add: brokerOk_def)
  then have t: "mset (map fst (bk_suspended st)) + mset (map (\<lambda>x. pe_call (snd x)) (bk_pending st)) + mset (settledCalls (bk_log st)) =
      mset [0..<bk_nextCall st]" by (simp only: inv_def callTickets_def add_0_right)
  then have "mset (settledCalls (bk_log st)) \<subseteq># mset [0..<bk_nextCall st]" by (metis mset_subset_eq_add_right)
  then have "distinct (settledCalls (bk_log st))" by (rule distinct_subseteq) simp
  with t i show ?thesis by (simp add: inv_def pendingInv_def)
qed

theorem confirmation_settled_once_witness:
  "settledCalls (bk_log (demoRun True demoAnswered)) = [0] \<and> distinct (settledCalls (bk_log (demoRun True demoAnswered)))"
proof -
  have "settledCalls (bk_log (demoRun True demoAnswered)) = [0]" by (simp add: demo_eval)
  then show ?thesis using confirmation_settled_once [OF demo_run] by blast
qed

section \<open>Decisions\<close>

text \<open>
  C34. With an observer, a call is fulfilled only with a decision that the observer has stored for
  that call before. The one decision that is not stored is the cancellation of a request that the
  observer itself refused, recorded as refused before; so an approval, an edit or a denial never
  takes effect without having been stored.
\<close>

theorem decision_stored_before_resume:
  assumes "brokerRun cfg st" and "bc_observer cfg" and "bk_log st = l1 @ Settled c (Decided d) # l2"
  shows "(\<exists>src. Stored c d src \<in> set l2) \<or> (Refused c d \<in> set l2 \<and> (\<exists>cause. d = DecisionCancelled cause))"
  using stored.run_justified [OF assms(1,3)] assms(2) by (simp add: storedFirst_def)

theorem decision_stored_before_resume_witness:
  "\<exists>l1 l2. bk_log (demoRun True demoAnswered) = l1 @ Settled 0 (Decided (AllowOnce None)) # l2 \<and>
     (\<exists>src. Stored 0 (AllowOnce None) src \<in> set l2)"
proof -
  have "Settled 0 (Decided (AllowOnce None)) \<in> set (bk_log (demoRun True demoAnswered))" by (simp add: demo_eval)
  then obtain l1 l2 where l: "bk_log (demoRun True demoAnswered) = l1 @ Settled 0 (Decided (AllowOnce None)) # l2" by (metis split_list)
  have "bc_observer (demoConfig True)" by (simp add: demoConfig_def)
  from decision_stored_before_resume [OF demo_run this l] l show ?thesis by fastforce
qed

text \<open>
  C21. No approval without an answer: when the resolver for non-interactive sessions never
  allows, a call is fulfilled with an approval only after a surface has answered that very
  call with that decision, its text within the byte budget. Expiry, cancellation, a full
  queue, a missing surface and failing commits never approve anything.
\<close>

theorem approval_needs_answer:
  assumes "brokerRun cfg st" and "\<And>rq. \<not> isAllow (ni_resolve (bc_resolver cfg) rq)"
    and "bk_log st = l1 @ Settled c (Decided d) # l2" and "isAllow d"
  shows "Answered c d \<in> set l2 \<and> (\<forall>t. decisionText d = Some t \<longrightarrow> length t \<le> MAX_INTERACTION_RESPONSE_TEXT_BYTES)"
  using answered.run_justified [OF assms(1,3)] assms(2,4)
  by (auto simp: answeredFirst_def validateConfirmationDecisionText_def split: if_splits)

theorem approval_needs_answer_witness:
  "\<exists>l1 l2. bk_log (demoRun True demoAnswered) = l1 @ Settled 0 (Decided (AllowOnce None)) # l2 \<and> Answered 0 (AllowOnce None) \<in> set l2"
proof -
  have "Settled 0 (Decided (AllowOnce None)) \<in> set (bk_log (demoRun True demoAnswered))" by (simp add: demo_eval)
  then obtain l1 l2 where l: "bk_log (demoRun True demoAnswered) = l1 @ Settled 0 (Decided (AllowOnce None)) # l2" by (metis split_list)
  have "\<not> isAllow (ni_resolve (bc_resolver (demoConfig True)) rq)" for rq by (simp add: demoConfig_def failToDenyResolver_def)
  from approval_needs_answer [OF demo_run this l] l show ?thesis by auto
qed

section \<open>The queue\<close>

text \<open>
  The queue does not stall: when requests wait and no commit is in flight, the first of
  them is shown (unless its id is empty, which counts as no id). Every pending request waits
  in the queue with its expiry timer set, or has a commit in flight.
\<close>

theorem confirmation_queue_progresses:
  assumes "brokerRun cfg st"
  shows "(bk_queue st = [] \<or> hd (bk_queue st) = [] \<or> bk_commits st \<noteq> [] \<or>
      (\<exists>e. omap_get (bk_pending st) (hd (bk_queue st)) = Some e \<and> pe_status e = Showing)) \<and>
    (\<forall>i e. omap_get (bk_pending st) i = Some e \<longrightarrow>
       (i \<in> set (bk_queue st) \<and> pe_expireTimer e) \<or> (\<exists>t. pe_terminal e = Some t \<and> (pe_call e, i, t) \<in> set (bk_commits st)))"
proof -
  have s: "shapeOk (map_of (bk_pending st)) (bk_queue st) (bk_commits st)" using inv_shape runs_ok [OF assms] by (auto simp: brokerOk_def)
  have "(i \<in> set (bk_queue st) \<and> pe_expireTimer e) \<or> (\<exists>t. pe_terminal e = Some t \<and> (pe_call e, i, t) \<in> set (bk_commits st))"
    if "omap_get (bk_pending st) i = Some e" for i e
  proof (cases "pe_terminal e")
    case None
    then show ?thesis using shape_queued [OF s that] shape_entry [OF s that] by (simp add: entryOk_def)
  next
    case (Some t)
    then show ?thesis using s that unfolding shapeOk_def commitsOk_def by blast
  qed
  then show ?thesis using runs_head [OF assms] by (auto simp: headInv_def headShown_def)
qed

theorem confirmation_queue_progresses_witness:
  "\<exists>e. omap_get (bk_pending (demoRun False [OpListen, OpRequest demoClock (demoAsk ''a'')])) ''a'' = Some e \<and> pe_status e = Showing"
proof -
  let ?st = "demoRun False [OpListen, OpRequest demoClock (demoAsk ''a'')]"
  have "bk_queue ?st = [''a''] \<and> bk_commits ?st = []" by (simp add: demo_eval)
  then show ?thesis using confirmation_queue_progresses [OF demo_run, of False "[OpListen, OpRequest demoClock (demoAsk ''a'')]"] by auto
qed

text \<open>
  Without an observer one request at a time is shown: a request that is being shown is
  the head of the queue.
\<close>

theorem one_request_shown:
  assumes "brokerRun cfg st" and "\<not> bc_observer cfg" and "omap_get (bk_pending st) i = Some e" and "pe_status e = Showing"
  shows "bk_queue st \<noteq> [] \<and> i = hd (bk_queue st)"
  using runs_head [OF assms(1)] assms(2-4) unfolding headInv_def onlyHead_def by blast

theorem one_request_shown_witness:
  "hd (bk_queue (demoRun False [OpListen, OpRequest demoClock (demoAsk ''a''), OpRequest demoClock (demoAsk ''b'')])) = ''a''"
proof -
  let ?ops = "[OpListen, OpRequest demoClock (demoAsk ''a''), OpRequest demoClock (demoAsk ''b'')]"
  have "map_option pe_status (omap_get (bk_pending (demoRun False ?ops)) ''a'') = Some Showing" by (simp add: demo_eval)
  then obtain e where "omap_get (bk_pending (demoRun False ?ops)) ''a'' = Some e" "pe_status e = Showing" by auto
  from one_request_shown [OF demo_run _ this] show ?thesis by (simp add: demoConfig_def)
qed

text \<open>
  After all requests have been cancelled nothing waits: the queue is empty, every request
  still being registered is marked with a cause, and without an observer none is pending.
\<close>

theorem cancelAll_empties_queue:
  assumes "brokerRun cfg st" and "cancelAll cfg clk cause st = (st', n)"
  shows "bk_queue st' = [] \<and> (\<not> bc_observer cfg \<longrightarrow> bk_pending st' = []) \<and>
    (\<forall>i held. omap_get (bk_admitting st') i = Some held \<longrightarrow> held \<noteq> None)"
proof -
  have gone: "gone cfg st' k" for k using cancelAll_gone [OF assms(1), where clk = clk and cause = cause] assms(2) by simp
  have "bk_queue st' = []" using gone by (cases "bk_queue st'") (auto simp: gone_def)
  moreover have "bk_pending st' = []" if "\<not> bc_observer cfg"
  proof (cases "bk_pending st'")
    case (Cons x xs)
    then have "omap_get (bk_pending st') (fst x) \<noteq> None" by (cases x) simp
    then show ?thesis using gone that by (auto simp: gone_def)
  qed
  moreover have "held \<noteq> None" if "omap_get (bk_admitting st') i = Some held" for i held
    using gone [of i] that by (auto simp: gone_def marked_def)
  ultimately show ?thesis by blast
qed

theorem cancelAll_empties_queue_witness:
  "\<exists>st'. cancelAll (demoConfig False) (\<lambda>i. demoClock) SessionEnd (demoRun False [OpListen, OpRequest demoClock (demoAsk ''a'')]) = (st', 1) \<and>
     bk_pending st' = []"
proof -
  let ?st = "demoRun False [OpListen, OpRequest demoClock (demoAsk ''a'')]"
  obtain st' n where c: "cancelAll (demoConfig False) (\<lambda>i. demoClock) SessionEnd ?st = (st', n)" by fastforce
  have "snd (cancelAll (demoConfig False) (\<lambda>i. demoClock) SessionEnd ?st) = 1" by (simp add: demo_eval)
  then have "n = 1" using c by simp
  have "\<not> bc_observer (demoConfig False)" by (simp add: demoConfig_def)
  then have "bk_pending st' = []" using cancelAll_empties_queue [OF demo_run c] by simp
  with c \<open>n = 1\<close> show ?thesis by simp
qed

section \<open>Where the broker falls short of its comments\<close>

text \<open>
  With an observer, a request whose commit fails goes back to the front of the queue beside
  one that is already shown: two requests are shown at once.
\<close>

lemma two_requests_shown:
  "map (\<lambda>x. (fst x, pe_status (snd x))) (bk_pending (demoRun True
     [OpListen, OpRequest demoClock (demoAsk ''a''), OpBefore demoClock 0 (Accepted False),
      OpResolveDurably demoClock ''a'' (AllowOnce None),
      OpRequest demoClock (demoAsk ''b''), OpBefore demoClock 1 (Accepted False),
      OpCommit demoClock 0 False])) = [(''a'', Showing), (''b'', Showing)]"
  by (simp add: demo_eval)

text \<open>
  A cancellation that arrives while a non-interactive resolution is being committed is lost
  when the commit fails: the request is shown again after everything was cancelled.
\<close>

lemma cancellation_lost:
  "map (\<lambda>x. (fst x, pe_status (snd x), pe_deferredTerminal (snd x) = None)) (bk_pending (demoRun True
     [OpListen, OpRequest demoClock (demoAsk ''a''), OpBefore demoClock 0 (Accepted False),
      OpResolveNonInteractive demoClock ''a'', OpCancelAll (\<lambda>i. demoClock) SessionEnd, OpCommit demoClock 0 False])) =
   [(''a'', Showing, True)]"
  by (simp add: demo_eval MAX_INTERACTION_RESPONSE_TEXT_BYTES_def denyReason_def)

text \<open>
  Without a surface a request is in none of the broker's maps while its call waits for the
  observer, so a second request with the same id is not refused and its listeners are told
  twice.
\<close>

lemma duplicate_id_admitted:
  "filter (\<lambda>x. case x of NotifyResolved i d \<Rightarrow> i = ''a'' | _ \<Rightarrow> False) (bk_log (demoRun False
     [OpRequest demoClock (demoAsk ''a''), OpRequest demoClock (demoAsk ''a''), OpAfter demoClock 0 True, OpAfter demoClock 1 True])) =
   replicate 2 (NotifyResolved ''a'' (Deny (Some (denyReason ''interactive''))))"
  by (simp add: demo_eval numeral_2_eq_2)

end
