(* ===== verification/Regex.thy ===== *)
theory Regex
  imports Prelude
begin

text \<open>
  The part of JavaScript's strings and regular expressions that the security sources use.
  In the theories about security a character is one UTF-16 unit, below 256. A pattern is a
  syntax tree and \<open>steps\<close> enumerates what it can consume from a position, in the
  order in which a backtracking engine tries the possibilities: \<open>regexTest\<close> is
  \<^verbatim>\<open>RegExp.prototype.test\<close>, \<open>regexFirst\<close> the leftmost match that \<^verbatim>\<open>match\<close> and \<^verbatim>\<open>replace\<close> use.
\<close>

section \<open>Strings\<close>

definition code :: "char \<Rightarrow> nat" where
  "code c = of_char c"

definition lowerChar :: "char \<Rightarrow> char" where
  "lowerChar c = (let n = code c in
     if 65 \<le> n \<and> n \<le> 90 \<or> 192 \<le> n \<and> n \<le> 222 \<and> n \<noteq> 215 then char_of (n + 32) else c)"

definition toLowerCase :: "string \<Rightarrow> string" where
  "toLowerCase s = map lowerChar s"

text \<open>
  \<^verbatim>\<open>toUpperCase\<close>. The micro sign and y with diaeresis have upper case forms above 255; they
  stay as they are here, which no comparison of two results can tell.
\<close>

definition upperChar :: "char \<Rightarrow> char" where
  "upperChar c = (let n = code c in
     if 97 \<le> n \<and> n \<le> 122 \<or> 224 \<le> n \<and> n \<le> 254 \<and> n \<noteq> 247 then char_of (n - 32) else c)"

definition toUpperCase :: "string \<Rightarrow> string" where
  "toUpperCase s = concat (map (\<lambda>c. if code c = 223 then ''SS'' else [upperChar c]) s)"

definition isSpace :: "char \<Rightarrow> bool" where
  "isSpace c \<longleftrightarrow> (let n = code c in 9 \<le> n \<and> n \<le> 13 \<or> n = 32 \<or> n = 160)"

definition trim :: "string \<Rightarrow> string" where
  "trim s = rev (dropWhile isSpace (rev (dropWhile isSpace s)))"

definition startsWith :: "string \<Rightarrow> string \<Rightarrow> bool" where
  "startsWith p s \<longleftrightarrow> take (length p) s = p"

definition endsWith :: "string \<Rightarrow> string \<Rightarrow> bool" where
  "endsWith p s \<longleftrightarrow> startsWith (rev p) (rev s)"

fun includesText :: "string \<Rightarrow> string \<Rightarrow> bool" where
  "includesText p [] \<longleftrightarrow> p = []"
| "includesText p (c # s) \<longleftrightarrow> startsWith p (c # s) \<or> includesText p s"

text \<open>\<^verbatim>\<open>s.split(sep)\<close> at every character of a class, and \<^verbatim>\<open>s.split(/\s+/)\<close>.\<close>

fun splitOn :: "(char \<Rightarrow> bool) \<Rightarrow> string \<Rightarrow> string list" where
  "splitOn P [] = [[]]"
| "splitOn P (c # s) =
     (if P c then [] # splitOn P s else (c # hd (splitOn P s)) # tl (splitOn P s))"

function splitSpaces :: "string \<Rightarrow> string list" where
  "splitSpaces s =
     (let w = takeWhile (\<lambda>c. \<not> isSpace c) s; rest = dropWhile (\<lambda>c. \<not> isSpace c) s in
      if rest = [] then [w] else w # splitSpaces (dropWhile isSpace rest))"
  by pat_completeness auto
termination
proof (relation "measure length", simp)
  fix s w rest assume *: "w = takeWhile (\<lambda>c. \<not> isSpace c) s" "rest = dropWhile (\<lambda>c. \<not> isSpace c) s" "rest \<noteq> []"
  then obtain c t where ct: "rest = c # t" by (meson neq_Nil_conv)
  then have "isSpace c" using * by (metis dropWhile_eq_Cons_conv)
  then have "length (dropWhile isSpace rest) < length rest"
    using ct length_dropWhile_le [of isSpace t] by simp
  also have "\<dots> \<le> length s" using * by (simp add: length_dropWhile_le)
  finally show "(dropWhile isSpace rest, s) \<in> measure length" by simp
qed

declare splitSpaces.simps [simp del]

definition replaceChar :: "char \<Rightarrow> char \<Rightarrow> string \<Rightarrow> string" where
  "replaceChar a b s = map (\<lambda>c. if c = a then b else c) s"

lemma startsWith_Nil [simp]: "startsWith [] s"
  by (simp add: startsWith_def)

lemma startsWith_iff: "startsWith p s \<longleftrightarrow> (\<exists>t. s = p @ t)"
  unfolding startsWith_def by (metis append_eq_conv_conj append_take_drop_id)

lemma includesText_iff: "includesText p s \<longleftrightarrow> (\<exists>a b. s = a @ p @ b)"
proof (induction s)
  case (Cons c s)
  have "(\<exists>a b. c # s = a @ p @ b) \<longleftrightarrow> (\<exists>b. c # s = p @ b) \<or> (\<exists>a b. s = a @ p @ b)"
    by (metis append_Cons append_self_conv2 list.inject neq_Nil_conv)
  then show ?case by (simp add: Cons.IH startsWith_iff)
qed simp

lemma splitOn_nonempty [simp]: "splitOn P s \<noteq> []"
  by (cases s) auto

section \<open>Patterns\<close>

text \<open>
  A class is a list of ranges, negated or not. \<open>Start\<close> and \<open>End\<close> are the anchors without the
  multiline flag, \<open>Boundary\<close> is \<^verbatim>\<open>\b\<close>.
\<close>

datatype regex =
    Class bool "(char \<times> char) list"
  | Start
  | End
  | Boundary
  | Seqs "regex list"
  | Alts "regex list"
  | Many regex

abbreviation Lit :: "char \<Rightarrow> regex" where
  "Lit c \<equiv> Class True [(c, c)]"

abbreviation Word :: "string \<Rightarrow> regex" where
  "Word w \<equiv> Seqs (map Lit w)"

abbreviation Dot :: regex where
  "Dot \<equiv> Class False [(CHR 0x0A, CHR 0x0A), (CHR 0x0D, CHR 0x0D)]"

abbreviation Space :: regex where
  "Space \<equiv> Class True [(CHR 0x09, CHR 0x0D), (CHR 0x20, CHR 0x20), (CHR 0xA0, CHR 0xA0)]"

abbreviation Some1 :: "regex \<Rightarrow> regex" where
  "Some1 r \<equiv> Seqs [r, Many r]"

abbreviation Opt :: "regex \<Rightarrow> regex" where
  "Opt r \<equiv> Alts [r, Seqs []]"

definition inRange :: "char \<Rightarrow> char \<times> char \<Rightarrow> bool" where
  "inRange c r \<longleftrightarrow> code (fst r) \<le> code c \<and> code c \<le> code (snd r)"

definition inRanges :: "bool \<Rightarrow> (char \<times> char) list \<Rightarrow> char \<Rightarrow> bool" where
  "inRanges ci rs c \<longleftrightarrow>
     list_ex (\<lambda>r. inRange c r \<or> ci \<and> (inRange (lowerChar c) r \<or> inRange (upperChar c) r)) rs"

definition isWordChar :: "char \<Rightarrow> bool" where
  "isWordChar c \<longleftrightarrow> (let n = code c in
     48 \<le> n \<and> n \<le> 57 \<or> 65 \<le> n \<and> n \<le> 90 \<or> n = 95 \<or> 97 \<le> n \<and> n \<le> 122)"

text \<open>A position: the character before it, if any, and the rest of the text.\<close>

type_synonym pos = "char option \<times> string"

definition wordBefore :: "pos \<Rightarrow> bool" where
  "wordBefore st = (case fst st of None \<Rightarrow> False | Some c \<Rightarrow> isWordChar c)"

definition wordAfter :: "pos \<Rightarrow> bool" where
  "wordAfter st = (case snd st of [] \<Rightarrow> False | c # _ \<Rightarrow> isWordChar c)"

text \<open>
  Repetition: another round is tried first and must consume something, as the engine
  requires. A round shortens the rest, so its length bounds the number of rounds.
\<close>

primrec manyFrom :: "(pos \<Rightarrow> pos list) \<Rightarrow> nat \<Rightarrow> pos \<Rightarrow> pos list" where
  "manyFrom f 0 st = [st]"
| "manyFrom f (Suc n) st =
     concat (map (manyFrom f n) (filter (\<lambda>st'. length (snd st') < length (snd st)) (f st))) @ [st]"

fun steps :: "bool \<Rightarrow> regex \<Rightarrow> pos \<Rightarrow> pos list" where
  "steps ci (Class pos rs) st =
     (case snd st of [] \<Rightarrow> [] | c # s \<Rightarrow> if inRanges ci rs c = pos then [(Some c, s)] else [])"
| "steps ci Start st = (if fst st = None then [st] else [])"
| "steps ci End st = (if snd st = [] then [st] else [])"
| "steps ci Boundary st = (if wordBefore st \<noteq> wordAfter st then [st] else [])"
| "steps ci (Seqs []) st = [st]"
| "steps ci (Seqs (r # rs)) st = concat (map (steps ci (Seqs rs)) (steps ci r st))"
| "steps ci (Alts []) st = []"
| "steps ci (Alts (r # rs)) st = steps ci r st @ steps ci (Alts rs) st"
| "steps ci (Many r) st = manyFrom (steps ci r) (length (snd st)) st"

text \<open>Search from every position, left to right.\<close>

fun searchFrom :: "bool \<Rightarrow> regex \<Rightarrow> char option \<Rightarrow> string \<Rightarrow> (pos \<times> pos) option" where
  "searchFrom ci r p s =
     (case steps ci r (p, s) of
        st # _ \<Rightarrow> Some ((p, s), st)
      | [] \<Rightarrow> (case s of [] \<Rightarrow> None | c # s' \<Rightarrow> searchFrom ci r (Some c) s'))"

definition regexFirst :: "bool \<Rightarrow> regex \<Rightarrow> string \<Rightarrow> (pos \<times> pos) option" where
  "regexFirst ci r s = searchFrom ci r None s"

definition regexTest :: "bool \<Rightarrow> regex \<Rightarrow> string \<Rightarrow> bool" where
  "regexTest ci r s \<longleftrightarrow> regexFirst ci r s \<noteq> None"

declare searchFrom.simps [simp del]

end
