(* ===== verification/Security_Types.thy ===== *)
theory Security_Types
  imports Regex Canonical
begin

text \<open>
  The data of the security component (\<^verbatim>\<open>packages/core/src/security/types.ts\<close>, \<^verbatim>\<open>trust.ts\<close> and the
  types of \<^verbatim>\<open>command-analyzer.ts\<close> and \<^verbatim>\<open>execution-guard.ts\<close>), and the host: the functions of
  Node's \<^verbatim>\<open>path\<close>, \<^verbatim>\<open>fs\<close> and \<^verbatim>\<open>os\<close> that the sources call, as fields of a record that every
  definition takes. Display texts of the sources are given in English.
\<close>

section \<open>The host\<close>

text \<open>
  \<open>pathResolve base p\<close> is \<^verbatim>\<open>path.resolve(base, p)\<close>; \<open>realpath\<close> fails for a path that does not
  exist.
\<close>

record host =
  win32 :: bool
  homedir :: string
  pathSep :: string
  pathResolve :: "string \<Rightarrow> string \<Rightarrow> string"
  pathResolve1 :: "string \<Rightarrow> string"
  isAbsolute :: "string \<Rightarrow> bool"
  dirname :: "string \<Rightarrow> string"
  basename :: "string \<Rightarrow> string"
  pathNormalize :: "string \<Rightarrow> string"
  pathJoin :: "string list \<Rightarrow> string"
  realpath :: "string \<Rightarrow> string option"

definition expandUserHome :: "host \<Rightarrow> string \<Rightarrow> string" where
  "expandUserHome h input =
     (if input = ''~'' then homedir h
      else if startsWith ''~/'' input \<or> startsWith [CHR ''~'', CHR 0x5C] input
      then pathJoin h [homedir h, drop 2 input]
      else input)"

section \<open>Sessions, risks and operations\<close>

datatype sessionType = Interactive | Ci | Gateway | Api

datatype threatCategory =
    DataExfiltration | PrivilegeEscalation | CodeInjection | PathTraversal | EnvManipulation
  | NetworkAbuse | DestructiveOperation | PromptInjection | SupplyChain

datatype riskLevel = Low | Medium | High | Critical

datatype securityAction = Allow | Confirm | Block

datatype ruleAction = RuleBlock | RuleConfirm | RuleAudit

datatype operationClass = Observe | Internal | External | OpCritical

datatype boundaryType =
    Filesystem | NetworkBoundary | Process | Secrets | SystemBoundary | Messaging | Calendar
  | ExternalService | Financial | AgentContext | AppState

record boundaryCrossing =
  boundaryType :: boundaryType
  crossAccess :: string
  dynamic :: bool

text \<open>\<^verbatim>\<open>ToolDefinition\<close>, as far as security reads it.\<close>

record toolDefinition =
  toolName :: string
  toolBoundaries :: "boundaryCrossing list option"
  permissionArgumentKey :: "string option"

datatype trustLevel = TrustGlobal | TrustWorkspace | TrustScene

datatype trustContext =
    GlobalTrust
  | WorkspaceTrust string
  | SceneTrust string "string option"

fun workspaceDirOf :: "trustContext \<Rightarrow> string option" where
  "workspaceDirOf (WorkspaceTrust dir) = Some dir"
| "workspaceDirOf _ = None"

section \<open>Permission rules\<close>

datatype permissionDecision = PermitAllow | PermitDeny

datatype permissionScope = SessionScope | ContextScope | GlobalScope | BuiltinScope

datatype permissionContextId =
    MainContext
  | WorkspaceContext string "int option"
  | SceneContext string

datatype trustOrigin = FromUser | FromSteward

record trustContribution =
  origin :: trustOrigin
  timestamp :: int

record permissionRule =
  ruleId :: string
  patTool :: string
  patArgument :: string
  decision :: permissionDecision
  scope :: permissionScope
  createdAt :: int
  lastMatchedAt :: int
  matchCount :: int
  contextId :: "permissionContextId option"
  contextPath :: "string option"
  contributors :: "trustContribution list option"

section \<open>Policy rules\<close>

text \<open>
  A command pattern is the compiled expression with its ignore-case flag, or \<open>None\<close> when
  \<^verbatim>\<open>new RegExp\<close> rejects the pattern.
\<close>

datatype pathAccess = ReadAccess | WriteAccess | AnyAccess

datatype direction = Inbound | Outbound

datatype compositeOp = OpAnd | OpOr | OpNot

datatype matchSpec =
    CommandSpec "(bool \<times> regex) option"
  | CommandPrefixSpec "string list"
  | PathSpec "string list" pathAccess
  | NetworkSpec "string list option" "int list option" "direction option"
  | EnvVarSpec "string list"
  | ToolSpec "string list"
  | InterpreterSpec "string list"
  | CompositeSpec compositeOp "matchSpec list"

datatype ruleSource = BuiltinSource | ProjectSource | UserSource | CommunitySource

record securityRule =
  srId :: string
  srName :: string
  srDescription :: string
  enabled :: bool
  matchOf :: matchSpec
  srAction :: ruleAction
  bypassImmune :: bool
  severity :: riskLevel
  category :: threatCategory
  srSource :: ruleSource
  message :: string
  srSuggestion :: "string option"

section \<open>Requests and decisions\<close>

record subcommandInfo =
  executable :: string
  subArguments :: "string list"
  subcommand :: "string option"
  isInterpreterEval :: bool

record redirectSpec =
  redirOperator :: string
  redirTarget :: string

record commandAnalysis =
  rawCommand :: string
  subcommands :: "subcommandInfo list"
  chainOperators :: "string list"
  hasChain :: bool
  redirects :: "redirectSpec list"
  accessedPaths :: "string list"
  accessedHosts :: "string list"
  usedEnvVars :: "string list"
  hasCommandSubstitution :: bool
  hasInterpreterEval :: bool

record resolvedAccess =
  raPaths :: "string list option"
  raCommands :: "string list option"
  raHosts :: "string list option"
  raEnvVars :: "string list option"
  commandAnalysis :: "commandAnalysis option"

definition emptyAccess :: resolvedAccess where
  "emptyAccess = \<lparr>raPaths = None, raCommands = None, raHosts = None, raEnvVars = None, commandAnalysis = None\<rparr>"

record securityRequest =
  reqTool :: string
  reqArguments :: "(string, json) omap"
  cwd :: string
  trust :: trustContext
  sessionType :: sessionType
  resolved :: "resolvedAccess option"

definition argOf :: "securityRequest \<Rightarrow> string \<Rightarrow> json" where
  "argOf r k = (case map_of (reqArguments r) k of None \<Rightarrow> JUndefined | Some v \<Rightarrow> v)"

definition accessOf :: "securityRequest \<Rightarrow> resolvedAccess" where
  "accessOf r = (case resolved r of None \<Rightarrow> emptyAccess | Some a \<Rightarrow> a)"

text \<open>Why a decision was taken; the sources keep a text.\<close>

datatype reason =
    NoRuleMatched
  | RuleMessage string
  | ImpactReason operationClass
  | PermittedBy string string permissionScope
  | DeniedBy string string permissionScope
  | RateExceeded string int int

record securityDecision =
  action :: securityAction
  matchedRules :: "securityRule list"
  reason :: reason
  riskLevel :: riskLevel
  suggestion :: "string option"

record executionConstraints =
  timeoutMs :: int
  maxOutputBytes :: int
  rateLimited :: bool
  rateRemaining :: int
  rateWindowMs :: int
  rateLimit :: int

record middlewareState =
  stDecision :: "securityDecision option"
  stOperationClass :: "operationClass option"
  stTrustLevel :: "trustLevel option"
  stMatchedRule :: "permissionRule option"
  stConstraints :: "executionConstraints option"
  stResolvedPaths :: "string list option"

record middlewareContext =
  request :: securityRequest
  ctxToolName :: string
  toolInput :: "(string, json) omap"
  workingDirectory :: string
  permissionRules :: "permissionRule list option"
  ctxState :: middlewareState

record middlewareResult =
  allowed :: bool
  requiresConfirmation :: bool
  resOperationClass :: "operationClass option"
  resTrustLevel :: "trustLevel option"
  resDecision :: "securityDecision option"
  resMatchedRule :: "permissionRule option"
  resConstraints :: "executionConstraints option"
  resReason :: "reason option"
  resResolvedPaths :: "string list option"

section \<open>Values of arguments\<close>

text \<open>\<^verbatim>\<open>Boolean(v)\<close> and \<^verbatim>\<open>String(v)\<close>.\<close>

fun jsTruthy :: "json \<Rightarrow> bool" where
  "jsTruthy JUndefined = False"
| "jsTruthy JNull = False"
| "jsTruthy (JBool b) = b"
| "jsTruthy (JInt i) = (i \<noteq> 0)"
| "jsTruthy (JFloat t) = (t \<noteq> ''NaN'')"
| "jsTruthy (JStr s) = (s \<noteq> [])"
| "jsTruthy (JArr _) = True"
| "jsTruthy (JObj _) = True"

fun joinWith :: "string \<Rightarrow> string list \<Rightarrow> string" where
  "joinWith sep [] = []"
| "joinWith sep [s] = s"
| "joinWith sep (s # t # ts) = s @ sep @ joinWith sep (t # ts)"

fun jsString :: "json \<Rightarrow> string" where
  "jsString JUndefined = ''undefined''"
| "jsString JNull = ''null''"
| "jsString (JBool b) = (if b then ''true'' else ''false'')"
| "jsString (JInt i) = show_int i"
| "jsString (JFloat t) = t"
| "jsString (JStr s) = s"
| "jsString (JArr vs) =
     joinWith '','' (map (\<lambda>v. case v of JUndefined \<Rightarrow> [] | JNull \<Rightarrow> [] | _ \<Rightarrow> jsString v) vs)"
| "jsString (JObj _) = ''[object Object]''"

end
