(* ===== verification/Security_Policy.thy ===== *)
theory Security_Policy
  imports Security_Types
begin

text \<open>
  The policy engine (\<^verbatim>\<open>packages/core/src/security/policy-engine.ts\<close>) with the rules it starts
  from (\<^verbatim>\<open>builtin-rules.ts\<close>). A request is matched against the active rules; a matcher that
  meets an argument of the wrong type throws, so matching gives a result or an error, and
  \<^verbatim>\<open>some\<close>, \<^verbatim>\<open>every\<close> and \<^verbatim>\<open>filter\<close> stop at the first throw.
\<close>

section \<open>Iteration of predicates that may throw\<close>

text \<open>\<open>JsNoReturn\<close> stands for a loop that does not end.\<close>

datatype jsError = JsTypeError | JsSyntaxError | JsNoReturn

type_synonym 'a js = "(jsError, 'a) result"

fun someR :: "('a \<Rightarrow> ('e, bool) result) \<Rightarrow> 'a list \<Rightarrow> ('e, bool) result" where
  "someR p [] = Inr False"
| "someR p (x # xs) = andThen (p x) (\<lambda>b. if b then Inr True else someR p xs)"

fun everyR :: "('a \<Rightarrow> ('e, bool) result) \<Rightarrow> 'a list \<Rightarrow> ('e, bool) result" where
  "everyR p [] = Inr True"
| "everyR p (x # xs) = andThen (p x) (\<lambda>b. if b then everyR p xs else Inr False)"

fun filterR :: "('a \<Rightarrow> ('e, bool) result) \<Rightarrow> 'a list \<Rightarrow> ('e, 'a list) result" where
  "filterR p [] = Inr []"
| "filterR p (x # xs) =
     andThen (p x) (\<lambda>b. andThen (filterR p xs) (\<lambda>ys. Inr (if b then x # ys else ys)))"

definition notR :: "('e, bool) result \<Rightarrow> ('e, bool) result" where
  "notR r = andThen r (\<lambda>b. Inr (\<not> b))"

lemma someR_cong [fundef_cong]:
  assumes "xs = ys" and "\<And>x. x \<in> set ys \<Longrightarrow> p x = q x"
  shows "someR p xs = someR q ys"
  using assms(2) unfolding assms(1) by (induction ys) (auto cong: if_cong)

lemma everyR_cong [fundef_cong]:
  assumes "xs = ys" and "\<And>x. x \<in> set ys \<Longrightarrow> p x = q x"
  shows "everyR p xs = everyR q ys"
  using assms(2) unfolding assms(1) by (induction ys) (auto cong: if_cong)

lemma filterR_cong:
  assumes "\<And>x. x \<in> set xs \<Longrightarrow> p x = q x"
  shows "filterR p xs = filterR q xs"
  using assms by (induction xs) auto

lemma someR_Inr [simp]: "someR (\<lambda>x. Inr (P x)) xs = Inr (list_ex P xs)"
  by (induction xs) auto

lemma everyR_Inr [simp]: "everyR (\<lambda>x. Inr (P x)) xs = Inr (list_all P xs)"
  by (induction xs) auto

lemma filterR_Inr_iff:
  "filterR p xs = Inr ys \<longleftrightarrow>
     (\<forall>x \<in> set xs. \<exists>b. p x = Inr b) \<and> ys = filter (\<lambda>x. p x = Inr True) xs"
proof (induction xs arbitrary: ys)
  case (Cons x xs)
  show ?case
  proof (cases "p x")
    case (Inr b)
    then show ?thesis using Cons.IH by (auto simp: result_simps)
  qed simp
qed auto

section \<open>Orders\<close>

fun ACTION_SEVERITY :: "ruleAction \<Rightarrow> nat" where
  "ACTION_SEVERITY RuleAudit = 1"
| "ACTION_SEVERITY RuleConfirm = 2"
| "ACTION_SEVERITY RuleBlock = 3"

fun SOURCE_PRIORITY :: "ruleSource \<Rightarrow> nat" where
  "SOURCE_PRIORITY BuiltinSource = 0"
| "SOURCE_PRIORITY CommunitySource = 1"
| "SOURCE_PRIORITY ProjectSource = 2"
| "SOURCE_PRIORITY UserSource = 3"

fun riskIndex :: "riskLevel \<Rightarrow> nat" where
  "riskIndex Low = 0"
| "riskIndex Medium = 1"
| "riskIndex High = 2"
| "riskIndex Critical = 3"

section \<open>What a request accesses\<close>

definition isShellTool :: "string \<Rightarrow> bool" where
  "isShellTool t \<longleftrightarrow> t = ''bash'' \<or> t = ''shell''"

text \<open>\<^verbatim>\<open>null\<close> is \<open>JNull\<close>.\<close>

definition extractCommand :: "securityRequest \<Rightarrow> json" where
  "extractCommand r =
     (if isShellTool (reqTool r)
      then (case argOf r ''command'' of JUndefined \<Rightarrow> JNull | v \<Rightarrow> v)
      else case raCommands (accessOf r) of
             Some (c # _) \<Rightarrow> JStr c
           | _ \<Rightarrow> JNull)"

definition extractPaths :: "securityRequest \<Rightarrow> json list" where
  "extractPaths r =
     (case raPaths (accessOf r) of
        Some ps \<Rightarrow> map JStr ps
      | None \<Rightarrow> filter jsTruthy [argOf r ''path'', argOf r ''target'', argOf r ''file_path''])"

text \<open>\<^verbatim>\<open>(arguments["command"] as string | undefined)?.includes(">")\<close>\<close>

fun includesGreater :: "json \<Rightarrow> bool js" where
  "includesGreater JUndefined = Inr False"
| "includesGreater JNull = Inr False"
| "includesGreater (JStr s) = Inr (includesText ''>'' s)"
| "includesGreater (JArr vs) = Inr (list_ex (\<lambda>v. v = JStr ''>'') vs)"
| "includesGreater _ = Inl JsTypeError"

text \<open>A method of strings called on a value of another type throws.\<close>

fun asString :: "json \<Rightarrow> string js" where
  "asString (JStr s) = Inr s"
| "asString _ = Inl JsTypeError"

section \<open>Matchers\<close>

definition matchCommand :: "(bool \<times> regex) option \<Rightarrow> securityRequest \<Rightarrow> bool js" where
  "matchCommand pattern r =
     (if \<not> jsTruthy (extractCommand r) then Inr False
      else case pattern of
             None \<Rightarrow> Inl JsSyntaxError
           | Some (ci, re) \<Rightarrow> Inr (regexTest ci re (jsString (extractCommand r))))"

definition commandExecutable :: "string \<Rightarrow> string" where
  "commandExecutable command = toLowerCase (hd (splitSpaces (trim command)))"

definition matchCommandPrefix :: "string list \<Rightarrow> securityRequest \<Rightarrow> bool js" where
  "matchCommandPrefix prefixes r =
     (if \<not> jsTruthy (extractCommand r) then Inr False
      else andThen (asString (extractCommand r)) (\<lambda>command.
        Inr (list_ex (\<lambda>p. commandExecutable command = toLowerCase p) prefixes)))"

definition comparable :: "host \<Rightarrow> string \<Rightarrow> string" where
  "comparable h p =
     (let n = replaceChar (CHR 0x5C) (CHR 0x2F) p in if win32 h then toLowerCase n else n)"

definition matchSpecPath :: "host \<Rightarrow> string \<Rightarrow> string \<Rightarrow> bool" where
  "matchSpecPath h comparableInput specPath =
     (let expandedSpec = expandUserHome h specPath; comparableSpec = comparable h expandedSpec in
      if isAbsolute h expandedSpec then startsWith comparableSpec comparableInput
      else includesText (CHR 0x2F # comparableSpec) comparableInput \<or>
           startsWith comparableSpec comparableInput)"

definition matchPath :: "host \<Rightarrow> string list \<Rightarrow> pathAccess \<Rightarrow> securityRequest \<Rightarrow> bool js" where
  "matchPath h paths access r =
     (if extractPaths r = [] then Inr False
      else andThen (if reqTool r = ''write'' \<or> reqTool r = ''edit'' then Inr True
                    else includesGreater (argOf r ''command'')) (\<lambda>isWrite.
        if access \<noteq> AnyAccess \<and> access \<noteq> (if isWrite then WriteAccess else ReadAccess) then Inr False
        else someR (\<lambda>p. andThen (asString p) (\<lambda>s.
               Inr (list_ex (matchSpecPath h (comparable h (pathResolve h (cwd r) (expandUserHome h s)))) paths)))
             (extractPaths r)))"

definition matchNetwork :: "string list option \<Rightarrow> securityRequest \<Rightarrow> bool" where
  "matchNetwork hosts r =
     (case raHosts (accessOf r) of
        None \<Rightarrow> False
      | Some hs \<Rightarrow>
          hs \<noteq> [] \<and>
          (case hosts of
             Some (s # ss) \<Rightarrow> list_ex (\<lambda>h. list_ex (\<lambda>sh. toLowerCase h = toLowerCase sh) (s # ss)) hs
           | _ \<Rightarrow> True))"

text \<open>\<^verbatim>\<open>(^|\s|export\s+)NAME\s*=\<close>, with the name escaped.\<close>

definition envAssignment :: "string \<Rightarrow> regex" where
  "envAssignment name =
     Seqs [Alts [Start, Space, Seqs [Word ''export'', Some1 Space]], Word name, Many Space, Lit (CHR ''='')]"

definition matchEnvVar :: "string list \<Rightarrow> securityRequest \<Rightarrow> bool" where
  "matchEnvVar names r =
     (case raEnvVars (accessOf r) of
        Some (v # vs) \<Rightarrow> list_ex (\<lambda>v. list_ex (\<lambda>name. toUpperCase v = toUpperCase name) names) (v # vs)
      | _ \<Rightarrow>
          jsTruthy (extractCommand r) \<and>
          list_ex (\<lambda>name. regexTest False (envAssignment name) (jsString (extractCommand r))) names)"

definition matchTool :: "string list \<Rightarrow> securityRequest \<Rightarrow> bool" where
  "matchTool tools r = list_ex (\<lambda>t. toLowerCase t = toLowerCase (reqTool r)) tools"

definition matchInterpreter :: "string list \<Rightarrow> securityRequest \<Rightarrow> bool js" where
  "matchInterpreter languages r =
     (if \<not> jsTruthy (extractCommand r) then Inr False
      else andThen (asString (extractCommand r)) (\<lambda>command.
        Inr (list_ex (\<lambda>lang. commandExecutable command = toLowerCase lang \<or>
                             startsWith (toLowerCase lang) (commandExecutable command) \<or>
                             endsWith (CHR 0x2F # toLowerCase lang) (commandExecutable command)) languages)))"

fun matchesSpec :: "host \<Rightarrow> matchSpec \<Rightarrow> securityRequest \<Rightarrow> bool js" where
  "matchesSpec h (CommandSpec pattern) r = matchCommand pattern r"
| "matchesSpec h (CommandPrefixSpec prefixes) r = matchCommandPrefix prefixes r"
| "matchesSpec h (PathSpec paths access) r = matchPath h paths access r"
| "matchesSpec h (NetworkSpec hosts ports dir) r = Inr (matchNetwork hosts r)"
| "matchesSpec h (EnvVarSpec names) r = Inr (matchEnvVar names r)"
| "matchesSpec h (ToolSpec tools) r = Inr (matchTool tools r)"
| "matchesSpec h (InterpreterSpec languages) r = matchInterpreter languages r"
| "matchesSpec h (CompositeSpec OpAnd specs) r = everyR (\<lambda>s. matchesSpec h s r) specs"
| "matchesSpec h (CompositeSpec OpOr specs) r = someR (\<lambda>s. matchesSpec h s r) specs"
| "matchesSpec h (CompositeSpec OpNot specs) r = notR (someR (\<lambda>s. matchesSpec h s r) specs)"

section \<open>The engine\<close>

text \<open>Its state is the list of rules. A rule with a known id takes the place of the old one.\<close>

type_synonym policyEngine = "securityRule list"

fun putRule :: "securityRule \<Rightarrow> policyEngine \<Rightarrow> policyEngine" where
  "putRule rule [] = [rule]"
| "putRule rule (r # rs) = (if srId r = srId rule then rule # rs else r # putRule rule rs)"

definition loadRules :: "securityRule list \<Rightarrow> policyEngine \<Rightarrow> policyEngine" where
  "loadRules rules engine = fold putRule rules engine"

definition updateRule :: "securityRule \<Rightarrow> policyEngine \<Rightarrow> policyEngine" where
  "updateRule rule engine = loadRules [rule] engine"

definition getActiveRules :: "policyEngine \<Rightarrow> securityRule list" where
  "getActiveRules engine = filter enabled engine"

definition findMatchingRules :: "host \<Rightarrow> policyEngine \<Rightarrow> securityRequest \<Rightarrow> securityRule list js" where
  "findMatchingRules h engine r = filterR (\<lambda>rule. matchesSpec h (matchOf rule) r) (getActiveRules engine)"

definition dedupeById :: "securityRule list \<Rightarrow> securityRule list" where
  "dedupeById rules = omap_values (fold (\<lambda>rule m. omap_set (srId rule) rule m) rules [])"

definition resolveConflicts :: "securityRule list \<Rightarrow> securityRule list" where
  "resolveConflicts rules =
     sort_by (\<lambda>a b. ACTION_SEVERITY (srAction b) \<le> ACTION_SEVERITY (srAction a))
       (dedupeById (sort_by (\<lambda>a b. SOURCE_PRIORITY (srSource b) \<le> SOURCE_PRIORITY (srSource a)) rules))"

fun ruleActionToSecurityAction :: "ruleAction \<Rightarrow> securityAction" where
  "ruleActionToSecurityAction RuleBlock = Block"
| "ruleActionToSecurityAction RuleConfirm = Confirm"
| "ruleActionToSecurityAction RuleAudit = Allow"

definition aggregateRisk :: "securityRule list \<Rightarrow> riskLevel" where
  "aggregateRisk rules =
     [Low, Medium, High, Critical] !
       fold (\<lambda>rule maxIndex. if riskIndex (severity rule) > maxIndex then riskIndex (severity rule) else maxIndex) rules 0"

definition evaluatePolicy :: "host \<Rightarrow> policyEngine \<Rightarrow> securityRequest \<Rightarrow> securityDecision js" where
  "evaluatePolicy h engine r =
     andThen (findMatchingRules h engine r) (\<lambda>matched.
       if matched = []
       then Inr \<lparr>action = Allow, matchedRules = [], reason = NoRuleMatched, riskLevel = Low, suggestion = None\<rparr>
       else let resolvedRules = resolveConflicts matched; topRule = hd resolvedRules in
            Inr \<lparr>action = ruleActionToSecurityAction (srAction topRule), matchedRules = resolvedRules,
                 reason = RuleMessage (message topRule), riskLevel = aggregateRisk resolvedRules,
                 suggestion = srSuggestion topRule\<rparr>)"

section \<open>The rules it starts from\<close>

text \<open>The patterns of \<^verbatim>\<open>builtin-rules.ts\<close> as syntax trees.\<close>

abbreviation Quote :: regex where
  "Quote \<equiv> Class True [(CHR 0x22, CHR 0x22), (CHR 0x27, CHR 0x27)]"

abbreviation Letter :: regex where
  "Letter \<equiv> Class True [(CHR ''a'', CHR ''z''), (CHR ''A'', CHR ''Z'')]"

definition credentialStorePattern :: regex where
  "credentialStorePattern =
     Alts [
       Seqs [Alts [Word ''secret-tool'', Word ''keyctl'', Seqs [Word ''cmdkey'', Opt (Word ''.exe'')],
                   Seqs [Word ''vaultcmd'', Opt (Word ''.exe'')]],
             Alts [Seqs [Opt Quote, Space], End]],
       Seqs [Word ''security'', Opt Quote, Some1 Space,
             Many (Seqs [Lit (CHR ''-''), Some1 Letter, Some1 Space]),
             Alts [Word ''find-'', Word ''add-'', Word ''delete-'', Word ''dump-keychain'', Word ''unlock-keychain'',
                   Word ''set-keychain-password'', Seqs [Word ''import'', Boundary], Seqs [Word ''export'', Boundary]]]]"

text \<open>\<^verbatim>\<open>rm\s+(-[a-zA-Z]*r[a-zA-Z]*|--recursive)\<close> and \<^verbatim>\<open>mkfs|fdisk|dd\s+\<close>\<close>

definition rmPattern :: regex where
  "rmPattern =
     Seqs [Word ''rm'', Some1 Space,
           Alts [Seqs [Lit (CHR ''-''), Many Letter, Lit (CHR ''r''), Many Letter], Word ''--recursive'']]"

definition diskPattern :: regex where
  "diskPattern = Alts [Word ''mkfs'', Word ''fdisk'', Seqs [Word ''dd'', Some1 Space]]"

definition biGitWrite :: securityRule where
  "biGitWrite =
     \<lparr>srId = ''bi-git-write'', srName = ''Git internals write protection'',
      srDescription = ''no direct change of files in .git/'', enabled = True,
      matchOf = PathSpec [''.git/''] WriteAccess,
      srAction = RuleBlock, bypassImmune = True, severity = Critical, category = DestructiveOperation, srSource = BuiltinSource,
      message = ''files inside .git/ must not be changed directly'',
      srSuggestion = Some ''use git commands''\<rparr>"

definition biSshKeys :: securityRule where
  "biSshKeys =
     \<lparr>srId = ''bi-ssh-keys'', srName = ''SSH key protection'',
      srDescription = ''no access to the SSH key directory'', enabled = True,
      matchOf = PathSpec [''~/.ssh/''] AnyAccess,
      srAction = RuleBlock, bypassImmune = True, severity = Critical, category = DataExfiltration, srSource = BuiltinSource,
      message = ''the SSH key directory must not be accessed'',
      srSuggestion = None\<rparr>"

definition biEnvInjection :: securityRule where
  "biEnvInjection =
     \<lparr>srId = ''bi-env-injection'', srName = ''environment injection protection'',
      srDescription = ''no setting of variables that hijack binaries'', enabled = True,
      matchOf = EnvVarSpec [''LD_PRELOAD'', ''LD_LIBRARY_PATH'', ''DYLD_INSERT_LIBRARIES''],
      srAction = RuleBlock, bypassImmune = True, severity = Critical, category = EnvManipulation, srSource = BuiltinSource,
      message = ''variables that hijack binaries must not be set'',
      srSuggestion = None\<rparr>"

definition biConfigWrite :: securityRule where
  "biConfigWrite =
     \<lparr>srId = ''bi-zhixing-config-write'', srName = ''configuration write protection'',
      srDescription = ''changing the configuration directory needs a confirmation'', enabled = True,
      matchOf = PathSpec [''.zhixing/''] WriteAccess,
      srAction = RuleConfirm, bypassImmune = True, severity = Critical, category = PrivilegeEscalation, srSource = BuiltinSource,
      message = ''this operation changes the configuration'',
      srSuggestion = Some ''allow it after checking the change''\<rparr>"

definition biCredentials :: securityRule where
  "biCredentials =
     \<lparr>srId = ''bi-zhixing-credentials-block'', srName = ''secret store isolation'',
      srDescription = ''no access to the files of the secret store'', enabled = True,
      matchOf = PathSpec [''.zhixing/credentials.json'', ''.zhixing/secret-vault''] AnyAccess,
      srAction = RuleBlock, bypassImmune = True, severity = Critical, category = DataExfiltration, srSource = BuiltinSource,
      message = ''the secret store must not be accessed'',
      srSuggestion = Some ''use the configuration command on the device''\<rparr>"

definition biCredentialStore :: securityRule where
  "biCredentialStore =
     \<lparr>srId = ''bi-os-credential-store'', srName = ''system credential store isolation'',
      srDescription = ''no platform command on the credential store'', enabled = True,
      matchOf = CommandSpec (Some (True, credentialStorePattern)),
      srAction = RuleBlock, bypassImmune = True, severity = Critical, category = DataExfiltration, srSource = BuiltinSource,
      message = ''the system credential store must not be accessed'',
      srSuggestion = Some ''use the configuration flow''\<rparr>"

definition cfPathOverride :: securityRule where
  "cfPathOverride =
     \<lparr>srId = ''cf-path-override'', srName = ''PATH change'',
      srDescription = ''changing PATH may hijack binaries'', enabled = True,
      matchOf = EnvVarSpec [''PATH''],
      srAction = RuleConfirm, bypassImmune = False, severity = High, category = EnvManipulation, srSource = BuiltinSource,
      message = ''PATH will be changed'',
      srSuggestion = Some ''version managers do this''\<rparr>"

definition cfPrivilege :: securityRule where
  "cfPrivilege =
     \<lparr>srId = ''cf-privilege-escalation'', srName = ''privilege escalation'',
      srDescription = ''sudo, su and the like'', enabled = True,
      matchOf = CommandPrefixSpec [''sudo'', ''su'', ''doas'', ''pkexec''],
      srAction = RuleConfirm, bypassImmune = False, severity = High, category = PrivilegeEscalation, srSource = BuiltinSource,
      message = ''the command runs with higher privileges'',
      srSuggestion = None\<rparr>"

definition cfDestructive :: securityRule where
  "cfDestructive =
     \<lparr>srId = ''cf-destructive-commands'', srName = ''destructive commands'',
      srDescription = ''commands that may delete data irreversibly'', enabled = True,
      matchOf = CompositeSpec OpOr [CommandSpec (Some (True, rmPattern)), CommandSpec (Some (True, diskPattern)), CommandPrefixSpec [''format'', ''diskpart'']],
      srAction = RuleConfirm, bypassImmune = False, severity = High, category = DestructiveOperation, srSource = BuiltinSource,
      message = ''the command may delete data irreversibly'',
      srSuggestion = Some ''make a backup first''\<rparr>"

definition cfNetwork :: securityRule where
  "cfNetwork =
     \<lparr>srId = ''cf-network-tools'', srName = ''network tools'',
      srDescription = ''commands that access the network'', enabled = True,
      matchOf = CommandPrefixSpec [''curl'', ''wget'', ''nc'', ''ncat'', ''ssh'', ''scp'', ''sftp'', ''ftp''],
      srAction = RuleConfirm, bypassImmune = False, severity = Medium, category = NetworkAbuse, srSource = BuiltinSource,
      message = ''the command accesses the network'',
      srSuggestion = None\<rparr>"

definition cfInterpreter :: securityRule where
  "cfInterpreter =
     \<lparr>srId = ''cf-interpreter-exec'', srName = ''interpreters'',
      srDescription = ''code run by an interpreter escapes command checks'', enabled = True,
      matchOf = InterpreterSpec [''python'', ''node'', ''ruby'', ''perl'', ''php''],
      srAction = RuleConfirm, bypassImmune = False, severity = Medium, category = CodeInjection, srSource = BuiltinSource,
      message = ''code run by an interpreter escapes command checks'',
      srSuggestion = Some ''review the script''\<rparr>"

definition cfSystemConfig :: securityRule where
  "cfSystemConfig =
     \<lparr>srId = ''cf-system-config'', srName = ''system configuration'',
      srDescription = ''changes of system configuration files'', enabled = True,
      matchOf = PathSpec [''/etc/'', ''/boot/'', ''/usr/lib/systemd/''] WriteAccess,
      srAction = RuleConfirm, bypassImmune = False, severity = High, category = PrivilegeEscalation, srSource = BuiltinSource,
      message = ''the operation changes system configuration'',
      srSuggestion = None\<rparr>"

definition BUILTIN_RULES :: "securityRule list" where
  "BUILTIN_RULES =
     [biGitWrite, biSshKeys, biEnvInjection, biConfigWrite, biCredentials, biCredentialStore,
      cfPathOverride, cfPrivilege, cfDestructive, cfNetwork, cfInterpreter, cfSystemConfig]"

lemmas builtin_rule_defs =
  biGitWrite_def biSshKeys_def biEnvInjection_def biConfigWrite_def biCredentials_def biCredentialStore_def cfPathOverride_def cfPrivilege_def cfDestructive_def cfNetwork_def cfInterpreter_def cfSystemConfig_def

text \<open>Paths that the composition root protects: absolute, not the root, without duplicates.\<close>

definition pathIdentity :: "host \<Rightarrow> string \<Rightarrow> string" where
  "pathIdentity h p = (if win32 h then toLowerCase p else p)"

fun normalizeFrom :: "host \<Rightarrow> string list \<Rightarrow> string list \<Rightarrow> string list \<Rightarrow> string list js" where
  "normalizeFrom h seen normalized [] = Inr normalized"
| "normalizeFrom h seen normalized (candidate # rest) =
     (if trim candidate = [] then Inl JsTypeError
      else if \<not> isAbsolute h candidate then Inl JsTypeError
      else let p = pathResolve1 h candidate in
        if dirname h p = p then Inl JsTypeError
        else if pathIdentity h p \<in> set seen then normalizeFrom h seen normalized rest
        else normalizeFrom h (seen @ [pathIdentity h p]) (normalized @ [p]) rest)"

definition normalizeSystemProtectedPaths :: "host \<Rightarrow> string list \<Rightarrow> string list js" where
  "normalizeSystemProtectedPaths h paths = normalizeFrom h [] [] paths"

definition protectedPathsRule :: "string list \<Rightarrow> securityRule" where
  "protectedPathsRule paths =
     \<lparr>srId = ''bi-system-protected-paths'', srName = ''host secret path isolation'',
      srDescription = ''no access to the secret files that the composition root declares'', enabled = True,
      matchOf = PathSpec paths AnyAccess,
      srAction = RuleBlock, bypassImmune = True, severity = Critical, category = DataExfiltration, srSource = BuiltinSource,
      message = ''the declared secret files must not be accessed'',
      srSuggestion = Some ''change them through the product''\<rparr>"

definition newPolicyEngine :: "host \<Rightarrow> string list \<Rightarrow> policyEngine js" where
  "newPolicyEngine h systemProtectedPaths =
     andThen (normalizeSystemProtectedPaths h systemProtectedPaths) (\<lambda>paths.
       let engine = loadRules BUILTIN_RULES [] in
       Inr (if paths = [] then engine else loadRules [protectedPathsRule paths] engine))"

end
