(* ===== verification/Security_Rules.thy ===== *)
theory Security_Rules
  imports Security_Policy
begin

text \<open>
  Facts about the policy engine: ids stay distinct however rules are loaded, so deduplication
  loses nothing, and the first resolved rule has the most severe action.
\<close>

section \<open>Sorting by a key\<close>

lemma sorted_insert_by:
  fixes k :: "'a \<Rightarrow> nat"
  assumes "sorted_wrt (\<lambda>a b. k b \<le> k a) ys"
  shows "sorted_wrt (\<lambda>a b. k b \<le> k a) (insert_by (\<lambda>a b. k b \<le> k a) x ys)"
  using assms by (induction ys) (auto intro: order_trans)

lemma sorted_sort_by: "sorted_wrt (\<lambda>a b. k b \<le> k a) (sort_by (\<lambda>a b. k b \<le> k a) xs)"
  for k :: "'a \<Rightarrow> nat"
  unfolding sort_by_def by (induction xs) (simp_all add: sorted_insert_by)

lemma sort_by_eq_Nil [simp]: "sort_by le xs = [] \<longleftrightarrow> xs = []"
  by (metis length_0_conv length_sort_by)

lemma mset_insert_by [simp]: "mset (insert_by le x ys) = add_mset x (mset ys)"
  by (induction ys) auto

lemma mset_sort_by [simp]: "mset (sort_by le xs) = mset xs"
  unfolding sort_by_def by (induction xs) auto

lemma hd_sort_by:
  fixes k :: "'a \<Rightarrow> nat"
  assumes "xs \<noteq> []"
  shows "hd (sort_by (\<lambda>a b. k b \<le> k a) xs) \<in> set xs"
    and "y \<in> set xs \<Longrightarrow> k y \<le> k (hd (sort_by (\<lambda>a b. k b \<le> k a) xs))"
proof -
  let ?ys = "sort_by (\<lambda>a b. k b \<le> k a) xs"
  have ne: "?ys \<noteq> []" using assms by simp
  then obtain z zs where zs: "?ys = z # zs" by (meson neq_Nil_conv)
  show "hd ?ys \<in> set xs" using ne hd_in_set set_sort_by by metis
  assume "y \<in> set xs"
  then have "y \<in> set (z # zs)" by (metis set_sort_by zs)
  then show "k y \<le> k (hd ?ys)" using sorted_sort_by [of k xs] zs by auto
qed

section \<open>Distinct ids\<close>

definition idsDistinct :: "securityRule list \<Rightarrow> bool" where
  "idsDistinct rs \<longleftrightarrow> distinct (map srId rs)"

lemma putRule_ids: "set (map srId (putRule r rs)) = insert (srId r) (set (map srId rs))"
  by (induction rs) auto

lemma putRule_distinct: "idsDistinct rs \<Longrightarrow> idsDistinct (putRule r rs)"
  unfolding idsDistinct_def
proof (induction rs)
  case (Cons x xs)
  then show ?case using putRule_ids [of r xs] by auto
qed simp

lemma loadRules_distinct: "idsDistinct e \<Longrightarrow> idsDistinct (loadRules rs e)"
  unfolding loadRules_def by (induction rs arbitrary: e) (auto simp: putRule_distinct)

lemma newPolicyEngine_distinct: "newPolicyEngine h paths = Inr e \<Longrightarrow> idsDistinct e"
  by (auto simp: newPolicyEngine_def andThen_eq_Inr Let_def loadRules_distinct idsDistinct_def
      split: if_splits intro!: loadRules_distinct [unfolded idsDistinct_def])

lemma idsDistinct_filter: "idsDistinct rs \<Longrightarrow> idsDistinct (filter P rs)"
  by (simp add: idsDistinct_def distinct_map_filter)

lemma idsDistinct_sort: "idsDistinct rs \<Longrightarrow> idsDistinct (sort_by le rs)"
proof -
  have "mset (map srId (sort_by le rs)) = mset (map srId rs)" by (simp only: mset_map mset_sort_by)
  then show "idsDistinct rs \<Longrightarrow> idsDistinct (sort_by le rs)"
    unfolding idsDistinct_def by (metis mset_eq_imp_distinct_iff)
qed

lemma update_new: "k \<notin> set (map fst m) \<Longrightarrow> AList.update k v m = m @ [(k, v)]"
  by (induction m) auto

lemma dedupe_from:
  assumes "distinct (map fst m @ map srId rs)"
  shows "omap_values (fold (\<lambda>r m. omap_set (srId r) r m) rs m) = omap_values m @ rs"
  using assms
proof (induction rs arbitrary: m)
  case (Cons r rs)
  then have "omap_set (srId r) r m = m @ [(srId r, r)]" by (simp add: update_new)
  moreover have "distinct (map fst (m @ [(srId r, r)]) @ map srId rs)" using Cons.prems by auto
  ultimately show ?case using Cons.IH [of "m @ [(srId r, r)]"] by simp
qed simp

lemma dedupe_distinct: "idsDistinct rs \<Longrightarrow> dedupeById rs = rs"
  using dedupe_from [of "[]" rs] by (simp add: dedupeById_def idsDistinct_def)

lemma resolved_rules:
  assumes "idsDistinct rs"
  shows "mset (resolveConflicts rs) = mset rs"
  by (simp add: resolveConflicts_def dedupe_distinct [OF idsDistinct_sort [OF assms]])

lemma resolved_top:
  assumes "idsDistinct rs" and "rs \<noteq> []"
  shows "hd (resolveConflicts rs) \<in> set rs"
    and "y \<in> set rs \<Longrightarrow> ACTION_SEVERITY (srAction y) \<le> ACTION_SEVERITY (srAction (hd (resolveConflicts rs)))"
proof -
  let ?s = "sort_by (\<lambda>a b. SOURCE_PRIORITY (srSource b) \<le> SOURCE_PRIORITY (srSource a)) rs"
  have eq: "resolveConflicts rs = sort_by (\<lambda>a b. ACTION_SEVERITY (srAction b) \<le> ACTION_SEVERITY (srAction a)) ?s"
    by (simp add: resolveConflicts_def dedupe_distinct [OF idsDistinct_sort [OF assms(1)]])
  have ne: "?s \<noteq> []" using assms(2) by simp
  show "hd (resolveConflicts rs) \<in> set rs" using hd_sort_by(1) [OF ne] unfolding eq by simp
  assume "y \<in> set rs"
  then have "y \<in> set ?s" by simp
  then show "ACTION_SEVERITY (srAction y) \<le> ACTION_SEVERITY (srAction (hd (resolveConflicts rs)))"
    unfolding eq by (rule hd_sort_by(2) [OF ne])
qed

section \<open>The decision\<close>

definition matchingRules :: "host \<Rightarrow> policyEngine \<Rightarrow> securityRequest \<Rightarrow> securityRule list" where
  "matchingRules h e r = filter (\<lambda>rule. enabled rule \<and> matchesSpec h (matchOf rule) r = Inr True) e"

lemma findMatchingRules_eq: "findMatchingRules h e r = Inr ms \<Longrightarrow> ms = matchingRules h e r"
  by (auto simp: findMatchingRules_def filterR_Inr_iff matchingRules_def getActiveRules_def
      intro!: filter_cong)

lemma aggregateRisk_max:
  shows "x \<in> set rs \<Longrightarrow> riskIndex (severity x) \<le> riskIndex (aggregateRisk rs)"
proof -
  let ?f = "\<lambda>rule m. if riskIndex (severity rule) > m then riskIndex (severity rule) else m"
  have mono: "m \<le> fold ?f rs m" for rs m
    by (induction rs arbitrary: m) (auto, meson le_trans less_imp_le_nat)
  have mem: "x \<in> set rs \<Longrightarrow> riskIndex (severity x) \<le> fold ?f rs m" for rs m
  proof (induction rs arbitrary: m)
    case (Cons y ys)
    then show ?case using mono [of "?f y m" ys] by (auto simp: not_less intro: order_trans split: if_splits)
  qed simp
  have le: "riskIndex s < 4" for s by (cases s) auto
  have bound: "m < 4 \<Longrightarrow> fold ?f rs m < 4" for rs m
    by (induction rs arbitrary: m) (auto simp: le)
  have idx: "n < 4 \<Longrightarrow> riskIndex ([Low, Medium, High, Critical] ! n) = n" for n
    by (auto simp: less_Suc_eq numeral_eq_Suc)
  show "x \<in> set rs \<Longrightarrow> riskIndex (severity x) \<le> riskIndex (aggregateRisk rs)"
    unfolding aggregateRisk_def using mem [of rs 0] bound [of 0 rs] idx by simp
qed

lemma evaluatePolicy_cases:
  assumes "evaluatePolicy h e r = Inr d" and "idsDistinct e"
  obtains (none) "matchingRules h e r = []" "action d = Allow" "matchedRules d = []"
  | (some) top where "top \<in> set (matchingRules h e r)"
      "\<forall>x \<in> set (matchingRules h e r). ACTION_SEVERITY (srAction x) \<le> ACTION_SEVERITY (srAction top)"
      "action d = ruleActionToSecurityAction (srAction top)"
      "mset (matchedRules d) = mset (matchingRules h e r)" "riskLevel d = aggregateRisk (matchedRules d)"
proof (cases "matchingRules h e r = []")
  case True
  then show ?thesis using assms(1) none
    by (auto simp: evaluatePolicy_def andThen_eq_Inr dest!: findMatchingRules_eq)
next
  case False
  let ?m = "matchingRules h e r"
  have d: "idsDistinct ?m" using assms(2) by (simp add: matchingRules_def idsDistinct_filter)
  have "d = \<lparr>action = ruleActionToSecurityAction (srAction (hd (resolveConflicts ?m))),
      matchedRules = resolveConflicts ?m, reason = RuleMessage (message (hd (resolveConflicts ?m))),
      riskLevel = aggregateRisk (resolveConflicts ?m), suggestion = srSuggestion (hd (resolveConflicts ?m))\<rparr>"
    using assms(1) False by (auto simp: evaluatePolicy_def andThen_eq_Inr Let_def dest!: findMatchingRules_eq split: if_splits)
  then show ?thesis using some [of "hd (resolveConflicts ?m)"] resolved_top [OF d False] resolved_rules [OF d] by simp
qed

text \<open>The action is that of the most severe matching rule.\<close>

lemma ACTION_SEVERITY_Block: "3 \<le> ACTION_SEVERITY a \<longleftrightarrow> a = RuleBlock"
  by (cases a) auto

lemma ACTION_SEVERITY_Confirm: "2 \<le> ACTION_SEVERITY a \<longleftrightarrow> a = RuleBlock \<or> a = RuleConfirm"
  by (cases a) auto

lemma ruleAction_simps:
  "ruleActionToSecurityAction a = Block \<longleftrightarrow> a = RuleBlock"
  "ruleActionToSecurityAction a = Confirm \<longleftrightarrow> a = RuleConfirm"
  by (cases a; simp)+

lemma evaluatePolicy_action:
  assumes "evaluatePolicy h e r = Inr d" and "idsDistinct e"
  shows "action d = Block \<longleftrightarrow> (\<exists>x \<in> set (matchingRules h e r). srAction x = RuleBlock)"
    and "action d = Confirm \<longleftrightarrow>
      (\<forall>x \<in> set (matchingRules h e r). srAction x \<noteq> RuleBlock) \<and> (\<exists>x \<in> set (matchingRules h e r). srAction x = RuleConfirm)"
    and "mset (matchedRules d) = mset (matchingRules h e r)"
    and "x \<in> set (matchingRules h e r) \<Longrightarrow> riskIndex (severity x) \<le> riskIndex (riskLevel d)"
proof -
  show "action d = Block \<longleftrightarrow> (\<exists>x \<in> set (matchingRules h e r). srAction x = RuleBlock)"
    using assms
  proof (cases rule: evaluatePolicy_cases)
    case (some top)
    have "srAction x = RuleBlock \<Longrightarrow> x \<in> set (matchingRules h e r) \<Longrightarrow> srAction top = RuleBlock" for x
      using some(2) ACTION_SEVERITY_Block [of "srAction top"] by fastforce
    then show ?thesis using some(1,3) ruleAction_simps by metis
  qed auto
  show "action d = Confirm \<longleftrightarrow>
      (\<forall>x \<in> set (matchingRules h e r). srAction x \<noteq> RuleBlock) \<and> (\<exists>x \<in> set (matchingRules h e r). srAction x = RuleConfirm)"
    using assms
  proof (cases rule: evaluatePolicy_cases)
    case (some top)
    have b: "srAction x = RuleBlock \<Longrightarrow> x \<in> set (matchingRules h e r) \<Longrightarrow> srAction top = RuleBlock" for x
      using some(2) ACTION_SEVERITY_Block [of "srAction top"] by fastforce
    have c: "srAction x = RuleConfirm \<Longrightarrow> x \<in> set (matchingRules h e r) \<Longrightarrow> srAction top = RuleBlock \<or> srAction top = RuleConfirm" for x
      using some(2) ACTION_SEVERITY_Confirm [of "srAction top"] by fastforce
    show ?thesis using some(1,3) ruleAction_simps b c by (metis ruleAction.distinct(1))
  qed auto
  show "mset (matchedRules d) = mset (matchingRules h e r)"
    using assms by (cases rule: evaluatePolicy_cases) simp_all
  show "x \<in> set (matchingRules h e r) \<Longrightarrow> riskIndex (severity x) \<le> riskIndex (riskLevel d)"
    using assms
  proof (cases rule: evaluatePolicy_cases)
    case (some top)
    assume "x \<in> set (matchingRules h e r)"
    then have "x \<in> set (matchedRules d)" using some(4) by (metis mset_eq_setD)
    then show ?thesis by (simp add: some(5) aggregateRisk_max)
  qed simp
qed

end
