(* ===== verification/Security_Durable.thy ===== *)
theory Security_Durable
  imports Security_Policy
begin

text \<open>
  The owner of durable permission rules (\<^verbatim>\<open>packages/core/src/security/durable-permission-rules.ts\<close>).
  The directory is part of the state: a JSON value per file, absent when the file is missing
  or unreadable. Writes are serialized by the source; each takes its outcome from the
  environment. Numbers in the files are integers. The rules that a bucket makes effective are
  references into its lists, because matching counts hits on the shared objects.
\<close>

section \<open>Reading rules\<close>

definition field :: "(string \<times> json) list \<Rightarrow> string \<Rightarrow> json" where
  "field ob k = (case map_of ob k of None \<Rightarrow> JUndefined | Some v \<Rightarrow> v)"

fun asText :: "json \<Rightarrow> string option" where
  "asText (JStr s) = Some s"
| "asText _ = None"

fun asNumber :: "json \<Rightarrow> int option" where
  "asNumber (JInt i) = Some i"
| "asNumber _ = None"

definition MAX_SAFE_INTEGER :: int where
  "MAX_SAFE_INTEGER = 9007199254740991"

definition sanitizePermissionContextId :: "json \<Rightarrow> permissionContextId option" where
  "sanitizePermissionContextId raw =
     (case raw of
        JObj c \<Rightarrow>
          (case field c ''kind'' of
             JStr kind \<Rightarrow>
               if kind = ''main'' then Some MainContext
               else if kind = ''workspace'' then
                 (case field c ''hash'' of
                    JStr h \<Rightarrow>
                      if h = [] then None
                      else Some (WorkspaceContext h
                        (case field c ''revision'' of
                           JInt i \<Rightarrow> if \<bar>i\<bar> \<le> MAX_SAFE_INTEGER \<and> i > 0 then Some i else None
                         | _ \<Rightarrow> None))
                  | _ \<Rightarrow> None)
               else if kind = ''scene'' then
                 (case field c ''sceneId'' of
                    JStr i \<Rightarrow> if i = [] then None else Some (SceneContext i)
                  | _ \<Rightarrow> None)
               else None
           | _ \<Rightarrow> None)
      | _ \<Rightarrow> None)"

definition sanitizeContribution :: "json \<Rightarrow> trustContribution option" where
  "sanitizeContribution raw =
     (case raw of
        JObj c \<Rightarrow>
          (case (field c ''origin'', asNumber (field c ''timestamp'')) of
             (JStr ob, Some t) \<Rightarrow>
               if ob = ''user'' then Some \<lparr>origin = FromUser, timestamp = t\<rparr>
               else if ob = ''steward'' then Some \<lparr>origin = FromSteward, timestamp = t\<rparr>
               else None
           | _ \<Rightarrow> None)
      | _ \<Rightarrow> None)"

definition sanitizeContributors :: "json \<Rightarrow> trustContribution list option" where
  "sanitizeContributors raw =
     (case raw of JArr items \<Rightarrow> Some (List.map_filter sanitizeContribution items) | _ \<Rightarrow> None)"

definition parseDecision :: "json \<Rightarrow> permissionDecision option" where
  "parseDecision v =
     (if v = JStr ''allow'' then Some PermitAllow else if v = JStr ''deny'' then Some PermitDeny else None)"

definition parseScope :: "json \<Rightarrow> permissionScope option" where
  "parseScope v =
     (if v = JStr ''session'' then Some SessionScope
      else if v = JStr ''context'' then Some ContextScope
      else if v = JStr ''global'' then Some GlobalScope
      else None)"

text \<open>
  One entry of \<^verbatim>\<open>sanitizeStoredRules\<close>. A pattern that is an object is read by its fields;
  of the other truthy values none has the two texts.
\<close>

definition sanitizeRule :: "permissionScope \<Rightarrow> json \<Rightarrow> permissionRule option" where
  "sanitizeRule expected raw =
     (case raw of
        JObj r \<Rightarrow>
          (case (asText (field r ''id''), field r ''pattern'', parseDecision (field r ''decision''), parseScope (field r ''scope'')) of
             (Some rid, JObj p, Some d, Some sc) \<Rightarrow>
               (case (asText (field p ''tool''), asText (field p ''argument'')) of
                  (Some t, Some a) \<Rightarrow>
                    if sc \<noteq> expected \<and> expected = GlobalScope then None
                    else Some \<lparr>ruleId = rid, patTool = t, patArgument = a, decision = d, scope = sc,
                       createdAt = withDefault (asNumber (field r ''createdAt'')) 0,
                       lastMatchedAt = withDefault (asNumber (field r ''lastMatchedAt'')) 0,
                       matchCount = withDefault (asNumber (field r ''matchCount'')) 0,
                       contextId = sanitizePermissionContextId (field r ''contextId''),
                       contextPath = asText (field r ''contextPath''),
                       contributors = sanitizeContributors (field r ''contributors'')\<rparr>
                | _ \<Rightarrow> None)
           | _ \<Rightarrow> None)
      | _ \<Rightarrow> None)"

definition sanitizeStoredRules :: "permissionScope \<Rightarrow> json list \<Rightarrow> permissionRule list" where
  "sanitizeStoredRules expected rules = List.map_filter (sanitizeRule expected) rules"

record pendingApproval =
  paRequestId :: string
  paConversationId :: "string option"
  paTaskId :: "string option"
  paAssignmentId :: "string option"
  paDigest :: string
  paRule :: permissionRule

definition optionalText :: "json \<Rightarrow> string option" where
  "optionalText v = (case asText v of Some s \<Rightarrow> if s = [] then None else Some s | None \<Rightarrow> None)"

definition sanitizePending :: "permissionScope \<Rightarrow> json \<Rightarrow> pendingApproval option" where
  "sanitizePending expected raw =
     (case raw of
        JObj e \<Rightarrow>
          (case (optionalText (field e ''requestId''), optionalText (field e ''decisionDigest''), sanitizeRule expected (field e ''rule'')) of
             (Some q, Some d, Some rule) \<Rightarrow>
               if scope rule \<noteq> expected then None
               else Some \<lparr>paRequestId = q, paConversationId = optionalText (field e ''conversationId''),
                  paTaskId = optionalText (field e ''taskId''), paAssignmentId = optionalText (field e ''assignmentId''),
                  paDigest = d, paRule = rule\<rparr>
           | _ \<Rightarrow> None)
      | _ \<Rightarrow> None)"

definition sanitizePendingApprovals :: "permissionScope \<Rightarrow> json \<Rightarrow> pendingApproval list" where
  "sanitizePendingApprovals expected raw =
     (case raw of JArr items \<Rightarrow> List.map_filter (sanitizePending expected) items | _ \<Rightarrow> [])"

section \<open>Writing rules\<close>

text \<open>\<^verbatim>\<open>JSON.parse(JSON.stringify(x))\<close> of the records: fields that are undefined are left out.\<close>

definition optField :: "string \<Rightarrow> json option \<Rightarrow> (string \<times> json) list" where
  "optField k v = (case v of None \<Rightarrow> [] | Some j \<Rightarrow> [(k, j)])"

fun encodeContextId :: "permissionContextId \<Rightarrow> json" where
  "encodeContextId MainContext = JObj [(''kind'', JStr ''main'')]"
| "encodeContextId (WorkspaceContext h r) =
     JObj ([(''kind'', JStr ''workspace''), (''hash'', JStr h)] @ optField ''revision'' (map_option JInt r))"
| "encodeContextId (SceneContext i) = JObj [(''kind'', JStr ''scene''), (''sceneId'', JStr i)]"

definition encodeContribution :: "trustContribution \<Rightarrow> json" where
  "encodeContribution c =
     JObj [(''origin'', JStr (case origin c of FromUser \<Rightarrow> ''user'' | FromSteward \<Rightarrow> ''steward'')),
           (''timestamp'', JInt (timestamp c))]"

fun decisionText :: "permissionDecision \<Rightarrow> string" where
  "decisionText PermitAllow = ''allow''"
| "decisionText PermitDeny = ''deny''"

fun scopeText :: "permissionScope \<Rightarrow> string" where
  "scopeText SessionScope = ''session''"
| "scopeText ContextScope = ''context''"
| "scopeText GlobalScope = ''global''"
| "scopeText BuiltinScope = ''builtin''"

definition encodeRule :: "permissionRule \<Rightarrow> json" where
  "encodeRule r =
     JObj ([(''id'', JStr (ruleId r)),
            (''pattern'', JObj [(''tool'', JStr (patTool r)), (''argument'', JStr (patArgument r))]),
            (''decision'', JStr (decisionText (decision r))), (''scope'', JStr (scopeText (scope r))),
            (''createdAt'', JInt (createdAt r)), (''lastMatchedAt'', JInt (lastMatchedAt r)),
            (''matchCount'', JInt (matchCount r))] @
           optField ''contextId'' (map_option encodeContextId (contextId r)) @
           optField ''contextPath'' (map_option JStr (contextPath r)) @
           optField ''contributors'' (map_option (\<lambda>cs. JArr (map encodeContribution cs)) (contributors r)))"

definition encodePending :: "pendingApproval \<Rightarrow> json" where
  "encodePending p =
     JObj ([(''requestId'', JStr (paRequestId p))] @
           optField ''conversationId'' (map_option JStr (paConversationId p)) @
           optField ''taskId'' (map_option JStr (paTaskId p)) @
           optField ''assignmentId'' (map_option JStr (paAssignmentId p)) @
           [(''decisionDigest'', JStr (paDigest p)), (''rule'', encodeRule (paRule p))])"

section \<open>Buckets\<close>

datatype ruleRef = AtRule nat | AtPending nat

record bucket =
  bRules :: "permissionRule list"
  bPending :: "pendingApproval list"
  bAccepted :: "string list"
  bEffective :: "ruleRef list"

fun deref :: "bucket \<Rightarrow> ruleRef \<Rightarrow> permissionRule" where
  "deref b (AtRule i) = bRules b ! i"
| "deref b (AtPending i) = paRule (bPending b ! i)"

definition effectiveRules :: "bucket \<Rightarrow> permissionRule list" where
  "effectiveRules b = map (deref b) (bEffective b)"

definition bucketView :: "string list \<Rightarrow> permissionRule list \<Rightarrow> pendingApproval list \<Rightarrow> string list \<Rightarrow> bucket" where
  "bucketView revoked rules pending accepted =
     \<lparr>bRules = rules, bPending = pending, bAccepted = accepted,
      bEffective =
        (if rules = [] \<and> pending = [] then []
         else map AtRule (filter (\<lambda>i. ruleId (rules ! i) \<notin> set revoked) [0..<length rules]) @
              map AtPending (filter (\<lambda>i. paRequestId (pending ! i) \<in> set accepted \<and>
                                         ruleId (paRule (pending ! i)) \<notin> set revoked) [0..<length pending]))\<rparr>"

definition GLOBAL_PERMISSION_BUCKET :: string where
  "GLOBAL_PERMISSION_BUCKET = CHR 0x00 # ''global''"

definition bucketFile :: "string \<Rightarrow> string" where
  "bucketFile key = (if key = GLOBAL_PERMISSION_BUCKET then ''global.json'' else key @ ''.json'')"

definition REVOKED_FILE :: string where
  "REVOKED_FILE = ''revoked.json''"

section \<open>The store\<close>

record durable =
  persistent :: bool
  buckets :: "(string, bucket) omap"
  revokedIds :: "string list option"
  files :: "(string, json) omap"

definition newDurable :: "bool \<Rightarrow> (string, json) omap \<Rightarrow> durable" where
  "newDurable p fs = \<lparr>persistent = p, buckets = [], revokedIds = None, files = fs\<rparr>"

definition readRevoked :: "durable \<Rightarrow> string list" where
  "readRevoked d =
     (if persistent d
      then case map_of (files d) REVOKED_FILE of
             Some (JObj ob) \<Rightarrow>
               (case field ob ''ruleIds'' of
                  JArr ids \<Rightarrow> List.map_filter optionalText ids
                | _ \<Rightarrow> [])
           | _ \<Rightarrow> []
      else [])"

definition revokedSet :: "durable \<Rightarrow> string list" where
  "revokedSet d = (case revokedIds d of Some ids \<Rightarrow> ids | None \<Rightarrow> readRevoked d)"

text \<open>
  \<^verbatim>\<open>#bucket\<close>: the first use of a range reads its file. A file that is not an object has no
  \<^verbatim>\<open>rules\<close>; one whose \<^verbatim>\<open>rules\<close> are not a list makes the reader throw.
\<close>

definition bucketScope :: "string \<Rightarrow> permissionScope" where
  "bucketScope key = (if key = GLOBAL_PERMISSION_BUCKET then GlobalScope else ContextScope)"

definition storedRules :: "permissionScope \<Rightarrow> json \<Rightarrow> permissionRule list option" where
  "storedRules sc file =
     (case file of
        JObj ob \<Rightarrow>
          (case field ob ''rules'' of
             JArr rules \<Rightarrow> Some (sanitizeStoredRules sc rules)
           | JUndefined \<Rightarrow> Some []
           | JNull \<Rightarrow> Some []
           | JStr s \<Rightarrow> Some []
           | _ \<Rightarrow> None)
      | _ \<Rightarrow> Some [])"

definition storedPending :: "permissionScope \<Rightarrow> json \<Rightarrow> pendingApproval list" where
  "storedPending sc file =
     (case file of JObj ob \<Rightarrow> sanitizePendingApprovals sc (field ob ''pending'') | _ \<Rightarrow> [])"

definition readBucket :: "durable \<Rightarrow> string \<Rightarrow> bucket option" where
  "readBucket d key =
     (case (if persistent d then map_of (files d) (bucketFile key) else None) of
        None \<Rightarrow> Some (bucketView (revokedSet d) [] [] [])
      | Some file \<Rightarrow>
          (case storedRules (bucketScope key) file of
             None \<Rightarrow> None
           | Some rules \<Rightarrow> Some (bucketView (revokedSet d) rules (storedPending (bucketScope key) file) [])))"

definition loadRevoked :: "durable \<Rightarrow> durable" where
  "loadRevoked d = d\<lparr>revokedIds := Some (revokedSet d)\<rparr>"

text \<open>An empty range does not need the revoked ids, so they are not read for it.\<close>

definition getBucket :: "durable \<Rightarrow> string \<Rightarrow> (bucket \<times> durable) option" where
  "getBucket d key =
     (case map_of (buckets d) key of
        Some b \<Rightarrow> Some (b, d)
      | None \<Rightarrow>
          (case readBucket d key of
             None \<Rightarrow> None
           | Some b \<Rightarrow>
               let d' = (if bRules b = [] \<and> bPending b = [] then d else loadRevoked d) in
               Some (b, d'\<lparr>buckets := omap_set key b (buckets d')\<rparr>)))"

definition loadedContexts :: "durable \<Rightarrow> string list" where
  "loadedContexts d = filter (\<lambda>key. key \<noteq> GLOBAL_PERMISSION_BUCKET) (map fst (buckets d))"

definition bucketKeys :: "durable \<Rightarrow> string list" where
  "bucketKeys d =
     (if persistent d
      then sort (map (\<lambda>entry. take (length entry - 5) entry)
             (filter (\<lambda>entry. endsWith ''.json'' entry \<and> entry \<noteq> ''global.json'' \<and> entry \<noteq> REVOKED_FILE)
               (map fst (files d))))
      else [])"

definition isRevoked :: "durable \<Rightarrow> string \<Rightarrow> bool" where
  "isRevoked d i \<longleftrightarrow> i \<in> set (revokedSet d)"

definition unacceptedOf :: "bucket \<Rightarrow> pendingApproval list" where
  "unacceptedOf b = filter (\<lambda>e. paRequestId e \<notin> set (bAccepted b)) (bPending b)"

definition unacceptedApprovals :: "durable \<Rightarrow> string \<Rightarrow> (pendingApproval list \<times> durable) option" where
  "unacceptedApprovals d key = map_option (\<lambda>(b, d'). (unacceptedOf b, d')) (getBucket d key)"

section \<open>Durable writes\<close>

text \<open>
  \<^verbatim>\<open>writeJsonFileDurably\<close>: it succeeds, or throws before the file is replaced, or throws after
  (when the directory cannot be synchronized).
\<close>

datatype writeOutcome = Written | NotWritten | ReplacedUnsynced

definition putFile :: "writeOutcome \<Rightarrow> string \<Rightarrow> json \<Rightarrow> durable \<Rightarrow> bool \<times> durable" where
  "putFile w name content d =
     (if \<not> persistent d then (True, d)
      else case w of
             Written \<Rightarrow> (True, d\<lparr>files := omap_set name content (files d)\<rparr>)
           | NotWritten \<Rightarrow> (False, d)
           | ReplacedUnsynced \<Rightarrow> (False, d\<lparr>files := omap_set name content (files d)\<rparr>))"

definition firstSome :: "('a \<Rightarrow> 'b option) \<Rightarrow> 'a list \<Rightarrow> 'b option" where
  "firstSome f xs = (case List.map_filter f xs of [] \<Rightarrow> None | y # _ \<Rightarrow> Some y)"

definition bucketContent :: "string \<Rightarrow> permissionRule list \<Rightarrow> pendingApproval list \<Rightarrow> json" where
  "bucketContent key rules pending =
     (let described = rules @ map paRule pending;
          stored = [(''rules'', JArr (map encodeRule rules))] @
                   (if pending = [] then [] else [(''pending'', JArr (map encodePending pending))])
      in if key = GLOBAL_PERMISSION_BUCKET
         then JObj ([(''version'', JInt 1), (''scope'', JStr ''global'')] @ stored)
         else JObj ([(''version'', JInt 1), (''contextStorageKey'', JStr key)] @
                    optField ''context'' (map_option encodeContextId (firstSome contextId described)) @
                    optField ''contextPath'' (map_option JStr
                      (firstSome (\<lambda>r. if truthy (contextPath r) then contextPath r else None) described)) @
                    stored))"

text \<open>
  \<^verbatim>\<open>#write\<close>: accepted records become rules, revoked ones disappear, the file is written and only
  then the new bucket is published.
\<close>

definition materializedRules :: "string list \<Rightarrow> permissionRule list \<Rightarrow> pendingApproval list \<Rightarrow> string list \<Rightarrow> permissionRule list" where
  "materializedRules revoked rules pending accepted =
     filter (\<lambda>r. ruleId r \<notin> set revoked)
       (rules @ filter (\<lambda>r. \<not> list_ex (\<lambda>x. ruleId x = ruleId r) rules)
                 (map paRule (filter (\<lambda>e. paRequestId e \<in> set accepted) pending)))"

definition keptPending :: "string list \<Rightarrow> pendingApproval list \<Rightarrow> string list \<Rightarrow> pendingApproval list" where
  "keptPending revoked pending accepted =
     filter (\<lambda>e. paRequestId e \<notin> set accepted \<and> ruleId (paRule e) \<notin> set revoked) pending"

definition writeBucket :: "writeOutcome \<Rightarrow> string \<Rightarrow> permissionRule list \<Rightarrow> pendingApproval list \<Rightarrow> string list \<Rightarrow> durable \<Rightarrow> bool \<times> durable" where
  "writeBucket w key rules pending accepted d0 =
     (let d = loadRevoked d0; revoked = revokedSet d;
          rules' = materializedRules revoked rules pending accepted;
          pending' = keptPending revoked pending accepted;
          (ok, d') = putFile w (bucketFile key) (bucketContent key rules' pending') d
      in if ok then (True, d'\<lparr>buckets := omap_set key (bucketView revoked rules' pending' []) (buckets d')\<rparr>)
         else (False, d'))"

definition revokedContent :: "string list \<Rightarrow> json" where
  "revokedContent ids = JObj [(''version'', JInt 1), (''ruleIds'', JArr (map JStr ids))]"

section \<open>Operations\<close>

datatype durableError =
    RuleHasBeenRevoked string
  | DifferentContent string
  | AcceptedOtherwise string
  | WriteFailed
  | UnreadableFile

datatype publication = Published | Exists | PublicationRevoked

datatype acceptance = Materialized | Accepted | AcceptanceRevoked | AcceptanceMissing

definition sameRuleContent :: "permissionRule \<Rightarrow> permissionRule \<Rightarrow> bool" where
  "sameRuleContent a b \<longleftrightarrow>
     decision a = decision b \<and> scope a = scope b \<and> patTool a = patTool b \<and> patArgument a = patArgument b"

definition withBucket :: "durable \<Rightarrow> string \<Rightarrow> (bucket \<Rightarrow> durable \<Rightarrow> (durableError, 'a) result \<times> durable) \<Rightarrow> (durableError, 'a) result \<times> durable" where
  "withBucket d key k = (case getBucket d key of None \<Rightarrow> (Inl UnreadableFile, d) | Some (b, d') \<Rightarrow> k b d')"

definition reportWrite :: "'a \<Rightarrow> bool \<times> durable \<Rightarrow> (durableError, 'a) result \<times> durable" where
  "reportWrite v r = (if fst r then Inr v else Inl WriteFailed, snd r)"

definition publish :: "writeOutcome \<Rightarrow> string \<Rightarrow> permissionRule \<Rightarrow> durable \<Rightarrow> (durableError, publication) result \<times> durable" where
  "publish w key rule d0 =
     (let d = loadRevoked d0 in
      if ruleId rule \<in> set (revokedSet d) then (Inr PublicationRevoked, d)
      else withBucket d key (\<lambda>current d'.
        case orElse (List.find (\<lambda>e. ruleId e = ruleId rule) (bRules current))
               (map_option paRule (List.find (\<lambda>e. ruleId (paRule e) = ruleId rule \<and> paRequestId e \<in> set (bAccepted current))
                 (bPending current))) of
          Some existing \<Rightarrow>
            if sameRuleContent existing rule then (Inr Exists, d') else (Inl (DifferentContent (ruleId rule)), d')
        | None \<Rightarrow>
            reportWrite Published
              (writeBucket w key (bRules current @ [rule]) (bPending current) (bAccepted current) d')))"

definition addContextRule :: "writeOutcome \<Rightarrow> string \<Rightarrow> permissionRule \<Rightarrow> durable \<Rightarrow> (durableError, unit) result \<times> durable" where
  "addContextRule w key rule d =
     (case publish w key rule d of
        (Inl e, d') \<Rightarrow> (Inl e, d')
      | (Inr PublicationRevoked, d') \<Rightarrow> (Inl (RuleHasBeenRevoked (ruleId rule)), d')
      | (Inr _, d') \<Rightarrow> (Inr (), d'))"

definition addGlobalRule :: "writeOutcome \<Rightarrow> permissionRule \<Rightarrow> durable \<Rightarrow> (durableError, unit) result \<times> durable" where
  "addGlobalRule w rule d = addContextRule w GLOBAL_PERMISSION_BUCKET rule d"

definition preparePending :: "writeOutcome \<Rightarrow> string \<Rightarrow> pendingApproval \<Rightarrow> durable \<Rightarrow> (durableError, unit) result \<times> durable" where
  "preparePending w key entry d0 =
     (let d = loadRevoked d0 in
      if ruleId (paRule entry) \<in> set (revokedSet d) then (Inl (RuleHasBeenRevoked (ruleId (paRule entry))), d)
      else withBucket d key (\<lambda>current d'.
        let write = reportWrite ()
              (writeBucket w key (bRules current)
                (filter (\<lambda>e. paRequestId e \<noteq> paRequestId entry) (bPending current) @ [entry]) (bAccepted current) d')
        in case List.find (\<lambda>e. paRequestId e = paRequestId entry) (bPending current) of
             None \<Rightarrow> write
           | Some existing \<Rightarrow>
               if paDigest existing = paDigest entry \<and> sameRuleContent (paRule existing) (paRule entry) then (Inr (), d')
               else if paRequestId entry \<in> set (bAccepted current) then (Inl (AcceptedOtherwise (paRequestId entry)), d')
               else write))"

fun removeFirst :: "('a \<Rightarrow> bool) \<Rightarrow> 'a list \<Rightarrow> 'a list" where
  "removeFirst P [] = []"
| "removeFirst P (x # xs) = (if P x then xs else x # removeFirst P xs)"

definition addId :: "string \<Rightarrow> string list \<Rightarrow> string list" where
  "addId i ids = (if i \<in> set ids then ids else ids @ [i])"

definition acceptPending :: "writeOutcome \<Rightarrow> string \<Rightarrow> string \<Rightarrow> durable \<Rightarrow> (durableError, acceptance) result \<times> durable" where
  "acceptPending w key requestId d =
     withBucket d key (\<lambda>current d1.
       case List.find (\<lambda>e. paRequestId e = requestId) (bPending current) of
         None \<Rightarrow> (Inr AcceptanceMissing, d1)
       | Some entry \<Rightarrow>
           let d2 = loadRevoked d1 in
           if ruleId (paRule entry) \<in> set (revokedSet d2)
           then (Inr AcceptanceRevoked,
                 snd (writeBucket w key (bRules current) (removeFirst (\<lambda>e. paRequestId e = requestId) (bPending current))
                   (bAccepted current) d2))
           else let accepted = addId requestId (bAccepted current);
                    view = bucketView (revokedSet d2) (bRules current) (bPending current) accepted;
                    (ok, d3) = writeBucket w key (bRules view) (bPending view) (bAccepted view)
                      (d2\<lparr>buckets := omap_set key view (buckets d2)\<rparr>)
                in (Inr (if ok then Materialized else Accepted), d3))"

definition discardPending :: "writeOutcome \<Rightarrow> string \<Rightarrow> string \<Rightarrow> durable \<Rightarrow> (durableError, unit) result \<times> durable" where
  "discardPending w key requestId d =
     withBucket d key (\<lambda>current d'.
       if requestId \<in> set (bAccepted current) then (Inr (), d')
       else if \<not> list_ex (\<lambda>e. paRequestId e = requestId) (bPending current) then (Inr (), d')
       else reportWrite () (writeBucket w key (bRules current)
              (filter (\<lambda>e. paRequestId e \<noteq> requestId) (bPending current)) (bAccepted current) d'))"

definition holdsRule :: "string \<Rightarrow> bucket \<Rightarrow> bool" where
  "holdsRule i b \<longleftrightarrow> list_ex (\<lambda>r. ruleId r = i) (effectiveRules b)"

definition refreshViews :: "string list \<Rightarrow> (string, bucket) omap \<Rightarrow> (string, bucket) omap" where
  "refreshViews revoked bs = map (\<lambda>(k, b). (k, bucketView revoked (bRules b) (bPending b) (bAccepted b))) bs"

definition revokeFrom :: "writeOutcome \<Rightarrow> writeOutcome \<Rightarrow> string \<Rightarrow> string \<Rightarrow> durable \<Rightarrow> (durableError, bool) result \<times> durable" where
  "revokeFrom w1 w2 owner i d0 =
     (let d = loadRevoked d0; ids = addId i (revokedSet d); (ok, d1) = putFile w1 REVOKED_FILE (revokedContent ids) d in
      if \<not> ok then (Inl WriteFailed, d1)
      else let bs = refreshViews ids (buckets d1); d2 = d1\<lparr>revokedIds := Some ids, buckets := bs\<rparr> in
        case map_of bs owner of
          None \<Rightarrow> (Inr True, d2)
        | Some b \<Rightarrow> (Inr True, snd (writeBucket w2 owner (bRules b) (bPending b) (bAccepted b) d2)))"

definition revokeDurable :: "writeOutcome \<Rightarrow> writeOutcome \<Rightarrow> string \<Rightarrow> durable \<Rightarrow> (durableError, bool) result \<times> durable" where
  "revokeDurable w1 w2 i d =
     (case List.find (\<lambda>(k, b). holdsRule i b) (buckets d) of
        Some (owner, _) \<Rightarrow> revokeFrom w1 w2 owner i d
      | None \<Rightarrow>
          withBucket d GLOBAL_PERMISSION_BUCKET (\<lambda>g d'.
            if holdsRule i g then revokeFrom w1 w2 GLOBAL_PERMISSION_BUCKET i d' else (Inr False, d')))"

definition resetContext :: "writeOutcome \<Rightarrow> string \<Rightarrow> durable \<Rightarrow> (durableError, unit) result \<times> durable" where
  "resetContext w key d = reportWrite () (writeBucket w key [] [] [] d)"

text \<open>
  \<^verbatim>\<open>resetAll\<close> removes the files one by one. \<open>failed\<close> is \<open>None\<close> when all of that succeeds, and otherwise the
  names that were removed before it threw.
\<close>

definition isResetFile :: "string \<Rightarrow> bool" where
  "isResetFile name \<longleftrightarrow> name \<noteq> REVOKED_FILE \<and> (endsWith ''.json'' name \<or> endsWith ''.tmp'' name)"

definition resetAllDurable :: "string list option \<Rightarrow> durable \<Rightarrow> (durableError, unit) result \<times> durable" where
  "resetAllDurable failed d =
     (let cleared = [(GLOBAL_PERMISSION_BUCKET, bucketView (revokedSet d) [] [] [])] in
      if \<not> persistent d then (Inr (), d\<lparr>buckets := cleared\<rparr>)
      else case failed of
             None \<Rightarrow> (Inr (), d\<lparr>files := filter (\<lambda>f. \<not> isResetFile (fst f)) (files d), buckets := cleared\<rparr>)
           | Some removed \<Rightarrow>
               (Inl WriteFailed, d\<lparr>files := filter (\<lambda>f. \<not> (isResetFile (fst f) \<and> fst f \<in> set removed)) (files d)\<rparr>))"

definition reopenDurable :: "durable \<Rightarrow> durable" where
  "reopenDurable d = newDurable (persistent d) (files d)"

end
