(* ===== verification/Security_Permissions.thy ===== *)
theory Security_Permissions
  imports Security_Durable
begin

text \<open>
  The permission store (\<^verbatim>\<open>packages/core/src/security/permission-store.ts\<close>) and the extraction of
  the argument that is matched (\<^verbatim>\<open>tool-aware-extractor.ts\<close>).
\<close>

section \<open>Contexts and their keys\<close>

fun toStorageKey :: "permissionContextId \<Rightarrow> string" where
  "toStorageKey MainContext = ''main''"
| "toStorageKey (WorkspaceContext h _) = ''workspace-'' @ h"
| "toStorageKey (SceneContext i) = ''scene-'' @ i"

definition parseStorageKey :: "string \<Rightarrow> permissionContextId option" where
  "parseStorageKey stored =
     (if stored = ''main'' then Some MainContext
      else if startsWith ''workspace-'' stored
      then (let h = drop 10 stored in if h = [] then None else Some (WorkspaceContext h None))
      else if startsWith ''scene-'' stored
      then (let i = drop 6 stored in if i = [] then None else Some (SceneContext i))
      else None)"

definition ruleAppliesToContext :: "permissionRule \<Rightarrow> permissionContextId \<Rightarrow> bool" where
  "ruleAppliesToContext rule ctx =
     (case ctx of
        WorkspaceContext _ (Some revision) \<Rightarrow>
          (if scope rule \<noteq> ContextScope then True
           else case contextId rule of
                  Some (WorkspaceContext _ r) \<Rightarrow> r = Some revision
                | _ \<Rightarrow> True)
      | _ \<Rightarrow> True)"

section \<open>Globs\<close>

abbreviation slash :: char where
  "slash \<equiv> CHR 0x2F"

abbreviation NotSlash :: regex where
  "NotSlash \<equiv> Class False [(slash, slash)]"

fun globItems :: "bool \<Rightarrow> string \<Rightarrow> regex list" where
  "globItems pathAware [] = []"
| "globItems pathAware (c # s) =
     (if c = CHR ''*'' then
        (case s of
           d # t \<Rightarrow>
             if d = CHR ''*'' then Many Dot # globItems pathAware t
             else Many (if pathAware then NotSlash else Dot) # globItems pathAware s
         | [] \<Rightarrow> [Many (if pathAware then NotSlash else Dot)])
      else if c = CHR ''?'' then (if pathAware then NotSlash else Dot) # globItems pathAware s
      else Lit c # globItems pathAware s)"

definition globToRegex :: "string \<Rightarrow> regex" where
  "globToRegex pattern = Seqs (Start # globItems (includesText [slash] pattern) pattern @ [End])"

definition globMatches :: "string \<Rightarrow> string \<Rightarrow> bool" where
  "globMatches pattern input = regexTest False (globToRegex pattern) input"

definition globSpecificity :: "string \<Rightarrow> int" where
  "globSpecificity pattern =
     (let wildcards = length (filter (\<lambda>c. c = CHR ''*'') pattern);
          depth = length (splitOn (\<lambda>c. c = slash) pattern);
          literalLength = length (filter (\<lambda>c. c \<noteq> CHR ''*'') pattern)
      in int depth * 1000 - int wildcards * 10 + int literalLength)"

section \<open>Extraction of the argument\<close>

text \<open>The list of arguments is in the order of \<^verbatim>\<open>Object.values\<close>.\<close>

definition defaultExtractArgument :: "securityRequest \<Rightarrow> string" where
  "defaultExtractArgument r =
     (case List.map_filter (\<lambda>k. asText (argOf r k)) [''path'', ''file_path'', ''target'', ''destination''] of
        s # _ \<Rightarrow> s
      | [] \<Rightarrow>
          (case List.map_filter asText (omap_values (reqArguments r)) of
             s # _ \<Rightarrow> s
           | [] \<Rightarrow> []))"

type_synonym argumentExtractor = "(string, string) omap"

definition registerArgumentKey :: "string \<Rightarrow> string \<Rightarrow> argumentExtractor \<Rightarrow> (string, argumentExtractor) result" where
  "registerArgumentKey name key ext =
     (if key = [] then Inl name else Inr (omap_set (toLowerCase name) key ext))"

definition extractorFromTools :: "toolDefinition list \<Rightarrow> argumentExtractor" where
  "extractorFromTools tools =
     fold (\<lambda>t ext. case permissionArgumentKey t of
                     Some key \<Rightarrow> (case registerArgumentKey (toolName t) key ext of Inr ext' \<Rightarrow> ext' | Inl _ \<Rightarrow> ext)
                   | None \<Rightarrow> ext) tools []"

definition extractArgument :: "argumentExtractor \<Rightarrow> securityRequest \<Rightarrow> string" where
  "extractArgument ext r =
     (case map_of ext (toLowerCase (reqTool r)) of
        Some key \<Rightarrow> (case argOf r key of JStr s \<Rightarrow> s | _ \<Rightarrow> defaultExtractArgument r)
      | None \<Rightarrow> defaultExtractArgument r)"

section \<open>Matching and conflicts\<close>

definition ruleMatches :: "permissionRule \<Rightarrow> string \<Rightarrow> string \<Rightarrow> bool" where
  "ruleMatches rule tool argument \<longleftrightarrow>
     (if patTool rule \<noteq> ''*'' \<and> toLowerCase (patTool rule) \<noteq> tool then False
      else globMatches (patArgument rule) argument)"

text \<open>
  The candidates of \<^verbatim>\<open>match\<close> are objects of the store; \<open>f\<close> reads the rule of a candidate.
\<close>

fun mostSpecificFrom :: "('a \<Rightarrow> permissionRule) \<Rightarrow> 'a \<Rightarrow> 'a list \<Rightarrow> 'a" where
  "mostSpecificFrom f best [] = best"
| "mostSpecificFrom f best (r # rs) =
     (if globSpecificity (patArgument (f r)) > globSpecificity (patArgument (f best))
      then mostSpecificFrom f r rs else mostSpecificFrom f best rs)"

definition resolveConflict :: "('a \<Rightarrow> permissionRule) \<Rightarrow> 'a list \<Rightarrow> 'a" where
  "resolveConflict f candidates =
     (let denies = filter (\<lambda>r. decision (f r) = PermitDeny) candidates;
          pool = (if denies \<noteq> [] then denies else candidates)
      in mostSpecificFrom f (hd pool) (tl pool))"

definition touchRule :: "int \<Rightarrow> permissionRule \<Rightarrow> permissionRule" where
  "touchRule now r = r\<lparr>matchCount := matchCount r + 1, lastMatchedAt := now\<rparr>"

section \<open>The store\<close>

record permissionStore =
  sessionRules :: "(string, permissionRule list) omap"
  durableRules :: durable
  builtinRules :: "(string, permissionRule list) omap"

definition newPermissionStore :: "durable \<Rightarrow> permissionStore" where
  "newPermissionStore d = \<lparr>sessionRules = [], durableRules = d, builtinRules = []\<rparr>"

datatype storeError =
    BuiltinNotCreatable
  | EmptyNamespace
  | EmptyRuleSet string
  | WrongScope string
  | DurableFailed durableError

text \<open>Where a candidate lives.\<close>

datatype place =
    InSession string nat
  | InBucket string ruleRef
  | InBuiltin string nat

fun touchBucket :: "int \<Rightarrow> ruleRef \<Rightarrow> bucket \<Rightarrow> bucket" where
  "touchBucket now (AtRule i) b = b\<lparr>bRules := (bRules b)[i := touchRule now (bRules b ! i)]\<rparr>"
| "touchBucket now (AtPending i) b =
     b\<lparr>bPending := (bPending b)[i := (bPending b ! i)\<lparr>paRule := touchRule now (paRule (bPending b ! i))\<rparr>]\<rparr>"

definition touchAt :: "int \<Rightarrow> 'k \<Rightarrow> nat \<Rightarrow> ('k, permissionRule list) omap \<Rightarrow> ('k, permissionRule list) omap" where
  "touchAt now k i m =
     (case map_of m k of None \<Rightarrow> m | Some rs \<Rightarrow> omap_set k (rs[i := touchRule now (rs ! i)]) m)"

definition touchDurable :: "int \<Rightarrow> string \<Rightarrow> ruleRef \<Rightarrow> durable \<Rightarrow> durable" where
  "touchDurable now key ref d =
     (case map_of (buckets d) key of
        None \<Rightarrow> d
      | Some b \<Rightarrow> d\<lparr>buckets := omap_set key (touchBucket now ref b) (buckets d)\<rparr>)"

fun touchPlace :: "int \<Rightarrow> place \<Rightarrow> permissionStore \<Rightarrow> permissionStore" where
  "touchPlace now (InSession key i) s = s\<lparr>sessionRules := touchAt now key i (sessionRules s)\<rparr>"
| "touchPlace now (InBucket key ref) s = s\<lparr>durableRules := touchDurable now key ref (durableRules s)\<rparr>"
| "touchPlace now (InBuiltin ns i) s = s\<lparr>builtinRules := touchAt now ns i (builtinRules s)\<rparr>"

definition placed :: "(nat \<Rightarrow> place) \<Rightarrow> permissionRule list \<Rightarrow> (place \<times> permissionRule) list" where
  "placed f rs = map (\<lambda>i. (f i, rs ! i)) [0..<length rs]"

definition sessionList :: "permissionStore \<Rightarrow> string \<Rightarrow> permissionRule list" where
  "sessionList s key = withDefault (map_of (sessionRules s) key) []"

definition bucketPlaced :: "string \<Rightarrow> bucket \<Rightarrow> (place \<times> permissionRule) list" where
  "bucketPlaced key b = map (\<lambda>ref. (InBucket key ref, deref b ref)) (bEffective b)"

definition builtinPlaced :: "permissionStore \<Rightarrow> (place \<times> permissionRule) list" where
  "builtinPlaced s = concat (map (\<lambda>(ns, rs). placed (InBuiltin ns) rs) (builtinRules s))"

definition userPlaced :: "permissionStore \<Rightarrow> permissionContextId \<Rightarrow> bucket \<Rightarrow> bucket \<Rightarrow> (place \<times> permissionRule) list" where
  "userPlaced s ctx cb gb =
     placed (InSession (toStorageKey ctx)) (sessionList s (toStorageKey ctx)) @
     filter (\<lambda>c. ruleAppliesToContext (snd c) ctx) (bucketPlaced (toStorageKey ctx) cb) @
     bucketPlaced GLOBAL_PERMISSION_BUCKET gb"

text \<open>Reading both ranges; a file that cannot be read makes the reader throw.\<close>

definition readRanges :: "permissionStore \<Rightarrow> permissionContextId \<Rightarrow> ((bucket \<times> bucket) \<times> permissionStore) option" where
  "readRanges s ctx =
     (case getBucket (durableRules s) (toStorageKey ctx) of
        None \<Rightarrow> None
      | Some (cb, d1) \<Rightarrow>
          (case getBucket d1 GLOBAL_PERMISSION_BUCKET of
             None \<Rightarrow> None
           | Some (gb, d2) \<Rightarrow> Some ((cb, gb), s\<lparr>durableRules := d2\<rparr>)))"

definition chooseRule :: "int \<Rightarrow> (place \<times> permissionRule) list \<Rightarrow> permissionStore \<Rightarrow> permissionRule option \<times> permissionStore" where
  "chooseRule now candidates s =
     (let chosen = resolveConflict snd candidates in
      (Some (touchRule now (snd chosen)), touchPlace now (fst chosen) s))"

definition matchRule ::
  "(securityRequest \<Rightarrow> string) \<Rightarrow> int \<Rightarrow> permissionContextId \<Rightarrow> securityRequest \<Rightarrow> permissionStore \<Rightarrow> (permissionRule option \<times> permissionStore) js" where
  "matchRule extract now ctx r s =
     (case readRanges s ctx of
        None \<Rightarrow> Inl JsTypeError
      | Some ((cb, gb), s') \<Rightarrow>
          let matches = (\<lambda>c. ruleMatches (snd c) (toLowerCase (reqTool r)) (extract r));
              userCandidates = filter matches (userPlaced s' ctx cb gb)
          in if userCandidates \<noteq> [] then Inr (chooseRule now userCandidates s')
             else let builtinCandidates = filter matches (builtinPlaced s') in
               if builtinCandidates \<noteq> [] then Inr (chooseRule now builtinCandidates s') else Inr (None, s'))"

definition matchFrozen ::
  "(securityRequest \<Rightarrow> string) \<Rightarrow> int \<Rightarrow> permissionRule list \<Rightarrow> securityRequest \<Rightarrow> permissionRule option" where
  "matchFrozen extract now rules r =
     (let matches = (\<lambda>rule. ruleMatches rule (toLowerCase (reqTool r)) (extract r));
          userCandidates = filter (\<lambda>rule. scope rule \<noteq> BuiltinScope \<and> matches rule) rules;
          candidates = (if userCandidates \<noteq> [] then userCandidates
                        else filter (\<lambda>rule. scope rule = BuiltinScope \<and> matches rule) rules)
      in if candidates \<noteq> [] then Some (touchRule now (resolveConflict (\<lambda>x. x) candidates)) else None)"

definition createRuleIn ::
  "writeOutcome \<Rightarrow> permissionContextId \<Rightarrow> permissionRule \<Rightarrow> permissionStore \<Rightarrow> (storeError, unit) result \<times> permissionStore" where
  "createRuleIn w ctx rule s =
     (let key = toStorageKey ctx;
          viaDurable = (\<lambda>res. (case fst res of Inl e \<Rightarrow> Inl (DurableFailed e) | Inr u \<Rightarrow> Inr u, s\<lparr>durableRules := snd res\<rparr>))
      in case scope rule of
           SessionScope \<Rightarrow> (Inr (), s\<lparr>sessionRules := omap_set key (sessionList s key @ [rule]) (sessionRules s)\<rparr>)
         | ContextScope \<Rightarrow> viaDurable (addContextRule w key rule (durableRules s))
         | GlobalScope \<Rightarrow> viaDurable (addGlobalRule w rule (durableRules s))
         | BuiltinScope \<Rightarrow> (Inl BuiltinNotCreatable, s))"

definition listRules :: "permissionContextId \<Rightarrow> permissionStore \<Rightarrow> (permissionRule list \<times> permissionStore) option" where
  "listRules ctx s =
     (case readRanges s ctx of
        None \<Rightarrow> None
      | Some ((cb, gb), s') \<Rightarrow>
          Some (sessionList s' (toStorageKey ctx) @
                filter (\<lambda>r. ruleAppliesToContext r ctx) (effectiveRules cb) @ effectiveRules gb, s'))"

definition snapshotRules :: "permissionContextId \<Rightarrow> permissionStore \<Rightarrow> (permissionRule list \<times> permissionStore) option" where
  "snapshotRules ctx s =
     map_option (\<lambda>(rs, s'). (rs @ concat (omap_values (builtinRules s')), s')) (listRules ctx s)"

text \<open>The first session rule with that id, in the order of the map.\<close>

fun revokeSession :: "string \<Rightarrow> (string, permissionRule list) omap \<Rightarrow> (string, permissionRule list) omap option" where
  "revokeSession i [] = None"
| "revokeSession i ((key, rules) # m) =
     (if list_ex (\<lambda>r. ruleId r = i) rules
      then (let rules' = removeFirst (\<lambda>r. ruleId r = i) rules in
            Some (if rules' = [] then m else (key, rules') # m))
      else map_option (\<lambda>m'. (key, rules) # m') (revokeSession i m))"

definition revokeRule ::
  "writeOutcome \<Rightarrow> writeOutcome \<Rightarrow> string \<Rightarrow> permissionStore \<Rightarrow> (storeError, bool) result \<times> permissionStore" where
  "revokeRule w1 w2 i s =
     (case revokeSession i (sessionRules s) of
        Some m \<Rightarrow> (Inr True, s\<lparr>sessionRules := m\<rparr>)
      | None \<Rightarrow>
          let res = revokeDurable w1 w2 i (durableRules s) in
          (case fst res of Inl e \<Rightarrow> Inl (DurableFailed e) | Inr b \<Rightarrow> Inr b, s\<lparr>durableRules := snd res\<rparr>))"

definition resetRules ::
  "writeOutcome \<Rightarrow> permissionContextId \<Rightarrow> permissionStore \<Rightarrow> (storeError, unit) result \<times> permissionStore" where
  "resetRules w ctx s =
     (let key = toStorageKey ctx; res = resetContext w key (durableRules s) in
      (case fst res of Inl e \<Rightarrow> Inl (DurableFailed e) | Inr u \<Rightarrow> Inr u,
       s\<lparr>sessionRules := filter (\<lambda>e. fst e \<noteq> key) (sessionRules s), durableRules := snd res\<rparr>))"

definition resetAllRules :: "string list option \<Rightarrow> permissionStore \<Rightarrow> (storeError, unit) result \<times> permissionStore" where
  "resetAllRules failed s =
     (let res = resetAllDurable failed (durableRules s) in
      (case fst res of Inl e \<Rightarrow> Inl (DurableFailed e) | Inr u \<Rightarrow> Inr u,
       s\<lparr>sessionRules := [], durableRules := snd res\<rparr>))"

definition registerBuiltinRules ::
  "string \<Rightarrow> permissionRule list \<Rightarrow> permissionStore \<Rightarrow> (storeError, permissionStore) result" where
  "registerBuiltinRules namespace rules s =
     (if namespace = [] then Inl EmptyNamespace
      else if rules = [] then Inl (EmptyRuleSet namespace)
      else case List.find (\<lambda>r. scope r \<noteq> BuiltinScope) rules of
             Some r \<Rightarrow> Inl (WrongScope (ruleId r))
           | None \<Rightarrow> Inr (s\<lparr>builtinRules := omap_set namespace rules (builtinRules s)\<rparr>))"

definition listBuiltinNamespaces :: "permissionStore \<Rightarrow> string list" where
  "listBuiltinNamespaces s = map fst (builtinRules s)"

definition getBuiltinRules :: "string \<Rightarrow> permissionStore \<Rightarrow> permissionRule list" where
  "getBuiltinRules namespace s = withDefault (map_of (builtinRules s) namespace) []"

text \<open>The random id and the clock are arguments.\<close>

definition createRule ::
  "string \<Rightarrow> int \<Rightarrow> string \<Rightarrow> string \<Rightarrow> permissionDecision \<Rightarrow> permissionScope \<Rightarrow> permissionContextId option \<Rightarrow>
   string option \<Rightarrow> trustContribution list option \<Rightarrow> permissionRule" where
  "createRule uuid now tool argument d sc ctx path cs =
     \<lparr>ruleId = uuid, patTool = tool, patArgument = argument, decision = d, scope = sc, createdAt = now,
      lastMatchedAt = 0, matchCount = 0, contextId = ctx, contextPath = path, contributors = cs\<rparr>"

section \<open>The source of rules of an execution\<close>

text \<open>\<^verbatim>\<open>bindPermissionRuleExecutionSource\<close>: the store bound to one context.\<close>

definition boundMatchFrozen ::
  "(securityRequest \<Rightarrow> string) \<Rightarrow> int \<Rightarrow> permissionContextId \<Rightarrow> permissionRule list \<Rightarrow> securityRequest \<Rightarrow> permissionRule option" where
  "boundMatchFrozen extract now ctx rules r =
     matchFrozen extract now (filter (\<lambda>rule. ruleAppliesToContext rule ctx) rules) r"

end
