(* ===== verification/Security_Matching.thy ===== *)
theory Security_Matching
  imports Security_Permissions
begin

text \<open>
  Facts about permission rules: the compiled globs agree with a direct recursive reading, the
  resolution of conflicts, and the invariant that scopes keep the two pools apart.
\<close>

section \<open>Globs read directly\<close>

text \<open>A run of characters of a class, then the rest.\<close>

fun runThen :: "(char \<Rightarrow> bool) \<Rightarrow> (string \<Rightarrow> bool) \<Rightarrow> string \<Rightarrow> bool" where
  "runThen P k [] = k []"
| "runThen P k (c # s) = (k (c # s) \<or> P c \<and> runThen P k s)"

definition notNewline :: "char \<Rightarrow> bool" where
  "notNewline c \<longleftrightarrow> c \<noteq> CHR 0x0A \<and> c \<noteq> CHR 0x0D"

definition wildChar :: "bool \<Rightarrow> char \<Rightarrow> bool" where
  "wildChar pathAware c \<longleftrightarrow> (if pathAware then c \<noteq> slash else notNewline c)"

definition oneThen :: "(char \<Rightarrow> bool) \<Rightarrow> (string \<Rightarrow> bool) \<Rightarrow> string \<Rightarrow> bool" where
  "oneThen P k s = (case s of [] \<Rightarrow> False | c # t \<Rightarrow> P c \<and> k t)"

fun globReads :: "bool \<Rightarrow> string \<Rightarrow> string \<Rightarrow> bool" where
  "globReads pathAware [] = (\<lambda>s. s = [])"
| "globReads pathAware (c # p) =
     (if c = CHR ''*'' then
        (case p of
           d # q \<Rightarrow>
             if d = CHR ''*'' then runThen notNewline (globReads pathAware q)
             else runThen (wildChar pathAware) (globReads pathAware p)
         | [] \<Rightarrow> runThen (wildChar pathAware) (\<lambda>s. s = []))
      else if c = CHR ''?'' then oneThen (wildChar pathAware) (globReads pathAware p)
      else oneThen (\<lambda>d. d = c) (globReads pathAware p))"

lemma runThen_iff: "runThen P k s \<longleftrightarrow> (\<exists>u t. s = u @ t \<and> list_all P u \<and> k t)"
proof (induction s)
  case (Cons c s)
  show ?case
  proof
    assume "runThen P k (c # s)"
    then consider "k (c # s)" | "P c" "runThen P k s" by auto
    then show "\<exists>u t. c # s = u @ t \<and> list_all P u \<and> k t"
    proof cases
      case 2
      then obtain u t where "s = u @ t" "list_all P u" "k t" using Cons.IH by blast
      then show ?thesis using 2(1) by (intro exI [of _ "c # u"] exI [of _ t]) simp
    qed (metis append_Nil list.pred_inject(1))
  next
    assume "\<exists>u t. c # s = u @ t \<and> list_all P u \<and> k t"
    then show "runThen P k (c # s)" using Cons.IH by (auto simp: Cons_eq_append_conv)
  qed
qed simp

section \<open>What the items consume\<close>

lemma inRanges_single [simp]: "inRanges False [(a, a)] c \<longleftrightarrow> c = a"
proof -
  have "code a = code c \<longleftrightarrow> a = c" by (simp add: code_def)
  then show ?thesis by (auto simp: inRanges_def inRange_def)
qed

lemma inRanges_two [simp]: "inRanges False [(a, a), (b, b)] c \<longleftrightarrow> c = a \<or> c = b"
proof -
  have "code x = code y \<longleftrightarrow> x = y" for x y by (simp add: code_def)
  then show ?thesis by (auto simp: inRanges_def inRange_def)
qed

lemma many_class:
  "length s \<le> n \<Longrightarrow>
   snd ` set (manyFrom (steps ci (Class b rs)) n (q, s)) = {t. \<exists>u. s = u @ t \<and> list_all (\<lambda>c. inRanges ci rs c = b) u}"
proof (induction n arbitrary: q s)
  case (Suc n)
  show ?case
  proof (cases s)
    case (Cons c t)
    let ?M = "\<lambda>s. {t. \<exists>u. s = u @ t \<and> list_all (\<lambda>c. inRanges ci rs c = b) u}"
    have "?M (c # t) = (if inRanges ci rs c = b then insert (c # t) (?M t) else {c # t})"
      by (auto simp: Cons_eq_append_conv)
    moreover have "snd ` set (manyFrom (steps ci (Class b rs)) n (Some c, t)) = ?M t"
      by (rule Suc.IH) (use Suc.prems Cons in simp)
    moreover have "steps ci (Class b rs) (q, c # t) = (if inRanges ci rs c = b then [(Some c, t)] else [])"
      by simp
    ultimately show ?thesis by (simp add: Cons image_Un del: steps.simps)
  qed (auto simp: image_def)
qed auto

lemma steps_many_class:
  "snd ` set (steps ci (Many (Class b rs)) (q, s)) = {t. \<exists>u. s = u @ t \<and> list_all (\<lambda>c. inRanges ci rs c = b) u}"
  by (simp add: many_class)

lemma runs_many:
  assumes "\<And>q t. (steps False (Seqs rs) (q, t) \<noteq> []) = k t"
    and "\<And>c. (inRanges False cs c = b) = P c"
  shows "(steps False (Seqs (Many (Class b cs) # rs)) (q, s) \<noteq> []) = runThen P k s"
proof -
  have "(steps False (Seqs (Many (Class b cs) # rs)) (q, s) \<noteq> []) =
      (\<exists>t \<in> snd ` set (steps False (Many (Class b cs)) (q, s)). k t)"
    using assms(1) by (simp del: steps.simps(9)) force
  then show ?thesis unfolding steps_many_class by (auto simp: runThen_iff assms(2))
qed

lemma reads_one:
  assumes "\<And>q t. (steps False (Seqs rs) (q, t) \<noteq> []) = k t"
    and "\<And>c. (inRanges False cs c = b) = P c"
  shows "(steps False (Seqs (Class b cs # rs)) (q, s) \<noteq> []) = oneThen P k s"
  by (cases s) (use assms in \<open>auto simp: oneThen_def\<close>)

lemma glob_items:
  "(steps False (Seqs (globItems pa p @ [End])) (q, s) \<noteq> []) = globReads pa p s"
proof (induction pa p arbitrary: q s rule: globReads.induct)
  case (1 pa)
  show ?case by simp
next
  case (2 pa c p)
  note many = runs_many [where q = q and s = s]
  consider (last) "c = CHR ''*''" "p = []"
    | (double) r where "c = CHR ''*''" "p = CHR ''*'' # r"
    | (star) d r where "c = CHR ''*''" "p = d # r" "d \<noteq> CHR ''*''"
    | (question) "c = CHR ''?''"
    | (literal) "c \<noteq> CHR ''*''" "c \<noteq> CHR ''?''"
    by (metis list.exhaust)
  then show ?case
  proof cases
    case last
    have "(steps False (Seqs [End]) (q, t) \<noteq> []) = (t = [])" for q t by simp
    from many [OF this, of "[(slash, slash)]" False "wildChar True"]
      many [OF this, of "[(CHR 0x0A, CHR 0x0A), (CHR 0x0D, CHR 0x0D)]" False "wildChar False"]
    show ?thesis using last by (auto simp: wildChar_def notNewline_def simp del: steps.simps)
  next
    case double
    have "(steps False (Seqs (globItems pa r @ [End])) (q, t) \<noteq> []) = globReads pa r t" for q t
      using 2(1) double by simp
    from many [OF this, of "[(CHR 0x0A, CHR 0x0A), (CHR 0x0D, CHR 0x0D)]" False notNewline]
    show ?thesis using double by (simp add: notNewline_def del: steps.simps)
  next
    case star
    have "(steps False (Seqs (globItems pa p @ [End])) (q, t) \<noteq> []) = globReads pa p t" for q t
      using 2(2) star by simp
    from many [OF this, of "[(slash, slash)]" False "wildChar True"]
      many [OF this, of "[(CHR 0x0A, CHR 0x0A), (CHR 0x0D, CHR 0x0D)]" False "wildChar False"]
    show ?thesis using star by (auto simp: wildChar_def notNewline_def simp del: steps.simps)
  next
    case question
    have "(steps False (Seqs (globItems pa p @ [End])) (q, t) \<noteq> []) = globReads pa p t" for q t
      using 2(3) question by simp
    from reads_one [OF this, of "[(slash, slash)]" False "wildChar True" q s]
      reads_one [OF this, of "[(CHR 0x0A, CHR 0x0A), (CHR 0x0D, CHR 0x0D)]" False "wildChar False" q s]
    show ?thesis using question by (auto simp: wildChar_def notNewline_def simp del: steps.simps)
  next
    case literal
    have "(steps False (Seqs (globItems pa p @ [End])) (q, t) \<noteq> []) = globReads pa p t" for q t
      using 2(4) literal by simp
    from reads_one [OF this, of "[(c, c)]" True "\<lambda>d. d = c" q s]
    show ?thesis using literal by (simp del: steps.simps)
  qed
qed

lemma search_anchored:
  "(searchFrom False (Seqs (Start # rs)) None s \<noteq> None) = (steps False (Seqs rs) (None, s) \<noteq> [])"
proof -
  have tail: "searchFrom False (Seqs (Start # rs)) (Some c) s = None" for c s
    by (induction s arbitrary: c) (subst searchFrom.simps, simp)+
  show ?thesis
    by (subst searchFrom.simps) (auto simp: tail split: list.splits)
qed

lemma globMatches_reads: "globMatches p s = globReads (includesText [slash] p) p s"
  unfolding globMatches_def globToRegex_def regexTest_def regexFirst_def
  by (simp only: search_anchored glob_items)

section \<open>Resolution of conflicts\<close>

abbreviation specificityOf :: "permissionRule \<Rightarrow> int" where
  "specificityOf r \<equiv> globSpecificity (patArgument r)"

lemma mostSpecificFrom_mem: "mostSpecificFrom f b rs \<in> set (b # rs)"
proof (induction rs arbitrary: b)
  case (Cons r rs)
  then show ?case by (metis list.set_intros(1) list.set_intros(2) mostSpecificFrom.simps(2) set_ConsD)
qed simp

lemma mostSpecificFrom_max:
  "x \<in> set (b # rs) \<Longrightarrow> specificityOf (f x) \<le> specificityOf (f (mostSpecificFrom f b rs))"
proof (induction rs arbitrary: b x)
  case (Cons r rs)
  have *: "specificityOf (f b) \<le> specificityOf (f (mostSpecificFrom f b rs))"
    "specificityOf (f r) \<le> specificityOf (f (mostSpecificFrom f r rs))"
    using Cons.IH by auto
  from Cons.prems consider "x = b" | "x = r" | "x \<in> set rs" by auto
  then show ?case
  proof cases
    case 3
    then show ?thesis using Cons.IH [of x b] Cons.IH [of x r] by simp
  qed (use * in \<open>auto simp: not_less\<close>)
qed simp

lemma mostSpecificFrom_map: "f (mostSpecificFrom f b rs) = mostSpecificFrom (\<lambda>x. x) (f b) (map f rs)"
  by (induction rs arbitrary: b) auto

lemma resolveConflict_map: "cs \<noteq> [] \<Longrightarrow> f (resolveConflict f cs) = resolveConflict (\<lambda>x. x) (map f cs)"
proof -
  assume ne: "cs \<noteq> []"
  have *: "map f (filter (\<lambda>r. decision (f r) = PermitDeny) cs) = filter (\<lambda>r. decision r = PermitDeny) (map f cs)"
    by (simp add: filter_map comp_def)
  have step: "f (mostSpecificFrom f (hd xs) (tl xs)) = mostSpecificFrom (\<lambda>x. x) (hd (map f xs)) (tl (map f xs))"
    if "xs \<noteq> []" for xs
    using that by (simp add: mostSpecificFrom_map hd_map map_tl)
  show ?thesis
  proof (cases "filter (\<lambda>r. decision (f r) = PermitDeny) cs = []")
    case True
    then show ?thesis using step [OF ne] * by (simp add: resolveConflict_def Let_def)
  next
    case False
    then show ?thesis using False step [OF False] by (simp add: resolveConflict_def Let_def * [symmetric])
  qed
qed

lemma resolveConflict_spec:
  assumes "cs \<noteq> []"
  defines "best \<equiv> resolveConflict (\<lambda>x. x) cs"
  shows "best \<in> set cs"
    and "(decision best = PermitDeny) = (\<exists>x \<in> set cs. decision x = PermitDeny)"
    and "x \<in> set cs \<Longrightarrow> decision x = decision best \<Longrightarrow> specificityOf x \<le> specificityOf best"
proof -
  let ?d = "filter (\<lambda>r. decision r = PermitDeny) cs"
  define pool where "pool = (if ?d \<noteq> [] then ?d else cs)"
  have best: "best = mostSpecificFrom (\<lambda>x. x) (hd pool) (tl pool)"
    by (simp add: best_def resolveConflict_def pool_def Let_def)
  have "pool \<noteq> []" using assms(1) by (simp add: pool_def)
  then have pool: "hd pool # tl pool = pool" by simp
  have mem: "best \<in> set pool" using mostSpecificFrom_mem [of "\<lambda>x. x" "hd pool" "tl pool"] pool by (simp add: best)
  have max: "x \<in> set pool \<Longrightarrow> specificityOf x \<le> specificityOf best" for x
    using mostSpecificFrom_max [of x "hd pool" "tl pool" "\<lambda>x. x"] pool by (simp add: best)
  show "best \<in> set cs" using mem by (auto simp: pool_def split: if_splits)
  show deny: "(decision best = PermitDeny) = (\<exists>x \<in> set cs. decision x = PermitDeny)"
  proof (cases "?d = []")
    case True
    then show ?thesis using mem by (auto simp: pool_def filter_empty_conv)
  next
    case False
    then have "decision best = PermitDeny" using mem by (auto simp: pool_def)
    then show ?thesis using False by (auto simp: filter_empty_conv)
  qed
  assume "x \<in> set cs" "decision x = decision best"
  then have "x \<in> set pool"
    using deny by (auto simp: pool_def filter_empty_conv)
  then show "specificityOf x \<le> specificityOf best" by (rule max)
qed

section \<open>Matching, as a function of the visible rules\<close>

definition pickRule :: "int \<Rightarrow> (permissionRule \<Rightarrow> bool) \<Rightarrow> permissionRule list \<Rightarrow> permissionRule list \<Rightarrow> permissionRule option" where
  "pickRule now matches user builtin =
     (if filter matches user \<noteq> [] then Some (touchRule now (resolveConflict (\<lambda>x. x) (filter matches user)))
      else if filter matches builtin \<noteq> [] then Some (touchRule now (resolveConflict (\<lambda>x. x) (filter matches builtin)))
      else None)"

lemma snd_placed [simp]: "map snd (placed f rs) = rs"
  by (simp add: placed_def comp_def map_nth)

lemma snd_bucketPlaced [simp]: "map snd (bucketPlaced key b) = effectiveRules b"
  by (simp add: bucketPlaced_def effectiveRules_def comp_def)

lemma snd_userPlaced:
  "map snd (userPlaced s ctx cb gb) =
     sessionList s (toStorageKey ctx) @ filter (\<lambda>r. ruleAppliesToContext r ctx) (effectiveRules cb) @ effectiveRules gb"
proof -
  have "map snd (filter (\<lambda>c. ruleAppliesToContext (snd c) ctx) (bucketPlaced (toStorageKey ctx) cb)) =
      filter (\<lambda>r. ruleAppliesToContext r ctx) (map snd (bucketPlaced (toStorageKey ctx) cb))"
    by (simp add: filter_map comp_def del: snd_bucketPlaced)
  then show ?thesis by (simp add: userPlaced_def)
qed

lemma snd_builtinPlaced: "map snd (builtinPlaced s) = concat (omap_values (builtinRules s))"
  by (simp add: builtinPlaced_def map_concat comp_def case_prod_beta)

lemma chooseRule_pick:
  assumes "filter (\<lambda>c. m (snd c)) cs \<noteq> []"
  shows "fst (chooseRule now (filter (\<lambda>c. m (snd c)) cs) s) =
    Some (touchRule now (resolveConflict (\<lambda>x. x) (filter m (map snd cs))))"
  using resolveConflict_map [OF assms, of snd] by (simp add: chooseRule_def Let_def filter_map comp_def)

lemma matchRule_picks:
  assumes "matchRule extract now ctx r s = Inr (res, s2)"
  shows "\<exists>rs s1. listRules ctx s = Some (rs, s1) \<and>
    res = pickRule now (\<lambda>x. ruleMatches x (toLowerCase (reqTool r)) (extract r)) rs (concat (omap_values (builtinRules s1)))"
proof -
  let ?m = "\<lambda>x. ruleMatches x (toLowerCase (reqTool r)) (extract r)"
  from assms obtain cb gb s' where rr: "readRanges s ctx = Some ((cb, gb), s')"
    by (auto simp: matchRule_def split: option.splits)
  let ?user = "userPlaced s' ctx cb gb"
  let ?bi = "builtinPlaced s'"
  have eq: "(res, s2) = (if filter (\<lambda>c. ?m (snd c)) ?user \<noteq> [] then chooseRule now (filter (\<lambda>c. ?m (snd c)) ?user) s'
      else if filter (\<lambda>c. ?m (snd c)) ?bi \<noteq> [] then chooseRule now (filter (\<lambda>c. ?m (snd c)) ?bi) s' else (None, s'))"
    using assms by (simp add: matchRule_def rr Let_def split: if_splits)
  have list: "listRules ctx s = Some (map snd ?user, s')" by (simp add: listRules_def rr snd_userPlaced)
  have empty: "(filter (\<lambda>c. ?m (snd c)) cs = []) = (filter ?m (map snd cs) = [])" for cs :: "(place \<times> permissionRule) list"
    by (simp add: filter_map comp_def)
  have "res = pickRule now ?m (map snd ?user) (map snd ?bi)"
  proof (cases "filter (\<lambda>c. ?m (snd c)) ?user = []")
    case False
    then show ?thesis using eq chooseRule_pick [OF False, of now s'] empty [of ?user]
      by (simp add: pickRule_def) (metis fst_conv)
  next
    case True
    note user = this
    show ?thesis
    proof (cases "filter (\<lambda>c. ?m (snd c)) ?bi = []")
      case False
      then show ?thesis using eq user chooseRule_pick [OF False, of now s'] empty [of ?user] empty [of ?bi]
        by (simp add: pickRule_def) (metis fst_conv)
    next
      case True
      then show ?thesis using eq user empty [of ?user] empty [of ?bi] by (simp add: pickRule_def)
    qed
  qed
  then show ?thesis using list by (auto simp: snd_builtinPlaced)
qed

lemma pickRule_spec:
  assumes "pickRule now m user builtin = Some rule"
  obtains x where "rule = touchRule now x" "m x" "x \<in> set user \<or> (\<forall>y \<in> set user. \<not> m y) \<and> x \<in> set builtin"
    "x \<in> set user \<Longrightarrow> (decision x = PermitDeny) = (\<exists>y \<in> set user. m y \<and> decision y = PermitDeny)"
    "\<forall>y \<in> set (if \<exists>z \<in> set user. m z then user else builtin). m y \<and> decision y = decision x \<longrightarrow> specificityOf y \<le> specificityOf x"
    "(\<forall>y \<in> set user. \<not> m y) \<Longrightarrow> (decision x = PermitDeny) = (\<exists>y \<in> set builtin. m y \<and> decision y = PermitDeny)"
proof (cases "filter m user = []")
  case False
  let ?x = "resolveConflict (\<lambda>x. x) (filter m user)"
  have "rule = touchRule now ?x" using assms False by (simp add: pickRule_def)
  moreover have "\<exists>z \<in> set user. m z" using False by (auto simp: filter_empty_conv)
  ultimately show ?thesis using that [of ?x] resolveConflict_spec [OF False] by auto
next
  case True
  then have bi: "filter m builtin \<noteq> []" and rule: "rule = touchRule now (resolveConflict (\<lambda>x. x) (filter m builtin))"
    using assms by (auto simp: pickRule_def split: if_splits)
  have none: "\<forall>y \<in> set user. \<not> m y" using True by (auto simp: filter_empty_conv)
  show ?thesis
    by (rule that [of "resolveConflict (\<lambda>x. x) (filter m builtin)"])
       (use rule none resolveConflict_spec [OF bi] in auto)
qed

lemma pickRule_None: "pickRule now m user builtin = None \<longleftrightarrow> (\<forall>x \<in> set user \<union> set builtin. \<not> m x)"
  by (auto simp: pickRule_def filter_empty_conv)

lemma touchRule_simps [simp]:
  "decision (touchRule now r) = decision r" "scope (touchRule now r) = scope r" "ruleId (touchRule now r) = ruleId r"
  "patTool (touchRule now r) = patTool r" "patArgument (touchRule now r) = patArgument r"
  "contextId (touchRule now r) = contextId r"
  by (simp_all add: touchRule_def)

section \<open>Frozen rules\<close>

lemma matchFrozen_pick:
  assumes "\<forall>x \<in> set user. scope x \<noteq> BuiltinScope" and "\<forall>x \<in> set builtin. scope x = BuiltinScope"
  shows "matchFrozen extract now (user @ builtin) r =
    pickRule now (\<lambda>x. ruleMatches x (toLowerCase (reqTool r)) (extract r)) user builtin"
proof -
  let ?m = "\<lambda>x. ruleMatches x (toLowerCase (reqTool r)) (extract r)"
  have u: "filter (\<lambda>x. scope x \<noteq> BuiltinScope \<and> ?m x) (user @ builtin) = filter ?m user"
    using assms by (simp cong: filter_cong)
  have b: "filter (\<lambda>x. scope x = BuiltinScope \<and> ?m x) (user @ builtin) = filter ?m builtin"
    using assms by (simp cong: filter_cong)
  show ?thesis unfolding matchFrozen_def Let_def u b by (simp add: pickRule_def)
qed

end
