(* ===== verification/Security_Revocation.thy ===== *)
theory Security_Revocation
  imports Security_Matching
begin

text \<open>
  Runs of the durable store: any sequence of its operations, with any outcome of the writes,
  hits that matching counts, and reopening. The locale \<open>rule_invariant\<close> keeps a property of the
  revoked ids and of the rules along all runs; it is interpreted for the ids that were revoked
  and for the scopes that keep user rules and builtin rules apart.
\<close>

section \<open>Runs\<close>

datatype durableOp =
    ReadRange string
  | Publish writeOutcome string permissionRule
  | Prepare writeOutcome string pendingApproval
  | Accept writeOutcome string string
  | Discard writeOutcome string string
  | Revoke writeOutcome writeOutcome string
  | ResetRange writeOutcome string
  | ResetEverything "string list option"
  | CountHit int string ruleRef
  | Reopen

fun durableStep :: "durableOp \<Rightarrow> durable \<Rightarrow> durable" where
  "durableStep (ReadRange key) d = (case getBucket d key of None \<Rightarrow> d | Some (_, d') \<Rightarrow> d')"
| "durableStep (Publish w key rule) d = snd (publish w key rule d)"
| "durableStep (Prepare w key entry) d = snd (preparePending w key entry d)"
| "durableStep (Accept w key q) d = snd (acceptPending w key q d)"
| "durableStep (Discard w key q) d = snd (discardPending w key q d)"
| "durableStep (Revoke w1 w2 i) d = snd (revokeDurable w1 w2 i d)"
| "durableStep (ResetRange w key) d = snd (resetContext w key d)"
| "durableStep (ResetEverything failed) d = snd (resetAllDurable failed d)"
| "durableStep (CountHit now key ref) d = touchDurable now key ref d"
| "durableStep Reopen d = reopenDurable d"

definition durableRun :: "durableOp list \<Rightarrow> durable \<Rightarrow> durable" where
  "durableRun ops d = fold durableStep ops d"

text \<open>Keys name a file of their own, as those of \<^verbatim>\<open>toStorageKey\<close> do.\<close>

definition keyOk :: "string \<Rightarrow> bool" where
  "keyOk key \<longleftrightarrow> bucketFile key \<noteq> REVOKED_FILE"

fun opOk :: "(string \<Rightarrow> permissionRule \<Rightarrow> bool) \<Rightarrow> durableOp \<Rightarrow> bool" where
  "opOk good (Publish w key rule) = (keyOk key \<and> good key rule)"
| "opOk good (Prepare w key entry) = (keyOk key \<and> good key (paRule entry))"
| "opOk good (Accept w key q) = keyOk key"
| "opOk good (Discard w key q) = keyOk key"
| "opOk good (ReadRange key) = keyOk key"
| "opOk good (ResetRange w key) = keyOk key"
| "opOk good _ = True"

lemma append_json_inj: "a @ ''.json'' = b @ ''.json'' \<Longrightarrow> a = b"
  by simp

lemma keyOk_storage: "keyOk (toStorageKey ctx)"
  by (cases ctx) (simp_all add: keyOk_def bucketFile_def REVOKED_FILE_def GLOBAL_PERMISSION_BUCKET_def)

lemma keyOk_global: "keyOk GLOBAL_PERMISSION_BUCKET"
  by (simp add: keyOk_def bucketFile_def REVOKED_FILE_def)

section \<open>Views\<close>

definition viewOk :: "string list \<Rightarrow> bucket \<Rightarrow> bool" where
  "viewOk ids b \<longleftrightarrow> bEffective b = bEffective (bucketView ids (bRules b) (bPending b) (bAccepted b))"

definition bucketGood :: "(permissionRule \<Rightarrow> bool) \<Rightarrow> bucket \<Rightarrow> bool" where
  "bucketGood g b \<longleftrightarrow> (\<forall>r \<in> set (bRules b). g r) \<and> (\<forall>e \<in> set (bPending b). g (paRule e))"

lemma bucketView_sel [simp]:
  "bRules (bucketView ids rs ps acc) = rs" "bPending (bucketView ids rs ps acc) = ps"
  "bAccepted (bucketView ids rs ps acc) = acc"
  by (simp_all add: bucketView_def)

lemma viewOk_view [simp]: "viewOk ids (bucketView ids rs ps acc)"
  by (simp add: viewOk_def)

lemma effective_view:
  "viewOk ids b \<Longrightarrow> r \<in> set (effectiveRules b) \<longleftrightarrow>
     ruleId r \<notin> set ids \<and>
     (r \<in> set (bRules b) \<or> (\<exists>e \<in> set (bPending b). paRequestId e \<in> set (bAccepted b) \<and> paRule e = r))"
proof -
  assume "viewOk ids b"
  then have eff: "set (bEffective b) =
      AtRule ` {i. i < length (bRules b) \<and> ruleId (bRules b ! i) \<notin> set ids} \<union>
      AtPending ` {i. i < length (bPending b) \<and> paRequestId (bPending b ! i) \<in> set (bAccepted b) \<and>
        ruleId (paRule (bPending b ! i)) \<notin> set ids}"
    unfolding viewOk_def by (auto simp: bucketView_def)
  have "set (effectiveRules b) = {bRules b ! i |i. i < length (bRules b) \<and> ruleId (bRules b ! i) \<notin> set ids} \<union>
      {paRule (bPending b ! i) |i. i < length (bPending b) \<and> paRequestId (bPending b ! i) \<in> set (bAccepted b) \<and>
        ruleId (paRule (bPending b ! i)) \<notin> set ids}"
    unfolding effectiveRules_def set_map eff image_Un image_image by auto
  also have "\<dots> = {r \<in> set (bRules b). ruleId r \<notin> set ids} \<union>
      {paRule e |e. e \<in> set (bPending b) \<and> paRequestId e \<in> set (bAccepted b) \<and> ruleId (paRule e) \<notin> set ids}"
    by (simp add: set_conv_nth) blast
  finally show ?thesis by auto
qed

lemma ids_update: "map ruleId (rs[i := touchRule now (rs ! i)]) = map ruleId rs"
  by (metis list_update_id map_update touchRule_simps(3))

lemma effective_depends:
  assumes "map ruleId rs = map ruleId rs'"
    and "map (\<lambda>e. (paRequestId e, ruleId (paRule e))) ps = map (\<lambda>e. (paRequestId e, ruleId (paRule e))) ps'"
  shows "bEffective (bucketView ids rs ps acc) = bEffective (bucketView ids rs' ps' acc)"
proof -
  have len: "length rs = length rs'" "length ps = length ps'" using assms by (metis length_map)+
  have r: "i < length rs' \<Longrightarrow> ruleId (rs ! i) = ruleId (rs' ! i)" for i
    using assms(1) len by (metis nth_map)
  have p: "i < length ps' \<Longrightarrow> (paRequestId (ps ! i), ruleId (paRule (ps ! i))) = (paRequestId (ps' ! i), ruleId (paRule (ps' ! i)))" for i
    using assms(2) len by (metis (no_types, lifting) nth_map)
  have "rs = [] \<longleftrightarrow> rs' = []" "ps = [] \<longleftrightarrow> ps' = []" using len by auto
  moreover have "filter (\<lambda>i. ruleId (rs ! i) \<notin> set ids) [0..<length rs] = filter (\<lambda>i. ruleId (rs' ! i) \<notin> set ids) [0..<length rs']"
    using r len by (intro filter_cong) simp_all
  moreover have "filter (\<lambda>i. paRequestId (ps ! i) \<in> set acc \<and> ruleId (paRule (ps ! i)) \<notin> set ids) [0..<length ps] =
      filter (\<lambda>i. paRequestId (ps' ! i) \<in> set acc \<and> ruleId (paRule (ps' ! i)) \<notin> set ids) [0..<length ps']"
    using p len by (intro filter_cong) simp_all
  ultimately show ?thesis by (simp add: bucketView_def)
qed

lemma touchBucket_view: "viewOk ids b \<Longrightarrow> viewOk ids (touchBucket now ref b)"
proof (cases ref)
  case (AtRule i)
  moreover have "bEffective (bucketView ids ((bRules b)[i := touchRule now (bRules b ! i)]) (bPending b) (bAccepted b)) =
      bEffective (bucketView ids (bRules b) (bPending b) (bAccepted b))"
    by (rule effective_depends) (simp_all add: ids_update)
  ultimately show "viewOk ids b \<Longrightarrow> ?thesis" by (simp add: viewOk_def)
next
  case (AtPending i)
  let ?e = "(bPending b ! i)\<lparr>paRule := touchRule now (paRule (bPending b ! i))\<rparr>"
  have "map (\<lambda>e. (paRequestId e, ruleId (paRule e))) ((bPending b)[i := ?e]) =
      map (\<lambda>e. (paRequestId e, ruleId (paRule e))) (bPending b)"
    using list_update_id [of "map (\<lambda>e. (paRequestId e, ruleId (paRule e))) (bPending b)" i]
    by (cases "i < length (bPending b)") (simp_all add: map_update list_update_beyond)
  then have "bEffective (bucketView ids (bRules b) ((bPending b)[i := ?e]) (bAccepted b)) =
      bEffective (bucketView ids (bRules b) (bPending b) (bAccepted b))"
    by (intro effective_depends) simp_all
  then show "viewOk ids b \<Longrightarrow> ?thesis" using AtPending by (simp add: viewOk_def)
qed

lemma touchBucket_good:
  assumes "\<And>r. g (touchRule now r) = g r" and "bucketGood g b"
  shows "bucketGood g (touchBucket now ref b)"
proof (cases ref)
  case (AtRule i)
  then show ?thesis
    using assms unfolding bucketGood_def
    by (cases "i < length (bRules b)") (auto simp: list_update_beyond dest!: set_update_subset_insert [THEN subsetD] nth_mem)
next
  case (AtPending i)
  then show ?thesis
    using assms unfolding bucketGood_def
    by (cases "i < length (bPending b)") (auto simp: list_update_beyond dest!: set_update_subset_insert [THEN subsetD] nth_mem)
qed

lemma set_omap_set: "(k', b') \<in> set (omap_set k b m) \<Longrightarrow> (k', b') = (k, b) \<or> (k', b') \<in> set m"
  by (induction m) (auto split: if_splits)

section \<open>Files\<close>

lemma putFile_cases:
  obtains "putFile w name c d = (True, d)" "\<not> persistent d"
  | "putFile w name c d = (True, d\<lparr>files := omap_set name c (files d)\<rparr>)" "persistent d"
  | "putFile w name c d = (False, d)" "persistent d"
  | "putFile w name c d = (False, d\<lparr>files := omap_set name c (files d)\<rparr>)" "persistent d"
  by (cases "persistent d"; cases w) (auto simp: putFile_def)

lemma readRevoked_other:
  "map_of fs REVOKED_FILE = map_of (files d) REVOKED_FILE \<Longrightarrow> readRevoked (d\<lparr>files := fs\<rparr>) = readRevoked d"
  by (simp add: readRevoked_def)

lemma readRevoked_written:
  "persistent d \<Longrightarrow> readRevoked (d\<lparr>files := omap_set REVOKED_FILE (revokedContent ids) (files d)\<rparr>) = filter (\<lambda>i. i \<noteq> []) ids"
proof -
  have "List.map_filter optionalText (map JStr ids) = filter (\<lambda>i. i \<noteq> []) ids"
    by (induction ids) (auto simp: List.map_filter_def optionalText_def)
  then show "persistent d \<Longrightarrow> ?thesis"
    by (simp add: readRevoked_def revokedContent_def field_def omap_get_set)
qed

section \<open>An invariant of runs\<close>

definition durableInv :: "(string list \<Rightarrow> bool) \<Rightarrow> (string \<Rightarrow> permissionRule \<Rightarrow> bool) \<Rightarrow> durable \<Rightarrow> bool" where
  "durableInv R good d \<longleftrightarrow>
     (persistent d \<or> R []) \<and> R (revokedSet d) \<and> (persistent d \<longrightarrow> R (readRevoked d)) \<and>
     (\<forall>(k, b) \<in> set (buckets d). keyOk k \<and> viewOk (revokedSet d) b \<and> bucketGood (good k) b)"

lemma buckets_sel [simp]:
  "readRevoked (d\<lparr>buckets := m\<rparr>) = readRevoked d" "revokedSet (d\<lparr>buckets := m\<rparr>) = revokedSet d"
  by (simp_all add: revokedSet_def readRevoked_def cong: option.case_cong)

lemma durableInv_set:
  assumes "durableInv R good d" and "keyOk key" and "viewOk (revokedSet d) b" and "bucketGood (good key) b"
  shows "durableInv R good (d\<lparr>buckets := omap_set key b (buckets d)\<rparr>)"
  using assms by (auto simp: durableInv_def dest!: set_omap_set)

lemma loadRevoked_sel [simp]:
  "revokedSet (loadRevoked d) = revokedSet d" "buckets (loadRevoked d) = buckets d" "files (loadRevoked d) = files d"
  "persistent (loadRevoked d) = persistent d" "readRevoked (loadRevoked d) = readRevoked d"
  by (simp_all add: loadRevoked_def revokedSet_def readRevoked_def)

lemma durableInv_load [simp]: "durableInv R good (loadRevoked d) = durableInv R good d"
  by (simp add: durableInv_def)

text \<open>A change of the files that keeps the file of revoked ids, once the ids are loaded.\<close>

lemma durableInv_files:
  assumes "durableInv R good d" and "revokedIds d = Some ids" and "map_of fs REVOKED_FILE = map_of (files d) REVOKED_FILE"
  shows "durableInv R good (d\<lparr>files := fs\<rparr>)"
  using assms readRevoked_other [OF assms(3)] by (simp add: durableInv_def revokedSet_def)

lemma map_filter_mem: "x \<in> set (List.map_filter f ys) \<Longrightarrow> \<exists>y \<in> set ys. f y = Some x"
  by (auto simp: List.map_filter_def)

lemma sanitizePending_rule: "sanitizePending sc j = Some e \<Longrightarrow> \<exists>j'. sanitizeRule sc j' = Some (paRule e)"
  by (auto simp: sanitizePending_def split: json.splits option.splits if_splits)

locale rule_invariant =
  fixes R :: "string list \<Rightarrow> bool"
    and good :: "string \<Rightarrow> permissionRule \<Rightarrow> bool"
  assumes grow: "R ids \<Longrightarrow> R (addId i ids)"
    and reread: "R ids \<Longrightarrow> R (filter (\<lambda>i. i \<noteq> []) ids)"
    and touched: "good key (touchRule now r) = good key r"
    and stored: "sanitizeRule (bucketScope key) j = Some r \<Longrightarrow> good key r"
begin

abbreviation inv :: "durable \<Rightarrow> bool" where
  "inv \<equiv> durableInv R good"

lemma inv_bucket:
  "inv d \<Longrightarrow> map_of (buckets d) key = Some b \<Longrightarrow> viewOk (revokedSet d) b \<and> bucketGood (good key) b"
  by (auto simp: durableInv_def dest: map_of_SomeD)

lemma read_good: "readBucket d key = Some b \<Longrightarrow> viewOk (revokedSet d) b \<and> bucketGood (good key) b"
proof -
  have rules: "storedRules (bucketScope key) j = Some rs \<Longrightarrow> r \<in> set rs \<Longrightarrow> good key r" for j rs r
    using stored by (fastforce simp: storedRules_def sanitizeStoredRules_def dest: map_filter_mem split: json.splits)
  have pending: "e \<in> set (storedPending (bucketScope key) j) \<Longrightarrow> good key (paRule e)" for j e
    using stored
    by (fastforce simp: storedPending_def sanitizePendingApprovals_def dest!: map_filter_mem sanitizePending_rule split: json.splits)
  assume "readBucket d key = Some b"
  then show ?thesis
    by (auto simp: readBucket_def bucketGood_def rules pending split: option.splits if_splits)
qed

lemma inv_get:
  assumes "inv d" and "keyOk key" and "getBucket d key = Some (b, d')"
  shows "inv d'" "viewOk (revokedSet d') b" "bucketGood (good key) b" "revokedSet d' = revokedSet d"
    "persistent d' = persistent d" "files d' = files d" "map_of (buckets d') key = Some b"
proof -
  have *: "inv d' \<and> viewOk (revokedSet d') b \<and> bucketGood (good key) b \<and> revokedSet d' = revokedSet d \<and>
      persistent d' = persistent d \<and> files d' = files d \<and> map_of (buckets d') key = Some b"
  proof (cases "map_of (buckets d) key")
    case (Some b')
    then show ?thesis using assms(1,3) inv_bucket [OF assms(1) Some] by (simp add: getBucket_def)
  next
    case None
    then have rb: "readBucket d key = Some b" using assms(3) by (auto simp: getBucket_def Let_def split: option.splits)
    let ?d = "if bRules b = [] \<and> bPending b = [] then d else loadRevoked d"
    have d: "d' = ?d\<lparr>buckets := omap_set key b (buckets ?d)\<rparr>"
      using assms(3) None rb by (auto simp: getBucket_def Let_def)
    have "inv ?d" "revokedSet ?d = revokedSet d" using assms(1) by simp_all
    then show ?thesis using durableInv_set [of R good ?d key b] assms(2) read_good [OF rb] unfolding d
      by (simp add: omap_get_set)
  qed
  then show "inv d'" "viewOk (revokedSet d') b" "bucketGood (good key) b" "revokedSet d' = revokedSet d"
    "persistent d' = persistent d" "files d' = files d" "map_of (buckets d') key = Some b" by auto
qed

lemma inv_putBucketFile:
  assumes "inv d" and "keyOk key" and "revokedIds d = Some ids" and "putFile w (bucketFile key) c d = (ok, d')"
  shows "inv d' \<and> revokedSet d' = revokedSet d"
proof -
  have "map_of (omap_set (bucketFile key) c (files d)) REVOKED_FILE = map_of (files d) REVOKED_FILE"
    using assms(2) by (simp add: omap_get_set keyOk_def)
  then have "inv (d\<lparr>files := omap_set (bucketFile key) c (files d)\<rparr>)" by (rule durableInv_files [OF assms(1,3)])
  moreover have "revokedSet (d\<lparr>files := m\<rparr>) = revokedSet d" for m using assms(3) by (simp add: revokedSet_def)
  ultimately show ?thesis using assms(1,4) by (cases w "bucketFile key" c d rule: putFile_cases) auto
qed

lemma inv_write:
  assumes "inv d" and "keyOk key" and "\<forall>r \<in> set rules. good key r" and "\<forall>e \<in> set pending. good key (paRule e)"
  shows "inv (snd (writeBucket w key rules pending acc d))"
proof -
  let ?d = "loadRevoked d"
  let ?rules = "materializedRules (revokedSet ?d) rules pending acc"
  let ?pending = "keptPending (revokedSet ?d) pending acc"
  obtain ok d' where put: "putFile w (bucketFile key) (bucketContent key ?rules ?pending) ?d = (ok, d')" by fastforce
  have ids: "revokedIds ?d = Some (revokedSet d)" by (simp add: loadRevoked_def)
  have inv': "inv d'" and rev: "revokedSet d' = revokedSet d"
    using inv_putBucketFile [OF _ assms(2) ids put] assms(1) by simp_all
  have good: "bucketGood (good key) (bucketView ids ?rules ?pending [])" for ids
    using assms(3,4) by (auto simp: bucketGood_def materializedRules_def keptPending_def)
  have "inv (d'\<lparr>buckets := omap_set key (bucketView (revokedSet d) ?rules ?pending []) (buckets d')\<rparr>)"
    by (rule durableInv_set [OF inv' assms(2) _ good]) (simp add: rev)
  then show ?thesis using inv' put by (simp add: writeBucket_def Let_def)
qed

lemma inv_withBucket:
  assumes "inv d" and "keyOk key"
    and "\<And>b d'. inv d' \<Longrightarrow> bucketGood (good key) b \<Longrightarrow> map_of (buckets d') key = Some b \<Longrightarrow> inv (snd (k b d'))"
  shows "inv (snd (withBucket d key k))"
proof (cases "getBucket d key")
  case (Some p)
  then obtain b d' where p: "getBucket d key = Some (b, d')" by (cases p) auto
  show ?thesis using assms(3) [of d' b] inv_get [OF assms(1,2) p] by (simp add: withBucket_def p)
qed (simp add: withBucket_def assms(1))

lemma inv_publish: "inv d \<Longrightarrow> keyOk key \<Longrightarrow> good key rule \<Longrightarrow> inv (snd (publish w key rule d))"
  unfolding publish_def Let_def
  by (auto simp: reportWrite_def bucketGood_def split: option.splits intro!: inv_withBucket inv_write)

lemma inv_prepare: "inv d \<Longrightarrow> keyOk key \<Longrightarrow> good key (paRule entry) \<Longrightarrow> inv (snd (preparePending w key entry d))"
  unfolding preparePending_def Let_def
  by (auto simp: reportWrite_def bucketGood_def split: option.splits intro!: inv_withBucket inv_write)

lemma set_removeFirst: "set (removeFirst P xs) \<subseteq> set xs"
  by (induction xs) auto

lemma inv_accept: "inv d \<Longrightarrow> keyOk key \<Longrightarrow> inv (snd (acceptPending w key q d))"
  unfolding acceptPending_def
proof (rule inv_withBucket, assumption, assumption)
  fix b d'
  assume *: "inv d'" "bucketGood (good key) b" "keyOk key"
  let ?v = "bucketView (revokedSet (loadRevoked d')) (bRules b) (bPending b) (addId q (bAccepted b))"
  let ?d = "(loadRevoked d')\<lparr>buckets := omap_set key ?v (buckets (loadRevoked d'))\<rparr>"
  have "inv ?d"
    by (rule durableInv_set) (use * in \<open>simp_all add: bucketGood_def\<close>)
  then have acc: "inv (snd (writeBucket w key (bRules ?v) (bPending ?v) (bAccepted ?v) ?d))"
    by (rule inv_write) (use * in \<open>simp_all add: bucketGood_def\<close>)
  have rev: "inv (snd (writeBucket w key (bRules b) (removeFirst (\<lambda>e. paRequestId e = q) (bPending b)) (bAccepted b) (loadRevoked d')))"
    by (rule inv_write) (use * set_removeFirst in \<open>force simp: bucketGood_def\<close>)+
  show "inv (snd (case List.find (\<lambda>e. paRequestId e = q) (bPending b) of
       None \<Rightarrow> (Inr AcceptanceMissing, d')
     | Some entry \<Rightarrow>
         let d2 = loadRevoked d' in
         if ruleId (paRule entry) \<in> set (revokedSet d2)
         then (Inr AcceptanceRevoked,
               snd (writeBucket w key (bRules b) (removeFirst (\<lambda>e. paRequestId e = q) (bPending b)) (bAccepted b) d2))
         else let accepted = addId q (bAccepted b);
                  view = bucketView (revokedSet d2) (bRules b) (bPending b) accepted;
                  (ok, d3) = writeBucket w key (bRules view) (bPending view) (bAccepted view)
                    (d2\<lparr>buckets := omap_set key view (buckets d2)\<rparr>)
              in (Inr (if ok then Materialized else Accepted), d3)))"
    using acc rev *(1) by (auto simp: Let_def case_prod_beta split: option.split)
qed

lemma inv_discard: "inv d \<Longrightarrow> keyOk key \<Longrightarrow> inv (snd (discardPending w key q d))"
  unfolding discardPending_def
  by (rule inv_withBucket) (auto simp: reportWrite_def bucketGood_def intro!: inv_write)

lemma inv_reset: "inv d \<Longrightarrow> keyOk key \<Longrightarrow> inv (snd (resetContext w key d))"
  by (auto simp: resetContext_def reportWrite_def intro!: inv_write)

lemma inv_resetAll: "inv d \<Longrightarrow> inv (snd (resetAllDurable failed d))"
proof -
  assume inv: "inv d"
  have kept: "map_of (filter (\<lambda>f. \<not> (isResetFile (fst f) \<and> Q (fst f))) fs) REVOKED_FILE = map_of fs REVOKED_FILE" for Q and fs :: "(string, json) omap"
    by (induction fs) (auto simp: isResetFile_def)
  have rr: "readRevoked (d\<lparr>files := filter (\<lambda>f. \<not> (isResetFile (fst f) \<and> Q (fst f))) (files d)\<rparr>) = readRevoked d" for Q
    using kept by (intro readRevoked_other)
  then have rs: "revokedSet (d\<lparr>files := filter (\<lambda>f. \<not> (isResetFile (fst f) \<and> Q (fst f))) (files d)\<rparr>) = revokedSet d" for Q
    by (simp add: revokedSet_def cong: option.case_cong)
  show ?thesis
    using inv rr [of "\<lambda>_. True"] rs [of "\<lambda>_. True"] rr [of "\<lambda>n. n \<in> set (the failed)"] rs [of "\<lambda>n. n \<in> set (the failed)"]
    by (auto simp: resetAllDurable_def Let_def durableInv_def bucketGood_def keyOk_global simp del: de_Morgan_conj split: option.split)
qed

lemma inv_revokeFrom:
  assumes "inv d" and "keyOk owner"
  shows "inv (snd (revokeFrom w1 w2 owner i d))"
proof -
  let ?ids = "addId i (revokedSet d)"
  have R: "R ?ids" using assms(1) grow by (simp add: durableInv_def)
  obtain ok d1 where put: "putFile w1 REVOKED_FILE (revokedContent ?ids) (loadRevoked d) = (ok, d1)" by fastforce
  have same: "buckets d1 = buckets d \<and> persistent d1 = persistent d \<and> revokedIds d1 = Some (revokedSet d) \<and>
      (persistent d \<longrightarrow> R (readRevoked d1))"
    using put assms(1) R reread [OF R] readRevoked_written [of "loadRevoked d" ?ids]
    by (cases w1 REVOKED_FILE "revokedContent ?ids" "loadRevoked d" rule: putFile_cases)
       (auto simp: durableInv_def loadRevoked_def readRevoked_def)
  have d1: "inv d1" using same assms(1) by (auto simp: durableInv_def revokedSet_def)
  let ?bs = "refreshViews ?ids (buckets d1)"
  let ?d2 = "d1\<lparr>revokedIds := Some ?ids, buckets := ?bs\<rparr>"
  have d2: "inv ?d2"
    using same R assms(1)
    by (auto simp: durableInv_def revokedSet_def readRevoked_def refreshViews_def bucketGood_def)
  have owner: "inv (snd (writeBucket w2 owner (bRules b) (bPending b) (bAccepted b) ?d2))" if "map_of ?bs owner = Some b" for b
    using inv_write [OF d2 assms(2)] inv_bucket [OF d2, of owner b] that by (simp add: bucketGood_def)
  show ?thesis
    using d1 d2 owner put by (auto simp: revokeFrom_def Let_def split: option.split)
qed

lemma inv_revoke: "inv d \<Longrightarrow> inv (snd (revokeDurable w1 w2 i d))"
proof -
  assume inv: "inv d"
  have owner: "keyOk k" if "List.find (\<lambda>(k, b). holdsRule i b) (buckets d) = Some (k, b)" for k b
    using inv find_Some_mem [OF that] by (auto simp: durableInv_def)
  have "inv (snd (withBucket d GLOBAL_PERMISSION_BUCKET (\<lambda>g d'.
      if holdsRule i g then revokeFrom w1 w2 GLOBAL_PERMISSION_BUCKET i d' else (Inr False, d'))))"
    by (rule inv_withBucket [OF inv keyOk_global]) (simp add: inv_revokeFrom keyOk_global)
  then show ?thesis
    using inv owner by (auto simp: revokeDurable_def inv_revokeFrom split: option.split)
qed

lemma inv_touch: "inv d \<Longrightarrow> inv (touchDurable now key ref d)"
proof (cases "map_of (buckets d) key")
  case (Some b)
  assume inv: "inv d"
  have "keyOk key" using inv map_of_SomeD [OF Some] by (auto simp: durableInv_def)
  then show ?thesis
    using inv_bucket [OF inv Some] touchBucket_view [where ids = "revokedSet d" and b = b]
      touchBucket_good [where g = "good key" and b = b] touched
    by (simp add: touchDurable_def Some durableInv_set [OF inv])
qed (simp add: touchDurable_def)

lemma inv_reopen: "inv d \<Longrightarrow> inv (reopenDurable d)"
proof -
  assume inv: "inv d"
  have "readRevoked (reopenDurable d) = readRevoked d"
    by (simp add: reopenDurable_def newDurable_def readRevoked_def)
  then show ?thesis
    using inv by (cases "persistent d") (auto simp: durableInv_def reopenDurable_def newDurable_def revokedSet_def readRevoked_def)
qed

lemma inv_step: "inv d \<Longrightarrow> opOk good op \<Longrightarrow> inv (durableStep op d)"
  by (cases op)
     (auto simp: inv_publish inv_prepare inv_accept inv_discard inv_reset inv_resetAll inv_revoke inv_touch inv_reopen
       split: option.split dest: inv_get(1))

lemma inv_run: "inv d \<Longrightarrow> \<forall>op \<in> set ops. opOk good op \<Longrightarrow> inv (durableRun ops d)"
  unfolding durableRun_def by (induction ops arbitrary: d) (auto simp: inv_step)

lemma inv_opened: "R [] \<Longrightarrow> (p \<Longrightarrow> R (readRevoked (newDurable p fs))) \<Longrightarrow> inv (newDurable p fs)"
  by (cases p) (auto simp: durableInv_def newDurable_def revokedSet_def readRevoked_def)

end

section \<open>Its instances\<close>

text \<open>The id stays revoked.\<close>

interpretation revoked: rule_invariant "\<lambda>ids. i \<noteq> [] \<and> i \<in> set ids" "\<lambda>_ _. True" for i
  by unfold_locales (auto simp: addId_def)

text \<open>Durable rules are no builtin rules, and the global range holds no rule bound to a context.\<close>

definition userScope :: "string \<Rightarrow> permissionRule \<Rightarrow> bool" where
  "userScope key r \<longleftrightarrow> scope r \<noteq> BuiltinScope \<and> (key = GLOBAL_PERMISSION_BUCKET \<longrightarrow> scope r \<noteq> ContextScope)"

lemma sanitizeRule_scope:
  "sanitizeRule sc j = Some r \<Longrightarrow> scope r \<noteq> BuiltinScope \<and> (sc = GlobalScope \<longrightarrow> scope r = GlobalScope)"
  by (auto simp: sanitizeRule_def parseScope_def split: json.splits option.splits if_splits prod.splits)

interpretation scopes: rule_invariant "\<lambda>_. True" userScope
  by unfold_locales (auto simp: userScope_def bucketScope_def dest: sanitizeRule_scope split: if_splits)

text \<open>A revocation that reports success establishes the first instance.\<close>

lemma revokeFrom_establishes:
  assumes "persistent d" and "i \<noteq> []" and "keyOk owner" and "\<forall>k \<in> fst ` set (buckets d). keyOk k"
    and "revokeFrom w1 w2 owner i d = (Inr b, d')"
  shows "durableInv (\<lambda>ids. i \<noteq> [] \<and> i \<in> set ids) (\<lambda>_ _. True) d'"
proof -
  let ?ids = "addId i (revokedSet d)"
  have mem: "i \<in> set ?ids" by (simp add: addId_def)
  obtain ok d1 where put: "putFile w1 REVOKED_FILE (revokedContent ?ids) (loadRevoked d) = (ok, d1)" by fastforce
  have ok: ok using assms(5) put by (auto simp: revokeFrom_def Let_def split: if_splits)
  then have d1: "d1 = (loadRevoked d)\<lparr>files := omap_set REVOKED_FILE (revokedContent ?ids) (files (loadRevoked d))\<rparr>"
    using put assms(1) by (cases w1) (auto simp: putFile_def)
  let ?bs = "refreshViews ?ids (buckets d1)"
  let ?d2 = "d1\<lparr>revokedIds := Some ?ids, buckets := ?bs\<rparr>"
  have "readRevoked ?d2 = filter (\<lambda>i. i \<noteq> []) ?ids"
    using readRevoked_written [of "loadRevoked d" ?ids] assms(1) d1 by (simp add: readRevoked_def)
  then have inv: "durableInv (\<lambda>ids. i \<noteq> [] \<and> i \<in> set ids) (\<lambda>_ _. True) ?d2"
    using assms(1,2,4) mem d1
    by (auto simp: durableInv_def revokedSet_def refreshViews_def bucketGood_def loadRevoked_def)
  have "d' = (case map_of ?bs owner of None \<Rightarrow> ?d2 | Some b \<Rightarrow> snd (writeBucket w2 owner (bRules b) (bPending b) (bAccepted b) ?d2))"
    using assms(5) put ok by (auto simp: revokeFrom_def Let_def split: option.splits)
  then show ?thesis using inv revoked.inv_write [OF inv assms(3)] by (auto split: option.split)
qed

lemma revokeDurable_establishes:
  assumes "scopes.inv d" and "persistent d" and "i \<noteq> []" and "revokeDurable w1 w2 i d = (Inr True, d')"
  shows "durableInv (\<lambda>ids. i \<noteq> [] \<and> i \<in> set ids) (\<lambda>_ _. True) d'"
proof (cases "List.find (\<lambda>(k, b). holdsRule i b) (buckets d)")
  case (Some p)
  then obtain k b where p: "List.find (\<lambda>(k, b). holdsRule i b) (buckets d) = Some (k, b)" by (cases p) auto
  have keys: "\<forall>k \<in> fst ` set (buckets d). keyOk k" using assms(1) by (auto simp: durableInv_def)
  have "keyOk k" using keys find_Some_mem [OF p] by force
  then show ?thesis
    using revokeFrom_establishes [OF assms(2,3) _ keys] assms(4) p by (simp add: revokeDurable_def)
next
  case None
  then obtain g d1 where g: "getBucket d GLOBAL_PERMISSION_BUCKET = Some (g, d1)"
    and r: "revokeFrom w1 w2 GLOBAL_PERMISSION_BUCKET i d1 = (Inr True, d')"
    using assms(4) by (auto simp: revokeDurable_def withBucket_def split: option.splits if_splits)
  have inv: "scopes.inv d1" and "persistent d1"
    using scopes.inv_get [OF assms(1) keyOk_global g] assms(2) by simp_all
  then have "\<forall>k \<in> fst ` set (buckets d1). keyOk k" by (auto simp: durableInv_def)
  then show ?thesis using revokeFrom_establishes [OF \<open>persistent d1\<close> assms(3) keyOk_global _ r] by simp
qed

end
