(* ===== verification/Security_Storage.thy ===== *)
theory Security_Storage
  imports Security_Revocation
begin

text \<open>
  Rules read back as they were written. \<open>ruleStorable\<close> says which rules the reader accepts; every
  rule that was read is one of them, so it is a third instance of \<open>rule_invariant\<close>.
\<close>

section \<open>Round trip of one rule\<close>

fun contextStorable :: "permissionContextId option \<Rightarrow> bool" where
  "contextStorable (Some (WorkspaceContext h (Some n))) \<longleftrightarrow> h \<noteq> [] \<and> 0 < n \<and> n \<le> MAX_SAFE_INTEGER"
| "contextStorable (Some (WorkspaceContext h None)) \<longleftrightarrow> h \<noteq> []"
| "contextStorable (Some (SceneContext i)) \<longleftrightarrow> i \<noteq> []"
| "contextStorable _ \<longleftrightarrow> True"

definition ruleStorable :: "permissionScope \<Rightarrow> permissionRule \<Rightarrow> bool" where
  "ruleStorable sc r \<longleftrightarrow>
     scope r \<noteq> BuiltinScope \<and> (sc = GlobalScope \<longrightarrow> scope r = GlobalScope) \<and> contextStorable (contextId r)"

lemma field_Nil [simp]: "field [] k = JUndefined"
  by (simp add: field_def)

lemma field_Cons [simp]: "field ((k', v) # ob) k = (if k = k' then v else field ob k)"
  by (simp add: field_def)

lemma field_opt [simp]:
  "field (optField k' v @ ob) k = (if k = k' then case v of None \<Rightarrow> field ob k | Some j \<Rightarrow> j else field ob k)"
  "field (optField k' v) k = (if k = k' then case v of None \<Rightarrow> JUndefined | Some j \<Rightarrow> j else JUndefined)"
  by (auto simp: optField_def split: option.split)

lemma context_roundtrip:
  "contextStorable (Some c) \<Longrightarrow> sanitizePermissionContextId (encodeContextId c) = Some c"
proof (cases c)
  case (WorkspaceContext h r)
  then show "contextStorable (Some c) \<Longrightarrow> ?thesis"
    by (cases r) (auto simp: sanitizePermissionContextId_def)
qed (auto simp: sanitizePermissionContextId_def)

lemma contribution_roundtrip: "sanitizeContribution (encodeContribution c) = Some c"
  by (cases c; cases "origin c") (auto simp: sanitizeContribution_def encodeContribution_def)

lemma contributors_roundtrip: "sanitizeContributors (JArr (map encodeContribution cs)) = Some cs"
  by (simp add: sanitizeContributors_def List.map_filter_def contribution_roundtrip comp_def)

lemma decision_roundtrip: "parseDecision (JStr (decisionText d)) = Some d"
  by (cases d) (simp_all add: parseDecision_def)

lemma scope_roundtrip: "sc \<noteq> BuiltinScope \<Longrightarrow> parseScope (JStr (scopeText sc)) = Some sc"
  by (cases sc) (simp_all add: parseScope_def)

lemma rule_roundtrip:
  assumes "ruleStorable sc r"
  shows "sanitizeRule sc (encodeRule r) = Some r"
proof -
  have ctx: "sanitizePermissionContextId (case contextId r of None \<Rightarrow> JUndefined | Some c \<Rightarrow> encodeContextId c) = contextId r"
    using assms context_roundtrip by (auto simp: ruleStorable_def sanitizePermissionContextId_def split: option.split)
  have cs: "sanitizeContributors (case contributors r of None \<Rightarrow> JUndefined | Some cs \<Rightarrow> JArr (map encodeContribution cs)) = contributors r"
    by (auto simp: contributors_roundtrip sanitizeContributors_def [of JUndefined] split: option.split)
  have path: "asText (case contextPath r of None \<Rightarrow> JUndefined | Some p \<Rightarrow> JStr p) = contextPath r"
    by (auto split: option.split)
  show ?thesis
    using assms ctx cs path
    by (auto simp: sanitizeRule_def encodeRule_def ruleStorable_def decision_roundtrip scope_roundtrip comp_def cong: option.case_cong)
qed

lemma sanitizeRule_storable:
  assumes "sanitizeRule sc j = Some r"
  shows "ruleStorable sc r"
proof -
  have ctx: "contextStorable (sanitizePermissionContextId v)" for v
    by (auto simp: sanitizePermissionContextId_def split: json.splits if_splits)
  obtain v where "contextId r = sanitizePermissionContextId v"
    using assms by (auto simp: sanitizeRule_def split: json.splits option.splits if_splits prod.splits)
  then show ?thesis using sanitizeRule_scope [OF assms] ctx by (simp add: ruleStorable_def)
qed

interpretation storable: rule_invariant "\<lambda>_. True" "\<lambda>key. ruleStorable (bucketScope key)"
  by unfold_locales (auto simp: ruleStorable_def dest: sanitizeRule_storable [unfolded ruleStorable_def])

section \<open>Round trip of a bucket\<close>

lemma rules_roundtrip:
  "\<forall>r \<in> set rules. ruleStorable sc r \<Longrightarrow> sanitizeStoredRules sc (map encodeRule rules) = rules"
  unfolding sanitizeStoredRules_def by (induction rules) (simp_all add: List.map_filter_simps rule_roundtrip)

lemma bucketContent_rules:
  assumes "\<forall>r \<in> set rules. ruleStorable (bucketScope key) r"
  shows "storedRules (bucketScope key) (bucketContent key rules pending) = Some rules"
proof -
  have "\<exists>ob. bucketContent key rules pending = JObj ob \<and> field ob ''rules'' = JArr (map encodeRule rules)"
    by (simp add: bucketContent_def Let_def)
  then show ?thesis using assms by (auto simp: storedRules_def rules_roundtrip)
qed

lemma reopened_rules:
  assumes "persistent d" and "keyOk key" and "\<forall>r \<in> set rules. ruleStorable (bucketScope key) r"
    and "\<forall>e \<in> set pending. ruleStorable (bucketScope key) (paRule e)"
    and "writeBucket Written key rules pending acc d = (True, d')"
  obtains b d'' where "getBucket (reopenDurable d') key = Some (b, d'')"
    "bRules b = materializedRules (revokedSet d) rules pending acc" "viewOk (readRevoked d) b" "bAccepted b = []"
proof -
  let ?rules = "materializedRules (revokedSet d) rules pending acc"
  let ?pending = "keptPending (revokedSet d) pending acc"
  have f: "files d' = omap_set (bucketFile key) (bucketContent key ?rules ?pending) (files d)" and p: "persistent d'"
    using assms(1,5) by (auto simp: writeBucket_def putFile_def Let_def)
  have good: "\<forall>r \<in> set ?rules. ruleStorable (bucketScope key) r"
    using assms(3,4) by (auto simp: materializedRules_def)
  let ?d = "reopenDurable d'"
  have d: "persistent ?d" "files ?d = files d'" "buckets ?d = []" "revokedIds ?d = None"
    using p by (simp_all add: reopenDurable_def newDurable_def)
  have rr: "readRevoked ?d = readRevoked d"
    using assms(1,2) d f by (simp add: readRevoked_def omap_get_set keyOk_def)
  obtain ps where rb: "readBucket ?d key = Some (bucketView (revokedSet ?d) ?rules ps [])"
    using bucketContent_rules [OF good] d f by (simp add: readBucket_def omap_get_set)
  have "revokedSet ?d = readRevoked d" using d rr by (simp add: revokedSet_def)
  then show ?thesis
    using that [of "bucketView (revokedSet ?d) ?rules ps []"] rb d(3) by (simp add: getBucket_def Let_def)
qed

lemma published_survives:
  assumes "storable.inv d" and "persistent d" and "keyOk key" and "ruleStorable (bucketScope key) rule"
    and "publish Written key rule d = (Inr Published, d')" and "ruleId rule \<notin> set (readRevoked d)"
  shows "\<exists>b d''. getBucket (reopenDurable d') key = Some (b, d'') \<and> rule \<in> set (effectiveRules b)"
proof -
  let ?d = "loadRevoked d"
  have new: "ruleId rule \<notin> set (revokedSet d)" using assms(5) by (auto simp: publish_def Let_def)
  from assms(5) new obtain b d1 where g: "getBucket ?d key = Some (b, d1)"
    and rep: "reportWrite Published (writeBucket Written key (bRules b @ [rule]) (bPending b) (bAccepted b) d1) = (Inr Published, d')"
    by (auto simp: publish_def Let_def withBucket_def split: option.splits if_splits)
  have w: "writeBucket Written key (bRules b @ [rule]) (bPending b) (bAccepted b) d1 = (True, d')"
    using rep by (cases "writeBucket Written key (bRules b @ [rule]) (bPending b) (bAccepted b) d1")
      (auto simp: reportWrite_def split: if_splits)
  have "storable.inv ?d" using assms(1) by simp
  note got = storable.inv_get [OF this assms(3) g]
  have p: "persistent d1" using got(5) assms(2) by simp
  have good: "\<forall>r \<in> set (bRules b @ [rule]). ruleStorable (bucketScope key) r"
    "\<forall>e \<in> set (bPending b). ruleStorable (bucketScope key) (paRule e)"
    using got(3) assms(4) by (auto simp: bucketGood_def)
  obtain b2 d2 where b2: "getBucket (reopenDurable d') key = Some (b2, d2)"
    "bRules b2 = materializedRules (revokedSet d1) (bRules b @ [rule]) (bPending b) (bAccepted b)" "viewOk (readRevoked d1) b2"
    using reopened_rules [OF p assms(3) good w] by metis
  have "rule \<in> set (bRules b2)" using new got(4) by (simp add: b2(2) materializedRules_def)
  moreover have "readRevoked d1 = readRevoked d" using got(5,6) by (simp add: readRevoked_def)
  ultimately show ?thesis using b2 assms(6) effective_view [OF b2(3)] by auto
qed

end
