(* ===== verification/Security_Sources.thy ===== *)
theory Security_Sources
  imports Security_Storage
begin

text \<open>
  Runs of the permission store, over the durable store that it shares with others. Scopes keep
  the pools apart in every reachable store, so a snapshot of the rules decides as the store does.
\<close>

section \<open>Runs\<close>

datatype storeOp =
    MatchIn int permissionContextId securityRequest
  | CreateIn writeOutcome permissionContextId permissionRule
  | ListIn permissionContextId
  | RevokeIn writeOutcome writeOutcome string
  | ResetIn writeOutcome permissionContextId
  | ResetAllIn "string list option"
  | RegisterIn string "permissionRule list"
  | Shared durableOp

fun storeStep :: "(securityRequest \<Rightarrow> string) \<Rightarrow> storeOp \<Rightarrow> permissionStore \<Rightarrow> permissionStore" where
  "storeStep extract (MatchIn now ctx r) s = (case matchRule extract now ctx r s of Inl _ \<Rightarrow> s | Inr (_, s') \<Rightarrow> s')"
| "storeStep extract (CreateIn w ctx rule) s = snd (createRuleIn w ctx rule s)"
| "storeStep extract (ListIn ctx) s = (case listRules ctx s of None \<Rightarrow> s | Some (_, s') \<Rightarrow> s')"
| "storeStep extract (RevokeIn w1 w2 i) s = snd (revokeRule w1 w2 i s)"
| "storeStep extract (ResetIn w ctx) s = snd (resetRules w ctx s)"
| "storeStep extract (ResetAllIn failed) s = snd (resetAllRules failed s)"
| "storeStep extract (RegisterIn ns rules) s = (case registerBuiltinRules ns rules s of Inl _ \<Rightarrow> s | Inr s' \<Rightarrow> s')"
| "storeStep extract (Shared op) s = s\<lparr>durableRules := durableStep op (durableRules s)\<rparr>"

definition storeRun :: "(securityRequest \<Rightarrow> string) \<Rightarrow> storeOp list \<Rightarrow> permissionStore \<Rightarrow> permissionStore" where
  "storeRun extract ops s = fold (storeStep extract) ops s"

fun storeOpOk :: "storeOp \<Rightarrow> bool" where
  "storeOpOk (Shared op) = opOk userScope op"
| "storeOpOk _ = True"

section \<open>Scopes\<close>

definition poolScope :: "permissionScope \<Rightarrow> ('k, permissionRule list) omap \<Rightarrow> bool" where
  "poolScope sc m \<longleftrightarrow> (\<forall>(k, rs) \<in> set m. \<forall>r \<in> set rs. scope r = sc)"

definition storeScopes :: "permissionStore \<Rightarrow> bool" where
  "storeScopes s \<longleftrightarrow>
     poolScope SessionScope (sessionRules s) \<and> scopes.inv (durableRules s) \<and> poolScope BuiltinScope (builtinRules s)"

lemma omap_set_mem: "(k', v') \<in> set (AList.update k v m) \<Longrightarrow> (k', v') = (k, v) \<or> (k', v') \<in> set m"
  by (induction m) (auto split: if_splits)

lemma poolScope_set:
  "poolScope sc m \<Longrightarrow> \<forall>r \<in> set rs. scope r = sc \<Longrightarrow> poolScope sc (AList.update k rs m)"
  by (auto simp: poolScope_def dest!: omap_set_mem)

lemma poolScope_get: "poolScope sc m \<Longrightarrow> map_of m k = Some rs \<Longrightarrow> r \<in> set rs \<Longrightarrow> scope r = sc"
  by (auto simp: poolScope_def dest!: map_of_SomeD)

lemma poolScope_touch: "poolScope sc m \<Longrightarrow> poolScope sc (touchAt now k i m)"
proof (cases "map_of m k")
  case (Some rs)
  assume *: "poolScope sc m"
  have "\<forall>r \<in> set (rs[i := touchRule now (rs ! i)]). scope r = sc"
  proof (cases "i < length rs")
    case True
    then show ?thesis
      using poolScope_get [OF * Some] by (auto dest!: set_update_subset_insert [THEN subsetD])
  qed (use poolScope_get [OF * Some] in \<open>simp add: list_update_beyond\<close>)
  then show ?thesis using * by (simp add: touchAt_def Some poolScope_set)
qed (simp add: touchAt_def)

lemma scopes_touchPlace: "storeScopes s \<Longrightarrow> storeScopes (touchPlace now p s)"
  by (cases p) (auto simp: storeScopes_def poolScope_touch scopes.inv_touch)

lemma readRanges_scopes:
  assumes "storeScopes s" and "readRanges s ctx = Some ((cb, gb), s')"
  shows "storeScopes s'" "bucketGood (userScope (toStorageKey ctx)) cb" "bucketGood (userScope GLOBAL_PERMISSION_BUCKET) gb"
    "viewOk (revokedSet (durableRules s')) cb" "viewOk (revokedSet (durableRules s')) gb"
    "sessionRules s' = sessionRules s" "builtinRules s' = builtinRules s"
proof -
  from assms(2) obtain d1 d2 where d1: "getBucket (durableRules s) (toStorageKey ctx) = Some (cb, d1)"
    and d2: "getBucket d1 GLOBAL_PERMISSION_BUCKET = Some (gb, d2)" and s': "s' = s\<lparr>durableRules := d2\<rparr>"
    by (auto simp: readRanges_def split: option.splits)
  have inv: "scopes.inv (durableRules s)" using assms(1) by (simp add: storeScopes_def)
  note one = scopes.inv_get [OF inv keyOk_storage d1]
  note two = scopes.inv_get [OF one(1) keyOk_global d2]
  show "storeScopes s'" "bucketGood (userScope (toStorageKey ctx)) cb" "bucketGood (userScope GLOBAL_PERMISSION_BUCKET) gb"
    "viewOk (revokedSet (durableRules s')) cb" "viewOk (revokedSet (durableRules s')) gb"
    "sessionRules s' = sessionRules s" "builtinRules s' = builtinRules s"
    using assms(1) one two by (simp_all add: s' storeScopes_def)
qed

lemma scopes_match:
  assumes "storeScopes s" and "matchRule extract now ctx r s = Inr (res, s')"
  shows "storeScopes s'"
proof -
  from assms(2) obtain cb gb s1 where rr: "readRanges s ctx = Some ((cb, gb), s1)"
    by (auto simp: matchRule_def split: option.splits)
  have "s' = s1 \<or> (\<exists>p. s' = touchPlace now p s1)"
    using assms(2) rr by (auto simp: matchRule_def chooseRule_def Let_def split: if_splits)
  then show ?thesis using readRanges_scopes(1) [OF assms(1) rr] scopes_touchPlace by auto
qed

lemma scopes_list:
  assumes "storeScopes s" and "listRules ctx s = Some (rs, s')"
  shows "storeScopes s'"
proof -
  from assms(2) obtain cb gb where "readRanges s ctx = Some ((cb, gb), s')"
    by (auto simp: listRules_def split: option.splits)
  then show ?thesis by (rule readRanges_scopes(1) [OF assms(1)])
qed

lemma scopes_addContext:
  assumes "scopes.inv d" and "keyOk key" and "userScope key rule"
  shows "scopes.inv (snd (addContextRule w key rule d))"
  using scopes.inv_publish [OF assms, of w]
  by (auto simp: addContextRule_def split: sum.splits publication.splits prod.splits)

lemma toStorageKey_not_global: "toStorageKey ctx \<noteq> GLOBAL_PERMISSION_BUCKET"
  by (cases ctx) (simp_all add: GLOBAL_PERMISSION_BUCKET_def)

lemma scopes_create: "storeScopes s \<Longrightarrow> storeScopes (snd (createRuleIn w ctx rule s))"
proof -
  assume s: "storeScopes s"
  have sess: "\<forall>r \<in> set (sessionList s k). scope r = SessionScope" for k
    using s poolScope_get [of SessionScope "sessionRules s" k]
    by (cases "map_of (sessionRules s) k") (auto simp: sessionList_def storeScopes_def)
  show ?thesis
  proof (cases "scope rule")
    case ContextScope
    then show ?thesis
      using s scopes_addContext [of "durableRules s" "toStorageKey ctx" rule w] keyOk_storage toStorageKey_not_global
      by (simp add: createRuleIn_def Let_def storeScopes_def userScope_def)
  next
    case GlobalScope
    then show ?thesis
      using s scopes_addContext [of "durableRules s" GLOBAL_PERMISSION_BUCKET rule w] keyOk_global
      by (simp add: createRuleIn_def Let_def storeScopes_def userScope_def addGlobalRule_def)
  qed (use s sess in \<open>auto simp: createRuleIn_def Let_def storeScopes_def intro!: poolScope_set\<close>)
qed

lemma poolScope_revokeSession: "poolScope sc m \<Longrightarrow> revokeSession i m = Some m' \<Longrightarrow> poolScope sc m'"
proof (induction m arbitrary: m')
  case (Cons e m)
  obtain k rs where e: "e = (k, rs)" by (cases e)
  have tail: "poolScope sc m" using Cons.prems(1) by (simp add: poolScope_def)
  have rs: "\<forall>r \<in> set (removeFirst P rs). scope r = sc" for P
    using Cons.prems(1) scopes.set_removeFirst [of P rs] by (auto simp: poolScope_def e)
  have cons: "poolScope sc ((k, rs') # m'') \<longleftrightarrow> (\<forall>r \<in> set rs'. scope r = sc) \<and> poolScope sc m''" for rs' m''
    by (simp add: poolScope_def)
  show ?case
    using Cons.prems tail rs Cons.IH [OF tail]
    by (auto simp: e Let_def cons split: if_splits)
qed simp

lemma scopes_step: "storeScopes s \<Longrightarrow> storeOpOk op \<Longrightarrow> storeScopes (storeStep extract op s)"
proof (cases op)
  case (RevokeIn w1 w2 i)
  assume s: "storeScopes s"
  show ?thesis
    using s RevokeIn scopes.inv_revoke [of "durableRules s" w1 w2 i]
    by (auto simp: revokeRule_def storeScopes_def Let_def poolScope_revokeSession split: option.split)
next
  case (ResetIn w ctx)
  assume s: "storeScopes s"
  have "poolScope SessionScope (filter P (sessionRules s))" for P
    using s by (auto simp: storeScopes_def poolScope_def)
  then show ?thesis
    using s ResetIn scopes.inv_reset [of "durableRules s" "toStorageKey ctx" w] keyOk_storage
    by (simp add: resetRules_def storeScopes_def Let_def)
next
  case (ResetAllIn failed)
  assume s: "storeScopes s"
  show ?thesis
    using s ResetAllIn scopes.inv_resetAll [of "durableRules s" failed]
    by (simp add: resetAllRules_def storeScopes_def Let_def poolScope_def)
next
  case (RegisterIn ns rules)
  assume s: "storeScopes s"
  have "\<forall>r \<in> set rules. scope r = BuiltinScope" if "List.find (\<lambda>r. scope r \<noteq> BuiltinScope) rules = None"
    using that by (auto simp: find_None_iff_all)
  then show ?thesis
    using s RegisterIn
    by (auto simp: registerBuiltinRules_def storeScopes_def poolScope_set split: option.split)
next
  case (Shared dop)
  assume "storeScopes s" "storeOpOk op"
  then show ?thesis using Shared scopes.inv_step [of "durableRules s" dop] by (simp add: storeScopes_def)
qed (auto simp: scopes_create split: sum.split option.split dest: scopes_match scopes_list)

lemma scopes_run: "storeScopes s \<Longrightarrow> \<forall>op \<in> set ops. storeOpOk op \<Longrightarrow> storeScopes (storeRun extract ops s)"
  unfolding storeRun_def by (induction ops arbitrary: s) (auto simp: scopes_step)

lemma scopes_new: "storeScopes (newPermissionStore (newDurable p fs))"
  by (auto simp: storeScopes_def newPermissionStore_def poolScope_def intro: scopes.inv_opened)

section \<open>A snapshot decides as the store\<close>

lemma effective_good: "viewOk ids b \<Longrightarrow> bucketGood g b \<Longrightarrow> r \<in> set (effectiveRules b) \<Longrightarrow> g r"
  by (auto simp: effective_view bucketGood_def)

lemma listRules_scopes:
  assumes "storeScopes s" and "listRules ctx s = Some (rs, s')" and "r \<in> set rs"
  shows "scope r \<noteq> BuiltinScope \<and> ruleAppliesToContext r ctx"
proof -
  from assms(2) obtain cb gb where rr: "readRanges s ctx = Some ((cb, gb), s')"
    and rs: "rs = sessionList s' (toStorageKey ctx) @ filter (\<lambda>r. ruleAppliesToContext r ctx) (effectiveRules cb) @ effectiveRules gb"
    by (auto simp: listRules_def split: option.splits)
  note ok = readRanges_scopes [OF assms(1) rr]
  have free: "scope x \<noteq> ContextScope \<Longrightarrow> ruleAppliesToContext x ctx" for x
    by (auto simp: ruleAppliesToContext_def split: permissionContextId.splits option.splits)
  consider "r \<in> set (sessionList s' (toStorageKey ctx))" | "r \<in> set (effectiveRules cb)" "ruleAppliesToContext r ctx"
    | "r \<in> set (effectiveRules gb)"
    using assms(3) rs by auto
  then show ?thesis
  proof cases
    case 1
    then obtain xs where "map_of (sessionRules s') (toStorageKey ctx) = Some xs" "r \<in> set xs"
      by (cases "map_of (sessionRules s') (toStorageKey ctx)") (auto simp: sessionList_def)
    then have "scope r = SessionScope" using ok(1) poolScope_get by (auto simp: storeScopes_def)
    then show ?thesis using free by simp
  next
    case 2
    then show ?thesis using effective_good [OF ok(4,2)] by (auto simp: userScope_def)
  next
    case 3
    then show ?thesis using effective_good [OF ok(5,3)] free by (auto simp: userScope_def)
  qed
qed

lemma builtin_scopes: "storeScopes s \<Longrightarrow> r \<in> set (concat (omap_values (builtinRules s))) \<Longrightarrow> scope r = BuiltinScope"
  by (auto simp: storeScopes_def poolScope_def)

lemma snapshot_decides:
  assumes "storeScopes s" and "snapshotRules ctx s = Some (snap, s1)" and "matchRule extract now ctx r s = Inr (res, s2)"
  shows "boundMatchFrozen extract now ctx snap r = res"
proof -
  obtain rs s' where list: "listRules ctx s = Some (rs, s')"
    and res: "res = pickRule now (\<lambda>x. ruleMatches x (toLowerCase (reqTool r)) (extract r)) rs (concat (omap_values (builtinRules s')))"
    using matchRule_picks [OF assms(3)] by blast
  let ?bi = "concat (omap_values (builtinRules s'))"
  have snap: "snap = rs @ ?bi" using assms(2) list by (auto simp: snapshotRules_def)
  have s': "storeScopes s'" by (rule scopes_list [OF assms(1) list])
  have user: "\<forall>x \<in> set rs. scope x \<noteq> BuiltinScope \<and> ruleAppliesToContext x ctx"
    using listRules_scopes [OF assms(1) list] by blast
  have bi: "\<forall>x \<in> set ?bi. scope x = BuiltinScope" using builtin_scopes [OF s'] by blast
  have "ruleAppliesToContext x ctx" if "x \<in> set ?bi" for x
    using bi that by (auto simp: ruleAppliesToContext_def split: permissionContextId.splits option.splits)
  then have "filter (\<lambda>x. ruleAppliesToContext x ctx) snap = snap"
    using user by (intro filter_True) (auto simp: snap)
  then show ?thesis
    using user bi by (simp add: boundMatchFrozen_def snap matchFrozen_pick res del: set_concat)
qed

end
