(* ===== verification/Security_Commands.thy ===== *)
theory Security_Commands
  imports Security_Types
begin

text \<open>
  The analysis of shell commands (\<^verbatim>\<open>packages/core/src/security/command-analyzer.ts\<close>): a
  quote-aware tokenizer, the split at chain operators, and what each part accesses.
\<close>

section \<open>Tokens\<close>

datatype token = WordTok string | OpTok string

datatype quoting = Normal | Single | Double

abbreviation backslash :: char where
  "backslash \<equiv> CHR 0x5C"

abbreviation squote :: char where
  "squote \<equiv> CHR 0x27"

abbreviation backtick :: char where
  "backtick \<equiv> CHR 0x60"

definition flushWord :: "string \<Rightarrow> token list" where
  "flushWord current = (if current = [] then [] else [WordTok current])"

definition twoCharOps :: "string list" where
  "twoCharOps = [''||'', ''&&'', ''>>'', ''<<'', ''$('', ''2>'']"

definition oneCharOps :: string where
  "oneCharOps = ''|&;><()'' @ [backtick]"

text \<open>
  \<open>tokenizeFrom state current rest\<close>: the loop of \<^verbatim>\<open>tokenize\<close> with the word that is being read.
\<close>

fun tokenizeFrom :: "quoting \<Rightarrow> string \<Rightarrow> string \<Rightarrow> token list" where
  "tokenizeFrom q current [] = flushWord current"
| "tokenizeFrom Single current (c # s) =
     (if c = squote then tokenizeFrom Normal current s else tokenizeFrom Single (current @ [c]) s)"
| "tokenizeFrom Double current (c # s) =
     (if c = dquote then tokenizeFrom Normal current s
      else if c = backslash then
        (case s of
           n # t \<Rightarrow>
             if n = dquote \<or> n = backslash \<or> n = CHR ''$'' \<or> n = backtick
             then tokenizeFrom Double (current @ [n]) t
             else tokenizeFrom Double (current @ [c]) s
         | [] \<Rightarrow> tokenizeFrom Double (current @ [c]) s)
      else tokenizeFrom Double (current @ [c]) s)"
| "tokenizeFrom Normal current (c # s) =
     (if c = CHR '' '' \<or> c = CHR 0x09 \<or> c = CHR 0x0A then flushWord current @ tokenizeFrom Normal [] s
      else if c = squote then tokenizeFrom Single current s
      else if c = dquote then tokenizeFrom Double current s
      else case s of
        [] \<Rightarrow>
          if c \<in> set oneCharOps then flushWord current @ OpTok [c] # tokenizeFrom Normal [] s
          else tokenizeFrom Normal (current @ [c]) s
      | n # t \<Rightarrow>
          if c = backslash then tokenizeFrom Normal (current @ [n]) t
          else if [c, n] \<in> set twoCharOps then flushWord current @ OpTok [c, n] # tokenizeFrom Normal [] t
          else if c \<in> set oneCharOps then flushWord current @ OpTok [c] # tokenizeFrom Normal [] s
          else tokenizeFrom Normal (current @ [c]) s)"

definition tokenize :: "string \<Rightarrow> token list" where
  "tokenize cmd = tokenizeFrom Normal [] cmd"

section \<open>Chains\<close>

definition CHAIN_OPS :: "string list" where
  "CHAIN_OPS = [''|'', ''||'', ''&&'', '';'', ''&'']"

fun splitFrom :: "token list \<Rightarrow> nat \<Rightarrow> token list \<Rightarrow> token list list \<times> string list" where
  "splitFrom current depth [] = (if current = [] then [] else [current], [])"
| "splitFrom current depth (tok # toks) =
     (case tok of
        WordTok w \<Rightarrow> splitFrom (current @ [tok]) depth toks
      | OpTok v \<Rightarrow>
          if v = ''('' \<or> v = ''$('' then splitFrom (current @ [tok]) (depth + 1) toks
          else if v = '')'' then splitFrom (current @ [tok]) (depth - 1) toks
          else if depth = 0 \<and> v \<in> set CHAIN_OPS then
            (if current = [] then splitFrom [] depth toks
             else let (pieces, ops) = splitFrom [] depth toks in (current # pieces, v # ops))
          else splitFrom (current @ [tok]) depth toks)"

definition splitByChains :: "token list \<Rightarrow> token list list \<times> string list" where
  "splitByChains toks = splitFrom [] 0 toks"

section \<open>One command\<close>

definition INTERPRETERS :: "string list" where
  "INTERPRETERS =
     [''python'', ''python2'', ''python3'', ''py'', ''node'', ''nodejs'', ''ruby'', ''perl'', ''php'',
      ''sh'', ''bash'', ''zsh'', ''fish'', ''dash'', ''lua'', ''tcl'']"

definition EVAL_FLAGS :: "string list" where
  "EVAL_FLAGS = [''-c'', ''-e'', ''--eval'', ''-p'', ''--command'']"

abbreviation UpperStart :: regex where
  "UpperStart \<equiv> Class True [(CHR ''A'', CHR ''Z''), (CHR ''_'', CHR ''_'')]"

abbreviation UpperRest :: regex where
  "UpperRest \<equiv> Class True [(CHR ''A'', CHR ''Z''), (CHR ''0'', CHR ''9''), (CHR ''_'', CHR ''_'')]"

definition isUpperStart :: "char \<Rightarrow> bool" where
  "isUpperStart c \<longleftrightarrow> 65 \<le> code c \<and> code c \<le> 90 \<or> code c = 95"

definition isUpperRest :: "char \<Rightarrow> bool" where
  "isUpperRest c \<longleftrightarrow> isUpperStart c \<or> 48 \<le> code c \<and> code c \<le> 57"

text \<open>
  \<^verbatim>\<open>/^[a-z][a-z0-9_-]{0,15}$/i\<close>, \<^verbatim>\<open>/^([A-Z_][A-Z0-9_]*)=(.*)$/\<close>, \<^verbatim>\<open>/^[A-Z_][A-Z0-9_]*=/\<close> and
  \<^verbatim>\<open>/^[a-zA-Z]:[\\/]/\<close>
\<close>

definition isSubcommandWord :: "string \<Rightarrow> bool" where
  "isSubcommandWord w \<longleftrightarrow>
     (case w of
        [] \<Rightarrow> False
      | c # cs \<Rightarrow>
          inRanges True [(CHR ''a'', CHR ''z'')] c \<and> length cs \<le> 15 \<and>
          list_all (inRanges True [(CHR ''a'', CHR ''z''), (CHR ''0'', CHR ''9''), (CHR ''_'', CHR ''_''), (CHR ''-'', CHR ''-'')]) cs)"

definition assignmentPattern :: regex where
  "assignmentPattern = Seqs [Start, UpperStart, Many UpperRest, Lit (CHR ''=''), Many Dot, End]"

definition assignmentPrefix :: regex where
  "assignmentPrefix = Seqs [Start, UpperStart, Many UpperRest, Lit (CHR ''='')]"

definition drivePattern :: regex where
  "drivePattern =
     Seqs [Start, Class True [(CHR ''a'', CHR ''z''), (CHR ''A'', CHR ''Z'')], Lit (CHR '':''),
           Class True [(backslash, backslash), (CHR 0x2F, CHR 0x2F)]]"

definition isPathSeparator :: "char \<Rightarrow> bool" where
  "isPathSeparator c \<longleftrightarrow> c = backslash \<or> c = CHR 0x2F"

definition normalizeExecutable :: "string \<Rightarrow> string" where
  "normalizeExecutable raw = toLowerCase (last (splitOn isPathSeparator raw))"

abbreviation Digit :: regex where
  "Digit \<equiv> Class True [(CHR ''0'', CHR ''9'')]"

text \<open>\<^verbatim>\<open>/[0-9](?:\.[0-9]+)*$/\<close>, removed.\<close>

definition versionPattern :: regex where
  "versionPattern = Seqs [Digit, Many (Seqs [Lit (CHR ''.''), Some1 Digit]), End]"

definition stripVersion :: "string \<Rightarrow> string" where
  "stripVersion s =
     (case regexFirst False versionPattern s of
        None \<Rightarrow> s
      | Some (p, q) \<Rightarrow> take (length s - length (snd p)) s @ snd q)"

definition isInterpreter :: "string \<Rightarrow> bool" where
  "isInterpreter exe \<longleftrightarrow>
     normalizeExecutable exe \<in> set INTERPRETERS \<or> stripVersion (normalizeExecutable exe) \<in> set INTERPRETERS"

definition looksLikePath :: "string \<Rightarrow> bool" where
  "looksLikePath tok \<longleftrightarrow>
     (if tok = [] then False
      else if startsWith ''-'' tok then False
      else if regexTest False assignmentPrefix tok then False
      else if startsWith ''/'' tok \<or> startsWith ''~/'' tok \<or> tok = ''~'' \<or> startsWith ''./'' tok \<or> startsWith ''../'' tok
      then True
      else if regexTest False drivePattern tok then True
      else includesText ''/'' tok \<and> \<not> includesText ''://'' tok)"

text \<open>
  \<^verbatim>\<open>/^(?:https?|ftp|ftps|ssh|git|ws|wss|rsync):\/\/(?:[^@\/]+@)?([^\/:?#]+)/i\<close>; the group is what
  lies between the two positions.
\<close>

definition urlPrefix :: regex where
  "urlPrefix =
     Seqs [Start, Alts [Seqs [Word ''http'', Opt (Lit (CHR ''s''))], Word ''ftp'', Word ''ftps'', Word ''ssh'', Word ''git'',
                        Word ''ws'', Word ''wss'', Word ''rsync''],
           Word ''://'',
           Opt (Seqs [Some1 (Class False [(CHR ''@'', CHR ''@''), (CHR 0x2F, CHR 0x2F)]), Lit (CHR ''@'')])]"

definition urlHost :: regex where
  "urlHost = Some1 (Class False [(CHR 0x2F, CHR 0x2F), (CHR '':'', CHR '':''), (CHR ''?'', CHR ''?''), (CHR ''#'', CHR ''#'')])"

definition extractHost :: "string \<Rightarrow> string option" where
  "extractHost tok =
     (case concat (map (\<lambda>a. map (\<lambda>b. (snd a, snd b)) (steps True urlHost a)) (steps True urlPrefix (None, tok))) of
        [] \<Rightarrow> None
      | (a, b) # _ \<Rightarrow> Some (toLowerCase (take (length a - length b) a)))"

text \<open>All matches of \<^verbatim>\<open>/\$\{?([A-Z_][A-Z0-9_]*)\}?/g\<close>.\<close>

definition dropOne :: "char \<Rightarrow> string \<Rightarrow> string" where
  "dropOne c s = (case s of [] \<Rightarrow> [] | d # t \<Rightarrow> if d = c then t else s)"

definition envName :: "string \<Rightarrow> string" where
  "envName s = (case s of [] \<Rightarrow> [] | c # t \<Rightarrow> if isUpperStart c then c # takeWhile isUpperRest t else [])"

lemma length_dropOne: "length (dropOne c s) \<le> length s"
  by (cases s) (auto simp: dropOne_def)

function extractEnvRefs :: "string \<Rightarrow> string list" where
  "extractEnvRefs [] = []"
| "extractEnvRefs (c # s) =
     (let s1 = dropOne (CHR ''{'') s; name = envName s1 in
      if c = CHR ''$'' \<and> name \<noteq> []
      then name # extractEnvRefs (dropOne (CHR ''}'') (drop (length name) s1))
      else extractEnvRefs s)"
  by pat_completeness auto
termination
proof (relation "measure length", simp, simp_all)
  fix s name
  show "length (dropOne (CHR ''}'') (drop (length (envName (dropOne (CHR ''{'') s))) (dropOne (CHR ''{'') s))) < Suc (length s)"
    using length_dropOne [of "CHR ''}''" "drop (length (envName (dropOne (CHR ''{'') s))) (dropOne (CHR ''{'') s)"]
      length_dropOne [of "CHR ''{''" s] by simp
qed

fun tokenWords :: "token list \<Rightarrow> string list" where
  "tokenWords [] = []"
| "tokenWords (WordTok w # toks) = w # tokenWords toks"
| "tokenWords (OpTok v # toks) = tokenWords toks"

definition REDIRECT_OPS :: "string list" where
  "REDIRECT_OPS = [''<'', ''>'', ''>>'', ''<<'', ''2>'']"

fun redirectsOf :: "token list \<Rightarrow> redirectSpec list" where
  "redirectsOf (OpTok v # WordTok w # toks) =
     (if v \<in> set REDIRECT_OPS then \<lparr>redirOperator = v, redirTarget = w\<rparr> # redirectsOf (WordTok w # toks)
      else redirectsOf (WordTok w # toks))"
| "redirectsOf (_ # toks) = redirectsOf toks"
| "redirectsOf [] = []"

record subAnalysis =
  sub :: subcommandInfo
  subRedirects :: "redirectSpec list"
  subPaths :: "string list"
  subHosts :: "string list"
  subEnvVars :: "string list"

definition analyzeSub :: "token list \<Rightarrow> subAnalysis" where
  "analyzeSub toks =
     (let words = tokenWords toks;
          assigned = takeWhile (regexTest False assignmentPattern) words;
          prefixVars = map (takeWhile (\<lambda>c. c \<noteq> CHR ''='')) assigned
      in case drop (length assigned) words of
           [] \<Rightarrow>
             \<lparr>sub = \<lparr>executable = [], subArguments = [], subcommand = None, isInterpreterEval = False\<rparr>,
              subRedirects = [], subPaths = [], subHosts = [], subEnvVars = prefixVars\<rparr>
         | execRaw # args \<Rightarrow>
             let local = filter (\<lambda>a. \<not> truthy (extractHost a)) args in
             \<lparr>sub = \<lparr>executable = normalizeExecutable execRaw, subArguments = args,
                     subcommand = (case args of first # _ \<Rightarrow> if isSubcommandWord first then Some first else None | [] \<Rightarrow> None),
                     isInterpreterEval = (isInterpreter execRaw \<and> list_ex (\<lambda>a. a \<in> set EVAL_FLAGS) args)\<rparr>,
              subRedirects = redirectsOf toks,
              subPaths = map redirTarget (redirectsOf toks) @ filter looksLikePath local,
              subHosts = map the (filter truthy (map extractHost args)),
              subEnvVars = prefixVars @ concat (map extractEnvRefs local)\<rparr>)"

section \<open>The whole command\<close>

text \<open>A \<^verbatim>\<open>Set\<close> keeps the order of first insertion.\<close>

definition addToSet :: "'a \<Rightarrow> 'a list \<Rightarrow> 'a list" where
  "addToSet x xs = (if x \<in> set xs then xs else xs @ [x])"

definition setOf :: "'a list \<Rightarrow> 'a list" where
  "setOf xs = fold addToSet xs []"

definition emptyAnalysis :: "string \<Rightarrow> commandAnalysis" where
  "emptyAnalysis raw =
     \<lparr>rawCommand = raw, subcommands = [], chainOperators = [], hasChain = False, redirects = [],
      accessedPaths = [], accessedHosts = [], usedEnvVars = [], hasCommandSubstitution = False,
      hasInterpreterEval = False\<rparr>"

definition isSubstitution :: "token \<Rightarrow> bool" where
  "isSubstitution tok \<longleftrightarrow> tok = OpTok ''$('' \<or> tok = OpTok [backtick]"

definition analyzeCommand :: "string \<Rightarrow> commandAnalysis" where
  "analyzeCommand rawCmd =
     (let cmd = trim rawCmd in
      if cmd = [] then emptyAnalysis rawCmd
      else let toks = tokenize cmd; (pieces, chainOps) = splitByChains toks;
               subs = map analyzeSub pieces; substitution = list_ex isSubstitution toks in
        \<lparr>rawCommand = cmd, subcommands = map sub subs, chainOperators = chainOps,
         hasChain = (chainOps \<noteq> [] \<or> substitution), redirects = concat (map subRedirects subs),
         accessedPaths = setOf (concat (map subPaths subs)), accessedHosts = setOf (concat (map subHosts subs)),
         usedEnvVars = setOf (concat (map subEnvVars subs)), hasCommandSubstitution = substitution,
         hasInterpreterEval = list_ex (\<lambda>a. isInterpreterEval (sub a)) subs\<rparr>)"

definition mergeUnique :: "string list option \<Rightarrow> string list option \<Rightarrow> string list" where
  "mergeUnique a b = setOf (withDefault a [] @ withDefault b [])"

lemma set_setOf [simp]: "set (setOf xs) = set xs"
proof -
  have "set (fold addToSet xs ys) = set xs \<union> set ys" for ys
    by (induction xs arbitrary: ys) (auto simp: addToSet_def)
  then show ?thesis by (simp add: setOf_def)
qed

lemma distinct_setOf [simp]: "distinct (setOf xs)"
proof -
  have "distinct ys \<Longrightarrow> distinct (fold addToSet xs ys)" for ys
    by (induction xs arbitrary: ys) (auto simp: addToSet_def)
  then show ?thesis by (simp add: setOf_def)
qed

end
