(* ===== verification/Security_Classifier.thy ===== *)
theory Security_Classifier
  imports Security_Policy Security_Commands
begin

text \<open>
  The classification of operations by their reach (\<^verbatim>\<open>packages/core/src/security/classifier.ts\<close>)
  and the registry of declared boundaries (\<^verbatim>\<open>boundary-registry.ts\<close>), the classification of
  trust (\<^verbatim>\<open>trust-classifier.ts\<close>) and the resolution of paths it uses (\<^verbatim>\<open>path-guard.ts\<close>).
\<close>

section \<open>Order of classes\<close>

fun classIndex :: "operationClass \<Rightarrow> nat" where
  "classIndex Observe = 0"
| "classIndex Internal = 1"
| "classIndex External = 2"
| "classIndex OpCritical = 3"

definition maxClass :: "operationClass \<Rightarrow> operationClass \<Rightarrow> operationClass" where
  "maxClass a b = (if classIndex a \<ge> classIndex b then a else b)"

type_synonym classifier = "securityRequest \<Rightarrow> operationClass js"

section \<open>Files\<close>

definition FS_READ_TOOLS :: "string list" where
  "FS_READ_TOOLS = [''read'', ''glob'', ''grep'', ''ls'', ''file_read'', ''readfile'']"

definition FS_WRITE_TOOLS :: "string list" where
  "FS_WRITE_TOOLS = [''write'', ''edit'', ''multiedit'', ''file_write'', ''writefile'']"

definition fileSystemClassify :: classifier where
  "fileSystemClassify r = Inr (if toLowerCase (reqTool r) \<in> set FS_READ_TOOLS then Observe else External)"

section \<open>Shell commands\<close>

definition SAFE_READ_COMMANDS :: "string list" where
  "SAFE_READ_COMMANDS =
     [''ls'', ''dir'', ''pwd'', ''wc'', ''date'', ''whoami'', ''hostname'', ''cat'', ''head'', ''tail'', ''less'', ''file'', ''stat'']"

definition SAFE_GIT_SUBCOMMANDS :: "string list" where
  "SAFE_GIT_SUBCOMMANDS = [''status'', ''log'', ''diff'', ''branch'', ''show'', ''remote'']"

text \<open>
  \<^verbatim>\<open>SAFE_SUBCOMMANDS[executable]\<close> on an object literal: the members of \<^verbatim>\<open>Object.prototype\<close> with
  a lower case name are found too, and have no method \<^verbatim>\<open>has\<close>.
\<close>

definition safeSubcommand :: "string \<Rightarrow> string \<Rightarrow> bool js" where
  "safeSubcommand exe subcmd =
     (if exe = ''git'' then Inr (subcmd \<in> set SAFE_GIT_SUBCOMMANDS)
      else if exe = ''constructor'' \<or> exe = ''__proto__'' then Inl JsTypeError
      else Inr False)"

definition DESTRUCTIVE_PATTERNS :: "regex list" where
  "DESTRUCTIVE_PATTERNS =
     [Seqs [Boundary, rmPattern],
      Seqs [Boundary, Word ''mkfs'', Boundary],
      Seqs [Boundary, Word ''fdisk'', Boundary],
      Seqs [Boundary, Word ''dd'', Some1 Space],
      Seqs [Boundary, Word ''format'', Boundary],
      Seqs [Boundary, Word ''diskpart'', Boundary],
      Seqs [Boundary, Word ''shred'', Boundary]]"

definition isDestructive :: "string \<Rightarrow> bool" where
  "isDestructive command \<longleftrightarrow> list_ex (\<lambda>re. regexTest True re command) DESTRUCTIVE_PATTERNS"

text \<open>\<^verbatim>\<open>/[|><;`]|&&|\|\||\$\(/\<close>\<close>

definition hasChainOperators :: "string \<Rightarrow> bool" where
  "hasChainOperators command \<longleftrightarrow>
     list_ex (\<lambda>c. c \<in> set (''|><;'' @ [backtick])) command \<or>
     includesText ''&&'' command \<or> includesText ''||'' command \<or> includesText ''$('' command"

definition shellCommand :: "securityRequest \<Rightarrow> string option" where
  "shellCommand r =
     (case argOf r ''command'' of
        JStr s \<Rightarrow> Some s
      | _ \<Rightarrow> (case raCommands (accessOf r) of Some (c # _) \<Rightarrow> Some c | _ \<Rightarrow> None))"

definition classifyCommand :: "commandAnalysis option \<Rightarrow> string \<Rightarrow> operationClass js" where
  "classifyCommand analysis trimmed =
     (if isDestructive trimmed then Inr OpCritical
      else if (case analysis of Some a \<Rightarrow> hasChain a | None \<Rightarrow> hasChainOperators trimmed) then Inr External
      else let tokens = splitSpaces trimmed; exe = normalizeExecutable (hd tokens) in
        if exe \<in> set SAFE_READ_COMMANDS then Inr Observe
        else case tl tokens of
               s # _ \<Rightarrow>
                 if toLowerCase s \<noteq> []
                 then andThen (safeSubcommand exe (toLowerCase s)) (\<lambda>b. Inr (if b then Observe else External))
                 else Inr External
             | [] \<Rightarrow> Inr External)"

definition shellClassify :: classifier where
  "shellClassify r =
     (case shellCommand r of
        None \<Rightarrow> Inr External
      | Some command \<Rightarrow>
          if trim command = [] then Inr External
          else classifyCommand (commandAnalysis (accessOf r)) (trim command))"

section \<open>Declared boundaries\<close>

definition BOUNDARY_READ_ACCESS :: "string list" where
  "BOUNDARY_READ_ACCESS = [''read'', ''list'', ''query'', ''view'', ''fetch'', ''get'', ''describe'', ''inspect'']"

fun BOUNDARY_WRITE_IMPACT :: "boundaryType \<Rightarrow> operationClass" where
  "BOUNDARY_WRITE_IMPACT Process = Internal"
| "BOUNDARY_WRITE_IMPACT Filesystem = External"
| "BOUNDARY_WRITE_IMPACT NetworkBoundary = External"
| "BOUNDARY_WRITE_IMPACT Messaging = External"
| "BOUNDARY_WRITE_IMPACT Calendar = External"
| "BOUNDARY_WRITE_IMPACT ExternalService = External"
| "BOUNDARY_WRITE_IMPACT Secrets = OpCritical"
| "BOUNDARY_WRITE_IMPACT SystemBoundary = OpCritical"
| "BOUNDARY_WRITE_IMPACT Financial = OpCritical"
| "BOUNDARY_WRITE_IMPACT AgentContext = External"
| "BOUNDARY_WRITE_IMPACT AppState = Internal"

definition classifyCrossing :: "boundaryCrossing \<Rightarrow> operationClass" where
  "classifyCrossing c =
     (if toLowerCase (crossAccess c) \<in> set BOUNDARY_READ_ACCESS then Observe
      else BOUNDARY_WRITE_IMPACT (boundaryType c))"

type_synonym boundaryRegistry = "(string, boundaryCrossing list) omap"

definition registerBoundaries :: "string \<Rightarrow> boundaryCrossing list \<Rightarrow> boundaryRegistry \<Rightarrow> (string, boundaryRegistry) result" where
  "registerBoundaries name bs reg =
     (if bs = [] then Inl name else Inr (omap_set (toLowerCase name) bs reg))"

definition getBoundaries :: "boundaryRegistry \<Rightarrow> string \<Rightarrow> boundaryCrossing list option" where
  "getBoundaries reg name = map_of reg (toLowerCase name)"

definition registryFromTools :: "toolDefinition list \<Rightarrow> boundaryRegistry" where
  "registryFromTools tools =
     fold (\<lambda>t reg. case toolBoundaries t of
                     Some (b # bs) \<Rightarrow> (case registerBoundaries (toolName t) (b # bs) reg of Inr reg' \<Rightarrow> reg' | Inl _ \<Rightarrow> reg)
                   | _ \<Rightarrow> reg) tools []"

definition boundaryClassify :: "(string \<Rightarrow> boundaryCrossing list option) \<Rightarrow> classifier" where
  "boundaryClassify lookup r =
     (case lookup (reqTool r) of
        None \<Rightarrow> Inr OpCritical
      | Some [] \<Rightarrow> Inr OpCritical
      | Some cs \<Rightarrow> Inr (fold (\<lambda>c m. maxClass m (classifyCrossing c)) cs Observe))"

section \<open>Dispatch\<close>

record compositeClassifier =
  contextClassifiers :: "(string, classifier) omap"
  boundaryClassifier :: "classifier option"

definition registerContext :: "string \<Rightarrow> classifier \<Rightarrow> compositeClassifier \<Rightarrow> compositeClassifier" where
  "registerContext name c k = k\<lparr>contextClassifiers := omap_set (toLowerCase name) c (contextClassifiers k)\<rparr>"

definition setBoundaryClassifier :: "classifier \<Rightarrow> compositeClassifier \<Rightarrow> compositeClassifier" where
  "setBoundaryClassifier c k = k\<lparr>boundaryClassifier := Some c\<rparr>"

definition compositeClassify :: "compositeClassifier \<Rightarrow> classifier" where
  "compositeClassify k r =
     (case map_of (contextClassifiers k) (toLowerCase (reqTool r)) of
        Some c \<Rightarrow> c r
      | None \<Rightarrow> (case boundaryClassifier k of Some c \<Rightarrow> c r | None \<Rightarrow> Inr OpCritical))"

definition EMPTY_BOUNDARY_REGISTRY :: "string \<Rightarrow> boundaryCrossing list option" where
  "EMPTY_BOUNDARY_REGISTRY name = None"

definition createDefaultClassifier :: "(string \<Rightarrow> boundaryCrossing list option) \<Rightarrow> compositeClassifier" where
  "createDefaultClassifier lookup =
     setBoundaryClassifier (boundaryClassify lookup)
       (registerContext ''shell'' shellClassify (registerContext ''bash'' shellClassify
         (fold (\<lambda>name. registerContext name fileSystemClassify) (FS_READ_TOOLS @ FS_WRITE_TOOLS)
           \<lparr>contextClassifiers = [], boundaryClassifier = None\<rparr>)))"

section \<open>Paths\<close>

text \<open>
  The loop climbs to the nearest ancestor that exists. It ends as long as \<^verbatim>\<open>dirname\<close> of a path
  that is not a root is shorter than the path, so the length of the path bounds the rounds.
\<close>

fun existingAncestor :: "host \<Rightarrow> nat \<Rightarrow> string \<Rightarrow> string list \<Rightarrow> string \<Rightarrow> string js" where
  "existingAncestor h 0 normalized missing current = Inl JsNoReturn"
| "existingAncestor h (Suc n) normalized missing current =
     (let parent = dirname h current in
      if parent = current then Inr normalized
      else let missing' = basename h current # missing in
        case realpath h parent of
          Some realParent \<Rightarrow> Inr (pathJoin h (realParent # missing'))
        | None \<Rightarrow> existingAncestor h n normalized missing' parent)"

definition resolvePath :: "host \<Rightarrow> string \<Rightarrow> string \<Rightarrow> string js" where
  "resolvePath h target dir =
     (let absolute = pathResolve h dir (expandUserHome h target) in
      case realpath h absolute of
        Some p \<Rightarrow> Inr p
      | None \<Rightarrow>
          let normalized = pathNormalize h absolute in
          existingAncestor h (Suc (length normalized)) normalized [] normalized)"

definition isWithinWorkspace :: "host \<Rightarrow> string \<Rightarrow> string \<Rightarrow> string \<Rightarrow> bool js" where
  "isWithinWorkspace h target workspace dir =
     andThen (resolvePath h target dir) (\<lambda>p.
       andThen (resolvePath h workspace dir) (\<lambda>w.
         Inr (p = w \<or> startsWith (w @ pathSep h) p)))"

section \<open>Trust\<close>

definition classifyTrust :: "host \<Rightarrow> securityRequest \<Rightarrow> trustLevel js" where
  "classifyTrust h r =
     (case trust r of
        SceneTrust _ _ \<Rightarrow> Inr TrustScene
      | GlobalTrust \<Rightarrow> Inr TrustGlobal
      | WorkspaceTrust dir \<Rightarrow>
          (let paths = withDefault (raPaths (accessOf r)) [] in
           if paths = [] then Inr TrustGlobal
           else andThen (everyR (\<lambda>p. isWithinWorkspace h p dir (cwd r)) paths) (\<lambda>allInside.
                  Inr (if allInside then TrustWorkspace else TrustGlobal))))"

text \<open>The law of \<^verbatim>\<open>path.dirname\<close> that makes the climb end.\<close>

definition dirnameClimbs :: "host \<Rightarrow> bool" where
  "dirnameClimbs h \<longleftrightarrow> (\<forall>p. dirname h p = p \<or> length (dirname h p) < length p)"

lemma existingAncestor_ends:
  assumes "dirnameClimbs h" and "length current < n"
  shows "\<exists>p. existingAncestor h n normalized missing current = Inr p"
  using assms(2)
proof (induction n arbitrary: missing current)
  case (Suc n)
  show ?case
  proof (cases "dirname h current = current \<or> realpath h (dirname h current) \<noteq> None")
    case False
    then have "length (dirname h current) < n" using assms(1) Suc.prems by (auto simp: dirnameClimbs_def)
    then show ?thesis using False Suc.IH by (auto simp: Let_def)
  qed (auto simp: Let_def)
qed simp

lemma resolvePath_ends: "dirnameClimbs h \<Longrightarrow> \<exists>p. resolvePath h target dir = Inr p"
  by (auto simp: resolvePath_def Let_def simp del: existingAncestor.simps intro!: existingAncestor_ends split: option.split)

lemma isWithinWorkspace_ends: "dirnameClimbs h \<Longrightarrow> \<exists>b. isWithinWorkspace h target workspace dir = Inr b"
  using resolvePath_ends [of h target dir] resolvePath_ends [of h workspace dir]
  by (auto simp: isWithinWorkspace_def)

lemma everyR_ends:
  assumes "\<And>x. x \<in> set xs \<Longrightarrow> \<exists>b. p x = Inr b"
  shows "\<exists>b. everyR p xs = Inr b"
  using assms
proof (induction xs)
  case (Cons x xs)
  then obtain b c where "p x = Inr b" "everyR p xs = Inr c" by force
  then show ?case by (cases b) auto
qed auto

lemma classifyTrust_ends:
  assumes "dirnameClimbs h"
  shows "\<exists>l. classifyTrust h r = Inr l"
proof (cases "trust r")
  case (WorkspaceTrust d)
  obtain b where "everyR (\<lambda>p. isWithinWorkspace h p d (cwd r)) (withDefault (raPaths (accessOf r)) []) = Inr b"
    using everyR_ends [of _ "\<lambda>p. isWithinWorkspace h p d (cwd r)"] isWithinWorkspace_ends [OF assms] by blast
  then show ?thesis by (simp add: classifyTrust_def WorkspaceTrust Let_def)
qed (simp_all add: classifyTrust_def)

end
