(* ===== verification/Security_Pipeline.thy ===== *)
theory Security_Pipeline
  imports Security_Classifier Security_Permissions
begin

text \<open>
  The rate limiter (\<^verbatim>\<open>packages/core/src/security/rate-limiter.ts\<close>), the execution guard
  (\<^verbatim>\<open>execution-guard.ts\<close>), the ceiling of tools (\<^verbatim>\<open>tool-ceiling.ts\<close>) and the pipeline of
  middlewares (\<^verbatim>\<open>security-pipeline.ts\<close>, \<^verbatim>\<open>path-resolve.ts\<close>, \<^verbatim>\<open>permission-matcher.ts\<close>).
\<close>

section \<open>Rate limiter\<close>

record rateLimiter =
  windowMs :: int
  maxCalls :: int
  stamps :: "(string, int list) omap"

record rateLimitResult =
  rlAllowed :: bool
  rlRemaining :: int
  rlUsed :: int
  rlWindowMs :: int
  rlLimit :: int

definition stampsOf :: "rateLimiter \<Rightarrow> string \<Rightarrow> int list" where
  "stampsOf l key = withDefault (map_of (stamps l) key) []"

definition validStamps :: "rateLimiter \<Rightarrow> int \<Rightarrow> string \<Rightarrow> int list" where
  "validStamps l current key = filter (\<lambda>t. t > current - windowMs l) (stampsOf l key)"

definition checkRate :: "int \<Rightarrow> string \<Rightarrow> rateLimiter \<Rightarrow> rateLimitResult \<times> rateLimiter" where
  "checkRate current key l =
     (let valid = validStamps l current key; used = int (length valid) in
      (\<lparr>rlAllowed = (used < maxCalls l), rlRemaining = max 0 (maxCalls l - used), rlUsed = used,
        rlWindowMs = windowMs l, rlLimit = maxCalls l\<rparr>,
       if length valid \<noteq> length (stampsOf l key) then l\<lparr>stamps := omap_set key valid (stamps l)\<rparr> else l))"

definition recordRate :: "int \<Rightarrow> string \<Rightarrow> rateLimiter \<Rightarrow> rateLimiter" where
  "recordRate current key l = l\<lparr>stamps := omap_set key (stampsOf l key @ [current]) (stamps l)\<rparr>"

definition resetRate :: "string option \<Rightarrow> rateLimiter \<Rightarrow> rateLimiter" where
  "resetRate key l =
     l\<lparr>stamps := (case key of None \<Rightarrow> [] | Some k \<Rightarrow> filter (\<lambda>e. fst e \<noteq> k) (stamps l))\<rparr>"

definition snapshotRate :: "int \<Rightarrow> rateLimiter \<Rightarrow> (string \<times> int \<times> int) list" where
  "snapshotRate current l =
     map (\<lambda>(key, ts). (key, int (length (filter (\<lambda>t. t > current - windowMs l) ts)), maxCalls l)) (stamps l)"

section \<open>Execution guard\<close>

text \<open>Tool names are no members of \<^verbatim>\<open>Object.prototype\<close>, so a profile is found by its own name only.\<close>

record toolExecutionProfile =
  profTimeoutMs :: int
  profMaxOutputBytes :: int

definition profile :: "int \<Rightarrow> int \<Rightarrow> toolExecutionProfile" where
  "profile t b = \<lparr>profTimeoutMs = t, profMaxOutputBytes = b\<rparr>"

definition KB :: int where "KB = 1024"

definition MB :: int where "MB = 1024 * KB"

definition MAX_LOG_QUERY_RESULT_BYTES :: int where
  "MAX_LOG_QUERY_RESULT_BYTES = 4 * MB"

definition DEFAULT_PROFILE :: toolExecutionProfile where
  "DEFAULT_PROFILE = profile 60000 (2 * MB)"

definition DEFAULT_TOOL_PROFILES :: "(string, toolExecutionProfile) omap" where
  "DEFAULT_TOOL_PROFILES =
     [(''log_search'', profile 60000 MAX_LOG_QUERY_RESULT_BYTES),
      (''log_read'', profile 60000 MAX_LOG_QUERY_RESULT_BYTES),
      (''bash'', profile 120000 (10 * MB)),
      (''shell'', profile 120000 (10 * MB)),
      (''read'', profile 10000 (5 * MB)),
      (''glob'', profile 10000 (2 * MB)),
      (''grep'', profile 30000 (5 * MB)),
      (''write'', profile 5000 (1 * MB)),
      (''edit'', profile 5000 (1 * MB)),
      (''multiedit'', profile 5000 (1 * MB))]"

definition mergeProfiles :: "(string \<times> int option \<times> int option) list \<Rightarrow> (string, toolExecutionProfile) omap" where
  "mergeProfiles overrides =
     fold (\<lambda>(key, t, b) result.
             let base = withDefault (map_of result (toLowerCase key)) DEFAULT_PROFILE in
             omap_set (toLowerCase key)
               (profile (withDefault t (profTimeoutMs base)) (withDefault b (profMaxOutputBytes base))) result)
       overrides DEFAULT_TOOL_PROFILES"

definition DEFAULT_RATE_WINDOW_MS :: int where "DEFAULT_RATE_WINDOW_MS = 60000"

definition DEFAULT_RATE_MAX_CALLS :: int where "DEFAULT_RATE_MAX_CALLS = 100"

definition newRateLimiter :: "int option \<Rightarrow> int option \<Rightarrow> rateLimiter" where
  "newRateLimiter w m =
     \<lparr>windowMs = withDefault w DEFAULT_RATE_WINDOW_MS, maxCalls = withDefault m DEFAULT_RATE_MAX_CALLS, stamps = []\<rparr>"

text \<open>\<^verbatim>\<open>Math.round(ms / 1000)\<close>\<close>

definition roundSeconds :: "int \<Rightarrow> int" where
  "roundSeconds ms = (ms + 500) div 1000"

section \<open>Ceiling of tools\<close>

text \<open>Tools are compared by identity; a ceiling is the predicate it permits.\<close>

definition restrictToolExecution :: "'t list \<Rightarrow> ('t \<Rightarrow> bool) option \<Rightarrow> 't \<Rightarrow> bool" where
  "restrictToolExecution tools parent tool \<longleftrightarrow>
     tool \<in> set tools \<and> (case parent of None \<Rightarrow> True | Some p \<Rightarrow> p tool)"

section \<open>Middlewares\<close>

text \<open>
  The parts that a pipeline shares with others, and what the clock shows when a call reads it.
  A middleware gets the context, the world and its continuation; a throw keeps the world.
\<close>

record world =
  limiter :: rateLimiter
  store :: permissionStore

record clock =
  atMatch :: int
  atCheck :: int
  atRecord :: int

type_synonym outcome = "(middlewareResult \<times> middlewareContext) js \<times> world"

type_synonym continuation = "middlewareContext \<Rightarrow> world \<Rightarrow> outcome"

datatype phase = PostExecute | Authorize | Guard

record middleware =
  mwName :: string
  mwPhase :: phase
  mwOrder :: int
  execute :: "middlewareContext \<Rightarrow> world \<Rightarrow> continuation \<Rightarrow> outcome"

fun PHASE_ORDER :: "phase \<Rightarrow> nat" where
  "PHASE_ORDER PostExecute = 0"
| "PHASE_ORDER Authorize = 1"
| "PHASE_ORDER Guard = 2"

abbreviation mapState :: "(middlewareState \<Rightarrow> middlewareState) \<Rightarrow> middlewareContext \<Rightarrow> middlewareContext" where
  "mapState f ctx \<equiv> ctx\<lparr>ctxState := f (ctxState ctx)\<rparr>"

definition shortCircuit :: "middlewareContext \<Rightarrow> securityDecision \<Rightarrow> operationClass option \<Rightarrow> permissionRule option \<Rightarrow> executionConstraints option \<Rightarrow> middlewareResult" where
  "shortCircuit ctx d cls rule cons =
     \<lparr>allowed = False, requiresConfirmation = False, resOperationClass = cls, resTrustLevel = None,
      resDecision = Some d, resMatchedRule = rule, resConstraints = cons, resReason = Some (reason d),
      resResolvedPaths = None\<rparr>"

subsection \<open>Command analysis and paths\<close>

definition analyzedAccess :: "string \<Rightarrow> resolvedAccess \<Rightarrow> resolvedAccess" where
  "analyzedAccess command existing =
     (let analysis = analyzeCommand command in
      existing\<lparr>raPaths := Some (mergeUnique (raPaths existing) (Some (accessedPaths analysis))),
        raHosts := Some (mergeUnique (raHosts existing) (Some (accessedHosts analysis))),
        raEnvVars := Some (mergeUnique (raEnvVars existing) (Some (usedEnvVars analysis))),
        raCommands := (case raCommands existing of Some cs \<Rightarrow> Some cs | None \<Rightarrow> Some [command]),
        commandAnalysis := Some analysis\<rparr>)"

definition inputText :: "middlewareContext \<Rightarrow> string \<Rightarrow> string" where
  "inputText ctx k = (case map_of (toolInput ctx) k of Some (JStr s) \<Rightarrow> s | _ \<Rightarrow> [])"

definition analyzeRequest :: "middlewareContext \<Rightarrow> middlewareContext" where
  "analyzeRequest ctx =
     (let command = inputText ctx ''command'' in
      if \<not> isShellTool (toLowerCase (ctxToolName ctx)) \<or> command = [] then ctx
      else ctx\<lparr>request := (request ctx)\<lparr>resolved := Some (analyzedAccess command (accessOf (request ctx)))\<rparr>\<rparr>)"

definition commandAnalyzer :: middleware where
  "commandAnalyzer = \<lparr>mwName = ''CommandAnalyzer'', mwPhase = Authorize, mwOrder = -10,
     execute = (\<lambda>ctx w next. next (analyzeRequest ctx) w)\<rparr>"

definition PATH_ARG_KEYS :: "string list" where
  "PATH_ARG_KEYS = [''path'', ''file_path'', ''target'', ''destination'']"

definition rawPaths :: "middlewareContext \<Rightarrow> string list" where
  "rawPaths ctx =
     setOf (filter (\<lambda>s. s \<noteq> []) (map (inputText ctx) PATH_ARG_KEYS) @
            withDefault (raPaths (accessOf (request ctx))) [])"

fun resolveAll :: "host \<Rightarrow> string \<Rightarrow> string list \<Rightarrow> string list js" where
  "resolveAll h dir [] = Inr []"
| "resolveAll h dir (p # ps) =
     andThen (resolvePath h p dir) (\<lambda>q. andThen (resolveAll h dir ps) (\<lambda>qs. Inr (q # qs)))"

definition withPaths :: "string list \<Rightarrow> middlewareContext \<Rightarrow> middlewareContext" where
  "withPaths ps ctx =
     ctx\<lparr>request := (request ctx)\<lparr>resolved := Some ((accessOf (request ctx))\<lparr>raPaths := Some ps\<rparr>)\<rparr>,
         ctxState := (ctxState ctx)\<lparr>stResolvedPaths := Some ps\<rparr>\<rparr>"

definition pathResolver :: "host \<Rightarrow> middleware" where
  "pathResolver h = \<lparr>mwName = ''PathResolve'', mwPhase = Authorize, mwOrder = -5,
     execute = (\<lambda>ctx w next.
       if rawPaths ctx = [] then next ctx w
       else case resolveAll h (cwd (request ctx)) (rawPaths ctx) of
              Inl e \<Rightarrow> (Inl e, w)
            | Inr ps \<Rightarrow> next (withPaths ps ctx) w)\<rparr>"

subsection \<open>Policy, class and trust\<close>

definition policyEvaluator :: "host \<Rightarrow> policyEngine \<Rightarrow> middleware" where
  "policyEvaluator h engine = \<lparr>mwName = ''PolicyEvaluator'', mwPhase = Authorize, mwOrder = 0,
     execute = (\<lambda>ctx w next.
       case evaluatePolicy h engine (request ctx) of
         Inl e \<Rightarrow> (Inl e, w)
       | Inr d \<Rightarrow>
           let ctx' = mapState (\<lambda>s. s\<lparr>stDecision := Some d\<rparr>) ctx in
           if action d = Block then (Inr (shortCircuit ctx' d None None None, ctx'), w) else next ctx' w)\<rparr>"

definition maxRisk :: "riskLevel \<Rightarrow> riskLevel \<Rightarrow> riskLevel" where
  "maxRisk a b = (if riskIndex a \<ge> riskIndex b then a else b)"

definition upgradeDecision :: "securityDecision option \<Rightarrow> operationClass \<Rightarrow> securityDecision" where
  "upgradeDecision current cls =
     (let risk = (if cls = OpCritical then Critical else Medium) in
      \<lparr>action = Confirm,
       matchedRules = (case current of Some d \<Rightarrow> matchedRules d | None \<Rightarrow> []),
       reason = (case current of Some d \<Rightarrow> reason d | None \<Rightarrow> ImpactReason cls),
       riskLevel = (case current of Some d \<Rightarrow> maxRisk (riskLevel d) risk | None \<Rightarrow> risk),
       suggestion = (case current of Some d \<Rightarrow> suggestion d | None \<Rightarrow> None)\<rparr>)"

definition classifiedState :: "operationClass \<Rightarrow> middlewareState \<Rightarrow> middlewareState" where
  "classifiedState cls s =
     (let s' = s\<lparr>stOperationClass := Some cls\<rparr> in
      if cls = External \<or> cls = OpCritical
      then (case stDecision s of
              None \<Rightarrow> s'\<lparr>stDecision := Some (upgradeDecision None cls)\<rparr>
            | Some d \<Rightarrow> if action d = Allow then s'\<lparr>stDecision := Some (upgradeDecision (Some d) cls)\<rparr> else s')
      else s')"

definition operationClassifier :: "classifier \<Rightarrow> middleware" where
  "operationClassifier classify = \<lparr>mwName = ''OperationClassifier'', mwPhase = Authorize, mwOrder = 10,
     execute = (\<lambda>ctx w next.
       case classify (request ctx) of
         Inl e \<Rightarrow> (Inl e, w)
       | Inr cls \<Rightarrow> next (mapState (classifiedState cls) ctx) w)\<rparr>"

definition trustClassifier :: "host \<Rightarrow> middleware" where
  "trustClassifier h = \<lparr>mwName = ''TrustClassifier'', mwPhase = Authorize, mwOrder = 15,
     execute = (\<lambda>ctx w next.
       case classifyTrust h (request ctx) of
         Inl e \<Rightarrow> (Inl e, w)
       | Inr level \<Rightarrow> next (mapState (\<lambda>s. s\<lparr>stTrustLevel := Some level\<rparr>) ctx) w)\<rparr>"

subsection \<open>Permissions\<close>

text \<open>
  The source of rules is the store bound to a context, or the empty one; frozen rules of an
  assignment are matched without the store.
\<close>

definition lookupRule ::
  "(securityRequest \<Rightarrow> string) \<Rightarrow> permissionContextId option \<Rightarrow> int \<Rightarrow> middlewareContext \<Rightarrow> world \<Rightarrow> (permissionRule option \<times> world) js" where
  "lookupRule extract source now ctx w =
     (case source of
        None \<Rightarrow> Inr (None, w)
      | Some c \<Rightarrow>
          (case permissionRules ctx of
             Some rules \<Rightarrow> Inr (boundMatchFrozen extract now c rules (request ctx), w)
           | None \<Rightarrow>
               andThen (matchRule extract now c (request ctx) (store w)) (\<lambda>(rule, s). Inr (rule, w\<lparr>store := s\<rparr>))))"

definition applyRule :: "permissionRule option \<Rightarrow> securityDecision \<Rightarrow> middlewareContext \<Rightarrow> (middlewareResult option \<times> middlewareContext)" where
  "applyRule matched current ctx =
     (case matched of
        None \<Rightarrow> (None, ctx)
      | Some rule \<Rightarrow>
          let ctx' = mapState (\<lambda>s. s\<lparr>stMatchedRule := Some rule\<rparr>) ctx in
          if decision rule = PermitAllow then
            if list_ex bypassImmune (matchedRules current) then (None, ctx')
            else (None, mapState (\<lambda>s. s\<lparr>stDecision := Some (current\<lparr>action := Allow,
                   reason := PermittedBy (patTool rule) (patArgument rule) (scope rule)\<rparr>)\<rparr>) ctx')
          else
            let d = current\<lparr>action := Block, reason := DeniedBy (patTool rule) (patArgument rule) (scope rule)\<rparr>;
                ctx'' = mapState (\<lambda>s. s\<lparr>stDecision := Some d\<rparr>) ctx'
            in (Some (shortCircuit ctx'' d (stOperationClass (ctxState ctx)) (Some rule) None), ctx''))"

definition permissionMatcher ::
  "(securityRequest \<Rightarrow> string) \<Rightarrow> permissionContextId option \<Rightarrow> int \<Rightarrow> middleware" where
  "permissionMatcher extract source now = \<lparr>mwName = ''PermissionMatcher'', mwPhase = Authorize, mwOrder = 20,
     execute = (\<lambda>ctx w next.
       case stDecision (ctxState ctx) of
         None \<Rightarrow> next ctx w
       | Some current \<Rightarrow>
           if action current \<noteq> Confirm then next ctx w
           else case lookupRule extract source now ctx w of
                  Inl e \<Rightarrow> (Inl e, w)
                | Inr (matched, w') \<Rightarrow>
                    (case applyRule matched current ctx of
                       (Some result, ctx') \<Rightarrow> (Inr (result, ctx'), w')
                     | (None, ctx') \<Rightarrow> next ctx' w'))\<rparr>"

subsection \<open>Execution guard\<close>

definition constraintsOf :: "toolExecutionProfile \<Rightarrow> rateLimitResult \<Rightarrow> executionConstraints" where
  "constraintsOf p rate =
     \<lparr>timeoutMs = profTimeoutMs p, maxOutputBytes = profMaxOutputBytes p, rateLimited = (\<not> rlAllowed rate),
      rateRemaining = rlRemaining rate, rateWindowMs = rlWindowMs rate, rateLimit = rlLimit rate\<rparr>"

definition rateBlock :: "string \<Rightarrow> rateLimitResult \<Rightarrow> securityDecision option \<Rightarrow> securityDecision" where
  "rateBlock tool rate current =
     \<lparr>action = Block, matchedRules = (case current of Some d \<Rightarrow> matchedRules d | None \<Rightarrow> []),
      reason = RateExceeded tool (rlLimit rate) (roundSeconds (rlWindowMs rate)),
      riskLevel = (case current of Some d \<Rightarrow> riskLevel d | None \<Rightarrow> Medium),
      suggestion = (case current of Some d \<Rightarrow> suggestion d | None \<Rightarrow> None)\<rparr>"

definition executionGuard :: "(string, toolExecutionProfile) omap \<Rightarrow> int \<Rightarrow> int \<Rightarrow> middleware" where
  "executionGuard profiles tCheck tRecord = \<lparr>mwName = ''ExecutionGuard'', mwPhase = Guard, mwOrder = 30,
     execute = (\<lambda>ctx w next.
       let tool = toLowerCase (ctxToolName ctx);
           p = withDefault (map_of profiles tool) DEFAULT_PROFILE;
           (rate, l) = checkRate tCheck tool (limiter w);
           cons = constraintsOf p rate;
           ctx' = mapState (\<lambda>s. s\<lparr>stConstraints := Some cons\<rparr>) ctx
       in if \<not> rlAllowed rate
          then let d = rateBlock tool rate (stDecision (ctxState ctx));
                   ctx'' = mapState (\<lambda>s. s\<lparr>stDecision := Some d\<rparr>) ctx'
               in (Inr (shortCircuit ctx'' d (stOperationClass (ctxState ctx)) None (Some cons), ctx''), w\<lparr>limiter := l\<rparr>)
          else next ctx' (w\<lparr>limiter := recordRate tRecord tool l\<rparr>))\<rparr>"

section \<open>The pipeline\<close>

definition buildFinalResult :: "middlewareContext \<Rightarrow> middlewareResult" where
  "buildFinalResult ctx =
     (let s = ctxState ctx; act = (case stDecision s of Some d \<Rightarrow> action d | None \<Rightarrow> Allow) in
      \<lparr>allowed = (act \<noteq> Block), requiresConfirmation = (act = Confirm),
       resOperationClass = stOperationClass s, resTrustLevel = stTrustLevel s, resDecision = stDecision s,
       resMatchedRule = stMatchedRule s, resConstraints = stConstraints s,
       resReason = map_option reason (stDecision s), resResolvedPaths = stResolvedPaths s\<rparr>)"

fun runPipeline :: "middleware list \<Rightarrow> continuation" where
  "runPipeline [] ctx w = (Inr (buildFinalResult ctx, ctx), w)"
| "runPipeline (m # ms) ctx w = execute m ctx w (runPipeline ms)"

record pipeline =
  engine :: policyEngine
  classify :: classifier
  ruleSource :: "permissionContextId option"
  extractFn :: "securityRequest \<Rightarrow> string"
  profiles :: "(string, toolExecutionProfile) omap"
  pipeSession :: sessionType
  pipeTrust :: trustContext
  extraMiddlewares :: "middleware list"

definition beforeMiddleware :: "middleware \<Rightarrow> middleware \<Rightarrow> bool" where
  "beforeMiddleware a b \<longleftrightarrow>
     PHASE_ORDER (mwPhase a) < PHASE_ORDER (mwPhase b) \<or>
     PHASE_ORDER (mwPhase a) = PHASE_ORDER (mwPhase b) \<and> mwOrder a \<le> mwOrder b"

definition middlewaresOf :: "host \<Rightarrow> clock \<Rightarrow> pipeline \<Rightarrow> middleware list" where
  "middlewaresOf h t p =
     sort_by beforeMiddleware
       ([commandAnalyzer, pathResolver h, policyEvaluator h (engine p), operationClassifier (classify p),
         trustClassifier h, permissionMatcher (extractFn p) (ruleSource p) (atMatch t),
         executionGuard (profiles p) (atCheck t) (atRecord t)] @ extraMiddlewares p)"

definition emptyState :: middlewareState where
  "emptyState = \<lparr>stDecision = None, stOperationClass = None, stTrustLevel = None, stMatchedRule = None,
     stConstraints = None, stResolvedPaths = None\<rparr>"

definition startContext ::
  "pipeline \<Rightarrow> string \<Rightarrow> (string, json) omap \<Rightarrow> string \<Rightarrow> permissionRule list option \<Rightarrow> middlewareContext" where
  "startContext p tool input dir rules =
     \<lparr>request = \<lparr>reqTool = tool, reqArguments = input, cwd = dir, trust = pipeTrust p, sessionType = pipeSession p,
        resolved = None\<rparr>,
      ctxToolName = tool, toolInput = input, workingDirectory = dir, permissionRules = rules, ctxState = emptyState\<rparr>"

definition evaluate ::
  "host \<Rightarrow> pipeline \<Rightarrow> clock \<Rightarrow> string \<Rightarrow> (string, json) omap \<Rightarrow> string \<Rightarrow> permissionRule list option \<Rightarrow> world \<Rightarrow> outcome" where
  "evaluate h p t tool input dir rules w =
     runPipeline (middlewaresOf h t p) (startContext p tool input dir rules) w"

text \<open>The constructor, with the options of the source; without a classifier the default one is built.\<close>

definition newPipeline ::
  "host \<Rightarrow> string list \<Rightarrow> classifier option \<Rightarrow> (string \<Rightarrow> boundaryCrossing list option) option \<Rightarrow> permissionContextId option \<Rightarrow>
   (securityRequest \<Rightarrow> string) \<Rightarrow> (string \<times> int option \<times> int option) list \<Rightarrow> sessionType option \<Rightarrow> trustContext option \<Rightarrow>
   middleware list \<Rightarrow> pipeline js" where
  "newPipeline h systemPaths cls registry source extract overrides session tr extra =
     andThen (newPolicyEngine h systemPaths) (\<lambda>e.
       Inr \<lparr>engine = e,
            classify = withDefault cls (compositeClassify (createDefaultClassifier (withDefault registry EMPTY_BOUNDARY_REGISTRY))),
            ruleSource = source, extractFn = extract, profiles = mergeProfiles overrides,
            pipeSession = withDefault session Interactive, pipeTrust = withDefault tr GlobalTrust,
            extraMiddlewares = extra\<rparr>)"

end
