(* ===== verification/Security_Decisions.thy ===== *)
theory Security_Decisions
  imports Security_Rules Security_Sources Security_Pipeline
begin

text \<open>
  The default pipeline against an abstract decision procedure: which of the three verdicts a
  tool call gets, as a function of the policy, the class, the rule found and the rate.
\<close>

section \<open>Order of the middlewares\<close>

lemma middleware_places [simp]:
  "mwPhase commandAnalyzer = Authorize" "mwOrder commandAnalyzer = -10"
  "mwPhase (pathResolver h) = Authorize" "mwOrder (pathResolver h) = -5"
  "mwPhase (policyEvaluator h e) = Authorize" "mwOrder (policyEvaluator h e) = 0"
  "mwPhase (operationClassifier c) = Authorize" "mwOrder (operationClassifier c) = 10"
  "mwPhase (trustClassifier h) = Authorize" "mwOrder (trustClassifier h) = 15"
  "mwPhase (permissionMatcher ex src now) = Authorize" "mwOrder (permissionMatcher ex src now) = 20"
  "mwPhase (executionGuard ps t1 t2) = Guard" "mwOrder (executionGuard ps t1 t2) = 30"
  by (simp_all add: commandAnalyzer_def pathResolver_def policyEvaluator_def operationClassifier_def
      trustClassifier_def permissionMatcher_def executionGuard_def)

lemma default_middlewares:
  "extraMiddlewares p = [] \<Longrightarrow> middlewaresOf h t p =
     [commandAnalyzer, pathResolver h, policyEvaluator h (engine p), operationClassifier (classify p),
      trustClassifier h, permissionMatcher (extractFn p) (ruleSource p) (atMatch t),
      executionGuard (profiles p) (atCheck t) (atRecord t)]"
  by (simp add: middlewaresOf_def sort_by_def beforeMiddleware_def)

section \<open>The abstract decision\<close>

datatype verdict = Blocked | AskUser | AutoAllowed

definition verdictOf :: "middlewareResult \<Rightarrow> verdict" where
  "verdictOf res = (if \<not> allowed res then Blocked else if requiresConfirmation res then AskUser else AutoAllowed)"

definition verdictOfOutcome :: "outcome \<Rightarrow> verdict js" where
  "verdictOfOutcome out = andThen (fst out) (\<lambda>(res, ctx). Inr (verdictOf res))"

text \<open>The request as the policy sees it: analysed, with resolved paths.\<close>

definition preparedContext :: "host \<Rightarrow> pipeline \<Rightarrow> string \<Rightarrow> (string, json) omap \<Rightarrow> string \<Rightarrow> permissionRule list option \<Rightarrow> middlewareContext js" where
  "preparedContext h p tool input dir rules =
     (let ctx = analyzeRequest (startContext p tool input dir rules) in
      if rawPaths ctx = [] then Inr ctx
      else andThen (resolveAll h dir (rawPaths ctx)) (\<lambda>ps. Inr (withPaths ps ctx)))"

definition preparedRequest :: "host \<Rightarrow> pipeline \<Rightarrow> string \<Rightarrow> (string, json) omap \<Rightarrow> string \<Rightarrow> securityRequest js" where
  "preparedRequest h p tool input dir = andThen (preparedContext h p tool input dir None) (\<lambda>ctx. Inr (request ctx))"

definition withinRate :: "clock \<Rightarrow> string \<Rightarrow> world \<Rightarrow> bool" where
  "withinRate t tool w = rlAllowed (fst (checkRate (atCheck t) (toLowerCase tool) (limiter w)))"

definition ruleFor :: "pipeline \<Rightarrow> clock \<Rightarrow> permissionRule list option \<Rightarrow> securityRequest \<Rightarrow> world \<Rightarrow> permissionRule option js" where
  "ruleFor p t rules r w =
     (case ruleSource p of
        None \<Rightarrow> Inr None
      | Some c \<Rightarrow>
          (case rules of
             Some rs \<Rightarrow> Inr (boundMatchFrozen (extractFn p) (atMatch t) c rs r)
           | None \<Rightarrow> andThen (matchRule (extractFn p) (atMatch t) c r (store w)) (\<lambda>(rule, s). Inr rule)))"

definition reachesOut :: "operationClass \<Rightarrow> bool" where
  "reachesOut cls \<longleftrightarrow> cls = External \<or> cls = OpCritical"

definition ruleVerdict :: "securityRule list \<Rightarrow> permissionRule option \<Rightarrow> verdict" where
  "ruleVerdict matched rule =
     (case rule of
        None \<Rightarrow> AskUser
      | Some x \<Rightarrow>
          if decision x = PermitDeny then Blocked
          else if list_ex bypassImmune matched then AskUser else AutoAllowed)"

definition abstractVerdict ::
  "host \<Rightarrow> pipeline \<Rightarrow> clock \<Rightarrow> string \<Rightarrow> (string, json) omap \<Rightarrow> string \<Rightarrow> permissionRule list option \<Rightarrow> world \<Rightarrow> verdict js" where
  "abstractVerdict h p t tool input dir rules w =
     andThen (preparedRequest h p tool input dir) (\<lambda>r.
     andThen (evaluatePolicy h (engine p) r) (\<lambda>d.
       if action d = Block then Inr Blocked
       else andThen (classify p r) (\<lambda>cls.
            andThen (classifyTrust h r) (\<lambda>level.
            andThen (if action d = Allow \<and> \<not> reachesOut cls then Inr AutoAllowed
                     else andThen (ruleFor p t rules r w) (\<lambda>rule. Inr (ruleVerdict (matchedRules d) rule))) (\<lambda>v.
              Inr (if withinRate t tool w then v else Blocked))))))"

section \<open>The steps of the pipeline\<close>

lemma lookupRule_ruleFor:
  "andThen (lookupRule (extractFn p) (ruleSource p) (atMatch t) ctx w) (\<lambda>(rule, w'). Inr rule) =
     ruleFor p t (permissionRules ctx) (request ctx) w"
proof (cases "ruleSource p")
  case (Some c)
  then show ?thesis
    by (cases "permissionRules ctx"; cases "matchRule (extractFn p) (atMatch t) c (request ctx) (store w)")
       (auto simp: lookupRule_def ruleFor_def)
qed (simp add: lookupRule_def ruleFor_def)

lemma lookupRule_limiter: "lookupRule extract src now ctx w = Inr (rule, w') \<Longrightarrow> limiter w' = limiter w"
  by (auto simp: lookupRule_def andThen_eq_Inr split: option.splits)

lemma guard_verdict:
  "verdictOfOutcome (runPipeline [executionGuard ps (atCheck t) t2] ctx w) =
     Inr (if \<not> withinRate t (ctxToolName ctx) w then Blocked
          else case stDecision (ctxState ctx) of
                 None \<Rightarrow> AutoAllowed
               | Some d \<Rightarrow> (case action d of Block \<Rightarrow> Blocked | Confirm \<Rightarrow> AskUser | Allow \<Rightarrow> AutoAllowed))"
  by (auto simp: executionGuard_def withinRate_def Let_def verdictOfOutcome_def verdictOf_def shortCircuit_def
      buildFinalResult_def split: prod.split option.split securityAction.split)

lemma matcher_verdict:
  assumes "stDecision (ctxState ctx) = Some d"
  shows "verdictOfOutcome (runPipeline [permissionMatcher (extractFn p) (ruleSource p) (atMatch t), executionGuard ps (atCheck t) t2] ctx w) =
    andThen (case action d of Block \<Rightarrow> Inr Blocked | Allow \<Rightarrow> Inr AutoAllowed
       | Confirm \<Rightarrow> andThen (ruleFor p t (permissionRules ctx) (request ctx) w) (\<lambda>rule. Inr (ruleVerdict (matchedRules d) rule)))
     (\<lambda>v. Inr (if withinRate t (ctxToolName ctx) w then v else Blocked))"
proof (cases "action d = Confirm")
  case False
  then show ?thesis
    using guard_verdict [of ps t t2 ctx w] assms
    by (auto simp: permissionMatcher_def simp del: runPipeline.simps(2) split: securityAction.split)
       (auto simp: permissionMatcher_def split: securityAction.splits)
next
  case True
  show ?thesis
  proof (cases "lookupRule (extractFn p) (ruleSource p) (atMatch t) ctx w")
    case (Inl e)
    then have "ruleFor p t (permissionRules ctx) (request ctx) w = Inl e"
      using lookupRule_ruleFor [of p t ctx w] by simp
    then show ?thesis using True Inl assms by (simp add: permissionMatcher_def verdictOfOutcome_def)
  next
    case (Inr q)
    obtain rule w' where q: "q = (rule, w')" by (cases q)
    have rf: "ruleFor p t (permissionRules ctx) (request ctx) w = Inr rule"
      using lookupRule_ruleFor [of p t ctx w] Inr q by simp
    have lim: "withinRate t tool w' = withinRate t tool w" for tool
      using lookupRule_limiter Inr q by (fastforce simp: withinRate_def)
    have run: "runPipeline [permissionMatcher (extractFn p) (ruleSource p) (atMatch t), executionGuard ps (atCheck t) t2] ctx w =
        (case applyRule rule d ctx of
           (Some result, ctx') \<Rightarrow> (Inr (result, ctx'), w')
         | (None, ctx') \<Rightarrow> runPipeline [executionGuard ps (atCheck t) t2] ctx' w')"
      using True Inr q assms by (simp add: permissionMatcher_def)
    show ?thesis
    proof (cases rule)
      case None
      then show ?thesis
        using guard_verdict [of ps t t2 ctx w'] run rf True assms lim by (simp add: applyRule_def ruleVerdict_def)
    next
      case (Some x)
      show ?thesis
      proof (cases "decision x")
        case PermitDeny
        then show ?thesis
          using run rf True by (simp add: Some applyRule_def ruleVerdict_def Let_def verdictOfOutcome_def verdictOf_def shortCircuit_def)
      next
        case PermitAllow
        obtain ctx' where ap: "applyRule rule d ctx = (None, ctx')" and ctx': "ctxToolName ctx' = ctxToolName ctx"
            "\<exists>d'. stDecision (ctxState ctx') = Some d' \<and> action d' = (if list_ex bypassImmune (matchedRules d) then Confirm else Allow)"
        proof -
          have "\<exists>ctx'. applyRule rule d ctx = (None, ctx') \<and> ctxToolName ctx' = ctxToolName ctx \<and>
              (\<exists>d'. stDecision (ctxState ctx') = Some d' \<and> action d' = (if list_ex bypassImmune (matchedRules d) then Confirm else Allow))"
            using PermitAllow assms True
            by (cases "list_ex bypassImmune (matchedRules d)") (simp_all add: Some applyRule_def Let_def)
          then show ?thesis using that by blast
        qed
        then show ?thesis
          using guard_verdict [of ps t t2 ctx' w'] run rf True lim PermitAllow by (auto simp: Some ruleVerdict_def)
      qed
    qed
  qed
qed

section \<open>Refinement\<close>

lemma classified_decision:
  assumes "stDecision s = Some d" and "action d \<noteq> Block"
  obtains d' where "stDecision (classifiedState cls s) = Some d'" "matchedRules d' = matchedRules d"
    "action d' = (if action d = Allow \<and> \<not> reachesOut cls then Allow else Confirm)"
proof -
  have "\<exists>d'. stDecision (classifiedState cls s) = Some d' \<and> matchedRules d' = matchedRules d \<and>
      action d' = (if action d = Allow \<and> \<not> reachesOut cls then Allow else Confirm)"
    using assms by (cases "action d") (auto simp: classifiedState_def reachesOut_def upgradeDecision_def Let_def)
  then show ?thesis using that by blast
qed

definition withRules :: "permissionRule list option \<Rightarrow> middlewareContext \<Rightarrow> middlewareContext" where
  "withRules rules ctx = ctx\<lparr>permissionRules := rules\<rparr>"

lemma withRules_parts:
  "startContext p tool input dir rules = withRules rules (startContext p tool input dir None)"
  "analyzeRequest (withRules rules ctx) = withRules rules (analyzeRequest ctx)"
  "rawPaths (withRules rules ctx) = rawPaths ctx"
  "withPaths ps (withRules rules ctx) = withRules rules (withPaths ps ctx)"
  "request (withRules rules ctx) = request ctx"
  by (simp_all add: withRules_def startContext_def analyzeRequest_def rawPaths_def withPaths_def inputText_def
      PATH_ARG_KEYS_def Let_def)

lemma prepared_rules:
  "preparedContext h p tool input dir rules =
     andThen (preparedContext h p tool input dir None) (\<lambda>ctx. Inr (withRules rules ctx))"
  by (cases "resolveAll h dir (rawPaths (analyzeRequest (startContext p tool input dir None)))")
     (simp_all add: preparedContext_def withRules_parts(1) [of p tool input dir rules] withRules_parts(2-) Let_def)

lemma prepared_parts:
  assumes "preparedContext h p tool input dir rules = Inr ctx"
  shows "ctxToolName ctx = tool" "permissionRules ctx = rules"
    "stDecision (ctxState ctx) = None"
  using assms
  by (auto simp: preparedContext_def andThen_eq_Inr Let_def withPaths_def analyzeRequest_def startContext_def emptyState_def
      split: if_splits)

lemma cwd_analyzed: "cwd (request (analyzeRequest (startContext p tool input dir rules))) = dir"
  by (simp add: analyzeRequest_def startContext_def Let_def)

lemma evaluate_prepared:
  assumes "extraMiddlewares p = []"
  shows "verdictOfOutcome (evaluate h p t tool input dir rules w) =
    andThen (preparedContext h p tool input dir rules) (\<lambda>ctx.
      verdictOfOutcome (runPipeline
        [policyEvaluator h (engine p), operationClassifier (classify p), trustClassifier h,
         permissionMatcher (extractFn p) (ruleSource p) (atMatch t), executionGuard (profiles p) (atCheck t) (atRecord t)] ctx w))"
  by (cases "resolveAll h dir (rawPaths (analyzeRequest (startContext p tool input dir rules)))")
     (auto simp: evaluate_def default_middlewares [OF assms] commandAnalyzer_def pathResolver_def preparedContext_def
       cwd_analyzed verdictOfOutcome_def Let_def)

lemma policy_verdict:
  assumes "stDecision (ctxState ctx) = None"
  shows "verdictOfOutcome (runPipeline
        [policyEvaluator h (engine p), operationClassifier (classify p), trustClassifier h,
         permissionMatcher (extractFn p) (ruleSource p) (atMatch t), executionGuard (profiles p) (atCheck t) (atRecord t)] ctx w) =
    andThen (evaluatePolicy h (engine p) (request ctx)) (\<lambda>d.
       if action d = Block then Inr Blocked
       else andThen (classify p (request ctx)) (\<lambda>cls.
            andThen (classifyTrust h (request ctx)) (\<lambda>level.
            andThen (if action d = Allow \<and> \<not> reachesOut cls then Inr AutoAllowed
                     else andThen (ruleFor p t (permissionRules ctx) (request ctx) w) (\<lambda>rule. Inr (ruleVerdict (matchedRules d) rule))) (\<lambda>v.
              Inr (if withinRate t (ctxToolName ctx) w then v else Blocked)))))"
proof (cases "evaluatePolicy h (engine p) (request ctx)")
  case (Inr d)
  note pol = this
  let ?rest = "[permissionMatcher (extractFn p) (ruleSource p) (atMatch t), executionGuard (profiles p) (atCheck t) (atRecord t)]"
  show ?thesis
  proof (cases "action d = Block")
    case True
    then show ?thesis
      by (simp add: policyEvaluator_def pol verdictOfOutcome_def verdictOf_def shortCircuit_def)
  next
    case False
    show ?thesis
    proof (cases "classify p (request ctx)")
      case (Inr cls)
      note cl = this
      show ?thesis
      proof (cases "classifyTrust h (request ctx)")
        case (Inr level)
        let ?ctx = "mapState (\<lambda>s. s\<lparr>stTrustLevel := Some level\<rparr>)
            (mapState (classifiedState cls) (mapState (\<lambda>s. s\<lparr>stDecision := Some d\<rparr>) ctx))"
        have run: "runPipeline (policyEvaluator h (engine p) # operationClassifier (classify p) # trustClassifier h # ?rest) ctx w =
            runPipeline ?rest ?ctx w"
          using False pol cl Inr
          by (simp add: policyEvaluator_def operationClassifier_def trustClassifier_def Let_def del: runPipeline.simps(1))
        obtain d' where d': "stDecision (ctxState ?ctx) = Some d'" "matchedRules d' = matchedRules d"
          "action d' = (if action d = Allow \<and> \<not> reachesOut cls then Allow else Confirm)"
          using classified_decision [of "(ctxState ctx)\<lparr>stDecision := Some d\<rparr>" d cls] False by auto
        show ?thesis
          using matcher_verdict [OF d'(1), where p = p and t = t and w = w and ps = "profiles p" and ?t2.0 = "atRecord t"] False pol cl Inr
          unfolding run d'(2,3) by simp
      qed (use False pol cl in \<open>simp add: policyEvaluator_def operationClassifier_def trustClassifier_def Let_def verdictOfOutcome_def\<close>)
    qed (use False pol in \<open>simp add: policyEvaluator_def operationClassifier_def Let_def verdictOfOutcome_def\<close>)
  qed
qed (simp add: policyEvaluator_def verdictOfOutcome_def)

lemma evaluate_refines:
  assumes "extraMiddlewares p = []"
  shows "verdictOfOutcome (evaluate h p t tool input dir rules w) = abstractVerdict h p t tool input dir rules w"
proof (cases "preparedContext h p tool input dir None")
  case (Inl e)
  then show ?thesis
    by (simp add: evaluate_prepared [OF assms] prepared_rules [of h p tool input dir rules] abstractVerdict_def preparedRequest_def)
next
  case (Inr ctx)
  have pc: "preparedContext h p tool input dir rules = Inr (withRules rules ctx)"
    by (simp add: prepared_rules [of h p tool input dir rules] Inr)
  note parts = prepared_parts [OF pc]
  show ?thesis
    by (simp add: evaluate_prepared [OF assms] pc policy_verdict [OF parts(3)] parts(1,2) withRules_parts(5)
        abstractVerdict_def preparedRequest_def Inr del: runPipeline.simps cong: if_cong)
qed

end
