(* ===== verification/Security_Rate.thy ===== *)
theory Security_Rate
  imports Security_Decisions
begin

text \<open>
  The rate limiter under a sequence of evaluations: how often a call of one tool gets through in
  any window of time.
\<close>

section \<open>One evaluation\<close>

definition passed :: "outcome \<Rightarrow> bool" where
  "passed out \<longleftrightarrow> (\<exists>v. verdictOfOutcome out = Inr v \<and> v \<noteq> Blocked)"

definition recorded :: "clock \<Rightarrow> string \<Rightarrow> rateLimiter \<Rightarrow> rateLimiter" where
  "recorded t key l = recordRate (atRecord t) key (snd (checkRate (atCheck t) key l))"

definition guardedBy :: "clock \<Rightarrow> string \<Rightarrow> rateLimiter \<Rightarrow> outcome \<Rightarrow> bool" where
  "guardedBy t key l out \<longleftrightarrow>
     rlAllowed (fst (checkRate (atCheck t) key l)) \<and> limiter (snd out) = recorded t key l \<or>
     \<not> passed out \<and> limiter (snd out) \<in> {l, snd (checkRate (atCheck t) key l)}"

lemma not_passed [simp]: "\<not> passed (Inl e, w)" "\<not> allowed res \<Longrightarrow> \<not> passed (Inr (res, ctx), w)"
  by (simp_all add: passed_def verdictOfOutcome_def verdictOf_def)

lemma shortCircuit_allowed [simp]: "\<not> allowed (shortCircuit ctx d c m k)"
  by (simp add: shortCircuit_def)

lemma guard_guarded:
  "guardedBy t (toLowerCase (ctxToolName ctx)) (limiter w) (runPipeline [executionGuard ps (atCheck t) (atRecord t)] ctx w)"
  by (auto simp: executionGuard_def Let_def guardedBy_def recorded_def split: prod.split)

lemma matcher_guarded:
  "guardedBy t (toLowerCase (ctxToolName ctx)) (limiter w)
     (runPipeline [permissionMatcher ex src now, executionGuard ps (atCheck t) (atRecord t)] ctx w)"
proof -
  let ?g = "[executionGuard ps (atCheck t) (atRecord t)]"
  have pass: "guardedBy t (toLowerCase (ctxToolName ctx)) (limiter w) (runPipeline ?g ctx' w')"
    if "ctxToolName ctx' = ctxToolName ctx" "limiter w' = limiter w" for ctx' w'
    using guard_guarded [of t ctx' w' ps] that by simp
  show ?thesis
  proof (cases "\<exists>d. stDecision (ctxState ctx) = Some d \<and> action d = Confirm")
    case False
    then have "runPipeline (permissionMatcher ex src now # ?g) ctx w = runPipeline ?g ctx w"
      by (auto simp: permissionMatcher_def split: option.split)
    then show ?thesis using pass by simp
  next
    case True
    then obtain d where d: "stDecision (ctxState ctx) = Some d" "action d = Confirm" by blast
    show ?thesis
    proof (cases "lookupRule ex src now ctx w")
      case (Inl e)
      then show ?thesis by (simp add: permissionMatcher_def d guardedBy_def)
    next
      case (Inr q)
      obtain rule w' where q: "q = (rule, w')" by (cases q)
      have lim: "limiter w' = limiter w" using lookupRule_limiter Inr q by blast
      have run: "runPipeline (permissionMatcher ex src now # ?g) ctx w =
          (case applyRule rule d ctx of
             (Some result, ctx') \<Rightarrow> (Inr (result, ctx'), w')
           | (None, ctx') \<Rightarrow> runPipeline ?g ctx' w')"
        using Inr q d by (simp add: permissionMatcher_def)
      consider (stop) res ctx' where "applyRule rule d ctx = (Some res, ctx')" "\<not> allowed res"
        | (go) ctx' where "applyRule rule d ctx = (None, ctx')" "ctxToolName ctx' = ctxToolName ctx"
      proof (cases rule)
        case (Some x)
        then show ?thesis
          by (cases "decision x"; cases "list_ex bypassImmune (matchedRules d)")
             (auto simp: applyRule_def Let_def intro: go stop)
      qed (auto simp: applyRule_def intro: go)
      then show ?thesis
      proof cases
        case stop
        then show ?thesis by (simp only: run) (simp add: guardedBy_def lim)
      next
        case go
        then show ?thesis using pass [OF go(2) lim] by (simp only: run) simp
      qed
    qed
  qed
qed

text \<open>The middlewares before the matcher pass on the tool and the world, or stop.\<close>

definition steady :: "middleware \<Rightarrow> bool" where
  "steady m \<longleftrightarrow> (\<forall>ctx w next.
     (\<exists>ctx'. ctxToolName ctx' = ctxToolName ctx \<and> execute m ctx w next = next ctx' w) \<or>
     \<not> passed (execute m ctx w next) \<and> snd (execute m ctx w next) = w)"

lemma steady_guarded:
  assumes "steady m" and "ctxToolName ctx = tool"
    and "\<And>ctx. ctxToolName ctx = tool \<Longrightarrow> guardedBy t key (limiter w) (runPipeline ms ctx w)"
  shows "guardedBy t key (limiter w) (runPipeline (m # ms) ctx w)"
proof -
  have "(\<exists>ctx'. ctxToolName ctx' = tool \<and> runPipeline (m # ms) ctx w = runPipeline ms ctx' w) \<or>
      \<not> passed (runPipeline (m # ms) ctx w) \<and> snd (runPipeline (m # ms) ctx w) = w"
    using assms(1) [unfolded steady_def, rule_format, of ctx w "runPipeline ms"] assms(2) by simp
  then consider ctx' where "ctxToolName ctx' = tool" "runPipeline (m # ms) ctx w = runPipeline ms ctx' w"
    | "\<not> passed (runPipeline (m # ms) ctx w)" "snd (runPipeline (m # ms) ctx w) = w"
    by blast
  then show ?thesis
  proof cases
    case 1
    then show ?thesis using assms(3) by simp
  next
    case 2
    then show ?thesis by (simp add: guardedBy_def del: runPipeline.simps)
  qed
qed

lemma analyze_tool: "ctxToolName (analyzeRequest ctx) = ctxToolName ctx"
  by (simp add: analyzeRequest_def Let_def)

lemma withPaths_tool: "ctxToolName (withPaths ps ctx) = ctxToolName ctx"
  by (simp add: withPaths_def)

lemma steady_middlewares:
  "steady commandAnalyzer" "steady (pathResolver h)" "steady (policyEvaluator h e)"
  "steady (operationClassifier c)" "steady (trustClassifier h)"
proof -
  show "steady commandAnalyzer"
    unfolding steady_def commandAnalyzer_def using analyze_tool by auto
  show "steady (pathResolver h)"
    unfolding steady_def pathResolver_def using withPaths_tool by (auto split: sum.split)
  show "steady (policyEvaluator h e)"
  proof (unfold steady_def, intro allI)
    fix ctx w and "next" :: continuation
    show "(\<exists>ctx'. ctxToolName ctx' = ctxToolName ctx \<and> execute (policyEvaluator h e) ctx w next = next ctx' w) \<or>
      \<not> passed (execute (policyEvaluator h e) ctx w next) \<and> snd (execute (policyEvaluator h e) ctx w next) = w"
    proof (cases "evaluatePolicy h e (request ctx)")
      case (Inr d)
      then show ?thesis
        by (cases "action d = Block")
           (auto simp: policyEvaluator_def Let_def intro!: exI [of _ "mapState (\<lambda>s. s\<lparr>stDecision := Some d\<rparr>) ctx"])
    qed (simp add: policyEvaluator_def)
  qed
  show "steady (operationClassifier c)"
  proof (unfold steady_def, intro allI)
    fix ctx w and "next" :: continuation
    show "(\<exists>ctx'. ctxToolName ctx' = ctxToolName ctx \<and> execute (operationClassifier c) ctx w next = next ctx' w) \<or>
      \<not> passed (execute (operationClassifier c) ctx w next) \<and> snd (execute (operationClassifier c) ctx w next) = w"
      by (cases "c (request ctx)")
         (auto simp: operationClassifier_def intro!: exI [of _ "mapState (classifiedState cls) ctx" for cls])
  qed
  show "steady (trustClassifier h)"
  proof (unfold steady_def, intro allI)
    fix ctx w and "next" :: continuation
    show "(\<exists>ctx'. ctxToolName ctx' = ctxToolName ctx \<and> execute (trustClassifier h) ctx w next = next ctx' w) \<or>
      \<not> passed (execute (trustClassifier h) ctx w next) \<and> snd (execute (trustClassifier h) ctx w next) = w"
      by (cases "classifyTrust h (request ctx)")
         (auto simp: trustClassifier_def intro!: exI [of _ "mapState (\<lambda>s. s\<lparr>stTrustLevel := Some l\<rparr>) ctx" for l])
  qed
qed

lemma evaluate_guarded:
  assumes "extraMiddlewares p = []"
  shows "guardedBy t (toLowerCase tool) (limiter w) (evaluate h p t tool input dir rules w)"
proof -
  have "guardedBy t (toLowerCase tool) (limiter w)
      (runPipeline [permissionMatcher (extractFn p) (ruleSource p) (atMatch t), executionGuard (profiles p) (atCheck t) (atRecord t)] ctx w)"
    if "ctxToolName ctx = tool" for ctx
    using matcher_guarded [of t ctx w] that by simp
  note matched = this
  have start: "ctxToolName (startContext p tool input dir rules) = tool"
    by (simp add: startContext_def)
  show ?thesis
    unfolding evaluate_def default_middlewares [OF assms]
    apply (rule steady_guarded [OF steady_middlewares(1) start])
    apply (erule steady_guarded [OF steady_middlewares(2)])
    apply (erule steady_guarded [OF steady_middlewares(3)])
    apply (erule steady_guarded [OF steady_middlewares(4)])
    apply (erule steady_guarded [OF steady_middlewares(5)])
    apply (erule matched)
    done
qed

section \<open>Sequences of evaluations\<close>

record call =
  callClock :: clock
  callTool :: string
  callInput :: "(string, json) omap"
  callDir :: string
  callRules :: "permissionRule list option"

definition evaluateCall :: "host \<Rightarrow> pipeline \<Rightarrow> call \<Rightarrow> world \<Rightarrow> outcome" where
  "evaluateCall h p c w = evaluate h p (callClock c) (callTool c) (callInput c) (callDir c) (callRules c) w"

text \<open>Tool and time of every call that got through.\<close>

fun callLog :: "host \<Rightarrow> pipeline \<Rightarrow> call list \<Rightarrow> world \<Rightarrow> (string \<times> int) list" where
  "callLog h p [] w = []"
| "callLog h p (c # cs) w =
     (let out = evaluateCall h p c w in
      (if passed out then [(toLowerCase (callTool c), atRecord (callClock c))] else []) @ callLog h p cs (snd out))"

text \<open>The clock does not run backwards.\<close>

fun clockRuns :: "int \<Rightarrow> call list \<Rightarrow> bool" where
  "clockRuns now [] \<longleftrightarrow> True"
| "clockRuns now (c # cs) \<longleftrightarrow>
     now \<le> atCheck (callClock c) \<and> atCheck (callClock c) \<le> atRecord (callClock c) \<and> clockRuns (atRecord (callClock c)) cs"

definition countIn :: "int \<Rightarrow> int \<Rightarrow> int list \<Rightarrow> nat" where
  "countIn lo hi ts = length (filter (\<lambda>t. lo < t \<and> t \<le> hi) ts)"

definition timesOf :: "string \<Rightarrow> (string \<times> int) list \<Rightarrow> int list" where
  "timesOf key log = map snd (filter (\<lambda>e. fst e = key) log)"

text \<open>
  What one call leaves: \<open>log\<close> has happened by \<open>now\<close>, the limiter still counts everything in it
  that a window ending at \<open>now\<close> or later reaches.
\<close>

definition rateInv :: "int \<Rightarrow> (string \<times> int) list \<Rightarrow> rateLimiter \<Rightarrow> bool" where
  "rateInv now log l \<longleftrightarrow>
     (\<forall>e \<in> set log. snd e \<le> now) \<and>
     (\<forall>key lo. now - windowMs l \<le> lo \<longrightarrow>
        length (filter (\<lambda>t. lo < t) (timesOf key log)) \<le> length (filter (\<lambda>t. lo < t) (stampsOf l key))) \<and>
     (\<forall>key x. int (countIn (x - windowMs l) x (timesOf key log)) \<le> max 0 (maxCalls l))"

lemma checkRate_parts [simp]:
  "windowMs (snd (checkRate t key l)) = windowMs l" "maxCalls (snd (checkRate t key l)) = maxCalls l"
  "windowMs (recordRate t key l) = windowMs l" "maxCalls (recordRate t key l) = maxCalls l"
  by (simp_all add: checkRate_def recordRate_def Let_def)

lemma stampsOf_set [simp]: "stampsOf (l\<lparr>stamps := omap_set k v (stamps l)\<rparr>) key = (if key = k then v else stampsOf l key)"
  by (simp add: stampsOf_def omap_get_set)

lemma whole_filter: "length (filter P xs) = length xs \<Longrightarrow> filter P xs = xs"
proof (induction xs)
  case (Cons x xs)
  show ?case
  proof (cases "P x")
    case False
    then show ?thesis using Cons.prems length_filter_le [of P xs] by auto
  qed (use Cons in simp)
qed simp

lemma stampsOf_check:
  "stampsOf (snd (checkRate t k l)) key = (if key = k then validStamps l t k else stampsOf l key)"
proof (cases "length (validStamps l t k) = length (stampsOf l k)")
  case True
  then have "validStamps l t k = stampsOf l k"
    unfolding validStamps_def by (rule whole_filter)
  then show ?thesis using True by (simp add: checkRate_def Let_def)
qed (simp add: checkRate_def Let_def)

lemma stampsOf_recorded:
  "stampsOf (recorded t k l) key = (if key = k then validStamps l (atCheck t) k @ [atRecord t] else stampsOf l key)"
  by (simp add: recorded_def recordRate_def stampsOf_check)

definition above :: "int \<Rightarrow> int list \<Rightarrow> nat" where
  "above lo ts = length (filter (\<lambda>t. lo < t) ts)"

lemma above_simps [simp]:
  "above lo [] = 0" "above lo (ts @ us) = above lo ts + above lo us"
  "above lo (t # ts) = (if lo < t then Suc (above lo ts) else above lo ts)"
  by (simp_all add: above_def)

lemma above_antimono: "lo \<le> lo' \<Longrightarrow> above lo' ts \<le> above lo ts"
  by (induction ts) auto

lemma countIn_above: "countIn lo hi ts \<le> above lo ts"
  by (induction ts) (auto simp: countIn_def)

lemma above_valid: "current - windowMs l \<le> lo \<Longrightarrow> above lo (validStamps l current key) = above lo (stampsOf l key)"
  unfolding above_def validStamps_def filter_filter by (rule arg_cong [where f = length], rule filter_cong) auto

lemma timesOf_append [simp]: "timesOf key (xs @ ys) = timesOf key xs @ timesOf key ys"
  by (simp add: timesOf_def)

lemma timesOf_single [simp]: "timesOf key [(k, t)] = (if k = key then [t] else [])" "timesOf key [] = []"
  by (simp_all add: timesOf_def)

lemma countIn_append [simp]: "countIn lo hi (ts @ us) = countIn lo hi ts + countIn lo hi us"
  by (simp add: countIn_def)

lemma countIn_single [simp]: "countIn lo hi [t] = (if lo < t \<and> t \<le> hi then 1 else 0)" "countIn lo hi [] = 0"
  by (simp_all add: countIn_def)

section \<open>The bound\<close>

lemma rateInv_above: "rateInv now log l \<longleftrightarrow>
     (\<forall>e \<in> set log. snd e \<le> now) \<and>
     (\<forall>key lo. now - windowMs l \<le> lo \<longrightarrow> above lo (timesOf key log) \<le> above lo (stampsOf l key)) \<and>
     (\<forall>key x. int (countIn (x - windowMs l) x (timesOf key log)) \<le> max 0 (maxCalls l))"
  by (simp add: rateInv_def above_def)

lemma rateInv_later:
  assumes "rateInv now log l" and "now \<le> now'" and "windowMs l' = windowMs l" and "maxCalls l' = maxCalls l"
    and "\<And>key lo. now' - windowMs l \<le> lo \<Longrightarrow> above lo (stampsOf l key) \<le> above lo (stampsOf l' key)"
  shows "rateInv now' log l'"
  unfolding rateInv_above assms(3,4)
proof (intro conjI allI impI ballI)
  fix e assume "e \<in> set log"
  then show "snd e \<le> now'" using assms(1,2) unfolding rateInv_above by auto
next
  fix key lo assume lo: "now' - windowMs l \<le> lo"
  then have "above lo (timesOf key log) \<le> above lo (stampsOf l key)"
    using assms(1,2) unfolding rateInv_above by simp
  then show "above lo (timesOf key log) \<le> above lo (stampsOf l' key)"
    using assms(5) [OF lo] by (rule order_trans)
next
  fix key x show "int (countIn (x - windowMs l) x (timesOf key log)) \<le> max 0 (maxCalls l)"
    using assms(1) unfolding rateInv_above by simp
qed

lemma rateInv_recorded:
  assumes inv: "rateInv now log l" and t: "now \<le> atCheck t" "atCheck t \<le> atRecord t"
    and ok: "rlAllowed (fst (checkRate (atCheck t) k l))"
  shows "rateInv (atRecord t) (log @ [(k, atRecord t)]) (recorded t k l)"
proof -
  have parts: "windowMs (recorded t k l) = windowMs l" "maxCalls (recorded t k l) = maxCalls l"
    by (simp_all add: recorded_def)
  have used: "int (above (atCheck t - windowMs l) (stampsOf l k)) < maxCalls l"
    using ok by (simp add: checkRate_def Let_def validStamps_def above_def)
  have window: "int (countIn (x - windowMs l) x (timesOf k (log @ [(k, atRecord t)]))) \<le> max 0 (maxCalls l)" for x
  proof (cases "atRecord t \<le> x")
    case True
    then have "above (x - windowMs l) (timesOf k log) \<le> above (x - windowMs l) (stampsOf l k)"
      using inv t unfolding rateInv_above by simp
    then have "countIn (x - windowMs l) x (timesOf k log) \<le> above (x - windowMs l) (stampsOf l k)"
      by (rule order_trans [OF countIn_above])
    also have "\<dots> \<le> above (atCheck t - windowMs l) (stampsOf l k)"
      using True t by (intro above_antimono) simp
    finally show ?thesis using used by simp
  qed (use inv in \<open>simp add: rateInv_above\<close>)
  show ?thesis
    unfolding rateInv_above parts
  proof (intro conjI allI impI ballI)
    fix e assume "e \<in> set (log @ [(k, atRecord t)])"
    then show "snd e \<le> atRecord t" using inv t unfolding rateInv_above by auto
  next
    fix key lo assume "atRecord t - windowMs l \<le> lo"
    then show "above lo (timesOf key (log @ [(k, atRecord t)])) \<le> above lo (stampsOf (recorded t k l) key)"
      using inv t unfolding rateInv_above by (auto simp: stampsOf_recorded above_valid)
  next
    fix key x show "int (countIn (x - windowMs l) x (timesOf key (log @ [(k, atRecord t)]))) \<le> max 0 (maxCalls l)"
      using window inv unfolding rateInv_above by (cases "key = k") auto
  qed
qed

lemma rateInv_step:
  assumes inv: "rateInv now log l" and t: "now \<le> atCheck t" "atCheck t \<le> atRecord t" and g: "guardedBy t k l out"
  shows "rateInv (atRecord t) (log @ (if passed out then [(k, atRecord t)] else [])) (limiter (snd out))"
proof (cases "passed out")
  case True
  then show ?thesis using g rateInv_recorded [OF inv t] by (simp add: guardedBy_def)
next
  case False
  have rec: "rateInv (atRecord t) log (recorded t k l)"
    by (rule rateInv_later [OF inv]) (use t in \<open>auto simp: recorded_def [symmetric] stampsOf_recorded above_valid\<close>, simp_all add: recorded_def)
  have same: "rateInv (atRecord t) log l"
    by (rule rateInv_later [OF inv]) (use t in auto)
  have pruned: "rateInv (atRecord t) log (snd (checkRate (atCheck t) k l))"
    by (rule rateInv_later [OF inv]) (use t in \<open>auto simp: stampsOf_check above_valid\<close>)
  show ?thesis using False g rec same pruned by (auto simp: guardedBy_def)
qed

lemma rateInv_calls:
  assumes "extraMiddlewares p = []" and "rateInv now log (limiter w)" and "clockRuns now cs"
  shows "\<exists>l. rateInv (last (now # map (\<lambda>c. atRecord (callClock c)) cs)) (log @ callLog h p cs w) l
    \<and> windowMs l = windowMs (limiter w) \<and> maxCalls l = maxCalls (limiter w)"
  using assms(2,3)
proof (induction cs arbitrary: now log w)
  case (Cons c cs)
  let ?t = "callClock c"
  let ?out = "evaluateCall h p c w"
  let ?entry = "if passed ?out then [(toLowerCase (callTool c), atRecord ?t)] else []"
  have g: "guardedBy ?t (toLowerCase (callTool c)) (limiter w) ?out"
    unfolding evaluateCall_def by (rule evaluate_guarded [OF assms(1)])
  have "rateInv (atRecord ?t) (log @ ?entry) (limiter (snd ?out))"
    using rateInv_step [OF Cons.prems(1) _ _ g] Cons.prems(2) by simp
  moreover have "windowMs (limiter (snd ?out)) = windowMs (limiter w)" "maxCalls (limiter (snd ?out)) = maxCalls (limiter w)"
    using g by (auto simp: guardedBy_def recorded_def)
  ultimately show ?case
    using Cons.IH [of "atRecord ?t" "log @ ?entry" "snd ?out"] Cons.prems(2) by (simp add: Let_def)
qed auto

lemma rate_bound:
  assumes "extraMiddlewares p = []" and "stamps (limiter w) = []" and "clockRuns now cs"
  shows "int (countIn (x - windowMs (limiter w)) x (timesOf key (callLog h p cs w))) \<le> max 0 (maxCalls (limiter w))"
proof -
  have "rateInv now [] (limiter w)"
    using assms(2) by (simp add: rateInv_above)
  then show ?thesis
    using rateInv_calls [OF assms(1) _ assms(3), of "[]" w h] unfolding rateInv_above by auto
qed

end
