(* ===== verification/Security_Verdicts.thy ===== *)
theory Security_Verdicts
  imports Security_Rate
begin

text \<open>
  Consequences of the abstract decision: every evaluation ends, what an automatic permission
  presupposes, and the host and the pipeline that the concrete cases use.
\<close>

section \<open>Evaluations end\<close>

definition ends :: "'a js \<Rightarrow> bool" where
  "ends r \<longleftrightarrow> r \<noteq> Inl JsNoReturn"

lemma ends_simps [simp]: "ends (Inr a)" "ends (Inl e) \<longleftrightarrow> e \<noteq> JsNoReturn"
  by (simp_all add: ends_def)

lemma ends_andThen [intro!]: "ends r \<Longrightarrow> (\<And>a. r = Inr a \<Longrightarrow> ends (k a)) \<Longrightarrow> ends (andThen r k)"
  by (cases r) auto

lemma ends_if [intro!]: "(b \<Longrightarrow> ends x) \<Longrightarrow> (\<not> b \<Longrightarrow> ends y) \<Longrightarrow> ends (if b then x else y)"
  by simp

lemma ends_option [intro!]: "ends x \<Longrightarrow> (\<And>a. o' = Some a \<Longrightarrow> ends (f a)) \<Longrightarrow> ends (case o' of None \<Rightarrow> x | Some a \<Rightarrow> f a)"
  by (cases o') auto

lemma ends_list [intro!]: "ends x \<Longrightarrow> (\<And>y ys. zs = y # ys \<Longrightarrow> ends (f y ys)) \<Longrightarrow> ends (case zs of [] \<Rightarrow> x | y # ys \<Rightarrow> f y ys)"
  by (cases zs) auto

lemma ends_pair [intro!]: "(\<And>a b. q = (a, b) \<Longrightarrow> ends (f a b)) \<Longrightarrow> ends (case q of (a, b) \<Rightarrow> f a b)"
  by (cases q) auto

lemma ends_someR [intro!]: "(\<And>x. x \<in> set xs \<Longrightarrow> ends (p x)) \<Longrightarrow> ends (someR p xs)"
  by (induction xs) auto

lemma ends_everyR [intro!]: "(\<And>x. x \<in> set xs \<Longrightarrow> ends (p x)) \<Longrightarrow> ends (everyR p xs)"
  by (induction xs) auto

lemma ends_filterR [intro!]: "(\<And>x. x \<in> set xs \<Longrightarrow> ends (p x)) \<Longrightarrow> ends (filterR p xs)"
  by (induction xs) auto

lemma ends_values [intro!]: "ends (asString v)" "ends (includesGreater v)"
  by (cases v; simp)+

lemma ends_matchers:
  "ends (matchCommand pattern r)" "ends (matchCommandPrefix prefixes r)" "ends (matchPath h paths access r)"
  "ends (matchInterpreter languages r)"
  unfolding matchCommand_def matchCommandPrefix_def matchPath_def matchInterpreter_def by (rule | simp)+

lemma ends_matchesSpec: "ends (matchesSpec h spec r)"
  by (induction h spec r rule: matchesSpec.induct)
     (simp_all add: ends_matchers ends_someR ends_everyR notR_def ends_andThen)

lemma ends_evaluatePolicy: "ends (evaluatePolicy h e r)"
  unfolding evaluatePolicy_def findMatchingRules_def Let_def by (rule ends_matchesSpec | rule | simp)+

lemma ends_shellClassify: "ends (shellClassify r)"
  unfolding shellClassify_def classifyCommand_def safeSubcommand_def Let_def by (rule | simp)+

lemma registered_classifier:
  "map_of (contextClassifiers (registerContext n c k)) x = Some d \<Longrightarrow> d = c \<or> map_of (contextClassifiers k) x = Some d"
  by (auto simp: registerContext_def omap_get_set split: if_splits)

lemma registered_classifiers:
  "map_of (contextClassifiers (fold (\<lambda>n. registerContext n c) ns k)) x = Some d \<Longrightarrow>
     d = c \<or> map_of (contextClassifiers k) x = Some d"
  by (induction ns arbitrary: k) (auto dest: registered_classifier)

lemma ends_classifier: "ends (compositeClassify (createDefaultClassifier lookup) r)"
proof -
  have b: "ends (boundaryClassify lookup r)" and f: "ends (fileSystemClassify r)"
    unfolding boundaryClassify_def fileSystemClassify_def by (rule | simp)+
  have "c \<in> {shellClassify, fileSystemClassify}"
    if "map_of (contextClassifiers (createDefaultClassifier lookup)) k = Some c" for k c
    using that
    by (auto simp: createDefaultClassifier_def setBoundaryClassifier_def
        dest!: registered_classifier registered_classifiers simp del: fold_append)
  moreover have "boundaryClassifier (createDefaultClassifier lookup) = Some (boundaryClassify lookup)"
    by (simp add: createDefaultClassifier_def setBoundaryClassifier_def)
  ultimately show ?thesis
    unfolding compositeClassify_def using b f ends_shellClassify [of r] by (auto split: option.split)
qed

lemma ends_resolveAll: "dirnameClimbs h \<Longrightarrow> ends (resolveAll h dir ps)"
proof (induction ps)
  case (Cons p ps)
  obtain q where "resolvePath h p dir = Inr q" using resolvePath_ends [OF Cons.prems] by blast
  then show ?case using Cons by auto
qed simp

lemma ends_prepared: "dirnameClimbs h \<Longrightarrow> ends (preparedRequest h p tool input dir)"
  unfolding preparedRequest_def preparedContext_def Let_def by (rule ends_resolveAll | rule | simp)+

lemma ends_ruleFor: "ends (ruleFor p t rules r w)"
  unfolding ruleFor_def matchRule_def Let_def by (rule | simp)+

lemma ends_abstract:
  assumes "dirnameClimbs h" and "\<And>r. ends (classify p r)"
  shows "ends (abstractVerdict h p t tool input dir rules w)"
proof -
  have "ends (classifyTrust h r)" for r using classifyTrust_ends [OF assms(1), of r] by auto
  note trust = this
  show ?thesis
    unfolding abstractVerdict_def
    by (rule trust ends_prepared [OF assms(1)] ends_evaluatePolicy assms(2) ends_ruleFor | rule | simp)+
qed

lemma ends_verdict: "ends (fst out) \<longleftrightarrow> ends (verdictOfOutcome out)"
  by (cases "fst out") (auto simp: verdictOfOutcome_def)

lemma newPipeline_parts:
  assumes "newPipeline h systemPaths cls registry source extract overrides session tr extra = Inr p"
  shows "extraMiddlewares p = extra" "ruleSource p = source" "extractFn p = extract"
    "classify p = withDefault cls (compositeClassify (createDefaultClassifier (withDefault registry EMPTY_BOUNDARY_REGISTRY)))"
    "newPolicyEngine h systemPaths = Inr (engine p)"
  using assms by (auto simp: newPipeline_def andThen_eq_Inr)

section \<open>Automatic permission\<close>

lemma abstract_auto:
  assumes "abstractVerdict h p t tool input dir rules w = Inr AutoAllowed" and "idsDistinct (engine p)"
  obtains r cls where "preparedRequest h p tool input dir = Inr r" "classify p r = Inr cls" "withinRate t tool w"
    "\<forall>x \<in> set (matchingRules h (engine p) r). srAction x \<noteq> RuleBlock"
    "\<not> reachesOut cls \<and> (\<forall>x \<in> set (matchingRules h (engine p) r). srAction x = RuleAudit) \<or>
     (\<exists>x. ruleFor p t rules r w = Inr (Some x) \<and> decision x = PermitAllow) \<and>
     (\<forall>x \<in> set (matchingRules h (engine p) r). \<not> bypassImmune x)"
proof -
  let ?last = "\<lambda>r d cls. if action d = Allow \<and> \<not> reachesOut cls then Inr AutoAllowed
         else andThen (ruleFor p t rules r w) (\<lambda>rule. Inr (ruleVerdict (matchedRules d) rule))"
  from assms(1) obtain r where r: "preparedRequest h p tool input dir = Inr r"
    by (auto simp: abstractVerdict_def andThen_eq_Inr)
  with assms(1) obtain d where d: "evaluatePolicy h (engine p) r = Inr d" "action d \<noteq> Block"
    by (cases "evaluatePolicy h (engine p) r") (auto simp: abstractVerdict_def split: if_splits)
  with assms(1) r obtain cls where cls: "classify p r = Inr cls"
    by (cases "classify p r") (auto simp: abstractVerdict_def)
  with assms(1) r d obtain level where "classifyTrust h r = Inr level"
    by (cases "classifyTrust h r") (auto simp: abstractVerdict_def)
  with assms(1) r d cls obtain v where v: "?last r d cls = Inr v" and rate: "withinRate t tool w" "v = AutoAllowed"
    by (cases "?last r d cls") (auto simp: abstractVerdict_def split: if_splits)
  let ?m = "matchingRules h (engine p) r"
  note pol = evaluatePolicy_action [OF d(1) assms(2)]
  have nb: "\<forall>x \<in> set ?m. srAction x \<noteq> RuleBlock" using pol(1) d(2) by blast
  show ?thesis
  proof (cases "action d = Allow \<and> \<not> reachesOut cls")
    case True
    then have "\<forall>x \<in> set ?m. srAction x \<noteq> RuleConfirm" using pol(2) nb by auto
    then have "\<forall>x \<in> set ?m. srAction x = RuleAudit" using nb ruleAction.exhaust by blast
    then show ?thesis using that [OF r cls rate(1) nb] True by blast
  next
    case False
    then obtain rule where rule: "ruleFor p t rules r w = Inr rule" "ruleVerdict (matchedRules d) rule = AutoAllowed"
      using v rate(2) by (auto simp: andThen_eq_Inr)
    then obtain x where x: "rule = Some x" "decision x \<noteq> PermitDeny" "\<not> list_ex bypassImmune (matchedRules d)"
      by (cases rule) (auto simp: ruleVerdict_def split: if_splits)
    have "decision x = PermitAllow" using x(2) by (cases "decision x") auto
    moreover have "\<forall>x \<in> set ?m. \<not> bypassImmune x"
      using x(3) mset_eq_setD [OF pol(3)] by (auto simp: list_ex_iff)
    ultimately show ?thesis using that [OF r cls rate(1) nb] rule(1) x(1) by blast
  qed
qed

section \<open>A concrete host and pipeline\<close>

definition posixResolve :: "string \<Rightarrow> string \<Rightarrow> string" where
  "posixResolve base p = (if startsWith ''/'' p then p else base @ ''/'' @ p)"

definition posixParent :: "string \<Rightarrow> string" where
  "posixParent p = rev (tl (dropWhile (\<lambda>c. c \<noteq> CHR ''/'') (rev p)))"

definition plainHost :: host where
  "plainHost = \<lparr>win32 = False, homedir = ''/home/u'', pathSep = ''/'', pathResolve = posixResolve,
     pathResolve1 = posixResolve ''/w'', isAbsolute = startsWith ''/'', dirname = posixParent,
     basename = (\<lambda>p. last (splitOn (\<lambda>c. c = CHR ''/'') p)), pathNormalize = (\<lambda>p. p),
     pathJoin = joinWith ''/'', realpath = Some\<rparr>"

lemma plainHost_climbs: "dirnameClimbs plainHost"
proof -
  have *: "posixParent p = [] \<or> length (posixParent p) < length p" for p
  proof -
    define d where "d = dropWhile (\<lambda>c. c \<noteq> CHR ''/'') (rev p)"
    have "length d \<le> length p" using length_dropWhile_le [of _ "rev p"] by (simp add: d_def)
    then show ?thesis by (cases d) (simp_all add: posixParent_def d_def [symmetric])
  qed
  have "posixParent p = p \<or> length (posixParent p) < length p" for p
  proof (cases "p = []")
    case True
    then show ?thesis by (simp add: posixParent_def)
  next
    case False
    then have "length ([] :: string) < length p" by simp
    then show ?thesis using * [of p] by metis
  qed
  then show ?thesis by (simp add: dirnameClimbs_def plainHost_def)
qed

definition plainPipeline :: pipeline where
  "plainPipeline = \<lparr>engine = BUILTIN_RULES,
     classify = compositeClassify (createDefaultClassifier EMPTY_BOUNDARY_REGISTRY), ruleSource = Some MainContext,
     extractFn = extractArgument [], profiles = DEFAULT_TOOL_PROFILES, pipeSession = Interactive,
     pipeTrust = GlobalTrust, extraMiddlewares = []\<rparr>"

definition plainWorld :: world where
  "plainWorld = \<lparr>limiter = newRateLimiter None None, store = newPermissionStore (newDurable False [])\<rparr>"

definition noon :: clock where
  "noon = \<lparr>atMatch = 0, atCheck = 0, atRecord = 0\<rparr>"

end
