(* ===== verification/Security_Correctness.thy ===== *)
theory Security_Correctness
  imports Security_Verdicts
begin

text \<open>
  What the security component promises: the properties of the policy engine, the permission
  store, the durable rules, the rate limiter and the pipeline, each with a concrete case.
\<close>

section \<open>The policy\<close>

lemma built_engine: "newPolicyEngine h paths = Inr e0 \<Longrightarrow> idsDistinct (loadRules rs e0)"
  by (simp add: loadRules_distinct newPolicyEngine_distinct)

text \<open>
  The decision of an engine that was built by the constructor and any loading of rules is
  the action of the most severe matching rule: it blocks exactly if a matching rule blocks, it
  asks exactly if one asks and none blocks; it lists all matching rules, and its risk is no
  lower than that of any of them.
\<close>

theorem policy_most_severe:
  assumes "newPolicyEngine h paths = Inr e0" and "evaluatePolicy h (loadRules rs e0) r = Inr d"
  defines "matched \<equiv> set (matchingRules h (loadRules rs e0) r)"
  shows "(action d = Block) = (\<exists>x \<in> matched. srAction x = RuleBlock) \<and>
    (action d = Confirm) = ((\<forall>x \<in> matched. srAction x \<noteq> RuleBlock) \<and> (\<exists>x \<in> matched. srAction x = RuleConfirm)) \<and>
    mset (matchedRules d) = mset (matchingRules h (loadRules rs e0) r) \<and>
    (\<forall>x \<in> matched. riskIndex (severity x) \<le> riskIndex (riskLevel d))"
  unfolding matched_def using evaluatePolicy_action [OF assms(2) built_engine [OF assms(1)]] by simp

definition readAudit :: securityRule where
  "readAudit = \<lparr>srId = ''read-audit'', srName = [], srDescription = [], enabled = True, matchOf = ToolSpec [''read''],
     srAction = RuleAudit, bypassImmune = False, severity = High, category = DataExfiltration, srSource = UserSource,
     message = [], srSuggestion = None\<rparr>"

definition readConfirm :: securityRule where
  "readConfirm = readAudit\<lparr>srId := ''read-confirm'', srAction := RuleConfirm, severity := Low, srSource := ProjectSource\<rparr>"

definition readRequest :: securityRequest where
  "readRequest = \<lparr>reqTool = ''read'', reqArguments = [(''path'', JStr ''/w/a'')], cwd = ''/w'', trust = GlobalTrust,
     sessionType = Interactive, resolved = None\<rparr>"

lemma plain_engine: "newPolicyEngine plainHost [] = Inr BUILTIN_RULES"
  by code_simp

lemma readDecision:
  "map_sum id (\<lambda>d. (action d, riskLevel d)) (evaluatePolicy plainHost (loadRules [readAudit, readConfirm] BUILTIN_RULES) readRequest) =
     Inr (Confirm, High)"
  by code_simp

theorem policy_most_severe_witness:
  "(\<exists>x \<in> set (matchingRules plainHost (loadRules [readAudit, readConfirm] BUILTIN_RULES) readRequest). srAction x = RuleConfirm) \<and>
   \<not> list_ex (\<lambda>x. srAction x = RuleBlock) (matchingRules plainHost (loadRules [readAudit, readConfirm] BUILTIN_RULES) readRequest)"
proof -
  obtain d where d: "evaluatePolicy plainHost (loadRules [readAudit, readConfirm] BUILTIN_RULES) readRequest = Inr d"
    "action d = Confirm"
    using readDecision
    by (cases "evaluatePolicy plainHost (loadRules [readAudit, readConfirm] BUILTIN_RULES) readRequest") auto
  show ?thesis using policy_most_severe [OF plain_engine d(1)] d(2) by (auto simp: list_ex_iff)
qed

section \<open>The pipeline\<close>

text \<open>
  C11. The seven middlewares of the default pipeline, run in their order with their shared state,
  implement the abstract decision: the policy blocks first; without an objection of the policy a
  call that stays inside is allowed; otherwise the permission rule that is found decides (none:
  ask the user, deny: block, allow: allowed unless a matching policy rule is immune to it); the
  rate limit blocks whatever had passed; an error of a step is the error of the evaluation.
\<close>

theorem pipeline_verdict:
  assumes "extraMiddlewares p = []"
  shows "verdictOfOutcome (evaluate h p t tool input dir rules w) = abstractVerdict h p t tool input dir rules w"
  by (rule evaluate_refines [OF assms])

lemma plain_parts [simp]:
  "extraMiddlewares plainPipeline = []" "engine plainPipeline = BUILTIN_RULES"
  by (simp_all add: plainPipeline_def)

theorem pipeline_verdict_witness:
  "abstractVerdict plainHost plainPipeline noon ''write'' [(''path'', JStr ''/w/a'')] ''/w'' None plainWorld = Inr AskUser"
proof -
  have "verdictOfOutcome (evaluate plainHost plainPipeline noon ''write'' [(''path'', JStr ''/w/a'')] ''/w'' None plainWorld) = Inr AskUser"
    by code_simp
  then show ?thesis by (simp add: pipeline_verdict)
qed

text \<open>
  C10. A call that is allowed without asking has a reason: no rule of the policy that matches the
  analysed request blocks it, the rate of the tool permits it, and either all matching rules
  only audit and the class of the operation stays inside, or a permission rule allows it and
  none of the matching policy rules is immune to permissions.
\<close>

theorem auto_allowed_justified:
  assumes "newPipeline h systemPaths cls registry source extract overrides session tr [] = Inr p"
    and "verdictOfOutcome (evaluate h p t tool input dir rules w) = Inr AutoAllowed"
  shows "\<exists>r c. preparedRequest h p tool input dir = Inr r \<and> classify p r = Inr c \<and> withinRate t tool w \<and>
    (\<forall>x \<in> set (matchingRules h (engine p) r). srAction x \<noteq> RuleBlock) \<and>
    (\<not> reachesOut c \<and> (\<forall>x \<in> set (matchingRules h (engine p) r). srAction x = RuleAudit) \<or>
     (\<exists>x. ruleFor p t rules r w = Inr (Some x) \<and> decision x = PermitAllow) \<and>
     (\<forall>x \<in> set (matchingRules h (engine p) r). \<not> bypassImmune x))"
proof -
  note parts = newPipeline_parts [OF assms(1)]
  have "abstractVerdict h p t tool input dir rules w = Inr AutoAllowed"
    using assms(2) evaluate_refines [OF parts(1)] by simp
  from abstract_auto [OF this newPolicyEngine_distinct [OF parts(5)]] show ?thesis by metis
qed

lemma plain_pipeline:
  "newPipeline plainHost [] None None (Some MainContext) (extractArgument []) [] None None [] = Inr plainPipeline"
  by (simp add: newPipeline_def plain_engine plainPipeline_def mergeProfiles_def)

theorem auto_allowed_justified_witness:
  "withinRate noon ''read'' plainWorld \<and>
   (\<exists>r. preparedRequest plainHost plainPipeline ''read'' [(''path'', JStr ''/w/a'')] ''/w'' = Inr r \<and>
      \<not> list_ex (\<lambda>x. srAction x = RuleBlock) (matchingRules plainHost BUILTIN_RULES r))"
proof -
  have "verdictOfOutcome (evaluate plainHost plainPipeline noon ''read'' [(''path'', JStr ''/w/a'')] ''/w'' None plainWorld) = Inr AutoAllowed"
    by code_simp
  from auto_allowed_justified [OF plain_pipeline this] show ?thesis by (auto simp: list_ex_iff)
qed

text \<open>
  Every evaluation of the default pipeline ends, on a host whose \<^verbatim>\<open>path.dirname\<close> shortens a path
  that is no root: the loops of the path resolution are the only ones that could run forever.
\<close>

theorem pipeline_ends:
  assumes "dirnameClimbs h"
    and "newPipeline h systemPaths None registry source extract overrides session tr [] = Inr p"
  shows "fst (evaluate h p t tool input dir rules w) \<noteq> Inl JsNoReturn"
proof -
  note parts = newPipeline_parts [OF assms(2)]
  have "ends (abstractVerdict h p t tool input dir rules w)"
    by (rule ends_abstract [OF assms(1)]) (simp add: parts(4) ends_classifier)
  then show ?thesis
    using evaluate_refines [OF parts(1)] ends_verdict by (simp add: ends_def)
qed

theorem pipeline_ends_witness:
  "fst (evaluate plainHost plainPipeline noon ''bash'' [(''command'', JStr ''cat ../../missing'')] ''/w'' None plainWorld) \<noteq> Inl JsNoReturn"
  by (rule pipeline_ends [OF plainHost_climbs plain_pipeline])

section \<open>The rate of calls\<close>

text \<open>
  C31. Over any sequence of evaluations of a pipeline, at times that do not run backwards, and in
  any window of the length of the limiter, at most \<^verbatim>\<open>maxCalls\<close> calls of one tool get through (allowed or
  to be confirmed), whatever errors and blocks occur in between.
\<close>

theorem rate_window_bound:
  assumes "extraMiddlewares p = []" and "stamps (limiter w) = []" and "clockRuns now cs"
  shows "int (countIn (x - windowMs (limiter w)) x (timesOf tool (callLog h p cs w))) \<le> max 0 (maxCalls (limiter w))"
  by (rule rate_bound [OF assms])

definition readAt :: "int \<Rightarrow> call" where
  "readAt t = \<lparr>callClock = \<lparr>atMatch = t, atCheck = t, atRecord = t\<rparr>, callTool = ''read'', callInput = [],
     callDir = ''/w'', callRules = None\<rparr>"

definition strictWorld :: world where
  "strictWorld = plainWorld\<lparr>limiter := newRateLimiter (Some 10) (Some 1)\<rparr>"

theorem rate_window_bound_witness:
  "countIn (7 - 10) 7 (timesOf ''read'' (callLog plainHost plainPipeline [readAt 1, readAt 4, readAt 12] strictWorld)) \<le> 1"
proof -
  have "clockRuns 0 [readAt 1, readAt 4, readAt 12]" by (simp add: readAt_def)
  from rate_window_bound [OF plain_parts(1) _ this, of strictWorld 7 "''read''" plainHost] show ?thesis
    by (simp add: strictWorld_def newRateLimiter_def)
qed

section \<open>Permission rules\<close>

text \<open>
  A glob compiled to a regular expression matches exactly the texts that a direct reading of
  it accepts: \<^verbatim>\<open>**\<close> takes any run within a line; \<^verbatim>\<open>*\<close> and \<^verbatim>\<open>?\<close> take characters other than a slash in a pattern
  with a slash, and within a line in any other pattern; every other character, special in
  regular expressions or not, takes itself.
\<close>

theorem glob_compiled:
  "globMatches p s = globReads (includesText [slash] p) p s"
  by (rule globMatches_reads)

text \<open>The pattern \<^verbatim>\<open>*\<close> matches a text exactly if it has no line break.\<close>

lemma star_within_line:
  "globMatches ''*'' s = (\<forall>c \<in> set s. c \<noteq> CHR 0x0A \<and> c \<noteq> CHR 0x0D)"
proof -
  have *: "wildChar False = notNewline" by (simp add: wildChar_def fun_eq_iff)
  have "globMatches ''*'' s = runThen notNewline (\<lambda>s. s = []) s"
    by (simp add: globMatches_reads startsWith_def *)
  then show ?thesis by (simp add: runThen_iff list_all_iff notNewline_def)
qed

text \<open>A rule of a pool that a request gets: one that matches, a deny if any matches, the most specific of its kind.\<close>

definition bestOf :: "(permissionRule \<Rightarrow> bool) \<Rightarrow> permissionRule list \<Rightarrow> permissionRule \<Rightarrow> bool" where
  "bestOf matches pool x \<longleftrightarrow>
     x \<in> set pool \<and> matches x \<and>
     (decision x = PermitDeny) = (\<exists>y \<in> set pool. matches y \<and> decision y = PermitDeny) \<and>
     (\<forall>y \<in> set pool. matches y \<and> decision y = decision x \<longrightarrow> specificityOf y \<le> specificityOf x)"

lemma pickRule_best:
  "pickRule now m user builtin = Some rule \<Longrightarrow>
     \<exists>x. rule = touchRule now x \<and> bestOf m (if \<exists>z \<in> set user. m z then user else builtin) x"
proof (cases "filter m user = []")
  case False
  moreover assume "pickRule now m user builtin = Some rule"
  ultimately show ?thesis
    using resolveConflict_spec [OF False]
    by (intro exI [of _ "resolveConflict (\<lambda>x. x) (filter m user)"]) (auto simp: pickRule_def bestOf_def filter_empty_conv)
next
  case True
  moreover assume pick: "pickRule now m user builtin = Some rule"
  ultimately have bi: "filter m builtin \<noteq> []" by (auto simp: pickRule_def split: if_splits)
  then show ?thesis
    using resolveConflict_spec [OF bi] True pick
    by (intro exI [of _ "resolveConflict (\<lambda>x. x) (filter m builtin)"]) (auto simp: pickRule_def bestOf_def filter_empty_conv)
qed

text \<open>
  The rule that the store finds for a request, among the rules it lists for the context and
  the builtin ones: none exactly if none matches; otherwise the best one of the user rules if
  any of them matches, and of the builtin rules if not. Deny wins over allow, then specificity
  decides; the found rule differs from the stored one in its hit count and time only.
\<close>

theorem match_resolution:
  assumes "matchRule extract now ctx r s = Inr (found, s2)"
  shows "\<exists>user s1. listRules ctx s = Some (user, s1) \<and>
    (let builtin = concat (omap_values (builtinRules s1));
         matches = (\<lambda>x. ruleMatches x (toLowerCase (reqTool r)) (extract r)) in
     case found of
       None \<Rightarrow> \<forall>x \<in> set user \<union> set builtin. \<not> matches x
     | Some rule \<Rightarrow> \<exists>x. rule = touchRule now x \<and> bestOf matches (if \<exists>z \<in> set user. matches z then user else builtin) x)"
proof -
  obtain user s1 where l: "listRules ctx s = Some (user, s1)"
    and f: "found = pickRule now (\<lambda>x. ruleMatches x (toLowerCase (reqTool r)) (extract r)) user (concat (omap_values (builtinRules s1)))"
    using matchRule_picks [OF assms] by blast
  show ?thesis
  proof (cases found)
    case None
    then show ?thesis using l f pickRule_None [THEN iffD1, OF f [unfolded None, symmetric]] by (auto simp: Let_def)
  next
    case (Some rule)
    then show ?thesis using l f pickRule_best [OF f [unfolded Some, symmetric]] by (auto simp: Let_def)
  qed
qed

definition userRule :: "string \<Rightarrow> permissionDecision \<Rightarrow> permissionScope \<Rightarrow> string \<Rightarrow> permissionRule" where
  "userRule i d sc argument = createRule i 0 ''read'' argument d sc None None None"

definition mixedStore :: permissionStore where
  "mixedStore = \<lparr>sessionRules = [(''main'', [userRule ''a'' PermitAllow SessionScope ''/w/a'', userRule ''b'' PermitDeny SessionScope ''/w/*''])],
     durableRules = newDurable True [], builtinRules = [(''ns'', [userRule ''c'' PermitAllow BuiltinScope ''/w/*''])]\<rparr>"

lemma mixed_match:
  "matchRule (extractArgument []) 5 MainContext readRequest mixedStore =
     Inr (Some (touchRule 5 (userRule ''b'' PermitDeny SessionScope ''/w/*'')),
          snd (case matchRule (extractArgument []) 5 MainContext readRequest mixedStore of Inr q \<Rightarrow> q))"
  by code_simp

theorem match_resolution_witness:
  "\<exists>x. bestOf (\<lambda>x. ruleMatches x ''read'' ''/w/a'')
     [userRule ''a'' PermitAllow SessionScope ''/w/a'', userRule ''b'' PermitDeny SessionScope ''/w/*''] x \<and> decision x = PermitDeny"
proof -
  have l: "\<exists>s1. listRules MainContext mixedStore = Some
      ([userRule ''a'' PermitAllow SessionScope ''/w/a'', userRule ''b'' PermitDeny SessionScope ''/w/*''], s1)"
    by (simp add: listRules_def readRanges_def mixedStore_def getBucket_def readBucket_def newDurable_def bucketView_def
        sessionList_def effectiveRules_def GLOBAL_PERMISSION_BUCKET_def Let_def)
  have m: "ruleMatches (userRule ''b'' PermitDeny SessionScope ''/w/*'') ''read'' ''/w/a''" by code_simp
  have a: "toLowerCase (reqTool readRequest) = ''read''" "extractArgument [] readRequest = ''/w/a''" by code_simp+
  have d: "decision x = PermitDeny" if "touchRule 5 (userRule ''b'' PermitDeny SessionScope ''/w/*'') = touchRule 5 x" for x
    using arg_cong [OF that, of decision] by (simp add: userRule_def createRule_def)
  show ?thesis using match_resolution [OF mixed_match] l m by (auto simp: a Let_def dest: d)
qed

text \<open>
  C36. A snapshot of the rules of a context, frozen for an assignment, decides every request as
  the store does at that moment, in every store that the operations reach. So does every list of
  rules that agrees with the snapshot on the rules that apply to the context: rules frozen for
  another revision of the workspace are ignored.
\<close>

theorem frozen_match_agrees:
  fixes ext :: "securityRequest \<Rightarrow> string" and persisted :: bool and fs :: "(string, json) omap"
  assumes "\<forall>op \<in> set ops. storeOpOk op"
  defines "s \<equiv> storeRun ext ops (newPermissionStore (newDurable persisted fs))"
  assumes "snapshotRules ctx s = Some (snapshot, s1)" and "matchRule ext now ctx r s = Inr (found, s2)"
  shows "boundMatchFrozen ext now ctx snapshot r = found \<and>
    (\<forall>rules. filter (\<lambda>x. ruleAppliesToContext x ctx) rules = snapshot \<longrightarrow> boundMatchFrozen ext now ctx rules r = found)"
proof -
  have "storeScopes s" unfolding s_def by (rule scopes_run [OF scopes_new assms(1)])
  from snapshot_decides [OF this assms(3,4)] have "boundMatchFrozen ext now ctx snapshot r = found" .
  moreover have "boundMatchFrozen ext now ctx rules r = boundMatchFrozen ext now ctx snapshot r"
    if "filter (\<lambda>x. ruleAppliesToContext x ctx) rules = snapshot" for rules
    using that by (auto simp: boundMatchFrozen_def)
  ultimately show ?thesis by simp
qed

definition mixedContext :: permissionContextId where
  "mixedContext = WorkspaceContext ''w'' (Some 2)"

definition mixedOps :: "storeOp list" where
  "mixedOps = [CreateIn Written mixedContext (userRule ''a'' PermitAllow ContextScope ''/w/a''),
     CreateIn Written mixedContext (userRule ''b'' PermitDeny GlobalScope ''/w/*''),
     RegisterIn ''ns'' [userRule ''c'' PermitAllow BuiltinScope ''/w/*'']]"

text \<open>A rule frozen for the revision before.\<close>

definition formerRule :: permissionRule where
  "formerRule = (userRule ''z'' PermitDeny ContextScope ''/w/a'')\<lparr>contextId := Some (WorkspaceContext ''w'' (Some 1))\<rparr>"

theorem frozen_match_agrees_witness:
  "\<exists>snapshot. length snapshot = 3 \<and>
     boundMatchFrozen (extractArgument []) 5 mixedContext snapshot readRequest =
       Some (touchRule 5 (userRule ''b'' PermitDeny GlobalScope ''/w/*'')) \<and>
     boundMatchFrozen (extractArgument []) 5 mixedContext (formerRule # snapshot) readRequest =
       Some (touchRule 5 (userRule ''b'' PermitDeny GlobalScope ''/w/*''))"
proof -
  let ?s = "storeRun (extractArgument []) mixedOps (newPermissionStore (newDurable True []))"
  have ok: "\<forall>op \<in> set mixedOps. storeOpOk op" by (simp add: mixedOps_def)
  have l: "map_option (\<lambda>q. length (fst q) = 3 \<and> list_all (\<lambda>x. ruleAppliesToContext x mixedContext) (fst q))
      (snapshotRules mixedContext ?s) = Some True" by code_simp
  then obtain snapshot s1 where snap: "snapshotRules mixedContext ?s = Some (snapshot, s1)" "length snapshot = 3"
      "list_all (\<lambda>x. ruleAppliesToContext x mixedContext) snapshot" by auto
  have "map_sum id fst (matchRule (extractArgument []) 5 mixedContext readRequest ?s) =
      Inr (Some (touchRule 5 (userRule ''b'' PermitDeny GlobalScope ''/w/*'')))" by code_simp
  then obtain s2 where "matchRule (extractArgument []) 5 mixedContext readRequest ?s =
      Inr (Some (touchRule 5 (userRule ''b'' PermitDeny GlobalScope ''/w/*'')), s2)"
    by (cases "matchRule (extractArgument []) 5 mixedContext readRequest ?s") auto
  note agree = frozen_match_agrees [OF ok snap(1) this]
  have "\<not> ruleAppliesToContext formerRule mixedContext" by code_simp
  moreover have "filter (\<lambda>x. ruleAppliesToContext x mixedContext) snapshot = snapshot"
    using snap(3) by (simp add: filter_True list_all_iff)
  ultimately have "filter (\<lambda>x. ruleAppliesToContext x mixedContext) (formerRule # snapshot) = snapshot" by simp
  with agree snap(2) show ?thesis by blast
qed

section \<open>Durable rules\<close>

lemma persistent_put: "putFile w name c d = (ok, d') \<Longrightarrow> persistent d' = persistent d"
  by (cases w) (auto simp: putFile_def split: if_splits)

lemma persistent_get: "getBucket d key = Some (b, d') \<Longrightarrow> persistent d' = persistent d"
  by (auto simp: getBucket_def Let_def split: option.splits if_splits)

lemma persistent_write [simp]: "persistent (snd (writeBucket w key rs ps acc d)) = persistent d"
  by (auto simp: writeBucket_def Let_def split: prod.split dest: persistent_put)

lemma persistent_report [simp]: "persistent (snd (reportWrite v q)) = persistent (snd q)"
  by (simp add: reportWrite_def)

lemma persistent_with:
  "(\<And>b d'. persistent d' = persistent d \<Longrightarrow> persistent (snd (k b d')) = persistent d) \<Longrightarrow>
     persistent (snd (withBucket d key k)) = persistent d"
  by (auto simp: withBucket_def split: option.split dest: persistent_get)

lemma persistent_revokeFrom [simp]: "persistent (snd (revokeFrom w1 w2 owner i d)) = persistent d"
  by (auto simp: revokeFrom_def Let_def split: prod.split option.split dest: persistent_put)

lemma persistent_accept: "persistent (snd (acceptPending w key q d)) = persistent d"
  unfolding acceptPending_def
proof (rule persistent_with)
  fix b and d' :: durable
  assume "persistent d' = persistent d"
  then show "persistent (snd (case List.find (\<lambda>e. paRequestId e = q) (bPending b) of
       None \<Rightarrow> (Inr AcceptanceMissing, d')
     | Some entry \<Rightarrow>
         let d2 = loadRevoked d' in
         if ruleId (paRule entry) \<in> set (revokedSet d2)
         then (Inr AcceptanceRevoked,
               snd (writeBucket w key (bRules b) (removeFirst (\<lambda>e. paRequestId e = q) (bPending b)) (bAccepted b) d2))
         else let accepted = addId q (bAccepted b);
                  view = bucketView (revokedSet d2) (bRules b) (bPending b) accepted;
                  (ok, d3) = writeBucket w key (bRules view) (bPending view) (bAccepted view)
                    (d2\<lparr>buckets := omap_set key view (buckets d2)\<rparr>)
              in (Inr (if ok then Materialized else Accepted), d3))) = persistent d"
    by (simp add: Let_def case_prod_beta split: option.split)
qed

lemma persistent_step: "persistent (durableStep op d) = persistent d"
proof (cases op)
  case (Revoke w1 w2 i)
  then show ?thesis by (auto simp: revokeDurable_def intro!: persistent_with split: option.split if_splits)
next
  case (Publish w key rule)
  then show ?thesis by (auto simp: publish_def Let_def intro!: persistent_with [of "loadRevoked d", simplified] split: option.splits if_splits)
next
  case (Prepare w key entry)
  then show ?thesis
    by (auto simp: preparePending_def Let_def intro!: persistent_with [of "loadRevoked d", simplified] split: option.splits if_splits)
next
  case (Discard w key q)
  then show ?thesis by (auto simp: discardPending_def intro!: persistent_with split: if_splits)
qed (auto simp: persistent_accept resetContext_def resetAllDurable_def touchDurable_def reopenDurable_def newDurable_def
    Let_def split: option.split dest: persistent_get)

lemma persistent_run: "persistent (durableRun ops d) = persistent d"
  unfolding durableRun_def by (induction ops arbitrary: d) (simp_all add: persistent_step)

text \<open>
  C12. Once a durable rule is revoked, it stays revoked: after any further publishing, preparing,
  accepting, discarding, matching and resetting, with writes that fail before or after the file
  is replaced, and any number of restarts from the files, no range yields a rule with that id.
\<close>

theorem revoked_forever:
  assumes "\<forall>op \<in> set earlier. opOk userScope op" and "i \<noteq> []"
    and "revokeDurable w1 w2 i (durableRun earlier (newDurable True fs)) = (Inr True, d)"
    and "\<forall>op \<in> set later. opOk (\<lambda>_ _. True) op" and "keyOk key"
    and "getBucket (durableRun later d) key = Some (b, d')"
  shows "i \<notin> set (map ruleId (effectiveRules b))"
proof -
  let ?d0 = "durableRun earlier (newDurable True fs)"
  have inv: "scopes.inv ?d0" by (rule scopes.inv_run [OF scopes.inv_opened assms(1)]) simp_all
  have p: "persistent ?d0" using assms(1) by (simp add: persistent_run newDurable_def)
  have "durableInv (\<lambda>ids. i \<noteq> [] \<and> i \<in> set ids) (\<lambda>_ _. True) d"
    by (rule revokeDurable_establishes [OF inv p assms(2,3)])
  from revoked.inv_run [OF this assms(4)] have "durableInv (\<lambda>ids. i \<noteq> [] \<and> i \<in> set ids) (\<lambda>_ _. True) (durableRun later d)" .
  note got = revoked.inv_get [OF this assms(5,6)]
  have "i \<in> set (revokedSet d')" using got(1) by (simp add: durableInv_def)
  then show ?thesis using effective_view [OF got(2)] by auto
qed

text \<open>The global range of a new store gets a rule; it is revoked, published again, and the process restarts.\<close>

definition lockRule :: permissionRule where
  "lockRule = userRule ''r1'' PermitAllow GlobalScope ''/w/*''"

definition afterRevocation :: durable where
  "afterRevocation = snd (revokeDurable Written NotWritten ''r1''
     (durableRun [Publish Written GLOBAL_PERMISSION_BUCKET lockRule] (newDurable True [])))"

theorem revoked_forever_witness:
  "\<exists>b d'. getBucket (durableRun [Publish Written ''main'' lockRule, Reopen] afterRevocation) GLOBAL_PERMISSION_BUCKET = Some (b, d') \<and>
     length (bRules b) = 1 \<and> ''r1'' \<notin> set (map ruleId (effectiveRules b))"
proof -
  let ?d0 = "durableRun [Publish Written GLOBAL_PERMISSION_BUCKET lockRule] (newDurable True [])"
  have "userScope GLOBAL_PERMISSION_BUCKET lockRule" by code_simp
  then have ok: "\<forall>op \<in> set [Publish Written GLOBAL_PERMISSION_BUCKET lockRule]. opOk userScope op"
    by (simp add: keyOk_global)
  have "fst (revokeDurable Written NotWritten ''r1'' ?d0) = Inr True" by code_simp
  then have rev: "revokeDurable Written NotWritten ''r1'' ?d0 = (Inr True, afterRevocation)"
    by (simp add: afterRevocation_def prod_eq_iff)
  have later: "\<forall>op \<in> set [Publish Written ''main'' lockRule, Reopen]. opOk (\<lambda>_ _. True) op"
    using keyOk_storage [of MainContext] by simp
  have "map_option (\<lambda>q. length (bRules (fst q)))
      (getBucket (durableRun [Publish Written ''main'' lockRule, Reopen] afterRevocation) GLOBAL_PERMISSION_BUCKET) = Some 1"
    by code_simp
  then obtain b d' where b: "getBucket (durableRun [Publish Written ''main'' lockRule, Reopen] afterRevocation) GLOBAL_PERMISSION_BUCKET = Some (b, d')"
    "length (bRules b) = 1" by auto
  from revoked_forever [OF ok _ rev later keyOk_global b(1)] b show ?thesis by auto
qed

text \<open>
  C37. A rule that was published is still in force after a restart, with all its fields: what is
  written to the file of a range is what a new process reads from it, in any state that the
  operations reach; its id must not be among the revoked ones.
\<close>

theorem published_rule_survives:
  assumes "\<forall>op \<in> set ops. opOk (\<lambda>key. ruleStorable (bucketScope key)) op"
    and "keyOk key" and "ruleStorable (bucketScope key) rule"
    and "publish Written key rule (durableRun ops (newDurable True fs)) = (Inr Published, d)"
    and "ruleId rule \<notin> set (readRevoked (durableRun ops (newDurable True fs)))"
  shows "\<exists>b d'. getBucket (reopenDurable d) key = Some (b, d') \<and> rule \<in> set (effectiveRules b)"
proof -
  have inv: "storable.inv (durableRun ops (newDurable True fs))"
    by (rule storable.inv_run [OF storable.inv_opened assms(1)]) simp_all
  have p: "persistent (durableRun ops (newDurable True fs))" by (simp add: persistent_run newDurable_def)
  from published_survives [OF inv p assms(2-5)] show ?thesis .
qed

theorem published_rule_survives_witness:
  "\<exists>b d'. getBucket (reopenDurable (snd (publish Written ''main'' (userRule ''a'' PermitDeny ContextScope ''/w/*'')
      (durableRun [] (newDurable True []))))) ''main'' = Some (b, d') \<and>
     userRule ''a'' PermitDeny ContextScope ''/w/*'' \<in> set (effectiveRules b)"
proof -
  let ?r = "userRule ''a'' PermitDeny ContextScope ''/w/*''"
  let ?q = "publish Written ''main'' ?r (durableRun [] (newDurable True []))"
  have "fst ?q = Inr Published" by code_simp
  then have q: "?q = (Inr Published, snd ?q)" by (simp add: prod_eq_iff)
  have r: "ruleStorable (bucketScope ''main'') ?r" by code_simp
  have n: "ruleId ?r \<notin> set (readRevoked (durableRun [] (newDurable True [])))"
    by (simp add: readRevoked_def durableRun_def newDurable_def)
  show ?thesis
    using published_rule_survives [OF _ keyOk_storage [of MainContext, simplified] r q n] by simp
qed

section \<open>Commands that run without asking\<close>

text \<open>The class of a shell command, as the pipeline computes it.\<close>

definition commandClass :: "string \<Rightarrow> operationClass js" where
  "commandClass command = classifyCommand (Some (analyzeCommand command)) (trim command)"

lemma class_redirect: "commandClass ''ls >o'' = Inr Observe"
  by code_simp

lemma class_lines: "commandClass (''ls'' @ [CHR 0x0A] @ ''sh x'') = Inr Observe"
  by code_simp

lemma class_substitution: "commandClass (''cat '' @ [CHR 0x22] @ ''$(x)'' @ [CHR 0x22]) = Inr Observe"
  by code_simp

lemma class_branch: "commandClass ''git branch -D m'' = Inr Observe"
  by code_simp

definition redirectRequest :: securityRequest where
  "redirectRequest = \<lparr>reqTool = ''bash'', reqArguments = [(''command'', JStr ''ls >o'')], cwd = ''/w'', trust = GlobalTrust,
     sessionType = Interactive,
     resolved = Some \<lparr>raPaths = Some [''/w/o''], raCommands = Some [''ls >o''], raHosts = Some [], raEnvVars = Some [],
       commandAnalysis = Some \<lparr>rawCommand = ''ls >o'',
         subcommands = [\<lparr>executable = ''ls'', subArguments = [''o''], subcommand = Some ''o'', isInterpreterEval = False\<rparr>],
         chainOperators = [], hasChain = False, redirects = [\<lparr>redirOperator = ''>'', redirTarget = ''o''\<rparr>],
         accessedPaths = [''o''], accessedHosts = [], usedEnvVars = [], hasCommandSubstitution = False,
         hasInterpreterEval = False\<rparr>\<rparr>\<rparr>"

abbreviation redirectMatches :: "securityRule list \<Rightarrow> securityRule list js" where
  "redirectMatches rules \<equiv> filterR (\<lambda>rule. matchesSpec plainHost (matchOf rule) redirectRequest) rules"

lemma filterR_append: "filterR p (xs @ ys) = andThen (filterR p xs) (\<lambda>us. andThen (filterR p ys) (\<lambda>vs. Inr (us @ vs)))"
proof (induction xs)
  case Nil
  then show ?case by (cases "filterR p ys") simp_all
next
  case (Cons x xs)
  then show ?case by (cases "p x"; cases "filterR p xs"; cases "filterR p ys") simp_all
qed

lemma redirect_unmatched1: "redirectMatches (take 5 BUILTIN_RULES) = Inr []"
  by code_simp

lemma redirect_unmatched2: "redirectMatches (drop 5 BUILTIN_RULES) = Inr []"
  by code_simp

lemma redirect_policy: "evaluatePolicy plainHost BUILTIN_RULES redirectRequest =
    Inr \<lparr>action = Allow, matchedRules = [], reason = NoRuleMatched, riskLevel = Low, suggestion = None\<rparr>"
proof -
  have "getActiveRules BUILTIN_RULES = take 5 BUILTIN_RULES @ drop 5 BUILTIN_RULES"
    by (simp add: getActiveRules_def BUILTIN_RULES_def builtin_rule_defs)
  then show ?thesis
    by (simp add: evaluatePolicy_def findMatchingRules_def filterR_append redirect_unmatched1 redirect_unmatched2
        del: append_take_drop_id)
qed

lemma redirect_prepared:
  "preparedRequest plainHost plainPipeline ''bash'' [(''command'', JStr ''ls >o'')] ''/w'' = Inr redirectRequest"
  by code_simp

lemma redirect_class: "classify plainPipeline redirectRequest = Inr Observe"
  by code_simp

lemma redirect_runs:
  "verdictOfOutcome (evaluate plainHost plainPipeline noon ''bash'' [(''command'', JStr ''ls >o'')] ''/w'' None plainWorld) = Inr AutoAllowed"
proof -
  have "withinRate noon ''bash'' plainWorld" by code_simp
  moreover have "classifyTrust plainHost redirectRequest = Inr TrustGlobal"
    by (simp add: classifyTrust_def redirectRequest_def)
  ultimately show ?thesis
    by (simp add: evaluate_refines abstractVerdict_def redirect_prepared redirect_policy redirect_class reachesOut_def)
qed

text \<open>
  Four commands that do more than read, and that the classifier takes for observing ones: a
  redirection overwrites a file, a line break starts a second command, a substitution in double
  quotes runs a program, and a git subcommand that is listed as read-only deletes a branch. The
  first one passes the whole pipeline without a question.
\<close>

theorem unasked_commands:
  "map commandClass
     [''ls >o'', ''ls'' @ [CHR 0x0A] @ ''sh x'', ''cat '' @ [CHR 0x22] @ ''$(x)'' @ [CHR 0x22], ''git branch -D m''] =
     [Inr Observe, Inr Observe, Inr Observe, Inr Observe] \<and>
   verdictOfOutcome (evaluate plainHost plainPipeline noon ''bash'' [(''command'', JStr ''ls >o'')] ''/w'' None plainWorld) = Inr AutoAllowed"
  by (simp only: list.map class_redirect class_lines class_substitution class_branch redirect_runs)

end
