(* ===== verification/Loop_Types.thy ===== *)
theory Loop_Types
  imports Resilience_Retry
begin

text \<open>
  The data of the agent loop (\<^verbatim>\<open>packages/core/src/types/messages.ts\<close>, \<^verbatim>\<open>llm.ts\<close>, \<^verbatim>\<open>tools.ts\<close>,
  \<^verbatim>\<open>errors.ts\<close>, \<^verbatim>\<open>user-input.ts\<close>, \<^verbatim>\<open>loop/types.ts\<close>, \<^verbatim>\<open>interrupt/types.ts\<close>): messages and their
  blocks, token usage, tools and their results, abort reasons, the values that the loop yields
  to its consumer and the events that it emits on the bus.

  A string is the list of its UTF-8 bytes, and its length is the number of its UTF-16 units.
  A thrown value is an \<open>ErrorValue\<close> of the resilience
  theories. Tool inputs are the fields of a JSON object; fields of tools, messages and events
  that the loop never reads (descriptions, schemas, the session's model roles) are JSON values
  or left out.
\<close>

section \<open>Messages\<close>

datatype ImageSource = Base64Image string string | UrlImage string

type_synonym ToolInput = "(string \<times> json) list"

record ToolUseBlock =
  ub_id :: string
  ub_name :: string
  ub_input :: ToolInput

text \<open>The union of dispositions has one member: the batch selected an exclusive control call.\<close>

datatype ToolResultDisposition = NotStartedExclusive string

record ToolResultBlock =
  rb_toolUseId :: string
  rb_content :: string
  rb_isError :: "bool option"
  rb_disposition :: "ToolResultDisposition option"

datatype ContentBlock =
    TextBlock string
  | ImageBlock ImageSource
  | ToolUseOf ToolUseBlock
  | ToolResultOf ToolResultBlock
  | ThinkingBlock string "string option"

datatype Role = User | Assistant

datatype InputSource = FromUser | FromConversation string

record MessageInputIdentity =
  ii_id :: string
  ii_source :: InputSource

record Message =
  ms_role :: Role
  ms_content :: "ContentBlock list"
  ms_inputIdentity :: "MessageInputIdentity option"

definition plainMessage :: "Role \<Rightarrow> ContentBlock list \<Rightarrow> Message" where
  "plainMessage role content = \<lparr>ms_role = role, ms_content = content, ms_inputIdentity = None\<rparr>"

lemma plainMessage_sel [simp]:
  "ms_role (plainMessage r c) = r" "ms_content (plainMessage r c) = c" "ms_inputIdentity (plainMessage r c) = None"
  by (simp_all add: plainMessage_def)

definition userMessage :: "string \<Rightarrow> Message" where
  "userMessage s = plainMessage User [TextBlock s]"

definition toolResultMessage :: "ToolResultBlock list \<Rightarrow> Message" where
  "toolResultMessage results = plainMessage User (map ToolResultOf results)"

fun blockText :: "ContentBlock \<Rightarrow> string option" where
  "blockText (TextBlock s) = Some s"
| "blockText b = None"

fun blockToolUse :: "ContentBlock \<Rightarrow> ToolUseBlock option" where
  "blockToolUse (ToolUseOf u) = Some u"
| "blockToolUse b = None"

fun blockToolResult :: "ContentBlock \<Rightarrow> ToolResultBlock option" where
  "blockToolResult (ToolResultOf r) = Some r"
| "blockToolResult b = None"

definition extractText :: "Message \<Rightarrow> string" where
  "extractText m = concat (List.map_filter blockText (ms_content m))"

definition extractToolCalls :: "Message \<Rightarrow> ToolUseBlock list" where
  "extractToolCalls m = List.map_filter blockToolUse (ms_content m)"

definition toolResultsOf :: "Message \<Rightarrow> ToolResultBlock list" where
  "toolResultsOf m = List.map_filter blockToolResult (ms_content m)"

definition emptyAssistantMessage :: Message where
  "emptyAssistantMessage = plainMessage Assistant []"

definition findLastAssistantMessage :: "Message list \<Rightarrow> Message option" where
  "findLastAssistantMessage ms = List.find (\<lambda>m. ms_role m = Assistant) (rev ms)"

fun isImage :: "ContentBlock \<Rightarrow> bool" where
  "isImage (ImageBlock s) = True"
| "isImage b = False"

definition messageContainsImage :: "Message \<Rightarrow> bool" where
  "messageContainsImage m = list_ex isImage (ms_content m)"

section \<open>Token usage\<close>

definition emptyUsage :: TokenUsage where
  "emptyUsage = \<lparr>tu_inputTokens = 0, tu_outputTokens = 0, tu_totalInputTokens = None,
                 tu_cacheReadTokens = None, tu_cacheWriteTokens = None\<rparr>"

definition getTotalInputTokens :: "TokenUsage \<Rightarrow> int" where
  "getTotalInputTokens u = withDefault (tu_totalInputTokens u) (tu_inputTokens u)"

text \<open>A cache count is merged when one of the two is present and not 0.\<close>

definition mergeCount :: "int option \<Rightarrow> int option \<Rightarrow> int option" where
  "mergeCount a b =
     (if withDefault a 0 \<noteq> 0 \<or> withDefault b 0 \<noteq> 0 then Some (withDefault a 0 + withDefault b 0) else None)"

definition mergeUsage :: "TokenUsage \<Rightarrow> TokenUsage \<Rightarrow> TokenUsage" where
  "mergeUsage a b =
     \<lparr>tu_inputTokens = tu_inputTokens a + tu_inputTokens b,
      tu_outputTokens = tu_outputTokens a + tu_outputTokens b,
      tu_totalInputTokens = Some (getTotalInputTokens a + getTotalInputTokens b),
      tu_cacheReadTokens = mergeCount (tu_cacheReadTokens a) (tu_cacheReadTokens b),
      tu_cacheWriteTokens = mergeCount (tu_cacheWriteTokens a) (tu_cacheWriteTokens b)\<rparr>"

section \<open>Tools\<close>

text \<open>
  \<^verbatim>\<open>s.slice(0, n)\<close>: the bytes of the first \<open>n\<close> UTF-16 units. Where the cut falls inside a
  surrogate pair the source keeps a lone half, which no byte string has; here the pair goes.
\<close>

fun js_take :: "nat \<Rightarrow> string \<Rightarrow> string" where
  "js_take n [] = []"
| "js_take n (c # s) = (if utf16_units c \<le> n then c # js_take (n - utf16_units c) s else [])"

lemma js_take_prefix: "\<exists>t. s = js_take n s @ t"
  by (induction n s rule: js_take.induct) auto

lemma js_take_bounded: "js_length (js_take n s) \<le> n"
proof (induction n s rule: js_take.induct)
  case (2 n c s)
  then show ?case by (auto simp: js_length_def)
qed (simp add: js_length_def)

datatype ToolPresentationArtifact =
    NotStartedPresentation string string
  | OtherPresentation json

record ToolResult =
  tr_content :: string
  tr_isError :: "bool option"
  tr_presentation :: "ToolPresentationArtifact option"
  tr_committedToUser :: bool

text \<open>An optional flag that the code tests for truth.\<close>

abbreviation isError :: "ToolResult \<Rightarrow> bool" where
  "isError r \<equiv> tr_isError r = Some True"

definition errorResult :: "string \<Rightarrow> ToolResult" where
  "errorResult content = \<lparr>tr_content = content, tr_isError = Some True, tr_presentation = None, tr_committedToUser = False\<rparr>"

fun toolResultDisposition :: "ToolPresentationArtifact option \<Rightarrow> ToolResultDisposition option" where
  "toolResultDisposition (Some (NotStartedPresentation callId selected)) = Some (NotStartedExclusive selected)"
| "toolResultDisposition p = None"

text \<open>
  A definition carries what the loop reads: flags compared with \<^verbatim>\<open>=== true\<close>, the limits, the
  validator of an exclusive control tool, and the specification sent to the model.
\<close>

record ToolDefinition =
  td_name :: string
  td_spec :: json
  td_isReadOnly :: bool
  td_isParallelSafe :: bool
  td_maxResultChars :: "nat option"
  td_maxCallsPerTurn :: "nat option"
  td_exclusiveInitialControl :: "(ToolInput \<Rightarrow> string option) option"

section \<open>Errors and abort reasons\<close>

record AgentError =
  ag_message :: string
  ag_type :: AgentErrorType
  ag_recoverable :: bool
  ag_cause :: "ErrorValue option"

datatype AbortReason =
    UserCancel string rat
  | IdleTimeout nat nat rat
  | ParentAbort "AbortReason option"
  | ExternalSignal "string option"

text \<open>
  The loop's abort signal: not aborted, or aborted at an instant of the monotonic clock with the
  typed reason that \<^verbatim>\<open>getAbortReason\<close> reads from it, if it has one.
\<close>

datatype Signal = Live | AbortedAt rat "AbortReason option"

fun isAborted :: "Signal \<Rightarrow> bool" where
  "isAborted Live = False"
| "isAborted (AbortedAt t r) = True"

fun getAbortReason :: "Signal \<Rightarrow> AbortReason option" where
  "getAbortReason Live = None"
| "getAbortReason (AbortedAt t r) = r"

section \<open>Results of a run\<close>

datatype AgentResult =
    CompletedResult Message TokenUsage
  | MaxTurnsResult nat TokenUsage
  | AbortedResult TokenUsage "AbortReason option" "int option"
  | ErrorResult AgentError TokenUsage

fun resultUsage :: "AgentResult \<Rightarrow> TokenUsage" where
  "resultUsage (CompletedResult m u) = u"
| "resultUsage (MaxTurnsResult n u) = u"
| "resultUsage (AbortedResult u r d) = u"
| "resultUsage (ErrorResult e u) = u"

datatype AgentRunEndReason = CompletedEnd | MaxTurnsEnd | AbortedEnd | ErrorEnd

fun resultReason :: "AgentResult \<Rightarrow> AgentRunEndReason" where
  "resultReason (CompletedResult m u) = CompletedEnd"
| "resultReason (MaxTurnsResult n u) = MaxTurnsEnd"
| "resultReason (AbortedResult u r d) = AbortedEnd"
| "resultReason (ErrorResult e u) = ErrorEnd"

fun resultError :: "AgentResult \<Rightarrow> (string \<times> AgentErrorType) option" where
  "resultError (ErrorResult e u) = Some (ag_message e, ag_type e)"
| "resultError r = None"

section \<open>Effects\<close>

datatype AgentYield =
    YieldText string
  | YieldThinkingStart
  | YieldThinking string
  | YieldThinkingEnd
  | YieldAssistant Message
  | YieldToolStart string string ToolInput
  | YieldToolEnd string string ToolResult int
  | YieldTurn nat TokenUsage

datatype ObservedResult = ObservedSuccess | ObservedFailure | ObservedRefused | ObservedCancelled | ObservedUnknown

datatype ObservedError = ObservedText string | ObservedThrown ErrorValue

datatype BusEvent =
    RunStart string
  | RunEnd AgentRunEndReason int TokenUsage "(string \<times> AgentErrorType) option"
  | RequestStart string "Message list" string "json list"
  | StreamEventPassed StreamEvent
  | RequestEnd int TokenUsage bool StopReason
  | ToolCallStarted string string ToolInput
  | ToolExecutionObserved string string ObservedResult "ObservedError option" int nat
  | ToolCallEnded string string int bool nat
  | TokensSnapshot int nat
  | InterruptFired "AbortReason option" nat "int option" rat

text \<open>What the loop does that the outside sees, in order.\<close>

datatype LoopEffect = Emitted BusEvent | Yielded AgentYield

fun isRunEnd :: "LoopEffect \<Rightarrow> bool" where
  "isRunEnd (Emitted (RunEnd r d u e)) = True"
| "isRunEnd e = False"

fun isFired :: "LoopEffect \<Rightarrow> bool" where
  "isFired (Emitted (InterruptFired r n d g)) = True"
| "isFired e = False"

fun isRequest :: "LoopEffect \<Rightarrow> bool" where
  "isRequest (Emitted (RequestStart m ms p ts)) = True"
| "isRequest e = False"

fun startedCall :: "LoopEffect \<Rightarrow> ToolUseBlock option" where
  "startedCall (Yielded (YieldToolStart i n v)) = Some \<lparr>ub_id = i, ub_name = n, ub_input = v\<rparr>"
| "startedCall e = None"

definition starts :: "LoopEffect list \<Rightarrow> ToolUseBlock list" where
  "starts tr = List.map_filter startedCall tr"

section \<open>Laws of messages and usage\<close>

lemma map_filter_ToolUse [simp]: "List.map_filter blockToolUse (map ToolUseOf us) = us"
  by (induction us) (simp_all add: List.map_filter_simps)

lemma map_filter_ToolResult [simp]: "List.map_filter blockToolResult (map ToolResultOf rs) = rs"
  by (induction rs) (simp_all add: List.map_filter_simps)

lemma map_filter_results_no_use [simp]: "List.map_filter blockToolUse (map ToolResultOf rs) = []"
  by (induction rs) (simp_all add: List.map_filter_simps)

lemma map_filter_uses_no_result [simp]: "List.map_filter blockToolResult (map ToolUseOf us) = []"
  by (induction us) (simp_all add: List.map_filter_simps)

lemma toolResultMessage_parts [simp]:
  "toolResultsOf (toolResultMessage rs) = rs"
  "extractToolCalls (toolResultMessage rs) = []"
  "ms_role (toolResultMessage rs) = User"
  by (simp_all add: toolResultsOf_def extractToolCalls_def toolResultMessage_def)

lemma starts_simps [simp]:
  "starts [] = []"
  "starts (e # tr) = (case startedCall e of Some c \<Rightarrow> c # starts tr | None \<Rightarrow> starts tr)"
  "starts (tr @ tr') = starts tr @ starts tr'"
  by (simp_all add: starts_def List.map_filter_def split: option.split)

text \<open>Usage adds up: the total input of a merge is the sum of the totals, in any grouping.\<close>

lemma merge_total [simp]: "getTotalInputTokens (mergeUsage a b) = getTotalInputTokens a + getTotalInputTokens b"
  by (simp add: getTotalInputTokens_def mergeUsage_def)

lemma merge_counts [simp]:
  "tu_inputTokens (mergeUsage a b) = tu_inputTokens a + tu_inputTokens b"
  "tu_outputTokens (mergeUsage a b) = tu_outputTokens a + tu_outputTokens b"
  by (simp_all add: mergeUsage_def)

end
