(* ===== verification/Loop_Program.thy ===== *)
theory Loop_Program
  imports Prelude Resilience_Errors
begin

text \<open>
  Asynchronous generators of the sources as programs over an explicit world. A program maps
  the world, which holds everything outside the code (the model, the tools, the clock, the
  abort signal, the consumer), to the world after it, the effects it had in order, and how it
  ended: with a value, with an exception, or because the consumer abandoned the generator at
  a \<^verbatim>\<open>yield\<close> (\<^verbatim>\<open>generator.return()\<close>), which runs no more of the code but its \<^verbatim>\<open>finally\<close> blocks.

  \<open>ends\<close> is the predicate transformer of programs: what holds of the end of a run. Its
  equations, one per combinator, are the rules by which the theories above reason.
\<close>

section \<open>Programs\<close>

datatype 'a Completion = Done 'a | Threw ErrorValue | Returned

type_synonym ('w, 'e, 'a) program = "'w \<Rightarrow> 'w \<times> 'e list \<times> 'a Completion"

definition ret :: "'a \<Rightarrow> ('w, 'e, 'a) program" where
  "ret a w = (w, [], Done a)"

definition bnd :: "('w, 'e, 'a) program \<Rightarrow> ('a \<Rightarrow> ('w, 'e, 'b) program) \<Rightarrow> ('w, 'e, 'b) program" where
  "bnd m k w =
     (case m w of
        (w', tr, Done a) \<Rightarrow> (case k a w' of (w'', tr', c) \<Rightarrow> (w'', tr @ tr', c))
      | (w', tr, Threw e) \<Rightarrow> (w', tr, Threw e)
      | (w', tr, Returned) \<Rightarrow> (w', tr, Returned))"

text \<open>A read of the world, a call of the outside that may throw, and an effect.\<close>

definition look :: "('w \<Rightarrow> 'a) \<Rightarrow> ('w, 'e, 'a) program" where
  "look f w = (w, [], Done (f w))"

definition outside :: "('w \<Rightarrow> 'w \<times> (ErrorValue, 'a) result) \<Rightarrow> ('w, 'e, 'a) program" where
  "outside f w = (case f w of (w', Inl e) \<Rightarrow> (w', [], Threw e) | (w', Inr a) \<Rightarrow> (w', [], Done a))"

definition change :: "('w \<Rightarrow> 'w) \<Rightarrow> ('w, 'e, unit) program" where
  "change f w = (f w, [], Done ())"

definition effect :: "'e \<Rightarrow> ('w \<Rightarrow> 'w) \<Rightarrow> ('w, 'e, unit) program" where
  "effect e f w = (f w, [e], Done ())"

text \<open>A \<^verbatim>\<open>yield\<close>: the consumer asks for more or abandons the generator.\<close>

definition offer :: "'e \<Rightarrow> ('w \<Rightarrow> 'w \<times> bool) \<Rightarrow> ('w, 'e, unit) program" where
  "offer e f w = (case f w of (w', resumed) \<Rightarrow> (w', [e], if resumed then Done () else Returned))"

text \<open>\<^verbatim>\<open>try\<close>: an exception becomes a value; abandonment passes through.\<close>

definition attempt :: "('w, 'e, 'a) program \<Rightarrow> ('w, 'e, (ErrorValue, 'a) result) program" where
  "attempt m w =
     (case m w of
        (w', tr, Done a) \<Rightarrow> (w', tr, Done (Inr a))
      | (w', tr, Threw e) \<Rightarrow> (w', tr, Done (Inl e))
      | (w', tr, Returned) \<Rightarrow> (w', tr, Returned))"

primrec eachOf :: "('a \<Rightarrow> ('w, 'e, unit) program) \<Rightarrow> 'a list \<Rightarrow> ('w, 'e, unit) program" where
  "eachOf f [] = ret ()"
| "eachOf f (x # xs) = bnd (f x) (\<lambda>_. eachOf f xs)"

section \<open>What holds at the end\<close>

named_theorems ends_simps \<open>how the combinators end\<close>

definition ends :: "('w, 'e, 'a) program \<Rightarrow> 'w \<Rightarrow> ('w \<Rightarrow> 'e list \<Rightarrow> 'a Completion \<Rightarrow> bool) \<Rightarrow> bool" where
  "ends m w Q = (case m w of (w', tr, c) \<Rightarrow> Q w' tr c)"

lemma ends_ret [ends_simps]: "ends (ret a) w Q = Q w [] (Done a)"
  by (simp add: ends_def ret_def)

lemma ends_look [ends_simps]: "ends (look f) w Q = Q w [] (Done (f w))"
  by (simp add: ends_def look_def)

lemma ends_change [ends_simps]: "ends (change f) w Q = Q (f w) [] (Done ())"
  by (simp add: ends_def change_def)

lemma ends_effect [ends_simps]: "ends (effect e f) w Q = Q (f w) [e] (Done ())"
  by (simp add: ends_def effect_def)

lemma ends_outside [ends_simps]:
  "ends (outside f) w Q =
     (case f w of (w', Inl e) \<Rightarrow> Q w' [] (Threw e) | (w', Inr a) \<Rightarrow> Q w' [] (Done a))"
  by (simp add: ends_def outside_def split: prod.split sum.split)

lemma ends_offer [ends_simps]:
  "ends (offer e f) w Q = Q (fst (f w)) [e] (if snd (f w) then Done () else Returned)"
  by (simp add: ends_def offer_def split: prod.split)

lemma ends_attempt [ends_simps]:
  "ends (attempt m) w Q =
     ends m w (\<lambda>w' tr c. case c of Done a \<Rightarrow> Q w' tr (Done (Inr a))
                                 | Threw e \<Rightarrow> Q w' tr (Done (Inl e))
                                 | Returned \<Rightarrow> Q w' tr Returned)"
  by (simp add: ends_def attempt_def split: prod.split Completion.split)

lemma ends_bnd [ends_simps]:
  "ends (bnd m k) w Q =
     ends m w (\<lambda>w' tr c. case c of Done a \<Rightarrow> ends (k a) w' (\<lambda>w'' tr' c'. Q w'' (tr @ tr') c')
                                 | Threw e \<Rightarrow> Q w' tr (Threw e)
                                 | Returned \<Rightarrow> Q w' tr Returned)"
  by (simp add: ends_def bnd_def split: prod.split Completion.split)

lemma ends_cond [ends_simps]: "ends (if b then m else m') w Q = (if b then ends m w Q else ends m' w Q)"
  by simp

lemma ends_mono:
  assumes "ends m w P"
    and "\<And>w' tr c. P w' tr c \<Longrightarrow> Q w' tr c"
  shows "ends m w Q"
  using assms by (auto simp: ends_def split: prod.splits)

lemma ends_conj: "ends m w P \<Longrightarrow> ends m w Q \<Longrightarrow> ends m w (\<lambda>w' tr c. P w' tr c \<and> Q w' tr c)"
  by (auto simp: ends_def split: prod.splits)

lemma endsD: "ends m w Q \<Longrightarrow> m w = (w', tr, c) \<Longrightarrow> Q w' tr c"
  by (simp add: ends_def)

lemma endsI: "(\<And>w' tr c. m w = (w', tr, c) \<Longrightarrow> Q w' tr c) \<Longrightarrow> ends m w Q"
  by (simp add: ends_def split: prod.split)

text \<open>
  Sequencing, with an intermediate assertion: the first program establishes \<open>P\<close> of its value
  and its effects, and the second starts from there.
\<close>

lemma ends_seq:
  assumes "ends m w P"
    and "\<And>w' tr a. P w' tr (Done a) \<Longrightarrow> ends (k a) w' (\<lambda>w'' tr' c'. Q w'' (tr @ tr') c')"
    and "\<And>w' tr e. P w' tr (Threw e) \<Longrightarrow> Q w' tr (Threw e)"
    and "\<And>w' tr. P w' tr Returned \<Longrightarrow> Q w' tr Returned"
  shows "ends (bnd m k) w Q"
  unfolding ends_bnd
  by (rule ends_mono [OF assms(1)]) (auto simp: assms split: Completion.splits)

text \<open>An assertion about how the last step ends, whatever came before it.\<close>

lemma ends_last:
  assumes "\<And>a w'. ends (k a) w' (\<lambda>w'' tr c. R c)" and "\<And>e. R (Threw e)" and "R Returned"
  shows "ends (bnd m k) w (\<lambda>w'' tr c. R c)"
proof (rule ends_seq [where P = "\<lambda>w' tr c. True"])
  show "ends (k a) w' (\<lambda>w'' tr' c'. R c')" for w' a by (rule assms(1))
qed (simp_all add: assms ends_def split: prod.split)

text \<open>An assertion about the effects alone, preserved by sequencing: every effect satisfies \<open>P\<close>.\<close>

definition effectsAre :: "('e \<Rightarrow> bool) \<Rightarrow> ('w, 'e, 'a) program \<Rightarrow> bool" where
  "effectsAre P m = (\<forall>w. ends m w (\<lambda>w' tr c. list_all P tr))"

lemma effectsAreI: "(\<And>w w' tr c. m w = (w', tr, c) \<Longrightarrow> list_all P tr) \<Longrightarrow> effectsAre P m"
  by (simp add: effectsAre_def ends_def split: prod.split)

lemma effectsAreD: "effectsAre P m \<Longrightarrow> m w = (w', tr, c) \<Longrightarrow> list_all P tr"
  unfolding effectsAre_def ends_def by (metis (no_types, lifting) case_prod_conv)

lemma bndD:
  assumes "bnd m k w = (w'', tr, c)"
  obtains (done_first) a w' t t' where "m w = (w', t, Done a)" "k a w' = (w'', t', c)" "tr = t @ t'"
    | (threw_first) e where "m w = (w'', tr, Threw e)" "c = Threw e"
    | (returned_first) "m w = (w'', tr, Returned)" "c = Returned"
  using assms by (auto simp: bnd_def split: prod.splits Completion.splits)

lemma effectsAre_bnd:
  assumes "effectsAre P m" and "\<And>a. effectsAre P (k a)"
  shows "effectsAre P (bnd m k)"
proof (rule effectsAreI)
  fix w w' tr c
  assume "bnd m k w = (w', tr, c)"
  then show "list_all P tr"
    by (cases rule: bndD) (simp_all add: effectsAreD [OF assms(1)] effectsAreD [OF assms(2)])
qed

lemma effectsAre_basic:
  "effectsAre P (ret a)" "effectsAre P (look f)" "effectsAre P (outside g)" "effectsAre P (change h)"
  "effectsAre P (effect e h) = P e" "effectsAre P (offer e i) = P e"
  by (auto simp: effectsAre_def ends_simps split: prod.splits sum.splits)

lemma attemptD:
  assumes "attempt m w = (w', tr, c)"
  obtains (returned) a where "m w = (w', tr, Done a)" "c = Done (Inr a)"
    | (threw) e where "m w = (w', tr, Threw e)" "c = Done (Inl e)"
    | (abandoned) "m w = (w', tr, Returned)" "c = Returned"
  using assms by (auto simp: attempt_def split: prod.splits Completion.splits)

lemma effectsAre_attempt:
  assumes "effectsAre P m"
  shows "effectsAre P (attempt m)"
proof (rule effectsAreI)
  fix w w' tr c
  assume "attempt m w = (w', tr, c)"
  then show "list_all P tr"
    by (cases rule: attemptD) (simp_all add: effectsAreD [OF assms])
qed

lemma effectsAre_eachOf: "(\<And>x. effectsAre P (f x)) \<Longrightarrow> effectsAre P (eachOf f xs)"
  by (induction xs) (simp_all add: effectsAre_basic effectsAre_bnd)

end
