(* ===== verification/Loop_Host.thy ===== *)
theory Loop_Host
  imports Loop_Types Loop_Program
begin

text \<open>
  Everything the agent loop reads or calls outside its own code, as one record over a world of
  any type: the abort signal, the clocks, the listeners of the event bus, the consumer, the
  tools and the observer of their side effects, the model's stream, the input port, the segment
  manager, the window hooks and the token estimator. Each operation may move the world, so an
  abort, for example, may happen during any of them.

  The bus isolates the errors of its listeners (\<^verbatim>\<open>events/event-bus.ts\<close>), so emitting does not
  throw; the runs modelled have a bus, as those of the product do. The theory also holds the
  messages and placeholders made when a run is interrupted (\<^verbatim>\<open>interrupt/assemble.ts\<close>,
  \<^verbatim>\<open>interrupt/cleanup.ts\<close>).
\<close>

section \<open>The world outside\<close>

datatype SideEffectStatus = EffectOk | EffectFailed | EffectAborted

text \<open>\<^verbatim>\<open>PreparedSendView\<close>: what a request to the model is made of.\<close>

record PreparedSendView =
  sv_systemPrompt :: string
  sv_tools :: "json list"
  sv_stateMessages :: "Message list"
  sv_messagesForLLM :: "Message list"
  sv_providerMessages :: "Message list"

record ChatRequest =
  cr_model :: string
  cr_systemPrompt :: string
  cr_messages :: "Message list"
  cr_tools :: "json list option"
  cr_thinking :: json

text \<open>
  The stream that the model's adapter produces for a request: its events in order, after which
  it ends or throws.
\<close>

type_synonym Stream = "StreamEvent list \<times> ErrorValue option"

record 'w Estimator =
  es_text :: "'w \<Rightarrow> string \<Rightarrow> int"
  es_messages :: "'w \<Rightarrow> Message list \<Rightarrow> int"
  es_tools :: "'w \<Rightarrow> json list \<Rightarrow> int"
  es_calibrate :: "int \<Rightarrow> int \<Rightarrow> 'w \<Rightarrow> 'w"

record 'w SideEffectObserver =
  so_start :: "ToolDefinition \<Rightarrow> ToolInput \<Rightarrow> 'w \<Rightarrow> 'w \<times> (ErrorValue, nat) result"
  so_finish :: "nat \<Rightarrow> SideEffectStatus \<Rightarrow> 'w \<Rightarrow> 'w \<times> (ErrorValue, unit) result"

record 'w Host =
  hs_signal :: "'w \<Rightarrow> Signal"
  hs_date :: "'w \<Rightarrow> int"
  hs_perf :: "'w \<Rightarrow> rat"
  hs_emit :: "BusEvent \<Rightarrow> 'w \<Rightarrow> 'w"
  hs_yield :: "AgentYield \<Rightarrow> 'w \<Rightarrow> 'w \<times> bool"
  hs_execute :: "ToolDefinition \<Rightarrow> ToolInput \<Rightarrow> string \<Rightarrow> 'w \<Rightarrow> 'w \<times> (ErrorValue, ToolResult) result"
  hs_observer :: "'w SideEffectObserver option"
  hs_pick :: "'w \<Rightarrow> nat"
  hs_callLLM :: "ChatRequest \<Rightarrow> 'w \<Rightarrow> 'w \<times> (ErrorValue, Stream) result"
  hs_await :: "'w \<Rightarrow> 'w"
  hs_parse :: "string \<Rightarrow> json option"
  hs_receive :: "nat \<Rightarrow> bool \<Rightarrow> 'w \<Rightarrow> 'w \<times> (ErrorValue, Message list) result"
  hs_close :: "'w \<Rightarrow> 'w \<times> (ErrorValue, unit) result"
  hs_segment :: "(PreparedSendView \<Rightarrow> nat \<Rightarrow> 'w \<Rightarrow> 'w \<times> (ErrorValue, Message list option) result) option"
  hs_onChange :: "'w \<Rightarrow> 'w \<times> (ErrorValue, unit) result"
  hs_systemPrompt :: "'w \<Rightarrow> string"
  hs_prefix :: "'w \<Rightarrow> Message list"
  hs_inject :: "'w \<Rightarrow> Message list \<Rightarrow> Message list"
  hs_estimator :: "'w Estimator option"
  hs_heap :: errorHeap
  hs_agentError :: "nat \<Rightarrow> AgentError option"
  hs_userFacing :: "nat \<Rightarrow> bool"
  hs_locale :: "nat \<Rightarrow> string"

type_synonym ('w, 'a) loopProgram = "('w, LoopEffect, 'a) program"

definition emit :: "'w Host \<Rightarrow> BusEvent \<Rightarrow> ('w, unit) loopProgram" where
  "emit H e = effect (Emitted e) (hs_emit H e)"

definition yieldTo :: "'w Host \<Rightarrow> AgentYield \<Rightarrow> ('w, unit) loopProgram" where
  "yieldTo H y = offer (Yielded y) (hs_yield H y)"

definition aborted :: "'w Host \<Rightarrow> ('w, bool) loopProgram" where
  "aborted H = look (\<lambda>w. isAborted (hs_signal H w))"

definition dateNow :: "'w Host \<Rightarrow> ('w, int) loopProgram" where
  "dateNow H = look (hs_date H)"

definition perfNow :: "'w Host \<Rightarrow> ('w, rat) loopProgram" where
  "perfNow H = look (hs_perf H)"

lemma ends_emit [ends_simps]: "ends (emit H e) w Q = Q (hs_emit H e w) [Emitted e] (Done ())"
  by (simp add: emit_def ends_simps)

lemma ends_yieldTo [ends_simps]:
  "ends (yieldTo H y) w Q = Q (fst (hs_yield H y w)) [Yielded y] (if snd (hs_yield H y w) then Done () else Returned)"
  by (simp add: yieldTo_def ends_simps)

lemma ends_reads [ends_simps]:
  "ends (aborted H) w Q' = Q' w [] (Done (isAborted (hs_signal H w)))"
  "ends (dateNow H) w Q = Q w [] (Done (hs_date H w))"
  "ends (perfNow H) w R = R w [] (Done (hs_perf H w))"
  by (simp_all add: aborted_def dateNow_def perfNow_def ends_simps)

lemmas ends_steps = ends_ret ends_look ends_change ends_effect ends_outside ends_offer ends_emit ends_yieldTo ends_reads

text \<open>
  A host on which nothing is ever aborted, no consumer leaves and no port is attached is
  \<open>undisturbed\<close>.
\<close>

definition undisturbed :: "'w Host \<Rightarrow> bool" where
  "undisturbed H = ((\<forall>w. hs_signal H w = Live) \<and> (\<forall>y w. snd (hs_yield H y w)))"

section \<open>Thrown values\<close>

fun asAgentError :: "'w Host \<Rightarrow> ErrorValue \<Rightarrow> AgentError option" where
  "asAgentError H (Ref a) = hs_agentError H a"
| "asAgentError H e = None"

fun isUserFacingError :: "'w Host \<Rightarrow> ErrorValue \<Rightarrow> bool" where
  "isUserFacingError H (Ref a) = (eo_isError (hs_heap H a) \<and> hs_userFacing H a)"
| "isUserFacingError H e = False"

definition toAgentError :: "'w Host \<Rightarrow> ErrorValue \<Rightarrow> AgentError" where
  "toAgentError H e =
     (case asAgentError H e of
        Some ag \<Rightarrow> ag
      | None \<Rightarrow> \<lparr>ag_message = messageText (hs_heap H) e, ag_type = UnknownError, ag_recoverable = False, ag_cause = Some e\<rparr>)"

definition providerErrorOf :: "'w Host \<Rightarrow> ErrorValue \<Rightarrow> AgentError" where
  "providerErrorOf H e =
     \<lparr>ag_message = messageText (hs_heap H) e, ag_type = ProviderError, ag_recoverable = True, ag_cause = Some e\<rparr>"

section \<open>Interrupted messages\<close>

definition INTERRUPTED_MARKER :: string where
  "INTERRUPTED_MARKER = ''[interrupted]''"

definition newlines :: string where
  "newlines = [CHR 0x0A, CHR 0x0A]"

definition assemblePartialMessage :: "string \<Rightarrow> string \<Rightarrow> Message option" where
  "assemblePartialMessage body thinking =
     (if body = [] \<and> thinking = [] then None
      else Some (plainMessage Assistant
             ((if thinking = [] then [] else [ThinkingBlock thinking None]) @
              (if body \<noteq> [] then [TextBlock (body @ newlines @ INTERRUPTED_MARKER)] else [TextBlock INTERRUPTED_MARKER]))))"

definition assembleSafeMessage :: "string \<Rightarrow> string \<Rightarrow> Message option" where
  "assembleSafeMessage body thinking =
     (if body = [] \<and> thinking = [] then None
      else Some (plainMessage Assistant
             ((if thinking = [] then [] else [ThinkingBlock thinking None]) @
              (if body \<noteq> [] then [TextBlock body] else []))))"

fun formatReasonForToolResult :: "AbortReason option \<Rightarrow> string" where
  "formatReasonForToolResult None = ''interrupted''"
| "formatReasonForToolResult (Some (UserCancel source pressed)) = ''user pressed '' @ source"
| "formatReasonForToolResult (Some (IdleTimeout timeoutMs chunks elapsed)) =
     ''stream idle '' @ show_nat (timeoutMs div 1000) @ ''s, '' @ show_nat chunks @ '' chunks received''"
| "formatReasonForToolResult (Some (ParentAbort r)) = ''parent aborted''"
| "formatReasonForToolResult (Some (ExternalSignal origin)) = withDefault origin ''external signal''"

datatype CleanupOutcome = NoCleanup | CleanupData "Message option" "ToolResultBlock list"

definition placeholderFor :: "AbortReason option \<Rightarrow> ToolUseBlock \<Rightarrow> ToolResultBlock" where
  "placeholderFor reason call =
     \<lparr>rb_toolUseId = ub_id call,
      rb_content = ''[Tool execution cancelled: '' @ formatReasonForToolResult reason @ '']'',
      rb_isError = Some True, rb_disposition = None\<rparr>"

definition buildCleanup :: "(string \<times> string) option \<Rightarrow> ToolUseBlock list \<Rightarrow> AbortReason option \<Rightarrow> CleanupOutcome" where
  "buildCleanup partial unexecuted reason =
     (let partialAssistant = (case partial of Some (body, thinking) \<Rightarrow> assemblePartialMessage body thinking | None \<Rightarrow> None);
          placeholders = map (placeholderFor reason) unexecuted
      in if partialAssistant = None \<and> placeholders = [] then NoCleanup
         else CleanupData partialAssistant placeholders)"

text \<open>Neither kind of message requests a tool, so neither leaves a call without a result.\<close>

lemma interrupted_message_calls:
  "assemblePartialMessage body thinking = Some m \<Longrightarrow> extractToolCalls m = [] \<and> toolResultsOf m = [] \<and> ms_role m = Assistant"
  "assembleSafeMessage body thinking = Some m \<Longrightarrow> extractToolCalls m = [] \<and> toolResultsOf m = [] \<and> ms_role m = Assistant"
  by (auto simp: assemblePartialMessage_def assembleSafeMessage_def extractToolCalls_def toolResultsOf_def
        List.map_filter_simps split: if_splits)

lemma placeholder_id [simp]: "rb_toolUseId (placeholderFor r c) = ub_id c"
  by (simp add: placeholderFor_def)

end
