(* ===== verification/Loop_Tools.thy ===== *)
theory Loop_Tools
  imports Loop_Host
begin

text \<open>
  Execution of a batch of tool calls (\<^verbatim>\<open>packages/core/src/loop/tool-executor.ts\<close>): the plan of
  the batch (the limit of calls per turn, the gate of exclusive control tools), the serial and
  the parallel way of running it, and the observation of side effects. In the parallel way
  every started call is a task that moves through phases; \<open>hs_pick\<close> says which task's pending
  promise settles next, so a run takes any interleaving that the world chooses.
\<close>

section \<open>Results as the model reads them\<close>

definition COMMITMENT_SIGNAL :: string where
  "COMMITMENT_SIGNAL = ''[Commitment already sent to user. Do not restate.]''"

text \<open>A limit of 0 is falsy and truncates nothing.\<close>

definition applyMaxResultChars :: "'w Host \<Rightarrow> ToolResult \<Rightarrow> nat option \<Rightarrow> ToolResult" where
  "applyMaxResultChars H r maxChars =
     (case maxChars of
        None \<Rightarrow> r
      | Some m \<Rightarrow>
          if m = 0 \<or> isError r \<or> js_length (tr_content r) \<le> m then r
          else r\<lparr>tr_content :=
                   js_take m (tr_content r) @ newlines @ ''[truncated: showing first '' @ hs_locale H m @ '' of '' @
                   hs_locale H (js_length (tr_content r)) @ '' chars, '' @
                   hs_locale H (js_length (tr_content r) - m) @ '' chars omitted]''\<rparr>)"

definition contentForLLM :: "ToolResult \<Rightarrow> string" where
  "contentForLLM r = (if tr_committedToUser r then tr_content r @ newlines @ COMMITMENT_SIGNAL else tr_content r)"

definition resultBlock :: "string \<Rightarrow> ToolResult \<Rightarrow> ToolResultBlock" where
  "resultBlock i r =
     \<lparr>rb_toolUseId = i, rb_content = contentForLLM r, rb_isError = tr_isError r, rb_disposition = None\<rparr>"

definition errorBlock :: "string \<Rightarrow> string \<Rightarrow> ToolResultBlock" where
  "errorBlock i content = \<lparr>rb_toolUseId = i, rb_content = content, rb_isError = Some True, rb_disposition = None\<rparr>"

definition rejectedResultBlock :: "ToolUseBlock \<Rightarrow> ToolResult \<Rightarrow> ToolResultBlock" where
  "rejectedResultBlock call r =
     \<lparr>rb_toolUseId = ub_id call, rb_content = tr_content r, rb_isError = Some True,
      rb_disposition = toolResultDisposition (tr_presentation r)\<rparr>"

section \<open>The plan of a batch\<close>

datatype PlannedToolCall =
    RunCall ToolUseBlock "ToolDefinition option"
  | RejectCall ToolUseBlock ToolResult

fun plannedCall :: "PlannedToolCall \<Rightarrow> ToolUseBlock" where
  "plannedCall (RunCall c t) = c"
| "plannedCall (RejectCall c r) = c"

fun isRun :: "PlannedToolCall \<Rightarrow> bool" where
  "isRun (RunCall c t) = True"
| "isRun (RejectCall c r) = False"

type_synonym toolMap = "(string, ToolDefinition) omap"

text \<open>The map of the tools by name: a later definition of a name replaces the earlier one.\<close>

definition toolMapOf :: "ToolDefinition list \<Rightarrow> toolMap" where
  "toolMapOf tools = fold (\<lambda>t m. omap_set (td_name t) t m) tools []"

definition toolOf :: "toolMap \<Rightarrow> ToolUseBlock \<Rightarrow> ToolDefinition option" where
  "toolOf tm call = omap_get tm (ub_name call)"

definition quotedName :: "string \<Rightarrow> string" where
  "quotedName name = [CHR 0x22] @ name @ [CHR 0x22]"

definition createMaxCallsError :: "string \<Rightarrow> nat \<Rightarrow> ToolResult" where
  "createMaxCallsError name limit =
     errorResult (''Tool '' @ quotedName name @ '' can be called at most '' @ show_nat limit @ '' time'' @
       (if limit = 1 then '''' else ''s'') @ '' in one turn. '' @
       ''This call was not started. Combine the request with an already-started call or retry in a later turn.'')"

text \<open>\<open>counts\<close> is \<^verbatim>\<open>callCounts\<close>: the calls seen so far of each limited name.\<close>

primrec planFrom :: "toolMap \<Rightarrow> (string \<Rightarrow> nat) \<Rightarrow> ToolUseBlock list \<Rightarrow> PlannedToolCall list" where
  "planFrom tm counts [] = []"
| "planFrom tm counts (call # calls) =
     (case Option.bind (toolOf tm call) td_maxCallsPerTurn of
        None \<Rightarrow> RunCall call (toolOf tm call) # planFrom tm counts calls
      | Some limit \<Rightarrow>
          (let nextCount = counts (ub_name call) + 1;
               counts' = counts(ub_name call := nextCount)
           in (if nextCount > limit then RejectCall call (createMaxCallsError (ub_name call) limit)
               else RunCall call (toolOf tm call)) # planFrom tm counts' calls))"

definition planToolCalls :: "ToolUseBlock list \<Rightarrow> toolMap \<Rightarrow> PlannedToolCall list" where
  "planToolCalls calls tm = planFrom tm (\<lambda>_. 0) calls"

section \<open>The gate of exclusive control tools\<close>

record ExclusiveControl =
  ec_enabled :: "string list"
  ec_toolsStartedBefore :: bool

definition isExclusive :: "toolMap \<Rightarrow> ToolUseBlock \<Rightarrow> bool" where
  "isExclusive tm call = (case toolOf tm call of None \<Rightarrow> False | Some t \<Rightarrow> td_exclusiveInitialControl t \<noteq> None)"

definition exclusiveRefusal :: "toolMap \<Rightarrow> ExclusiveControl \<Rightarrow> ToolUseBlock list \<Rightarrow> ToolUseBlock \<Rightarrow> string option" where
  "exclusiveRefusal tm control exclusive only =
     (if length exclusive > 1 then Some ''Only one exclusive control call is allowed in a batch.''
      else if ec_toolsStartedBefore control
      then Some (''Tool '' @ quotedName (ub_name only) @ '' is only available before any tool has started in this run; continue the task without it.'')
      else if ub_name only \<notin> set (ec_enabled control)
      then Some (''Tool '' @ quotedName (ub_name only) @ '' is not available in this run.'')
      else (case Option.bind (toolOf tm only) td_exclusiveInitialControl of
              Some validateInput \<Rightarrow> validateInput (ub_input only)
            | None \<Rightarrow> None))"

definition skippedResult :: "ToolUseBlock \<Rightarrow> ToolUseBlock \<Rightarrow> ToolResult" where
  "skippedResult only call =
     (errorResult (''Not started: this batch selected the exclusive control call '' @ quotedName (ub_name only) @ ''.''))
       \<lparr>tr_presentation := Some (NotStartedPresentation (ub_id call) (ub_name only))\<rparr>"

text \<open>
  A selected call is the only exclusive one of its batch, so comparing a call with it
  (\<^verbatim>\<open>call === only\<close>) is asking whether the call is exclusive.
\<close>

definition gateExclusiveControl ::
  "ToolUseBlock list \<Rightarrow> toolMap \<Rightarrow> ExclusiveControl \<Rightarrow> (PlannedToolCall list \<times> string option) option" where
  "gateExclusiveControl calls tm control =
     (case filter (isExclusive tm) calls of
        [] \<Rightarrow> None
      | only # others \<Rightarrow>
          Some (case exclusiveRefusal tm control (only # others) only of
                  Some refusal \<Rightarrow>
                    (map (\<lambda>call. RejectCall call (errorResult (refusal @ '' No call in this batch was started.''))) calls, None)
                | None \<Rightarrow>
                    (map (\<lambda>call. if isExclusive tm call then RunCall call (toolOf tm call)
                                 else RejectCall call (skippedResult only call)) calls,
                     Some (ub_id only))))"

section \<open>Observations\<close>

definition observeToolOutcome ::
  "'w Host \<Rightarrow> ToolUseBlock \<Rightarrow> ObservedResult \<Rightarrow> ObservedError option \<Rightarrow> int \<Rightarrow> nat \<Rightarrow> ('w, unit) loopProgram" where
  "observeToolOutcome H call outcome err duration extent =
     emit H (ToolExecutionObserved (ub_id call) (ub_name call) outcome err duration extent)"

text \<open>The text given for a call that an abort kept from starting, as UTF-8 bytes.\<close>

definition notStartedText :: string where
  "notStartedText = map (char_of :: nat \<Rightarrow> char)
     [230, 156, 170, 229, 188, 128, 229, 167, 139, 239, 188, 154, 232, 191, 144, 232, 161, 140,
      229, 183, 178, 229, 143, 150, 230, 182, 136]"

definition observeSkipped :: "'w Host \<Rightarrow> ToolUseBlock list \<Rightarrow> ('w, unit) loopProgram" where
  "observeSkipped H = eachOf (\<lambda>call. observeToolOutcome H call ObservedCancelled (Some (ObservedText notStartedText)) 0 0)"

fun completionStatus :: "(ErrorValue, ToolResult) result \<Rightarrow> bool \<Rightarrow> SideEffectStatus" where
  "completionStatus (Inr r) ab = (if isError r then EffectFailed else EffectOk)"
| "completionStatus (Inl e) ab = (if ab then EffectAborted else EffectFailed)"

text \<open>\<^verbatim>\<open>throw toolError\<close> or return the result.\<close>

definition rethrow :: "(ErrorValue, 'a) result \<Rightarrow> ('w, 'a) loopProgram" where
  "rethrow r = outside (\<lambda>w. (w, r))"

definition executeObservedTool :: "'w Host \<Rightarrow> ToolDefinition \<Rightarrow> ToolUseBlock \<Rightarrow> ('w, ToolResult) loopProgram" where
  "executeObservedTool H tool call =
     (case (if td_isReadOnly tool then None else hs_observer H) of
        None \<Rightarrow> outside (hs_execute H tool (ub_input call) (ub_id call))
      | Some observer \<Rightarrow>
          bnd (outside (so_start observer tool (ub_input call))) (\<lambda>token.
          bnd (attempt (outside (hs_execute H tool (ub_input call) (ub_id call)))) (\<lambda>r.
          bnd (aborted H) (\<lambda>ab.
          bnd (outside (so_finish observer token (completionStatus r ab))) (\<lambda>_.
          rethrow r)))))"

section \<open>The end of a call\<close>

definition failureContent :: "'w Host \<Rightarrow> ErrorValue \<Rightarrow> string" where
  "failureContent H e =
     (if isUserFacingError H e then messageText (hs_heap H) e
      else ''Tool execution failed: '' @ messageText (hs_heap H) e)"

definition announceEnd :: "'w Host \<Rightarrow> ToolUseBlock \<Rightarrow> ToolResult \<Rightarrow> int \<Rightarrow> ('w, unit) loopProgram" where
  "announceEnd H call r duration =
     bnd (yieldTo H (YieldToolEnd (ub_id call) (ub_name call) r duration)) (\<lambda>_.
     emit H (ToolCallEnded (ub_id call) (ub_name call) duration (\<not> isError r) (js_length (tr_content r))))"

definition announceStart :: "'w Host \<Rightarrow> ToolUseBlock \<Rightarrow> ('w, unit) loopProgram" where
  "announceStart H call =
     bnd (yieldTo H (YieldToolStart (ub_id call) (ub_name call) (ub_input call))) (\<lambda>_.
     emit H (ToolCallStarted (ub_id call) (ub_name call) (ub_input call)))"

definition successError :: "ToolResult \<Rightarrow> ObservedError option" where
  "successError r = (if isError r then Some (ObservedText (tr_content r)) else None)"

definition observeSuccess :: "'w Host \<Rightarrow> ToolUseBlock \<Rightarrow> ToolResult \<Rightarrow> int \<Rightarrow> ('w, unit) loopProgram" where
  "observeSuccess H call r duration =
     observeToolOutcome H call (if isError r then ObservedFailure else ObservedSuccess)
       (successError r) duration (js_length (tr_content r))"

text \<open>A batch ends with the results it has, the calls left for placeholders and, when an abort came while a tool ran, the instant at which the tool gave way.\<close>

record BatchResult =
  bt_completedResults :: "ToolResultBlock list"
  bt_unexecutedToolUses :: "ToolUseBlock list"
  bt_abortedDuringToolAt :: "rat option"
  bt_startedTools :: bool

definition batchOf :: "ToolResultBlock list \<Rightarrow> ToolUseBlock list \<Rightarrow> rat option \<Rightarrow> bool \<Rightarrow> BatchResult" where
  "batchOf results unexecuted gaveWay started =
     \<lparr>bt_completedResults = results, bt_unexecutedToolUses = unexecuted,
      bt_abortedDuringToolAt = gaveWay, bt_startedTools = started\<rparr>"

section \<open>One call after another\<close>

definition missingToolContent :: "toolMap \<Rightarrow> ToolUseBlock \<Rightarrow> string" where
  "missingToolContent tm call =
     ''Tool '' @ quotedName (ub_name call) @ '' not found. Available tools: '' @ join_with '', '' (map fst tm)"

text \<open>
  The calls that remain are those of the remaining plan: the plan has one entry per call, in
  order. \<open>results\<close> and \<open>started\<close> are what the loop has gathered.
\<close>

primrec serialFrom ::
  "'w Host \<Rightarrow> toolMap \<Rightarrow> PlannedToolCall list \<Rightarrow> ToolResultBlock list \<Rightarrow> bool \<Rightarrow> ('w, BatchResult) loopProgram" where
  "serialFrom H tm [] results started = ret (batchOf results [] None started)"
| "serialFrom H tm (planned # rest) results started =
     bnd (aborted H) (\<lambda>ab.
     if ab then
       bnd (observeSkipped H (map plannedCall (planned # rest))) (\<lambda>_.
       ret (batchOf results (map plannedCall (planned # rest)) None started))
     else (case planned of
       RejectCall call r \<Rightarrow>
         bnd (observeToolOutcome H call ObservedRefused (Some (ObservedText (tr_content r))) 0 0) (\<lambda>_.
         bnd (yieldTo H (YieldToolEnd (ub_id call) (ub_name call) r 0)) (\<lambda>_.
         serialFrom H tm rest (results @ [rejectedResultBlock call r]) started))
     | RunCall call tool \<Rightarrow>
         bnd (announceStart H call) (\<lambda>_.
         bnd (dateNow H) (\<lambda>startTime.
         (case tool of
            None \<Rightarrow>
              bnd (dateNow H) (\<lambda>now.
              bnd (observeToolOutcome H call ObservedRefused (Some (ObservedText (missingToolContent tm call)))
                     (now - startTime) (js_length (missingToolContent tm call))) (\<lambda>_.
              bnd (announceEnd H call (errorResult (missingToolContent tm call)) (now - startTime)) (\<lambda>_.
              serialFrom H tm rest (results @ [errorBlock (ub_id call) (missingToolContent tm call)]) started)))
          | Some t \<Rightarrow>
              bnd (attempt (executeObservedTool H t call)) (\<lambda>outcome.
              bnd (dateNow H) (\<lambda>now.
              case outcome of
                Inr raw \<Rightarrow>
                  (let r = applyMaxResultChars H raw (td_maxResultChars t) in
                   bnd (observeSuccess H call r (now - startTime)) (\<lambda>_.
                   bnd (announceEnd H call r (now - startTime)) (\<lambda>_.
                   bnd (aborted H) (\<lambda>ab'.
                   if ab' then
                     bnd (observeSkipped H (map plannedCall rest)) (\<lambda>_.
                     bnd (perfNow H) (\<lambda>gaveWay.
                     ret (batchOf (results @ [resultBlock (ub_id call) r]) (map plannedCall rest) (Some gaveWay) True)))
                   else serialFrom H tm rest (results @ [resultBlock (ub_id call) r]) True))))
              | Inl e \<Rightarrow>
                  bnd (aborted H) (\<lambda>ab'.
                  if ab' then
                    bnd (observeToolOutcome H call ObservedUnknown (Some (ObservedThrown e)) (now - startTime) 0) (\<lambda>_.
                    bnd (observeSkipped H (map plannedCall rest)) (\<lambda>_.
                    bnd (perfNow H) (\<lambda>gaveWay.
                    ret (batchOf results (map plannedCall (planned # rest)) (Some gaveWay) True))))
                  else
                    bnd (observeToolOutcome H call ObservedFailure (Some (ObservedText (failureContent H e)))
                           (now - startTime) (js_length (failureContent H e))) (\<lambda>_.
                    bnd (announceEnd H call (errorResult (failureContent H e)) (now - startTime)) (\<lambda>_.
                    serialFrom H tm rest (results @ [errorBlock (ub_id call) (failureContent H e)]) True))))))))))"

definition runSerialBatch :: "'w Host \<Rightarrow> toolMap \<Rightarrow> PlannedToolCall list \<Rightarrow> ('w, BatchResult) loopProgram" where
  "runSerialBatch H tm planned = serialFrom H tm planned [] False"

section \<open>All calls at once\<close>

definition canRunParallel :: "PlannedToolCall list \<Rightarrow> bool" where
  "canRunParallel planned =
     (let runnable = filter isRun planned
      in 2 \<le> length runnable \<and>
         list_all (\<lambda>p. case p of RunCall c (Some t) \<Rightarrow> td_isParallelSafe t | _ \<Rightarrow> False) runnable)"

text \<open>
  A started call awaits its observer's start, the tool, the observer's finish and the emission
  of its outcome, in this order; then its promise is settled.
\<close>

datatype TaskPhase =
    Beginning
  | Executing "nat option"
  | Finishing nat SideEffectStatus "(ErrorValue, ToolResult) result"
  | Reporting "(ErrorValue, ToolResult) result"
  | SettledTask "(ErrorValue, ToolResult) result"


fun settledOutcome :: "TaskPhase \<Rightarrow> (ErrorValue, ToolResult) result option" where
  "settledOutcome (SettledTask r) = Some r"
| "settledOutcome phase = None"

fun stepsLeft :: "TaskPhase \<Rightarrow> nat" where
  "stepsLeft Beginning = 4"
| "stepsLeft (Executing token) = 3"
| "stepsLeft (Finishing token status r) = 2"
| "stepsLeft (Reporting r) = 1"
| "stepsLeft (SettledTask r) = 0"

record ToolTask =
  tk_call :: ToolUseBlock
  tk_tool :: ToolDefinition
  tk_phase :: TaskPhase

definition observerFor :: "'w Host \<Rightarrow> ToolDefinition \<Rightarrow> 'w SideEffectObserver option" where
  "observerFor H tool = (if td_isReadOnly tool then None else hs_observer H)"

definition reportTask :: "'w Host \<Rightarrow> int \<Rightarrow> ToolUseBlock \<Rightarrow> (ErrorValue, ToolResult) result \<Rightarrow> ('w, unit) loopProgram" where
  "reportTask H startTime call r =
     (case r of
        Inr raw \<Rightarrow> bnd (dateNow H) (\<lambda>now. observeSuccess H call raw (now - startTime))
      | Inl e \<Rightarrow>
          bnd (aborted H) (\<lambda>ab.
          bnd (dateNow H) (\<lambda>now.
          observeToolOutcome H call (if ab then ObservedUnknown else ObservedFailure) (Some (ObservedThrown e))
            (now - startTime) 0)))"

fun advanceTask ::
  "'w Host \<Rightarrow> int \<Rightarrow> ToolUseBlock \<Rightarrow> ToolDefinition \<Rightarrow> TaskPhase \<Rightarrow> ('w, TaskPhase) loopProgram" where
  "advanceTask H startTime call tool Beginning =
     (case observerFor H tool of
        None \<Rightarrow> ret (Executing None)
      | Some observer \<Rightarrow>
          bnd (attempt (outside (so_start observer tool (ub_input call)))) (\<lambda>r.
          ret (case r of Inl e \<Rightarrow> Reporting (Inl e) | Inr token \<Rightarrow> Executing (Some token))))"
| "advanceTask H startTime call tool (Executing token) =
     bnd (attempt (outside (hs_execute H tool (ub_input call) (ub_id call)))) (\<lambda>r.
     bnd (aborted H) (\<lambda>ab.
     ret (case token of None \<Rightarrow> Reporting r | Some n \<Rightarrow> Finishing n (completionStatus r ab) r)))"
| "advanceTask H startTime call tool (Finishing token status r) =
     (case observerFor H tool of
        None \<Rightarrow> ret (Reporting r)
      | Some observer \<Rightarrow>
          bnd (attempt (outside (so_finish observer token status))) (\<lambda>u.
          ret (Reporting (case u of Inl e \<Rightarrow> Inl e | Inr u' \<Rightarrow> r))))"
| "advanceTask H startTime call tool (Reporting r) =
     bnd (reportTask H startTime call r) (\<lambda>u. ret (SettledTask r))"
| "advanceTask H startTime call tool (SettledTask r) = ret (SettledTask r)"

definition pendingTasks :: "ToolTask list \<Rightarrow> nat list" where
  "pendingTasks tasks = filter (\<lambda>i. settledOutcome (tk_phase (tasks ! i)) = None) [0..<length tasks]"

text \<open>One turn of the event loop: the world picks a pending task, which moves one phase on.\<close>

definition stepTasks :: "'w Host \<Rightarrow> int \<Rightarrow> ToolTask list \<Rightarrow> ('w, ToolTask list) loopProgram" where
  "stepTasks H startTime tasks =
     (case pendingTasks tasks of
        [] \<Rightarrow> ret tasks
      | i # others \<Rightarrow>
          bnd (look (\<lambda>w. (i # others) ! (hs_pick H w mod length (i # others)))) (\<lambda>k.
          bnd (advanceTask H startTime (tk_call (tasks ! k)) (tk_tool (tasks ! k)) (tk_phase (tasks ! k))) (\<lambda>phase.
          ret (tasks[k := (tasks ! k)\<lparr>tk_phase := phase\<rparr>]))))"

text \<open>
  \<^verbatim>\<open>Promise.allSettled\<close>: turns until every task is settled. A task takes at most four, so
  four turns per task suffice (\<open>settleTasks_enough\<close>).
\<close>

primrec turnsOf :: "'w Host \<Rightarrow> int \<Rightarrow> nat \<Rightarrow> ToolTask list \<Rightarrow> ('w, ToolTask list) loopProgram" where
  "turnsOf H startTime 0 tasks = ret tasks"
| "turnsOf H startTime (Suc n) tasks = bnd (stepTasks H startTime tasks) (turnsOf H startTime n)"

definition settleTasks :: "'w Host \<Rightarrow> int \<Rightarrow> ToolTask list \<Rightarrow> ('w, (ErrorValue, ToolResult) result list) loopProgram" where
  "settleTasks H startTime tasks =
     bnd (turnsOf H startTime (4 * length tasks) tasks) (\<lambda>tasks'.
     ret (List.map_filter (\<lambda>t. settledOutcome (tk_phase t)) tasks'))"

definition tasksOf :: "PlannedToolCall list \<Rightarrow> ToolTask list" where
  "tasksOf planned =
     List.map_filter (\<lambda>p. case p of
         RunCall call (Some t) \<Rightarrow> Some \<lparr>tk_call = call, tk_tool = t, tk_phase = Beginning\<rparr>
       | _ \<Rightarrow> None) planned"

text \<open>
  The outcomes are walked in the order of the plan. A batch runs in parallel only when every
  started call has its tool, so the case of a started call without one does not occur.
\<close>

primrec collectFrom ::
  "'w Host \<Rightarrow> int \<Rightarrow> rat \<Rightarrow> PlannedToolCall list \<Rightarrow> (ErrorValue, ToolResult) result list \<Rightarrow>
   ToolResultBlock list \<Rightarrow> ToolUseBlock list \<Rightarrow> rat option \<Rightarrow> ('w, BatchResult) loopProgram" where
  "collectFrom H duration settledAt [] settled results unexecuted gaveWay = ret (batchOf results unexecuted gaveWay True)"
| "collectFrom H duration settledAt (planned # rest) settled results unexecuted gaveWay =
     (case planned of
       RejectCall call r \<Rightarrow>
         bnd (observeToolOutcome H call ObservedRefused (Some (ObservedText (tr_content r))) 0 0) (\<lambda>u.
         bnd (yieldTo H (YieldToolEnd (ub_id call) (ub_name call) r 0)) (\<lambda>v.
         collectFrom H duration settledAt rest settled (results @ [rejectedResultBlock call r]) unexecuted gaveWay))
     | RunCall call tool \<Rightarrow>
         (case settled of
            [] \<Rightarrow> ret (batchOf results unexecuted gaveWay True)
          | Inr raw # outcomes \<Rightarrow>
              (let r = applyMaxResultChars H raw (Option.bind tool td_maxResultChars) in
               bnd (announceEnd H call r duration) (\<lambda>u.
               collectFrom H duration settledAt rest outcomes (results @ [resultBlock (ub_id call) r]) unexecuted gaveWay))
          | Inl e # outcomes \<Rightarrow>
              bnd (aborted H) (\<lambda>ab.
              if ab then collectFrom H duration settledAt rest outcomes results (unexecuted @ [call]) (Some settledAt)
              else
                bnd (announceEnd H call (errorResult (failureContent H e)) duration) (\<lambda>u.
                collectFrom H duration settledAt rest outcomes
                  (results @ [errorBlock (ub_id call) (failureContent H e)]) unexecuted gaveWay))))"

definition runParallelBatch :: "'w Host \<Rightarrow> PlannedToolCall list \<Rightarrow> ('w, BatchResult) loopProgram" where
  "runParallelBatch H planned =
     bnd (aborted H) (\<lambda>ab.
     if ab then
       bnd (observeSkipped H (map plannedCall planned)) (\<lambda>u.
       ret (batchOf [] (map plannedCall planned) None False))
     else
       bnd (eachOf (\<lambda>p. announceStart H (plannedCall p)) (filter isRun planned)) (\<lambda>u.
       bnd (dateNow H) (\<lambda>startTime.
       bnd (settleTasks H startTime (tasksOf planned)) (\<lambda>settled.
       bnd (perfNow H) (\<lambda>settledAt.
       bnd (dateNow H) (\<lambda>now.
       collectFrom H (now - startTime) settledAt planned settled [] [] None))))))"

section \<open>A batch\<close>

datatype ControlOutcome = ControlSucceeded | ControlFailed

record ExecuteToolCallsResult =
  xr_batch :: BatchResult
  xr_exclusive :: "(string \<times> ControlOutcome) option"

definition exclusiveOutcome :: "BatchResult \<Rightarrow> string option \<Rightarrow> (string \<times> ControlOutcome) option" where
  "exclusiveOutcome batch selected =
     (case selected of
        None \<Rightarrow> None
      | Some i \<Rightarrow>
          if bt_unexecutedToolUses batch \<noteq> [] then None
          else map_option (\<lambda>r. (i, if rb_isError r = Some True then ControlFailed else ControlSucceeded))
                 (List.find (\<lambda>r. rb_toolUseId r = i) (bt_completedResults batch)))"

definition plannedBatch :: "toolMap \<Rightarrow> ExclusiveControl \<Rightarrow> ToolUseBlock list \<Rightarrow> PlannedToolCall list \<times> string option" where
  "plannedBatch tm control calls =
     (case gateExclusiveControl calls tm control of
        Some gated \<Rightarrow> gated
      | None \<Rightarrow> (planToolCalls calls tm, None))"

definition executeToolCalls ::
  "'w Host \<Rightarrow> ToolDefinition list \<Rightarrow> ExclusiveControl \<Rightarrow> ToolUseBlock list \<Rightarrow> ('w, ExecuteToolCallsResult) loopProgram" where
  "executeToolCalls H tools control calls =
     (let tm = toolMapOf tools; gated = plannedBatch tm control calls in
      bnd (if canRunParallel (fst gated) then runParallelBatch H (fst gated) else runSerialBatch H tm (fst gated)) (\<lambda>batch.
      ret \<lparr>xr_batch = batch, xr_exclusive = exclusiveOutcome batch (snd gated)\<rparr>))"

end
