(* ===== verification/Loop_Records.thy ===== *)
theory Loop_Records
  imports Loop_Host
begin

text \<open>
  The transcript of a run: how the consumer rebuilds messages from what the loop yields
  (\<^verbatim>\<open>packages/orchestrator/src/runtime/track-messages.ts\<close>), and the record that is stored with
  its derived views (\<^verbatim>\<open>packages/core/src/loop/run-record-builder.ts\<close>).
\<close>

section \<open>Messages from yields\<close>

text \<open>The messages rebuilt so far and the results that wait for the end of their turn.\<close>

type_synonym Tracked = "Message list \<times> ToolResultBlock list"

definition trackedBlock :: "string \<Rightarrow> ToolResult \<Rightarrow> ToolResultBlock" where
  "trackedBlock i r =
     \<lparr>rb_toolUseId = i, rb_content = tr_content r, rb_isError = tr_isError r,
      rb_disposition = toolResultDisposition (tr_presentation r)\<rparr>"

fun trackMessages :: "AgentYield \<Rightarrow> Tracked \<Rightarrow> Tracked" where
  "trackMessages (YieldAssistant m) (ms, waiting) = (ms @ [m], waiting)"
| "trackMessages (YieldToolEnd i n r d) (ms, waiting) = (ms, waiting @ [trackedBlock i r])"
| "trackMessages (YieldTurn n u) (ms, waiting) =
     (if waiting \<noteq> [] then (ms @ [toolResultMessage waiting], []) else (ms, waiting))"
| "trackMessages y st = st"

fun trackEffect :: "LoopEffect \<Rightarrow> Tracked \<Rightarrow> Tracked" where
  "trackEffect (Yielded y) st = trackMessages y st"
| "trackEffect (Emitted e) st = st"

definition tracked :: "LoopEffect list \<Rightarrow> Tracked \<Rightarrow> Tracked" where
  "tracked tr st = fold trackEffect tr st"

lemma tracked_simps [simp]:
  "tracked [] st = st"
  "tracked (e # tr) st = tracked tr (trackEffect e st)"
  "tracked (tr @ tr') st = tracked tr' (tracked tr st)"
  by (simp_all add: tracked_def)

text \<open>The messages that a consumer has at the end of a run.\<close>

definition transcript :: "LoopEffect list \<Rightarrow> Message list" where
  "transcript tr = fst (tracked tr ([], []))"

section \<open>The stored record and its views\<close>

record RunRecordInput =
  rr_timestamp :: string
  rr_messages :: "Message list"
  rr_usage :: TokenUsage
  rr_source :: "string option"
  rr_advancement :: "json option"

definition buildRunRecord ::
  "Message \<Rightarrow> Message list \<Rightarrow> AgentResult \<Rightarrow> string option \<Rightarrow> json option \<Rightarrow> string option \<Rightarrow> string \<Rightarrow> RunRecordInput" where
  "buildRunRecord user newMessages agentResult source advancement timestamp now =
     \<lparr>rr_timestamp = withDefault timestamp now, rr_messages = user # newMessages,
      rr_usage = resultUsage agentResult, rr_source = source, rr_advancement = advancement\<rparr>"

text \<open>\<open>None\<close> is the exception thrown on an empty sequence.\<close>

fun userMessageOf :: "Message list \<Rightarrow> Message option" where
  "userMessageOf [] = None"
| "userMessageOf (m # ms) = Some m"

definition finalAssistantMessageOf :: "Message list \<Rightarrow> Message" where
  "finalAssistantMessageOf ms = withDefault (findLastAssistantMessage ms) emptyAssistantMessage"

record ToolCallRecord =
  tc_id :: string
  tc_name :: string
  tc_input :: ToolInput
  tc_result :: string
  tc_isError :: "bool option"

definition buildToolCallRecord :: "ToolUseBlock \<Rightarrow> ToolResultBlock option \<Rightarrow> ToolCallRecord" where
  "buildToolCallRecord use r =
     \<lparr>tc_id = ub_id use, tc_name = ub_name use, tc_input = ub_input use,
      tc_result = (case r of Some b \<Rightarrow> rb_content b | None \<Rightarrow> ''''),
      tc_isError = Option.bind r rb_isError\<rparr>"

text \<open>A later result of an id replaces the earlier one.\<close>

definition resultsById :: "Message list \<Rightarrow> string \<rightharpoonup> ToolResultBlock" where
  "resultsById ms = map_of (rev (map (\<lambda>b. (rb_toolUseId b, b)) (concat (map toolResultsOf ms))))"

definition deriveToolCalls :: "Message list \<Rightarrow> ToolCallRecord list" where
  "deriveToolCalls ms =
     map (\<lambda>use. buildToolCallRecord use (resultsById ms (ub_id use))) (concat (map extractToolCalls ms))"

section \<open>Paired messages\<close>

text \<open>
  The rule that the model's providers impose: a message with tool calls is followed at once by
  a user message with exactly one result for each of them, and results stand nowhere else.
\<close>

definition answers :: "Message \<Rightarrow> Message \<Rightarrow> bool" where
  "answers call reply \<longleftrightarrow>
     ms_role reply = User \<and> extractToolCalls reply = [] \<and>
     mset (map rb_toolUseId (toolResultsOf reply)) = mset (map ub_id (extractToolCalls call)) \<and>
     distinct (map ub_id (extractToolCalls call))"

fun paired :: "Message list \<Rightarrow> bool" where
  "paired [] = True"
| "paired (m # ms) =
     (toolResultsOf m = [] \<and>
      (if extractToolCalls m = [] then paired ms
       else (case ms of [] \<Rightarrow> False | reply # rest \<Rightarrow> answers m reply \<and> paired rest)))"

lemma paired_append: "paired ms \<Longrightarrow> paired ms' \<Longrightarrow> paired (ms @ ms')"
proof (induction ms rule: paired.induct)
  case (2 m ms)
  then show ?case by (auto split: list.splits if_splits)
qed simp

lemma paired_single [simp]: "paired [m] \<longleftrightarrow> toolResultsOf m = [] \<and> extractToolCalls m = []"
  by auto

end
