(* ===== verification/Loop_Batch.thy ===== *)
theory Loop_Batch
  imports Loop_Tools Loop_Records
begin

text \<open>
  What a batch of tool calls gives: every call of the batch has one result or is left for one
  placeholder, the results that the loop keeps are the ones its consumer saw end, and the
  calls started are among those that the plan lets run, in their order. All lemmas hold for
  every behaviour of the world.
\<close>

section \<open>Plans\<close>

text \<open>A rejection carries an error that no tool committed to the user.\<close>

fun rejectionOk :: "PlannedToolCall \<Rightarrow> bool" where
  "rejectionOk (RejectCall c r) = (isError r \<and> \<not> tr_committedToUser r)"
| "rejectionOk (RunCall c t) = True"

lemma errorResult_sel [simp]:
  "tr_content (errorResult s) = s" "tr_isError (errorResult s) = Some True"
  "tr_presentation (errorResult s) = None" "\<not> tr_committedToUser (errorResult s)"
  by (simp_all add: errorResult_def)

lemma planFrom_calls [simp]: "map plannedCall (planFrom tm counts calls) = calls"
  by (induction calls arbitrary: counts) (auto simp: Let_def split: option.split)

lemma planFrom_rejections: "list_all rejectionOk (planFrom tm counts calls)"
  by (induction calls arbitrary: counts) (auto simp: Let_def createMaxCallsError_def split: option.split)

lemma gate_calls: "gateExclusiveControl calls tm control = Some (planned, sel) \<Longrightarrow> map plannedCall planned = calls"
  by (auto simp: gateExclusiveControl_def comp_def if_distrib [of plannedCall]
      split: list.splits option.splits cong: if_cong)

lemma gate_rejections: "gateExclusiveControl calls tm control = Some (planned, sel) \<Longrightarrow> list_all rejectionOk planned"
  by (auto simp: gateExclusiveControl_def list_all_iff skippedResult_def split: list.splits option.splits)

lemma plannedBatch_calls [simp]: "map plannedCall (fst (plannedBatch tm control calls)) = calls"
  by (auto simp: plannedBatch_def planToolCalls_def dest: gate_calls split: option.split)

lemma plannedBatch_rejections [simp]: "list_all rejectionOk (fst (plannedBatch tm control calls))"
  by (auto simp: plannedBatch_def planToolCalls_def planFrom_rejections dest: gate_rejections split: option.split)

section \<open>Effects that are not yields\<close>

fun isEmission :: "LoopEffect \<Rightarrow> bool" where
  "isEmission (Emitted e) = True"
| "isEmission (Yielded y) = False"

lemma emissions_tracked: "list_all isEmission tr \<Longrightarrow> tracked tr st = st"
proof (induction tr arbitrary: st)
  case (Cons e tr)
  then show ?case by (cases e) auto
qed simp

lemma emissions_starts: "list_all isEmission tr \<Longrightarrow> starts tr = []"
proof (induction tr)
  case (Cons e tr)
  then show ?case by (cases e) auto
qed simp

definition quietly :: "('w, 'a) loopProgram \<Rightarrow> bool" where
  "quietly m = effectsAre isEmission m"

lemmas quietly_intros = effectsAre_bnd effectsAre_attempt effectsAre_eachOf

lemma quietly_observe: "quietly (observeToolOutcome H call r e d s)"
  by (simp add: quietly_def observeToolOutcome_def emit_def effectsAre_basic)

lemma ends_observe [ends_simps]:
  "ends (observeToolOutcome H call r e d s) w Q =
     Q (hs_emit H (ToolExecutionObserved (ub_id call) (ub_name call) r e d s) w)
       [Emitted (ToolExecutionObserved (ub_id call) (ub_name call) r e d s)] (Done ())"
  by (simp add: observeToolOutcome_def ends_simps)

lemma ends_observeSkipped:
  "ends (observeSkipped H calls) w (\<lambda>w' tr c. c = Done () \<and> list_all isEmission tr)"
proof (induction calls arbitrary: w)
  case Nil
  then show ?case by (simp add: observeSkipped_def ends_simps)
next
  case (Cons call calls)
  show ?case
    unfolding observeSkipped_def eachOf.simps
    by (simp add: ends_simps) (rule ends_mono [OF Cons.IH [unfolded observeSkipped_def]], auto)
qed

lemma ends_skipped:
  assumes "\<And>w' tr. list_all isEmission tr \<Longrightarrow> Q w' tr (Done ())"
  shows "ends (observeSkipped H calls) w Q"
  by (rule ends_mono [OF ends_observeSkipped]) (auto simp: assms)

lemma ends_announceEnd [ends_simps]:
  "ends (announceEnd H call r d) w Q =
     (let y = YieldToolEnd (ub_id call) (ub_name call) r d;
          e = ToolCallEnded (ub_id call) (ub_name call) d (\<not> isError r) (js_length (tr_content r))
      in if snd (hs_yield H y w) then Q (hs_emit H e (fst (hs_yield H y w))) [Yielded y, Emitted e] (Done ())
         else Q (fst (hs_yield H y w)) [Yielded y] Returned)"
  by (simp add: announceEnd_def ends_simps Let_def)

lemma ends_announceStart [ends_simps]:
  "ends (announceStart H call) w Q =
     (let y = YieldToolStart (ub_id call) (ub_name call) (ub_input call);
          e = ToolCallStarted (ub_id call) (ub_name call) (ub_input call)
      in if snd (hs_yield H y w) then Q (hs_emit H e (fst (hs_yield H y w))) [Yielded y, Emitted e] (Done ())
         else Q (fst (hs_yield H y w)) [Yielded y] Returned)"
  by (simp add: announceStart_def ends_simps Let_def)

lemma ends_observeSuccess [ends_simps]:
  "ends (observeSuccess H call r d) w Q =
     ends (observeToolOutcome H call (if isError r then ObservedFailure else ObservedSuccess)
       (successError r) d (js_length (tr_content r))) w Q"
  by (simp add: observeSuccess_def)

lemma executeObserved_no_effects:
  "ends (executeObservedTool H t call) w (\<lambda>w' tr c. tr = [] \<and> c \<noteq> Returned)"
  by (auto simp: executeObservedTool_def rethrow_def ends_simps split: option.split sum.split prod.split)

lemma ends_execute:
  assumes "\<And>w' r. Q w' [] (Done r)" and "\<And>w' e. Q w' [] (Threw e)"
  shows "ends (executeObservedTool H t call) w Q"
  by (rule ends_mono [OF executeObserved_no_effects]) (metis Completion.exhaust assms)

section \<open>Results and calls\<close>

text \<open>
  The block that the loop sends back to the model and the one its consumer stores: the same
  but for the signal that a commitment adds.
\<close>

definition agree :: "ToolResultBlock \<Rightarrow> ToolResultBlock \<Rightarrow> bool" where
  "agree a b \<longleftrightarrow>
     rb_toolUseId a = rb_toolUseId b \<and> rb_isError a = rb_isError b \<and>
     (rb_content a = rb_content b \<or> rb_content a = rb_content b @ newlines @ COMMITMENT_SIGNAL)"

lemma agree_result: "agree (resultBlock i r) (trackedBlock i r)"
  by (simp add: agree_def resultBlock_def trackedBlock_def contentForLLM_def)

lemma agree_error: "agree (errorBlock i s) (trackedBlock i (errorResult s))"
  by (simp add: agree_def errorBlock_def trackedBlock_def)

lemma agree_rejected: "isError r \<Longrightarrow> agree (rejectedResultBlock call r) (trackedBlock (ub_id call) r)"
  by (simp add: agree_def rejectedResultBlock_def trackedBlock_def)

lemmas agree_rules = agree_result agree_error agree_rejected

lemma block_ids [simp]:
  "rb_toolUseId (resultBlock i r) = i" "rb_toolUseId (errorBlock i s) = i"
  "rb_toolUseId (rejectedResultBlock call r) = ub_id call" "rb_toolUseId (trackedBlock i r) = i"
  by (simp_all add: resultBlock_def errorBlock_def rejectedResultBlock_def trackedBlock_def)

lemma batchOf_sel [simp]:
  "bt_completedResults (batchOf rs us t s) = rs" "bt_unexecutedToolUses (batchOf rs us t s) = us"
  "bt_abortedDuringToolAt (batchOf rs us t s) = t" "bt_startedTools (batchOf rs us t s) = s"
  by (simp_all add: batchOf_def)

text \<open>
  \<open>batchAdds tr old b ids\<close>: the batch extends the results it had by some that agree with what
  the consumer saw; these and the calls left over are, in this order, the given ids.
\<close>

definition batchAdds :: "LoopEffect list \<Rightarrow> ToolResultBlock list \<Rightarrow> BatchResult \<Rightarrow> string list \<Rightarrow> bool" where
  "batchAdds tr old b ids \<longleftrightarrow>
     (\<exists>rs bs. bt_completedResults b = old @ rs \<and> (\<forall>ms waiting. tracked tr (ms, waiting) = (ms, waiting @ bs)) \<and>
              list_all2 agree rs bs \<and> map rb_toolUseId rs @ map ub_id (bt_unexecutedToolUses b) = ids)"

lemma batchAdds_Nil [simp]:
  "batchAdds [] old b ids \<longleftrightarrow> bt_completedResults b = old \<and> map ub_id (bt_unexecutedToolUses b) = ids"
  by (auto simp: batchAdds_def)

lemma batchAdds_emitted [simp]: "batchAdds (Emitted e # tr) old b ids = batchAdds tr old b ids"
  by (simp add: batchAdds_def)

lemma batchAdds_started [simp]: "batchAdds (Yielded (YieldToolStart i n v) # tr) old b ids = batchAdds tr old b ids"
  by (simp add: batchAdds_def)

lemma batchAdds_emissions [simp]: "list_all isEmission tr0 \<Longrightarrow> batchAdds (tr0 @ tr) old b ids = batchAdds tr old b ids"
  by (simp add: batchAdds_def emissions_tracked)

lemma batchAdds_emissions_only [simp]: "list_all isEmission tr \<Longrightarrow> batchAdds tr old b ids = batchAdds [] old b ids"
  using batchAdds_emissions [of tr "[]"] by simp

lemma batchAdds_ended:
  assumes "batchAdds tr (old @ [r]) b ids" and "agree r (trackedBlock (rb_toolUseId r) x)"
  shows "batchAdds (Yielded (YieldToolEnd (rb_toolUseId r) n x d) # tr) old b (rb_toolUseId r # ids)"
proof -
  obtain rs bs where *: "bt_completedResults b = (old @ [r]) @ rs" "\<forall>ms waiting. tracked tr (ms, waiting) = (ms, waiting @ bs)"
      "list_all2 agree rs bs" "map rb_toolUseId rs @ map ub_id (bt_unexecutedToolUses b) = ids"
    using assms(1) unfolding batchAdds_def by blast
  show ?thesis
    unfolding batchAdds_def
    by (rule exI [of _ "r # rs"], rule exI [of _ "trackedBlock (rb_toolUseId r) x # bs"])
       (use * assms(2) in auto)
qed

text \<open>The kinds of results, as they come up; a failure is the result of its error text.\<close>

lemma batchAdds_result:
  "batchAdds tr (old @ [resultBlock i x]) b ids \<Longrightarrow> batchAdds (Yielded (YieldToolEnd i n x d) # tr) old b (i # ids)"
  using batchAdds_ended [of tr old "resultBlock i x"] agree_result by simp

lemma resultBlock_error [simp]: "resultBlock i (errorResult s) = errorBlock i s"
  by (simp add: resultBlock_def errorBlock_def contentForLLM_def)

lemma batchAdds_rejected:
  "batchAdds tr (old @ [rejectedResultBlock call x]) b ids \<Longrightarrow> isError x \<Longrightarrow>
   batchAdds (Yielded (YieldToolEnd (ub_id call) n x d) # tr) old b (ub_id call # ids)"
  using batchAdds_ended [of tr old "rejectedResultBlock call x"] agree_rejected by simp

section \<open>The serial way\<close>

lemma serialFrom_adds:
  assumes "list_all rejectionOk planned"
  shows "ends (serialFrom H tm planned results started) w
           (\<lambda>w' tr c. \<forall>b. c = Done b \<longrightarrow> batchAdds tr results b (map ub_id (map plannedCall planned)))"
  using assms
proof (induction planned arbitrary: results started w)
  case Nil
  then show ?case by (simp add: ends_simps)
next
  case (Cons planned rest)
  note IH = ends_mono [OF Cons.IH]
  show ?case
  proof (cases "isAborted (hs_signal H w)")
    case True
    show ?thesis
      unfolding serialFrom.simps
      by (simp add: ends_simps True) (rule ends_skipped, simp add: ends_simps)
  next
    case False
    show ?thesis
    proof (cases planned)
      case (RejectCall call r)
      then show ?thesis
        using Cons.prems False
        by (auto simp: ends_simps intro!: IH batchAdds_rejected)
    next
      case (RunCall call tool)
      show ?thesis
      proof (cases tool)
        case None
        with RunCall False Cons.prems show ?thesis
          by (auto simp: ends_simps Let_def intro!: IH batchAdds_result)
      next
        case (Some t)
        with RunCall False Cons.prems show ?thesis
          by (auto simp: ends_simps Let_def intro!: ends_execute ends_skipped IH batchAdds_result split: sum.split)
      qed
    qed
  qed
qed

section \<open>The parallel way\<close>

lemma advanceTask_ends:
  "ends (advanceTask H t0 call tool phase) w
     (\<lambda>w' tr c. list_all isEmission tr \<and>
        (\<exists>phase'. c = Done phase' \<and> (settledOutcome phase = None \<longrightarrow> stepsLeft phase' < stepsLeft phase)))"
  by (cases phase)
     (auto simp: ends_simps reportTask_def split: option.split sum.split prod.split)

lemma stepsLeft_0: "stepsLeft phase = 0 \<longleftrightarrow> settledOutcome phase \<noteq> None"
  by (cases phase) auto

definition turnsLeft :: "ToolTask list \<Rightarrow> nat" where
  "turnsLeft tasks = sum_list (map (\<lambda>t. stepsLeft (tk_phase t)) tasks)"

lemma turnsLeft_update:
  assumes "k < length tasks" and "stepsLeft phase < stepsLeft (tk_phase (tasks ! k))"
  shows "turnsLeft (tasks[k := (tasks ! k)\<lparr>tk_phase := phase\<rparr>]) < turnsLeft tasks"
proof -
  have "stepsLeft (tk_phase (tasks ! k)) \<in> set (map (\<lambda>t. stepsLeft (tk_phase t)) tasks)"
    using assms(1) by simp
  then have "stepsLeft (tk_phase (tasks ! k)) \<le> turnsLeft tasks"
    by (auto simp: turnsLeft_def intro: member_le_sum_list)
  then show ?thesis
    using assms by (simp add: turnsLeft_def map_update sum_list_update)
qed

lemma task_calls_update: "map tk_call (tasks[k := (tasks ! k)\<lparr>tk_phase := phase\<rparr>]) = map tk_call tasks"
  by (cases "k < length tasks") (simp_all add: map_update list_update_same_conv list_update_beyond)

lemma stepTasks_ends:
  "ends (stepTasks H t0 tasks) w
     (\<lambda>w' tr c. list_all isEmission tr \<and>
        (\<exists>tasks'. c = Done tasks' \<and> map tk_call tasks' = map tk_call tasks \<and> length tasks' = length tasks \<and>
                  (turnsLeft tasks' < turnsLeft tasks \<or> turnsLeft tasks' = 0)))"
proof (cases "pendingTasks tasks")
  case Nil
  then have "settledOutcome (tk_phase t) \<noteq> None" if "t \<in> set tasks" for t
    using that by (fastforce simp: pendingTasks_def filter_empty_conv in_set_conv_nth)
  then have "turnsLeft tasks = 0"
    by (auto simp: turnsLeft_def stepsLeft_0 sum_list_eq_0_iff)
  with Nil show ?thesis by (simp add: stepTasks_def ends_simps)
next
  case (Cons i others)
  define k where "k = (i # others) ! (hs_pick H w mod length (i # others))"
  have "k \<in> set (pendingTasks tasks)"
    unfolding Cons k_def by (rule nth_mem) simp
  then have k: "k < length tasks" "settledOutcome (tk_phase (tasks ! k)) = None"
    by (auto simp: pendingTasks_def)
  show ?thesis
    unfolding stepTasks_def Cons list.case
    apply (simp add: ends_simps del: nth_Cons_Suc nth_Cons_0 list.size)
    apply (fold k_def)
    apply (rule ends_mono [OF advanceTask_ends])
    using k by (auto simp: ends_simps turnsLeft_update task_calls_update)
qed

text \<open>Turns as many as there are steps left settle every task.\<close>

lemma turnsOf_settles:
  assumes "turnsLeft tasks \<le> n"
  shows "ends (turnsOf H t0 n tasks) w
     (\<lambda>w' tr c. list_all isEmission tr \<and>
        (\<exists>tasks'. c = Done tasks' \<and> map tk_call tasks' = map tk_call tasks \<and> turnsLeft tasks' = 0))"
  using assms
proof (induction n arbitrary: tasks w)
  case 0
  then show ?case by (simp add: ends_simps)
next
  case (Suc n)
  show ?case
    unfolding turnsOf.simps
  proof (rule ends_seq [OF stepTasks_ends], goal_cases)
    case (1 w' tr tasks')
    then have "turnsLeft tasks' \<le> n" "map tk_call tasks' = map tk_call tasks" "list_all isEmission tr"
      using Suc.prems by auto
    then show ?case
      by (auto intro!: ends_mono [OF Suc.IH])
  qed auto
qed

lemma settled_all:
  "turnsLeft tasks = 0 \<Longrightarrow> length (List.map_filter (\<lambda>t. settledOutcome (tk_phase t)) tasks) = length tasks"
  by (induction tasks) (auto simp: turnsLeft_def stepsLeft_0 List.map_filter_def)

lemma turnsLeft_bound: "turnsLeft tasks \<le> 4 * length tasks"
proof (induction tasks)
  case (Cons t tasks)
  have "stepsLeft (tk_phase t) \<le> 4" by (cases "tk_phase t") auto
  with Cons show ?case by (simp add: turnsLeft_def)
qed (simp add: turnsLeft_def)

lemma settleTasks_enough:
  "ends (settleTasks H t0 tasks) w
     (\<lambda>w' tr c. list_all isEmission tr \<and> (\<exists>settled. c = Done settled \<and> length settled = length tasks))"
  unfolding settleTasks_def
  by (rule ends_seq [OF turnsOf_settles [OF turnsLeft_bound]])
     (auto simp: ends_simps settled_all dest: map_eq_imp_length_eq)

text \<open>
  \<open>collects tr old left b ids\<close>: the walk over the outcomes extends the results and the calls
  left over; together they are the given ids, and in their order when no call is left over.
\<close>

definition collects ::
  "LoopEffect list \<Rightarrow> ToolResultBlock list \<Rightarrow> ToolUseBlock list \<Rightarrow> BatchResult \<Rightarrow> string list \<Rightarrow> bool" where
  "collects tr old left b ids \<longleftrightarrow>
     (\<exists>rs bs us. bt_completedResults b = old @ rs \<and> bt_unexecutedToolUses b = left @ us \<and>
              (\<forall>ms waiting. tracked tr (ms, waiting) = (ms, waiting @ bs)) \<and> list_all2 agree rs bs \<and>
              mset (map rb_toolUseId rs) + mset (map ub_id us) = mset ids \<and>
              (us = [] \<longrightarrow> map rb_toolUseId rs = ids))"

lemma collects_Nil [simp]: "collects [] old left (batchOf old left t s) []"
  by (auto simp: collects_def)

lemma collects_emitted [simp]: "collects (Emitted e # tr) old left b ids = collects tr old left b ids"
  by (simp add: collects_def)

lemma collects_ended:
  assumes "collects tr (old @ [r]) left b ids" and "agree r (trackedBlock (rb_toolUseId r) x)"
  shows "collects (Yielded (YieldToolEnd (rb_toolUseId r) n x d) # tr) old left b (rb_toolUseId r # ids)"
proof -
  obtain rs bs us where *: "bt_completedResults b = (old @ [r]) @ rs" "bt_unexecutedToolUses b = left @ us"
      "\<forall>ms waiting. tracked tr (ms, waiting) = (ms, waiting @ bs)" "list_all2 agree rs bs"
      "mset (map rb_toolUseId rs) + mset (map ub_id us) = mset ids" "us = [] \<longrightarrow> map rb_toolUseId rs = ids"
    using assms(1) unfolding collects_def by blast
  show ?thesis
    unfolding collects_def
    by (rule exI [of _ "r # rs"], rule exI [of _ "trackedBlock (rb_toolUseId r) x # bs"], rule exI [of _ us])
       (use * assms(2) in \<open>auto simp flip: add_mset_add_single\<close>)
qed

lemma collects_result:
  "collects tr (old @ [resultBlock i x]) left b ids \<Longrightarrow> collects (Yielded (YieldToolEnd i n x d) # tr) old left b (i # ids)"
  using collects_ended [of tr old "resultBlock i x"] agree_result by simp

lemma collects_rejected:
  "collects tr (old @ [rejectedResultBlock call x]) left b ids \<Longrightarrow> isError x \<Longrightarrow>
   collects (Yielded (YieldToolEnd (ub_id call) n x d) # tr) old left b (ub_id call # ids)"
  using collects_ended [of tr old "rejectedResultBlock call x"] agree_rejected by simp

lemma collects_left:
  assumes "collects tr old (left @ [call]) b ids"
  shows "collects tr old left b (ub_id call # ids)"
proof -
  obtain rs bs us where *: "bt_completedResults b = old @ rs" "bt_unexecutedToolUses b = (left @ [call]) @ us"
      "\<forall>ms waiting. tracked tr (ms, waiting) = (ms, waiting @ bs)" "list_all2 agree rs bs"
      "mset (map rb_toolUseId rs) + mset (map ub_id us) = mset ids"
    using assms unfolding collects_def by blast
  show ?thesis
    unfolding collects_def
    by (rule exI [of _ rs], rule exI [of _ bs], rule exI [of _ "call # us"]) (use * in auto)
qed

lemma collectFrom_collects:
  assumes "list_all rejectionOk planned" and "length settled = length (filter isRun planned)"
  shows "ends (collectFrom H d sa planned settled results left gw) w
           (\<lambda>w' tr c. \<forall>b. c = Done b \<longrightarrow> collects tr results left b (map ub_id (map plannedCall planned)))"
  using assms
proof (induction planned arbitrary: settled results left gw w)
  case Nil
  then show ?case by (simp add: ends_simps)
next
  case (Cons planned rest)
  note IH = ends_mono [OF Cons.IH]
  show ?case
  proof (cases planned)
    case (RejectCall call r)
    then show ?thesis
      using Cons.prems by (auto simp: ends_simps intro!: IH collects_rejected)
  next
    case (RunCall call tool)
    then obtain outcome outcomes where settled: "settled = outcome # outcomes" "length outcomes = length (filter isRun rest)"
      using Cons.prems(2) by (cases settled) auto
    show ?thesis
    proof (cases outcome)
      case (Inl e)
      show ?thesis
      proof (cases "isAborted (hs_signal H w)")
        case True
        with Inl RunCall settled Cons.prems(1) show ?thesis
          by (auto simp: ends_simps intro!: IH collects_left)
      next
        case False
        with Inl RunCall settled Cons.prems(1) show ?thesis
          by (auto simp: ends_simps Let_def intro!: IH collects_result)
      qed
    next
      case (Inr raw)
      with RunCall settled Cons.prems(1) show ?thesis
        by (auto simp: ends_simps Let_def intro!: IH collects_result)
    qed
  qed
qed

section \<open>Any batch\<close>

definition batchCovers :: "LoopEffect list \<Rightarrow> BatchResult \<Rightarrow> ToolUseBlock list \<Rightarrow> bool" where
  "batchCovers tr b calls \<longleftrightarrow>
     (\<exists>bs. (\<forall>ms waiting. tracked tr (ms, waiting) = (ms, waiting @ bs)) \<and> list_all2 agree (bt_completedResults b) bs) \<and>
     mset (map rb_toolUseId (bt_completedResults b)) + mset (map ub_id (bt_unexecutedToolUses b)) = mset (map ub_id calls) \<and>
     (bt_unexecutedToolUses b = [] \<longrightarrow> map rb_toolUseId (bt_completedResults b) = map ub_id calls)"

lemma batchAdds_covers:
  assumes "batchAdds tr [] b (map ub_id calls)"
  shows "batchCovers tr b calls"
proof -
  obtain bs where *: "\<forall>ms waiting. tracked tr (ms, waiting) = (ms, waiting @ bs)" "list_all2 agree (bt_completedResults b) bs"
      "map rb_toolUseId (bt_completedResults b) @ map ub_id (bt_unexecutedToolUses b) = map ub_id calls"
    using assms unfolding batchAdds_def by auto
  have "mset (map rb_toolUseId (bt_completedResults b)) + mset (map ub_id (bt_unexecutedToolUses b)) = mset (map ub_id calls)"
    unfolding *(3) [symmetric] by (rule mset_append [symmetric])
  with * show ?thesis
    unfolding batchCovers_def by auto
qed

lemma collects_covers: "collects tr [] [] b (map ub_id calls) \<Longrightarrow> batchCovers tr b calls"
  unfolding collects_def batchCovers_def by auto

text \<open>Effects before the first result that the tracker ignores.\<close>

definition untracked :: "LoopEffect list \<Rightarrow> bool" where
  "untracked tr \<longleftrightarrow> (\<forall>st. tracked tr st = st)"

lemma untracked_append [simp]: "untracked tr \<Longrightarrow> untracked tr' \<Longrightarrow> untracked (tr @ tr')"
  by (simp add: untracked_def)

lemma untracked_emissions [simp]: "list_all isEmission tr \<Longrightarrow> untracked tr"
  by (simp add: untracked_def emissions_tracked)

lemma collects_untracked: "untracked tr0 \<Longrightarrow> collects tr old left b ids \<Longrightarrow> collects (tr0 @ tr) old left b ids"
  by (simp add: collects_def untracked_def)

lemma announceStarts_ends:
  "ends (eachOf (\<lambda>p. announceStart H (plannedCall p)) planned) w
     (\<lambda>w' tr c. untracked tr \<and> prefix (starts tr) (map plannedCall planned) \<and> (c = Done () \<or> c = Returned))"
proof (induction planned arbitrary: w)
  case Nil
  then show ?case by (simp add: ends_simps untracked_def)
next
  case (Cons p planned)
  show ?case
    by (auto simp: ends_simps Let_def untracked_def intro!: ends_mono [OF Cons.IH])
qed

lemma tasksOf_simps [simp]:
  "tasksOf [] = []"
  "tasksOf (RejectCall c r # ps) = tasksOf ps"
  "tasksOf (RunCall c (Some t) # ps) = \<lparr>tk_call = c, tk_tool = t, tk_phase = Beginning\<rparr> # tasksOf ps"
  by (simp_all add: tasksOf_def List.map_filter_simps)

definition hasTool :: "PlannedToolCall \<Rightarrow> bool" where
  "hasTool p = (case p of RunCall c None \<Rightarrow> False | _ \<Rightarrow> True)"

lemma canRunParallel_tools: "canRunParallel planned \<Longrightarrow> list_all hasTool planned"
  by (fastforce simp: canRunParallel_def Let_def list_all_iff hasTool_def split: PlannedToolCall.splits option.splits)

lemma tasksOf_calls: "list_all hasTool planned \<Longrightarrow> map tk_call (tasksOf planned) = map plannedCall (filter isRun planned)"
proof (induction planned)
  case (Cons p planned)
  then show ?case
    by (cases p) (auto simp: hasTool_def split: option.splits)
qed simp

lemma tasksOf_length: "canRunParallel planned \<Longrightarrow> length (tasksOf planned) = length (filter isRun planned)"
  using tasksOf_calls [OF canRunParallel_tools] by (metis length_map)

lemma runParallelBatch_covers:
  assumes "list_all rejectionOk planned" and "canRunParallel planned"
  shows "ends (runParallelBatch H planned) w
           (\<lambda>w' tr c. \<forall>b. c = Done b \<longrightarrow> batchCovers tr b (map plannedCall planned))"
proof (cases "isAborted (hs_signal H w)")
  case True
  then show ?thesis
    unfolding runParallelBatch_def
    by (auto simp: ends_simps batchCovers_def emissions_tracked multiset.map_comp intro!: ends_skipped)
next
  case False
  let ?ids = "map ub_id (map plannedCall planned)"
  have settle: "ends (settleTasks H t0 (tasksOf planned)) w'
       (\<lambda>w' tr c. untracked tr \<and> (\<exists>settled. c = Done settled \<and> length settled = length (filter isRun planned)))" for t0 w'
    by (rule ends_mono [OF settleTasks_enough]) (auto simp: tasksOf_length assms(2))
  have collect: "ends (collectFrom H d sa planned settled [] [] None) w'
       (\<lambda>w' tr c. \<forall>b. c = Done b \<longrightarrow> batchCovers (tr0 @ tr1 @ tr) b (map plannedCall planned))"
    if "length settled = length (filter isRun planned)" "untracked tr0" "untracked tr1" for d sa settled w' tr0 tr1
    by (rule ends_mono [OF collectFrom_collects [OF assms(1) that(1)]])
       (auto intro!: collects_covers collects_untracked that(2,3))
  show ?thesis
    unfolding runParallelBatch_def
    by (subst ends_bnd, simp add: ends_reads False, rule ends_seq [OF announceStarts_ends])
       (auto simp: ends_simps intro!: ends_mono [OF settle] collect)
qed

lemma executeToolCalls_covers:
  "ends (executeToolCalls H tools control calls) w
     (\<lambda>w' tr c. \<forall>r. c = Done r \<longrightarrow> batchCovers tr (xr_batch r) calls)"
proof -
  let ?p = "fst (plannedBatch (toolMapOf tools) control calls)"
  have serial: "ends (runSerialBatch H tm ?p) w (\<lambda>w' tr c. \<forall>b. c = Done b \<longrightarrow> batchCovers tr b calls)" for tm
    unfolding runSerialBatch_def
    by (rule ends_mono [OF serialFrom_adds]) (auto intro!: batchAdds_covers simp flip: map_map)
  have parallel: "ends (runParallelBatch H ?p) w (\<lambda>w' tr c. \<forall>b. c = Done b \<longrightarrow> batchCovers tr b calls)"
    if "canRunParallel ?p"
    using runParallelBatch_covers [OF plannedBatch_rejections that] by simp
  show ?thesis
    unfolding executeToolCalls_def Let_def
    by (auto simp: ends_simps intro!: ends_mono [OF serial] ends_mono [OF parallel] split: Completion.split)
qed

section \<open>Which calls start\<close>

lemma prefix_starts_Nil [simp]: "list_all isEmission tr \<Longrightarrow> starts tr = []"
  by (rule emissions_starts)

lemma serialFrom_starts:
  "ends (serialFrom H tm planned results started) w
     (\<lambda>w' tr c. prefix (starts tr) (map plannedCall (filter isRun planned)))"
proof (induction planned arbitrary: results started w)
  case Nil
  then show ?case by (simp add: ends_simps)
next
  case (Cons planned rest)
  note IH = ends_mono [OF Cons.IH]
  show ?case
  proof (cases "isAborted (hs_signal H w)")
    case True
    show ?thesis
      unfolding serialFrom.simps
      by (auto simp: ends_simps True intro!: ends_skipped)
  next
    case False
    show ?thesis
    proof (cases planned)
      case (RejectCall call r)
      then show ?thesis
        using False by (auto simp: ends_simps intro!: IH)
    next
      case (RunCall call tool)
      with False show ?thesis
        by (cases tool)
           (auto simp: ends_simps Let_def intro!: ends_execute ends_skipped IH split: sum.split)
    qed
  qed
qed

lemma collectFrom_starts:
  "ends (collectFrom H d sa planned settled results left gw) w (\<lambda>w' tr c. starts tr = [])"
proof (induction planned arbitrary: settled results left gw w)
  case Nil
  then show ?case by (simp add: ends_simps)
next
  case (Cons planned rest)
  note IH = ends_mono [OF Cons.IH]
  show ?case
    by (cases planned; cases settled rule: list.exhaust)
       (auto simp: ends_simps Let_def intro!: IH split: sum.split)
qed

lemma runParallelBatch_starts:
  "ends (runParallelBatch H planned) w
     (\<lambda>w' tr c. prefix (starts tr) (map plannedCall (filter isRun planned)))"
proof (cases "isAborted (hs_signal H w)")
  case True
  then show ?thesis
    unfolding runParallelBatch_def by (auto simp: ends_simps intro!: ends_skipped)
next
  case False
  have settle: "ends (settleTasks H t0 (tasksOf planned)) w' (\<lambda>w' tr c. starts tr = [] \<and> (\<exists>settled. c = Done settled))" for t0 w'
    by (rule ends_mono [OF settleTasks_enough]) auto
  show ?thesis
    unfolding runParallelBatch_def
    by (subst ends_bnd, simp add: ends_reads False, rule ends_seq [OF announceStarts_ends])
       (auto simp: ends_simps intro!: ends_mono [OF settle] ends_mono [OF collectFrom_starts])
qed

lemma executeToolCalls_starts:
  "ends (executeToolCalls H tools control calls) w
     (\<lambda>w' tr c. prefix (starts tr)
        (map plannedCall (filter isRun (fst (plannedBatch (toolMapOf tools) control calls)))))"
  unfolding executeToolCalls_def Let_def runSerialBatch_def
  by (auto simp: ends_simps intro!: ends_mono [OF serialFrom_starts] ends_mono [OF runParallelBatch_starts]
      split: Completion.split)

end
