(* ===== verification/Loop_Parallel.thy ===== *)
theory Loop_Parallel
  imports Loop_Batch
begin

text \<open>
  Limits of a batch and the agreement of its two ways: how many calls of a limited tool a plan
  lets run, what the gate of exclusive control tools lets run, and that on a host without
  aborts, whose tools answer by their input, the serial and the parallel way keep the same
  results whatever the interleaving.
\<close>

section \<open>Calls of a limited tool\<close>

definition callsNamed :: "string \<Rightarrow> ToolUseBlock list \<Rightarrow> nat" where
  "callsNamed n calls = length (filter (\<lambda>c. ub_name c = n) calls)"

lemma callsNamed_simps [simp]:
  "callsNamed n [] = 0" "callsNamed n (c # cs) = (if ub_name c = n then Suc (callsNamed n cs) else callsNamed n cs)"
  "callsNamed n (cs @ cs') = callsNamed n cs + callsNamed n cs'"
  by (simp_all add: callsNamed_def)

lemma callsNamed_prefix: "prefix cs cs' \<Longrightarrow> callsNamed n cs \<le> callsNamed n cs'"
  by (auto simp: prefix_def)

abbreviation runsOf :: "PlannedToolCall list \<Rightarrow> ToolUseBlock list" where
  "runsOf planned \<equiv> map plannedCall (filter isRun planned)"

lemma planFrom_limit:
  assumes "omap_get tm n = Some t" and "td_maxCallsPerTurn t = Some limit"
  shows "callsNamed n (runsOf (planFrom tm counts calls)) \<le> limit - counts n"
proof (induction calls arbitrary: counts)
  case (Cons call calls)
  show ?case
  proof (cases "ub_name call = n")
    case True
    then have tool: "Option.bind (toolOf tm call) td_maxCallsPerTurn = Some limit"
      using assms by (simp add: toolOf_def)
    have "callsNamed n (runsOf (planFrom tm (counts(n := Suc (counts n))) calls)) \<le> limit - Suc (counts n)"
      using Cons.IH [of "counts(n := Suc (counts n))"] by (simp add: fun_upd_def)
    then show ?thesis
      using True by (auto simp: tool Let_def)
  next
    case False
    then show ?thesis
      using Cons.IH [of counts] Cons.IH [of "counts(ub_name call := Suc (counts (ub_name call)))"]
      by (auto simp: Let_def fun_upd_def split: option.split)
  qed
qed simp

section \<open>The gate\<close>

lemma gate_runs:
  assumes "gateExclusiveControl calls tm control = Some (planned, sel)"
  shows "runsOf planned = (case sel of None \<Rightarrow> [] | Some i \<Rightarrow> filter (isExclusive tm) calls)"
proof -
  have "runsOf (map (\<lambda>call. if isExclusive tm call then RunCall call (toolOf tm call) else RejectCall call (r call)) calls)
      = filter (isExclusive tm) calls" for r calls
    by (induction calls) auto
  moreover have "runsOf (map (\<lambda>call. RejectCall call r) calls) = []" for r calls
    by (induction calls) auto
  ultimately show ?thesis
    using assms unfolding gateExclusiveControl_def
    by (auto split: list.splits option.splits)
qed

lemma filter_ConsD:
  assumes "filter P xs = y # ys"
  shows "y \<in> set xs \<and> P y"
proof -
  have "y \<in> set (filter P xs)" unfolding assms by simp
  then show ?thesis by simp
qed

lemma gate_some: "gateExclusiveControl calls tm control = None \<longleftrightarrow> \<not> list_ex (isExclusive tm) calls"
  by (cases "filter (isExclusive tm) calls")
     (auto simp: gateExclusiveControl_def list_ex_iff filter_empty_conv dest: filter_ConsD)

lemma gate_selected:
  assumes "gateExclusiveControl calls tm control = Some (planned, Some i)"
  shows "\<exists>only. filter (isExclusive tm) calls = [only] \<and> ub_id only = i \<and>
           \<not> ec_toolsStartedBefore control \<and> ub_name only \<in> set (ec_enabled control)"
  using assms unfolding gateExclusiveControl_def exclusiveRefusal_def
  by (auto split: list.splits option.splits if_splits)

lemma plannedBatch_exclusive:
  assumes "list_ex (isExclusive tm) calls"
  shows "runsOf (fst (plannedBatch tm control calls)) = [] \<or>
         (\<exists>only. runsOf (fst (plannedBatch tm control calls)) = [only] \<and> only \<in> set calls \<and> isExclusive tm only \<and>
                 \<not> ec_toolsStartedBefore control \<and> ub_name only \<in> set (ec_enabled control))"
proof -
  obtain planned sel where gate: "gateExclusiveControl calls tm control = Some (planned, sel)"
    using assms gate_some [of calls tm control] by (metis option.exhaust surj_pair)
  show ?thesis
  proof (cases sel)
    case None
    then show ?thesis using gate_runs [OF gate] by (simp add: plannedBatch_def gate)
  next
    case (Some i)
    obtain only where only: "filter (isExclusive tm) calls = [only]"
        "\<not> ec_toolsStartedBefore control" "ub_name only \<in> set (ec_enabled control)"
      using gate_selected gate Some by blast
    have "runsOf (fst (plannedBatch tm control calls)) = [only]"
      using gate_runs [OF gate] Some only(1) by (simp add: plannedBatch_def gate)
    then show ?thesis
      using only filter_ConsD [OF only(1)] by (intro disjI2 exI [of _ only]) simp
  qed
qed

section \<open>The two ways agree\<close>

type_synonym toolAnswer = "ToolDefinition \<Rightarrow> ToolInput \<Rightarrow> string \<Rightarrow> (ErrorValue, ToolResult) result"

definition steadyHost :: "'w Host \<Rightarrow> toolAnswer \<Rightarrow> bool" where
  "steadyHost H f \<longleftrightarrow>
     undisturbed H \<and> (\<forall>t v i w. snd (hs_execute H t v i w) = f t v i) \<and>
     (case hs_observer H of None \<Rightarrow> True
      | Some ob \<Rightarrow> (\<forall>t v w. isOk (snd (so_start ob t v w))) \<and> (\<forall>n s w. isOk (snd (so_finish ob n s w))))"

lemma steadyHostD:
  assumes "steadyHost H f"
  shows "hs_signal H w = Live" "snd (hs_yield H y w)" "snd (hs_execute H t v i w) = f t v i"
    "hs_observer H = Some ob \<Longrightarrow> isOk (snd (so_start ob t v w))"
    "hs_observer H = Some ob \<Longrightarrow> isOk (snd (so_finish ob n s w))"
  using assms by (auto simp: steadyHost_def undisturbed_def)

definition answerOf :: "toolAnswer \<Rightarrow> ToolDefinition \<Rightarrow> ToolUseBlock \<Rightarrow> (ErrorValue, ToolResult) result" where
  "answerOf f t call = f t (ub_input call) (ub_id call)"

definition answerBlock :: "'w Host \<Rightarrow> ToolDefinition \<Rightarrow> string \<Rightarrow> (ErrorValue, ToolResult) result \<Rightarrow> ToolResultBlock" where
  "answerBlock H t i r =
     (case r of Inr raw \<Rightarrow> resultBlock i (applyMaxResultChars H raw (td_maxResultChars t))
      | Inl e \<Rightarrow> errorBlock i (failureContent H e))"

fun expectedBlock :: "'w Host \<Rightarrow> toolAnswer \<Rightarrow> PlannedToolCall \<Rightarrow> ToolResultBlock" where
  "expectedBlock H f (RejectCall call r) = rejectedResultBlock call r"
| "expectedBlock H f (RunCall call (Some t)) = answerBlock H t (ub_id call) (answerOf f t call)"
| "expectedBlock H f (RunCall call None) = errorBlock (ub_id call) ''''"

lemma execute_steady:
  assumes "steadyHost H f"
  shows "ends (executeObservedTool H t call) w
           (\<lambda>w' tr c. c = (case answerOf f t call of Inl e \<Rightarrow> Threw e | Inr r \<Rightarrow> Done r))"
proof -
  note steady = steadyHostD [OF assms]
  have run: "\<exists>w'. hs_execute H t v i w = (w', f t v i)" for v i w
    using steady(3) by (metis prod.collapse)
  show ?thesis
  proof (cases "if td_isReadOnly t then None else hs_observer H")
    case None
    then show ?thesis
      using run [of "ub_input call" "ub_id call" w]
      by (auto simp: executeObservedTool_def ends_simps answerOf_def split: sum.split)
  next
    case (Some ob)
    then have ob: "hs_observer H = Some ob" by (simp split: if_splits)
    have "isOk (snd (so_start ob t (ub_input call) w))"
      using steady(4) [OF ob] by blast
    then obtain w1 token where s: "so_start ob t (ub_input call) w = (w1, Inr token)"
      by (metis isOk_iff prod.collapse)
    obtain w2 where e: "hs_execute H t (ub_input call) (ub_id call) w1 = (w2, answerOf f t call)"
      using run [of "ub_input call" "ub_id call" w1] unfolding answerOf_def by blast
    have "isOk (snd (so_finish ob token st w2))" for st
      using steady(5) [OF ob] by blast
    then have fin: "\<exists>w3. so_finish ob token st w2 = (w3, Inr ())" for st
      by (metis (full_types) isOk_iff old.unit.exhaust prod.collapse)
    show ?thesis
      unfolding executeObservedTool_def Some
      using fin [of EffectOk] fin [of EffectFailed] fin [of EffectAborted]
      by (auto simp: ends_simps s e rethrow_def steady split: sum.split)
  qed
qed

lemma serialFrom_steady:
  assumes "steadyHost H f" and "list_all hasTool planned"
  shows "ends (serialFrom H tm planned results started) w
           (\<lambda>w' tr c. \<exists>b. c = Done b \<and> bt_completedResults b = results @ map (expectedBlock H f) planned \<and>
                          bt_unexecutedToolUses b = [])"
  using assms(2)
proof (induction planned arbitrary: results started w)
  case Nil
  then show ?case by (simp add: ends_simps)
next
  case (Cons planned rest)
  note steady = steadyHostD [OF assms(1)]
  have IH: "ends (serialFrom H tm rest (results @ [expectedBlock H f planned]) s) w'
      (\<lambda>w'' tr' c. \<exists>b. c = Done b \<and> bt_completedResults b = results @ map (expectedBlock H f) (planned # rest) \<and>
                          bt_unexecutedToolUses b = [])" for s w'
    by (rule ends_mono [OF Cons.IH]) (use Cons.prems in auto)
  show ?case
  proof (cases planned)
    case (RejectCall call r)
    then show ?thesis using IH by (simp add: ends_simps steady)
  next
    case (RunCall call tool)
    then obtain t where t: "tool = Some t" using Cons.prems by (auto simp: hasTool_def split: option.splits)
    show ?thesis
      using IH unfolding RunCall t
      apply (simp add: ends_simps steady Let_def)
      apply (rule ends_mono [OF execute_steady [OF assms(1)]])
      by (cases "answerOf f t call") (simp_all add: ends_simps steady Let_def answerBlock_def)
  qed
qed

text \<open>In any interleaving, a task that has its outcome has the one its tool gives.\<close>

fun phaseRight :: "(ErrorValue, ToolResult) result \<Rightarrow> TaskPhase \<Rightarrow> bool" where
  "phaseRight a (Finishing n s r) = (r = a)"
| "phaseRight a (Reporting r) = (r = a)"
| "phaseRight a (SettledTask r) = (r = a)"
| "phaseRight a phase = True"

definition taskRight :: "toolAnswer \<Rightarrow> ToolTask \<Rightarrow> bool" where
  "taskRight f t = phaseRight (answerOf f (tk_tool t) (tk_call t)) (tk_phase t)"

lemma advanceTask_right:
  assumes "steadyHost H f" and "phaseRight (answerOf f tool call) phase"
  shows "ends (advanceTask H t0 call tool phase) w
           (\<lambda>w' tr c. \<forall>phase'. c = Done phase' \<longrightarrow> phaseRight (answerOf f tool call) phase')"
proof (cases phase)
  case Beginning
  show ?thesis
  proof (cases "observerFor H tool")
    case None
    then show ?thesis by (simp add: Beginning ends_simps)
  next
    case (Some ob)
    then have "hs_observer H = Some ob" by (simp add: observerFor_def split: if_splits)
    then have "isOk (snd (so_start ob tool (ub_input call) w))"
      using steadyHostD(4) [OF assms(1)] by blast
    then obtain w1 token where "so_start ob tool (ub_input call) w = (w1, Inr token)"
      by (metis isOk_iff prod.collapse)
    then show ?thesis by (simp add: Beginning Some ends_simps)
  qed
next
  case (Executing token)
  obtain w2 where e: "hs_execute H tool (ub_input call) (ub_id call) w = (w2, answerOf f tool call)"
    using steadyHostD(3) [OF assms(1)] unfolding answerOf_def by (metis prod.collapse)
  show ?thesis
    by (cases "answerOf f tool call") (simp_all add: Executing ends_simps e split: option.split)
next
  case (Finishing token status r)
  show ?thesis
  proof (cases "observerFor H tool")
    case None
    then show ?thesis using assms(2) by (simp add: Finishing ends_simps)
  next
    case (Some ob)
    then have "hs_observer H = Some ob" by (simp add: observerFor_def split: if_splits)
    then have "isOk (snd (so_finish ob token status w))"
      using steadyHostD(5) [OF assms(1)] by blast
    then obtain w1 u where "so_finish ob token status w = (w1, Inr u)"
      by (metis isOk_iff prod.collapse)
    then show ?thesis using assms(2) by (simp add: Finishing Some ends_simps)
  qed
next
  case (Reporting r)
  then show ?thesis
    using assms(2) by (auto simp: ends_simps reportTask_def split: sum.split)
next
  case (SettledTask r)
  then show ?thesis using assms(2) by (simp add: ends_simps)
qed

definition sameTasks :: "ToolTask list \<Rightarrow> ToolTask list \<Rightarrow> bool" where
  "sameTasks ts ts' \<longleftrightarrow> map tk_call ts = map tk_call ts' \<and> map tk_tool ts = map tk_tool ts'"

lemma stepTasks_right:
  assumes "steadyHost H f" and "list_all (taskRight f) tasks"
  shows "ends (stepTasks H t0 tasks) w
           (\<lambda>w' tr c. \<forall>tasks'. c = Done tasks' \<longrightarrow> list_all (taskRight f) tasks' \<and> sameTasks tasks' tasks)"
proof (cases "pendingTasks tasks")
  case Nil
  then show ?thesis using assms(2) by (simp add: stepTasks_def ends_simps sameTasks_def)
next
  case (Cons i others)
  define k where "k = (i # others) ! (hs_pick H w mod length (i # others))"
  have "k \<in> set (pendingTasks tasks)"
    unfolding Cons k_def by (rule nth_mem) simp
  then have k: "k < length tasks" by (auto simp: pendingTasks_def)
  have right: "phaseRight (answerOf f (tk_tool (tasks ! k)) (tk_call (tasks ! k))) (tk_phase (tasks ! k))"
    using assms(2) k by (auto simp: list_all_length taskRight_def)
  have update: "list_all (taskRight f) (tasks[k := (tasks ! k)\<lparr>tk_phase := phase\<rparr>]) \<and>
      sameTasks (tasks[k := (tasks ! k)\<lparr>tk_phase := phase\<rparr>]) tasks"
    if "phaseRight (answerOf f (tk_tool (tasks ! k)) (tk_call (tasks ! k))) phase" for phase
    using assms(2) k that
    by (auto simp: list_all_length nth_list_update taskRight_def sameTasks_def map_update list_update_same_conv)
  show ?thesis
    unfolding stepTasks_def Cons list.case
    apply (simp add: ends_simps del: nth_Cons_Suc nth_Cons_0 list.size)
    apply (fold k_def)
    by (rule ends_mono [OF advanceTask_right [OF assms(1) right]])
       (auto simp: ends_simps update split: Completion.split)
qed

lemma turnsOf_right:
  assumes "steadyHost H f" and "list_all (taskRight f) tasks"
  shows "ends (turnsOf H t0 n tasks) w
           (\<lambda>w' tr c. \<forall>tasks'. c = Done tasks' \<longrightarrow> list_all (taskRight f) tasks' \<and> sameTasks tasks' tasks)"
  using assms(2)
proof (induction n arbitrary: tasks w)
  case 0
  then show ?case by (simp add: ends_simps sameTasks_def)
next
  case (Suc n)
  show ?case
    unfolding turnsOf.simps
  proof (rule ends_seq [OF stepTasks_right [OF assms(1) Suc.prems]], goal_cases)
    case (1 w' tr tasks')
    then show ?case
      by (intro ends_mono [OF Suc.IH]) (auto simp: sameTasks_def)
  qed auto
qed

lemma settled_right:
  assumes "list_all (taskRight f) tasks" and "turnsLeft tasks = 0"
  shows "List.map_filter (\<lambda>t. settledOutcome (tk_phase t)) tasks = map (\<lambda>t. answerOf f (tk_tool t) (tk_call t)) tasks"
  using assms
proof (induction tasks)
  case (Cons t tasks)
  then show ?case
    by (cases "tk_phase t") (auto simp: turnsLeft_def taskRight_def List.map_filter_simps)
qed (simp add: List.map_filter_simps)

lemma settleTasks_right:
  assumes "steadyHost H f" and "list_all (taskRight f) tasks"
  shows "ends (settleTasks H t0 tasks) w
           (\<lambda>w' tr c. c = Done (map (\<lambda>t. answerOf f (tk_tool t) (tk_call t)) tasks))"
  unfolding settleTasks_def
proof (rule ends_seq [OF ends_conj [OF turnsOf_settles [OF turnsLeft_bound] turnsOf_right [OF assms]]], goal_cases)
  case (1 w' tr tasks')
  then have same: "sameTasks tasks' tasks" and right: "list_all (taskRight f) tasks'" "turnsLeft tasks' = 0" by auto
  have "map (\<lambda>t. answerOf f (tk_tool t) (tk_call t)) tasks' = map (\<lambda>t. answerOf f (tk_tool t) (tk_call t)) tasks"
    using same unfolding sameTasks_def
    by (metis (mono_tags, lifting) length_map nth_equalityI nth_map)
  then show ?case
    using settled_right [OF right] by (simp add: ends_simps)
qed auto

definition answersOf :: "toolAnswer \<Rightarrow> PlannedToolCall list \<Rightarrow> (ErrorValue, ToolResult) result list" where
  "answersOf f planned = map (\<lambda>t. answerOf f (tk_tool t) (tk_call t)) (tasksOf planned)"

lemma answersOf_simps [simp]:
  "answersOf f [] = []"
  "answersOf f (RejectCall c r # ps) = answersOf f ps"
  "answersOf f (RunCall c (Some t) # ps) = answerOf f t c # answersOf f ps"
  by (simp_all add: answersOf_def)

lemma collectFrom_steady:
  assumes "steadyHost H f" and "list_all hasTool planned"
  shows "ends (collectFrom H d sa planned (answersOf f planned) results left gw) w
           (\<lambda>w' tr c. \<exists>b. c = Done b \<and> bt_completedResults b = results @ map (expectedBlock H f) planned \<and>
                          bt_unexecutedToolUses b = left)"
  using assms(2)
proof (induction planned arbitrary: results w)
  case Nil
  then show ?case by (simp add: ends_simps)
next
  case (Cons planned rest)
  note steady = steadyHostD [OF assms(1)]
  have IH: "ends (collectFrom H d sa rest (answersOf f rest) (results @ [expectedBlock H f planned]) left gw) w'
      (\<lambda>w'' tr' c. \<exists>b. c = Done b \<and> bt_completedResults b = results @ map (expectedBlock H f) (planned # rest) \<and>
                          bt_unexecutedToolUses b = left)" for w'
    by (rule ends_mono [OF Cons.IH]) (use Cons.prems in auto)
  show ?case
  proof (cases planned)
    case (RejectCall call r)
    then show ?thesis using IH by (simp add: ends_simps steady)
  next
    case (RunCall call tool)
    then obtain t where t: "tool = Some t" using Cons.prems by (auto simp: hasTool_def split: option.splits)
    show ?thesis
      using IH unfolding RunCall t
      by (cases "answerOf f t call") (simp_all add: ends_simps steady Let_def answerBlock_def)
  qed
qed

lemma announceStarts_steady:
  assumes "steadyHost H f"
  shows "ends (eachOf (\<lambda>p. announceStart H (plannedCall p)) planned) w (\<lambda>w' tr c. c = Done ())"
proof (induction planned arbitrary: w)
  case (Cons p planned)
  then show ?case by (simp add: ends_simps Let_def steadyHostD [OF assms])
qed (simp add: ends_simps)

lemma tasksOf_right: "list_all (taskRight f) (tasksOf planned)"
  by (auto simp: list_all_iff tasksOf_def taskRight_def List.map_filter_def split: PlannedToolCall.splits option.splits)

lemma runParallelBatch_steady:
  assumes "steadyHost H f" and "canRunParallel planned"
  shows "ends (runParallelBatch H planned) w
           (\<lambda>w' tr c. \<exists>b. c = Done b \<and> bt_completedResults b = map (expectedBlock H f) planned \<and>
                          bt_unexecutedToolUses b = [])"
proof -
  note tools = canRunParallel_tools [OF assms(2)]
  have settle: "ends (settleTasks H t0 (tasksOf planned)) w' (\<lambda>w' tr c. c = Done (answersOf f planned))" for t0 w'
    unfolding answersOf_def by (rule settleTasks_right [OF assms(1) tasksOf_right])
  show ?thesis
    unfolding runParallelBatch_def
    by (subst ends_bnd, simp add: ends_reads steadyHostD [OF assms(1)], rule ends_seq [OF announceStarts_steady [OF assms(1)]])
       (auto simp: ends_simps intro!: ends_mono [OF settle] ends_mono [OF collectFrom_steady [OF assms(1) tools]])
qed

lemma runSerialBatch_steady:
  assumes "steadyHost H f" and "list_all hasTool planned"
  shows "ends (runSerialBatch H tm planned) w
           (\<lambda>w' tr c. \<exists>b. c = Done b \<and> bt_completedResults b = map (expectedBlock H f) planned \<and>
                          bt_unexecutedToolUses b = [])"
  using serialFrom_steady [OF assms, of tm "[]"] by (simp add: runSerialBatch_def)

end
