(* ===== verification/Loop_Stream.thy ===== *)
theory Loop_Stream
  imports Loop_Host
begin

text \<open>
  One call of the model (\<^verbatim>\<open>packages/core/src/loop/llm-call.ts\<close>): its stream is consumed event by
  event, raced against the abort signal (\<^verbatim>\<open>interrupt/stream-race.ts\<close>), and assembled into an
  assistant message. The watchdog's timers (\<^verbatim>\<open>interrupt/watchdog.ts\<close>) act through the signal,
  so they are part of the world that \<open>hs_await\<close> moves.
\<close>

section \<open>Accumulation\<close>

record PendingToolCall =
  pt_name :: string
  pt_argsJson :: string

record StreamState =
  ss_body :: string
  ss_thinking :: string
  ss_signature :: "string option"
  ss_toolCalls :: "(string, PendingToolCall) omap"
  ss_stopReason :: StopReason
  ss_usage :: TokenUsage
  ss_usageReported :: bool

definition freshStream :: StreamState where
  "freshStream =
     \<lparr>ss_body = '''', ss_thinking = '''', ss_signature = None, ss_toolCalls = [], ss_stopReason = EndTurn,
      ss_usage = emptyUsage, ss_usageReported = False\<rparr>"

text \<open>What an event adds; an argument fragment of an unknown call is dropped.\<close>

fun accumulate :: "StreamEvent \<Rightarrow> StreamState \<Rightarrow> StreamState" where
  "accumulate (TextDelta s) st = st\<lparr>ss_body := ss_body st @ s\<rparr>"
| "accumulate (ThinkingDelta s) st = st\<lparr>ss_thinking := ss_thinking st @ s\<rparr>"
| "accumulate (ThinkingBlockEnd sig) st = (if truthy sig then st\<lparr>ss_signature := sig\<rparr> else st)"
| "accumulate (ToolCallStart i n) st =
     st\<lparr>ss_toolCalls := omap_set i \<lparr>pt_name = n, pt_argsJson = ''''\<rparr> (ss_toolCalls st)\<rparr>"
| "accumulate (ToolCallDelta i fragment) st =
     (case omap_get (ss_toolCalls st) i of
        None \<Rightarrow> st
      | Some p \<Rightarrow> st\<lparr>ss_toolCalls := omap_set i (p\<lparr>pt_argsJson := pt_argsJson p @ fragment\<rparr>) (ss_toolCalls st)\<rparr>)"
| "accumulate (MessageEnd stop usage) st = st\<lparr>ss_stopReason := stop, ss_usage := usage, ss_usageReported := True\<rparr>"
| "accumulate ev st = st"

fun yieldOf :: "StreamEvent \<Rightarrow> AgentYield option" where
  "yieldOf (TextDelta s) = Some (YieldText s)"
| "yieldOf ThinkingBlockStart = Some YieldThinkingStart"
| "yieldOf (ThinkingDelta s) = Some (YieldThinking s)"
| "yieldOf (ThinkingBlockEnd sig) = Some YieldThinkingEnd"
| "yieldOf ev = None"

fun errorOf :: "'w Host \<Rightarrow> StreamEvent \<Rightarrow> AgentError option" where
  "errorOf H (StreamError e) = Some (providerErrorOf H e)"
| "errorOf H ev = None"

definition passOn :: "'w Host \<Rightarrow> StreamEvent \<Rightarrow> ('w, unit) loopProgram" where
  "passOn H ev = (case yieldOf ev of None \<Rightarrow> ret () | Some y \<Rightarrow> yieldTo H y)"

section \<open>Consumption\<close>

text \<open>
  How the loop over the stream came to its end: with what was accumulated, the error event that
  broke it, and the exception that the stream threw.
\<close>

record StreamOutcome =
  so_state :: StreamState
  so_providerError :: "AgentError option"
  so_thrown :: "ErrorValue option"

definition streamOver :: "StreamState \<Rightarrow> AgentError option \<Rightarrow> ErrorValue option \<Rightarrow> StreamOutcome" where
  "streamOver st e t = \<lparr>so_state = st, so_providerError = e, so_thrown = t\<rparr>"

text \<open>
  \<^verbatim>\<open>raceIteratorWithAbort\<close>: no event is taken once the signal is aborted, and an abort that comes
  while the next event is awaited ends the stream.
\<close>

definition raced :: "'w Host \<Rightarrow> ('w, bool) loopProgram" where
  "raced H =
     bnd (aborted H) (\<lambda>ab.
     if ab then ret False
     else bnd (change (hs_await H)) (\<lambda>u. bnd (aborted H) (\<lambda>ab'. ret (\<not> ab'))))"

primrec consumeFrom :: "'w Host \<Rightarrow> ErrorValue option \<Rightarrow> StreamEvent list \<Rightarrow> StreamState \<Rightarrow> ('w, StreamOutcome) loopProgram" where
  "consumeFrom H thrown [] st =
     bnd (raced H) (\<lambda>arrived. ret (streamOver st None (if arrived then thrown else None)))"
| "consumeFrom H thrown (ev # evs) st =
     bnd (raced H) (\<lambda>arrived.
     if \<not> arrived then ret (streamOver st None None)
     else
       bnd (emit H (StreamEventPassed ev)) (\<lambda>u.
       bnd (passOn H ev) (\<lambda>v.
       bnd (aborted H) (\<lambda>ab.
       if ab \<or> errorOf H ev \<noteq> None then ret (streamOver (accumulate ev st) (errorOf H ev) None)
       else consumeFrom H thrown evs (accumulate ev st)))))"

section \<open>Assembly\<close>

text \<open>\<^verbatim>\<open>JSON.parse\<close> is \<open>hs_parse\<close>; anything but an object counts as an empty one.\<close>

definition parseToolCallArgs :: "'w Host \<Rightarrow> string \<Rightarrow> ToolInput" where
  "parseToolCallArgs H argsJson =
     (if argsJson = [] then []
      else case hs_parse H argsJson of Some (JObj fs) \<Rightarrow> fs | _ \<Rightarrow> [])"

definition assembleMessage :: "'w Host \<Rightarrow> StreamState \<Rightarrow> Message" where
  "assembleMessage H st =
     plainMessage Assistant
       ((if ss_thinking st = [] then [] else [ThinkingBlock (ss_thinking st) (ss_signature st)]) @
        (if ss_body st = [] then [] else [TextBlock (ss_body st)]) @
        map ToolUseOf (map (\<lambda>(i, p). \<lparr>ub_id = i, ub_name = pt_name p, ub_input = parseToolCallArgs H (pt_argsJson p)\<rparr>)
                       (ss_toolCalls st)))"

section \<open>The call\<close>

datatype LLMCallResult =
    LLMSuccess Message StopReason TokenUsage "AgentError option"
  | LLMAborted string string TokenUsage

fun llmUsage :: "LLMCallResult \<Rightarrow> TokenUsage" where
  "llmUsage (LLMSuccess m s u e) = u"
| "llmUsage (LLMAborted b t u) = u"

definition endRequest :: "'w Host \<Rightarrow> int \<Rightarrow> StreamState \<Rightarrow> ('w, unit) loopProgram" where
  "endRequest H startTime st =
     bnd (dateNow H) (\<lambda>now.
     emit H (RequestEnd (now - startTime) (ss_usage st) (ss_usageReported st) (ss_stopReason st)))"

text \<open>What is left of a failed stream, without its tool calls, goes to the consumer unless it is empty.\<close>

definition yieldPartial :: "'w Host \<Rightarrow> StreamState \<Rightarrow> AgentError \<Rightarrow> ('w, LLMCallResult) loopProgram" where
  "yieldPartial H st err =
     (case assembleSafeMessage (ss_body st) (ss_thinking st) of
        Some m \<Rightarrow> bnd (yieldTo H (YieldAssistant m)) (\<lambda>u. ret (LLMSuccess m (ss_stopReason st) (ss_usage st) (Some err)))
      | None \<Rightarrow> ret (LLMSuccess emptyAssistantMessage (ss_stopReason st) (ss_usage st) (Some err)))"

definition thrownError :: "'w Host \<Rightarrow> ErrorValue \<Rightarrow> AgentError" where
  "thrownError H e = (case asAgentError H e of Some ag \<Rightarrow> ag | None \<Rightarrow> providerErrorOf H e)"

definition finishCall :: "'w Host \<Rightarrow> int \<Rightarrow> StreamOutcome \<Rightarrow> ('w, LLMCallResult) loopProgram" where
  "finishCall H startTime out =
     (let st = so_state out in
      bnd (aborted H) (\<lambda>ab.
      if ab then
        bnd (endRequest H startTime st) (\<lambda>u. ret (LLMAborted (ss_body st) (ss_thinking st) (ss_usage st)))
      else (case so_thrown out of
        Some e \<Rightarrow> bnd (endRequest H startTime st) (\<lambda>u. yieldPartial H st (thrownError H e))
      | None \<Rightarrow>
          bnd (endRequest H startTime st) (\<lambda>u.
          case so_providerError out of
            Some err \<Rightarrow> yieldPartial H st err
          | None \<Rightarrow>
              bnd (yieldTo H (YieldAssistant (assembleMessage H st))) (\<lambda>v.
              ret (LLMSuccess (assembleMessage H st) (ss_stopReason st) (ss_usage st) None))))))"

definition openStream :: "'w Host \<Rightarrow> ChatRequest \<Rightarrow> ('w, StreamOutcome) loopProgram" where
  "openStream H request =
     bnd (attempt (outside (hs_callLLM H request))) (\<lambda>r.
     case r of
       Inl e \<Rightarrow> ret (streamOver freshStream None (Some e))
     | Inr (events, thrown) \<Rightarrow> consumeFrom H thrown events freshStream)"

definition streamLLMCall :: "'w Host \<Rightarrow> ChatRequest \<Rightarrow> json list \<Rightarrow> ('w, LLMCallResult) loopProgram" where
  "streamLLMCall H request toolSpecs =
     bnd (emit H (RequestStart (cr_model request) (cr_messages request) (cr_systemPrompt request) toolSpecs)) (\<lambda>u.
     bnd (dateNow H) (\<lambda>startTime.
     bnd (openStream H request) (\<lambda>out.
     finishCall H startTime out)))"

section \<open>Its message\<close>

text \<open>The ids of pending calls are distinct: a second start with an id restarts that call.\<close>

lemma omap_wf_accumulate: "omap_wf (ss_toolCalls st) \<Longrightarrow> omap_wf (ss_toolCalls (accumulate ev st))"
  by (cases ev) (auto simp: omap_wf_set split: option.split)

lemma consumeFrom_wf:
  assumes "omap_wf (ss_toolCalls st)"
  shows "ends (consumeFrom H thrown evs st) w
           (\<lambda>w' tr c. \<forall>out. c = Done out \<longrightarrow> omap_wf (ss_toolCalls (so_state out)))"
  using assms
proof (induction evs arbitrary: st w)
  case Nil
  then show ?case by (simp add: ends_simps raced_def streamOver_def)
next
  case (Cons ev evs)
  then show ?case
    by (auto simp: ends_simps raced_def passOn_def streamOver_def omap_wf_accumulate split: option.split)
qed

lemma openStream_wf:
  "ends (openStream H request) w
     (\<lambda>w' tr c. \<forall>out. c = Done out \<longrightarrow> omap_wf (ss_toolCalls (so_state out)))"
  by (auto simp: openStream_def ends_simps streamOver_def freshStream_def consumeFrom_wf split: prod.split sum.split)

lemma assembleMessage_calls:
  "extractToolCalls (assembleMessage H st) =
     map (\<lambda>(i, p). \<lparr>ub_id = i, ub_name = pt_name p, ub_input = parseToolCallArgs H (pt_argsJson p)\<rparr>) (ss_toolCalls st)"
  by (auto simp: assembleMessage_def extractToolCalls_def map_filter_append List.map_filter_simps simp del: map_map)

lemma assembleMessage_shape [simp]:
  "toolResultsOf (assembleMessage H st) = []" "ms_role (assembleMessage H st) = Assistant"
  by (auto simp: assembleMessage_def toolResultsOf_def map_filter_append List.map_filter_simps simp del: map_map)

lemma assembleMessage_distinct:
  "omap_wf (ss_toolCalls st) \<Longrightarrow> distinct (map ub_id (extractToolCalls (assembleMessage H st)))"
  by (simp add: assembleMessage_calls comp_def case_prod_unfold omap_wf_def)

end
