(* ===== verification/Loop_Run.thy ===== *)
theory Loop_Run
  imports Loop_Tools Loop_Stream
begin

text \<open>
  The agent loop (\<^verbatim>\<open>packages/core/src/loop/agent-loop.ts\<close>) and the hooks at the edges of a turn
  (\<^verbatim>\<open>turn-end.ts\<close>, \<^verbatim>\<open>context/token-accounting.ts\<close>): prepare a request, call the model, run the
  tools it asks for, and again, until the model asks for none, an error, an abort, an exclusive
  control call, or the limit of turns. \<open>runAgentLoop\<close> is the whole generator with its single
  way out (\<open>finalizeRun\<close>) and its \<^verbatim>\<open>finally\<close> block.
\<close>

section \<open>Parameters and state\<close>

record LoopParams =
  lp_messages :: "Message list"
  lp_tools :: "ToolDefinition list"
  lp_model :: string
  lp_thinking :: json
  lp_maxTurns :: "nat option"
  lp_inputCapabilities :: "bool option"
  lp_providerModels :: "(string \<times> bool option) list"
  lp_enabledExclusiveControls :: "string list"

definition maxTurnsOf :: "LoopParams \<Rightarrow> nat" where
  "maxTurnsOf p = withDefault (lp_maxTurns p) 100"

definition toolSpecsOf :: "LoopParams \<Rightarrow> json list" where
  "toolSpecsOf p = map td_spec (lp_tools p)"

text \<open>Whether the model takes images: what the caller says, or what the model declares.\<close>

definition resolveModelInputCapabilities :: "string \<Rightarrow> (string \<times> bool option) list \<Rightarrow> bool" where
  "resolveModelInputCapabilities model models = (map_of models model = Some (Some True))"

definition imagesAllowed :: "LoopParams \<Rightarrow> bool" where
  "imagesAllowed p =
     withDefault (lp_inputCapabilities p) (resolveModelInputCapabilities (lp_model p) (lp_providerModels p))"

definition unsupportedImagesText :: string where
  "unsupportedImagesText = map (char_of :: nat \<Rightarrow> char)
     [229, 189, 147, 229, 137, 141, 230, 168, 161, 229, 158, 139, 228, 184, 141, 230, 148, 175, 230, 140, 129,
      229, 155, 190, 231, 137, 135, 232, 190, 147, 229, 133, 165, 227, 128, 130, 232, 175, 183, 229, 136, 135,
      230, 141, 162, 229, 136, 176, 230, 148, 175, 230, 140, 129, 229, 155, 190, 231, 137, 135, 232, 190, 147,
      229, 133, 165, 231, 154, 132, 230, 168, 161, 229, 158, 139, 239, 188, 140, 230, 136, 150, 231, 167, 187,
      233, 153, 164, 229, 155, 190, 231, 137, 135, 229, 144, 142, 233, 135, 141, 232, 175, 149, 227, 128, 130]"

definition validateMessagesAgainstInputCapabilities :: "Message list \<Rightarrow> bool \<Rightarrow> AgentError option" where
  "validateMessagesAgainstInputCapabilities ms images =
     (if \<not> images \<and> list_ex messageContainsImage ms
      then Some \<lparr>ag_message = unsupportedImagesText, ag_type = InvalidRequest, ag_recoverable = False, ag_cause = None\<rparr>
      else None)"

record TokenAnchor =
  an_totalInputTokens :: int
  an_baselineMessageCount :: nat

datatype ContinueReason = AfterToolUse | AfterInput

record LoopState =
  ls_messages :: "Message list"
  ls_turnCount :: nat
  ls_totalUsage :: TokenUsage
  ls_transition :: "ContinueReason option"
  ls_anchor :: "TokenAnchor option"
  ls_toolsStarted :: bool

definition initialState :: "LoopParams \<Rightarrow> LoopState" where
  "initialState p =
     \<lparr>ls_messages = lp_messages p, ls_turnCount = 0, ls_totalUsage = emptyUsage,
      ls_transition = None, ls_anchor = None, ls_toolsStarted = False\<rparr>"

section \<open>The view of a request\<close>

definition prepareSendView :: "'w Host \<Rightarrow> LoopParams \<Rightarrow> Message list \<Rightarrow> 'w \<Rightarrow> PreparedSendView" where
  "prepareSendView H p messages w =
     (let injected = hs_inject H w messages; messagePrefix = hs_prefix H w
      in \<lparr>sv_systemPrompt = hs_systemPrompt H w, sv_tools = toolSpecsOf p, sv_stateMessages = messages,
          sv_messagesForLLM = injected,
          sv_providerMessages = (if messagePrefix = [] then injected else messagePrefix @ injected)\<rparr>)"

definition computeContextTokens ::
  "'w Estimator \<Rightarrow> 'w \<Rightarrow> PreparedSendView \<Rightarrow> Message list \<Rightarrow> TokenAnchor option \<Rightarrow> int" where
  "computeContextTokens es w view stateMessages anchor =
     (let full = es_text es w (sv_systemPrompt view) + es_messages es w (sv_providerMessages view) + es_tools es w (sv_tools view)
      in case anchor of
           None \<Rightarrow> full
         | Some a \<Rightarrow>
             if an_baselineMessageCount a \<le> length stateMessages
             then an_totalInputTokens a + es_messages es w (drop (an_baselineMessageCount a) stateMessages)
             else full)"

section \<open>The edges of a turn\<close>

text \<open>
  The segment manager may replace the messages; then the window has changed. The answer is the
  messages to go on with and whether they were replaced.
\<close>

definition evaluateSegment :: "'w Host \<Rightarrow> LoopParams \<Rightarrow> nat \<Rightarrow> Message list \<Rightarrow> ('w, Message list \<times> bool) loopProgram" where
  "evaluateSegment H p turnCount messages =
     (case hs_segment H of
        None \<Rightarrow> ret (messages, False)
      | Some evaluate \<Rightarrow>
          bnd (look (prepareSendView H p messages)) (\<lambda>view.
          bnd (outside (evaluate view turnCount)) (\<lambda>replaced.
          ret (case replaced of Some ms \<Rightarrow> (ms, True) | None \<Rightarrow> (messages, False)))))"

definition runTurnBegin :: "'w Host \<Rightarrow> LoopParams \<Rightarrow> nat \<Rightarrow> Message list \<Rightarrow> ('w, Message list \<times> bool) loopProgram" where
  "runTurnBegin H p turnCount messages =
     bnd (evaluateSegment H p turnCount messages) (\<lambda>(ms, replaced).
     if replaced then bnd (outside (hs_onChange H)) (\<lambda>u. ret (ms, True))
     else ret (ms, False))"

definition emitSnapshot ::
  "'w Host \<Rightarrow> LoopParams \<Rightarrow> nat \<Rightarrow> Message list \<Rightarrow> TokenAnchor option \<Rightarrow> ('w, unit) loopProgram" where
  "emitSnapshot H p turnCount messages anchor =
     (case hs_estimator H of
        None \<Rightarrow> ret ()
      | Some es \<Rightarrow>
          bnd (look (\<lambda>w. computeContextTokens es w (prepareSendView H p messages w) messages anchor)) (\<lambda>total.
          emit H (TokensSnapshot total turnCount)))"

definition runTurnEnd ::
  "'w Host \<Rightarrow> LoopParams \<Rightarrow> nat \<Rightarrow> Message list \<Rightarrow> TokenAnchor option \<Rightarrow> ('w, Message list \<times> bool) loopProgram" where
  "runTurnEnd H p turnCount messages anchor =
     bnd (runTurnBegin H p turnCount messages) (\<lambda>(ms, replaced).
     bnd (emitSnapshot H p turnCount ms (if replaced then None else anchor)) (\<lambda>u.
     ret (ms, replaced)))"

section \<open>One turn\<close>

datatype LoopStep =
    Continue LoopState
  | Finish AgentResult rat

definition requestFor :: "LoopParams \<Rightarrow> PreparedSendView \<Rightarrow> ChatRequest" where
  "requestFor p view =
     \<lparr>cr_model = lp_model p, cr_systemPrompt = sv_systemPrompt view, cr_messages = sv_providerMessages view,
      cr_tools = (if sv_tools view = [] then None else Some (sv_tools view)), cr_thinking = lp_thinking p\<rparr>"

definition callSucceeded :: "LLMCallResult \<Rightarrow> bool" where
  "callSucceeded r = (case r of LLMAborted b t u \<Rightarrow> False | LLMSuccess m s u e \<Rightarrow> e = None \<and> getTotalInputTokens u > 0)"

definition calibrateEstimator :: "'w Host \<Rightarrow> PreparedSendView \<Rightarrow> LLMCallResult \<Rightarrow> ('w, unit) loopProgram" where
  "calibrateEstimator H view r =
     (case hs_estimator H of
        None \<Rightarrow> ret ()
      | Some es \<Rightarrow>
          if callSucceeded r then
            change (\<lambda>w. es_calibrate es
              (es_text es w (sv_systemPrompt view) + es_messages es w (sv_providerMessages view) + es_tools es w (sv_tools view))
              (getTotalInputTokens (llmUsage r)) w)
          else ret ())"

definition anchorAfter :: "LoopState \<Rightarrow> LLMCallResult \<Rightarrow> TokenAnchor option" where
  "anchorAfter s r =
     (if callSucceeded r
      then Some \<lparr>an_totalInputTokens = getTotalInputTokens (llmUsage r), an_baselineMessageCount = length (ls_messages s)\<rparr>
      else ls_anchor s)"

definition abortReason :: "'w Host \<Rightarrow> ('w, AbortReason option) loopProgram" where
  "abortReason H = look (\<lambda>w. getAbortReason (hs_signal H w))"

definition finishAborted :: "'w Host \<Rightarrow> TokenUsage \<Rightarrow> ('w, LoopStep) loopProgram" where
  "finishAborted H usage = bnd (abortReason H) (\<lambda>reason. ret (Finish (AbortedResult usage reason None) 0))"

text \<open>An abort while the model answered: the text so far, marked as interrupted.\<close>

definition interruptedCall :: "'w Host \<Rightarrow> string \<Rightarrow> string \<Rightarrow> TokenUsage \<Rightarrow> ('w, LoopStep) loopProgram" where
  "interruptedCall H body thinking usage =
     bnd (abortReason H) (\<lambda>reason.
     bnd (case buildCleanup (Some (body, thinking)) [] reason of
            CleanupData (Some m) placeholders \<Rightarrow> yieldTo H (YieldAssistant m)
          | _ \<Rightarrow> ret ()) (\<lambda>u.
     ret (Finish (AbortedResult usage reason None) 0)))"

text \<open>\<open>receive\<close> of the input port, asked only while no abort came and a turn is left.\<close>

definition receiveInput :: "'w Host \<Rightarrow> LoopParams \<Rightarrow> nat \<Rightarrow> bool \<Rightarrow> ('w, Message list) loopProgram" where
  "receiveInput H p boundary closing =
     bnd (aborted H) (\<lambda>ab.
     if \<not> ab \<and> boundary < maxTurnsOf p then outside (hs_receive H boundary closing) else ret [])"

definition nextState ::
  "LoopState \<Rightarrow> Message list \<times> bool \<Rightarrow> Message list \<Rightarrow> TokenUsage \<Rightarrow> ContinueReason \<Rightarrow> TokenAnchor option \<Rightarrow> bool \<Rightarrow> LoopState" where
  "nextState s turnEnd incoming usage reason anchor started =
     \<lparr>ls_messages = fst turnEnd @ incoming, ls_turnCount = Suc (ls_turnCount s), ls_totalUsage = usage,
      ls_transition = Some reason, ls_anchor = (if snd turnEnd then None else anchor), ls_toolsStarted = started\<rparr>"

definition textTurn ::
  "'w Host \<Rightarrow> LoopParams \<Rightarrow> LoopState \<Rightarrow> Message \<Rightarrow> TokenUsage \<Rightarrow> TokenAnchor option \<Rightarrow> ('w, LoopStep) loopProgram" where
  "textTurn H p s message usage anchor =
     bnd (runTurnEnd H p (Suc (ls_turnCount s)) (ls_messages s @ [message]) anchor) (\<lambda>turnEnd.
     bnd (receiveInput H p (Suc (ls_turnCount s)) True) (\<lambda>incoming.
     if incoming \<noteq> [] then
       ret (Continue (nextState s turnEnd incoming usage AfterInput anchor (ls_toolsStarted s)))
     else ret (Finish (CompletedResult message usage) 0)))"

text \<open>\<open>abortFiredAt\<close>: set at the entry when the signal was aborted by then, else by the listener.\<close>

definition firedAt :: "rat option \<Rightarrow> Signal \<Rightarrow> rat option" where
  "firedAt entry sig = (case entry of Some t \<Rightarrow> Some t | None \<Rightarrow> (case sig of AbortedAt t r \<Rightarrow> Some t | Live \<Rightarrow> None))"

definition graceOf :: "BatchResult \<Rightarrow> rat option \<Rightarrow> rat" where
  "graceOf batch fired =
     (case (bt_abortedDuringToolAt batch, fired) of
        (Some gaveWay, Some f) \<Rightarrow> max 0 (gaveWay - f)
      | _ \<Rightarrow> 0)"

definition toolNameById :: "ToolUseBlock list \<Rightarrow> string \<Rightarrow> string" where
  "toolNameById calls i = withDefault (map_of (rev (map (\<lambda>c. (ub_id c, ub_name c)) calls)) i) ''unknown''"

text \<open>An abort during the tools: one placeholder for every call without a result, and the turn is over.\<close>

definition interruptedTools ::
  "'w Host \<Rightarrow> rat option \<Rightarrow> LoopState \<Rightarrow> BatchResult \<Rightarrow> TokenUsage \<Rightarrow> TokenUsage \<Rightarrow> ('w, LoopStep) loopProgram" where
  "interruptedTools H entry s batch turnUsage usage =
     bnd (abortReason H) (\<lambda>reason.
     bnd (case buildCleanup None (bt_unexecutedToolUses batch) reason of
            CleanupData partial placeholders \<Rightarrow>
              if placeholders = [] then ret ()
              else
                bnd (eachOf (\<lambda>r. yieldTo H (YieldToolEnd (rb_toolUseId r)
                       (toolNameById (bt_unexecutedToolUses batch) (rb_toolUseId r)) (errorResult (rb_content r)) 0)) placeholders) (\<lambda>u.
                yieldTo H (YieldTurn (Suc (ls_turnCount s)) turnUsage))
          | NoCleanup \<Rightarrow> ret ()) (\<lambda>u.
     bnd (look (\<lambda>w. firedAt entry (hs_signal H w))) (\<lambda>fired.
     ret (Finish (AbortedResult usage reason None) (graceOf batch fired)))))"

definition exclusiveFailedError :: "string \<Rightarrow> AgentError" where
  "exclusiveFailedError name =
     \<lparr>ag_message = map (char_of :: nat \<Rightarrow> char)
        [230, 142, 146, 228, 187, 150, 230, 142, 167, 229, 136, 182, 232, 176, 131, 231, 148, 168, 32, 34]
        @ name @ map (char_of :: nat \<Rightarrow> char)
        [34, 32, 229, 164, 177, 232, 180, 165, 239, 188, 140, 230, 156, 172, 232, 191, 144, 232, 161, 140,
         231, 187, 136, 230, 173, 162],
      ag_type = ToolError, ag_recoverable = False, ag_cause = None\<rparr>"

definition toolTurn ::
  "'w Host \<Rightarrow> LoopParams \<Rightarrow> rat option \<Rightarrow> LoopState \<Rightarrow> Message \<Rightarrow> TokenUsage \<Rightarrow> TokenUsage \<Rightarrow> TokenAnchor option \<Rightarrow>
   ('w, LoopStep) loopProgram" where
  "toolTurn H p entry s message turnUsage usage anchor =
     (let calls = extractToolCalls message in
      bnd (executeToolCalls H (lp_tools p)
             \<lparr>ec_enabled = lp_enabledExclusiveControls p, ec_toolsStartedBefore = ls_toolsStarted s\<rparr> calls) (\<lambda>x.
      let batch = xr_batch x; started = ls_toolsStarted s \<or> bt_startedTools batch in
      if bt_unexecutedToolUses batch \<noteq> [] then interruptedTools H entry s batch turnUsage usage
      else
        bnd (yieldTo H (YieldTurn (Suc (ls_turnCount s)) turnUsage)) (\<lambda>u.
        bnd (runTurnEnd H p (Suc (ls_turnCount s))
               (ls_messages s @ [message, toolResultMessage (bt_completedResults batch)]) anchor) (\<lambda>turnEnd.
        case xr_exclusive x of
          Some (i, ControlSucceeded) \<Rightarrow> ret (Finish (CompletedResult message usage) 0)
        | Some (i, ControlFailed) \<Rightarrow>
            ret (Finish (ErrorResult (exclusiveFailedError
              (withDefault (map_option ub_name (List.find (\<lambda>c. ub_id c = i) calls)) i)) usage) 0)
        | None \<Rightarrow>
            bnd (receiveInput H p (Suc (ls_turnCount s)) False) (\<lambda>incoming.
            ret (Continue (nextState s turnEnd incoming usage AfterToolUse anchor started)))))))"

text \<open>What a turn does once the model has answered.\<close>

definition afterCall :: "'w Host \<Rightarrow> LoopParams \<Rightarrow> rat option \<Rightarrow> LoopState \<Rightarrow> PreparedSendView \<Rightarrow> LLMCallResult \<Rightarrow> ('w, LoopStep) loopProgram" where
  "afterCall H p entry s view r =
     (let usage = mergeUsage (ls_totalUsage s) (llmUsage r) in
      bnd (calibrateEstimator H view r) (\<lambda>u.
      case r of
        LLMAborted body thinking turnUsage \<Rightarrow> interruptedCall H body thinking usage
      | LLMSuccess message stop turnUsage (Some err) \<Rightarrow> ret (Finish (ErrorResult err usage) 0)
      | LLMSuccess message stop turnUsage None \<Rightarrow>
          if extractToolCalls message = [] then textTurn H p s message usage (anchorAfter s r)
          else toolTurn H p entry s message turnUsage usage (anchorAfter s r)))"

text \<open>The body of \<^verbatim>\<open>while (true)\<close>.\<close>

definition oneTurn :: "'w Host \<Rightarrow> LoopParams \<Rightarrow> rat option \<Rightarrow> LoopState \<Rightarrow> ('w, LoopStep) loopProgram" where
  "oneTurn H p entry s =
     bnd (aborted H) (\<lambda>ab.
     if ab then finishAborted H (ls_totalUsage s)
     else if maxTurnsOf p \<le> ls_turnCount s
     then ret (Finish (MaxTurnsResult (maxTurnsOf p) (ls_totalUsage s)) 0)
     else
       bnd (look (prepareSendView H p (ls_messages s))) (\<lambda>view.
       case validateMessagesAgainstInputCapabilities (sv_messagesForLLM view) (imagesAllowed p) of
         Some err \<Rightarrow> ret (Finish (ErrorResult err (ls_totalUsage s)) 0)
       | None \<Rightarrow>
           bnd (streamLLMCall H (requestFor p view) (sv_tools view)) (afterCall H p entry s view)))"

text \<open>
  A turn ends at one of its guards, without effects and with the usage so far, or it goes through
  a call of the model.
\<close>

lemma oneTurn_ends:
  assumes "\<And>r. resultUsage r = ls_totalUsage s \<Longrightarrow> Q w [] (Done (Finish r 0))"
    and "\<And>view. \<not> isAborted (hs_signal H w) \<Longrightarrow> ls_turnCount s < maxTurnsOf p \<Longrightarrow>
           view = prepareSendView H p (ls_messages s) w \<Longrightarrow>
           ends (bnd (streamLLMCall H (requestFor p view) (sv_tools view)) (afterCall H p entry s view)) w Q"
  shows "ends (oneTurn H p entry s) w Q"
  using assms(2)
  by (auto simp: oneTurn_def finishAborted_def abortReason_def ends_steps ends_bnd [of "aborted H"] ends_bnd [of "look f" for f]
      assms(1) not_le split: option.split)

text \<open>A turn that goes on has counted itself, and did not start at the limit.\<close>

definition turnCounted :: "LoopParams \<Rightarrow> LoopState \<Rightarrow> LoopStep Completion \<Rightarrow> bool" where
  "turnCounted p s c \<longleftrightarrow>
     (\<forall>s'. c = Done (Continue s') \<longrightarrow> ls_turnCount s' = Suc (ls_turnCount s) \<and> ls_turnCount s < maxTurnsOf p)"

lemma turnCounted_simps [simp]:
  "turnCounted p s (Done (Finish r g))" "turnCounted p s (Threw e)" "turnCounted p s Returned"
  "turnCounted p s (Done (Continue (nextState s te i u cr a t))) = (ls_turnCount s < maxTurnsOf p)"
  by (simp_all add: turnCounted_def nextState_def)

lemma textTurn_counted:
  "ls_turnCount s < maxTurnsOf p \<Longrightarrow> ends (textTurn H p s m u a) w (\<lambda>w' tr c. turnCounted p s c)"
  unfolding textTurn_def by (auto intro!: ends_last simp: ends_steps)

lemma toolTurn_counted:
  "ls_turnCount s < maxTurnsOf p \<Longrightarrow> ends (toolTurn H p entry s m tu u a) w (\<lambda>w' tr c. turnCounted p s c)"
  unfolding toolTurn_def Let_def interruptedTools_def
  by (auto intro!: ends_last simp: ends_steps split: option.split ControlOutcome.split)

lemma oneTurn_counted: "ends (oneTurn H p entry s) w (\<lambda>w' tr c. turnCounted p s c)"
  unfolding oneTurn_def afterCall_def Let_def finishAborted_def interruptedCall_def
  by (auto intro!: ends_last simp: ends_steps textTurn_counted toolTurn_counted split: option.split LLMCallResult.split)

section \<open>The loop\<close>

text \<open>
  How the loop is left: by a result to finalize, with the tools' share of the delay, by an
  exception, or by a consumer that abandons it; always with the state of its last turn.
\<close>

datatype LoopEnd =
    Finished AgentResult rat LoopState
  | Crashed ErrorValue LoopState
  | Abandoned LoopState

function loopFrom :: "'w Host \<Rightarrow> LoopParams \<Rightarrow> rat option \<Rightarrow> LoopState \<Rightarrow> 'w \<Rightarrow> 'w \<times> LoopEffect list \<times> LoopEnd" where
  "loopFrom H p entry s w =
     (case oneTurn H p entry s w of
        (w', tr, Done (Continue s')) \<Rightarrow> (case loopFrom H p entry s' w' of (w'', tr', e) \<Rightarrow> (w'', tr @ tr', e))
      | (w', tr, Done (Finish r grace)) \<Rightarrow> (w', tr, Finished r grace s)
      | (w', tr, Threw e) \<Rightarrow> (w', tr, Crashed e s)
      | (w', tr, Returned) \<Rightarrow> (w', tr, Abandoned s))"
  by pat_completeness auto
termination
proof (relation "measure (\<lambda>(H, p, entry, s, w). maxTurnsOf p - ls_turnCount s)", goal_cases)
  case (2 H p entry s w w' rest tr c step s')
  then have "oneTurn H p entry s w = (w', tr, Done (Continue s'))" by simp
  then have "turnCounted p s (Done (Continue s'))" by (rule endsD [OF oneTurn_counted])
  then show ?case by (auto simp: turnCounted_def)
qed simp

declare loopFrom.simps [simp del]

section \<open>The way out\<close>

text \<open>\<^verbatim>\<open>Math.round\<close>.\<close>

definition roundMs :: "rat \<Rightarrow> int" where
  "roundMs x = \<lfloor>x + 1 / 2\<rfloor>"

text \<open>An abort comes before every other result.\<close>

definition abortFirst :: "Signal \<Rightarrow> AgentResult \<Rightarrow> AgentResult" where
  "abortFirst sig r =
     (if isAborted sig then
        (case r of
           AbortedResult u None d \<Rightarrow> AbortedResult u (getAbortReason sig) d
         | AbortedResult u (Some reason) d \<Rightarrow> r
         | _ \<Rightarrow> AbortedResult (resultUsage r) (getAbortReason sig) None)
      else r)"

definition withExitDelay :: "rat option \<Rightarrow> rat \<Rightarrow> AgentResult \<Rightarrow> AgentResult" where
  "withExitDelay fired now r =
     (case r of
        AbortedResult u reason d \<Rightarrow> AbortedResult u reason (map_option (\<lambda>f. roundMs (now - f)) fired)
      | _ \<Rightarrow> r)"

definition announceFired :: "'w Host \<Rightarrow> nat \<Rightarrow> rat \<Rightarrow> AgentResult \<Rightarrow> ('w, unit) loopProgram" where
  "announceFired H turnIndex grace r =
     (case r of
        AbortedResult u reason d \<Rightarrow> emit H (InterruptFired reason turnIndex d grace)
      | _ \<Rightarrow> ret ())"

text \<open>
  What follows \<^verbatim>\<open>inputPort.close()\<close>. \<open>fired\<close> gives \<^verbatim>\<open>abortFiredAt\<close>, which the \<^verbatim>\<open>finally\<close> block
  of an abandoned run sets itself.
\<close>

definition announceEndOfRun ::
  "'w Host \<Rightarrow> int \<Rightarrow> (Signal \<Rightarrow> rat option) \<Rightarrow> LoopState \<Rightarrow> AgentResult \<Rightarrow> rat \<Rightarrow> ('w, AgentResult) loopProgram" where
  "announceEndOfRun H startTime fired s r grace =
     bnd (look (\<lambda>w. withExitDelay (fired (hs_signal H w)) (hs_perf H w) (abortFirst (hs_signal H w) r))) (\<lambda>final.
     bnd (announceFired H (ls_turnCount s) grace final) (\<lambda>u.
     bnd (dateNow H) (\<lambda>now.
     bnd (emit H (RunEnd (resultReason final) (now - startTime) (resultUsage final) (resultError final))) (\<lambda>v.
     ret final))))"

definition finalizeRun ::
  "'w Host \<Rightarrow> int \<Rightarrow> (Signal \<Rightarrow> rat option) \<Rightarrow> LoopState \<Rightarrow> AgentResult \<Rightarrow> rat \<Rightarrow> ('w, AgentResult) loopProgram" where
  "finalizeRun H startTime fired s r grace =
     bnd (outside (hs_close H)) (\<lambda>u. announceEndOfRun H startTime fired s r grace)"

section \<open>The generator\<close>

definition consumerReturnReason :: AbortReason where
  "consumerReturnReason = ExternalSignal (Some ''consumer-return'')"

text \<open>
  The \<^verbatim>\<open>finally\<close> block when no end of the run was announced. \<open>caughtError\<close> is what the \<^verbatim>\<open>catch\<close>
  clause stored: \<open>None\<close> stands for \<^verbatim>\<open>null\<close>, its initial value, which a thrown \<^verbatim>\<open>null\<close> is too. An
  exception of \<open>finalizeRun\<close> is logged and swallowed.
\<close>

definition caughtErrorOf :: "ErrorValue \<Rightarrow> ErrorValue option" where
  "caughtErrorOf e = (if e = Falsy ''null'' then None else Some e)"

definition finallyBlock :: "'w Host \<Rightarrow> int \<Rightarrow> rat option \<Rightarrow> LoopState \<Rightarrow> ErrorValue option \<Rightarrow> ('w, unit) loopProgram" where
  "finallyBlock H startTime entry s caughtError =
     (case caughtError of
        Some e \<Rightarrow>
          bnd (attempt (finalizeRun H startTime (firedAt entry) s (ErrorResult (toAgentError H e) (ls_totalUsage s)) 0)) (\<lambda>u.
          ret ())
      | None \<Rightarrow>
          bnd (look (\<lambda>w. withDefault (firedAt entry (hs_signal H w)) (hs_perf H w))) (\<lambda>fired.
          bnd (attempt (finalizeRun H startTime (\<lambda>sig. Some fired) s
                 (AbortedResult (ls_totalUsage s) (Some consumerReturnReason) None) 0)) (\<lambda>u.
          ret ())))"

text \<open>After the block the exception goes on, or the generator returns to the consumer that left it.\<close>

definition finallyCrashed :: "'w Host \<Rightarrow> int \<Rightarrow> rat option \<Rightarrow> LoopState \<Rightarrow> ErrorValue \<Rightarrow> ('w, AgentResult) loopProgram" where
  "finallyCrashed H startTime entry s e =
     bnd (finallyBlock H startTime entry s (caughtErrorOf e)) (\<lambda>u. outside (\<lambda>w. (w, Inl e)))"

definition leaveGenerator :: "('w, AgentResult) loopProgram" where
  "leaveGenerator w = (w, [], Returned)"

definition finallyAbandoned :: "'w Host \<Rightarrow> int \<Rightarrow> rat option \<Rightarrow> LoopState \<Rightarrow> ('w, AgentResult) loopProgram" where
  "finallyAbandoned H startTime entry s = bnd (finallyBlock H startTime entry s None) (\<lambda>u. leaveGenerator)"

definition leaveLoop :: "'w Host \<Rightarrow> int \<Rightarrow> rat option \<Rightarrow> LoopEnd \<Rightarrow> ('w, AgentResult) loopProgram" where
  "leaveLoop H startTime entry e =
     (case e of
        Finished r grace s \<Rightarrow>
          bnd (attempt (finalizeRun H startTime (firedAt entry) s r grace)) (\<lambda>x.
          case x of Inr final \<Rightarrow> ret final | Inl err \<Rightarrow> finallyCrashed H startTime entry s err)
      | Crashed err s \<Rightarrow> finallyCrashed H startTime entry s err
      | Abandoned s \<Rightarrow> finallyAbandoned H startTime entry s)"

text \<open>The hook before the first turn, then the loop; an exception of the hook leaves the initial state.\<close>

definition bodyOfRun :: "'w Host \<Rightarrow> LoopParams \<Rightarrow> rat option \<Rightarrow> ('w, LoopEnd) loopProgram" where
  "bodyOfRun H p entry =
     bnd (attempt (runTurnBegin H p 0 (lp_messages p))) (\<lambda>r.
     case r of
       Inl e \<Rightarrow> ret (Crashed e (initialState p))
     | Inr (ms, replaced) \<Rightarrow>
         (\<lambda>w. case loopFrom H p entry ((initialState p)\<lparr>ls_messages := ms\<rparr>) w of (w', tr, e) \<Rightarrow> (w', tr, Done e)))"

definition promptOf :: "LoopParams \<Rightarrow> string" where
  "promptOf p = (if lp_messages p = [] then '''' else extractText (last (lp_messages p)))"

definition runAgentLoop :: "'w Host \<Rightarrow> LoopParams \<Rightarrow> ('w, AgentResult) loopProgram" where
  "runAgentLoop H p =
     bnd (dateNow H) (\<lambda>startTime.
     bnd (look (\<lambda>w. if isAborted (hs_signal H w) then Some (hs_perf H w) else None)) (\<lambda>entry.
     bnd (emit H (RunStart (promptOf p))) (\<lambda>u.
     bnd (bodyOfRun H p entry) (\<lambda>e.
     leaveLoop H startTime entry e))))"

end
