(* ===== verification/Loop_Effects.thy ===== *)
theory Loop_Effects
  imports Loop_Parallel Loop_Run
begin

text \<open>
  Which effects a turn of the loop has once its model was asked: those of its tools and of its
  edges. The locale \<open>turn_effects\<close> is any property that these effects have; every program of a
  turn then has only effects with the property. It is interpreted below and in the theories that
  count requests, texts and usage.
\<close>

section \<open>The effects of a turn after its request\<close>

fun turnEffect :: "LoopEffect \<Rightarrow> bool" where
  "turnEffect (Yielded (YieldToolStart i n v)) = True"
| "turnEffect (Yielded (YieldToolEnd i n r d)) = True"
| "turnEffect (Yielded (YieldAssistant m)) = True"
| "turnEffect (Yielded (YieldTurn n u)) = True"
| "turnEffect (Emitted (ToolCallStarted i n v)) = True"
| "turnEffect (Emitted (ToolExecutionObserved i n r e d x)) = True"
| "turnEffect (Emitted (ToolCallEnded i n d ok x)) = True"
| "turnEffect (Emitted (TokensSnapshot t n)) = True"
| "turnEffect e = False"

lemma effectsAre_ends: "effectsAre P m \<Longrightarrow> ends m w (\<lambda>w' tr c. list_all P tr)"
  by (simp add: effectsAre_def)

lemma effectsAre_emit [simp]: "effectsAre P (emit H e) = P (Emitted e)"
  by (simp add: emit_def effectsAre_basic)

lemma effectsAre_yieldTo [simp]: "effectsAre P (yieldTo H y) = P (Yielded y)"
  by (simp add: yieldTo_def effectsAre_basic)

lemma effectsAre_reads [simp]:
  "effectsAre P (aborted H)" "effectsAre P (dateNow H)" "effectsAre P (perfNow H)" "effectsAre P (abortReason H)"
  by (simp_all add: aborted_def dateNow_def perfNow_def abortReason_def effectsAre_basic)

lemmas effects_rules = effectsAre_bnd effectsAre_attempt effectsAre_eachOf

locale turn_effects =
  fixes P :: "LoopEffect \<Rightarrow> bool"
  assumes keeps: "turnEffect e \<Longrightarrow> P e"
begin

lemma kept [simp]:
  "P (Yielded (YieldToolStart i n v))" "P (Yielded (YieldToolEnd i n r d))" "P (Yielded (YieldAssistant m))"
  "P (Yielded (YieldTurn k u))" "P (Emitted (ToolCallStarted i n v))" "P (Emitted (ToolExecutionObserved i n o' e t x))"
  "P (Emitted (ToolCallEnded i n t ok x))" "P (Emitted (TokensSnapshot t k))"
  by (simp_all add: keeps)

lemma observed [simp]: "effectsAre P (observeToolOutcome H call r e d n)"
  by (simp add: observeToolOutcome_def)

lemma announced [simp]:
  "effectsAre P (announceStart H call)" "effectsAre P (announceEnd H call r d)"
  "effectsAre P (observeSuccess H call r d)" "effectsAre P (observeSkipped H calls)"
  by (auto simp: announceStart_def announceEnd_def observeSuccess_def observeSkipped_def intro!: effects_rules)

lemma executed [simp]: "effectsAre P (executeObservedTool H t call)"
  by (auto simp: executeObservedTool_def rethrow_def effectsAre_basic intro!: effects_rules split: option.split)

lemma serially [simp]: "effectsAre P (serialFrom H tm planned results started)"
proof (induction planned arbitrary: results started)
  case (Cons planned rest)
  then show ?case
    by (cases planned; cases "\<exists>call t. planned = RunCall call (Some t)")
       (auto simp: effectsAre_basic Let_def intro!: effects_rules split: sum.split option.split)
qed (simp add: effectsAre_basic)

lemma advanced [simp]: "effectsAre P (advanceTask H t0 call tool phase)"
  by (cases phase)
     (auto simp: effectsAre_basic reportTask_def intro!: effects_rules split: option.split sum.split)

lemma in_turns [simp]: "effectsAre P (turnsOf H t0 n tasks)"
  by (induction n arbitrary: tasks)
     (auto simp: effectsAre_basic stepTasks_def intro!: effects_rules split: list.split)

lemma collected [simp]: "effectsAre P (collectFrom H d sa planned settled results left gw)"
proof (induction planned arbitrary: settled results left gw)
  case (Cons planned rest)
  then show ?case
    by (cases planned; cases settled rule: list.exhaust)
       (auto simp: effectsAre_basic Let_def intro!: effects_rules split: sum.split)
qed (simp add: effectsAre_basic)

lemma in_batch [simp]: "effectsAre P (executeToolCalls H tools control calls)"
  unfolding executeToolCalls_def Let_def runSerialBatch_def runParallelBatch_def settleTasks_def
  by (auto simp: effectsAre_basic intro!: effects_rules)

lemma at_edges [simp]:
  "effectsAre P (runTurnBegin H p n ms)" "effectsAre P (runTurnEnd H p n ms a)"
  by (auto simp: runTurnEnd_def runTurnBegin_def evaluateSegment_def emitSnapshot_def effectsAre_basic
      intro!: effects_rules split: option.split prod.split)

lemma in_turn [simp]:
  "effectsAre P (textTurn H p s m u a)" "effectsAre P (toolTurn H p entry s m tu u a)"
  "effectsAre P (interruptedCall H b t u)" "effectsAre P (calibrateEstimator H view r)"
  unfolding textTurn_def toolTurn_def interruptedTools_def interruptedCall_def receiveInput_def calibrateEstimator_def Let_def
  by (auto simp: effectsAre_basic intro!: effects_rules
      split: option.split ControlOutcome.split CleanupOutcome.split)

lemma after_call [simp]: "effectsAre P (afterCall H p entry s view r)"
  unfolding afterCall_def Let_def
  by (auto simp: effectsAre_basic intro!: effects_rules split: LLMCallResult.split option.split)

end

end
