(* ===== verification/Loop_Turns.thy ===== *)
theory Loop_Turns
  imports Loop_Effects
begin

text \<open>
  What a turn of the loop leaves behind: which events it emits, the messages that its consumer
  rebuilds, which always pair calls with results, and how the loop's own messages relate to
  them.
\<close>

section \<open>Events of a turn\<close>

text \<open>The effects that occur inside a turn after its request was announced.\<close>

fun inner :: "LoopEffect \<Rightarrow> bool" where
  "inner (Emitted (RunStart s)) = False"
| "inner (Emitted (RunEnd r d u e)) = False"
| "inner (Emitted (InterruptFired r n d g)) = False"
| "inner (Emitted (RequestStart m ms s ts)) = False"
| "inner e = True"

lemma inner_events:
  "inner e \<Longrightarrow> \<not> isRunEnd e" "inner e \<Longrightarrow> \<not> isFired e" "inner e \<Longrightarrow> \<not> isRequest e"
  by (cases e rule: inner.cases; simp)+

lemma inner_turnEffect: "turnEffect e \<Longrightarrow> inner e"
  by (cases e rule: turnEffect.cases) auto

interpretation inner: turn_effects inner
  by unfold_locales (simp add: inner_turnEffect)

lemma inner_passOn [simp]: "effectsAre inner (passOn H ev)"
  by (cases ev) (simp_all add: passOn_def effectsAre_basic)

lemma inner_consume [simp]: "effectsAre inner (consumeFrom H thrown evs st)"
  by (induction evs arbitrary: st) (auto simp: effectsAre_basic raced_def intro!: effects_rules)

lemma inner_stream [simp]: "effectsAre inner (finishCall H t0 out)" "effectsAre inner (openStream H request)"
  unfolding finishCall_def Let_def endRequest_def yieldPartial_def openStream_def
  by (auto simp: effectsAre_basic intro!: effects_rules split: option.split sum.split prod.split)

definition requestOf :: "LoopParams \<Rightarrow> PreparedSendView \<Rightarrow> LoopEffect" where
  "requestOf p view = Emitted (RequestStart (lp_model p) (sv_providerMessages view) (sv_systemPrompt view) (sv_tools view))"

lemma isRequest_requestOf [simp]: "isRequest (requestOf p view)" "\<not> isRunEnd (requestOf p view)" "\<not> isFired (requestOf p view)"
  by (simp_all add: requestOf_def)

lemma streamLLMCall_events:
  "ends (streamLLMCall H (requestFor p view) (sv_tools view)) w
     (\<lambda>w' tr c. \<exists>rest. tr = requestOf p view # rest \<and> list_all inner rest)"
  unfolding streamLLMCall_def
  by (subst ends_bnd)
     (auto simp: ends_steps requestOf_def requestFor_def intro!: ends_mono [OF effectsAre_ends [where P = inner]] effects_rules)

text \<open>
  A turn either has no effects and ends the loop, or it announces one request, with the view of
  the messages at its start, and then no other request and no end of the run.
\<close>

definition turnEvents :: "'w Host \<Rightarrow> LoopParams \<Rightarrow> LoopState \<Rightarrow> 'w \<Rightarrow> LoopEffect list \<Rightarrow> LoopStep Completion \<Rightarrow> bool" where
  "turnEvents H p s w tr c \<longleftrightarrow>
     (tr = [] \<and> (\<exists>r g. c = Done (Finish r g))) \<or>
     (\<exists>rest. tr = requestOf p (prepareSendView H p (ls_messages s) w) # rest \<and> list_all inner rest \<and>
             ls_turnCount s < maxTurnsOf p \<and> \<not> isAborted (hs_signal H w))"

lemma oneTurn_events: "ends (oneTurn H p entry s) w (\<lambda>w'. turnEvents H p s w)"
  by (rule oneTurn_ends, simp add: turnEvents_def,
      rule ends_seq [OF streamLLMCall_events], rule ends_mono [OF effectsAre_ends [OF inner.after_call]])
     (auto simp: turnEvents_def)

section \<open>What the consumer rebuilds\<close>

lemma passOn_untracked: "ends (passOn H ev) w (\<lambda>w' tr c. untracked tr)"
  by (cases ev) (auto simp: passOn_def ends_steps untracked_def)

lemma consumeFrom_untracked: "ends (consumeFrom H thrown evs st) w (\<lambda>w' tr c. untracked tr)"
proof (induction evs arbitrary: st w)
  case Nil
  then show ?case by (simp add: ends_simps raced_def untracked_def)
next
  case (Cons ev evs)
  have emitted: "untracked (Emitted e # tr) = untracked tr" for e tr
    by (simp add: untracked_def)
  show ?case
    by (auto simp: ends_simps raced_def emitted intro!: ends_mono [OF passOn_untracked] ends_mono [OF Cons.IH]
        split: Completion.split)
qed

lemma openStream_untracked: "ends (openStream H request) w (\<lambda>w' tr c. untracked tr)"
  by (auto simp: openStream_def ends_simps untracked_def [of "[]"] split: sum.split prod.split
      intro!: ends_mono [OF consumeFrom_untracked])

text \<open>The messages that a program adds for its consumer, between turns.\<close>

definition adds :: "LoopEffect list \<Rightarrow> Message list \<Rightarrow> bool" where
  "adds tr new \<longleftrightarrow> (\<forall>ms waiting. tracked tr (ms, waiting) = (ms @ new, waiting))"

lemma adds_untracked: "untracked tr \<Longrightarrow> adds (tr @ tr') new = adds tr' new"
  by (simp add: adds_def untracked_def)

lemma adds_basic [simp]:
  "adds [] new = (new = [])" "adds (Emitted e # tr) new = adds tr new"
  "adds [Yielded (YieldAssistant m)] new = (new = [m])"
  by (auto simp: adds_def)

definition callGives :: "LoopEffect list \<Rightarrow> LLMCallResult \<Rightarrow> bool" where
  "callGives tr r =
     (case r of
        LLMAborted b t u \<Rightarrow> adds tr []
      | LLMSuccess m s u None \<Rightarrow>
          adds tr [m] \<and> toolResultsOf m = [] \<and> distinct (map ub_id (extractToolCalls m))
      | LLMSuccess m s u (Some e) \<Rightarrow> (\<exists>new. adds tr new \<and> paired new))"

lemma finishCall_gives:
  assumes "omap_wf (ss_toolCalls (so_state out))"
  shows "ends (finishCall H t0 out) w (\<lambda>w' tr c. \<forall>r. c = Done r \<longrightarrow> callGives tr r)"
  using assms
  by (auto simp: finishCall_def Let_def endRequest_def yieldPartial_def ends_simps callGives_def
      interrupted_message_calls assembleMessage_distinct split: option.split)

lemma streamLLMCall_gives:
  "ends (streamLLMCall H request specs) w (\<lambda>w' tr c. \<forall>r. c = Done r \<longrightarrow> callGives tr r)"
proof -
  have gives: "callGives (Emitted e # tr @ tr') r = callGives tr' r" if "untracked tr" for e tr tr' r
    using that by (auto simp: callGives_def adds_untracked split: LLMCallResult.split option.split)
  have opened: "ends (openStream H request) w'
      (\<lambda>w' tr c. untracked tr \<and> (\<forall>out. c = Done out \<longrightarrow> omap_wf (ss_toolCalls (so_state out))))" for w'
    by (rule ends_conj [OF openStream_untracked openStream_wf])
  show ?thesis
    unfolding streamLLMCall_def
    by (auto simp: ends_simps intro!: ends_mono [OF opened] split: Completion.split)
       (rule ends_mono [OF finishCall_gives], auto simp: gives)
qed

section \<open>A turn pairs its calls\<close>

text \<open>What is added to a consumer that waits for nothing, and still waits for nothing.\<close>

definition turnAdds :: "LoopEffect list \<Rightarrow> Message list \<Rightarrow> bool" where
  "turnAdds tr new \<longleftrightarrow> (\<forall>ms. tracked tr (ms, []) = (ms @ new, []))"

lemma adds_turnAdds: "adds tr new \<Longrightarrow> turnAdds tr new"
  by (simp add: adds_def turnAdds_def)

lemma turnAdds_append: "turnAdds tr new \<Longrightarrow> turnAdds tr' new' \<Longrightarrow> turnAdds (tr @ tr') (new @ new')"
  by (simp add: turnAdds_def)

lemma turnAdds_untracked [simp]:
  "untracked tr \<Longrightarrow> turnAdds (tr @ tr') new = turnAdds tr' new"
  "untracked tr' \<Longrightarrow> turnAdds (tr @ tr') new = turnAdds tr new"
  "turnAdds (Emitted e # tr) new = turnAdds tr new"
  "turnAdds [] new = (new = [])"
  by (simp_all add: turnAdds_def untracked_def del: split_paired_All)

lemma effects_untracked: "effectsAre isEmission m \<Longrightarrow> ends m w (\<lambda>w' tr c. untracked tr)"
  by (rule ends_mono [OF effectsAre_ends]) auto

lemma emission_hooks [simp]:
  "effectsAre isEmission (runTurnBegin H p n ms)" "effectsAre isEmission (runTurnEnd H p n ms a)"
  "effectsAre isEmission (receiveInput H p b cl)" "effectsAre isEmission (calibrateEstimator H view r)"
  by (auto simp: runTurnEnd_def runTurnBegin_def evaluateSegment_def emitSnapshot_def receiveInput_def
      calibrateEstimator_def effectsAre_basic intro!: effectsAre_bnd split: option.split prod.split)

lemma emission_text: "effectsAre isEmission (textTurn H p s m u a)"
  by (auto simp: textTurn_def effectsAre_basic intro!: effectsAre_bnd)

lemma ids_agree: "list_all2 agree rs bs \<Longrightarrow> map rb_toolUseId rs = map rb_toolUseId bs"
  by (induction rule: list_all2_induct) (auto simp: agree_def)

text \<open>The placeholders, as the consumer stores them.\<close>

lemma placeholders_tracked:
  "ends (eachOf (\<lambda>r. yieldTo H (YieldToolEnd (rb_toolUseId r) (name r) (errorResult (rb_content r)) 0)) placeholders) w
     (\<lambda>w' tr c. c = Done () \<longrightarrow>
        (\<exists>bs. map rb_toolUseId bs = map rb_toolUseId placeholders \<and>
              (\<forall>ms waiting. tracked tr (ms, waiting) = (ms, waiting @ bs))))"
proof (induction placeholders arbitrary: w)
  case Nil
  then show ?case by (simp add: ends_simps)
next
  case (Cons r placeholders)
  have step: "\<exists>bs. map rb_toolUseId bs = rb_toolUseId r # map rb_toolUseId placeholders \<and>
              (\<forall>ms waiting. tracked (Yielded (YieldToolEnd (rb_toolUseId r) n x d) # tr) (ms, waiting) = (ms, waiting @ bs))"
    if "map rb_toolUseId bs = map rb_toolUseId placeholders"
       "\<forall>ms waiting. tracked tr (ms, waiting) = (ms, waiting @ bs)" for n x d tr bs
    by (rule exI [of _ "trackedBlock (rb_toolUseId r) x # bs"]) (simp add: that)
  show ?case
    by (auto simp: ends_simps intro!: ends_mono [OF Cons.IH] step)
qed

text \<open>A turn of tool calls that ends, one way or the other, adds the reply to the calls.\<close>

definition replyTo :: "Message \<Rightarrow> ToolResultBlock list \<Rightarrow> bool" where
  "replyTo m bs \<longleftrightarrow> mset (map rb_toolUseId bs) = mset (map ub_id (extractToolCalls m))"

lemma replyTo_paired:
  assumes "replyTo m bs" and "distinct (map ub_id (extractToolCalls m))" and "toolResultsOf m = []"
    and "extractToolCalls m \<noteq> []"
  shows "paired [m, toolResultMessage bs]"
  using assms by (auto simp: answers_def replyTo_def)

lemma replyTo_nonempty: "replyTo m bs \<Longrightarrow> extractToolCalls m \<noteq> [] \<Longrightarrow> bs \<noteq> []"
  by (auto simp: replyTo_def)

definition toolTurnAdds :: "Message \<Rightarrow> LoopEffect list \<Rightarrow> bool" where
  "toolTurnAdds m tr \<longleftrightarrow> (\<exists>bs. replyTo m bs \<and> turnAdds tr [toolResultMessage bs])"

lemma turn_flushed:
  assumes "\<forall>ms waiting. tracked tr (ms, waiting) = (ms, waiting @ bs)" and "bs \<noteq> []"
  shows "turnAdds (tr @ [Yielded (YieldTurn n u)]) [toolResultMessage bs]"
  using assms by (simp add: turnAdds_def)

lemma interruptedTools_adds:
  assumes "batchCovers tr0 batch (extractToolCalls m)" and "bt_unexecutedToolUses batch \<noteq> []"
    and "extractToolCalls m \<noteq> []"
  shows "ends (interruptedTools H entry s batch tu u) w (\<lambda>w' tr c. \<forall>step. c = Done step \<longrightarrow> toolTurnAdds m (tr0 @ tr))"
proof -
  obtain bs where bs: "\<forall>ms waiting. tracked tr0 (ms, waiting) = (ms, waiting @ bs)"
      "list_all2 agree (bt_completedResults batch) bs"
    and ids: "mset (map rb_toolUseId (bt_completedResults batch)) + mset (map ub_id (bt_unexecutedToolUses batch))
        = mset (map ub_id (extractToolCalls m))"
    using assms(1) unfolding batchCovers_def by blast
  have adds: "toolTurnAdds m (tr0 @ tr @ [Yielded (YieldTurn n u)])"
    if "map rb_toolUseId bs' = map ub_id (bt_unexecutedToolUses batch)"
      "\<forall>ms waiting. tracked tr (ms, waiting) = (ms, waiting @ bs')" for tr bs' n u
  proof -
    have reply: "replyTo m (bs @ bs')"
      using ids ids_agree [OF bs(2)] that(1) unfolding replyTo_def map_append mset_append by simp
    have "\<forall>ms waiting. tracked (tr0 @ tr) (ms, waiting) = (ms, waiting @ (bs @ bs'))"
      using bs(1) that(2) by simp
    then have "turnAdds ((tr0 @ tr) @ [Yielded (YieldTurn n u)]) [toolResultMessage (bs @ bs')]"
      using turn_flushed replyTo_nonempty [OF reply assms(3)] by blast
    then show ?thesis using reply by (auto simp: toolTurnAdds_def)
  qed
  show ?thesis
    unfolding interruptedTools_def buildCleanup_def Let_def
    using assms(2)
    by (auto simp: ends_simps abortReason_def comp_def intro!: ends_mono [OF placeholders_tracked] adds
        split: Completion.split)
qed

lemma toolTurn_adds:
  assumes "extractToolCalls m \<noteq> []"
  shows "ends (toolTurn H p entry s m tu u a) w (\<lambda>w' tr c. \<forall>step. c = Done step \<longrightarrow> toolTurnAdds m tr)"
  unfolding toolTurn_def Let_def
proof (rule ends_seq [OF executeToolCalls_covers], goal_cases)
  case (1 w' tr x)
  then have covers: "batchCovers tr (xr_batch x) (extractToolCalls m)" by simp
  show ?case
  proof (cases "bt_unexecutedToolUses (xr_batch x) = []")
    case False
    with interruptedTools_adds [OF covers False assms] show ?thesis by simp
  next
    case True
    obtain bs where bs: "\<forall>ms waiting. tracked tr (ms, waiting) = (ms, waiting @ bs)"
        "list_all2 agree (bt_completedResults (xr_batch x)) bs"
      and ids: "map rb_toolUseId (bt_completedResults (xr_batch x)) = map ub_id (extractToolCalls m)"
      using covers True unfolding batchCovers_def by blast
    have reply: "replyTo m bs"
      using ids ids_agree [OF bs(2)] by (simp add: replyTo_def)
    have adds: "toolTurnAdds m (tr @ Yielded (YieldTurn n u') # tr')" if "untracked tr'" for n u' tr'
      using turn_flushed [OF bs(1) replyTo_nonempty [OF reply assms]] reply that
      by (auto simp: toolTurnAdds_def turnAdds_def untracked_def)
    show ?thesis
      using True
      by (auto simp: ends_simps adds intro!: ends_mono [OF effects_untracked]
          split: Completion.split option.split ControlOutcome.split)
  qed
qed auto

lemma toolTurnAdds_paired:
  assumes "adds tr0 [m]" and "toolTurnAdds m tr"
    and "distinct (map ub_id (extractToolCalls m))" and "toolResultsOf m = []" and "extractToolCalls m \<noteq> []"
  shows "\<exists>new. turnAdds (tr0 @ tr) new \<and> paired new"
proof -
  obtain bs where "replyTo m bs" "turnAdds tr [toolResultMessage bs]"
    using assms(2) unfolding toolTurnAdds_def by blast
  moreover have "turnAdds (tr0 @ tr) ([m] @ [toolResultMessage bs])"
    by (rule turnAdds_append [OF adds_turnAdds [OF assms(1)] calculation(2)])
  moreover have "paired [m, toolResultMessage bs]"
    by (rule replyTo_paired [OF calculation(1) assms(3-5)])
  ultimately show ?thesis by (metis append_Cons append_Nil)
qed

definition turnPairs :: "LoopEffect list \<Rightarrow> LoopStep Completion \<Rightarrow> bool" where
  "turnPairs tr c \<longleftrightarrow> (\<forall>step. c = Done step \<longrightarrow> (\<exists>new. turnAdds tr new \<and> paired new))"

lemma interruptedCall_pairs:
  "ends (interruptedCall H b t u) w (\<lambda>w' tr c. turnPairs tr c)"
  by (auto simp: interruptedCall_def buildCleanup_def Let_def abortReason_def ends_simps turnPairs_def
      interrupted_message_calls intro!: exI [of _ "[_]"] adds_turnAdds split: option.split)

lemma callGives_pairs:
  assumes "callGives tr0 r" and "untracked tr1"
  shows "ends (case r of
             LLMAborted body thinking turnUsage \<Rightarrow> interruptedCall H body thinking u
           | LLMSuccess message stop turnUsage (Some err) \<Rightarrow> ret (Finish (ErrorResult err u) 0)
           | LLMSuccess message stop turnUsage None \<Rightarrow>
               if extractToolCalls message = [] then textTurn H p s message u a
               else toolTurn H p entry s message turnUsage u a) w
           (\<lambda>w' tr c. turnPairs (tr0 @ tr1 @ tr) c)"
proof (cases r)
  case (LLMAborted body thinking turnUsage)
  then have "turnAdds tr0 []" using assms(1) by (auto simp: callGives_def intro: adds_turnAdds)
  then have "turnAdds (tr0 @ tr1 @ tr) new" if "turnAdds tr new" for tr new
    using turnAdds_append [of tr0 "[]" "tr1 @ tr" new] assms(2) that by simp
  then have "turnPairs (tr0 @ tr1 @ tr) c" if "turnPairs tr c" for tr c
    using that unfolding turnPairs_def by blast
  then show ?thesis
    unfolding LLMAborted LLMCallResult.case by (rule ends_mono [OF interruptedCall_pairs])
next
  case (LLMSuccess message stop turnUsage err)
  show ?thesis
  proof (cases err)
    case (Some e)
    with LLMSuccess assms show ?thesis
      by (auto simp: ends_simps turnPairs_def callGives_def dest: adds_turnAdds)
  next
    case None
    then have m: "adds tr0 [message]" "toolResultsOf message = []" "distinct (map ub_id (extractToolCalls message))"
      using assms(1) LLMSuccess by (auto simp: callGives_def)
    show ?thesis
    proof (cases "extractToolCalls message = []")
      case True
      have "turnPairs (tr0 @ tr1 @ tr) c" if "untracked tr" for tr :: "LoopEffect list" and c
        using that True m assms(2) by (auto simp: turnPairs_def intro!: exI [of _ "[message]"] adds_turnAdds)
      with True None LLMSuccess show ?thesis
        by (auto intro!: ends_mono [OF effects_untracked [OF emission_text]])
    next
      case False
      have "turnPairs (tr0 @ tr1 @ tr) c" if "\<forall>step. c = Done step \<longrightarrow> toolTurnAdds message tr" for tr and c :: "LoopStep Completion"
        using that toolTurnAdds_paired [OF m(1) _ m(3,2) False] assms(2)
        by (auto simp: turnPairs_def toolTurnAdds_def)
      with False None LLMSuccess show ?thesis
        by (auto intro!: ends_mono [OF toolTurn_adds [OF False]])
    qed
  qed
qed

lemma oneTurn_pairs: "ends (oneTurn H p entry s) w (\<lambda>w' tr c. turnPairs tr c)"
proof (rule oneTurn_ends)
  show "ends (bnd (streamLLMCall H (requestFor p view) (sv_tools view)) (afterCall H p entry s view)) w (\<lambda>w' tr c. turnPairs tr c)" for view
    unfolding afterCall_def Let_def
    by (rule ends_seq [OF streamLLMCall_gives], rule ends_seq [OF effects_untracked [OF emission_hooks(4)]])
       (auto intro!: callGives_pairs, auto simp: turnPairs_def)
qed (auto simp: turnPairs_def)

end
