(* ===== verification/Loop_Whole.thy ===== *)
theory Loop_Whole
  imports Loop_Turns
begin

text \<open>
  Whole runs of the agent loop: their transcripts are paired, the number of requests is bounded
  by the limit of turns, and the end of the run is announced once, unless the input port cannot be
  closed.
\<close>

section \<open>Induction over the turns\<close>

lemma loopFrom_cases:
  assumes "loopFrom H p entry s w = (w', tr, e)"
  obtains
    (again) w1 t1 s' t2 where "oneTurn H p entry s w = (w1, t1, Done (Continue s'))"
      "loopFrom H p entry s' w1 = (w', t2, e)" "tr = t1 @ t2"
  | (finished) r g where "oneTurn H p entry s w = (w', tr, Done (Finish r g))" "e = Finished r g s"
  | (crashed) x where "oneTurn H p entry s w = (w', tr, Threw x)" "e = Crashed x s"
  | (abandoned) "oneTurn H p entry s w = (w', tr, Returned)" "e = Abandoned s"
  using assms by (subst (asm) loopFrom.simps) (auto split: prod.splits Completion.splits LoopStep.splits)

text \<open>
  A property of the traces and ends of loops holds when it holds of a last turn and is carried
  over a turn that goes on.
\<close>

lemma loop_induct [consumes 1, case_names again final]:
  assumes "loopFrom H p entry s w = (w', tr, e)"
    and again: "\<And>s w w1 t1 s' w' t2 e. oneTurn H p entry s w = (w1, t1, Done (Continue s')) \<Longrightarrow>
        loopFrom H p entry s' w1 = (w', t2, e) \<Longrightarrow> P s' w1 w' t2 e \<Longrightarrow> P s w w' (t1 @ t2) e"
    and final: "\<And>s w w' tr c e. oneTurn H p entry s w = (w', tr, c) \<Longrightarrow>
        (\<exists>r g. c = Done (Finish r g) \<and> e = Finished r g s) \<or> (\<exists>x. c = Threw x \<and> e = Crashed x s) \<or>
        (c = Returned \<and> e = Abandoned s) \<Longrightarrow> P s w w' tr e"
  shows "P s w w' tr e"
  using assms(1)
proof (induction "maxTurnsOf p - ls_turnCount s" arbitrary: s w tr rule: less_induct)
  case less
  from less.prems show ?case
  proof (cases rule: loopFrom_cases)
    case (again w1 t1 s' t2)
    have "turnCounted p s (Done (Continue s'))"
      by (rule endsD [OF oneTurn_counted again(1)])
    then have "maxTurnsOf p - ls_turnCount s' < maxTurnsOf p - ls_turnCount s"
      by (auto simp: turnCounted_def)
    then have "P s' w1 w' t2 e" by (rule less.hyps [OF _ again(2)])
    then show ?thesis using assms(2) [OF again(1,2)] again(3) by simp
  next
    case (finished r g)
    then show ?thesis by (intro final) auto
  next
    case (crashed x)
    then show ?thesis by (intro final) auto
  next
    case abandoned
    then show ?thesis by (intro final) auto
  qed
qed

section \<open>Pairs, requests and ends in a loop\<close>

lemma loop_pairs:
  assumes "loopFrom H p entry s w = (w', tr, e)"
  shows "\<forall>r g s'. e = Finished r g s' \<longrightarrow> (\<exists>new. turnAdds tr new \<and> paired new)"
  using assms
proof (induction rule: loop_induct)
  case (again s w w1 t1 s' w' t2 e)
  have "turnPairs t1 (Done (Continue s'))" by (rule endsD [OF oneTurn_pairs again(1)])
  then obtain new1 where new1: "turnAdds t1 new1" "paired new1" by (auto simp: turnPairs_def)
  show ?case
  proof (intro allI impI)
    fix r g s'' assume "e = Finished r g s''"
    then obtain new2 where "turnAdds t2 new2" "paired new2" using again.IH by blast
    then show "\<exists>new. turnAdds (t1 @ t2) new \<and> paired new"
      using turnAdds_append [OF new1(1)] paired_append [OF new1(2)] by blast
  qed
next
  case (final s w w' tr c e)
  have "turnPairs tr c" by (rule endsD [OF oneTurn_pairs final(1)])
  with final(2) show ?case by (auto simp: turnPairs_def)
qed

definition requests :: "LoopEffect list \<Rightarrow> nat" where
  "requests tr = length (filter isRequest tr)"

lemma requests_simps [simp]:
  "requests [] = 0" "requests (e # tr) = (if isRequest e then Suc (requests tr) else requests tr)"
  "requests (tr @ tr') = requests tr + requests tr'"
  by (simp_all add: requests_def)

lemma inner_requests [simp]: "list_all inner tr \<Longrightarrow> requests tr = 0"
  by (induction tr) (auto simp: inner_events)

lemma turn_requests:
  assumes "turnEvents H p s w tr c"
  shows "requests tr \<le> (if ls_turnCount s < maxTurnsOf p then 1 else 0)"
  using assms by (auto simp: turnEvents_def)

lemma loop_requests:
  assumes "loopFrom H p entry s w = (w', tr, e)"
  shows "requests tr \<le> maxTurnsOf p - ls_turnCount s"
  using assms
proof (induction rule: loop_induct)
  case (again s w w1 t1 s' w' t2 e)
  have "turnCounted p s (Done (Continue s'))" by (rule endsD [OF oneTurn_counted again(1)])
  moreover have "requests t1 \<le> (if ls_turnCount s < maxTurnsOf p then 1 else 0)"
    by (rule turn_requests [OF endsD [OF oneTurn_events again(1)]])
  ultimately show ?case using again.IH by (auto simp: turnCounted_def)
next
  case (final s w w' tr c e)
  have "requests tr \<le> (if ls_turnCount s < maxTurnsOf p then 1 else 0)"
    by (rule turn_requests [OF endsD [OF oneTurn_events final(1)]])
  then show ?case by (auto split: if_splits)
qed

text \<open>Effects that do not announce the end of the run or its interruption.\<close>

definition ongoing :: "LoopEffect \<Rightarrow> bool" where
  "ongoing e \<longleftrightarrow> \<not> isRunEnd e \<and> \<not> isFired e"

lemma inner_ongoing: "list_all inner tr \<Longrightarrow> list_all ongoing tr"
  by (auto simp: list_all_iff ongoing_def inner_events)

lemma turn_ongoing: "turnEvents H p s w tr c \<Longrightarrow> list_all ongoing tr"
  by (auto simp: turnEvents_def ongoing_def inner_ongoing)

lemma loop_ongoing:
  assumes "loopFrom H p entry s w = (w', tr, e)"
  shows "list_all ongoing tr"
  using assms
proof (induction rule: loop_induct)
  case (again s w w1 t1 s' w' t2 e)
  then show ?case using turn_ongoing [OF endsD [OF oneTurn_events again(1)]] by simp
next
  case (final s w w' tr c e)
  then show ?case using turn_ongoing [OF endsD [OF oneTurn_events final(1)]] by simp
qed

lemma runTurnBegin_stays: "ends (runTurnBegin H p n ms) w (\<lambda>w' tr c. tr = [] \<and> c \<noteq> Returned)"
  by (auto simp: runTurnBegin_def evaluateSegment_def ends_simps split: option.split sum.split prod.split)

lemma bodyOfRun_ends:
  "ends (bodyOfRun H p entry) w
     (\<lambda>w' tr c. (\<exists>e. c = Done e \<and>
        (\<forall>r g s'. e = Finished r g s' \<longrightarrow> (\<exists>new. turnAdds tr new \<and> paired new))) \<and>
        list_all ongoing tr \<and> requests tr \<le> maxTurnsOf p)"
proof -
  have loop: "ends (\<lambda>w. case loopFrom H p entry ((initialState p)\<lparr>ls_messages := ms\<rparr>) w of (w', tr, e) \<Rightarrow> (w', tr, Done e)) w'
     (\<lambda>w' tr c. (\<exists>e. c = Done e \<and>
        (\<forall>r g s'. e = Finished r g s' \<longrightarrow> (\<exists>new. turnAdds tr new \<and> paired new))) \<and>
        list_all ongoing tr \<and> requests tr \<le> maxTurnsOf p)" for ms w'
  proof -
    obtain w2 tr e where l: "loopFrom H p entry ((initialState p)\<lparr>ls_messages := ms\<rparr>) w' = (w2, tr, e)"
      by (metis prod_cases3)
    show ?thesis
      using loop_pairs [OF l] loop_ongoing [OF l] loop_requests [OF l] by (simp add: ends_def l)
  qed
  show ?thesis
    unfolding bodyOfRun_def
    by (rule ends_seq [where P = "\<lambda>w' tr c. tr = [] \<and> (\<exists>r. c = Done r)"])
       (auto simp: ends_steps ends_attempt intro!: ends_mono [OF runTurnBegin_stays] ends_mono [OF loop] split: Completion.split sum.split)
qed

section \<open>The announcement of the end\<close>

text \<open>
  The effects of a way out: an announcement of the interruption if the run ends as aborted, then
  the end of the run.
\<close>

definition announces :: "LoopEffect list \<Rightarrow> AgentRunEndReason \<Rightarrow> bool" where
  "announces tr reason \<longleftrightarrow>
     (\<exists>d u e. if reason = AbortedEnd
        then (\<exists>r n x g. tr = [Emitted (InterruptFired r n x g), Emitted (RunEnd reason d u e)])
        else tr = [Emitted (RunEnd reason d u e)])"

lemma announceEndOfRun_announces:
  "ends (announceEndOfRun H t0 fired s r g) w
     (\<lambda>w' tr c. \<exists>final. c = Done final \<and> announces tr (resultReason final) \<and>
        (resultReason final = resultReason r \<or> resultReason final = AbortedEnd))"
  by (auto simp: announceEndOfRun_def announceFired_def announces_def withExitDelay_def abortFirst_def ends_simps
      split: AgentResult.split option.split)

text \<open>
  The way out closes the input port first. When that fails nothing is announced, and it is the
  last thing that the run does.
\<close>

definition closeFailed :: "'w Host \<Rightarrow> 'w \<Rightarrow> bool" where
  "closeFailed H w' \<longleftrightarrow> (\<exists>v x. hs_close H v = (w', Inl x))"

lemma finalizeRun_announces:
  "ends (finalizeRun H t0 fired s r g) w
     (\<lambda>w' tr c. (\<exists>final. c = Done final \<and> announces tr (resultReason final) \<and>
          (resultReason final = resultReason r \<or> resultReason final = AbortedEnd)) \<or>
        (tr = [] \<and> (\<exists>x. c = Threw x) \<and> closeFailed H w'))"
proof (cases "hs_close H w")
  case (Pair w1 x)
  then show ?thesis
    by (cases x)
       (auto simp: finalizeRun_def ends_bnd ends_outside closeFailed_def intro!: ends_mono [OF announceEndOfRun_announces])
qed

lemma finallyBlock_announces:
  "ends (finallyBlock H t0 entry s x) w
     (\<lambda>w' tr c. c = Done () \<and>
        ((\<exists>reason. announces tr reason \<and> (reason = AbortedEnd \<or> (x \<noteq> None \<and> reason = ErrorEnd))) \<or>
         (tr = [] \<and> closeFailed H w')))"
  by (auto simp: finallyBlock_def ends_simps intro!: ends_mono [OF finalizeRun_announces] split: option.split)

lemma finallyCrashed_announces:
  "ends (finallyCrashed H t0 entry s e) w
     (\<lambda>w' tr c. c = Threw e \<and>
        ((\<exists>reason. announces tr reason \<and> (reason = ErrorEnd \<or> reason = AbortedEnd)) \<or> (tr = [] \<and> closeFailed H w')))"
  by (auto simp: finallyCrashed_def ends_simps intro!: ends_mono [OF finallyBlock_announces])

lemma leaveLoop_announces:
  "ends (leaveLoop H t0 entry e) w
     (\<lambda>w' tr c. (\<exists>reason. announces tr reason \<and>
          (case c of
             Done final \<Rightarrow> reason = resultReason final
           | Threw x \<Rightarrow> reason = ErrorEnd \<or> reason = AbortedEnd
           | Returned \<Rightarrow> reason = AbortedEnd)) \<or>
        (tr = [] \<and> (\<forall>final. c \<noteq> Done final) \<and> closeFailed H w'))"
proof (cases e)
  case (Finished r g s)
  then show ?thesis
    by (auto simp: leaveLoop_def ends_simps intro!: ends_mono [OF finalizeRun_announces] ends_mono [OF finallyCrashed_announces]) blast+
next
  case (Crashed x s)
  then show ?thesis by (auto simp: leaveLoop_def intro!: ends_mono [OF finallyCrashed_announces])
next
  case (Abandoned s)
  then show ?thesis
    by (auto simp: leaveLoop_def finallyAbandoned_def ends_bnd intro!: ends_mono [OF finallyBlock_announces])
       (auto simp: ends_def leaveGenerator_def)
qed

lemma announces_untracked: "announces tr reason \<Longrightarrow> untracked tr"
  by (auto simp: announces_def untracked_def split: if_splits)

section \<open>The generator\<close>

text \<open>A run announces its start, then goes through its body and its way out.\<close>

lemma runAgentLoop_ends:
  assumes "\<And>t0 entry w1. ends (bnd (bodyOfRun H p entry) (leaveLoop H t0 entry)) w1
             (\<lambda>w' tr c. Q w' (Emitted (RunStart (promptOf p)) # tr) c)"
  shows "ends (runAgentLoop H p) w Q"
  using assms
  by (simp add: runAgentLoop_def ends_steps ends_bnd [of "dateNow H"] ends_bnd [of "look f" for f] ends_bnd [of "emit H e" for e])

text \<open>Effects of the way out, whatever becomes of it.\<close>

fun lastEffect :: "LoopEffect \<Rightarrow> bool" where
  "lastEffect (Emitted (RunEnd r d u e)) = True"
| "lastEffect (Emitted (InterruptFired r n d g)) = True"
| "lastEffect e = False"

lemma lastEffect_request: "lastEffect e \<Longrightarrow> \<not> isRequest e"
  by (cases e rule: lastEffect.cases) auto

lemma lastEffects_requests [simp]: "list_all lastEffect tr \<Longrightarrow> requests tr = 0"
  by (induction tr) (auto simp: lastEffect_request)

lemma lastEffects_untracked: "list_all lastEffect tr \<Longrightarrow> untracked tr"
proof (induction tr)
  case (Cons e tr)
  then show ?case by (cases e rule: lastEffect.cases) (auto simp: untracked_def)
qed (simp add: untracked_def)

lemma leaveLoop_effects: "effectsAre lastEffect (leaveLoop H t0 entry e)"
proof -
  have [simp]: "effectsAre lastEffect (leaveGenerator :: ('a, AgentResult) loopProgram)"
    by (simp add: effectsAre_def ends_def leaveGenerator_def)
  have [simp]: "effectsAre lastEffect (finalizeRun H t0 fired s r g)" for fired s r g
    by (auto simp: finalizeRun_def announceEndOfRun_def announceFired_def effectsAre_basic intro!: effects_rules split: AgentResult.split)
  have [simp]: "effectsAre lastEffect (finallyBlock H t0 entry s x)" for s x
    by (auto simp: finallyBlock_def effectsAre_basic intro!: effects_rules split: option.split)
  show ?thesis
    by (auto simp: leaveLoop_def finallyCrashed_def finallyAbandoned_def effectsAre_basic intro!: effects_rules
        split: LoopEnd.split sum.split)
qed

lemma leaveLoop_done:
  "ends (leaveLoop H t0 entry e) w
     (\<lambda>w' tr c. list_all lastEffect tr \<and> (\<forall>final. c = Done final \<longrightarrow> (\<exists>r g s. e = Finished r g s)))"
proof (rule ends_conj [OF effectsAre_ends [OF leaveLoop_effects]])
  show "ends (leaveLoop H t0 entry e) w (\<lambda>w' tr c. \<forall>final. c = Done final \<longrightarrow> (\<exists>r g s. e = Finished r g s))"
  proof (cases e)
    case (Crashed x s)
    then show ?thesis by (auto simp: leaveLoop_def finallyCrashed_def ends_steps intro!: ends_last)
  next
    case (Abandoned s)
    then show ?thesis
      by (auto simp: leaveLoop_def finallyAbandoned_def intro!: ends_last) (simp add: ends_def leaveGenerator_def)
  qed (simp add: ends_def split: prod.split)
qed

end
