(* ===== verification/Loop_View.thy ===== *)
theory Loop_View
  imports Loop_Whole
begin

text \<open>
  What the model sees. The messages that the loop sends are accounted for on any host: they begin
  as the initial ones; every turn that goes on adds what its events added to the transcript (but for
  the signal of a commitment); then the segment manager may replace them, and the input port may
  append what it received. A request sends the prefix and the injection of exactly these messages.
\<close>

definition sameMessage :: "Message \<Rightarrow> Message \<Rightarrow> bool" where
  "sameMessage a b \<longleftrightarrow>
     a = b \<or> (\<exists>rs bs. a = toolResultMessage rs \<and> b = toolResultMessage bs \<and> list_all2 agree rs bs)"

abbreviation sameMessages :: "Message list \<Rightarrow> Message list \<Rightarrow> bool" where
  "sameMessages \<equiv> list_all2 sameMessage"

lemma sameMessage_refl [simp]: "sameMessage m m"
  by (simp add: sameMessage_def)

lemma sameMessages_refl [simp]: "sameMessages ms ms"
  by (simp add: list_all2_refl)

section \<open>Accounted messages\<close>

text \<open>The segment manager keeps the messages, or replaces them by its answer for the view of them.\<close>

definition windowed :: "'w Host \<Rightarrow> Message list \<Rightarrow> Message list \<Rightarrow> bool" where
  "windowed H ms kept \<longleftrightarrow>
     kept = ms \<or>
     (\<exists>evaluate view n w. hs_segment H = Some evaluate \<and> sv_stateMessages view = ms \<and>
        snd (evaluate view n w) = Inr (Some kept))"

text \<open>The input port is not asked, or answers with messages.\<close>

definition delivered :: "'w Host \<Rightarrow> Message list \<Rightarrow> bool" where
  "delivered H incoming \<longleftrightarrow> incoming = [] \<or> (\<exists>b cl w. snd (hs_receive H b cl w) = Inr incoming)"

lemma windowed_refl [simp]: "windowed H ms ms"
  by (simp add: windowed_def)

lemma delivered_none [simp]: "delivered H []"
  by (simp add: delivered_def)

text \<open>
  The messages that a trace leads to: nothing was requested yet, or after the messages so far a
  turn with its one request went on, whose own messages are those its events added to the transcript.
\<close>

inductive accounted :: "'w Host \<Rightarrow> Message list \<Rightarrow> LoopEffect list \<Rightarrow> Message list \<Rightarrow> bool" for H base where
  begun: "list_all (\<lambda>e. \<not> isRequest e) tr \<Longrightarrow> untracked tr \<Longrightarrow> windowed H base kept \<Longrightarrow> accounted H base tr kept"
| turned: "accounted H base tr ms \<Longrightarrow> isRequest e \<Longrightarrow> list_all (\<lambda>e. \<not> isRequest e) rest \<Longrightarrow>
    turnAdds (e # rest) new \<Longrightarrow> sameMessages own new \<Longrightarrow> windowed H (ms @ own) kept \<Longrightarrow> delivered H incoming \<Longrightarrow>
    accounted H base (tr @ e # rest) (kept @ incoming)"

text \<open>Without a segment manager and without input, they are the initial ones and the transcript.\<close>

definition keepsMessages :: "'w Host \<Rightarrow> bool" where
  "keepsMessages H \<longleftrightarrow> hs_segment H = None \<and> (\<forall>b cl w. snd (hs_receive H b cl w) = Inr [])"

lemma keeps_windowed: "keepsMessages H \<Longrightarrow> windowed H ms kept \<Longrightarrow> kept = ms"
  by (auto simp: keepsMessages_def windowed_def)

lemma keeps_delivered: "keepsMessages H \<Longrightarrow> delivered H incoming \<Longrightarrow> incoming = []"
  by (auto simp: keepsMessages_def delivered_def)

lemma accounted_transcript:
  assumes "accounted H base tr ms" and "keepsMessages H"
  shows "\<exists>new. turnAdds tr new \<and> sameMessages ms (base @ new)"
  using assms(1)
proof (induction rule: accounted.induct)
  case (begun tr kept)
  then have "turnAdds tr []" by (simp add: untracked_def turnAdds_def)
  moreover have "kept = base" by (rule keeps_windowed [OF assms(2) begun(3)])
  ultimately show ?case by (intro exI [of _ "[]"]) simp
next
  case (turned tr ms e rest new own kept incoming)
  then obtain before where "turnAdds tr before" "sameMessages ms (base @ before)" by blast
  with turned keeps_windowed [OF assms(2)] keeps_delivered [OF assms(2)] show ?case
    using turnAdds_append [of tr before "e # rest" new] list_all2_appendI [of sameMessage ms "base @ before" own new] by fastforce
qed

section \<open>A turn extends both alike\<close>

lemma runTurnBegin_windowed:
  "ends (runTurnBegin H p n ms) w (\<lambda>w' tr c. tr = [] \<and> (\<forall>answer. c = Done answer \<longrightarrow> windowed H ms (fst answer)))"
proof (cases "hs_segment H")
  case None
  then show ?thesis by (auto simp: runTurnBegin_def evaluateSegment_def ends_simps)
next
  case (Some evaluate)
  obtain w1 x where answer: "evaluate (prepareSendView H p ms w) n w = (w1, x)" by fastforce
  have "sv_stateMessages (prepareSendView H p ms w) = ms" by (simp add: prepareSendView_def Let_def)
  then have "windowed H ms kept" if "x = Inr (Some kept)" for kept
    using that answer Some unfolding windowed_def by (metis snd_conv)
  then show ?thesis
    using Some answer
    by (auto simp: runTurnBegin_def evaluateSegment_def ends_simps split: sum.splits option.splits prod.splits)
qed

lemma runTurnEnd_windowed:
  "ends (runTurnEnd H p n ms a) w (\<lambda>w' tr c. untracked tr \<and> (\<forall>answer. c = Done answer \<longrightarrow> windowed H ms (fst answer)))"
proof (rule ends_mono [OF ends_conj [OF effects_untracked [OF emission_hooks(2)]]])
  show "ends (runTurnEnd H p n ms a) w (\<lambda>w' tr c. \<forall>answer. c = Done answer \<longrightarrow> windowed H ms (fst answer))"
    unfolding runTurnEnd_def
    by (rule ends_seq [OF runTurnBegin_windowed])
       (auto simp: emitSnapshot_def ends_simps split: option.split)
qed auto

lemma receiveInput_delivered:
  "ends (receiveInput H p b cl) w (\<lambda>w' tr c. tr = [] \<and> (\<forall>incoming. c = Done incoming \<longrightarrow> delivered H incoming))"
proof (cases "hs_receive H b cl w")
  case (Pair w1 x)
  then have "delivered H incoming" if "x = Inr incoming" for incoming
    using that unfolding delivered_def by (metis snd_conv)
  with Pair show ?thesis
    by (cases x) (auto simp: receiveInput_def ends_simps)
qed

definition extends :: "'w Host \<Rightarrow> LoopState \<Rightarrow> Message \<Rightarrow> LoopEffect list \<Rightarrow> LoopState \<Rightarrow> bool" where
  "extends H s m tr s' \<longleftrightarrow>
     (\<exists>own new kept incoming. ls_messages s' = kept @ incoming \<and> windowed H (ls_messages s @ m # own) kept \<and>
        delivered H incoming \<and> turnAdds tr new \<and> sameMessages own new)"

lemma interrupted_final:
  "ends (interruptedTools H entry s batch tu u) w (\<lambda>w' tr c. \<forall>s'. c \<noteq> Done (Continue s'))"
  "ends (interruptedCall H b t u) w (\<lambda>w' tr c. \<forall>s'. c \<noteq> Done (Continue s'))"
  unfolding interruptedTools_def interruptedCall_def by (auto intro!: ends_last simp: ends_steps)

lemma toolTurn_extends:
  assumes "extractToolCalls m \<noteq> []"
  shows "ends (toolTurn H p entry s m tu u a) w (\<lambda>w' tr c. \<forall>s'. c = Done (Continue s') \<longrightarrow> extends H s m tr s')"
  unfolding toolTurn_def Let_def
proof (rule ends_seq [OF executeToolCalls_covers], goal_cases)
  case (1 w' tr x)
  then have covers: "batchCovers tr (xr_batch x) (extractToolCalls m)" by simp
  show ?case
  proof (cases "bt_unexecutedToolUses (xr_batch x) = []")
    case False
    then show ?thesis
      by (auto intro!: ends_mono [OF interrupted_final(1)])
  next
    case True
    obtain bs where bs: "\<forall>ms waiting. tracked tr (ms, waiting) = (ms, waiting @ bs)"
        "list_all2 agree (bt_completedResults (xr_batch x)) bs"
      and ids: "map rb_toolUseId (bt_completedResults (xr_batch x)) = map ub_id (extractToolCalls m)"
      using covers True unfolding batchCovers_def by blast
    have "bs \<noteq> []"
      using ids assms bs(2) by auto
    then have "extends H s m (tr @ Yielded (YieldTurn n u') # tr') (nextState s answer incoming u r a st)"
      if "untracked tr'" "windowed H (ls_messages s @ [m, toolResultMessage (bt_completedResults (xr_batch x))]) (fst answer)"
        "delivered H incoming"
      for n u' tr' answer incoming u r a st
      using turn_flushed [OF bs(1)] bs(2) that
      unfolding extends_def
      by (intro exI [of _ "[toolResultMessage (bt_completedResults (xr_batch x))]"] exI [of _ "[toolResultMessage bs]"]
            exI [of _ "fst answer"] exI [of _ incoming])
         (auto simp: nextState_def turnAdds_def untracked_def sameMessage_def)
    then show ?thesis
      using True
      by (auto simp: ends_simps intro!: ends_mono [OF runTurnEnd_windowed] ends_mono [OF receiveInput_delivered]
          split: Completion.split option.split ControlOutcome.split)
  qed
qed auto

lemma extends_text:
  assumes "untracked tr" "windowed H (ls_messages s @ [m]) (fst answer)" "delivered H incoming"
  shows "extends H s m tr (nextState s answer incoming u r a st)"
  unfolding extends_def
  by (intro exI [of _ "[]"] exI [of _ "fst answer"] exI [of _ incoming])
     (use assms in \<open>auto simp: nextState_def untracked_def turnAdds_def\<close>)

lemma textTurn_extends:
  "ends (textTurn H p s m u a) w (\<lambda>w' tr c. \<forall>s'. c = Done (Continue s') \<longrightarrow> extends H s m tr s')"
  unfolding textTurn_def
proof (rule ends_seq [OF runTurnEnd_windowed], goal_cases)
  case (1 w1 tr1 x)
  show ?case
  proof (rule ends_seq [OF receiveInput_delivered], goal_cases)
    case (1 w2 tr2 incoming)
    then show ?case
      using \<open>untracked tr1 \<and> _\<close> by (auto simp: ends_simps intro!: extends_text)
  qed auto
qed auto

definition turnExtends :: "'w Host \<Rightarrow> LoopState \<Rightarrow> LoopEffect list \<Rightarrow> LoopStep Completion \<Rightarrow> bool" where
  "turnExtends H s tr c \<longleftrightarrow>
     (\<forall>s'. c = Done (Continue s') \<longrightarrow>
        (\<exists>own new kept incoming. ls_messages s' = kept @ incoming \<and> windowed H (ls_messages s @ own) kept \<and>
           delivered H incoming \<and> turnAdds tr new \<and> sameMessages own new))"

lemma extends_turnExtends:
  assumes "adds tr0 [m]" and "untracked tr1" and "\<forall>s'. c = Done (Continue s') \<longrightarrow> extends H s m tr s'"
  shows "turnExtends H s (tr0 @ tr1 @ tr) c"
  unfolding turnExtends_def
proof (intro allI impI)
  fix s' assume "c = Done (Continue s')"
  then obtain own new kept incoming where *: "ls_messages s' = kept @ incoming" "windowed H (ls_messages s @ m # own) kept"
      "delivered H incoming" "turnAdds tr new" "sameMessages own new"
    using assms(3) unfolding extends_def by blast
  have "turnAdds (tr0 @ tr1 @ tr) ([m] @ new)"
    using turnAdds_append [OF adds_turnAdds [OF assms(1)], of "tr1 @ tr"] *(4) assms(2) by simp
  moreover have "sameMessages (m # own) ([m] @ new)" using *(5) by simp
  ultimately show "\<exists>own new kept incoming. ls_messages s' = kept @ incoming \<and> windowed H (ls_messages s @ own) kept \<and>
      delivered H incoming \<and> turnAdds (tr0 @ tr1 @ tr) new \<and> sameMessages own new"
    using *(1-3) by blast
qed

lemma oneTurn_extends:
  "ends (oneTurn H p entry s) w (\<lambda>w' tr c. turnExtends H s tr c)"
proof -
  have quiet: "turnExtends H s tr (Done (Finish r g))" for tr r g
    by (simp add: turnExtends_def)
  have answer: "ends (case r of
             LLMAborted body thinking turnUsage \<Rightarrow> interruptedCall H body thinking u
           | LLMSuccess message stop turnUsage (Some err) \<Rightarrow> ret (Finish (ErrorResult err u) 0)
           | LLMSuccess message stop turnUsage None \<Rightarrow>
               if extractToolCalls message = [] then textTurn H p s message u a
               else toolTurn H p entry s message turnUsage u a) w
           (\<lambda>w' tr c. turnExtends H s (tr0 @ tr1 @ tr) c)"
    if "callGives tr0 r" "untracked tr1" for r u a w tr0 tr1
  proof (cases r)
    case (LLMAborted b t tu)
    then show ?thesis
      by (auto simp: turnExtends_def intro!: ends_mono [OF interrupted_final(2)])
  next
    case (LLMSuccess message stop tu err)
    show ?thesis
    proof (cases "err = None")
      case True
      then have "adds tr0 [message]" using that(1) LLMSuccess by (simp add: callGives_def)
      then show ?thesis
        using True LLMSuccess
        by (auto intro!: ends_mono [OF toolTurn_extends] ends_mono [OF textTurn_extends] extends_turnExtends that(2))
    next
      case False
      then show ?thesis
        using LLMSuccess
        by (auto simp: ends_steps quiet)
    qed
  qed
  show ?thesis
  proof (rule oneTurn_ends)
    show "ends (bnd (streamLLMCall H (requestFor p view) (sv_tools view)) (afterCall H p entry s view)) w
        (\<lambda>w' tr c. turnExtends H s tr c)" for view
      unfolding afterCall_def Let_def
      by (rule ends_seq [OF streamLLMCall_gives], rule ends_seq [OF effects_untracked [OF emission_hooks(4)]])
         (auto intro!: answer, auto simp: turnExtends_def)
  qed (simp add: quiet)
qed

section \<open>Requests send the accounted messages\<close>

fun requestMessages :: "LoopEffect \<Rightarrow> Message list option" where
  "requestMessages (Emitted (RequestStart m ms s ts)) = Some ms"
| "requestMessages e = None"

text \<open>Every request of a trace that follows \<open>before\<close> sends prefix and injection of accounted messages.\<close>

definition sendsAccounted :: "'w Host \<Rightarrow> Message list \<Rightarrow> LoopEffect list \<Rightarrow> LoopEffect list \<Rightarrow> bool" where
  "sendsAccounted H base before tr \<longleftrightarrow>
     (\<forall>pre e post ms. tr = pre @ e # post \<and> requestMessages e = Some ms \<longrightarrow>
        (\<exists>own v. accounted H base (before @ pre) own \<and> ms = hs_prefix H v @ hs_inject H v own))"

lemma sendsAccountedD:
  "sendsAccounted H base before (pre @ e # post) \<Longrightarrow> requestMessages e = Some ms \<Longrightarrow>
     \<exists>own v. accounted H base (before @ pre) own \<and> ms = hs_prefix H v @ hs_inject H v own"
  unfolding sendsAccounted_def by blast

lemma request_isRequest: "requestMessages e = Some ms \<Longrightarrow> isRequest e"
  by (cases e rule: requestMessages.cases) auto

lemma sendsAccounted_none: "list_all (\<lambda>e. \<not> isRequest e) tr \<Longrightarrow> sendsAccounted H base before tr"
  by (auto simp: sendsAccounted_def dest: request_isRequest)

lemma sendsAccounted_append:
  assumes "sendsAccounted H base before t1" and "sendsAccounted H base (before @ t1) t2"
  shows "sendsAccounted H base before (t1 @ t2)"
  unfolding sendsAccounted_def
proof (intro allI impI, elim conjE)
  fix pre e post ms
  assume tr: "t1 @ t2 = pre @ e # post" and e: "requestMessages e = Some ms"
  from tr consider us where "t1 = pre @ e # us" | us where "pre = t1 @ us" "t2 = us @ e # post"
    by (fastforce simp: append_eq_append_conv2 Cons_eq_append_conv append_eq_Cons_conv)
  then show "\<exists>own v. accounted H base (before @ pre) own \<and> ms = hs_prefix H v @ hs_inject H v own"
  proof cases
    case 1
    then show ?thesis using assms(1) e unfolding sendsAccounted_def by blast
  next
    case (2 us)
    then show ?thesis using assms(2) e unfolding sendsAccounted_def by (metis append.assoc)
  qed
qed

lemma inner_no_requests: "list_all inner tr \<Longrightarrow> list_all (\<lambda>e. \<not> isRequest e) tr"
  by (auto simp: list_all_iff inner_events)

lemma turn_sendsAccounted:
  assumes "turnEvents H p s w tr c" and "accounted H base before (ls_messages s)"
  shows "sendsAccounted H base before tr"
proof (cases "tr = []")
  case False
  then obtain rest where rest: "tr = [requestOf p (prepareSendView H p (ls_messages s) w)] @ rest" "list_all inner rest"
    using assms(1) by (auto simp: turnEvents_def)
  have "sendsAccounted H base before [requestOf p (prepareSendView H p (ls_messages s) w)]"
    using assms(2)
    by (fastforce simp: sendsAccounted_def requestOf_def prepareSendView_def Let_def Cons_eq_append_conv)
  then show ?thesis
    unfolding rest(1) by (rule sendsAccounted_append) (rule sendsAccounted_none [OF inner_no_requests [OF rest(2)]])
qed (simp add: sendsAccounted_none)

lemma turn_accounted:
  assumes "turnEvents H p s w tr (Done (Continue s'))" and "turnExtends H s tr (Done (Continue s'))"
    and "accounted H base before (ls_messages s)"
  shows "accounted H base (before @ tr) (ls_messages s')"
proof -
  obtain rest where rest: "tr = requestOf p (prepareSendView H p (ls_messages s) w) # rest" "list_all inner rest"
    using assms(1) by (auto simp: turnEvents_def)
  obtain own new kept incoming where "ls_messages s' = kept @ incoming" "windowed H (ls_messages s @ own) kept"
      "delivered H incoming" "turnAdds tr new" "sameMessages own new"
    using assms(2) by (auto simp: turnExtends_def)
  with accounted.turned [OF assms(3) _ inner_no_requests [OF rest(2)]] rest(1) show ?thesis by simp
qed

lemma loop_sendsAccounted:
  assumes "loopFrom H p entry s w = (w', tr, e)"
  shows "\<forall>before. accounted H base before (ls_messages s) \<longrightarrow> sendsAccounted H base before tr"
  using assms
proof (induction rule: loop_induct)
  case (again s w w1 t1 s' w' t2 e)
  note events = endsD [OF oneTurn_events again(1)]
  show ?case
  proof (intro allI impI)
    fix before assume before: "accounted H base before (ls_messages s)"
    have "accounted H base (before @ t1) (ls_messages s')"
      by (rule turn_accounted [OF events endsD [OF oneTurn_extends again(1)] before])
    then have "sendsAccounted H base (before @ t1) t2" using again.IH by blast
    then show "sendsAccounted H base before (t1 @ t2)"
      by (rule sendsAccounted_append [OF turn_sendsAccounted [OF events before]])
  qed
next
  case (final s w w' tr c e)
  then show ?case using turn_sendsAccounted [OF endsD [OF oneTurn_events final(1)]] by blast
qed

text \<open>The body of a run begins with the hook, which may replace the initial messages.\<close>

lemma body_sendsAccounted:
  assumes "list_all (\<lambda>e. \<not> isRequest e) before" and "untracked before"
  shows "ends (bodyOfRun H p entry) w (\<lambda>w' tr c. sendsAccounted H (lp_messages p) before tr \<and> (\<exists>e. c = Done e))"
proof -
  have loop: "ends (\<lambda>w. case loopFrom H p entry ((initialState p)\<lparr>ls_messages := ms\<rparr>) w of (w', tr, e) \<Rightarrow> (w', tr, Done e)) w'
      (\<lambda>w' tr c. sendsAccounted H (lp_messages p) before tr \<and> (\<exists>e. c = Done e))"
    if "windowed H (lp_messages p) ms" for ms w'
  proof -
    have "accounted H (lp_messages p) before (ls_messages ((initialState p)\<lparr>ls_messages := ms\<rparr>))"
      using accounted.begun [OF assms that] by simp
    then show ?thesis
      using loop_sendsAccounted [of H p entry "(initialState p)\<lparr>ls_messages := ms\<rparr>" w' _ _ _ "lp_messages p"]
      by (cases "loopFrom H p entry ((initialState p)\<lparr>ls_messages := ms\<rparr>) w'") (auto simp: ends_def)
  qed
  have hook: "ends (runTurnBegin H p 0 (lp_messages p)) w
      (\<lambda>w' tr c. tr = [] \<and> c \<noteq> Returned \<and> (\<forall>answer. c = Done answer \<longrightarrow> windowed H (lp_messages p) (fst answer)))" for w
    by (rule ends_mono [OF ends_conj [OF runTurnBegin_windowed runTurnBegin_stays]]) auto
  show ?thesis
    unfolding bodyOfRun_def
    by (auto simp: ends_bnd ends_attempt ends_steps sendsAccounted_none intro!: ends_mono [OF hook] loop split: Completion.split sum.split)
qed

end
