(* ===== verification/Loop_Account.thy ===== *)
theory Loop_Account
  imports Loop_Whole
begin

text \<open>
  What the effects of a run add up to: the text shown while the model answered is the text of
  the message that the loop keeps, and the usage of the run is the sum of the usage that each
  request reported.
\<close>

section \<open>The text shown\<close>

fun shownOf :: "LoopEffect \<Rightarrow> string" where
  "shownOf (Yielded (YieldText s)) = s"
| "shownOf e = ''''"

definition shownText :: "LoopEffect list \<Rightarrow> string" where
  "shownText tr = concat (map shownOf tr)"

lemma shownText_simps [simp]:
  "shownText [] = ''''" "shownText (e # tr) = shownOf e @ shownText tr"
  "shownText (tr @ tr') = shownText tr @ shownText tr'"
  by (simp_all add: shownText_def)

lemma accumulate_shown: "ss_body (accumulate ev st) = ss_body st @ (case yieldOf ev of Some y \<Rightarrow> shownOf (Yielded y) | None \<Rightarrow> '''')"
  by (cases ev) (auto split: option.split)

lemma consumeFrom_shown:
  "ends (consumeFrom H thrown evs st) w
     (\<lambda>w' tr c. \<forall>out. c = Done out \<longrightarrow> ss_body (so_state out) = ss_body st @ shownText tr)"
proof (induction evs arbitrary: st w)
  case Nil
  then show ?case by (simp add: ends_simps raced_def streamOver_def)
next
  case (Cons ev evs)
  note IH = ends_mono [OF Cons.IH]
  show ?case
    by (cases "yieldOf ev")
       (auto simp: ends_simps raced_def passOn_def streamOver_def accumulate_shown intro!: IH)
qed

lemma openStream_shown:
  "ends (openStream H request) w (\<lambda>w' tr c. \<forall>out. c = Done out \<longrightarrow> ss_body (so_state out) = shownText tr)"
  by (auto simp: openStream_def ends_simps streamOver_def freshStream_def
      intro!: ends_mono [OF consumeFrom_shown] split: prod.split sum.split)

lemma extractText_parts [simp]:
  "extractText (assembleMessage H st) = ss_body st" "extractText emptyAssistantMessage = ''''"
  "assembleSafeMessage body thinking = Some m \<Longrightarrow> extractText m = body"
  by (auto simp: assembleMessage_def assembleSafeMessage_def emptyAssistantMessage_def extractText_def map_filter_append
      List.map_filter_simps List.map_filter_def comp_def split: if_splits)

lemma assembleSafe_None: "assembleSafeMessage body thinking = None \<Longrightarrow> body = ''''"
  by (simp add: assembleSafeMessage_def split: if_splits)

definition showsText :: "LoopEffect list \<Rightarrow> LLMCallResult \<Rightarrow> bool" where
  "showsText tr r = (case r of LLMSuccess m s u e \<Rightarrow> extractText m = shownText tr | LLMAborted b t u \<Rightarrow> b = shownText tr)"

lemma finishCall_shows:
  "ends (finishCall H t0 out) w
     (\<lambda>w' tr c. shownText tr = '''' \<and> (\<forall>r. c = Done r \<longrightarrow>
        (case r of LLMSuccess m s u e \<Rightarrow> extractText m = ss_body (so_state out) | LLMAborted b t u \<Rightarrow> b = ss_body (so_state out))))"
  by (auto simp: finishCall_def Let_def endRequest_def yieldPartial_def ends_simps split: option.split
      dest!: assembleSafe_None)

lemma streamLLMCall_shows:
  "ends (streamLLMCall H request specs) w (\<lambda>w' tr c. \<forall>r. c = Done r \<longrightarrow> showsText tr r)"
  unfolding streamLLMCall_def
  by (subst ends_bnd) (auto simp: ends_steps showsText_def ends_bnd [of "dateNow H"]
      intro!: ends_seq [OF openStream_shown] ends_mono [OF finishCall_shows] split: LLMCallResult.split)

section \<open>The usage reported\<close>

text \<open>A count of usage summed over the requests that ended.\<close>

fun reportedOf :: "(TokenUsage \<Rightarrow> int) \<Rightarrow> LoopEffect \<Rightarrow> int" where
  "reportedOf tokens (Emitted (RequestEnd d u r s)) = tokens u"
| "reportedOf tokens e = 0"

definition reported :: "(TokenUsage \<Rightarrow> int) \<Rightarrow> LoopEffect list \<Rightarrow> int" where
  "reported tokens tr = sum_list (map (reportedOf tokens) tr)"

lemma reported_simps [simp]:
  "reported tokens [] = 0" "reported tokens (e # tr) = reportedOf tokens e + reported tokens tr"
  "reported tokens (tr @ tr') = reported tokens tr + reported tokens tr'"
  by (simp_all add: reported_def)

text \<open>Effects that report no usage.\<close>

fun unreported :: "LoopEffect \<Rightarrow> bool" where
  "unreported (Emitted (RequestEnd d u r s)) = False"
| "unreported e = True"

interpretation unreported: turn_effects unreported
  by unfold_locales (auto elim!: turnEffect.elims)

lemma unreported_none [simp]: "list_all unreported tr \<Longrightarrow> reported tokens tr = 0"
proof (induction tr)
  case (Cons e tr)
  then show ?case by (cases e rule: unreported.cases) auto
qed simp

lemma unreported_passOn [simp]: "effectsAre unreported (passOn H ev)"
  by (cases ev) (simp_all add: passOn_def effectsAre_basic)

lemma unreported_consume [simp]: "effectsAre unreported (consumeFrom H thrown evs st)"
  by (induction evs arbitrary: st) (auto simp: effectsAre_basic raced_def intro!: effects_rules)

lemma openStream_reported: "ends (openStream H request) w (\<lambda>w' tr c. reported tokens tr = 0)"
proof -
  have "effectsAre unreported (openStream H request)"
    by (auto simp: openStream_def effectsAre_basic intro!: effects_rules split: sum.split prod.split)
  then show ?thesis by (rule ends_mono [OF effectsAre_ends]) simp
qed

lemma finishCall_reported:
  "ends (finishCall H t0 out) w (\<lambda>w' tr c. \<forall>r. c = Done r \<longrightarrow> reported tokens tr = tokens (llmUsage r))"
  by (auto simp: finishCall_def Let_def endRequest_def yieldPartial_def ends_simps split: option.split)

lemma streamLLMCall_reported:
  "ends (streamLLMCall H request specs) w (\<lambda>w' tr c. \<forall>r. c = Done r \<longrightarrow> reported tokens tr = tokens (llmUsage r))"
  unfolding streamLLMCall_def
  by (subst ends_bnd) (auto simp: ends_steps ends_bnd [of "dateNow H"]
      intro!: ends_seq [OF openStream_reported [where tokens = tokens]] ends_mono [OF finishCall_reported [where tokens = tokens]])

text \<open>How the usage of a step relates to that of the state it started from.\<close>

fun stepUsage :: "LoopStep \<Rightarrow> TokenUsage" where
  "stepUsage (Continue s) = ls_totalUsage s"
| "stepUsage (Finish r g) = resultUsage r"

definition accounts :: "TokenUsage \<Rightarrow> LoopStep Completion \<Rightarrow> bool" where
  "accounts u c \<longleftrightarrow> (\<forall>step. c = Done step \<longrightarrow> stepUsage step = u)"

lemma accounts_simps [simp]:
  "accounts u (Done step) = (stepUsage step = u)" "accounts u (Threw e)" "accounts u Returned"
  by (simp_all add: accounts_def)

lemma nextState_usage [simp]: "ls_totalUsage (nextState s te i u r a st) = u"
  by (simp add: nextState_def)

lemma turn_accounts:
  "ends (textTurn H p s m u a) w (\<lambda>w' tr c. accounts u c)"
  "ends (interruptedCall H b t u) w (\<lambda>w' tr c. accounts u c)"
  "ends (interruptedTools H entry s batch tu u) w (\<lambda>w' tr c. accounts u c)"
  unfolding textTurn_def interruptedCall_def interruptedTools_def
  by (auto intro!: ends_last simp: ends_steps)

lemma toolTurn_accounts: "ends (toolTurn H p entry s m tu u a) w (\<lambda>w' tr c. accounts u c)"
  unfolding toolTurn_def Let_def
  by (auto intro!: ends_last turn_accounts simp: ends_steps split: option.split ControlOutcome.split)

lemma afterCall_accounts:
  "ends (afterCall H p entry s view r) w (\<lambda>w' tr c. accounts (mergeUsage (ls_totalUsage s) (llmUsage r)) c)"
  unfolding afterCall_def Let_def
  by (auto intro!: ends_last turn_accounts toolTurn_accounts simp: ends_steps split: option.split LLMCallResult.split)

text \<open>A count that merging adds up: the tokens of a run are then those that its requests reported.\<close>

locale usage_tokens =
  fixes tokens :: "TokenUsage \<Rightarrow> int"
  assumes nothing [simp]: "tokens emptyUsage = 0"
    and merged [simp]: "tokens (mergeUsage a b) = tokens a + tokens b"
begin

lemma turn_counted:
  "ends (oneTurn H p entry s) w
     (\<lambda>w' tr c. \<forall>step. c = Done step \<longrightarrow> tokens (stepUsage step) = tokens (ls_totalUsage s) + reported tokens tr)"
proof (rule oneTurn_ends)
  show "ends (bnd (streamLLMCall H (requestFor p view) (sv_tools view)) (afterCall H p entry s view)) w
     (\<lambda>w' tr c. \<forall>step. c = Done step \<longrightarrow> tokens (stepUsage step) = tokens (ls_totalUsage s) + reported tokens tr)" for view
    by (rule ends_seq [OF streamLLMCall_reported [where tokens = tokens]],
        rule ends_mono [OF ends_conj [OF afterCall_accounts effectsAre_ends [OF unreported.after_call]]]) auto
qed simp

lemma loop_counted:
  assumes "loopFrom H p entry s w = (w', tr, e)"
  shows "\<forall>r g s'. e = Finished r g s' \<longrightarrow> tokens (resultUsage r) = tokens (ls_totalUsage s) + reported tokens tr"
  using assms
proof (induction rule: loop_induct)
  case (again s w w1 t1 s' w' t2 e)
  then show ?case using endsD [OF turn_counted again(1)] by (auto simp: add.assoc)
next
  case (final s w w' tr c e)
  then show ?case using endsD [OF turn_counted final(1)] by auto
qed

lemma body_counted:
  "ends (bodyOfRun H p entry) w
     (\<lambda>w' tr c. \<forall>r g s. c = Done (Finished r g s) \<longrightarrow> tokens (resultUsage r) = reported tokens tr)"
proof -
  have hook: "ends (runTurnBegin H p n ms) w (\<lambda>w' tr c. reported tokens tr = 0)" for n ms w
    by (rule ends_mono [OF effectsAre_ends [OF unreported.at_edges(1)]]) simp
  have loop: "ends (\<lambda>w. case loopFrom H p entry ((initialState p)\<lparr>ls_messages := ms\<rparr>) w of (w', tr, e) \<Rightarrow> (w', tr, Done e)) w'
     (\<lambda>w' tr c. \<forall>r g s. c = Done (Finished r g s) \<longrightarrow> tokens (resultUsage r) = reported tokens tr)" for ms w'
  proof -
    obtain w2 tr e where l: "loopFrom H p entry ((initialState p)\<lparr>ls_messages := ms\<rparr>) w' = (w2, tr, e)"
      by (metis prod_cases3)
    show ?thesis
      using loop_counted [OF l] by (simp add: ends_def l) (simp add: initialState_def)
  qed
  show ?thesis
    unfolding bodyOfRun_def
    by (rule ends_seq [where P = "\<lambda>w' tr c. reported tokens tr = 0"])
       (auto simp: ends_steps ends_attempt intro!: ends_mono [OF hook] ends_mono [OF loop] split: Completion.split sum.split)
qed

end

interpretation total_inputs: usage_tokens getTotalInputTokens
  by unfold_locales (simp_all add: emptyUsage_def getTotalInputTokens_def [of "\<lparr>tu_inputTokens = 0, tu_outputTokens = 0, tu_totalInputTokens = None, tu_cacheReadTokens = None, tu_cacheWriteTokens = None\<rparr>"])

interpretation plain_inputs: usage_tokens tu_inputTokens
  by unfold_locales (simp_all add: emptyUsage_def)

interpretation plain_outputs: usage_tokens tu_outputTokens
  by unfold_locales (simp_all add: emptyUsage_def)

text \<open>The way out reports no usage and keeps the usage of the result.\<close>

lemma finalizeRun_accounts:
  "ends (finalizeRun H t0 fired s r g) w
     (\<lambda>w' tr c. reported tokens tr = 0 \<and> (\<forall>final. c = Done final \<longrightarrow> resultUsage final = resultUsage r))"
proof -
  have kept: "resultUsage (withExitDelay f now (abortFirst sig r)) = resultUsage r" for f now sig r
    by (auto simp: withExitDelay_def abortFirst_def split: AgentResult.split option.split)
  show ?thesis
    by (auto simp: finalizeRun_def announceEndOfRun_def announceFired_def ends_simps kept
        split: sum.split prod.split AgentResult.split)
qed

lemma leaveLoop_accounts:
  "ends (leaveLoop H t0 entry e) w
     (\<lambda>w' tr c. reported tokens tr = 0 \<and> (\<forall>final. c = Done final \<longrightarrow> (\<exists>r g s. e = Finished r g s \<and> resultUsage final = resultUsage r)))"
  unfolding leaveLoop_def finallyCrashed_def finallyAbandoned_def finallyBlock_def leaveGenerator_def
  by (auto simp: ends_simps intro!: ends_mono [OF finalizeRun_accounts] split: LoopEnd.split option.split Completion.split)
     (auto simp: ends_def)

end
