(* ===== verification/Loop_Correctness.thy ===== *)
theory Loop_Correctness
  imports Loop_View Loop_Account
begin

text \<open>
  The properties of the agent loop: batches of tool calls, calls of the model, and whole runs on
  any host. Their witnesses run the loop on a small host, whose world counts the calls of the
  model: the first answer asks for a tool, the second is a text.
\<close>

section \<open>A small host\<close>

definition demoUsage :: TokenUsage where
  "demoUsage = \<lparr>tu_inputTokens = 7, tu_outputTokens = 2, tu_totalInputTokens = None,
                tu_cacheReadTokens = None, tu_cacheWriteTokens = None\<rparr>"

definition demoStream :: "nat \<Rightarrow> Stream" where
  "demoStream n =
     (if n = 0 then ([TextDelta ''I look'', ToolCallStart ''c1'' ''ls'', MessageEnd ToolUse demoUsage], None)
      else ([TextDelta ''two '', TextDelta ''files'', MessageEnd EndTurn demoUsage], None))"

definition demoObject :: ErrorObject where
  "demoObject = \<lparr>eo_isError = True, eo_isDOMException = False, eo_name = None, eo_message = ''no'', eo_text = ''no'',
                 eo_status = Absent, eo_statusCode = Absent, eo_code = None, eo_syscall = None, eo_cause = Falsy ''undefined'',
                 eo_errors = None, eo_headers = None, eo_innerHeaders = None, eo_undelivered = False\<rparr>"

definition demoHost :: "(nat \<Rightarrow> Signal) \<Rightarrow> (nat \<Rightarrow> nat \<times> (ErrorValue, unit) result) \<Rightarrow> nat Host" where
  "demoHost sig close =
     \<lparr>hs_signal = sig, hs_date = (\<lambda>w. 0), hs_perf = (\<lambda>w. 0), hs_emit = (\<lambda>e w. w), hs_yield = (\<lambda>y w. (w, True)),
      hs_execute = (\<lambda>t v i w. (w, Inr \<lparr>tr_content = ''a b'', tr_isError = None, tr_presentation = None, tr_committedToUser = False\<rparr>)),
      hs_observer = None, hs_pick = (\<lambda>w. 0), hs_callLLM = (\<lambda>r w. (Suc w, Inr (demoStream w))), hs_await = (\<lambda>w. w),
      hs_parse = (\<lambda>s. None), hs_receive = (\<lambda>b c w. (w, Inr [])), hs_close = close, hs_segment = None,
      hs_onChange = (\<lambda>w. (w, Inr ())), hs_systemPrompt = (\<lambda>w. ''help''), hs_prefix = (\<lambda>w. []), hs_inject = (\<lambda>w ms. ms),
      hs_estimator = None, hs_heap = (\<lambda>a. demoObject), hs_agentError = (\<lambda>a. None), hs_userFacing = (\<lambda>a. False),
      hs_locale = show_nat\<rparr>"

definition calmHost :: "nat Host" where
  "calmHost = demoHost (\<lambda>w. Live) (\<lambda>w. (w, Inr ()))"

definition demoTool :: "string \<Rightarrow> nat option \<Rightarrow> ToolDefinition" where
  "demoTool name limit = \<lparr>td_name = name, td_spec = JNull, td_isReadOnly = True, td_isParallelSafe = True,
     td_maxResultChars = None, td_maxCallsPerTurn = limit, td_exclusiveInitialControl = None\<rparr>"

definition demoParams :: LoopParams where
  "demoParams = \<lparr>lp_messages = [userMessage ''how many?''], lp_tools = [demoTool ''ls'' None], lp_model = ''m'',
     lp_thinking = JNull, lp_maxTurns = Some 5, lp_inputCapabilities = Some True, lp_providerModels = [],
     lp_enabledExclusiveControls = []\<rparr>"

definition demoCall :: "string \<Rightarrow> string \<Rightarrow> ToolUseBlock" where
  "demoCall i name = \<lparr>ub_id = i, ub_name = name, ub_input = []\<rparr>"

definition noControl :: ExclusiveControl where
  "noControl = \<lparr>ec_enabled = [], ec_toolsStartedBefore = False\<rparr>"

definition demoTrace :: "LoopEffect list" where
  "demoTrace = fst (snd (runAgentLoop calmHost demoParams 0))"

definition demoResult :: AgentResult where
  "demoResult = CompletedResult (plainMessage Assistant [TextBlock ''two files''])
     \<lparr>tu_inputTokens = 14, tu_outputTokens = 4, tu_totalInputTokens = Some 14,
      tu_cacheReadTokens = None, tu_cacheWriteTokens = None\<rparr>"

lemma demo_trace_run: "runAgentLoop calmHost demoParams 0 = (fst (runAgentLoop calmHost demoParams 0), demoTrace, Done demoResult)"
proof -
  have "snd (snd (runAgentLoop calmHost demoParams 0)) = Done demoResult" by code_simp
  then show ?thesis by (simp add: demoTrace_def prod_eq_iff)
qed

definition demoTools :: "ToolDefinition list" where
  "demoTools = [demoTool ''ls'' (Some 1), demoTool ''cat'' None]"

definition demoCalls :: "ToolUseBlock list" where
  "demoCalls = [demoCall ''1'' ''ls'', demoCall ''2'' ''cat'', demoCall ''3'' ''ls'']"

definition demoBatch :: "nat \<times> LoopEffect list \<times> ExecuteToolCallsResult Completion" where
  "demoBatch = executeToolCalls calmHost demoTools noControl demoCalls 0"

fun isDone :: "'a Completion \<Rightarrow> bool" where
  "isDone (Done a) = True"
| "isDone c = False"

lemma isDoneD: "isDone c \<Longrightarrow> \<exists>a. c = Done a"
  by (cases c) auto

lemma demo_batch: "executeToolCalls calmHost demoTools noControl demoCalls 0 = (fst demoBatch, fst (snd demoBatch), snd (snd demoBatch))"
  by (simp add: demoBatch_def)

lemma demo_batch_done: "\<exists>x. snd (snd demoBatch) = Done x"
proof -
  have "isDone (snd (snd demoBatch))" by code_simp
  then show ?thesis by (rule isDoneD)
qed

section \<open>Batches of tool calls\<close>

text \<open>
  C6. A batch that ends has, for every call of the model, either a result or an entry among the
  calls left for placeholders, never both and never neither; when none is left, the results
  stand in the order of the calls.
\<close>
theorem tool_batch_covers:
  assumes "executeToolCalls H tools control calls w = (w', tr, Done x)"
  shows "mset (map rb_toolUseId (bt_completedResults (xr_batch x))) + mset (map ub_id (bt_unexecutedToolUses (xr_batch x)))
           = mset (map ub_id calls) \<and>
         (bt_unexecutedToolUses (xr_batch x) = [] \<longrightarrow>
            map rb_toolUseId (bt_completedResults (xr_batch x)) = map ub_id calls)"
  using endsD [OF executeToolCalls_covers assms] by (simp add: batchCovers_def)

theorem tool_batch_covers_witness:
  "\<exists>x. snd (snd demoBatch) = Done x \<and>
     mset (map rb_toolUseId (bt_completedResults (xr_batch x))) + mset (map ub_id (bt_unexecutedToolUses (xr_batch x)))
       = mset (map ub_id demoCalls)"
proof -
  obtain x where x: "snd (snd demoBatch) = Done x" using demo_batch_done by blast
  then show ?thesis using tool_batch_covers [OF demo_batch [unfolded x]] by blast
qed

text \<open>
  C24. In one batch a tool with a limit of calls per turn is started at most that many times,
  however often the model calls it and whatever else happens.
\<close>
theorem tool_starts_limited:
  assumes "executeToolCalls H tools control calls w = (w', tr, c)"
    and "omap_get (toolMapOf tools) n = Some t" and "td_maxCallsPerTurn t = Some limit" and "0 < limit"
  shows "callsNamed n (starts tr) \<le> limit"
proof -
  let ?tm = "toolMapOf tools"
  have pre: "prefix (starts tr) (runsOf (fst (plannedBatch ?tm control calls)))"
    by (rule endsD [OF executeToolCalls_starts assms(1)])
  have "callsNamed n (runsOf (fst (plannedBatch ?tm control calls))) \<le> limit"
  proof (cases "list_ex (isExclusive ?tm) calls")
    case True
    then show ?thesis using plannedBatch_exclusive [OF True, of control] assms(4) by auto
  next
    case False
    then have "plannedBatch ?tm control calls = (planToolCalls calls ?tm, None)"
      using gate_some [of calls ?tm control] by (simp add: plannedBatch_def)
    then show ?thesis
      using planFrom_limit [OF assms(2,3), of "\<lambda>_. 0" calls] by (simp add: planToolCalls_def)
  qed
  then show ?thesis using callsNamed_prefix [OF pre] by (meson le_trans)
qed

theorem tool_starts_limited_witness:
  "callsNamed ''ls'' (starts (fst (snd demoBatch))) \<le> 1 \<and> callsNamed ''cat'' (starts (fst (snd demoBatch))) = 1"
proof -
  have "callsNamed ''ls'' (starts (fst (snd demoBatch))) \<le> 1"
    by (rule tool_starts_limited [OF demo_batch, of _ "demoTool ''ls'' (Some 1)"])
       (simp_all add: demoTools_def toolMapOf_def demoTool_def)
  moreover have "callsNamed ''cat'' (starts (fst (snd demoBatch))) = 1" by code_simp
  ultimately show ?thesis ..
qed

text \<open>
  A batch that contains an exclusive control call starts at most one call: that one, and
  only if no tool started earlier in the run and the run enables it.
\<close>
theorem exclusive_call_alone:
  assumes "executeToolCalls H tools control calls w = (w', tr, c)"
    and "list_ex (isExclusive (toolMapOf tools)) calls" and "starts tr \<noteq> []"
  shows "\<exists>only. starts tr = [only] \<and> only \<in> set calls \<and> isExclusive (toolMapOf tools) only \<and>
           \<not> ec_toolsStartedBefore control \<and> ub_name only \<in> set (ec_enabled control)"
proof -
  have "prefix (starts tr) (runsOf (fst (plannedBatch (toolMapOf tools) control calls)))"
    by (rule endsD [OF executeToolCalls_starts assms(1)])
  then show ?thesis
    using plannedBatch_exclusive [OF assms(2), of control] assms(3) by (auto simp: prefix_Cons)
qed

definition exclusiveTool :: ToolDefinition where
  "exclusiveTool = (demoTool ''plan'' None)\<lparr>td_exclusiveInitialControl := Some (\<lambda>v. None)\<rparr>"

definition exclusiveBatch :: "nat \<times> LoopEffect list \<times> ExecuteToolCallsResult Completion" where
  "exclusiveBatch = executeToolCalls calmHost [demoTool ''ls'' None, exclusiveTool]
     \<lparr>ec_enabled = [''plan''], ec_toolsStartedBefore = False\<rparr> [demoCall ''1'' ''ls'', demoCall ''2'' ''plan''] 0"

theorem exclusive_call_alone_witness:
  "\<exists>only. starts (fst (snd exclusiveBatch)) = [only] \<and> ub_name only = ''plan''"
proof -
  have started: "map ub_name (starts (fst (snd exclusiveBatch))) = [''plan'']" by code_simp
  have "executeToolCalls calmHost [demoTool ''ls'' None, exclusiveTool] \<lparr>ec_enabled = [''plan''], ec_toolsStartedBefore = False\<rparr>
      [demoCall ''1'' ''ls'', demoCall ''2'' ''plan''] 0 = (fst exclusiveBatch, fst (snd exclusiveBatch), snd (snd exclusiveBatch))"
    by (simp add: exclusiveBatch_def)
  moreover have "list_ex (isExclusive (toolMapOf [demoTool ''ls'' None, exclusiveTool])) [demoCall ''1'' ''ls'', demoCall ''2'' ''plan'']"
    by code_simp
  ultimately have "\<exists>only. starts (fst (snd exclusiveBatch)) = [only]"
    using exclusive_call_alone started by (metis list.simps(8) neq_Nil_conv)
  then show ?thesis using started by auto
qed

text \<open>
  C16. On a steady host (the run is not aborted, its consumer stays, the observer does not fail and
  a tool's answer depends on its call alone, not on time or on the other calls), running a batch in parallel, under any interleaving of its tools, gives the results that running it
  serially gives, in the same order, and leaves no call.
\<close>
theorem serial_parallel_agree:
  assumes "steadyHost H f" and "canRunParallel planned"
  shows "\<exists>b b'. snd (snd (runParallelBatch H planned w)) = Done b \<and> snd (snd (runSerialBatch H tm planned v)) = Done b' \<and>
           bt_completedResults b = bt_completedResults b' \<and> bt_unexecutedToolUses b = [] \<and> bt_unexecutedToolUses b' = []"
proof -
  obtain b where "snd (snd (runParallelBatch H planned w)) = Done b"
      "bt_completedResults b = map (expectedBlock H f) planned" "bt_unexecutedToolUses b = []"
    using runParallelBatch_steady [OF assms, of w] by (auto simp: ends_def split: prod.splits)
  moreover obtain b' where "snd (snd (runSerialBatch H tm planned v)) = Done b'"
      "bt_completedResults b' = map (expectedBlock H f) planned" "bt_unexecutedToolUses b' = []"
    using runSerialBatch_steady [OF assms(1) canRunParallel_tools [OF assms(2)], of tm v]
    by (auto simp: ends_def split: prod.splits)
  ultimately show ?thesis by auto
qed

definition demoAnswer :: toolAnswer where
  "demoAnswer t v i = Inr \<lparr>tr_content = ''a b'', tr_isError = None, tr_presentation = None, tr_committedToUser = False\<rparr>"

theorem serial_parallel_agree_witness:
  "\<exists>b b'. snd (snd (runParallelBatch calmHost (planToolCalls demoCalls (toolMapOf demoTools)) 0)) = Done b \<and>
     snd (snd (runSerialBatch calmHost (toolMapOf demoTools) (planToolCalls demoCalls (toolMapOf demoTools)) 9)) = Done b' \<and>
     bt_completedResults b = bt_completedResults b'"
proof -
  have steady: "steadyHost calmHost demoAnswer"
    by (simp add: steadyHost_def undisturbed_def calmHost_def demoHost_def demoAnswer_def)
  have planned: "canRunParallel (planToolCalls demoCalls (toolMapOf demoTools))"
    by code_simp
  show ?thesis using serial_parallel_agree [OF steady planned, of 0 "toolMapOf demoTools" 9] by blast
qed

text \<open>
  A batch that begins after an abort starts no tool, completes no call and leaves every call
  for its placeholder.
\<close>
theorem aborted_batch_starts_nothing:
  assumes "isAborted (hs_signal H w)" and "calls \<noteq> []" and "executeToolCalls H tools control calls w = (w', tr, c)"
  shows "starts tr = [] \<and> (\<exists>x. c = Done x \<and> bt_completedResults (xr_batch x) = [] \<and>
           bt_unexecutedToolUses (xr_batch x) = calls \<and> \<not> bt_startedTools (xr_batch x) \<and> xr_exclusive x = None)"
proof -
  let ?planned = "fst (plannedBatch (toolMapOf tools) control calls)"
  have calls: "map plannedCall ?planned = calls" by (rule plannedBatch_calls)
  then obtain p ps where planned: "?planned = p # ps" using assms(2) by (cases ?planned) auto
  have batch: "ends (if canRunParallel ?planned then runParallelBatch H ?planned else runSerialBatch H (toolMapOf tools) ?planned) w
      (\<lambda>w' tr c. starts tr = [] \<and> c = Done (batchOf [] calls None False))"
    using assms(1) calls
    by (auto simp: runParallelBatch_def runSerialBatch_def planned ends_simps intro!: ends_skipped)
  have "ends (executeToolCalls H tools control calls) w
      (\<lambda>w' tr c. starts tr = [] \<and> (\<exists>x. c = Done x \<and> bt_completedResults (xr_batch x) = [] \<and>
         bt_unexecutedToolUses (xr_batch x) = calls \<and> \<not> bt_startedTools (xr_batch x) \<and> xr_exclusive x = None))"
    unfolding executeToolCalls_def Let_def
    by (rule ends_seq [OF batch]) (auto simp: ends_simps exclusiveOutcome_def batchOf_def assms(2) split: option.split)
  then show ?thesis by (rule endsD) (rule assms(3))
qed

definition stoppedHost :: "nat Host" where
  "stoppedHost = demoHost (\<lambda>w. AbortedAt 3 (Some (UserCancel ''esc'' 3))) (\<lambda>w. (w, Inr ()))"

theorem aborted_batch_starts_nothing_witness:
  "starts (fst (snd (executeToolCalls stoppedHost demoTools noControl demoCalls 0))) = []"
  using aborted_batch_starts_nothing [of stoppedHost 0 demoCalls demoTools noControl]
  by (cases "executeToolCalls stoppedHost demoTools noControl demoCalls 0")
     (simp add: stoppedHost_def demoHost_def demoCalls_def)

section \<open>Calls of the model\<close>

text \<open>
  C28. The text that the consumer was shown while the model answered is exactly the text of the
  message that the loop keeps, and after an abort exactly the partial text, on any host.
\<close>
theorem shown_text_is_kept:
  assumes "streamLLMCall H request specs w = (w', tr, Done r)"
  shows "shownText tr = (case r of LLMSuccess m stop u e \<Rightarrow> extractText m | LLMAborted body thinking u \<Rightarrow> body)"
  using endsD [OF streamLLMCall_shows assms] by (auto simp: showsText_def split: LLMCallResult.split)

definition demoRequest :: ChatRequest where
  "demoRequest = \<lparr>cr_model = ''m'', cr_systemPrompt = '''', cr_messages = [userMessage ''hi''], cr_tools = None, cr_thinking = JNull\<rparr>"

theorem shown_text_is_kept_witness:
  "shownText (fst (snd (streamLLMCall calmHost demoRequest [] 1))) = ''two files''"
proof -
  have run: "snd (snd (streamLLMCall calmHost demoRequest [] 1)) =
      Done (LLMSuccess (plainMessage Assistant [TextBlock ''two files'']) EndTurn demoUsage None)" by code_simp
  then have "streamLLMCall calmHost demoRequest [] 1 = (fst (streamLLMCall calmHost demoRequest [] 1),
      fst (snd (streamLLMCall calmHost demoRequest [] 1)),
      Done (LLMSuccess (plainMessage Assistant [TextBlock ''two files'']) EndTurn demoUsage None))"
    by (simp add: prod_eq_iff)
  from shown_text_is_kept [OF this] show ?thesis
    by (simp add: extractText_def List.map_filter_simps)
qed

section \<open>Whole runs\<close>

text \<open>
  C1. The messages that a consumer rebuilds from a run that returns obey the rule of the model's
  providers: a message with tool calls is followed at once by a user message with exactly one
  result for each, and results stand nowhere else; on any host, aborts at any point included.
\<close>
theorem transcript_paired:
  assumes "runAgentLoop H p w = (w', tr, Done r)"
  shows "paired (transcript tr)"
proof -
  have "ends (runAgentLoop H p) w (\<lambda>w' tr c. \<forall>r. c = Done r \<longrightarrow> paired (transcript tr))"
  proof (rule runAgentLoop_ends, rule ends_seq [OF bodyOfRun_ends], goal_cases)
    case (1 t0 entry w1 w2 tr1 e)
    show ?case
    proof (rule ends_mono [OF leaveLoop_done], intro allI impI, goal_cases)
      case (1 w3 tr2 c r)
      then obtain r' g s where "e = Finished r' g s" by auto
      then obtain new where new: "turnAdds tr1 new" "paired new" using \<open>_ \<and> list_all ongoing tr1 \<and> _\<close> by auto
      have "turnAdds (tr1 @ tr2) new"
        using new(1) 1(1) by (simp add: lastEffects_untracked)
      then show ?case using new(2) by (simp add: transcript_def turnAdds_def)
    qed
  qed auto
  then show ?thesis using assms by (simp add: ends_def)
qed

theorem transcript_paired_witness:
  "paired (transcript demoTrace) \<and> length (transcript demoTrace) = 3 \<and> length (concat (map extractToolCalls (transcript demoTrace))) = 1"
proof -
  have "length (transcript demoTrace) = 3" "length (concat (map extractToolCalls (transcript demoTrace))) = 1"
    by code_simp+
  then show ?thesis using transcript_paired [OF demo_trace_run] by auto
qed

text \<open>
  C3. However a run ends (it returns, an exception leaves it, its consumer abandons it), on any
  host, its trace ends with exactly one announcement of the end of the run, and none stands before;
  an announcement of the interruption comes with it exactly when the run ends as aborted; and the
  reason announced is that of the result, after an exception \<open>error\<close> or \<open>aborted\<close>, after an abandoned
  run \<open>aborted\<close>. The one exception: when the last thing the run does is a failing close of its input
  port, nothing is announced, and then the run does not return a result.
\<close>
theorem run_end_announced_once:
  assumes "runAgentLoop H p w = (w', tr, c)"
  shows "\<exists>pre ending. tr = pre @ ending \<and> list_all ongoing pre \<and>
           ((\<exists>reason. announces ending reason \<and>
               (case c of
                  Done r \<Rightarrow> reason = resultReason r
                | Threw e \<Rightarrow> reason = ErrorEnd \<or> reason = AbortedEnd
                | Returned \<Rightarrow> reason = AbortedEnd)) \<or>
            (ending = [] \<and> (\<forall>r. c \<noteq> Done r) \<and> closeFailed H w'))"
proof -
  let ?A = "\<lambda>w' ending c. (\<exists>reason. announces ending reason \<and>
               (case c of
                  Done r \<Rightarrow> reason = resultReason r
                | Threw e \<Rightarrow> reason = ErrorEnd \<or> reason = AbortedEnd
                | Returned \<Rightarrow> reason = AbortedEnd)) \<or>
            (ending = [] \<and> (\<forall>r. c \<noteq> Done r) \<and> closeFailed H w')"
  have "ends (runAgentLoop H p) w (\<lambda>w' tr c. \<exists>pre ending. tr = pre @ ending \<and> list_all ongoing pre \<and> ?A w' ending c)"
  proof (rule runAgentLoop_ends, rule ends_seq [OF bodyOfRun_ends], goal_cases)
    case (1 t0 entry w1 w2 tr1 e)
    then have before: "list_all ongoing (Emitted (RunStart (promptOf p)) # tr1)" by (simp add: ongoing_def)
    show ?case
      by (rule ends_mono [OF leaveLoop_announces],
          rule exI [of _ "Emitted (RunStart (promptOf p)) # tr1"], rule exI) (intro conjI before; simp)
  qed auto
  then show ?thesis using assms by (simp add: ends_def)
qed

theorem run_end_announced_once_witness:
  "\<exists>pre ending. demoTrace = pre @ ending \<and> list_all ongoing pre \<and> announces ending CompletedEnd"
  using run_end_announced_once [OF demo_trace_run] by (fastforce simp: demoResult_def)

text \<open>C29. A run asks the model at most as often as its limit of turns, however it ends.\<close>
theorem requests_bounded:
  assumes "runAgentLoop H p w = (w', tr, c)"
  shows "requests tr \<le> (case lp_maxTurns p of Some limit \<Rightarrow> limit | None \<Rightarrow> 100)"
proof -
  have "ends (runAgentLoop H p) w (\<lambda>w' tr c. requests tr \<le> maxTurnsOf p)"
    by (rule runAgentLoop_ends, rule ends_seq [OF bodyOfRun_ends])
       (auto intro!: ends_mono [OF leaveLoop_done])
  then show ?thesis using assms by (cases "lp_maxTurns p") (simp_all add: ends_def maxTurnsOf_def)
qed

theorem requests_bounded_witness: "requests demoTrace \<le> 5 \<and> requests demoTrace = 2"
proof -
  have "requests demoTrace = 2" by code_simp
  then show ?thesis using requests_bounded [OF demo_trace_run] by (simp add: demoParams_def maxTurnsOf_def)
qed

text \<open>
  C27. The usage of the result of a run is the sum of the usage that its requests reported:
  nothing is counted twice or lost, in any kind of result, aborted ones included.
\<close>
theorem usage_is_sum_of_requests:
  assumes "runAgentLoop H p w = (w', tr, Done r)"
  shows "getTotalInputTokens (resultUsage r) = reported getTotalInputTokens tr \<and>
         tu_inputTokens (resultUsage r) = reported tu_inputTokens tr \<and>
         tu_outputTokens (resultUsage r) = reported tu_outputTokens tr"
proof -
  have counted: "ends (runAgentLoop H p) w (\<lambda>w' tr c. \<forall>r. c = Done r \<longrightarrow> tokens (resultUsage r) = reported tokens tr)"
    if "\<And>entry w1. ends (bodyOfRun H p entry) w1
         (\<lambda>w' tr c. \<forall>r g s. c = Done (Finished r g s) \<longrightarrow> tokens (resultUsage r) = reported tokens tr)" for tokens
    by (rule runAgentLoop_ends, rule ends_seq [OF that])
       (auto intro!: ends_mono [OF leaveLoop_accounts [where tokens = tokens]])
  show ?thesis
    using endsD [OF counted [OF total_inputs.body_counted] assms] endsD [OF counted [OF plain_inputs.body_counted] assms]
      endsD [OF counted [OF plain_outputs.body_counted] assms] by blast
qed

theorem usage_is_sum_of_requests_witness:
  "getTotalInputTokens (resultUsage demoResult) = reported getTotalInputTokens demoTrace \<and> reported tu_outputTokens demoTrace = 4"
  using usage_is_sum_of_requests [OF demo_trace_run] by (simp add: demoResult_def)

text \<open>
  C15. On any host, every request of a run sends the host's prefix and injection of messages that
  are accounted for: the initial ones and, for every turn before it, exactly what the turn's events
  added to the transcript that the consumer rebuilds (apart from the signal that follows the content
  of results already committed to the user); only the segment manager replaces them, by its answer
  for the view of these very messages, and only what the input port delivered is appended. Where no
  segment manager is set and the port delivers nothing, they are the initial messages followed by
  the transcript at that moment.
\<close>
theorem requests_show_transcript:
  assumes "runAgentLoop H p w = (w', pre @ Emitted (RequestStart m sent prompt specs) # post, c)"
  shows "\<exists>own v. accounted H (lp_messages p) pre own \<and> sent = hs_prefix H v @ hs_inject H v own \<and>
           (keepsMessages H \<longrightarrow> sameMessages own (lp_messages p @ transcript pre))"
proof -
  let ?start = "Emitted (RunStart (promptOf p))"
  have start: "list_all (\<lambda>e. \<not> isRequest e) [?start]" "untracked [?start]" by (simp_all add: untracked_def)
  have "ends (runAgentLoop H p) w (\<lambda>w' tr c. sendsAccounted H (lp_messages p) [] tr)"
  proof (rule runAgentLoop_ends, rule ends_seq [OF body_sendsAccounted [OF start]], goal_cases)
    case (1 t0 entry w1 w2 tr1 e)
    show ?case
    proof (rule ends_mono [OF leaveLoop_done], goal_cases)
      case (1 w3 tr2 c)
      then have "list_all (\<lambda>e. \<not> isRequest e) tr2" by (auto simp: list_all_iff lastEffect_request)
      then have "sendsAccounted H (lp_messages p) [] ([?start] @ tr1 @ tr2)"
        using \<open>sendsAccounted _ _ _ tr1 \<and> _\<close>
        by (intro sendsAccounted_append) (simp_all add: sendsAccounted_none)
      then show ?case by simp
    qed
  qed auto
  then have "sendsAccounted H (lp_messages p) [] (pre @ Emitted (RequestStart m sent prompt specs) # post)"
    using assms by (simp add: ends_def)
  then obtain own v where own: "accounted H (lp_messages p) pre own" "sent = hs_prefix H v @ hs_inject H v own"
    using sendsAccountedD [of H "lp_messages p" "[]" pre "Emitted (RequestStart m sent prompt specs)" post sent] by auto
  have "sameMessages own (lp_messages p @ transcript pre)" if "keepsMessages H"
    using accounted_transcript [OF own(1) that] by (auto simp: transcript_def turnAdds_def)
  with own show ?thesis by blast
qed

lemma demo_keepsMessages: "keepsMessages calmHost"
  by (simp add: keepsMessages_def calmHost_def demoHost_def)

theorem requests_show_transcript_witness:
  "\<exists>m sent prompt specs. demoTrace ! 14 = Emitted (RequestStart m sent prompt specs) \<and>
     sameMessages sent (lp_messages demoParams @ transcript (take 14 demoTrace)) \<and> length (transcript (take 14 demoTrace)) = 2"
proof -
  have "isRequest (demoTrace ! 14)" and len: "14 < length demoTrace" and two: "length (transcript (take 14 demoTrace)) = 2"
    by code_simp+
  then obtain m sent prompt specs where e: "demoTrace ! 14 = Emitted (RequestStart m sent prompt specs)"
    by (cases "demoTrace ! 14" rule: isRequest.cases) auto
  have "demoTrace = take 14 demoTrace @ Emitted (RequestStart m sent prompt specs) # drop 15 demoTrace"
    using id_take_nth_drop [OF len] e by simp
  then have "runAgentLoop calmHost demoParams 0 = (fst (runAgentLoop calmHost demoParams 0),
      take 14 demoTrace @ Emitted (RequestStart m sent prompt specs) # drop 15 demoTrace, Done demoResult)"
    using demo_trace_run by metis
  from requests_show_transcript [OF this] obtain own v where "sent = hs_prefix calmHost v @ hs_inject calmHost v own"
      "sameMessages own (lp_messages demoParams @ transcript (take 14 demoTrace))"
    using demo_keepsMessages by blast
  then have "sameMessages sent (lp_messages demoParams @ transcript (take 14 demoTrace))"
    by (simp add: calmHost_def demoHost_def)
  with e two show ?thesis by blast
qed

text \<open>
  An abort that has come by the time the input port is closed decides the result, whatever
  the loop had made of the run: the run is reported as aborted, in its result, in the
  announcement of the interruption and in that of the end, with the usage it had.
\<close>
theorem abort_comes_first:
  assumes "finalizeRun H t0 fired s r g w = (w', tr, Done final)"
    and "hs_close H w = (w1, Inr ())" and "isAborted (hs_signal H w1)"
  shows "\<exists>reason delay n d. final = AbortedResult (resultUsage r) reason delay \<and>
           tr = [Emitted (InterruptFired reason n delay g), Emitted (RunEnd AbortedEnd d (resultUsage r) None)]"
  using assms
  by (auto simp: finalizeRun_def announceEndOfRun_def announceFired_def withExitDelay_def abortFirst_def bnd_def look_def
      outside_def emit_def effect_def dateNow_def ret_def split: AgentResult.splits option.splits)

theorem abort_comes_first_witness:
  "\<exists>reason delay. snd (snd (finalizeRun stoppedHost 0 (firedAt None) (initialState demoParams) demoResult 0 0)) =
     Done (AbortedResult (resultUsage demoResult) reason delay)"
proof -
  let ?run = "finalizeRun stoppedHost 0 (firedAt None) (initialState demoParams) demoResult 0 0"
  have "isDone (snd (snd ?run))" by code_simp
  then obtain final where final: "snd (snd ?run) = Done final" using isDoneD by blast
  show ?thesis
    using abort_comes_first [of stoppedHost 0 "firedAt None" "initialState demoParams" demoResult 0 0 "fst ?run" "fst (snd ?run)" final 0]
      final by (auto simp: stoppedHost_def demoHost_def prod_eq_iff)
qed

text \<open>
  C30. When the input port fails to close, both ways out fail before they announce anything: the
  run leaves with an exception, or to the consumer that abandoned it, and its end is never
  announced, although the \<^verbatim>\<open>finally\<close> block is there so that it always is.
\<close>
theorem run_end_lost:
  assumes "\<And>v. \<exists>v' e. hs_close H v = (v', Inl e)" and "runAgentLoop H p w = (w', tr, c)"
  shows "list_all ongoing tr \<and> \<not> isDone c"
proof -
  have fails: "ends (finalizeRun H t0 fired s r g) v (\<lambda>w' tr c. tr = [] \<and> (\<exists>e. c = Threw e))" for t0 fired s r g v
    using assms(1) [of v] by (auto simp: finalizeRun_def ends_bnd ends_outside)
  have block: "ends (finallyBlock H t0 entry s x) v (\<lambda>w' tr c. tr = [] \<and> c = Done ())" for t0 entry s x v
    by (auto simp: finallyBlock_def ends_simps intro!: ends_mono [OF fails] split: option.split)
  have crashed: "ends (finallyCrashed H t0 entry s e) v (\<lambda>w' tr c. tr = [] \<and> \<not> isDone c)" for t0 entry s e v
    by (auto simp: finallyCrashed_def ends_bnd ends_outside intro!: ends_mono [OF block])
  have out: "ends (leaveLoop H t0 entry e) v (\<lambda>w' tr c. tr = [] \<and> \<not> isDone c)" for t0 entry e v
  proof (cases e)
    case (Finished r g s)
    then show ?thesis
      by (auto simp: leaveLoop_def ends_bnd ends_attempt intro!: ends_mono [OF fails] crashed)
  next
    case (Crashed x s)
    then show ?thesis by (simp add: leaveLoop_def crashed)
  next
    case (Abandoned s)
    then show ?thesis
      by (auto simp: leaveLoop_def finallyAbandoned_def ends_bnd intro!: ends_mono [OF block])
         (simp add: ends_def leaveGenerator_def)
  qed
  have "ends (runAgentLoop H p) w (\<lambda>w' tr c. list_all ongoing tr \<and> \<not> isDone c)"
    by (rule runAgentLoop_ends, rule ends_seq [OF bodyOfRun_ends])
       (auto simp: ongoing_def intro!: ends_mono [OF out])
  then show ?thesis using assms(2) by (simp add: ends_def)
qed

definition stuckHost :: "nat Host" where
  "stuckHost = demoHost (\<lambda>w. Live) (\<lambda>w. (w, Inl (Ref 0)))"

theorem run_end_lost_witness:
  "list_all ongoing (fst (snd (runAgentLoop stuckHost demoParams 0))) \<and> requests (fst (snd (runAgentLoop stuckHost demoParams 0))) = 2"
proof -
  have "requests (fst (snd (runAgentLoop stuckHost demoParams 0))) = 2" by code_simp
  moreover have "list_all ongoing (fst (snd (runAgentLoop stuckHost demoParams 0)))"
    using run_end_lost [of stuckHost demoParams 0]
    by (cases "runAgentLoop stuckHost demoParams 0") (simp add: stuckHost_def demoHost_def)
  ultimately show ?thesis by simp
qed

end
