(* ===== verification/Ledger_Types.thy ===== *)
theory Ledger_Types
  imports Canonical
begin

text \<open>
  The records of an assignment ledger (\<^verbatim>\<open>AssignmentRecord\<close> and what it carries,
  \<^verbatim>\<open>packages/core/src/contracts/records.ts\<close>, \<^verbatim>\<open>authorization.ts\<close>, \<^verbatim>\<open>foundation.ts\<close>) and their
  JSON form, over which the chain of digests is computed. The version marks \<^verbatim>\<open>v\<close> and the
  constant \<^verbatim>\<open>kind: "allow-once"\<close> are supplied by the JSON form; an optional
  \<^verbatim>\<open>effectiveAcceptedAt\<close> stands for the records of version 3. Staged mutations and routing
  targets, which the ledger carries without reading them, are JSON values. Sequence
  numbers are safe integers, hence \<open>int\<close>.
\<close>

type_synonym Digest = string
type_synonym IsoTime = string

section \<open>References, authority and proofs\<close>

record ArtifactRef =
  ar_digest :: Digest
  ar_bytes :: int

definition artifactRef_json :: "ArtifactRef \<Rightarrow> json" where
  "artifactRef_json r = JObj [(''digest'', JStr (ar_digest r)), (''bytes'', JInt (ar_bytes r))]"

record ProtocolSignature =
  sg_alg :: string
  sg_keyId :: string
  sg_sig :: string

definition signature_json :: "ProtocolSignature \<Rightarrow> json" where
  "signature_json s = JObj [(''alg'', JStr (sg_alg s)), (''keyId'', JStr (sg_keyId s)), (''sig'', JStr (sg_sig s))]"

datatype AuthorityEpochRef =
    ConversationEpoch string int
  | JobEpoch string int

fun authorityEpoch_json :: "AuthorityEpochRef \<Rightarrow> json" where
  "authorityEpoch_json (ConversationEpoch conversationId ownerEpoch) =
     JObj [(''execution'', JStr ''conversation''), (''conversationId'', JStr conversationId),
       (''ownerEpoch'', JInt ownerEpoch)]"
| "authorityEpoch_json (JobEpoch taskId anchorEpoch) =
     JObj [(''execution'', JStr ''job''), (''taskId'', JStr taskId), (''anchorEpoch'', JInt anchorEpoch)]"

datatype ExecutionRef =
    ConversationRef string string int
  | JobRef string string int

fun executionRef_json :: "ExecutionRef \<Rightarrow> json" where
  "executionRef_json (ConversationRef runId conversationId ownerEpoch) =
     JObj [(''execution'', JStr ''conversation''), (''runId'', JStr runId),
       (''conversationId'', JStr conversationId), (''ownerEpoch'', JInt ownerEpoch)]"
| "executionRef_json (JobRef jobRunId taskId anchorEpoch) =
     JObj [(''execution'', JStr ''job''), (''jobRunId'', JStr jobRunId), (''taskId'', JStr taskId),
       (''anchorEpoch'', JInt anchorEpoch)]"

fun isJob :: "ExecutionRef option \<Rightarrow> bool" where
  "isJob (Some (JobRef _ _ _)) = True"
| "isJob _ = False"

fun authorityForExecutionRef :: "ExecutionRef \<Rightarrow> AuthorityEpochRef" where
  "authorityForExecutionRef (ConversationRef _ conversationId ownerEpoch) = ConversationEpoch conversationId ownerEpoch"
| "authorityForExecutionRef (JobRef _ taskId anchorEpoch) = JobEpoch taskId anchorEpoch"

record ControlLease =
  cl_v :: int
  cl_anchorEpoch :: "int option"
  cl_controlLeaseId :: string
  cl_assignmentId :: string
  cl_authority :: AuthorityEpochRef
  cl_renewalSeq :: int
  cl_issuedAt :: IsoTime
  cl_expiry :: IsoTime
  cl_signature :: ProtocolSignature

definition controlLease_json :: "ControlLease \<Rightarrow> json" where
  "controlLease_json l = JObj ([(''v'', JInt (cl_v l))] @ optField ''anchorEpoch'' JInt (cl_anchorEpoch l) @
     [(''controlLeaseId'', JStr (cl_controlLeaseId l)), (''assignmentId'', JStr (cl_assignmentId l)),
      (''authority'', authorityEpoch_json (cl_authority l)), (''renewalSeq'', JInt (cl_renewalSeq l)),
      (''issuedAt'', JStr (cl_issuedAt l)), (''expiry'', JStr (cl_expiry l)),
      (''signature'', signature_json (cl_signature l))])"

record AssignmentActivationProof =
  aa_ref :: ExecutionRef
  aa_assignmentId :: string
  aa_executorId :: string
  aa_dispatchRef :: ArtifactRef
  aa_manifestDigest :: Digest
  aa_permissionLeaseDigest :: Digest
  aa_capIds :: "string list"
  aa_reservationId :: string
  aa_attempt :: int
  aa_commitLsn :: int
  aa_commitEnvelopeDigest :: Digest
  aa_issuedAt :: IsoTime
  aa_signature :: ProtocolSignature

definition activation_json :: "AssignmentActivationProof \<Rightarrow> json" where
  "activation_json a = JObj
     [(''v'', JInt 1), (''ref'', executionRef_json (aa_ref a)), (''assignmentId'', JStr (aa_assignmentId a)),
      (''executorId'', JStr (aa_executorId a)), (''dispatchRef'', artifactRef_json (aa_dispatchRef a)),
      (''manifestDigest'', JStr (aa_manifestDigest a)),
      (''permissionLeaseDigest'', JStr (aa_permissionLeaseDigest a)),
      (''capIds'', JArr (map JStr (aa_capIds a))),
      (''reservation'', JObj [(''reservationId'', JStr (aa_reservationId a)), (''attempt'', JInt (aa_attempt a))]),
      (''commit'', JObj [(''lsn'', JInt (aa_commitLsn a)), (''envelopeDigest'', JStr (aa_commitEnvelopeDigest a))]),
      (''issuedAt'', JStr (aa_issuedAt a)), (''signature'', signature_json (aa_signature a))]"

record AuthorityError =
  ae_code :: string
  ae_message :: string
  ae_retryable :: bool

definition authorityError_json :: "AuthorityError \<Rightarrow> json" where
  "authorityError_json e = JObj [(''code'', JStr (ae_code e)), (''message'', JStr (ae_message e)),
     (''retryable'', JBool (ae_retryable e))]"

record UsageFinal =
  uf_reportDigest :: Digest
  uf_upToUsageSeq :: int

definition usageFinal_json :: "UsageFinal \<Rightarrow> json" where
  "usageFinal_json u = JObj [(''reportDigest'', JStr (uf_reportDigest u)), (''upToUsageSeq'', JInt (uf_upToUsageSeq u))]"

datatype CancelProofCause =
    FenceCause int string
  | TicketCause Digest string

fun cancelCause_fields :: "CancelProofCause \<Rightarrow> (string \<times> json) list" where
  "cancelCause_fields (FenceCause fenceSeq requestId) =
     [(''cause'', JStr ''owner-fence''),
      (''fence'', JObj [(''fenceSeq'', JInt fenceSeq), (''requestId'', JStr requestId)])]"
| "cancelCause_fields (TicketCause ticketDigest surfacePrincipal) =
     [(''cause'', JStr ''abort-ticket''), (''ticketDigest'', JStr ticketDigest),
      (''surfacePrincipal'', JStr surfacePrincipal)]"

datatype CancelProofDecision =
    NotStartedDecision
  | HaltedDecision int

fun cancelDecision_fields :: "CancelProofDecision \<Rightarrow> (string \<times> json) list" where
  "cancelDecision_fields NotStartedDecision = [(''decision'', JStr ''not-started'')]"
| "cancelDecision_fields (HaltedDecision lastEffectSeq) =
     [(''decision'', JStr ''halted''), (''lastEffectSeq'', JInt lastEffectSeq)]"

record CancelProofBody =
  cp_assignmentId :: string
  cp_executorId :: string
  cp_authority :: AuthorityEpochRef
  cp_lastRecordSeq :: int
  cp_usageFinal :: UsageFinal
  cp_ledgerDigest :: Digest
  cp_issuedAt :: IsoTime
  cp_signature :: ProtocolSignature
  cp_cause :: CancelProofCause
  cp_decision :: CancelProofDecision

definition cancelProof_json :: "CancelProofBody \<Rightarrow> json" where
  "cancelProof_json p = JObj
     ([(''v'', JInt 1), (''assignmentId'', JStr (cp_assignmentId p)), (''executorId'', JStr (cp_executorId p)),
       (''authority'', authorityEpoch_json (cp_authority p)), (''lastRecordSeq'', JInt (cp_lastRecordSeq p)),
       (''usageFinal'', usageFinal_json (cp_usageFinal p)), (''ledgerDigest'', JStr (cp_ledgerDigest p)),
       (''issuedAt'', JStr (cp_issuedAt p)), (''signature'', signature_json (cp_signature p))] @
      cancelCause_fields (cp_cause p) @ cancelDecision_fields (cp_decision p))"

record InteractionSettlementStreamProof =
  sp_assignmentId :: string
  sp_executorId :: string
  sp_ticketDigest :: Digest
  sp_sourceLastSeq :: int
  sp_sourceChainDigest :: Digest
  sp_targetInteractionRecordSeq :: int
  sp_projectedRecordSeq :: int
  sp_upToRecordSeq :: int
  sp_lastStreamSeq :: int
  sp_streamDigest :: Digest
  sp_ledgerChainDigest :: Digest
  sp_signature :: ProtocolSignature

definition streamProof_json :: "InteractionSettlementStreamProof \<Rightarrow> json" where
  "streamProof_json p = JObj
     [(''v'', JInt 2), (''assignmentId'', JStr (sp_assignmentId p)), (''executorId'', JStr (sp_executorId p)),
      (''ticketDigest'', JStr (sp_ticketDigest p)), (''sourceLastSeq'', JInt (sp_sourceLastSeq p)),
      (''sourceChainDigest'', JStr (sp_sourceChainDigest p)),
      (''targetInteractionRecordSeq'', JInt (sp_targetInteractionRecordSeq p)),
      (''projectedRecordSeq'', JInt (sp_projectedRecordSeq p)), (''upToRecordSeq'', JInt (sp_upToRecordSeq p)),
      (''lastStreamSeq'', JInt (sp_lastStreamSeq p)), (''streamDigest'', JStr (sp_streamDigest p)),
      (''ledgerChainDigest'', JStr (sp_ledgerChainDigest p)), (''signature'', signature_json (sp_signature p))]"

section \<open>Interactions and trust sediments\<close>

datatype InteractionDisplay =
    DisplayText string "string list"
  | DisplayRef ArtifactRef

fun display_json :: "InteractionDisplay \<Rightarrow> json" where
  "display_json (DisplayText title lines) = JObj [(''title'', JStr title), (''lines'', JArr (map JStr lines))]"
| "display_json (DisplayRef ref) = JObj [(''ref'', artifactRef_json ref)]"

record AnswerDecision =
  ad_allowed :: bool
  ad_reason :: "string option"

definition answerDecision_json :: "AnswerDecision \<Rightarrow> json" where
  "answerDecision_json d = JObj ([(''allowed'', JBool (ad_allowed d))] @ optField ''reason'' JStr (ad_reason d))"

record ChannelResponderRef =
  ch_channelId :: string
  ch_platformSubject :: string
  ch_tenant :: "string option"

definition responder_json :: "ChannelResponderRef \<Rightarrow> json" where
  "responder_json c = JObj ([(''channelId'', JStr (ch_channelId c)), (''platformSubject'', JStr (ch_platformSubject c))] @
     optField ''tenant'' JStr (ch_tenant c))"

record ChannelChallengeToken =
  ct_challengeId :: string
  ct_ref :: ExecutionRef
  ct_assignmentId :: string
  ct_interactionRequestId :: string
  ct_route :: json
  ct_displayDigest :: Digest
  ct_issuedAt :: IsoTime
  ct_expiry :: IsoTime
  ct_signature :: ProtocolSignature

definition challengeToken_json :: "ChannelChallengeToken \<Rightarrow> json" where
  "challengeToken_json c = JObj
     [(''v'', JInt 1), (''challengeId'', JStr (ct_challengeId c)), (''ref'', executionRef_json (ct_ref c)),
      (''assignmentId'', JStr (ct_assignmentId c)),
      (''interactionRequestId'', JStr (ct_interactionRequestId c)), (''route'', ct_route c),
      (''displayDigest'', JStr (ct_displayDigest c)), (''issuedAt'', JStr (ct_issuedAt c)),
      (''expiry'', JStr (ct_expiry c)), (''signature'', signature_json (ct_signature c))]"

record ChannelInteractionGrant =
  cg_grantId :: string
  cg_ref :: ExecutionRef
  cg_assignmentId :: string
  cg_interactionRequestId :: string
  cg_challengeToken :: ChannelChallengeToken
  cg_route :: json
  cg_responder :: ChannelResponderRef
  cg_decision :: AnswerDecision
  cg_issuedAt :: IsoTime
  cg_expiry :: IsoTime
  cg_signature :: ProtocolSignature

definition channelGrant_json :: "ChannelInteractionGrant \<Rightarrow> json" where
  "channelGrant_json g = JObj
     [(''v'', JInt 1), (''grantId'', JStr (cg_grantId g)), (''ref'', executionRef_json (cg_ref g)),
      (''assignmentId'', JStr (cg_assignmentId g)),
      (''interactionRequestId'', JStr (cg_interactionRequestId g)),
      (''challengeToken'', challengeToken_json (cg_challengeToken g)), (''route'', cg_route g),
      (''responder'', responder_json (cg_responder g)), (''decision'', answerDecision_json (cg_decision g)),
      (''issuedAt'', JStr (cg_issuedAt g)), (''expiry'', JStr (cg_expiry g)),
      (''signature'', signature_json (cg_signature g))]"

datatype InteractionAnswerAuthority =
    SurfaceTicket string
  | ChannelGrant ChannelInteractionGrant

fun answerAuthority_json :: "InteractionAnswerAuthority \<Rightarrow> json" where
  "answerAuthority_json (SurfaceTicket ticketId) =
     JObj [(''via'', JStr ''surface-ticket''), (''ticketId'', JStr ticketId)]"
| "answerAuthority_json (ChannelGrant grant) =
     JObj [(''via'', JStr ''channel-grant''), (''grant'', channelGrant_json grant)]"

datatype AutoResolvedReason = NoInteractiveSurface | PolicyFailClosed

fun autoReason_text :: "AutoResolvedReason \<Rightarrow> string" where
  "autoReason_text NoInteractiveSurface = ''no-interactive-surface''"
| "autoReason_text PolicyFailClosed = ''policy-fail-closed''"

datatype CancelledVia = CancelFence | ViaAbortTicket | RunEnd | Backpressure

fun cancelledVia_text :: "CancelledVia \<Rightarrow> string" where
  "cancelledVia_text CancelFence = ''cancel-fence''"
| "cancelledVia_text ViaAbortTicket = ''abort-ticket''"
| "cancelledVia_text RunEnd = ''run-end''"
| "cancelledVia_text Backpressure = ''backpressure''"

datatype InteractionOutcome =
    Answered InteractionAnswerAuthority AnswerDecision Digest string
  | AutoResolved AutoResolvedReason
  | InteractionCancelled CancelledVia
  | InteractionExpired

fun interactionOutcome_json :: "InteractionOutcome \<Rightarrow> json" where
  "interactionOutcome_json (Answered authority decision decisionDigest by) =
     JObj [(''t'', JStr ''answered''), (''authority'', answerAuthority_json authority),
       (''decision'', answerDecision_json decision), (''decisionDigest'', JStr decisionDigest), (''by'', JStr by)]"
| "interactionOutcome_json (AutoResolved reason) =
     JObj [(''t'', JStr ''auto-resolved''), (''decision'', JStr ''denied''), (''reason'', JStr (autoReason_text reason))]"
| "interactionOutcome_json (InteractionCancelled via) =
     JObj [(''t'', JStr ''cancelled''), (''via'', JStr (cancelledVia_text via))]"
| "interactionOutcome_json InteractionExpired = JObj [(''t'', JStr ''expired'')]"

datatype SedimentRisk = SedimentLow | SedimentMedium | SedimentHigh

fun sedimentRisk_text :: "SedimentRisk \<Rightarrow> string" where
  "sedimentRisk_text SedimentLow = ''low''"
| "sedimentRisk_text SedimentMedium = ''medium''"
| "sedimentRisk_text SedimentHigh = ''high''"

datatype ContributorOrigin = UserOrigin | StewardOrigin

fun contributorOrigin_text :: "ContributorOrigin \<Rightarrow> string" where
  "contributorOrigin_text UserOrigin = ''user''"
| "contributorOrigin_text StewardOrigin = ''steward''"

record SedimentContributor =
  sc_origin :: ContributorOrigin
  sc_timestamp :: int
  sc_requestId :: "string option"

definition contributor_json :: "SedimentContributor \<Rightarrow> json" where
  "contributor_json c = JObj ([(''origin'', JStr (contributorOrigin_text (sc_origin c))),
     (''timestamp'', JInt (sc_timestamp c))] @ optField ''requestId'' JStr (sc_requestId c))"

record TrustSedimentFact =
  ts_patternTool :: string
  ts_patternArgument :: string
  ts_riskLevel :: SedimentRisk
  ts_operationTool :: string
  ts_operationArguments :: "(string \<times> json) list"
  ts_contributors :: "SedimentContributor list"

definition sediment_json :: "TrustSedimentFact \<Rightarrow> json" where
  "sediment_json t = JObj
     [(''pattern'', JObj [(''tool'', JStr (ts_patternTool t)), (''argument'', JStr (ts_patternArgument t))]),
      (''riskLevel'', JStr (sedimentRisk_text (ts_riskLevel t))),
      (''operation'', JObj [(''tool'', JStr (ts_operationTool t)), (''arguments'', JObj (ts_operationArguments t))]),
      (''contributors'', JArr (map contributor_json (ts_contributors t)))]"

section \<open>Ledger records\<close>

datatype MutationDomain = SessionDomain | GlobalDomain

fun mutationDomain_text :: "MutationDomain \<Rightarrow> string" where
  "mutationDomain_text SessionDomain = ''session''"
| "mutationDomain_text GlobalDomain = ''global''"

datatype SideEffectKind = ToolMutation | ExternalCall

fun sideEffectKind_text :: "SideEffectKind \<Rightarrow> string" where
  "sideEffectKind_text ToolMutation = ''tool-mutation''"
| "sideEffectKind_text ExternalCall = ''external-call''"

datatype SideEffectTarget = WorkspaceFile | ExternalService | DeviceSystem

fun sideEffectTarget_text :: "SideEffectTarget \<Rightarrow> string" where
  "sideEffectTarget_text WorkspaceFile = ''workspace-file''"
| "sideEffectTarget_text ExternalService = ''external-service''"
| "sideEffectTarget_text DeviceSystem = ''device-system''"

datatype SideEffectResult = EffectOk | EffectFailed | EffectAborted

fun sideEffectResult_text :: "SideEffectResult \<Rightarrow> string" where
  "sideEffectResult_text EffectOk = ''ok''"
| "sideEffectResult_text EffectFailed = ''failed''"
| "sideEffectResult_text EffectAborted = ''aborted''"

datatype AbortSource =
    OwnerFence
  | AbortTicket string

fun abortSource_fields :: "AbortSource \<Rightarrow> (string \<times> json) list" where
  "abortSource_fields OwnerFence = [(''via'', JStr ''owner-fence'')]"
| "abortSource_fields (AbortTicket surfacePrincipal) =
     [(''via'', JStr ''abort-ticket''), (''surfacePrincipal'', JStr surfacePrincipal)]"

datatype SettlementVersion =
    SettlementV1
  | SettlementV2 "InteractionSettlementStreamProof option"

fun settlement_fields :: "SettlementVersion \<Rightarrow> (string \<times> json) list" where
  "settlement_fields SettlementV1 = [(''settlementVersion'', JInt 1)]"
| "settlement_fields (SettlementV2 proof) =
     [(''settlementVersion'', JInt 2)] @ optField ''streamProof'' streamProof_json proof"

datatype AssignmentRecord =
    Received ArtifactRef AssignmentActivationProof "IsoTime option"
  | DispatchRejected Digest AuthorityError
  | ControlLeaseRenewed ControlLease "IsoTime option"
  | SupersedeFenced int string
  | RunStarted
  | InteractionRequested string string InteractionDisplay IsoTime int IsoTime
  | InteractionFinished string InteractionOutcome
  | TrustSediment string TrustSedimentFact
  | StagedMutation int MutationDomain json string "int option"
  | SideEffectStarted int SideEffectKind string string SideEffectTarget
  | SideEffectCompleted int SideEffectResult "Digest option"
  | AbortRequested AbortSource string
  | Halted CancelProofBody
  | ExecutionFailed string UsageFinal
  | BundleSealed ArtifactRef "ArtifactRef option"
  | Acked int
  | Mirrored int int Digest
  | StreamProjectionEnabled int
  | StreamProjected string int int Digest
  | CancelProofOwnerAccepted
  | SettlementOwnerAccepted string Digest SettlementVersion

record AssignmentEntry =
  en_recordSeq :: int
  en_body :: AssignmentRecord

section \<open>The JSON form of an entry\<close>

definition tagged :: "int \<Rightarrow> string \<Rightarrow> (string \<times> json) list \<Rightarrow> json" where
  "tagged v t body = JObj ([(''v'', JInt v), (''t'', JStr t)] @ body)"

definition acceptedVersion :: "IsoTime option \<Rightarrow> int" where
  "acceptedVersion acceptedAt = (case acceptedAt of None \<Rightarrow> 1 | Some _ \<Rightarrow> 3)"

fun record_json :: "AssignmentRecord \<Rightarrow> json" where
  "record_json (Received ref activation acceptedAt) =
     tagged (acceptedVersion acceptedAt) ''received''
       ([(''envelope'', JObj [(''ref'', artifactRef_json ref)]), (''activation'', activation_json activation)] @
        optField ''effectiveAcceptedAt'' JStr acceptedAt)"
| "record_json (DispatchRejected dispatchDigest reason) =
     tagged 1 ''dispatch-rejected'' [(''dispatchDigest'', JStr dispatchDigest), (''reason'', authorityError_json reason)]"
| "record_json (ControlLeaseRenewed lease acceptedAt) =
     tagged (acceptedVersion acceptedAt) ''control-lease-renewed''
       ([(''lease'', controlLease_json lease)] @ optField ''effectiveAcceptedAt'' JStr acceptedAt)"
| "record_json (SupersedeFenced fenceSeq requestId) =
     tagged 1 ''supersede-fenced'' [(''fenceSeq'', JInt fenceSeq), (''requestId'', JStr requestId)]"
| "record_json RunStarted = tagged 1 ''started'' []"
| "record_json (InteractionRequested requestId toolName display issuedAt ttlMs expiresAt) =
     tagged 1 ''interaction-requested''
       [(''requestId'', JStr requestId), (''kind'', JStr ''allow-once''), (''toolName'', JStr toolName),
        (''display'', display_json display), (''issuedAt'', JStr issuedAt), (''ttlMs'', JInt ttlMs),
        (''expiresAt'', JStr expiresAt)]"
| "record_json (InteractionFinished requestId outcome) =
     tagged 1 ''interaction-finished''
       [(''requestId'', JStr requestId), (''kind'', JStr ''allow-once''), (''outcome'', interactionOutcome_json outcome)]"
| "record_json (TrustSediment requestId sediment) =
     tagged 1 ''trust-sediment'' [(''requestId'', JStr requestId), (''sediment'', sediment_json sediment)]"
| "record_json (StagedMutation sequence domain mutation requestId expected) =
     tagged 1 ''staged-mutation''
       ([(''seq'', JInt sequence), (''domain'', JStr (mutationDomain_text domain)), (''mutation'', mutation),
         (''requestId'', JStr requestId)] @
        optField ''expected'' (\<lambda>e. JObj [(''anchorEpoch'', JInt e)]) expected)"
| "record_json (SideEffectStarted effectSeq kind toolName summary target) =
     tagged 1 ''side-effect-started''
       [(''effectSeq'', JInt effectSeq), (''kind'', JStr (sideEffectKind_text kind)), (''toolName'', JStr toolName),
        (''summary'', JStr summary), (''target'', JStr (sideEffectTarget_text target))]"
| "record_json (SideEffectCompleted effectSeq status resultDigest) =
     tagged 1 ''side-effect-completed''
       ([(''effectSeq'', JInt effectSeq), (''status'', JStr (sideEffectResult_text status))] @
        optField ''resultDigest'' JStr resultDigest)"
| "record_json (AbortRequested source refId) =
     tagged 1 ''abort-requested'' ([(''refId'', JStr refId)] @ abortSource_fields source)"
| "record_json (Halted proof) = tagged 1 ''halted'' [(''proof'', cancelProof_json proof)]"
| "record_json (ExecutionFailed reason usageFinal) =
     tagged 1 ''execution-failed'' [(''reason'', JStr reason), (''usageFinal'', usageFinal_json usageFinal)]"
| "record_json (BundleSealed ref mutationBatch) =
     tagged 1 ''bundle_sealed''
       ([(''bundle'', JObj [(''ref'', artifactRef_json ref)])] @
        optField ''mutationBatch'' (\<lambda>r. JObj [(''ref'', artifactRef_json r)]) mutationBatch)"
| "record_json (Acked commitRevision) = tagged 1 ''acked'' [(''commitRevision'', JInt commitRevision)]"
| "record_json (Mirrored upTo ordinal mirrorDigest) =
     tagged 1 ''mirrored''
       [(''upTo'', JInt upTo), (''ordinal'', JInt ordinal), (''mirrorDigest'', JStr mirrorDigest)]"
| "record_json (StreamProjectionEnabled legacyUpToRecordSeq) =
     tagged 2 ''interaction-stream-projection-enabled'' [(''legacyUpToRecordSeq'', JInt legacyUpToRecordSeq)]"
| "record_json (StreamProjected assignmentId upToRecordSeq lastStreamSeq streamDigest) =
     tagged 2 ''interaction-stream-projected''
       [(''assignmentId'', JStr assignmentId), (''upToRecordSeq'', JInt upToRecordSeq),
        (''lastStreamSeq'', JInt lastStreamSeq), (''streamDigest'', JStr streamDigest)]"
| "record_json CancelProofOwnerAccepted = tagged 2 ''cancel-proof-owner-accepted'' []"
| "record_json (SettlementOwnerAccepted assignmentId ticketDigest settlement) =
     tagged 2 ''interaction-settlement-owner-accepted''
       ([(''assignmentId'', JStr assignmentId), (''ticketDigest'', JStr ticketDigest)] @ settlement_fields settlement)"

definition entry_json :: "AssignmentEntry \<Rightarrow> json" where
  "entry_json e = JObj [(''recordSeq'', JInt (en_recordSeq e)), (''body'', record_json (en_body e))]"

end
