(* ===== verification/Ledger_State.thy ===== *)
theory Ledger_State
  imports Ledger_Types
begin

text \<open>
  The canonical state machine of an assignment ledger
  (\<^verbatim>\<open>packages/core/src/protocol/assignment.ts\<close>): its validation state, the two digest chains,
  and \<^verbatim>\<open>applyValidatedAssignmentEntry\<close> with one definition per record. The executor replays
  its own log with it and the owner replays the evidence that it receives. Every caller
  gives up the state when an entry is refused, so a refusal is a value without a state.
  Sets and maps keep the order of insertion.
\<close>

section \<open>State\<close>

datatype LedgerPhase =
    UnknownPhase | ReceivedPhase | DispatchRejectedPhase | SupersedeFencedPhase | StartedPhase
  | HaltedPhase | FailedPhase | SealedPhase | AckedPhase

record LedgerControl =
  lc_authority :: AuthorityEpochRef
  lc_ownerDeviceId :: string
  lc_controlLeaseId :: string
  lc_renewalSeq :: int

record LedgerAbort =
  ab_via :: AbortSource
  ab_refId :: string
  ab_recordSeq :: int
  ab_ledgerDigest :: Digest

record MirrorCheckpoint =
  mc_ordinal :: int
  mc_mirrorDigest :: Digest

record AssignmentLedgerValidationState =
  vs_assignmentId :: string
  vs_executorId :: "string option"
  vs_lastSeq :: int
  vs_chainDigest :: Digest
  vs_phase :: LedgerPhase
  vs_ref :: "ExecutionRef option"
  vs_received :: bool
  vs_started :: bool
  vs_control :: "LedgerControl option"
  vs_aborts :: "(string, LedgerAbort) omap"
  vs_requestedInteractions :: "string list"
  vs_pendingInteractions :: "string list"
  vs_unmirroredFinished :: "(int, MirrorCheckpoint) omap"
  vs_unprojectedFinished :: "int list"
  vs_finishedInteractionCount :: int
  vs_interactionMirrorDigest :: Digest
  vs_mirroredInteractionOrdinal :: int
  vs_streamProjectionEnabledAfter :: "int option"
  vs_streamProjectedUpTo :: int
  vs_lastInteractionStreamSeq :: int
  vs_interactionStreamDigest :: "Digest option"
  vs_lastFinishedInteractionRecordSeq :: int
  vs_lastStreamProjectionRecordSeq :: "int option"
  vs_lastStreamProjectionLedgerDigest :: "Digest option"
  vs_cancelProofOwnerAccepted :: bool
  vs_interactionSettlementOwnerAccepted :: "AssignmentRecord option"
  vs_stagedMutationCount :: int
  vs_trustSedimentCount :: int
  vs_mutationRequestIds :: "string list"
  vs_sideEffectCount :: int
  vs_openSideEffects :: "int list"
  vs_mirroredUpTo :: int

section \<open>Refusals\<close>

datatype LedgerError =
    NotCanonical canonicalError
  | IdentifierExpected
  | DigestExpected
  | PositiveIntegerExpected
  | SedimentPatternTool
  | SedimentPatternArgument
  | SedimentOperationTool
  | SedimentContributors
  | SedimentTime
  | SedimentIdentity
  | NotContiguous
  | ReceivedNotFirst
  | ReceivedUnbound
  | RejectedWithoutControl
  | LeaseOfOtherAssignment
  | LeaseConflict
  | FenceWithoutPrefix
  | StartedWithoutReceived
  | ProjectionNotBoundary
  | RequestOutsideStarted
  | RequestDuplicated
  | ResultMissing
  | GrantUnbound
  | JobAnswerNeedsGrant
  | SedimentOutsideStarted
  | SedimentNotNext
  | MutationOutsideStarted
  | MutationNotNext
  | EffectOutsideSequence
  | EffectMissing
  | AbortOutsideCancellable
  | AbortUnauthorized
  | AbortDuplicated
  | HaltedUnsettled
  | NoPendingCancelProof
  | SettlementObligation
  | SettlementUnbound
  | FailedUnclean
  | SealedUnclean
  | AckedUnsealed
  | MirroredNothingNew
  | MirroredSkips
  | ProjectedNothingNew

section \<open>Checks\<close>

definition isSafeInteger :: "int \<Rightarrow> bool" where
  "isSafeInteger i \<longleftrightarrow> \<bar>i\<bar> \<le> 2 ^ 53 - 1"

definition assertPositiveInteger :: "int \<Rightarrow> (LedgerError, unit) result" where
  "assertPositiveInteger i = throwIf (\<not> isSafeInteger i \<or> i \<le> 0) PositiveIntegerExpected"

definition isProtocolIdentifier :: "string \<Rightarrow> bool" where
  "isProtocolIdentifier s \<longleftrightarrow> 0 < js_length s \<and> js_length s \<le> 480"

definition assertIdentifier :: "string \<Rightarrow> (LedgerError, unit) result" where
  "assertIdentifier s = throwIf (\<not> isProtocolIdentifier s) IdentifierExpected"

definition isLowerHex :: "char \<Rightarrow> bool" where
  "isLowerHex c = (let n = of_char c :: nat in (48 \<le> n \<and> n \<le> 57) \<or> (97 \<le> n \<and> n \<le> 102))"

definition isHexDigest :: "string \<Rightarrow> bool" where
  "isHexDigest h \<longleftrightarrow> length h = 64 \<and> list_all isLowerHex h"

definition isDigest :: "string \<Rightarrow> bool" where
  "isDigest s \<longleftrightarrow> take 7 s = ''sha256:'' \<and> isHexDigest (drop 7 s)"

definition assertDigest :: "string \<Rightarrow> (LedgerError, unit) result" where
  "assertDigest s = throwIf (\<not> isDigest s) DigestExpected"

definition sameText :: "json \<Rightarrow> json \<Rightarrow> bool" where
  "sameText a b \<longleftrightarrow> canonicalize a = canonicalize b"

definition maxTrustSedimentContributors :: nat where
  "maxTrustSedimentContributors = 256"

definition maxTrustPatternLength :: nat where
  "maxTrustPatternLength = 8192"

fun checkContributors :: "SedimentContributor list \<Rightarrow> (LedgerError, unit) result" where
  "checkContributors [] = Inr ()"
| "checkContributors (c # cs) =
     andThen (throwIf (sc_timestamp c < 0) SedimentTime) (\<lambda>_.
     andThen (case sc_requestId c of None \<Rightarrow> Inr () | Some r \<Rightarrow> assertIdentifier r) (\<lambda>_.
       checkContributors cs))"

definition validateTrustSedimentFact :: "TrustSedimentFact \<Rightarrow> (LedgerError, unit) result" where
  "validateTrustSedimentFact t =
     andThen (throwIf (ts_patternTool t = [] \<or> 256 < js_length (ts_patternTool t)) SedimentPatternTool) (\<lambda>_.
     andThen (throwIf (maxTrustPatternLength < js_length (ts_patternArgument t)) SedimentPatternArgument) (\<lambda>_.
     andThen (throwIf (ts_operationTool t = [] \<or> 256 < js_length (ts_operationTool t)) SedimentOperationTool) (\<lambda>_.
     andThen (throwIf (ts_contributors t = [] \<or> maxTrustSedimentContributors < length (ts_contributors t))
       SedimentContributors) (\<lambda>_.
       checkContributors (ts_contributors t)))))"

section \<open>Digests\<close>

definition ledgerDigest :: "(string \<Rightarrow> string) \<Rightarrow> string \<Rightarrow> json \<Rightarrow> (LedgerError, Digest) result" where
  "ledgerDigest sha schemaId payload = (case protocolDigest sha schemaId 1 payload of
     Inl e \<Rightarrow> Inl (NotCanonical e) | Inr d \<Rightarrow> Inr d)"

definition assignmentLedgerSeed :: "(string \<Rightarrow> string) \<Rightarrow> string \<Rightarrow> (LedgerError, Digest) result" where
  "assignmentLedgerSeed sha assignmentId =
     andThen (assertIdentifier assignmentId) (\<lambda>_.
       ledgerDigest sha ''AssignmentLedgerSeed'' (JObj [(''assignmentId'', JStr assignmentId)]))"

definition interactionMirrorSeed :: "(string \<Rightarrow> string) \<Rightarrow> string \<Rightarrow> (LedgerError, Digest) result" where
  "interactionMirrorSeed sha assignmentId =
     andThen (assertIdentifier assignmentId) (\<lambda>_.
       ledgerDigest sha ''InteractionMirrorSeed'' (JObj [(''assignmentId'', JStr assignmentId)]))"

definition advanceAssignmentLedger ::
  "(string \<Rightarrow> string) \<Rightarrow> Digest \<Rightarrow> AssignmentEntry \<Rightarrow> (LedgerError, Digest) result" where
  "advanceAssignmentLedger sha previous entry =
     andThen (assertDigest previous) (\<lambda>_.
     andThen (assertPositiveInteger (en_recordSeq entry)) (\<lambda>_.
       ledgerDigest sha ''AssignmentLedgerStep''
         (JObj [(''previous'', JStr previous), (''entry'', entry_json entry)])))"

text \<open>An entry of the mirror chain without its time: an answer, or a trust sediment.\<close>

datatype MirrorContent =
    AnswerContent InteractionOutcome
  | SedimentContent TrustSedimentFact

record InteractionMirrorEntry =
  me_ordinal :: int
  me_seq :: int
  me_requestId :: string
  me_content :: MirrorContent

fun mirrorContent_fields :: "MirrorContent \<Rightarrow> (string \<times> json) list" where
  "mirrorContent_fields (AnswerContent outcome) =
     [(''kind'', JStr ''allow-once''), (''outcome'', interactionOutcome_json outcome)]"
| "mirrorContent_fields (SedimentContent sediment) =
     [(''kind'', JStr ''trust-sediment''), (''sediment'', sediment_json sediment)]"

definition mirrorEntry_json :: "InteractionMirrorEntry \<Rightarrow> json" where
  "mirrorEntry_json m = JObj
     ([(''ordinal'', JInt (me_ordinal m)), (''seq'', JInt (me_seq m)), (''requestId'', JStr (me_requestId m))] @
      mirrorContent_fields (me_content m))"

definition trustSedimentRequestPrefix :: string where
  "trustSedimentRequestPrefix = ''trust-sediment:''"

definition checkMirrorContent :: "InteractionMirrorEntry \<Rightarrow> (LedgerError, unit) result" where
  "checkMirrorContent m = (case me_content m of
     AnswerContent _ \<Rightarrow> Inr ()
   | SedimentContent sediment \<Rightarrow>
       andThen (validateTrustSedimentFact sediment) (\<lambda>_.
         throwIf (take (length trustSedimentRequestPrefix) (me_requestId m) \<noteq> trustSedimentRequestPrefix)
           SedimentIdentity))"

definition advanceAssignmentInteractionMirrorDigest ::
  "(string \<Rightarrow> string) \<Rightarrow> Digest \<Rightarrow> InteractionMirrorEntry \<Rightarrow> (LedgerError, Digest) result" where
  "advanceAssignmentInteractionMirrorDigest sha previous m =
     andThen (assertDigest previous) (\<lambda>_.
     andThen (assertPositiveInteger (me_ordinal m)) (\<lambda>_.
     andThen (assertPositiveInteger (me_seq m)) (\<lambda>_.
     andThen (assertIdentifier (me_requestId m)) (\<lambda>_.
     andThen (checkMirrorContent m) (\<lambda>_.
       ledgerDigest sha ''InteractionMirrorStep''
         (JObj [(''previous'', JStr previous), (''entry'', mirrorEntry_json m)]))))))"

section \<open>The empty ledger\<close>

definition createAssignmentLedgerValidationState ::
  "(string \<Rightarrow> string) \<Rightarrow> string \<Rightarrow> (LedgerError, AssignmentLedgerValidationState) result" where
  "createAssignmentLedgerValidationState sha assignmentId =
     andThen (assertIdentifier assignmentId) (\<lambda>_.
     andThen (assignmentLedgerSeed sha assignmentId) (\<lambda>chain.
     andThen (interactionMirrorSeed sha assignmentId) (\<lambda>mirror.
       Inr \<lparr>vs_assignmentId = assignmentId, vs_executorId = None, vs_lastSeq = 0, vs_chainDigest = chain,
         vs_phase = UnknownPhase, vs_ref = None, vs_received = False, vs_started = False, vs_control = None,
         vs_aborts = [], vs_requestedInteractions = [], vs_pendingInteractions = [], vs_unmirroredFinished = [],
         vs_unprojectedFinished = [], vs_finishedInteractionCount = 0, vs_interactionMirrorDigest = mirror,
         vs_mirroredInteractionOrdinal = 0, vs_streamProjectionEnabledAfter = None, vs_streamProjectedUpTo = 0,
         vs_lastInteractionStreamSeq = 0, vs_interactionStreamDigest = None,
         vs_lastFinishedInteractionRecordSeq = 0, vs_lastStreamProjectionRecordSeq = None,
         vs_lastStreamProjectionLedgerDigest = None, vs_cancelProofOwnerAccepted = False,
         vs_interactionSettlementOwnerAccepted = None, vs_stagedMutationCount = 0, vs_trustSedimentCount = 0,
         vs_mutationRequestIds = [], vs_sideEffectCount = 0, vs_openSideEffects = [], vs_mirroredUpTo = 0\<rparr>)))"

definition interactionSettlementNeedsStreamProof :: "AssignmentLedgerValidationState \<Rightarrow> bool" where
  "interactionSettlementNeedsStreamProof s = (case vs_streamProjectionEnabledAfter s of
     None \<Rightarrow> False | Some after \<Rightarrow> after < vs_lastFinishedInteractionRecordSeq s)"

section \<open>Transitions\<close>

definition setAdd :: "'a \<Rightarrow> 'a list \<Rightarrow> 'a list" where
  "setAdd x xs = (if x \<in> set xs then xs else xs @ [x])"

definition boundControl :: "AssignmentLedgerValidationState \<Rightarrow> AssignmentActivationProof \<Rightarrow> bool" where
  "boundControl s activation = (case vs_control s of
     None \<Rightarrow> False
   | Some c \<Rightarrow>
       sameText (authorityEpoch_json (lc_authority c))
         (authorityEpoch_json (authorityForExecutionRef (aa_ref activation))) \<and>
       lc_ownerDeviceId c = sg_keyId (aa_signature activation))"

definition applyReceived ::
  "AssignmentLedgerValidationState \<Rightarrow> AssignmentActivationProof \<Rightarrow> (LedgerError, AssignmentLedgerValidationState) result" where
  "applyReceived s activation =
     andThen (throwIf (vs_phase s \<noteq> UnknownPhase \<or> vs_aborts s \<noteq> []) ReceivedNotFirst) (\<lambda>_.
     andThen (throwIf (\<not> boundControl s activation) ReceivedUnbound) (\<lambda>_.
       Inr (s\<lparr>vs_phase := ReceivedPhase, vs_received := True, vs_ref := Some (aa_ref activation),
         vs_executorId := Some (aa_executorId activation)\<rparr>)))"

definition applyDispatchRejected ::
  "AssignmentLedgerValidationState \<Rightarrow> (LedgerError, AssignmentLedgerValidationState) result" where
  "applyDispatchRejected s =
     andThen (throwIf (vs_phase s \<noteq> UnknownPhase \<or> vs_aborts s \<noteq> [] \<or> vs_control s = None)
       RejectedWithoutControl) (\<lambda>_.
       Inr (s\<lparr>vs_phase := DispatchRejectedPhase\<rparr>))"

definition leaseConflicts :: "LedgerControl \<Rightarrow> ControlLease \<Rightarrow> bool" where
  "leaseConflicts c lease \<longleftrightarrow>
     \<not> sameText (authorityEpoch_json (lc_authority c)) (authorityEpoch_json (cl_authority lease)) \<or>
     lc_ownerDeviceId c \<noteq> sg_keyId (cl_signature lease) \<or>
     lc_controlLeaseId c \<noteq> cl_controlLeaseId lease \<or>
     cl_renewalSeq lease \<le> lc_renewalSeq c"

definition applyControlLease ::
  "AssignmentLedgerValidationState \<Rightarrow> ControlLease \<Rightarrow> (LedgerError, AssignmentLedgerValidationState) result" where
  "applyControlLease s lease =
     andThen (throwIf (cl_assignmentId lease \<noteq> vs_assignmentId s) LeaseOfOtherAssignment) (\<lambda>_.
     andThen (throwIf (case vs_control s of None \<Rightarrow> False | Some c \<Rightarrow> leaseConflicts c lease) LeaseConflict) (\<lambda>_.
       Inr (s\<lparr>vs_control := Some \<lparr>lc_authority = cl_authority lease,
         lc_ownerDeviceId = sg_keyId (cl_signature lease), lc_controlLeaseId = cl_controlLeaseId lease,
         lc_renewalSeq = cl_renewalSeq lease\<rparr>\<rparr>)))"

definition applySupersedeFenced ::
  "AssignmentLedgerValidationState \<Rightarrow> (LedgerError, AssignmentLedgerValidationState) result" where
  "applySupersedeFenced s =
     andThen (throwIf ((vs_phase s \<noteq> UnknownPhase \<and> vs_phase s \<noteq> ReceivedPhase) \<or> vs_aborts s \<noteq> [] \<or>
       vs_control s = None) FenceWithoutPrefix) (\<lambda>_.
       Inr (s\<lparr>vs_phase := SupersedeFencedPhase\<rparr>))"

definition applyStarted ::
  "AssignmentLedgerValidationState \<Rightarrow> (LedgerError, AssignmentLedgerValidationState) result" where
  "applyStarted s =
     andThen (throwIf (vs_phase s \<noteq> ReceivedPhase \<or> vs_aborts s \<noteq> []) StartedWithoutReceived) (\<lambda>_.
       Inr (s\<lparr>vs_phase := StartedPhase, vs_started := True\<rparr>))"

definition applyProjectionEnabled ::
  "AssignmentLedgerValidationState \<Rightarrow> int \<Rightarrow> int \<Rightarrow> (LedgerError, AssignmentLedgerValidationState) result" where
  "applyProjectionEnabled s recordSeq legacyUpTo =
     andThen (throwIf (\<not> isJob (vs_ref s) \<or> vs_streamProjectionEnabledAfter s \<noteq> None \<or> legacyUpTo \<noteq> recordSeq - 1)
       ProjectionNotBoundary) (\<lambda>_.
       Inr (s\<lparr>vs_streamProjectionEnabledAfter := Some legacyUpTo, vs_streamProjectedUpTo := legacyUpTo\<rparr>))"

definition applyInteractionRequested ::
  "AssignmentLedgerValidationState \<Rightarrow> string \<Rightarrow> (LedgerError, AssignmentLedgerValidationState) result" where
  "applyInteractionRequested s requestId =
     andThen (throwIf (vs_phase s \<noteq> StartedPhase \<or> vs_aborts s \<noteq> []) RequestOutsideStarted) (\<lambda>_.
     andThen (throwIf (requestId \<in> set (vs_requestedInteractions s)) RequestDuplicated) (\<lambda>_.
       Inr (s\<lparr>vs_requestedInteractions := setAdd requestId (vs_requestedInteractions s),
         vs_pendingInteractions := setAdd requestId (vs_pendingInteractions s)\<rparr>)))"

text \<open>A job is answered over a channel, by a grant bound to this assignment and request.\<close>

definition grantBound ::
  "AssignmentLedgerValidationState \<Rightarrow> string \<Rightarrow> ChannelInteractionGrant \<Rightarrow> bool" where
  "grantBound s requestId grant \<longleftrightarrow>
     isJob (vs_ref s) \<and>
     (case vs_ref s of None \<Rightarrow> False
      | Some ref \<Rightarrow> sameText (executionRef_json (cg_ref grant)) (executionRef_json ref)) \<and>
     cg_assignmentId grant = vs_assignmentId s \<and> cg_interactionRequestId grant = requestId"

definition checkAnswer ::
  "AssignmentLedgerValidationState \<Rightarrow> string \<Rightarrow> InteractionOutcome \<Rightarrow> (LedgerError, unit) result" where
  "checkAnswer s requestId outcome = (case outcome of
     Answered (ChannelGrant grant) _ _ _ \<Rightarrow> throwIf (\<not> grantBound s requestId grant) GrantUnbound
   | Answered (SurfaceTicket _) _ _ _ \<Rightarrow> throwIf (isJob (vs_ref s)) JobAnswerNeedsGrant
   | _ \<Rightarrow> Inr ())"

text \<open>The part that answers and sediments share: the next link of the mirror chain.\<close>

definition extendMirror ::
  "(string \<Rightarrow> string) \<Rightarrow> AssignmentLedgerValidationState \<Rightarrow> int \<Rightarrow> string \<Rightarrow> MirrorContent \<Rightarrow>
   (LedgerError, AssignmentLedgerValidationState) result" where
  "extendMirror sha s recordSeq requestId content =
     (let ordinal = vs_finishedInteractionCount s + 1 in
     andThen (advanceAssignmentInteractionMirrorDigest sha (vs_interactionMirrorDigest s)
         \<lparr>me_ordinal = ordinal, me_seq = recordSeq, me_requestId = requestId, me_content = content\<rparr>) (\<lambda>d.
       Inr (s\<lparr>vs_finishedInteractionCount := ordinal, vs_interactionMirrorDigest := d,
         vs_unmirroredFinished := omap_set recordSeq \<lparr>mc_ordinal = ordinal, mc_mirrorDigest = d\<rparr>
           (vs_unmirroredFinished s)\<rparr>)))"

definition oweProjection :: "AssignmentLedgerValidationState \<Rightarrow> int \<Rightarrow> AssignmentLedgerValidationState" where
  "oweProjection s recordSeq = (case vs_streamProjectionEnabledAfter s of
     None \<Rightarrow> s
   | Some after \<Rightarrow>
       if after < recordSeq
       then s\<lparr>vs_unprojectedFinished := setAdd recordSeq (vs_unprojectedFinished s)\<rparr> else s)"

definition applyInteractionFinished ::
  "(string \<Rightarrow> string) \<Rightarrow> AssignmentLedgerValidationState \<Rightarrow> int \<Rightarrow> string \<Rightarrow> InteractionOutcome \<Rightarrow>
   (LedgerError, AssignmentLedgerValidationState) result" where
  "applyInteractionFinished sha s recordSeq requestId outcome =
     andThen (throwIf (requestId \<notin> set (vs_pendingInteractions s)) ResultMissing) (\<lambda>_.
     andThen (checkAnswer s requestId outcome) (\<lambda>_.
     andThen (extendMirror sha
         (s\<lparr>vs_pendingInteractions := removeAll requestId (vs_pendingInteractions s),
            vs_lastFinishedInteractionRecordSeq := recordSeq\<rparr>)
         recordSeq requestId (AnswerContent outcome)) (\<lambda>s'.
       Inr (oweProjection s' recordSeq))))"

definition applyTrustSediment ::
  "(string \<Rightarrow> string) \<Rightarrow> AssignmentLedgerValidationState \<Rightarrow> int \<Rightarrow> string \<Rightarrow> TrustSedimentFact \<Rightarrow>
   (LedgerError, AssignmentLedgerValidationState) result" where
  "applyTrustSediment sha s recordSeq requestId sediment =
     andThen (throwIf (vs_phase s \<noteq> StartedPhase \<or> vs_aborts s \<noteq> []) SedimentOutsideStarted) (\<lambda>_.
     andThen (throwIf (requestId \<noteq> trustSedimentRequestPrefix @ show_int (vs_trustSedimentCount s + 1))
       SedimentNotNext) (\<lambda>_.
       extendMirror sha (s\<lparr>vs_trustSedimentCount := vs_trustSedimentCount s + 1\<rparr>) recordSeq requestId
         (SedimentContent sediment)))"

definition applyStagedMutation ::
  "AssignmentLedgerValidationState \<Rightarrow> int \<Rightarrow> string \<Rightarrow> (LedgerError, AssignmentLedgerValidationState) result" where
  "applyStagedMutation s sequence requestId =
     andThen (throwIf (vs_phase s \<noteq> StartedPhase \<or> vs_aborts s \<noteq> []) MutationOutsideStarted) (\<lambda>_.
     andThen (throwIf (sequence \<noteq> vs_stagedMutationCount s + 1 \<or> requestId \<in> set (vs_mutationRequestIds s))
       MutationNotNext) (\<lambda>_.
       Inr (s\<lparr>vs_stagedMutationCount := sequence,
         vs_mutationRequestIds := setAdd requestId (vs_mutationRequestIds s)\<rparr>)))"

definition applySideEffectStarted ::
  "AssignmentLedgerValidationState \<Rightarrow> int \<Rightarrow> (LedgerError, AssignmentLedgerValidationState) result" where
  "applySideEffectStarted s effectSeq =
     andThen (throwIf (vs_phase s \<noteq> StartedPhase \<or> vs_aborts s \<noteq> [] \<or> effectSeq \<noteq> vs_sideEffectCount s + 1)
       EffectOutsideSequence) (\<lambda>_.
       Inr (s\<lparr>vs_sideEffectCount := effectSeq, vs_openSideEffects := setAdd effectSeq (vs_openSideEffects s)\<rparr>))"

definition applySideEffectCompleted ::
  "AssignmentLedgerValidationState \<Rightarrow> int \<Rightarrow> (LedgerError, AssignmentLedgerValidationState) result" where
  "applySideEffectCompleted s effectSeq =
     andThen (throwIf (effectSeq \<notin> set (vs_openSideEffects s)) EffectMissing) (\<lambda>_.
       Inr (s\<lparr>vs_openSideEffects := removeAll effectSeq (vs_openSideEffects s)\<rparr>))"

fun abortVia :: "AbortSource \<Rightarrow> string" where
  "abortVia OwnerFence = ''owner-fence''"
| "abortVia (AbortTicket _) = ''abort-ticket''"

definition abortKey :: "string \<Rightarrow> string \<Rightarrow> string" where
  "abortKey via refId = via @ [CHR 0x00] @ refId"

definition applyAbortRequested ::
  "AssignmentLedgerValidationState \<Rightarrow> int \<Rightarrow> Digest \<Rightarrow> AbortSource \<Rightarrow> string \<Rightarrow>
   (LedgerError, AssignmentLedgerValidationState) result" where
  "applyAbortRequested s recordSeq nextDigest source refId =
     andThen (throwIf (vs_phase s \<noteq> UnknownPhase \<and> vs_phase s \<noteq> ReceivedPhase \<and> vs_phase s \<noteq> StartedPhase)
       AbortOutsideCancellable) (\<lambda>_.
     andThen (throwIf (case source of OwnerFence \<Rightarrow> vs_control s = None | AbortTicket _ \<Rightarrow> \<not> vs_received s)
       AbortUnauthorized) (\<lambda>_.
     andThen (throwIf (omap_get (vs_aborts s) (abortKey (abortVia source) refId) \<noteq> None) AbortDuplicated) (\<lambda>_.
       Inr (s\<lparr>vs_aborts := omap_set (abortKey (abortVia source) refId)
         \<lparr>ab_via = source, ab_refId = refId, ab_recordSeq = recordSeq, ab_ledgerDigest = nextDigest\<rparr>
         (vs_aborts s)\<rparr>))))"

definition matchingAbort :: "AssignmentLedgerValidationState \<Rightarrow> CancelProofCause \<Rightarrow> bool" where
  "matchingAbort s cause = (case cause of
     FenceCause _ requestId \<Rightarrow>
       (case omap_get (vs_aborts s) (abortKey ''owner-fence'' requestId) of
          Some a \<Rightarrow> ab_via a = OwnerFence | None \<Rightarrow> False)
   | TicketCause ticketDigest surfacePrincipal \<Rightarrow>
       (case omap_get (vs_aborts s) (abortKey ''abort-ticket'' ticketDigest) of
          Some a \<Rightarrow> ab_via a = AbortTicket surfacePrincipal | None \<Rightarrow> False))"

definition closesCancellablePhase :: "AssignmentLedgerValidationState \<Rightarrow> CancelProofDecision \<Rightarrow> bool" where
  "closesCancellablePhase s decision = (case decision of
     NotStartedDecision \<Rightarrow> \<not> vs_started s \<and> (vs_phase s = UnknownPhase \<or> vs_phase s = ReceivedPhase)
   | HaltedDecision _ \<Rightarrow> vs_started s \<and> vs_phase s = StartedPhase)"

definition applyHalted ::
  "AssignmentLedgerValidationState \<Rightarrow> int \<Rightarrow> CancelProofBody \<Rightarrow> (LedgerError, AssignmentLedgerValidationState) result" where
  "applyHalted s recordSeq proof =
     andThen (throwIf (vs_aborts s = [] \<or> \<not> matchingAbort s (cp_cause proof) \<or>
         \<not> closesCancellablePhase s (cp_decision proof) \<or>
         vs_pendingInteractions s \<noteq> [] \<or> vs_unmirroredFinished s \<noteq> [] \<or> vs_unprojectedFinished s \<noteq> [] \<or>
         vs_openSideEffects s \<noteq> [] \<or>
         cp_assignmentId proof \<noteq> vs_assignmentId s \<or> cp_lastRecordSeq proof \<noteq> recordSeq - 1 \<or>
         cp_ledgerDigest proof \<noteq> vs_chainDigest s \<or>
         (case cp_decision proof of
            HaltedDecision lastEffectSeq \<Rightarrow> lastEffectSeq \<noteq> vs_sideEffectCount s | NotStartedDecision \<Rightarrow> False))
       HaltedUnsettled) (\<lambda>_.
       Inr (s\<lparr>vs_phase := HaltedPhase\<rparr>))"

fun isTicket :: "AbortSource \<Rightarrow> bool" where
  "isTicket (AbortTicket _) = True"
| "isTicket OwnerFence = False"

definition applyCancelProofAccepted ::
  "AssignmentLedgerValidationState \<Rightarrow> (LedgerError, AssignmentLedgerValidationState) result" where
  "applyCancelProofAccepted s =
     andThen (throwIf (vs_ref s = None \<or> vs_phase s \<noteq> HaltedPhase \<or> vs_cancelProofOwnerAccepted s \<or>
         \<not> list_ex (\<lambda>a. isTicket (ab_via a)) (omap_values (vs_aborts s)))
       NoPendingCancelProof) (\<lambda>_.
       Inr (s\<lparr>vs_cancelProofOwnerAccepted := True\<rparr>))"

definition proofOf :: "SettlementVersion \<Rightarrow> InteractionSettlementStreamProof option" where
  "proofOf settlement = (case settlement of SettlementV1 \<Rightarrow> None | SettlementV2 proof \<Rightarrow> proof)"

definition proofBound ::
  "AssignmentLedgerValidationState \<Rightarrow> Digest \<Rightarrow> LedgerAbort \<Rightarrow> InteractionSettlementStreamProof \<Rightarrow> bool" where
  "proofBound s ticketDigest abort p \<longleftrightarrow>
     sp_assignmentId p = vs_assignmentId s \<and> Some (sp_executorId p) = vs_executorId s \<and>
     sp_ticketDigest p = ticketDigest \<and> sp_sourceLastSeq p = ab_recordSeq abort \<and>
     sp_sourceChainDigest p = ab_ledgerDigest abort \<and>
     sp_targetInteractionRecordSeq p = vs_lastFinishedInteractionRecordSeq s \<and>
     Some (sp_projectedRecordSeq p) = vs_lastStreamProjectionRecordSeq s \<and>
     sp_upToRecordSeq p = vs_streamProjectedUpTo s \<and> sp_lastStreamSeq p = vs_lastInteractionStreamSeq s \<and>
     Some (sp_streamDigest p) = vs_interactionStreamDigest s \<and>
     Some (sp_ledgerChainDigest p) = vs_lastStreamProjectionLedgerDigest s"

definition settlementUnbound ::
  "AssignmentLedgerValidationState \<Rightarrow> Digest \<Rightarrow> SettlementVersion \<Rightarrow> LedgerAbort \<Rightarrow> bool" where
  "settlementUnbound s ticketDigest settlement abort = (case settlement of
     SettlementV1 \<Rightarrow> vs_streamProjectionEnabledAfter s \<noteq> None
   | SettlementV2 proof \<Rightarrow>
       interactionSettlementNeedsStreamProof s \<and>
       (vs_streamProjectionEnabledAfter s = None \<or> vs_unprojectedFinished s \<noteq> [] \<or>
        (case proof of None \<Rightarrow> True | Some p \<Rightarrow> \<not> proofBound s ticketDigest abort p)))"

definition applySettlementAccepted ::
  "AssignmentLedgerValidationState \<Rightarrow> string \<Rightarrow> Digest \<Rightarrow> SettlementVersion \<Rightarrow>
   (LedgerError, AssignmentLedgerValidationState) result" where
  "applySettlementAccepted s assignmentId ticketDigest settlement =
     andThen (throwIf (settlement \<noteq> SettlementV1 \<and> \<not> interactionSettlementNeedsStreamProof s \<and>
         (proofOf settlement \<noteq> None \<or> vs_streamProjectionEnabledAfter s = None))
       SettlementObligation) (\<lambda>_.
     andThen (throwIf (\<not> isJob (vs_ref s) \<or> vs_phase s \<noteq> StartedPhase \<or>
         (case omap_get (vs_aborts s) (abortKey ''abort-ticket'' ticketDigest) of
            None \<Rightarrow> True
          | Some abort \<Rightarrow> \<not> isTicket (ab_via abort) \<or> settlementUnbound s ticketDigest settlement abort) \<or>
         vs_cancelProofOwnerAccepted s \<or> vs_interactionSettlementOwnerAccepted s \<noteq> None \<or>
         vs_pendingInteractions s \<noteq> [] \<or> vs_unmirroredFinished s \<noteq> [] \<or> vs_openSideEffects s = [] \<or>
         assignmentId \<noteq> vs_assignmentId s)
       SettlementUnbound) (\<lambda>_.
       Inr (s\<lparr>vs_interactionSettlementOwnerAccepted :=
         Some (SettlementOwnerAccepted assignmentId ticketDigest settlement)\<rparr>)))"

definition unclean :: "AssignmentLedgerValidationState \<Rightarrow> bool" where
  "unclean s \<longleftrightarrow> vs_phase s \<noteq> StartedPhase \<or> vs_aborts s \<noteq> [] \<or> vs_pendingInteractions s \<noteq> [] \<or>
     vs_unmirroredFinished s \<noteq> [] \<or> vs_unprojectedFinished s \<noteq> [] \<or> vs_openSideEffects s \<noteq> []"

definition applyExecutionFailed ::
  "AssignmentLedgerValidationState \<Rightarrow> (LedgerError, AssignmentLedgerValidationState) result" where
  "applyExecutionFailed s = andThen (throwIf (unclean s) FailedUnclean) (\<lambda>_. Inr (s\<lparr>vs_phase := FailedPhase\<rparr>))"

definition applyBundleSealed ::
  "AssignmentLedgerValidationState \<Rightarrow> (LedgerError, AssignmentLedgerValidationState) result" where
  "applyBundleSealed s = andThen (throwIf (unclean s) SealedUnclean) (\<lambda>_. Inr (s\<lparr>vs_phase := SealedPhase\<rparr>))"

definition applyAcked ::
  "AssignmentLedgerValidationState \<Rightarrow> (LedgerError, AssignmentLedgerValidationState) result" where
  "applyAcked s =
     andThen (throwIf (vs_phase s \<noteq> SealedPhase) AckedUnsealed) (\<lambda>_. Inr (s\<lparr>vs_phase := AckedPhase\<rparr>))"

definition mirrorCheckpointFits ::
  "AssignmentLedgerValidationState \<Rightarrow> int \<Rightarrow> int \<Rightarrow> Digest \<Rightarrow> bool" where
  "mirrorCheckpointFits s upTo ordinal mirrorDigest = (case omap_get (vs_unmirroredFinished s) upTo of
     None \<Rightarrow> False | Some c \<Rightarrow> mc_ordinal c = ordinal \<and> mc_mirrorDigest c = mirrorDigest)"

definition applyMirrored ::
  "AssignmentLedgerValidationState \<Rightarrow> int \<Rightarrow> int \<Rightarrow> Digest \<Rightarrow> (LedgerError, AssignmentLedgerValidationState) result" where
  "applyMirrored s upTo ordinal mirrorDigest =
     andThen (throwIf (upTo \<le> vs_mirroredUpTo s \<or> ordinal \<le> vs_mirroredInteractionOrdinal s \<or>
         \<not> mirrorCheckpointFits s upTo ordinal mirrorDigest) MirroredNothingNew) (\<lambda>_.
     (let released = filter (\<lambda>kc. mc_ordinal (snd kc) \<le> ordinal) (vs_unmirroredFinished s) in
     andThen (throwIf (int (length released) \<noteq> ordinal - vs_mirroredInteractionOrdinal s) MirroredSkips) (\<lambda>_.
       Inr (s\<lparr>vs_unmirroredFinished := filter (\<lambda>kc. \<not> mc_ordinal (snd kc) \<le> ordinal) (vs_unmirroredFinished s),
         vs_mirroredUpTo := upTo, vs_mirroredInteractionOrdinal := ordinal\<rparr>))))"

definition applyStreamProjected ::
  "AssignmentLedgerValidationState \<Rightarrow> int \<Rightarrow> Digest \<Rightarrow> string \<Rightarrow> int \<Rightarrow> int \<Rightarrow> Digest \<Rightarrow>
   (LedgerError, AssignmentLedgerValidationState) result" where
  "applyStreamProjected s recordSeq nextDigest assignmentId upTo lastStreamSeq streamDigest =
     andThen (throwIf (\<not> isJob (vs_ref s) \<or> vs_streamProjectionEnabledAfter s = None \<or>
         assignmentId \<noteq> vs_assignmentId s \<or> upTo \<le> vs_streamProjectedUpTo s \<or> recordSeq - 1 < upTo \<or>
         upTo \<notin> set (vs_unprojectedFinished s) \<or> lastStreamSeq \<le> vs_lastInteractionStreamSeq s)
       ProjectedNothingNew) (\<lambda>_.
       Inr (s\<lparr>vs_unprojectedFinished := filter (\<lambda>q. \<not> q \<le> upTo) (vs_unprojectedFinished s),
         vs_streamProjectedUpTo := upTo, vs_lastInteractionStreamSeq := lastStreamSeq,
         vs_interactionStreamDigest := Some streamDigest, vs_lastStreamProjectionRecordSeq := Some recordSeq,
         vs_lastStreamProjectionLedgerDigest := Some nextDigest\<rparr>))"

section \<open>One entry, many entries\<close>

definition applyRecord ::
  "(string \<Rightarrow> string) \<Rightarrow> AssignmentLedgerValidationState \<Rightarrow> AssignmentEntry \<Rightarrow> Digest \<Rightarrow>
   (LedgerError, AssignmentLedgerValidationState) result" where
  "applyRecord sha s e nextDigest = (case en_body e of
     Received _ activation _ \<Rightarrow> applyReceived s activation
   | DispatchRejected _ _ \<Rightarrow> applyDispatchRejected s
   | ControlLeaseRenewed lease _ \<Rightarrow> applyControlLease s lease
   | SupersedeFenced _ _ \<Rightarrow> applySupersedeFenced s
   | RunStarted \<Rightarrow> applyStarted s
   | InteractionRequested requestId _ _ _ _ _ \<Rightarrow> applyInteractionRequested s requestId
   | InteractionFinished requestId outcome \<Rightarrow> applyInteractionFinished sha s (en_recordSeq e) requestId outcome
   | TrustSediment requestId sediment \<Rightarrow> applyTrustSediment sha s (en_recordSeq e) requestId sediment
   | StagedMutation sequence _ _ requestId _ \<Rightarrow> applyStagedMutation s sequence requestId
   | SideEffectStarted effectSeq _ _ _ _ \<Rightarrow> applySideEffectStarted s effectSeq
   | SideEffectCompleted effectSeq _ _ \<Rightarrow> applySideEffectCompleted s effectSeq
   | AbortRequested source refId \<Rightarrow> applyAbortRequested s (en_recordSeq e) nextDigest source refId
   | Halted proof \<Rightarrow> applyHalted s (en_recordSeq e) proof
   | ExecutionFailed _ _ \<Rightarrow> applyExecutionFailed s
   | BundleSealed _ _ \<Rightarrow> applyBundleSealed s
   | Acked _ \<Rightarrow> applyAcked s
   | Mirrored upTo ordinal mirrorDigest \<Rightarrow> applyMirrored s upTo ordinal mirrorDigest
   | StreamProjectionEnabled legacyUpTo \<Rightarrow> applyProjectionEnabled s (en_recordSeq e) legacyUpTo
   | StreamProjected assignmentId upTo lastStreamSeq streamDigest \<Rightarrow>
       applyStreamProjected s (en_recordSeq e) nextDigest assignmentId upTo lastStreamSeq streamDigest
   | CancelProofOwnerAccepted \<Rightarrow> applyCancelProofAccepted s
   | SettlementOwnerAccepted assignmentId ticketDigest settlement \<Rightarrow>
       applySettlementAccepted s assignmentId ticketDigest settlement)"

definition applyValidatedAssignmentEntry ::
  "(string \<Rightarrow> string) \<Rightarrow> AssignmentLedgerValidationState \<Rightarrow> AssignmentEntry \<Rightarrow>
   (LedgerError, AssignmentLedgerValidationState) result" where
  "applyValidatedAssignmentEntry sha s e =
     andThen (throwIf (en_recordSeq e \<noteq> vs_lastSeq s + 1) NotContiguous) (\<lambda>_.
     andThen (advanceAssignmentLedger sha (vs_chainDigest s) e) (\<lambda>nextDigest.
     andThen (applyRecord sha s e nextDigest) (\<lambda>s'.
       Inr (s'\<lparr>vs_lastSeq := en_recordSeq e, vs_chainDigest := nextDigest\<rparr>))))"

fun replayEntries ::
  "(string \<Rightarrow> string) \<Rightarrow> AssignmentLedgerValidationState \<Rightarrow> AssignmentEntry list \<Rightarrow>
   (LedgerError, AssignmentLedgerValidationState) result" where
  "replayEntries sha s [] = Inr s"
| "replayEntries sha s (e # es) =
     andThen (applyValidatedAssignmentEntry sha s e) (\<lambda>s'. replayEntries sha s' es)"

text \<open>A ledger is a history of entries that replays from the empty state.\<close>

definition ledgerState ::
  "(string \<Rightarrow> string) \<Rightarrow> string \<Rightarrow> AssignmentEntry list \<Rightarrow> (LedgerError, AssignmentLedgerValidationState) result" where
  "ledgerState sha assignmentId es =
     andThen (createAssignmentLedgerValidationState sha assignmentId) (\<lambda>s. replayEntries sha s es)"

end
