(* ===== verification/Ledger_Invariant.thy ===== *)
theory Ledger_Invariant
  imports Ledger_State
begin

text \<open>
  What every replayed ledger satisfies: the locale of a property of histories, and its
  interpretations for the phases, the mirror chain, the projection of the stream and the
  counters.
\<close>

section \<open>Accepted entries\<close>

text \<open>
  What a refusal-free transition asks for and does; the simplifier uses these equations
  from left to right.
\<close>

named_theorems accepts \<open>what an accepted record asks for and does\<close>

lemma applyReceived_iff [accepts]:
  "applyReceived s a = Inr s' \<longleftrightarrow> vs_phase s = UnknownPhase \<and> vs_aborts s = [] \<and> boundControl s a \<and>
     s' = s\<lparr>vs_phase := ReceivedPhase, vs_received := True, vs_ref := Some (aa_ref a),
       vs_executorId := Some (aa_executorId a)\<rparr>"
  by (auto simp: applyReceived_def andThen_eq_Inr)

lemma applyDispatchRejected_iff [accepts]:
  "applyDispatchRejected s = Inr s' \<longleftrightarrow> vs_phase s = UnknownPhase \<and> vs_aborts s = [] \<and> vs_control s \<noteq> None \<and>
     s' = s\<lparr>vs_phase := DispatchRejectedPhase\<rparr>"
  by (auto simp: applyDispatchRejected_def andThen_eq_Inr)

lemma applyControlLease_iff [accepts]:
  "applyControlLease s l = Inr s' \<longleftrightarrow> cl_assignmentId l = vs_assignmentId s \<and>
     (\<forall>c. vs_control s = Some c \<longrightarrow> \<not> leaseConflicts c l) \<and>
     s' = s\<lparr>vs_control := Some \<lparr>lc_authority = cl_authority l, lc_ownerDeviceId = sg_keyId (cl_signature l),
       lc_controlLeaseId = cl_controlLeaseId l, lc_renewalSeq = cl_renewalSeq l\<rparr>\<rparr>"
  by (auto simp: applyControlLease_def andThen_eq_Inr split: option.splits)

lemma applySupersedeFenced_iff [accepts]:
  "applySupersedeFenced s = Inr s' \<longleftrightarrow> (vs_phase s = UnknownPhase \<or> vs_phase s = ReceivedPhase) \<and>
     vs_aborts s = [] \<and> vs_control s \<noteq> None \<and> s' = s\<lparr>vs_phase := SupersedeFencedPhase\<rparr>"
  by (auto simp: applySupersedeFenced_def andThen_eq_Inr)

lemma applyStarted_iff [accepts]:
  "applyStarted s = Inr s' \<longleftrightarrow> vs_phase s = ReceivedPhase \<and> vs_aborts s = [] \<and>
     s' = s\<lparr>vs_phase := StartedPhase, vs_started := True\<rparr>"
  by (auto simp: applyStarted_def andThen_eq_Inr)

lemma applyProjectionEnabled_iff [accepts]:
  "applyProjectionEnabled s q u = Inr s' \<longleftrightarrow> isJob (vs_ref s) \<and> vs_streamProjectionEnabledAfter s = None \<and>
     u = q - 1 \<and> s' = s\<lparr>vs_streamProjectionEnabledAfter := Some u, vs_streamProjectedUpTo := u\<rparr>"
  by (auto simp: applyProjectionEnabled_def andThen_eq_Inr)

lemma applyInteractionRequested_iff [accepts]:
  "applyInteractionRequested s r = Inr s' \<longleftrightarrow> vs_phase s = StartedPhase \<and> vs_aborts s = [] \<and>
     r \<notin> set (vs_requestedInteractions s) \<and>
     s' = s\<lparr>vs_requestedInteractions := vs_requestedInteractions s @ [r],
       vs_pendingInteractions := setAdd r (vs_pendingInteractions s)\<rparr>"
  by (auto simp: applyInteractionRequested_def setAdd_def andThen_eq_Inr)

text \<open>The link that an answer or a sediment adds to the mirror chain.\<close>

definition mirrorLink ::
  "(string \<Rightarrow> string) \<Rightarrow> AssignmentLedgerValidationState \<Rightarrow> int \<Rightarrow> string \<Rightarrow> MirrorContent \<Rightarrow> Digest \<Rightarrow> bool" where
  "mirrorLink sha s q r c d \<longleftrightarrow>
     advanceAssignmentInteractionMirrorDigest sha (vs_interactionMirrorDigest s)
       \<lparr>me_ordinal = vs_finishedInteractionCount s + 1, me_seq = q, me_requestId = r, me_content = c\<rparr> = Inr d"

definition linked ::
  "AssignmentLedgerValidationState \<Rightarrow> int \<Rightarrow> Digest \<Rightarrow> AssignmentLedgerValidationState" where
  "linked s q d = s\<lparr>vs_finishedInteractionCount := vs_finishedInteractionCount s + 1, vs_interactionMirrorDigest := d,
     vs_unmirroredFinished := omap_set q \<lparr>mc_ordinal = vs_finishedInteractionCount s + 1, mc_mirrorDigest = d\<rparr>
       (vs_unmirroredFinished s)\<rparr>"

lemma extendMirror_iff [accepts]:
  "extendMirror sha s q r c = Inr s' \<longleftrightarrow> (\<exists>d. mirrorLink sha s q r c d \<and> s' = linked s q d)"
  by (auto simp: extendMirror_def mirrorLink_def linked_def Let_def andThen_eq_Inr)

lemma mirrorLink_fields [simp]:
  "mirrorLink sha (s\<lparr>vs_pendingInteractions := p, vs_lastFinishedInteractionRecordSeq := l\<rparr>) q r c d
     = mirrorLink sha s q r c d"
  "mirrorLink sha (s\<lparr>vs_trustSedimentCount := n\<rparr>) q r c d = mirrorLink sha s q r c d"
  by (simp_all add: mirrorLink_def)

definition answered ::
  "AssignmentLedgerValidationState \<Rightarrow> int \<Rightarrow> string \<Rightarrow> AssignmentLedgerValidationState" where
  "answered s q r = s\<lparr>vs_pendingInteractions := removeAll r (vs_pendingInteractions s),
     vs_lastFinishedInteractionRecordSeq := q\<rparr>"

lemma applyInteractionFinished_iff [accepts]:
  "applyInteractionFinished sha s q r out = Inr s' \<longleftrightarrow> r \<in> set (vs_pendingInteractions s) \<and>
     checkAnswer s r out = Inr () \<and>
     (\<exists>d. mirrorLink sha s q r (AnswerContent out) d \<and> s' = oweProjection (linked (answered s q r) q d) q)"
  by (auto simp: applyInteractionFinished_def answered_def andThen_eq_Inr accepts)

lemma applyTrustSediment_iff [accepts]:
  "applyTrustSediment sha s q r f = Inr s' \<longleftrightarrow> vs_phase s = StartedPhase \<and> vs_aborts s = [] \<and>
     r = trustSedimentRequestPrefix @ show_int (vs_trustSedimentCount s + 1) \<and>
     (\<exists>d. mirrorLink sha s q r (SedimentContent f) d \<and>
        s' = linked (s\<lparr>vs_trustSedimentCount := vs_trustSedimentCount s + 1\<rparr>) q d)"
  by (auto simp: applyTrustSediment_def andThen_eq_Inr accepts)

lemma applyStagedMutation_iff [accepts]:
  "applyStagedMutation s n r = Inr s' \<longleftrightarrow> vs_phase s = StartedPhase \<and> vs_aborts s = [] \<and>
     n = vs_stagedMutationCount s + 1 \<and> r \<notin> set (vs_mutationRequestIds s) \<and>
     s' = s\<lparr>vs_stagedMutationCount := n, vs_mutationRequestIds := vs_mutationRequestIds s @ [r]\<rparr>"
  by (auto simp: applyStagedMutation_def setAdd_def andThen_eq_Inr)

lemma applySideEffectStarted_iff [accepts]:
  "applySideEffectStarted s n = Inr s' \<longleftrightarrow> vs_phase s = StartedPhase \<and> vs_aborts s = [] \<and>
     n = vs_sideEffectCount s + 1 \<and>
     s' = s\<lparr>vs_sideEffectCount := n, vs_openSideEffects := setAdd n (vs_openSideEffects s)\<rparr>"
  by (auto simp: applySideEffectStarted_def andThen_eq_Inr)

lemma applySideEffectCompleted_iff [accepts]:
  "applySideEffectCompleted s n = Inr s' \<longleftrightarrow> n \<in> set (vs_openSideEffects s) \<and>
     s' = s\<lparr>vs_openSideEffects := removeAll n (vs_openSideEffects s)\<rparr>"
  by (auto simp: applySideEffectCompleted_def andThen_eq_Inr)

definition mayAbort :: "AssignmentLedgerValidationState \<Rightarrow> AbortSource \<Rightarrow> bool" where
  "mayAbort s source = (case source of OwnerFence \<Rightarrow> vs_control s \<noteq> None | AbortTicket _ \<Rightarrow> vs_received s)"

lemma applyAbortRequested_iff [accepts]:
  "applyAbortRequested s q d source r = Inr s' \<longleftrightarrow>
     (vs_phase s = UnknownPhase \<or> vs_phase s = ReceivedPhase \<or> vs_phase s = StartedPhase) \<and> mayAbort s source \<and>
     omap_get (vs_aborts s) (abortKey (abortVia source) r) = None \<and>
     s' = s\<lparr>vs_aborts := omap_set (abortKey (abortVia source) r)
       \<lparr>ab_via = source, ab_refId = r, ab_recordSeq = q, ab_ledgerDigest = d\<rparr> (vs_aborts s)\<rparr>"
  by (auto simp: applyAbortRequested_def mayAbort_def andThen_eq_Inr split: AbortSource.splits)

lemma applyHalted_iff [accepts]:
  "applyHalted s q p = Inr s' \<longleftrightarrow> vs_aborts s \<noteq> [] \<and> matchingAbort s (cp_cause p) \<and>
     closesCancellablePhase s (cp_decision p) \<and> vs_pendingInteractions s = [] \<and> vs_unmirroredFinished s = [] \<and>
     vs_unprojectedFinished s = [] \<and> vs_openSideEffects s = [] \<and> cp_assignmentId p = vs_assignmentId s \<and>
     cp_lastRecordSeq p = q - 1 \<and> cp_ledgerDigest p = vs_chainDigest s \<and>
     (\<forall>n. cp_decision p = HaltedDecision n \<longrightarrow> n = vs_sideEffectCount s) \<and> s' = s\<lparr>vs_phase := HaltedPhase\<rparr>"
  by (auto simp: applyHalted_def andThen_eq_Inr split: CancelProofDecision.splits)

lemma applyCancelProofAccepted_iff [accepts]:
  "applyCancelProofAccepted s = Inr s' \<longleftrightarrow> vs_ref s \<noteq> None \<and> vs_phase s = HaltedPhase \<and>
     \<not> vs_cancelProofOwnerAccepted s \<and> list_ex (\<lambda>a. isTicket (ab_via a)) (omap_values (vs_aborts s)) \<and>
     s' = s\<lparr>vs_cancelProofOwnerAccepted := True\<rparr>"
  by (auto simp: applyCancelProofAccepted_def andThen_eq_Inr)

definition settlementFits :: "AssignmentLedgerValidationState \<Rightarrow> Digest \<Rightarrow> SettlementVersion \<Rightarrow> bool" where
  "settlementFits s t v \<longleftrightarrow>
     \<not> (v \<noteq> SettlementV1 \<and> \<not> interactionSettlementNeedsStreamProof s \<and>
        (proofOf v \<noteq> None \<or> vs_streamProjectionEnabledAfter s = None)) \<and>
     (\<exists>a. omap_get (vs_aborts s) (abortKey ''abort-ticket'' t) = Some a \<and> isTicket (ab_via a) \<and>
        \<not> settlementUnbound s t v a)"

lemma applySettlementAccepted_iff [accepts]:
  "applySettlementAccepted s i t v = Inr s' \<longleftrightarrow> settlementFits s t v \<and> isJob (vs_ref s) \<and>
     vs_phase s = StartedPhase \<and> \<not> vs_cancelProofOwnerAccepted s \<and>
     vs_interactionSettlementOwnerAccepted s = None \<and> vs_pendingInteractions s = [] \<and>
     vs_unmirroredFinished s = [] \<and> vs_openSideEffects s \<noteq> [] \<and> i = vs_assignmentId s \<and>
     s' = s\<lparr>vs_interactionSettlementOwnerAccepted := Some (SettlementOwnerAccepted i t v)\<rparr>"
  by (auto simp: applySettlementAccepted_def settlementFits_def andThen_eq_Inr split: option.splits)

lemma applyExecutionFailed_iff [accepts]:
  "applyExecutionFailed s = Inr s' \<longleftrightarrow> \<not> unclean s \<and> s' = s\<lparr>vs_phase := FailedPhase\<rparr>"
  by (auto simp: applyExecutionFailed_def andThen_eq_Inr)

lemma applyBundleSealed_iff [accepts]:
  "applyBundleSealed s = Inr s' \<longleftrightarrow> \<not> unclean s \<and> s' = s\<lparr>vs_phase := SealedPhase\<rparr>"
  by (auto simp: applyBundleSealed_def andThen_eq_Inr)

lemma applyAcked_iff [accepts]:
  "applyAcked s = Inr s' \<longleftrightarrow> vs_phase s = SealedPhase \<and> s' = s\<lparr>vs_phase := AckedPhase\<rparr>"
  by (auto simp: applyAcked_def andThen_eq_Inr)

definition upToOrdinal :: "int \<Rightarrow> int \<times> MirrorCheckpoint \<Rightarrow> bool" where
  "upToOrdinal n kc \<longleftrightarrow> mc_ordinal (snd kc) \<le> n"

lemma applyMirrored_iff [accepts]:
  "applyMirrored s u n d = Inr s' \<longleftrightarrow> vs_mirroredUpTo s < u \<and> vs_mirroredInteractionOrdinal s < n \<and>
     mirrorCheckpointFits s u n d \<and>
     int (length (filter (upToOrdinal n) (vs_unmirroredFinished s))) = n - vs_mirroredInteractionOrdinal s \<and>
     s' = s\<lparr>vs_unmirroredFinished := filter (\<lambda>kc. \<not> upToOrdinal n kc) (vs_unmirroredFinished s),
       vs_mirroredUpTo := u, vs_mirroredInteractionOrdinal := n\<rparr>"
  by (auto simp: applyMirrored_def upToOrdinal_def [abs_def] Let_def andThen_eq_Inr)

lemma applyStreamProjected_iff [accepts]:
  "applyStreamProjected s q d i u n g = Inr s' \<longleftrightarrow> isJob (vs_ref s) \<and>
     vs_streamProjectionEnabledAfter s \<noteq> None \<and> i = vs_assignmentId s \<and> vs_streamProjectedUpTo s < u \<and>
     u \<le> q - 1 \<and> u \<in> set (vs_unprojectedFinished s) \<and> vs_lastInteractionStreamSeq s < n \<and>
     s' = s\<lparr>vs_unprojectedFinished := filter (\<lambda>p. \<not> p \<le> u) (vs_unprojectedFinished s),
       vs_streamProjectedUpTo := u, vs_lastInteractionStreamSeq := n, vs_interactionStreamDigest := Some g,
       vs_lastStreamProjectionRecordSeq := Some q, vs_lastStreamProjectionLedgerDigest := Some d\<rparr>"
  by (auto simp: applyStreamProjected_def andThen_eq_Inr)

lemma apply_entryE:
  assumes "applyValidatedAssignmentEntry sha s e = Inr s'"
  obtains d s1 where "en_recordSeq e = vs_lastSeq s + 1"
    "advanceAssignmentLedger sha (vs_chainDigest s) e = Inr d" "applyRecord sha s e d = Inr s1"
    "s' = s1\<lparr>vs_lastSeq := vs_lastSeq s + 1, vs_chainDigest := d\<rparr>"
  using assms by (auto simp: applyValidatedAssignmentEntry_def andThen_eq_Inr)

section \<open>Properties of histories\<close>

text \<open>
  A property of a history and its state that the empty ledger has and every accepted entry
  keeps holds of every ledger. The second law may use a property already known.
\<close>

locale ledger_history =
  fixes sha :: "string \<Rightarrow> string"
    and known :: "AssignmentEntry list \<Rightarrow> AssignmentLedgerValidationState \<Rightarrow> bool"
    and J :: "AssignmentEntry list \<Rightarrow> AssignmentLedgerValidationState \<Rightarrow> bool"
  assumes known: "ledgerState sha a es = Inr s \<Longrightarrow> known es s"
    and empty: "createAssignmentLedgerValidationState sha a = Inr s \<Longrightarrow> J [] s"
    and step: "known es s \<Longrightarrow> J es s \<Longrightarrow> applyValidatedAssignmentEntry sha s e = Inr s' \<Longrightarrow> J (es @ [e]) s'"

lemma replay_append:
  "replayEntries sha s (es @ fs) = andThen (replayEntries sha s es) (\<lambda>s'. replayEntries sha s' fs)"
  by (induction es arbitrary: s) (auto simp: andThen_def split: sum.splits)

lemma ledger_append:
  "ledgerState sha a (es @ fs) = andThen (ledgerState sha a es) (\<lambda>s. replayEntries sha s fs)"
  by (auto simp: ledgerState_def replay_append andThen_def split: sum.splits)

lemma ledger_snocE:
  assumes "ledgerState sha a (es @ [e]) = Inr s'"
  obtains s where "ledgerState sha a es = Inr s" "applyValidatedAssignmentEntry sha s e = Inr s'"
  using assms by (auto simp: ledger_append andThen_eq_Inr)

lemma ledger_prefixE:
  assumes "ledgerState sha a (es @ fs) = Inr s'"
  obtains s where "ledgerState sha a es = Inr s" "replayEntries sha s fs = Inr s'"
  using assms by (auto simp: ledger_append andThen_eq_Inr)

context ledger_history
begin

lemma holds: "ledgerState sha a es = Inr s \<Longrightarrow> J es s"
proof (induction es arbitrary: s rule: rev_induct)
  case Nil
  then show ?case using empty [of a s] by (simp add: ledgerState_def andThen_eq_Inr)
next
  case (snoc e es)
  then obtain s0 where "ledgerState sha a es = Inr s0" "applyValidatedAssignmentEntry sha s0 e = Inr s"
    by (auto elim: ledger_snocE)
  then show ?case using snoc.IH known step by blast
qed

end

section \<open>Phases\<close>

definition settled :: "AssignmentLedgerValidationState \<Rightarrow> bool" where
  "settled s \<longleftrightarrow> vs_pendingInteractions s = [] \<and> vs_unmirroredFinished s = [] \<and> vs_unprojectedFinished s = [] \<and>
     vs_openSideEffects s = []"

fun phase_fits :: "LedgerPhase \<Rightarrow> AssignmentLedgerValidationState \<Rightarrow> bool" where
  "phase_fits UnknownPhase s = (\<not> vs_received s \<and> settled s)"
| "phase_fits ReceivedPhase s = (vs_received s \<and> \<not> vs_started s \<and> settled s)"
| "phase_fits DispatchRejectedPhase s = (\<not> vs_received s \<and> settled s \<and> vs_aborts s = [])"
| "phase_fits SupersedeFencedPhase s = (\<not> vs_started s \<and> settled s \<and> vs_aborts s = [])"
| "phase_fits StartedPhase s = vs_started s"
| "phase_fits HaltedPhase s = (settled s \<and> vs_aborts s \<noteq> [])"
| "phase_fits FailedPhase s = (vs_started s \<and> settled s \<and> vs_aborts s = [])"
| "phase_fits SealedPhase s = (vs_started s \<and> settled s \<and> vs_aborts s = [])"
| "phase_fits AckedPhase s = (vs_started s \<and> settled s \<and> vs_aborts s = [])"

definition phase_ok :: "AssignmentLedgerValidationState \<Rightarrow> bool" where
  "phase_ok s \<longleftrightarrow> phase_fits (vs_phase s) s \<and> (vs_received s \<longleftrightarrow> vs_ref s \<noteq> None) \<and>
     (vs_started s \<longrightarrow> vs_received s) \<and> (vs_received s \<longrightarrow> vs_control s \<noteq> None)"

lemma update_not_Nil [simp]: "AList.update k v m \<noteq> []"
  by (cases m) auto

lemma oweProjection_simps [simp]:
  "vs_phase (oweProjection s q) = vs_phase s" "vs_ref (oweProjection s q) = vs_ref s"
  "vs_received (oweProjection s q) = vs_received s" "vs_started (oweProjection s q) = vs_started s"
  "vs_control (oweProjection s q) = vs_control s" "vs_aborts (oweProjection s q) = vs_aborts s"
  "vs_streamProjectionEnabledAfter (oweProjection s q) = vs_streamProjectionEnabledAfter s"
  by (simp_all add: oweProjection_def split: option.split)

lemmas state_simps = settled_def linked_def answered_def

lemma unclean_started: "\<not> unclean s \<Longrightarrow> vs_phase s = StartedPhase \<and> vs_aborts s = [] \<and> settled s"
  by (simp add: unclean_def settled_def)

lemma phase_fits_cong:
  "phase_fits p s \<Longrightarrow> vs_received s' = vs_received s \<Longrightarrow> vs_started s' = vs_started s \<Longrightarrow>
   (vs_aborts s' = [] \<longleftrightarrow> vs_aborts s = []) \<Longrightarrow> (settled s \<Longrightarrow> settled s') \<Longrightarrow> phase_fits p s'"
  by (cases p) auto

lemma phase_ok_record:
  assumes "phase_ok s" "applyRecord sha s e d = Inr s1"
  shows "phase_ok s1"
proof -
  have phase: "phase_fits (vs_phase s) s" using assms(1) by (simp add: phase_ok_def)
  show ?thesis
  proof (cases "en_body e")
    case (InteractionFinished r out)
    then have "vs_phase s = StartedPhase"
      using assms(2) phase by (cases "vs_phase s") (auto simp: applyRecord_def accepts settled_def)
    then show ?thesis using assms InteractionFinished by (auto simp: applyRecord_def accepts phase_ok_def state_simps)
  next
    case (Received ref activation at)
    then show ?thesis
      using assms by (auto simp: applyRecord_def accepts phase_ok_def settled_def boundControl_def split: option.splits)
  next
    case (SideEffectCompleted n st g)
    then have "vs_phase s = StartedPhase"
      using assms(2) phase by (cases "vs_phase s") (auto simp: applyRecord_def accepts settled_def)
    then show ?thesis using assms SideEffectCompleted by (auto simp: applyRecord_def accepts phase_ok_def settled_def)
  next
    case (AbortRequested source r)
    then show ?thesis using assms by (auto simp: applyRecord_def accepts phase_ok_def settled_def)
  qed (use assms in \<open>auto simp: applyRecord_def accepts phase_ok_def state_simps mirrorCheckpointFits_def
      dest!: unclean_started elim!: phase_fits_cong\<close>)
qed

lemma recordSeq_fixed [simp]: "vs_lastSeq (oweProjection s q) = vs_lastSeq s"
  by (simp add: oweProjection_def split: option.split)

lemma record_keeps_place:
  "applyRecord sha s e d = Inr s1 \<Longrightarrow> vs_lastSeq s1 = vs_lastSeq s \<and> vs_assignmentId s1 = vs_assignmentId s"
  by (cases "en_body e") (auto simp: applyRecord_def accepts state_simps oweProjection_def split: option.splits)

section \<open>The mirror chain\<close>

text \<open>
  The results not yet mirrored are numbered from the watermark to the number of results, in
  the order of their records, and the last of them carries the current digest.
\<close>

definition mirror_order :: "int \<times> MirrorCheckpoint \<Rightarrow> int \<times> MirrorCheckpoint \<Rightarrow> bool" where
  "mirror_order x y \<longleftrightarrow> fst x < fst y \<and> mc_ordinal (snd x) < mc_ordinal (snd y)"

definition mirror_ok :: "AssignmentLedgerValidationState \<Rightarrow> bool" where
  "mirror_ok s \<longleftrightarrow>
     map (\<lambda>kc. mc_ordinal (snd kc)) (vs_unmirroredFinished s)
       = [vs_mirroredInteractionOrdinal s + 1 .. vs_finishedInteractionCount s] \<and>
     sorted_wrt mirror_order (vs_unmirroredFinished s) \<and>
     (\<forall>kc \<in> set (vs_unmirroredFinished s). vs_mirroredUpTo s < fst kc \<and> fst kc \<le> vs_lastSeq s) \<and>
     0 \<le> vs_mirroredInteractionOrdinal s \<and> vs_mirroredInteractionOrdinal s \<le> vs_finishedInteractionCount s \<and>
     0 \<le> vs_mirroredUpTo s \<and> vs_mirroredUpTo s \<le> vs_lastSeq s \<and>
     (vs_unmirroredFinished s \<noteq> [] \<longrightarrow>
        mc_mirrorDigest (snd (last (vs_unmirroredFinished s))) = vs_interactionMirrorDigest s)"

lemma update_appends: "k \<notin> fst ` set m \<Longrightarrow> AList.update k v m = m @ [(k, v)]"
  by (induction m) auto

lemma upto_snoc: "a \<le> n + 1 \<Longrightarrow> [a..n + 1] = [a..n] @ [n + (1::int)]"
  by (simp add: upto_rec2)

lemma filter_upto: "a \<le> n + 1 \<Longrightarrow> filter (\<lambda>x. \<not> x \<le> n) [a..b] = [n + (1::int)..b]"
  by (rule sorted_distinct_set_unique) (auto simp: sorted_wrt_filter)

lemma ordinals_above:
  assumes "mirror_ok s" "kc \<in> set (vs_unmirroredFinished s)"
  shows "vs_mirroredInteractionOrdinal s < mc_ordinal (snd kc)" "mc_ordinal (snd kc) \<le> vs_finishedInteractionCount s"
proof -
  have "mc_ordinal (snd kc) \<in> set [vs_mirroredInteractionOrdinal s + 1 .. vs_finishedInteractionCount s]"
    using assms unfolding mirror_ok_def by (metis (no_types, lifting) image_eqI list.set_map)
  then show "vs_mirroredInteractionOrdinal s < mc_ordinal (snd kc)" "mc_ordinal (snd kc) \<le> vs_finishedInteractionCount s"
    by auto
qed

lemma linked_mirror:
  assumes "mirror_ok s"
  shows "mirror_ok ((linked s (vs_lastSeq s + 1) d)\<lparr>vs_lastSeq := vs_lastSeq s + 1\<rparr>)"
proof -
  have "vs_lastSeq s + 1 \<notin> fst ` set (vs_unmirroredFinished s)" using assms by (auto simp: mirror_ok_def)
  then have new: "AList.update (vs_lastSeq s + 1) c (vs_unmirroredFinished s)
      = vs_unmirroredFinished s @ [(vs_lastSeq s + 1, c)]" for c by (rule update_appends)
  have below: "mirror_order kc (vs_lastSeq s + 1, \<lparr>mc_ordinal = vs_finishedInteractionCount s + 1, mc_mirrorDigest = d\<rparr>)"
    if "kc \<in> set (vs_unmirroredFinished s)" for kc
    using ordinals_above [OF assms that] assms that by (force simp: mirror_order_def mirror_ok_def)
  show ?thesis
    using assms below by (auto simp: mirror_ok_def linked_def new sorted_wrt_append upto_snoc)
qed

lemma sorted_wrt_cases:
  "sorted_wrt R xs \<Longrightarrow> x \<in> set xs \<Longrightarrow> y \<in> set xs \<Longrightarrow> x = y \<or> R x y \<or> R y x"
  by (induction xs) auto

lemma mirrored_mirror:
  assumes "mirror_ok s" "applyMirrored s u n d = Inr s'"
  shows "mirror_ok s'"
proof -
  have acc: "vs_mirroredInteractionOrdinal s < n" "mirrorCheckpointFits s u n d"
    and s': "s' = s\<lparr>vs_unmirroredFinished := filter (\<lambda>kc. \<not> upToOrdinal n kc) (vs_unmirroredFinished s),
       vs_mirroredUpTo := u, vs_mirroredInteractionOrdinal := n\<rparr>"
    using assms(2) by (auto simp: accepts)
  obtain c where c: "(u, c) \<in> set (vs_unmirroredFinished s)" "mc_ordinal c = n"
    using acc(2) by (auto simp: mirrorCheckpointFits_def dest: map_of_SomeD split: option.splits)
  have n: "n \<le> vs_finishedInteractionCount s" using ordinals_above(2) [OF assms(1) c(1)] c(2) by simp
  have "map (\<lambda>kc. mc_ordinal (snd kc)) (filter (\<lambda>kc. \<not> upToOrdinal n kc) (vs_unmirroredFinished s))
      = filter (\<lambda>x. \<not> x \<le> n) (map (\<lambda>kc. mc_ordinal (snd kc)) (vs_unmirroredFinished s))"
    by (simp add: filter_map o_def upToOrdinal_def)
  also have "\<dots> = [n + 1 .. vs_finishedInteractionCount s]"
    using assms(1) acc(1) n by (simp add: mirror_ok_def filter_upto)
  finally have ords: "map (\<lambda>kc. mc_ordinal (snd kc)) (filter (\<lambda>kc. \<not> upToOrdinal n kc) (vs_unmirroredFinished s))
      = [n + 1 .. vs_finishedInteractionCount s]" .
  have later: "u < fst kc" if "kc \<in> set (vs_unmirroredFinished s)" "\<not> upToOrdinal n kc" for kc
    using sorted_wrt_cases [of mirror_order "vs_unmirroredFinished s" "(u, c)" kc] assms(1) c that
    by (auto simp: mirror_ok_def mirror_order_def upToOrdinal_def)
  have last: "last (filter (\<lambda>kc. \<not> upToOrdinal n kc) (vs_unmirroredFinished s)) = last (vs_unmirroredFinished s)"
    if "filter (\<lambda>kc. \<not> upToOrdinal n kc) (vs_unmirroredFinished s) \<noteq> []"
  proof -
    obtain xs x where xs: "vs_unmirroredFinished s = xs @ [x]" using c(1) by (cases "vs_unmirroredFinished s" rule: rev_cases) auto
    have "\<not> upToOrdinal n x"
    proof
      assume "upToOrdinal n x"
      then have "upToOrdinal n kc" if "kc \<in> set (vs_unmirroredFinished s)" for kc
        using that assms(1) xs by (fastforce simp: mirror_ok_def sorted_wrt_append mirror_order_def upToOrdinal_def)
      with that show False by (auto simp: filter_empty_conv)
    qed
    then show ?thesis by (simp add: xs)
  qed
  have "u \<le> vs_lastSeq s" "0 \<le> u" using assms(1) c(1) by (force simp: mirror_ok_def)+
  then show ?thesis
    using assms(1) acc ords later last n
    by (auto simp: s' mirror_ok_def sorted_wrt_filter)
qed

lemma mirror_ok_fields:
  "mirror_ok s \<Longrightarrow> vs_unmirroredFinished t = vs_unmirroredFinished s \<Longrightarrow>
   vs_mirroredInteractionOrdinal t = vs_mirroredInteractionOrdinal s \<Longrightarrow>
   vs_finishedInteractionCount t = vs_finishedInteractionCount s \<Longrightarrow> vs_mirroredUpTo t = vs_mirroredUpTo s \<Longrightarrow>
   vs_interactionMirrorDigest t = vs_interactionMirrorDigest s \<Longrightarrow> vs_lastSeq s \<le> vs_lastSeq t \<Longrightarrow> mirror_ok t"
  unfolding mirror_ok_def by (auto; force)

lemma mirror_ok_step:
  assumes "mirror_ok s" "applyValidatedAssignmentEntry sha s e = Inr s'"
  shows "mirror_ok s'"
proof -
  obtain d s1 where r: "applyRecord sha s e d = Inr s1" and e: "en_recordSeq e = vs_lastSeq s + 1"
    and s': "s' = s1\<lparr>vs_lastSeq := vs_lastSeq s + 1, vs_chainDigest := d\<rparr>"
    by (rule apply_entryE [OF assms(2)])
  show ?thesis
  proof (cases "en_body e")
    case (InteractionFinished q out)
    then obtain d' where "s1 = oweProjection (linked (answered s (vs_lastSeq s + 1) q) (vs_lastSeq s + 1) d') (vs_lastSeq s + 1)"
      using r e by (auto simp: applyRecord_def accepts)
    moreover have "mirror_ok (answered s (vs_lastSeq s + 1) q)" using assms(1) by (simp add: mirror_ok_def answered_def)
    note linked_mirror [OF this, of d']
    ultimately show ?thesis
      by (elim mirror_ok_fields) (auto simp: s' oweProjection_def answered_def split: option.split)
  next
    case (TrustSediment q f)
    then obtain d' where "s1 = linked (s\<lparr>vs_trustSedimentCount := vs_trustSedimentCount s + 1\<rparr>) (vs_lastSeq s + 1) d'"
      using r e by (auto simp: applyRecord_def accepts)
    moreover have "mirror_ok (s\<lparr>vs_trustSedimentCount := vs_trustSedimentCount s + 1\<rparr>)"
      using assms(1) by (simp add: mirror_ok_def)
    note linked_mirror [OF this, of d']
    ultimately show ?thesis by (elim mirror_ok_fields) (auto simp: s')
  next
    case (Mirrored u n g)
    then have "applyMirrored s u n g = Inr s1" using r by (simp add: applyRecord_def)
    from mirrored_mirror [OF assms(1) this] show ?thesis
      by (elim mirror_ok_fields) (use record_keeps_place [OF r] in \<open>auto simp: s'\<close>)
  qed (use assms(1) r in \<open>auto simp: applyRecord_def accepts s' elim!: mirror_ok_fields\<close>)
qed

section \<open>The projection of the stream\<close>

text \<open>
  The results still to be projected lie above the watermark, in order, and the last result is
  among them exactly when the watermark has not reached it.
\<close>

definition projection_ok :: "AssignmentLedgerValidationState \<Rightarrow> bool" where
  "projection_ok s \<longleftrightarrow>
     sorted_wrt (<) (vs_unprojectedFinished s) \<and>
     (\<forall>q \<in> set (vs_unprojectedFinished s).
        vs_streamProjectedUpTo s < q \<and> q \<le> vs_lastFinishedInteractionRecordSeq s) \<and>
     0 \<le> vs_lastFinishedInteractionRecordSeq s \<and> vs_lastFinishedInteractionRecordSeq s \<le> vs_lastSeq s \<and>
     0 \<le> vs_streamProjectedUpTo s \<and> vs_streamProjectedUpTo s \<le> vs_lastSeq s \<and>
     (vs_streamProjectionEnabledAfter s = None \<longrightarrow> vs_unprojectedFinished s = []) \<and>
     (\<forall>a. vs_streamProjectionEnabledAfter s = Some a \<longrightarrow> a \<le> vs_streamProjectedUpTo s \<and>
        (vs_streamProjectedUpTo s < vs_lastFinishedInteractionRecordSeq s \<longrightarrow>
         vs_lastFinishedInteractionRecordSeq s \<in> set (vs_unprojectedFinished s)))"

lemma projection_ok_fields:
  "projection_ok s \<Longrightarrow> vs_unprojectedFinished t = vs_unprojectedFinished s \<Longrightarrow>
   vs_streamProjectedUpTo t = vs_streamProjectedUpTo s \<Longrightarrow>
   vs_lastFinishedInteractionRecordSeq t = vs_lastFinishedInteractionRecordSeq s \<Longrightarrow>
   vs_streamProjectionEnabledAfter t = vs_streamProjectionEnabledAfter s \<Longrightarrow> vs_lastSeq s \<le> vs_lastSeq t \<Longrightarrow>
   projection_ok t"
  unfolding projection_ok_def by auto

lemma projection_ok_step:
  assumes "projection_ok s" "applyValidatedAssignmentEntry sha s e = Inr s'"
  shows "projection_ok s'"
proof -
  obtain d s1 where r: "applyRecord sha s e d = Inr s1" and e: "en_recordSeq e = vs_lastSeq s + 1"
    and s': "s' = s1\<lparr>vs_lastSeq := vs_lastSeq s + 1, vs_chainDigest := d\<rparr>"
    by (rule apply_entryE [OF assms(2)])
  show ?thesis
  proof (cases "en_body e")
    case (InteractionFinished q out)
    then obtain d' where s1: "s1 = oweProjection (linked (answered s (vs_lastSeq s + 1) q) (vs_lastSeq s + 1) d') (vs_lastSeq s + 1)"
      using r e by (auto simp: applyRecord_def accepts)
    have "vs_lastSeq s + 1 \<notin> set (vs_unprojectedFinished s)" using assms(1) by (force simp: projection_ok_def)
    then show ?thesis
      using assms(1)
      by (cases "vs_streamProjectionEnabledAfter s")
        (force simp: s' s1 projection_ok_def oweProjection_def state_simps setAdd_def sorted_wrt_append)+
  next
    case (StreamProjectionEnabled u)
    then show ?thesis using assms(1) r e by (auto simp: applyRecord_def accepts s' projection_ok_def)
  next
    case (StreamProjected i u n g)
    then have "u \<in> set (vs_unprojectedFinished s)" and acc: "applyStreamProjected s (en_recordSeq e) d i u n g = Inr s1"
      using r by (auto simp: applyRecord_def accepts)
    moreover have "u \<le> vs_lastSeq s" "0 \<le> u" using assms(1) calculation(1) by (force simp: projection_ok_def)+
    ultimately show ?thesis using assms(1) by (auto simp: accepts s' projection_ok_def sorted_wrt_filter)
  next
    case (TrustSediment q f)
    then show ?thesis using assms(1) r by (auto simp: applyRecord_def accepts s' state_simps elim!: projection_ok_fields)
  qed (use assms(1) r in \<open>auto simp: applyRecord_def accepts s' elim!: projection_ok_fields\<close>)
qed

section \<open>Counters and sets\<close>

definition counts_ok :: "AssignmentLedgerValidationState \<Rightarrow> bool" where
  "counts_ok s \<longleftrightarrow>
     distinct (vs_requestedInteractions s) \<and> distinct (vs_pendingInteractions s) \<and>
     set (vs_pendingInteractions s) \<subseteq> set (vs_requestedInteractions s) \<and>
     distinct (vs_openSideEffects s) \<and> (\<forall>n \<in> set (vs_openSideEffects s). 1 \<le> n \<and> n \<le> vs_sideEffectCount s) \<and>
     0 \<le> vs_sideEffectCount s \<and> distinct (vs_mutationRequestIds s) \<and>
     int (length (vs_mutationRequestIds s)) = vs_stagedMutationCount s \<and> 0 \<le> vs_trustSedimentCount s \<and>
     vs_trustSedimentCount s \<le> vs_finishedInteractionCount s \<and> omap_wf (vs_aborts s)"

lemma counts_ok_step:
  assumes "counts_ok s" "applyValidatedAssignmentEntry sha s e = Inr s'"
  shows "counts_ok s'"
proof -
  obtain d s1 where r: "applyRecord sha s e d = Inr s1"
    and s': "s' = s1\<lparr>vs_lastSeq := vs_lastSeq s + 1, vs_chainDigest := d\<rparr>"
    by (rule apply_entryE [OF assms(2)])
  have "counts_ok s1"
  proof (cases "en_body e")
    case (InteractionFinished q out)
    then obtain d' where s1: "s1 = oweProjection (linked (answered s (en_recordSeq e) q) (en_recordSeq e) d') (en_recordSeq e)"
      using r by (auto simp: applyRecord_def accepts)
    show ?thesis
      using assms(1) unfolding s1
      by (auto simp: counts_ok_def state_simps oweProjection_def distinct_removeAll split: option.split)
  next
    case (AbortRequested source q)
    then show ?thesis using r assms(1) by (auto simp: applyRecord_def accepts counts_ok_def omap_wf_set)
  next
    case (InteractionRequested q a b c x y)
    then show ?thesis using r assms(1) by (auto simp: applyRecord_def accepts counts_ok_def setAdd_def)
  next
    case (SideEffectStarted q a b c x)
    then show ?thesis using r assms(1) by (fastforce simp: applyRecord_def accepts counts_ok_def setAdd_def)
  qed (use assms(1) r in \<open>auto simp: applyRecord_def accepts counts_ok_def state_simps distinct_removeAll\<close>)
  then show ?thesis by (simp add: s' counts_ok_def)
qed

lemma phase_ok_step:
  assumes "phase_ok s" "applyValidatedAssignmentEntry sha s e = Inr s'"
  shows "phase_ok s'"
proof -
  obtain d s1 where r: "applyRecord sha s e d = Inr s1"
    and s': "s' = s1\<lparr>vs_lastSeq := vs_lastSeq s + 1, vs_chainDigest := d\<rparr>"
    by (rule apply_entryE [OF assms(2)])
  have same: "settled s1 \<Longrightarrow> settled s'" by (simp add: s' settled_def)
  show ?thesis
    using phase_ok_record [OF assms(1) r] phase_fits_cong [OF _ _ _ _ same]
    by (auto simp: s' phase_ok_def)
qed

section \<open>The owner's side: job and aborts\<close>

definition abort_ok :: "AssignmentLedgerValidationState \<Rightarrow> bool" where
  "abort_ok s \<longleftrightarrow>
     (\<forall>(k, a) \<in> set (vs_aborts s). k = abortKey (abortVia (ab_via a)) (ab_refId a)) \<and>
     (vs_streamProjectionEnabledAfter s \<noteq> None \<longrightarrow> isJob (vs_ref s))"

lemma set_update_within: "set (AList.update k v m) \<subseteq> insert (k, v) (set m)"
  by (induction m) auto

lemma abort_ok_step:
  assumes "phase_ok s" "abort_ok s" "applyValidatedAssignmentEntry sha s e = Inr s'"
  shows "abort_ok s'"
proof -
  obtain d s1 where r: "applyRecord sha s e d = Inr s1"
    and s': "s' = s1\<lparr>vs_lastSeq := vs_lastSeq s + 1, vs_chainDigest := d\<rparr>"
    by (rule apply_entryE [OF assms(3)])
  have "abort_ok s1"
  proof (cases "en_body e")
    case (AbortRequested source q)
    then obtain v where v: "s1 = s\<lparr>vs_aborts := omap_set (abortKey (abortVia source) q) v (vs_aborts s)\<rparr>"
      "ab_via v = source" "ab_refId v = q"
      using r by (auto simp: applyRecord_def accepts)
    show ?thesis
      using assms(2) set_update_within [of "abortKey (abortVia source) q" v "vs_aborts s"] v(2,3)
      by (auto simp: abort_ok_def v(1))
  next
    case (Received a b c)
    then show ?thesis using r assms(1,2) by (auto simp: applyRecord_def accepts abort_ok_def phase_ok_def)
  next
    case (InteractionFinished q out)
    then show ?thesis
      using r assms(2)
      by (auto simp: applyRecord_def accepts abort_ok_def state_simps)
  qed (use assms(2) r in \<open>auto simp: applyRecord_def accepts abort_ok_def state_simps\<close>)
  then show ?thesis by (simp add: s' abort_ok_def)
qed

section \<open>Every ledger\<close>

definition ledger_ok :: "AssignmentLedgerValidationState \<Rightarrow> bool" where
  "ledger_ok s \<longleftrightarrow> phase_ok s \<and> mirror_ok s \<and> projection_ok s \<and> counts_ok s \<and> abort_ok s"

lemma created:
  "createAssignmentLedgerValidationState sha a = Inr s \<Longrightarrow>
   ledger_ok s \<and> vs_lastSeq s = 0 \<and> vs_phase s = UnknownPhase \<and> vs_assignmentId s = a"
  by (auto simp: createAssignmentLedgerValidationState_def andThen_eq_Inr ledger_ok_def phase_ok_def mirror_ok_def
      projection_ok_def counts_ok_def abort_ok_def settled_def)

interpretation wellformed: ledger_history sha "\<lambda>_ _. True" "\<lambda>_. ledger_ok" for sha
proof
  show "ledger_ok s'" if "ledger_ok s" "applyValidatedAssignmentEntry sha s e = Inr s'" for s s' e
    using that by (auto simp: ledger_ok_def intro: phase_ok_step mirror_ok_step projection_ok_step counts_ok_step abort_ok_step)
qed (auto dest: created)

lemma ledger_is_ok: "ledgerState sha a es = Inr s \<Longrightarrow> ledger_ok s"
  by (rule wellformed.holds)

end
