(* ===== verification/Ledger_History.thy ===== *)
theory Ledger_History
  imports Ledger_Invariant
begin

text \<open>
  The state of a ledger as an account of its history: which interactions were asked and
  answered, which mutations were staged and which effects begun, and the mirror chain as
  the fold of the results in order. The functions of histories are the specification;
  the locale of histories shows that the state machine keeps to it.
\<close>

section \<open>Accounts of a history\<close>

definition gather :: "(AssignmentRecord \<Rightarrow> 'a option) \<Rightarrow> AssignmentEntry list \<Rightarrow> 'a list" where
  "gather f es = concat (map (\<lambda>e. case f (en_body e) of None \<Rightarrow> [] | Some x \<Rightarrow> [x]) es)"

fun requestOf :: "AssignmentRecord \<Rightarrow> string option" where
  "requestOf (InteractionRequested r _ _ _ _ _) = Some r"
| "requestOf _ = None"

fun answerOf :: "AssignmentRecord \<Rightarrow> string option" where
  "answerOf (InteractionFinished r _) = Some r"
| "answerOf _ = None"

fun mutationOf :: "AssignmentRecord \<Rightarrow> (int \<times> string) option" where
  "mutationOf (StagedMutation n _ _ r _) = Some (n, r)"
| "mutationOf _ = None"

fun effectBegunOf :: "AssignmentRecord \<Rightarrow> int option" where
  "effectBegunOf (SideEffectStarted n _ _ _ _) = Some n"
| "effectBegunOf _ = None"

fun effectEndedOf :: "AssignmentRecord \<Rightarrow> int option" where
  "effectEndedOf (SideEffectCompleted n _ _) = Some n"
| "effectEndedOf _ = None"

fun isAbort :: "AssignmentRecord \<Rightarrow> bool" where
  "isAbort (AbortRequested _ _) = True"
| "isAbort _ = False"

fun resultOf :: "AssignmentRecord \<Rightarrow> (string \<times> MirrorContent) option" where
  "resultOf (InteractionFinished r out) = Some (r, AnswerContent out)"
| "resultOf (TrustSediment r f) = Some (r, SedimentContent f)"
| "resultOf _ = None"

fun resultsFrom :: "int \<Rightarrow> AssignmentEntry list \<Rightarrow> InteractionMirrorEntry list" where
  "resultsFrom n [] = []"
| "resultsFrom n (e # es) = (case resultOf (en_body e) of
     None \<Rightarrow> resultsFrom n es
   | Some (r, c) \<Rightarrow>
       \<lparr>me_ordinal = n + 1, me_seq = en_recordSeq e, me_requestId = r, me_content = c\<rparr> # resultsFrom (n + 1) es)"

definition results :: "AssignmentEntry list \<Rightarrow> InteractionMirrorEntry list" where
  "results es = resultsFrom 0 es"

text \<open>The digests along the mirror chain, one after each result.\<close>

fun mirrorDigests ::
  "(string \<Rightarrow> string) \<Rightarrow> Digest \<Rightarrow> InteractionMirrorEntry list \<Rightarrow> (LedgerError, Digest list) result" where
  "mirrorDigests sha d [] = Inr []"
| "mirrorDigests sha d (m # ms) =
     andThen (advanceAssignmentInteractionMirrorDigest sha d m) (\<lambda>d'.
     andThen (mirrorDigests sha d' ms) (\<lambda>ds. Inr (d' # ds)))"

lemma gather_simps [simp]:
  "gather f [] = []" "gather f (es @ fs) = gather f es @ gather f fs"
  "gather f (e # es) = (case f (en_body e) of None \<Rightarrow> [] | Some x \<Rightarrow> [x]) @ gather f es"
  by (simp_all add: gather_def)

lemma resultsFrom_append:
  "resultsFrom n (es @ fs) = resultsFrom n es @ resultsFrom (n + int (length (resultsFrom n es))) fs"
  by (induction es arbitrary: n) (auto split: option.splits simp: add.assoc)

lemma results_snoc:
  "results (es @ [e]) = results es @ (case resultOf (en_body e) of None \<Rightarrow> []
     | Some (r, c) \<Rightarrow> [\<lparr>me_ordinal = int (length (results es)) + 1, me_seq = en_recordSeq e,
         me_requestId = r, me_content = c\<rparr>])"
  by (auto simp: results_def resultsFrom_append split: option.splits)

lemma results_Nil [simp]: "results [] = []"
  by (simp add: results_def)

lemma mirrorDigests_append:
  "mirrorDigests sha d (ms @ ns) = andThen (mirrorDigests sha d ms) (\<lambda>ds.
     andThen (mirrorDigests sha (last (d # ds)) ns) (\<lambda>ds'. Inr (ds @ ds')))"
  by (induction ms arbitrary: d) (auto simp: andThen_def split: sum.splits)

lemma mirrorDigests_length: "mirrorDigests sha d ms = Inr ds \<Longrightarrow> length ds = length ms"
  by (induction ms arbitrary: d ds) (auto simp: andThen_eq_Inr)

lemma mirrorDigests_take: "mirrorDigests sha d ms = Inr ds \<Longrightarrow> mirrorDigests sha d (take k ms) = Inr (take k ds)"
  by (induction ms arbitrary: d ds k) (auto simp: andThen_eq_Inr take_Cons split: nat.splits)

section \<open>Interactions, mutations and effects\<close>

definition accounted :: "AssignmentEntry list \<Rightarrow> AssignmentLedgerValidationState \<Rightarrow> bool" where
  "accounted es s \<longleftrightarrow>
     map en_recordSeq es = [1 .. vs_lastSeq s] \<and>
     vs_requestedInteractions s = gather requestOf es \<and> distinct (gather answerOf es) \<and>
     set (gather answerOf es) \<subseteq> set (gather requestOf es) \<and>
     set (vs_pendingInteractions s) = set (gather requestOf es) - set (gather answerOf es) \<and>
     map snd (gather mutationOf es) = vs_mutationRequestIds s \<and>
     map fst (gather mutationOf es) = [1 .. vs_stagedMutationCount s] \<and>
     gather effectBegunOf es = [1 .. vs_sideEffectCount s] \<and> distinct (gather effectEndedOf es) \<and>
     set (gather effectEndedOf es) \<subseteq> set (gather effectBegunOf es) \<and>
     set (vs_openSideEffects s) = set (gather effectBegunOf es) - set (gather effectEndedOf es) \<and>
     (vs_aborts s = [] \<longleftrightarrow> \<not> list_ex isAbort (map en_body es))"

lemma oweProjection_account [simp]:
  "vs_requestedInteractions (oweProjection s q) = vs_requestedInteractions s"
  "vs_pendingInteractions (oweProjection s q) = vs_pendingInteractions s"
  "vs_mutationRequestIds (oweProjection s q) = vs_mutationRequestIds s"
  "vs_stagedMutationCount (oweProjection s q) = vs_stagedMutationCount s"
  "vs_sideEffectCount (oweProjection s q) = vs_sideEffectCount s"
  "vs_openSideEffects (oweProjection s q) = vs_openSideEffects s"
  "vs_unmirroredFinished (oweProjection s q) = vs_unmirroredFinished s"
  "vs_finishedInteractionCount (oweProjection s q) = vs_finishedInteractionCount s"
  "vs_interactionMirrorDigest (oweProjection s q) = vs_interactionMirrorDigest s"
  "vs_mirroredInteractionOrdinal (oweProjection s q) = vs_mirroredInteractionOrdinal s"
  "vs_assignmentId (oweProjection s q) = vs_assignmentId s"
  by (simp_all add: oweProjection_def split: option.split)

lemma set_setAdd [simp]: "set (setAdd x xs) = insert x (set xs)"
  by (auto simp: setAdd_def)

lemma accounted_step:
  assumes "ledger_ok s" "accounted es s" "applyValidatedAssignmentEntry sha s e = Inr s'"
  shows "accounted (es @ [e]) s'"
proof -
  obtain d s1 where r: "applyRecord sha s e d = Inr s1" and e: "en_recordSeq e = vs_lastSeq s + 1"
    and s': "s' = s1\<lparr>vs_lastSeq := vs_lastSeq s + 1, vs_chainDigest := d\<rparr>"
    by (rule apply_entryE [OF assms(3)])
  have last: "0 \<le> vs_lastSeq s" and counts: "counts_ok s"
    using assms(1) by (auto simp: ledger_ok_def projection_ok_def)
  have staged: "0 \<le> vs_stagedMutationCount s" "0 \<le> vs_sideEffectCount s"
    using counts by (auto simp: counts_ok_def)
  have snoc: "[1 .. n + 1] = [1 .. n] @ [n + 1]" if "0 \<le> n" for n :: int
    using that by (simp add: upto_snoc)
  show ?thesis
    using assms(2) r
    by (cases "en_body e")
      (auto simp: applyRecord_def accepts accounted_def s' e snoc last staged state_simps)
qed

interpretation accounts: ledger_history sha "\<lambda>_. ledger_ok" accounted for sha
proof
  show "accounted [] s" if "createAssignmentLedgerValidationState sha a = Inr s" for a s
    using that by (auto simp: createAssignmentLedgerValidationState_def andThen_eq_Inr accounted_def)
qed (auto dest: ledger_is_ok intro: accounted_step)

section \<open>The mirror chain\<close>

definition checkpointOf :: "InteractionMirrorEntry \<Rightarrow> Digest \<Rightarrow> int \<times> MirrorCheckpoint" where
  "checkpointOf m d = (me_seq m, \<lparr>mc_ordinal = me_ordinal m, mc_mirrorDigest = d\<rparr>)"

definition chained ::
  "(string \<Rightarrow> string) \<Rightarrow> AssignmentEntry list \<Rightarrow> AssignmentLedgerValidationState \<Rightarrow> bool" where
  "chained sha es s \<longleftrightarrow> (\<exists>seed ds.
     interactionMirrorSeed sha (vs_assignmentId s) = Inr seed \<and> mirrorDigests sha seed (results es) = Inr ds \<and>
     vs_interactionMirrorDigest s = last (seed # ds) \<and>
     vs_finishedInteractionCount s = int (length (results es)) \<and>
     vs_unmirroredFinished s = drop (nat (vs_mirroredInteractionOrdinal s)) (map2 checkpointOf (results es) ds))"

lemma results_ordinals: "map me_ordinal (results es) = [1 .. int (length (results es))]"
  by (induction es rule: rev_induct) (auto simp: results_snoc upto_snoc split: option.splits)

lemma chained_same:
  "chained sha es s \<Longrightarrow> results fs = results es \<Longrightarrow> vs_assignmentId t = vs_assignmentId s \<Longrightarrow>
   vs_interactionMirrorDigest t = vs_interactionMirrorDigest s \<Longrightarrow>
   vs_finishedInteractionCount t = vs_finishedInteractionCount s \<Longrightarrow>
   vs_unmirroredFinished t = vs_unmirroredFinished s \<Longrightarrow>
   vs_mirroredInteractionOrdinal t = vs_mirroredInteractionOrdinal s \<Longrightarrow> chained sha fs t"
  by (simp add: chained_def)

lemma chained_linked:
  assumes ok: "mirror_ok s" and ch: "chained sha es s" and q: "q = vs_lastSeq s + 1"
    and e: "resultOf (en_body e) = Some (r, c)" "en_recordSeq e = q"
    and link: "mirrorLink sha s q r c d"
  shows "chained sha (es @ [e]) (linked s q d)"
proof -
  obtain seed ds where seed: "interactionMirrorSeed sha (vs_assignmentId s) = Inr seed"
    and ds: "mirrorDigests sha seed (results es) = Inr ds" and d: "vs_interactionMirrorDigest s = last (seed # ds)"
    and n: "vs_finishedInteractionCount s = int (length (results es))"
    and u: "vs_unmirroredFinished s = drop (nat (vs_mirroredInteractionOrdinal s)) (map2 checkpointOf (results es) ds)"
    using ch by (auto simp: chained_def)
  let ?m = "\<lparr>me_ordinal = vs_finishedInteractionCount s + 1, me_seq = q, me_requestId = r, me_content = c\<rparr>"
  have res: "results (es @ [e]) = results es @ [?m]" using e n by (simp add: results_snoc)
  have "q \<notin> fst ` set (vs_unmirroredFinished s)" using ok q by (auto simp: mirror_ok_def)
  then have new: "vs_unmirroredFinished (linked s q d) = vs_unmirroredFinished s @ [checkpointOf ?m d]"
    by (simp add: linked_def update_appends checkpointOf_def)
  have len: "length ds = length (results es)" using ds by (rule mirrorDigests_length)
  have "nat (vs_mirroredInteractionOrdinal s) \<le> length (results es)" using ok n unfolding mirror_ok_def by linarith
  then show ?thesis
    using seed ds d n u new len link res
    by (auto simp: chained_def mirrorDigests_append mirrorLink_def linked_def intro!: exI [of _ seed])
qed

lemma filter_above:
  fixes a b n :: int
  shows "map f xs = [a + 1..b] \<Longrightarrow> a \<le> n \<Longrightarrow> filter (\<lambda>x. \<not> f x \<le> n) xs = drop (nat (n - a)) xs"
proof (induction xs arbitrary: a)
  case (Cons x xs)
  then have "a + 1 \<le> b" using upto_empty [of b "a + 1"] by (cases "a + 1 \<le> b") auto
  then have f: "f x = a + 1" "map f xs = [a + 1 + 1..b]" using Cons.prems(1) by (auto simp: upto_rec1)
  show ?case
  proof (cases "a = n")
    case True
    have "f ` set xs = {a + 1 + 1..b}" using f(2) by (metis list.set_map set_upto)
    then have "a + 1 + 1 \<le> f y" if "y \<in> set xs" for y using that by (metis atLeastAtMost_iff imageI)
    then have "filter (\<lambda>x. \<not> f x \<le> n) xs = xs" using True by (force simp: filter_id_conv)
    with True f(1) show ?thesis by simp
  next
    case False
    then have "nat (n - a) = Suc (nat (n - (a + 1)))" using Cons.prems(2) by simp
    then show ?thesis using Cons.IH [OF f(2)] Cons.prems(2) False f(1) by simp
  qed
qed simp

text \<open>An accepted watermark drops the results up to it from the front.\<close>

lemma mirrored_drop:
  assumes "mirror_ok s" "applyMirrored s u n g = Inr s1"
    and u: "vs_unmirroredFinished s = drop (nat (vs_mirroredInteractionOrdinal s)) cs"
  shows "vs_unmirroredFinished s1 = drop (nat n) cs"
proof -
  have n: "vs_mirroredInteractionOrdinal s < n" "0 \<le> vs_mirroredInteractionOrdinal s"
    using assms(1,2) by (auto simp: accepts mirror_ok_def)
  have "filter (\<lambda>kc. \<not> upToOrdinal n kc) (vs_unmirroredFinished s)
      = drop (nat (n - vs_mirroredInteractionOrdinal s)) (vs_unmirroredFinished s)"
    using filter_above [of "\<lambda>kc. mc_ordinal (snd kc)" "vs_unmirroredFinished s"] assms(1) n(1)
    by (simp add: mirror_ok_def upToOrdinal_def)
  also have "\<dots> = drop (nat n) cs" using n by (simp add: u nat_diff_distrib)
  finally show ?thesis using assms(2) by (auto simp: accepts)
qed

lemma chained_step:
  assumes "ledger_ok s" "chained sha es s" "applyValidatedAssignmentEntry sha s e = Inr s'"
  shows "chained sha (es @ [e]) s'"
proof -
  obtain d s1 where r: "applyRecord sha s e d = Inr s1" and e: "en_recordSeq e = vs_lastSeq s + 1"
    and s': "s' = s1\<lparr>vs_lastSeq := vs_lastSeq s + 1, vs_chainDigest := d\<rparr>"
    by (rule apply_entryE [OF assms(3)])
  have mirror: "mirror_ok s" using assms(1) by (simp add: ledger_ok_def)
  show ?thesis
  proof (cases "en_body e")
    case (InteractionFinished q out)
    then obtain d' where s1: "s1 = oweProjection (linked (answered s (vs_lastSeq s + 1) q) (vs_lastSeq s + 1) d') (vs_lastSeq s + 1)"
      and link: "mirrorLink sha s (vs_lastSeq s + 1) q (AnswerContent out) d'"
      using r e by (auto simp: applyRecord_def accepts)
    have "chained sha (es @ [e]) (linked s (vs_lastSeq s + 1) d')"
      using chained_linked [OF mirror assms(2) refl _ e link] InteractionFinished by simp
    then show ?thesis by (rule chained_same) (simp_all add: s' s1 state_simps)
  next
    case (TrustSediment q f)
    then obtain d' where s1: "s1 = linked (s\<lparr>vs_trustSedimentCount := vs_trustSedimentCount s + 1\<rparr>) (vs_lastSeq s + 1) d'"
      and link: "mirrorLink sha s (vs_lastSeq s + 1) q (SedimentContent f) d'"
      using r e by (auto simp: applyRecord_def accepts)
    have "chained sha (es @ [e]) (linked s (vs_lastSeq s + 1) d')"
      using chained_linked [OF mirror assms(2) refl _ e link] TrustSediment by simp
    then show ?thesis by (rule chained_same) (simp_all add: s' s1 state_simps)
  next
    case (Mirrored u n g)
    then have acc: "applyMirrored s u n g = Inr s1" using r by (simp add: applyRecord_def)
    obtain seed ds where ds: "mirrorDigests sha seed (results es) = Inr ds"
      and u: "vs_unmirroredFinished s = drop (nat (vs_mirroredInteractionOrdinal s)) (map2 checkpointOf (results es) ds)"
      and rest: "interactionMirrorSeed sha (vs_assignmentId s) = Inr seed" "vs_interactionMirrorDigest s = last (seed # ds)"
        "vs_finishedInteractionCount s = int (length (results es))"
      using assms(2) by (auto simp: chained_def)
    have "vs_unmirroredFinished s1 = drop (nat n) (map2 checkpointOf (results es) ds)"
      by (rule mirrored_drop [OF mirror acc u])
    moreover have "results (es @ [e]) = results es" using Mirrored by (simp add: results_snoc)
    ultimately show ?thesis using ds rest acc by (auto simp: chained_def accepts s')
  qed (use assms(2) r in \<open>auto simp: applyRecord_def accepts s' state_simps results_snoc elim!: chained_same\<close>)
qed

interpretation chain: ledger_history sha "\<lambda>_. ledger_ok" "chained sha" for sha
proof
  show "chained sha [] s" if "createAssignmentLedgerValidationState sha a = Inr s" for a s
    using that by (auto simp: createAssignmentLedgerValidationState_def andThen_eq_Inr chained_def)
qed (auto dest: ledger_is_ok intro: chained_step)

end
