(* ===== verification/Ledger_Chain.thy ===== *)
theory Ledger_Chain
  imports Ledger_History
begin

text \<open>
  The chain of digests fixes the history. SHA-256 is not injective, so the statement is
  about two given histories: if no two of the byte strings that are hashed for them collide
  and their chains end in the same digest, then they are the ledgers of the same assignment
  and their entries have the same canonical texts, one by one.
  The second half closes aborted ledgers, with digests of the right form.
\<close>

section \<open>What is hashed\<close>

definition stepPayload :: "Digest \<Rightarrow> AssignmentEntry \<Rightarrow> json" where
  "stepPayload previous e = JObj [(''previous'', JStr previous), (''entry'', entry_json e)]"

fun inputsFrom :: "(string \<Rightarrow> string) \<Rightarrow> Digest \<Rightarrow> AssignmentEntry list \<Rightarrow> string list" where
  "inputsFrom sha d [] = []"
| "inputsFrom sha d (e # es) = (case protocolBytes ''AssignmentLedgerStep'' 1 (stepPayload d e) of
     Inl _ \<Rightarrow> []
   | Inr b \<Rightarrow> b # inputsFrom sha (''sha256:'' @ sha b) es)"

definition ledgerInputs :: "(string \<Rightarrow> string) \<Rightarrow> string \<Rightarrow> AssignmentEntry list \<Rightarrow> string list" where
  "ledgerInputs sha assignmentId es =
     (case protocolBytes ''AssignmentLedgerSeed'' 1 (JObj [(''assignmentId'', JStr assignmentId)]) of
        Inl _ \<Rightarrow> []
      | Inr b \<Rightarrow> b # inputsFrom sha (''sha256:'' @ sha b) es)"

definition collisionFree :: "(string \<Rightarrow> string) \<Rightarrow> string list \<Rightarrow> bool" where
  "collisionFree sha bs \<longleftrightarrow> list_all (\<lambda>x. list_all (\<lambda>y. sha x = sha y \<longrightarrow> x = y) bs) bs"

lemma collisionFreeD: "collisionFree sha bs \<Longrightarrow> x \<in> set bs \<Longrightarrow> y \<in> set bs \<Longrightarrow> sha x = sha y \<Longrightarrow> x = y"
  by (auto simp: collisionFree_def list_all_iff)

lemma collisionFree_mono: "collisionFree sha bs \<Longrightarrow> set cs \<subseteq> set bs \<Longrightarrow> collisionFree sha cs"
  by (auto simp: collisionFree_def list_all_iff)

lemma ledgerDigest_iff:
  "ledgerDigest sha i p = Inr d \<longleftrightarrow> (\<exists>b. protocolBytes i 1 p = Inr b \<and> d = ''sha256:'' @ sha b)"
  by (auto simp: ledgerDigest_def protocolDigest_def andThen_def split: sum.splits)

lemma advance_iff:
  "advanceAssignmentLedger sha p e = Inr d \<longleftrightarrow> isDigest p \<and> isSafeInteger (en_recordSeq e) \<and> 0 < en_recordSeq e \<and>
     (\<exists>b. protocolBytes ''AssignmentLedgerStep'' 1 (stepPayload p e) = Inr b \<and> d = ''sha256:'' @ sha b)"
  by (auto simp: advanceAssignmentLedger_def stepPayload_def assertDigest_def assertPositiveInteger_def andThen_eq_Inr
      ledgerDigest_iff)

lemma inputs_append:
  "replayEntries sha s es = Inr s' \<Longrightarrow>
   inputsFrom sha (vs_chainDigest s) (es @ fs)
     = inputsFrom sha (vs_chainDigest s) es @ inputsFrom sha (vs_chainDigest s') fs"
proof (induction es arbitrary: s)
  case (Cons e es)
  then obtain s0 where s0: "applyValidatedAssignmentEntry sha s e = Inr s0" "replayEntries sha s0 es = Inr s'"
    by (auto simp: andThen_eq_Inr)
  from s0(1) obtain b where "protocolBytes ''AssignmentLedgerStep'' 1 (stepPayload (vs_chainDigest s) e) = Inr b"
    "vs_chainDigest s0 = ''sha256:'' @ sha b"
    by (auto elim!: apply_entryE simp: advance_iff)
  with Cons.IH [OF s0(2)] show ?case by simp
qed simp

lemma ledger_seed:
  assumes "createAssignmentLedgerValidationState sha a = Inr s"
  obtains b where "protocolBytes ''AssignmentLedgerSeed'' 1 (JObj [(''assignmentId'', JStr a)]) = Inr b"
    "vs_chainDigest s = ''sha256:'' @ sha b" "\<And>es. ledgerInputs sha a es = b # inputsFrom sha (vs_chainDigest s) es"
  using assms
  by (auto simp: createAssignmentLedgerValidationState_def assignmentLedgerSeed_def ledgerDigest_iff andThen_eq_Inr
      ledgerInputs_def)

lemma ledger_inputs_snoc:
  assumes "ledgerState sha a es = Inr s" "applyValidatedAssignmentEntry sha s e = Inr s'"
  obtains b where "protocolBytes ''AssignmentLedgerStep'' 1 (stepPayload (vs_chainDigest s) e) = Inr b"
    "vs_chainDigest s' = ''sha256:'' @ sha b" "ledgerInputs sha a (es @ [e]) = ledgerInputs sha a es @ [b]"
    "isDigest (vs_chainDigest s)"
proof -
  obtain s0 where s0: "createAssignmentLedgerValidationState sha a = Inr s0" "replayEntries sha s0 es = Inr s"
    using assms(1) by (auto simp: ledgerState_def andThen_eq_Inr)
  obtain b where "protocolBytes ''AssignmentLedgerStep'' 1 (stepPayload (vs_chainDigest s) e) = Inr b"
    "vs_chainDigest s' = ''sha256:'' @ sha b" "isDigest (vs_chainDigest s)"
    using assms(2) by (auto elim!: apply_entryE simp: advance_iff)
  note step = this
  then have "inputsFrom sha (vs_chainDigest s) [e] = [b]" by simp
  then have "ledgerInputs sha a (es @ [e]) = ledgerInputs sha a es @ [b]"
    using ledger_seed [OF s0(1)] inputs_append [OF s0(2), of "[e]"] by (metis append_Cons)
  with step that show thesis by blast
qed

section \<open>What a step's text determines\<close>

lemma hex_escape: "isLowerHex c \<Longrightarrow> escape_char c = [c]"
proof -
  assume c: "isLowerHex c"
  then have "c \<notin> {CHR 0x22, CHR 0x5C, CHR 0x08, CHR 0x09, CHR 0x0A, CHR 0x0C, CHR 0x0D}"
    by (auto simp: isLowerHex_def)
  moreover have "\<not> of_char c < (32 :: nat)" using c unfolding isLowerHex_def Let_def by linarith
  ultimately show ?thesis by (simp add: escape_char_def)
qed

lemma hex_escapes: "list_all isLowerHex s \<Longrightarrow> concat (map escape_char s) = s"
  by (induction s) (auto simp: hex_escape)

lemma isDigest_iff: "isDigest p \<longleftrightarrow> (\<exists>h. p = ''sha256:'' @ h \<and> isHexDigest h)"
proof
  assume "isDigest p"
  then show "\<exists>h. p = ''sha256:'' @ h \<and> isHexDigest h"
    unfolding isDigest_def by (metis append_take_drop_id)
qed (auto simp: isDigest_def)

lemma digest_quote: "isDigest p \<Longrightarrow> length (json_quote p) = 73"
  by (auto simp: isDigest_iff json_quote_def hex_escapes isHexDigest_def escape_char_def)

lemma step_text:
  assumes "canonicalize (stepPayload p e) = Inr t"
  obtains x where "canonicalize (entry_json e) = Inr x"
    "t = ''{'' @ json_quote ''entry'' @ '':'' @ x @ '','' @ json_quote ''previous'' @ '':'' @ json_quote p @ ''}''"
proof -
  have "\<not> utf16_order ''previous'' \<le> utf16_order ''entry''" by code_simp
  then have order: "sort_key key_order [(''previous'', u), (''entry'', v)] = [(''entry'', v), (''previous'', u)]"
    for u v :: string by (simp add: key_order_def)
  show thesis
    using assms that
    by (auto simp: canonicalize_def stepPayload_def andThen_eq_Inr order render_field_def simp del: sort_key_simps)
qed

lemma seed_text:
  assumes "canonicalize (JObj [(''assignmentId'', JStr a)]) = canonicalize (JObj [(''assignmentId'', JStr b)])"
  shows "a = b"
  using assms json_quote_inj [of a "''}''" b "''}''"] by (simp add: canonicalize_def render_field_def)

lemma step_inj:
  assumes "isDigest p" "isDigest p'"
    and "protocolBytes ''AssignmentLedgerStep'' 1 (stepPayload p e) = Inr b"
    and "protocolBytes ''AssignmentLedgerStep'' 1 (stepPayload p' e') = Inr b"
  shows "p = p' \<and> canonicalize (entry_json e) = canonicalize (entry_json e')"
proof -
  obtain t where t: "canonicalize (stepPayload p e) = Inr t" "canonicalize (stepPayload p' e') = Inr t"
    using protocolBytes_parts [OF assms(3,4)] assms(3) by (auto simp: protocolBytes_def andThen_eq_Inr)
  obtain x where x: "canonicalize (entry_json e) = Inr x"
    "t = ''{'' @ json_quote ''entry'' @ '':'' @ x @ '','' @ json_quote ''previous'' @ '':'' @ json_quote p @ ''}''"
    by (rule step_text [OF t(1)])
  obtain x' where x': "canonicalize (entry_json e') = Inr x'"
    "t = ''{'' @ json_quote ''entry'' @ '':'' @ x' @ '','' @ json_quote ''previous'' @ '':'' @ json_quote p' @ ''}''"
    by (rule step_text [OF t(2)])
  have "x @ ('','' @ json_quote ''previous'' @ '':'' @ json_quote p @ ''}'')
      = x' @ ('','' @ json_quote ''previous'' @ '':'' @ json_quote p' @ ''}'')"
    using x(2) x'(2) by (simp only: append_assoc same_append_eq)
  then have "x = x'" and "json_quote p @ ''}'' = json_quote p' @ ''}''"
    using digest_quote [OF assms(1)] digest_quote [OF assms(2)]
    by (subst (asm) append_eq_append_conv; simp)+
  then show ?thesis using x(1) x'(1) json_quote_inj [of p _ p'] by auto
qed

section \<open>The chain fixes the history\<close>

lemma chain_determines:
  assumes "ledgerState sha a es = Inr s" "ledgerState sha b fs = Inr t" "vs_chainDigest s = vs_chainDigest t"
    and "collisionFree sha (ledgerInputs sha a es @ ledgerInputs sha b fs)"
  shows "a = b \<and> map (\<lambda>e. canonicalize (entry_json e)) es = map (\<lambda>e. canonicalize (entry_json e)) fs"
  using assms
proof (induction es arbitrary: s t fs rule: rev_induct)
  case Nil
  then have "createAssignmentLedgerValidationState sha a = Inr s" by (auto simp: ledgerState_def andThen_eq_Inr)
  then obtain x where x: "protocolBytes ''AssignmentLedgerSeed'' 1 (JObj [(''assignmentId'', JStr a)]) = Inr x"
    "vs_chainDigest s = ''sha256:'' @ sha x" "x \<in> set (ledgerInputs sha a [])"
    by (rule ledger_seed) auto
  show ?case
  proof (cases fs rule: rev_cases)
    case fs: Nil
    then have "createAssignmentLedgerValidationState sha b = Inr t"
      using Nil.prems by (auto simp: ledgerState_def andThen_eq_Inr)
    then obtain y where y: "protocolBytes ''AssignmentLedgerSeed'' 1 (JObj [(''assignmentId'', JStr b)]) = Inr y"
      "vs_chainDigest t = ''sha256:'' @ sha y" "y \<in> set (ledgerInputs sha b [])"
      by (rule ledger_seed) auto
    then have "x = y" using x Nil.prems(3,4) fs by (auto intro: collisionFreeD)
    then have "protocolBytes ''AssignmentLedgerSeed'' 1 (JObj [(''assignmentId'', JStr b)]) = Inr x" using y(1) by simp
    from protocolBytes_parts [OF x(1) this] show ?thesis using fs seed_text by blast
  next
    case (snoc fs' f)
    then obtain t0 where t0: "ledgerState sha b fs' = Inr t0" "applyValidatedAssignmentEntry sha t0 f = Inr t"
      using Nil.prems(2) by (auto elim: ledger_snocE)
    then obtain y where y: "protocolBytes ''AssignmentLedgerStep'' 1 (stepPayload (vs_chainDigest t0) f) = Inr y"
      "vs_chainDigest t = ''sha256:'' @ sha y" "y \<in> set (ledgerInputs sha b fs)"
      using ledger_inputs_snoc [OF t0] snoc by (metis in_set_conv_decomp)
    then have "x = y" using x Nil.prems(3,4) by (auto intro: collisionFreeD)
    then show ?thesis using protocolBytes_parts [OF x(1)] y(1) by blast
  qed
next
  case (snoc e es)
  then obtain s0 where s0: "ledgerState sha a es = Inr s0" "applyValidatedAssignmentEntry sha s0 e = Inr s"
    by (auto elim: ledger_snocE)
  then obtain x where x: "protocolBytes ''AssignmentLedgerStep'' 1 (stepPayload (vs_chainDigest s0) e) = Inr x"
    "vs_chainDigest s = ''sha256:'' @ sha x" "ledgerInputs sha a (es @ [e]) = ledgerInputs sha a es @ [x]"
    "isDigest (vs_chainDigest s0)"
    by (rule ledger_inputs_snoc)
  show ?case
  proof (cases fs rule: rev_cases)
    case Nil
    then have "createAssignmentLedgerValidationState sha b = Inr t"
      using snoc.prems by (auto simp: ledgerState_def andThen_eq_Inr)
    then obtain y where y: "protocolBytes ''AssignmentLedgerSeed'' 1 (JObj [(''assignmentId'', JStr b)]) = Inr y"
      "vs_chainDigest t = ''sha256:'' @ sha y" "y \<in> set (ledgerInputs sha b [])"
      by (rule ledger_seed) auto
    then have "x = y" using x snoc.prems(3,4) Nil by (auto intro: collisionFreeD)
    then show ?thesis using protocolBytes_parts [OF x(1)] y(1) by blast
  next
    case fs: (snoc fs' f)
    then obtain t0 where t0: "ledgerState sha b fs' = Inr t0" "applyValidatedAssignmentEntry sha t0 f = Inr t"
      using snoc.prems(2) by (auto elim: ledger_snocE)
    then obtain y where y: "protocolBytes ''AssignmentLedgerStep'' 1 (stepPayload (vs_chainDigest t0) f) = Inr y"
      "vs_chainDigest t = ''sha256:'' @ sha y" "ledgerInputs sha b (fs' @ [f]) = ledgerInputs sha b fs' @ [y]"
      "isDigest (vs_chainDigest t0)"
      by (rule ledger_inputs_snoc)
    have "x = y" using x y snoc.prems(3,4) fs by (auto intro: collisionFreeD)
    then have "vs_chainDigest s0 = vs_chainDigest t0" "canonicalize (entry_json e) = canonicalize (entry_json f)"
      using step_inj [OF x(4) y(4) x(1)] y(1) by auto
    moreover have "collisionFree sha (ledgerInputs sha a es @ ledgerInputs sha b fs')"
      using snoc.prems(4) x(3) y(3) fs by (auto elim!: collisionFree_mono)
    ultimately show ?thesis using snoc.IH [OF s0(1) t0(1)] fs by simp
  qed
qed

section \<open>Closing an aborted ledger\<close>

text \<open>
  An aborted ledger can always be closed: its open interactions can be cancelled, its
  results mirrored and projected, its side effects completed, and then it halts. The
  argument counts what is left to do; cancelling one interaction leaves at most one mirror
  and one projection to do, hence the weight three.
\<close>

section \<open>Digests and entries that are accepted\<close>

definition hexSha :: "(string \<Rightarrow> string) \<Rightarrow> bool" where
  "hexSha sha \<longleftrightarrow> (\<forall>b. isHexDigest (sha b))"

lemma hex_digest: "hexSha sha \<Longrightarrow> isDigest (''sha256:'' @ sha b)"
  by (auto simp: hexSha_def isDigest_iff)

lemma ledgerDigest_ok:
  assumes "hexSha sha" "assertSchema i 1 = Inr ()" "serialize p = Inr x"
  obtains d where "ledgerDigest sha i p = Inr d" "isDigest d"
  using assms by (auto simp: ledgerDigest_iff protocolBytes_def canonicalize_def intro: hex_digest [simplified])

lemma ledger_schemas:
  "assertSchema ''AssignmentLedgerStep'' 1 = Inr ()" "assertSchema ''InteractionMirrorStep'' 1 = Inr ()"
  by (simp_all add: assertSchema_def isAsciiLetter_def isAsciiDigit_def)

lemma entry_accepted:
  assumes "hexSha sha" "isDigest (vs_chainDigest s)" "0 \<le> vs_lastSeq s" "vs_lastSeq s + 1 \<le> 2 ^ 53 - 1"
    and "serialize (record_json body) = Inr x"
    and "\<And>d. applyRecord sha s \<lparr>en_recordSeq = vs_lastSeq s + 1, en_body = body\<rparr> d = Inr (f d)"
  obtains d where "isDigest d"
    "applyValidatedAssignmentEntry sha s \<lparr>en_recordSeq = vs_lastSeq s + 1, en_body = body\<rparr>
       = Inr ((f d)\<lparr>vs_lastSeq := vs_lastSeq s + 1, vs_chainDigest := d\<rparr>)"
proof -
  let ?e = "\<lparr>en_recordSeq = vs_lastSeq s + 1, en_body = body\<rparr>"
  obtain y where "serialize (stepPayload (vs_chainDigest s) ?e) = Inr y"
    using assms(5) by (simp add: stepPayload_def entry_json_def)
  then obtain d where "ledgerDigest sha ''AssignmentLedgerStep'' (stepPayload (vs_chainDigest s) ?e) = Inr d" "isDigest d"
    by (rule ledgerDigest_ok [OF assms(1) ledger_schemas(1)])
  with assms that [of d] show thesis
    by (simp add: applyValidatedAssignmentEntry_def advanceAssignmentLedger_def stepPayload_def assertDigest_def
        assertPositiveInteger_def isSafeInteger_def)
qed

section \<open>What is left to do\<close>

definition toClose :: "AssignmentLedgerValidationState \<Rightarrow> nat" where
  "toClose s = 3 * length (vs_pendingInteractions s) + (if vs_unmirroredFinished s = [] then 0 else 1) +
     (if vs_unprojectedFinished s = [] then 0 else 1) + length (vs_openSideEffects s)"

definition closable :: "AssignmentLedgerValidationState \<Rightarrow> bool" where
  "closable s \<longleftrightarrow> ledger_ok s \<and> vs_aborts s \<noteq> [] \<and> vs_phase s \<noteq> HaltedPhase \<and> isDigest (vs_chainDigest s) \<and>
     isDigest (vs_interactionMirrorDigest s) \<and> list_all isProtocolIdentifier (vs_pendingInteractions s) \<and>
     0 \<le> vs_finishedInteractionCount s \<and> vs_finishedInteractionCount s \<le> vs_lastSeq s \<and>
     vs_lastSeq s + int (toClose s) + 1 \<le> 2 ^ 53 - 1"

fun closingRecord :: "AssignmentRecord \<Rightarrow> bool" where
  "closingRecord (InteractionFinished _ out) = (out = InteractionCancelled ViaAbortTicket)"
| "closingRecord (SideEffectCompleted _ result _) = (result = EffectAborted)"
| "closingRecord (Mirrored _ _ _) = True"
| "closingRecord (StreamProjected _ _ _ _) = True"
| "closingRecord (Halted _) = True"
| "closingRecord _ = False"

lemma closable_step:
  assumes "closable s" "applyValidatedAssignmentEntry sha s e = Inr s'" "toClose s' < toClose s"
    and "vs_aborts s' = vs_aborts s" "vs_phase s' = vs_phase s" "isDigest (vs_chainDigest s')"
    and "isDigest (vs_interactionMirrorDigest s')" "set (vs_pendingInteractions s') \<subseteq> set (vs_pendingInteractions s)"
    and "vs_finishedInteractionCount s \<le> vs_finishedInteractionCount s'"
    and "vs_finishedInteractionCount s' \<le> vs_finishedInteractionCount s + 1"
  shows "closable s'"
proof -
  have "ledger_ok s'"
    using assms(1,2) by (auto simp: closable_def ledger_ok_def
        intro: phase_ok_step mirror_ok_step projection_ok_step counts_ok_step abort_ok_step)
  moreover have "vs_lastSeq s' = vs_lastSeq s + 1" using assms(2) by (auto elim: apply_entryE)
  ultimately show ?thesis using assms unfolding closable_def by (auto simp: list_all_iff)
qed

lemma cancel_one:
  assumes "hexSha sha" "closable s" "vs_pendingInteractions s \<noteq> []"
  obtains e s' where "applyValidatedAssignmentEntry sha s e = Inr s'" "closable s'" "toClose s' < toClose s"
    "closingRecord (en_body e)"
proof -
  obtain r rs where r: "vs_pendingInteractions s = r # rs" using assms(3) by (cases "vs_pendingInteractions s") auto
  let ?q = "vs_lastSeq s + 1" and ?out = "InteractionCancelled ViaAbortTicket"
  let ?m = "\<lparr>me_ordinal = vs_finishedInteractionCount s + 1, me_seq = ?q, me_requestId = r,
    me_content = AnswerContent ?out\<rparr>"
  obtain y where "serialize (JObj [(''previous'', JStr (vs_interactionMirrorDigest s)), (''entry'', mirrorEntry_json ?m)]) = Inr y"
    by (simp add: mirrorEntry_json_def)
  then obtain d where d: "ledgerDigest sha ''InteractionMirrorStep''
      (JObj [(''previous'', JStr (vs_interactionMirrorDigest s)), (''entry'', mirrorEntry_json ?m)]) = Inr d" "isDigest d"
    by (rule ledgerDigest_ok [OF assms(1) ledger_schemas(2)])
  have small: "0 \<le> vs_finishedInteractionCount s" "vs_finishedInteractionCount s \<le> vs_lastSeq s"
      "vs_lastSeq s + 1 \<le> 2 ^ 53 - 1" "isProtocolIdentifier r" "isDigest (vs_interactionMirrorDigest s)"
      "isDigest (vs_chainDigest s)" "distinct (r # rs)"
    using assms(2) r by (auto simp: closable_def ledger_ok_def counts_ok_def)
  then have link: "mirrorLink sha s ?q r (AnswerContent ?out) d"
    using d by (simp add: mirrorLink_def advanceAssignmentInteractionMirrorDigest_def assertDigest_def
        assertPositiveInteger_def isSafeInteger_def assertIdentifier_def checkMirrorContent_def)
  let ?s = "oweProjection (linked (answered s ?q r) ?q d) ?q"
  have rec: "applyRecord sha s \<lparr>en_recordSeq = ?q, en_body = InteractionFinished r ?out\<rparr> d' = Inr ?s" for d'
    using link r by (auto simp: applyRecord_def accepts checkAnswer_def)
  obtain x where ser: "serialize (record_json (InteractionFinished r ?out)) = Inr x" by (simp add: tagged_def)
  obtain d' where d': "isDigest d'"
    "applyValidatedAssignmentEntry sha s \<lparr>en_recordSeq = ?q, en_body = InteractionFinished r ?out\<rparr>
       = Inr (?s\<lparr>vs_lastSeq := ?q, vs_chainDigest := d'\<rparr>)"
    by (rule entry_accepted [OF assms(1) _ _ _ ser rec]) (use small in auto)
  have pending: "vs_pendingInteractions ?s = rs"
    using r small(7) by (simp add: state_simps removeAll_id)
  have less: "toClose (?s\<lparr>vs_lastSeq := ?q, vs_chainDigest := d'\<rparr>) < toClose s"
    using pending r by (simp add: toClose_def) (simp add: state_simps oweProjection_def split: option.split)
  show thesis
    by (rule that [OF d'(2) _ less], rule closable_step [OF assms(2) d'(2) less])
      (use d d' pending r in \<open>auto simp: state_simps\<close>)
qed

lemma mirror_all:
  assumes "hexSha sha" "closable s" "vs_unmirroredFinished s \<noteq> []"
  obtains e s' where "applyValidatedAssignmentEntry sha s e = Inr s'" "closable s'" "toClose s' < toClose s"
    "closingRecord (en_body e)"
proof -
  obtain kcs u c where l: "vs_unmirroredFinished s = kcs @ [(u, c)]"
    using assms(3) by (cases "vs_unmirroredFinished s" rule: rev_cases) auto
  have m: "mirror_ok s" and small: "isDigest (vs_chainDigest s)" "vs_lastSeq s + 1 \<le> 2 ^ 53 - 1" "0 \<le> vs_lastSeq s"
      "isDigest (vs_interactionMirrorDigest s)"
    using assms(2) by (auto simp: closable_def ledger_ok_def projection_ok_def)
  let ?n = "vs_finishedInteractionCount s" and ?d = "vs_interactionMirrorDigest s"
  have ords: "map (\<lambda>kc. mc_ordinal (snd kc)) (kcs @ [(u, c)]) = [vs_mirroredInteractionOrdinal s + 1 .. ?n]"
    and sorted: "sorted_wrt mirror_order (kcs @ [(u, c)])" and dig: "mc_mirrorDigest c = ?d"
    and up: "vs_mirroredUpTo s < u" "vs_mirroredInteractionOrdinal s \<le> ?n"
    using m l by (auto simp: mirror_ok_def)
  have len: "int (length (kcs @ [(u, c)])) = ?n - vs_mirroredInteractionOrdinal s"
    using arg_cong [OF ords, of length] up by simp
  then have lt: "vs_mirroredInteractionOrdinal s < ?n" by simp
  then have "last (map (\<lambda>kc. mc_ordinal (snd kc)) (kcs @ [(u, c)])) = ?n" unfolding ords by (simp add: upto_rec2)
  then have n: "mc_ordinal c = ?n" by simp
  have all: "upToOrdinal ?n kc" if "kc \<in> set (kcs @ [(u, c)])" for kc
    using ordinals_above(2) [OF m, of kc] that l by (simp add: upToOrdinal_def)
  have "map_of (kcs @ [(u, c)]) u = Some c"
    using sorted by (force simp: map_of_append map_of_eq_None_iff sorted_wrt_append mirror_order_def map_add_def split: option.split
        dest: map_of_SomeD)
  then have fits: "mirrorCheckpointFits s u ?n ?d" using l n dig by (simp add: mirrorCheckpointFits_def)
  let ?s = "s\<lparr>vs_unmirroredFinished := [], vs_mirroredUpTo := u, vs_mirroredInteractionOrdinal := ?n\<rparr>"
  have "filter (upToOrdinal ?n) (vs_unmirroredFinished s) = kcs @ [(u, c)]"
    "filter (\<lambda>kc. \<not> upToOrdinal ?n kc) (vs_unmirroredFinished s) = []"
    using all l by (auto simp: filter_id_conv filter_empty_conv)
  then have rec: "applyRecord sha s \<lparr>en_recordSeq = vs_lastSeq s + 1, en_body = Mirrored u ?n ?d\<rparr> d' = Inr ?s" for d'
    using fits up lt len by (simp add: applyRecord_def accepts)
  obtain x where ser: "serialize (record_json (Mirrored u ?n ?d)) = Inr x" by (simp add: tagged_def)
  obtain d' where d': "isDigest d'"
    "applyValidatedAssignmentEntry sha s \<lparr>en_recordSeq = vs_lastSeq s + 1, en_body = Mirrored u ?n ?d\<rparr>
       = Inr (?s\<lparr>vs_lastSeq := vs_lastSeq s + 1, vs_chainDigest := d'\<rparr>)"
    by (rule entry_accepted [OF assms(1) _ _ _ ser rec]) (use small in auto)
  have less: "toClose (?s\<lparr>vs_lastSeq := vs_lastSeq s + 1, vs_chainDigest := d'\<rparr>) < toClose s"
    using assms(3) by (simp add: toClose_def)
  show thesis
    by (rule that [OF d'(2) _ less], rule closable_step [OF assms(2) d'(2) less]) (use d' small in auto)
qed

lemma project_all:
  assumes "hexSha sha" "closable s" "vs_unprojectedFinished s \<noteq> []"
  obtains e s' where "applyValidatedAssignmentEntry sha s e = Inr s'" "closable s'" "toClose s' < toClose s"
    "closingRecord (en_body e)"
proof -
  have p: "projection_ok s" and a: "abort_ok s" and small: "isDigest (vs_chainDigest s)"
      "vs_lastSeq s + 1 \<le> 2 ^ 53 - 1" "0 \<le> vs_lastSeq s" "isDigest (vs_interactionMirrorDigest s)"
    using assms(2) by (auto simp: closable_def ledger_ok_def projection_ok_def)
  let ?u = "vs_lastFinishedInteractionRecordSeq s"
  obtain q where q: "q \<in> set (vs_unprojectedFinished s)" using assms(3) by (cases "vs_unprojectedFinished s") auto
  then have above: "vs_streamProjectedUpTo s < ?u" using p by (force simp: projection_ok_def)
  have enabled: "vs_streamProjectionEnabledAfter s \<noteq> None" using p assms(3) by (auto simp: projection_ok_def)
  then have u: "?u \<in> set (vs_unprojectedFinished s)" "isJob (vs_ref s)" "?u \<le> vs_lastSeq s"
    using p a above by (auto simp: projection_ok_def abort_ok_def)
  have none: "filter (\<lambda>q. \<not> q \<le> ?u) (vs_unprojectedFinished s) = []"
    using p by (auto simp: projection_ok_def filter_empty_conv)
  let ?b = "StreamProjected (vs_assignmentId s) ?u (vs_lastInteractionStreamSeq s + 1) (vs_chainDigest s)"
  let ?s = "\<lambda>d'. s\<lparr>vs_unprojectedFinished := [], vs_streamProjectedUpTo := ?u,
    vs_lastInteractionStreamSeq := vs_lastInteractionStreamSeq s + 1,
    vs_interactionStreamDigest := Some (vs_chainDigest s), vs_lastStreamProjectionRecordSeq := Some (vs_lastSeq s + 1),
    vs_lastStreamProjectionLedgerDigest := Some d'\<rparr>"
  have rec: "applyRecord sha s \<lparr>en_recordSeq = vs_lastSeq s + 1, en_body = ?b\<rparr> d' = Inr (?s d')" for d'
    using enabled u above none by (simp add: applyRecord_def accepts)
  obtain x where ser: "serialize (record_json ?b) = Inr x" by (simp add: tagged_def)
  obtain d' where d': "isDigest d'"
    "applyValidatedAssignmentEntry sha s \<lparr>en_recordSeq = vs_lastSeq s + 1, en_body = ?b\<rparr>
       = Inr ((?s d')\<lparr>vs_lastSeq := vs_lastSeq s + 1, vs_chainDigest := d'\<rparr>)"
    by (rule entry_accepted [OF assms(1) _ _ _ ser rec]) (use small in auto)
  have less: "toClose ((?s d')\<lparr>vs_lastSeq := vs_lastSeq s + 1, vs_chainDigest := d'\<rparr>) < toClose s"
    using assms(3) by (simp add: toClose_def)
  show thesis
    by (rule that [OF d'(2) _ less], rule closable_step [OF assms(2) d'(2) less]) (use d' small in auto)
qed

lemma complete_one:
  assumes "hexSha sha" "closable s" "vs_openSideEffects s \<noteq> []"
  obtains e s' where "applyValidatedAssignmentEntry sha s e = Inr s'" "closable s'" "toClose s' < toClose s"
    "closingRecord (en_body e)"
proof -
  obtain n ns where n: "vs_openSideEffects s = n # ns" using assms(3) by (cases "vs_openSideEffects s") auto
  have small: "isDigest (vs_chainDigest s)" "vs_lastSeq s + 1 \<le> 2 ^ 53 - 1" "0 \<le> vs_lastSeq s"
      "isDigest (vs_interactionMirrorDigest s)" "distinct (n # ns)"
    using assms(2) n by (auto simp: closable_def ledger_ok_def projection_ok_def counts_ok_def)
  let ?b = "SideEffectCompleted n EffectAborted None" and ?s = "s\<lparr>vs_openSideEffects := ns\<rparr>"
  have rec: "applyRecord sha s \<lparr>en_recordSeq = vs_lastSeq s + 1, en_body = ?b\<rparr> d' = Inr ?s" for d'
    using n small(5) by (simp add: applyRecord_def accepts removeAll_id)
  obtain x where ser: "serialize (record_json ?b) = Inr x" by (simp add: tagged_def optField_def)
  obtain d' where d': "isDigest d'"
    "applyValidatedAssignmentEntry sha s \<lparr>en_recordSeq = vs_lastSeq s + 1, en_body = ?b\<rparr>
       = Inr (?s\<lparr>vs_lastSeq := vs_lastSeq s + 1, vs_chainDigest := d'\<rparr>)"
    by (rule entry_accepted [OF assms(1) _ _ _ ser rec]) (use small in auto)
  have less: "toClose (?s\<lparr>vs_lastSeq := vs_lastSeq s + 1, vs_chainDigest := d'\<rparr>) < toClose s"
    using n by (simp add: toClose_def)
  show thesis
    by (rule that [OF d'(2) _ less], rule closable_step [OF assms(2) d'(2) less]) (use d' small in auto)
qed

section \<open>Halting\<close>

text \<open>The proof of the halt names the first abort and the end of the ledger.\<close>

definition haltCause :: "LedgerAbort \<Rightarrow> CancelProofCause" where
  "haltCause a = (case ab_via a of
     OwnerFence \<Rightarrow> FenceCause 1 (ab_refId a) | AbortTicket p \<Rightarrow> TicketCause (ab_refId a) p)"

definition haltProof :: "AssignmentLedgerValidationState \<Rightarrow> LedgerAbort \<Rightarrow> CancelProofBody" where
  "haltProof s a = \<lparr>cp_assignmentId = vs_assignmentId s, cp_executorId = ''executor'',
     cp_authority = ConversationEpoch ''conversation'' 0, cp_lastRecordSeq = vs_lastSeq s,
     cp_usageFinal = \<lparr>uf_reportDigest = vs_chainDigest s, uf_upToUsageSeq = 0\<rparr>, cp_ledgerDigest = vs_chainDigest s,
     cp_issuedAt = ''2026-01-01T00:00:00.000Z'', cp_signature = \<lparr>sg_alg = ''alg'', sg_keyId = ''key'', sg_sig = ''sig''\<rparr>,
     cp_cause = haltCause a,
     cp_decision = (if vs_started s then HaltedDecision (vs_sideEffectCount s) else NotStartedDecision)\<rparr>"

lemma halt_now:
  assumes "hexSha sha" "closable s" "settled s"
  obtains e s' where "applyValidatedAssignmentEntry sha s e = Inr s'" "vs_phase s' = HaltedPhase"
    "closingRecord (en_body e)"
proof -
  obtain k a rest where l: "vs_aborts s = (k, a) # rest"
    using assms(2) by (cases "vs_aborts s") (auto simp: closable_def)
  have ok: "phase_ok s" "counts_ok s" "abort_ok s" and small: "isDigest (vs_chainDigest s)"
      "vs_lastSeq s + 1 \<le> 2 ^ 53 - 1" "0 \<le> vs_lastSeq s" "vs_phase s \<noteq> HaltedPhase"
    using assms(2) by (auto simp: closable_def ledger_ok_def projection_ok_def)
  have key: "k = abortKey (abortVia (ab_via a)) (ab_refId a)" using ok(3) l by (auto simp: abort_ok_def)
  have match: "matchingAbort s (haltCause a)"
    using key l by (simp add: matchingAbort_def haltCause_def split: AbortSource.split)
  have closes: "closesCancellablePhase s (cp_decision (haltProof s a))"
    using ok(1) small(4) l
    by (cases "vs_phase s") (auto simp: phase_ok_def closesCancellablePhase_def haltProof_def)
  have rec: "applyRecord sha s \<lparr>en_recordSeq = vs_lastSeq s + 1, en_body = Halted (haltProof s a)\<rparr> d'
      = Inr (s\<lparr>vs_phase := HaltedPhase\<rparr>)" for d'
    using assms(3) match closes l by (simp add: applyRecord_def accepts settled_def) (simp add: haltProof_def)
  obtain x where ser: "serialize (record_json (Halted (haltProof s a))) = Inr x"
    by (cases "ab_via a"; cases "vs_started s")
      (simp_all add: tagged_def haltProof_def cancelProof_json_def usageFinal_json_def signature_json_def haltCause_def)
  show thesis
    by (rule entry_accepted [OF assms(1) _ _ _ ser rec]) (use small that in auto)
qed

section \<open>The way to the halt\<close>

lemma close:
  assumes "hexSha sha" "closable s"
  shows "\<exists>fs t. replayEntries sha s fs = Inr t \<and> vs_phase t = HaltedPhase \<and> list_all (\<lambda>e. closingRecord (en_body e)) fs"
  using assms(2)
proof (induction "toClose s" arbitrary: s rule: less_induct)
  case less
  show ?case
  proof (cases "settled s")
    case True
    then obtain e s' where "applyValidatedAssignmentEntry sha s e = Inr s'" "vs_phase s' = HaltedPhase"
      "closingRecord (en_body e)"
      by (rule halt_now [OF assms(1) less.prems])
    then show ?thesis by (intro exI [of _ "[e]"]) simp
  next
    case False
    then obtain e s' where e: "applyValidatedAssignmentEntry sha s e = Inr s'" "closable s'" "toClose s' < toClose s"
      "closingRecord (en_body e)"
      using cancel_one [OF assms(1) less.prems] mirror_all [OF assms(1) less.prems]
        project_all [OF assms(1) less.prems] complete_one [OF assms(1) less.prems]
      unfolding settled_def by metis
    from less.hyps [OF e(3,2)] obtain fs t where "replayEntries sha s' fs = Inr t" "vs_phase t = HaltedPhase"
      "list_all (\<lambda>e. closingRecord (en_body e)) fs" by blast
    with e show ?thesis by (intro exI [of _ "e # fs"]) auto
  qed
qed

end
