(* ===== verification/Ledger_Executor.thy ===== *)
theory Ledger_Executor
  imports Ledger_Chain
begin

text \<open>
  The executor's own view of a ledger (\<^verbatim>\<open>packages/executor/src/assignment-ledger.ts\<close>): the
  projection that \<^verbatim>\<open>applyEntry\<close> builds beside the validation state, the part of \<^verbatim>\<open>#reduce\<close> that
  keeps the two together, and the mirroring of results to the owner. The projection is the
  one of a full replay, so nothing of it has been left to the index (\<^verbatim>\<open>finishedBase\<close> is 0).
  The checks of \<^verbatim>\<open>#reduce\<close> against artifacts, envelopes, resources and the lease clock come
  before this part and are not modelled. \<open>parseTime\<close> stands for \<^verbatim>\<open>Date.parse\<close> on a canonical
  time.
\<close>

section \<open>Accepted intervals\<close>

datatype ProjectionError =
    Refused LedgerError
  | TimeNotCanonical
  | IntervalOutsideLimit
  | IntervalOutsideWindow
  | CorruptSequence
  | LostCheckpoint
  | LostPendingRequest
  | LostEffectStart
  | LostFinished
  | ProjectionDiverged
  | ControlDiverged

definition maxClockSkewMs :: int where
  "maxClockSkewMs = 120000"

definition maxControlLeaseTtlMs :: int where
  "maxControlLeaseTtlMs = 60000"

definition canonicalTime :: "(IsoTime \<Rightarrow> int option) \<Rightarrow> IsoTime \<Rightarrow> (ProjectionError, int) result" where
  "canonicalTime parseTime t = (case parseTime t of None \<Rightarrow> Inl TimeNotCanonical | Some n \<Rightarrow> Inr n)"

text \<open>\<open>None\<close> is the status \<^verbatim>\<open>expired\<close>.\<close>

definition acceptedRemoteIntervalStatus ::
  "(IsoTime \<Rightarrow> int option) \<Rightarrow> IsoTime \<Rightarrow> IsoTime \<Rightarrow> IsoTime \<Rightarrow> int \<Rightarrow> (ProjectionError, int option) result" where
  "acceptedRemoteIntervalStatus parseTime issuedAt expiry acceptedAt maxTtlMs =
     andThen (canonicalTime parseTime issuedAt) (\<lambda>issued.
     andThen (canonicalTime parseTime expiry) (\<lambda>expires.
     andThen (canonicalTime parseTime acceptedAt) (\<lambda>accepted.
       (let ttlMs = expires - issued; skew = accepted - issued in
       andThen (throwIf (\<not> isSafeInteger maxTtlMs \<or> maxTtlMs \<le> 0 \<or> ttlMs \<le> 0 \<or> maxTtlMs < ttlMs)
         IntervalOutsideLimit) (\<lambda>_.
       andThen (throwIf (skew < - maxClockSkewMs) IntervalOutsideWindow) (\<lambda>_.
         (let remainingMs = ttlMs - max 0 (skew - maxClockSkewMs) in
          Inr (if remainingMs \<le> 0 then None else Some remainingMs))))))))"

definition acceptedRemoteIntervalRemainingMs ::
  "(IsoTime \<Rightarrow> int option) \<Rightarrow> IsoTime \<Rightarrow> IsoTime \<Rightarrow> IsoTime \<Rightarrow> int \<Rightarrow> (ProjectionError, int) result" where
  "acceptedRemoteIntervalRemainingMs parseTime issuedAt expiry acceptedAt maxTtlMs =
     andThen (acceptedRemoteIntervalStatus parseTime issuedAt expiry acceptedAt maxTtlMs) (\<lambda>status.
       case status of None \<Rightarrow> Inl IntervalOutsideWindow | Some remainingMs \<Rightarrow> Inr remainingMs)"

section \<open>The projection\<close>

record ProjectedControl =
  pc_authority :: AuthorityEpochRef
  pc_ownerDeviceId :: string
  pc_lease :: ControlLease
  pc_validForMs :: int
  pc_acceptedAt :: IsoTime

record RecordedFact =
  rf_body :: AssignmentRecord
  rf_recordSeq :: int
  rf_ledgerDigest :: Digest

record RequestedInteraction =
  ri_body :: AssignmentRecord
  ri_recordSeq :: int

record MirrorChainItem =
  mi_body :: AssignmentRecord
  mi_recordSeq :: int
  mi_at :: IsoTime
  mi_ordinal :: int
  mi_mirrorDigest :: Digest

record ProjectedEffect =
  pe_started :: AssignmentRecord
  pe_completed :: "AssignmentRecord option"

record LedgerProjection =
  xp_assignmentId :: string
  xp_validation :: AssignmentLedgerValidationState
  xp_lastSeq :: int
  xp_chainDigest :: Digest
  xp_phase :: LedgerPhase
  xp_control :: "ProjectedControl option"
  xp_sealed :: "AssignmentRecord option"
  xp_received :: "RecordedFact option"
  xp_rejection :: "RecordedFact option"
  xp_started :: "(int \<times> Digest) option"
  xp_supersedeFence :: "RecordedFact option"
  xp_aborts :: "AssignmentRecord list"
  xp_halted :: "CancelProofBody option"
  xp_sideEffects :: "(int, ProjectedEffect) omap"
  xp_entries :: "AssignmentEntry list"
  xp_ledgerBySeq :: "Digest list"
  xp_requested :: "(string, RequestedInteraction) omap"
  xp_pendingRequests :: "(string, RequestedInteraction) omap"
  xp_finished :: "(string, MirrorChainItem) omap"
  xp_finishedOrder :: "MirrorChainItem list"
  xp_finishedIndexBySeq :: "(int, nat) omap"
  xp_stagedMutations :: "AssignmentRecord list"
  xp_mutationRequestIds :: "string list"
  xp_stagedMutationByRequestId :: "(string, AssignmentRecord) omap"
  xp_failure :: "AssignmentRecord option"
  xp_mirroredUpTo :: int
  xp_mirroredFinishedCount :: nat
  xp_mirroredInteractionOrdinal :: int
  xp_mirroredInteractionDigest :: Digest
  xp_streamProjectionEnabledAfter :: "int option"
  xp_streamProjectedUpTo :: int
  xp_lastInteractionStreamSeq :: int
  xp_interactionStreamDigest :: "Digest option"
  xp_lastStreamProjectionRecordSeq :: "int option"
  xp_lastStreamProjectionDigest :: "Digest option"
  xp_acknowledgedCommitRevision :: "int option"

definition emptyProjection :: "(string \<Rightarrow> string) \<Rightarrow> string \<Rightarrow> (LedgerError, LedgerProjection) result" where
  "emptyProjection sha assignmentId =
     andThen (createAssignmentLedgerValidationState sha assignmentId) (\<lambda>validation.
     andThen (assignmentLedgerSeed sha assignmentId) (\<lambda>chain.
     andThen (interactionMirrorSeed sha assignmentId) (\<lambda>mirror.
       Inr \<lparr>xp_assignmentId = assignmentId, xp_validation = validation, xp_lastSeq = 0, xp_chainDigest = chain,
         xp_phase = UnknownPhase, xp_control = None, xp_sealed = None, xp_received = None, xp_rejection = None,
         xp_started = None, xp_supersedeFence = None, xp_aborts = [], xp_halted = None, xp_sideEffects = [],
         xp_entries = [], xp_ledgerBySeq = [], xp_requested = [], xp_pendingRequests = [], xp_finished = [],
         xp_finishedOrder = [], xp_finishedIndexBySeq = [], xp_stagedMutations = [], xp_mutationRequestIds = [],
         xp_stagedMutationByRequestId = [], xp_failure = None, xp_mirroredUpTo = 0, xp_mirroredFinishedCount = 0,
         xp_mirroredInteractionOrdinal = 0, xp_mirroredInteractionDigest = mirror,
         xp_streamProjectionEnabledAfter = None, xp_streamProjectedUpTo = 0, xp_lastInteractionStreamSeq = 0,
         xp_interactionStreamDigest = None, xp_lastStreamProjectionRecordSeq = None,
         xp_lastStreamProjectionDigest = None, xp_acknowledgedCommitRevision = None\<rparr>)))"

definition finishedCount :: "LedgerProjection \<Rightarrow> nat" where
  "finishedCount x = length (xp_finishedOrder x)"

definition factOf :: "AssignmentEntry \<Rightarrow> Digest \<Rightarrow> RecordedFact" where
  "factOf e recordDigest = \<lparr>rf_body = en_body e, rf_recordSeq = en_recordSeq e, rf_ledgerDigest = recordDigest\<rparr>"

definition projectControl ::
  "(IsoTime \<Rightarrow> int option) \<Rightarrow> LedgerProjection \<Rightarrow> ControlLease \<Rightarrow> IsoTime \<Rightarrow> (ProjectionError, LedgerProjection) result" where
  "projectControl parseTime x lease acceptedAt =
     andThen (acceptedRemoteIntervalRemainingMs parseTime (cl_issuedAt lease) (cl_expiry lease) acceptedAt
       maxControlLeaseTtlMs) (\<lambda>validForMs.
       Inr (x\<lparr>xp_control := Some \<lparr>pc_authority = cl_authority lease, pc_ownerDeviceId = sg_keyId (cl_signature lease),
         pc_lease = lease, pc_validForMs = validForMs, pc_acceptedAt = acceptedAt\<rparr>\<rparr>))"

text \<open>The item of the mirror chain for the result that the validation has just recorded.\<close>

definition chainItem ::
  "LedgerProjection \<Rightarrow> AssignmentEntry \<Rightarrow> IsoTime \<Rightarrow> (ProjectionError, MirrorChainItem) result" where
  "chainItem x e acceptedAt = (case omap_get (vs_unmirroredFinished (xp_validation x)) (en_recordSeq e) of
     None \<Rightarrow> Inl LostCheckpoint
   | Some c \<Rightarrow> Inr \<lparr>mi_body = en_body e, mi_recordSeq = en_recordSeq e, mi_at = acceptedAt,
       mi_ordinal = mc_ordinal c, mi_mirrorDigest = mc_mirrorDigest c\<rparr>)"

definition pushItem :: "LedgerProjection \<Rightarrow> MirrorChainItem \<Rightarrow> LedgerProjection" where
  "pushItem x item = x\<lparr>xp_finishedIndexBySeq := omap_set (mi_recordSeq item) (finishedCount x) (xp_finishedIndexBySeq x),
     xp_finishedOrder := xp_finishedOrder x @ [item]\<rparr>"

definition projectFinished ::
  "LedgerProjection \<Rightarrow> AssignmentEntry \<Rightarrow> string \<Rightarrow> IsoTime \<Rightarrow> (ProjectionError, LedgerProjection) result" where
  "projectFinished x e requestId acceptedAt =
     andThen (chainItem x e acceptedAt) (\<lambda>item.
     andThen (throwIf (omap_get (xp_pendingRequests x) requestId = None) LostPendingRequest) (\<lambda>_.
       Inr (pushItem (x\<lparr>xp_pendingRequests := AList.delete requestId (xp_pendingRequests x),
         xp_finished := omap_set requestId item (xp_finished x)\<rparr>) item)))"

definition projectCompleted ::
  "LedgerProjection \<Rightarrow> int \<Rightarrow> AssignmentRecord \<Rightarrow> (ProjectionError, LedgerProjection) result" where
  "projectCompleted x effectSeq body = (case omap_get (xp_sideEffects x) effectSeq of
     None \<Rightarrow> Inl LostEffectStart
   | Some effect \<Rightarrow>
       Inr (x\<lparr>xp_sideEffects := omap_set effectSeq (effect\<lparr>pe_completed := Some body\<rparr>) (xp_sideEffects x)\<rparr>))"

definition projectMirrored ::
  "LedgerProjection \<Rightarrow> int \<Rightarrow> int \<Rightarrow> Digest \<Rightarrow> (ProjectionError, LedgerProjection) result" where
  "projectMirrored x upTo ordinal mirrorDigest = (case omap_get (xp_finishedIndexBySeq x) upTo of
     None \<Rightarrow> Inl LostFinished
   | Some finishedIndex \<Rightarrow> Inr (x\<lparr>xp_mirroredUpTo := upTo, xp_mirroredFinishedCount := finishedIndex + 1,
       xp_mirroredInteractionOrdinal := ordinal, xp_mirroredInteractionDigest := mirrorDigest\<rparr>))"

definition applyEntry ::
  "(IsoTime \<Rightarrow> int option) \<Rightarrow> LedgerProjection \<Rightarrow> AssignmentEntry \<Rightarrow> Digest \<Rightarrow> IsoTime \<Rightarrow>
   (ProjectionError, LedgerProjection) result" where
  "applyEntry parseTime x e recordDigest acceptedAt = (case en_body e of
     Received _ _ _ \<Rightarrow> Inr (x\<lparr>xp_phase := ReceivedPhase, xp_received := Some (factOf e recordDigest)\<rparr>)
   | DispatchRejected _ _ \<Rightarrow>
       Inr (x\<lparr>xp_phase := DispatchRejectedPhase, xp_rejection := Some (factOf e recordDigest)\<rparr>)
   | ControlLeaseRenewed lease _ \<Rightarrow> projectControl parseTime x lease acceptedAt
   | SupersedeFenced _ _ \<Rightarrow>
       Inr (x\<lparr>xp_phase := SupersedeFencedPhase, xp_supersedeFence := Some (factOf e recordDigest)\<rparr>)
   | RunStarted \<Rightarrow> Inr (x\<lparr>xp_phase := StartedPhase, xp_started := Some (en_recordSeq e, recordDigest)\<rparr>)
   | StreamProjectionEnabled legacyUpTo \<Rightarrow>
       Inr (x\<lparr>xp_streamProjectionEnabledAfter := Some legacyUpTo, xp_streamProjectedUpTo := legacyUpTo\<rparr>)
   | InteractionRequested requestId _ _ _ _ _ \<Rightarrow>
       (let requested = \<lparr>ri_body = en_body e, ri_recordSeq = en_recordSeq e\<rparr> in
        Inr (x\<lparr>xp_requested := omap_set requestId requested (xp_requested x),
          xp_pendingRequests := omap_set requestId requested (xp_pendingRequests x)\<rparr>))
   | InteractionFinished requestId _ \<Rightarrow> projectFinished x e requestId acceptedAt
   | TrustSediment _ _ \<Rightarrow> andThen (chainItem x e acceptedAt) (\<lambda>item. Inr (pushItem x item))
   | StagedMutation _ _ _ requestId _ \<Rightarrow>
       Inr (x\<lparr>xp_stagedMutations := xp_stagedMutations x @ [en_body e],
         xp_mutationRequestIds := setAdd requestId (xp_mutationRequestIds x),
         xp_stagedMutationByRequestId := omap_set requestId (en_body e) (xp_stagedMutationByRequestId x)\<rparr>)
   | SideEffectStarted effectSeq _ _ _ _ \<Rightarrow>
       Inr (x\<lparr>xp_sideEffects := omap_set effectSeq \<lparr>pe_started = en_body e, pe_completed = None\<rparr> (xp_sideEffects x)\<rparr>)
   | SideEffectCompleted effectSeq _ _ \<Rightarrow> projectCompleted x effectSeq (en_body e)
   | AbortRequested _ _ \<Rightarrow> Inr (x\<lparr>xp_aborts := xp_aborts x @ [en_body e]\<rparr>)
   | Halted proof \<Rightarrow> Inr (x\<lparr>xp_phase := HaltedPhase, xp_halted := Some proof\<rparr>)
   | ExecutionFailed _ _ \<Rightarrow> Inr (x\<lparr>xp_phase := FailedPhase, xp_failure := Some (en_body e)\<rparr>)
   | BundleSealed _ _ \<Rightarrow> Inr (x\<lparr>xp_phase := SealedPhase, xp_sealed := Some (en_body e)\<rparr>)
   | Acked commitRevision \<Rightarrow>
       Inr (x\<lparr>xp_phase := AckedPhase, xp_acknowledgedCommitRevision := Some commitRevision\<rparr>)
   | Mirrored upTo ordinal mirrorDigest \<Rightarrow> projectMirrored x upTo ordinal mirrorDigest
   | StreamProjected _ upTo lastStreamSeq streamDigest \<Rightarrow>
       Inr (x\<lparr>xp_streamProjectedUpTo := upTo, xp_lastInteractionStreamSeq := lastStreamSeq,
         xp_interactionStreamDigest := Some streamDigest, xp_lastStreamProjectionRecordSeq := Some (en_recordSeq e)\<rparr>)
   | CancelProofOwnerAccepted \<Rightarrow> Inr x
   | SettlementOwnerAccepted _ _ _ \<Rightarrow> Inr x)"

section \<open>Reducing one record\<close>

definition ledgerControl_json :: "LedgerControl option \<Rightarrow> json" where
  "ledgerControl_json c = (case c of
     None \<Rightarrow> JNull
   | Some c \<Rightarrow> JObj [(''authority'', authorityEpoch_json (lc_authority c)), (''ownerDeviceId'', JStr (lc_ownerDeviceId c)),
       (''controlLeaseId'', JStr (lc_controlLeaseId c)), (''renewalSeq'', JInt (lc_renewalSeq c))])"

definition projectedControl :: "LedgerProjection \<Rightarrow> LedgerControl option" where
  "projectedControl x = map_option (\<lambda>c. \<lparr>lc_authority = pc_authority c, lc_ownerDeviceId = pc_ownerDeviceId c,
     lc_controlLeaseId = cl_controlLeaseId (pc_lease c), lc_renewalSeq = cl_renewalSeq (pc_lease c)\<rparr>) (xp_control x)"

fun effectiveAcceptedAt :: "AssignmentRecord \<Rightarrow> IsoTime \<Rightarrow> IsoTime" where
  "effectiveAcceptedAt (Received _ _ (Some acceptedAt)) _ = acceptedAt"
| "effectiveAcceptedAt (ControlLeaseRenewed _ (Some acceptedAt)) _ = acceptedAt"
| "effectiveAcceptedAt _ commitAt = commitAt"

fun checkLease :: "(IsoTime \<Rightarrow> int option) \<Rightarrow> AssignmentRecord \<Rightarrow> IsoTime \<Rightarrow> (ProjectionError, unit) result" where
  "checkLease parseTime (ControlLeaseRenewed lease acceptedAt) commitAt =
     andThen (acceptedRemoteIntervalRemainingMs parseTime (cl_issuedAt lease) (cl_expiry lease)
       (effectiveAcceptedAt (ControlLeaseRenewed lease acceptedAt) commitAt) maxControlLeaseTtlMs) (\<lambda>_. Inr ())"
| "checkLease parseTime _ commitAt = Inr ()"

definition refused :: "(LedgerError, 'a) result \<Rightarrow> (ProjectionError, 'a) result" where
  "refused r = (case r of Inl err \<Rightarrow> Inl (Refused err) | Inr a \<Rightarrow> Inr a)"

definition checkTogether :: "LedgerProjection \<Rightarrow> (ProjectionError, unit) result" where
  "checkTogether x =
     andThen (throwIf (vs_lastSeq (xp_validation x) \<noteq> xp_lastSeq x \<or>
         vs_chainDigest (xp_validation x) \<noteq> xp_chainDigest x \<or> vs_phase (xp_validation x) \<noteq> xp_phase x)
       ProjectionDiverged) (\<lambda>_.
       throwIf (\<not> sameText (ledgerControl_json (vs_control (xp_validation x))) (ledgerControl_json (projectedControl x)))
         ControlDiverged)"

fun isStreamProjected :: "AssignmentRecord \<Rightarrow> bool" where
  "isStreamProjected (StreamProjected _ _ _ _) = True"
| "isStreamProjected _ = False"

definition reduceEntry ::
  "(string \<Rightarrow> string) \<Rightarrow> (IsoTime \<Rightarrow> int option) \<Rightarrow> LedgerProjection \<Rightarrow> AssignmentEntry \<Rightarrow> IsoTime \<Rightarrow>
   (ProjectionError, LedgerProjection) result" where
  "reduceEntry sha parseTime x e commitAt =
     andThen (throwIf (en_recordSeq e \<noteq> xp_lastSeq x + 1) CorruptSequence) (\<lambda>_.
     andThen (checkLease parseTime (en_body e) commitAt) (\<lambda>_.
     andThen (refused (applyValidatedAssignmentEntry sha (xp_validation x) e)) (\<lambda>validation.
     andThen (applyEntry parseTime (x\<lparr>xp_validation := validation\<rparr>) e (vs_chainDigest validation)
       (effectiveAcceptedAt (en_body e) commitAt)) (\<lambda>x1.
     (let x2 = x1\<lparr>xp_lastSeq := en_recordSeq e, xp_chainDigest := vs_chainDigest validation\<rparr> in
     andThen (checkTogether x2) (\<lambda>_.
       Inr (x2\<lparr>xp_entries := xp_entries x2 @ [e], xp_ledgerBySeq := xp_ledgerBySeq x2 @ [vs_chainDigest validation],
         xp_lastStreamProjectionDigest :=
           (if isStreamProjected (en_body e) then Some (vs_chainDigest validation)
            else xp_lastStreamProjectionDigest x2)\<rparr>)))))))"

fun reduceAll ::
  "(string \<Rightarrow> string) \<Rightarrow> (IsoTime \<Rightarrow> int option) \<Rightarrow> LedgerProjection \<Rightarrow> (AssignmentEntry \<times> IsoTime) list \<Rightarrow>
   (ProjectionError, LedgerProjection) result" where
  "reduceAll sha parseTime x [] = Inr x"
| "reduceAll sha parseTime x ((e, commitAt) # es) =
     andThen (reduceEntry sha parseTime x e commitAt) (\<lambda>x'. reduceAll sha parseTime x' es)"

definition executorLedger ::
  "(string \<Rightarrow> string) \<Rightarrow> (IsoTime \<Rightarrow> int option) \<Rightarrow> string \<Rightarrow> (AssignmentEntry \<times> IsoTime) list \<Rightarrow>
   (ProjectionError, LedgerProjection) result" where
  "executorLedger sha parseTime assignmentId es =
     andThen (refused (emptyProjection sha assignmentId)) (\<lambda>x. reduceAll sha parseTime x es)"

section \<open>Obligations and mirroring\<close>

definition receivedJob :: "LedgerProjection \<Rightarrow> bool" where
  "receivedJob x = (case xp_received x of
     None \<Rightarrow> False
   | Some f \<Rightarrow> (case rf_body f of Received _ activation _ \<Rightarrow> isJob (Some (aa_ref activation)) | _ \<Rightarrow> False))"

definition hasPendingInteractionObligations :: "LedgerProjection \<Rightarrow> bool" where
  "hasPendingInteractionObligations x \<longleftrightarrow>
     xp_pendingRequests x \<noteq> [] \<or> xp_mirroredFinishedCount x \<noteq> finishedCount x \<or>
     (receivedJob x \<and> xp_streamProjectionEnabledAfter x \<noteq> None \<and>
      xp_streamProjectedUpTo x < vs_lastFinishedInteractionRecordSeq (xp_validation x))"

record TimedMirrorEntry =
  tm_entry :: InteractionMirrorEntry
  tm_at :: IsoTime

definition mirrorEntry :: "MirrorChainItem \<Rightarrow> TimedMirrorEntry option" where
  "mirrorEntry item = (case resultOf (mi_body item) of
     None \<Rightarrow> None
   | Some (requestId, content) \<Rightarrow>
       Some \<lparr>tm_entry = \<lparr>me_ordinal = mi_ordinal item, me_seq = mi_recordSeq item, me_requestId = requestId,
         me_content = content\<rparr>, tm_at = mi_at item\<rparr>)"

definition timedEntry_json :: "TimedMirrorEntry \<Rightarrow> json" where
  "timedEntry_json t = JObj
     ([(''ordinal'', JInt (me_ordinal (tm_entry t))), (''seq'', JInt (me_seq (tm_entry t))),
       (''requestId'', JStr (me_requestId (tm_entry t)))] @ mirrorContent_fields (me_content (tm_entry t)) @
      [(''at'', JStr (tm_at t))])"

definition maxInlineLogicalRecordBytes :: nat where
  "maxInlineLogicalRecordBytes = 32 * 1024"

text \<open>Strings are bytes, so the length of a canonical text is its byte length.\<close>

definition mirrorRecordBytes ::
  "string \<Rightarrow> string \<Rightarrow> Digest \<Rightarrow> TimedMirrorEntry list \<Rightarrow> Digest \<Rightarrow> string \<Rightarrow> (LedgerError, nat) result" where
  "mirrorRecordBytes assignmentId executorId previousDigest entries mirrorDigest wide =
     (case canonicalize (JObj [(''t'', JStr ''interaction-mirror''), (''assignmentId'', JStr assignmentId),
        (''batch'', JObj [(''v'', JInt 1), (''assignmentId'', JStr assignmentId), (''executorId'', JStr executorId),
           (''previousDigest'', JStr previousDigest), (''entries'', JArr (map timedEntry_json entries)),
           (''mirrorDigest'', JStr mirrorDigest),
           (''signature'', JObj [(''alg'', JStr wide), (''keyId'', JStr wide), (''sig'', JStr wide)])])]) of
       Inl err \<Rightarrow> Inl (NotCanonical err) | Inr t \<Rightarrow> Inr (length t))"

definition interactionMirrorRecordCapacityBytes ::
  "string \<Rightarrow> string \<Rightarrow> Digest \<Rightarrow> TimedMirrorEntry list \<Rightarrow> Digest \<Rightarrow> (LedgerError, nat) result" where
  "interactionMirrorRecordCapacityBytes assignmentId executorId previousDigest entries mirrorDigest =
     mirrorRecordBytes assignmentId executorId previousDigest entries mirrorDigest (replicate 480 (CHR 0x00))"

datatype SelectError = SelectRefused LedgerError | NotAResult | ResultTooLarge

fun selectFrom ::
  "LedgerProjection \<Rightarrow> string \<Rightarrow> string \<Rightarrow> TimedMirrorEntry list \<Rightarrow> MirrorChainItem list \<Rightarrow>
   (SelectError, TimedMirrorEntry list) result" where
  "selectFrom x assignmentId executorId entries [] = Inr entries"
| "selectFrom x assignmentId executorId entries (item # items) =
     (if length entries = 256 then Inr entries
      else case mirrorEntry item of
        None \<Rightarrow> Inl NotAResult
      | Some candidate \<Rightarrow>
          (case interactionMirrorRecordCapacityBytes assignmentId executorId (xp_mirroredInteractionDigest x)
             (entries @ [candidate]) (mi_mirrorDigest item) of
             Inl err \<Rightarrow> Inl (SelectRefused err)
           | Inr nextBytes \<Rightarrow>
               if maxInlineLogicalRecordBytes < nextBytes
               then (if entries = [] then Inl ResultTooLarge else Inr entries)
               else selectFrom x assignmentId executorId (entries @ [candidate]) items))"

definition selectPendingInteractionMirrors ::
  "LedgerProjection \<Rightarrow> string \<Rightarrow> string \<Rightarrow> (SelectError, TimedMirrorEntry list) result" where
  "selectPendingInteractionMirrors x assignmentId executorId =
     selectFrom x assignmentId executorId [] (drop (xp_mirroredFinishedCount x) (xp_finishedOrder x))"

datatype BatchError = BatchRefused LedgerError | BatchSize | BatchNotContiguous

text \<open>
  The digest of a batch, as both the executor that signs it and the owner that validates it
  compute it.
\<close>

fun batchDigestFrom ::
  "(string \<Rightarrow> string) \<Rightarrow> Digest \<Rightarrow> int \<Rightarrow> int \<Rightarrow> TimedMirrorEntry list \<Rightarrow> (BatchError, Digest) result" where
  "batchDigestFrom sha mirrorDigest previousOrdinal previousSeq [] = Inr mirrorDigest"
| "batchDigestFrom sha mirrorDigest previousOrdinal previousSeq (t # ts) =
     andThen (throwIf (me_ordinal (tm_entry t) \<noteq> previousOrdinal + 1 \<or> me_seq (tm_entry t) \<le> previousSeq)
       BatchNotContiguous) (\<lambda>_.
     case advanceAssignmentInteractionMirrorDigest sha mirrorDigest (tm_entry t) of
       Inl err \<Rightarrow> Inl (BatchRefused err)
     | Inr d \<Rightarrow> batchDigestFrom sha d (me_ordinal (tm_entry t)) (me_seq (tm_entry t)) ts)"

definition mirrorBatchDigest ::
  "(string \<Rightarrow> string) \<Rightarrow> Digest \<Rightarrow> TimedMirrorEntry list \<Rightarrow> (BatchError, Digest) result" where
  "mirrorBatchDigest sha previousDigest entries =
     (if entries = [] \<or> 256 < length entries then Inl BatchSize
      else batchDigestFrom sha previousDigest (me_ordinal (tm_entry (hd entries)) - 1) 0 entries)"

end
