(* ===== verification/Ledger_Agreement.thy ===== *)
theory Ledger_Agreement
  imports Ledger_Executor
begin

text \<open>
  The projection of the executor follows the validation state: after every record both say
  the same about the phase, the control of the owner, the open requests and effects, and the
  results still to be mirrored, so the checks of the executor for a lost or diverged
  projection never fire.
\<close>

section \<open>One record in both\<close>

definition stepped ::
  "(string \<Rightarrow> string) \<Rightarrow> (IsoTime \<Rightarrow> int option) \<Rightarrow> LedgerProjection \<Rightarrow> AssignmentEntry \<Rightarrow> IsoTime \<Rightarrow>
   AssignmentLedgerValidationState \<Rightarrow> LedgerProjection \<Rightarrow> bool" where
  "stepped sha parseTime x e acceptedAt v x1 \<longleftrightarrow>
     applyValidatedAssignmentEntry sha (xp_validation x) e = Inr v \<and>
     applyEntry parseTime (x\<lparr>xp_validation := v\<rparr>) e (vs_chainDigest v) acceptedAt = Inr x1"

lemma oweProjection_validation [simp]:
  "vs_received (oweProjection s q) = vs_received s"
  "vs_streamProjectedUpTo (oweProjection s q) = vs_streamProjectedUpTo s"
  by (simp_all add: oweProjection_def split: option.split)

lemmas projection_defs = applyEntry_def projectControl_def projectFinished_def projectCompleted_def
  projectMirrored_def pushItem_def chainItem_def Let_def andThen_eq_Inr factOf_def

definition head_agrees :: "LedgerProjection \<Rightarrow> AssignmentLedgerValidationState \<Rightarrow> bool" where
  "head_agrees x v \<longleftrightarrow> xp_phase x = vs_phase v \<and> projectedControl x = vs_control v \<and>
     xp_streamProjectionEnabledAfter x = vs_streamProjectionEnabledAfter v \<and>
     xp_streamProjectedUpTo x = vs_streamProjectedUpTo v \<and>
     (case vs_ref v of
        None \<Rightarrow> xp_received x = None
      | Some ref \<Rightarrow> (\<exists>f a c t. xp_received x = Some f \<and> rf_body f = Received a c t \<and> aa_ref c = ref))"

lemma head_step:
  assumes "head_agrees x (xp_validation x)" "stepped sha parseTime x e t v x1"
  shows "head_agrees x1 v"
proof -
  obtain d s1 where r: "applyRecord sha (xp_validation x) e d = Inr s1"
    and v: "v = s1\<lparr>vs_lastSeq := vs_lastSeq (xp_validation x) + 1, vs_chainDigest := d\<rparr>"
    using assms(2) by (auto simp: stepped_def elim: apply_entryE)
  have "head_agrees x1 s1"
    using assms r
    by (cases "en_body e")
      (auto simp: stepped_def applyRecord_def accepts projection_defs head_agrees_def projectedControl_def state_simps
        split: option.splits)
  then show ?thesis by (simp add: v head_agrees_def)
qed

section \<open>Requests and effects\<close>

definition open_agrees :: "LedgerProjection \<Rightarrow> AssignmentLedgerValidationState \<Rightarrow> bool" where
  "open_agrees x v \<longleftrightarrow> map fst (xp_pendingRequests x) = vs_pendingInteractions v \<and>
     (\<forall>n. n \<in> set (vs_openSideEffects v) \<longleftrightarrow>
        (\<exists>f. omap_get (xp_sideEffects x) n = Some f \<and> pe_completed f = None))"

lemma map_fst_update: "map fst (AList.update k v m) = (if k \<in> fst ` set m then map fst m else map fst m @ [k])"
  by (induction m) auto

lemma map_fst_delete: "map fst (AList.delete k m) = removeAll k (map fst m)"
  by (induction m) auto

lemma open_step:
  assumes "open_agrees x (xp_validation x)" "ledger_ok (xp_validation x)" "stepped sha parseTime x e t v x1"
  shows "open_agrees x1 v"
proof -
  obtain d s1 where r: "applyRecord sha (xp_validation x) e d = Inr s1"
    and v: "v = s1\<lparr>vs_lastSeq := vs_lastSeq (xp_validation x) + 1, vs_chainDigest := d\<rparr>"
    using assms(3) by (auto simp: stepped_def elim: apply_entryE)
  have keys: "fst ` set (xp_pendingRequests x) = set (vs_pendingInteractions (xp_validation x))"
    using assms(1) by (metis list.set_map open_agrees_def)
  have "open_agrees x1 s1"
    using assms r keys
    by (cases "en_body e")
      (auto simp: stepped_def applyRecord_def accepts projection_defs open_agrees_def state_simps map_fst_update
        map_fst_delete update_conv' setAdd_def split: option.splits if_splits)
  then show ?thesis by (simp add: v open_agrees_def)
qed

section \<open>The mirror chain\<close>

definition itemCheckpoint :: "MirrorChainItem \<Rightarrow> int \<times> MirrorCheckpoint" where
  "itemCheckpoint i = (mi_recordSeq i, \<lparr>mc_ordinal = mi_ordinal i, mc_mirrorDigest = mi_mirrorDigest i\<rparr>)"

definition itemEntry :: "MirrorChainItem \<Rightarrow> InteractionMirrorEntry option" where
  "itemEntry i = map_option tm_entry (mirrorEntry i)"

definition chain_agrees ::
  "(string \<Rightarrow> string) \<Rightarrow> AssignmentEntry list \<Rightarrow> LedgerProjection \<Rightarrow> AssignmentLedgerValidationState \<Rightarrow> bool" where
  "chain_agrees sha es x v \<longleftrightarrow> (\<exists>seed.
     interactionMirrorSeed sha (vs_assignmentId v) = Inr seed \<and>
     mirrorDigests sha seed (results es) = Inr (map mi_mirrorDigest (xp_finishedOrder x)) \<and>
     vs_interactionMirrorDigest v = last (seed # map mi_mirrorDigest (xp_finishedOrder x)) \<and>
     map itemEntry (xp_finishedOrder x) = map Some (results es) \<and>
     int (length (xp_finishedOrder x)) = vs_finishedInteractionCount v \<and>
     int (xp_mirroredFinishedCount x) = vs_mirroredInteractionOrdinal v \<and>
     vs_unmirroredFinished v = drop (xp_mirroredFinishedCount x) (map itemCheckpoint (xp_finishedOrder x)) \<and>
     xp_mirroredInteractionDigest x
       = last (seed # take (xp_mirroredFinishedCount x) (map mi_mirrorDigest (xp_finishedOrder x))) \<and>
     xp_finishedIndexBySeq x
       = zip (map mi_recordSeq (xp_finishedOrder x)) [0..<length (xp_finishedOrder x)] \<and>
     sorted_wrt (<) (map mi_recordSeq (xp_finishedOrder x)) \<and>
     (\<forall>i \<in> set (xp_finishedOrder x). 0 < mi_recordSeq i \<and> mi_recordSeq i \<le> vs_lastSeq v))"

lemma itemEntry_fields:
  "itemEntry i = Some m \<Longrightarrow> mi_ordinal i = me_ordinal m \<and> mi_recordSeq i = me_seq m"
  by (auto simp: itemEntry_def mirrorEntry_def split: option.splits)

lemma ordinals_agree:
  assumes "map itemEntry order = map Some (results es)" "i < length order"
  shows "mi_ordinal (order ! i) = int i + 1"
proof -
  have len: "length order = length (results es)" using arg_cong [OF assms(1), of length] by simp
  have "itemEntry (order ! i) = Some (results es ! i)"
    using assms len by (metis nth_map)
  moreover have "me_ordinal (results es ! i) = int i + 1"
    using arg_cong [OF results_ordinals [of es], of "\<lambda>l. l ! i"] assms(2) len by simp
  ultimately show ?thesis using itemEntry_fields by metis
qed

lemma chain_push:
  assumes x: "chain_agrees sha es x v0" and ok: "mirror_ok v0" "0 \<le> vs_lastSeq v0"
    and e: "resultOf (en_body e) = Some (r, c)" "en_recordSeq e = vs_lastSeq v0 + 1"
    and link: "mirrorLink sha v0 (vs_lastSeq v0 + 1) r c d"
    and item: "item = \<lparr>mi_body = en_body e, mi_recordSeq = vs_lastSeq v0 + 1, mi_at = t,
      mi_ordinal = vs_finishedInteractionCount v0 + 1, mi_mirrorDigest = d\<rparr>"
    and v: "v = linked v0 (vs_lastSeq v0 + 1) d"
  shows "chain_agrees sha (es @ [e]) (pushItem x item) (v\<lparr>vs_lastSeq := vs_lastSeq v0 + 1\<rparr>)"
proof -
  let ?o = "xp_finishedOrder x"
  obtain seed where seed: "interactionMirrorSeed sha (vs_assignmentId v0) = Inr seed"
    and ds: "mirrorDigests sha seed (results es) = Inr (map mi_mirrorDigest ?o)"
    and d: "vs_interactionMirrorDigest v0 = last (seed # map mi_mirrorDigest ?o)"
    and ents: "map itemEntry ?o = map Some (results es)" and n: "int (length ?o) = vs_finishedInteractionCount v0"
    and k: "int (xp_mirroredFinishedCount x) = vs_mirroredInteractionOrdinal v0"
    and u: "vs_unmirroredFinished v0 = drop (xp_mirroredFinishedCount x) (map itemCheckpoint ?o)"
    and md: "xp_mirroredInteractionDigest x = last (seed # take (xp_mirroredFinishedCount x) (map mi_mirrorDigest ?o))"
    and ix: "xp_finishedIndexBySeq x = zip (map mi_recordSeq ?o) [0..<length ?o]"
    and so: "sorted_wrt (<) (map mi_recordSeq ?o)"
    and bd: "\<forall>i \<in> set ?o. 0 < mi_recordSeq i \<and> mi_recordSeq i \<le> vs_lastSeq v0"
    using x by (auto simp: chain_agrees_def)
  have "length ?o = length (results es)" using arg_cong [OF ents, of length] by simp
  then have res: "results (es @ [e]) = results es @ [\<lparr>me_ordinal = vs_finishedInteractionCount v0 + 1,
      me_seq = vs_lastSeq v0 + 1, me_requestId = r, me_content = c\<rparr>]"
    using e n by (simp add: results_snoc)
  have le: "xp_mirroredFinishedCount x \<le> length ?o" using k n ok(1) unfolding mirror_ok_def by linarith
  have "vs_lastSeq v0 + 1 \<notin> fst ` set (vs_unmirroredFinished v0)" using ok(1) by (auto simp: mirror_ok_def)
  then have new: "vs_unmirroredFinished v = vs_unmirroredFinished v0 @ [itemCheckpoint item]"
    by (simp add: v linked_def update_appends itemCheckpoint_def item)
  have ent: "itemEntry item = Some \<lparr>me_ordinal = vs_finishedInteractionCount v0 + 1,
      me_seq = vs_lastSeq v0 + 1, me_requestId = r, me_content = c\<rparr>"
    using e(1) by (simp add: itemEntry_def mirrorEntry_def item)
  have "vs_lastSeq v0 + 1 \<notin> fst ` set (xp_finishedIndexBySeq x)"
    using bd nth_mem [of _ ?o] by (fastforce simp: ix set_zip)
  then have "xp_finishedIndexBySeq (pushItem x item)
      = zip (map mi_recordSeq (?o @ [item])) [0..<length (?o @ [item])]"
    by (simp add: pushItem_def update_appends item finishedCount_def ix zip_append1)
  moreover have "mirrorDigests sha seed (results (es @ [e])) = Inr (map mi_mirrorDigest (?o @ [item]))"
    using ds d link by (simp add: res mirrorDigests_append mirrorLink_def item)
  moreover have "sorted_wrt (<) (map mi_recordSeq (?o @ [item]))"
    using so bd by (auto simp: sorted_wrt_append item)
  moreover have "\<forall>i \<in> set (?o @ [item]). 0 < mi_recordSeq i \<and> mi_recordSeq i \<le> vs_lastSeq v0 + 1"
    using bd ok(2) by (auto simp: item)
  moreover have "map itemEntry (?o @ [item]) = map Some (results (es @ [e]))"
    using ents ent by (simp add: res)
  ultimately show ?thesis
    using seed new u k n md le
    by (auto simp: chain_agrees_def pushItem_def v item linked_def intro!: exI [of _ seed])
qed

lemma chain_agrees_same:
  "chain_agrees sha es x v \<Longrightarrow> results fs = results es \<Longrightarrow> vs_lastSeq v \<le> vs_lastSeq w \<Longrightarrow>
   vs_assignmentId w = vs_assignmentId v \<Longrightarrow> vs_interactionMirrorDigest w = vs_interactionMirrorDigest v \<Longrightarrow>
   vs_finishedInteractionCount w = vs_finishedInteractionCount v \<Longrightarrow>
   vs_mirroredInteractionOrdinal w = vs_mirroredInteractionOrdinal v \<Longrightarrow>
   vs_unmirroredFinished w = vs_unmirroredFinished v \<Longrightarrow>
   xp_finishedOrder y = xp_finishedOrder x \<Longrightarrow> xp_mirroredFinishedCount y = xp_mirroredFinishedCount x \<Longrightarrow>
   xp_mirroredInteractionDigest y = xp_mirroredInteractionDigest x \<Longrightarrow>
   xp_finishedIndexBySeq y = xp_finishedIndexBySeq x \<Longrightarrow> chain_agrees sha fs y w"
  unfolding chain_agrees_def by (auto; force)

text \<open>An accepted watermark is found in the index, at the place of its ordinal.\<close>

lemma map_of_zip_upt:
  "distinct ks \<Longrightarrow> i < length ks \<Longrightarrow> map_of (zip ks [0..<length ks]) (ks ! i) = Some i"
  by (simp add: map_of_zip_nth)

lemma sorted_wrt_less_distinct: "sorted_wrt (<) (xs :: int list) \<Longrightarrow> distinct xs"
  by (induction xs) auto

lemma mirrored_found:
  assumes x: "chain_agrees sha es x v" and ok: "mirror_ok v" and acc: "applyMirrored v u n g = Inr w"
  shows "omap_get (xp_finishedIndexBySeq x) u = Some (nat n - 1)" "0 < n" "nat n \<le> length (xp_finishedOrder x)"
    "mi_mirrorDigest (xp_finishedOrder x ! (nat n - 1)) = g"
proof -
  let ?o = "xp_finishedOrder x"
  have ents: "map itemEntry ?o = map Some (results es)"
    and un: "vs_unmirroredFinished v = drop (xp_mirroredFinishedCount x) (map itemCheckpoint ?o)"
    and ix: "xp_finishedIndexBySeq x = zip (map mi_recordSeq ?o) [0..<length ?o]"
    and so: "distinct (map mi_recordSeq ?o)"
    using x by (auto simp: chain_agrees_def dest: sorted_wrt_less_distinct)
  obtain c where c: "(u, c) \<in> set (vs_unmirroredFinished v)" "mc_ordinal c = n" "mc_mirrorDigest c = g"
    using acc by (auto simp: accepts mirrorCheckpointFits_def dest: map_of_SomeD split: option.splits)
  then have "(u, c) \<in> set (map itemCheckpoint ?o)" unfolding un by (meson in_set_dropD)
  then obtain i where i: "i < length ?o" "itemCheckpoint (?o ! i) = (u, c)" by (auto simp: in_set_conv_nth)
  then have f: "mi_recordSeq (?o ! i) = u" "mi_ordinal (?o ! i) = n" "mi_mirrorDigest (?o ! i) = g"
    using c(2,3) by (auto simp: itemCheckpoint_def)
  then have n: "n = int i + 1" using ordinals_agree [OF ents i(1)] by simp
  then have "nat n - 1 = i" by simp
  then show "omap_get (xp_finishedIndexBySeq x) u = Some (nat n - 1)" "mi_mirrorDigest (?o ! (nat n - 1)) = g"
    "0 < n" "nat n \<le> length ?o"
    using map_of_zip_upt [OF so, of i] i(1) f n ix by auto
qed

lemma chain_mirrored:
  assumes x: "chain_agrees sha es x v" and ok: "mirror_ok v" and acc: "applyMirrored v u n g = Inr w"
    and y: "y = x\<lparr>xp_validation := z, xp_mirroredUpTo := u, xp_mirroredFinishedCount := nat n - 1 + 1,
      xp_mirroredInteractionOrdinal := n, xp_mirroredInteractionDigest := g\<rparr>"
  shows "chain_agrees sha es y w"
proof -
  let ?o = "xp_finishedOrder x"
  note found = mirrored_found [OF x ok acc]
  have k: "int (xp_mirroredFinishedCount x) = vs_mirroredInteractionOrdinal v"
    and un: "vs_unmirroredFinished v = drop (xp_mirroredFinishedCount x) (map itemCheckpoint ?o)"
    using x by (auto simp: chain_agrees_def)
  have "vs_unmirroredFinished w = drop (nat n) (map itemCheckpoint ?o)"
    by (rule mirrored_drop [OF ok acc]) (use un k in \<open>metis nat_int\<close>)
  moreover have "last (seed # take (nat n) (map mi_mirrorDigest ?o)) = g" for seed
  proof -
    have "take (nat n) (map mi_mirrorDigest ?o)
        = take (nat n - 1) (map mi_mirrorDigest ?o) @ [map mi_mirrorDigest ?o ! (nat n - 1)]"
      using found(2,3) by (metis Suc_pred' take_Suc_conv_app_nth length_map less_eq_Suc_le zero_less_nat_eq)
    then show ?thesis using found by simp
  qed
  moreover have "vs_assignmentId w = vs_assignmentId v" "vs_lastSeq w = vs_lastSeq v"
    "vs_interactionMirrorDigest w = vs_interactionMirrorDigest v"
    "vs_finishedInteractionCount w = vs_finishedInteractionCount v" "vs_mirroredInteractionOrdinal w = n"
    using acc by (auto simp: accepts)
  ultimately show ?thesis using x found(2) unfolding chain_agrees_def y by auto
qed

lemma chain_step:
  assumes x: "chain_agrees sha es x (xp_validation x)" and ok: "ledger_ok (xp_validation x)"
    and st: "stepped sha parseTime x e t v x1"
  shows "chain_agrees sha (es @ [e]) x1 v"
proof -
  let ?v = "xp_validation x"
  obtain d s1 where r: "applyRecord sha ?v e d = Inr s1" and e: "en_recordSeq e = vs_lastSeq ?v + 1"
    and v: "v = s1\<lparr>vs_lastSeq := vs_lastSeq ?v + 1, vs_chainDigest := d\<rparr>"
    using st by (auto simp: stepped_def elim: apply_entryE)
  have m: "mirror_ok ?v" and last: "0 \<le> vs_lastSeq ?v" using ok by (auto simp: ledger_ok_def projection_ok_def)
  let ?item = "\<lambda>d'. \<lparr>mi_body = en_body e, mi_recordSeq = vs_lastSeq ?v + 1, mi_at = t,
      mi_ordinal = vs_finishedInteractionCount ?v + 1, mi_mirrorDigest = d'\<rparr>"
  show ?thesis
  proof (cases "en_body e")
    case (InteractionFinished q out)
    then obtain d' where s1: "s1 = oweProjection (linked (answered ?v (vs_lastSeq ?v + 1) q) (vs_lastSeq ?v + 1) d') (vs_lastSeq ?v + 1)"
      and link: "mirrorLink sha ?v (vs_lastSeq ?v + 1) q (AnswerContent out) d'"
      using r e by (auto simp: applyRecord_def accepts)
    have "x1 = pushItem (x\<lparr>xp_validation := v, xp_pendingRequests := AList.delete q (xp_pendingRequests x),
        xp_finished := omap_set q (?item d') (xp_finished x)\<rparr>) (?item d')"
      using st e s1 v InteractionFinished
      by (auto simp: stepped_def applyEntry_def projectFinished_def chainItem_def andThen_eq_Inr state_simps update_conv')
    moreover have "chain_agrees sha (es @ [e]) (pushItem x (?item d')) ((linked ?v (vs_lastSeq ?v + 1) d')\<lparr>vs_lastSeq := vs_lastSeq ?v + 1\<rparr>)"
      using chain_push [OF x m last _ e link refl refl, of t] InteractionFinished by simp
    ultimately show ?thesis
      by (elim chain_agrees_same) (simp_all add: v s1 state_simps pushItem_def finishedCount_def)
  next
    case (TrustSediment q f)
    then obtain d' where s1: "s1 = linked (?v\<lparr>vs_trustSedimentCount := vs_trustSedimentCount ?v + 1\<rparr>) (vs_lastSeq ?v + 1) d'"
      and link: "mirrorLink sha ?v (vs_lastSeq ?v + 1) q (SedimentContent f) d'"
      using r e by (auto simp: applyRecord_def accepts)
    have "x1 = pushItem (x\<lparr>xp_validation := v\<rparr>) (?item d')"
      using st e s1 v TrustSediment
      by (auto simp: stepped_def applyEntry_def chainItem_def andThen_eq_Inr state_simps update_conv')
    moreover have "chain_agrees sha (es @ [e]) (pushItem x (?item d')) ((linked ?v (vs_lastSeq ?v + 1) d')\<lparr>vs_lastSeq := vs_lastSeq ?v + 1\<rparr>)"
      using chain_push [OF x m last _ e link refl refl, of t] TrustSediment by simp
    ultimately show ?thesis
      by (elim chain_agrees_same) (simp_all add: v s1 state_simps pushItem_def finishedCount_def)
  next
    case (Mirrored u n g)
    then have acc: "applyMirrored ?v u n g = Inr s1" using r by (simp add: applyRecord_def)
    have "x1 = x\<lparr>xp_validation := v, xp_mirroredUpTo := u, xp_mirroredFinishedCount := nat n - 1 + 1,
      xp_mirroredInteractionOrdinal := n, xp_mirroredInteractionDigest := g\<rparr>"
      using st Mirrored mirrored_found(1) [OF x m acc]
      by (simp add: stepped_def applyEntry_def projectMirrored_def)
    from chain_mirrored [OF x m acc this] show ?thesis
      by (rule chain_agrees_same) (use Mirrored acc in \<open>auto simp: v results_snoc accepts\<close>)
  qed (use x r st in \<open>auto simp: stepped_def applyRecord_def applyEntry_def projection_defs accepts v results_snoc
      elim!: chain_agrees_same split: option.splits\<close>)
qed

section \<open>Both together\<close>

definition together :: "(string \<Rightarrow> string) \<Rightarrow> string \<Rightarrow> LedgerProjection \<Rightarrow> bool" where
  "together sha a x \<longleftrightarrow> ledgerState sha a (xp_entries x) = Inr (xp_validation x) \<and>
     xp_lastSeq x = vs_lastSeq (xp_validation x) \<and> xp_chainDigest x = vs_chainDigest (xp_validation x) \<and>
     head_agrees x (xp_validation x) \<and> open_agrees x (xp_validation x) \<and>
     chain_agrees sha (xp_entries x) x (xp_validation x)"

fun divergence :: "ProjectionError \<Rightarrow> bool" where
  "divergence LostCheckpoint = True"
| "divergence LostPendingRequest = True"
| "divergence LostEffectStart = True"
| "divergence LostFinished = True"
| "divergence ProjectionDiverged = True"
| "divergence ControlDiverged = True"
| "divergence _ = False"

lemma checkLease_remaining:
  assumes "checkLease parseTime (en_body e) t = Inr ()" "en_body e = ControlLeaseRenewed l at"
  shows "\<exists>n. acceptedRemoteIntervalRemainingMs parseTime (cl_issuedAt l) (cl_expiry l)
    (effectiveAcceptedAt (en_body e) t) maxControlLeaseTtlMs = Inr n"
  using assms by (auto simp: andThen_eq_Inr)

lemma apply_total:
  assumes "together sha a x" "checkLease parseTime (en_body e) t = Inr ()"
    and st: "applyValidatedAssignmentEntry sha (xp_validation x) e = Inr v"
  shows "\<exists>x1. applyEntry parseTime (x\<lparr>xp_validation := v\<rparr>) e (vs_chainDigest v) (effectiveAcceptedAt (en_body e) t) = Inr x1"
proof -
  let ?v = "xp_validation x"
  obtain d s1 where r: "applyRecord sha ?v e d = Inr s1" and e: "en_recordSeq e = vs_lastSeq ?v + 1"
    and v: "v = s1\<lparr>vs_lastSeq := vs_lastSeq ?v + 1, vs_chainDigest := d\<rparr>"
    using st by (auto elim: apply_entryE)
  have op: "open_agrees x ?v" and ch: "chain_agrees sha (xp_entries x) x ?v" and m: "mirror_ok ?v"
    using assms(1) ledger_is_ok [of sha a "xp_entries x"] by (auto simp: together_def ledger_ok_def)
  show ?thesis
  proof (cases "en_body e")
    case (ControlLeaseRenewed l at)
    with checkLease_remaining [OF assms(2) this] show ?thesis by (auto simp: applyEntry_def projectControl_def)
  next
    case (InteractionFinished q out)
    then have "q \<in> fst ` set (xp_pendingRequests x)"
      using r op by (auto simp: applyRecord_def accepts open_agrees_def simp flip: list.set_map)
    then obtain y where "omap_get (xp_pendingRequests x) q = Some y" by (metis map_of_eq_None_iff not_None_eq)
    then show ?thesis
      using r e InteractionFinished
      by (auto simp: applyRecord_def accepts applyEntry_def projectFinished_def chainItem_def v state_simps update_conv')
  next
    case (TrustSediment q f)
    then show ?thesis
      using r e by (auto simp: applyRecord_def accepts applyEntry_def chainItem_def v state_simps update_conv')
  next
    case (SideEffectCompleted n st g)
    then have "n \<in> set (vs_openSideEffects ?v)" using r by (auto simp: applyRecord_def accepts)
    then obtain f where "omap_get (xp_sideEffects x) n = Some f" using op unfolding open_agrees_def by blast
    then show ?thesis using SideEffectCompleted by (simp add: applyEntry_def projectCompleted_def)
  next
    case (Mirrored u n g)
    then have "applyMirrored ?v u n g = Inr s1" using r by (simp add: applyRecord_def)
    from mirrored_found(1) [OF ch m this] show ?thesis
      using Mirrored by (simp add: applyEntry_def projectMirrored_def)
  qed (auto simp: applyEntry_def Let_def)
qed

lemma applyEntry_keeps:
  "applyEntry parseTime x e d t = Inr x1 \<Longrightarrow>
   xp_validation x1 = xp_validation x \<and> xp_entries x1 = xp_entries x"
  by (cases "en_body e") (auto simp: projection_defs split: option.splits)

lemma head_same:
  "head_agrees x v \<Longrightarrow> xp_phase y = xp_phase x \<Longrightarrow> xp_control y = xp_control x \<Longrightarrow>
   xp_streamProjectionEnabledAfter y = xp_streamProjectionEnabledAfter x \<Longrightarrow>
   xp_streamProjectedUpTo y = xp_streamProjectedUpTo x \<Longrightarrow> xp_received y = xp_received x \<Longrightarrow> head_agrees y v"
  by (simp add: head_agrees_def projectedControl_def split: option.splits)

lemma open_same:
  "open_agrees x v \<Longrightarrow> xp_pendingRequests y = xp_pendingRequests x \<Longrightarrow> xp_sideEffects y = xp_sideEffects x \<Longrightarrow>
   open_agrees y v"
  by (simp add: open_agrees_def)

lemma reduce_together:
  assumes t: "together sha a x"
  shows "case reduceEntry sha parseTime x e commitAt of
    Inl err \<Rightarrow> \<not> divergence err | Inr x' \<Rightarrow> together sha a x' \<and> xp_entries x' = xp_entries x @ [e]"
proof (cases "en_recordSeq e \<noteq> xp_lastSeq x + 1 \<or> checkLease parseTime (en_body e) commitAt \<noteq> Inr ()
    \<or> (\<exists>err. applyValidatedAssignmentEntry sha (xp_validation x) e = Inl err)")
  case True
  have "\<not> divergence err" if "checkLease parseTime (en_body e) commitAt = Inl err" for err
    using that
    by (cases "en_body e")
      (auto simp: acceptedRemoteIntervalRemainingMs_def acceptedRemoteIntervalStatus_def canonicalTime_def andThen_def
        throwIf_def Let_def split: option.splits sum.splits if_splits)
  with True show ?thesis
    by (auto simp: reduceEntry_def throwIf_def refused_def andThen_def split: sum.splits)
next
  case False
  then obtain v where seq: "en_recordSeq e = xp_lastSeq x + 1" and lease: "checkLease parseTime (en_body e) commitAt = Inr ()"
    and v: "applyValidatedAssignmentEntry sha (xp_validation x) e = Inr v"
    by (cases "applyValidatedAssignmentEntry sha (xp_validation x) e") auto
  obtain x1 where x1: "applyEntry parseTime (x\<lparr>xp_validation := v\<rparr>) e (vs_chainDigest v)
      (effectiveAcceptedAt (en_body e) commitAt) = Inr x1"
    using apply_total [OF t lease v] by blast
  then have st: "stepped sha parseTime x e (effectiveAcceptedAt (en_body e) commitAt) v x1"
    using v by (simp add: stepped_def)
  have led: "ledgerState sha a (xp_entries x) = Inr (xp_validation x)" using t by (simp add: together_def)
  note ok = ledger_is_ok [OF led]
  have head: "head_agrees x1 v" and opn: "open_agrees x1 v" and chain: "chain_agrees sha (xp_entries x @ [e]) x1 v"
    using t head_step [OF _ st] open_step [OF _ ok st] chain_step [OF _ ok st] by (auto simp: together_def)
  have keeps: "xp_validation x1 = v" "xp_entries x1 = xp_entries x" using applyEntry_keeps [OF x1] by auto
  have last: "vs_lastSeq v = en_recordSeq e" using v by (auto elim: apply_entryE)
  let ?x2 = "x1\<lparr>xp_lastSeq := en_recordSeq e, xp_chainDigest := vs_chainDigest v\<rparr>"
  have "checkTogether ?x2 = Inr ()"
    using head keeps last by (simp add: checkTogether_def head_agrees_def projectedControl_def sameText_def)
  then have red: "reduceEntry sha parseTime x e commitAt =
      Inr (?x2\<lparr>xp_entries := xp_entries x @ [e], xp_ledgerBySeq := xp_ledgerBySeq x1 @ [vs_chainDigest v],
        xp_lastStreamProjectionDigest := (if isStreamProjected (en_body e) then Some (vs_chainDigest v)
          else xp_lastStreamProjectionDigest x1)\<rparr>)"
    using seq lease v x1 keeps by (simp add: reduceEntry_def refused_def Let_def)
  have "ledgerState sha a (xp_entries x @ [e]) = Inr v" using led v by (simp add: ledger_append)
  then show ?thesis
    using head opn chain keeps last
    by (auto simp: red together_def elim!: head_same open_same chain_agrees_same)
qed

lemma together_all:
  assumes "together sha a x"
  shows "case reduceAll sha parseTime x es of
    Inl err \<Rightarrow> \<not> divergence err | Inr x' \<Rightarrow> together sha a x' \<and> xp_entries x' = xp_entries x @ map fst es"
  using assms
proof (induction es arbitrary: x)
  case (Cons p es)
  obtain e t where p: "p = (e, t)" by (cases p)
  show ?case
  proof (cases "reduceEntry sha parseTime x e t")
    case (Inl err)
    then show ?thesis using reduce_together [OF Cons.prems, where parseTime = parseTime and e = e and commitAt = t] by (simp add: p)
  next
    case (Inr x')
    then have "together sha a x'" "xp_entries x' = xp_entries x @ [e]"
      using reduce_together [OF Cons.prems, where parseTime = parseTime and e = e and commitAt = t] by auto
    with Cons.IH [OF this(1)] Inr show ?thesis by (simp add: p split: sum.splits)
  qed
qed simp

lemma empty_together:
  assumes "emptyProjection sha a = Inr x"
  shows "together sha a x \<and> xp_entries x = []"
  using assms
  by (auto simp: emptyProjection_def createAssignmentLedgerValidationState_def andThen_eq_Inr together_def ledgerState_def
      head_agrees_def open_agrees_def chain_agrees_def projectedControl_def)

lemma executor_together:
  "case executorLedger sha parseTime a es of
     Inl err \<Rightarrow> \<not> divergence err
   | Inr x \<Rightarrow> together sha a x \<and> xp_entries x = map fst es"
proof (cases "emptyProjection sha a")
  case (Inl err)
  then show ?thesis by (simp add: executorLedger_def refused_def)
next
  case (Inr x)
  from empty_together [OF this] together_all [of sha a x, where parseTime = parseTime and es = es] Inr show ?thesis
    by (simp add: executorLedger_def refused_def split: sum.splits)
qed

section \<open>Obligations\<close>

lemma obligations_settled:
  assumes "together sha a x"
  shows "hasPendingInteractionObligations x \<longleftrightarrow>
    vs_pendingInteractions (xp_validation x) \<noteq> [] \<or> vs_unmirroredFinished (xp_validation x) \<noteq> [] \<or>
    vs_unprojectedFinished (xp_validation x) \<noteq> []"
proof -
  let ?v = "xp_validation x"
  have h: "head_agrees x ?v" and o: "open_agrees x ?v" and c: "chain_agrees sha (xp_entries x) x ?v"
    and ok: "mirror_ok ?v" "projection_ok ?v" "abort_ok ?v"
    using assms ledger_is_ok [of sha a "xp_entries x"] by (auto simp: together_def ledger_ok_def)
  have "xp_pendingRequests x = [] \<longleftrightarrow> vs_pendingInteractions ?v = []"
    using o by (metis map_is_Nil_conv open_agrees_def)
  moreover have "xp_mirroredFinishedCount x = finishedCount x \<longleftrightarrow> vs_unmirroredFinished ?v = []"
  proof -
    have "int (xp_mirroredFinishedCount x) \<le> int (length (xp_finishedOrder x))"
      and "vs_unmirroredFinished ?v = drop (xp_mirroredFinishedCount x) (map itemCheckpoint (xp_finishedOrder x))"
      using c ok(1) by (auto simp: chain_agrees_def mirror_ok_def)
    then show ?thesis by (auto simp: finishedCount_def)
  qed
  moreover have "receivedJob x \<longleftrightarrow> isJob (vs_ref ?v)"
    using h by (auto simp: head_agrees_def receivedJob_def split: option.splits)
  moreover have "xp_streamProjectionEnabledAfter x = vs_streamProjectionEnabledAfter ?v"
    "xp_streamProjectedUpTo x = vs_streamProjectedUpTo ?v"
    using h by (auto simp: head_agrees_def)
  moreover have "vs_unprojectedFinished ?v \<noteq> [] \<longleftrightarrow> vs_streamProjectionEnabledAfter ?v \<noteq> None \<and>
      vs_streamProjectedUpTo ?v < vs_lastFinishedInteractionRecordSeq ?v"
    using ok(2) unfolding projection_ok_def by (cases "vs_unprojectedFinished ?v") force+
  ultimately show ?thesis using ok(3) by (auto simp: hasPendingInteractionObligations_def abort_ok_def)
qed

end
