(* ===== verification/Ledger_Mirroring.thy ===== *)
theory Ledger_Mirroring
  imports Ledger_Agreement
begin

text \<open>
  Mirroring between the executor and the owner: the batch that the executor selects is a
  prefix of the results not yet mirrored, both sides compute the digest of its last result,
  and the receipt for it is an entry that the ledger accepts.
\<close>

section \<open>Watermarks that are accepted\<close>

text \<open>
  Any result not yet mirrored can be acknowledged, with the digest recorded for it; the
  results up to it are released, without a gap.
\<close>

lemma watermark_accepted:
  assumes ok: "mirror_ok v" and i: "i < length (vs_unmirroredFinished v)" "vs_unmirroredFinished v ! i = (u, c)"
  shows "\<exists>w. applyMirrored v u (mc_ordinal c) (mc_mirrorDigest c) = Inr w"
proof -
  let ?l = "vs_unmirroredFinished v" and ?k = "vs_mirroredInteractionOrdinal v"
  have ords: "map (\<lambda>kc. mc_ordinal (snd kc)) ?l = [?k + 1 .. vs_finishedInteractionCount v]"
    and sorted: "sorted_wrt mirror_order ?l" and mem: "(u, c) \<in> set ?l"
    using ok i nth_mem [OF i(1)] by (auto simp: mirror_ok_def)
  have len: "length ?l = nat (vs_finishedInteractionCount v - ?k)" using arg_cong [OF ords, of length] by simp
  have ord: "mc_ordinal c = ?k + 1 + int i"
    using arg_cong [OF ords, of "\<lambda>l. l ! i"] i len by (simp add: nth_upto)
  have keys: "sorted_wrt (<) (map fst ?l)"
    using sorted by (auto simp: sorted_wrt_map mirror_order_def elim!: sorted_wrt_mono_rel [rotated])
  then have "map_of ?l u = Some c" using mem by (simp add: sorted_wrt_less_distinct)
  then have fits: "mirrorCheckpointFits v u (mc_ordinal c) (mc_mirrorDigest c)" by (simp add: mirrorCheckpointFits_def)
  have "filter (\<lambda>kc. \<not> mc_ordinal (snd kc) \<le> mc_ordinal c) ?l = drop (nat (mc_ordinal c - ?k)) ?l"
    by (rule filter_above [OF ords]) (simp add: ord)
  moreover have "length (filter (upToOrdinal (mc_ordinal c)) ?l)
      + length (filter (\<lambda>kc. \<not> upToOrdinal (mc_ordinal c) kc) ?l) = length ?l"
    by (rule sum_length_filter_compl)
  ultimately have "length (filter (upToOrdinal (mc_ordinal c)) ?l) = Suc i"
    using i(1) ord by (simp add: upToOrdinal_def [abs_def] nat_add_distrib)
  moreover have "vs_mirroredUpTo v < u" using ok mem by (force simp: mirror_ok_def)
  ultimately show ?thesis using fits ord by (auto simp: accepts)
qed

section \<open>The selected batch\<close>

lemma selectFrom_prefix:
  "selectFrom x a ex acc items = Inr entries \<Longrightarrow> length acc \<le> 256 \<Longrightarrow>
   \<exists>j \<le> length items. map Some entries = map Some acc @ map mirrorEntry (take j items) \<and> length entries \<le> 256"
proof (induction items arbitrary: acc)
  case (Cons item items)
  show ?case
  proof (cases "entries = acc")
    case True
    then show ?thesis using Cons.prems(2) by (intro exI [of _ 0]) simp
  next
    case False
    then obtain m where m: "mirrorEntry item = Some m" "selectFrom x a ex (acc @ [m]) items = Inr entries"
      "length (acc @ [m]) \<le> 256"
      using Cons.prems by (auto split: if_splits option.splits sum.splits)
    from Cons.IH [OF m(2,3)] obtain j where "j \<le> length items"
      "map Some entries = map Some (acc @ [m]) @ map mirrorEntry (take j items)" "length entries \<le> 256" by blast
    then show ?thesis using m(1) by (intro exI [of _ "Suc j"]) simp
  qed
qed (auto intro: exI [of _ 0])

lemma mirrorDigests_drop:
  "mirrorDigests sha d ms = Inr ds \<Longrightarrow>
   mirrorDigests sha (last (d # take k ds)) (drop k ms) = Inr (drop k ds)"
proof (induction ms arbitrary: d ds k)
  case (Cons m ms)
  then obtain d' ds' where d': "advanceAssignmentInteractionMirrorDigest sha d m = Inr d'"
    "mirrorDigests sha d' ms = Inr ds'" "ds = d' # ds'" by (auto simp: andThen_eq_Inr)
  then show ?case using Cons.prems Cons.IH [OF d'(2)] by (cases k) auto
qed (auto simp: drop_Cons)

lemma batchDigest_run:
  assumes "mirrorDigests sha d (map tm_entry ts) = Inr ds"
    and "\<And>i. i < length ts \<Longrightarrow> me_ordinal (tm_entry (ts ! i)) = n + 1 + int i"
    and "sorted_wrt (<) (q # map (\<lambda>t. me_seq (tm_entry t)) ts)"
  shows "batchDigestFrom sha d n q ts = Inr (last (d # ds))"
  using assms
proof (induction ts arbitrary: d n q ds)
  case (Cons t ts)
  then obtain d' ds' where d': "advanceAssignmentInteractionMirrorDigest sha d (tm_entry t) = Inr d'"
    "mirrorDigests sha d' (map tm_entry ts) = Inr ds'" "ds = d' # ds'"
    by (auto simp: andThen_eq_Inr)
  have n: "me_ordinal (tm_entry t) = n + 1" using Cons.prems(2) [of 0] by simp
  have "batchDigestFrom sha d' (n + 1) (me_seq (tm_entry t)) ts = Inr (last (d' # ds'))"
  proof (rule Cons.IH [OF d'(2)])
    show "me_ordinal (tm_entry (ts ! i)) = n + 1 + 1 + int i" if "i < length ts" for i
      using Cons.prems(2) [of "Suc i"] that by simp
  qed (use Cons.prems(3) in auto)
  then show ?case using Cons.prems(3) d' n by simp
qed simp

lemma batch_accepted:
  assumes t: "together sha a x" and sel: "selectPendingInteractionMirrors x a' ex = Inr entries" and ne: "entries \<noteq> []"
  shows "\<exists>d w. mirrorBatchDigest sha (xp_mirroredInteractionDigest x) entries = Inr d \<and>
    applyMirrored (xp_validation x) (me_seq (tm_entry (last entries))) (me_ordinal (tm_entry (last entries))) d = Inr w"
proof -
  let ?v = "xp_validation x" and ?o = "xp_finishedOrder x" and ?k = "xp_mirroredFinishedCount x"
  have ok: "mirror_ok ?v"
    using t ledger_is_ok [of sha a "xp_entries x"] by (auto simp: together_def ledger_ok_def)
  obtain seed where ds: "mirrorDigests sha seed (results (xp_entries x)) = Inr (map mi_mirrorDigest ?o)"
    and ents: "map itemEntry ?o = map Some (results (xp_entries x))"
    and un: "vs_unmirroredFinished ?v = drop ?k (map itemCheckpoint ?o)"
    and md: "xp_mirroredInteractionDigest x = last (seed # take ?k (map mi_mirrorDigest ?o))"
    and so: "sorted_wrt (<) (map mi_recordSeq ?o)" and pos: "\<forall>i \<in> set ?o. 0 < mi_recordSeq i"
    using t by (auto simp: together_def chain_agrees_def)
  let ?items = "drop ?k ?o"
  obtain j where j: "j \<le> length ?items" "map Some entries = map mirrorEntry (take j ?items)" "length entries \<le> 256"
    using selectFrom_prefix [OF sel [unfolded selectPendingInteractionMirrors_def]] by auto
  have len: "length entries = j" using arg_cong [OF j(2), of length] j(1) by simp
  have item: "tm_entry (entries ! i) = results (xp_entries x) ! (?k + i)"
      "itemEntry (?o ! (?k + i)) = Some (tm_entry (entries ! i))" if "i < j" for i
  proof -
    have "mirrorEntry (?o ! (?k + i)) = Some (entries ! i)"
      using arg_cong [OF j(2), of "\<lambda>l. l ! i"] that len j(1) by simp
    then show it: "itemEntry (?o ! (?k + i)) = Some (tm_entry (entries ! i))" by (simp add: itemEntry_def)
    have "?k + i < length ?o" using that j(1) by simp
    then show "tm_entry (entries ! i) = results (xp_entries x) ! (?k + i)"
      using arg_cong [OF ents, of "\<lambda>l. l ! (?k + i)"] arg_cong [OF ents, of length] it by simp
  qed
  have fields: "me_ordinal (tm_entry (entries ! i)) = int (?k + i) + 1"
      "me_seq (tm_entry (entries ! i)) = mi_recordSeq (?o ! (?k + i))" if "i < j" for i
    using itemEntry_fields [OF item(2) [OF that]] ordinals_agree [OF ents, of "?k + i"] that j(1) by auto
  have lenr: "length (results (xp_entries x)) = length ?o" using arg_cong [OF ents, of length] by simp
  have mapped: "map tm_entry entries = take j (drop ?k (results (xp_entries x)))"
    by (rule nth_equalityI) (use len item(1) j(1) lenr in auto)
  have "mirrorDigests sha (xp_mirroredInteractionDigest x) (drop ?k (results (xp_entries x)))
      = Inr (drop ?k (map mi_mirrorDigest ?o))"
    unfolding md by (rule mirrorDigests_drop [OF ds])
  then have run: "mirrorDigests sha (xp_mirroredInteractionDigest x) (map tm_entry entries)
      = Inr (take j (drop ?k (map mi_mirrorDigest ?o)))"
    unfolding mapped by (rule mirrorDigests_take)
  have "batchDigestFrom sha (xp_mirroredInteractionDigest x) (int ?k) 0 entries
      = Inr (last (xp_mirroredInteractionDigest x # take j (drop ?k (map mi_mirrorDigest ?o))))"
  proof (rule batchDigest_run [OF run])
    have "map (\<lambda>t. me_seq (tm_entry t)) entries = take j (drop ?k (map mi_recordSeq ?o))"
      by (rule nth_equalityI) (use len fields(2) j(1) in auto)
    moreover have "sorted_wrt (<) (take j (drop ?k (map mi_recordSeq ?o)))"
      using so by (simp add: sorted_wrt_take sorted_wrt_drop)
    moreover have "0 < q" if "q \<in> set (take j (drop ?k (map mi_recordSeq ?o)))" for q
      using pos that by (auto dest!: in_set_takeD in_set_dropD)
    ultimately show "sorted_wrt (<) (0 # map (\<lambda>t. me_seq (tm_entry t)) entries)" by simp
  qed (use len fields(1) in auto)
  moreover have j0: "0 < j" using ne len by auto
  moreover from j0 have kj: "?k < length ?o" using j(1) by simp
  moreover from j0 have "me_ordinal (tm_entry (hd entries)) - 1 = int ?k"
    using fields(1) [of 0] ne by (simp add: hd_conv_nth)
  moreover have "last (xp_mirroredInteractionDigest x # take j (drop ?k (map mi_mirrorDigest ?o)))
      = mi_mirrorDigest (?o ! (?k + (j - 1)))"
    using j0 j(1) kj by (simp add: last_conv_nth)
  ultimately have digest: "mirrorBatchDigest sha (xp_mirroredInteractionDigest x) entries
      = Inr (mi_mirrorDigest (?o ! (?k + (j - 1))))"
    using ne j(3) by (simp add: mirrorBatchDigest_def)
  have "j - 1 < length (vs_unmirroredFinished ?v)"
    "vs_unmirroredFinished ?v ! (j - 1) = itemCheckpoint (?o ! (?k + (j - 1)))"
    using un j(1) j0 by auto
  from watermark_accepted [OF ok this(1)] this(2) obtain w where
    "applyMirrored ?v (mi_recordSeq (?o ! (?k + (j - 1)))) (mi_ordinal (?o ! (?k + (j - 1))))
       (mi_mirrorDigest (?o ! (?k + (j - 1)))) = Inr w"
    by (auto simp: itemCheckpoint_def)
  moreover have "last entries = entries ! (j - 1)" using ne len by (simp add: last_conv_nth)
  moreover have "mi_ordinal (?o ! (?k + (j - 1))) = me_ordinal (tm_entry (entries ! (j - 1)))"
    using itemEntry_fields [OF item(2), of "j - 1"] j0 by simp
  ultimately show ?thesis using digest fields(2) [of "j - 1"] j0 by auto
qed

end
