(* ===== verification/Ledger_Correctness.thy ===== *)
theory Ledger_Correctness
  imports Ledger_Mirroring
begin

text \<open>
  The properties of assignment ledgers, for any history that the state machine accepts, with
  a small ledger of a job for their witnesses. In the witnesses SHA-256 is a function with
  one value, which is all that the properties ask of it unless they speak of collisions.
\<close>

section \<open>A small ledger\<close>

text \<open>
  The ledger of a small job, for the witnesses: it is received and started, asks one
  question and begins one effect, is fenced by its owner, and is closed. SHA-256 is replaced
  by a function with one value, so that the digests need not be computed; a step of the
  ledger is then rewriting.
\<close>

definition demoSha :: "string \<Rightarrow> string" where
  "demoSha b = replicate 64 (CHR ''0'')"

definition demoDigest :: Digest where
  "demoDigest = ''sha256:'' @ replicate 64 (CHR ''0'')"

definition demoSignature :: ProtocolSignature where
  "demoSignature = \<lparr>sg_alg = ''ed25519'', sg_keyId = ''owner'', sg_sig = ''sig''\<rparr>"

definition demoLease :: ControlLease where
  "demoLease = \<lparr>cl_v = 1, cl_anchorEpoch = None, cl_controlLeaseId = ''lease'', cl_assignmentId = ''a'',
     cl_authority = JobEpoch ''task'' 1, cl_renewalSeq = 1, cl_issuedAt = ''t0'', cl_expiry = ''t1'',
     cl_signature = demoSignature\<rparr>"

definition demoArtifact :: ArtifactRef where
  "demoArtifact = \<lparr>ar_digest = demoDigest, ar_bytes = 10\<rparr>"

definition demoActivation :: AssignmentActivationProof where
  "demoActivation = \<lparr>aa_ref = JobRef ''run'' ''task'' 1, aa_assignmentId = ''a'', aa_executorId = ''executor'',
     aa_dispatchRef = demoArtifact, aa_manifestDigest = demoDigest, aa_permissionLeaseDigest = demoDigest,
     aa_capIds = [], aa_reservationId = ''r'', aa_attempt = 1, aa_commitLsn = 1,
     aa_commitEnvelopeDigest = demoDigest, aa_issuedAt = ''t0'', aa_signature = demoSignature\<rparr>"

definition demoProof :: CancelProofBody where
  "demoProof = \<lparr>cp_assignmentId = ''a'', cp_executorId = ''executor'', cp_authority = JobEpoch ''task'' 1,
     cp_lastRecordSeq = 11, cp_usageFinal = \<lparr>uf_reportDigest = demoDigest, uf_upToUsageSeq = 0\<rparr>,
     cp_ledgerDigest = demoDigest, cp_issuedAt = ''t1'', cp_signature = demoSignature,
     cp_cause = FenceCause 1 ''fence'', cp_decision = HaltedDecision 1\<rparr>"

definition demoOpening :: "AssignmentEntry list" where
  "demoOpening =
     [\<lparr>en_recordSeq = 1, en_body = ControlLeaseRenewed demoLease None\<rparr>,
      \<lparr>en_recordSeq = 2, en_body = Received demoArtifact demoActivation None\<rparr>,
      \<lparr>en_recordSeq = 3, en_body = RunStarted\<rparr>,
      \<lparr>en_recordSeq = 4, en_body = StreamProjectionEnabled 3\<rparr>,
      \<lparr>en_recordSeq = 5, en_body = InteractionRequested ''q'' ''tool'' (DisplayText ''title'' []) ''t0'' 1000 ''t1''\<rparr>,
      \<lparr>en_recordSeq = 6, en_body = SideEffectStarted 1 ToolMutation ''tool'' ''summary'' WorkspaceFile\<rparr>]"

definition demoAbort :: AssignmentEntry where
  "demoAbort = \<lparr>en_recordSeq = 7, en_body = AbortRequested OwnerFence ''fence''\<rparr>"

definition demoAnswer :: AssignmentEntry where
  "demoAnswer = \<lparr>en_recordSeq = 8, en_body = InteractionFinished ''q'' (InteractionCancelled CancelFence)\<rparr>"

definition demoMirrored :: AssignmentEntry where
  "demoMirrored = \<lparr>en_recordSeq = 9, en_body = Mirrored 8 1 demoDigest\<rparr>"

definition demoClosing :: "AssignmentEntry list" where
  "demoClosing =
     [\<lparr>en_recordSeq = 10, en_body = StreamProjected ''a'' 8 1 demoDigest\<rparr>,
      \<lparr>en_recordSeq = 11, en_body = SideEffectCompleted 1 EffectAborted None\<rparr>,
      \<lparr>en_recordSeq = 12, en_body = Halted demoProof\<rparr>]"

definition demoLedger :: "AssignmentEntry list" where
  "demoLedger = demoOpening @ demoAbort # demoAnswer # demoMirrored # demoClosing"

lemma demo_hex: "hexSha demoSha"
  by (simp add: hexSha_def demoSha_def isHexDigest_def list_all_iff) (simp add: isLowerHex_def)

lemma demo_digest: "isDigest demoDigest"
  using hex_digest [OF demo_hex] by (simp add: demoSha_def demoDigest_def)

lemma demo_ledgerDigest:
  assumes "assertSchema i 1 = Inr ()" "serialize p = Inr x"
  shows "ledgerDigest demoSha i p = Inr demoDigest"
  using assms by (simp add: ledgerDigest_iff protocolBytes_def canonicalize_def demoSha_def demoDigest_def)

definition serializable :: "json \<Rightarrow> bool" where
  "serializable p \<longleftrightarrow> (\<exists>x. serialize p = Inr x)"

lemma demo_mirror:
  assumes "0 < me_ordinal m" "me_ordinal m \<le> 2 ^ 53 - 1" "0 < me_seq m" "me_seq m \<le> 2 ^ 53 - 1"
    "isProtocolIdentifier (me_requestId m)" "me_content m = AnswerContent out" "serializable (interactionOutcome_json out)"
  shows "advanceAssignmentInteractionMirrorDigest demoSha demoDigest m = Inr demoDigest"
proof -
  obtain x where "serialize (JObj [(''previous'', JStr demoDigest), (''entry'', mirrorEntry_json m)]) = Inr x"
    using assms(6,7) by (auto simp: mirrorEntry_json_def serializable_def)
  from demo_ledgerDigest [OF ledger_schemas(2) this] show ?thesis
    using assms demo_digest
    by (simp add: advanceAssignmentInteractionMirrorDigest_def assertDigest_def
        assertPositiveInteger_def isSafeInteger_def assertIdentifier_def checkMirrorContent_def)
qed

lemma demo_step:
  assumes "n = vs_lastSeq s + 1" "0 \<le> vs_lastSeq s" "vs_lastSeq s + 1 \<le> 2 ^ 53 - 1" "vs_chainDigest s = demoDigest"
    "serializable (record_json b)"
  shows "applyValidatedAssignmentEntry demoSha s \<lparr>en_recordSeq = n, en_body = b\<rparr> =
    andThen (applyRecord demoSha s \<lparr>en_recordSeq = n, en_body = b\<rparr> demoDigest)
      (\<lambda>s'. Inr (s'\<lparr>vs_lastSeq := n, vs_chainDigest := demoDigest\<rparr>))"
proof -
  obtain x where "serialize (JObj [(''previous'', JStr demoDigest),
      (''entry'', entry_json \<lparr>en_recordSeq = n, en_body = b\<rparr>)]) = Inr x"
    using assms(5) by (auto simp: entry_json_def serializable_def)
  from demo_ledgerDigest [OF ledger_schemas(1) this] show ?thesis
    using assms demo_digest
    by (simp add: applyValidatedAssignmentEntry_def advanceAssignmentLedger_def assertDigest_def
        assertPositiveInteger_def isSafeInteger_def)
qed

lemma demo_seeds:
  "isProtocolIdentifier a \<Longrightarrow> assignmentLedgerSeed demoSha a = Inr demoDigest"
  "isProtocolIdentifier a \<Longrightarrow> interactionMirrorSeed demoSha a = Inr demoDigest"
proof -
  have "assertSchema ''AssignmentLedgerSeed'' 1 = Inr ()" "assertSchema ''InteractionMirrorSeed'' 1 = Inr ()"
    by (simp_all add: assertSchema_def isAsciiLetter_def isAsciiDigit_def)
  then show "isProtocolIdentifier a \<Longrightarrow> assignmentLedgerSeed demoSha a = Inr demoDigest"
    "isProtocolIdentifier a \<Longrightarrow> interactionMirrorSeed demoSha a = Inr demoDigest"
    by (auto simp: assignmentLedgerSeed_def interactionMirrorSeed_def assertIdentifier_def intro!: demo_ledgerDigest)
qed

lemmas demo_defs = demoOpening_def demoAbort_def demoAnswer_def demoMirrored_def demoClosing_def demoLedger_def

lemmas demo_texts = serializable_def tagged_def optField_def controlLease_json_def signature_json_def
  activation_json_def artifactRef_json_def acceptedVersion_def cancelProof_json_def usageFinal_json_def
  demoLease_def demoSignature_def demoArtifact_def demoActivation_def demoProof_def

lemma demo_serializable:
  "serializable (record_json (ControlLeaseRenewed demoLease None))"
  "serializable (record_json (Received demoArtifact demoActivation None))"
  "serializable (record_json RunStarted)" "serializable (record_json (StreamProjectionEnabled i))"
  "serializable (record_json (InteractionRequested ''q'' ''tool'' (DisplayText ''title'' []) ''t0'' 1000 ''t1''))"
  "serializable (record_json (SideEffectStarted 1 ToolMutation ''tool'' ''summary'' WorkspaceFile))"
  "serializable (record_json (AbortRequested OwnerFence ''fence''))"
  "serializable (record_json (InteractionFinished ''q'' (InteractionCancelled CancelFence)))"
  "serializable (record_json (Mirrored i j d))" "serializable (record_json (StreamProjected a i j d))"
  "serializable (record_json (SideEffectCompleted 1 EffectAborted None))"
  "serializable (record_json (Halted demoProof))"
  "serializable (JObj [(''t'', JStr ''cancelled''), (''via'', JStr via)])"
  by (simp_all add: demo_texts)

lemma demo_id: "isProtocolIdentifier ''a''" "isProtocolIdentifier ''q''"
  by code_simp+

lemma demo_fields:
  "cl_assignmentId demoLease = ''a''" "cl_authority demoLease = JobEpoch ''task'' 1"
  "sg_keyId (cl_signature demoLease) = ''owner''" "aa_ref demoActivation = JobRef ''run'' ''task'' 1"
  "sg_keyId (aa_signature demoActivation) = ''owner''" "aa_executorId demoActivation = ''executor''"
  "cp_cause demoProof = FenceCause 1 ''fence''" "cp_decision demoProof = HaltedDecision 1"
  "cp_assignmentId demoProof = ''a''" "cp_lastRecordSeq demoProof = 11" "cp_ledgerDigest demoProof = demoDigest"
  by (simp_all add: demo_texts)

lemma demo_accepted: "\<exists>s. ledgerState demoSha ''a'' demoLedger = Inr s \<and> vs_phase s = HaltedPhase"
  by (simp add: demo_defs ledgerState_def createAssignmentLedgerValidationState_def assertIdentifier_def
      demo_id demo_seeds demo_step demo_serializable applyRecord_def applyControlLease_def applyReceived_def
      boundControl_def sameText_def demo_fields applyStarted_def applyProjectionEnabled_def
      applyInteractionRequested_def setAdd_def applySideEffectStarted_def applyAbortRequested_def
      applyInteractionFinished_def checkAnswer_def extendMirror_def demo_mirror oweProjection_def
      applyMirrored_def mirrorCheckpointFits_def applyStreamProjected_def applySideEffectCompleted_def
      applyHalted_def matchingAbort_def closesCancellablePhase_def del: record_json.simps)

section \<open>Specifications\<close>

text \<open>The phases as an automaton over the kinds of records.\<close>

fun workRecord :: "AssignmentRecord \<Rightarrow> bool" where
  "workRecord (InteractionRequested _ _ _ _ _ _) = True"
| "workRecord (InteractionFinished _ _) = True"
| "workRecord (TrustSediment _ _) = True"
| "workRecord (StagedMutation _ _ _ _ _) = True"
| "workRecord (SideEffectStarted _ _ _ _ _) = True"
| "workRecord (SideEffectCompleted _ _ _) = True"
| "workRecord (Mirrored _ _ _) = True"
| "workRecord (StreamProjected _ _ _ _) = True"
| "workRecord (SettlementOwnerAccepted _ _ _) = True"
| "workRecord _ = False"

fun phaseAfter :: "LedgerPhase \<Rightarrow> AssignmentRecord \<Rightarrow> LedgerPhase option" where
  "phaseAfter p (ControlLeaseRenewed _ _) = Some p"
| "phaseAfter p (StreamProjectionEnabled _) =
     (if p = UnknownPhase \<or> p = DispatchRejectedPhase then None else Some p)"
| "phaseAfter UnknownPhase (Received _ _ _) = Some ReceivedPhase"
| "phaseAfter UnknownPhase (DispatchRejected _ _) = Some DispatchRejectedPhase"
| "phaseAfter ReceivedPhase RunStarted = Some StartedPhase"
| "phaseAfter p (SupersedeFenced _ _) =
     (if p = UnknownPhase \<or> p = ReceivedPhase then Some SupersedeFencedPhase else None)"
| "phaseAfter p (AbortRequested _ _) =
     (if p = UnknownPhase \<or> p = ReceivedPhase \<or> p = StartedPhase then Some p else None)"
| "phaseAfter p (Halted _) =
     (if p = UnknownPhase \<or> p = ReceivedPhase \<or> p = StartedPhase then Some HaltedPhase else None)"
| "phaseAfter StartedPhase (ExecutionFailed _ _) = Some FailedPhase"
| "phaseAfter StartedPhase (BundleSealed _ _) = Some SealedPhase"
| "phaseAfter SealedPhase (Acked _) = Some AckedPhase"
| "phaseAfter HaltedPhase CancelProofOwnerAccepted = Some HaltedPhase"
| "phaseAfter p b = (if p = StartedPhase \<and> workRecord b then Some StartedPhase else None)"

fun phasesAfter :: "LedgerPhase \<Rightarrow> AssignmentRecord list \<Rightarrow> LedgerPhase option" where
  "phasesAfter p [] = Some p"
| "phasesAfter p (b # bs) = (case phaseAfter p b of None \<Rightarrow> None | Some q \<Rightarrow> phasesAfter q bs)"

text \<open>Records that begin or conclude work, rather than settle what is open.\<close>

fun startsWork :: "AssignmentRecord \<Rightarrow> bool" where
  "startsWork (Received _ _ _) = True"
| "startsWork RunStarted = True"
| "startsWork (InteractionRequested _ _ _ _ _ _) = True"
| "startsWork (TrustSediment _ _) = True"
| "startsWork (StagedMutation _ _ _ _ _) = True"
| "startsWork (SideEffectStarted _ _ _ _ _) = True"
| "startsWork (DispatchRejected _ _) = True"
| "startsWork (SupersedeFenced _ _) = True"
| "startsWork (ExecutionFailed _ _) = True"
| "startsWork (BundleSealed _ _) = True"
| "startsWork (Acked _) = True"
| "startsWork _ = False"

section \<open>Lemmas\<close>

lemma phases_append:
  "phasesAfter p (bs @ cs) = (case phasesAfter p bs of None \<Rightarrow> None | Some q \<Rightarrow> phasesAfter q cs)"
  by (induction bs arbitrary: p) (auto split: option.splits)

lemma job_phase: "ledger_ok s \<Longrightarrow> isJob (vs_ref s) \<Longrightarrow> vs_phase s \<noteq> UnknownPhase \<and> vs_phase s \<noteq> DispatchRejectedPhase"
  by (auto simp: ledger_ok_def phase_ok_def)

lemma open_started:
  assumes "ledger_ok s" "\<not> settled s"
  shows "vs_phase s = StartedPhase"
  using assms by (cases "vs_phase s") (auto simp: ledger_ok_def phase_ok_def)

lemma phase_step:
  assumes ok: "ledger_ok s" and st: "applyValidatedAssignmentEntry sha s e = Inr s'"
  shows "phaseAfter (vs_phase s) (en_body e) = Some (vs_phase s')"
proof -
  obtain d s1 where r: "applyRecord sha s e d = Inr s1" and s': "vs_phase s' = vs_phase s1"
    using st by (auto elim!: apply_entryE)
  have started: "q \<in> set (vs_pendingInteractions s) \<Longrightarrow> vs_phase s = StartedPhase"
    "n \<in> set (vs_openSideEffects s) \<Longrightarrow> vs_phase s = StartedPhase"
    "n \<in> set (vs_unprojectedFinished s) \<Longrightarrow> vs_phase s = StartedPhase"
    "vs_unmirroredFinished s \<noteq> [] \<Longrightarrow> vs_phase s = StartedPhase" for q n
    by (rule open_started [OF ok]; force simp: settled_def)+
  show ?thesis
  proof (cases "en_body e")
    case (Halted p)
    then show ?thesis
      using r s' by (cases "cp_decision p") (auto simp: applyRecord_def accepts closesCancellablePhase_def)
  next
    case (StreamProjectionEnabled u)
    then show ?thesis using r s' job_phase [OF ok] by (auto simp: applyRecord_def accepts)
  next
    case (Mirrored u n g)
    then have "vs_unmirroredFinished s \<noteq> []" using r by (auto simp: applyRecord_def accepts mirrorCheckpointFits_def)
    then have "vs_phase s = StartedPhase" by (rule started(4))
    then show ?thesis using r s' Mirrored by (auto simp: applyRecord_def accepts)
  qed (use r s' in \<open>auto simp: applyRecord_def accepts linked_def answered_def dest!: unclean_started
      dest: started(1-3)\<close>)
qed

interpretation phases: ledger_history sha "\<lambda>_. ledger_ok"
  "\<lambda>es s. phasesAfter UnknownPhase (map en_body es) = Some (vs_phase s)" for sha
  by unfold_locales (auto dest: created ledger_is_ok phase_step simp: phases_append)

text \<open>After an abort nothing is begun, and the abort stays.\<close>

lemma aborted_step:
  assumes "vs_aborts s \<noteq> []" "ledger_ok s" "applyValidatedAssignmentEntry sha s e = Inr s'"
  shows "vs_aborts s' \<noteq> [] \<and> \<not> startsWork (en_body e)"
proof -
  obtain d s1 where r: "applyRecord sha s e d = Inr s1" and s': "vs_aborts s' = vs_aborts s1"
    using assms(3) by (auto elim!: apply_entryE)
  have "vs_phase s \<noteq> SealedPhase" using assms(1,2) by (cases "vs_phase s") (auto simp: ledger_ok_def phase_ok_def)
  then show ?thesis
    using assms(1) r s'
    by (cases "en_body e") (auto simp: applyRecord_def accepts linked_def answered_def dest!: unclean_started)
qed

lemma replay_ok: "ledger_ok s \<Longrightarrow> replayEntries sha s es = Inr t \<Longrightarrow> ledger_ok t"
proof (induction es arbitrary: s)
  case (Cons e es)
  then obtain s1 where "applyValidatedAssignmentEntry sha s e = Inr s1" "replayEntries sha s1 es = Inr t"
    by (auto simp: andThen_eq_Inr)
  with Cons wellformed.step show ?case by blast
qed simp

lemma aborted_replay:
  "vs_aborts s \<noteq> [] \<Longrightarrow> ledger_ok s \<Longrightarrow> replayEntries sha s es = Inr t \<Longrightarrow>
   vs_aborts t \<noteq> [] \<and> list_all (\<lambda>e. \<not> startsWork (en_body e)) es"
proof (induction es arbitrary: s)
  case (Cons e es)
  then obtain s1 where s1: "applyValidatedAssignmentEntry sha s e = Inr s1" "replayEntries sha s1 es = Inr t"
    by (auto simp: andThen_eq_Inr)
  then have "ledger_ok s1" using Cons.prems(2) wellformed.step by blast
  with aborted_step [OF Cons.prems(1,2) s1(1)] Cons.IH [OF _ _ s1(2)] show ?case by auto
qed simp

text \<open>A ledger with an abort satisfies what closing it needs.\<close>

lemma mirrorDigests_hex:
  "hexSha sha \<Longrightarrow> mirrorDigests sha d ms = Inr ds \<Longrightarrow> list_all isDigest ds"
  by (induction ms arbitrary: d ds)
    (auto simp: andThen_eq_Inr advanceAssignmentInteractionMirrorDigest_def ledgerDigest_iff
      intro: hex_digest [simplified])

lemma ledger_digests:
  assumes "hexSha sha" "ledgerState sha a es = Inr s"
  shows "isDigest (vs_chainDigest s)" "isDigest (vs_interactionMirrorDigest s)"
proof -
  show "isDigest (vs_chainDigest s)"
  proof (cases es rule: rev_cases)
    case Nil
    then have "createAssignmentLedgerValidationState sha a = Inr s"
      using assms(2) by (auto simp: ledgerState_def andThen_eq_Inr)
    then show ?thesis using hex_digest [OF assms(1)] by (elim ledger_seed) simp
  next
    case (snoc es' e)
    then obtain s0 where "ledgerState sha a es' = Inr s0" "applyValidatedAssignmentEntry sha s0 e = Inr s"
      using assms(2) by (auto elim: ledger_snocE)
    then show ?thesis using hex_digest [OF assms(1)] by (elim ledger_inputs_snoc) auto
  qed
  obtain seed ds where "interactionMirrorSeed sha (vs_assignmentId s) = Inr seed"
    "mirrorDigests sha seed (results es) = Inr ds" "vs_interactionMirrorDigest s = last (seed # ds)"
    using chain.holds [OF assms(2)] by (auto simp: chained_def)
  moreover from this(1) have "isDigest seed"
    using hex_digest [OF assms(1)] by (auto simp: interactionMirrorSeed_def andThen_eq_Inr ledgerDigest_iff)
  ultimately show "isDigest (vs_interactionMirrorDigest s)"
    using mirrorDigests_hex [OF assms(1)] last_in_set [of "seed # ds"] by (auto simp: list_all_iff)
qed

lemma begun_length: "length (gather requestOf es) + length (gather effectBegunOf es) \<le> length es"
proof (induction es)
  case (Cons e es)
  then show ?case by (cases "en_body e") auto
qed simp

lemma results_length: "length (results es) \<le> length es"
  by (induction es rule: rev_induct) (auto simp: results_snoc split: option.splits)

lemma subset_length: "distinct xs \<Longrightarrow> set xs \<subseteq> set ys \<Longrightarrow> length xs \<le> length ys"
  by (metis List.finite_set card_length card_mono distinct_card le_trans)

lemma aborted_closable:
  assumes sha: "hexSha sha" and led: "ledgerState sha a es = Inr s" and ab: "vs_aborts s \<noteq> []"
    and ph: "vs_phase s \<noteq> HaltedPhase" and ids: "list_all isProtocolIdentifier (gather requestOf es)"
    and small: "4 * int (length es) + 3 \<le> 2 ^ 53 - 1"
  shows "closable s"
proof -
  have ok: "ledger_ok s" using led by (rule ledger_is_ok)
  have acc: "accounted es s" using led by (rule accounts.holds)
  have last: "vs_lastSeq s = int (length es)"
    using arg_cong [of _ _ length, OF conjunct1 [OF acc [unfolded accounted_def]]] ok
    by (simp add: ledger_ok_def projection_ok_def)
  have "distinct (vs_pendingInteractions s)" "distinct (vs_openSideEffects s)"
    "set (vs_pendingInteractions s) \<subseteq> set (gather requestOf es)"
    "set (vs_openSideEffects s) \<subseteq> set (gather effectBegunOf es)"
    using acc ok unfolding accounted_def ledger_ok_def counts_ok_def by blast+
  then have "length (vs_pendingInteractions s) \<le> length (gather requestOf es)"
    "length (vs_openSideEffects s) \<le> length (gather effectBegunOf es)"
    by (blast intro: subset_length)+
  then have "toClose s \<le> 3 * length es + 2" using begun_length [of es] by (simp add: toClose_def)
  moreover have "vs_finishedInteractionCount s = int (length (results es))"
    using chain.holds [OF led] by (auto simp: chained_def)
  moreover have "list_all isProtocolIdentifier (vs_pendingInteractions s)"
    using ids acc by (auto simp: list_all_iff accounted_def)
  ultimately show ?thesis
    using ok ab ph ledger_digests [OF sha led] last small results_length [of es] by (simp add: closable_def)
qed


lemma ledger_assignment: "ledgerState sha a es = Inr s \<Longrightarrow> vs_assignmentId s = a"
proof (induction es arbitrary: s rule: rev_induct)
  case Nil
  then show ?case using created by (auto simp: ledgerState_def andThen_eq_Inr)
next
  case (snoc e es)
  then obtain s0 where "vs_assignmentId s0 = a" "applyValidatedAssignmentEntry sha s0 e = Inr s"
    by (auto elim: ledger_snocE)
  then show ?case by (auto elim!: apply_entryE dest: record_keeps_place)
qed

text \<open>A watermark that fits names a result that is not yet mirrored, with its digest.\<close>

lemma mirrored_result:
  assumes led: "ledgerState sha a es = Inr s" and acc: "applyMirrored s u n g = Inr s1"
  shows "\<exists>seed ds. interactionMirrorSeed sha a = Inr seed \<and>
    mirrorDigests sha seed (take (nat n) (results es)) = Inr ds \<and> last ds = g \<and>
    0 < n \<and> n \<le> int (length (results es)) \<and> me_seq (results es ! (nat n - 1)) = u"
proof -
  obtain seed ds where seed: "interactionMirrorSeed sha a = Inr seed"
    and ds: "mirrorDigests sha seed (results es) = Inr ds"
    and un: "vs_unmirroredFinished s = drop (nat (vs_mirroredInteractionOrdinal s)) (map2 checkpointOf (results es) ds)"
    using chain.holds [OF led] ledger_assignment [OF led] by (auto simp: chained_def)
  have len: "length ds = length (results es)" using ds by (rule mirrorDigests_length)
  have "mirrorCheckpointFits s u n g" using acc by (simp add: accepts)
  then have "(u, \<lparr>mc_ordinal = n, mc_mirrorDigest = g\<rparr>) \<in> set (vs_unmirroredFinished s)"
    by (cases "omap_get (vs_unmirroredFinished s) u")
      (auto simp: mirrorCheckpointFits_def dest!: map_of_SomeD intro: back_subst [of "\<lambda>c. (u, c) \<in> set _"])
  then have "(u, \<lparr>mc_ordinal = n, mc_mirrorDigest = g\<rparr>) \<in> set (map2 checkpointOf (results es) ds)"
    unfolding un by (rule in_set_dropD)
  then obtain i where i: "i < length ds" "checkpointOf (results es ! i) (ds ! i) = (u, \<lparr>mc_ordinal = n, mc_mirrorDigest = g\<rparr>)"
    by (auto simp: in_set_conv_nth len)
  have "me_ordinal (results es ! i) = int i + 1"
    using arg_cong [OF results_ordinals [of es], of "\<lambda>l. l ! i"] i(1) len by (simp add: nth_upto)
  with i len have "n = int i + 1" "g = ds ! i" "me_seq (results es ! i) = u" by (auto simp: checkpointOf_def)
  moreover from this have "mirrorDigests sha seed (take (nat n) (results es)) = Inr (take (Suc i) ds)"
    using mirrorDigests_take [OF ds, of "Suc i"] by (simp add: nat_add_distrib)
  ultimately show ?thesis using seed i(1) len by (simp add: take_Suc_conv_app_nth nat_add_distrib)
qed

text \<open>Selecting takes something if there is anything, and meets only results.\<close>

lemma selectFrom_nonempty:
  assumes "selectFrom x a ex [] items = Inr []"
  shows "items = []"
proof (rule ccontr)
  assume "items \<noteq> []"
  then obtain item rest where "items = item # rest" by (cases items) auto
  with assms obtain m where "selectFrom x a ex [m] rest = Inr []"
    by (auto split: option.splits sum.splits if_splits)
  from selectFrom_prefix [OF this] show False by simp
qed

lemma selectFrom_results:
  "selectFrom x a ex acc items = Inl NotAResult \<Longrightarrow> \<exists>item \<in> set items. mirrorEntry item = None"
  by (induction items arbitrary: acc) (auto split: option.splits sum.splits if_splits)

lemma together_results: "together sha a x \<Longrightarrow> item \<in> set (xp_finishedOrder x) \<Longrightarrow> mirrorEntry item \<noteq> None"
proof -
  assume "together sha a x" "item \<in> set (xp_finishedOrder x)"
  then have "itemEntry item \<in> Some ` set (results (xp_entries x))"
    unfolding together_def chain_agrees_def by (metis image_eqI list.set_map)
  then show "mirrorEntry item \<noteq> None" by (auto simp: itemEntry_def)
qed

lemma mirrored_less:
  assumes "applyMirrored s u n g = Inr w"
  shows "length (vs_unmirroredFinished w) < length (vs_unmirroredFinished s)"
proof -
  have "length (filter (upToOrdinal n) (vs_unmirroredFinished s))
      + length (filter (\<lambda>kc. \<not> upToOrdinal n kc) (vs_unmirroredFinished s)) = length (vs_unmirroredFinished s)"
    by (rule sum_length_filter_compl)
  then show ?thesis using assms by (auto simp: accepts)
qed

section \<open>Properties\<close>

text \<open>C4. After an abort has been recorded an assignment begins nothing: no later entry of an
  accepted ledger receives or starts the run, asks an interaction, deposits a trust sediment, stages a
  mutation, begins a side effect, or concludes the run as failed, sealed or acknowledged; the
  phase is one that halting ends, or halted.\<close>

lemma aborted_starts_nothing:
  assumes "ledgerState sha a (es @ e # fs) = Inr s" "isAbort (en_body e)"
  shows "list_all (\<lambda>f. \<not> startsWork (en_body f)) fs \<and>
    vs_phase s \<in> {UnknownPhase, ReceivedPhase, StartedPhase, HaltedPhase}"
proof -
  obtain s1 where s1: "ledgerState sha a (es @ [e]) = Inr s1" "replayEntries sha s1 fs = Inr s"
    using ledger_prefixE [of sha a "es @ [e]" fs s] assms(1) by auto
  have "vs_aborts s1 \<noteq> []" using accounts.holds [OF s1(1)] assms(2) by (simp add: accounted_def)
  then have "vs_aborts s \<noteq> [] \<and> list_all (\<lambda>f. \<not> startsWork (en_body f)) fs"
    by (rule aborted_replay [OF _ ledger_is_ok [OF s1(1)] s1(2)])
  then show ?thesis
    using ledger_is_ok [OF assms(1)] by (cases "vs_phase s") (auto simp: ledger_ok_def phase_ok_def)
qed

lemma aborted_starts_nothing_witness:
  "\<exists>s. ledgerState demoSha ''a'' (demoOpening @ demoAbort # demoAnswer # demoMirrored # demoClosing) = Inr s \<and>
     list_all (\<lambda>f. \<not> startsWork (en_body f)) (demoAnswer # demoMirrored # demoClosing) \<and>
     vs_phase s \<in> {UnknownPhase, ReceivedPhase, StartedPhase, HaltedPhase}"
proof -
  obtain s where s: "ledgerState demoSha ''a'' (demoOpening @ demoAbort # demoAnswer # demoMirrored # demoClosing) = Inr s"
    using demo_accepted by (auto simp: demoLedger_def)
  then show ?thesis using aborted_starts_nothing [OF s] by (simp add: demoAbort_def)
qed

text \<open>C13. A closed assignment leaves nothing open: once it has halted, failed, been sealed or been
  acknowledged, exactly the interactions that were asked have been answered, exactly the side effects that
  were begun have been completed, every answer and every trust sediment has been mirrored to
  the owner, and no answer still waits to be projected to the stream.\<close>

lemma closed_is_settled:
  assumes "ledgerState sha a es = Inr s" "vs_phase s \<in> {HaltedPhase, FailedPhase, SealedPhase, AckedPhase}"
  shows "set (gather requestOf es) = set (gather answerOf es) \<and>
    set (gather effectBegunOf es) = set (gather effectEndedOf es) \<and>
    vs_mirroredInteractionOrdinal s = int (length (results es)) \<and> vs_unprojectedFinished s = []"
proof -
  have ok: "ledger_ok s" using assms(1) by (rule ledger_is_ok)
  then have settled: "settled s" using assms(2) by (auto simp: ledger_ok_def phase_ok_def)
  have acc: "accounted es s" using assms(1) by (rule accounts.holds)
  have "vs_finishedInteractionCount s = int (length (results es))"
    using chain.holds [OF assms(1)] by (auto simp: chained_def)
  moreover have "vs_mirroredInteractionOrdinal s = vs_finishedInteractionCount s"
  proof -
    have "[vs_mirroredInteractionOrdinal s + 1 .. vs_finishedInteractionCount s] = []"
      and "vs_mirroredInteractionOrdinal s \<le> vs_finishedInteractionCount s"
      using ok settled by (auto simp: ledger_ok_def mirror_ok_def settled_def)
    then show ?thesis by simp
  qed
  moreover have "set (gather requestOf es) \<subseteq> set (gather answerOf es)"
    "set (gather effectBegunOf es) \<subseteq> set (gather effectEndedOf es)"
    using acc settled by (auto simp: accounted_def settled_def)
  moreover have "set (gather answerOf es) \<subseteq> set (gather requestOf es)"
    "set (gather effectEndedOf es) \<subseteq> set (gather effectBegunOf es)"
    using acc unfolding accounted_def by blast+
  ultimately show ?thesis using settled unfolding settled_def by (intro conjI equalityI) simp_all
qed

lemma closed_is_settled_witness:
  "set (gather requestOf demoLedger) = set (gather answerOf demoLedger) \<and>
   set (gather effectBegunOf demoLedger) = set (gather effectEndedOf demoLedger)"
  using demo_accepted closed_is_settled [of demoSha "''a''" demoLedger] by auto

text \<open>C18. The phases of a ledger are those of an automaton over the kinds of its records: the state
  machine, whatever else it checks, only takes a record where the automaton has a transition
  for it, and ends in the phase in which the automaton ends.\<close>

lemma phases_follow_automaton:
  assumes "ledgerState sha a es = Inr s"
  shows "phasesAfter UnknownPhase (map en_body es) = Some (vs_phase s)"
  using assms by (rule phases.holds)

lemma phases_follow_automaton_witness:
  "phasesAfter UnknownPhase (map en_body demoLedger) = Some HaltedPhase"
  using demo_accepted phases_follow_automaton [of demoSha "''a''" demoLedger] by auto

text \<open>C26. An interaction is answered once, and only after it was asked: where an accepted ledger
  records the answer to a request, the request was recorded before, and no other entry, earlier or
  later, answers it.\<close>

lemma interactions_answered_once:
  assumes "ledgerState sha a (es @ e # fs) = Inr s" "answerOf (en_body e) = Some r"
  shows "r \<in> set (gather requestOf es) \<and> r \<notin> set (gather answerOf (es @ fs))"
proof -
  obtain s1 where s1: "ledgerState sha a (es @ [e]) = Inr s1"
    using ledger_prefixE [of sha a "es @ [e]" fs s] assms(1) by auto
  have "requestOf (en_body e) = None" using assms(2) by (cases "en_body e") auto
  then have "r \<in> set (gather requestOf es)"
    using accounts.holds [OF s1] assms(2) by (auto simp: accounted_def)
  then show ?thesis using accounts.holds [OF assms(1)] assms(2) by (auto simp: accounted_def)
qed

lemma interactions_answered_once_witness:
  "''q'' \<in> set (gather requestOf (demoOpening @ [demoAbort])) \<and>
   ''q'' \<notin> set (gather answerOf ((demoOpening @ [demoAbort]) @ demoMirrored # demoClosing))"
proof -
  obtain s where "ledgerState demoSha ''a'' ((demoOpening @ [demoAbort]) @ demoAnswer # demoMirrored # demoClosing) = Inr s"
    using demo_accepted by (auto simp: demoLedger_def)
  then show ?thesis by (rule interactions_answered_once) (simp add: demoAnswer_def)
qed

text \<open>C25. A receipt of the owner acknowledges a prefix of the results: where a ledger accepts that
  results are mirrored up to record \<open>u\<close>, ordinal \<open>n\<close> and digest \<open>g\<close>, the \<open>n\<close>-th answer or trust sediment in
  the order of the ledger is recorded in \<open>u\<close>, and \<open>g\<close> is the digest of the mirror chain over
  exactly the first \<open>n\<close>.\<close>

lemma mirror_acknowledges_prefix:
  assumes "ledgerState sha a (es @ [e]) = Inr s" "en_body e = Mirrored u n g"
  shows "\<exists>seed ds. interactionMirrorSeed sha a = Inr seed \<and>
    mirrorDigests sha seed (take (nat n) (results es)) = Inr ds \<and> last ds = g \<and>
    0 < n \<and> n \<le> int (length (results es)) \<and> me_seq (results es ! (nat n - 1)) = u"
proof -
  obtain s0 where led: "ledgerState sha a es = Inr s0" and st: "applyValidatedAssignmentEntry sha s0 e = Inr s"
    by (rule ledger_snocE [OF assms(1)])
  obtain s1 where "applyMirrored s0 u n g = Inr s1"
    using assms(2) by (auto simp: applyRecord_def intro: apply_entryE [OF st])
  then show ?thesis by (rule mirrored_result [OF led])
qed

lemma mirror_acknowledges_prefix_witness:
  "\<exists>seed ds. interactionMirrorSeed demoSha ''a'' = Inr seed \<and>
    mirrorDigests demoSha seed (take (nat 1) (results (demoOpening @ [demoAbort, demoAnswer]))) = Inr ds \<and>
    last ds = demoDigest \<and> (0 :: int) < 1 \<and> 1 \<le> int (length (results (demoOpening @ [demoAbort, demoAnswer]))) \<and>
    me_seq (results (demoOpening @ [demoAbort, demoAnswer]) ! (nat 1 - 1)) = 8"
proof -
  obtain s where "ledgerState demoSha ''a'' ((demoOpening @ [demoAbort, demoAnswer]) @ [demoMirrored]) = Inr s"
    using demo_accepted ledger_prefixE [of demoSha "''a''" "demoOpening @ [demoAbort, demoAnswer, demoMirrored]" demoClosing]
    by (auto simp: demoLedger_def)
  then show ?thesis by (rule mirror_acknowledges_prefix) (simp add: demoMirrored_def)
qed

text \<open>C17. The chain of digests fixes the history: if the ledgers of two assignments end in the same
  chain digest, then, unless two different ones of the texts hashed for them collide under SHA-256, they are
  ledgers of the same assignment with the same number of entries, and the entries have the same
  canonical texts, one by one.\<close>

lemma chain_fixes_history:
  assumes "ledgerState sha a es = Inr s" "ledgerState sha b fs = Inr t" "vs_chainDigest s = vs_chainDigest t"
    and "collisionFree sha (ledgerInputs sha a es @ ledgerInputs sha b fs)"
  shows "a = b \<and> length es = length fs \<and>
    map (\<lambda>e. canonicalize (entry_json e)) es = map (\<lambda>e. canonicalize (entry_json e)) fs"
  using chain_determines [OF assms] map_eq_imp_length_eq by blast

text \<open>The witness hashes the two texts of a ledger of one entry by their lengths.\<close>

definition lengthSha :: "string \<Rightarrow> string" where
  "lengthSha b = replicate 64 (if length b < 100 then CHR ''0'' else CHR ''1'')"

lemma lengthSha_ledger:
  "case ledgerState lengthSha ''a'' (take 1 demoOpening) of Inl _ \<Rightarrow> False | Inr s \<Rightarrow> vs_lastSeq s = 1"
  by code_simp

lemma lengthSha_free: "collisionFree lengthSha (ledgerInputs lengthSha ''a'' (take 1 demoOpening))"
  by code_simp

lemma chain_fixes_history_witness:
  "\<exists>s. ledgerState lengthSha ''a'' (take 1 demoOpening) = Inr s \<and>
     ''a'' = ''a'' \<and> length (take 1 demoOpening) = length (take 1 demoOpening) \<and>
     map (\<lambda>e. canonicalize (entry_json e)) (take 1 demoOpening) = map (\<lambda>e. canonicalize (entry_json e)) (take 1 demoOpening)"
proof -
  obtain s where s: "ledgerState lengthSha ''a'' (take 1 demoOpening) = Inr s"
    using lengthSha_ledger by (auto split: sum.splits)
  have "collisionFree lengthSha (ledgerInputs lengthSha ''a'' (take 1 demoOpening) @ ledgerInputs lengthSha ''a'' (take 1 demoOpening))"
    using lengthSha_free by (rule collisionFree_mono) simp
  from s chain_fixes_history [OF s s refl this] show ?thesis by blast
qed

text \<open>C5. An aborted assignment can always be closed: from any accepted ledger with an abort that has not
  halted, there are entries that the ledger accepts, only cancelling what is open, completing effects as
  aborted, mirroring, projecting and at last halting, after which the phase is halted. (The
  requests have identifiers as the entry validation demands, and the ledger is far from the end of the safe
  integers.)\<close>

lemma aborted_can_be_closed:
  assumes "hexSha sha" "ledgerState sha a es = Inr s" "list_ex isAbort (map en_body es)" "vs_phase s \<noteq> HaltedPhase"
    "list_all isProtocolIdentifier (gather requestOf es)" "4 * int (length es) + 3 \<le> 2 ^ 53 - 1"
  shows "\<exists>fs t. ledgerState sha a (es @ fs) = Inr t \<and> vs_phase t = HaltedPhase \<and>
    list_all (\<lambda>f. closingRecord (en_body f)) fs"
proof -
  have "vs_aborts s \<noteq> []" using accounts.holds [OF assms(2)] assms(3) by (simp add: accounted_def)
  then have "closable s" by (rule aborted_closable [OF assms(1,2) _ assms(4-6)])
  from close [OF assms(1) this] show ?thesis using assms(2) by (simp add: ledger_append)
qed

lemma aborted_can_be_closed_witness:
  "\<exists>fs t. ledgerState demoSha ''a'' ((demoOpening @ [demoAbort]) @ fs) = Inr t \<and> vs_phase t = HaltedPhase \<and>
    list_all (\<lambda>f. closingRecord (en_body f)) fs"
proof -
  obtain s where s: "ledgerState demoSha ''a'' (demoOpening @ [demoAbort]) = Inr s"
    using demo_accepted ledger_prefixE [of demoSha "''a''" "demoOpening @ [demoAbort]" "demoAnswer # demoMirrored # demoClosing"]
    by (auto simp: demoLedger_def)
  have "vs_phase s \<noteq> HaltedPhase" using phases.holds [OF s] by (simp add: demo_defs)
  show ?thesis
    by (rule aborted_can_be_closed [OF demo_hex s _ \<open>vs_phase s \<noteq> HaltedPhase\<close>]) (simp_all add: demo_defs demo_id)
qed

text \<open>C2. The executor's projection and the canonical state never diverge: replaying any list of
  stored entries, the executor refuses one, but not because its own bookkeeping has lost a request,
  a checkpoint, an effect or a result or disagrees with the state machine; or it reaches the state of the ledger,
  with the same place, digest, phase and open requests in its projection, and it reports pending
  interaction obligations exactly if a request, a mirroring or a stream projection is owed.\<close>

lemma projection_never_diverges:
  "case executorLedger sha parseTime a es of
     Inl err \<Rightarrow> \<not> divergence err
   | Inr x \<Rightarrow> ledgerState sha a (map fst es) = Inr (xp_validation x) \<and> xp_lastSeq x = int (length es) \<and>
       xp_chainDigest x = vs_chainDigest (xp_validation x) \<and> xp_phase x = vs_phase (xp_validation x) \<and>
       map fst (xp_pendingRequests x) = vs_pendingInteractions (xp_validation x) \<and>
       hasPendingInteractionObligations x =
         (\<not> (vs_pendingInteractions (xp_validation x) = [] \<and> vs_unmirroredFinished (xp_validation x) = [] \<and>
             vs_unprojectedFinished (xp_validation x) = []))"
proof (cases "executorLedger sha parseTime a es")
  case (Inl err)
  with executor_together [where sha = sha and parseTime = parseTime and a = a and es = es] show ?thesis by simp
next
  case (Inr x)
  then have t: "together sha a x" "xp_entries x = map fst es" using executor_together [where sha = sha and parseTime = parseTime and a = a and es = es] by auto
  then have led: "ledgerState sha a (map fst es) = Inr (xp_validation x)" by (simp add: together_def)
  have "map en_recordSeq (map fst es) = [1 .. vs_lastSeq (xp_validation x)]"
    using accounts.holds [OF led] by (simp add: accounted_def)
  from arg_cong [OF this, of length] have "vs_lastSeq (xp_validation x) = int (length es)"
    using ledger_is_ok [OF led] by (simp add: ledger_ok_def projection_ok_def)
  then show ?thesis
    using Inr led t(1) obligations_settled [OF t(1)] by (simp add: together_def head_agrees_def open_agrees_def)
qed

text \<open>C14. Mirroring makes progress: of any projection that the executor has replayed, the batch that it selects
  for the owner is empty only if every result is mirrored; otherwise the digest of the batch, which
  executor and owner both compute, exists, and the receipt for the last result of the batch with that digest
  is accepted by the ledger and leaves fewer results to mirror. Selecting fails only at the
  bound on the size of a record, never because a stored result is not one.\<close>

lemma mirroring_progresses:
  "case executorLedger sha parseTime a es of
     Inl err \<Rightarrow> \<not> divergence err
   | Inr x \<Rightarrow> (case selectPendingInteractionMirrors x a' ex of
       Inl err \<Rightarrow> err \<noteq> NotAResult
     | Inr entries \<Rightarrow>
         if entries = [] then vs_unmirroredFinished (xp_validation x) = []
         else \<exists>d w. mirrorBatchDigest sha (xp_mirroredInteractionDigest x) entries = Inr d \<and>
           applyMirrored (xp_validation x) (me_seq (tm_entry (last entries))) (me_ordinal (tm_entry (last entries))) d = Inr w \<and>
           length (vs_unmirroredFinished w) < length (vs_unmirroredFinished (xp_validation x)))"
proof (cases "executorLedger sha parseTime a es")
  case (Inl err)
  with executor_together [where sha = sha and parseTime = parseTime and a = a and es = es] show ?thesis by simp
next
  case (Inr x)
  then have t: "together sha a x"
    using executor_together [where sha = sha and parseTime = parseTime and a = a and es = es] by auto
  show ?thesis
  proof (cases "selectPendingInteractionMirrors x a' ex")
    case (Inl err)
    have "err \<noteq> NotAResult"
      using Inl selectFrom_results together_results [OF t]
      unfolding selectPendingInteractionMirrors_def by (metis in_set_dropD)
    with Inl \<open>executorLedger sha parseTime a es = Inr x\<close> show ?thesis by simp
  next
    case sel: (Inr entries)
    have "vs_unmirroredFinished (xp_validation x) = []" if "entries = []"
    proof -
      have "drop (xp_mirroredFinishedCount x) (xp_finishedOrder x) = []"
        using selectFrom_nonempty sel that unfolding selectPendingInteractionMirrors_def by blast
      then show ?thesis using t by (auto simp: together_def chain_agrees_def)
    qed
    with batch_accepted [OF t sel] mirrored_less Inr sel show ?thesis by fastforce
  qed
qed

end
