(* ===== verification/Spec2Isabelle.thy ===== *)
theory Spec2Isabelle
  imports Advancement_Operations Orchestration_Correctness Resilience_Correctness Capacity_Queues Confirmation_Correctness
    Security_Correctness Loop_Correctness Ledger_Correctness
begin

text \<open>
  \<^bold>\<open>Verification of zhixing\<close>

  The repository is a personal agent system in TypeScript. Its package \<^verbatim>\<open>core\<close> holds the logic
  that the command line, the server and the executor share. This development models eight
  components, nearly all under \<^verbatim>\<open>src/packages/core/src\<close>.

  \<^bold>\<open>Advancement\<close> (\<^verbatim>\<open>advancement/\<close>) carries a goal of the user through proposal, confirmation,
  runs, reviews and completion. Every conversation has an append-only log of events. A batch
  of events passes a gate (\<^verbatim>\<open>guards.ts\<close>) before it is written, the state is the fold of the log
  (\<^verbatim>\<open>reducer.ts\<close>), and the same gate runs again, one event at a time, when the log is read
  (\<^verbatim>\<open>store.ts\<close>).
    \<^item> \<open>Canonical\<close>: the canonical JSON of \<^verbatim>\<open>protocol/canonical.ts\<close>, over which ids and digests are
      built. SHA-256 is the parameter \<open>sha\<close>.
    \<^item> \<open>Advancement_Types\<close>, \<open>Advancement_Reducer\<close>: \<^verbatim>\<open>types.ts\<close>, \<^verbatim>\<open>submission.ts\<close>, \<^verbatim>\<open>reducer.ts\<close>.
    \<^item> \<open>Advancement_Identity\<close>: the three identity files; \<open>Advancement_Guards\<close>: \<^verbatim>\<open>guards.ts\<close>, one
      definition per guarded event with its conditions in source order.
    \<^item> \<open>Advancement_Lifecycle\<close>, \<open>Advancement_Safety\<close>: the abstract lifecycle of a session and the
      invariants of the gate, proved once in the locale of preserved properties and
      interpreted for each invariant.
    \<^item> \<open>Advancement_Store\<close>, \<open>Advancement_Replay\<close>: the operations of \<^verbatim>\<open>store.ts\<close> on a log file, and the
      relation between a batch passed as a whole and the same events passed one by one. The file is
      kept as the texts that appending concatenates, so a line that a crash left unfinished joins
      the text written after it (\<open>splitLines\<close>, \<open>parseLine\<close>).
    \<^item> \<open>Advancement_Correctness\<close>, \<open>Advancement_Operations\<close>: the properties; what a crash inside a write
      keeps, and that the next operation after it is lost (\<open>torn_line_swallows_event\<close>).

  \<^bold>\<open>Orchestration\<close> (\<^verbatim>\<open>orchestration/\<close>) loads a definition of a graph of agents: comments are
  stripped, the JSON is validated, normalized and planned.
    \<^item> \<open>Orchestration_Types\<close>, \<open>Orchestration_Validation\<close>, \<open>Orchestration_Planner\<close>: \<^verbatim>\<open>types.ts\<close>,
      \<^verbatim>\<open>ids.ts\<close>, \<^verbatim>\<open>internal.ts\<close>, \<^verbatim>\<open>validation.ts\<close>, \<^verbatim>\<open>jsonc.ts\<close>, \<^verbatim>\<open>normalizer.ts\<close>, \<^verbatim>\<open>planner.ts\<close>, \<^verbatim>\<open>loader.ts\<close>.
    \<^item> \<open>Orchestration_Graph\<close>: the depth-first search is exact. Its fuel is one more than the
      number of nodes, and \<open>findCycle_exact\<close> shows that it is never used up.
    \<^item> \<open>Orchestration_Soundness\<close>, \<open>Orchestration_Plans\<close>, \<open>Orchestration_Correctness\<close>: what acceptance
      means (no cycle of dependencies included), and the plan as a topological order. The planner's loop counts the nodes still
      to be placed. \<^verbatim>\<open>JSON.parse\<close> is the parameter \<open>jsonParse\<close>.

  \<^bold>\<open>Resilience\<close> (\<^verbatim>\<open>resilience/\<close>) wraps the calls of a model: errors are classified, calls are
  repeated after a back-off, and a circuit breaker stops them.
    \<^item> \<open>Resilience_Errors\<close>: \<^verbatim>\<open>classify.ts\<close>, \<^verbatim>\<open>budget-stop.ts\<close>, over a datatype of thrown values.
      The counters along a chain of causes start at \<^verbatim>\<open>CAUSE_CHAIN_LIMIT\<close>, the bound of the source.
    \<^item> \<open>Resilience_Retry\<close>: \<^verbatim>\<open>backoff.ts\<close>, \<^verbatim>\<open>circuit-breaker.ts\<close>, \<^verbatim>\<open>with-retry.ts\<close>. A run of the
      stream gives the list of its effects in order. What the provider, the clock, the
      jitter and the abort signals do in each attempt is an argument; number and date
      parsing of the platform are parameters.
    \<^item> \<open>Resilience_Trace\<close>, \<open>Resilience_Correctness\<close>: the shape of the effects, and the properties.

  \<^bold>\<open>Device capacity\<close> (\<^verbatim>\<open>resources/device-capacity.ts\<close>) admits work against memory, temporary
  space, slots and I/O quanta, with weighted queues.
    \<^item> \<open>Capacity_Types\<close>, \<open>Capacity_Arbiter\<close>, \<open>Capacity_Permits\<close>: data, validation, the arbiter and
      its permits, steps and loans. Objects shared by reference are entries of lists in the
      state. Timers and abort signals are operations of the environment, so every order of
      them is a run (\<open>capacityRun\<close>). The clock and the probe are arguments.
    \<^item> \<open>Capacity_Invariant\<close>: the locale of an invariant of the arbiter, with the few elementary
      changes as its laws and every operation derived from them. \<open>Capacity_Accounts\<close> and
      \<open>Capacity_Balance\<close> interpret it for well-formedness, metering, balance and the policy.
    \<^item> \<open>Capacity_Correctness\<close>, \<open>Capacity_Queues\<close>: the properties. The drain loop is a total
      function, because each pass that grants shortens a queue. Releasing a permit returns at
      most one loan, so a depth of two suffices.

  \<^bold>\<open>Confirmation\<close> (\<^verbatim>\<open>confirmation/\<close>) asks the user before a tool runs. A broker queues the requests,
  shows one at a time, and hands decisions to the waiting calls; an optional observer makes
  admissions and decisions durable.
    \<^item> \<open>Confirmation_Types\<close>, \<open>Confirmation_Broker\<close>: \<^verbatim>\<open>types.ts\<close>, \<^verbatim>\<open>non-interactive.ts\<close>, \<^verbatim>\<open>broker.ts\<close>. Every
      \<^verbatim>\<open>await\<close> ends a step; the answers of the observer, the timers and the listeners are
      operations of the environment, so every interleaving is a run (\<open>brokerRun\<close>).
    \<^item> \<open>Confirmation_Invariant\<close>, \<open>Confirmation_Calls\<close>: the shape of queue, entries and commits, and each
      call as a ticket. \<open>Confirmation_Queue\<close>: the head of the queue, and cancelling everything.
    \<^item> \<open>Confirmation_Audit\<close>: the locale of a justification of decisions, whose laws speak of the
      places where decisions enter; interpreted for durability and for approval by a surface.
    \<^item> \<open>Confirmation_Correctness\<close>: the properties, and three runs in which the broker falls short of
      its comments.

  \<^bold>\<open>Security\<close> (\<^verbatim>\<open>security/\<close>) decides for every call of a tool whether it runs, runs after a
  confirmation, or is blocked. The pipeline of middlewares analyses the command, resolves the
  paths, evaluates the policy, classifies the operation and its trust, looks for a permission
  rule and checks the rate.
    \<^item> \<open>Regex\<close>: the functions of strings and the regular expressions that the sources use, as
      syntax trees with a backtracking search. The rounds of a repetition shorten the rest of the
      text, so its length is enough fuel. Characters are the UTF-16 units below 256.
    \<^item> \<open>Security_Types\<close>: \<^verbatim>\<open>types.ts\<close>, \<^verbatim>\<open>trust.ts\<close>, and the host (Node's \<^verbatim>\<open>path\<close>, \<^verbatim>\<open>fs\<close>, \<^verbatim>\<open>os\<close>) as a
      record of functions. \<open>Security_Policy\<close>: \<^verbatim>\<open>policy-engine.ts\<close>, \<^verbatim>\<open>builtin-rules.ts\<close>.
      \<open>Security_Commands\<close>: \<^verbatim>\<open>command-analyzer.ts\<close>. \<open>Security_Classifier\<close>: \<^verbatim>\<open>classifier.ts\<close>,
      \<^verbatim>\<open>boundary-registry.ts\<close>, \<^verbatim>\<open>trust-classifier.ts\<close>, \<^verbatim>\<open>path-guard.ts\<close>; the climb to an existing ancestor
      has the length of the path as fuel, enough on a host whose \<^verbatim>\<open>dirname\<close> shortens paths.
    \<^item> \<open>Security_Durable\<close>: \<^verbatim>\<open>durable-permission-rules.ts\<close>, with the files as JSON values and an outcome
      for every write. \<open>Security_Permissions\<close>: \<^verbatim>\<open>permission-store.ts\<close>, \<^verbatim>\<open>tool-aware-extractor.ts\<close>.
      \<open>Security_Pipeline\<close>: \<^verbatim>\<open>rate-limiter.ts\<close>, \<^verbatim>\<open>execution-guard.ts\<close>, \<^verbatim>\<open>tool-ceiling.ts\<close>,
      \<^verbatim>\<open>security-pipeline.ts\<close>, \<^verbatim>\<open>path-resolve.ts\<close>, \<^verbatim>\<open>permission-matcher.ts\<close>.
    \<^item> \<open>Security_Rules\<close>, \<open>Security_Matching\<close>: the most severe policy rule; globs and the choice of a
      permission rule. \<open>Security_Revocation\<close>: runs of the durable store and the locale of an
      invariant of its rules and revoked ids, interpreted for the ids that stay revoked, the
      scopes, and (\<open>Security_Storage\<close>) the rules that a file can hold. \<open>Security_Sources\<close>: runs of the
      permission store, and snapshots. \<open>Security_Decisions\<close>, \<open>Security_Rate\<close>, \<open>Security_Verdicts\<close>: the
      pipeline against an abstract decision, the bound of the rate, and their consequences.
    \<^item> \<open>Security_Correctness\<close>: the properties, and commands that run without the intended question.

  \<^bold>\<open>The agent loop\<close> (\<^verbatim>\<open>loop/\<close>, \<^verbatim>\<open>interrupt/\<close>) is the heart of the system: it asks the model, runs the
  tools that the answer asks for, and again, until the model asks for none, an error, an abort,
  an exclusive control call or the limit of turns. Its consumer rebuilds the transcript from
  what it yields (\<^verbatim>\<open>orchestrator/src/runtime/track-messages.ts\<close>).
    \<^item> \<open>Loop_Types\<close>: messages, usage, tools, results, yields and events. \<open>Loop_Program\<close>: asynchronous
      generators as programs over an explicit world, with the effects they have in order and
      three ways to end (a value, an exception, abandonment by the consumer), and the predicate
      transformer \<open>ends\<close>. \<open>Loop_Host\<close>: everything outside as a record of operations on the world, so
      aborts, exceptions and abandonment may come at any of them.
    \<^item> \<open>Loop_Tools\<close>: \<^verbatim>\<open>tool-executor.ts\<close>. In a parallel batch the world picks which task moves on;
      a task has at most four phases, so four turns per task settle all (\<open>settleTasks_enough\<close>).
      \<open>Loop_Stream\<close>: \<^verbatim>\<open>llm-call.ts\<close>, \<^verbatim>\<open>stream-race.ts\<close>. \<open>Loop_Run\<close>: \<^verbatim>\<open>agent-loop.ts\<close>, \<^verbatim>\<open>turn-end.ts\<close>,
      \<^verbatim>\<open>token-accounting.ts\<close>; the loop is total because every turn that goes on counts itself.
      \<open>Loop_Records\<close>: \<^verbatim>\<open>track-messages.ts\<close>, \<^verbatim>\<open>run-record-builder.ts\<close>, and the pairing of calls and results.
    \<^item> \<open>Loop_Batch\<close>, \<open>Loop_Parallel\<close>: what a batch leaves behind, and that both ways of running it agree.
      \<open>Loop_Effects\<close>: the locale of a property that every effect of a turn has, interpreted for
      requests, texts and usage. \<open>Loop_Turns\<close>, \<open>Loop_Whole\<close>, \<open>Loop_Account\<close>: turns and runs.
      \<open>Loop_View\<close>: where the messages of a request come from, on any host (\<open>accounted\<close>).
    \<^item> \<open>Loop_Correctness\<close>: the properties, for any host, with a small host for their witnesses.

  \<^bold>\<open>The assignment ledger\<close> (\<^verbatim>\<open>protocol/assignment.ts\<close>, \<^verbatim>\<open>contracts/records.ts\<close>, and
  \<^verbatim>\<open>packages/executor/src/assignment-ledger.ts\<close>) is the durable record of one execution that an owner has
  assigned to an executor: control, start, interactions, side effects, aborts and the end. Each
  entry extends a chain of digests; the results form a second chain, which is mirrored to the owner.
    \<^item> \<open>Ledger_Types\<close>: the records and their JSON form. \<open>Ledger_State\<close>: the validation state and
      \<^verbatim>\<open>applyValidatedAssignmentEntry\<close>, one definition per record; a ledger is a history that replays
      from the empty state (\<open>ledgerState\<close>).
    \<^item> \<open>Ledger_Invariant\<close>: what each record needs and changes, the invariant of the state, and the
      locale of a property of histories and states. \<open>Ledger_History\<close> interprets it for the accounts of
      a history (requests, answers, effects, mutations) and for the mirror chain as a fold of the results.
    \<^item> \<open>Ledger_Chain\<close>: the chain fixes the history up to collisions; closing an aborted ledger, by a
      measure of what is left to settle.
    \<^item> \<open>Ledger_Executor\<close>: the projection that the executor keeps beside the state, its reducer, and the
      batches of results that it selects. \<open>Ledger_Agreement\<close>: the two never diverge. \<open>Ledger_Mirroring\<close>: the
      receipt for a selected batch is accepted.
    \<^item> \<open>Ledger_Correctness\<close>: a small ledger for the witnesses, the automaton of phases, and the properties.

  \<^bold>\<open>Conventions.\<close> A thrown exception is the left side of a sum. Integers of JavaScript that are
  checked to be safe are \<open>int\<close>; ratios and times are rational. Strings are lists of characters
  and \<open>js_length\<close> counts their UTF-16 units where the source uses \<^verbatim>\<open>length\<close>. \<open>Prelude\<close> holds
  what the components share.

  \<^bold>\<open>Not modelled.\<close> File systems and locks, and the bytes of a log inside one event's text; the field checks
  of \<^verbatim>\<open>event-codec.ts\<close> (a parameter); two requests interleaved on one circuit breaker; the
  calls that listeners of the confirmation broker make in the middle of one of its operations, and an
  observer or resolver that throws before it returns a promise; the callback with which the durable
  rules report what a revocation found pending; the
  wrappers of \<^verbatim>\<open>device-capacity.ts\<close> around \<^verbatim>\<open>AsyncLocalStorage\<close>, whose context is an argument of
  \<open>acquire\<close>; integers in canonical JSON from \<^verbatim>\<open>1e21\<close> on, which JavaScript prints with an exponent.
  Of the agent loop, the bus is assumed to isolate its listeners (\<^verbatim>\<open>events/event-bus.ts\<close>), and a
  cut through a surrogate pair drops the pair.
  Of the ledger, entries are taken as validated: the field checks and signatures of
  \<^verbatim>\<open>validateAssignmentEntry\<close>, the checks of the executor against artifacts, envelopes, resources and the
  lease clock, and the checkpoints from which it restarts without the whole history.
  The other packages are process, terminal, network and file I/O around \<^verbatim>\<open>core\<close>. Of \<^verbatim>\<open>core\<close>,
  the scheduler, the approvals and the audit of security, storage
  maintenance and the services that call the advancement store come next.
\<close>

end
